(* ===== verification/LCC_Prelude.thy ===== *)
theory LCC_Prelude
  imports Main "HOL-Library.Code_Target_Numeral"
begin

text \<open>
  What every component of the development shares: the result type of code that throws,
  the part of JavaScript's string library the modelled files call, association-list and
  list lemmas, and the collections of rewrite rules the components extend.

  A JavaScript string is a \<open>char list\<close>: one \<open>char\<close> for each UTF-16 code unit from
  U+0000 to U+00FF (Latin-1). \<open>toLowerCase\<close> and \<open>trim\<close> are closed on these strings
  and are written out exactly for them; code units above U+00FF are outside the model.
\<close>

section \<open>Results of code that throws\<close>

text \<open>
  A call returns \<open>Inr v\<close> or throws \<open>new Error(m)\<close>, which is \<open>Inl m\<close> with the
  error's message.
\<close>

type_synonym 'a outcome = "string + 'a"

named_theorems outcome_simps
named_theorems js_simps

definition rbind :: "'e + 'a \<Rightarrow> ('a \<Rightarrow> 'e + 'b) \<Rightarrow> 'e + 'b" where
  "rbind r f = (case r of Inl e \<Rightarrow> Inl e | Inr x \<Rightarrow> f x)"

lemma rbind_simps [simp, outcome_simps]:
  "rbind (Inl e) f = Inl e"
  "rbind (Inr x) f = f x"
  by (simp_all add: rbind_def)

lemma rbind_Inr_iff [outcome_simps]:
  "rbind r f = Inr y \<longleftrightarrow> (\<exists>x. r = Inr x \<and> f x = Inr y)"
  by (cases r) auto

lemma rbind_Inl_iff [outcome_simps]:
  "rbind r f = Inl e \<longleftrightarrow> r = Inl e \<or> (\<exists>x. r = Inr x \<and> f x = Inl e)"
  by (cases r) auto

lemma rbind_assoc: "rbind (rbind r f) g = rbind r (\<lambda>x. rbind (f x) g)"
  by (cases r) auto

lemma rbind_return [simp]: "rbind r Inr = r"
  by (cases r) auto

lemma rbind_cong [fundef_cong]:
  "r = r' \<Longrightarrow> (\<And>x. r' = Inr x \<Longrightarrow> f x = g x) \<Longrightarrow> rbind r f = rbind r' g"
  by (cases r') auto

lemma rbind_InrE:
  assumes "rbind r f = Inr y"
  obtains x where "r = Inr x" and "f x = Inr y"
  using assms by (auto simp: rbind_Inr_iff)

text \<open>A \<open>for\<close> loop whose body may throw: the state runs through the items in order.\<close>

fun rfold :: "('s \<Rightarrow> 'a \<Rightarrow> 'e + 's) \<Rightarrow> 's \<Rightarrow> 'a list \<Rightarrow> 'e + 's" where
  "rfold f s [] = Inr s"
| "rfold f s (x # xs) = rbind (f s x) (\<lambda>s'. rfold f s' xs)"

lemma rfold_append: "rfold f s (xs @ ys) = rbind (rfold f s xs) (\<lambda>s'. rfold f s' ys)"
  by (induction xs arbitrary: s) (simp_all add: rbind_assoc)

lemma rfold_concat: "rfold f s (concat xss) = rfold (rfold f) s xss"
proof (induction xss arbitrary: s)
  case Nil
  show ?case by simp
next
  case (Cons xs xss)
  then show ?case by (simp add: rfold_append cong: rbind_cong)
qed

lemma rfold_invariant:
  assumes "rfold f s xs = Inr s'" and "P s"
    and "\<And>s x s'. P s \<Longrightarrow> f s x = Inr s' \<Longrightarrow> P s'"
  shows "P s'"
  using assms(1,2) by (induction xs arbitrary: s) (auto simp: rbind_Inr_iff intro: assms(3))

section \<open>Characters and strings\<close>

definition code_unit :: "char \<Rightarrow> nat" where
  "code_unit c = of_char c"

definition from_unit :: "nat \<Rightarrow> char" where
  "from_unit n = char_of n"

text \<open>\<open>\s\<close> and the characters \<open>String.prototype.trim\<close> removes.\<close>

definition js_space :: "char \<Rightarrow> bool" where
  "js_space c \<longleftrightarrow> code_unit c \<in> {9, 10, 11, 12, 13, 32, 160}"

definition js_digit :: "char \<Rightarrow> bool" where
  "js_digit c \<longleftrightarrow> 48 \<le> code_unit c \<and> code_unit c \<le> 57"

definition js_upper_ascii :: "char \<Rightarrow> bool" where
  "js_upper_ascii c \<longleftrightarrow> 65 \<le> code_unit c \<and> code_unit c \<le> 90"

definition js_lower_ascii :: "char \<Rightarrow> bool" where
  "js_lower_ascii c \<longleftrightarrow> 97 \<le> code_unit c \<and> code_unit c \<le> 122"

definition js_alnum :: "char \<Rightarrow> bool" where
  "js_alnum c \<longleftrightarrow> js_digit c \<or> js_upper_ascii c \<or> js_lower_ascii c"

definition js_hex :: "char \<Rightarrow> bool" where
  "js_hex c \<longleftrightarrow> js_digit c \<or> (65 \<le> code_unit c \<and> code_unit c \<le> 70) \<or> (97 \<le> code_unit c \<and> code_unit c \<le> 102)"

definition lower_char :: "char \<Rightarrow> char" where
  "lower_char c =
     (if js_upper_ascii c \<or> (192 \<le> code_unit c \<and> code_unit c \<le> 222 \<and> code_unit c \<noteq> 215)
      then from_unit (code_unit c + 32) else c)"

definition js_lower :: "string \<Rightarrow> string" where
  "js_lower s = map lower_char s"

definition js_trim :: "string \<Rightarrow> string" where
  "js_trim s = rev (dropWhile js_space (rev (dropWhile js_space s)))"

fun js_starts :: "string \<Rightarrow> string \<Rightarrow> bool" where
  "js_starts s [] = True"
| "js_starts [] (p # ps) = False"
| "js_starts (c # cs) (p # ps) = (c = p \<and> js_starts cs ps)"

fun js_includes :: "string \<Rightarrow> string \<Rightarrow> bool" where
  "js_includes [] p = (p = [])"
| "js_includes (c # cs) p = (js_starts (c # cs) p \<or> js_includes cs p)"

text \<open>\<open>s.split(c)\<close> for a one-character separator.\<close>

fun js_split :: "(char \<Rightarrow> bool) \<Rightarrow> string \<Rightarrow> string list" where
  "js_split p [] = [[]]"
| "js_split p (c # cs) =
     (if p c then [] # js_split p cs
      else (case js_split p cs of [] \<Rightarrow> [[c]] | w # ws \<Rightarrow> (c # w) # ws))"

fun js_join :: "string \<Rightarrow> string list \<Rightarrow> string" where
  "js_join sep [] = []"
| "js_join sep [x] = x"
| "js_join sep (x # y # ys) = x @ sep @ js_join sep (y # ys)"

lemma code_unit_less [simp]: "code_unit c < 256"
  by (simp add: code_unit_def)

lemma from_unit_code_unit [simp]: "from_unit (code_unit c) = c"
  by (simp add: from_unit_def code_unit_def)

lemma code_unit_from_unit [simp]: "n < 256 \<Longrightarrow> code_unit (from_unit n) = n"
  by (simp add: from_unit_def code_unit_def)

lemma code_unit_eq_iff: "code_unit c = code_unit d \<longleftrightarrow> c = d"
  by (metis from_unit_code_unit)

lemmas char_class_defs [js_simps] =
  js_space_def js_digit_def js_upper_ascii_def js_lower_ascii_def js_alnum_def js_hex_def code_unit_def

lemma js_starts_append: "js_starts s p \<longleftrightarrow> (\<exists>r. s = p @ r)"
  by (induction s p rule: js_starts.induct) auto

lemma js_includes_iff: "js_includes s p \<longleftrightarrow> (\<exists>a b. s = a @ p @ b)"
proof (induction s)
  case Nil
  show ?case by auto
next
  case (Cons c cs)
  have "(\<exists>a b. c # cs = a @ p @ b) \<longleftrightarrow> (\<exists>b. c # cs = p @ b) \<or> (\<exists>a b. cs = a @ p @ b)"
    by (metis Cons_eq_append_conv append_Nil append_Cons)
  then show ?case by (simp only: js_includes.simps js_starts_append Cons.IH)
qed

lemma js_split_not_Nil [simp]: "js_split p s \<noteq> []"
  by (induction s) (auto split: list.splits)

lemma js_split_parts: "w \<in> set (js_split p s) \<Longrightarrow> c \<in> set w \<Longrightarrow> \<not> p c \<and> c \<in> set s"
  by (induction s arbitrary: w) (auto split: list.splits if_splits, fastforce+)

lemma dropWhile_all_not: "(\<forall>x \<in> set xs. \<not> P x) \<Longrightarrow> dropWhile P xs = xs"
  by (cases xs) auto

lemma js_trim_id: "(\<forall>c \<in> set s. \<not> js_space c) \<Longrightarrow> js_trim s = s"
  by (simp add: js_trim_def dropWhile_all_not)

lemma set_dropWhile_subset: "set (dropWhile P xs) \<subseteq> set xs"
  by (metis set_dropWhileD subsetI)

lemma js_trim_subset: "set (js_trim s) \<subseteq> set s"
  unfolding js_trim_def by (metis (no_types, lifting) set_dropWhileD set_rev subsetI)

lemma js_trim_length: "length (js_trim s) \<le> length s"
  unfolding js_trim_def by (metis length_dropWhile_le length_rev le_trans)

lemma hd_dropWhile_not: "dropWhile P xs \<noteq> [] \<Longrightarrow> \<not> P (hd (dropWhile P xs))"
  by (induction xs) auto

lemma last_dropWhile: "dropWhile P xs \<noteq> [] \<Longrightarrow> last (dropWhile P xs) = last xs"
  by (induction xs) auto

lemma js_trim_Nil [simp]: "js_trim [] = []"
  by (simp add: js_trim_def)

lemma js_trim_idem [simp]: "js_trim (js_trim s) = js_trim s"
proof (cases "js_trim s = []")
  case True
  then show ?thesis by simp
next
  case False
  define u where "u = dropWhile js_space s"
  have t: "js_trim s = rev (dropWhile js_space (rev u))"
    by (simp add: js_trim_def u_def)
  from False t have ne: "dropWhile js_space (rev u) \<noteq> []" by auto
  then have une: "u \<noteq> []" by auto
  have "hd (js_trim s) = hd u"
    using t ne une last_dropWhile [OF ne] by (simp add: hd_rev last_rev)
  moreover have "\<not> js_space (hd u)"
    using une unfolding u_def by (rule hd_dropWhile_not)
  ultimately have 1: "dropWhile js_space (js_trim s) = js_trim s"
    using False by (cases "js_trim s") auto
  have "\<not> js_space (last (js_trim s))"
    using hd_dropWhile_not [OF ne] t ne by (simp add: last_rev)
  then have "dropWhile js_space (rev (js_trim s)) = rev (js_trim s)"
    using False by (cases "rev (js_trim s)") (auto simp: last_rev [symmetric])
  with 1 show ?thesis by (simp add: js_trim_def [of "js_trim s"])
qed

section \<open>Decimal numerals\<close>

text \<open>\<open>String(n)\<close> for a non-negative integer, and the value of a run of digits.\<close>

definition digit_char :: "nat \<Rightarrow> char" where
  "digit_char d = from_unit (48 + d)"

fun dec :: "nat \<Rightarrow> string" where
  "dec n = (if n < 10 then [digit_char n] else dec (n div 10) @ [digit_char (n mod 10)])"

declare dec.simps [simp del]

definition digit_value :: "char \<Rightarrow> nat" where
  "digit_value c = code_unit c - 48"

definition digits_value :: "string \<Rightarrow> nat" where
  "digits_value s = foldl (\<lambda>v c. 10 * v + digit_value c) 0 s"

text \<open>\<open>/^[0-9]+$/\<close>.\<close>

definition all_digits :: "string \<Rightarrow> bool" where
  "all_digits s \<longleftrightarrow> s \<noteq> [] \<and> list_all js_digit s"

lemma digit_value_char [simp]: "d < 10 \<Longrightarrow> digit_value (digit_char d) = d"
  by (simp add: digit_value_def digit_char_def)

lemma js_digit_char [simp]: "d < 10 \<Longrightarrow> js_digit (digit_char d)"
  by (simp add: js_digit_def digit_char_def)

lemma digits_value_snoc [simp]: "digits_value (s @ [c]) = 10 * digits_value s + digit_value c"
  by (simp add: digits_value_def)

lemma digits_value_single [simp]: "digits_value [c] = digit_value c"
  by (simp add: digits_value_def)

lemma dec_all_digits [simp]: "all_digits (dec n)"
proof (induction n rule: dec.induct)
  case (1 n)
  then show ?case by (subst dec.simps) (auto simp: all_digits_def)
qed

lemma digits_value_dec [simp]: "digits_value (dec n) = n"
proof (induction n rule: dec.induct)
  case (1 n)
  then show ?case by (subst dec.simps) auto
qed

lemma dec_digit: "c \<in> set (dec n) \<Longrightarrow> js_digit c"
  using dec_all_digits [of n] by (auto simp: all_digits_def list_all_iff)

lemma dec_not_Nil [simp]: "dec n \<noteq> []"
  using dec_all_digits [of n] by (auto simp: all_digits_def)

lemma dec_inj: "dec m = dec n \<longleftrightarrow> m = n"
  by (metis digits_value_dec)

section \<open>Lists and maps\<close>

text \<open>Keep the first of equal elements, as the code's \<open>seen\<close> sets do.\<close>

fun uniq_from :: "'a set \<Rightarrow> 'a list \<Rightarrow> 'a list" where
  "uniq_from seen [] = []"
| "uniq_from seen (x # xs) = (if x \<in> seen then uniq_from seen xs else x # uniq_from (insert x seen) xs)"

lemma set_uniq_from: "set (uniq_from seen xs) = set xs - seen"
  by (induction xs arbitrary: seen) auto

lemma distinct_uniq_from: "distinct (uniq_from seen xs)"
  by (induction xs arbitrary: seen) (auto simp: set_uniq_from)

lemma uniq_from_id: "distinct xs \<Longrightarrow> set xs \<inter> seen = {} \<Longrightarrow> uniq_from seen xs = xs"
  by (induction xs arbitrary: seen) auto

lemma length_uniq_from: "length (uniq_from seen xs) \<le> length xs"
  by (induction xs arbitrary: seen) (auto intro: le_SucI)

definition max_safe_integer :: nat where
  "max_safe_integer = 9007199254740991"

end
