(* ===== verification/Snapshot_Inventory.thy ===== *)
theory Snapshot_Inventory
  imports LCC_Prelude
begin

text \<open>
  \<open>services/cloudflare-d1-backup/src/snapshot-inventory.ts\<close>: the scanner that counts, while a
  D1 export streams by, the rows inserted into each counted table.

  The model keeps the file's two machines. The interpreter (\<open>interp\<close>,
  \<open>interp_token\<close>, \<open>end_statement\<close>, \<open>interp_finish\<close>) reads tokens and counts rows; the
  tokenizer (\<open>tokenizer\<close>, \<open>write_character\<close>, \<open>tokenizer_finish\<close>) reads characters
  and feeds it. A thrown \<open>Error\<close> is \<open>Inl\<close> of its message.
\<close>

section \<open>The interpreter\<close>

definition snapshot_counted_tables :: "string list" where
  "snapshot_counted_tables = [
    ''device_bound_devices'', ''device_bound_bindings'', ''device_bound_events'',
    ''device_bound_operations'', ''entitlements'', ''entitlement_events'',
    ''mutation_idempotency'', ''customers'', ''licenses'', ''orders'', ''order_events'',
    ''customer_events'', ''entitlement_policies'', ''policy_events'', ''webhook_endpoints'',
    ''audit_digests'', ''catalog_features'', ''catalog_plans'', ''catalog_plan_features'',
    ''license_plan_assignments'', ''catalog_events'', ''webhook_events'',
    ''license_plan_assignment_events'']"

definition counted :: "string \<Rightarrow> bool" where
  "counted t \<longleftrightarrow> t \<in> set snapshot_counted_tables"

datatype sql_token_kind = Word | Identifier | StringToken | Punctuation

datatype phase = Start | CreateAfterCreate | CreateAfterTable | CreateAfterIf | CreateAfterNot
  | CreateDone | InsertSeekInto | InsertTable | InsertSeekValues | InsertValues | Ignored

record interp =
  created_tables :: "string set"
  inserted_tables :: "string set"
  counts :: "string \<rightharpoonup> nat"
  phase_of :: phase
  current_insert_table :: "string option"
  insert_header_depth :: nat
  insert_value_depth :: nat
  insert_row_count :: nat
  insert_prefix_tokens :: nat

definition interp_init :: interp where
  "interp_init = \<lparr>created_tables = {}, inserted_tables = {}, counts = Map.empty, phase_of = Start,
     current_insert_table = None, insert_header_depth = 0, insert_value_depth = 0,
     insert_row_count = 0, insert_prefix_tokens = 0\<rparr>"

definition reset_statement :: "interp \<Rightarrow> interp" where
  "reset_statement s = s\<lparr>phase_of := Start, current_insert_table := None, insert_header_depth := 0,
     insert_value_depth := 0, insert_row_count := 0, insert_prefix_tokens := 0\<rparr>"

definition is_safe :: "nat \<Rightarrow> bool" where
  "is_safe n \<longleftrightarrow> n \<le> max_safe_integer"

definition count_of :: "interp \<Rightarrow> string \<Rightarrow> nat" where
  "count_of s t = (case counts s t of None \<Rightarrow> 0 | Some n \<Rightarrow> n)"

definition end_statement :: "interp \<Rightarrow> interp outcome" where
  "end_statement s =
     (case current_insert_table s of
        Some t \<Rightarrow>
          if counted t then
            if phase_of s \<noteq> InsertValues \<or> insert_value_depth s \<noteq> 0 \<or> insert_row_count s < 1
            then Inl ''snapshot_inventory_unsupported_insert''
            else let n = count_of s t + insert_row_count s in
              if \<not> is_safe n then Inl ''snapshot_inventory_count_overflow''
              else Inr (reset_statement (s\<lparr>counts := (counts s)(t \<mapsto> n),
                                          inserted_tables := insert t (inserted_tables s)\<rparr>))
          else Inr (reset_statement s)
      | None \<Rightarrow> Inr (reset_statement s))"

definition record_created_table :: "interp \<Rightarrow> sql_token_kind \<Rightarrow> string \<Rightarrow> interp outcome" where
  "record_created_table s k t =
     (if k \<noteq> Word \<and> k \<noteq> Identifier then Inr (s\<lparr>phase_of := Ignored\<rparr>)
      else if counted t then
        if t \<in> created_tables s then Inl ''snapshot_inventory_duplicate_table_definition''
        else Inr (s\<lparr>created_tables := insert t (created_tables s),
                    counts := (counts s)(t \<mapsto> 0), phase_of := CreateDone\<rparr>)
      else Inr (s\<lparr>phase_of := CreateDone\<rparr>))"

definition interp_token :: "interp \<Rightarrow> sql_token_kind \<Rightarrow> string \<Rightarrow> interp outcome" where
  "interp_token s k raw =
     (if k = Punctuation \<and> raw = '';'' then end_statement s
      else let v = js_lower raw in
        case phase_of s of
          Start \<Rightarrow>
            if k = Word \<and> v = ''create'' then Inr (s\<lparr>phase_of := CreateAfterCreate\<rparr>)
            else if k = Word \<and> v = ''insert'' then Inr (s\<lparr>phase_of := InsertSeekInto\<rparr>)
            else Inr (s\<lparr>phase_of := Ignored\<rparr>)
        | CreateAfterCreate \<Rightarrow>
            Inr (s\<lparr>phase_of := (if k = Word \<and> v = ''table'' then CreateAfterTable else Ignored)\<rparr>)
        | CreateAfterTable \<Rightarrow>
            if k = Word \<and> v = ''if'' then Inr (s\<lparr>phase_of := CreateAfterIf\<rparr>)
            else record_created_table s k v
        | CreateAfterIf \<Rightarrow>
            Inr (s\<lparr>phase_of := (if k = Word \<and> v = ''not'' then CreateAfterNot else Ignored)\<rparr>)
        | CreateAfterNot \<Rightarrow>
            Inr (s\<lparr>phase_of := (if k = Word \<and> v = ''exists'' then CreateAfterTable else Ignored)\<rparr>)
        | InsertSeekInto \<Rightarrow>
            let s1 = s\<lparr>insert_prefix_tokens := insert_prefix_tokens s + 1\<rparr> in
            if k = Word \<and> v = ''into'' then Inr (s1\<lparr>phase_of := InsertTable\<rparr>)
            else if insert_prefix_tokens s1 > 4 then Inr (s1\<lparr>phase_of := Ignored\<rparr>)
            else Inr s1
        | InsertTable \<Rightarrow>
            if k = Word \<or> k = Identifier
            then Inr (s\<lparr>current_insert_table := Some v, phase_of := InsertSeekValues\<rparr>)
            else Inr (s\<lparr>phase_of := Ignored\<rparr>)
        | InsertSeekValues \<Rightarrow>
            if k = Punctuation \<and> raw = ''('' then
              Inr (s\<lparr>insert_header_depth := insert_header_depth s + 1\<rparr>)
            else if k = Punctuation \<and> raw = '')'' then
              if insert_header_depth s < 1 then Inr (s\<lparr>phase_of := Ignored\<rparr>)
              else Inr (s\<lparr>insert_header_depth := insert_header_depth s - 1\<rparr>)
            else if k = Word \<and> v = ''values'' \<and> insert_header_depth s = 0 then
              Inr (s\<lparr>phase_of := InsertValues\<rparr>)
            else if k = Word \<and> v = ''select'' \<and> insert_header_depth s = 0 then
              Inr (s\<lparr>phase_of := Ignored\<rparr>)
            else Inr s
        | InsertValues \<Rightarrow>
            if k = Punctuation \<and> raw = ''('' then
              if insert_value_depth s = 0 then
                let n = insert_row_count s + 1 in
                if \<not> is_safe n then Inl ''snapshot_inventory_count_overflow''
                else Inr (s\<lparr>insert_row_count := n, insert_value_depth := insert_value_depth s + 1\<rparr>)
              else Inr (s\<lparr>insert_value_depth := insert_value_depth s + 1\<rparr>)
            else if k = Punctuation \<and> raw = '')'' then
              if insert_value_depth s < 1 then Inr (s\<lparr>phase_of := Ignored\<rparr>)
              else Inr (s\<lparr>insert_value_depth := insert_value_depth s - 1\<rparr>)
            else Inr s
        | CreateDone \<Rightarrow> Inr s
        | Ignored \<Rightarrow> Inr s)"

record snapshot_inventory =
  table_counts :: "(string \<times> nat) list"

text \<open>The \<open>algorithm\<close> field of the inventory is a constant of the code.\<close>

definition inventory_algorithm :: string where
  "inventory_algorithm = ''d1-export-sql-insert-count-v1''"

definition report_counts :: "interp \<Rightarrow> (string \<times> nat) list" where
  "report_counts s =
     concat (map (\<lambda>t. case counts s t of None \<Rightarrow> [] | Some n \<Rightarrow> [(t, n)]) snapshot_counted_tables)"

definition interp_finish :: "interp \<Rightarrow> snapshot_inventory outcome" where
  "interp_finish s0 =
     rbind (if phase_of s0 \<noteq> Start then end_statement s0 else Inr s0)
       (\<lambda>s. if \<not> (\<forall>t \<in> inserted_tables s. t \<in> created_tables s)
            then Inl ''snapshot_inventory_table_definition_missing''
            else Inr \<lparr>table_counts = report_counts s\<rparr>)"

section \<open>The tokenizer\<close>

datatype mode = Normal | Dash | Slash | LineComment | BlockComment | BlockCommentStar
  | SingleQuote | SingleQuoteEnd | DoubleQuote | DoubleQuoteEnd | Backtick | BacktickEnd | Bracket

record tokenizer =
  inter :: interp
  mode_of :: mode
  word :: string
  quoted_identifier :: string

definition tokenizer_init :: tokenizer where
  "tokenizer_init = \<lparr>inter = interp_init, mode_of = Normal, word = [], quoted_identifier = []\<rparr>"

text \<open>\<open>/^[A-Za-z0-9_$]$/\<close>.\<close>

definition word_char :: "char \<Rightarrow> bool" where
  "word_char c \<longleftrightarrow> js_alnum c \<or> c = CHR ''_'' \<or> c = CHR ''$''"

definition append_word :: "tokenizer \<Rightarrow> char \<Rightarrow> tokenizer" where
  "append_word t c = (if length (word t) < 256 then t\<lparr>word := word t @ [c]\<rparr> else t)"

definition append_quoted_identifier :: "tokenizer \<Rightarrow> char \<Rightarrow> tokenizer" where
  "append_quoted_identifier t c =
     (if length (quoted_identifier t) < 256 then t\<lparr>quoted_identifier := quoted_identifier t @ [c]\<rparr> else t)"

definition emit :: "tokenizer \<Rightarrow> sql_token_kind \<Rightarrow> string \<Rightarrow> tokenizer outcome" where
  "emit t k v = rbind (interp_token (inter t) k v) (\<lambda>i. Inr (t\<lparr>inter := i\<rparr>))"

definition flush_word :: "tokenizer \<Rightarrow> tokenizer outcome" where
  "flush_word t =
     (if word t \<noteq> [] then rbind (emit t Word (word t)) (\<lambda>t'. Inr (t'\<lparr>word := []\<rparr>)) else Inr t)"

definition flush_quoted_identifier :: "tokenizer \<Rightarrow> tokenizer outcome" where
  "flush_quoted_identifier t =
     rbind (emit t Identifier (quoted_identifier t)) (\<lambda>t'. Inr (t'\<lparr>quoted_identifier := []\<rparr>))"

text \<open>
  \<open>writeCharacter\<close>. The code's \<open>reprocess\<close> loop runs the character again in mode
  \<open>normal\<close>, where no branch asks for another round: \<open>write_normal\<close> is that round.
\<close>

definition write_normal :: "tokenizer \<Rightarrow> char \<Rightarrow> tokenizer outcome" where
  "write_normal t c =
     (if word_char c then Inr (append_word t c)
      else rbind (flush_word t) (\<lambda>t1.
        if js_space c then Inr t1
        else if c = CHR ''-'' then Inr (t1\<lparr>mode_of := Dash\<rparr>)
        else if c = CHR ''/'' then Inr (t1\<lparr>mode_of := Slash\<rparr>)
        else if c = CHR 0x27 then Inr (t1\<lparr>mode_of := SingleQuote\<rparr>)
        else if c = CHR 0x22 then Inr (t1\<lparr>quoted_identifier := [], mode_of := DoubleQuote\<rparr>)
        else if c = CHR 0x60 then Inr (t1\<lparr>quoted_identifier := [], mode_of := Backtick\<rparr>)
        else if c = CHR ''['' then Inr (t1\<lparr>quoted_identifier := [], mode_of := Bracket\<rparr>)
        else emit t1 Punctuation [c]))"

definition back_to_normal :: "tokenizer outcome \<Rightarrow> char \<Rightarrow> tokenizer outcome" where
  "back_to_normal r c = rbind r (\<lambda>t. write_normal (t\<lparr>mode_of := Normal\<rparr>) c)"

definition write_character :: "tokenizer \<Rightarrow> char \<Rightarrow> tokenizer outcome" where
  "write_character t c =
     (case mode_of t of
        Normal \<Rightarrow> write_normal t c
      | Dash \<Rightarrow>
          if c = CHR ''-'' then Inr (t\<lparr>mode_of := LineComment\<rparr>)
          else back_to_normal (emit t Punctuation ''-'') c
      | Slash \<Rightarrow>
          if c = CHR ''*'' then Inr (t\<lparr>mode_of := BlockComment\<rparr>)
          else back_to_normal (emit t Punctuation ''/'') c
      | LineComment \<Rightarrow>
          if c = CHR 0x0A \<or> c = CHR 0x0D then Inr (t\<lparr>mode_of := Normal\<rparr>) else Inr t
      | BlockComment \<Rightarrow> if c = CHR ''*'' then Inr (t\<lparr>mode_of := BlockCommentStar\<rparr>) else Inr t
      | BlockCommentStar \<Rightarrow>
          if c = CHR ''/'' then Inr (t\<lparr>mode_of := Normal\<rparr>)
          else if c \<noteq> CHR ''*'' then Inr (t\<lparr>mode_of := BlockComment\<rparr>) else Inr t
      | SingleQuote \<Rightarrow> if c = CHR 0x27 then Inr (t\<lparr>mode_of := SingleQuoteEnd\<rparr>) else Inr t
      | SingleQuoteEnd \<Rightarrow>
          if c = CHR 0x27 then Inr (t\<lparr>mode_of := SingleQuote\<rparr>)
          else back_to_normal (emit t StringToken []) c
      | DoubleQuote \<Rightarrow>
          if c = CHR 0x22 then Inr (t\<lparr>mode_of := DoubleQuoteEnd\<rparr>) else Inr (append_quoted_identifier t c)
      | DoubleQuoteEnd \<Rightarrow>
          if c = CHR 0x22 then Inr ((append_quoted_identifier t c)\<lparr>mode_of := DoubleQuote\<rparr>)
          else back_to_normal (flush_quoted_identifier t) c
      | Backtick \<Rightarrow>
          if c = CHR 0x60 then Inr (t\<lparr>mode_of := BacktickEnd\<rparr>) else Inr (append_quoted_identifier t c)
      | BacktickEnd \<Rightarrow>
          if c = CHR 0x60 then Inr ((append_quoted_identifier t c)\<lparr>mode_of := Backtick\<rparr>)
          else back_to_normal (flush_quoted_identifier t) c
      | Bracket \<Rightarrow>
          if c = CHR '']'' then rbind (flush_quoted_identifier t) (\<lambda>t1. Inr (t1\<lparr>mode_of := Normal\<rparr>))
          else Inr (append_quoted_identifier t c))"

definition write_text :: "tokenizer \<Rightarrow> string \<Rightarrow> tokenizer outcome" where
  "write_text t s = rfold write_character t s"

text \<open>\<open>finish\<close>, after the decoder's last characters have been written.\<close>

definition tokenizer_finish :: "tokenizer \<Rightarrow> snapshot_inventory outcome" where
  "tokenizer_finish t =
     rbind (case mode_of t of
              Normal \<Rightarrow> flush_word t
            | Dash \<Rightarrow> emit t Punctuation ''-''
            | Slash \<Rightarrow> emit t Punctuation ''/''
            | LineComment \<Rightarrow> Inr t
            | SingleQuoteEnd \<Rightarrow> emit t StringToken []
            | DoubleQuoteEnd \<Rightarrow> flush_quoted_identifier t
            | BacktickEnd \<Rightarrow> flush_quoted_identifier t
            | _ \<Rightarrow> Inl ''snapshot_inventory_invalid_sql_stream'')
       (\<lambda>t1. interp_finish (inter t1))"

definition inventory_of_text :: "string \<Rightarrow> snapshot_inventory outcome" where
  "inventory_of_text s = rbind (write_text tokenizer_init s) tokenizer_finish"

end
