(* ===== verification/Snapshot_Correct.thy ===== *)
theory Snapshot_Correct
  imports Snapshot_Inventory
begin

text \<open>
  What the snapshot scanner promises: its state invariant, the tokens it sees in any text
  that is a sequence of SQL lexemes (so that no exported value can forge a token), and the
  counts it reports for a well-formed dump.
\<close>

section \<open>The interpreter's invariant\<close>

definition interp_inv :: "interp \<Rightarrow> bool" where
  "interp_inv s \<longleftrightarrow>
     (\<forall>t. counts s t \<noteq> None \<longleftrightarrow> t \<in> created_tables s \<or> t \<in> inserted_tables s)
     \<and> (\<forall>t. counts s t \<noteq> None \<longrightarrow> counted t)
     \<and> (\<forall>t n. counts s t = Some n \<longrightarrow> is_safe n)
     \<and> is_safe (insert_row_count s)
     \<and> (current_insert_table s \<noteq> None \<longrightarrow> phase_of s \<in> {InsertSeekValues, InsertValues, Ignored})"

lemma interp_inv_init: "interp_inv interp_init"
  by (simp add: interp_inv_def interp_init_def is_safe_def)

lemma end_statement_inv:
  assumes "interp_inv s" and "end_statement s = Inr s'"
  shows "interp_inv s' \<and> phase_of s' = Start"
  using assms
  by (auto simp: end_statement_def interp_inv_def reset_statement_def Let_def is_safe_def
        split: option.splits if_splits)

lemma record_created_table_inv:
  assumes "interp_inv s" and "phase_of s = CreateAfterTable" and "record_created_table s k t = Inr s'"
  shows "interp_inv s'"
  using assms
  by (auto simp: record_created_table_def interp_inv_def is_safe_def split: if_splits)

lemma interp_token_inv:
  assumes "interp_inv s" and "interp_token s k v = Inr s'"
  shows "interp_inv s'"
proof (cases "k = Punctuation \<and> v = '';''")
  case True
  with assms show ?thesis by (auto simp: interp_token_def dest: end_statement_inv)
next
  case False
  show ?thesis
  proof (cases "phase_of s = CreateAfterTable")
    case True
    with False assms have "s' = s\<lparr>phase_of := CreateAfterIf\<rparr> \<or> record_created_table s k (js_lower v) = Inr s'"
      by (auto simp: interp_token_def Let_def split: if_splits)
    then show ?thesis
    proof
      assume "s' = s\<lparr>phase_of := CreateAfterIf\<rparr>"
      with assms(1) True show ?thesis by (auto simp: interp_inv_def)
    next
      assume "record_created_table s k (js_lower v) = Inr s'"
      with assms(1) True show ?thesis by (rule record_created_table_inv)
    qed
  next
    case ph: False
    note step = False ph assms(2)
    have frame: "counts s' = counts s \<and> created_tables s' = created_tables s \<and> inserted_tables s' = inserted_tables s"
      using step by (cases "phase_of s") (auto simp: interp_token_def Let_def split: if_splits)
    have safe: "is_safe (insert_row_count s) \<Longrightarrow> is_safe (insert_row_count s')"
      using step by (cases "phase_of s") (auto simp: interp_token_def Let_def split: if_splits)
    have cur: "(current_insert_table s \<noteq> None \<longrightarrow> phase_of s \<in> {InsertSeekValues, InsertValues, Ignored})
       \<Longrightarrow> (current_insert_table s' \<noteq> None \<longrightarrow> phase_of s' \<in> {InsertSeekValues, InsertValues, Ignored})"
      using step by (cases "phase_of s") (auto simp: interp_token_def Let_def split: if_splits)
    show ?thesis using assms(1) safe cur unfolding interp_inv_def by (simp only: frame) blast
  qed
qed

lemma interp_finish_inv:
  assumes "interp_inv s" and "interp_finish s = Inr r"
  obtains s' where "interp_inv s'" and "inserted_tables s' \<subseteq> created_tables s'"
    and "r = \<lparr>table_counts = report_counts s'\<rparr>"
proof -
  from assms(2) obtain s' where s': "s' = s \<or> end_statement s = Inr s'"
    and fin: "inserted_tables s' \<subseteq> created_tables s'" "r = \<lparr>table_counts = report_counts s'\<rparr>"
    by (auto simp: interp_finish_def rbind_Inr_iff split: if_splits)
  from s' assms(1) have "interp_inv s'" by (auto dest: end_statement_inv)
  with fin show ?thesis using that by blast
qed

section \<open>Feeding tokens; the scanner only ever feeds tokens\<close>

type_synonym sql_token = "sql_token_kind \<times> string"

definition feed :: "interp \<Rightarrow> sql_token list \<Rightarrow> interp outcome" where
  "feed s ts = rfold (\<lambda>s (k, v). interp_token s k v) s ts"

lemma feed_simps [simp]:
  "feed s [] = Inr s"
  "feed s ((k, v) # ts) = rbind (interp_token s k v) (\<lambda>s'. feed s' ts)"
  by (simp_all add: feed_def)

lemma feed_append: "feed s (xs @ ys) = rbind (feed s xs) (\<lambda>s'. feed s' ys)"
  by (simp add: feed_def rfold_append)

lemma feed_inv: "feed s ts = Inr s' \<Longrightarrow> interp_inv s \<Longrightarrow> interp_inv s'"
  unfolding feed_def
  by (erule rfold_invariant [where P = interp_inv]) (auto intro: interp_token_inv split: prod.splits)

lemma emit_inv: "emit t k v = Inr t' \<Longrightarrow> interp_inv (inter t) \<Longrightarrow> interp_inv (inter t')"
  by (auto simp: emit_def rbind_Inr_iff intro: interp_token_inv)

lemma flush_word_inv: "flush_word t = Inr t' \<Longrightarrow> interp_inv (inter t) \<Longrightarrow> interp_inv (inter t')"
  by (auto simp: flush_word_def rbind_Inr_iff split: if_splits dest: emit_inv)

lemma flush_quoted_identifier_inv:
  "flush_quoted_identifier t = Inr t' \<Longrightarrow> interp_inv (inter t) \<Longrightarrow> interp_inv (inter t')"
  by (auto simp: flush_quoted_identifier_def rbind_Inr_iff dest: emit_inv)

lemma append_inter [simp]:
  "inter (append_word t c) = inter t"
  "inter (append_quoted_identifier t c) = inter t"
  by (simp_all add: append_word_def append_quoted_identifier_def)

lemma write_normal_inv:
  assumes "write_normal t c = Inr t'" and "interp_inv (inter t)"
  shows "interp_inv (inter t')"
  using assms
  by (auto simp: write_normal_def rbind_Inr_iff split: if_splits dest: flush_word_inv emit_inv)

lemma back_to_normal_inv:
  assumes "back_to_normal r c = Inr t'" and "\<And>t. r = Inr t \<Longrightarrow> interp_inv (inter t)"
  shows "interp_inv (inter t')"
proof -
  from assms(1) obtain t where "r = Inr t" and "write_normal (t\<lparr>mode_of := Normal\<rparr>) c = Inr t'"
    by (auto simp: back_to_normal_def rbind_Inr_iff)
  with assms(2) show ?thesis using write_normal_inv [of "t\<lparr>mode_of := Normal\<rparr>" c t'] by simp
qed

lemma write_character_inv:
  assumes "write_character t c = Inr t'" and "interp_inv (inter t)"
  shows "interp_inv (inter t')"
  using assms
  by (cases "mode_of t")
    (auto simp: write_character_def rbind_Inr_iff split: if_splits elim!: back_to_normal_inv
      dest: write_normal_inv emit_inv flush_quoted_identifier_inv)

lemma write_text_inv:
  assumes "write_text t s = Inr t'" and "interp_inv (inter t)"
  shows "interp_inv (inter t')"
  using assms unfolding write_text_def
  by (rule rfold_invariant [where P = "\<lambda>t. interp_inv (inter t)"]) (rule write_character_inv)

lemma tokenizer_finish_inv:
  assumes "tokenizer_finish t = Inr r" and "interp_inv (inter t)"
  obtains s' where "interp_inv s'" and "inserted_tables s' \<subseteq> created_tables s'"
    and "r = \<lparr>table_counts = report_counts s'\<rparr>"
proof -
  from assms(1) obtain t1 where fin: "interp_finish (inter t1) = Inr r"
    and t1: "flush_word t = Inr t1 \<or> emit t Punctuation ''-'' = Inr t1 \<or> emit t Punctuation ''/'' = Inr t1
       \<or> t1 = t \<or> emit t StringToken [] = Inr t1 \<or> flush_quoted_identifier t = Inr t1"
    unfolding tokenizer_finish_def by (cases "mode_of t") (auto simp: rbind_Inr_iff)
  from t1 assms(2) have "interp_inv (inter t1)"
    by (auto dest: flush_word_inv emit_inv flush_quoted_identifier_inv)
  from interp_finish_inv [OF this fin] show ?thesis using that by blast
qed

section \<open>Lexemes\<close>

text \<open>
  A text the scanner reads is a sequence of lexemes. A string literal or a quoted
  identifier doubles its quote character; nothing else in it is escaped, and its contents
  are arbitrary.
\<close>

datatype lexeme = LWord string | LText string | LIdent string | LPunct char | LSpace char
  | LDash | LLine string | LBlock string

definition esc :: "char \<Rightarrow> string \<Rightarrow> string" where
  "esc q s = concat (map (\<lambda>c. if c = q then [q, q] else [c]) s)"

fun render_lexeme :: "lexeme \<Rightarrow> string" where
  "render_lexeme (LWord w) = w"
| "render_lexeme (LText s) = [CHR 0x27] @ esc (CHR 0x27) s @ [CHR 0x27]"
| "render_lexeme (LIdent s) = [CHR 0x22] @ esc (CHR 0x22) s @ [CHR 0x22]"
| "render_lexeme (LPunct c) = [c]"
| "render_lexeme (LSpace c) = [c]"
| "render_lexeme LDash = ''-''"
| "render_lexeme (LLine s) = ''--'' @ s @ [CHR 0x0A]"
| "render_lexeme (LBlock s) = ''/*'' @ s @ ''*/''"

definition render_lexemes :: "lexeme list \<Rightarrow> string" where
  "render_lexemes ls = concat (map render_lexeme ls)"

definition plain_punct :: "char \<Rightarrow> bool" where
  "plain_punct c \<longleftrightarrow> \<not> word_char c \<and> \<not> js_space c
     \<and> c \<notin> {CHR ''-'', CHR ''/'', CHR 0x27, CHR 0x22, CHR 0x60, CHR ''[''}"

fun lexeme_ok :: "lexeme \<Rightarrow> bool" where
  "lexeme_ok (LWord w) = (w \<noteq> [] \<and> length w \<le> 256 \<and> list_all word_char w)"
| "lexeme_ok (LText s) = True"
| "lexeme_ok (LIdent s) = (length s \<le> 256)"
| "lexeme_ok (LPunct c) = plain_punct c"
| "lexeme_ok (LSpace c) = js_space c"
| "lexeme_ok LDash = True"
| "lexeme_ok (LLine s) = (CHR 0x0A \<notin> set s \<and> CHR 0x0D \<notin> set s)"
| "lexeme_ok (LBlock s) = (CHR ''*'' \<notin> set s)"

fun token_of :: "lexeme \<Rightarrow> sql_token list" where
  "token_of (LWord w) = [(Word, w)]"
| "token_of (LText s) = [(StringToken, [])]"
| "token_of (LIdent s) = [(Identifier, s)]"
| "token_of (LPunct c) = [(Punctuation, [c])]"
| "token_of (LSpace c) = []"
| "token_of LDash = [(Punctuation, ''-'')]"
| "token_of (LLine s) = []"
| "token_of (LBlock s) = []"

definition tokens :: "lexeme list \<Rightarrow> sql_token list" where
  "tokens ls = concat (map token_of ls)"

text \<open>Lexemes that would run together are kept apart.\<close>

fun apart :: "lexeme \<Rightarrow> lexeme \<Rightarrow> bool" where
  "apart (LWord _) (LWord _) = False"
| "apart (LText _) (LText _) = False"
| "apart (LIdent _) (LIdent _) = False"
| "apart LDash LDash = False"
| "apart LDash (LLine _) = False"
| "apart _ _ = True"

fun lexemes_ok :: "lexeme list \<Rightarrow> bool" where
  "lexemes_ok [] = True"
| "lexemes_ok [l] = lexeme_ok l"
| "lexemes_ok (l # m # ls) = (lexeme_ok l \<and> apart l m \<and> lexemes_ok (m # ls))"

section \<open>The tokenizer emits exactly the lexemes' tokens\<close>

text \<open>
  A word, a string, a quoted identifier and a dash are emitted when the next character
  shows that they are over; \<open>after i p\<close> is the tokenizer with token \<open>p\<close> still to be
  emitted to the interpreter \<open>i\<close>.
\<close>

abbreviation tk :: "interp \<Rightarrow> mode \<Rightarrow> string \<Rightarrow> string \<Rightarrow> tokenizer" where
  "tk i m w q \<equiv> \<lparr>inter = i, mode_of = m, word = w, quoted_identifier = q\<rparr>"

abbreviation fresh :: "interp \<Rightarrow> tokenizer" where
  "fresh i \<equiv> tk i Normal [] []"

fun after :: "interp \<Rightarrow> sql_token option \<Rightarrow> tokenizer" where
  "after i None = fresh i"
| "after i (Some (Word, w)) = tk i Normal w []"
| "after i (Some (StringToken, _)) = tk i SingleQuoteEnd [] []"
| "after i (Some (Identifier, q)) = tk i DoubleQuoteEnd [] q"
| "after i (Some (Punctuation, _)) = tk i Dash [] []"

fun pending_of :: "lexeme \<Rightarrow> sql_token option" where
  "pending_of (LWord w) = Some (Word, w)"
| "pending_of (LText s) = Some (StringToken, [])"
| "pending_of (LIdent s) = Some (Identifier, s)"
| "pending_of LDash = Some (Punctuation, ''-'')"
| "pending_of _ = None"

fun direct_of :: "lexeme \<Rightarrow> sql_token list" where
  "direct_of (LPunct c) = [(Punctuation, [c])]"
| "direct_of _ = []"

definition opt_list :: "'a option \<Rightarrow> 'a list" where
  "opt_list p = (case p of None \<Rightarrow> [] | Some x \<Rightarrow> [x])"

lemma opt_list_simps [simp]: "opt_list None = []" "opt_list (Some x) = [x]"
  by (simp_all add: opt_list_def)

text \<open>The first characters that a pending token would swallow.\<close>

fun continues :: "sql_token option \<Rightarrow> char \<Rightarrow> bool" where
  "continues None c = False"
| "continues (Some (Word, _)) c = word_char c"
| "continues (Some (StringToken, _)) c = (c = CHR 0x27)"
| "continues (Some (Identifier, _)) c = (c = CHR 0x22)"
| "continues (Some (Punctuation, _)) c = (c = CHR ''-'')"

fun pending_ok :: "sql_token option \<Rightarrow> bool" where
  "pending_ok (Some (Word, w)) = (w \<noteq> [])"
| "pending_ok (Some (StringToken, v)) = (v = [])"
| "pending_ok (Some (Punctuation, v)) = (v = ''-'')"
| "pending_ok _ = True"

lemma tokenizer_init_fresh: "tokenizer_init = fresh interp_init"
  by (simp add: tokenizer_init_def)

lemma write_text_simps [simp]:
  "write_text t [] = Inr t"
  "write_text t (c # cs) = rbind (write_character t c) (\<lambda>t'. write_text t' cs)"
  by (simp_all add: write_text_def)

lemma write_text_append: "write_text t (xs @ ys) = rbind (write_text t xs) (\<lambda>t'. write_text t' ys)"
  by (simp add: write_text_def rfold_append)

lemma write_character_fresh: "write_character (fresh i) c = write_normal (fresh i) c"
  by (simp add: write_character_def)

lemma flush_word_fresh [simp]: "flush_word (fresh i) = Inr (fresh i)"
  by (simp add: flush_word_def)

lemma not_word_char [simp]:
  "\<not> word_char (CHR 0x27)" "\<not> word_char (CHR 0x22)" "\<not> word_char (CHR ''-'')" "\<not> word_char (CHR ''/'')"
  by (simp_all add: word_char_def js_simps)

lemma not_space [simp]:
  "\<not> js_space (CHR 0x27)" "\<not> js_space (CHR 0x22)" "\<not> js_space (CHR ''-'')" "\<not> js_space (CHR ''/'')"
  by (simp_all add: js_simps)

lemma js_space_not_word: "js_space c \<Longrightarrow> \<not> word_char c"
  by (auto simp: js_space_def word_char_def js_alnum_def js_digit_def js_upper_ascii_def
      js_lower_ascii_def) (auto simp: code_unit_def)

lemma write_pending:
  assumes "pending_ok p" and "\<not> continues p c"
  shows "write_character (after i p) c = rbind (feed i (opt_list p)) (\<lambda>i'. write_normal (fresh i') c)"
proof (cases p)
  case None
  then show ?thesis by (simp add: write_character_fresh)
next
  case (Some tok)
  obtain k v where tok: "tok = (k, v)" by (cases tok)
  from assms Some tok show ?thesis
  proof (cases k)
    case Word
    have "flush_word (tk i Normal v []) = rbind (interp_token i Word v) (\<lambda>i'. Inr (fresh i'))"
      using assms Some tok Word
      by (simp add: flush_word_def emit_def rbind_assoc)
    then show ?thesis
      using assms Some tok Word
      by (simp add: write_character_def write_normal_def rbind_assoc cong: rbind_cong)
  qed (simp_all add: write_character_def back_to_normal_def flush_quoted_identifier_def emit_def
      rbind_assoc)
qed

lemma write_word:
  assumes "list_all word_char w" and "length v + length w \<le> 256"
  shows "write_text (tk i Normal v []) w = Inr (tk i Normal (v @ w) [])"
  using assms
proof (induction w arbitrary: v)
  case Nil
  then show ?case by simp
next
  case (Cons c w)
  from Cons.prems have "write_character (tk i Normal v []) c = Inr (tk i Normal (v @ [c]) [])"
    by (simp add: write_character_def write_normal_def append_word_def)
  with Cons.IH [of "v @ [c]"] Cons.prems show ?case by simp
qed

lemma esc_simps [simp]:
  "esc q [] = []"
  "esc q (c # s) = (if c = q then [q, q] else [c]) @ esc q s"
  by (simp_all add: esc_def)

lemma write_string_body:
  "write_text (tk i SingleQuote [] []) (esc (CHR 0x27) s)
   = Inr (tk i SingleQuote [] [])"
  by (induction s) (simp_all add: write_character_def)

lemma write_ident_body:
  assumes "length v + length s \<le> 256"
  shows "write_text (tk i DoubleQuote [] v) (esc (CHR 0x22) s)
   = Inr (tk i DoubleQuote [] (v @ s))"
  using assms
proof (induction s arbitrary: v)
  case Nil
  then show ?case by simp
next
  case (Cons c s)
  then show ?case
    using Cons.IH [of "v @ [c]"]
    by (simp add: write_character_def append_quoted_identifier_def)
qed

lemma write_line_body:
  assumes "CHR 0x0A \<notin> set s" and "CHR 0x0D \<notin> set s"
  shows "write_text (tk i LineComment [] []) s = Inr (tk i LineComment [] [])"
  using assms by (induction s) (auto simp: write_character_def)

lemma write_block_body:
  assumes "CHR ''*'' \<notin> set s"
  shows "write_text (tk i BlockComment [] []) s = Inr (tk i BlockComment [] [])"
  using assms by (induction s) (auto simp: write_character_def)

lemma write_lexeme:
  assumes "lexeme_ok l"
  shows "write_text (fresh i) (render_lexeme l)
     = rbind (feed i (direct_of l)) (\<lambda>i'. Inr (after i' (pending_of l)))"
proof (cases l)
  case (LWord w)
  then show ?thesis using assms write_word [of w "[]" i] by simp
next
  case (LText s)
  then show ?thesis
    by (simp add: write_text_append write_string_body write_character_def write_normal_def)
next
  case (LIdent s)
  then show ?thesis using assms write_ident_body [of "[]" s i]
    by (simp add: write_text_append write_character_def write_normal_def)
next
  case (LPunct c)
  then show ?thesis using assms
    by (simp add: write_character_def write_normal_def plain_punct_def emit_def rbind_assoc)
next
  case (LSpace c)
  then show ?thesis using assms js_space_not_word [of c]
    by (simp add: write_character_def write_normal_def)
next
  case LDash
  then show ?thesis by (simp add: write_character_def write_normal_def)
next
  case (LLine s)
  then show ?thesis using assms
    by (simp add: write_text_append write_line_body write_character_def write_normal_def)
next
  case (LBlock s)
  then show ?thesis using assms
    by (simp add: write_text_append write_block_body write_character_def write_normal_def)
qed

text \<open>What a lexeme after a pending token starts with.\<close>

fun fits :: "sql_token option \<Rightarrow> lexeme \<Rightarrow> bool" where
  "fits (Some (Word, _)) (LWord _) = False"
| "fits (Some (StringToken, _)) (LText _) = False"
| "fits (Some (Identifier, _)) (LIdent _) = False"
| "fits (Some (Punctuation, _)) LDash = False"
| "fits (Some (Punctuation, _)) (LLine _) = False"
| "fits _ _ = True"

lemma apart_fits: "apart l m \<Longrightarrow> fits (pending_of l) m"
  by (cases l; cases m) simp_all

lemma pending_ok_of: "lexeme_ok l \<Longrightarrow> pending_ok (pending_of l)"
  by (cases l) simp_all

lemma not_continues:
  assumes "lexeme_ok l" and "fits p l"
  obtains c r where "render_lexeme l = c # r" and "\<not> continues p c"
proof (cases p)
  case None
  with assms show ?thesis by (cases l) (auto simp: neq_Nil_conv intro: that)
next
  case (Some tok)
  obtain k v where tok: "tok = (k, v)" by (cases tok)
  have w: "word_char c \<Longrightarrow> c \<noteq> CHR 0x27 \<and> c \<noteq> CHR 0x22 \<and> c \<noteq> CHR ''-''" for c
    by auto
  have s: "js_space c \<Longrightarrow> \<not> word_char c \<and> c \<noteq> CHR 0x27 \<and> c \<noteq> CHR 0x22 \<and> c \<noteq> CHR ''-''" for c
    using js_space_not_word by auto
  from assms Some tok show ?thesis
    by (cases l; cases k) (auto simp: neq_Nil_conv plain_punct_def js_space_not_word dest: w s intro: that)
qed

lemma write_lexeme_after:
  assumes "lexeme_ok l" and "pending_ok p" and "fits p l"
  shows "write_text (after i p) (render_lexeme l)
     = rbind (feed i (opt_list p @ direct_of l)) (\<lambda>i'. Inr (after i' (pending_of l)))"
proof -
  from assms(1,3) obtain c r where r: "render_lexeme l = c # r" and nc: "\<not> continues p c"
    by (rule not_continues)
  have "write_text (after i p) (render_lexeme l)
      = rbind (feed i (opt_list p)) (\<lambda>i'. write_text (fresh i') (render_lexeme l))"
    unfolding r by (simp add: write_pending [OF assms(2) nc] rbind_assoc write_character_fresh)
  then show ?thesis
    by (simp add: write_lexeme [OF assms(1)] feed_append rbind_assoc)
qed

fun committed :: "sql_token option \<Rightarrow> lexeme list \<Rightarrow> sql_token list" where
  "committed p [] = []"
| "committed p (l # ls) = opt_list p @ direct_of l @ committed (pending_of l) ls"

fun pending_after :: "sql_token option \<Rightarrow> lexeme list \<Rightarrow> sql_token option" where
  "pending_after p [] = p"
| "pending_after p (l # ls) = pending_after (pending_of l) ls"

lemma token_of_split: "token_of l = direct_of l @ opt_list (pending_of l)"
  by (cases l) simp_all

lemma committed_tokens: "committed p ls @ opt_list (pending_after p ls) = opt_list p @ tokens ls"
  by (induction ls arbitrary: p) (simp_all add: tokens_def token_of_split)

lemma write_lexemes:
  assumes "lexemes_ok ls" and "pending_ok p" and "ls = [] \<or> fits p (hd ls)"
  shows "write_text (after i p) (render_lexemes ls)
     = rbind (feed i (committed p ls)) (\<lambda>i'. Inr (after i' (pending_after p ls)))"
  using assms
proof (induction ls arbitrary: i p)
  case Nil
  then show ?case by (simp add: render_lexemes_def)
next
  case (Cons l ls)
  from Cons.prems(1) have ok: "lexeme_ok l" "lexemes_ok ls" "ls = [] \<or> apart l (hd ls)"
    by (cases ls; simp)+
  then have "ls = [] \<or> fits (pending_of l) (hd ls)" by (auto intro: apart_fits)
  note IH = Cons.IH [OF ok(2) pending_ok_of [OF ok(1)] this]
  have "write_text (after i p) (render_lexemes (l # ls))
      = rbind (write_text (after i p) (render_lexeme l)) (\<lambda>t. write_text t (render_lexemes ls))"
    by (simp add: render_lexemes_def write_text_append)
  also have "\<dots> = rbind (feed i (opt_list p @ direct_of l))
      (\<lambda>i'. write_text (after i' (pending_of l)) (render_lexemes ls))"
    using Cons.prems ok(1) by (simp add: write_lexeme_after rbind_assoc)
  finally show ?case by (simp add: IH feed_append rbind_assoc)
qed

lemma finish_after:
  assumes "pending_ok p"
  shows "tokenizer_finish (after i p) = rbind (feed i (opt_list p)) interp_finish"
proof (cases p)
  case None
  then show ?thesis by (simp add: tokenizer_finish_def)
next
  case (Some tok)
  obtain k v where "tok = (k, v)" by (cases tok)
  with assms Some show ?thesis
    by (cases k) (simp_all add: tokenizer_finish_def flush_word_def flush_quoted_identifier_def
        emit_def rbind_assoc)
qed

lemma pending_ok_after: "lexemes_ok ls \<Longrightarrow> pending_ok p \<Longrightarrow> pending_ok (pending_after p ls)"
proof (induction ls arbitrary: p)
  case (Cons l ls)
  then have "lexeme_ok l" "lexemes_ok ls" by (cases ls; simp)+
  with Cons.IH show ?case by (simp add: pending_ok_of)
qed simp

lemma inventory_of_lexemes:
  assumes "lexemes_ok ls"
  shows "inventory_of_text (render_lexemes ls) = rbind (feed interp_init (tokens ls)) interp_finish"
proof -
  have p: "pending_ok (pending_after None ls)" using assms by (simp add: pending_ok_after)
  have "inventory_of_text (render_lexemes ls)
      = rbind (write_text (after interp_init None) (render_lexemes ls)) tokenizer_finish"
    by (simp add: inventory_of_text_def tokenizer_init_fresh)
  also have "\<dots> = rbind (feed interp_init (committed None ls @ opt_list (pending_after None ls))) interp_finish"
    using write_lexemes [OF assms, of None interp_init]
    by (simp add: finish_after [OF p] feed_append rbind_assoc)
  finally show ?thesis by (simp add: committed_tokens)
qed

end
