(* ===== verification/JS_Date.thy ===== *)
theory JS_Date
  imports LCC_Prelude
begin

text \<open>
  The part of JavaScript's \<open>Date\<close> the modelled files use: milliseconds since the epoch as
  \<open>int\<close>, \<open>toISOString\<close> for the years 0 to 9999, and \<open>Date.parse\<close> on strings of that
  format. The calendar is the proleptic Gregorian one of ECMA-262.
\<close>

section \<open>The calendar\<close>

text \<open>
  Years start in March here, so that the leap day is the last day of the year. A day of the
  400-year era is taken apart into century, four-year cycle, year and day of the year.
\<close>

definition year_start :: "int \<Rightarrow> int" where
  "year_start yoe = 365 * yoe + yoe div 4 - yoe div 100"

definition year_of_era :: "int \<Rightarrow> int" where
  "year_of_era doe =
     (let cent = min 3 (doe div 36524); doc = doe - cent * 36524;
          quad = doc div 1461; doq = doc mod 1461
      in 100 * cent + 4 * quad + min 3 (doq div 365))"

definition civil_of_day :: "int \<Rightarrow> int \<times> int \<times> int" where
  "civil_of_day z0 =
     (let z = z0 + 719468; era = z div 146097; doe = z mod 146097;
          yoe = year_of_era doe; doy = doe - year_start yoe;
          mp = (5 * doy + 2) div 153; d = doy - (153 * mp + 2) div 5 + 1;
          m = (if mp < 10 then mp + 3 else mp - 9)
      in (yoe + era * 400 + (if m \<le> 2 then 1 else 0), m, d))"

definition day_of_civil :: "int \<Rightarrow> int \<Rightarrow> int \<Rightarrow> int" where
  "day_of_civil y m d =
     (let y' = (if m \<le> 2 then y - 1 else y); era = y' div 400; yoe = y' mod 400;
          mp = (if m > 2 then m - 3 else m + 9); doy = (153 * mp + 2) div 5 + d - 1
      in era * 146097 + (year_start yoe + doy) - 719468)"

lemma div_bounds:
  fixes x c :: int
  assumes "0 < c"
  shows "c * (x div c) \<le> x" and "x < c * (x div c) + c"
  using assms mult_div_mod_eq [of c x] pos_mod_bound [of c x] pos_mod_sign [of c x] by linarith+

lemma year_of_era_bounds:
  assumes "0 \<le> doe" and "doe < 146097"
  shows "0 \<le> year_of_era doe" and "year_of_era doe \<le> 399"
    and "0 \<le> doe - year_start (year_of_era doe)" and "doe - year_start (year_of_era doe) \<le> 365"
proof -
  define c where "c = min 3 (doe div 36524)"
  define doc where "doc = doe - c * 36524"
  define q where "q = doc div 1461"
  define doq where "doq = doc mod 1461"
  define r where "r = min 3 (doq div 365)"
  have c: "0 \<le> c" "c \<le> 3" using assms by (simp_all add: c_def)
  define k where "k = doe div 36524"
  have k: "36524 * k \<le> doe" "doe < 36524 * k + 36524" unfolding k_def by (rule div_bounds; simp)+
  have doc: "0 \<le> doc" "doc \<le> 36524"
    using k assms unfolding doc_def c_def k_def [symmetric] by (auto simp: min_def)
  have "1461 * q \<le> doc" "doc < 1461 * q + 1461" unfolding q_def by (rule div_bounds; simp)+
  then have q: "0 \<le> q" "q \<le> 24" using doc by linarith+
  have doq: "0 \<le> doq" "doq \<le> 1460" and split: "doc = 1461 * q + doq"
    by (simp_all add: doq_def q_def)
  define l where "l = doq div 365"
  have l: "365 * l \<le> doq" "doq < 365 * l + 365" unfolding l_def by (rule div_bounds; simp)+
  have r: "0 \<le> r" "r \<le> 3" "0 \<le> doq - 365 * r" "doq - 365 * r \<le> 365"
    using l doq unfolding r_def l_def [symmetric] by (auto simp: min_def)
  have y: "year_of_era doe = 100 * c + 4 * q + r"
    by (simp add: year_of_era_def Let_def c_def doc_def q_def doq_def r_def)
  have "100 * c + 4 * q + r = 4 * (25 * c + q) + r" "100 * c + 4 * q + r = 100 * c + (4 * q + r)" by simp_all
  then have "(100 * c + 4 * q + r) div 4 = 25 * c + q" "(100 * c + 4 * q + r) div 100 = c"
    using q r by simp_all
  then have s: "year_start (100 * c + 4 * q + r) = 36524 * c + 1461 * q + 365 * r"
    by (simp add: year_start_def)
  show "0 \<le> year_of_era doe" "year_of_era doe \<le> 399" using c q r by (simp_all add: y)
  have "doe = 36524 * c + 1461 * q + doq" using split by (simp add: doc_def)
  then show "0 \<le> doe - year_start (year_of_era doe)" "doe - year_start (year_of_era doe) \<le> 365"
    unfolding y s using r by linarith+
qed

lemma month_bounds:
  assumes "0 \<le> doy" and "doy \<le> (365::int)"
  shows "0 \<le> (5 * doy + 2) div 153" and "(5 * doy + 2) div 153 \<le> 11"
    and "1 \<le> doy - (153 * ((5 * doy + 2) div 153) + 2) div 5 + 1"
    and "doy - (153 * ((5 * doy + 2) div 153) + 2) div 5 + 1 \<le> 31"
proof -
  define mp where "mp = (5 * doy + 2) div 153"
  have mp: "153 * mp \<le> 5 * doy + 2" "5 * doy + 2 < 153 * mp + 153"
    unfolding mp_def by (rule div_bounds; simp)+
  show "0 \<le> (5 * doy + 2) div 153" "(5 * doy + 2) div 153 \<le> 11"
    using assms mp unfolding mp_def [symmetric] by linarith+
  define e where "e = (153 * mp + 2) div 5"
  have e: "5 * e \<le> 153 * mp + 2" "153 * mp + 2 < 5 * e + 5"
    unfolding e_def by (rule div_bounds; simp)+
  show "1 \<le> doy - (153 * ((5 * doy + 2) div 153) + 2) div 5 + 1"
    "doy - (153 * ((5 * doy + 2) div 153) + 2) div 5 + 1 \<le> 31"
    using mp e unfolding mp_def [symmetric] e_def [symmetric] by linarith+
qed

theorem day_of_civil_inverse:
  assumes "civil_of_day z = (y, m, d)"
  shows "day_of_civil y m d = z" and "1 \<le> m \<and> m \<le> 12" and "1 \<le> d \<and> d \<le> 31"
proof -
  define era where "era = (z + 719468) div 146097"
  define doe where "doe = (z + 719468) mod 146097"
  define yoe where "yoe = year_of_era doe"
  define doy where "doy = doe - year_start yoe"
  define mp where "mp = (5 * doy + 2) div 153"
  have doe: "0 \<le> doe" "doe < 146097" by (simp_all add: doe_def)
  note yb = year_of_era_bounds [OF doe, folded yoe_def, folded doy_def]
  note mb = month_bounds [OF yb(3,4), folded mp_def]
  have m: "m = (if mp < 10 then mp + 3 else mp - 9)" and d: "d = doy - (153 * mp + 2) div 5 + 1"
    and y: "y = yoe + era * 400 + (if m \<le> 2 then 1 else 0)"
    using assms [symmetric]
    unfolding civil_of_day_def Let_def era_def [symmetric] doe_def [symmetric] yoe_def [symmetric]
      doy_def [symmetric] mp_def [symmetric] prod.inject by simp_all
  show "1 \<le> m \<and> m \<le> 12" using mb(1,2) by (simp add: m)
  show "1 \<le> d \<and> d \<le> 31" using mb(3,4) by (simp add: d)
  have y': "(if m \<le> 2 then y - 1 else y) = yoe + era * 400" by (simp add: y)
  have "(yoe + era * 400) div 400 = era" "(yoe + era * 400) mod 400 = yoe"
    using yb(1,2) by simp_all
  moreover have "(if m > 2 then m - 3 else m + 9) = mp" using mb(1,2) by (auto simp: m)
  ultimately have "day_of_civil y m d = era * 146097 + (year_start yoe + doy) - 719468"
    unfolding day_of_civil_def y' by (simp add: Let_def d)
  also have "\<dots> = era * 146097 + doe - 719468" by (simp add: doy_def)
  also have "\<dots> = z" by (simp add: era_def doe_def)
  finally show "day_of_civil y m d = z" .
qed

section \<open>ISO strings\<close>

text \<open>\<open>pad k n\<close>: the last \<open>k\<close> decimal digits of \<open>n\<close>.\<close>

fun pad :: "nat \<Rightarrow> nat \<Rightarrow> string" where
  "pad 0 n = []"
| "pad (Suc k) n = pad k (n div 10) @ [digit_char (n mod 10)]"

definition ms_per_day :: int where
  "ms_per_day = 86400000"

definition year_digits :: "int \<Rightarrow> string" where
  "year_digits y = (if 0 \<le> y \<and> y \<le> 9999 then pad 4 (nat y)
     else (if y < 0 then ''-'' else ''+'') @ pad 6 (nat \<bar>y\<bar>))"

text \<open>\<open>new Date(ms).toISOString()\<close> for a time value that is in range.\<close>

definition iso_string :: "int \<Rightarrow> string" where
  "iso_string ms =
     (let (y, m, d) = civil_of_day (ms div ms_per_day); t = nat (ms mod ms_per_day) in
      year_digits y @ ''-'' @ pad 2 (nat m) @ ''-'' @ pad 2 (nat d) @ ''T''
      @ pad 2 (t div 3600000) @ '':'' @ pad 2 (t div 60000 mod 60) @ '':''
      @ pad 2 (t div 1000 mod 60) @ ''.'' @ pad 3 (t mod 1000) @ ''Z'')"

definition max_time :: int where
  "max_time = 8640000000000000"

definition to_iso_string :: "int \<Rightarrow> string outcome" where
  "to_iso_string ms = (if \<bar>ms\<bar> \<le> max_time then Inr (iso_string ms) else Inl ''Invalid time value'')"

definition iso_year :: "int \<Rightarrow> int" where
  "iso_year ms = fst (civil_of_day (ms div ms_per_day))"

text \<open>\<open>/^\d{4}-\d{2}-\d{2}T\d{2}:\d{2}:\d{2}\.\d{3}Z$/\<close>, with \<open>d\<close> for a digit.\<close>

definition iso_shape :: "string \<Rightarrow> bool" where
  "iso_shape s \<longleftrightarrow> list_all2 (\<lambda>p c. if p = CHR ''d'' then js_digit c else c = p) ''dddd-dd-ddTdd:dd:dd.dddZ'' s"

definition digits_at :: "nat \<Rightarrow> nat \<Rightarrow> string \<Rightarrow> nat" where
  "digits_at i n s = digits_value (take n (drop i s))"

text \<open>\<open>Date.parse\<close> on a string of that shape; \<open>None\<close> is \<open>NaN\<close>.\<close>

definition parse_iso :: "string \<Rightarrow> int option" where
  "parse_iso s =
     (let y = digits_at 0 4 s; mo = digits_at 5 2 s; d = digits_at 8 2 s; h = digits_at 11 2 s;
          mi = digits_at 14 2 s; se = digits_at 17 2 s; ms = digits_at 20 3 s in
      if 1 \<le> mo \<and> mo \<le> 12 \<and> 1 \<le> d \<and> d \<le> 31 \<and> mi \<le> 59 \<and> se \<le> 59
         \<and> (h \<le> 23 \<or> (h = 24 \<and> mi = 0 \<and> se = 0 \<and> ms = 0))
      then Some (day_of_civil (int y) (int mo) (int d) * ms_per_day
                 + int (h * 3600000 + mi * 60000 + se * 1000 + ms))
      else None)"

lemma length_pad [simp]: "length (pad k n) = k"
  by (induction k arbitrary: n) simp_all

lemma pad_digits [simp]: "list_all js_digit (pad k n)"
  by (induction k arbitrary: n) simp_all

lemma digits_value_pad: "digits_value (pad k n) = n mod 10 ^ k"
proof (induction k arbitrary: n)
  case 0
  then show ?case by (simp add: digits_value_def)
next
  case (Suc k)
  have "10 * (n div 10 mod 10 ^ k) + n mod 10 = n mod 10 ^ Suc k"
    using mod_mult2_eq [of n 10 "10 ^ k"] by simp
  with Suc show ?case by simp
qed

lemma digits_value_pad_small: "n < 10 ^ k \<Longrightarrow> digits_value (pad k n) = n"
  by (simp add: digits_value_pad)

lemma digits_at_pad:
  "length pre = i \<Longrightarrow> k = k' \<Longrightarrow> digits_at i k (pre @ pad k' n @ post) = n mod 10 ^ k"
  by (simp add: digits_at_def digits_value_pad)

lemma list_all2_const: "list_all2 P (replicate (length xs) x) xs = list_all (P x) xs"
  by (simp add: list_all2_conv_all_nth list_all_length)

lemma iso_digits_shape:
  "iso_shape (pad 4 y @ ''-'' @ pad 2 m @ ''-'' @ pad 2 d @ ''T'' @ pad 2 h @ '':'' @ pad 2 mi @ '':''
     @ pad 2 se @ ''.'' @ pad 3 ms @ ''Z'')"
proof -
  have digits: "list_all2 (\<lambda>p c. if p = CHR ''d'' then js_digit c else c = p) (replicate k CHR ''d'') (pad k n)" for k n
    using list_all2_const [of "\<lambda>p c. if p = CHR ''d'' then js_digit c else c = p" "pad k n"] by simp
  have fmt: "''dddd-dd-ddTdd:dd:dd.dddZ'' = replicate 4 CHR ''d'' @ ''-'' @ replicate 2 CHR ''d'' @ ''-''
     @ replicate 2 CHR ''d'' @ ''T'' @ replicate 2 CHR ''d'' @ '':'' @ replicate 2 CHR ''d'' @ '':''
     @ replicate 2 CHR ''d'' @ ''.'' @ replicate 3 CHR ''d'' @ ''Z''"
    by (simp add: numeral_eq_Suc)
  show ?thesis
    unfolding iso_shape_def fmt by (intro list_all2_appendI digits) simp_all
qed

lemma iso_fields:
  fixes y m d h mi se ms :: nat
  defines "s \<equiv> pad 4 y @ ''-'' @ pad 2 m @ ''-'' @ pad 2 d @ ''T'' @ pad 2 h @ '':'' @ pad 2 mi @ '':''
     @ pad 2 se @ ''.'' @ pad 3 ms @ ''Z''"
  shows "digits_at 0 4 s = y mod 10000" "digits_at 5 2 s = m mod 100" "digits_at 8 2 s = d mod 100"
    "digits_at 11 2 s = h mod 100" "digits_at 14 2 s = mi mod 100" "digits_at 17 2 s = se mod 100"
    "digits_at 20 3 s = ms mod 1000"
  by (simp_all add: s_def digits_at_def digits_value_pad)

theorem parse_iso_string:
  assumes "0 \<le> iso_year ms" and "iso_year ms \<le> 9999"
  shows "iso_shape (iso_string ms)" and "parse_iso (iso_string ms) = Some ms"
proof -
  obtain y m d where c: "civil_of_day (ms div ms_per_day) = (y, m, d)" by (cases "civil_of_day (ms div ms_per_day)")
  note inv = day_of_civil_inverse [OF c]
  have y: "0 \<le> y" "y \<le> 9999" using assms c by (simp_all add: iso_year_def)
  define t where "t = nat (ms mod ms_per_day)"
  have t: "t < 86400000" by (simp add: t_def ms_per_day_def)
  have str: "iso_string ms = pad 4 (nat y) @ ''-'' @ pad 2 (nat m) @ ''-'' @ pad 2 (nat d) @ ''T''
      @ pad 2 (t div 3600000) @ '':'' @ pad 2 (t div 60000 mod 60) @ '':''
      @ pad 2 (t div 1000 mod 60) @ ''.'' @ pad 3 (t mod 1000) @ ''Z''"
    using y c by (simp add: iso_string_def year_digits_def t_def Let_def)
  show "iso_shape (iso_string ms)" unfolding str by (rule iso_digits_shape)
  have "t div 3600000 < 24" using t by (simp add: div_less_iff_less_mult)
  then have h: "t div 3600000 mod 100 = t div 3600000" "t div 3600000 \<le> 23" by simp_all
  have mi: "t div 60000 mod 60 mod 100 = t div 60000 mod 60" "t div 60000 mod 60 \<le> 59"
    by (rule mod_less) (simp_all add: less_Suc_eq_le [symmetric] less_trans [of _ 60])
  have se: "t div 1000 mod 60 mod 100 = t div 1000 mod 60" "t div 1000 mod 60 \<le> 59"
    by (rule mod_less) (simp_all add: less_Suc_eq_le [symmetric] less_trans [of _ 60])
  have sum: "t div 3600000 * 3600000 + t div 60000 mod 60 * 60000 + t div 1000 mod 60 * 1000 + t mod 1000 = t"
  proof -
    have a: "t div 60000 = t div 1000 div 60" "t div 3600000 = t div 1000 div 60 div 60"
      by (simp_all add: div_mult2_eq [symmetric])
    show ?thesis unfolding a
      using div_mult_mod_eq [of t 1000] div_mult_mod_eq [of "t div 1000" 60] div_mult_mod_eq [of "t div 1000 div 60" 60]
      by linarith
  qed
  have ym: "nat y mod 10000 = nat y" "nat m mod 100 = nat m" "nat d mod 100 = nat d"
    using y inv(2,3) by (simp_all add: nat_mod_as_int mod_pos_pos_trivial)
  have b: "1 \<le> nat m" "nat m \<le> 12" "1 \<le> nat d" "nat d \<le> 31" using inv(2,3) by arith+
  have "int t = ms mod ms_per_day" by (simp add: t_def ms_per_day_def)
  then have "day_of_civil y m d * ms_per_day + int t = ms" by (simp add: inv(1))
  then show "parse_iso (iso_string ms) = Some ms"
    unfolding str parse_iso_def iso_fields Let_def
    using inv(2,3) y b by (simp only: ym h mi se mod_mod_trivial sum) simp
qed

end
