(* ===== verification/JS_Values.thy ===== *)
theory JS_Values
  imports LCC_Prelude
begin

text \<open>
  The JavaScript values the modelled files take apart: numbers at the precision of an IEEE
  double, \<open>Number(string)\<close>, and parsed JSON with property access.

  A finite double is a whole number or a dyadic fraction \<open>m / 2^k\<close> that is not whole.
  Negative zero is not told apart from zero: no modelled file does so.
\<close>

section \<open>Numbers\<close>

datatype jsnum = Whole int | Dyadic int nat | NaN | Infinite bool

fun floor_log2 :: "nat \<Rightarrow> nat" where
  "floor_log2 n = (if n < 2 then 0 else Suc (floor_log2 (n div 2)))"

declare floor_log2.simps [simp del]

text \<open>The quotient rounded to the nearest integer, ties to even.\<close>

definition round_div :: "nat \<Rightarrow> nat \<Rightarrow> nat" where
  "round_div n d =
     (let q = n div d; r = n mod d in if d < 2 * r \<or> (2 * r = d \<and> odd q) then q + 1 else q)"

text \<open>\<open>\<lfloor>log2 (n / d)\<rfloor>\<close>, for positive \<open>n\<close> and \<open>d\<close>.\<close>

definition ratio_log2 :: "nat \<Rightarrow> nat \<Rightarrow> int" where
  "ratio_log2 n d =
     (let e = int (floor_log2 n) - int (floor_log2 d) in
      if (if 0 \<le> e then d * 2 ^ nat e \<le> n else d \<le> n * 2 ^ nat (- e)) then e else e - 1)"

text \<open>The double nearest to \<open>n / d\<close>: 53 bits of precision, subnormals below \<open>2^-1022\<close>.\<close>

definition double_of :: "nat \<Rightarrow> nat \<Rightarrow> jsnum" where
  "double_of n d =
     (if n = 0 then Whole 0
      else let shift = max (- 1074) (ratio_log2 n d - 52) in
        if 0 \<le> shift
        then if 1024 \<le> shift then Infinite True
             else let v = round_div n (d * 2 ^ nat shift) * 2 ^ nat shift in
               if 2 ^ 1024 \<le> v then Infinite True else Whole (int v)
        else let k = nat (- shift); m = round_div (n * 2 ^ k) d in
          if 2 ^ k dvd m then Whole (int (m div 2 ^ k)) else Dyadic (int m) k)"

fun negate :: "jsnum \<Rightarrow> jsnum" where
  "negate (Whole n) = Whole (- n)"
| "negate (Dyadic m k) = Dyadic (- m) k"
| "negate NaN = NaN"
| "negate (Infinite p) = Infinite (\<not> p)"

fun is_integer :: "jsnum \<Rightarrow> bool" where
  "is_integer (Whole n) = True"
| "is_integer _ = False"

fun is_finite :: "jsnum \<Rightarrow> bool" where
  "is_finite (Whole n) = True"
| "is_finite (Dyadic m k) = True"
| "is_finite _ = False"

fun is_safe_integer :: "jsnum \<Rightarrow> bool" where
  "is_safe_integer (Whole n) = (\<bar>n\<bar> \<le> int max_safe_integer)"
| "is_safe_integer _ = False"

text \<open>\<open>x < n\<close> and \<open>x > n\<close> against an integer constant.\<close>

fun num_less :: "jsnum \<Rightarrow> int \<Rightarrow> bool" where
  "num_less (Whole i) n = (i < n)"
| "num_less (Dyadic m k) n = (m < n * 2 ^ k)"
| "num_less NaN n = False"
| "num_less (Infinite p) n = (\<not> p)"

fun num_greater :: "jsnum \<Rightarrow> int \<Rightarrow> bool" where
  "num_greater (Whole i) n = (n < i)"
| "num_greater (Dyadic m k) n = (n * 2 ^ k < m)"
| "num_greater NaN n = False"
| "num_greater (Infinite p) n = p"

section \<open>StringToNumber\<close>

definition radix_digit :: "char \<Rightarrow> nat" where
  "radix_digit c = (if js_digit c then code_unit c - 48
     else if js_lower_ascii c then code_unit c - 87
     else if js_upper_ascii c then code_unit c - 55 else 255)"

definition radix_number :: "nat \<Rightarrow> string \<Rightarrow> jsnum" where
  "radix_number r s = (if s \<noteq> [] \<and> list_all (\<lambda>c. radix_digit c < r) s
     then double_of (foldl (\<lambda>v c. r * v + radix_digit c) 0 s) 1 else NaN)"

text \<open>An \<open>ExponentPart\<close>, or nothing.\<close>

definition exponent_part :: "string \<Rightarrow> int option" where
  "exponent_part s =
     (case s of [] \<Rightarrow> Some 0
      | e # rest \<Rightarrow>
          if e \<noteq> CHR ''e'' \<and> e \<noteq> CHR ''E'' then None
          else (case rest of
              [] \<Rightarrow> None
            | c # ds \<Rightarrow>
                if c = CHR ''-'' then (if all_digits ds then Some (- int (digits_value ds)) else None)
                else if c = CHR ''+'' then (if all_digits ds then Some (int (digits_value ds)) else None)
                else if all_digits rest then Some (int (digits_value rest)) else None))"

text \<open>
  A \<open>StrUnsignedDecimalLiteral\<close>. An exponent past 400 plus the digits given leaves the range
  of doubles whatever the digits are, and is cut there before the power is computed.
\<close>

definition clamp_exponent :: "nat \<Rightarrow> int \<Rightarrow> int" where
  "clamp_exponent n e = max (- (int n + 400)) (min (int n + 400) e)"

definition decimal_number :: "string \<Rightarrow> jsnum" where
  "decimal_number s =
     (let whole = takeWhile js_digit s; r1 = dropWhile js_digit s;
          dotted = (case r1 of c # r \<Rightarrow> c = CHR ''.'' | [] \<Rightarrow> False);
          r2 = (if dotted then tl r1 else r1);
          frac = (if dotted then takeWhile js_digit r2 else []);
          r3 = (if dotted then dropWhile js_digit r2 else r1)
      in if whole = [] \<and> frac = [] then NaN
         else case exponent_part r3 of
             None \<Rightarrow> NaN
           | Some e0 \<Rightarrow>
               let v = digits_value (whole @ frac);
                   e = clamp_exponent (length (whole @ frac)) e0 - int (length frac)
               in if 0 \<le> e then double_of (v * 10 ^ nat e) 1 else double_of v (10 ^ nat (- e)))"

definition signless_number :: "string \<Rightarrow> jsnum" where
  "signless_number s = (if s = ''Infinity'' then Infinite True else decimal_number s)"

text \<open>\<open>Number(s)\<close>.\<close>

definition js_number :: "string \<Rightarrow> jsnum" where
  "js_number s0 =
     (case js_trim s0 of
        [] \<Rightarrow> Whole 0
      | c # cs \<Rightarrow>
          if c = CHR ''-'' then negate (signless_number cs)
          else if c = CHR ''+'' then signless_number cs
          else if c = CHR ''0'' \<and> cs \<noteq> [] \<and> hd cs \<in> {CHR ''x'', CHR ''X''} then radix_number 16 (tl cs)
          else if c = CHR ''0'' \<and> cs \<noteq> [] \<and> hd cs \<in> {CHR ''o'', CHR ''O''} then radix_number 8 (tl cs)
          else if c = CHR ''0'' \<and> cs \<noteq> [] \<and> hd cs \<in> {CHR ''b'', CHR ''B''} then radix_number 2 (tl cs)
          else signless_number (c # cs))"

lemma floor_log2_le: "0 < n \<Longrightarrow> 2 ^ floor_log2 n \<le> n"
proof (induction n rule: floor_log2.induct)
  case (1 n)
  show ?case
  proof (cases "n < 2")
    case True
    with "1.prems" show ?thesis by (subst floor_log2.simps) simp
  next
    case False
    then have "2 ^ floor_log2 (n div 2) \<le> n div 2" by (intro "1.IH") auto
    then have "2 * 2 ^ floor_log2 (n div 2) \<le> n" by linarith
    with False show ?thesis by (subst floor_log2.simps) simp
  qed
qed

lemma round_div_one [simp]: "round_div n (Suc 0) = n"
  by (simp add: round_div_def)

text \<open>Whole numbers below \<open>2^53\<close> are represented exactly.\<close>

lemma double_of_exact: "n < 2 ^ 53 \<Longrightarrow> double_of n 1 = Whole (int n)"
proof (cases "n = 0")
  case True
  then show ?thesis by (simp add: double_of_def)
next
  case False
  assume n: "n < 2 ^ 53"
  have le: "2 ^ floor_log2 n \<le> n" using False by (simp add: floor_log2_le)
  have "(2::nat) ^ floor_log2 n < 2 ^ 53" using le n by linarith
  then have "floor_log2 n < 53" by (rule power_less_imp_less_exp [rotated]) simp
  then have a: "floor_log2 n \<le> 52" by simp
  have one: "floor_log2 (Suc 0) = 0" by (subst floor_log2.simps) simp
  have r: "ratio_log2 n 1 = int (floor_log2 n)" using le one by (simp add: ratio_log2_def Let_def)
  have s: "max (- 1074) (int (floor_log2 n) - 52) = int (floor_log2 n) - 52" by simp
  show ?thesis
  proof (cases "floor_log2 n = 52")
    case True
    have "n < 2 ^ 1024" using n by (rule less_trans) (rule power_strict_increasing; simp)
    then show ?thesis using False r s True by (simp add: double_of_def Let_def not_le)
  next
    case False2: False
    with a have "int (floor_log2 n) - 52 < 0" by simp
    then show ?thesis using False r s by (simp add: double_of_def Let_def not_le)
  qed
qed

lemma digits_no_space: "all_digits s \<Longrightarrow> js_trim s = s"
  by (rule js_trim_id) (auto simp: all_digits_def list_all_iff js_digit_def js_space_def)

lemma js_digit_not_char:
  "js_digit c \<Longrightarrow> c \<noteq> CHR ''-'' \<and> c \<noteq> CHR ''+'' \<and> c \<noteq> CHR ''.'' \<and> c \<noteq> CHR ''x'' \<and> c \<noteq> CHR ''X''
     \<and> c \<noteq> CHR ''o'' \<and> c \<noteq> CHR ''O'' \<and> c \<noteq> CHR ''b'' \<and> c \<noteq> CHR ''B'' \<and> c \<noteq> CHR ''I'' \<and> c \<noteq> CHR ''e''"
  by (auto simp: js_digit_def code_unit_def)

lemma js_number_digits:
  assumes "all_digits s"
  shows "js_number s = double_of (digits_value s) 1"
proof -
  obtain c cs where s: "s = c # cs" using assms by (cases s) (auto simp: all_digits_def)
  have all: "\<forall>x \<in> set s. js_digit x" using assms by (auto simp: all_digits_def list_all_iff)
  have c: "js_digit c" and cs: "cs \<noteq> [] \<Longrightarrow> js_digit (hd cs)" using all s by auto
  have tw: "takeWhile js_digit s = s" "dropWhile js_digit s = []"
    using all by (simp_all add: takeWhile_eq_all_conv dropWhile_eq_Nil_conv)
  have "s \<noteq> ''Infinity''" "s \<noteq> []" using s js_digit_not_char [OF c] by auto
  then have "signless_number s = double_of (digits_value s) 1"
    by (simp add: signless_number_def decimal_number_def tw exponent_part_def clamp_exponent_def)
  moreover have "cs \<noteq> [] \<longrightarrow> hd cs \<notin> {CHR ''x'', CHR ''X''} \<and> hd cs \<notin> {CHR ''o'', CHR ''O''} \<and> hd cs \<notin> {CHR ''b'', CHR ''B''}"
    using cs js_digit_not_char by blast
  then have "js_number s = signless_number s"
    using s js_digit_not_char [OF c] digits_no_space [OF assms]
    unfolding js_number_def by (cases "cs = []") (simp_all del: insert_iff)
  ultimately show ?thesis by simp
qed

lemma js_number_dec: "n \<le> max_safe_integer \<Longrightarrow> js_number (dec n) = Whole (int n)"
  by (simp add: js_number_digits double_of_exact [unfolded One_nat_def] max_safe_integer_def)

section \<open>Values\<close>

datatype jsval = Undefined | Null | Boolean bool | Number jsnum | String string
  | Array "jsval list" | Object "(string \<times> jsval) list"

definition field :: "string \<Rightarrow> jsval \<Rightarrow> jsval" where
  "field k v = (case v of Object ps \<Rightarrow> (case map_of ps k of Some w \<Rightarrow> w | None \<Rightarrow> Undefined) | _ \<Rightarrow> Undefined)"

text \<open>\<open>typeof v === "object" && v !== null\<close>: arrays count.\<close>

fun is_object :: "jsval \<Rightarrow> bool" where
  "is_object (Object ps) = True"
| "is_object (Array vs) = True"
| "is_object _ = False"

definition keys_of :: "jsval \<Rightarrow> string list" where
  "keys_of v = (case v of Object ps \<Rightarrow> uniq_from {} (List.map fst ps)
     | Array vs \<Rightarrow> List.map dec [0..<length vs] | _ \<Rightarrow> [])"

lemma field_Object [simp, js_simps]:
  "field k (Object []) = Undefined"
  "field k (Object ((k', v) # ps)) = (if k = k' then v else field k (Object ps))"
  by (simp_all add: field_def)

lemma field_other [simp, js_simps]:
  "field k Undefined = Undefined" "field k Null = Undefined" "field k (Array vs) = Undefined"
  "field k (String s) = Undefined" "field k (Number n) = Undefined" "field k (Boolean b) = Undefined"
  by (simp_all add: field_def)

end
