(* ===== verification/JS_Bytes.thy ===== *)
theory JS_Bytes
  imports LCC_Prelude "HOL-Library.Word"
begin

text \<open>
  Bytes as \<open>8 word\<close>, their lower-case hexadecimal form, UTF-8 and \<open>encodeURIComponent\<close>
  on the strings of the model (code units below 256), and asynchronous code as state
  passing: a computation reads and changes a world and returns or throws.
\<close>

type_synonym byte = "8 word"

section \<open>Hexadecimal\<close>

definition hex_digit :: "nat \<Rightarrow> char" where
  "hex_digit d = from_unit (if d < 10 then 48 + d else 87 + d)"

text \<open>\<open>byte.toString(16).padStart(2, "0")\<close>.\<close>

definition hex_byte :: "byte \<Rightarrow> string" where
  "hex_byte b = [hex_digit (unat b div 16), hex_digit (unat b mod 16)]"

definition hex :: "byte list \<Rightarrow> string" where
  "hex bs = concat (List.map hex_byte bs)"

lemma hex_digit_inj: "i < 16 \<Longrightarrow> j < 16 \<Longrightarrow> hex_digit i = hex_digit j \<longleftrightarrow> i = j"
  unfolding hex_digit_def
  by (rule iffI, drule arg_cong [where f = code_unit]) (auto split: if_splits)

lemma unat_byte: "unat (b :: byte) < 256"
proof -
  have "unat b < 2 ^ LENGTH(8)" by (rule unsigned_less)
  then show ?thesis by simp
qed

lemma hex_byte_inj: "hex_byte a = hex_byte b \<longleftrightarrow> a = b"
proof
  assume "hex_byte a = hex_byte b"
  then have "unat a div 16 = unat b div 16 \<and> unat a mod 16 = unat b mod 16"
    using unat_byte [of a] unat_byte [of b] by (auto simp: hex_byte_def hex_digit_inj)
  then have "unat a = unat b" by (metis div_mult_mod_eq)
  then show "a = b" by (simp add: word_unat_eq_iff)
qed simp

lemma hex_inj: "hex xs = hex ys \<longleftrightarrow> xs = ys"
proof
  show "hex xs = hex ys \<Longrightarrow> xs = ys"
  proof (induction xs arbitrary: ys)
    case Nil
    then show ?case by (cases ys) (auto simp: hex_def hex_byte_def)
  next
    case (Cons x xs)
    then obtain y zs where ys: "ys = y # zs" by (cases ys) (auto simp: hex_def hex_byte_def)
    from Cons.prems have "hex_byte x = hex_byte y" and "hex xs = hex zs"
      by (auto simp: ys hex_def hex_byte_def)
    with Cons.IH ys show ?case by (simp add: hex_byte_inj)
  qed
qed simp

lemma length_hex: "length (hex bs) = 2 * length bs"
  by (induction bs) (auto simp: hex_def hex_byte_def)

section \<open>UTF-8 and URIs\<close>

definition utf8_char :: "char \<Rightarrow> byte list" where
  "utf8_char c = (let u = code_unit c in
     if u < 128 then [of_nat u] else [of_nat (192 + u div 64), of_nat (128 + u mod 64)])"

definition utf8 :: "string \<Rightarrow> byte list" where
  "utf8 s = concat (List.map utf8_char s)"

definition uri_unreserved :: "char \<Rightarrow> bool" where
  "uri_unreserved c \<longleftrightarrow> js_alnum c \<or> c \<in> set ''-_.!~*'' \<or> code_unit c \<in> {39, 40, 41}"

definition upper_hex_digit :: "nat \<Rightarrow> char" where
  "upper_hex_digit d = from_unit (if d < 10 then 48 + d else 55 + d)"

definition percent_byte :: "byte \<Rightarrow> string" where
  "percent_byte b = ''%'' @ [upper_hex_digit (unat b div 16), upper_hex_digit (unat b mod 16)]"

definition encode_uri_component :: "string \<Rightarrow> string" where
  "encode_uri_component s =
     concat (List.map (\<lambda>c. if uri_unreserved c then [c] else concat (List.map percent_byte (utf8_char c))) s)"

lemma upper_hex_digit_alnum: "d < 16 \<Longrightarrow> js_alnum (upper_hex_digit d)"
  by (auto simp: upper_hex_digit_def js_alnum_def js_digit_def js_upper_ascii_def)

lemma percent_byte_chars: "c \<in> set (percent_byte b) \<Longrightarrow> uri_unreserved c \<or> c = CHR ''%''"
  using unat_byte [of b] by (auto simp: percent_byte_def uri_unreserved_def upper_hex_digit_alnum)

lemma encode_uri_component_chars:
  "c \<in> set (encode_uri_component s) \<Longrightarrow> uri_unreserved c \<or> c = CHR ''%''"
  by (auto simp: encode_uri_component_def dest: percent_byte_chars split: if_splits)

lemma uri_unreserved_not_slash: "uri_unreserved c \<Longrightarrow> c \<noteq> CHR ''/'' \<and> c \<noteq> CHR ''?'' \<and> c \<noteq> CHR ''#'' \<and> c \<noteq> CHR ''%''"
  by (auto simp: uri_unreserved_def js_simps)

lemma encode_uri_component_no_slash:
  "CHR ''/'' \<notin> set (encode_uri_component s)" "CHR ''?'' \<notin> set (encode_uri_component s)"
  "CHR ''#'' \<notin> set (encode_uri_component s)"
  using encode_uri_component_chars uri_unreserved_not_slash by fastforce+

lemma encode_uri_component_id: "list_all uri_unreserved s \<Longrightarrow> encode_uri_component s = s"
  by (induction s) (auto simp: encode_uri_component_def)

section \<open>Effects\<close>

type_synonym ('w, 'a) io = "'w \<Rightarrow> 'a outcome \<times> 'w"

named_theorems io_simps

definition io_return :: "'a \<Rightarrow> ('w, 'a) io" where
  "io_return x w = (Inr x, w)"

definition io_throw :: "string \<Rightarrow> ('w, 'a) io" where
  "io_throw e w = (Inl e, w)"

definition io_lift :: "'a outcome \<Rightarrow> ('w, 'a) io" where
  "io_lift r w = (r, w)"

definition io_bind :: "('w, 'a) io \<Rightarrow> ('a \<Rightarrow> ('w, 'b) io) \<Rightarrow> ('w, 'b) io" where
  "io_bind m f w = (case m w of (Inl e, w') \<Rightarrow> (Inl e, w') | (Inr x, w') \<Rightarrow> f x w')"

definition io_catch :: "('w, 'a) io \<Rightarrow> (string \<Rightarrow> ('w, 'a) io) \<Rightarrow> ('w, 'a) io" where
  "io_catch m h w = (case m w of (Inl e, w') \<Rightarrow> h e w' | (Inr x, w') \<Rightarrow> (Inr x, w'))"

lemma io_simps_basic [simp, io_simps]:
  "io_return x w = (Inr x, w)"
  "io_throw e w = (Inl e, w)"
  "io_lift r w = (r, w)"
  by (simp_all add: io_return_def io_throw_def io_lift_def)

lemma io_bind_cases [io_simps]:
  "m w = (Inl e, w') \<Longrightarrow> io_bind m f w = (Inl e, w')"
  "m w = (Inr x, w') \<Longrightarrow> io_bind m f w = f x w'"
  by (simp_all add: io_bind_def)

lemma io_bind_return [simp]: "io_bind (io_return x) f = f x"
  by (simp add: io_bind_def fun_eq_iff)

lemma io_bind_throw [simp]: "io_bind (io_throw e) f = io_throw e"
  by (simp add: io_bind_def fun_eq_iff)

lemma io_bind_lift [simp]:
  "io_bind (io_lift (Inr x)) f = f x"
  "io_bind (io_lift (Inl e)) f = io_throw e"
  by (simp_all add: io_bind_def fun_eq_iff)

lemma io_bind_Inr_iff:
  "io_bind m f w = (Inr y, w'') \<longleftrightarrow> (\<exists>x w'. m w = (Inr x, w') \<and> f x w' = (Inr y, w''))"
  by (auto simp: io_bind_def split: prod.splits sum.splits)

lemma io_bind_Inl_iff:
  "io_bind m f w = (Inl e, w'') \<longleftrightarrow>
     m w = (Inl e, w'') \<or> (\<exists>x w'. m w = (Inr x, w') \<and> f x w' = (Inl e, w''))"
  by (auto simp: io_bind_def split: prod.splits sum.splits)

lemma io_bind_assoc: "io_bind (io_bind m f) g = io_bind m (\<lambda>x. io_bind (f x) g)"
  by (auto simp: io_bind_def fun_eq_iff split: prod.splits sum.splits)

end
