(* ===== verification/Snapshot_Stream.thy ===== *)
theory Snapshot_Stream
  imports Snapshot_Correct JS_Bytes
begin

text \<open>
  \<open>streamWithSnapshotInventory\<close> of \<open>snapshot-inventory.ts\<close>: the transform that hashes,
  counts and scans the dump on its way to storage. The tokenizer and its byte-level wrapper
  are providers of one interface, a scanner whose writes can be cut anywhere.

  SHA-256 and the streaming UTF-8 decoder belong to the runtime and are arguments: the digest
  of all bytes, and a decoder step, which returns the characters completed so far or throws.
\<close>

section \<open>Scanners\<close>

locale scanner =
  fixes advance :: "'s \<Rightarrow> 'c list \<Rightarrow> 's outcome"
  assumes advance_nil: "advance s [] = Inr s"
    and advance_split: "advance s (xs @ ys) = Inr s' \<longleftrightarrow> rbind (advance s xs) (\<lambda>m. advance m ys) = Inr s'"
begin

lemma advance_concat: "rfold advance s chunks = Inr s' \<longleftrightarrow> advance s (concat chunks) = Inr s'"
  by (induction chunks arbitrary: s) (simp_all add: advance_nil advance_split rbind_Inr_iff)

lemma chunks_irrelevant:
  "concat xss = concat yss \<Longrightarrow> rfold advance s xss = Inr s' \<longleftrightarrow> rfold advance s yss = Inr s'"
  by (simp add: advance_concat)

end

text \<open>A decoder in front of a scanner is a scanner of bytes.\<close>

definition decoding_write ::
  "('d \<Rightarrow> 'b list \<Rightarrow> (string \<times> 'd) outcome) \<Rightarrow> ('s \<Rightarrow> string \<Rightarrow> 's outcome) \<Rightarrow> 's \<times> 'd \<Rightarrow> 'b list \<Rightarrow> ('s \<times> 'd) outcome" where
  "decoding_write decode scan sd chunk =
     rbind (decode (snd sd) chunk) (\<lambda>(text, d). rbind (scan (fst sd) text) (\<lambda>s. Inr (s, d)))"

definition splits_decoding :: "('d \<Rightarrow> 'b list \<Rightarrow> (string \<times> 'd) outcome) \<Rightarrow> bool" where
  "splits_decoding decode \<longleftrightarrow>
     (\<forall>d. decode d [] = Inr ([], d))
     \<and> (\<forall>d xs ys. decode d (xs @ ys) =
          rbind (decode d xs) (\<lambda>(s, d'). rbind (decode d' ys) (\<lambda>(t, d''). Inr (s @ t, d''))))"

interpretation text_scanner: scanner write_text
  by unfold_locales (simp_all add: write_text_def rfold_append)

section \<open>The streaming transform\<close>

record 'd runtime =
  rt_decode :: "'d \<Rightarrow> byte list \<Rightarrow> (string \<times> 'd) outcome"
  rt_decode_end :: "'d \<Rightarrow> string outcome"
  rt_decoder :: 'd
  rt_sha256 :: "byte list \<Rightarrow> byte list"

record 'd stream_state =
  sm_tokenizer :: tokenizer
  sm_decoder :: 'd
  sm_hashed :: "byte list"
  sm_size :: nat

definition stream_init :: "'d runtime \<Rightarrow> 'd stream_state" where
  "stream_init rt = \<lparr>sm_tokenizer = tokenizer_init, sm_decoder = rt_decoder rt, sm_hashed = [], sm_size = 0\<rparr>"

definition tokenizer_write ::
  "'d runtime \<Rightarrow> tokenizer \<times> 'd \<Rightarrow> byte list \<Rightarrow> (tokenizer \<times> 'd) outcome" where
  "tokenizer_write rt = decoding_write (rt_decode rt) write_text"

definition stream_transform :: "'d runtime \<Rightarrow> 'd stream_state \<Rightarrow> byte list \<Rightarrow> 'd stream_state outcome" where
  "stream_transform rt s chunk =
     (if max_safe_integer < sm_size s + length chunk then Inl ''d1_export_size_overflow''
      else rbind (tokenizer_write rt (sm_tokenizer s, sm_decoder s) chunk) (\<lambda>(t, d).
        Inr \<lparr>sm_tokenizer = t, sm_decoder = d, sm_hashed = sm_hashed s @ chunk,
             sm_size = sm_size s + length chunk\<rparr>))"

record streamed =
  digest_hex :: string
  size_bytes :: nat
  stream_inventory :: snapshot_inventory

definition stream_flush :: "'d runtime \<Rightarrow> 'd stream_state \<Rightarrow> streamed outcome" where
  "stream_flush rt s =
     rbind (rt_decode_end rt (sm_decoder s)) (\<lambda>text.
     rbind (write_text (sm_tokenizer s) text) (\<lambda>t.
     rbind (tokenizer_finish t) (\<lambda>inv.
       Inr \<lparr>digest_hex = hex (rt_sha256 rt (sm_hashed s)), size_bytes = sm_size s, stream_inventory = inv\<rparr>)))"

text \<open>The chunks in order, then the end of the source: closed, or failed with an error.\<close>

definition stream_with_snapshot_inventory ::
  "'d runtime \<Rightarrow> byte list list \<Rightarrow> string option \<Rightarrow> streamed outcome" where
  "stream_with_snapshot_inventory rt chunks failure =
     rbind (rfold (stream_transform rt) (stream_init rt) chunks) (\<lambda>s.
       case failure of Some e \<Rightarrow> Inl e | None \<Rightarrow> stream_flush rt s)"

text \<open>What the whole dump means, read at once.\<close>

definition stream_spec :: "'d runtime \<Rightarrow> byte list \<Rightarrow> streamed outcome" where
  "stream_spec rt bytes =
     rbind (rt_decode rt (rt_decoder rt) bytes) (\<lambda>(text, d).
     rbind (rt_decode_end rt d) (\<lambda>rest.
     rbind (inventory_of_text (text @ rest)) (\<lambda>inv.
       Inr \<lparr>digest_hex = hex (rt_sha256 rt bytes), size_bytes = length bytes, stream_inventory = inv\<rparr>)))"

lemma decode_split:
  "splits_decoding decode \<Longrightarrow> decode d (xs @ ys) = Inr (text, d'') \<longleftrightarrow>
     (\<exists>s d' t. decode d xs = Inr (s, d') \<and> decode d' ys = Inr (t, d'') \<and> text = s @ t)"
  unfolding splits_decoding_def by (simp add: rbind_Inr_iff) blast

lemma decoding_scanner:
  assumes dec: "splits_decoding decode" and sc: "scanner scan"
  shows "scanner (decoding_write decode scan)"
proof
  fix s s' xs ys
  show "decoding_write decode scan s [] = Inr s"
    using dec scanner.advance_nil [OF sc]
    by (cases s) (simp add: decoding_write_def splits_decoding_def)
  have dw: "decoding_write decode scan p zs = Inr q \<longleftrightarrow>
      (\<exists>text. decode (snd p) zs = Inr (text, snd q) \<and> scan (fst p) text = Inr (fst q))" for p q zs
    by (cases q) (auto simp: decoding_write_def rbind_Inr_iff)
  then have "decoding_write decode scan s (xs @ ys) = Inr s' \<longleftrightarrow>
      (\<exists>text. decode (snd s) (xs @ ys) = Inr (text, snd s') \<and> scan (fst s) text = Inr (fst s'))"
    by blast
  also have "\<dots> \<longleftrightarrow> (\<exists>t d u m. decode (snd s) xs = Inr (t, d) \<and> decode d ys = Inr (u, snd s')
      \<and> scan (fst s) t = Inr m \<and> scan m u = Inr (fst s'))"
    unfolding decode_split [OF dec] using scanner.advance_split [OF sc] by (auto simp: rbind_Inr_iff)
  also have "\<dots> \<longleftrightarrow> rbind (decoding_write decode scan s xs) (\<lambda>m. decoding_write decode scan m ys) = Inr s'"
    unfolding rbind_Inr_iff dw by (metis fst_conv snd_conv)
  finally show "decoding_write decode scan s (xs @ ys) = Inr s' \<longleftrightarrow>
      rbind (decoding_write decode scan s xs) (\<lambda>m. decoding_write decode scan m ys) = Inr s'" .
qed

lemma stream_transform_fold:
  assumes "sm_size s \<le> max_safe_integer"
  shows "rfold (stream_transform rt) s chunks = Inr s' \<longleftrightarrow>
    sm_size s + length (concat chunks) \<le> max_safe_integer
    \<and> rfold (tokenizer_write rt) (sm_tokenizer s, sm_decoder s) chunks = Inr (sm_tokenizer s', sm_decoder s')
    \<and> sm_hashed s' = sm_hashed s @ concat chunks \<and> sm_size s' = sm_size s + length (concat chunks)"
  using assms
proof (induction chunks arbitrary: s)
  case Nil
  then show ?case by (cases s, cases s') auto
next
  case (Cons c cs)
  show ?case
  proof (cases "sm_size s + length c \<le> max_safe_integer")
    case True
    show ?thesis
    proof (cases "tokenizer_write rt (sm_tokenizer s, sm_decoder s) c")
      case (Inl e)
      then show ?thesis using True by (simp add: stream_transform_def not_less)
    next
      case (Inr td)
      then show ?thesis using True Cons.IH [of "\<lparr>sm_tokenizer = fst td, sm_decoder = snd td, sm_hashed = sm_hashed s @ c,
             sm_size = sm_size s + length c\<rparr>"]
        by (cases td) (simp add: stream_transform_def not_less add.assoc)
    qed
  next
    case False
    then show ?thesis by (simp add: stream_transform_def)
  qed
qed

lemma stream_total:
  assumes "splits_decoding (rt_decode rt)"
  shows "stream_with_snapshot_inventory rt chunks failure = Inr r \<longleftrightarrow>
    failure = None \<and> length (concat chunks) \<le> max_safe_integer \<and> stream_spec rt (concat chunks) = Inr r"
proof -
  have sc: "scanner (tokenizer_write rt)"
    unfolding tokenizer_write_def using assms text_scanner.scanner_axioms by (rule decoding_scanner)
  define bytes where "bytes = concat chunks"
  have fold: "rfold (stream_transform rt) (stream_init rt) chunks = Inr s \<longleftrightarrow>
      length bytes \<le> max_safe_integer
      \<and> tokenizer_write rt (tokenizer_init, rt_decoder rt) bytes = Inr (sm_tokenizer s, sm_decoder s)
      \<and> sm_hashed s = bytes \<and> sm_size s = length bytes" for s
    using stream_transform_fold [of "stream_init rt" rt chunks s] scanner.advance_concat [OF sc]
    by (simp add: stream_init_def bytes_def)
  have spec: "stream_spec rt bytes = Inr r \<longleftrightarrow>
      (\<exists>text d rest t t' inv. rt_decode rt (rt_decoder rt) bytes = Inr (text, d) \<and> rt_decode_end rt d = Inr rest
        \<and> write_text tokenizer_init text = Inr t \<and> write_text t rest = Inr t' \<and> tokenizer_finish t' = Inr inv
        \<and> r = \<lparr>digest_hex = hex (rt_sha256 rt bytes), size_bytes = length bytes, stream_inventory = inv\<rparr>)"
    by (auto simp: stream_spec_def inventory_of_text_def write_text_append rbind_Inr_iff)
  have state: "(\<exists>s. P (sm_tokenizer s) (sm_decoder s) (sm_hashed s) (sm_size s)) \<longleftrightarrow> (\<exists>t d h n. P t d h n)"
    for P :: "tokenizer \<Rightarrow> 'a \<Rightarrow> byte list \<Rightarrow> nat \<Rightarrow> bool"
    by (metis stream_state.select_convs)
  show ?thesis
  proof (cases failure)
    case (Some e)
    then show ?thesis by (simp add: stream_with_snapshot_inventory_def rbind_Inr_iff)
  next
    case None
    have "stream_with_snapshot_inventory rt chunks None = Inr r \<longleftrightarrow>
        (\<exists>s. length bytes \<le> max_safe_integer
          \<and> tokenizer_write rt (tokenizer_init, rt_decoder rt) bytes = Inr (sm_tokenizer s, sm_decoder s)
          \<and> sm_hashed s = bytes \<and> sm_size s = length bytes \<and> stream_flush rt s = Inr r)"
      by (auto simp: stream_with_snapshot_inventory_def rbind_Inr_iff fold)
    also have "\<dots> \<longleftrightarrow> length bytes \<le> max_safe_integer \<and> stream_spec rt bytes = Inr r"
      unfolding spec stream_flush_def
      using state [of "\<lambda>t d h n. length bytes \<le> max_safe_integer
          \<and> tokenizer_write rt (tokenizer_init, rt_decoder rt) bytes = Inr (t, d) \<and> h = bytes \<and> n = length bytes
          \<and> rbind (rt_decode_end rt d) (\<lambda>text. rbind (write_text t text) (\<lambda>t. rbind (tokenizer_finish t)
              (\<lambda>inv. Inr \<lparr>digest_hex = hex (rt_sha256 rt h), size_bytes = n, stream_inventory = inv\<rparr>))) = Inr r"]
      by (auto simp: tokenizer_write_def decoding_write_def rbind_Inr_iff)
    finally show ?thesis using None by (simp add: bytes_def)
  qed
qed

text \<open>C29. However the network cuts the dump into chunks, the transform succeeds exactly when the
  source closes normally, the dump is not longer than \<open>2^53 - 1\<close> bytes, and its bytes decode to
  a text with an inventory; digest, size and inventory are then those of the whole dump.\<close>

theorem stream_with_snapshot_inventory_iff:
  assumes "splits_decoding (rt_decode rt)"
  shows "stream_with_snapshot_inventory rt chunks failure = Inr r \<longleftrightarrow>
    failure = None \<and> length (concat chunks) \<le> max_safe_integer \<and> stream_spec rt (concat chunks) = Inr r"
  using assms by (rule stream_total)

section \<open>The decoder on the strings of the model\<close>

text \<open>
  The runtime's decoder for \<open>utf-8\<close> with \<open>fatal: true\<close>, on the code points below U+0100
  that the strings of the model hold: the state is a lead byte that waits for its continuation.
\<close>

definition decode_byte :: "string \<times> byte option \<Rightarrow> byte \<Rightarrow> (string \<times> byte option) outcome" where
  "decode_byte sp b = (let u = unat b in
     case snd sp of
       None \<Rightarrow>
         if u < 128 then Inr (fst sp @ [from_unit u], None)
         else if u = 194 \<or> u = 195 then Inr (fst sp, Some b)
         else Inl ''The encoded data was not valid for encoding utf-8''
     | Some p \<Rightarrow>
         if 128 \<le> u \<and> u < 192 then Inr (fst sp @ [from_unit ((unat p - 192) * 64 + (u - 128))], None)
         else Inl ''The encoded data was not valid for encoding utf-8'')"

definition utf8_decode :: "byte option \<Rightarrow> byte list \<Rightarrow> (string \<times> byte option) outcome" where
  "utf8_decode p bs = rfold decode_byte ([], p) bs"

definition utf8_decode_end :: "byte option \<Rightarrow> string outcome" where
  "utf8_decode_end p = (case p of None \<Rightarrow> Inr []
     | Some _ \<Rightarrow> Inl ''The encoded data was not valid for encoding utf-8'')"

text \<open>\<open>snapshotInventoryFromSql\<close>: encode, write once, finish.\<close>

definition snapshot_inventory_from_sql :: "string \<Rightarrow> snapshot_inventory outcome" where
  "snapshot_inventory_from_sql sql =
     rbind (decoding_write utf8_decode write_text (tokenizer_init, None) (utf8 sql)) (\<lambda>(t, d).
     rbind (utf8_decode_end d) (\<lambda>text.
     rbind (write_text t text) tokenizer_finish))"

lemma decode_byte_prefix:
  "decode_byte (a @ s, p) b = rbind (decode_byte (s, p) b) (\<lambda>(t, q). Inr (a @ t, q))"
  by (simp add: decode_byte_def Let_def split: option.split)

lemma decode_fold_prefix:
  "rfold decode_byte (a @ s, p) bs = rbind (rfold decode_byte (s, p) bs) (\<lambda>(t, q). Inr (a @ t, q))"
proof (induction bs arbitrary: s p)
  case Nil
  then show ?case by simp
next
  case (Cons b bs)
  show ?case
  proof (cases "decode_byte (s, p) b")
    case (Inl e)
    then show ?thesis using decode_byte_prefix [of a s p b] by simp
  next
    case (Inr tq)
    then show ?thesis using decode_byte_prefix [of a s p b] Cons.IH by (cases tq) simp
  qed
qed

lemma utf8_decode_splits: "splits_decoding utf8_decode"
proof -
  have "utf8_decode d (xs @ ys) = rbind (utf8_decode d xs) (\<lambda>(s, d'). rbind (utf8_decode d' ys) (\<lambda>(t, d''). Inr (s @ t, d'')))" for d xs ys
  proof (cases "rfold decode_byte ([], d) xs")
    case (Inl e)
    then show ?thesis by (simp add: utf8_decode_def rfold_append)
  next
    case (Inr tq)
    then show ?thesis using decode_fold_prefix [of "fst tq" "[]" "snd tq" ys]
      by (cases tq) (simp add: utf8_decode_def rfold_append)
  qed
  then show ?thesis by (simp add: splits_decoding_def utf8_decode_def)
qed

interpretation byte_scanner: scanner "decoding_write utf8_decode write_text"
  by (rule decoding_scanner) (rule utf8_decode_splits, rule text_scanner.scanner_axioms)

lemma unat_of_nat_byte: "n < 256 \<Longrightarrow> unat (of_nat n :: byte) = n"
  by (simp add: unsigned_of_nat take_bit_nat_eq_self)

lemma decode_lead: "unat b = 194 \<or> unat b = 195 \<Longrightarrow> decode_byte (s, None) b = Inr (s, Some b)"
  by (auto simp: decode_byte_def Let_def)

lemma decode_continuation:
  "128 \<le> unat b \<Longrightarrow> unat b < 192 \<Longrightarrow>
     decode_byte (s, Some p) b = Inr (s @ [from_unit ((unat p - 192) * 64 + (unat b - 128))], None)"
  by (simp add: decode_byte_def Let_def)

lemma decode_char: "rfold decode_byte (s, None) (utf8_char c) = Inr (s @ [c], None)"
proof (cases "code_unit c < 128")
  case True
  then show ?thesis by (simp add: utf8_char_def decode_byte_def unat_of_nat_byte)
next
  case False
  define u where "u = code_unit c"
  have u: "128 \<le> u" "u < 256" using False code_unit_less [of c] by (simp_all add: u_def)
  then have "u div 64 = 2 \<or> u div 64 = 3" by arith
  then have lead: "192 + u div 64 = 194 \<or> 192 + u div 64 = 195" by auto
  have q: "192 + u div 64 < 256" "128 + u mod 64 < 256" "128 + u mod 64 < 192" using lead by auto
  have n: "unat (of_nat (192 + u div 64) :: byte) = 192 + u div 64" "unat (of_nat (128 + u mod 64) :: byte) = 128 + u mod 64"
    using q by (simp_all only: unat_of_nat_byte)
  have "utf8_char c = [of_nat (192 + u div 64), of_nat (128 + u mod 64)]"
    using False by (simp add: utf8_char_def u_def [symmetric] Let_def)
  then have "rfold decode_byte (s, None) (utf8_char c) = Inr (s @ [from_unit (u div 64 * 64 + u mod 64)], None)"
    using lead q decode_lead [of "of_nat (192 + u div 64)" s] decode_continuation [of "of_nat (128 + u mod 64)" s "of_nat (192 + u div 64)"]
    by (simp only: rfold.simps rbind_simps n) simp
  then show ?thesis by (simp add: u_def)
qed

lemma utf8_decode_utf8: "utf8_decode None (utf8 s) = Inr (s, None)"
proof -
  have "rfold decode_byte (a, None) (utf8 s) = Inr (a @ s, None)" for a
    by (induction s arbitrary: a) (simp_all add: utf8_def rfold_append decode_char)
  then show ?thesis by (simp add: utf8_decode_def)
qed

text \<open>\<open>snapshotInventoryFromSql\<close> reads the characters it was given: encoding them and
  decoding them again before the scan changes nothing.\<close>

theorem snapshot_inventory_from_sql_eq: "snapshot_inventory_from_sql sql = inventory_of_text sql"
  by (simp add: snapshot_inventory_from_sql_def decoding_write_def utf8_decode_utf8 utf8_decode_end_def
      inventory_of_text_def rbind_assoc write_text_def)

definition example_runtime :: "byte option runtime" where
  "example_runtime = \<lparr>rt_decode = utf8_decode, rt_decode_end = utf8_decode_end, rt_decoder = None,
     rt_sha256 = (\<lambda>bs. take 32 (bs @ replicate 32 0))\<rparr>"

theorem stream_with_snapshot_inventory_iff_witness:
  "stream_with_snapshot_inventory example_runtime [utf8 ''CREATE TABLE entitle'', [], utf8 ''ments(y);''] None =
     Inr \<lparr>digest_hex = hex (rt_sha256 example_runtime (utf8 ''CREATE TABLE entitlements(y);'')), size_bytes = 29,
       stream_inventory = \<lparr>table_counts = [(''entitlements'', 0)]\<rparr>\<rparr>"
proof -
  have "splits_decoding (rt_decode example_runtime)" by (simp add: example_runtime_def utf8_decode_splits)
  moreover have "stream_spec example_runtime (concat [utf8 ''CREATE TABLE entitle'', [], utf8 ''ments(y);'']) =
     Inr \<lparr>digest_hex = hex (rt_sha256 example_runtime (utf8 ''CREATE TABLE entitlements(y);'')), size_bytes = 29,
       stream_inventory = \<lparr>table_counts = [(''entitlements'', 0)]\<rparr>\<rparr>"
    by code_simp
  moreover have "length (concat [utf8 ''CREATE TABLE entitle'', [], utf8 ''ments(y);'']) \<le> max_safe_integer"
    by code_simp
  ultimately show ?thesis using stream_with_snapshot_inventory_iff by blast
qed

end
