(* ===== verification/Backup_Core.thy ===== *)
theory Backup_Core
  imports Snapshot_Stream JS_Date JS_Values
begin

text \<open>
  The pure part of \<open>services/cloudflare-d1-backup/src/core.ts\<close>: the configuration, the
  names of R2 objects, the checks on the provider's answers and on R2's put result, and the
  constant-time comparison. An error is the message of the thrown \<open>Error\<close>.
\<close>

section \<open>Configuration\<close>

record backup_env =
  env_account_id :: "string option"
  env_database_id :: "string option"
  env_database_name :: "string option"
  env_backup_prefix :: "string option"
  env_retention_days :: "string option"

record backup_config =
  account_id :: string
  database_id :: string
  database_name :: string
  bk_prefix :: string
  retention_days :: int

definition default_database_name :: string where
  "default_database_name = ''licensecc-online-verifier''"

definition default_retention_days :: int where
  "default_retention_days = 90"

definition max_retention_days :: int where
  "max_retention_days = 3650"

definition max_clock_skew_ms :: int where
  "max_clock_skew_ms = 5 * 60 * 1000"

definition required_string :: "string option \<Rightarrow> string \<Rightarrow> string outcome" where
  "required_string v name = (case v of
     Some s \<Rightarrow> if js_trim s = [] then Inl (name @ ''_required'') else Inr (js_trim s)
   | None \<Rightarrow> Inl (name @ ''_required''))"

definition optional_string :: "string option \<Rightarrow> string option" where
  "optional_string v = (case v of Some s \<Rightarrow> if js_trim s = [] then None else Some (js_trim s) | None \<Rightarrow> None)"

definition retention_error :: string where
  "retention_error = ''BACKUP_RETENTION_DAYS must be an integer in [1, 3650]''"

definition parse_retention_days :: "string option \<Rightarrow> int outcome" where
  "parse_retention_days v = (case v of
     None \<Rightarrow> Inr default_retention_days
   | Some s \<Rightarrow>
       if js_trim s = [] then Inr default_retention_days
       else (case js_number s of
           Whole n \<Rightarrow> if n < 1 \<or> max_retention_days < n then Inl retention_error else Inr n
         | _ \<Rightarrow> Inl retention_error))"

definition strip_slashes :: "string \<Rightarrow> string" where
  "strip_slashes s =
     rev (dropWhile (\<lambda>c. c = CHR ''/'') (rev (dropWhile (\<lambda>c. c = CHR ''/'') s)))"

definition backslash :: char where
  "backslash = CHR 0x5C"

definition slashes :: "string \<Rightarrow> string" where
  "slashes s = List.map (\<lambda>c. if c = backslash then CHR ''/'' else c) s"

definition segment_char :: "char \<Rightarrow> bool" where
  "segment_char c \<longleftrightarrow> js_alnum c \<or> c \<in> {CHR ''.'', CHR ''_'', CHR ''-''}"

definition prefix_error :: string where
  "prefix_error = ''BACKUP_PREFIX must contain only letters, numbers, '' @ [CHR 0x27] @ ''.'' @ [CHR 0x27]
     @ '', '' @ [CHR 0x27] @ ''_'' @ [CHR 0x27] @ '', '' @ [CHR 0x27] @ ''-'' @ [CHR 0x27] @ '', and ''
     @ [CHR 0x27] @ ''/'' @ [CHR 0x27] @ '' without traversal''"

definition sanitize_backup_prefix :: "string \<Rightarrow> string outcome" where
  "sanitize_backup_prefix p =
     (let t = strip_slashes (slashes (js_trim p)) in
      if t = [] \<or> js_includes t ''..'' \<or> js_includes t ''//''
         \<or> \<not> list_all (\<lambda>c. segment_char c \<or> c = CHR ''/'') t
      then Inl prefix_error else Inr t)"

definition default_file :: string where
  "default_file = ''database.sql''"

definition sanitize_object_segment :: "string \<Rightarrow> string" where
  "sanitize_object_segment v =
     (let parts = List.filter (\<lambda>p. p \<noteq> []) (js_split (\<lambda>c. c = backslash \<or> c = CHR ''/'') v);
          segment = (if parts = [] then default_file else last parts);
          safe = List.map (\<lambda>c. if segment_char c then c else CHR ''_'') segment
      in if safe = [] \<or> safe = ''.'' \<or> safe = ''..'' then default_file else safe)"

definition backup_config_from_env :: "backup_env \<Rightarrow> backup_config outcome" where
  "backup_config_from_env env =
     (let name = (case optional_string (env_database_name env) of Some s \<Rightarrow> s | None \<Rightarrow> default_database_name) in
      rbind (required_string (env_account_id env) ''ACCOUNT_ID'') (\<lambda>a.
      rbind (required_string (env_database_id env) ''DATABASE_ID'') (\<lambda>d.
      rbind (sanitize_backup_prefix
               (case optional_string (env_backup_prefix env) of Some s \<Rightarrow> s | None \<Rightarrow> ''d1/'' @ name)) (\<lambda>p.
      rbind (parse_retention_days (env_retention_days env)) (\<lambda>r.
        Inr \<lparr>account_id = a, database_id = d, database_name = name, bk_prefix = p, retention_days = r\<rparr>)))))"

definition require_d1_rest_api_token :: "string option \<Rightarrow> string outcome" where
  "require_d1_rest_api_token v = required_string v ''D1_REST_API_TOKEN''"

definition d1_export_url :: "backup_config \<Rightarrow> string" where
  "d1_export_url cfg = ''https://api.cloudflare.com/client/v4/accounts/'' @ encode_uri_component (account_id cfg)
     @ ''/d1/database/'' @ encode_uri_component (database_id cfg) @ ''/export''"

section \<open>The provider's answers\<close>

text \<open>\<open>asRecord\<close>: any object, arrays too; then only named properties are read.\<close>

definition as_record :: "jsval \<Rightarrow> jsval option" where
  "as_record v = (if is_object v then Some v else None)"

definition error_message :: "jsval \<Rightarrow> string" where
  "error_message e = (case field ''message'' e of String m \<Rightarrow> m | _ \<Rightarrow> ''unknown_error'')"

definition cloudflare_errors :: "jsval \<Rightarrow> string" where
  "cloudflare_errors v = (case field ''errors'' v of
     Array (e # es) \<Rightarrow> js_join ''; '' (List.map error_message (e # es))
   | _ \<Rightarrow> ''unknown_error'')"

text \<open>
  A response of \<open>fetch\<close>: the status, the headers the code reads, what \<open>response.json()\<close>
  gives (\<open>Inl\<close> the message it throws with), and the chunks of the body, if it has one, with the
  error that ends the stream early.
\<close>

record 'c response =
  rs_status :: nat
  rs_content_length :: "string option"
  rs_content_encoding :: "string option"
  rs_json :: "jsval outcome"
  rs_body :: "('c list \<times> string option) option"

definition rs_ok :: "'c response \<Rightarrow> bool" where
  "rs_ok r \<longleftrightarrow> 200 \<le> rs_status r \<and> rs_status r \<le> 299"

definition response_json :: "'c response \<Rightarrow> string \<Rightarrow> jsval outcome" where
  "response_json r label = (case rs_json r of
     Inl m \<Rightarrow> Inl (label @ ''_invalid_json:'' @ m)
   | Inr v \<Rightarrow>
       if \<not> rs_ok r
       then Inl (label @ ''_http_'' @ dec (rs_status r) @ '':''
                 @ (case as_record v of None \<Rightarrow> ''unknown_error'' | Some o' \<Rightarrow> cloudflare_errors o'))
       else Inr v)"

definition envelope_result :: "jsval \<Rightarrow> string \<Rightarrow> jsval outcome" where
  "envelope_result v label = (case as_record v of
     None \<Rightarrow> Inl (label @ ''_invalid_envelope'')
   | Some e \<Rightarrow>
       if field ''success'' e = Boolean False then Inl (label @ ''_failed:'' @ cloudflare_errors e)
       else (case as_record (field ''result'' e) of
           None \<Rightarrow> Inl (label @ ''_missing_result'')
         | Some r \<Rightarrow> Inr r))"

definition nonempty_string :: "jsval \<Rightarrow> string option" where
  "nonempty_string v = (case v of String s \<Rightarrow> if s = [] then None else Some s | _ \<Rightarrow> None)"

definition parse_start_export_response :: "jsval \<Rightarrow> string outcome" where
  "parse_start_export_response v =
     rbind (envelope_result v ''d1_export_start'') (\<lambda>r.
       case nonempty_string (field ''at_bookmark'' r) of
         None \<Rightarrow> Inl ''d1_export_start_missing_bookmark''
       | Some b \<Rightarrow> Inr b)"

record export_ready =
  filename :: string
  signed_url :: string

record export_started =
  bookmark :: string
  snapshot_requested_at :: string

definition optional_field :: "string \<Rightarrow> jsval option \<Rightarrow> jsval" where
  "optional_field k r = (case r of None \<Rightarrow> Undefined | Some v \<Rightarrow> field k v)"

definition parse_ready_export_response :: "jsval \<Rightarrow> export_ready outcome" where
  "parse_ready_export_response v =
     rbind (envelope_result v ''d1_export_poll'') (\<lambda>r.
       if field ''status'' r = String ''error'' \<or> field ''success'' r = Boolean False
       then Inl ''d1_export_provider_failed''
       else if field ''status'' r \<noteq> String ''complete'' then Inl ''d1_export_not_ready''
       else let ready = as_record (field ''result'' r) in
         (case nonempty_string (optional_field ''signed_url'' ready) of
            None \<Rightarrow> Inl ''d1_export_not_ready''
          | Some url \<Rightarrow> Inr \<lparr>filename = (case nonempty_string (optional_field ''filename'' ready) of
                Some f \<Rightarrow> f | None \<Rightarrow> ''database.sql''), signed_url = url\<rparr>))"

definition is_terminal_export_error :: "string \<Rightarrow> bool" where
  "is_terminal_export_error m \<longleftrightarrow> m = ''d1_export_provider_failed''"

section \<open>Time stamps and object keys\<close>

text \<open>
  \<open>Date.parse\<close>: the format of \<open>toISOString\<close> is the language's own; what an engine makes
  of any other string is the argument \<open>other\<close>.
\<close>

definition date_parse :: "(string \<Rightarrow> int option) \<Rightarrow> string \<Rightarrow> int option" where
  "date_parse other s = (if iso_shape s then parse_iso s else other s)"

definition backup_timestamp :: "int \<Rightarrow> string outcome" where
  "backup_timestamp ms =
     rbind (to_iso_string ms) (\<lambda>s. Inr (List.map (\<lambda>c. if c = CHR '':'' \<or> c = CHR ''.'' then CHR ''-'' else c) s))"

text \<open>
  \<open>canonicalSnapshotRequestedAt\<close>. \<open>toISOString\<close> cannot throw on a value of \<open>Date.parse\<close>
  for the shape tested before it: its year is at most 9999.
\<close>

definition canonical_snapshot_requested_at :: "string \<Rightarrow> string outcome" where
  "canonical_snapshot_requested_at v =
     (if \<not> iso_shape v then Inl ''d1_export_snapshot_requested_at_invalid''
      else (case parse_iso v of
          None \<Rightarrow> Inl ''d1_export_snapshot_requested_at_invalid''
        | Some ms \<Rightarrow> rbind (to_iso_string ms) (\<lambda>s.
            if s \<noteq> v then Inl ''d1_export_snapshot_requested_at_invalid'' else Inr v)))"

definition backup_object_key :: "backup_config \<Rightarrow> export_ready \<Rightarrow> export_started \<Rightarrow> string outcome" where
  "backup_object_key cfg ready started =
     rbind (canonical_snapshot_requested_at (snapshot_requested_at started)) (\<lambda>at.
       case parse_iso at of
         None \<Rightarrow> Inl ''Invalid time value''
       | Some ms \<Rightarrow> rbind (backup_timestamp ms) (\<lambda>ts.
           Inr (bk_prefix cfg @ ''/'' @ ts @ ''/'' @ sanitize_object_segment (bookmark started)
                @ ''/'' @ sanitize_object_segment (filename ready))))"

section \<open>R2's put result\<close>

datatype date_value = DateObject "int option" | DateString string

datatype checksum_value = Buffer "byte list" | NotABuffer

record r2_put_result =
  put_key :: string
  put_version :: jsval
  put_size :: jsnum
  put_etag :: jsval
  put_uploaded :: date_value
  put_sha256 :: "checksum_value option"

record content_integrity =
  ci_digest_hex :: string
  ci_size_bytes :: nat
  ci_r2_etag :: string
  ci_r2_version :: string
  ci_r2_size_bytes :: int
  ci_r2_sha256_hex :: "string option"

definition control_char :: "char \<Rightarrow> bool" where
  "control_char c \<longleftrightarrow> code_unit c \<le> 31 \<or> code_unit c = 127"

definition r2_metadata_string :: "jsval \<Rightarrow> string \<Rightarrow> string outcome" where
  "r2_metadata_string v f = (case v of
     String s \<Rightarrow> if length s < 1 \<or> 2048 < length s \<or> list_ex control_char s
                then Inl (''r2_put_invalid_'' @ f) else Inr s
   | _ \<Rightarrow> Inl (''r2_put_invalid_'' @ f))"

definition date_time :: "(string \<Rightarrow> int option) \<Rightarrow> date_value \<Rightarrow> int option" where
  "date_time other d = (case d of DateObject t \<Rightarrow> t | DateString s \<Rightarrow> date_parse other s)"

definition r2_uploaded_at :: "(string \<Rightarrow> int option) \<Rightarrow> r2_put_result option \<Rightarrow> string outcome" where
  "r2_uploaded_at other v = (case v of
     None \<Rightarrow> Inl ''r2_put_missing_metadata''
   | Some r \<Rightarrow> (case date_time other (put_uploaded r) of
         None \<Rightarrow> Inl ''r2_put_invalid_uploaded_at''
       | Some ms \<Rightarrow> to_iso_string ms))"

definition checksum_hex :: "checksum_value option \<Rightarrow> string option outcome" where
  "checksum_hex v = (case v of
     None \<Rightarrow> Inr None
   | Some (Buffer bytes) \<Rightarrow> if length bytes \<noteq> 32 then Inl ''r2_put_invalid_sha256'' else Inr (Some (hex bytes))
   | Some NotABuffer \<Rightarrow> Inl ''r2_put_invalid_sha256'')"

definition content_integrity_from_put ::
  "r2_put_result option \<Rightarrow> string \<Rightarrow> streamed \<Rightarrow> content_integrity outcome" where
  "content_integrity_from_put v key st = (case v of
     None \<Rightarrow> Inl ''r2_put_missing_metadata''
   | Some r \<Rightarrow>
       if put_key r \<noteq> key then Inl ''r2_put_key_mismatch''
       else if \<not> is_safe_integer (put_size r) \<or> num_less (put_size r) 0 then Inl ''r2_put_invalid_size''
       else if size_bytes st < 1 then Inl ''d1_export_empty''
       else if put_size r \<noteq> Whole (int (size_bytes st)) then Inl ''r2_put_size_mismatch''
       else rbind (checksum_hex (put_sha256 r)) (\<lambda>sha.
         if sha \<noteq> None \<and> sha \<noteq> Some (digest_hex st) then Inl ''r2_put_sha256_mismatch''
         else rbind (r2_metadata_string (put_etag r) ''etag'') (\<lambda>etag.
              rbind (r2_metadata_string (put_version r) ''version'') (\<lambda>version.
                Inr \<lparr>ci_digest_hex = digest_hex st, ci_size_bytes = size_bytes st, ci_r2_etag = etag,
                  ci_r2_version = version, ci_r2_size_bytes = int (size_bytes st), ci_r2_sha256_hex = sha\<rparr>))))"

section \<open>Token comparison\<close>

text \<open>
  \<open>timingSafeTokenEqual\<close>, with SHA-256 as an argument. \<open>diff\<close> starts at 0 or 1 and collects
  the differing bits; a byte past the end of the right digest reads as 0.
\<close>

definition xor_at :: "byte list \<Rightarrow> byte list \<Rightarrow> nat \<Rightarrow> byte" where
  "xor_at l r i = Bit_Operations.xor (l ! i) (if i < length r then r ! i else 0)"

definition timing_safe_token_equal :: "(byte list \<Rightarrow> byte list) \<Rightarrow> string \<Rightarrow> string \<Rightarrow> bool" where
  "timing_safe_token_equal sha256 left right =
     (let l = sha256 (utf8 left); r = sha256 (utf8 right) in
      foldl (\<lambda>d i. Bit_Operations.or d (xor_at l r i)) (if length left = length right then 0 else 1 :: byte)
        [0..<length l] = 0)"

end
