(* ===== verification/Backup_Keys.thy ===== *)
theory Backup_Keys
  imports Backup_Core
begin

text \<open>
  What the checks of \<open>core.ts\<close> establish: prefixes and object keys that cannot leave the
  configured folder, one key for each snapshot, canonical time stamps, and the facts that an
  accepted put result and an accepted token stand for.
\<close>

section \<open>Paths\<close>

abbreviation is_slash :: "char \<Rightarrow> bool" where
  "is_slash c \<equiv> c = CHR ''/''"

abbreviation path_parts :: "string \<Rightarrow> string list" where
  "path_parts \<equiv> js_split is_slash"

lemma js_split_append_sep: "p c \<Longrightarrow> js_split p (a @ c # b) = js_split p a @ js_split p b"
  by (induction a) (auto split: list.splits)

lemma js_split_none: "(\<forall>c \<in> set s. \<not> p c) \<Longrightarrow> js_split p s = [s]"
  by (induction s) auto

lemma js_split_infix: "w \<in> set (js_split p s) \<Longrightarrow> \<exists>a b. s = a @ w @ b"
proof (induction s arbitrary: w)
  case Nil
  then show ?case by simp
next
  case (Cons c cs)
  obtain v vs where vs: "js_split p cs = v # vs" by (cases "js_split p cs") auto
  show ?case
  proof (cases "p c \<or> w \<in> set vs")
    case True
    then have "w = [] \<or> w \<in> set (js_split p cs)" using Cons.prems vs by (auto split: if_splits)
    then show ?thesis
    proof
      assume "w = []"
      then have "c # cs = [] @ w @ (c # cs)" by simp
      then show ?thesis by blast
    next
      assume "w \<in> set (js_split p cs)"
      then obtain a b where "cs = a @ w @ b" using Cons.IH by blast
      then have "c # cs = (c # a) @ w @ b" by simp
      then show ?thesis by blast
    qed
  next
    case False
    then have w: "w = c # v" using Cons.prems vs by simp
    have "\<exists>b. cs = v @ b" using vs
    proof (induction cs arbitrary: v vs)
      case Nil
      then show ?case by simp
    next
      case (Cons d ds)
      then show ?case by (cases "js_split p ds") (auto split: if_splits)
    qed
    then obtain b where "c # cs = [] @ w @ b" using w by auto
    then show ?thesis by blast
  qed
qed

lemma js_split_empty_part:
  "[] \<in> set (path_parts s) \<Longrightarrow> s = [] \<or> hd s = CHR ''/'' \<or> last s = CHR ''/'' \<or> js_includes s ''//''"
proof (induction s rule: measure_induct_rule [of length])
  case (less s)
  show ?case
  proof (cases "s = [] \<or> hd s = CHR ''/''")
    case True
    then show ?thesis by blast
  next
    case False
    then obtain c cs where s: "s = c # cs" and c: "c \<noteq> CHR ''/''" by (cases s) auto
    obtain v vs where vs: "path_parts cs = v # vs" by (cases "path_parts cs") auto
    have tail: "[] \<in> set vs" using less.prems s c vs by simp
    show ?thesis
    proof (cases "cs \<noteq> [] \<and> hd cs = CHR ''/''")
      case True
      then obtain ds where cs: "cs = CHR ''/'' # ds" by (cases cs) auto
      have "[] \<in> set (path_parts ds)" using tail vs cs by simp
      then have "ds = [] \<or> hd ds = CHR ''/'' \<or> last ds = CHR ''/'' \<or> js_includes ds ''//''"
        using less.IH [of ds] s cs by simp
      then show ?thesis using s cs by (cases ds) auto
    next
      case False
      have "[] \<in> set (path_parts cs)" using tail vs by simp
      then have "cs = [] \<or> hd cs = CHR ''/'' \<or> last cs = CHR ''/'' \<or> js_includes cs ''//''"
        using less.IH [of cs] s by simp
      with False tail vs show ?thesis using s by (cases cs) auto
    qed
  qed
qed

section \<open>The prefix\<close>

lemma set_strip_slashes: "set (strip_slashes s) \<subseteq> set s"
  unfolding strip_slashes_def by (metis (no_types, lifting) set_dropWhileD set_rev subsetI)

lemma strip_slashes_ends:
  assumes "strip_slashes s \<noteq> []"
  shows "hd (strip_slashes s) \<noteq> CHR ''/''" and "last (strip_slashes s) \<noteq> CHR ''/''"
proof -
  define u where "u = dropWhile is_slash s"
  have t: "strip_slashes s = rev (dropWhile is_slash (rev u))" by (simp add: strip_slashes_def u_def)
  with assms have ne: "dropWhile is_slash (rev u) \<noteq> []" by auto
  then have une: "u \<noteq> []" by auto
  show "last (strip_slashes s) \<noteq> CHR ''/''" using hd_dropWhile_not [OF ne] t ne by (simp add: last_rev)
  have "hd (strip_slashes s) = hd u" using t ne une last_dropWhile [OF ne] by (simp add: hd_rev last_rev)
  then show "hd (strip_slashes s) \<noteq> CHR ''/''"
    using hd_dropWhile_not [of is_slash s] une unfolding u_def by simp
qed

lemma strip_slashes_id:
  assumes "s \<noteq> []" and "hd s \<noteq> CHR ''/''" and "last s \<noteq> CHR ''/''"
  shows "strip_slashes s = s"
proof -
  have "dropWhile is_slash s = s" using assms by (cases s) auto
  moreover have "dropWhile is_slash (rev s) = rev s" using assms by (cases "rev s") (auto simp: last_rev [symmetric])
  ultimately show ?thesis by (simp add: strip_slashes_def)
qed

lemma segment_char_plain: "segment_char c \<Longrightarrow> \<not> js_space c \<and> c \<noteq> backslash \<and> c \<noteq> CHR ''/''"
  by (auto simp: segment_char_def js_simps backslash_def)

definition safe_prefix :: "string \<Rightarrow> bool" where
  "safe_prefix s \<longleftrightarrow> s \<noteq> [] \<and> hd s \<noteq> CHR ''/'' \<and> last s \<noteq> CHR ''/'' \<and> \<not> js_includes s ''..''
     \<and> \<not> js_includes s ''//'' \<and> list_all (\<lambda>c. segment_char c \<or> c = CHR ''/'') s"

lemma sanitize_safe:
  assumes "sanitize_backup_prefix p = Inr s"
  shows "safe_prefix s"
proof -
  have s: "s = strip_slashes (slashes (js_trim p))" "s \<noteq> []" and
    "\<not> js_includes s ''..''" "\<not> js_includes s ''//''" "list_all (\<lambda>c. segment_char c \<or> c = CHR ''/'') s"
    using assms unfolding sanitize_backup_prefix_def Let_def by (simp_all split: if_split_asm)
  moreover have "hd s \<noteq> CHR ''/''" "last s \<noteq> CHR ''/''"
    using strip_slashes_ends [of "slashes (js_trim p)"] s by simp_all
  ultimately show ?thesis unfolding safe_prefix_def by blast
qed

lemma sanitize_fixed:
  assumes "safe_prefix s"
  shows "sanitize_backup_prefix s = Inr s"
proof -
  have c: "\<forall>c \<in> set s. segment_char c \<or> c = CHR ''/''" using assms by (simp add: safe_prefix_def list_all_iff)
  have sp: "\<not> js_space (CHR ''/'')" "CHR ''/'' \<noteq> backslash" by (simp_all add: js_simps backslash_def)
  have p1: "\<not> js_space x \<and> x \<noteq> backslash" if "x \<in> set s" for x
  proof (cases "x = CHR ''/''")
    case True
    then show ?thesis using sp by simp
  next
    case False
    then show ?thesis using bspec [OF c that] segment_char_plain [of x] by simp
  qed
  then have plain: "\<forall>x \<in> set s. \<not> js_space x" "\<forall>x \<in> set s. x \<noteq> backslash" by simp_all
  have "js_trim s = s" by (rule js_trim_id) (rule plain(1))
  moreover have "slashes s = s" unfolding slashes_def by (rule map_idI) (simp add: plain(2))
  moreover have "strip_slashes s = s" using assms unfolding safe_prefix_def by (intro strip_slashes_id) blast+
  ultimately show ?thesis using assms by (simp add: sanitize_backup_prefix_def safe_prefix_def)
qed

lemma includes_dots_part: "js_includes s ''..'' \<longleftrightarrow> (\<exists>w \<in> set (path_parts s). js_includes w ''..'')"
proof
  assume "\<exists>w \<in> set (path_parts s). js_includes w ''..''"
  then obtain w where w: "w \<in> set (path_parts s)" "js_includes w ''..''" by blast
  from js_split_infix [OF w(1)] obtain a b where "s = a @ w @ b" by blast
  moreover from w(2) obtain c d where "w = c @ ''..'' @ d" unfolding js_includes_iff by blast
  ultimately have "s = (a @ c) @ ''..'' @ (d @ b)" by simp
  then show "js_includes s ''..''" unfolding js_includes_iff by blast
next
  show "js_includes s ''..'' \<Longrightarrow> \<exists>w \<in> set (path_parts s). js_includes w ''..''"
  proof (induction s)
    case Nil
    then show ?case by simp
  next
    case (Cons c cs)
    obtain v vs where vs: "path_parts cs = v # vs" by (cases "path_parts cs") auto
    show ?case
    proof (cases "js_includes cs ''..''")
      case True
      then show ?thesis using Cons.IH vs by auto
    next
      case False
      with Cons.prems have "js_starts (c # cs) ''..''" by simp
      then obtain ds where cs: "c = CHR ''.''" "cs = CHR ''.'' # ds" by (auto simp: js_starts_append)
      obtain u us where "path_parts ds = u # us" by (cases "path_parts ds") auto
      then have "path_parts (c # cs) = (''..'' @ u) # us" using cs by simp
      then show ?thesis by (simp del: js_includes.simps add: js_includes.simps(2) [of "CHR ''.''"])
    qed
  qed
qed

lemma split_no_empty_part:
  assumes "[] \<notin> set (path_parts s)"
  shows "s \<noteq> []" and "hd s \<noteq> CHR ''/''" and "last s \<noteq> CHR ''/''" and "\<not> js_includes s ''//''"
proof -
  show ne: "s \<noteq> []" using assms by auto
  show "hd s \<noteq> CHR ''/''"
  proof
    assume "hd s = CHR ''/''"
    with ne obtain t where "s = CHR ''/'' # t" by (cases s) auto
    with assms show False by simp
  qed
  show "last s \<noteq> CHR ''/''"
  proof
    assume "last s = CHR ''/''"
    with ne obtain t where "s = t @ [CHR ''/'']" by (metis append_butlast_last_id)
    with assms show False by (simp add: js_split_append_sep)
  qed
  show "\<not> js_includes s ''//''"
  proof
    assume "js_includes s ''//''"
    then obtain a b where "s = a @ CHR ''/'' # CHR ''/'' # b" unfolding js_includes_iff by auto
    with assms show False by (simp add: js_split_append_sep)
  qed
qed

lemma split_chars: "c \<in> set s \<Longrightarrow> \<not> p c \<Longrightarrow> \<exists>w \<in> set (js_split p s). c \<in> set w"
proof (induction s)
  case Nil
  then show ?case by simp
next
  case (Cons d ds)
  obtain v vs where "js_split p ds = v # vs" by (cases "js_split p ds") auto
  with Cons show ?case by auto
qed

lemma safe_prefix_parts:
  "safe_prefix s \<longleftrightarrow> list_all (\<lambda>w. w \<noteq> [] \<and> \<not> js_includes w ''..'' \<and> list_all segment_char w) (path_parts s)"
proof
  assume s: "safe_prefix s"
  then have "[] \<notin> set (path_parts s)" using js_split_empty_part unfolding safe_prefix_def by blast
  moreover have "\<And>w. w \<in> set (path_parts s) \<Longrightarrow> \<not> js_includes w ''..''"
    using s includes_dots_part unfolding safe_prefix_def by blast
  moreover have "\<And>w. w \<in> set (path_parts s) \<Longrightarrow> list_all segment_char w"
    using s js_split_parts unfolding safe_prefix_def list_all_iff by blast
  ultimately show "list_all (\<lambda>w. w \<noteq> [] \<and> \<not> js_includes w ''..'' \<and> list_all segment_char w) (path_parts s)"
    unfolding list_all_iff by blast
next
  assume r: "list_all (\<lambda>w. w \<noteq> [] \<and> \<not> js_includes w ''..'' \<and> list_all segment_char w) (path_parts s)"
  then have "[] \<notin> set (path_parts s)" unfolding list_all_iff by blast
  moreover have "\<not> js_includes s ''..''" using r includes_dots_part unfolding list_all_iff by blast
  moreover have "list_all (\<lambda>c. segment_char c \<or> c = CHR ''/'') s"
    using r split_chars [of _ s is_slash] unfolding list_all_iff by blast
  ultimately show "safe_prefix s" using split_no_empty_part unfolding safe_prefix_def by blast
qed

text \<open>The prefixes \<open>sanitizeBackupPrefix\<close> can return are exactly the relative paths whose
  segments are not empty, hold no \<open>..\<close> and only allowed characters; each is returned unchanged.\<close>

theorem sanitize_backup_prefix_image:
  "(\<exists>p. sanitize_backup_prefix p = Inr s) \<longleftrightarrow>
     list_all (\<lambda>w. w \<noteq> [] \<and> \<not> js_includes w ''..'' \<and> list_all segment_char w) (path_parts s)
     \<and> sanitize_backup_prefix s = Inr s"
  using sanitize_safe sanitize_fixed safe_prefix_parts by blast

section \<open>Object keys\<close>

lemma segment_default: "list_all segment_char default_file"
  by (simp add: default_file_def segment_char_def js_simps)

lemma sanitize_object_segment_safe:
  "list_all segment_char (sanitize_object_segment v)" "sanitize_object_segment v \<noteq> []"
  "sanitize_object_segment v \<noteq> ''.''" "sanitize_object_segment v \<noteq> ''..''"
proof -
  define seg where "seg = (let parts = List.filter (\<lambda>p. p \<noteq> []) (js_split (\<lambda>c. c = backslash \<or> c = CHR ''/'') v)
     in if parts = [] then default_file else last parts)"
  define safe where "safe = List.map (\<lambda>c. if segment_char c then c else CHR ''_'') seg"
  have eq: "sanitize_object_segment v = (if safe = [] \<or> safe = ''.'' \<or> safe = ''..'' then default_file else safe)"
    by (simp add: sanitize_object_segment_def safe_def seg_def Let_def)
  have "list_all segment_char safe"
    by (auto simp: safe_def list_all_iff) (simp add: segment_char_def)
  then show "list_all segment_char (sanitize_object_segment v)" using segment_default by (simp add: eq)
  show "sanitize_object_segment v \<noteq> []" "sanitize_object_segment v \<noteq> ''.''" "sanitize_object_segment v \<noteq> ''..''"
    by (auto simp: eq default_file_def)
qed

lemma segment_one_part: "list_all segment_char w \<Longrightarrow> path_parts w = [w]"
  by (rule js_split_none) (use segment_char_plain in \<open>auto simp: list_all_iff\<close>)

section \<open>Time stamps\<close>

lemma day_of_civil_bound:
  assumes "0 \<le> y" "y \<le> 9999" "1 \<le> m" "m \<le> 12" "1 \<le> d" "d \<le> 31"
  shows "\<bar>day_of_civil y m d\<bar> < 10000000"
proof -
  define y' where "y' = (if m \<le> 2 then y - 1 else y)"
  define mp where "mp = (if m > 2 then m - 3 else m + 9)"
  have y': "-1 \<le> y'" "y' \<le> 9999" using assms by (auto simp: y'_def)
  have mp: "0 \<le> mp" "mp \<le> 11" using assms by (auto simp: mp_def)
  have "400 * (y' div 400) \<le> y'" "y' < 400 * (y' div 400) + 400" by (rule div_bounds; simp)+
  then have era: "-1 \<le> y' div 400" "y' div 400 \<le> 24" using y' by linarith+
  have yoe: "0 \<le> y' mod 400" "y' mod 400 < 400" by simp_all
  have "4 * ((y' mod 400) div 4) \<le> y' mod 400" "y' mod 400 < 4 * ((y' mod 400) div 4) + 4"
    "100 * ((y' mod 400) div 100) \<le> y' mod 400" "y' mod 400 < 100 * ((y' mod 400) div 100) + 100"
    by (rule div_bounds; simp)+
  then have ys: "0 \<le> year_start (y' mod 400)" "year_start (y' mod 400) \<le> 146097"
    using yoe unfolding year_start_def by linarith+
  have "5 * ((153 * mp + 2) div 5) \<le> 153 * mp + 2" "153 * mp + 2 < 5 * ((153 * mp + 2) div 5) + 5"
    by (rule div_bounds; simp)+
  then have dd: "0 \<le> (153 * mp + 2) div 5" "(153 * mp + 2) div 5 \<le> 400" using mp by linarith+
  have "day_of_civil y m d = y' div 400 * 146097 + (year_start (y' mod 400) + ((153 * mp + 2) div 5 + d - 1)) - 719468"
    by (simp add: day_of_civil_def y'_def mp_def Let_def)
  then show ?thesis using era ys dd assms(5,6) by linarith
qed

lemma iso_year_in_range:
  assumes "0 \<le> iso_year ms" and "iso_year ms \<le> 9999"
  shows "\<bar>ms\<bar> \<le> max_time"
proof -
  obtain y m d where c: "civil_of_day (ms div ms_per_day) = (y, m, d)"
    by (cases "civil_of_day (ms div ms_per_day)")
  note inv = day_of_civil_inverse [OF c]
  have "\<bar>day_of_civil y m d\<bar> < 10000000"
    using assms inv(2,3) by (intro day_of_civil_bound) (simp_all add: iso_year_def c)
  then have "\<bar>ms div ms_per_day\<bar> < 10000000" by (simp add: inv(1))
  moreover have "ms_per_day * (ms div ms_per_day) \<le> ms" "ms < ms_per_day * (ms div ms_per_day) + ms_per_day"
    by (rule div_bounds; simp add: ms_per_day_def)+
  ultimately show ?thesis by (simp add: ms_per_day_def max_time_def abs_le_iff abs_less_iff)
qed

lemma iso_shape_length: "iso_shape s \<Longrightarrow> length s = 24"
  unfolding iso_shape_def by (drule list_all2_lengthD) simp

lemma length_year_digits: "length (year_digits y) = (if 0 \<le> y \<and> y \<le> 9999 then 4 else 7)"
  by (simp add: year_digits_def)

lemma length_iso_string: "length (iso_string ms) = length (year_digits (iso_year ms)) + 20"
  by (simp add: iso_string_def iso_year_def Let_def split: prod.splits)

lemma iso_shape_year: "iso_shape (iso_string ms) \<longleftrightarrow> 0 \<le> iso_year ms \<and> iso_year ms \<le> 9999"
proof
  assume "iso_shape (iso_string ms)"
  then have "length (iso_string ms) = 24" by (rule iso_shape_length)
  then show "0 \<le> iso_year ms \<and> iso_year ms \<le> 9999"
    by (simp add: length_iso_string length_year_digits split: if_splits)
qed (simp add: parse_iso_string)

lemma canonical_of_time:
  assumes "0 \<le> iso_year ms" and "iso_year ms \<le> 9999"
  shows "canonical_snapshot_requested_at (iso_string ms) = Inr (iso_string ms)"
  using parse_iso_string [OF assms] iso_year_in_range [OF assms]
  by (simp add: canonical_snapshot_requested_at_def to_iso_string_def)

lemma canonical_time:
  assumes "canonical_snapshot_requested_at v = Inr w"
  obtains ms where "w = v" and "v = iso_string ms" and "0 \<le> iso_year ms" and "iso_year ms \<le> 9999"
    and "parse_iso v = Some ms"
proof -
  from assms obtain ms where "iso_shape v" "parse_iso v = Some ms" "v = iso_string ms" "w = v"
    by (auto simp: canonical_snapshot_requested_at_def to_iso_string_def split: if_splits option.splits)
  then show thesis using that iso_shape_year by metis
qed

text \<open>\<open>canonicalSnapshotRequestedAt\<close> accepts exactly the strings that \<open>toISOString\<close>
  gives for the times of the years 0 to 9999, and returns them unchanged.\<close>

theorem canonical_snapshot_requested_at_iff:
  "canonical_snapshot_requested_at v = Inr w \<longleftrightarrow>
     w = v \<and> (\<exists>ms. v = iso_string ms \<and> 0 \<le> iso_year ms \<and> iso_year ms \<le> 9999)"
  using canonical_time canonical_of_time by metis

definition stamp_char :: "char \<Rightarrow> char" where
  "stamp_char c = (if c = CHR '':'' \<or> c = CHR ''.'' then CHR ''-'' else c)"

lemma backup_timestamp_eq: "backup_timestamp ms = rbind (to_iso_string ms) (\<lambda>s. Inr (List.map stamp_char s))"
  by (simp add: backup_timestamp_def stamp_char_def [abs_def])

lemma stamp_char_digit: "js_digit c \<Longrightarrow> stamp_char c = c"
  by (auto simp: stamp_char_def js_digit_def code_unit_def)

definition iso_template :: string where
  "iso_template = ''dddd-dd-ddTdd:dd:dd.dddZ''"

definition fits :: "char \<Rightarrow> char \<Rightarrow> bool" where
  "fits p c \<longleftrightarrow> (if p = CHR ''d'' then js_digit c else c = p)"

lemma iso_shape_fits: "iso_shape s \<longleftrightarrow> list_all2 fits iso_template s"
  by (simp add: iso_shape_def fits_def [abs_def] iso_template_def)

lemma template_stamped: "list_all (\<lambda>p. p = CHR ''d'' \<or> segment_char (stamp_char p)) iso_template"
  by code_simp

lemma fits_stamp: "fits p c \<Longrightarrow> p = CHR ''d'' \<or> segment_char (stamp_char p) \<Longrightarrow> segment_char (stamp_char c)"
  by (cases "p = CHR ''d''") (simp_all add: fits_def stamp_char_digit segment_char_def js_alnum_def)

lemma fits_inj: "fits p c \<Longrightarrow> fits p d \<Longrightarrow> stamp_char c = stamp_char d \<Longrightarrow> c = d"
  by (cases "p = CHR ''d''") (simp_all add: fits_def stamp_char_digit)

lemma iso_shape_stamp:
  assumes "iso_shape s"
  shows "list_all segment_char (List.map stamp_char s)"
proof -
  have "segment_char (stamp_char (s ! i))" if "i < length s" for i
  proof -
    have l: "i < length iso_template" using assms that list_all2_lengthD unfolding iso_shape_fits by metis
    have "fits (iso_template ! i) (s ! i)" using assms l unfolding iso_shape_fits by (rule list_all2_nthD)
    then show ?thesis using template_stamped l unfolding list_all_length by (blast intro: fits_stamp)
  qed
  then show ?thesis by (simp add: list_all_length)
qed

lemma stamp_inj:
  assumes "iso_shape s" and "iso_shape t" and "List.map stamp_char s = List.map stamp_char t"
  shows "s = t"
proof (rule nth_equalityI)
  show len: "length s = length t" using assms(3) by (metis length_map)
  fix i
  assume i: "i < length s"
  have st: "stamp_char (s ! i) = stamp_char (t ! i)"
    using i len assms(3) by (metis nth_map)
  have l: "i < length iso_template" using assms(1) i list_all2_lengthD unfolding iso_shape_fits by metis
  have "fits (iso_template ! i) (s ! i)" "fits (iso_template ! i) (t ! i)"
    using assms(1,2) l unfolding iso_shape_fits by (blast intro: list_all2_nthD)+
  then show "s ! i = t ! i" using st by (rule fits_inj)
qed

lemma path_parts_join:
  "list_all segment_char a \<Longrightarrow> list_all segment_char b \<Longrightarrow> list_all segment_char c \<Longrightarrow>
     path_parts (p @ ''/'' @ a @ ''/'' @ b @ ''/'' @ c) = path_parts p @ [a, b, c]"
  using js_split_append_sep [of is_slash "CHR ''/''" p "a @ ''/'' @ b @ ''/'' @ c"]
    js_split_append_sep [of is_slash "CHR ''/''" a "b @ ''/'' @ c"]
    js_split_append_sep [of is_slash "CHR ''/''" b c]
  by (simp add: segment_one_part)

lemma backup_object_key_parts:
  assumes "backup_object_key cfg ready started = Inr key"
  obtains ms where "snapshot_requested_at started = iso_string ms" and "iso_shape (iso_string ms)"
    and "js_starts key (bk_prefix cfg @ ''/'')"
    and "path_parts key = path_parts (bk_prefix cfg) @ [List.map stamp_char (iso_string ms),
           sanitize_object_segment (bookmark started), sanitize_object_segment (filename ready)]"
proof -
  obtain at where at: "canonical_snapshot_requested_at (snapshot_requested_at started) = Inr at"
    using assms by (auto simp: backup_object_key_def rbind_Inr_iff)
  from canonical_time [OF at] obtain ms where ms: "at = snapshot_requested_at started"
    "snapshot_requested_at started = iso_string ms" "0 \<le> iso_year ms" "iso_year ms \<le> 9999"
    "parse_iso (snapshot_requested_at started) = Some ms" by metis
  have shape: "iso_shape (iso_string ms)" using ms by (simp add: iso_shape_year)
  have key: "key = bk_prefix cfg @ ''/'' @ List.map stamp_char (iso_string ms) @ ''/''
      @ sanitize_object_segment (bookmark started) @ ''/'' @ sanitize_object_segment (filename ready)"
    using assms at ms iso_year_in_range [OF ms(3,4)]
    by (simp add: backup_object_key_def backup_timestamp_eq to_iso_string_def)
  then have "path_parts key = path_parts (bk_prefix cfg) @ [List.map stamp_char (iso_string ms),
           sanitize_object_segment (bookmark started), sanitize_object_segment (filename ready)]"
    using path_parts_join [OF iso_shape_stamp [OF shape] sanitize_object_segment_safe(1) sanitize_object_segment_safe(1)]
    by simp
  moreover have "js_starts key (bk_prefix cfg @ ''/'')" unfolding js_starts_append key by simp
  ultimately show thesis using ms shape that by blast
qed

lemma js_includes_dots: "js_includes ''..'' ''..''"
  by simp

text \<open>Under a configuration read from the environment, every object key lies below the
  configured prefix, three segments deep, and no segment of it is empty or \<open>..\<close> or has a
  character outside letters, digits, dot, underscore and hyphen, whatever bookmark and file
  name the provider sends.\<close>

theorem backup_object_key_confined:
  assumes "backup_config_from_env env = Inr cfg" and "backup_object_key cfg ready started = Inr key"
  shows "js_starts key (bk_prefix cfg @ ''/'')
    \<and> length (path_parts key) = length (path_parts (bk_prefix cfg)) + 3
    \<and> list_all (\<lambda>w. w \<noteq> [] \<and> w \<noteq> ''..'' \<and> list_all segment_char w) (path_parts key)"
proof -
  obtain ms where ms: "iso_shape (iso_string ms)" "js_starts key (bk_prefix cfg @ ''/'')" and
    key: "path_parts key = path_parts (bk_prefix cfg) @ [List.map stamp_char (iso_string ms),
           sanitize_object_segment (bookmark started), sanitize_object_segment (filename ready)]"
    using backup_object_key_parts [OF assms(2)] by metis
  have "safe_prefix (bk_prefix cfg)"
    using assms(1) sanitize_safe by (auto simp: backup_config_from_env_def rbind_Inr_iff Let_def)
  then have "list_all (\<lambda>w. w \<noteq> [] \<and> \<not> js_includes w ''..'' \<and> list_all segment_char w) (path_parts (bk_prefix cfg))"
    by (simp add: safe_prefix_parts)
  then have "list_all (\<lambda>w. w \<noteq> [] \<and> w \<noteq> ''..'' \<and> list_all segment_char w) (path_parts (bk_prefix cfg))"
    unfolding list_all_iff by (auto simp del: js_includes.simps simp: js_includes_dots)
  moreover have "length (List.map stamp_char (iso_string ms)) = 24" using ms(1) by (simp add: iso_shape_length)
  then have "List.map stamp_char (iso_string ms) \<noteq> []" "List.map stamp_char (iso_string ms) \<noteq> ''..''" by auto
  ultimately show ?thesis using ms key iso_shape_stamp [OF ms(1)] sanitize_object_segment_safe by simp
qed

text \<open>Two exports stored under one key have the same snapshot time and the same sanitized
  bookmark and file name: a later snapshot never overwrites an earlier one.\<close>

theorem backup_object_key_inj:
  assumes "backup_object_key cfg ready1 started1 = Inr key" and "backup_object_key cfg ready2 started2 = Inr key"
  shows "snapshot_requested_at started1 = snapshot_requested_at started2
    \<and> sanitize_object_segment (bookmark started1) = sanitize_object_segment (bookmark started2)
    \<and> sanitize_object_segment (filename ready1) = sanitize_object_segment (filename ready2)"
proof -
  obtain m1 m2 where "snapshot_requested_at started1 = iso_string m1" "iso_shape (iso_string m1)"
    "snapshot_requested_at started2 = iso_string m2" "iso_shape (iso_string m2)"
    "path_parts key = path_parts (bk_prefix cfg) @ [List.map stamp_char (iso_string m1),
       sanitize_object_segment (bookmark started1), sanitize_object_segment (filename ready1)]"
    "path_parts key = path_parts (bk_prefix cfg) @ [List.map stamp_char (iso_string m2),
       sanitize_object_segment (bookmark started2), sanitize_object_segment (filename ready2)]"
    using backup_object_key_parts [OF assms(1)] backup_object_key_parts [OF assms(2)] by metis
  then show ?thesis using stamp_inj by simp
qed

abbreviation example_config :: backup_config where
  "example_config \<equiv> \<lparr>account_id = ''acct'', database_id = ''db'', database_name = ''lic'', bk_prefix = ''d1/lic'',
     retention_days = 30\<rparr>"

abbreviation example_key :: string where
  "example_key \<equiv> ''d1/lic/2026-01-02T03-04-05-678Z/00-01/dump__.sql''"

theorem backup_object_key_confined_witness:
  "js_starts example_key (bk_prefix example_config @ ''/'')
    \<and> length (path_parts example_key) = length (path_parts (bk_prefix example_config)) + 3
    \<and> list_all (\<lambda>w. w \<noteq> [] \<and> w \<noteq> ''..'' \<and> list_all segment_char w) (path_parts example_key)"
proof (rule backup_object_key_confined)
  show "backup_config_from_env \<lparr>env_account_id = Some ''acct'', env_database_id = Some ''db'',
      env_database_name = Some ''lic'', env_backup_prefix = None, env_retention_days = Some '' 30''\<rparr> = Inr example_config"
    by code_simp
  show "backup_object_key example_config \<lparr>filename = ''x/../dump %.sql'', signed_url = ''u''\<rparr>
      \<lparr>bookmark = ''00-01'', snapshot_requested_at = ''2026-01-02T03:04:05.678Z''\<rparr> = Inr example_key"
    by code_simp
qed

theorem backup_object_key_inj_witness:
  "''2026-01-02T03:04:05.678Z'' = ''2026-01-02T03:04:05.678Z''
    \<and> sanitize_object_segment ''00-01'' = sanitize_object_segment ''a/00-01''
    \<and> sanitize_object_segment ''dump %.sql'' = sanitize_object_segment ''dump &.sql''"
proof -
  have a: "backup_object_key example_config \<lparr>filename = ''dump %.sql'', signed_url = ''u''\<rparr>
      \<lparr>bookmark = ''00-01'', snapshot_requested_at = ''2026-01-02T03:04:05.678Z''\<rparr> = Inr example_key"
    by code_simp
  have b: "backup_object_key example_config \<lparr>filename = ''dump &.sql'', signed_url = ''u''\<rparr>
      \<lparr>bookmark = ''a/00-01'', snapshot_requested_at = ''2026-01-02T03:04:05.678Z''\<rparr> = Inr example_key"
    by code_simp
  from backup_object_key_inj [OF a b] show ?thesis
    unfolding export_started.select_convs export_ready.select_convs .
qed

end
