(* ===== verification/Backup_Answers.thy ===== *)
theory Backup_Answers
  imports Backup_Core
begin

text \<open>
  What an accepted put result, an accepted answer of the provider, an accepted token and an
  accepted configuration stand for.
\<close>

section \<open>Accepted answers\<close>

lemma r2_metadata_string_Inr:
  "r2_metadata_string v f = Inr s \<longleftrightarrow>
     v = String s \<and> 1 \<le> length s \<and> length s \<le> 2048 \<and> list_all (\<lambda>c. \<not> control_char c) s"
  by (cases s) (auto simp: r2_metadata_string_def list_all_iff list_ex_iff not_less split: jsval.splits if_splits)

text \<open>The integrity record is made exactly when R2 reports the key and the size that were
  streamed, at least one byte, printable version metadata, and, where it reports a SHA-256, the
  32 bytes whose digest was computed on the way; the record then repeats these values.\<close>

theorem content_integrity_from_put_iff:
  fixes digest :: "byte list"
  assumes "digest_hex st = hex digest" and "length digest = 32"
  shows "content_integrity_from_put v key st = Inr ci \<longleftrightarrow>
    (\<exists>r etag version. v = Some r \<and> put_key r = key \<and> put_size r = Whole (int (size_bytes st))
      \<and> 1 \<le> size_bytes st \<and> size_bytes st \<le> max_safe_integer
      \<and> (put_sha256 r = None \<or> put_sha256 r = Some (Buffer digest))
      \<and> r2_metadata_string (put_etag r) ''etag'' = Inr etag
      \<and> r2_metadata_string (put_version r) ''version'' = Inr version
      \<and> ci = \<lparr>ci_digest_hex = hex digest, ci_size_bytes = size_bytes st, ci_r2_etag = etag,
                ci_r2_version = version, ci_r2_size_bytes = int (size_bytes st),
                ci_r2_sha256_hex = (if put_sha256 r = None then None else Some (hex digest))\<rparr>)"
proof (cases v)
  case None
  then show ?thesis by (simp add: content_integrity_from_put_def)
next
  case (Some r)
  define sha where "sha = put_sha256 r"
  have sha: "rbind (checksum_hex sha) (\<lambda>h. if h \<noteq> None \<and> h \<noteq> Some (hex digest) then Inl e else f h) = Inr c \<longleftrightarrow>
      (sha = None \<or> sha = Some (Buffer digest)) \<and> f (if sha = None then None else Some (hex digest)) = Inr c"
    for e and c :: content_integrity and f
  proof (cases sha)
    case None
    then show ?thesis by (simp add: checksum_hex_def)
  next
    case (Some x)
    then show ?thesis using assms(2) by (cases x) (auto simp: checksum_hex_def hex_inj)
  qed
  have guards: "(if a then Inl e1 else if b then Inl e2 else if d then Inl e3 else if g then Inl e4 else x) = Inr c
      \<longleftrightarrow> \<not> a \<and> \<not> b \<and> \<not> d \<and> \<not> g \<and> x = Inr c" for a b d g e1 e2 e3 e4 and c :: content_integrity and x
    by simp
  have size: "\<not> (\<not> is_safe_integer z \<or> num_less z 0) \<and> \<not> size_bytes st < 1 \<and> \<not> z \<noteq> Whole (int (size_bytes st)) \<longleftrightarrow>
      z = Whole (int (size_bytes st)) \<and> 1 \<le> size_bytes st \<and> size_bytes st \<le> max_safe_integer" for z
    by auto
  show ?thesis
    unfolding content_integrity_from_put_def Some option.case guards assms(1) sha [unfolded sha_def]
    unfolding rbind_Inr_iff sum.inject option.inject
    using size [of "put_size r"] by blast
qed

abbreviation example_streamed :: streamed where
  "example_streamed \<equiv> \<lparr>digest_hex = hex (replicate 32 (1 :: byte)), size_bytes = 5,
     stream_inventory = \<lparr>table_counts = []\<rparr>\<rparr>"

abbreviation example_put :: r2_put_result where
  "example_put \<equiv> \<lparr>put_key = ''k'', put_version = String ''v1'', put_size = Whole 5, put_etag = String ''e1'',
     put_uploaded = DateObject (Some 0), put_sha256 = Some (Buffer (replicate 32 (1 :: byte)))\<rparr>"

theorem content_integrity_from_put_iff_witness:
  "content_integrity_from_put (Some example_put) ''k'' example_streamed = Inr
     \<lparr>ci_digest_hex = hex (replicate 32 (1 :: byte)), ci_size_bytes = 5, ci_r2_etag = ''e1'', ci_r2_version = ''v1'',
       ci_r2_size_bytes = 5, ci_r2_sha256_hex = Some (hex (replicate 32 (1 :: byte)))\<rparr>"
  by (subst content_integrity_from_put_iff [where digest = "replicate 32 (1 :: byte)"])
    (simp_all add: max_safe_integer_def r2_metadata_string_def control_char_def code_unit_def)

text \<open>\<open>parseReadyExportResponse\<close> yields a download exactly for an envelope that is not
  marked failed and whose result is marked complete and carries a signed URL; the file name
  falls back to \<open>database.sql\<close>.\<close>

theorem parse_ready_export_response_iff:
  "parse_ready_export_response v = Inr ready \<longleftrightarrow>
     is_object v \<and> field ''success'' v \<noteq> Boolean False
     \<and> is_object (field ''result'' v) \<and> field ''success'' (field ''result'' v) \<noteq> Boolean False
     \<and> field ''status'' (field ''result'' v) = String ''complete''
     \<and> is_object (field ''result'' (field ''result'' v))
     \<and> signed_url ready \<noteq> []
     \<and> field ''signed_url'' (field ''result'' (field ''result'' v)) = String (signed_url ready)
     \<and> filename ready = (case field ''filename'' (field ''result'' (field ''result'' v)) of
          String f \<Rightarrow> if f = [] then ''database.sql'' else f | _ \<Rightarrow> ''database.sql'')"
proof -
  define r where "r = field ''result'' v"
  define d where "d = field ''result'' r"
  have name: "(case nonempty_string x of Some f \<Rightarrow> f | None \<Rightarrow> ''database.sql'') =
      (case x of String f \<Rightarrow> if f = [] then ''database.sql'' else f | _ \<Rightarrow> ''database.sql'')" for x
    by (simp add: nonempty_string_def split: jsval.split)
  have url: "nonempty_string x = Some u \<longleftrightarrow> x = String u \<and> u \<noteq> []" for x u
    by (auto simp: nonempty_string_def split: jsval.splits)
  have env: "envelope_result v l = Inr x \<longleftrightarrow>
      is_object v \<and> field ''success'' v \<noteq> Boolean False \<and> is_object r \<and> x = r" for l x
    by (auto simp: envelope_result_def as_record_def r_def)
  have ready: "(case nonempty_string (optional_field ''signed_url'' (as_record d)) of None \<Rightarrow> Inl e
        | Some url \<Rightarrow> Inr \<lparr>filename = (case nonempty_string (optional_field ''filename'' (as_record d)) of
              Some f \<Rightarrow> f | None \<Rightarrow> ''database.sql''), signed_url = url\<rparr>) = Inr ready
      \<longleftrightarrow> is_object d \<and> signed_url ready \<noteq> [] \<and> field ''signed_url'' d = String (signed_url ready)
        \<and> filename ready = (case field ''filename'' d of
          String f \<Rightarrow> if f = [] then ''database.sql'' else f | _ \<Rightarrow> ''database.sql'')" for e
  proof (cases "is_object d")
    case True
    show ?thesis
    proof (cases "nonempty_string (field ''signed_url'' d)")
      case None
      then have "field ''signed_url'' d \<noteq> String (signed_url ready) \<or> signed_url ready = []" 
        using url [of "field ''signed_url'' d" "signed_url ready"] None by simp
      then show ?thesis using True None by (auto simp: optional_field_def as_record_def)
    next
      case (Some u)
      then have "field ''signed_url'' d = String u" "u \<noteq> []" using url by auto
      then show ?thesis using True Some
        by (cases ready) (auto simp: optional_field_def as_record_def name)
    qed
  next
    case False
    then show ?thesis by (simp add: optional_field_def as_record_def nonempty_string_def)
  qed
  have guards: "(if field ''status'' x = String ''error'' \<or> b then Inl e1 else if field ''status'' x \<noteq> String ''complete'' then Inl e2 else y) = Inr c
      \<longleftrightarrow> \<not> b \<and> field ''status'' x = String ''complete'' \<and> y = Inr c" for x b e1 e2 y and c :: export_ready
    by simp
  show ?thesis
    unfolding parse_ready_export_response_def rbind_Inr_iff env Let_def
      r_def [symmetric] guards
    using ready [of "''d1_export_not_ready''"] unfolding d_def by blast
qed

section \<open>Tokens and configuration\<close>

lemma utf8_char_cases:
  "code_unit c < 128 \<Longrightarrow> utf8_char c = [of_nat (code_unit c)]"
  "\<not> code_unit c < 128 \<Longrightarrow> utf8_char c = [of_nat (192 + code_unit c div 64), of_nat (128 + code_unit c mod 64)]"
  by (simp_all add: utf8_char_def Let_def)

lemma of_nat_byte_eq: "m < 256 \<Longrightarrow> n < 256 \<Longrightarrow> (of_nat m :: byte) = of_nat n \<longleftrightarrow> m = n"
  by (simp add: of_nat_eq_iff take_bit_nat_eq_self_iff unsigned_of_nat word_unat_eq_iff take_bit_nat_eq_self)

lemma utf8_prefix_free:
  assumes "utf8_char c @ xs = utf8_char d @ ys"
  shows "c = d \<and> xs = ys"
proof -
  have c: "code_unit c < 256" "code_unit d < 256" by simp_all
  have b: "code_unit c div 64 < 4" "code_unit d div 64 < 4" using c by (simp_all only: div_less_iff_less_mult)
  show ?thesis
  proof (cases "code_unit c < 128"; cases "code_unit d < 128")
    assume "code_unit c < 128" "code_unit d < 128"
    with assms show ?thesis by (simp add: utf8_char_cases of_nat_byte_eq code_unit_eq_iff)
  next
    assume "code_unit c < 128" "\<not> code_unit d < 128"
    then have "(of_nat (code_unit c) :: byte) = of_nat (192 + code_unit d div 64)" using assms
      by (simp only: utf8_char_cases append.simps list.inject simp_thms not_False_eq_True)
    then have "code_unit c = 192 + code_unit d div 64" 
      by (subst (asm) of_nat_byte_eq) (use b c in simp_all)
    with \<open>code_unit c < 128\<close> show ?thesis by simp
  next
    assume "\<not> code_unit c < 128" "code_unit d < 128"
    then have "(of_nat (192 + code_unit c div 64) :: byte) = of_nat (code_unit d)" using assms
      by (simp only: utf8_char_cases append.simps list.inject simp_thms not_False_eq_True)
    then have "192 + code_unit c div 64 = code_unit d" 
      by (subst (asm) of_nat_byte_eq) (use b c in simp_all)
    with \<open>code_unit d < 128\<close> show ?thesis by simp
  next
    assume n: "\<not> code_unit c < 128" "\<not> code_unit d < 128"
    then have "(of_nat (192 + code_unit c div 64) :: byte) = of_nat (192 + code_unit d div 64)"
      "(of_nat (128 + code_unit c mod 64) :: byte) = of_nat (128 + code_unit d mod 64)" and xy: "xs = ys"
      using assms by (simp_all only: utf8_char_cases append.simps list.inject simp_thms not_False_eq_True)
    then have "192 + code_unit c div 64 = 192 + code_unit d div 64" "128 + code_unit c mod 64 = 128 + code_unit d mod 64"

      by - (subst (asm) of_nat_byte_eq, use b in simp_all)+
    then have "code_unit c = code_unit d" by (metis add_left_cancel div_mult_mod_eq)
    with xy show ?thesis by (simp add: code_unit_eq_iff)
  qed
qed

lemma utf8_inj: "utf8 s = utf8 t \<longleftrightarrow> s = t"
proof
  show "utf8 s = utf8 t \<Longrightarrow> s = t"
  proof (induction s arbitrary: t)
    case Nil
    then show ?case by (cases t) (auto simp: utf8_def utf8_char_def Let_def split: if_splits)
  next
    case (Cons c cs)
    then obtain d ds where t: "t = d # ds" by (cases t) (auto simp: utf8_def utf8_char_def Let_def split: if_splits)
    have "utf8_char c @ utf8 cs = utf8_char d @ utf8 ds" using Cons.prems t by (simp add: utf8_def)
    then have "c = d" "utf8 cs = utf8 ds" using utf8_prefix_free by blast+
    with Cons.IH t show ?case by simp
  qed
qed simp

lemma fold_or_zero:
  "foldl (\<lambda>d i. Bit_Operations.or d (f i)) (a :: byte) is = 0 \<longleftrightarrow> a = 0 \<and> (\<forall>i \<in> set is. f i = 0)"
proof (induction "is" arbitrary: a)
  case Nil
  then show ?case by simp
next
  case (Cons i "is")
  have "Bit_Operations.or a (f i) = 0 \<longleftrightarrow> a = 0 \<and> f i = 0" by (rule or_eq_0_iff)
  with Cons show ?case by auto
qed

lemma xor_zero_iff: "Bit_Operations.xor (a :: byte) b = 0 \<longleftrightarrow> a = b"
proof
  assume "Bit_Operations.xor a b = 0"
  then have "Bit_Operations.xor (Bit_Operations.xor a b) b = b" by simp
  then show "a = b" by (simp add: xor.assoc)
qed simp

text \<open>The comparison that never leaves its loop early is equality of the tokens, when the
  digest has one length and does not collide on the two of them.\<close>

theorem timing_safe_token_equal_iff:
  assumes "length (sha256 (utf8 left)) = length (sha256 (utf8 right))"
    and "sha256 (utf8 left) = sha256 (utf8 right) \<Longrightarrow> utf8 left = utf8 right"
  shows "timing_safe_token_equal sha256 left right \<longleftrightarrow> left = right"
proof -
  define l r where "l = sha256 (utf8 left)" and "r = sha256 (utf8 right)"
  have len: "length l = length r" using assms(1) by (simp add: l_def r_def)
  have "timing_safe_token_equal sha256 left right \<longleftrightarrow>
      length left = length right \<and> (\<forall>i < length l. xor_at l r i = 0)"
    by (auto simp: timing_safe_token_equal_def fold_or_zero l_def [symmetric] r_def [symmetric])
  also have "(\<forall>i < length l. xor_at l r i = 0) \<longleftrightarrow> l = r"
    using len by (auto simp: xor_at_def xor_zero_iff list_eq_iff_nth_eq)
  also have "l = r \<longleftrightarrow> left = right"
    using assms(2) utf8_inj by (auto simp: l_def r_def)
  finally show ?thesis by auto
qed

theorem timing_safe_token_equal_iff_witness:
  "timing_safe_token_equal (\<lambda>bs. take 32 (bs @ replicate 32 0)) ''abc'' ''abd'' \<longleftrightarrow> ''abc'' = ''abd''"
  by (rule timing_safe_token_equal_iff) (simp_all add: utf8_def utf8_char_def code_unit_def numeral_eq_Suc)

text \<open>A configuration that is read at all has trimmed identifiers that are not empty and a
  retention between 1 and 3650 days; a whole number of days in that range is read as written.\<close>

theorem backup_config_from_env_ranges:
  "(\<forall>cfg. backup_config_from_env env = Inr cfg \<longrightarrow>
      account_id cfg \<noteq> [] \<and> js_trim (account_id cfg) = account_id cfg
      \<and> database_id cfg \<noteq> [] \<and> js_trim (database_id cfg) = database_id cfg
      \<and> 1 \<le> retention_days cfg \<and> retention_days cfg \<le> 3650)
   \<and> (\<forall>n \<in> {1..3650}. parse_retention_days (Some (dec n)) = Inr (int n))"
proof -
  have req: "required_string v k = Inr s \<Longrightarrow> s \<noteq> [] \<and> js_trim s = s" for v k s
    by (auto simp: required_string_def split: option.splits if_splits)
  have ret: "parse_retention_days v = Inr n \<Longrightarrow> 1 \<le> n \<and> n \<le> 3650" for v n
    by (auto simp: parse_retention_days_def default_retention_days_def max_retention_days_def
        split: option.splits if_splits jsnum.splits)
  have 1: "account_id cfg \<noteq> [] \<and> js_trim (account_id cfg) = account_id cfg
      \<and> database_id cfg \<noteq> [] \<and> js_trim (database_id cfg) = database_id cfg
      \<and> 1 \<le> retention_days cfg \<and> retention_days cfg \<le> 3650"
    if "backup_config_from_env env = Inr cfg" for cfg
    using that req ret unfolding backup_config_from_env_def Let_def rbind_Inr_iff by fastforce
  have 2: "parse_retention_days (Some (dec n)) = Inr (int n)" if "n \<in> {1..3650}" for n
    using that digits_no_space [of "dec n"]
    by (simp add: parse_retention_days_def js_number_dec max_safe_integer_def max_retention_days_def)
  show ?thesis using 1 2 by blast
qed

theorem backup_config_from_env_ranges_witness:
  "1 \<le> retention_days \<lparr>account_id = ''a'', database_id = ''d'', database_name = ''n'', bk_prefix = ''d1/n'', retention_days = 7\<rparr>
   \<and> parse_retention_days (Some (dec 3650)) = Inr 3650"
proof -
  have "backup_config_from_env \<lparr>env_account_id = Some '' a '', env_database_id = Some ''d'', env_database_name = Some ''n'',
      env_backup_prefix = None, env_retention_days = Some ''7''\<rparr>
    = Inr \<lparr>account_id = ''a'', database_id = ''d'', database_name = ''n'', bk_prefix = ''d1/n'', retention_days = 7\<rparr>"
    by code_simp
  moreover have "(3650::nat) \<in> {1..3650}" by simp
  ultimately show ?thesis using backup_config_from_env_ranges by (metis of_nat_numeral)
qed

end
