(* ===== verification/Backup_Store.thy ===== *)
theory Backup_Store
  imports Backup_Core
begin

text \<open>
  The part of \<open>core.ts\<close> and \<open>export-upload.ts\<close> that talks to the provider and to R2. The
  services are arguments: each is an operation on a world \<open>'w\<close> that the code cannot look into.
  An operation returns or throws, and changes the world either way.
\<close>

section \<open>The services\<close>

datatype request = StartExport string string | PollExport string string string | Download string

record object_manifest =
  om_database_id :: string
  om_database_name :: string
  om_source :: string
  om_bookmark :: string
  om_export_filename :: string
  om_object_key :: string
  om_snapshot_requested_at :: string
  om_created_at :: string
  om_content_integrity :: content_integrity
  om_snapshot_inventory :: snapshot_inventory

text \<open>
  A put's body: a stream, which delivers its bytes or breaks with an error, or the JSON text of
  a manifest. The options are the content type and the custom metadata.
\<close>

datatype r2_body = StreamBody "byte list outcome" | JsonBody object_manifest

record r2_put_options =
  content_type :: string
  custom_metadata :: "(string \<times> string) list"

record r2_object =
  ob_key :: string
  ob_uploaded :: date_value

record r2_page =
  pg_objects :: "r2_object list"
  pg_truncated :: bool
  pg_cursor :: "string option"

record ('w, 'd) services =
  sv_fetch :: "request \<Rightarrow> ('w, byte list response) io"
  sv_cancel :: "byte list response \<Rightarrow> ('w, unit) io"
  sv_put :: "string \<Rightarrow> r2_body \<Rightarrow> r2_put_options \<Rightarrow> ('w, r2_put_result option) io"
  sv_list :: "string \<Rightarrow> string option \<Rightarrow> nat \<Rightarrow> ('w, r2_page) io"
  sv_delete :: "string list \<Rightarrow> ('w, unit) io"
  sv_runtime :: "'d runtime"
  sv_date_parse :: "string \<Rightarrow> int option"
  sv_fixed_length_error :: string
  sv_first_error :: "string \<Rightarrow> string \<Rightarrow> string"

section \<open>Starting and polling an export\<close>

text \<open>\<open>new Date(n)\<close>: whole milliseconds, cut towards zero; \<open>None\<close> is an invalid date.\<close>

definition date_of :: "jsnum \<Rightarrow> int option" where
  "date_of n = (case n of
     Whole i \<Rightarrow> if \<bar>i\<bar> \<le> max_time then Some i else None
   | Dyadic m k \<Rightarrow>
       let i = (if m < 0 then - ((- m) div 2 ^ k) else m div 2 ^ k) in
       if \<bar>m\<bar> \<le> max_time * 2 ^ k then Some i else None
   | _ \<Rightarrow> None)"

definition start_d1_export ::
  "('w, 'd) services \<Rightarrow> backup_config \<Rightarrow> string \<Rightarrow> jsnum \<Rightarrow> ('w, export_started) io" where
  "start_d1_export sv cfg token now =
     (if \<not> is_finite now then io_throw ''d1_export_start_clock_invalid''
      else case date_of now of
        None \<Rightarrow> io_throw ''Invalid time value''
      | Some ms \<Rightarrow>
          io_bind (io_lift (to_iso_string ms)) (\<lambda>at.
          io_bind (sv_fetch sv (StartExport (d1_export_url cfg) token)) (\<lambda>resp.
          io_bind (io_lift (response_json resp ''d1_export_start'')) (\<lambda>v.
          io_bind (io_lift (parse_start_export_response v)) (\<lambda>b.
            io_return \<lparr>bookmark = b, snapshot_requested_at = at\<rparr>)))))"

definition poll_d1_export ::
  "('w, 'd) services \<Rightarrow> backup_config \<Rightarrow> string \<Rightarrow> string \<Rightarrow> ('w, export_ready) io" where
  "poll_d1_export sv cfg token b =
     io_bind (sv_fetch sv (PollExport (d1_export_url cfg) token b)) (\<lambda>resp.
     io_bind (io_lift (response_json resp ''d1_export_poll'')) (\<lambda>v.
       io_lift (parse_ready_export_response v)))"

section \<open>Uploading a stream of known length\<close>

definition export_content_length :: "('w, 'd) services \<Rightarrow> byte list response \<Rightarrow> ('w, nat) io" where
  "export_content_length sv resp =
     (let header = rs_content_length resp;
          length' = (case header of None \<Rightarrow> Whole 0 | Some h \<Rightarrow> js_number h);
          encoding = rs_content_encoding resp
      in if header = None \<or> \<not> all_digits (the header) \<or> \<not> is_safe_integer length' \<or> num_less length' 1
            \<or> (encoding \<noteq> None \<and> encoding \<noteq> Some ''identity'')
         then io_bind (if rs_body resp = None then io_return () else sv_cancel sv resp) (\<lambda>_.
                io_throw (if length' = Whole 0 \<and> header = Some ''0'' then ''d1_export_empty''
                          else ''d1_export_invalid_content_length''))
         else io_return (case length' of Whole n \<Rightarrow> nat n | _ \<Rightarrow> 0))"

text \<open>
  \<open>FixedLengthStream\<close> passes the source on if it has the declared length and breaks otherwise.
  \<open>Promise.all\<close> waits for the upload and the transfer; when both fail, the error is that of the
  one that failed first.
\<close>

definition fixed_length :: "('w, 'd) services \<Rightarrow> nat \<Rightarrow> byte list outcome \<Rightarrow> byte list outcome" where
  "fixed_length sv n src = rbind src (\<lambda>bytes.
     if length bytes = n then Inr bytes else Inl (sv_fixed_length_error sv))"

definition put_known_length_stream ::
  "('w, 'd) services \<Rightarrow> string \<Rightarrow> byte list outcome \<Rightarrow> nat \<Rightarrow> r2_put_options \<Rightarrow> ('w, r2_put_result option) io" where
  "put_known_length_stream sv key src n opts w =
     (let transfer = fixed_length sv n src in
      case sv_put sv key (StreamBody transfer) opts w of
        (upload, w') \<Rightarrow>
          (case (upload, transfer) of
             (Inr r, Inr _) \<Rightarrow> (Inr r, w')
           | (Inl e, Inr _) \<Rightarrow> (Inl e, w')
           | (Inr _, Inl e) \<Rightarrow> (Inl e, w')
           | (Inl e1, Inl e2) \<Rightarrow> (Inl (sv_first_error sv e1 e2), w')))"

section \<open>Saving an export\<close>

record saved_backup =
  sb_database_id :: string
  sb_database_name :: string
  sb_bookmark :: string
  sb_export_filename :: string
  sb_object_key :: string
  sb_manifest_key :: string
  sb_snapshot_requested_at :: string
  sb_created_at :: string
  sb_content_integrity :: content_integrity
  sb_snapshot_inventory :: snapshot_inventory

definition manifest_suffix :: string where
  "manifest_suffix = ''.metadata.json''"

definition metadata_of :: "backup_config \<Rightarrow> export_started \<Rightarrow> (string \<times> string) list" where
  "metadata_of cfg started =
     [(''database_id'', database_id cfg), (''database_name'', database_name cfg), (''bookmark'', bookmark started)]"

text \<open>The checks between the upload and the manifest: integrity, inventory, upload time.\<close>

definition check_upload ::
  "('w, 'd) services \<Rightarrow> string \<Rightarrow> string \<Rightarrow> streamed outcome \<Rightarrow> r2_put_result option
    \<Rightarrow> (content_integrity \<times> snapshot_inventory \<times> string) outcome" where
  "check_upload sv key at result put =
     rbind result (\<lambda>st.
     rbind (content_integrity_from_put put key st) (\<lambda>ci.
     if table_counts (stream_inventory st) = [] then Inl ''snapshot_inventory_no_counted_tables''
     else rbind (r2_uploaded_at (sv_date_parse sv) put) (\<lambda>uploaded.
       if (case (date_parse (sv_date_parse sv) uploaded, date_parse (sv_date_parse sv) at) of
             (Some u, Some s) \<Rightarrow> u + max_clock_skew_ms < s | _ \<Rightarrow> False)
       then Inl ''r2_put_uploaded_at_before_snapshot''
       else Inr (ci, stream_inventory st, uploaded))))"

definition manifest_of ::
  "backup_config \<Rightarrow> export_started \<Rightarrow> export_ready \<Rightarrow> string \<Rightarrow> string
    \<Rightarrow> content_integrity \<times> snapshot_inventory \<times> string \<Rightarrow> object_manifest" where
  "manifest_of cfg started ready key at checked = (case checked of (ci, snap, uploaded) \<Rightarrow>
     \<lparr>om_database_id = database_id cfg, om_database_name = database_name cfg, om_source = ''cloudflare-d1-export'',
      om_bookmark = bookmark started, om_export_filename = filename ready, om_object_key = key,
      om_snapshot_requested_at = at, om_created_at = uploaded, om_content_integrity = ci,
      om_snapshot_inventory = snap\<rparr>)"

definition saved_of :: "object_manifest \<Rightarrow> string \<Rightarrow> saved_backup" where
  "saved_of m manifest_key =
     \<lparr>sb_database_id = om_database_id m, sb_database_name = om_database_name m, sb_bookmark = om_bookmark m,
      sb_export_filename = om_export_filename m, sb_object_key = om_object_key m, sb_manifest_key = manifest_key,
      sb_snapshot_requested_at = om_snapshot_requested_at m, sb_created_at = om_created_at m,
      sb_content_integrity = om_content_integrity m, sb_snapshot_inventory = om_snapshot_inventory m\<rparr>"

text \<open>The \<open>catch\<close> block: keep a dump a manifest covers, and keep it when that cannot be checked.\<close>

definition is_manifested :: "('w, 'd) services \<Rightarrow> string \<Rightarrow> 'w \<Rightarrow> bool \<times> 'w" where
  "is_manifested sv manifest_key w =
     (case sv_list sv manifest_key None 1 w of
        (Inl e, w') \<Rightarrow> (True, w')
      | (Inr page, w') \<Rightarrow> (list_ex (\<lambda>ob. ob_key ob = manifest_key) (pg_objects page), w'))"

definition discard_unmanifested :: "('w, 'd) services \<Rightarrow> string \<Rightarrow> string \<Rightarrow> string \<Rightarrow> ('w, 'a) io" where
  "discard_unmanifested sv key manifest_key e w =
     (case is_manifested sv manifest_key w of
        (manifested, w1) \<Rightarrow>
          if manifested then (Inl e, w1) else (Inl e, snd (sv_delete sv [key] w1)))"

definition commit_manifest ::
  "('w, 'd) services \<Rightarrow> backup_config \<Rightarrow> export_started \<Rightarrow> export_ready \<Rightarrow> string \<Rightarrow> string \<Rightarrow> streamed outcome
    \<Rightarrow> r2_put_result option \<Rightarrow> ('w, saved_backup) io" where
  "commit_manifest sv cfg started ready key at result put =
     io_bind (io_lift (check_upload sv key at result put)) (\<lambda>checked.
       let m = manifest_of cfg started ready key at checked in
       io_bind (sv_put sv (key @ manifest_suffix) (JsonBody m)
                  \<lparr>content_type = ''application/json'', custom_metadata = metadata_of cfg started\<rparr>) (\<lambda>_.
         io_return (saved_of m (key @ manifest_suffix))))"

definition stream_result :: "('w, 'd) services \<Rightarrow> byte list list \<times> string option \<Rightarrow> streamed outcome" where
  "stream_result sv body = stream_with_snapshot_inventory (sv_runtime sv) (fst body) (snd body)"

text \<open>The bytes that leave the transform: all chunks, unless it or its source fails.\<close>

definition stream_readable :: "('w, 'd) services \<Rightarrow> byte list list \<times> string option \<Rightarrow> byte list outcome" where
  "stream_readable sv body = rbind (stream_result sv body) (\<lambda>_. Inr (concat (fst body)))"

definition save_d1_export_to_r2 ::
  "('w, 'd) services \<Rightarrow> backup_config \<Rightarrow> export_started \<Rightarrow> export_ready \<Rightarrow> ('w, saved_backup) io" where
  "save_d1_export_to_r2 sv cfg started ready =
     io_bind (io_lift (canonical_snapshot_requested_at (snapshot_requested_at started))) (\<lambda>at.
     io_bind (sv_fetch sv (Download (signed_url ready))) (\<lambda>resp.
       case rs_body resp of
         None \<Rightarrow> io_throw (''d1_export_download_failed:'' @ dec (rs_status resp))
       | Some body \<Rightarrow>
           if \<not> rs_ok resp then io_throw (''d1_export_download_failed:'' @ dec (rs_status resp))
           else
             io_bind (io_lift (backup_object_key cfg ready started)) (\<lambda>key.
             io_bind (export_content_length sv resp) (\<lambda>n.
             io_bind (put_known_length_stream sv key (stream_readable sv body) n
                        \<lparr>content_type = ''application/sql'', custom_metadata = metadata_of cfg started\<rparr>) (\<lambda>put.
               io_catch (commit_manifest sv cfg started ready key at (stream_result sv body) put)
                 (discard_unmanifested sv key (key @ manifest_suffix)))))))"

section \<open>Pruning\<close>

text \<open>\<open>uploadedTime\<close>; the \<open>NaN\<close> of an invalid date is \<open>None\<close> too: it is not before any cutoff.\<close>

definition uploaded_time :: "('w, 'd) services \<Rightarrow> r2_object \<Rightarrow> int option" where
  "uploaded_time sv ob = date_time (sv_date_parse sv) (ob_uploaded ob)"

definition is_expired :: "('w, 'd) services \<Rightarrow> int \<Rightarrow> r2_object \<Rightarrow> bool" where
  "is_expired sv cutoff ob = (case uploaded_time sv ob of None \<Rightarrow> False | Some t \<Rightarrow> t < cutoff)"

definition prune_cutoff :: "backup_config \<Rightarrow> int \<Rightarrow> int" where
  "prune_cutoff cfg now = now - retention_days cfg * 24 * 60 * 60 * 1000"

definition expired_keys :: "('w, 'd) services \<Rightarrow> int \<Rightarrow> r2_page \<Rightarrow> string list" where
  "expired_keys sv cutoff page = List.map ob_key (List.filter (is_expired sv cutoff) (pg_objects page))"

text \<open>One page: list it, delete its expired objects; the next cursor, if there is one.\<close>

definition prune_page ::
  "('w, 'd) services \<Rightarrow> string \<Rightarrow> int \<Rightarrow> string option \<Rightarrow> ('w, nat \<times> string option) io" where
  "prune_page sv prefix cutoff cursor =
     io_bind (sv_list sv prefix cursor 1000) (\<lambda>page.
       let expired = expired_keys sv cutoff page in
       io_bind (if expired = [] then io_return () else sv_delete sv expired) (\<lambda>_.
         io_return (length expired, if pg_truncated page then pg_cursor page else None)))"

partial_function (option) prune_loop ::
  "('w, 'd) services \<Rightarrow> string \<Rightarrow> int \<Rightarrow> string option \<Rightarrow> nat \<Rightarrow> 'w \<Rightarrow> (nat outcome \<times> 'w) option" where
  "prune_loop sv prefix cutoff cursor deleted w =
     (case prune_page sv prefix cutoff cursor w of
        (Inl e, w') \<Rightarrow> Some (Inl e, w')
      | (Inr (n, None), w') \<Rightarrow> Some (Inr (deleted + n), w')
      | (Inr (n, Some c), w') \<Rightarrow> prune_loop sv prefix cutoff (Some c) (deleted + n) w')"

definition prune_expired_backups ::
  "('w, 'd) services \<Rightarrow> backup_config \<Rightarrow> int \<Rightarrow> 'w \<Rightarrow> (nat outcome \<times> 'w) option" where
  "prune_expired_backups sv cfg now w =
     prune_loop sv (bk_prefix cfg @ ''/'') (prune_cutoff cfg now) None 0 w"

end
