(* ===== verification/Backup_Safety.thy ===== *)
theory Backup_Safety
  imports Backup_Store Backup_Answers
begin

text \<open>
  What saving and pruning do to the bucket, under the documented behaviour of R2: a put that
  returns has stored the object under its key; one that throws may have stored it, unless the stream it
  was given broke, or nothing; a list does not change the bucket and finds an object by
  its full key, a delete removes the keys it is given.
\<close>

section \<open>The bucket\<close>

definition put_law :: "('w, 'd) services \<Rightarrow> ('w \<Rightarrow> string \<Rightarrow> r2_body option) \<Rightarrow> bool" where
  "put_law sv objs \<longleftrightarrow> (\<forall>k b opts w. case sv_put sv k b opts w of
     (Inr r, w') \<Rightarrow> r \<noteq> None \<and> (\<forall>e. b \<noteq> StreamBody (Inl e)) \<and> objs w' = (objs w)(k \<mapsto> b)
   | (Inl e, w') \<Rightarrow> objs w' = objs w \<or> ((\<forall>e. b \<noteq> StreamBody (Inl e)) \<and> objs w' = (objs w)(k \<mapsto> b)))"

definition list_law :: "('w, 'd) services \<Rightarrow> ('w \<Rightarrow> string \<Rightarrow> r2_body option) \<Rightarrow> bool" where
  "list_law sv objs \<longleftrightarrow> (\<forall>p c n w. objs (snd (sv_list sv p c n w)) = objs w)
     \<and> (\<forall>p w page w'. sv_list sv p None 1 w = (Inr page, w') \<longrightarrow>
          (p \<in> ob_key ` set (pg_objects page) \<longleftrightarrow> objs w p \<noteq> None))"

definition delete_law :: "('w, 'd) services \<Rightarrow> ('w \<Rightarrow> string \<Rightarrow> r2_body option) \<Rightarrow> bool" where
  "delete_law sv objs \<longleftrightarrow> (\<forall>ks w. case sv_delete sv ks w of
     (Inr _, w') \<Rightarrow> objs w' = (\<lambda>k. if k \<in> set ks then None else objs w k)
   | (Inl e, w') \<Rightarrow> (\<forall>k. objs w' k = objs w k \<or> (k \<in> set ks \<and> objs w' k = None)))"

definition bucket_laws :: "('w, 'd) services \<Rightarrow> ('w \<Rightarrow> string \<Rightarrow> r2_body option) \<Rightarrow> bool" where
  "bucket_laws sv objs \<longleftrightarrow> (\<forall>q w. objs (snd (sv_fetch sv q w)) = objs w)
     \<and> (\<forall>r w. objs (snd (sv_cancel sv r w)) = objs w)
     \<and> put_law sv objs \<and> list_law sv objs \<and> delete_law sv objs"

lemma fetch_keeps: "bucket_laws sv objs \<Longrightarrow> sv_fetch sv q w = (r, w') \<Longrightarrow> objs w' = objs w"
  unfolding bucket_laws_def by (metis snd_conv)

lemma list_keeps: "bucket_laws sv objs \<Longrightarrow> sv_list sv p c n w = (r, w') \<Longrightarrow> objs w' = objs w"
  unfolding bucket_laws_def list_law_def by (metis snd_conv)

lemma put_cases:
  assumes "bucket_laws sv objs" and "sv_put sv k b opts w = (r, w')"
  obtains x where "r = Inr (Some x)" "\<forall>e. b \<noteq> StreamBody (Inl e)" "objs w' = (objs w)(k \<mapsto> b)"
    | e where "r = Inl e" "objs w' = objs w"
    | e where "r = Inl e" "\<forall>e. b \<noteq> StreamBody (Inl e)" "objs w' = (objs w)(k \<mapsto> b)"
proof -
  have "put_law sv objs" using assms(1) unfolding bucket_laws_def by blast
  note law = this [unfolded put_law_def, THEN spec [of _ k], THEN spec [of _ b], THEN spec [of _ opts], THEN spec [of _ w], unfolded assms(2)]
  show thesis
  proof (cases r)
    case (Inl e)
    with law that(2,3) show thesis by auto
  next
    case (Inr x)
    with law that(1) show thesis by auto
  qed
qed

lemma delete_frame:
  assumes "bucket_laws sv objs" and "sv_delete sv ks w = (r, w')"
  shows "objs w' k = objs w k \<or> (k \<in> set ks \<and> objs w' k = None)"
    and "r = Inr u \<Longrightarrow> k \<in> set ks \<Longrightarrow> objs w' k = None"
proof -
  have "delete_law sv objs" using assms(1) unfolding bucket_laws_def by blast
  note law = this [unfolded delete_law_def, THEN spec [of _ ks], THEN spec [of _ w], unfolded assms(2)]
  show "objs w' k = objs w k \<or> (k \<in> set ks \<and> objs w' k = None)"
    using law by (cases r) auto
  show "r = Inr u \<Longrightarrow> k \<in> set ks \<Longrightarrow> objs w' k = None" using law by simp
qed

lemma manifested_exact:
  assumes "bucket_laws sv objs" and "sv_list sv p None 1 w = (Inr page, w')"
  shows "list_ex (\<lambda>ob. ob_key ob = p) (pg_objects page) \<longleftrightarrow> objs w p \<noteq> None"
proof -
  have "p \<in> ob_key ` set (pg_objects page) \<longleftrightarrow> objs w p \<noteq> None"
    using assms unfolding bucket_laws_def list_law_def by blast
  moreover have "list_ex (\<lambda>ob. ob_key ob = p) (pg_objects page) \<longleftrightarrow> p \<in> ob_key ` set (pg_objects page)"
    by (auto simp: list_ex_iff)
  ultimately show ?thesis by simp
qed

section \<open>Saving\<close>

lemma length_keeps:
  assumes "bucket_laws sv objs" and "export_content_length sv resp w = (r, w')"
  shows "objs w' = objs w"
proof -
  have c: "objs (snd (sv_cancel sv resp w)) = objs w" using assms(1) unfolding bucket_laws_def by blast
  have "objs (snd (io_bind (if rs_body resp = None then io_return () else sv_cancel sv resp) (\<lambda>_. io_throw e) w)) = objs w" for e
    using c by (auto simp: io_bind_def split: prod.splits sum.splits)
  then have "objs (snd ((if P then io_bind (if rs_body resp = None then io_return () else sv_cancel sv resp)
      (\<lambda>_. io_throw e) else io_return x) w)) = objs w" for P e and x :: nat
    by (cases P) (simp_all only: if_True if_False io_simps_basic snd_conv)
  then have "objs (snd (export_content_length sv resp w)) = objs w"
    unfolding export_content_length_def Let_def by blast
  with assms(2) show ?thesis by simp
qed

lemma upload_cases:
  assumes "bucket_laws sv objs" and "put_known_length_stream sv key src n opts w = (r, w')"
  obtains e where "r = Inl e" "objs w' = objs w"
    | x bytes where "r = Inr (Some x)" "src = Inr bytes" "length bytes = n"
        "objs w' = (objs w)(key \<mapsto> StreamBody (Inr bytes))"
    | e bytes where "r = Inl e" "sv_put sv key (StreamBody (Inr bytes)) opts w = (Inl e, w')"
        "objs w' = (objs w)(key \<mapsto> StreamBody (Inr bytes))"
proof -
  obtain u w1 where u: "sv_put sv key (StreamBody (fixed_length sv n src)) opts w = (u, w1)"
    by (cases "sv_put sv key (StreamBody (fixed_length sv n src)) opts w")
  have w': "w' = w1"
    using assms(2) u by (auto simp: put_known_length_stream_def Let_def split: sum.splits)
  have r: "r = (case (u, fixed_length sv n src) of (Inr r, Inr _) \<Rightarrow> Inr r | (Inl e, Inr _) \<Rightarrow> Inl e
      | (Inr _, Inl e) \<Rightarrow> Inl e | (Inl e1, Inl e2) \<Rightarrow> Inl (sv_first_error sv e1 e2))"
    using assms(2) u by (auto simp: put_known_length_stream_def Let_def split: sum.splits)
  from put_cases [OF assms(1) u] show thesis
  proof cases
    case (1 x)
    then obtain bytes where b: "fixed_length sv n src = Inr bytes" by (cases "fixed_length sv n src") auto
    then have "src = Inr bytes \<and> length bytes = n" by (auto simp: fixed_length_def rbind_Inr_iff split: if_splits)
    with 1 b r w' that(2) show thesis by simp
  next
    case (2 e)
    then have "\<exists>e. r = Inl e" using r by (auto split: sum.splits)
    with 2 w' that(1) show thesis by blast
  next
    case (3 e)
    then obtain bytes where b: "fixed_length sv n src = Inr bytes" by (cases "fixed_length sv n src") auto
    with 3 u r w' that(3) show thesis by simp
  qed
qed

text \<open>
  A run fails with the bucket as it was, or stores the dump and goes on to commit it, or fails in the
  put of the dump, which stored it all the same.
\<close>

lemma save_cases:
  assumes laws: "bucket_laws sv objs" and run: "save_d1_export_to_r2 sv cfg started ready w = (r, w')"
  obtains (early) e where "r = Inl e" "objs w' = objs w"
    | (unanswered) e key bytes opts w1 where "r = Inl e" "backup_object_key cfg ready started = Inr key"
        "sv_put sv key (StreamBody (Inr bytes)) opts w1 = (Inl e, w')" "objs w' = (objs w)(key \<mapsto> StreamBody (Inr bytes))"
    | (stored) at resp body key put bytes w0 w1 where
        "sv_fetch sv (Download (signed_url ready)) w = (Inr resp, w0)" "rs_ok resp" "rs_body resp = Some body"
        "canonical_snapshot_requested_at (snapshot_requested_at started) = Inr at"
        "backup_object_key cfg ready started = Inr key"
        "bytes = concat (fst body)" "stream_readable sv body = Inr bytes"
        "objs w1 = (objs w)(key \<mapsto> StreamBody (Inr bytes))"
        "io_catch (commit_manifest sv cfg started ready key at (stream_result sv body) (Some put))
           (discard_unmanifested sv key (key @ manifest_suffix)) w1 = (r, w')"
proof -
  show thesis
  proof (cases "canonical_snapshot_requested_at (snapshot_requested_at started)")
    case (Inl e)
    then have "r = Inl e" "w' = w" using run by (simp_all add: save_d1_export_to_r2_def)
    then show thesis using early by simp
  next
    case at: (Inr at)
    obtain fr w1 where f: "sv_fetch sv (Download (signed_url ready)) w = (fr, w1)"
      by (cases "sv_fetch sv (Download (signed_url ready)) w")
    have k1: "objs w1 = objs w" using fetch_keeps [OF laws f] .
    show thesis
    proof (cases fr)
      case (Inl e)
      then have "r = Inl e" "w' = w1" using run f at by (simp_all add: save_d1_export_to_r2_def io_bind_def)
      then show thesis using early k1 by simp
    next
      case resp: (Inr resp)
      show thesis
      proof (cases "rs_body resp = None \<or> \<not> rs_ok resp")
        case True
        then have "r = Inl (''d1_export_download_failed:'' @ dec (rs_status resp))" "w' = w1" using run f at resp
          by (auto simp: save_d1_export_to_r2_def io_bind_def split: option.splits)
        then show thesis using early k1 by simp
      next
        case False
        then obtain body where body: "rs_body resp = Some body" and ok: "rs_ok resp" by auto
        show thesis
        proof (cases "backup_object_key cfg ready started")
          case (Inl e)
          then have "r = Inl e" "w' = w1" using run f at resp body ok
            by (simp_all add: save_d1_export_to_r2_def io_bind_def)
          then show thesis using early k1 by simp
        next
          case key: (Inr key)
          obtain lr w2 where l: "export_content_length sv resp w1 = (lr, w2)"
            by (cases "export_content_length sv resp w1")
          have k2: "objs w2 = objs w" using length_keeps [OF laws l] k1 by simp
          show thesis
          proof (cases lr)
            case (Inl e)
            then have "r = Inl e" "w' = w2" using run f at resp body ok key l
              by (simp_all add: save_d1_export_to_r2_def io_bind_def)
            then show thesis using early k2 by simp
          next
            case n: (Inr n)
            define opts where "opts = \<lparr>content_type = ''application/sql'', custom_metadata = metadata_of cfg started\<rparr>"
            obtain pr w3 where p: "put_known_length_stream sv key (stream_readable sv body) n opts w2 = (pr, w3)"
              by (cases "put_known_length_stream sv key (stream_readable sv body) n opts w2")
            have step: "(r, w') = (case pr of Inl e \<Rightarrow> (Inl e, w3)
              | Inr put \<Rightarrow> io_catch (commit_manifest sv cfg started ready key at (stream_result sv body) put)
                 (discard_unmanifested sv key (key @ manifest_suffix)) w3)"
              using run f at resp body ok key l n p
              by (simp add: save_d1_export_to_r2_def io_bind_def opts_def split: sum.splits)
            from upload_cases [OF laws p] show thesis
            proof cases
              case (1 e)
              then show thesis using step k2 early by simp
            next
              case (2 x bytes)
              have "bytes = concat (fst body)"
                using 2(2) by (auto simp: stream_readable_def rbind_Inr_iff)
              then show thesis using stored [of resp w1 body at key bytes w3 x] f resp ok body step 2 k2 at key by simp
            next
              case (3 e bytes)
              then show thesis using unanswered [of e key bytes opts w2] step k2 key by simp
            qed
          qed
        qed
      qed
    qed
  qed
qed

lemma commit_cases:
  assumes laws: "bucket_laws sv objs"
    and run: "commit_manifest sv cfg started ready key at result put w = (r, w')"
  obtains (committed) checked m where "check_upload sv key at result put = Inr checked"
        "m = manifest_of cfg started ready key at checked" "r = Inr (saved_of m (key @ manifest_suffix))"
        "objs w' = (objs w)(key @ manifest_suffix \<mapsto> JsonBody m)"
    | (failed) e where "r = Inl e" "objs w' = objs w"
    | (unknown) e m where "r = Inl e" "objs w' = (objs w)(key @ manifest_suffix \<mapsto> JsonBody m)"
proof (cases "check_upload sv key at result put")
  case (Inl e)
  then have "r = Inl e" "w' = w" using run by (simp_all add: commit_manifest_def)
  then show thesis using failed by simp
next
  case (Inr checked)
  define m where "m = manifest_of cfg started ready key at checked"
  define opts where "opts = \<lparr>content_type = ''application/json'', custom_metadata = metadata_of cfg started\<rparr>"
  obtain pr w1 where p: "sv_put sv (key @ manifest_suffix) (JsonBody m) opts w = (pr, w1)"
    by (cases "sv_put sv (key @ manifest_suffix) (JsonBody m) opts w")
  have r: "(r, w') = (case pr of Inl e \<Rightarrow> (Inl e, w1) | Inr _ \<Rightarrow> (Inr (saved_of m (key @ manifest_suffix)), w1))"
    using run Inr p by (simp add: commit_manifest_def io_bind_def m_def opts_def Let_def split: sum.splits)
  from put_cases [OF laws p] show thesis
  proof cases
    case (1 x)
    then show thesis using r Inr committed [of checked m] by (simp add: m_def)
  next
    case (2 e)
    then show thesis using r failed by simp
  next
    case (3 e)
    then show thesis using r unknown [of e m] by simp
  qed
qed

lemma io_catch_InlE:
  assumes "io_catch m h w = (Inl e, w')"
  obtains e2 w2 where "m w = (Inl e2, w2)" and "h e2 w2 = (Inl e, w')"
  using assms by (cases "m w") (auto simp: io_catch_def split: sum.splits)

lemma content_integrity_values:
  "content_integrity_from_put v key st = Inr ci \<Longrightarrow>
     ci_size_bytes ci = size_bytes st \<and> ci_digest_hex ci = digest_hex st"
  by (auto simp: content_integrity_from_put_def rbind_Inr_iff split: option.splits if_splits)

definition cleanup_available :: "('w, 'd) services \<Rightarrow> bool" where
  "cleanup_available sv \<longleftrightarrow> (\<forall>p c n w. \<exists>page. fst (sv_list sv p c n w) = Inr page) \<and> (\<forall>ks w. \<exists>u. fst (sv_delete sv ks w) = Inr u)"

lemma discard_frame:
  assumes laws: "bucket_laws sv objs" and run: "discard_unmanifested sv key mk e w = (r, w')"
  shows "r = Inl e" and "objs w' k = objs w k \<or> (k = key \<and> objs w mk = None \<and> objs w' k = None)"
    and "cleanup_available sv \<Longrightarrow> objs w mk = None \<Longrightarrow> objs w' key = None"
proof -
  obtain lr w1 where l: "sv_list sv mk None 1 w = (lr, w1)" by (cases "sv_list sv mk None 1 w")
  obtain dr w2 where d: "sv_delete sv [key] w1 = (dr, w2)" by (cases "sv_delete sv [key] w1")
  have k1: "objs w1 = objs w" using list_keeps [OF laws l] .
  define found where "found = (case lr of Inl _ \<Rightarrow> True | Inr page \<Rightarrow> list_ex (\<lambda>ob. ob_key ob = mk) (pg_objects page))"
  have r: "(r, w') = (if found then (Inl e, w1) else (Inl e, w2))"
    using run l d unfolding discard_unmanifested_def is_manifested_def found_def
    by (cases lr) auto
  then show "r = Inl e" by (simp split: if_splits)
  have exact: "found \<longleftrightarrow> objs w mk \<noteq> None" if "lr = Inr page" for page
    using manifested_exact [OF laws l [unfolded that]] that by (simp add: found_def)
  have absent: "\<not> found \<Longrightarrow> objs w mk = None"
    using exact by (cases lr) (auto simp: found_def)
  show "objs w' k = objs w k \<or> (k = key \<and> objs w mk = None \<and> objs w' k = None)"
    using r k1 absent delete_frame(1) [OF laws d, of k] by (auto split: if_splits)
  show "objs w' key = None" if av: "cleanup_available sv" and none: "objs w mk = None"
  proof -
    obtain page where "lr = Inr page" using av l unfolding cleanup_available_def by (metis fst_conv)
    then have "\<not> found" using exact none by simp
    moreover obtain u where "dr = Inr u" using av d unfolding cleanup_available_def by (metis fst_conv)
    ultimately show ?thesis using r delete_frame(2) [OF laws d, of u key] by simp
  qed
qed

text \<open>C22. A run that returns has stored exactly two objects: the dump, byte for byte the body of the
  answer to its download request, which was complete, and the manifest, which names the dump's key, the
  export, the length, the SHA-256 and the inventory of the text of those bytes; no other object of the
  bucket changed.\<close>

theorem save_d1_export_to_r2_stores:
  assumes "bucket_laws sv objs" and "splits_decoding (rt_decode (sv_runtime sv))"
    and "save_d1_export_to_r2 sv cfg started ready w = (Inr sb, w')"
  shows "\<exists>resp w0 chunks m st. sv_fetch sv (Download (signed_url ready)) w = (Inr resp, w0)
    \<and> rs_ok resp \<and> rs_body resp = Some (chunks, None)
    \<and> objs w' = (objs w)(sb_object_key sb \<mapsto> StreamBody (Inr (concat chunks)), sb_manifest_key sb \<mapsto> JsonBody m)
    \<and> backup_object_key cfg ready started = Inr (sb_object_key sb)
    \<and> sb_manifest_key sb = sb_object_key sb @ manifest_suffix \<and> sb = saved_of m (sb_manifest_key sb)
    \<and> om_object_key m = sb_object_key sb \<and> om_database_id m = database_id cfg \<and> om_bookmark m = bookmark started
    \<and> om_export_filename m = filename ready
    \<and> stream_spec (sv_runtime sv) (concat chunks) = Inr st \<and> om_snapshot_inventory m = stream_inventory st
    \<and> table_counts (stream_inventory st) \<noteq> []
    \<and> ci_size_bytes (om_content_integrity m) = length (concat chunks)
    \<and> ci_digest_hex (om_content_integrity m) = hex (rt_sha256 (sv_runtime sv) (concat chunks))"
  using assms(1,3)
proof (cases rule: save_cases)
  case early
  then show ?thesis by simp
next
  case unanswered
  then show ?thesis by simp
next
  case (stored at resp body key put bytes w0 w1)
  from stored(9) obtain w2 where c: "commit_manifest sv cfg started ready key at (stream_result sv body) (Some put) w1 = (Inr sb, w2)" "w2 = w'"
    using discard_frame(1) [OF assms(1)]
    by (cases "commit_manifest sv cfg started ready key at (stream_result sv body) (Some put) w1")
      (fastforce simp: io_catch_def split: sum.splits)
  from assms(1) c(1) show ?thesis
  proof (cases rule: commit_cases)
    case (committed checked m)
    from committed(1) obtain st where st: "stream_result sv body = Inr st" "snd checked = (stream_inventory st, snd (snd checked))"
      "table_counts (stream_inventory st) \<noteq> []" "content_integrity_from_put (Some put) key st = Inr (fst checked)"
      by (cases checked) (auto simp: check_upload_def rbind_Inr_iff split: if_splits)
    have spec: "stream_spec (sv_runtime sv) bytes = Inr st"
      using st(1) stream_total [OF assms(2)] stored(6) by (simp add: stream_result_def)
    have whole: "snd body = None"
      using st(1) stream_total [OF assms(2)] by (simp add: stream_result_def)
    have sz: "size_bytes st = length bytes" "digest_hex st = hex (rt_sha256 (sv_runtime sv) bytes)"
      using spec by (auto simp: stream_spec_def rbind_Inr_iff)
    have ci: "ci_size_bytes (fst checked) = size_bytes st" "ci_digest_hex (fst checked) = digest_hex st"
      using content_integrity_values [OF st(4)] by simp_all
    have m: "om_snapshot_inventory m = stream_inventory st" "om_content_integrity m = fst checked" "om_object_key m = key"
      "om_database_id m = database_id cfg" "om_bookmark m = bookmark started" "om_export_filename m = filename ready"
      using committed(2) st(2) by (cases checked; simp add: manifest_of_def)+
    have sb: "sb_object_key sb = key" "sb_manifest_key sb = key @ manifest_suffix"
      using committed(3) m(3) by (simp_all add: saved_of_def)
    show ?thesis
      using committed(3,4) stored c(2) m sb st(3) spec ci sz whole
      by (intro exI [of _ resp] exI [of _ w0] exI [of _ "fst body"] exI [of _ m] exI [of _ st]) (cases body; simp)
  next
    case failed
    then show ?thesis by simp
  next
    case unknown
    then show ?thesis by simp
  qed
qed

text \<open>C27. A failed run leaves no new dump without a manifest, as long as the clean-up's own
  calls get through and the dump's own put does not store the dump and fail all the same, for instance
  because its answer is lost: then the run ends there, without a clean-up.\<close>

theorem failed_save_leaves_no_orphan:
  assumes "bucket_laws sv objs" and "cleanup_available sv"
    and "save_d1_export_to_r2 sv cfg started ready w = (Inl e, w')"
    and "objs w' k = Some (StreamBody b)" and "objs w k \<noteq> objs w' k"
  shows "objs w' (k @ manifest_suffix) \<noteq> None
    \<or> (\<exists>bytes opts w1. b = Inr bytes \<and> sv_put sv k (StreamBody (Inr bytes)) opts w1 = (Inl e, w'))"
  using assms(1,3)
proof (cases rule: save_cases)
  case early
  then show ?thesis using assms(5) by simp
next
  case (unanswered e2 key bytes opts w1)
  then have "k = key" using assms(5) by (auto split: if_splits)
  then show ?thesis using unanswered assms(4) by (intro disjI2 exI [of _ bytes] exI [of _ opts] exI [of _ w1]) simp
next
  case (stored at resp body key put bytes w0 w1)
  obtain e2 w2
    where c: "commit_manifest sv cfg started ready key at (stream_result sv body) (Some put) w1 = (Inl e2, w2)"
    and d: "discard_unmanifested sv key (key @ manifest_suffix) e2 w2 = (Inl e :: saved_backup outcome, w')"
    by (rule io_catch_InlE [OF stored(9)])
  note frame = discard_frame(2) [OF assms(1) d] and gone = discard_frame(3) [OF assms(1) d assms(2)]
  have w2: "objs w2 = objs w1 \<or> (\<exists>m. objs w2 = (objs w1)(key @ manifest_suffix \<mapsto> JsonBody m))"
    using assms(1) c by (cases rule: commit_cases) auto
  have mk: "key @ manifest_suffix \<noteq> key" by (simp add: manifest_suffix_def)
  have "k = key"
  proof (rule ccontr)
    assume "k \<noteq> key"
    then have "objs w' k = objs w2 k" using frame [of k] by blast
    moreover have "objs w1 k = objs w k" using stored(8) \<open>k \<noteq> key\<close> by simp
    moreover have "objs w2 k = objs w1 k \<or> (\<exists>m. objs w2 k = Some (JsonBody m))"
      using w2 by (metis fun_upd_apply)
    ultimately show False using assms(4,5) by (metis option.inject r2_body.distinct(1))
  qed
  then have "objs w2 (key @ manifest_suffix) \<noteq> None" using gone assms(4) by auto
  then show ?thesis using frame [of "key @ manifest_suffix"] mk \<open>k = key\<close> by auto
qed

text \<open>
  The exception is real: when the put of a dump stores it but fails, the run fails with the put's error and
  leaves the dump behind, although no manifest covers it. The README of the service says that a failed save
  never leaves an orphan.
\<close>

theorem unanswered_put_leaves_orphan:
  assumes laws: "bucket_laws sv objs"
    and "canonical_snapshot_requested_at (snapshot_requested_at started) = Inr at"
    and "sv_fetch sv (Download (signed_url ready)) w = (Inr resp, w1)" and "rs_ok resp" and "rs_body resp = Some body"
    and "backup_object_key cfg ready started = Inr key"
    and len: "export_content_length sv resp w1 = (Inr (length bytes), w2)" and "stream_readable sv body = Inr bytes"
    and put: "\<And>opts. fst (sv_put sv key (StreamBody (Inr bytes)) opts w2) = Inl e
      \<and> objs (snd (sv_put sv key (StreamBody (Inr bytes)) opts w2)) = (objs w2)(key \<mapsto> StreamBody (Inr bytes))"
    and fresh: "objs w (key @ manifest_suffix) = None"
  shows "\<exists>w'. save_d1_export_to_r2 sv cfg started ready w = (Inl e, w')
    \<and> objs w' key = Some (StreamBody (Inr bytes)) \<and> objs w' (key @ manifest_suffix) = None"
proof -
  define opts where "opts = \<lparr>content_type = ''application/sql'', custom_metadata = metadata_of cfg started\<rparr>"
  obtain w3 where p: "sv_put sv key (StreamBody (Inr bytes)) opts w2 = (Inl e, w3)"
    and o3: "objs w3 = (objs w2)(key \<mapsto> StreamBody (Inr bytes))"
    using put [of opts] by (cases "sv_put sv key (StreamBody (Inr bytes)) opts w2") simp
  have "objs w2 = objs w"
    using fetch_keeps [OF laws assms(3)] length_keeps [OF laws len] by simp
  moreover have "key @ manifest_suffix \<noteq> key" by (simp add: manifest_suffix_def)
  moreover have "save_d1_export_to_r2 sv cfg started ready w = (Inl e, w3)"
    using assms(2-8) p by (simp add: save_d1_export_to_r2_def io_bind_def put_known_length_stream_def fixed_length_def opts_def [symmetric])
  ultimately show ?thesis using o3 fresh by simp
qed

text \<open>C28. No run, failed or not, removes an object whose manifest is already in the bucket,
  and it touches nothing but the keys of its own export, even when the clean-up's calls fail.\<close>

theorem save_keeps_manifested_backups:
  assumes "bucket_laws sv objs" and "save_d1_export_to_r2 sv cfg started ready w = (r, w')"
    and "objs w k \<noteq> None"
    and "objs w (k @ manifest_suffix) \<noteq> None \<or> backup_object_key cfg ready started \<noteq> Inr k"
  shows "objs w' k \<noteq> None"
  using assms(1,2)
proof (cases rule: save_cases)
  case early
  then show ?thesis using assms(3) by simp
next
  case unanswered
  then show ?thesis using assms(3) by simp
next
  case (stored at resp body key put bytes w0 w1)
  obtain r2 w2 where c: "commit_manifest sv cfg started ready key at (stream_result sv body) (Some put) w1 = (r2, w2)"
    by (cases "commit_manifest sv cfg started ready key at (stream_result sv body) (Some put) w1")
  have w2: "objs w2 = objs w1 \<or> (\<exists>m. objs w2 = (objs w1)(key @ manifest_suffix \<mapsto> JsonBody m))"
    using assms(1) c by (cases rule: commit_cases) auto
  then have k2: "objs w2 k \<noteq> None" "k = key \<Longrightarrow> objs w2 (k @ manifest_suffix) \<noteq> None"
    using assms(3,4) stored(5,8) by (auto split: if_splits)
  show ?thesis
  proof (cases r2)
    case (Inr sb)
    then show ?thesis using stored(9) c k2 by (simp add: io_catch_def)
  next
    case (Inl e)
    then have d: "discard_unmanifested sv key (key @ manifest_suffix) e w2 = (r, w')"
      using stored(9) c by (simp add: io_catch_def)
    show ?thesis using discard_frame(2) [OF assms(1) d, of k] k2 by auto
  qed
qed

end
