(* ===== verification/Backup_Prune.thy ===== *)
theory Backup_Prune
  imports Backup_Safety
begin

text \<open>
  Pruning: the loop over the pages of a listing ends, deletes exactly the expired objects below
  the configured prefix, and never deletes anything else, whatever call fails on the way.
\<close>

text \<open>
  A page lists objects of the bucket below the prefix, with their upload times. Cursors make
  progress: \<open>rest c\<close> holds for the keys a listing from \<open>c\<close> has yet to return, and each
  further cursor has a smaller \<open>rank\<close>.
\<close>

definition listing_law ::
  "('w, 'd) services \<Rightarrow> ('w \<Rightarrow> string \<Rightarrow> r2_body option) \<Rightarrow> (string \<Rightarrow> int option) \<Rightarrow> bool" where
  "listing_law sv objs up \<longleftrightarrow> (\<forall>p c n w page w'. sv_list sv p c n w = (Inr page, w') \<longrightarrow>
     (\<forall>ob \<in> set (pg_objects page). objs w (ob_key ob) \<noteq> None \<and> js_starts (ob_key ob) p
        \<and> uploaded_time sv ob = up (ob_key ob)))"

definition paging_law ::
  "('w, 'd) services \<Rightarrow> ('w \<Rightarrow> string \<Rightarrow> r2_body option) \<Rightarrow> string \<Rightarrow> (string option \<Rightarrow> string \<Rightarrow> bool)
    \<Rightarrow> (string option \<Rightarrow> nat) \<Rightarrow> bool" where
  "paging_law sv objs p rest rank \<longleftrightarrow> (\<forall>k. rest None k)
     \<and> (\<forall>c n w page w'. sv_list sv p c n w = (Inr page, w') \<longrightarrow>
          (\<forall>k. objs w k \<noteq> None \<longrightarrow> js_starts k p \<longrightarrow> rest c k \<longrightarrow>
             k \<in> ob_key ` set (pg_objects page)
             \<or> (pg_truncated page \<and> (\<exists>c'. pg_cursor page = Some c' \<and> rest (Some c') k)))
          \<and> (\<forall>c'. pg_truncated page \<longrightarrow> pg_cursor page = Some c' \<longrightarrow> rank (Some c') < rank c))"

definition expired_key :: "(string \<Rightarrow> int option) \<Rightarrow> int \<Rightarrow> string \<Rightarrow> bool" where
  "expired_key up cutoff k \<longleftrightarrow> (case up k of None \<Rightarrow> False | Some t \<Rightarrow> t < cutoff)"

lemma listed_expired:
  assumes "listing_law sv objs up" and "sv_list sv p c n w = (Inr page, w')"
  shows "k \<in> set (expired_keys sv cutoff page)
     \<longleftrightarrow> k \<in> ob_key ` set (pg_objects page) \<and> expired_key up cutoff k"
proof -
  have "\<forall>ob \<in> set (pg_objects page). uploaded_time sv ob = up (ob_key ob)"
    using assms unfolding listing_law_def by blast
  then show ?thesis by (auto simp: expired_keys_def is_expired_def expired_key_def)
qed

text \<open>One page: what it changes, and, when it succeeds, that its expired objects are gone.\<close>

lemma prune_page_frame:
  assumes laws: "bucket_laws sv objs" and list: "listing_law sv objs up"
    and run: "prune_page sv p cutoff c w = (r, w')"
  shows "objs w' k = objs w k \<or> (objs w' k = None \<and> js_starts k p \<and> expired_key up cutoff k)"
proof -
  obtain lr w1 where l: "sv_list sv p c 1000 w = (lr, w1)" by (cases "sv_list sv p c 1000 w")
  have k1: "objs w1 = objs w" using list_keeps [OF laws l] .
  show ?thesis
  proof (cases lr)
    case (Inl e)
    then show ?thesis using run l k1 by (simp add: prune_page_def io_bind_def)
  next
    case (Inr page)
    define ks where "ks = expired_keys sv cutoff page"
    have ks: "j \<in> set ks \<Longrightarrow> js_starts j p \<and> expired_key up cutoff j" for j
      using listed_expired [OF list l [unfolded Inr], of j cutoff] list l Inr
      unfolding listing_law_def ks_def by fastforce
    show ?thesis
    proof (cases "ks = []")
      case True
      then have "w' = w1" using run l Inr by (simp add: prune_page_def io_bind_def Let_def ks_def [symmetric])
      then show ?thesis using k1 by simp
    next
      case False
      obtain dr w2 where d: "sv_delete sv ks w1 = (dr, w2)" by (cases "sv_delete sv ks w1")
      have "w' = w2" using run l Inr False d
        by (auto simp: prune_page_def io_bind_def Let_def ks_def [symmetric] split: sum.splits)
      then show ?thesis using delete_frame(1) [OF laws d, of k] ks k1 by auto
    qed
  qed
qed

lemma prune_page_done:
  assumes laws: "bucket_laws sv objs" and list: "listing_law sv objs up" and paging: "paging_law sv objs p rest rank"
    and av: "cleanup_available sv"
  obtains n nx w' where "prune_page sv p cutoff c w = (Inr (n, nx), w')"
    and "\<And>k. objs w k \<noteq> None \<Longrightarrow> js_starts k p \<Longrightarrow> rest c k \<Longrightarrow> expired_key up cutoff k \<Longrightarrow>
           objs w' k = None \<or> (\<exists>c'. nx = Some c' \<and> rest (Some c') k)"
    and "\<And>c'. nx = Some c' \<Longrightarrow> rank (Some c') < rank c"
proof -
  obtain page w1 where l: "sv_list sv p c 1000 w = (Inr page, w1)"
    using av unfolding cleanup_available_def by (metis prod.collapse)
  have k1: "objs w1 = objs w" using list_keeps [OF laws l] .
  define ks where "ks = expired_keys sv cutoff page"
  define nx where "nx = (if pg_truncated page then pg_cursor page else None)"
  obtain u w2 where d: "sv_delete sv ks w1 = (Inr u, w2)"
    using av unfolding cleanup_available_def by (metis prod.collapse)
  define w' where "w' = (if ks = [] then w1 else w2)"
  have run: "prune_page sv p cutoff c w = (Inr (length ks, nx), w')"
    using l d by (auto simp: prune_page_def io_bind_def Let_def ks_def [symmetric] nx_def w'_def)
  have gone: "k \<in> set ks \<Longrightarrow> objs w' k = None" for k
    using delete_frame(2) [OF laws d, of u k] by (auto simp: w'_def)
  have ks: "k \<in> ob_key ` set (pg_objects page) \<Longrightarrow> expired_key up cutoff k \<Longrightarrow> k \<in> set ks" for k
    using listed_expired [OF list l] unfolding ks_def by blast
  show thesis
  proof (rule that [OF run])
    fix k
    assume "objs w k \<noteq> None" "js_starts k p" "rest c k" "expired_key up cutoff k"
    moreover from this have "k \<in> ob_key ` set (pg_objects page)
        \<or> (pg_truncated page \<and> (\<exists>c'. pg_cursor page = Some c' \<and> rest (Some c') k))"
      using paging l unfolding paging_law_def by blast
    ultimately show "objs w' k = None \<or> (\<exists>c'. nx = Some c' \<and> rest (Some c') k)"
      using gone ks by (auto simp: nx_def)
  next
    fix c'
    assume "nx = Some c'"
    then have "pg_truncated page" "pg_cursor page = Some c'" by (auto simp: nx_def split: if_splits)
    then show "rank (Some c') < rank c" using paging l unfolding paging_law_def by blast
  qed
qed

lemma prune_loop_total:
  assumes laws: "bucket_laws sv objs" and list: "listing_law sv objs up" and paging: "paging_law sv objs p rest rank"
    and av: "cleanup_available sv"
  shows "\<exists>n w'. prune_loop sv p cutoff c deleted w = Some (Inr n, w')
     \<and> (\<forall>k. js_starts k p \<longrightarrow> rest c k \<longrightarrow> expired_key up cutoff k \<longrightarrow> objs w' k = None)
     \<and> (\<forall>k. objs w' k = objs w k \<or> (objs w' k = None \<and> js_starts k p \<and> expired_key up cutoff k))"
proof (induction "rank c" arbitrary: c deleted w rule: less_induct)
  case less
  obtain n nx w1 where page: "prune_page sv p cutoff c w = (Inr (n, nx), w1)"
    and gone: "\<And>k. objs w k \<noteq> None \<Longrightarrow> js_starts k p \<Longrightarrow> rest c k \<Longrightarrow> expired_key up cutoff k \<Longrightarrow>
           objs w1 k = None \<or> (\<exists>c'. nx = Some c' \<and> rest (Some c') k)"
    and smaller: "\<And>c'. nx = Some c' \<Longrightarrow> rank (Some c') < rank c"
    using prune_page_done [OF laws list paging av] by metis
  note frame = prune_page_frame [OF laws list page]
  show ?case
  proof (cases nx)
    case None
    then have "prune_loop sv p cutoff c deleted w = Some (Inr (deleted + n), w1)"
      by (subst prune_loop.simps) (simp add: page)
    moreover have "\<forall>k. js_starts k p \<longrightarrow> rest c k \<longrightarrow> expired_key up cutoff k \<longrightarrow> objs w1 k = None"
      using gone frame None by (metis option.distinct(1))
    ultimately show ?thesis using frame by blast
  next
    case (Some c')
    from less [OF smaller [OF Some], of "deleted + n" w1] obtain m w2 where
      loop: "prune_loop sv p cutoff (Some c') (deleted + n) w1 = Some (Inr m, w2)" and
      gone2: "\<forall>k. js_starts k p \<longrightarrow> rest (Some c') k \<longrightarrow> expired_key up cutoff k \<longrightarrow> objs w2 k = None" and
      frame2: "\<forall>k. objs w2 k = objs w1 k \<or> (objs w2 k = None \<and> js_starts k p \<and> expired_key up cutoff k)"
      by blast
    have "prune_loop sv p cutoff c deleted w = Some (Inr m, w2)"
      by (subst prune_loop.simps) (simp add: page Some loop)
    moreover have "\<forall>k. js_starts k p \<longrightarrow> rest c k \<longrightarrow> expired_key up cutoff k \<longrightarrow> objs w2 k = None"
      using gone gone2 frame frame2 Some by (metis option.inject)
    moreover have "\<forall>k. objs w2 k = objs w k \<or> (objs w2 k = None \<and> js_starts k p \<and> expired_key up cutoff k)"
      using frame frame2 by metis
    ultimately show ?thesis by blast
  qed
qed

text \<open>C25. With a listing whose cursors make progress, pruning ends and returns, and the bucket
  is then as before without the objects below the prefix that were uploaded more than the
  retention period ago.\<close>

theorem prune_expired_backups_total:
  assumes "bucket_laws sv objs" and "listing_law sv objs up"
    and "paging_law sv objs (bk_prefix cfg @ ''/'') rest rank" and "cleanup_available sv"
  shows "\<exists>n w'. prune_expired_backups sv cfg now w = Some (Inr n, w')
    \<and> objs w' = (\<lambda>k. if js_starts k (bk_prefix cfg @ ''/'')
                       \<and> expired_key up (now - retention_days cfg * 86400000) k then None else objs w k)"
proof -
  have cut: "prune_cutoff cfg now = now - retention_days cfg * 86400000" by (simp add: prune_cutoff_def)
  have rest: "rest None k" for k using assms(3) unfolding paging_law_def by blast
  from prune_loop_total [OF assms, of "prune_cutoff cfg now" None 0 w] obtain n w' where
    run: "prune_loop sv (bk_prefix cfg @ ''/'') (prune_cutoff cfg now) None 0 w = Some (Inr n, w')" and
    gone: "\<forall>k. js_starts k (bk_prefix cfg @ ''/'') \<longrightarrow> expired_key up (prune_cutoff cfg now) k \<longrightarrow> objs w' k = None" and
    frame: "\<forall>k. objs w' k = objs w k \<or> (objs w' k = None \<and> js_starts k (bk_prefix cfg @ ''/'')
      \<and> expired_key up (prune_cutoff cfg now) k)"
    using rest by blast
  have "objs w' = (\<lambda>k. if js_starts k (bk_prefix cfg @ ''/'')
                       \<and> expired_key up (now - retention_days cfg * 86400000) k then None else objs w k)"
    using gone frame unfolding cut by (intro ext) metis
  with run show ?thesis unfolding prune_expired_backups_def by blast
qed

lemma prune_loop_frame:
  assumes "bucket_laws sv objs" and "listing_law sv objs up"
    and "prune_loop sv p cutoff c deleted w = Some y"
  shows "objs (snd y) k = objs w k \<or> (objs (snd y) k = None \<and> js_starts k p \<and> expired_key up cutoff k)"
proof -
  define good where "good = (\<lambda>sv' p' (cutoff'::int) (c'::string option) (d'::nat) w' (y' :: nat outcome \<times> 'a).
    sv' = sv \<and> p' = p \<and> cutoff' = cutoff \<longrightarrow>
      objs (snd y') k = objs w' k \<or> (objs (snd y') k = None \<and> js_starts k p \<and> expired_key up cutoff k))"
  have "good sv p cutoff c deleted w y"
    using _ assms(3)
  proof (rule prune_loop.raw_induct [where P = good])
    fix f :: "('a, 'b) services \<Rightarrow> string \<Rightarrow> int \<Rightarrow> string option \<Rightarrow> nat \<Rightarrow> 'a \<Rightarrow> (nat outcome \<times> 'a) option"
      and sv' p' cutoff' c' d' w' y'
    assume IH: "\<And>sv p cutoff c d w y. f sv p cutoff c d w = Some y \<Longrightarrow> good sv p cutoff c d w y"
      and step: "(case prune_page sv' p' cutoff' c' w' of
        (Inl e, w') \<Rightarrow> Some (Inl e, w')
      | (Inr (n, None), w') \<Rightarrow> Some (Inr (d' + n), w')
      | (Inr (n, Some c), w') \<Rightarrow> f sv' p' cutoff' (Some c) (d' + n) w') = Some y'"
    show "good sv' p' cutoff' c' d' w' y'"
      unfolding good_def
    proof (intro impI, elim conjE)
      assume eq: "sv' = sv" "p' = p" "cutoff' = cutoff"
      obtain x w1 where page: "prune_page sv p cutoff c' w' = (x, w1)" by (cases "prune_page sv p cutoff c' w'")
      note frame = prune_page_frame [OF assms(1,2) page, of k]
      show "objs (snd y') k = objs w' k \<or> (objs (snd y') k = None \<and> js_starts k p \<and> expired_key up cutoff k)"
      proof (cases x)
        case (Inl e)
        then show ?thesis using step page frame eq by auto
      next
        case (Inr nc)
        obtain n nx where nc: "nc = (n, nx)" by (cases nc)
        show ?thesis
        proof (cases nx)
          case None
          then show ?thesis using step page frame eq Inr nc by auto
        next
          case (Some c2)
          then have "f sv p cutoff (Some c2) (d' + n) w1 = Some y'" using step page eq Inr nc by simp
          from IH [OF this] show ?thesis using frame unfolding good_def by auto
        qed
      qed
    qed
  qed
  then show ?thesis by (simp add: good_def)
qed

text \<open>Whatever calls fail, and whether or not the run ends well, pruning never removes an
  object outside the prefix, one without a valid upload time, or one still in its retention
  period, and it never adds one.\<close>

theorem prune_expired_backups_spares:
  assumes "bucket_laws sv objs" and "listing_law sv objs up"
    and "prune_expired_backups sv cfg now w = Some (r, w')" and "objs w' k \<noteq> objs w k"
  shows "objs w' k = None \<and> js_starts k (bk_prefix cfg @ ''/'')
    \<and> (\<exists>t. up k = Some t \<and> t + retention_days cfg * 86400000 < now)"
proof -
  have "objs w' k = None \<and> js_starts k (bk_prefix cfg @ ''/'') \<and> expired_key up (prune_cutoff cfg now) k"
    using prune_loop_frame [OF assms(1,2) assms(3) [unfolded prune_expired_backups_def], of k] assms(4) by simp
  then show ?thesis by (auto simp: expired_key_def prune_cutoff_def split: option.splits)
qed

end
