(* ===== verification/Backup_Memory.thy ===== *)
theory Backup_Memory
  imports Backup_Prune
begin

text \<open>
  A bucket in memory that obeys the laws assumed of R2, and runs of the backup on it: the
  hypotheses of the storage theorems hold together, and the code's branches are reached. A
  body that is \<open>lost\<close> is stored, but the answer of its put gets lost and the put throws.
\<close>

type_synonym memory = "(string \<times> r2_body) list"

definition memory_body :: "r2_body \<Rightarrow> bool" where
  "memory_body b \<longleftrightarrow> (case b of StreamBody (Inl e) \<Rightarrow> False | _ \<Rightarrow> True)"

definition body_size :: "r2_body \<Rightarrow> nat" where
  "body_size b = (case b of StreamBody (Inr bytes) \<Rightarrow> length bytes | _ \<Rightarrow> 0)"

definition memory_put :: "(r2_body \<Rightarrow> bool) \<Rightarrow> int \<Rightarrow> string \<Rightarrow> r2_body \<Rightarrow> r2_put_options \<Rightarrow> (memory, r2_put_result option) io" where
  "memory_put lost time k b opts w =
     (if memory_body b
      then (if lost b then Inl ''answer lost'' else Inr (Some \<lparr>put_key = k, put_version = String ''v'', put_size = Whole (int (body_size b)),
              put_etag = String ''e'', put_uploaded = DateObject (Some time), put_sha256 = None\<rparr>),
            (k, b) # List.filter (\<lambda>x. fst x \<noteq> k) w)
      else (Inl ''broken stream'', w))"

definition memory_list :: "(string \<Rightarrow> int option) \<Rightarrow> string \<Rightarrow> string option \<Rightarrow> nat \<Rightarrow> (memory, r2_page) io" where
  "memory_list up p c n w =
     (Inr \<lparr>pg_objects = List.map (\<lambda>x. \<lparr>ob_key = fst x, ob_uploaded = DateObject (up (fst x))\<rparr>)
             (List.filter (\<lambda>x. js_starts (fst x) p) w),
           pg_truncated = False, pg_cursor = None\<rparr>, w)"

definition memory_delete :: "string list \<Rightarrow> (memory, unit) io" where
  "memory_delete ks w = (Inr (), List.filter (\<lambda>x. fst x \<notin> set ks) w)"

definition memory_fetch :: "byte list list \<Rightarrow> request \<Rightarrow> (memory, byte list response) io" where
  "memory_fetch chunks q w =
     (Inr \<lparr>rs_status = 200, rs_content_length = Some (dec (length (concat chunks))), rs_content_encoding = None,
           rs_json = Inl ''not json'', rs_body = Some (chunks, None)\<rparr>, w)"

definition manifest_body :: "r2_body \<Rightarrow> bool" where
  "manifest_body b = (case b of JsonBody m \<Rightarrow> True | StreamBody _ \<Rightarrow> False)"

definition memory_services ::
  "(r2_body \<Rightarrow> bool) \<Rightarrow> byte list list \<Rightarrow> int \<Rightarrow> (string \<Rightarrow> int option) \<Rightarrow> (memory, byte option) services" where
  "memory_services lost chunks time up =
     \<lparr>sv_fetch = memory_fetch chunks, sv_cancel = (\<lambda>r. io_return ()), sv_put = memory_put lost time,
      sv_list = memory_list up, sv_delete = memory_delete, sv_runtime = example_runtime,
      sv_date_parse = (\<lambda>s. None), sv_fixed_length_error = ''length'', sv_first_error = (\<lambda>a b. a)\<rparr>"

lemma map_of_remove: "map_of (List.filter (\<lambda>x. fst x \<notin> A) w) = (\<lambda>k. if k \<in> A then None else map_of w k)"
  by (induction w) (auto simp: fun_eq_iff)

lemma map_of_remove_one: "map_of (List.filter (\<lambda>x. fst x \<noteq> k) w) = (map_of w)(k := None)"
  using map_of_remove [of "{k}" w] by (auto simp: fun_eq_iff)

lemma js_starts_refl: "js_starts s s"
  by (simp add: js_starts_append)

lemma memory_put_law: "put_law (memory_services lost chunks time up) map_of"
  unfolding put_law_def
proof (intro allI)
  fix k b opts w
  show "case sv_put (memory_services lost chunks time up) k b opts w of
     (Inr r, w') \<Rightarrow> r \<noteq> None \<and> (\<forall>e. b \<noteq> StreamBody (Inl e)) \<and> map_of w' = (map_of w)(k \<mapsto> b)
   | (Inl e, w') \<Rightarrow> map_of w' = map_of w \<or> ((\<forall>e. b \<noteq> StreamBody (Inl e)) \<and> map_of w' = (map_of w)(k \<mapsto> b))"
    by (auto simp: memory_services_def memory_put_def memory_body_def map_of_remove_one
        split: r2_body.splits sum.splits)
qed

lemma memory_list_law: "list_law (memory_services lost chunks time up) map_of"
proof -
  have "p \<in> fst ` {x \<in> set w. js_starts (fst x) p} \<longleftrightarrow> map_of w p \<noteq> None" for p :: string and w :: memory
    using js_starts_refl [of p] by (auto simp: map_of_eq_None_iff)
  then show ?thesis
    unfolding list_law_def by (auto simp: memory_services_def memory_list_def image_image)
qed

lemma memory_laws: "bucket_laws (memory_services lost chunks time up) map_of"
  unfolding bucket_laws_def
proof (intro conjI memory_put_law memory_list_law)
  show "delete_law (memory_services lost chunks time up) map_of"
    by (simp add: delete_law_def memory_services_def memory_delete_def map_of_remove)
qed (simp_all add: memory_services_def memory_fetch_def)

lemma memory_cleanup: "cleanup_available (memory_services lost chunks time up)"
  by (simp add: cleanup_available_def memory_services_def memory_list_def memory_delete_def)

lemma memory_listing: "listing_law (memory_services lost chunks time up) map_of up"
  by (auto simp: listing_law_def memory_services_def memory_list_def uploaded_time_def date_time_def
      map_of_eq_None_iff)

lemma memory_paging: "paging_law (memory_services lost chunks time up) map_of p (\<lambda>c k. True) (\<lambda>c. 0)"
  by (force simp: paging_law_def memory_services_def memory_list_def image_image map_of_eq_None_iff)

section \<open>Runs\<close>

abbreviation run_config :: backup_config where
  "run_config \<equiv> \<lparr>account_id = ''acct'', database_id = ''db'', database_name = ''lic'', bk_prefix = ''d1'',
     retention_days = 30\<rparr>"

abbreviation run_started :: export_started where
  "run_started \<equiv> \<lparr>bookmark = ''b1'', snapshot_requested_at = ''1970-01-01T00:00:00.000Z''\<rparr>"

abbreviation run_ready :: export_ready where
  "run_ready \<equiv> \<lparr>filename = ''x.sql'', signed_url = ''https://u''\<rparr>"

abbreviation run_chunks :: "byte list list" where
  "run_chunks \<equiv> [utf8 ''CREATE TABLE entitle'', utf8 ''ments(y);'']"

abbreviation run_key :: string where
  "run_key \<equiv> ''d1/1970-01-01T00-00-00-000Z/b1/x.sql''"

definition succeeded :: "'a outcome \<times> 'w \<Rightarrow> bool" where
  "succeeded rw = (case fst rw of Inr _ \<Rightarrow> True | Inl _ \<Rightarrow> False)"

definition failed_keeping :: "string \<Rightarrow> string \<Rightarrow> r2_body \<Rightarrow> 'a outcome \<times> memory \<Rightarrow> bool" where
  "failed_keeping e k b rw = (case rw of (Inr _, w) \<Rightarrow> False | (Inl e', w) \<Rightarrow> e' = e \<and> map_of w k = Some b)"

lemma run_ok:
  "succeeded (save_d1_export_to_r2 (memory_services (\<lambda>b. False) run_chunks 0 (\<lambda>k. None)) run_config run_started run_ready [])"
  by code_simp

lemma run_lost:
  "failed_keeping ''answer lost'' run_key (StreamBody (Inr (concat run_chunks)))
     (save_d1_export_to_r2 (memory_services manifest_body run_chunks 0 (\<lambda>k. None)) run_config run_started run_ready [])"
  by code_simp

lemma failed_keepingD:
  assumes "failed_keeping e k b (r, w)"
  shows "r = Inl e" and "map_of w k = Some b"
  using assms by (cases r; simp add: failed_keeping_def)+

lemma run_keeps:
  "backup_object_key run_config run_ready run_started \<noteq> Inr ''d1/other''"
  by code_simp

theorem save_d1_export_to_r2_stores_witness:
  "\<exists>sb w' m. save_d1_export_to_r2 (memory_services (\<lambda>b. False) run_chunks 0 (\<lambda>k. None)) run_config run_started run_ready [] = (Inr sb, w')
     \<and> map_of w' (sb_object_key sb) = Some (StreamBody (Inr (concat run_chunks)))
     \<and> map_of w' (sb_manifest_key sb) = Some (JsonBody m) \<and> ci_size_bytes (om_content_integrity m) = length (concat run_chunks)"
proof -
  define sv where "sv = memory_services (\<lambda>b. False) run_chunks 0 (\<lambda>k. None)"
  have laws: "bucket_laws sv map_of" unfolding sv_def by (rule memory_laws)
  have dec: "splits_decoding (rt_decode (sv_runtime sv))"
    by (simp add: sv_def memory_services_def example_runtime_def utf8_decode_splits)
  obtain r w' where run: "save_d1_export_to_r2 sv run_config run_started run_ready [] = (r, w')" by fastforce
  then obtain sb where sb: "r = Inr sb"
    using run_ok unfolding sv_def [symmetric] succeeded_def by (cases r) auto
  from save_d1_export_to_r2_stores [OF laws dec run [unfolded sb]] obtain resp w0 chunks m where
    "sv_fetch sv (Download (signed_url run_ready)) [] = (Inr resp, w0)" "rs_body resp = Some (chunks, None)"
    "map_of w' = (map_of [])(sb_object_key sb \<mapsto> StreamBody (Inr (concat chunks)), sb_manifest_key sb \<mapsto> JsonBody m)"
    "ci_size_bytes (om_content_integrity m) = length (concat chunks)" "sb_manifest_key sb = sb_object_key sb @ manifest_suffix" by blast
  moreover have "sb_object_key sb \<noteq> sb_object_key sb @ manifest_suffix" by (simp add: manifest_suffix_def)
  moreover have "chunks = run_chunks"
    using calculation(1,2) by (auto simp: sv_def memory_services_def memory_fetch_def)
  ultimately have "map_of w' (sb_object_key sb) = Some (StreamBody (Inr (concat run_chunks)))"
    "map_of w' (sb_manifest_key sb) = Some (JsonBody m)" "ci_size_bytes (om_content_integrity m) = length (concat run_chunks)"
    by simp_all
  with run [unfolded sb sv_def] show ?thesis by blast
qed

theorem failed_save_leaves_no_orphan_witness:
  "\<exists>w'. save_d1_export_to_r2 (memory_services manifest_body run_chunks 0 (\<lambda>k. None)) run_config run_started run_ready []
      = (Inl ''answer lost'', w') \<and> map_of w' (run_key @ manifest_suffix) \<noteq> None"
proof -
  define sv where "sv = memory_services manifest_body run_chunks 0 (\<lambda>k. None)"
  have laws: "bucket_laws sv map_of" unfolding sv_def by (rule memory_laws)
  have av: "cleanup_available sv" unfolding sv_def by (rule memory_cleanup)
  obtain r w' where run: "save_d1_export_to_r2 sv run_config run_started run_ready [] = (r, w')" by fastforce
  have kept: "failed_keeping ''answer lost'' run_key (StreamBody (Inr (concat run_chunks))) (r, w')"
    by (rule run_lost [folded sv_def, unfolded run])
  note k = failed_keepingD [OF kept]
  have "map_of [] run_key \<noteq> map_of w' run_key" unfolding k(2) by simp
  from failed_save_leaves_no_orphan [where objs = map_of and k = run_key and w = "[]" and w' = w', OF laws av run [unfolded k(1)] k(2) this]
  have "map_of w' (run_key @ manifest_suffix) \<noteq> None"
    by (auto simp: sv_def memory_services_def memory_put_def memory_body_def manifest_body_def)
  with run k show ?thesis unfolding sv_def by blast
qed

definition dump_body :: "r2_body \<Rightarrow> bool" where
  "dump_body b = (\<not> manifest_body b)"

theorem unanswered_put_leaves_orphan_witness:
  "\<exists>w'. save_d1_export_to_r2 (memory_services dump_body run_chunks 0 (\<lambda>k. None)) run_config run_started run_ready []
      = (Inl ''answer lost'', w')
    \<and> map_of w' run_key = Some (StreamBody (Inr (concat run_chunks))) \<and> map_of w' (run_key @ manifest_suffix) = None"
proof -
  define sv where "sv = memory_services dump_body run_chunks 0 (\<lambda>k. None)"
  define resp :: "byte list response" where
    "resp = \<lparr>rs_status = 200, rs_content_length = Some (dec (length (concat run_chunks))), rs_content_encoding = None,
       rs_json = Inl ''not json'', rs_body = Some (run_chunks, None)\<rparr>"
  have laws: "bucket_laws sv map_of" unfolding sv_def by (rule memory_laws)
  have at: "canonical_snapshot_requested_at (snapshot_requested_at run_started) = Inr ''1970-01-01T00:00:00.000Z''" by code_simp
  have f: "sv_fetch sv (Download (signed_url run_ready)) [] = (Inr resp, [])"
    by (simp add: sv_def memory_services_def memory_fetch_def resp_def)
  have resp: "rs_ok resp" "rs_body resp = Some (run_chunks, None)" by (simp_all add: resp_def rs_ok_def)
  have key: "backup_object_key run_config run_ready run_started = Inr run_key" by code_simp
  have len: "export_content_length sv resp [] = (Inr (length (concat run_chunks)), [])"
    unfolding sv_def resp_def by code_simp
  have str: "stream_readable sv (run_chunks, None) = Inr (concat run_chunks)" unfolding sv_def by code_simp
  have put: "fst (sv_put sv run_key (StreamBody (Inr (concat run_chunks))) opts []) = Inl ''answer lost''
      \<and> map_of (snd (sv_put sv run_key (StreamBody (Inr (concat run_chunks))) opts []))
        = (map_of [])(run_key \<mapsto> StreamBody (Inr (concat run_chunks)))" for opts
    by (simp add: sv_def memory_services_def memory_put_def memory_body_def dump_body_def manifest_body_def)
  show ?thesis
    unfolding sv_def [symmetric]
    by (rule unanswered_put_leaves_orphan [OF laws at f resp key len str put]) simp
qed

theorem save_keeps_manifested_backups_witness:
  "map_of (snd (save_d1_export_to_r2 (memory_services manifest_body run_chunks 0 (\<lambda>k. None)) run_config run_started run_ready
      [(''d1/other'', StreamBody (Inr []))])) ''d1/other'' \<noteq> None"
proof -
  define sv where "sv = memory_services manifest_body run_chunks 0 (\<lambda>k. None)"
  define w :: memory where "w = [(''d1/other'', StreamBody (Inr []))]"
  have laws: "bucket_laws sv map_of" unfolding sv_def by (rule memory_laws)
  obtain r w' where run: "save_d1_export_to_r2 sv run_config run_started run_ready w = (r, w')" by fastforce
  have "map_of w' ''d1/other'' \<noteq> None"
    by (rule save_keeps_manifested_backups [OF laws run]) (simp_all add: w_def run_keeps)
  with run show ?thesis unfolding sv_def w_def by simp
qed

abbreviation old_world :: memory where
  "old_world \<equiv> [(''d1/a'', StreamBody (Inr [])), (''d1/b'', StreamBody (Inr [])), (''x/a'', StreamBody (Inr []))]"

abbreviation old_times :: "string \<Rightarrow> int option" where
  "old_times \<equiv> (\<lambda>k. if k = ''d1/b'' then Some 2592000000 else Some 0)"

theorem prune_expired_backups_total_witness:
  "\<exists>n w'. prune_expired_backups (memory_services (\<lambda>b. False) [] 0 old_times) run_config 2592000001 old_world = Some (Inr n, w')
     \<and> map_of w' ''d1/a'' = None \<and> map_of w' ''d1/b'' \<noteq> None \<and> map_of w' ''x/a'' \<noteq> None"
proof -
  from prune_expired_backups_total [OF memory_laws memory_listing memory_paging memory_cleanup,
      of "\<lambda>b. False" "[]" 0 old_times run_config 2592000001 old_world]
  obtain n w' where run: "prune_expired_backups (memory_services (\<lambda>b. False) [] 0 old_times) run_config 2592000001 old_world = Some (Inr n, w')"
    and w': "map_of w' = (\<lambda>k. if js_starts k (bk_prefix run_config @ ''/'')
       \<and> expired_key old_times (2592000001 - retention_days run_config * 86400000) k then None else map_of old_world k)"
    by blast
  have "map_of w' ''d1/a'' = None \<and> map_of w' ''d1/b'' \<noteq> None \<and> map_of w' ''x/a'' \<noteq> None"
    unfolding w' by (simp add: expired_key_def)
  with run show ?thesis by blast
qed

theorem prune_expired_backups_spares_witness:
  "\<exists>r w'. prune_expired_backups (memory_services (\<lambda>b. False) [] 0 old_times) run_config 2592000001 old_world = Some (r, w')
     \<and> map_of w' ''d1/a'' \<noteq> map_of old_world ''d1/a''
     \<and> js_starts ''d1/a'' (bk_prefix run_config @ ''/'')
     \<and> (\<exists>t. old_times ''d1/a'' = Some t \<and> t + retention_days run_config * 86400000 < 2592000001)"
proof -
  define w' :: memory where "w' = [(''d1/b'', StreamBody (Inr [])), (''x/a'', StreamBody (Inr []))]"
  have run: "prune_expired_backups (memory_services (\<lambda>b. False) [] 0 old_times) run_config 2592000001 old_world = Some (Inr 1, w')"
    unfolding w'_def prune_expired_backups_def by (subst prune_loop.simps) code_simp
  have "map_of w' ''d1/a'' \<noteq> map_of old_world ''d1/a''" by (simp add: w'_def)
  from prune_expired_backups_spares [where objs = map_of and up = old_times and k = "''d1/a''", OF memory_laws memory_listing run this]
  show ?thesis using run \<open>map_of w' ''d1/a'' \<noteq> map_of old_world ''d1/a''\<close> by blast
qed

end
