(* ===== verification/Backup_Service.thy ===== *)
theory Backup_Service
  imports Backup_Store
begin

text \<open>
  The entry points of the backup Worker: \<open>http.ts\<close>, \<open>scheduled.ts\<close> and the handlers of
  \<open>index.ts\<close>. The Workflow binding is a service like R2. \<open>JSON.parse\<close> of the decoded body
  is an argument, and so are the clock and the random identifier of a request.
\<close>

section \<open>Requests\<close>

record http_request =
  rq_method :: string
  rq_pathname :: string
  rq_authorization :: "string option"
  rq_content_length :: "string option"
  rq_content_type :: "string option"
  rq_body :: "(byte list list \<times> string option) option"

record http_response =
  hr_status :: nat
  hr_body :: jsval

record trigger_params =
  tp_trigger :: string
  tp_reason :: "string option"

record ('w) workflow_binding =
  wf_create :: "string \<Rightarrow> trigger_params \<Rightarrow> ('w, string) io"
  wf_get :: "string \<Rightarrow> ('w, string) io"
  wf_status :: "string \<Rightarrow> ('w, jsval) io"

record backup_http_env =
  he_config :: backup_env
  he_trigger_token :: "string option"

definition json_response :: "(string \<times> jsval) list \<Rightarrow> nat \<Rightarrow> http_response" where
  "json_response v status = \<lparr>hr_status = status, hr_body = Object v\<rparr>"

definition max_manual_body_bytes :: nat where
  "max_manual_body_bytes = 1024"

definition line_end :: "char \<Rightarrow> bool" where
  "line_end c \<longleftrightarrow> code_unit c = 10 \<or> code_unit c = 13"

text \<open>
  \<open>/^Bearer\s+(.+)$/i\<close>. The greedy \<open>\s+\<close> gives one character back when nothing
  is left for the group.
\<close>

definition bearer_token :: "string option \<Rightarrow> string option" where
  "bearer_token header = (case header of None \<Rightarrow> None
     | Some h \<Rightarrow>
         if js_lower (take 6 h) \<noteq> ''bearer'' then None
         else let rest = drop 6 h; ws = takeWhile js_space rest; tok = dropWhile js_space rest in
           if ws = [] then None
           else if tok \<noteq> [] then (if list_ex line_end tok then None else Some tok)
           else if length ws < 2 \<or> line_end (last ws) then None
           else Some [last ws])"

definition require_manual_trigger ::
  "(byte list \<Rightarrow> byte list) \<Rightarrow> http_request \<Rightarrow> backup_http_env \<Rightarrow> http_response option" where
  "require_manual_trigger sha256 rq env =
     (case he_trigger_token env of
        None \<Rightarrow> Some (json_response [(''ok'', Boolean False), (''code'', String ''backup_trigger_not_configured'')] 401)
      | Some secret \<Rightarrow>
          if secret = []
          then Some (json_response [(''ok'', Boolean False), (''code'', String ''backup_trigger_not_configured'')] 401)
          else (case bearer_token (rq_authorization rq) of
              None \<Rightarrow> Some (json_response [(''ok'', Boolean False), (''code'', String ''invalid_backup_trigger_token'')] 403)
            | Some token \<Rightarrow>
                if timing_safe_token_equal sha256 token secret then None
                else Some (json_response [(''ok'', Boolean False), (''code'', String ''invalid_backup_trigger_token'')] 403)))"

definition workflow_instance_id :: "string \<Rightarrow> jsnum \<Rightarrow> string \<Rightarrow> string outcome" where
  "workflow_instance_id kind now uuid = (case date_of now of
     None \<Rightarrow> Inl ''Invalid time value''
   | Some ms \<Rightarrow> rbind (to_iso_string ms) (\<lambda>s.
       Inr (kind @ ''-'' @ take 17 (List.filter js_alnum s) @ ''-'' @ take 8 uuid)))"

section \<open>The request body\<close>

definition read_chunk :: "byte list \<Rightarrow> byte list \<Rightarrow> byte list outcome" where
  "read_chunk bytes chunk =
     (if max_manual_body_bytes < length bytes + length chunk then Inl ''request_too_large''
      else Inr (bytes @ chunk))"

definition read_bounded_body :: "http_request \<Rightarrow> byte list outcome" where
  "read_bounded_body rq =
     (let n = js_number (case rq_content_length rq of None \<Rightarrow> [] | Some h \<Rightarrow> h) in
      if is_finite n \<and> num_greater n (int max_manual_body_bytes) then Inl ''request_too_large''
      else (case rq_body rq of
          None \<Rightarrow> Inr []
        | Some (chunks, failure) \<Rightarrow> rbind (rfold read_chunk [] chunks) (\<lambda>bytes.
            case failure of Some e \<Rightarrow> Inl e | None \<Rightarrow> Inr bytes)))"

definition manual_params :: "(byte list \<Rightarrow> jsval outcome) \<Rightarrow> http_request \<Rightarrow> trigger_params outcome" where
  "manual_params parse rq =
     (if (case rq_content_type rq of None \<Rightarrow> True | Some t \<Rightarrow> \<not> js_includes t ''application/json'')
      then Inr \<lparr>tp_trigger = ''manual'', tp_reason = None\<rparr>
      else rbind (read_bounded_body rq) (\<lambda>body. rbind (parse body) (\<lambda>v.
        if \<not> is_object v then Inr \<lparr>tp_trigger = ''manual'', tp_reason = None\<rparr>
        else Inr \<lparr>tp_trigger = ''manual'', tp_reason = (case field ''reason'' v of
                 String s \<Rightarrow> Some (take 256 s) | _ \<Rightarrow> None)\<rparr>)))"

section \<open>The handlers\<close>

definition health_response :: "backup_http_env \<Rightarrow> http_response" where
  "health_response env = (case backup_config_from_env (he_config env) of
     Inr cfg \<Rightarrow> json_response [(''ok'', Boolean True), (''code'', String ''backup_ready''),
       (''database_name'', String (database_name cfg)), (''backup_prefix'', String (bk_prefix cfg)),
       (''retention_days'', Number (Whole (retention_days cfg)))] 200
   | Inl e \<Rightarrow> json_response [(''ok'', Boolean False), (''code'', String ''backup_misconfigured''), (''detail'', String e)] 500)"

definition status_char :: "char \<Rightarrow> bool" where
  "status_char c \<longleftrightarrow> segment_char c \<or> c = CHR '':''"

definition status_prefix :: string where
  "status_prefix = ''/backup/status/''"

text \<open>\<open>/^\/backup\/status\/([A-Za-z0-9_.:-]+)$/\<close>.\<close>

definition status_match :: "string \<Rightarrow> string option" where
  "status_match path =
     (let iid = drop (length status_prefix) path in
      if js_starts path status_prefix \<and> iid \<noteq> [] \<and> list_all status_char iid then Some iid else None)"

definition handle_run ::
  "'w workflow_binding \<Rightarrow> (byte list \<Rightarrow> jsval outcome) \<Rightarrow> int \<Rightarrow> string \<Rightarrow> http_request \<Rightarrow> ('w, http_response) io" where
  "handle_run flow parse now uuid rq =
     (case manual_params parse rq of
        Inl e \<Rightarrow> io_return (json_response [(''ok'', Boolean False), (''code'', String e)] 400)
      | Inr params \<Rightarrow>
          io_bind (io_lift (workflow_instance_id ''manual'' (Whole now) uuid)) (\<lambda>iid.
          io_bind (wf_create flow iid params) (\<lambda>inst.
          io_bind (wf_status flow inst) (\<lambda>st.
            io_return (json_response [(''ok'', Boolean True), (''code'', String ''backup_started''),
              (''id'', String inst), (''details'', st)] 202)))))"

definition handle_status :: "'w workflow_binding \<Rightarrow> string \<Rightarrow> ('w, http_response) io" where
  "handle_status flow iid =
     io_catch
       (io_bind (wf_get flow iid) (\<lambda>inst. io_bind (wf_status flow inst) (\<lambda>st.
          io_return (json_response [(''ok'', Boolean True), (''code'', String ''backup_status''),
            (''id'', String iid), (''details'', st)] 200))))
       (\<lambda>e. io_return (json_response [(''ok'', Boolean False), (''code'', String ''backup_instance_not_found''),
            (''detail'', String e)] 404))"

definition handle_backup_request ::
  "'w workflow_binding \<Rightarrow> (byte list \<Rightarrow> byte list) \<Rightarrow> (byte list \<Rightarrow> jsval outcome) \<Rightarrow> int \<Rightarrow> string
    \<Rightarrow> backup_http_env \<Rightarrow> http_request \<Rightarrow> ('w, http_response) io" where
  "handle_backup_request flow sha256 parse now uuid env rq =
     (if rq_method rq = ''GET'' \<and> rq_pathname rq = ''/health'' then io_return (health_response env)
      else if rq_method rq = ''POST'' \<and> rq_pathname rq = ''/backup/run''
      then (case require_manual_trigger sha256 rq env of
          Some denied \<Rightarrow> io_return denied
        | None \<Rightarrow> handle_run flow parse now uuid rq)
      else (case (if rq_method rq = ''GET'' then status_match (rq_pathname rq) else None) of
          Some iid \<Rightarrow> (case require_manual_trigger sha256 rq env of
              Some denied \<Rightarrow> io_return denied
            | None \<Rightarrow> handle_status flow iid)
        | None \<Rightarrow> io_return (json_response [(''ok'', Boolean False), (''code'', String ''not_found'')] 404)))"

text \<open>The \<open>fetch\<close> entry point of \<open>index.ts\<close>: whatever is thrown becomes one constant answer.\<close>

definition worker_fetch ::
  "'w workflow_binding \<Rightarrow> (byte list \<Rightarrow> byte list) \<Rightarrow> (byte list \<Rightarrow> jsval outcome) \<Rightarrow> int \<Rightarrow> string
    \<Rightarrow> backup_http_env \<Rightarrow> http_request \<Rightarrow> ('w, http_response) io" where
  "worker_fetch flow sha256 parse now uuid env rq =
     io_catch (handle_backup_request flow sha256 parse now uuid env rq)
       (\<lambda>e. io_return (json_response [(''ok'', Boolean False), (''code'', String ''internal_error'')] 500))"

definition start_scheduled_backup_workflow ::
  "'w workflow_binding \<Rightarrow> int \<Rightarrow> string \<Rightarrow> string \<Rightarrow> jsnum \<Rightarrow> ('w, string) io" where
  "start_scheduled_backup_workflow flow now uuid cron scheduled_time =
     (let time = (if is_finite scheduled_time then scheduled_time else Whole now) in
      io_bind (io_lift (workflow_instance_id ''scheduled'' time uuid)) (\<lambda>iid.
        wf_create flow iid \<lparr>tp_trigger = ''scheduled'', tp_reason = Some (''cron:'' @ cron)\<rparr>))"

section \<open>What the handlers guarantee\<close>

lemma read_chunk_fold:
  "length bytes \<le> max_manual_body_bytes \<Longrightarrow>
     rfold read_chunk bytes chunks =
       (if length bytes + length (concat chunks) \<le> max_manual_body_bytes then Inr (bytes @ concat chunks)
        else Inl ''request_too_large'')"
proof (induction chunks arbitrary: bytes)
  case Nil
  then show ?case by simp
next
  case (Cons c cs)
  then show ?case by (auto simp: read_chunk_def not_less not_le add.assoc)
qed

text \<open>The body reader returns the whole body, however it is cut into chunks, exactly when
  the declared length does not exceed 1024, the body has at most 1024 bytes and reading it does
  not fail; it never holds more than 1024 bytes.\<close>

theorem read_bounded_body_spec:
  "read_bounded_body rq = Inr bytes \<longleftrightarrow>
     \<not> (is_finite (js_number (case rq_content_length rq of None \<Rightarrow> [] | Some h \<Rightarrow> h))
        \<and> num_greater (js_number (case rq_content_length rq of None \<Rightarrow> [] | Some h \<Rightarrow> h)) 1024)
     \<and> length bytes \<le> 1024
     \<and> (case rq_body rq of None \<Rightarrow> bytes = [] | Some (chunks, failure) \<Rightarrow> failure = None \<and> bytes = concat chunks)"
proof (cases "rq_body rq")
  case None
  then show ?thesis by (auto simp: read_bounded_body_def max_manual_body_bytes_def Let_def)
next
  case (Some cf)
  obtain chunks failure where cf: "cf = (chunks, failure)" by (cases cf)
  have "rfold read_chunk [] chunks = (if length (concat chunks) \<le> 1024 then Inr (concat chunks) else Inl ''request_too_large'')"
    using read_chunk_fold [of "[]" chunks] by (simp add: max_manual_body_bytes_def)
  then show ?thesis using Some cf
    by (cases failure) (auto simp: read_bounded_body_def max_manual_body_bytes_def Let_def)
qed

text \<open>Without the trigger token the Workflow binding is never called: if a request changes
  the world or is answered with 202, then a token is configured, it is not empty, and the
  request bears it as its bearer token.\<close>

theorem backup_request_authorized:
  assumes "worker_fetch flow sha256 parse now uuid env rq w = (r, w')"
    and "w' \<noteq> w \<or> (\<exists>resp. r = Inr resp \<and> hr_status resp = 202)"
  shows "\<exists>secret token. he_trigger_token env = Some secret \<and> secret \<noteq> []
    \<and> bearer_token (rq_authorization rq) = Some token \<and> timing_safe_token_equal sha256 token secret"
proof -
  have denied: "hr_status d \<noteq> 202" if "require_manual_trigger sha256 rq env = Some d" for d
    using that by (auto simp: require_manual_trigger_def json_response_def split: option.splits if_splits)
  have granted: ?thesis if "require_manual_trigger sha256 rq env = None"
    using that by (auto simp: require_manual_trigger_def split: option.splits if_splits)
  have health: "hr_status (health_response env) \<noteq> 202"
    by (simp add: health_response_def json_response_def split: sum.split)
  show ?thesis
  proof (cases "require_manual_trigger sha256 rq env")
    case None
    then show ?thesis by (rule granted)
  next
    case (Some d)
    then have "\<exists>resp. handle_backup_request flow sha256 parse now uuid env rq = io_return resp \<and> hr_status resp \<noteq> 202"
      using health denied [OF Some] by (auto simp: handle_backup_request_def json_response_def split: option.split)
    then have "w' = w \<and> (\<exists>resp. r = Inr resp \<and> hr_status resp \<noteq> 202)"
      using assms(1) by (auto simp: worker_fetch_def io_catch_def)
    with assms(2) show ?thesis by auto
  qed
qed

lemma status_match_id: "iid \<noteq> [] \<Longrightarrow> list_all status_char iid \<Longrightarrow> status_match (status_prefix @ iid) = Some iid"
  by (auto simp: status_match_def js_starts_append)

text \<open>The identifier of every Workflow the service starts, by hand or by schedule, is one
  the status route accepts and looks up unchanged.\<close>

theorem workflow_instance_id_has_status:
  assumes "workflow_instance_id kind now uuid = Inr iid"
    and "list_all status_char kind" and "list_all status_char uuid"
  shows "status_match (''/backup/status/'' @ iid) = Some iid"
proof -
  obtain s where iid: "iid = kind @ ''-'' @ take 17 (List.filter js_alnum s) @ ''-'' @ take 8 uuid"
    using assms(1) by (auto simp: workflow_instance_id_def rbind_Inr_iff split: option.splits)
  have "list_all status_char (take 17 (List.filter js_alnum s))"
    by (auto simp: list_all_iff status_char_def segment_char_def dest!: in_set_takeD)
  moreover have "list_all status_char (take 8 uuid)" using assms(3) by (auto simp: list_all_iff dest!: in_set_takeD)
  moreover have "status_char (CHR ''-'')" by (simp add: status_char_def segment_char_def)
  ultimately have "list_all status_char iid" "iid \<noteq> []" using assms(2) by (simp_all add: iid)
  then show ?thesis using status_match_id unfolding status_prefix_def by blast
qed

theorem workflow_instance_id_has_status_witness:
  "status_match (''/backup/status/'' @ ''manual-19700101T00000000-0a1b2c3d'') = Some ''manual-19700101T00000000-0a1b2c3d''"
proof (rule workflow_instance_id_has_status)
  show "workflow_instance_id ''manual'' (Whole 0) ''0a1b2c3d-1111'' = Inr ''manual-19700101T00000000-0a1b2c3d''"
    by code_simp
qed (code_simp, code_simp)

text \<open>A binding that counts the Workflows it creates.\<close>

definition counting_binding :: "nat workflow_binding" where
  "counting_binding = \<lparr>wf_create = (\<lambda>iid params w. (Inr iid, w + 1)), wf_get = (\<lambda>iid. io_return iid),
     wf_status = (\<lambda>iid. io_return Null)\<rparr>"

theorem backup_request_authorized_witness:
  "\<exists>secret token. he_trigger_token \<lparr>he_config = \<lparr>env_account_id = None, env_database_id = None, env_database_name = None,
       env_backup_prefix = None, env_retention_days = None\<rparr>, he_trigger_token = Some ''s3''\<rparr> = Some secret \<and> secret \<noteq> []
    \<and> bearer_token (Some ''bearer  s3'') = Some token
    \<and> timing_safe_token_equal (\<lambda>bs. take 32 (bs @ replicate 32 0)) token secret"
proof -
  let ?env = "\<lparr>he_config = \<lparr>env_account_id = None, env_database_id = None, env_database_name = None,
       env_backup_prefix = None, env_retention_days = None\<rparr>, he_trigger_token = Some ''s3''\<rparr>"
  let ?rq = "\<lparr>rq_method = ''POST'', rq_pathname = ''/backup/run'', rq_authorization = Some ''bearer  s3'',
     rq_content_length = None, rq_content_type = None, rq_body = None\<rparr>"
  have "snd (worker_fetch counting_binding (\<lambda>bs. take 32 (bs @ replicate 32 0)) (\<lambda>b. Inr Null) 0 ''0a1b2c3d'' ?env ?rq 0) = 1"
    by code_simp
  then obtain r where run: "worker_fetch counting_binding (\<lambda>bs. take 32 (bs @ replicate 32 0)) (\<lambda>b. Inr Null) 0 ''0a1b2c3d'' ?env ?rq 0 = (r, 1)"
    by (metis prod.collapse)
  have "(1::nat) \<noteq> 0 \<or> (\<exists>resp. r = Inr resp \<and> hr_status resp = 202)" by simp
  from backup_request_authorized [OF run this] show ?thesis by simp
qed

end
