(* ===== verification/Admin_Validation.thy ===== *)
theory Admin_Validation
  imports JS_Values Backup_Core
begin

text \<open>
  The request validators of the licence administration Worker (\<open>services/cloudflare-license-admin\<close>):
  \<open>policy_validation.ts\<close>, \<open>groups/entitlements/validation.ts\<close> and the body of a create in
  \<open>groups/entitlements/create-enforcement.ts\<close>. A validator reads parsed JSON and returns the
  record it stands for, or nothing. A field a patch does not mention is \<open>None\<close>; SQL's NULL is
  \<open>None\<close> under a \<open>Some\<close>.
\<close>

section \<open>Field readers\<close>

definition text_breaks :: "string \<Rightarrow> bool" where
  "text_breaks s \<longleftrightarrow> list_ex (\<lambda>c. code_unit c \<in> {0, 10, 13}) s"

definition safe_text :: "nat \<Rightarrow> string \<Rightarrow> bool" where
  "safe_text n s \<longleftrightarrow> s \<noteq> [] \<and> length s \<le> n \<and> \<not> text_breaks s \<and> CHR ''='' \<notin> set s"

definition safe_string :: "jsval \<Rightarrow> nat \<Rightarrow> string option" where
  "safe_string v n = (case v of
     String s \<Rightarrow> if s = [] \<or> n < length s then None
       else if text_breaks s \<or> CHR ''='' \<in> set s then None else Some s
   | _ \<Rightarrow> None)"

definition max_notes_size :: nat where
  "max_notes_size = 1000"

definition safe_notes :: "jsval \<Rightarrow> string option" where
  "safe_notes v = (case v of
     String s \<Rightarrow> if max_notes_size < length s then None else if text_breaks s then None else Some s
   | _ \<Rightarrow> None)"

text \<open>\<open>boundedInt\<close>: the number, or \<open>None\<close> for the code's \<open>undefined\<close>.\<close>

definition bounded_int :: "jsval \<Rightarrow> int \<Rightarrow> int \<Rightarrow> int option" where
  "bounded_int v lo hi = (case v of
     Number (Whole n) \<Rightarrow> if n < lo \<or> hi < n then None else Some n
   | _ \<Rightarrow> None)"

text \<open>\<open>nullableBoundedInt\<close>: \<open>None\<close> is \<open>INVALID\<close>, \<open>Some None\<close> is \<open>null\<close>.\<close>

definition nullable_bounded_int :: "jsval \<Rightarrow> int \<Rightarrow> int \<Rightarrow> int option option" where
  "nullable_bounded_int v lo hi = (if v = Null then Some None else map_option Some (bounded_int v lo hi))"

definition or_default :: "jsval \<Rightarrow> jsval \<Rightarrow> jsval" where
  "or_default v d = (if v = Undefined \<or> v = Null then d else v)"

definition one_of :: "string list \<Rightarrow> jsval \<Rightarrow> string option" where
  "one_of xs v = (case v of String s \<Rightarrow> if s \<in> set xs then Some s else None | _ \<Rightarrow> None)"

definition names_only :: "jsval \<Rightarrow> string list \<Rightarrow> bool" where
  "names_only v allowed \<longleftrightarrow> list_all (\<lambda>k. k \<in> set allowed) (keys_of v)"

definition is_array :: "jsval \<Rightarrow> bool" where
  "is_array v \<longleftrightarrow> (case v of Array _ \<Rightarrow> True | _ \<Rightarrow> False)"

section \<open>Policies\<close>

definition max_project_size :: nat where
  "max_project_size = 127"

definition max_name_size :: nat where
  "max_name_size = 127"

definition max_duration_seconds :: int where
  "max_duration_seconds = 3153600000"

definition expiry_strategies :: "string list" where
  "expiry_strategies = [''fixed_window'', ''non_expiring'']"

definition trial_bases :: "string list" where
  "trial_bases = [''from_issue'', ''from_first_activation'', ''from_first_use'']"

definition policy_types :: "string list" where
  "policy_types = [''trial'', ''node_locked'', ''subscription'']"

definition policy_patchable_fields :: "string list" where
  "policy_patchable_fields = [''valid_from_offset_sec'', ''duration_sec'', ''max_active_devices'',
     ''expiry_strategy'', ''trial_expiration_basis'', ''trial_duration_sec'', ''trial_one_per_device'', ''notes'']"

definition policy_create_fields :: "string list" where
  "policy_create_fields = [''project'', ''name'', ''type''] @ policy_patchable_fields"

record policy_columns =
  pc_valid_from_offset_sec :: "int option"
  pc_duration_sec :: "int option"
  pc_max_active_devices :: int
  pc_expiry_strategy :: string
  pc_trial_expiration_basis :: string
  pc_trial_duration_sec :: int
  pc_trial_one_per_device :: int

record policy_input =
  pi_project :: string
  pi_name :: string
  pi_type :: string
  pi_notes :: string
  pi_columns :: policy_columns

record policy_patch =
  pp_valid_from_offset_sec :: "int option option"
  pp_duration_sec :: "int option option"
  pp_max_active_devices :: "int option"
  pp_expiry_strategy :: "string option"
  pp_trial_expiration_basis :: "string option"
  pp_trial_duration_sec :: "int option"
  pp_trial_one_per_device :: "int option"
  pp_notes :: "string option"

definition obind :: "'a option \<Rightarrow> ('a \<Rightarrow> 'b option) \<Rightarrow> 'b option" where
  "obind x f = (case x of None \<Rightarrow> None | Some y \<Rightarrow> f y)"

lemma obind_Some_iff [outcome_simps]: "obind x f = Some y \<longleftrightarrow> (\<exists>z. x = Some z \<and> f z = Some y)"
  by (cases x) (auto simp: obind_def)

lemma obind_simps [simp]: "obind None f = None" "obind (Some x) f = f x"
  by (simp_all add: obind_def)

definition read_policy_columns :: "jsval \<Rightarrow> policy_columns option" where
  "read_policy_columns v =
     obind (if field ''valid_from_offset_sec'' v = Undefined then Some None
            else nullable_bounded_int (field ''valid_from_offset_sec'' v) (- max_duration_seconds) max_duration_seconds) (\<lambda>offset.
     obind (if field ''duration_sec'' v = Undefined then Some None
            else nullable_bounded_int (field ''duration_sec'' v) 0 max_duration_seconds) (\<lambda>duration.
     obind (bounded_int (or_default (field ''max_active_devices'' v) (Number (Whole 1))) 0 1000000) (\<lambda>devices.
     obind (if field ''expiry_strategy'' v = Undefined then Some ''fixed_window''
            else one_of expiry_strategies (field ''expiry_strategy'' v)) (\<lambda>strategy.
     obind (if field ''trial_expiration_basis'' v = Undefined then Some ''from_issue''
            else one_of trial_bases (field ''trial_expiration_basis'' v)) (\<lambda>basis.
     obind (bounded_int (or_default (field ''trial_duration_sec'' v) (Number (Whole 0))) 0 max_duration_seconds) (\<lambda>trial.
     obind (bounded_int (or_default (field ''trial_one_per_device'' v) (Number (Whole 0))) 0 1) (\<lambda>once.
       Some \<lparr>pc_valid_from_offset_sec = offset, pc_duration_sec = duration, pc_max_active_devices = devices,
         pc_expiry_strategy = strategy, pc_trial_expiration_basis = basis, pc_trial_duration_sec = trial,
         pc_trial_one_per_device = once\<rparr>)))))))"

definition validate_policy_input :: "jsval \<Rightarrow> policy_input option" where
  "validate_policy_input v =
     (if \<not> is_object v then None
      else if \<not> names_only v policy_create_fields then None
      else obind (safe_string (field ''project'' v) max_project_size) (\<lambda>project.
           obind (safe_string (field ''name'' v) max_name_size) (\<lambda>name.
           obind (one_of policy_types (field ''type'' v)) (\<lambda>type.
           obind (if field ''notes'' v = Undefined then Some [] else safe_notes (field ''notes'' v)) (\<lambda>notes.
           obind (read_policy_columns v) (\<lambda>columns.
             Some \<lparr>pi_project = project, pi_name = name, pi_type = type, pi_notes = notes, pi_columns = columns\<rparr>))))))"

text \<open>A field of a patch: absent, or read by \<open>r\<close>, which may refuse the whole body.\<close>

definition patch_field :: "string \<Rightarrow> jsval \<Rightarrow> (jsval \<Rightarrow> 'a option) \<Rightarrow> 'a option option" where
  "patch_field k v r = (if field k v = Undefined then Some None else map_option Some (r (field k v)))"

definition validate_policy_patch :: "jsval \<Rightarrow> policy_patch option" where
  "validate_policy_patch v =
     (if \<not> is_object v then None
      else if \<not> names_only v policy_patchable_fields then None
      else obind (patch_field ''valid_from_offset_sec'' v (\<lambda>x. nullable_bounded_int x (- max_duration_seconds) max_duration_seconds)) (\<lambda>offset.
           obind (patch_field ''duration_sec'' v (\<lambda>x. nullable_bounded_int x 0 max_duration_seconds)) (\<lambda>duration.
           obind (patch_field ''max_active_devices'' v (\<lambda>x. bounded_int x 0 1000000)) (\<lambda>devices.
           obind (patch_field ''trial_duration_sec'' v (\<lambda>x. bounded_int x 0 max_duration_seconds)) (\<lambda>trial.
           obind (patch_field ''trial_one_per_device'' v (\<lambda>x. bounded_int x 0 1)) (\<lambda>once.
           obind (patch_field ''expiry_strategy'' v (one_of expiry_strategies)) (\<lambda>strategy.
           obind (patch_field ''trial_expiration_basis'' v (one_of trial_bases)) (\<lambda>basis.
           obind (patch_field ''notes'' v safe_notes) (\<lambda>notes.
             Some \<lparr>pp_valid_from_offset_sec = offset, pp_duration_sec = duration, pp_max_active_devices = devices,
               pp_expiry_strategy = strategy, pp_trial_expiration_basis = basis, pp_trial_duration_sec = trial,
               pp_trial_one_per_device = once, pp_notes = notes\<rparr>)))))))))"

section \<open>Entitlements\<close>

text \<open>
  \<open>String(v)\<close>. The text of a number that is not a small whole one is the argument \<open>fmt\<close>.
\<close>

fun js_text :: "(jsnum \<Rightarrow> string) \<Rightarrow> jsval \<Rightarrow> string" and js_items :: "(jsnum \<Rightarrow> string) \<Rightarrow> jsval list \<Rightarrow> string list" where
  "js_text fmt Undefined = ''undefined''"
| "js_text fmt Null = ''null''"
| "js_text fmt (Boolean b) = (if b then ''true'' else ''false'')"
| "js_text fmt (Number n) = (case n of
     Whole i \<Rightarrow> if \<bar>i\<bar> < 10 ^ 21 then (if i < 0 then ''-'' else []) @ dec (nat \<bar>i\<bar>) else fmt n
   | NaN \<Rightarrow> ''NaN''
   | Infinite p \<Rightarrow> (if p then ''Infinity'' else ''-Infinity'')
   | _ \<Rightarrow> fmt n)"
| "js_text fmt (String s) = s"
| "js_text fmt (Array vs) = js_join '','' (js_items fmt vs)"
| "js_text fmt (Object ps) = ''[object Object]''"
| "js_items fmt [] = []"
| "js_items fmt (v # vs) = (if v = Undefined \<or> v = Null then [] else js_text fmt v) # js_items fmt vs"

definition max_feature_size :: nat where
  "max_feature_size = 15"

definition max_device_limit :: int where
  "max_device_limit = 1000000"

definition hex64 :: "string \<Rightarrow> bool" where
  "hex64 s \<longleftrightarrow> length s = 64 \<and> list_all js_hex s"

definition nullable_safe_string :: "jsval \<Rightarrow> nat \<Rightarrow> string option option" where
  "nullable_safe_string v n = (if v = Undefined then None
     else if v = Null \<or> v = String [] then Some None else Some (safe_string v n))"

definition owner_id :: "jsval \<Rightarrow> string option" where
  "owner_id v = (case safe_string v 128 of None \<Rightarrow> None
     | Some s \<Rightarrow> if js_trim s = [] \<or> js_trim s \<noteq> s then None else Some s)"

definition device_limit :: "jsval \<Rightarrow> int option" where
  "device_limit v = bounded_int v 1 max_device_limit"

definition nullable_epoch :: "jsval \<Rightarrow> int option option" where
  "nullable_epoch v = (case v of
     Null \<Rightarrow> Some None
   | Number (Whole n) \<Rightarrow> if n < 0 then None else Some (Some n)
   | _ \<Rightarrow> None)"

definition entitlement_input_fields :: "string list" where
  "entitlement_input_fields = [''project'', ''feature'', ''license_fingerprint'', ''status'', ''valid_from'',
     ''valid_until'', ''notes'', ''customer_id'', ''license_id'']"

definition entitlement_create_fields :: "string list" where
  "entitlement_create_fields = entitlement_input_fields @ [''policy_id'', ''max_active_devices'']"

definition entitlement_policy_create_fields :: "string list" where
  "entitlement_policy_create_fields = [''project'', ''feature'', ''license_fingerprint'', ''valid_from'',
     ''valid_until'', ''notes'', ''customer_id'', ''license_id'', ''policy_id'']"

definition entitlement_patch_fields :: "string list" where
  "entitlement_patch_fields = [''valid_from'', ''valid_until'', ''notes'', ''customer_id'', ''license_id'',
     ''max_active_devices'', ''expected_customer_id'', ''expected_revocation_seq'']"

definition object_names_only :: "jsval \<Rightarrow> string list \<Rightarrow> bool" where
  "object_names_only v allowed \<longleftrightarrow> is_object v \<and> \<not> is_array v \<and> names_only v allowed"

text \<open>The status is kept as it came: any value whose text is a status passes.\<close>

record entitlement_input =
  ei_project :: string
  ei_feature :: string
  ei_license_fingerprint :: string
  ei_status :: jsval
  ei_valid_from :: "int option"
  ei_valid_until :: "int option"
  ei_notes :: string
  ei_customer_id :: string
  ei_license_id :: "string option"

record entitlement_create =
  ec_input :: entitlement_input
  ec_max_active_devices :: "int option"

record entitlement_patch =
  ep_max_active_devices :: "int option"
  ep_valid_from :: "int option option"
  ep_valid_until :: "int option option"
  ep_notes :: "string option"
  ep_customer_id :: "string option"
  ep_license_id :: "string option option"

definition entitlement_statuses :: "string list" where
  "entitlement_statuses = [''active'', ''disabled'', ''revoked'']"

definition ordered_window :: "int option \<Rightarrow> int option \<Rightarrow> bool" where
  "ordered_window from until = (case (from, until) of (Some a, Some b) \<Rightarrow> a < b | _ \<Rightarrow> True)"

definition validate_entitlement_input :: "(jsnum \<Rightarrow> string) \<Rightarrow> jsval \<Rightarrow> entitlement_input option" where
  "validate_entitlement_input fmt v =
     (if \<not> is_object v \<or> is_array v then None
      else
        obind (safe_string (field ''project'' v) max_project_size) (\<lambda>project.
        obind (safe_string (field ''feature'' v) max_feature_size) (\<lambda>feature.
        obind (case field ''license_fingerprint'' v of String s \<Rightarrow> if hex64 s then Some s else None | _ \<Rightarrow> None) (\<lambda>fp.
        let status = (if field ''status'' v = Undefined then String ''active'' else field ''status'' v) in
        obind (if js_text fmt status \<in> set entitlement_statuses then Some status else None) (\<lambda>status.
        obind (if field ''valid_from'' v = Undefined then Some None else nullable_epoch (field ''valid_from'' v)) (\<lambda>from.
        obind (if field ''valid_until'' v = Undefined then Some None else nullable_epoch (field ''valid_until'' v)) (\<lambda>until.
        obind (if ordered_window from until then Some () else None) (\<lambda>_.
        obind (if field ''notes'' v = Undefined then Some [] else safe_notes (field ''notes'' v)) (\<lambda>notes.
        obind (owner_id (field ''customer_id'' v)) (\<lambda>customer.
        obind (if field ''license_id'' v = Undefined then Some None
               else nullable_safe_string (field ''license_id'' v) 128) (\<lambda>license.
          Some \<lparr>ei_project = project, ei_feature = feature, ei_license_fingerprint = fp, ei_status = status,
            ei_valid_from = from, ei_valid_until = until, ei_notes = notes, ei_customer_id = customer,
            ei_license_id = license\<rparr>)))))))))))"

definition validate_entitlement_patch :: "jsval \<Rightarrow> entitlement_patch option" where
  "validate_entitlement_patch v =
     (if \<not> object_names_only v entitlement_patch_fields then None
      else obind (patch_field ''max_active_devices'' v device_limit) (\<lambda>limit.
           obind (patch_field ''valid_from'' v nullable_epoch) (\<lambda>from.
           obind (patch_field ''valid_until'' v nullable_epoch) (\<lambda>until.
           obind (patch_field ''notes'' v safe_notes) (\<lambda>notes.
           obind (patch_field ''customer_id'' v owner_id) (\<lambda>customer.
           obind (patch_field ''license_id'' v (\<lambda>x. nullable_safe_string x 128)) (\<lambda>license.
             Some \<lparr>ep_max_active_devices = limit, ep_valid_from = from, ep_valid_until = until, ep_notes = notes,
               ep_customer_id = customer, ep_license_id = license\<rparr>)))))))"

text \<open>\<open>/^[A-Za-z0-9_.:-]{1,n}(?![\s\S])/\<close>: the whole string.\<close>

definition protected_name :: "nat \<Rightarrow> string \<Rightarrow> bool" where
  "protected_name n s \<longleftrightarrow> s \<noteq> [] \<and> length s \<le> n \<and> list_all (\<lambda>c. segment_char c \<or> c = CHR '':'') s"

definition lower_hex :: "char \<Rightarrow> bool" where
  "lower_hex c \<longleftrightarrow> js_digit c \<or> (97 \<le> code_unit c \<and> code_unit c \<le> 102)"

definition safe_epoch :: "int option \<Rightarrow> bool" where
  "safe_epoch t = (case t of None \<Rightarrow> True | Some n \<Rightarrow> \<bar>n\<bar> \<le> int max_safe_integer)"

definition selects_policy :: "jsval \<Rightarrow> bool" where
  "selects_policy v \<longleftrightarrow> field ''policy_id'' v \<notin> {Undefined, Null, String []}"

definition validate_entitlement_create :: "(jsnum \<Rightarrow> string) \<Rightarrow> jsval \<Rightarrow> entitlement_create option" where
  "validate_entitlement_create fmt v =
     (if \<not> object_names_only v entitlement_create_fields then None
      else if selects_policy v \<and> (\<not> object_names_only v entitlement_policy_create_fields
              \<or> (case field ''policy_id'' v of String s \<Rightarrow> 128 < length s | _ \<Rightarrow> True)) then None
      else let limit = field ''max_active_devices'' v in
        if limit \<noteq> Undefined \<and> device_limit limit = None then None
        else obind (validate_entitlement_input fmt v) (\<lambda>input.
          if \<not> protected_name 127 (ei_project input) \<or> \<not> protected_name 15 (ei_feature input)
             \<or> \<not> list_all lower_hex (ei_license_fingerprint input)
             \<or> \<not> safe_epoch (ei_valid_from input) \<or> \<not> safe_epoch (ei_valid_until input)
          then None
          else Some \<lparr>ec_input = input,
            ec_max_active_devices = (if limit = Undefined then None else device_limit limit)\<rparr>))"

text \<open>\<open>createReplayAdmission\<close>: a stored answer counts only when it is a save of the same grant.\<close>

definition create_replay_admission :: "entitlement_create \<Rightarrow> jsval \<Rightarrow> bool" where
  "create_replay_admission c v \<longleftrightarrow>
     is_object v \<and> \<not> is_array v \<and> field ''ok'' v = Boolean True \<and> field ''code'' v = String ''entitlement_saved''
     \<and> is_object (field ''data'' v)
     \<and> field ''project'' (field ''data'' v) = String (ei_project (ec_input c))
     \<and> field ''feature'' (field ''data'' v) = String (ei_feature (ec_input c))
     \<and> field ''license_fingerprint'' (field ''data'' v) = String (ei_license_fingerprint (ec_input c))"

end
