(* ===== verification/Admin_Checks.thy ===== *)
theory Admin_Checks
  imports Admin_Validation
begin

text \<open>
  What the administration's validators accept: the record a body spells out is stated field by field
  in the terms of the request contract, and the create validators return a record exactly for the
  bodies that spell it. The two places where a malformed field passes are stated as they behave.
\<close>

section \<open>Readers\<close>

definition safe_note :: "string \<Rightarrow> bool" where
  "safe_note s \<longleftrightarrow> length s \<le> 1000 \<and> \<not> text_breaks s"

lemma safe_string_Some: "safe_string v n = Some s \<longleftrightarrow> v = String s \<and> safe_text n s"
  by (auto simp: safe_string_def safe_text_def split: jsval.splits if_splits)

lemma safe_notes_Some: "safe_notes v = Some s \<longleftrightarrow> v = String s \<and> safe_note s"
  by (auto simp: safe_notes_def safe_note_def max_notes_size_def split: jsval.splits if_splits)

lemma bounded_int_Some: "bounded_int v lo hi = Some n \<longleftrightarrow> v = Number (Whole n) \<and> lo \<le> n \<and> n \<le> hi"
  by (auto simp: bounded_int_def split: jsval.splits jsnum.splits if_splits)

lemma nullable_bounded_int_Some:
  "nullable_bounded_int v lo hi = Some x \<longleftrightarrow>
     (case x of None \<Rightarrow> v = Null | Some n \<Rightarrow> v = Number (Whole n) \<and> lo \<le> n \<and> n \<le> hi)"
  by (cases x) (auto simp: nullable_bounded_int_def bounded_int_Some)

lemma one_of_Some: "one_of xs v = Some s \<longleftrightarrow> v = String s \<and> s \<in> set xs"
  by (auto simp: one_of_def split: jsval.splits if_splits)

lemma nullable_epoch_Some:
  "nullable_epoch v = Some x \<longleftrightarrow> (case x of None \<Rightarrow> v = Null | Some n \<Rightarrow> v = Number (Whole n) \<and> 0 \<le> n)"
  by (cases x) (auto simp: nullable_epoch_def split: jsval.splits jsnum.splits if_splits)

definition owner_ok :: "string \<Rightarrow> bool" where
  "owner_ok s \<longleftrightarrow> safe_text 128 s \<and> js_trim s = s"

lemma safe_text_not_Nil: "safe_text n s \<Longrightarrow> s \<noteq> []"
  by (simp add: safe_text_def)

lemma owner_id_Some: "owner_id v = Some s \<longleftrightarrow> v = String s \<and> owner_ok s"
proof (cases "safe_string v 128")
  case None
  then have "\<not> (v = String s \<and> safe_text 128 s)" using safe_string_Some [of v 128 s] by simp
  with None show ?thesis by (auto simp: owner_id_def owner_ok_def)
next
  case (Some t)
  then have "v = String t \<and> safe_text 128 t" by (simp only: safe_string_Some)
  with Some show ?thesis using safe_text_not_Nil by (auto simp: owner_id_def owner_ok_def)
qed

lemma device_limit_Some: "device_limit v = Some n \<longleftrightarrow> v = Number (Whole n) \<and> 1 \<le> n \<and> n \<le> 1000000"
  by (simp add: device_limit_def bounded_int_Some max_device_limit_def)

lemma patch_field_Some:
  "patch_field k v r = Some x \<longleftrightarrow>
     (case x of None \<Rightarrow> field k v = Undefined | Some y \<Rightarrow> field k v \<noteq> Undefined \<and> r (field k v) = Some y)"
  by (cases x) (auto simp: patch_field_def)

lemma names_only_Object: "names_only (Object ps) allowed \<longleftrightarrow> fst ` set ps \<subseteq> set allowed"
  by (auto simp: names_only_def keys_of_def list_all_iff set_uniq_from)

section \<open>What a body spells\<close>

text \<open>The relation between a field of a body and the value it stands for: a text of one line
  without a separator, a note, a whole number in a range, a safe whole number, a lower-case
  fingerprint; a field with a default; an object without other fields.\<close>

definition spells_text :: "nat \<Rightarrow> jsval \<Rightarrow> string \<Rightarrow> bool" where
  "spells_text n v s \<longleftrightarrow> v = String s \<and> s \<noteq> [] \<and> length s \<le> n \<and> (\<forall>c\<in>set s. code_unit c \<notin> {0, 10, 13, 61})"

definition spells_note :: "jsval \<Rightarrow> string \<Rightarrow> bool" where
  "spells_note v s \<longleftrightarrow> v = String s \<and> length s \<le> 1000 \<and> (\<forall>c\<in>set s. code_unit c \<notin> {0, 10, 13})"

definition spells_range :: "int \<Rightarrow> int \<Rightarrow> jsval \<Rightarrow> int \<Rightarrow> bool" where
  "spells_range lo hi v n \<longleftrightarrow> v = Number (Whole n) \<and> lo \<le> n \<and> n \<le> hi"

definition spells_count :: "jsval \<Rightarrow> int \<Rightarrow> bool" where
  "spells_count v n \<longleftrightarrow> v = Number (Whole n) \<and> 0 \<le> n \<and> n \<le> 9007199254740991"

definition spells_print :: "jsval \<Rightarrow> string \<Rightarrow> bool" where
  "spells_print v s \<longleftrightarrow> v = String s \<and> length s = 64 \<and> set s \<subseteq> set ''0123456789abcdef''"

definition spells_name :: "nat \<Rightarrow> jsval \<Rightarrow> string \<Rightarrow> bool" where
  "spells_name n v s \<longleftrightarrow> v = String s \<and> s \<noteq> [] \<and> length s \<le> n
     \<and> set s \<subseteq> set ''ABCDEFGHIJKLMNOPQRSTUVWXYZabcdefghijklmnopqrstuvwxyz0123456789_.:-''"

definition spells_one_of :: "string set \<Rightarrow> jsval \<Rightarrow> string \<Rightarrow> bool" where
  "spells_one_of ss v s \<longleftrightarrow> v = String s \<and> s \<in> ss"

definition spells_optional :: "(jsval \<Rightarrow> 'a \<Rightarrow> bool) \<Rightarrow> jsval \<Rightarrow> 'a option \<Rightarrow> bool" where
  "spells_optional spells v x \<longleftrightarrow> (case x of None \<Rightarrow> v = Undefined \<or> v = Null | Some y \<Rightarrow> spells v y)"

definition spells_or :: "'a \<Rightarrow> (jsval \<Rightarrow> 'a \<Rightarrow> bool) \<Rightarrow> jsval \<Rightarrow> 'a \<Rightarrow> bool" where
  "spells_or d spells v x \<longleftrightarrow> (if v = Undefined \<or> v = Null then x = d else spells v x)"

definition spells_given :: "'a \<Rightarrow> (jsval \<Rightarrow> 'a \<Rightarrow> bool) \<Rightarrow> jsval \<Rightarrow> 'a \<Rightarrow> bool" where
  "spells_given d spells v x \<longleftrightarrow> (if v = Undefined then x = d else spells v x)"

definition spells_object :: "string set \<Rightarrow> jsval \<Rightarrow> bool" where
  "spells_object names v \<longleftrightarrow> (\<exists>ps. v = Object ps \<and> fst ` set ps \<subseteq> names)"

lemma spells_text_iff: "spells_text n v s \<longleftrightarrow> safe_string v n = Some s"
proof -
  have "code_unit c = 61 \<longleftrightarrow> c = CHR ''=''" for c
    using of_char_eq_iff [of c "CHR ''=''", where 'a = nat] by (simp add: code_unit_def)
  then show ?thesis by (auto simp: spells_text_def safe_string_Some safe_text_def text_breaks_def list_ex_iff)
qed

lemma spells_note_iff: "spells_note v s \<longleftrightarrow> safe_notes v = Some s"
  by (auto simp: spells_note_def safe_notes_Some safe_note_def text_breaks_def list_ex_iff)

lemma spells_range_iff: "spells_range lo hi v n \<longleftrightarrow> bounded_int v lo hi = Some n"
  by (simp add: spells_range_def bounded_int_Some)

lemma spells_one_of_iff: "spells_one_of (set ss) v s \<longleftrightarrow> one_of ss v = Some s"
  by (simp add: spells_one_of_def one_of_Some)

lemma lower_hex_set: "lower_hex c \<longleftrightarrow> c \<in> set ''0123456789abcdef''"
proof (cases c)
  case (Char b0 b1 b2 b3 b4 b5 b6 b7)
  then show ?thesis
    by (cases b0; cases b1; cases b2; cases b3; cases b4; cases b5; cases b6; cases b7)
      (simp_all add: lower_hex_def js_digit_def code_unit_def)
qed

lemma protected_char_set:
  "segment_char c \<or> c = CHR '':'' \<longleftrightarrow> c \<in> set ''ABCDEFGHIJKLMNOPQRSTUVWXYZabcdefghijklmnopqrstuvwxyz0123456789_.:-''"
proof (cases c)
  case (Char b0 b1 b2 b3 b4 b5 b6 b7)
  then show ?thesis
    by (cases b0; cases b1; cases b2; cases b3; cases b4; cases b5; cases b6; cases b7)
      (simp_all add: segment_char_def js_alnum_def js_digit_def js_upper_ascii_def js_lower_ascii_def code_unit_def)
qed

lemma spells_name_iff: "spells_name n v s \<longleftrightarrow> v = String s \<and> protected_name n s"
  unfolding spells_name_def protected_name_def protected_char_set list_all_iff by blast

lemma spells_print_iff: "spells_print v s \<longleftrightarrow> v = String s \<and> length s = 64 \<and> list_all lower_hex s"
  unfolding spells_print_def lower_hex_set list_all_iff by blast

lemma spells_object_iff: "spells_object (set ns) v \<longleftrightarrow> is_object v \<and> \<not> is_array v \<and> names_only v ns"
  by (cases v) (auto simp: spells_object_def is_array_def names_only_Object)

lemma guarded_bind: "(if b then None else x) = Some y \<longleftrightarrow> \<not> b \<and> x = Some y"
  by simp

section \<open>Policies\<close>

definition wf_columns :: "policy_columns \<Rightarrow> bool" where
  "wf_columns c \<longleftrightarrow>
     (case pc_valid_from_offset_sec c of None \<Rightarrow> True | Some n \<Rightarrow> \<bar>n\<bar> \<le> max_duration_seconds)
     \<and> (case pc_duration_sec c of None \<Rightarrow> True | Some n \<Rightarrow> 0 \<le> n \<and> n \<le> max_duration_seconds)
     \<and> 0 \<le> pc_max_active_devices c \<and> pc_max_active_devices c \<le> 1000000
     \<and> pc_expiry_strategy c \<in> set expiry_strategies \<and> pc_trial_expiration_basis c \<in> set trial_bases
     \<and> 0 \<le> pc_trial_duration_sec c \<and> pc_trial_duration_sec c \<le> max_duration_seconds
     \<and> 0 \<le> pc_trial_one_per_device c \<and> pc_trial_one_per_device c \<le> 1"

definition wf_policy :: "policy_input \<Rightarrow> bool" where
  "wf_policy p \<longleftrightarrow> safe_text 127 (pi_project p) \<and> safe_text 127 (pi_name p) \<and> pi_type p \<in> set policy_types
     \<and> safe_note (pi_notes p) \<and> wf_columns (pi_columns p)"

lemma read_policy_columns_wf:
  assumes "read_policy_columns v = Some c"
  shows "wf_columns c"
proof -
  have n: "(if x = Undefined then Some None else nullable_bounded_int x lo hi) = Some y \<Longrightarrow>
      (case y of None \<Rightarrow> True | Some k \<Rightarrow> lo \<le> k \<and> k \<le> hi)" for x lo hi y
    by (auto simp: nullable_bounded_int_Some split: if_splits option.splits)
  have s: "(if x = Undefined then Some d else one_of xs x) = Some y \<Longrightarrow> d \<in> set xs \<Longrightarrow> y \<in> set xs" for x d xs y
    by (auto simp: one_of_Some split: if_splits)
  have b: "bounded_int x lo hi = Some k \<Longrightarrow> lo \<le> k \<and> k \<le> hi" for x lo hi k
    by (simp add: bounded_int_Some)
  have d: "''fixed_window'' \<in> set expiry_strategies" "''from_issue'' \<in> set trial_bases"
    by (simp_all add: expiry_strategies_def trial_bases_def)
  from assms obtain offset duration devices strategy basis trial once where
    f: "(if field ''valid_from_offset_sec'' v = Undefined then Some None
         else nullable_bounded_int (field ''valid_from_offset_sec'' v) (- max_duration_seconds) max_duration_seconds) = Some offset"
      "(if field ''duration_sec'' v = Undefined then Some None
         else nullable_bounded_int (field ''duration_sec'' v) 0 max_duration_seconds) = Some duration"
      "bounded_int (or_default (field ''max_active_devices'' v) (Number (Whole 1))) 0 1000000 = Some devices"
      "(if field ''expiry_strategy'' v = Undefined then Some ''fixed_window''
         else one_of expiry_strategies (field ''expiry_strategy'' v)) = Some strategy"
      "(if field ''trial_expiration_basis'' v = Undefined then Some ''from_issue''
         else one_of trial_bases (field ''trial_expiration_basis'' v)) = Some basis"
      "bounded_int (or_default (field ''trial_duration_sec'' v) (Number (Whole 0))) 0 max_duration_seconds = Some trial"
      "bounded_int (or_default (field ''trial_one_per_device'' v) (Number (Whole 0))) 0 1 = Some once"
    and c: "c = \<lparr>pc_valid_from_offset_sec = offset, pc_duration_sec = duration, pc_max_active_devices = devices,
         pc_expiry_strategy = strategy, pc_trial_expiration_basis = basis, pc_trial_duration_sec = trial,
         pc_trial_one_per_device = once\<rparr>"
    unfolding read_policy_columns_def obind_Some_iff by blast
  show ?thesis
    using n [OF f(1)] n [OF f(2)] b [OF f(3)] s [OF f(4) d(1)] s [OF f(5) d(2)] b [OF f(6)] b [OF f(7)]
    unfolding wf_columns_def c by (auto split: option.splits)
qed

lemma validate_policy_input_wf:
  assumes "validate_policy_input v = Some p"
  shows "wf_policy p"
proof -
  from assms have guard: "is_object v" "names_only v policy_create_fields"
    unfolding validate_policy_input_def by (simp_all split: if_splits)
  from assms obtain project name type nts columns where
    f: "safe_string (field ''project'' v) max_project_size = Some project"
      "safe_string (field ''name'' v) max_name_size = Some name" "one_of policy_types (field ''type'' v) = Some type"
      "(if field ''notes'' v = Undefined then Some [] else safe_notes (field ''notes'' v)) = Some nts"
      "read_policy_columns v = Some columns"
    and p: "p = \<lparr>pi_project = project, pi_name = name, pi_type = type, pi_notes = nts, pi_columns = columns\<rparr>"
    unfolding validate_policy_input_def by (auto simp: guard obind_Some_iff)
  have "safe_note nts"
    using f(4) by (auto simp: safe_notes_Some safe_note_def text_breaks_def split: if_splits)
  then show ?thesis
    using f(1-3) read_policy_columns_wf [OF f(5)]
    by (simp add: wf_policy_def p safe_string_Some one_of_Some max_project_size_def max_name_size_def)
qed

definition spells_policy_columns :: "jsval \<Rightarrow> policy_columns \<Rightarrow> bool" where
  "spells_policy_columns v c \<longleftrightarrow>
     spells_optional (spells_range (-3153600000) 3153600000) (field ''valid_from_offset_sec'' v) (pc_valid_from_offset_sec c)
     \<and> spells_optional (spells_range 0 3153600000) (field ''duration_sec'' v) (pc_duration_sec c)
     \<and> spells_or 1 (spells_range 0 1000000) (field ''max_active_devices'' v) (pc_max_active_devices c)
     \<and> spells_given ''fixed_window'' (spells_one_of {''fixed_window'', ''non_expiring''})
         (field ''expiry_strategy'' v) (pc_expiry_strategy c)
     \<and> spells_given ''from_issue'' (spells_one_of {''from_issue'', ''from_first_activation'', ''from_first_use''})
         (field ''trial_expiration_basis'' v) (pc_trial_expiration_basis c)
     \<and> spells_or 0 (spells_range 0 3153600000) (field ''trial_duration_sec'' v) (pc_trial_duration_sec c)
     \<and> spells_or 0 (spells_range 0 1) (field ''trial_one_per_device'' v) (pc_trial_one_per_device c)"

definition spells_policy :: "jsval \<Rightarrow> policy_input \<Rightarrow> bool" where
  "spells_policy v p \<longleftrightarrow>
     spells_object {''project'', ''name'', ''type'', ''notes'', ''valid_from_offset_sec'', ''duration_sec'',
       ''max_active_devices'', ''expiry_strategy'', ''trial_expiration_basis'', ''trial_duration_sec'',
       ''trial_one_per_device''} v
     \<and> spells_text 127 (field ''project'' v) (pi_project p) \<and> spells_text 127 (field ''name'' v) (pi_name p)
     \<and> spells_one_of {''trial'', ''node_locked'', ''subscription''} (field ''type'' v) (pi_type p)
     \<and> spells_given [] spells_note (field ''notes'' v) (pi_notes p)
     \<and> spells_policy_columns v (pi_columns p)"

lemma spells_nullable_range:
  "spells_optional (spells_range lo hi) v x \<longleftrightarrow>
     (if v = Undefined then Some None else nullable_bounded_int v lo hi) = Some x"
  by (cases x) (auto simp: spells_optional_def spells_range_def nullable_bounded_int_Some)

lemma spells_or_range:
  "spells_or d (spells_range lo hi) v n \<longleftrightarrow> bounded_int (or_default v (Number (Whole d))) lo hi = Some n" if "lo \<le> d" "d \<le> hi"
  using that by (auto simp: spells_or_def spells_range_iff or_default_def bounded_int_Some)

lemma spells_given_iff:
  "spells_given d (spells_one_of (set ss)) v s \<longleftrightarrow> (if v = Undefined then Some d else one_of ss v) = Some s"
  "spells_given d spells_note v t \<longleftrightarrow> (if v = Undefined then Some d else safe_notes v) = Some t"
  by (auto simp: spells_given_def spells_one_of_iff spells_note_iff)

lemma spells_policy_columns_iff: "read_policy_columns v = Some c \<longleftrightarrow> spells_policy_columns v c"
proof -
  have l: "{''fixed_window'', ''non_expiring''} = set expiry_strategies"
    "{''from_issue'', ''from_first_activation'', ''from_first_use''} = set trial_bases"
    by (simp_all add: expiry_strategies_def trial_bases_def)
  have d: "spells_or 1 (spells_range 0 1000000) x n \<longleftrightarrow> bounded_int (or_default x (Number (Whole 1))) 0 1000000 = Some n"
    "spells_or 0 (spells_range 0 max_duration_seconds) x n \<longleftrightarrow> bounded_int (or_default x (Number (Whole 0))) 0 max_duration_seconds = Some n"
    "spells_or 0 (spells_range 0 1) x n \<longleftrightarrow> bounded_int (or_default x (Number (Whole 0))) 0 1 = Some n" for x n
    by (rule spells_or_range; simp add: max_duration_seconds_def)+
  have m: "3153600000 = max_duration_seconds" by (simp add: max_duration_seconds_def)
  show ?thesis
    unfolding spells_policy_columns_def m l spells_nullable_range d spells_given_iff
    by (cases c) (auto simp only: read_policy_columns_def obind_Some_iff option.inject policy_columns.simps simp_thms)
qed


text \<open>What the writer does with a patch: it updates the columns the patch has.\<close>

definition patched :: "'a option \<Rightarrow> 'a \<Rightarrow> 'a" where
  "patched p x = (case p of None \<Rightarrow> x | Some y \<Rightarrow> y)"

definition apply_policy_patch :: "policy_patch \<Rightarrow> policy_input \<Rightarrow> policy_input" where
  "apply_policy_patch q p = p\<lparr>pi_notes := patched (pp_notes q) (pi_notes p), pi_columns :=
     \<lparr>pc_valid_from_offset_sec = patched (pp_valid_from_offset_sec q) (pc_valid_from_offset_sec (pi_columns p)),
      pc_duration_sec = patched (pp_duration_sec q) (pc_duration_sec (pi_columns p)),
      pc_max_active_devices = patched (pp_max_active_devices q) (pc_max_active_devices (pi_columns p)),
      pc_expiry_strategy = patched (pp_expiry_strategy q) (pc_expiry_strategy (pi_columns p)),
      pc_trial_expiration_basis = patched (pp_trial_expiration_basis q) (pc_trial_expiration_basis (pi_columns p)),
      pc_trial_duration_sec = patched (pp_trial_duration_sec q) (pc_trial_duration_sec (pi_columns p)),
      pc_trial_one_per_device = patched (pp_trial_one_per_device q) (pc_trial_one_per_device (pi_columns p))\<rparr>\<rparr>"

lemma policy_patch_reads:
  assumes "validate_policy_patch v = Some q"
  shows "patch_field ''valid_from_offset_sec'' v (\<lambda>x. nullable_bounded_int x (- max_duration_seconds) max_duration_seconds) = Some (pp_valid_from_offset_sec q)"
    and "patch_field ''duration_sec'' v (\<lambda>x. nullable_bounded_int x 0 max_duration_seconds) = Some (pp_duration_sec q)"
    and "patch_field ''max_active_devices'' v (\<lambda>x. bounded_int x 0 1000000) = Some (pp_max_active_devices q)"
    and "patch_field ''trial_duration_sec'' v (\<lambda>x. bounded_int x 0 max_duration_seconds) = Some (pp_trial_duration_sec q)"
    and "patch_field ''trial_one_per_device'' v (\<lambda>x. bounded_int x 0 1) = Some (pp_trial_one_per_device q)"
    and "patch_field ''expiry_strategy'' v (one_of expiry_strategies) = Some (pp_expiry_strategy q)"
    and "patch_field ''trial_expiration_basis'' v (one_of trial_bases) = Some (pp_trial_expiration_basis q)"
    and "patch_field ''notes'' v safe_notes = Some (pp_notes q)"
    and "names_only v policy_patchable_fields"
proof -
  from assms have guard: "is_object v" "names_only v policy_patchable_fields"
    unfolding validate_policy_patch_def by (simp_all split: if_splits)
  from assms obtain offset duration devices trial once strategy basis nts where
    f: "patch_field ''valid_from_offset_sec'' v (\<lambda>x. nullable_bounded_int x (- max_duration_seconds) max_duration_seconds) = Some offset"
      "patch_field ''duration_sec'' v (\<lambda>x. nullable_bounded_int x 0 max_duration_seconds) = Some duration"
      "patch_field ''max_active_devices'' v (\<lambda>x. bounded_int x 0 1000000) = Some devices"
      "patch_field ''trial_duration_sec'' v (\<lambda>x. bounded_int x 0 max_duration_seconds) = Some trial"
      "patch_field ''trial_one_per_device'' v (\<lambda>x. bounded_int x 0 1) = Some once"
      "patch_field ''expiry_strategy'' v (one_of expiry_strategies) = Some strategy"
      "patch_field ''trial_expiration_basis'' v (one_of trial_bases) = Some basis"
      "patch_field ''notes'' v safe_notes = Some nts"
    and q: "q = \<lparr>pp_valid_from_offset_sec = offset, pp_duration_sec = duration, pp_max_active_devices = devices,
               pp_expiry_strategy = strategy, pp_trial_expiration_basis = basis, pp_trial_duration_sec = trial,
               pp_trial_one_per_device = once, pp_notes = nts\<rparr>"
    unfolding validate_policy_patch_def by (auto simp: guard obind_Some_iff)
  show "patch_field ''valid_from_offset_sec'' v (\<lambda>x. nullable_bounded_int x (- max_duration_seconds) max_duration_seconds) = Some (pp_valid_from_offset_sec q)"
    "patch_field ''duration_sec'' v (\<lambda>x. nullable_bounded_int x 0 max_duration_seconds) = Some (pp_duration_sec q)"
    "patch_field ''max_active_devices'' v (\<lambda>x. bounded_int x 0 1000000) = Some (pp_max_active_devices q)"
    "patch_field ''trial_duration_sec'' v (\<lambda>x. bounded_int x 0 max_duration_seconds) = Some (pp_trial_duration_sec q)"
    "patch_field ''trial_one_per_device'' v (\<lambda>x. bounded_int x 0 1) = Some (pp_trial_one_per_device q)"
    "patch_field ''expiry_strategy'' v (one_of expiry_strategies) = Some (pp_expiry_strategy q)"
    "patch_field ''trial_expiration_basis'' v (one_of trial_bases) = Some (pp_trial_expiration_basis q)"
    "patch_field ''notes'' v safe_notes = Some (pp_notes q)"
    unfolding q policy_patch.select_convs by (rule f)+
  show "names_only v policy_patchable_fields" by (rule guard)
qed

lemma patched_range:
  "patch_field k v (\<lambda>x. bounded_int x lo hi) = Some p \<Longrightarrow> lo \<le> x \<and> x \<le> hi \<Longrightarrow> lo \<le> patched p x \<and> patched p x \<le> hi"
  by (auto simp: patched_def patch_field_Some bounded_int_Some split: option.splits)

lemma patched_nullable:
  "patch_field k v (\<lambda>x. nullable_bounded_int x lo hi) = Some p \<Longrightarrow>
   (case x of None \<Rightarrow> True | Some n \<Rightarrow> lo \<le> n \<and> n \<le> hi) \<Longrightarrow>
   (case patched p x of None \<Rightarrow> True | Some n \<Rightarrow> lo \<le> n \<and> n \<le> hi)"
  by (auto simp: patched_def patch_field_Some nullable_bounded_int_Some split: option.splits)

lemma patched_member: "patch_field k v (one_of xs) = Some p \<Longrightarrow> x \<in> set xs \<Longrightarrow> patched p x \<in> set xs"
  by (auto simp: patched_def patch_field_Some one_of_Some split: option.splits)

lemma patched_notes: "patch_field k v safe_notes = Some p \<Longrightarrow> safe_note x \<Longrightarrow> safe_note (patched p x)"
  by (auto simp: patched_def patch_field_Some safe_notes_Some split: option.splits)

text \<open>A patch that is accepted keeps a policy well formed and leaves its project, name and
  type alone; it has a column exactly when the body names the column, and the body names no
  other field.\<close>

theorem validate_policy_patch_sound:
  assumes "validate_policy_patch v = Some q" and "wf_policy p"
  shows "wf_policy (apply_policy_patch q p)
    \<and> (pi_project (apply_policy_patch q p), pi_name (apply_policy_patch q p), pi_type (apply_policy_patch q p))
        = (pi_project p, pi_name p, pi_type p)
    \<and> set (keys_of v) \<subseteq> set policy_patchable_fields
    \<and> (pp_duration_sec q = None \<longleftrightarrow> field ''duration_sec'' v = Undefined)
    \<and> (pp_max_active_devices q = None \<longleftrightarrow> field ''max_active_devices'' v = Undefined)
    \<and> (pp_expiry_strategy q = None \<longleftrightarrow> field ''expiry_strategy'' v = Undefined)
    \<and> (pp_notes q = None \<longleftrightarrow> field ''notes'' v = Undefined)"
proof -
  note r = policy_patch_reads [OF assms(1)]
  have off: "(case pc_valid_from_offset_sec (pi_columns p) of None \<Rightarrow> True | Some n \<Rightarrow> - max_duration_seconds \<le> n \<and> n \<le> max_duration_seconds)"
    using assms(2) by (auto simp: wf_policy_def wf_columns_def abs_le_iff split: option.splits)
  have wc: "wf_columns (pi_columns p)" using assms(2) by (simp add: wf_policy_def)
  have "wf_columns (pi_columns (apply_policy_patch q p))"
    using patched_nullable [OF r(1) off] patched_nullable [OF r(2), of "pc_duration_sec (pi_columns p)"]
      patched_range [OF r(3), of "pc_max_active_devices (pi_columns p)"] patched_range [OF r(4), of "pc_trial_duration_sec (pi_columns p)"]
      patched_range [OF r(5), of "pc_trial_one_per_device (pi_columns p)"]
      patched_member [OF r(6), of "pc_expiry_strategy (pi_columns p)"] patched_member [OF r(7), of "pc_trial_expiration_basis (pi_columns p)"] wc
    by (auto simp: wf_columns_def apply_policy_patch_def abs_le_iff split: option.splits)
  moreover have "safe_note (pi_notes (apply_policy_patch q p))"
    using patched_notes [OF r(8)] assms(2) by (simp add: apply_policy_patch_def wf_policy_def)
  moreover have "(p' = None) \<longleftrightarrow> field k v = Undefined" if "patch_field k v rd = Some p'" for k rd and p' :: "'b option"
    using that by (cases p') (auto simp: patch_field_Some)
  ultimately show ?thesis
    using assms(2) r(2,3,6,8,9)
    by (auto simp: wf_policy_def apply_policy_patch_def names_only_def list_all_iff patch_field_Some split: option.splits)
qed

abbreviation example_policy :: policy_input where
  "example_policy \<equiv> \<lparr>pi_project = ''app'', pi_name = ''basic'', pi_type = ''trial'', pi_notes = [],
     pi_columns = \<lparr>pc_valid_from_offset_sec = None, pc_duration_sec = Some 60, pc_max_active_devices = 1,
       pc_expiry_strategy = ''fixed_window'', pc_trial_expiration_basis = ''from_issue'', pc_trial_duration_sec = 0,
       pc_trial_one_per_device = 0\<rparr>\<rparr>"

theorem validate_policy_patch_sound_witness:
  "\<exists>q. validate_policy_patch (Object [(''duration_sec'', Null), (''notes'', String ''n'')]) = Some q
     \<and> wf_policy (apply_policy_patch q example_policy)"
proof -
  obtain q where q: "validate_policy_patch (Object [(''duration_sec'', Null), (''notes'', String ''n'')]) = Some q"
    using that by (cases "validate_policy_patch (Object [(''duration_sec'', Null), (''notes'', String ''n'')])")
      (simp add: validate_policy_patch_def patch_field_def names_only_Object policy_patchable_fields_def
        nullable_bounded_int_def safe_notes_def max_notes_size_def text_breaks_def code_unit_def, blast)
  have "wf_policy example_policy" by code_simp
  with q validate_policy_patch_sound [OF q] show ?thesis by blast
qed

section \<open>Entitlements\<close>

definition spells_status :: "jsval \<Rightarrow> jsval \<Rightarrow> bool" where
  "spells_status v st \<longleftrightarrow> (if v = Undefined then st = String ''active''
     else v = st \<and> st \<in> {String ''active'', String ''disabled'', String ''revoked''})"

definition spells_owner :: "jsval \<Rightarrow> string \<Rightarrow> bool" where
  "spells_owner v s \<longleftrightarrow> spells_text 128 v s \<and> js_trim s = s"

definition spells_license :: "jsval \<Rightarrow> string option \<Rightarrow> bool" where
  "spells_license v x \<longleftrightarrow> (case x of None \<Rightarrow> v \<in> {Undefined, Null, String []} | Some s \<Rightarrow> spells_text 128 v s)"

definition window_opens :: "int option \<Rightarrow> int option \<Rightarrow> bool" where
  "window_opens from until \<longleftrightarrow> (\<forall>a b. from = Some a \<and> until = Some b \<longrightarrow> a < b)"

definition spells_grant :: "jsval \<Rightarrow> entitlement_input \<Rightarrow> bool" where
  "spells_grant v i \<longleftrightarrow>
     spells_name 127 (field ''project'' v) (ei_project i) \<and> spells_name 15 (field ''feature'' v) (ei_feature i)
     \<and> spells_print (field ''license_fingerprint'' v) (ei_license_fingerprint i)
     \<and> spells_status (field ''status'' v) (ei_status i)
     \<and> spells_optional spells_count (field ''valid_from'' v) (ei_valid_from i)
     \<and> spells_optional spells_count (field ''valid_until'' v) (ei_valid_until i)
     \<and> window_opens (ei_valid_from i) (ei_valid_until i)
     \<and> spells_given [] spells_note (field ''notes'' v) (ei_notes i)
     \<and> spells_owner (field ''customer_id'' v) (ei_customer_id i)
     \<and> spells_license (field ''license_id'' v) (ei_license_id i)"

text \<open>A create that names a policy leaves status and device limit to the policy.\<close>

definition spells_policy_choice :: "jsval \<Rightarrow> bool" where
  "spells_policy_choice v \<longleftrightarrow> field ''policy_id'' v \<in> {Undefined, Null, String []}
     \<or> (\<exists>p. field ''policy_id'' v = String p \<and> length p \<le> 128)
       \<and> spells_object {''project'', ''feature'', ''license_fingerprint'', ''valid_from'', ''valid_until'', ''notes'',
           ''customer_id'', ''license_id'', ''policy_id''} v"

definition spells_create :: "jsval \<Rightarrow> entitlement_create \<Rightarrow> bool" where
  "spells_create v c \<longleftrightarrow>
     spells_object {''project'', ''feature'', ''license_fingerprint'', ''status'', ''valid_from'', ''valid_until'', ''notes'',
       ''customer_id'', ''license_id'', ''policy_id'', ''max_active_devices''} v
     \<and> spells_policy_choice v \<and> spells_grant v (ec_input c)
     \<and> (case ec_max_active_devices c of None \<Rightarrow> field ''max_active_devices'' v = Undefined
        | Some n \<Rightarrow> spells_range 1 1000000 (field ''max_active_devices'' v) n)"

lemma spells_owner_iff: "spells_owner v s \<longleftrightarrow> owner_id v = Some s"
  by (auto simp: spells_owner_def spells_text_iff owner_id_Some owner_ok_def safe_string_Some)

lemma spells_license_iff:
  assumes "\<exists>x. spells_license v x"
  shows "(if v = Undefined then Some None else nullable_safe_string v 128) = Some x \<longleftrightarrow> spells_license v x"
proof -
  have "spells_text 128 v s \<Longrightarrow> v \<noteq> Undefined \<and> v \<noteq> Null \<and> v \<noteq> String []" for s by (auto simp: spells_text_def)
  with assms show ?thesis
    by (cases x) (auto simp: spells_license_def nullable_safe_string_def spells_text_iff split: option.splits)
qed

lemma spells_status_iff:
  assumes "v = Undefined \<or> (\<exists>s. v = String s)"
  shows "(let st = (if v = Undefined then String ''active'' else v) in
      if js_text fmt st \<in> set entitlement_statuses then Some st else None) = Some x \<longleftrightarrow> spells_status v x"
  using assms by (auto simp: spells_status_def entitlement_statuses_def)

lemma spells_epoch_iff:
  "spells_optional spells_count v x \<longleftrightarrow>
     (if v = Undefined then Some None else nullable_epoch v) = Some x \<and> safe_epoch x"
  by (cases x) (auto simp: spells_optional_def spells_count_def nullable_epoch_Some safe_epoch_def max_safe_integer_def)

lemma ordered_window_iff: "ordered_window a b \<longleftrightarrow> window_opens a b"
  by (auto simp: ordered_window_def window_opens_def split: option.splits)

lemma protected_name_safe: "protected_name n s \<Longrightarrow> safe_text n s"
proof -
  have "segment_char c \<or> c = CHR '':'' \<Longrightarrow> code_unit c \<notin> {0, 10, 13} \<and> c \<noteq> CHR ''=''" for c
    by (auto simp: segment_char_def js_alnum_def js_digit_def js_upper_ascii_def js_lower_ascii_def code_unit_def)
  then show "protected_name n s \<Longrightarrow> safe_text n s"
    by (auto simp: protected_name_def safe_text_def text_breaks_def list_all_iff list_ex_iff)
qed

lemma spells_name_safe: "spells_name n v s \<longleftrightarrow> safe_string v n = Some s \<and> protected_name n s"
  using protected_name_safe by (auto simp: spells_name_iff safe_string_Some)

lemma spells_print_reads:
  "spells_print v s \<longleftrightarrow> (case v of String s \<Rightarrow> if hex64 s then Some s else None | _ \<Rightarrow> None) = Some s \<and> list_all lower_hex s"
proof -
  have "lower_hex c \<Longrightarrow> js_hex c" for c by (auto simp: lower_hex_def js_hex_def)
  then have "list_all lower_hex t \<Longrightarrow> list_all js_hex t" for t by (auto simp: list_all_iff)
  then show ?thesis by (auto simp: spells_print_iff hex64_def split: jsval.splits if_splits)
qed

lemma validate_entitlement_input_Some:
  "validate_entitlement_input fmt v = Some i \<longleftrightarrow> is_object v \<and> \<not> is_array v
     \<and> safe_string (field ''project'' v) 127 = Some (ei_project i) \<and> safe_string (field ''feature'' v) 15 = Some (ei_feature i)
     \<and> (case field ''license_fingerprint'' v of String s \<Rightarrow> if hex64 s then Some s else None | _ \<Rightarrow> None) = Some (ei_license_fingerprint i)
     \<and> (let st = (if field ''status'' v = Undefined then String ''active'' else field ''status'' v) in
        if js_text fmt st \<in> set entitlement_statuses then Some st else None) = Some (ei_status i)
     \<and> (if field ''valid_from'' v = Undefined then Some None else nullable_epoch (field ''valid_from'' v)) = Some (ei_valid_from i)
     \<and> (if field ''valid_until'' v = Undefined then Some None else nullable_epoch (field ''valid_until'' v)) = Some (ei_valid_until i)
     \<and> window_opens (ei_valid_from i) (ei_valid_until i)
     \<and> (if field ''notes'' v = Undefined then Some [] else safe_notes (field ''notes'' v)) = Some (ei_notes i)
     \<and> owner_id (field ''customer_id'' v) = Some (ei_customer_id i)
     \<and> (if field ''license_id'' v = Undefined then Some None else nullable_safe_string (field ''license_id'' v) 128) = Some (ei_license_id i)"
proof -
  have chk: "(if P then Some () else None) = Some z \<longleftrightarrow> P" for P z by simp
  show ?thesis
    unfolding validate_entitlement_input_def guarded_bind Let_def max_project_size_def max_feature_size_def obind_Some_iff chk
    by (cases i) (auto simp only: ordered_window_iff option.inject entitlement_input.simps de_Morgan_disj not_not simp_thms)
qed

lemma validate_entitlement_input_iff:
  assumes "field ''status'' v = Undefined \<or> (\<exists>s. field ''status'' v = String s)"
    and "\<exists>l. spells_license (field ''license_id'' v) l"
  shows "validate_entitlement_input fmt v = Some i \<and> protected_name 127 (ei_project i) \<and> protected_name 15 (ei_feature i)
      \<and> list_all lower_hex (ei_license_fingerprint i) \<and> safe_epoch (ei_valid_from i) \<and> safe_epoch (ei_valid_until i)
    \<longleftrightarrow> is_object v \<and> \<not> is_array v \<and> spells_grant v i"
  unfolding validate_entitlement_input_Some spells_license_iff [OF assms(2)] spells_status_iff [OF assms(1), of fmt]
    spells_given_iff(2) [symmetric] spells_owner_iff [symmetric]
    spells_grant_def spells_name_safe spells_print_reads spells_epoch_iff by blast

lemma spells_limit_iff:
  "(case x of None \<Rightarrow> v = Undefined | Some n \<Rightarrow> spells_range 1 1000000 v n) \<longleftrightarrow>
     \<not> (v \<noteq> Undefined \<and> device_limit v = None) \<and> x = (if v = Undefined then None else device_limit v)"
  by (cases x) (auto simp: spells_range_iff device_limit_def max_device_limit_def bounded_int_def)

lemma spells_policy_choice_iff:
  "\<not> (selects_policy v \<and> (\<not> object_names_only v entitlement_policy_create_fields
      \<or> (case field ''policy_id'' v of String s \<Rightarrow> 128 < length s | _ \<Rightarrow> True))) \<longleftrightarrow> spells_policy_choice v"
proof -
  have "{''project'', ''feature'', ''license_fingerprint'', ''valid_from'', ''valid_until'', ''notes'',
           ''customer_id'', ''license_id'', ''policy_id''} = set entitlement_policy_create_fields"
    by (simp add: entitlement_policy_create_fields_def)
  moreover have "(case x of String s \<Rightarrow> 128 < length s | _ \<Rightarrow> True) \<longleftrightarrow> \<not> (\<exists>p. x = String p \<and> length p \<le> 128)" for x
    by (cases x) auto
  ultimately show ?thesis
    by (simp only: spells_policy_choice_def selects_policy_def object_names_only_def spells_object_iff) blast
qed

text \<open>C32. On a body whose status, where it has one, is a text and whose license id, where it has one,
  is readable, the create validator returns a grant exactly when the body spells it: no field beside
  the eleven of the contract, project and feature protected names, a lower-case fingerprint, a known
  status (active when left out), safe times in order, one-line notes, an owner neither blank nor
  padded, a device limit in its range; and with a policy, neither status nor limit in the body.\<close>

theorem validate_entitlement_create_exact:
  assumes "field ''status'' v = Undefined \<or> (\<exists>s. field ''status'' v = String s)"
    and "\<exists>l. spells_license (field ''license_id'' v) l"
  shows "validate_entitlement_create fmt v = Some c \<longleftrightarrow> spells_create v c"
proof -
  have o: "{''project'', ''feature'', ''license_fingerprint'', ''status'', ''valid_from'', ''valid_until'', ''notes'',
       ''customer_id'', ''license_id'', ''policy_id'', ''max_active_devices''} = set entitlement_create_fields"
    by (simp add: entitlement_create_fields_def entitlement_input_fields_def)
  have g: "\<not> (\<not> a \<or> \<not> b \<or> \<not> d \<or> \<not> e \<or> \<not> f) \<longleftrightarrow> a \<and> b \<and> d \<and> e \<and> f" for a b d e f by blast
  show ?thesis
    unfolding validate_entitlement_create_def Let_def guarded_bind obind_Some_iff spells_policy_choice_iff
    unfolding object_names_only_def spells_create_def o spells_object_iff g spells_limit_iff not_not
    using validate_entitlement_input_iff [OF assms, of fmt "ec_input c"]
    by (cases c) (auto simp only: entitlement_create.simps option.inject simp_thms)
qed

lemma absent_field: "is_object v \<Longrightarrow> \<not> is_array v \<Longrightarrow> names_only v allowed \<Longrightarrow> k \<notin> set allowed \<Longrightarrow> field k v = Undefined"
  by (cases v) (auto simp: names_only_Object field_def is_array_def map_of_eq_None_iff split: option.splits dest!: map_of_SomeD)

text \<open>A create that selects a policy leaves status and device limit to the stamp: it is
  accepted only with neither in the body, and it carries the active status and no limit.\<close>

theorem policy_create_leaves_stamp:
  assumes "validate_entitlement_create fmt v = Some c" and "selects_policy v"
  shows "ec_max_active_devices c = None \<and> ei_status (ec_input c) = String ''active''
    \<and> (\<exists>s. field ''policy_id'' v = String s \<and> s \<noteq> [] \<and> length s \<le> 128)"
proof -
  have names: "is_object v" "\<not> is_array v" "names_only v entitlement_policy_create_fields"
    and pol: "\<exists>s. field ''policy_id'' v = String s \<and> length s \<le> 128"
    using assms by (auto simp: validate_entitlement_create_def object_names_only_def not_less split: if_splits jsval.splits)
  have "field ''status'' v = Undefined" "field ''max_active_devices'' v = Undefined"
    using absent_field [OF names] by (simp_all add: entitlement_policy_create_fields_def)
  then show ?thesis using assms pol
    by (auto simp: validate_entitlement_create_def validate_entitlement_input_def obind_Some_iff selects_policy_def Let_def split: if_splits)
qed

text \<open>A patch that is accepted cannot clear or blank an owner, take the device limit out of
  its range or move a validity bound before the epoch.\<close>

theorem validate_entitlement_patch_sound:
  assumes "validate_entitlement_patch v = Some p"
  shows "(\<forall>s. ep_customer_id p = Some s \<longrightarrow> field ''customer_id'' v = String s \<and> owner_ok s)
    \<and> (ep_customer_id p = None \<longrightarrow> field ''customer_id'' v = Undefined)
    \<and> (\<forall>n. ep_max_active_devices p = Some n \<longrightarrow> 1 \<le> n \<and> n \<le> 1000000)
    \<and> (\<forall>n. ep_valid_from p = Some (Some n) \<or> ep_valid_until p = Some (Some n) \<longrightarrow> 0 \<le> n)"
proof -
  have guard: "object_names_only v entitlement_patch_fields"
    using assms unfolding validate_entitlement_patch_def by (simp split: if_splits)
  from assms obtain limit fr till nts cu li where
    f: "patch_field ''max_active_devices'' v device_limit = Some limit" "patch_field ''valid_from'' v nullable_epoch = Some fr"
      "patch_field ''valid_until'' v nullable_epoch = Some till" "patch_field ''notes'' v safe_notes = Some nts"
      "patch_field ''customer_id'' v owner_id = Some cu"
    and p: "p = \<lparr>ep_max_active_devices = limit, ep_valid_from = fr, ep_valid_until = till, ep_notes = nts,
               ep_customer_id = cu, ep_license_id = li\<rparr>"
    unfolding validate_entitlement_patch_def by (auto simp: guard obind_Some_iff)
  show ?thesis
    using f(1-3,5) by (auto simp: p patch_field_Some device_limit_Some nullable_epoch_Some owner_id_Some split: option.splits)
qed

text \<open>A license id of the wrong form is not refused: whatever value other than a safe string
  a patch gives, the accepted patch clears the grant's license.\<close>

theorem malformed_license_id_clears:
  assumes "x \<noteq> Undefined" and "safe_string x 128 = None"
  shows "\<exists>p. validate_entitlement_patch (Object [(''license_id'', x)]) = Some p \<and> ep_license_id p = Some None"
  using assms
  by (simp add: validate_entitlement_patch_def object_names_only_def is_array_def names_only_Object
      entitlement_patch_fields_def patch_field_def nullable_safe_string_def)

text \<open>A status in an array passes as the status: the validator compares its text, and keeps the
  array in the grant it returns.\<close>

theorem status_array_accepted:
  assumes "s \<in> {''active'', ''disabled'', ''revoked''}"
    and "validate_entitlement_input fmt (Object ((''status'', String s) # ps)) = Some i"
  shows "validate_entitlement_input fmt (Object ((''status'', Array [String s]) # ps)) = Some (i\<lparr>ei_status := Array [String s]\<rparr>)"
proof -
  have f: "field k (Object ((''status'', x) # ps)) = field k (Object ps)" if "k \<noteq> ''status''" for k x
    using that by (simp add: field_def)
  have st: "field ''status'' (Object ((''status'', x) # ps)) = x" for x by (simp add: field_def)
  have t: "js_text fmt (Array [String s]) = s" by simp
  have m: "s \<in> set entitlement_statuses" using assms(1) by (simp add: entitlement_statuses_def)
  show ?thesis
    using assms(2) unfolding validate_entitlement_input_Some
    by (simp only: f st t m is_array_def is_object.simps jsval.simps jsval.distinct char.inject list.inject list.distinct
        Let_def if_True if_False simp_thms entitlement_input.simps, simp)
qed

section \<open>Instances\<close>

abbreviation no_fmt :: "jsnum \<Rightarrow> string" where
  "no_fmt \<equiv> \<lambda>n. ''0.5''"

abbreviation example_print :: string where
  "example_print \<equiv> replicate 64 (CHR ''a'')"

abbreviation example_grant :: "jsval \<Rightarrow> entitlement_input" where
  "example_grant st \<equiv> \<lparr>ei_project = ''app'', ei_feature = ''pro'', ei_license_fingerprint = example_print,
     ei_status = st, ei_valid_from = None, ei_valid_until = Some 5, ei_notes = [], ei_customer_id = ''c1'', ei_license_id = None\<rparr>"

abbreviation policy_body :: jsval where
  "policy_body \<equiv> Object [(''project'', String ''app''), (''feature'', String ''pro''),
     (''license_fingerprint'', String example_print), (''valid_until'', Number (Whole 5)),
     (''customer_id'', String ''c1''), (''policy_id'', String ''p1'')]"

theorem policy_create_leaves_stamp_witness:
  "selects_policy policy_body \<and> ec_max_active_devices \<lparr>ec_input = example_grant (String ''active''), ec_max_active_devices = None\<rparr> = None"
proof -
  have v: "validate_entitlement_create no_fmt policy_body = Some \<lparr>ec_input = example_grant (String ''active''), ec_max_active_devices = None\<rparr>"
    by code_simp
  have s: "selects_policy policy_body" by code_simp
  from policy_create_leaves_stamp [OF v s] s show ?thesis by blast
qed

theorem validate_entitlement_patch_sound_witness:
  "\<exists>p. validate_entitlement_patch (Object [(''customer_id'', String ''c2''), (''max_active_devices'', Number (Whole 3))]) = Some p
     \<and> (\<forall>n. ep_max_active_devices p = Some n \<longrightarrow> 1 \<le> n \<and> n \<le> 1000000)"
proof -
  have v: "validate_entitlement_patch (Object [(''customer_id'', String ''c2''), (''max_active_devices'', Number (Whole 3))])
    = Some \<lparr>ep_max_active_devices = Some 3, ep_valid_from = None, ep_valid_until = None, ep_notes = None,
        ep_customer_id = Some ''c2'', ep_license_id = None\<rparr>" by code_simp
  from v validate_entitlement_patch_sound [OF v] show ?thesis by blast
qed

theorem malformed_license_id_clears_witness:
  "\<exists>p. validate_entitlement_patch (Object [(''license_id'', String ''a=b'')]) = Some p \<and> ep_license_id p = Some None"
  by (rule malformed_license_id_clears) (simp_all add: safe_string_def)

abbreviation status_body :: "jsval \<Rightarrow> (string \<times> jsval) list" where
  "status_body st \<equiv> [(''status'', st), (''project'', String ''app''), (''feature'', String ''pro''),
     (''license_fingerprint'', String example_print), (''valid_until'', Number (Whole 5)), (''customer_id'', String ''c1'')]"

theorem status_array_accepted_witness:
  "validate_entitlement_input no_fmt (Object (status_body (Array [String ''revoked''])))
     = Some (example_grant (Array [String ''revoked'']))"
proof -
  have "validate_entitlement_input no_fmt (Object (status_body (String ''revoked''))) = Some (example_grant (String ''revoked''))"
    by code_simp
  from status_array_accepted [OF _ this] show ?thesis by simp
qed

theorem validate_entitlement_create_exact_witness:
  "spells_create (Object (status_body (String ''disabled''))) \<lparr>ec_input = example_grant (String ''disabled''), ec_max_active_devices = None\<rparr>
   \<and> validate_entitlement_create no_fmt (Object ((''notes'', Null) # status_body (String ''disabled''))) = None"
proof -
  let ?v = "Object (status_body (String ''disabled''))"
  have s: "field ''status'' ?v = Undefined \<or> (\<exists>s. field ''status'' ?v = String s)" by (simp add: field_def)
  have l: "\<exists>l. spells_license (field ''license_id'' ?v) l" by (rule exI [of _ None]) (simp add: spells_license_def field_def)
  have "validate_entitlement_create no_fmt ?v
      = Some \<lparr>ec_input = example_grant (String ''disabled''), ec_max_active_devices = None\<rparr>" by code_simp
  with validate_entitlement_create_exact [OF s l, of no_fmt]
  have "spells_create ?v \<lparr>ec_input = example_grant (String ''disabled''), ec_max_active_devices = None\<rparr>" by blast
  moreover have "validate_entitlement_create no_fmt (Object ((''notes'', Null) # status_body (String ''disabled''))) = None" by code_simp
  ultimately show ?thesis by blast
qed

end
