(* ===== verification/Admin_Query.thy ===== *)
theory Admin_Query
  imports Admin_Checks
begin

text \<open>
  \<open>query.ts\<close> of the licence administration Worker: the query parameters of the list routes,
  the keyset bookmark of the event log and search patterns. A query string is what
  \<open>searchParams.get\<close> gives: \<open>None\<close> for a name that is absent.
\<close>

section \<open>Pagination\<close>

record pagination_options =
  po_default_limit :: nat
  po_max_limit :: nat
  po_include_cursor :: bool
  po_allow_empty_value :: bool

definition default_pagination_options :: pagination_options where
  "default_pagination_options = \<lparr>po_default_limit = 50, po_max_limit = 100, po_include_cursor = True,
     po_allow_empty_value = True\<rparr>"

definition limit_only_pagination_options :: pagination_options where
  "limit_only_pagination_options = default_pagination_options\<lparr>po_include_cursor := False\<rparr>"

definition search_pagination_options :: pagination_options where
  "search_pagination_options = limit_only_pagination_options\<lparr>po_default_limit := 10, po_max_limit := 10\<rparr>"

definition pagination_route_options :: "(string \<times> pagination_options) list" where
  "pagination_route_options = [
     (''GET /api/admin/customers/{id}/apps'', default_pagination_options),
     (''GET /api/admin/customers/{id}/access'', default_pagination_options),
     (''GET /api/admin/catalog/projects'', default_pagination_options),
     (''GET /api/admin/customers'', default_pagination_options),
     (''GET /api/admin/licenses'', default_pagination_options),
     (''GET /api/admin/orders'', default_pagination_options),
     (''GET /api/admin/search'', search_pagination_options),
     (''GET /api/admin/entitlements'', default_pagination_options),
     (''GET /api/admin/events'', default_pagination_options),
     (''GET /api/admin/policies'', default_pagination_options),
     (''GET /api/admin/catalog/features'', default_pagination_options),
     (''GET /api/admin/catalog/plans'', default_pagination_options),
     (''GET /api/admin/webhooks'', default_pagination_options),
     (''GET /api/admin/webhooks/deliveries'', default_pagination_options),
     (''GET /api/admin/report/expiring'', default_pagination_options)]"

type_synonym query = "string \<Rightarrow> string option"

definition safe_number :: "jsnum \<Rightarrow> nat option" where
  "safe_number n = (case n of Whole i \<Rightarrow> if is_safe_integer n \<and> 0 \<le> i then Some (nat i) else None | _ \<Rightarrow> None)"

definition parse_page_integer :: "string option \<Rightarrow> nat \<Rightarrow> nat \<Rightarrow> nat \<Rightarrow> bool \<Rightarrow> nat option" where
  "parse_page_integer raw d lo hi allow_empty = (case raw of
     None \<Rightarrow> Some d
   | Some s \<Rightarrow>
       if allow_empty \<and> s = [] then Some d
       else if s = [] then None
       else if \<not> all_digits s then None
       else (case safe_number (js_number s) of None \<Rightarrow> None
             | Some n \<Rightarrow> if lo \<le> n \<and> n \<le> hi then Some n else None))"

definition bounded_cursor :: "query \<Rightarrow> pagination_options \<Rightarrow> (nat \<times> nat) option" where
  "bounded_cursor q o' =
     obind (parse_page_integer (q ''limit'') (po_default_limit o') 1 (po_max_limit o') (po_allow_empty_value o')) (\<lambda>limit.
     obind (if \<not> po_include_cursor o' then Some 0
            else parse_page_integer (q ''cursor'') 0 0 max_safe_integer (po_allow_empty_value o')) (\<lambda>cursor.
       Some (limit, cursor)))"

text \<open>\<open>epochQueryParam\<close>: \<open>None\<close> is malformed, \<open>Some None\<close> no filter.\<close>

definition epoch_query_param :: "query \<Rightarrow> string \<Rightarrow> nat option option" where
  "epoch_query_param q name = (case q name of
     None \<Rightarrow> Some None
   | Some s \<Rightarrow> if s = [] then Some None
       else if \<not> all_digits s then None
       else map_option Some (safe_number (js_number s)))"

section \<open>The event bookmark\<close>

definition encode_events_cursor :: "nat \<Rightarrow> nat \<Rightarrow> string" where
  "encode_events_cursor created_at event_id = dec created_at @ '':'' @ dec event_id"

definition parse_events_cursor_token :: "string \<Rightarrow> (nat \<times> nat) option" where
  "parse_events_cursor_token raw =
     (let a = takeWhile js_digit raw; r = dropWhile js_digit raw in
      case r of
        [] \<Rightarrow> None
      | c # b \<Rightarrow>
          if a = [] \<or> c \<noteq> CHR '':'' \<or> \<not> all_digits b then None
          else obind (safe_number (js_number a)) (\<lambda>x. obind (safe_number (js_number b)) (\<lambda>y. Some (x, y))))"

definition bounded_events_cursor :: "query \<Rightarrow> pagination_options \<Rightarrow> (nat \<times> (nat \<times> nat) option) option" where
  "bounded_events_cursor q o' =
     obind (bounded_cursor q (o'\<lparr>po_include_cursor := False\<rparr>)) (\<lambda>(limit, _).
       case q ''cursor'' of
         None \<Rightarrow> Some (limit, None)
       | Some s \<Rightarrow>
           if po_allow_empty_value o' \<and> s = [] then Some (limit, None)
           else map_option (\<lambda>c. (limit, Some c)) (parse_events_cursor_token s))"

definition wants_csv :: "query \<Rightarrow> bool" where
  "wants_csv q \<longleftrightarrow> q ''format'' = Some ''csv''"

section \<open>Search patterns\<close>

definition like_escape :: "string \<Rightarrow> string" where
  "like_escape s = concat (List.map (\<lambda>c. if c \<in> {backslash, CHR ''%'', CHR ''_''} then [backslash, c] else [c]) s)"

definition like_contains :: "jsval \<Rightarrow> string option" where
  "like_contains v = map_option (\<lambda>t. ''%'' @ like_escape (js_lower t) @ ''%'') (safe_string v 128)"

definition like_prefix :: "jsval \<Rightarrow> string option" where
  "like_prefix v = map_option (\<lambda>t. like_escape (js_lower t) @ ''%'') (safe_string v 128)"

section \<open>What the parameters mean\<close>

lemma floor_log2_less: "n < 2 ^ Suc (floor_log2 n)"
proof (induction n rule: floor_log2.induct)
  case (1 n)
  show ?case
  proof (cases "n < 2")
    case True
    have "floor_log2 n = 0" unfolding floor_log2.simps [of n] using True by (rule if_P)
    with True show ?thesis by simp
  next
    case False
    then have "n div 2 < 2 ^ Suc (floor_log2 (n div 2))" by (rule "1.IH")
    then have "n < 2 * 2 ^ Suc (floor_log2 (n div 2))" by linarith
    with False show ?thesis unfolding floor_log2.simps [of n] by simp
  qed
qed

text \<open>A whole number that has no exact double is rounded to one past the safe integers.\<close>

lemma double_of_large:
  assumes "2 ^ 53 \<le> n"
  shows "double_of n 1 = Infinite True \<or> (\<exists>v. double_of n 1 = Whole (int v) \<and> 2 ^ 53 \<le> v)"
proof -
  define l where "l = floor_log2 n"
  have n0: "n \<noteq> 0" using assms by auto
  have le: "2 ^ l \<le> n" using n0 by (simp add: l_def floor_log2_le)
  have "(2::nat) ^ 53 < 2 ^ Suc l" using assms floor_log2_less [of n] unfolding l_def by linarith
  then have "53 < Suc l" by (rule power_less_imp_less_exp [rotated]) simp
  then have l53: "53 \<le> l" by simp
  have one: "floor_log2 (Suc 0) = 0" by (subst floor_log2.simps) simp
  have r: "ratio_log2 n 1 = int l" using le one by (simp add: ratio_log2_def Let_def l_def)
  define k where "k = l - 52"
  have shift: "max (- 1074) (int l - 52) = int k" using l53 by (simp add: k_def)
  define v where "v = round_div n (2 ^ k) * 2 ^ k"
  have "l = 52 + k" using l53 by (simp add: k_def)
  then have "2 ^ 52 * 2 ^ k \<le> n" using le by (simp only: power_add)
  then have "2 ^ 52 \<le> n div 2 ^ k" by (simp add: less_eq_div_iff_mult_less_eq)
  then have "2 ^ 52 \<le> round_div n (2 ^ k)" by (simp add: round_div_def Let_def)
  moreover have "(2::nat) ^ 1 \<le> 2 ^ k" using l53 by (intro power_increasing) (simp_all add: k_def)
  ultimately have "2 ^ 52 * 2 ^ 1 \<le> v" unfolding v_def by (rule mult_le_mono)
  then have v: "2 ^ 53 \<le> v" by simp
  have "double_of n 1 = (if 1024 \<le> int k then Infinite True else if 2 ^ 1024 \<le> v then Infinite True else Whole (int v))"
    unfolding double_of_def Let_def r shift using n0 by (simp only: if_False of_nat_0_le_iff if_True nat_int mult_1 v_def)
  with v show ?thesis by (auto split: if_splits)
qed

lemma safe_number_digits:
  assumes "all_digits s"
  shows "safe_number (js_number s) = (if digits_value s \<le> max_safe_integer then Some (digits_value s) else None)"
proof (cases "digits_value s < 2 ^ 53")
  case True
  then show ?thesis
    using js_number_digits [OF assms] double_of_exact [OF True] by (simp add: safe_number_def)
next
  case False
  then have "2 ^ 53 \<le> digits_value s" by simp
  from double_of_large [OF this] have "safe_number (js_number s) = None"
    using js_number_digits [OF assms] by (auto simp: safe_number_def max_safe_integer_def)
  with False show ?thesis by (simp add: max_safe_integer_def)
qed

text \<open>A page is asked for with a limit between 1 and the route's maximum and a cursor that is
  a safe integer, or refused; what is not given takes the route's default.\<close>

theorem bounded_cursor_bounds:
  assumes "o' \<in> snd ` set pagination_route_options"
  shows "(\<forall>limit cursor. bounded_cursor q o' = Some (limit, cursor) \<longrightarrow>
      1 \<le> limit \<and> limit \<le> po_max_limit o' \<and> cursor \<le> max_safe_integer \<and> (\<not> po_include_cursor o' \<longrightarrow> cursor = 0))
    \<and> (q ''limit'' \<in> {None, Some []} \<and> q ''cursor'' \<in> {None, Some []} \<longrightarrow>
      bounded_cursor q o' = Some (po_default_limit o', 0))"
proof -
  have opt: "1 \<le> po_default_limit o'" "po_default_limit o' \<le> po_max_limit o'" "po_allow_empty_value o'"
    using assms by (auto simp: pagination_route_options_def search_pagination_options_def limit_only_pagination_options_def
        default_pagination_options_def)
  have page: "parse_page_integer raw d lo hi True = Some n \<Longrightarrow> lo \<le> d \<Longrightarrow> d \<le> hi \<Longrightarrow> lo \<le> n \<and> n \<le> hi" for raw d lo hi n
    by (auto simp: parse_page_integer_def split: option.splits if_splits)
  have 1: "1 \<le> limit \<and> limit \<le> po_max_limit o' \<and> cursor \<le> max_safe_integer \<and> (\<not> po_include_cursor o' \<longrightarrow> cursor = 0)"
    if "bounded_cursor q o' = Some (limit, cursor)" for limit cursor
  proof -
    from that have l: "parse_page_integer (q ''limit'') (po_default_limit o') 1 (po_max_limit o') True = Some limit"
      and c: "(if \<not> po_include_cursor o' then Some 0 else parse_page_integer (q ''cursor'') 0 0 max_safe_integer True) = Some cursor"
      using opt(3) by (auto simp: bounded_cursor_def obind_Some_iff)
    show ?thesis using page [OF l] opt c page [of "q ''cursor''" 0 0 max_safe_integer cursor]
      by (auto split: if_splits)
  qed
  have "parse_page_integer raw d lo hi True = Some d" if "raw \<in> {None, Some []}" for raw d lo hi
    using that by (auto simp: parse_page_integer_def)
  then have 2: "q ''limit'' \<in> {None, Some []} \<and> q ''cursor'' \<in> {None, Some []} \<longrightarrow>
      bounded_cursor q o' = Some (po_default_limit o', 0)"
    using opt(3) by (simp add: bounded_cursor_def)
  show ?thesis using 1 2 by blast
qed

text \<open>The next page starts where the last one ended: the bookmark of an event is read back as
  its time and id, for any list options that allow a limit.\<close>

theorem events_cursor_roundtrip:
  assumes "created_at \<le> max_safe_integer" and "event_id \<le> max_safe_integer"
    and "q ''cursor'' = Some (encode_events_cursor created_at event_id)"
    and "bounded_cursor q (o'\<lparr>po_include_cursor := False\<rparr>) = Some (limit, x)"
  shows "bounded_events_cursor q o' = Some (limit, Some (created_at, event_id))"
proof -
  have d: "takeWhile js_digit (dec created_at @ '':'' @ dec event_id) = dec created_at"
    "dropWhile js_digit (dec created_at @ '':'' @ dec event_id) = '':'' @ dec event_id"
    using dec_digit by (subst takeWhile_append2 dropWhile_append2; auto simp: js_digit_def code_unit_def)+
  have n: "safe_number (js_number (dec created_at)) = Some created_at" "safe_number (js_number (dec event_id)) = Some event_id"
    using assms(1,2) by (simp_all add: safe_number_digits)
  have t: "parse_events_cursor_token (dec created_at @ '':'' @ dec event_id) = Some (created_at, event_id)"
    unfolding parse_events_cursor_token_def d Let_def by (simp add: n)
  have "dec created_at @ '':'' @ dec event_id \<noteq> []" by simp
  then show ?thesis
    unfolding bounded_events_cursor_def assms(4) assms(3) encode_events_cursor_def by (simp add: t [simplified])
qed

theorem bounded_cursor_bounds_witness:
  "bounded_cursor (\<lambda>_. None) search_pagination_options = Some (10, 0)"
proof -
  have "search_pagination_options \<in> snd ` set pagination_route_options"
    by (simp add: pagination_route_options_def)
  then show ?thesis
    using bounded_cursor_bounds [of search_pagination_options "\<lambda>_. None"] by (simp add: search_pagination_options_def limit_only_pagination_options_def default_pagination_options_def)
qed

theorem events_cursor_roundtrip_witness:
  "bounded_events_cursor [''cursor'' \<mapsto> encode_events_cursor 1700000000 42] default_pagination_options = Some (50, Some (1700000000, 42))"
  by (rule events_cursor_roundtrip [where x = 0])
    (simp_all add: max_safe_integer_def bounded_cursor_def parse_page_integer_def default_pagination_options_def)

text \<open>SQL's \<open>LIKE\<close> with a backslash as escape character.\<close>

fun like :: "string \<Rightarrow> string \<Rightarrow> bool" where
  "like [] s = (s = [])"
| "like (p # ps) s =
     (if p = backslash then (case ps of [] \<Rightarrow> False | q # qs \<Rightarrow> (case s of [] \<Rightarrow> False | c # cs \<Rightarrow> c = q \<and> like qs cs))
      else if p = CHR ''%'' then (case s of [] \<Rightarrow> like ps [] | c # cs \<Rightarrow> like ps s \<or> like (p # ps) cs)
      else (case s of [] \<Rightarrow> False | c # cs \<Rightarrow> (p = CHR ''_'' \<or> c = p) \<and> like ps cs))"

lemma like_any: "like ''%'' s"
  by (induction s) (simp_all add: backslash_def)

lemma like_percent: "like (CHR ''%'' # ps) s \<longleftrightarrow> (\<exists>a b. s = a @ b \<and> like ps b)"
proof (induction s)
  case Nil
  then show ?case by (simp add: backslash_def)
next
  case (Cons c cs)
  have "(\<exists>a b. c # cs = a @ b \<and> like ps b) \<longleftrightarrow> like ps (c # cs) \<or> (\<exists>a b. cs = a @ b \<and> like ps b)"
    by (metis Cons_eq_append_conv append_Nil append_Cons)
  with Cons show ?case by (simp add: backslash_def)
qed

lemma like_escaped: "like (like_escape t @ p) s \<longleftrightarrow> (\<exists>r. s = t @ r \<and> like p r)"
proof (induction t arbitrary: s)
  case Nil
  then show ?case by (simp add: like_escape_def)
next
  case (Cons c t)
  have e: "like_escape (c # t) @ p = (if c \<in> {backslash, CHR ''%'', CHR ''_''} then backslash # c # (like_escape t @ p)
      else c # (like_escape t @ p))"
    by (simp add: like_escape_def)
  show ?case
  proof (cases s)
    case Nil
    then show ?thesis unfolding e by (simp split: if_splits)
  next
    case (Cons d ds)
    have "like (like_escape (c # t) @ p) (d # ds) \<longleftrightarrow> d = c \<and> like (like_escape t @ p) ds"
      unfolding e by auto
    then show ?thesis using Cons.IH Cons by auto
  qed
qed

text \<open>A search by substring matches exactly the texts that contain the term in lower case, and
  a search by prefix those that start with it: the wildcards of a term are escaped and stand
  for themselves.\<close>

theorem like_patterns_match:
  "((\<exists>p. like_contains v = Some p \<and> like p s) \<longleftrightarrow> (\<exists>t. v = String t \<and> safe_text 128 t \<and> js_includes s (js_lower t)))
   \<and> ((\<exists>p. like_prefix v = Some p \<and> like p s) \<longleftrightarrow> (\<exists>t. v = String t \<and> safe_text 128 t \<and> js_starts s (js_lower t)))"
proof -
  have c: "like (''%'' @ like_escape u @ ''%'') s = js_includes s u" for u
    unfolding append.simps like_percent [of "like_escape u @ ''%''"] like_escaped js_includes_iff
    by (simp only: like_any simp_thms) blast
  have p: "like (like_escape u @ ''%'') s = js_starts s u" for u
    unfolding like_escaped js_starts_append by (simp only: like_any simp_thms)
  have m: "(\<exists>p. map_option f (safe_string v 128) = Some p \<and> like p s)
      = (\<exists>t. v = String t \<and> safe_text 128 t \<and> like (f t) s)" for f
    unfolding map_option_eq_Some safe_string_Some by blast
  show ?thesis unfolding like_contains_def like_prefix_def m c p by blast
qed

end
