(* ===== verification/Policy_Stamp.thy ===== *)
theory Policy_Stamp
  imports LCC_Prelude
begin

text \<open>
  \<open>entitlements/policy.mjs\<close> of the licensing domain: what a policy stamps on a new grant. Values
  have the types its declaration file gives; a number is an \<open>int\<close> (the epoch seconds and
  durations the callers validate add up far below 2^53), a nullable one an \<open>int option\<close>.
\<close>

record policy =
  pol_id :: string
  pol_project :: string
  pol_name :: string
  pol_type :: string
  pol_status :: string
  pol_valid_from_offset_sec :: "int option"
  pol_duration_sec :: "int option"
  pol_max_active_devices :: int
  pol_expiry_strategy :: string
  pol_trial_expiration_basis :: string
  pol_trial_duration_sec :: int
  pol_trial_one_per_device :: int
  pol_notes :: string
  pol_created_at :: int
  pol_updated_at :: int

text \<open>An override that is \<open>undefined\<close> is \<open>None\<close>; an explicit null is \<open>Some None\<close>.\<close>

record stamp_overrides =
  so_project :: string
  so_feature :: string
  so_fingerprint :: string
  so_valid_from :: "int option option"
  so_valid_until :: "int option option"
  so_notes :: "string option"
  so_customer_id :: "string option"
  so_license_id :: "string option"
  so_max_active_devices :: "int option"

record stamp_input =
  si_project :: string
  si_feature :: string
  si_fingerprint :: string
  si_status :: string
  si_valid_from :: "int option"
  si_valid_until :: "int option"
  si_notes :: string
  si_customer_id :: "string option"
  si_license_id :: "string option"

record trial_state =
  ts_is_trial :: int
  ts_expiration_basis :: "string option"
  ts_duration_sec :: int
  ts_one_per_device :: int

record stamp =
  st_input :: stamp_input
  st_max_active_devices :: int
  st_trial :: trial_state

definition stamp_trial_bases :: "string list" where
  "stamp_trial_bases = [''from_issue'', ''from_first_activation'', ''from_first_use'']"

definition or_else :: "'a option \<Rightarrow> 'a \<Rightarrow> 'a" where
  "or_else x d = (case x of None \<Rightarrow> d | Some y \<Rightarrow> y)"

definition stamp_valid_from :: "policy \<Rightarrow> int option option \<Rightarrow> int \<Rightarrow> int option" where
  "stamp_valid_from p override now =
     (case override of
        Some v \<Rightarrow> v
      | None \<Rightarrow> map_option (\<lambda>offset. now + offset) (pol_valid_from_offset_sec p))"

definition stamp_valid_until :: "policy \<Rightarrow> int option option \<Rightarrow> int option \<Rightarrow> int \<Rightarrow> int option" where
  "stamp_valid_until p override valid_from now =
     (let basis = (if pol_trial_expiration_basis p \<in> set stamp_trial_bases then pol_trial_expiration_basis p else ''from_issue'') in
      case override of
        Some v \<Rightarrow> v
      | None \<Rightarrow>
          if pol_expiry_strategy p = ''non_expiring'' then None
          else if pol_type p = ''trial'' then
            (if basis = ''from_issue'' \<and> 0 < pol_trial_duration_sec p
             then Some (or_else valid_from now + pol_trial_duration_sec p) else None)
          else map_option (\<lambda>d. or_else valid_from now + d) (pol_duration_sec p))"

text \<open>The window \<open>stampFromPolicy\<close> opens: an end that is not past the start drops the start.\<close>

definition ordered :: "int option \<Rightarrow> int option \<Rightarrow> bool" where
  "ordered a b \<longleftrightarrow> (case (a, b) of (Some x, Some y) \<Rightarrow> x < y | _ \<Rightarrow> True)"

definition stamp_trial :: "policy \<Rightarrow> trial_state" where
  "stamp_trial p =
     (if pol_type p = ''trial''
      then \<lparr>ts_is_trial = 1,
        ts_expiration_basis = Some (if pol_trial_expiration_basis p \<in> set stamp_trial_bases
          then pol_trial_expiration_basis p else ''from_issue''),
        ts_duration_sec = pol_trial_duration_sec p, ts_one_per_device = pol_trial_one_per_device p\<rparr>
      else \<lparr>ts_is_trial = 0, ts_expiration_basis = None, ts_duration_sec = 0, ts_one_per_device = 0\<rparr>)"

definition stamp_from_policy :: "policy \<Rightarrow> stamp_overrides \<Rightarrow> int \<Rightarrow> stamp" where
  "stamp_from_policy p o' now =
     (let valid_from0 = stamp_valid_from p (so_valid_from o') now;
          valid_until = stamp_valid_until p (so_valid_until o') valid_from0 now;
          valid_from = (if ordered valid_from0 valid_until then valid_from0 else None)
      in \<lparr>st_input = \<lparr>si_project = so_project o', si_feature = so_feature o', si_fingerprint = so_fingerprint o',
            si_status = ''active'', si_valid_from = valid_from, si_valid_until = valid_until,
            si_notes = or_else (so_notes o') [], si_customer_id = so_customer_id o', si_license_id = so_license_id o'\<rparr>,
          st_max_active_devices = or_else (so_max_active_devices o') (pol_max_active_devices p),
          st_trial = stamp_trial p\<rparr>)"

section \<open>What a stamp promises\<close>

text \<open>A policy as \<open>validatePolicyInput\<close> accepts it.\<close>

definition sound_policy :: "policy \<Rightarrow> bool" where
  "sound_policy p \<longleftrightarrow>
     (case pol_duration_sec p of None \<Rightarrow> True | Some d \<Rightarrow> 0 < d)
     \<and> 0 \<le> pol_trial_duration_sec p \<and> 1 \<le> pol_max_active_devices p
     \<and> pol_trial_one_per_device p \<in> {0, 1} \<and> pol_trial_expiration_basis p \<in> set stamp_trial_bases"

lemma ordered_simps [simp]: "ordered None b" "ordered a None" "ordered (Some x) (Some y) \<longleftrightarrow> x < y"
  by (auto simp: ordered_def split: option.splits)

lemma stamp_window: "ordered (si_valid_from (st_input (stamp_from_policy p o' now))) (si_valid_until (st_input (stamp_from_policy p o' now)))"
  by (simp add: stamp_from_policy_def Let_def)

text \<open>A grant stamped from a policy is active, has an ordered window and takes the operator's
  overrides. When the policy is sound and the end of the window is left to it, the grant ends
  exactly its duration after it starts (now, when the start is open), a trial that runs from issue likewise, and
  the grant is open-ended for the non-expiring strategy and for a trial whose clock starts later.\<close>

theorem stamp_from_policy_window:
  assumes "sound_policy p" and "so_valid_until o' = None" and "stamp_from_policy p o' now = s"
  shows "si_status (st_input s) = ''active''
    \<and> si_valid_from (st_input s) = stamp_valid_from p (so_valid_from o') now
    \<and> si_valid_until (st_input s) =
        (if pol_expiry_strategy p = ''non_expiring'' then None
         else if pol_type p = ''trial''
         then (if pol_trial_expiration_basis p = ''from_issue'' \<and> pol_trial_duration_sec p \<noteq> 0
               then Some (or_else (si_valid_from (st_input s)) now + pol_trial_duration_sec p) else None)
         else map_option (\<lambda>d. or_else (si_valid_from (st_input s)) now + d) (pol_duration_sec p))
    \<and> ts_is_trial (st_trial s) = (if pol_type p = ''trial'' then 1 else 0)"
proof -
  let ?u = "stamp_valid_until p None (stamp_valid_from p (so_valid_from o') now) now"
  have basis: "pol_trial_expiration_basis p \<in> set stamp_trial_bases" and t: "0 \<le> pol_trial_duration_sec p"
    and d: "\<And>d. pol_duration_sec p = Some d \<Longrightarrow> 0 < d"
    using assms(1) by (auto simp: sound_policy_def split: option.splits)
  have u: "?u = (if pol_expiry_strategy p = ''non_expiring'' then None
         else if pol_type p = ''trial''
         then (if pol_trial_expiration_basis p = ''from_issue'' \<and> pol_trial_duration_sec p \<noteq> 0
               then Some (or_else (stamp_valid_from p (so_valid_from o') now) now + pol_trial_duration_sec p) else None)
         else map_option (\<lambda>d. or_else (stamp_valid_from p (so_valid_from o') now) now + d) (pol_duration_sec p))"
    using basis t by (simp add: stamp_valid_until_def less_le)
  have "ordered (stamp_valid_from p (so_valid_from o') now) ?u"
    unfolding u using t d by (cases "stamp_valid_from p (so_valid_from o') now"; cases "pol_duration_sec p")
      (auto simp: or_else_def)
  then have f: "si_valid_from (st_input s) = stamp_valid_from p (so_valid_from o') now"
    using assms(2,3) by (auto simp: stamp_from_policy_def Let_def)
  have "si_valid_until (st_input s) = ?u" "si_status (st_input s) = ''active''"
    "ts_is_trial (st_trial s) = (if pol_type p = ''trial'' then 1 else 0)"
    using assms(2,3) by (auto simp: stamp_from_policy_def Let_def stamp_trial_def)
  then show ?thesis unfolding f u by (simp only: simp_thms)
qed

definition example_policy :: policy where
  "example_policy = \<lparr>pol_id = ''pol_1'', pol_project = ''demo'', pol_name = ''Pro'', pol_type = ''subscription'', pol_status = ''active'',
     pol_valid_from_offset_sec = Some 0, pol_duration_sec = Some 86400, pol_max_active_devices = 3,
     pol_expiry_strategy = ''fixed_window'', pol_trial_expiration_basis = ''from_issue'', pol_trial_duration_sec = 0,
     pol_trial_one_per_device = 0, pol_notes = [], pol_created_at = 1, pol_updated_at = 1\<rparr>"

definition example_overrides :: stamp_overrides where
  "example_overrides = \<lparr>so_project = ''demo'', so_feature = ''base'', so_fingerprint = ''ff'', so_valid_from = None,
     so_valid_until = None, so_notes = None, so_customer_id = Some ''cus'', so_license_id = Some ''lic'', so_max_active_devices = None\<rparr>"

theorem stamp_from_policy_window_witness:
  "si_valid_until (st_input (stamp_from_policy example_policy example_overrides 1000)) = Some 87400"
  using stamp_from_policy_window [of example_policy example_overrides 1000 "stamp_from_policy example_policy example_overrides 1000"]
  by (simp add: sound_policy_def example_policy_def example_overrides_def stamp_trial_bases_def stamp_valid_from_def or_else_def)

end
