(* ===== verification/Plan_Projection.thy ===== *)
theory Plan_Projection
  imports JS_Values Policy_Stamp
begin

text \<open>
  \<open>catalog/plan_projection.mjs\<close> of the licensing domain: the normalized request, the grant each
  plan feature asks for, and the classification of a license's grants against its plan.

  The request is any JavaScript value; catalog rows and grants have the types of the declaration
  files, with \<open>None\<close> for null. \<open>summarizeDesired\<close> and \<open>summarizeExisting\<close> render a
  grant for the response.
\<close>

section \<open>The request\<close>

definition max_support_until :: int where
  "max_support_until = 253402300799"

definition preview_id_char :: "char \<Rightarrow> bool" where
  "preview_id_char c \<longleftrightarrow> js_alnum c \<or> c = CHR ''_'' \<or> c = CHR ''-''"

definition preview_id_shape :: "string \<Rightarrow> string \<Rightarrow> bool" where
  "preview_id_shape prefix s \<longleftrightarrow>
     (let r = drop (length prefix) s in
        js_starts s prefix \<and> 1 \<le> length r \<and> length r \<le> 124 \<and> list_all preview_id_char r)"

definition is_plan_projection_preview_id :: "jsval \<Rightarrow> bool" where
  "is_plan_projection_preview_id v \<longleftrightarrow> (case v of String s \<Rightarrow> preview_id_shape ''ppv_'' s | _ \<Rightarrow> False)"

record projection_input =
  pi_project :: string
  pi_license_id :: string
  pi_fingerprint :: string
  pi_customer_id :: "string option"
  pi_plan_id :: "string option"
  pi_plan_key :: "string option"
  pi_support_until :: "int option"
  pi_support_until_provided :: bool
  pi_addons :: "string list"
  pi_notes :: string

definition invalid :: "string \<Rightarrow> string" where
  "invalid name = ''invalid_'' @ name"

definition trimmed_required :: "jsval \<Rightarrow> string \<Rightarrow> string outcome" where
  "trimmed_required input name = (case field name input of
     String s \<Rightarrow> if js_trim s = [] then Inl (invalid name) else Inr (js_trim s)
   | _ \<Rightarrow> Inl (invalid name))"

definition trimmed_optional :: "jsval \<Rightarrow> string \<Rightarrow> string option outcome" where
  "trimmed_optional input name = (case field name input of
     Undefined \<Rightarrow> Inr None
   | Null \<Rightarrow> Inr None
   | String s \<Rightarrow> Inr (if js_trim s = [] then None else Some (js_trim s))
   | _ \<Rightarrow> Inl (invalid name))"

definition optional_integer :: "jsval \<Rightarrow> string \<Rightarrow> int \<Rightarrow> int option outcome" where
  "optional_integer input name maximum = (case field name input of
     Undefined \<Rightarrow> Inr None
   | Null \<Rightarrow> Inr None
   | Number n \<Rightarrow> (case n of
        Whole i \<Rightarrow> if is_safe_integer n \<and> 0 \<le> i \<and> i \<le> maximum then Inr (Some i) else Inl (invalid name)
      | _ \<Rightarrow> Inl (invalid name))
   | _ \<Rightarrow> Inl (invalid name))"

fun collect_addons :: "string list \<Rightarrow> jsval list \<Rightarrow> string list outcome" where
  "collect_addons seen [] = Inr []"
| "collect_addons seen (v # vs) = (case v of
     String s \<Rightarrow>
       (if js_trim s \<noteq> [] \<and> js_trim s \<notin> set seen
        then rbind (collect_addons (js_trim s # seen) vs) (\<lambda>rest. Inr (js_trim s # rest))
        else collect_addons seen vs)
   | _ \<Rightarrow> Inl (invalid ''addons''))"

definition normalize_addons :: "jsval \<Rightarrow> string list outcome" where
  "normalize_addons v = (case v of
     Undefined \<Rightarrow> Inr []
   | Null \<Rightarrow> Inr []
   | Array vs \<Rightarrow> collect_addons [] vs
   | _ \<Rightarrow> Inl (invalid ''addons''))"

definition normalize_plan_projection_input :: "jsval \<Rightarrow> projection_input outcome" where
  "normalize_plan_projection_input input =
     rbind (trimmed_required input ''project'') (\<lambda>project.
     rbind (trimmed_required input ''license_id'') (\<lambda>license_id.
     rbind (trimmed_required input ''license_fingerprint'') (\<lambda>fingerprint.
     rbind (trimmed_optional input ''plan_id'') (\<lambda>plan_id.
     rbind (trimmed_optional input ''plan_key'') (\<lambda>plan_key.
     if plan_id = None \<and> plan_key = None then Inl (invalid ''plan'') else
     rbind (trimmed_optional input ''customer_id'') (\<lambda>customer_id.
     rbind (optional_integer input ''support_until'' max_support_until) (\<lambda>support_until.
     rbind (normalize_addons (field ''addons'' input)) (\<lambda>addons.
     rbind (trimmed_optional input ''notes'') (\<lambda>notes.
       Inr \<lparr>pi_project = project, pi_license_id = license_id, pi_fingerprint = fingerprint,
         pi_customer_id = customer_id, pi_plan_id = plan_id, pi_plan_key = plan_key,
         pi_support_until = support_until,
         pi_support_until_provided = (''support_until'' \<in> set (keys_of input)),
         pi_addons = addons, pi_notes = or_else notes []\<rparr>)))))))))"

section \<open>What a plan feature asks for\<close>

text \<open>A row of the plan-feature query; \<open>cr_policy\<close> holds the joined policy columns, \<open>None\<close>
  when \<open>policy_id_resolved\<close> is null.\<close>

record catalog_row =
  cr_feature_key :: string
  cr_feature_inclusion :: string
  cr_addon_key :: "string option"
  cr_plan_policy_id :: "string option"
  cr_max_active_devices :: "int option"
  cr_feature_name :: string
  cr_policy :: "policy option"

record desired_row =
  dr_input :: stamp_input
  dr_policy_id :: "string option"
  dr_max_active_devices :: int
  dr_trial :: trial_state
  dr_source :: string
  dr_addon_key :: "string option"
  dr_feature_name :: string

text \<open>\<open>rowInteger(row, "max_active_devices")\<close>: a negative column is no override.\<close>

definition device_limit_override :: "catalog_row \<Rightarrow> int option" where
  "device_limit_override r = (case cr_max_active_devices r of
     Some n \<Rightarrow> if 0 \<le> n then Some n else None | None \<Rightarrow> None)"

definition zero_trial :: trial_state where
  "zero_trial = \<lparr>ts_is_trial = 0, ts_expiration_basis = None, ts_duration_sec = 0, ts_one_per_device = 0\<rparr>"

definition default_capacity :: int where
  "default_capacity = 1"

definition desired_stamp :: "catalog_row \<Rightarrow> projection_input \<Rightarrow> int \<Rightarrow> stamp" where
  "desired_stamp r input now =
     (let until = (if pi_support_until_provided input then Some (pi_support_until input) else None) in
      case cr_policy r of
        None \<Rightarrow>
          \<lparr>st_input = \<lparr>si_project = pi_project input, si_feature = cr_feature_key r, si_fingerprint = pi_fingerprint input,
              si_status = ''active'', si_valid_from = None,
              si_valid_until = (if pi_support_until_provided input then pi_support_until input else None),
              si_notes = pi_notes input, si_customer_id = pi_customer_id input, si_license_id = Some (pi_license_id input)\<rparr>,
            st_max_active_devices = or_else (device_limit_override r) default_capacity,
            st_trial = zero_trial\<rparr>
      | Some p \<Rightarrow>
          stamp_from_policy p \<lparr>so_project = pi_project input, so_feature = cr_feature_key r, so_fingerprint = pi_fingerprint input,
              so_valid_from = None, so_valid_until = until, so_notes = Some (pi_notes input),
              so_customer_id = pi_customer_id input, so_license_id = Some (pi_license_id input),
              so_max_active_devices = device_limit_override r\<rparr> now)"

definition desired_plan_projection_row :: "catalog_row \<Rightarrow> projection_input \<Rightarrow> int \<Rightarrow> desired_row" where
  "desired_plan_projection_row r input now =
     (let s = desired_stamp r input now in
      \<lparr>dr_input = st_input s, dr_policy_id = map_option pol_id (cr_policy r),
       dr_max_active_devices = st_max_active_devices s, dr_trial = st_trial s,
       dr_source = cr_feature_inclusion r,
       dr_addon_key = (if cr_feature_inclusion r = ''addon''
         then Some (or_else (cr_addon_key r) (cr_feature_key r)) else None),
       dr_feature_name = cr_feature_name r\<rparr>)"

section \<open>Grants\<close>

text \<open>A row of \<open>entitlements\<close>, the columns \<open>ENTITLEMENT_COLUMNS\<close> lists.\<close>

record grant =
  g_project :: string
  g_feature :: string
  g_fingerprint :: string
  g_status :: string
  g_revocation_seq :: int
  g_valid_from :: "int option"
  g_valid_until :: "int option"
  g_notes :: string
  g_customer_id :: string
  g_license_id :: "string option"
  g_policy_id :: "string option"
  g_is_trial :: int
  g_trial_expiration_basis :: "string option"
  g_trial_duration_sec :: int
  g_trial_one_per_device :: int
  g_trial_started_at :: "int option"
  g_trial_device_key_id :: "string option"
  g_max_active_devices :: int
  g_lease_seconds :: int
  g_created_at :: int
  g_updated_at :: int

record plan_item =
  it_project :: string
  it_feature :: string
  it_fingerprint :: string
  it_policy_id :: "string option"
  it_source :: string
  it_addon_key :: "string option"
  it_license_mode :: string
  it_status :: string
  it_valid_from :: "int option"
  it_valid_until :: "int option"
  it_max_active_devices :: int
  it_reason :: "string option"
  it_previous_status :: "string option"

definition capability_mode :: "int \<Rightarrow> string" where
  "capability_mode is_trial = (if is_trial = 1 then ''trial'' else ''node_locked'')"

definition summarize_desired :: "desired_row \<Rightarrow> plan_item" where
  "summarize_desired d = \<lparr>it_project = si_project (dr_input d), it_feature = si_feature (dr_input d),
     it_fingerprint = si_fingerprint (dr_input d), it_policy_id = dr_policy_id d, it_source = dr_source d,
     it_addon_key = dr_addon_key d, it_license_mode = capability_mode (ts_is_trial (dr_trial d)),
     it_status = si_status (dr_input d), it_valid_from = si_valid_from (dr_input d),
     it_valid_until = si_valid_until (dr_input d), it_max_active_devices = dr_max_active_devices d,
     it_reason = None, it_previous_status = None\<rparr>"

definition summarize_existing :: "grant \<Rightarrow> string \<Rightarrow> plan_item" where
  "summarize_existing g reason = \<lparr>it_project = g_project g, it_feature = g_feature g,
     it_fingerprint = g_fingerprint g, it_policy_id = g_policy_id g, it_source = ''included'', it_addon_key = None,
     it_license_mode = capability_mode (g_is_trial g), it_status = g_status g, it_valid_from = g_valid_from g,
     it_valid_until = g_valid_until g, it_max_active_devices = g_max_active_devices g,
     it_reason = Some reason, it_previous_status = None\<rparr>"

definition plan_projection_matches_desired :: "grant \<Rightarrow> desired_row \<Rightarrow> bool" where
  "plan_projection_matches_desired g d \<longleftrightarrow>
     g_status g = ''active''
     \<and> g_valid_from g = si_valid_from (dr_input d)
     \<and> g_valid_until g = si_valid_until (dr_input d)
     \<and> g_notes g = si_notes (dr_input d)
     \<and> Some (g_customer_id g) = si_customer_id (dr_input d)
     \<and> g_license_id g = si_license_id (dr_input d)
     \<and> g_policy_id g = dr_policy_id d
     \<and> g_max_active_devices g = dr_max_active_devices d
     \<and> g_is_trial g = ts_is_trial (dr_trial d)
     \<and> g_trial_expiration_basis g = ts_expiration_basis (dr_trial d)
     \<and> g_trial_duration_sec g = ts_duration_sec (dr_trial d)
     \<and> g_trial_one_per_device g = ts_one_per_device (dr_trial d)"

section \<open>Classification\<close>

record projection =
  pj_create :: "plan_item list"
  pj_update :: "plan_item list"
  pj_disable :: "plan_item list"
  pj_blocked :: "plan_item list"
  pj_unchanged :: "plan_item list"

definition empty_projection :: projection where
  "empty_projection = \<lparr>pj_create = [], pj_update = [], pj_disable = [], pj_blocked = [], pj_unchanged = []\<rparr>"

text \<open>\<open>new Map(rows.map((row) => [row.feature, row])).get(feature)\<close>: the last row wins.\<close>

definition row_of :: "('a \<Rightarrow> string) \<Rightarrow> 'a list \<Rightarrow> string \<Rightarrow> 'a option" where
  "row_of f rows name = find (\<lambda>r. f r = name) (rev rows)"

definition owned_input :: "projection_input \<Rightarrow> bool" where
  "owned_input input \<longleftrightarrow> pi_customer_id input \<noteq> None \<and> pi_customer_id input \<noteq> Some []"

definition classify_desired :: "projection_input \<Rightarrow> grant list \<Rightarrow> projection \<Rightarrow> desired_row \<Rightarrow> projection" where
  "classify_desired input rows p d =
     (let item = summarize_desired d in
      case row_of g_feature rows (si_feature (dr_input d)) of
        None \<Rightarrow>
          if \<not> owned_input input then p\<lparr>pj_blocked := pj_blocked p @ [item\<lparr>it_reason := Some ''owner_required''\<rparr>]\<rparr>
          else p\<lparr>pj_create := pj_create p @ [item]\<rparr>
      | Some g \<Rightarrow>
          if g_status g = ''revoked'' then p\<lparr>pj_blocked := pj_blocked p @ [item\<lparr>it_reason := Some ''revoked_entitlement''\<rparr>]\<rparr>
          else if \<not> owned_input input then p\<lparr>pj_blocked := pj_blocked p @ [item\<lparr>it_reason := Some ''owner_required''\<rparr>]\<rparr>
          else if plan_projection_matches_desired g d then p\<lparr>pj_unchanged := pj_unchanged p @ [item]\<rparr>
          else p\<lparr>pj_update := pj_update p @ [item\<lparr>it_previous_status := Some (g_status g)\<rparr>]\<rparr>)"

definition desired_features :: "desired_row list \<Rightarrow> string set" where
  "desired_features ds = (\<lambda>d. si_feature (dr_input d)) ` set ds"

definition classify_existing :: "desired_row list \<Rightarrow> projection \<Rightarrow> grant \<Rightarrow> projection" where
  "classify_existing ds p g =
     (if g_feature g \<in> desired_features ds then p
      else if g_status g = ''revoked'' \<or> g_status g = ''disabled''
      then p\<lparr>pj_unchanged := pj_unchanged p @ [summarize_existing g ''not_in_plan'']\<rparr>
      else p\<lparr>pj_disable := pj_disable p @ [summarize_existing g ''not_in_plan'']\<rparr>)"

definition classify_plan_projection :: "projection_input \<Rightarrow> desired_row list \<Rightarrow> grant list \<Rightarrow> projection" where
  "classify_plan_projection input ds rows =
     foldl (classify_existing ds) (foldl (classify_desired input rows) empty_projection ds) rows"

record projection_summary =
  ps_create :: nat
  ps_update :: nat
  ps_disable :: nat
  ps_blocked :: nat
  ps_unchanged :: nat

definition projection_summary_of :: "projection \<Rightarrow> projection_summary" where
  "projection_summary_of p = \<lparr>ps_create = length (pj_create p), ps_update = length (pj_update p),
     ps_disable = length (pj_disable p), ps_blocked = length (pj_blocked p), ps_unchanged = length (pj_unchanged p)\<rparr>"

section \<open>The request a body spells\<close>

text \<open>A required text is what is left of it without the white space around it; an optional one is
  absent, null or blank, or such a text. The add-ons are the distinct ones in the order they first come.\<close>

definition spells_trimmed :: "jsval \<Rightarrow> string \<Rightarrow> bool" where
  "spells_trimmed v s \<longleftrightarrow> (\<exists>r. v = String r \<and> s = js_trim r \<and> s \<noteq> [])"

definition spells_trimmed_or_none :: "jsval \<Rightarrow> string option \<Rightarrow> bool" where
  "spells_trimmed_or_none v x \<longleftrightarrow> (case x of
     None \<Rightarrow> v \<in> {Undefined, Null} \<or> (\<exists>r. v = String r \<and> js_trim r = [])
   | Some s \<Rightarrow> spells_trimmed v s)"

definition spells_support_until :: "jsval \<Rightarrow> int option \<Rightarrow> bool" where
  "spells_support_until v x \<longleftrightarrow> (case x of None \<Rightarrow> v \<in> {Undefined, Null}
     | Some n \<Rightarrow> v = Number (Whole n) \<and> 0 \<le> n \<and> n \<le> 253402300799)"

definition first_occurrences :: "'a list \<Rightarrow> 'a list" where
  "first_occurrences xs = rev (remdups (rev xs))"

definition spells_addons :: "jsval \<Rightarrow> string list \<Rightarrow> bool" where
  "spells_addons v ss \<longleftrightarrow> v \<in> {Undefined, Null} \<and> ss = []
     \<or> (\<exists>ts. v = Array (List.map String ts) \<and> ss = first_occurrences (filter (\<lambda>t. t \<noteq> []) (List.map js_trim ts)))"

definition spells_projection :: "jsval \<Rightarrow> projection_input \<Rightarrow> bool" where
  "spells_projection v n \<longleftrightarrow>
     spells_trimmed (field ''project'' v) (pi_project n) \<and> spells_trimmed (field ''license_id'' v) (pi_license_id n)
     \<and> spells_trimmed (field ''license_fingerprint'' v) (pi_fingerprint n)
     \<and> spells_trimmed_or_none (field ''plan_id'' v) (pi_plan_id n)
     \<and> spells_trimmed_or_none (field ''plan_key'' v) (pi_plan_key n)
     \<and> (pi_plan_id n \<noteq> None \<or> pi_plan_key n \<noteq> None)
     \<and> spells_trimmed_or_none (field ''customer_id'' v) (pi_customer_id n)
     \<and> spells_support_until (field ''support_until'' v) (pi_support_until n)
     \<and> pi_support_until_provided n = (''support_until'' \<in> set (keys_of v))
     \<and> spells_addons (field ''addons'' v) (pi_addons n)
     \<and> (spells_trimmed (field ''notes'' v) (pi_notes n)
        \<or> pi_notes n = [] \<and> spells_trimmed_or_none (field ''notes'' v) None)"

lemma trimmed_required_iff: "trimmed_required v k = Inr s \<longleftrightarrow> spells_trimmed (field k v) s"
  by (auto simp: trimmed_required_def spells_trimmed_def split: jsval.splits if_splits)

lemma trimmed_optional_iff: "trimmed_optional v k = Inr x \<longleftrightarrow> spells_trimmed_or_none (field k v) x"
  by (cases x) (auto simp: trimmed_optional_def spells_trimmed_or_none_def spells_trimmed_def split: jsval.splits if_splits)

lemma optional_integer_iff:
  "optional_integer v k max_support_until = Inr x \<longleftrightarrow> spells_support_until (field k v) x"
  by (cases x) (auto simp: optional_integer_def spells_support_until_def max_support_until_def max_safe_integer_def
      split: jsval.splits jsnum.splits if_splits)

lemma remdups_snoc: "remdups (ys @ [x]) = remdups (filter (\<lambda>y. y \<noteq> x) ys) @ [x]"
  by (induction ys) auto

lemma first_occurrences_simps:
  "first_occurrences [] = []"
  "first_occurrences (x # xs) = x # first_occurrences (filter (\<lambda>y. y \<noteq> x) xs)"
  by (simp_all add: first_occurrences_def remdups_snoc rev_filter)

lemma collect_addons_texts:
  "collect_addons seen (List.map String ts) =
     Inr (first_occurrences (filter (\<lambda>t. t \<noteq> [] \<and> t \<notin> set seen) (List.map js_trim ts)))"
proof (induction ts arbitrary: seen)
  case Nil
  then show ?case by (simp add: first_occurrences_simps)
next
  case (Cons t ts)
  show ?case
    by (simp add: Cons first_occurrences_simps rbind_def conj_ac)
qed

lemma collect_addons_Inr: "collect_addons seen vs = Inr ss \<Longrightarrow> \<exists>ts. vs = List.map String ts"
proof (induction seen vs arbitrary: ss rule: collect_addons.induct)
  case (1 seen)
  then show ?case by simp
next
  case (2 seen v vs)
  then obtain t where v: "v = String t" by (cases v) simp_all
  have "\<exists>ts. vs = List.map String ts"
    using 2 v by (cases "js_trim t \<noteq> [] \<and> js_trim t \<notin> set seen") (auto simp: rbind_Inr_iff)
  then obtain ts where "vs = List.map String ts" ..
  with v have "v # vs = List.map String (t # ts)" by simp
  then show ?case by (rule exI)
qed

lemma normalize_addons_iff: "normalize_addons v = Inr ss \<longleftrightarrow> spells_addons v ss"
proof (cases v)
  case (Array vs)
  have "collect_addons [] vs = Inr ss \<longleftrightarrow>
      (\<exists>ts. vs = List.map String ts \<and> ss = first_occurrences (filter (\<lambda>t. t \<noteq> []) (List.map js_trim ts)))"
    (is "?l \<longleftrightarrow> ?r")
  proof
    assume ?l
    moreover from this obtain ts where "vs = List.map String ts" using collect_addons_Inr by blast
    ultimately show ?r using collect_addons_texts [of "[]" ts] by (intro exI [of _ ts]) simp
  next
    assume ?r
    then show ?l using collect_addons_texts [of "[]"] by auto
  qed
  then show ?thesis by (simp add: Array normalize_addons_def spells_addons_def)
qed (auto simp: normalize_addons_def spells_addons_def)

text \<open>C34. A request is read as a projection exactly when its body spells it: project, license and
  fingerprint given and not blank, a plan id or a plan key, a support date that is a whole number up to
  the end of the year 9999 and remembered as given even when it is null, the add-ons without blanks
  and repetitions, every text without the white space around it.\<close>

theorem normalize_plan_projection_input_exact:
  "normalize_plan_projection_input v = Inr n \<longleftrightarrow> spells_projection v n"
proof -
  have remark: "(\<exists>z. spells_trimmed_or_none w z \<and> s = or_else z []) \<longleftrightarrow>
      spells_trimmed w s \<or> s = [] \<and> spells_trimmed_or_none w None" for w s
  proof -
    have "(\<exists>z. P z \<and> s = or_else z []) \<longleftrightarrow> P (Some s) \<or> s = [] \<and> P None" for P
      by (auto simp: split_option_ex or_else_def)
    then show ?thesis by (simp add: spells_trimmed_or_none_def)
  qed
  have plan: "(if a = None \<and> b = None then Inl e else x) = Inr y \<longleftrightarrow> (a \<noteq> None \<or> b \<noteq> None) \<and> x = Inr y"
    for a b :: "string option" and e and x :: "projection_input outcome" and y
    by auto
  show ?thesis
    unfolding spells_projection_def remark [symmetric] normalize_plan_projection_input_def rbind_Inr_iff plan
      trimmed_required_iff trimmed_optional_iff optional_integer_iff normalize_addons_iff
    by (cases n, rule iffI; elim exE conjE; (intro exI conjI)?; (assumption | simp))
qed

section \<open>Every grant gets one verdict\<close>

datatype verdict = Creates | Updates string | Keeps | Blocks string

definition verdict :: "projection_input \<Rightarrow> grant list \<Rightarrow> desired_row \<Rightarrow> verdict" where
  "verdict input rows d =
     (case row_of g_feature rows (si_feature (dr_input d)) of
        None \<Rightarrow> if owned_input input then Creates else Blocks ''owner_required''
      | Some g \<Rightarrow>
          if g_status g = ''revoked'' then Blocks ''revoked_entitlement''
          else if \<not> owned_input input then Blocks ''owner_required''
          else if plan_projection_matches_desired g d then Keeps else Updates (g_status g))"

definition withdrawn :: "grant \<Rightarrow> bool" where
  "withdrawn g \<longleftrightarrow> g_status g = ''revoked'' \<or> g_status g = ''disabled''"

lemma classify_desired_verdict:
  "classify_desired input rows p d =
     (let item = summarize_desired d in
      case verdict input rows d of
        Creates \<Rightarrow> p\<lparr>pj_create := pj_create p @ [item]\<rparr>
      | Updates s \<Rightarrow> p\<lparr>pj_update := pj_update p @ [item\<lparr>it_previous_status := Some s\<rparr>]\<rparr>
      | Keeps \<Rightarrow> p\<lparr>pj_unchanged := pj_unchanged p @ [item]\<rparr>
      | Blocks r \<Rightarrow> p\<lparr>pj_blocked := pj_blocked p @ [item\<lparr>it_reason := Some r\<rparr>]\<rparr>)"
  by (simp add: classify_desired_def verdict_def Let_def split: option.split)

fun verdict_items :: "(verdict \<Rightarrow> plan_item \<Rightarrow> plan_item list) \<Rightarrow> (desired_row \<Rightarrow> verdict) \<Rightarrow> desired_row list \<Rightarrow> plan_item list" where
  "verdict_items f v [] = []"
| "verdict_items f v (d # ds) = f (v d) (summarize_desired d) @ verdict_items f v ds"

definition created_item :: "verdict \<Rightarrow> plan_item \<Rightarrow> plan_item list" where
  "created_item v i = (case v of Creates \<Rightarrow> [i] | _ \<Rightarrow> [])"

definition updated_item :: "verdict \<Rightarrow> plan_item \<Rightarrow> plan_item list" where
  "updated_item v i = (case v of Updates s \<Rightarrow> [i\<lparr>it_previous_status := Some s\<rparr>] | _ \<Rightarrow> [])"

definition kept_item :: "verdict \<Rightarrow> plan_item \<Rightarrow> plan_item list" where
  "kept_item v i = (case v of Keeps \<Rightarrow> [i] | _ \<Rightarrow> [])"

definition blocked_item :: "verdict \<Rightarrow> plan_item \<Rightarrow> plan_item list" where
  "blocked_item v i = (case v of Blocks r \<Rightarrow> [i\<lparr>it_reason := Some r\<rparr>] | _ \<Rightarrow> [])"

lemmas verdict_item_defs = created_item_def updated_item_def kept_item_def blocked_item_def

lemma fold_desired:
  "foldl (classify_desired input rows) p ds = p\<lparr>
     pj_create := pj_create p @ verdict_items created_item (verdict input rows) ds,
     pj_update := pj_update p @ verdict_items updated_item (verdict input rows) ds,
     pj_blocked := pj_blocked p @ verdict_items blocked_item (verdict input rows) ds,
     pj_unchanged := pj_unchanged p @ verdict_items kept_item (verdict input rows) ds\<rparr>"
  by (induction ds arbitrary: p)
    (simp_all add: classify_desired_verdict Let_def verdict_item_defs split: verdict.split)

lemma fold_existing:
  "foldl (classify_existing ds) p rows = p\<lparr>
     pj_disable := pj_disable p @ List.map (\<lambda>g. summarize_existing g ''not_in_plan'')
       (filter (\<lambda>g. g_feature g \<notin> desired_features ds \<and> \<not> withdrawn g) rows),
     pj_unchanged := pj_unchanged p @ List.map (\<lambda>g. summarize_existing g ''not_in_plan'')
       (filter (\<lambda>g. g_feature g \<notin> desired_features ds \<and> withdrawn g) rows)\<rparr>"
  by (induction rows arbitrary: p) (simp_all add: classify_existing_def withdrawn_def)

lemma classify_verdicts:
  "classify_plan_projection input ds rows = \<lparr>
     pj_create = verdict_items created_item (verdict input rows) ds,
     pj_update = verdict_items updated_item (verdict input rows) ds,
     pj_disable = List.map (\<lambda>g. summarize_existing g ''not_in_plan'')
       (filter (\<lambda>g. g_feature g \<notin> desired_features ds \<and> \<not> withdrawn g) rows),
     pj_blocked = verdict_items blocked_item (verdict input rows) ds,
     pj_unchanged = verdict_items kept_item (verdict input rows) ds
       @ List.map (\<lambda>g. summarize_existing g ''not_in_plan'')
           (filter (\<lambda>g. g_feature g \<notin> desired_features ds \<and> withdrawn g) rows)\<rparr>"
  by (simp add: classify_plan_projection_def fold_desired fold_existing empty_projection_def)

lemma set_verdict_items: "set (verdict_items f v ds) = (\<Union>d\<in>set ds. set (f (v d) (summarize_desired d)))"
  by (induction ds) simp_all

lemma row_of_iff: "row_of f rows n = None \<longleftrightarrow> n \<notin> f ` set rows"
  by (auto simp: row_of_def find_None_iff)

lemma verdict_creates:
  "verdict input rows d = Creates \<longleftrightarrow> owned_input input \<and> si_feature (dr_input d) \<notin> g_feature ` set rows"
  unfolding verdict_def row_of_iff [symmetric] by (simp split: option.split)

text \<open>Which rows answer to a desired row, when every feature has one row: that feature's.\<close>

lemma find_found: "find P xs = Some r \<Longrightarrow> r \<in> set xs \<and> P r"
  by (induction xs) (auto split: if_splits)

lemma row_of_map:
  assumes "distinct (List.map f rows)"
  shows "row_of f rows n = map_of (List.map (\<lambda>r. (f r, r)) rows) n"
proof -
  have "row_of f rows n = Some r \<longleftrightarrow> r \<in> set rows \<and> f r = n" for r
  proof
    assume "row_of f rows n = Some r"
    then show "r \<in> set rows \<and> f r = n" using find_found [of "\<lambda>r. f r = n" "rev rows" r] by (simp add: row_of_def)
  next
    assume r: "r \<in> set rows \<and> f r = n"
    then obtain g where g: "row_of f rows n = Some g" using row_of_iff [of f rows n] by (cases "row_of f rows n") auto
    then have "g \<in> set rows \<and> f g = n" using find_found [of "\<lambda>r. f r = n" "rev rows" g] by (simp add: row_of_def)
    with r assms have "g = r" by (auto simp: distinct_map inj_on_def)
    with g show "row_of f rows n = Some r" by simp
  qed
  moreover have "map_of (List.map (\<lambda>r. (f r, r)) rows) n = Some r \<longleftrightarrow> r \<in> set rows \<and> f r = n" for r
    using assms by (subst map_of_eq_Some_iff) (auto simp: comp_def)
  ultimately show ?thesis by (cases "row_of f rows n"; cases "map_of (List.map (\<lambda>r. (f r, r)) rows) n") auto
qed

lemma rows_of_feature:
  assumes "distinct (List.map f rows)"
  shows "concat (List.map (\<lambda>g. if f g = n \<and> Q g then [h g] else []) rows)
    = (case row_of f rows n of None \<Rightarrow> [] | Some g \<Rightarrow> if Q g then [h g] else [])"
  using assms unfolding row_of_map [OF assms]
proof (induction rows)
  case (Cons r rows)
  have "concat (List.map (\<lambda>g. if f g = n \<and> Q g then [h g] else []) rows) = []" if "f r = n"
    using that Cons.prems by (auto simp: image_iff)
  with Cons show ?case by auto
qed simp

text \<open>A grant that already carries everything a desired row asks for: writing the row over it
  changes nothing.\<close>

definition overwritten :: "grant \<Rightarrow> desired_row \<Rightarrow> string \<Rightarrow> grant" where
  "overwritten g d owner = g\<lparr>g_status := ''active'', g_valid_from := si_valid_from (dr_input d),
     g_valid_until := si_valid_until (dr_input d), g_notes := si_notes (dr_input d), g_customer_id := owner,
     g_license_id := si_license_id (dr_input d), g_policy_id := dr_policy_id d,
     g_max_active_devices := dr_max_active_devices d, g_is_trial := ts_is_trial (dr_trial d),
     g_trial_expiration_basis := ts_expiration_basis (dr_trial d), g_trial_duration_sec := ts_duration_sec (dr_trial d),
     g_trial_one_per_device := ts_one_per_device (dr_trial d)\<rparr>"

definition carries :: "grant \<Rightarrow> desired_row \<Rightarrow> bool" where
  "carries g d \<longleftrightarrow> (case si_customer_id (dr_input d) of None \<Rightarrow> False | Some owner \<Rightarrow> overwritten g d owner = g)"

lemma carries_iff: "plan_projection_matches_desired g d \<longleftrightarrow> carries g d"
  by (cases g) (auto simp: plan_projection_matches_desired_def carries_def overwritten_def split: option.splits)

lemma verdict_items_concat: "verdict_items f v ds = concat (List.map (\<lambda>d. f (v d) (summarize_desired d)) ds)"
  by (induction ds) simp_all

definition held_revoked :: "grant list \<Rightarrow> desired_row \<Rightarrow> bool" where
  "held_revoked rows d \<longleftrightarrow> (\<exists>g\<in>set rows. g_feature g = si_feature (dr_input d) \<and> g_status g = ''revoked'')"

lemma desired_items:
  assumes "distinct (List.map g_feature rows)" and own: "owned \<longleftrightarrow> owned_input input"
  shows "verdict_items created_item (verdict input rows) ds
      = [summarize_desired d. d \<leftarrow> ds, owned \<and> si_feature (dr_input d) \<notin> g_feature ` set rows]"
    and "verdict_items updated_item (verdict input rows) ds
      = [(summarize_desired d)\<lparr>it_previous_status := Some (g_status g)\<rparr>. d \<leftarrow> ds, g \<leftarrow> rows,
          g_feature g = si_feature (dr_input d) \<and> owned \<and> g_status g \<noteq> ''revoked'' \<and> \<not> carries g d]"
    and "verdict_items kept_item (verdict input rows) ds
      = [summarize_desired d. d \<leftarrow> ds, g \<leftarrow> rows,
          g_feature g = si_feature (dr_input d) \<and> owned \<and> g_status g \<noteq> ''revoked'' \<and> carries g d]"
    and "verdict_items blocked_item (verdict input rows) ds
      = [(summarize_desired d)\<lparr>it_reason := Some (if held_revoked rows d then ''revoked_entitlement'' else ''owner_required'')\<rparr>.
          d \<leftarrow> ds, held_revoked rows d \<or> \<not> owned]"
proof -
  have held: "held_revoked rows d \<longleftrightarrow>
      (case row_of g_feature rows (si_feature (dr_input d)) of None \<Rightarrow> False | Some g \<Rightarrow> g_status g = ''revoked'')" for d
  proof (cases "row_of g_feature rows (si_feature (dr_input d))")
    case None
    then show ?thesis using row_of_iff [of g_feature rows "si_feature (dr_input d)"] by (auto simp: held_revoked_def image_iff)
  next
    case (Some g)
    then have g: "g \<in> set rows \<and> g_feature g = si_feature (dr_input d)"
      using find_found [of "\<lambda>r. g_feature r = si_feature (dr_input d)" "rev rows" g] by (simp add: row_of_def)
    have "h = g" if "h \<in> set rows \<and> g_feature h = si_feature (dr_input d)" for h
      using inj_onD [of g_feature "set rows" h g] g that assms(1) by (simp add: distinct_map)
    with g have "held_revoked rows d \<longleftrightarrow> g_status g = ''revoked''" unfolding held_revoked_def by blast
    with Some show ?thesis by simp
  qed
  have created: "created_item (verdict input rows d) i
      = (if owned_input input \<and> si_feature (dr_input d) \<notin> g_feature ` set rows then [i] else [])" for d i
    using verdict_creates [of input rows d] by (cases "verdict input rows d") (simp_all add: created_item_def)
  show "verdict_items created_item (verdict input rows) ds
      = [summarize_desired d. d \<leftarrow> ds, owned \<and> si_feature (dr_input d) \<notin> g_feature ` set rows]"
    unfolding verdict_items_concat own
    by (rule arg_cong [where f = concat], rule map_cong [OF refl])
      (simp only: created)
  show "verdict_items updated_item (verdict input rows) ds
      = [(summarize_desired d)\<lparr>it_previous_status := Some (g_status g)\<rparr>. d \<leftarrow> ds, g \<leftarrow> rows,
          g_feature g = si_feature (dr_input d) \<and> owned \<and> g_status g \<noteq> ''revoked'' \<and> \<not> carries g d]"
    unfolding verdict_items_concat own rows_of_feature [OF assms(1)]
    by (rule arg_cong [where f = concat], rule map_cong [OF refl])
      (simp add: updated_item_def verdict_def carries_iff split: option.split)
  show "verdict_items kept_item (verdict input rows) ds
      = [summarize_desired d. d \<leftarrow> ds, g \<leftarrow> rows,
          g_feature g = si_feature (dr_input d) \<and> owned \<and> g_status g \<noteq> ''revoked'' \<and> carries g d]"
    unfolding verdict_items_concat own rows_of_feature [OF assms(1), where h = "\<lambda>_. summarize_desired d" for d]
    by (rule arg_cong [where f = concat], rule map_cong [OF refl])
      (simp add: kept_item_def verdict_def carries_iff split: option.split)
  show "verdict_items blocked_item (verdict input rows) ds
      = [(summarize_desired d)\<lparr>it_reason := Some (if held_revoked rows d then ''revoked_entitlement'' else ''owner_required'')\<rparr>.
          d \<leftarrow> ds, held_revoked rows d \<or> \<not> owned]"
    unfolding verdict_items_concat own held
    by (rule arg_cong [where f = concat], rule map_cong [OF refl])
      (simp add: blocked_item_def verdict_def split: option.split)
qed

text \<open>C35. When every feature has one grant, as the primary key makes it, a projection is these five
  lists, in the order of the plan and then of the grants. Of an owned request it creates each plan
  feature without a grant; leaves unchanged each whose grant, not revoked, already carries what the
  plan asks for, and updates the others, telling their status. It blocks each plan feature whose
  grant is revoked, and every one when the request has no owner. A grant outside the plan is
  disabled, or left unchanged when it is revoked or disabled already.\<close>

theorem classify_plan_projection_exact:
  fixes input ds rows
  defines "p \<equiv> classify_plan_projection input ds rows"
    and "owned \<equiv> pi_customer_id input \<notin> {None, Some []}"
    and "outside \<equiv> \<lambda>g. \<forall>d\<in>set ds. si_feature (dr_input d) \<noteq> g_feature g"
  assumes "distinct (List.map g_feature rows)"
  shows "pj_create p = [summarize_desired d. d \<leftarrow> ds, owned \<and> si_feature (dr_input d) \<notin> g_feature ` set rows]
    \<and> pj_update p = [(summarize_desired d)\<lparr>it_previous_status := Some (g_status g)\<rparr>. d \<leftarrow> ds, g \<leftarrow> rows,
         g_feature g = si_feature (dr_input d) \<and> owned \<and> g_status g \<noteq> ''revoked'' \<and> \<not> carries g d]
    \<and> pj_disable p = [summarize_existing g ''not_in_plan''. g \<leftarrow> rows,
         outside g \<and> g_status g \<notin> {''revoked'', ''disabled''}]
    \<and> pj_blocked p = [(summarize_desired d)\<lparr>it_reason := Some (if held_revoked rows d
           then ''revoked_entitlement'' else ''owner_required'')\<rparr>. d \<leftarrow> ds, held_revoked rows d \<or> \<not> owned]
    \<and> pj_unchanged p = [summarize_desired d. d \<leftarrow> ds, g \<leftarrow> rows,
           g_feature g = si_feature (dr_input d) \<and> owned \<and> g_status g \<noteq> ''revoked'' \<and> carries g d]
         @ [summarize_existing g ''not_in_plan''. g \<leftarrow> rows, outside g \<and> g_status g \<in> {''revoked'', ''disabled''}]"
proof -
  have own: "owned \<longleftrightarrow> owned_input input" by (auto simp: owned_def owned_input_def)
  have out: "g_feature g \<notin> desired_features ds \<longleftrightarrow> outside g" for g unfolding outside_def desired_features_def image_iff by (auto dest: sym)
  have w: "withdrawn g \<longleftrightarrow> g_status g \<in> {''revoked'', ''disabled''}" for g by (simp add: withdrawn_def)
  have pick: "List.map h (filter P xs) = [h g. g \<leftarrow> xs, P g]" for h :: "grant \<Rightarrow> plan_item" and P xs
    by (induction xs) auto
  show ?thesis
    unfolding p_def classify_verdicts projection.simps out w pick desired_items [OF assms(4) own] by blast
qed

definition example_input :: projection_input where
  "example_input = \<lparr>pi_project = ''demo'', pi_license_id = ''lic'', pi_fingerprint = ''ff'', pi_customer_id = Some ''cus'',
     pi_plan_id = Some ''plan'', pi_plan_key = None, pi_support_until = None, pi_support_until_provided = False,
     pi_addons = [], pi_notes = []\<rparr>"

definition example_catalog_row :: catalog_row where
  "example_catalog_row = \<lparr>cr_feature_key = ''base'', cr_feature_inclusion = ''included'', cr_addon_key = None,
     cr_plan_policy_id = None, cr_max_active_devices = Some 2, cr_feature_name = ''Base'', cr_policy = None\<rparr>"

definition projection_body :: jsval where
  "projection_body = Object [(''project'', String ''demo ''), (''license_id'', String ''lic''),
     (''license_fingerprint'', String ''ff''), (''customer_id'', String ''cus''), (''plan_id'', String ''plan''),
     (''plan_key'', String '' ''), (''addons'', Null)]"

text \<open>A plan of two features: \<open>base\<close> has a grant with another device limit, \<open>plus\<close> has none; a grant
  of a third feature is active.\<close>

abbreviation example_desired :: "string \<Rightarrow> desired_row" where
  "example_desired f \<equiv> desired_plan_projection_row (example_catalog_row\<lparr>cr_feature_key := f\<rparr>) example_input 1000"

abbreviation example_row :: "string \<Rightarrow> int \<Rightarrow> grant" where
  "example_row f n \<equiv> \<lparr>g_project = ''demo'', g_feature = f, g_fingerprint = ''ff'', g_status = ''active'', g_revocation_seq = 0,
     g_valid_from = None, g_valid_until = None, g_notes = [], g_customer_id = ''cus'', g_license_id = Some ''lic'',
     g_policy_id = None, g_is_trial = 0, g_trial_expiration_basis = None, g_trial_duration_sec = 0,
     g_trial_one_per_device = 0, g_trial_started_at = None, g_trial_device_key_id = None, g_max_active_devices = n,
     g_lease_seconds = 3600, g_created_at = 1, g_updated_at = 1\<rparr>"

theorem classify_plan_projection_exact_witness:
  "pj_create (classify_plan_projection example_input [example_desired ''base'', example_desired ''plus'']
       [example_row ''base'' 1, example_row ''old'' 2]) = [summarize_desired (example_desired ''plus'')]
   \<and> pj_update (classify_plan_projection example_input [example_desired ''base'', example_desired ''plus'']
       [example_row ''base'' 1, example_row ''old'' 2])
     = [(summarize_desired (example_desired ''base''))\<lparr>it_previous_status := Some ''active''\<rparr>]
   \<and> pj_disable (classify_plan_projection example_input [example_desired ''base'', example_desired ''plus'']
       [example_row ''base'' 1, example_row ''old'' 2]) = [summarize_existing (example_row ''old'' 2) ''not_in_plan'']"
proof -
  have f: "si_feature (dr_input (example_desired k)) = k" for k
    by (simp add: desired_plan_projection_row_def desired_stamp_def example_catalog_row_def)
  have c: "\<not> carries (example_row ''base'' 1) (example_desired ''base'')"
    by (simp add: carries_def overwritten_def desired_plan_projection_row_def desired_stamp_def example_catalog_row_def
        example_input_def device_limit_override_def or_else_def)
  have d: "distinct (List.map g_feature [example_row ''base'' 1, example_row ''old'' 2])" by simp
  have o': "pi_customer_id example_input \<notin> {None, Some []}" by (simp add: example_input_def)
  note e = classify_plan_projection_exact [OF d, of example_input "[example_desired ''base'', example_desired ''plus'']"]
  show ?thesis using e o' c by (simp add: f)
qed

end
