(* ===== verification/Db_Calls.thy ===== *)
theory Db_Calls
  imports JS_Bytes
begin

text \<open>
  Calls of a D1 database. A statement answers its rows and the new database, or fails with SQLite's
  message. A batch runs its statements in one transaction: a failing one takes back the others.
  Between two calls of one request other requests commit what they like, and a call may be lost
  before or after it took effect; both are given by the request's schedule.

  A guarantee is a relation between databases that every step of every request keeps; a request
  keeps it under every schedule whose others keep it.
\<close>

type_synonym ('d, 'r) sql = "'d \<Rightarrow> ('r list \<times> 'd) outcome"

section \<open>Batches and calls\<close>

fun run_statements :: "('d, 'r) sql list \<Rightarrow> 'd \<Rightarrow> ('r list list \<times> 'd) outcome" where
  "run_statements [] d = Inr ([], d)"
| "run_statements (s # ss) d =
     rbind (s d) (\<lambda>(rows, d'). rbind (run_statements ss d') (\<lambda>(rest, d''). Inr (rows # rest, d'')))"

definition run_batch :: "('d, 'r) sql list \<Rightarrow> 'd \<Rightarrow> 'r list list outcome \<times> 'd" where
  "run_batch ss d = (case run_statements ss d of Inl e \<Rightarrow> (Inl e, d) | Inr (rows, d') \<Rightarrow> (Inr rows, d'))"

definition batch_returned_row :: "'r list \<Rightarrow> 'r option" where
  "batch_returned_row rows = (case rows of [] \<Rightarrow> None | r # _ \<Rightarrow> Some r)"

datatype fault = Served | LostBefore string | LostAfter string

record 'd turn =
  tn_others :: "'d \<Rightarrow> 'd"
  tn_fault :: fault

record 'd world =
  w_db :: 'd
  w_schedule :: "'d turn list"
  w_has_batch :: bool

text \<open>One awaited call: the others go first, then the call takes effect unless it is lost before.\<close>

definition db_call :: "('d \<Rightarrow> 'a outcome \<times> 'd) \<Rightarrow> ('d world, 'a) io" where
  "db_call act w =
     (let t = (case w_schedule w of [] \<Rightarrow> \<lparr>tn_others = (\<lambda>d. d), tn_fault = Served\<rparr> | t # _ \<Rightarrow> t);
          d = tn_others t (w_db w); w' = w\<lparr>w_db := d, w_schedule := tl (w_schedule w)\<rparr> in
      case tn_fault t of
        LostBefore e \<Rightarrow> (Inl e, w')
      | LostAfter e \<Rightarrow> (Inl e, w'\<lparr>w_db := snd (act d)\<rparr>)
      | Served \<Rightarrow> (fst (act d), w'\<lparr>w_db := snd (act d)\<rparr>))"

definition db_read :: "('d \<Rightarrow> 'a) \<Rightarrow> ('d world, 'a) io" where
  "db_read q = db_call (\<lambda>d. (Inr (q d), d))"

definition db_batch :: "('d, 'r) sql list \<Rightarrow> ('d world, 'r list list) io" where
  "db_batch ss = db_call (run_batch ss)"

lemma run_statements_append:
  "run_statements (ss @ ts) d = rbind (run_statements ss d) (\<lambda>(rs, d').
     rbind (run_statements ts d') (\<lambda>(rs', d''). Inr (rs @ rs', d'')))"
proof (induction ss arbitrary: d)
  case Nil
  then show ?case by (simp add: rbind_def split: sum.split)
next
  case (Cons s ss)
  show ?case by (auto simp: Cons rbind_def split: sum.splits prod.splits)
qed

lemma run_statements_Cons_Inr:
  "run_statements (s # ss) d = Inr (rs, d'') \<longleftrightarrow>
     (\<exists>r d1 rs'. s d = Inr (r, d1) \<and> run_statements ss d1 = Inr (rs', d'') \<and> rs = r # rs')"
  by (auto simp: rbind_Inr_iff)

lemma run_statements_length: "run_statements ss d = Inr (rs, d') \<Longrightarrow> length rs = length ss"
  by (induction ss arbitrary: d rs) (auto simp: rbind_Inr_iff)

section \<open>Guarantees\<close>

definition honest_world :: "('d \<Rightarrow> 'd \<Rightarrow> bool) \<Rightarrow> 'd world \<Rightarrow> bool" where
  "honest_world G w \<longleftrightarrow> (\<forall>t\<in>set (w_schedule w). \<forall>d. G d (tn_others t d))"

definition keeps :: "('d \<Rightarrow> 'd \<Rightarrow> bool) \<Rightarrow> ('d world, 'a) io \<Rightarrow> bool" where
  "keeps G m \<longleftrightarrow> (\<forall>w r w'. honest_world G w \<and> m w = (r, w') \<longrightarrow> G (w_db w) (w_db w') \<and> honest_world G w')"

named_theorems safe_intros

locale guarantee =
  fixes G :: "'d \<Rightarrow> 'd \<Rightarrow> bool"
  assumes refl: "G d d"
    and trans: "G d d' \<Longrightarrow> G d' d'' \<Longrightarrow> G d d''"
begin

lemma keeps_basic: "keeps G (io_return x)" "keeps G (io_throw e)" "keeps G (io_lift r)"
  by (simp_all add: keeps_def refl)

lemma keepsD: "keeps G m \<Longrightarrow> honest_world G w \<Longrightarrow> m w = (r, w') \<Longrightarrow> G (w_db w) (w_db w') \<and> honest_world G w'"
  by (simp add: keeps_def)

lemma keeps_bind:
  assumes "keeps G m" and "\<And>x. keeps G (f x)"
  shows "keeps G (io_bind m f)"
  unfolding keeps_def
proof (intro allI impI, elim conjE)
  fix w r w'
  assume h: "honest_world G w" and b: "io_bind m f w = (r, w')"
  obtain r1 w1 where m: "m w = (r1, w1)" by (cases "m w")
  note 1 = keepsD [OF assms(1) h m]
  show "G (w_db w) (w_db w') \<and> honest_world G w'"
  proof (cases r1)
    case (Inl e)
    with b m 1 show ?thesis by (simp add: io_bind_def)
  next
    case (Inr x)
    with b m have "f x w1 = (r, w')" by (simp add: io_bind_def)
    then have "G (w_db w1) (w_db w') \<and> honest_world G w'" using keepsD [OF assms(2)] 1 by blast
    with 1 trans show ?thesis by blast
  qed
qed

lemma keeps_catch:
  assumes "keeps G m" and "\<And>e. keeps G (h e)"
  shows "keeps G (io_catch m h)"
  unfolding keeps_def
proof (intro allI impI, elim conjE)
  fix w r w'
  assume hon: "honest_world G w" and b: "io_catch m h w = (r, w')"
  obtain r1 w1 where m: "m w = (r1, w1)" by (cases "m w")
  note 1 = keepsD [OF assms(1) hon m]
  show "G (w_db w) (w_db w') \<and> honest_world G w'"
  proof (cases r1)
    case (Inr x)
    with b m 1 show ?thesis by (simp add: io_catch_def)
  next
    case (Inl e)
    with b m have "h e w1 = (r, w')" by (simp add: io_catch_def)
    then have "G (w_db w1) (w_db w') \<and> honest_world G w'" using keepsD [OF assms(2)] 1 by blast
    with 1 trans show ?thesis by blast
  qed
qed

text \<open>What one call does: the others run, then the call took effect or did not.\<close>

lemma call_cases:
  assumes "db_call act w = (r, w')" and "honest_world G w"
  shows "honest_world G w' \<and> w_has_batch w' = w_has_batch w \<and> (\<exists>d. G (w_db w) d \<and>
    ((r, w_db w') = act d \<or> (\<exists>e. r = Inl e \<and> (w_db w' = d \<or> w_db w' = snd (act d)))))"
proof (cases "w_schedule w")
  case Nil
  with assms show ?thesis by (intro conjI exI [of _ "w_db w"]) (auto simp: db_call_def honest_world_def Let_def refl)
next
  case (Cons t ts)
  have "G (w_db w) (tn_others t (w_db w))" using assms(2) Cons by (simp add: honest_world_def)
  moreover have "honest_world G w'" using assms Cons by (auto simp: db_call_def honest_world_def Let_def split: fault.splits)
  moreover have "w_has_batch w' = w_has_batch w" using assms Cons by (auto simp: db_call_def Let_def split: fault.splits)
  moreover have "(r, w_db w') = act (tn_others t (w_db w))
      \<or> (\<exists>e. r = Inl e \<and> (w_db w' = tn_others t (w_db w) \<or> w_db w' = snd (act (tn_others t (w_db w)))))"
    using assms(1) Cons by (auto simp: db_call_def Let_def split: fault.splits)
  ultimately show ?thesis by blast
qed

lemma keeps_call:
  assumes "\<And>d. G d (snd (act d))"
  shows "keeps G (db_call act)"
  unfolding keeps_def
proof (intro allI impI)
  fix w r w'
  assume "honest_world G w \<and> db_call act w = (r, w')"
  then obtain d where d: "honest_world G w'" "G (w_db w) d"
    "(r, w_db w') = act d \<or> (\<exists>e. r = Inl e \<and> (w_db w' = d \<or> w_db w' = snd (act d)))"
    using call_cases [of act w r w'] by blast
  have "G d (w_db w')" using d(3) assms [of d] by (metis refl snd_conv)
  with d show "G (w_db w) (w_db w') \<and> honest_world G w'" using trans by blast
qed

lemma keeps_read: "keeps G (db_read q)"
  unfolding db_read_def by (rule keeps_call) (simp add: refl)

end

end
