(* ===== verification/Grant_Store.thy ===== *)
theory Grant_Store
  imports Plan_Projection Db_Calls
begin

text \<open>
  The licensing database as the mutation code sees it: the tables with their keys, checks and
  triggers (\<open>services/cloudflare-licensing-backend/schema.sql\<close>), and the statements the modules share.
\<close>

section \<open>Tables\<close>

type_synonym grant_key = "string \<times> string \<times> string"

definition key_of :: "grant \<Rightarrow> grant_key" where
  "key_of g = (g_project g, g_feature g, g_fingerprint g)"

record event =
  ev_key :: grant_key
  ev_type :: string
  ev_status :: string
  ev_revocation_seq :: int
  ev_detail :: string
  ev_actor :: string
  ev_actor_type :: string
  ev_source :: string
  ev_request_id :: string
  ev_ip :: string
  ev_prev :: "grant option"
  ev_next :: grant
  ev_reason :: string
  ev_idempotency_key :: "string option"
  ev_created_at :: int

text \<open>A stored response; the JSON columns are kept as the values they encode.\<close>

record grant_response =
  gr_code :: string
  gr_request_id :: string
  gr_data :: grant

record db =
  db_grants :: "grant list"
  db_events :: "event list"
  db_idempotency :: "(string \<times> string) \<Rightarrow> grant_response option"
  db_occupied :: "grant_key \<Rightarrow> nat"
  db_generation :: nat
  db_changes :: nat

definition find_grant :: "db \<Rightarrow> grant_key \<Rightarrow> grant option" where
  "find_grant d k = find (\<lambda>g. key_of g = k) (db_grants d)"

section \<open>Statements\<close>

datatype sql_row = GrantRow grant | ResponseRow grant_response

type_synonym statement = "db \<Rightarrow> (sql_row list \<times> db) outcome"

definition grant_statuses :: "string list" where
  "grant_statuses = [''active'', ''revoked'', ''disabled'']"

definition blank :: "string \<Rightarrow> bool" where
  "blank s \<longleftrightarrow> list_all (\<lambda>c. c = CHR '' '') s"

definition row_checks :: "grant \<Rightarrow> bool" where
  "row_checks g \<longleftrightarrow> g_status g \<in> set grant_statuses \<and> \<not> blank (g_customer_id g)"

definition check_failed :: string where
  "check_failed = ''CHECK constraint failed: entitlements''"

definition capacity_in_use :: string where
  "capacity_in_use = ''capacity_in_use''"

text \<open>
  \<open>tr_bound_capacity_decrease\<close> and \<open>tr_bound_owner_change\<close>: an update that sets the column
  is refused while devices occupy the slots it would take away.
\<close>

record column_set =
  sets_owner :: bool
  sets_capacity :: bool

definition trigger_refuses :: "db \<Rightarrow> column_set \<Rightarrow> grant \<Rightarrow> grant \<Rightarrow> bool" where
  "trigger_refuses d cols old new \<longleftrightarrow>
     (sets_capacity cols \<and> g_max_active_devices new < int (db_occupied d (key_of old)))
     \<or> (sets_owner cols \<and> g_customer_id new \<noteq> g_customer_id old \<and> 0 < db_occupied d (key_of old))"

text \<open>\<open>UPDATE entitlements SET \<dots> WHERE key AND cond RETURNING\<close>; every update moves the
  projection generation on.\<close>

definition update_grant :: "column_set \<Rightarrow> grant_key \<Rightarrow> (db \<Rightarrow> grant \<Rightarrow> bool) \<Rightarrow> (db \<Rightarrow> grant \<Rightarrow> grant) \<Rightarrow> statement" where
  "update_grant cols k cond f d =
     (case find_grant d k of
        None \<Rightarrow> Inr ([], d\<lparr>db_changes := 0\<rparr>)
      | Some g \<Rightarrow>
          if \<not> cond d g then Inr ([], d\<lparr>db_changes := 0\<rparr>)
          else if trigger_refuses d cols g (f d g) then Inl capacity_in_use
          else if \<not> row_checks (f d g) then Inl check_failed
          else Inr ([GrantRow (f d g)],
            d\<lparr>db_grants := List.map (\<lambda>g. if key_of g = k then f d g else g) (db_grants d),
              db_generation := db_generation d + 1, db_changes := 1\<rparr>))"

definition insert_grant :: "grant \<Rightarrow> statement" where
  "insert_grant g d =
     (if \<not> row_checks g then Inl check_failed
      else Inr ([GrantRow g], d\<lparr>db_grants := db_grants d @ [g], db_generation := db_generation d + 1, db_changes := 1\<rparr>))"

text \<open>\<open>MAX(revocation_seq)\<close> over the events of a key, and the two forms built on it.\<close>

definition event_floor :: "db \<Rightarrow> grant_key \<Rightarrow> int option" where
  "event_floor d k =
     (case filter (\<lambda>e. ev_key e = k) (db_events d) of
        [] \<Rightarrow> None
      | e # es \<Rightarrow> Some (foldl (\<lambda>m e. max m (ev_revocation_seq e)) (ev_revocation_seq e) es))"

definition revocation_seq_bump :: "db \<Rightarrow> grant \<Rightarrow> int" where
  "revocation_seq_bump d g = max (g_revocation_seq g) (or_else (event_floor d (key_of g)) (g_revocation_seq g)) + 1"

definition first_revocation_seq :: "db \<Rightarrow> grant_key \<Rightarrow> int" where
  "first_revocation_seq d k = or_else (map_option (\<lambda>m. m + 1) (event_floor d k)) 1"

definition select_when_changed :: "(db \<Rightarrow> sql_row option) \<Rightarrow> statement" where
  "select_when_changed q d =
     Inr (if db_changes d = 1 then (case q d of None \<Rightarrow> [] | Some r \<Rightarrow> [r]) else [], d)"

end
