(* ===== verification/Grant_Mutations.thy ===== *)
theory Grant_Mutations
  imports Grant_Store
begin

text \<open>
  \<open>d1/entitlement_mutation.mjs\<close>, with the value contract (\<open>contracts.mjs\<close>), the guards
  (\<open>entitlement_guards.mjs\<close>) and the side statements (\<open>policy_store.mjs\<close>) it is used with:
  every write of a grant is one batch of the guarded write, the audit event and the replay record.
  \<open>withId\<close> adds to a returned row what its columns determine, so a row stands for itself.
\<close>

record mutation_actor =
  ac_subject :: string
  ac_email :: string
  ac_type :: string

text \<open>\<open>mc_expected\<close> is the owner and the revocation sequence the caller observed.\<close>

record mutation_context =
  mc_actor :: mutation_actor
  mc_request_id :: string
  mc_ip :: string
  mc_source :: string
  mc_idempotency_key :: "string option"
  mc_expected :: "(string \<times> int) option"

record idempotency_commit =
  ic_scope :: string
  ic_response_code :: string

record grant_input =
  gi_project :: string
  gi_feature :: string
  gi_fingerprint :: string
  gi_status :: "string option"
  gi_valid_from :: "int option"
  gi_valid_until :: "int option"
  gi_notes :: "string option"
  gi_customer_id :: "string option"
  gi_license_id :: "string option"

text \<open>A field of a patch is \<open>None\<close> when it is left alone; null is \<open>Some None\<close>.\<close>

record grant_patch =
  gp_valid_from :: "int option option"
  gp_valid_until :: "int option option"
  gp_notes :: "string option"
  gp_customer_id :: "string option option"
  gp_license_id :: "string option option"

record mutation_result =
  mr_data :: grant
  mr_recorded :: bool

section \<open>The value contract and the guards\<close>

definition input_key :: "grant_input \<Rightarrow> grant_key" where
  "input_key i = (gi_project i, gi_feature i, gi_fingerprint i)"

definition entitlement_matches_input :: "grant \<Rightarrow> grant_input \<Rightarrow> bool" where
  "entitlement_matches_input g i \<longleftrightarrow>
     g_status g = or_else (gi_status i) ''active''
     \<and> g_valid_from g = gi_valid_from i
     \<and> g_valid_until g = gi_valid_until i
     \<and> g_notes g = or_else (gi_notes i) []
     \<and> Some (g_customer_id g) = gi_customer_id i
     \<and> g_license_id g = gi_license_id i"

definition sync_event_type :: "grant option \<Rightarrow> string \<Rightarrow> string" where
  "sync_event_type prev target =
     (if target = ''revoked'' then ''revoke''
      else case prev of
          None \<Rightarrow> if target = ''disabled'' then ''disable'' else ''create''
        | Some g \<Rightarrow>
            if g_status g \<noteq> target then (if target = ''disabled'' then ''disable'' else ''reenable'')
            else ''update'')"

definition assert_expected_entitlement :: "grant \<Rightarrow> mutation_context \<Rightarrow> unit outcome" where
  "assert_expected_entitlement g ctx = (case mc_expected ctx of
     None \<Rightarrow> Inl ''invalid_patch''
   | Some (owner, seq) \<Rightarrow>
       if g_customer_id g \<noteq> owner \<or> g_revocation_seq g \<noteq> seq then Inl ''stale_transition'' else Inr ())"

definition required_owner :: "string option \<Rightarrow> string outcome" where
  "required_owner owner = (case owner of
     None \<Rightarrow> Inl ''invalid_patch''
   | Some s \<Rightarrow> if js_trim s = [] \<or> js_trim s \<noteq> s then Inl ''invalid_patch'' else Inr s)"

definition observed_expectation :: "grant \<Rightarrow> string \<times> int" where
  "observed_expectation g = (g_customer_id g, g_revocation_seq g)"

section \<open>The statements of a batch\<close>

definition idempotency_from_current ::
  "mutation_context \<Rightarrow> grant_key \<Rightarrow> idempotency_commit option \<Rightarrow> statement option" where
  "idempotency_from_current ctx k idem = (case (mc_idempotency_key ctx, idem) of
     (Some key, Some ic) \<Rightarrow> Some (\<lambda>d. case find_grant d k of
          None \<Rightarrow> Inr ([], d\<lparr>db_changes := 0\<rparr>)
        | Some g \<Rightarrow>
            if db_changes d \<noteq> 1 then Inr ([], d\<lparr>db_changes := 0\<rparr>)
            else if db_idempotency d (ic_scope ic, key) \<noteq> None
            then Inl ''UNIQUE constraint failed: mutation_idempotency.scope, mutation_idempotency.idempotency_key''
            else Inr ([], d\<lparr>db_idempotency := (db_idempotency d)((ic_scope ic, key) \<mapsto>
                   \<lparr>gr_code = ic_response_code ic, gr_request_id = mc_request_id ctx, gr_data = g\<rparr>), db_changes := 1\<rparr>))
   | _ \<Rightarrow> None)"

definition idempotency_response_from_current :: "mutation_context \<Rightarrow> idempotency_commit option \<Rightarrow> statement option" where
  "idempotency_response_from_current ctx idem = (case (mc_idempotency_key ctx, idem) of
     (Some key, Some ic) \<Rightarrow> Some (select_when_changed (\<lambda>d. map_option ResponseRow (db_idempotency d (ic_scope ic, key))))
   | _ \<Rightarrow> None)"

definition event_source :: "mutation_context \<Rightarrow> string" where
  "event_source ctx = (if mc_source ctx = ''sync'' then ''sync'' else ''admin'')"

definition actor_label :: "mutation_actor \<Rightarrow> string" where
  "actor_label a = (if ac_email a \<noteq> [] then ac_email a else ac_subject a)"

definition event_from_current ::
  "mutation_context \<Rightarrow> string \<Rightarrow> grant_key \<Rightarrow> grant option \<Rightarrow> string \<Rightarrow> int \<Rightarrow> statement" where
  "event_from_current ctx event_type k prev reason now d = (case find_grant d k of
     None \<Rightarrow> Inr ([], d\<lparr>db_changes := 0\<rparr>)
   | Some g \<Rightarrow>
       if db_changes d \<noteq> 1 then Inr ([], d\<lparr>db_changes := 0\<rparr>)
       else Inr ([], d\<lparr>db_events := db_events d @ [\<lparr>ev_key = k, ev_type = event_type, ev_status = g_status g,
              ev_revocation_seq = g_revocation_seq g, ev_detail = reason, ev_actor = actor_label (mc_actor ctx),
              ev_actor_type = ac_type (mc_actor ctx), ev_source = event_source ctx,
              ev_request_id = mc_request_id ctx, ev_ip = mc_ip ctx, ev_prev = prev, ev_next = g, ev_reason = reason,
              ev_idempotency_key = mc_idempotency_key ctx, ev_created_at = now\<rparr>], db_changes := 1\<rparr>))"

definition final_snapshot :: "grant_key \<Rightarrow> statement" where
  "final_snapshot k = select_when_changed (\<lambda>d. map_option GrantRow (find_grant d k))"

text \<open>\<open>buildPolicyStampStatement\<close> and \<open>buildDeviceLimitStatement\<close>.\<close>

definition build_policy_stamp :: "grant_key \<Rightarrow> string \<Rightarrow> int \<Rightarrow> trial_state \<Rightarrow> statement" where
  "build_policy_stamp k policy_id limit trial =
     update_grant \<lparr>sets_owner = False, sets_capacity = True\<rparr> k (\<lambda>d g. db_changes d = 1)
       (\<lambda>d g. g\<lparr>g_policy_id := Some policy_id, g_max_active_devices := limit, g_is_trial := ts_is_trial trial,
          g_trial_expiration_basis := ts_expiration_basis trial, g_trial_duration_sec := ts_duration_sec trial,
          g_trial_one_per_device := ts_one_per_device trial\<rparr>)"

definition build_device_limit :: "grant_key \<Rightarrow> int \<Rightarrow> statement" where
  "build_device_limit k limit =
     update_grant \<lparr>sets_owner = False, sets_capacity = True\<rparr> k (\<lambda>d g. db_changes d = 1)
       (\<lambda>d g. g\<lparr>g_max_active_devices := limit\<rparr>)"

section \<open>One audited write\<close>

definition idempotency_conflict :: "string \<Rightarrow> bool" where
  "idempotency_conflict message \<longleftrightarrow>
     js_includes (js_lower message) ''mutation_idempotency''
     \<and> (js_includes (js_lower message) ''unique'' \<or> js_includes (js_lower message) ''constraint'')"

fun row_grant :: "sql_row \<Rightarrow> grant" where
  "row_grant (GrantRow g) = g"
| "row_grant (ResponseRow r) = gr_data r"

definition cached_mutation_data :: "sql_row list \<Rightarrow> grant outcome" where
  "cached_mutation_data rows = (case batch_returned_row rows of
     Some (ResponseRow r) \<Rightarrow> Inr (gr_data r) | _ \<Rightarrow> Inl ''write_failed'')"

definition write_statements ::
  "grant_key \<Rightarrow> statement \<Rightarrow> mutation_context \<Rightarrow> string \<Rightarrow> grant option \<Rightarrow> string \<Rightarrow> int \<Rightarrow> idempotency_commit option
     \<Rightarrow> statement list \<Rightarrow> statement list" where
  "write_statements k write ctx event_type prev reason now idem extra =
     [write] @ extra @ [event_from_current ctx event_type k prev reason now]
     @ (case (idempotency_from_current ctx k idem, idempotency_response_from_current ctx idem) of
          (Some s, Some r) \<Rightarrow> [s, r]
        | _ \<Rightarrow> if extra \<noteq> [] then [final_snapshot k] else [])"

definition written_result ::
  "mutation_context \<Rightarrow> idempotency_commit option \<Rightarrow> statement list \<Rightarrow> sql_row \<Rightarrow> sql_row list list \<Rightarrow> mutation_result outcome" where
  "written_result ctx idem extra saved results =
     (if mc_idempotency_key ctx \<noteq> None \<and> idem \<noteq> None
      then rbind (cached_mutation_data (last results)) (\<lambda>g. Inr \<lparr>mr_data = g, mr_recorded = True\<rparr>)
      else if extra \<noteq> []
      then (case batch_returned_row (last results) of
          None \<Rightarrow> Inl ''write_failed''
        | Some r \<Rightarrow> Inr \<lparr>mr_data = row_grant r, mr_recorded = False\<rparr>)
      else Inr \<lparr>mr_data = row_grant saved, mr_recorded = False\<rparr>)"

definition write_entitlement_with_audit ::
  "grant_key \<Rightarrow> statement \<Rightarrow> mutation_context \<Rightarrow> string \<Rightarrow> grant option \<Rightarrow> string \<Rightarrow> int \<Rightarrow> idempotency_commit option
     \<Rightarrow> statement list \<Rightarrow> bool \<Rightarrow> (db world, mutation_result option) io" where
  "write_entitlement_with_audit k write ctx event_type prev reason now idem extra allow_no_write w =
     (if \<not> w_has_batch w then (Inl ''write_failed'', w)
      else io_bind
        (io_catch (db_batch (write_statements k write ctx event_type prev reason now idem extra))
          (\<lambda>e. io_throw (if idempotency_from_current ctx k idem \<noteq> None \<and> idempotency_conflict e
             then ''idempotency_conflict'' else e)))
        (\<lambda>results. case batch_returned_row (hd results) of
             None \<Rightarrow> if allow_no_write then io_return None else io_throw ''write_failed''
           | Some saved \<Rightarrow> io_bind (io_lift (written_result ctx idem extra saved results)) (\<lambda>r. io_return (Some r))) w)"

section \<open>The operations\<close>

definition find_entitlement :: "grant_key \<Rightarrow> (db world, grant option) io" where
  "find_entitlement k = db_read (\<lambda>d. find_grant d k)"

definition classify_entitlement_guard_miss :: "grant_key \<Rightarrow> (db world, mutation_result option) io" where
  "classify_entitlement_guard_miss k = io_bind (find_entitlement k) (\<lambda>current. case current of
     None \<Rightarrow> io_throw ''stale_transition''
   | Some g \<Rightarrow> if g_status g = ''revoked'' then io_throw ''revoked_terminal'' else io_throw ''stale_transition'')"

definition classify_entitlement_transition_guard_miss ::
  "grant_key \<Rightarrow> string \<Rightarrow> string \<Rightarrow> (db world, mutation_result option) io" where
  "classify_entitlement_transition_guard_miss k target event_type = io_bind (find_entitlement k) (\<lambda>current. case current of
     None \<Rightarrow> io_throw ''stale_transition''
   | Some g \<Rightarrow>
       if g_status g = target then io_return (Some \<lparr>mr_data = g, mr_recorded = False\<rparr>)
       else if g_status g = ''revoked'' \<and> event_type \<noteq> ''revoke'' then io_throw ''revoked_terminal''
       else io_throw ''stale_transition'')"

definition created_grant :: "grant_input \<Rightarrow> string \<Rightarrow> int \<Rightarrow> int \<Rightarrow> int \<Rightarrow> grant" where
  "created_grant i owner seq created_at now =
     \<lparr>g_project = gi_project i, g_feature = gi_feature i, g_fingerprint = gi_fingerprint i,
      g_status = or_else (gi_status i) ''active'', g_revocation_seq = seq,
      g_valid_from = gi_valid_from i, g_valid_until = gi_valid_until i, g_notes = or_else (gi_notes i) [],
      g_customer_id = owner, g_license_id = gi_license_id i, g_policy_id = None, g_is_trial = 0,
      g_trial_expiration_basis = None, g_trial_duration_sec = 0, g_trial_one_per_device = 0,
      g_trial_started_at = None, g_trial_device_key_id = None, g_max_active_devices = 1, g_lease_seconds = 86400,
      g_created_at = created_at, g_updated_at = now\<rparr>"

text \<open>\<open>INSERT \<dots> ON CONFLICT DO UPDATE \<dots> WHERE\<close> the row is the one that was observed.\<close>

definition create_statement :: "grant_input \<Rightarrow> string \<Rightarrow> grant option \<Rightarrow> int \<Rightarrow> statement" where
  "create_statement i owner prev now d = (case find_grant d (input_key i) of
     None \<Rightarrow> insert_grant (created_grant i owner (first_revocation_seq d (input_key i))
         (case prev of None \<Rightarrow> now | Some p \<Rightarrow> g_created_at p) now) d
   | Some _ \<Rightarrow>
       update_grant \<lparr>sets_owner = True, sets_capacity = False\<rparr> (input_key i)
         (\<lambda>d g. case prev of None \<Rightarrow> False
            | Some p \<Rightarrow> g_status g = g_status p \<and> g_revocation_seq g = g_revocation_seq p)
         (\<lambda>d g. g\<lparr>g_status := or_else (gi_status i) ''active'', g_revocation_seq := revocation_seq_bump d g,
            g_valid_from := gi_valid_from i, g_valid_until := gi_valid_until i, g_notes := or_else (gi_notes i) [],
            g_customer_id := owner, g_license_id := gi_license_id i, g_updated_at := now\<rparr>) d)"

definition create_entitlement ::
  "grant_input \<Rightarrow> mutation_context \<Rightarrow> string \<Rightarrow> string option \<Rightarrow> idempotency_commit option \<Rightarrow> statement list \<Rightarrow> int
     \<Rightarrow> (db world, mutation_result option) io" where
  "create_entitlement i ctx reason event_type idem extra now =
     io_bind (find_entitlement (input_key i)) (\<lambda>prev.
       if (case prev of None \<Rightarrow> False | Some p \<Rightarrow> g_status p = ''revoked'') then io_throw ''revoked_terminal''
       else io_bind (io_lift (required_owner (gi_customer_id i))) (\<lambda>owner.
         io_bind (write_entitlement_with_audit (input_key i) (create_statement i owner prev now) ctx
             (or_else event_type (if prev = None then ''create'' else ''update'')) prev reason now idem extra True)
           (\<lambda>result. case result of Some r \<Rightarrow> io_return (Some r) | None \<Rightarrow> classify_entitlement_guard_miss (input_key i))))"

definition observed_row :: "grant \<Rightarrow> db \<Rightarrow> grant \<Rightarrow> bool" where
  "observed_row p d g \<longleftrightarrow> g_status g = g_status p \<and> g_revocation_seq g = g_revocation_seq p"

definition patch_statement ::
  "grant_key \<Rightarrow> grant \<Rightarrow> int option \<Rightarrow> int option \<Rightarrow> string \<Rightarrow> string \<Rightarrow> string option \<Rightarrow> int \<Rightarrow> statement" where
  "patch_statement k p valid_from valid_until remarks owner license_id now =
     update_grant \<lparr>sets_owner = True, sets_capacity = False\<rparr> k (observed_row p)
       (\<lambda>d g. g\<lparr>g_revocation_seq := revocation_seq_bump d g, g_valid_from := valid_from, g_valid_until := valid_until,
          g_notes := remarks, g_customer_id := owner, g_license_id := license_id, g_updated_at := now\<rparr>)"

definition patch_entitlement ::
  "grant_key \<Rightarrow> grant_patch \<Rightarrow> mutation_context \<Rightarrow> idempotency_commit option \<Rightarrow> int \<Rightarrow> (db world, mutation_result option) io" where
  "patch_entitlement k patch ctx idem now =
     io_bind (find_entitlement k) (\<lambda>prev. case prev of None \<Rightarrow> io_return None | Some p \<Rightarrow>
       io_bind (io_lift (assert_expected_entitlement p ctx)) (\<lambda>_.
       if g_status p = ''revoked'' then io_throw ''revoked_terminal'' else
       let valid_from = or_else (gp_valid_from patch) (g_valid_from p);
           valid_until = or_else (gp_valid_until patch) (g_valid_until p) in
       if \<not> ordered valid_from valid_until then io_throw ''invalid_patch'' else
       io_bind (io_lift (required_owner (or_else (gp_customer_id patch) (Some (g_customer_id p))))) (\<lambda>owner.
       io_bind (write_entitlement_with_audit k
           (patch_statement k p valid_from valid_until (or_else (gp_notes patch) (g_notes p)) owner
             (or_else (gp_license_id patch) (g_license_id p)) now)
           ctx ''update'' prev [] now idem [] True)
         (\<lambda>result. case result of Some r \<Rightarrow> io_return (Some r) | None \<Rightarrow> classify_entitlement_guard_miss k))))"

definition transition_statement :: "grant_key \<Rightarrow> grant \<Rightarrow> string \<Rightarrow> int \<Rightarrow> statement" where
  "transition_statement k p status now =
     update_grant \<lparr>sets_owner = False, sets_capacity = False\<rparr> k (observed_row p)
       (\<lambda>d g. g\<lparr>g_status := status, g_revocation_seq := revocation_seq_bump d g, g_updated_at := now\<rparr>)"

definition transition_entitlement ::
  "grant_key \<Rightarrow> string \<Rightarrow> string \<Rightarrow> string \<Rightarrow> mutation_context \<Rightarrow> idempotency_commit option \<Rightarrow> int
     \<Rightarrow> (db world, mutation_result option) io" where
  "transition_entitlement k status event_type reason ctx idem now =
     io_bind (find_entitlement k) (\<lambda>prev. case prev of None \<Rightarrow> io_return None | Some p \<Rightarrow>
       io_bind (io_lift (assert_expected_entitlement p ctx)) (\<lambda>_.
       if g_status p = ''revoked'' \<and> event_type \<noteq> ''revoke'' then io_throw ''revoked_terminal''
       else if g_status p = status then io_return (Some \<lparr>mr_data = p, mr_recorded = False\<rparr>)
       else io_bind (write_entitlement_with_audit k (transition_statement k p status now) ctx event_type prev reason now idem [] True)
         (\<lambda>result. case result of Some r \<Rightarrow> io_return (Some r)
            | None \<Rightarrow> classify_entitlement_transition_guard_miss k status event_type)))"

definition sync_entitlement ::
  "grant_input \<Rightarrow> string \<Rightarrow> mutation_context \<Rightarrow> idempotency_commit option \<Rightarrow> statement list \<Rightarrow> int
     \<Rightarrow> (db world, mutation_result option) io" where
  "sync_entitlement i reason ctx idem extra now =
     io_bind (find_entitlement (input_key i)) (\<lambda>prev.
       let target = or_else (gi_status i) ''active'' in
       case prev of
         Some p \<Rightarrow>
           if entitlement_matches_input p i then io_return (Some \<lparr>mr_data = p, mr_recorded = False\<rparr>)
           else if target \<noteq> ''active''
           then transition_entitlement (input_key i) target (if target = ''revoked'' then ''revoke'' else ''disable'') reason
                  (ctx\<lparr>mc_expected := Some (observed_expectation p)\<rparr>) idem now
           else create_entitlement i ctx reason (Some (sync_event_type prev target)) idem extra now
       | None \<Rightarrow> create_entitlement i ctx reason (Some (sync_event_type prev target)) idem extra now)"

text \<open>The capacity argument by its two columns; what is not a non-negative integer is ignored.\<close>

definition capacity_value :: "jsval \<Rightarrow> int option" where
  "capacity_value v = (case v of Number (Whole i) \<Rightarrow> if 0 \<le> i then Some i else None | _ \<Rightarrow> None)"

definition capacity_statement :: "grant_key \<Rightarrow> grant \<Rightarrow> int option \<Rightarrow> int option \<Rightarrow> int \<Rightarrow> statement" where
  "capacity_statement k p devices lease now =
     update_grant \<lparr>sets_owner = False, sets_capacity = (devices \<noteq> None)\<rparr> k (observed_row p)
       (\<lambda>d g. g\<lparr>g_max_active_devices := or_else devices (g_max_active_devices g),
          g_lease_seconds := or_else lease (g_lease_seconds g),
          g_revocation_seq := revocation_seq_bump d g, g_updated_at := now\<rparr>)"

definition set_entitlement_capacity ::
  "grant_key \<Rightarrow> jsval \<Rightarrow> mutation_context \<Rightarrow> idempotency_commit option \<Rightarrow> int \<Rightarrow> (db world, mutation_result option) io" where
  "set_entitlement_capacity k capacity ctx idem now =
     io_bind (find_entitlement k) (\<lambda>prev. case prev of None \<Rightarrow> io_return None | Some p \<Rightarrow>
       io_bind (io_lift (assert_expected_entitlement p ctx)) (\<lambda>_.
       if g_status p = ''revoked'' then io_throw ''revoked_terminal'' else
       let devices = capacity_value (field ''max_active_devices'' capacity);
           lease = capacity_value (field ''lease_seconds'' capacity) in
       if devices = None \<and> lease = None then io_return (Some \<lparr>mr_data = p, mr_recorded = False\<rparr>)
       else io_bind (write_entitlement_with_audit k (capacity_statement k p devices lease now) ctx ''update'' prev [] now idem [] True)
         (\<lambda>result. case result of Some r \<Rightarrow> io_return (Some r) | None \<Rightarrow> classify_entitlement_guard_miss k)))"

end
