(* ===== verification/Grant_Safety.thy ===== *)
theory Grant_Safety
  imports Grant_Mutations
begin

text \<open>
  What every audited write guarantees, whatever other requests commit between its calls and
  whichever of its calls are lost, provided the others keep the same guarantee.
\<close>

section \<open>The guarantee\<close>

text \<open>Equal up to the columns the device lease path stamps without a new revocation sequence.\<close>

definition terms_of :: "grant \<Rightarrow> grant" where
  "terms_of g = g\<lparr>g_trial_started_at := None, g_trial_device_key_id := None, g_updated_at := 0\<rparr>"

definition audited :: "db \<Rightarrow> grant \<Rightarrow> bool" where
  "audited d g \<longleftrightarrow> (\<exists>e\<in>set (db_events d). ev_key e = key_of g \<and> ev_revocation_seq e = g_revocation_seq g
     \<and> terms_of (ev_next e) = terms_of g)"

definition floor_below :: "db \<Rightarrow> grant \<Rightarrow> bool" where
  "floor_below d g \<longleftrightarrow> (\<forall>e\<in>set (db_events d). ev_key e = key_of g \<longrightarrow> ev_revocation_seq e \<le> g_revocation_seq g)"

definition db_ok :: "db \<Rightarrow> bool" where
  "db_ok d \<longleftrightarrow> distinct (List.map key_of (db_grants d))
     \<and> (\<forall>k g. find_grant d k = Some g \<longrightarrow> row_checks g \<and> audited d g \<and> floor_below d g)"

definition later_grant :: "grant \<Rightarrow> grant \<Rightarrow> bool" where
  "later_grant g g' \<longleftrightarrow> (terms_of g' = terms_of g \<or> g_revocation_seq g < g_revocation_seq g')
     \<and> (g_status g = ''revoked'' \<longrightarrow> g_status g' = ''revoked'')"

definition progress :: "db \<Rightarrow> db \<Rightarrow> bool" where
  "progress d d' \<longleftrightarrow> (db_ok d \<longrightarrow> db_ok d'
     \<and> (\<forall>k g. find_grant d k = Some g \<longrightarrow> (\<exists>g'. find_grant d' k = Some g' \<and> later_grant g g'))
     \<and> (\<exists>es. db_events d' = db_events d @ es)
     \<and> db_idempotency d \<subseteq>\<^sub>m db_idempotency d')"

lemma find_grant_key: "find_grant d k = Some g \<Longrightarrow> key_of g = k"
  by (auto simp: find_grant_def find_Some_iff)

lemma terms_seq: "terms_of g = terms_of g' \<Longrightarrow> g_revocation_seq g = g_revocation_seq g' \<and> g_status g = g_status g'
   \<and> g_customer_id g = g_customer_id g' \<and> key_of g = key_of g'"
  by (cases g; cases g') (auto simp: terms_of_def key_of_def)

lemma later_refl [simp]: "later_grant g g"
  by (simp add: later_grant_def)

lemma later_trans: "later_grant g g' \<Longrightarrow> later_grant g' g'' \<Longrightarrow> later_grant g g''"
  by (auto simp: later_grant_def dest: terms_seq)

lemma later_seq: "later_grant g g' \<Longrightarrow> g_revocation_seq g \<le> g_revocation_seq g'"
  by (auto simp: later_grant_def dest: terms_seq)

lemma progress_refl [simp]: "progress d d"
  by (auto simp: progress_def)

lemma progress_trans: "progress d d' \<Longrightarrow> progress d' d'' \<Longrightarrow> progress d d''"
proof -
  assume p: "progress d d'" "progress d' d''"
  show ?thesis
    unfolding progress_def
  proof (intro impI conjI allI)
    assume ok: "db_ok d"
    then have ok': "db_ok d'" using p(1) by (simp add: progress_def)
    then show "db_ok d''" using p(2) by (simp add: progress_def)
    obtain es es' where "db_events d' = db_events d @ es" "db_events d'' = db_events d' @ es'"
      using p ok ok' unfolding progress_def by blast
    then show "\<exists>es. db_events d'' = db_events d @ es" by simp
    show "db_idempotency d \<subseteq>\<^sub>m db_idempotency d''"
      using p ok ok' unfolding progress_def by (blast intro: map_le_trans)
    show "\<exists>g'. find_grant d'' k = Some g' \<and> later_grant g g'" if g: "find_grant d k = Some g" for k g
    proof -
      obtain g' where g': "find_grant d' k = Some g'" "later_grant g g'"
        using p(1) ok g unfolding progress_def by blast
      then obtain g'' where "find_grant d'' k = Some g''" "later_grant g' g''"
        using p(2) ok' unfolding progress_def by blast
      with g' later_trans show ?thesis by blast
    qed
  qed
qed

lemma progress_ok: "progress d d' \<Longrightarrow> db_ok d \<Longrightarrow> db_ok d'"
  by (simp add: progress_def)

section \<open>Statements that write one grant\<close>

definition stored :: "grant_key \<Rightarrow> grant \<Rightarrow> db \<Rightarrow> db \<Rightarrow> bool" where
  "stored k new d d' \<longleftrightarrow> find_grant d' = (find_grant d)(k \<mapsto> new) \<and> key_of new = k \<and> row_checks new
     \<and> (distinct (List.map key_of (db_grants d)) \<longrightarrow> distinct (List.map key_of (db_grants d')))
     \<and> db_events d' = db_events d \<and> db_idempotency d' = db_idempotency d \<and> db_changes d' = 1"

definition idle :: "db \<Rightarrow> db \<Rightarrow> bool" where
  "idle d d' \<longleftrightarrow> find_grant d' = find_grant d \<and> db_grants d' = db_grants d
     \<and> db_events d' = db_events d \<and> db_idempotency d' = db_idempotency d"

lemma idle_refl [simp]: "idle d d"
  by (simp add: idle_def)

lemma idle_trans: "idle d d' \<Longrightarrow> idle d' d'' \<Longrightarrow> idle d d''"
  by (simp add: idle_def)

lemma idle_changes [simp]: "idle d (d\<lparr>db_changes := n\<rparr>)"
  by (simp add: idle_def find_grant_def fun_eq_iff)

lemma db_ok_idle: "idle d d' \<Longrightarrow> db_ok d' \<longleftrightarrow> db_ok d"
  by (simp add: idle_def db_ok_def audited_def floor_below_def)

lemma progress_idle: "idle d d' \<Longrightarrow> progress d d'"
  unfolding progress_def using db_ok_idle [of d d'] by (auto simp: idle_def)

lemma find_map_key:
  assumes "\<And>g. key_of (f g) = key_of g"
  shows "find (\<lambda>g. key_of g = k') (List.map (\<lambda>g. if key_of g = k then f g else g) gs)
    = (if k' = k then map_option f (find (\<lambda>g. key_of g = k) gs) else find (\<lambda>g. key_of g = k') gs)"
  using assms by (induction gs) auto

lemma update_grant_cases:
  assumes "update_grant cols k cond f d = Inr (rows, d')" and f: "\<And>d g. key_of (f d g) = key_of g"
  obtains (missed) "rows = []" "d' = d\<lparr>db_changes := 0\<rparr>" "\<And>g. find_grant d k = Some g \<Longrightarrow> \<not> cond d g"
    | (hit) g where "find_grant d k = Some g" "cond d g" "rows = [GrantRow (f d g)]" "stored k (f d g) d d'"
proof (cases "find_grant d k")
  case None
  with assms missed show ?thesis by (simp add: update_grant_def)
next
  case (Some g)
  show ?thesis
  proof (cases "cond d g")
    case False
    with Some assms missed show ?thesis by (auto simp: update_grant_def)
  next
    case True
    have d': "d' = d\<lparr>db_grants := List.map (\<lambda>g. if key_of g = k then f d g else g) (db_grants d),
              db_generation := db_generation d + 1, db_changes := 1\<rparr>" and rows: "rows = [GrantRow (f d g)]"
      and checks: "row_checks (f d g)"
      using assms(1) Some True by (auto simp: update_grant_def split: if_splits)
    have "find_grant d' k' = ((find_grant d)(k \<mapsto> f d g)) k'" for k'
      using find_map_key [of "f d" k' k "db_grants d"] f Some unfolding d' by (simp add: find_grant_def)
    then have "find_grant d' = (find_grant d)(k \<mapsto> f d g)" by (rule ext)
    moreover have keys: "List.map key_of (db_grants d') = List.map key_of (db_grants d)"
      using f unfolding d' by simp
    moreover have "key_of (f d g) = k" using f find_grant_key [OF Some] by simp
    moreover have "db_events d' = db_events d \<and> db_idempotency d' = db_idempotency d \<and> db_changes d' = 1"
      unfolding d' by simp
    ultimately have "stored k (f d g) d d'"
      using checks unfolding stored_def keys by blast
    with Some True rows hit show ?thesis by blast
  qed
qed

lemma insert_grant_stored:
  assumes "insert_grant g d = Inr (rows, d')" and "find_grant d (key_of g) = None"
  shows "rows = [GrantRow g] \<and> stored (key_of g) g d d'"
proof -
  have d': "d' = d\<lparr>db_grants := db_grants d @ [g], db_generation := db_generation d + 1, db_changes := 1\<rparr>"
    and rows: "rows = [GrantRow g]" and checks: "row_checks g"
    using assms(1) by (auto simp: insert_grant_def split: if_splits)
  have new: "\<forall>x\<in>set (db_grants d). key_of x \<noteq> key_of g"
    using assms(2) by (auto simp: find_grant_def find_None_iff)
  have app: "find P (xs @ ys) = (case find P xs of None \<Rightarrow> find P ys | Some x \<Rightarrow> Some x)" for P and xs ys :: "grant list"
    by (induction xs) auto
  have "find_grant d' k' = ((find_grant d)(key_of g \<mapsto> g)) k'" for k'
    using assms(2) unfolding d' by (auto simp: find_grant_def app split: option.splits)
  with new rows checks show ?thesis unfolding stored_def by (auto simp: fun_eq_iff d')
qed

text \<open>A side statement works on the row the claim wrote, and only when there was a claim.\<close>

definition core_of :: "grant \<Rightarrow> grant" where
  "core_of g = g\<lparr>g_policy_id := None, g_max_active_devices := 0, g_is_trial := 0, g_trial_expiration_basis := None,
     g_trial_duration_sec := 0, g_trial_one_per_device := 0\<rparr>"

definition side_statement :: "grant_key \<Rightarrow> statement \<Rightarrow> bool" where
  "side_statement k s \<longleftrightarrow> (\<forall>d rows d'. s d = Inr (rows, d') \<longrightarrow>
     (db_changes d \<noteq> 1 \<longrightarrow> idle d d' \<and> db_changes d' \<noteq> 1)
     \<and> (\<forall>g. db_changes d = 1 \<and> find_grant d k = Some g \<longrightarrow>
          db_changes d' = 1 \<and> (idle d d' \<or> (\<exists>g'. stored k g' d d' \<and> core_of g' = core_of g))))"

lemma update_side:
  assumes f: "\<And>d g. key_of (f d g) = key_of g" and c: "\<And>d g. core_of (f d g) = core_of g"
  shows "side_statement k (update_grant cols k (\<lambda>d g. db_changes d = 1) f)"
  unfolding side_statement_def
proof (intro allI impI)
  fix d rows d'
  assume r: "update_grant cols k (\<lambda>d g. db_changes d = 1) f d = Inr (rows, d')"
  show "(db_changes d \<noteq> 1 \<longrightarrow> idle d d' \<and> db_changes d' \<noteq> 1)
     \<and> (\<forall>g. db_changes d = 1 \<and> find_grant d k = Some g \<longrightarrow>
          db_changes d' = 1 \<and> (idle d d' \<or> (\<exists>g'. stored k g' d d' \<and> core_of g' = core_of g)))"
    using r f
  proof (cases rule: update_grant_cases)
    case missed
    then show ?thesis by (cases "find_grant d k") auto
  next
    case (hit g)
    then show ?thesis using c [of d g] by (auto simp: stored_def)
  qed
qed

lemma build_policy_stamp_side: "side_statement k (build_policy_stamp k p n t)"
  unfolding build_policy_stamp_def by (rule update_side) (simp_all add: key_of_def core_of_def)

lemma build_device_limit_side: "side_statement k (build_device_limit k n)"
  unfolding build_device_limit_def by (rule update_side) (simp_all add: key_of_def core_of_def)

text \<open>An assertion only reads: it answers rows or fails the batch.\<close>

lemma assertion_side: "(\<And>d rows d'. s d = Inr (rows, d') \<Longrightarrow> d' = d) \<Longrightarrow> side_statement k s"
  unfolding side_statement_def by (metis idle_refl)

section \<open>A batch commits all of a write or nothing\<close>

definition claims :: "grant_key \<Rightarrow> (db \<Rightarrow> grant \<Rightarrow> bool) \<Rightarrow> statement \<Rightarrow> bool" where
  "claims k Q s \<longleftrightarrow> (\<forall>d rows d'. s d = Inr (rows, d') \<longrightarrow>
     (rows = [] \<and> d' = d\<lparr>db_changes := 0\<rparr>) \<or> (\<exists>new. rows = [GrantRow new] \<and> stored k new d d' \<and> Q d new))"

text \<open>The database after a committed write of the row \<open>new\<close>.\<close>

definition committed ::
  "grant_key \<Rightarrow> mutation_context \<Rightarrow> string \<Rightarrow> grant option \<Rightarrow> idempotency_commit option \<Rightarrow> grant \<Rightarrow> db \<Rightarrow> db \<Rightarrow> bool" where
  "committed k ctx event_type prev idem new d d' \<longleftrightarrow>
     find_grant d' = (find_grant d)(k \<mapsto> new) \<and> key_of new = k \<and> row_checks new
     \<and> (distinct (List.map key_of (db_grants d)) \<longrightarrow> distinct (List.map key_of (db_grants d')))
     \<and> (\<exists>e. db_events d' = db_events d @ [e] \<and> ev_key e = k \<and> ev_type e = event_type \<and> ev_prev e = prev \<and> ev_next e = new
          \<and> ev_revocation_seq e = g_revocation_seq new \<and> ev_idempotency_key e = mc_idempotency_key ctx)
     \<and> (case (mc_idempotency_key ctx, idem) of
          (Some key, Some ic) \<Rightarrow> db_idempotency d (ic_scope ic, key) = None
            \<and> db_idempotency d' = (db_idempotency d)((ic_scope ic, key) \<mapsto>
                \<lparr>gr_code = ic_response_code ic, gr_request_id = mc_request_id ctx, gr_data = new\<rparr>)
        | _ \<Rightarrow> db_idempotency d' = db_idempotency d)"

lemma run_sides_idle:
  "\<forall>s\<in>set extra. side_statement k s \<Longrightarrow> run_statements extra d = Inr (rs, d') \<Longrightarrow> db_changes d \<noteq> 1 \<Longrightarrow>
     idle d d' \<and> db_changes d' \<noteq> 1"
proof (induction extra arbitrary: d rs)
  case Nil
  then show ?case by simp
next
  case (Cons s extra)
  from Cons.prems(2) obtain r d1 rs' where s: "s d = Inr (r, d1)" and r: "run_statements extra d1 = Inr (rs', d')"
    unfolding run_statements_Cons_Inr by blast
  have 1: "idle d d1 \<and> db_changes d1 \<noteq> 1"
    using Cons.prems(1,3) s by (auto simp: side_statement_def)
  then have "idle d1 d' \<and> db_changes d' \<noteq> 1" using Cons.IH [OF _ r] Cons.prems(1) by simp
  with 1 show ?case using idle_trans by blast
qed

lemma stored_then:
  assumes "stored k g d d1" and "idle d1 d2 \<or> stored k g' d1 d2" and "db_changes d2 = 1"
  shows "stored k (if idle d1 d2 then g else g') d d2"
  using assms by (auto simp: stored_def idle_def)

lemma run_sides_stored:
  "\<forall>s\<in>set extra. side_statement k s \<Longrightarrow> run_statements extra d1 = Inr (rs, d') \<Longrightarrow> stored k g d d1 \<Longrightarrow>
     \<exists>g'. stored k g' d d' \<and> core_of g' = core_of g \<and> (extra = [] \<longrightarrow> g' = g)"
proof (induction extra arbitrary: d1 g rs)
  case Nil
  then show ?case by auto
next
  case (Cons s extra)
  from Cons.prems(2) obtain r d2 rs' where s: "s d1 = Inr (r, d2)" and r: "run_statements extra d2 = Inr (rs', d')"
    unfolding run_statements_Cons_Inr by blast
  have g: "find_grant d1 k = Some g" "db_changes d1 = 1" using Cons.prems(3) by (simp_all add: stored_def)
  have side: "side_statement k s" using Cons.prems(1) by simp
  have *: "db_changes d2 = 1 \<and> (idle d1 d2 \<or> (\<exists>g'. stored k g' d1 d2 \<and> core_of g' = core_of g))"
    using side [unfolded side_statement_def, rule_format, OF s, THEN conjunct2] g by blast
  then obtain g1 where "stored k g1 d d2" "core_of g1 = core_of g"
    using stored_then [OF Cons.prems(3)] by (metis)
  then show ?case using Cons.IH [OF _ r] Cons.prems(1) by fastforce
qed


lemma event_from_current_stored:
  assumes "event_from_current ctx event_type k prev reason now d1 = Inr (rows, d2)" and "stored k new d d1"
  shows "find_grant d2 = find_grant d1 \<and> db_grants d2 = db_grants d1 \<and> db_idempotency d2 = db_idempotency d1
    \<and> db_changes d2 = 1
    \<and> (\<exists>e. db_events d2 = db_events d @ [e] \<and> ev_key e = k \<and> ev_type e = event_type \<and> ev_prev e = prev \<and> ev_next e = new
          \<and> ev_revocation_seq e = g_revocation_seq new \<and> ev_idempotency_key e = mc_idempotency_key ctx)"
proof -
  have "find_grant d1 k = Some new" "db_changes d1 = 1" "db_events d1 = db_events d"
    using assms(2) by (simp_all add: stored_def)
  with assms(1) show ?thesis by (auto simp: event_from_current_def find_grant_def)
qed

lemma event_from_current_idle:
  "event_from_current ctx event_type k prev reason now d1 = Inr (rows, d2) \<Longrightarrow> db_changes d1 \<noteq> 1 \<Longrightarrow>
     idle d1 d2 \<and> db_changes d2 \<noteq> 1"
  by (auto simp: event_from_current_def split: option.splits)

lemma keyed_statements:
  "(case (idempotency_from_current ctx k idem, idempotency_response_from_current ctx idem) of
      (Some s, Some r) \<Rightarrow> [s, r] | _ \<Rightarrow> if extra \<noteq> [] then [final_snapshot k] else [])
   = (if mc_idempotency_key ctx \<noteq> None \<and> idem \<noteq> None
      then [the (idempotency_from_current ctx k idem), the (idempotency_response_from_current ctx idem)]
      else if extra \<noteq> [] then [final_snapshot k] else [])"
  by (cases "mc_idempotency_key ctx"; cases idem)
    (simp_all add: idempotency_from_current_def idempotency_response_from_current_def)

lemma idempotency_statement_idle:
  assumes "mc_idempotency_key ctx = Some key" "idem = Some ic"
    and "the (idempotency_from_current ctx k idem) d1 = Inr (rows, d2)" and "db_changes d1 \<noteq> 1"
  shows "idle d1 d2 \<and> db_changes d2 \<noteq> 1"
  using assms by (auto simp: idempotency_from_current_def split: option.splits)

lemma select_idle: "select_when_changed q d = Inr (rows, d') \<Longrightarrow> d' = d"
  by (auto simp: select_when_changed_def)

text \<open>The statements after the event: replay record and response, or the final snapshot.\<close>

lemma tail_idle:
  assumes "run_statements (case (idempotency_from_current ctx k idem, idempotency_response_from_current ctx idem) of
      (Some s, Some r) \<Rightarrow> [s, r] | _ \<Rightarrow> if extra \<noteq> [] then [final_snapshot k] else []) d1 = Inr (rs, d2)"
    and "db_changes d1 \<noteq> 1"
  shows "idle d1 d2"
proof (cases "mc_idempotency_key ctx \<noteq> None \<and> idem \<noteq> None")
  case True
  then obtain key ic where k: "mc_idempotency_key ctx = Some key" "idem = Some ic" by auto
  from assms(1) True obtain r d3 r' where
    1: "the (idempotency_from_current ctx k idem) d1 = Inr (r, d3)"
    and 2: "the (idempotency_response_from_current ctx idem) d3 = Inr (r', d2)"
    unfolding keyed_statements by (auto simp: rbind_Inr_iff)
  have "d2 = d3" using 2 k by (auto simp: idempotency_response_from_current_def dest: select_idle)
  with idempotency_statement_idle [OF k 1 assms(2)] show ?thesis by simp
next
  case False
  with assms(1) show ?thesis
    unfolding keyed_statements by (auto simp: rbind_Inr_iff final_snapshot_def dest!: select_idle split: if_splits)
qed

lemma run_write:
  assumes claim: "claims k Q s" and sides: "\<forall>e\<in>set extra. side_statement k e"
    and run: "run_statements (write_statements k s ctx event_type prev reason now idem extra) d = Inr (results, d')"
  shows "(hd results = [] \<and> idle d d')
    \<or> (\<exists>first new. hd results = [GrantRow first] \<and> Q d first \<and> core_of new = core_of first \<and> (extra = [] \<longrightarrow> new = first)
        \<and> committed k ctx event_type prev idem new d d'
        \<and> written_result ctx idem extra (GrantRow first) results
            = Inr \<lparr>mr_data = new, mr_recorded = (mc_idempotency_key ctx \<noteq> None \<and> idem \<noteq> None)\<rparr>)"
proof -
  let ?tail = "case (idempotency_from_current ctx k idem, idempotency_response_from_current ctx idem) of
      (Some s, Some r) \<Rightarrow> [s, r] | _ \<Rightarrow> if extra \<noteq> [] then [final_snapshot k] else []"
  let ?event = "event_from_current ctx event_type k prev reason now"
  from run obtain r d1 rs where 1: "s d = Inr (r, d1)" and rest: "run_statements (extra @ [?event] @ ?tail) d1 = Inr (rs, d')"
    and results: "results = r # rs"
    unfolding write_statements_def append.simps run_statements_Cons_Inr by blast
  from rest obtain rs1 d2 rs2 d3 rs3 where 2: "run_statements extra d1 = Inr (rs1, d2)"
    and 3: "?event d2 = Inr (rs2, d3)" and 4: "run_statements ?tail d3 = Inr (rs3, d')" and rs: "rs = rs1 @ rs2 # rs3"
    unfolding run_statements_append by (auto simp: rbind_Inr_iff)
  have hd: "hd results = r" and lst: "rs3 \<noteq> [] \<Longrightarrow> last results = last rs3" by (auto simp: results rs)
  from claim 1 consider (missed) "r = []" "d1 = d\<lparr>db_changes := 0\<rparr>"
    | (hit) first where "r = [GrantRow first]" "stored k first d d1" "Q d first"
    unfolding claims_def by blast
  then show ?thesis
  proof cases
    case missed
    have "idle d d1 \<and> db_changes d1 \<noteq> 1" using missed by simp
    moreover from this have "idle d1 d2 \<and> db_changes d2 \<noteq> 1" using run_sides_idle [OF sides 2] by blast
    moreover from this have "idle d2 d3 \<and> db_changes d3 \<noteq> 1" using event_from_current_idle [OF 3] by blast
    moreover from this have "idle d3 d'" using tail_idle [OF 4] by blast
    ultimately have "idle d d'" using idle_trans by blast
    with hd missed show ?thesis by blast
  next
    case hit
    from run_sides_stored [OF sides 2 hit(2)] obtain new where
      new: "stored k new d d2" "core_of new = core_of first" "extra = [] \<longrightarrow> new = first" by blast
    note st = new(1) [unfolded stored_def]
    note ev = event_from_current_stored [OF 3 new(1)]
    have found: "find_grant d3 k = Some new" using ev st by simp
    have unkeyed: "committed k ctx event_type prev idem new d d'
        \<and> written_result ctx idem extra (GrantRow first) results = Inr \<lparr>mr_data = new, mr_recorded = False\<rparr>"
      if nk: "\<not> (mc_idempotency_key ctx \<noteq> None \<and> idem \<noteq> None)"
    proof -
      have d': "d' = d3" and out: "extra \<noteq> [] \<Longrightarrow> rs3 = [[GrantRow new]]"
        using 4 nk found ev unfolding keyed_statements
        by (auto simp: rbind_Inr_iff final_snapshot_def select_when_changed_def split: if_splits)
      have "committed k ctx event_type prev idem new d d'"
        using nk st ev unfolding committed_def d' by (auto split: option.splits)
      moreover have "written_result ctx idem extra (GrantRow first) results = Inr \<lparr>mr_data = new, mr_recorded = False\<rparr>"
        using nk new(3) out lst by (cases "extra = []") (auto simp: written_result_def batch_returned_row_def)
      ultimately show ?thesis by blast
    qed
    have keyed: "committed k ctx event_type prev idem new d d'
        \<and> written_result ctx idem extra (GrantRow first) results = Inr \<lparr>mr_data = new, mr_recorded = True\<rparr>"
      if "mc_idempotency_key ctx = Some key" "idem = Some ic" for key ic
    proof -
      let ?r = "\<lparr>gr_code = ic_response_code ic, gr_request_id = mc_request_id ctx, gr_data = new\<rparr>"
      from 4 that obtain r3 d4 r4 where
        a: "the (idempotency_from_current ctx k idem) d3 = Inr (r3, d4)"
        and b: "the (idempotency_response_from_current ctx idem) d4 = Inr (r4, d')" and rs3: "rs3 = [r3, r4]"
        unfolding keyed_statements by (auto simp: rbind_Inr_iff)
      have free: "db_idempotency d3 (ic_scope ic, key) = None" and d4: "d4 = d3\<lparr>db_idempotency :=
          (db_idempotency d3)((ic_scope ic, key) \<mapsto> ?r), db_changes := 1\<rparr>"
        using a that found ev by (auto simp: idempotency_from_current_def split: if_splits)
      have d': "d' = d4" and r4: "r4 = [ResponseRow ?r]"
        using b that d4 by (auto simp: idempotency_response_from_current_def select_when_changed_def)
      have find: "find_grant d' = find_grant d3" unfolding d' d4 by (simp add: find_grant_def fun_eq_iff)
      have "committed k ctx event_type prev idem new d d'"
        using that st ev free unfolding committed_def find by (auto simp: d' d4)
      moreover have "written_result ctx idem extra (GrantRow first) results = Inr \<lparr>mr_data = new, mr_recorded = True\<rparr>"
        using that lst by (simp add: written_result_def cached_mutation_data_def batch_returned_row_def rs3 r4)
      ultimately show ?thesis by blast
    qed
    have "committed k ctx event_type prev idem new d d'
        \<and> written_result ctx idem extra (GrantRow first) results
            = Inr \<lparr>mr_data = new, mr_recorded = (mc_idempotency_key ctx \<noteq> None \<and> idem \<noteq> None)\<rparr>"
      using keyed unkeyed by (cases "mc_idempotency_key ctx"; cases idem) auto
    with hd hit new show ?thesis by blast
  qed
qed

section \<open>A committed write makes progress\<close>

definition advances :: "grant_key \<Rightarrow> db \<Rightarrow> grant \<Rightarrow> bool" where
  "advances k d new \<longleftrightarrow> (\<forall>e\<in>set (db_events d). ev_key e = k \<longrightarrow> ev_revocation_seq e < g_revocation_seq new)
     \<and> (\<forall>g. find_grant d k = Some g \<longrightarrow> g_revocation_seq g < g_revocation_seq new
          \<and> (g_status g = ''revoked'' \<longrightarrow> g_status new = ''revoked''))"

lemma fold_max: "(m::int) \<le> foldl (\<lambda>m e. max m (ev_revocation_seq e)) m es
    \<and> (\<forall>e\<in>set es. ev_revocation_seq e \<le> foldl (\<lambda>m e. max m (ev_revocation_seq e)) m es)"
proof (induction es arbitrary: m)
  case Nil
  then show ?case by simp
next
  case (Cons e es)
  from Cons [of "max m (ev_revocation_seq e)"] show ?case by auto
qed

lemma event_floor_upper:
  assumes "e \<in> set (db_events d)" and "ev_key e = k"
  obtains m where "event_floor d k = Some m" and "ev_revocation_seq e \<le> m"
proof -
  have e: "e \<in> set (filter (\<lambda>e. ev_key e = k) (db_events d))" using assms by simp
  then obtain x xs where f: "filter (\<lambda>e. ev_key e = k) (db_events d) = x # xs"
    by (cases "filter (\<lambda>e. ev_key e = k) (db_events d)") auto
  have "event_floor d k = Some (foldl (\<lambda>m e. max m (ev_revocation_seq e)) (ev_revocation_seq x) xs)"
    by (simp add: event_floor_def f)
  moreover have "ev_revocation_seq e \<le> foldl (\<lambda>m e. max m (ev_revocation_seq e)) (ev_revocation_seq x) xs"
    using e fold_max [of "ev_revocation_seq x" xs] unfolding f by auto
  ultimately show thesis by (rule that)
qed

lemma revocation_seq_bump_above:
  "g_revocation_seq g < revocation_seq_bump d g"
  "e \<in> set (db_events d) \<Longrightarrow> ev_key e = key_of g \<Longrightarrow> ev_revocation_seq e < revocation_seq_bump d g"
  by (auto simp: revocation_seq_bump_def or_else_def elim!: event_floor_upper split: option.splits)

lemma first_revocation_seq_above:
  "e \<in> set (db_events d) \<Longrightarrow> ev_key e = k \<Longrightarrow> ev_revocation_seq e < first_revocation_seq d k"
  by (auto simp: first_revocation_seq_def or_else_def elim!: event_floor_upper)

lemma advances_bump:
  assumes "find_grant d k = Some g" and "g_revocation_seq new = revocation_seq_bump d g"
    and "g_status g = ''revoked'' \<longrightarrow> g_status new = ''revoked''"
  shows "advances k d new"
  using assms revocation_seq_bump_above [where d = d and g = g] find_grant_key [OF assms(1)] by (auto simp: advances_def)

lemma core_same: "core_of g = core_of g' \<Longrightarrow> g_revocation_seq g = g_revocation_seq g' \<and> g_status g = g_status g'
    \<and> key_of g = key_of g' \<and> g_valid_from g = g_valid_from g' \<and> g_valid_until g = g_valid_until g'
    \<and> g_customer_id g = g_customer_id g' \<and> g_license_id g = g_license_id g' \<and> g_notes g = g_notes g'"
  by (cases g; cases g') (auto simp: core_of_def key_of_def)

lemma committed_progress:
  assumes com: "committed k ctx event_type prev idem new d d'" and adv: "advances k d first" and core: "core_of new = core_of first"
  shows "progress d d'"
  unfolding progress_def
proof (intro impI conjI allI)
  assume ok: "db_ok d"
  from com obtain e where fin: "find_grant d' = (find_grant d)(k \<mapsto> new)" and k: "key_of new = k" and rc: "row_checks new"
    and dis: "distinct (List.map key_of (db_grants d)) \<longrightarrow> distinct (List.map key_of (db_grants d'))"
    and ev: "db_events d' = db_events d @ [e]" "ev_key e = k" "ev_next e = new" "ev_revocation_seq e = g_revocation_seq new"
    and idm: "case (mc_idempotency_key ctx, idem) of
          (Some key, Some ic) \<Rightarrow> db_idempotency d (ic_scope ic, key) = None
            \<and> db_idempotency d' = (db_idempotency d)((ic_scope ic, key) \<mapsto>
                \<lparr>gr_code = ic_response_code ic, gr_request_id = mc_request_id ctx, gr_data = new\<rparr>)
        | _ \<Rightarrow> db_idempotency d' = db_idempotency d"
    unfolding committed_def by blast
  have seq: "g_revocation_seq new = g_revocation_seq first" "g_status new = g_status first"
    using core_same [OF core] by simp_all
  note adv' = adv [unfolded advances_def]
  have old: "row_checks g \<and> audited d g \<and> floor_below d g" if "find_grant d k' = Some g" for k' g
    using ok that unfolding db_ok_def by blast
  show "db_ok d'"
    unfolding db_ok_def
  proof (intro conjI allI impI)
    show "distinct (List.map key_of (db_grants d'))" using dis ok by (simp add: db_ok_def)
    fix k' g
    assume g: "find_grant d' k' = Some g"
    show "row_checks g" using g old rc unfolding fin by (auto split: if_splits)
    show "audited d' g"
    proof (cases "k' = k")
      case True
      then show ?thesis using g ev k unfolding fin audited_def by auto
    next
      case False
      then have "audited d g" using g old unfolding fin by auto
      then show ?thesis using ev(1) by (auto simp: audited_def)
    qed
    show "floor_below d' g"
    proof (cases "k' = k")
      case True
      then have "g = new" using g fin by simp
      then show ?thesis using adv' ev seq k unfolding floor_below_def by force
    next
      case False
      then have *: "find_grant d k' = Some g" using g fin by simp
      then have "floor_below d g" using old by blast
      moreover have "key_of g \<noteq> k" using find_grant_key [OF *] False by simp
      ultimately show ?thesis using ev by (auto simp: floor_below_def)
    qed
  qed
  show "\<exists>es. db_events d' = db_events d @ es" using ev(1) by blast
  show "db_idempotency d \<subseteq>\<^sub>m db_idempotency d'"
    using idm by (auto simp: map_le_def split: option.splits)
  show "\<exists>g'. find_grant d' k' = Some g' \<and> later_grant g g'" if g: "find_grant d k' = Some g" for k' g
  proof (cases "k' = k")
    case True
    with g adv' seq show ?thesis unfolding fin by (auto simp: later_grant_def)
  next
    case False
    with g show ?thesis unfolding fin by simp
  qed
qed

section \<open>Whole requests\<close>

interpretation grants: guarantee progress
  by unfold_locales (simp, rule progress_trans)

abbreviation honest :: "db world \<Rightarrow> bool" where
  "honest \<equiv> honest_world progress"

abbreviation safe_io :: "(db world, 'a) io \<Rightarrow> bool" where
  "safe_io \<equiv> keeps progress"

lemmas honest_def = honest_world_def [where G = progress]

lemmas safe_io_def = keeps_def [where G = progress]

lemmas safe_ioD = grants.keepsD

lemmas safe_basic [safe_intros] = grants.keeps_basic

lemmas safe_bind [safe_intros] = grants.keeps_bind

lemmas safe_catch = grants.keeps_catch

lemmas db_call_cases = grants.call_cases

lemmas safe_call = grants.keeps_call

lemmas safe_read [safe_intros] = grants.keeps_read

lemma batch_progress:
  assumes "claims k Q s" and "\<forall>e\<in>set extra. side_statement k e" and "\<And>d new. Q d new \<Longrightarrow> advances k d new"
  shows "progress d (snd (run_batch (write_statements k s ctx event_type prev reason now idem extra) d))"
proof (cases "run_statements (write_statements k s ctx event_type prev reason now idem extra) d")
  case (Inl e)
  then show ?thesis by (simp add: run_batch_def)
next
  case (Inr rd)
  then obtain results d' where r: "run_statements (write_statements k s ctx event_type prev reason now idem extra) d = Inr (results, d')"
    by (cases rd) auto
  have "progress d d'"
    using run_write [OF assms(1,2) r] assms(3) committed_progress progress_idle by blast
  with r show ?thesis by (simp add: run_batch_def)
qed

lemma safe_write:
  assumes "claims k Q s" and "\<forall>e\<in>set extra. side_statement k e" and "\<And>d new. Q d new \<Longrightarrow> advances k d new"
  shows "safe_io (write_entitlement_with_audit k s ctx event_type prev reason now idem extra allow)"
proof -
  have call: "safe_io (db_batch (write_statements k s ctx event_type prev reason now idem extra))"
    unfolding db_batch_def by (rule safe_call) (rule batch_progress [OF assms])
  have m: "safe_io (io_bind
        (io_catch (db_batch (write_statements k s ctx event_type prev reason now idem extra))
          (\<lambda>e. io_throw (if idempotency_from_current ctx k idem \<noteq> None \<and> idempotency_conflict e
             then ''idempotency_conflict'' else e)))
        (\<lambda>results. case batch_returned_row (hd results) of
             None \<Rightarrow> if allow then io_return None else io_throw ''write_failed''
           | Some saved \<Rightarrow> io_bind (io_lift (written_result ctx idem extra saved results)) (\<lambda>r. io_return (Some r))))"
  proof (rule safe_bind)
    show "safe_io (io_catch (db_batch (write_statements k s ctx event_type prev reason now idem extra))
          (\<lambda>e. io_throw (if idempotency_from_current ctx k idem \<noteq> None \<and> idempotency_conflict e
             then ''idempotency_conflict'' else e)))"
      by (rule safe_catch [OF call]) (rule safe_intros)
    show "safe_io (case batch_returned_row (hd results) of
             None \<Rightarrow> if allow then io_return None else io_throw ''write_failed''
           | Some saved \<Rightarrow> io_bind (io_lift (written_result ctx idem extra saved results)) (\<lambda>r. io_return (Some r)))" for results
      by (cases "batch_returned_row (hd results)") (simp_all add: safe_intros)
  qed
  show ?thesis
    unfolding safe_io_def
  proof (intro allI impI, elim conjE)
    fix w r w'
    assume h: "honest w" and x: "write_entitlement_with_audit k s ctx event_type prev reason now idem extra allow w = (r, w')"
    show "progress (w_db w) (w_db w') \<and> honest w'"
    proof (cases "w_has_batch w")
      case True
      then show ?thesis
        using safe_ioD [OF m h] x unfolding write_entitlement_with_audit_def by (simp only: not_True_eq_False if_False)
    next
      case False
      then show ?thesis using x h unfolding write_entitlement_with_audit_def by simp
    qed
  qed
qed

section \<open>The operations keep the guarantee\<close>

lemma update_claims:
  assumes "\<And>d g. key_of (f d g) = key_of g"
  shows "claims k (\<lambda>d new. \<exists>g. find_grant d k = Some g \<and> cond d g \<and> new = f d g) (update_grant cols k cond f)"
  unfolding claims_def
proof (intro allI impI)
  fix d rows d'
  assume "update_grant cols k cond f d = Inr (rows, d')"
  from this assms show "(rows = [] \<and> d' = d\<lparr>db_changes := 0\<rparr>)
      \<or> (\<exists>new. rows = [GrantRow new] \<and> stored k new d d' \<and> (\<exists>g. find_grant d k = Some g \<and> cond d g \<and> new = f d g))"
    by (cases rule: update_grant_cases) auto
qed

definition patched :: "grant \<Rightarrow> int option \<Rightarrow> int option \<Rightarrow> string \<Rightarrow> string \<Rightarrow> string option \<Rightarrow> int \<Rightarrow> db \<Rightarrow> grant" where
  "patched g valid_from valid_until remarks owner license_id now d =
     g\<lparr>g_revocation_seq := revocation_seq_bump d g, g_valid_from := valid_from, g_valid_until := valid_until,
       g_notes := remarks, g_customer_id := owner, g_license_id := license_id, g_updated_at := now\<rparr>"

lemma patch_claims:
  "claims k (\<lambda>d new. \<exists>g. find_grant d k = Some g \<and> observed_row p d g \<and> new = patched g vf vu n ow li now d)
     (patch_statement k p vf vu n ow li now)"
  unfolding patch_statement_def patched_def by (rule update_claims) (simp add: key_of_def)

lemma transition_claims:
  "claims k (\<lambda>d new. \<exists>g. find_grant d k = Some g \<and> observed_row p d g
       \<and> new = g\<lparr>g_status := status, g_revocation_seq := revocation_seq_bump d g, g_updated_at := now\<rparr>)
     (transition_statement k p status now)"
  unfolding transition_statement_def by (rule update_claims) (simp add: key_of_def)

lemma capacity_claims:
  "claims k (\<lambda>d new. \<exists>g. find_grant d k = Some g \<and> observed_row p d g
       \<and> new = g\<lparr>g_max_active_devices := or_else devices (g_max_active_devices g),
          g_lease_seconds := or_else lease (g_lease_seconds g),
          g_revocation_seq := revocation_seq_bump d g, g_updated_at := now\<rparr>)
     (capacity_statement k p devices lease now)"
  unfolding capacity_statement_def by (rule update_claims) (simp add: key_of_def)

lemma create_claims:
  assumes "\<And>p. prev = Some p \<Longrightarrow> g_status p \<noteq> ''revoked''"
  shows "claims (input_key i) (\<lambda>d new. advances (input_key i) d new
      \<and> g_status new = or_else (gi_status i) ''active'' \<and> g_customer_id new = owner
      \<and> (\<forall>g. find_grant d (input_key i) = Some g \<longrightarrow> (\<exists>p. prev = Some p \<and> observed_row p d g)))
    (create_statement i owner prev now)"
  unfolding claims_def
proof (intro allI impI)
  fix d rows d'
  assume r: "create_statement i owner prev now d = Inr (rows, d')"
  let ?k = "input_key i"
  show "(rows = [] \<and> d' = d\<lparr>db_changes := 0\<rparr>) \<or> (\<exists>new. rows = [GrantRow new] \<and> stored ?k new d d'
      \<and> (advances ?k d new \<and> g_status new = or_else (gi_status i) ''active'' \<and> g_customer_id new = owner
      \<and> (\<forall>g. find_grant d ?k = Some g \<longrightarrow> (\<exists>p. prev = Some p \<and> observed_row p d g))))"
  proof (cases "find_grant d ?k")
    case None
    define c where "c = created_grant i owner (first_revocation_seq d ?k) (case prev of None \<Rightarrow> now | Some p \<Rightarrow> g_created_at p) now"
    have k: "key_of c = ?k" by (simp add: c_def created_grant_def key_of_def input_key_def)
    have "insert_grant c d = Inr (rows, d')" using r None by (simp add: create_statement_def c_def)
    from insert_grant_stored [OF this] None k have "rows = [GrantRow c] \<and> stored ?k c d d'" by simp
    moreover have "advances ?k d c"
      using None first_revocation_seq_above [where d = d and k = ?k] by (simp add: advances_def c_def created_grant_def)
    moreover have "g_status c = or_else (gi_status i) ''active'' \<and> g_customer_id c = owner" by (simp add: c_def created_grant_def)
    ultimately show ?thesis using None by (intro disjI2 exI [of _ c]) (simp add: )
  next
    case (Some g0)
    have keep: "key_of (g\<lparr>g_status := or_else (gi_status i) ''active'', g_revocation_seq := revocation_seq_bump d g,
            g_valid_from := gi_valid_from i, g_valid_until := gi_valid_until i, g_notes := or_else (gi_notes i) [],
            g_customer_id := owner, g_license_id := gi_license_id i, g_updated_at := now\<rparr>) = key_of g" for d g
      by (simp add: key_of_def)
    from r Some have "update_grant \<lparr>sets_owner = True, sets_capacity = False\<rparr> ?k
         (\<lambda>d g. case prev of None \<Rightarrow> False
            | Some p \<Rightarrow> g_status g = g_status p \<and> g_revocation_seq g = g_revocation_seq p)
         (\<lambda>d g. g\<lparr>g_status := or_else (gi_status i) ''active'', g_revocation_seq := revocation_seq_bump d g,
            g_valid_from := gi_valid_from i, g_valid_until := gi_valid_until i, g_notes := or_else (gi_notes i) [],
            g_customer_id := owner, g_license_id := gi_license_id i, g_updated_at := now\<rparr>) d = Inr (rows, d')"
      by (simp add: create_statement_def)
    from this keep show ?thesis
    proof (cases rule: update_grant_cases)
      case missed
      then show ?thesis by blast
    next
      case (hit g)
      then obtain p where p: "prev = Some p" "observed_row p d g"
        by (auto simp: observed_row_def split: option.splits)
      then have "g_status g \<noteq> ''revoked''" using assms [OF p(1)] by (simp add: observed_row_def)
      then show ?thesis using hit p by (intro disjI2 exI conjI; (rule hit(3))?; (assumption)?) (auto intro: advances_bump)
    qed
  qed
qed

lemma safe_guard_miss [safe_intros]:
  "safe_io (classify_entitlement_guard_miss k)"
  "safe_io (classify_entitlement_transition_guard_miss k target event_type)"
  unfolding classify_entitlement_guard_miss_def classify_entitlement_transition_guard_miss_def find_entitlement_def
  by (auto intro!: safe_intros split: option.split)

lemma safe_find [safe_intros]: "safe_io (find_entitlement k)"
  unfolding find_entitlement_def by (rule safe_read)

lemma safe_create:
  assumes "\<forall>s\<in>set extra. side_statement (input_key i) s"
  shows "safe_io (create_entitlement i ctx reason event_type idem extra now)"
  unfolding create_entitlement_def
proof (rule safe_bind [OF safe_find])
  fix prev
  show "safe_io (if case prev of None \<Rightarrow> False | Some p \<Rightarrow> g_status p = ''revoked'' then io_throw ''revoked_terminal''
       else io_bind (io_lift (required_owner (gi_customer_id i))) (\<lambda>owner.
         io_bind (write_entitlement_with_audit (input_key i) (create_statement i owner prev now) ctx
             (or_else event_type (if prev = None then ''create'' else ''update'')) prev reason now idem extra True)
           (\<lambda>result. case result of Some r \<Rightarrow> io_return (Some r) | None \<Rightarrow> classify_entitlement_guard_miss (input_key i))))"
  proof (cases "case prev of None \<Rightarrow> False | Some p \<Rightarrow> g_status p = ''revoked''")
    case True
    then show ?thesis by (simp add: safe_intros)
  next
    case False
    then have "\<And>p. prev = Some p \<Longrightarrow> g_status p \<noteq> ''revoked''" by auto
    from safe_write [OF create_claims [OF this] assms]
    show ?thesis unfolding if_not_P [OF False]
      by (intro safe_bind) (auto intro: safe_intros split: option.split)
  qed
qed

end
