(* ===== verification/Grant_Interleaving.thy ===== *)
theory Grant_Interleaving
  imports Grant_Safety
begin

text \<open>
  The mutations as one type, every interleaving of them as a relation on databases, and what
  holds in all of them.
\<close>

lemma safe_patch: "safe_io (patch_entitlement k patch ctx idem now)"
  unfolding patch_entitlement_def
proof (rule safe_bind [OF safe_find])
  fix prev
  show "safe_io (case prev of None \<Rightarrow> io_return None | Some p \<Rightarrow>
       io_bind (io_lift (assert_expected_entitlement p ctx)) (\<lambda>_.
       if g_status p = ''revoked'' then io_throw ''revoked_terminal'' else
       let valid_from = or_else (gp_valid_from patch) (g_valid_from p);
           valid_until = or_else (gp_valid_until patch) (g_valid_until p) in
       if \<not> ordered valid_from valid_until then io_throw ''invalid_patch'' else
       io_bind (io_lift (required_owner (or_else (gp_customer_id patch) (Some (g_customer_id p))))) (\<lambda>owner.
       io_bind (write_entitlement_with_audit k
           (patch_statement k p valid_from valid_until (or_else (gp_notes patch) (g_notes p)) owner
             (or_else (gp_license_id patch) (g_license_id p)) now)
           ctx ''update'' prev [] now idem [] True)
         (\<lambda>result. case result of Some r \<Rightarrow> io_return (Some r) | None \<Rightarrow> classify_entitlement_guard_miss k))))"
  proof (cases prev)
    case None
    then show ?thesis by (simp add: safe_intros)
  next
    case (Some p)
    have w: "safe_io (write_entitlement_with_audit k (patch_statement k p vf vu n ow li now) ctx ''update'' prev [] now idem [] True)"
      for vf vu n ow li
      by (rule safe_write [OF patch_claims]) (auto intro!: advances_bump simp: patched_def)
    show ?thesis unfolding Some option.case Let_def
      by (rule safe_bind) (auto intro!: safe_intros w [unfolded Some] split: option.split)
  qed
qed

lemma safe_transition:
  assumes "event_type = ''revoke'' \<longrightarrow> status = ''revoked''"
  shows "safe_io (transition_entitlement k status event_type reason ctx idem now)"
  unfolding transition_entitlement_def
proof (rule safe_bind [OF safe_find])
  fix prev
  show "safe_io (case prev of None \<Rightarrow> io_return None | Some p \<Rightarrow>
       io_bind (io_lift (assert_expected_entitlement p ctx)) (\<lambda>_.
       if g_status p = ''revoked'' \<and> event_type \<noteq> ''revoke'' then io_throw ''revoked_terminal''
       else if g_status p = status then io_return (Some \<lparr>mr_data = p, mr_recorded = False\<rparr>)
       else io_bind (write_entitlement_with_audit k (transition_statement k p status now) ctx event_type prev reason now idem [] True)
         (\<lambda>result. case result of Some r \<Rightarrow> io_return (Some r)
            | None \<Rightarrow> classify_entitlement_transition_guard_miss k status event_type)))"
  proof (cases prev)
    case None
    then show ?thesis by (simp add: safe_intros)
  next
    case (Some p)
    have w: "safe_io (write_entitlement_with_audit k (transition_statement k p status now) ctx event_type prev reason now idem [] True)"
      if "\<not> (g_status p = ''revoked'' \<and> event_type \<noteq> ''revoke'')"
      by (rule safe_write [OF transition_claims]) (use that assms in \<open>auto intro!: advances_bump simp: observed_row_def\<close>)
    show ?thesis unfolding Some option.case
      by (rule safe_bind) (auto intro!: safe_intros w [unfolded Some] split: option.split)
  qed
qed

lemma safe_capacity: "safe_io (set_entitlement_capacity k capacity ctx idem now)"
  unfolding set_entitlement_capacity_def
proof (rule safe_bind [OF safe_find])
  fix prev
  show "safe_io (case prev of None \<Rightarrow> io_return None | Some p \<Rightarrow>
       io_bind (io_lift (assert_expected_entitlement p ctx)) (\<lambda>_.
       if g_status p = ''revoked'' then io_throw ''revoked_terminal'' else
       let devices = capacity_value (field ''max_active_devices'' capacity);
           lease = capacity_value (field ''lease_seconds'' capacity) in
       if devices = None \<and> lease = None then io_return (Some \<lparr>mr_data = p, mr_recorded = False\<rparr>)
       else io_bind (write_entitlement_with_audit k (capacity_statement k p devices lease now) ctx ''update'' prev [] now idem [] True)
         (\<lambda>result. case result of Some r \<Rightarrow> io_return (Some r) | None \<Rightarrow> classify_entitlement_guard_miss k)))"
  proof (cases prev)
    case None
    then show ?thesis by (simp add: safe_intros)
  next
    case (Some p)
    have w: "safe_io (write_entitlement_with_audit k (capacity_statement k p devices lease now) ctx ''update'' prev [] now idem [] True)"
      for devices lease
      by (rule safe_write [OF capacity_claims]) (auto intro!: advances_bump simp: observed_row_def)
    show ?thesis unfolding Some option.case Let_def
      by (rule safe_bind) (auto intro!: safe_intros w [unfolded Some] split: option.split)
  qed
qed

lemma safe_sync:
  assumes "\<forall>s\<in>set extra. side_statement (input_key i) s"
  shows "safe_io (sync_entitlement i reason ctx idem extra now)"
  unfolding sync_entitlement_def
proof (rule safe_bind [OF safe_find])
  fix prev
  have c: "safe_io (create_entitlement i ctx reason ty idem extra now)" for ty
    by (rule safe_create [OF assms])
  have t: "safe_io (transition_entitlement (input_key i) target (if target = ''revoked'' then ''revoke'' else ''disable'') reason ctx' idem now)"
    for target ctx'
    by (rule safe_transition) simp
  show "safe_io (let target = or_else (gi_status i) ''active'' in
       case prev of
         Some p \<Rightarrow>
           if entitlement_matches_input p i then io_return (Some \<lparr>mr_data = p, mr_recorded = False\<rparr>)
           else if target \<noteq> ''active''
           then transition_entitlement (input_key i) target (if target = ''revoked'' then ''revoke'' else ''disable'') reason
                  (ctx\<lparr>mc_expected := Some (observed_expectation p)\<rparr>) idem now
           else create_entitlement i ctx reason (Some (sync_event_type prev target)) idem extra now
       | None \<Rightarrow> create_entitlement i ctx reason (Some (sync_event_type prev target)) idem extra now)"
    unfolding Let_def by (cases prev) (simp_all add: c t safe_intros del: if_True if_False split del: if_split cong: if_cong, simp add: c t safe_intros)
qed

section \<open>Any interleaving\<close>

datatype mutation =
    Create_grant grant_input string "string option" "statement list"
  | Patch_grant grant_key grant_patch
  | Transition_grant grant_key string string string
  | Sync_grant grant_input string "statement list"
  | Capacity_grant grant_key jsval

fun run_mutation :: "mutation \<Rightarrow> mutation_context \<Rightarrow> idempotency_commit option \<Rightarrow> int \<Rightarrow> (db world, mutation_result option) io" where
  "run_mutation (Create_grant i reason event_type extra) ctx idem now = create_entitlement i ctx reason event_type idem extra now"
| "run_mutation (Patch_grant k patch) ctx idem now = patch_entitlement k patch ctx idem now"
| "run_mutation (Transition_grant k status event_type reason) ctx idem now = transition_entitlement k status event_type reason ctx idem now"
| "run_mutation (Sync_grant i reason extra) ctx idem now = sync_entitlement i reason ctx idem extra now"
| "run_mutation (Capacity_grant k capacity) ctx idem now = set_entitlement_capacity k capacity ctx idem now"

text \<open>The callers pair the revoke event with the revoked status, and batch only side statements.\<close>

fun legal :: "mutation \<Rightarrow> bool" where
  "legal (Create_grant i reason event_type extra) = (\<forall>s\<in>set extra. side_statement (input_key i) s)"
| "legal (Patch_grant k patch) = True"
| "legal (Transition_grant k status event_type reason) = (event_type = ''revoke'' \<longrightarrow> status = ''revoked'')"
| "legal (Sync_grant i reason extra) = (\<forall>s\<in>set extra. side_statement (input_key i) s)"
| "legal (Capacity_grant k capacity) = True"

lemma safe_mutation: "legal m \<Longrightarrow> safe_io (run_mutation m ctx idem now)"
  by (cases m) (simp_all add: safe_create safe_patch safe_transition safe_sync safe_capacity)

text \<open>
  The lease path stamps the start of a trial on a row without a new revocation sequence, and
  devices come and go.
\<close>

definition stamp_trial_start :: "grant_key \<Rightarrow> int \<Rightarrow> string \<Rightarrow> db \<Rightarrow> db" where
  "stamp_trial_start k now device d = d\<lparr>db_grants := List.map (\<lambda>g.
     if key_of g = k \<and> g_is_trial g = 1 \<and> g_trial_started_at g = None \<and> g_trial_device_key_id g = None
     then g\<lparr>g_trial_started_at := Some now, g_trial_device_key_id := Some device, g_updated_at := now\<rparr> else g) (db_grants d)\<rparr>"

lemma find_map_other:
  assumes "\<And>g. key_of (h g) = key_of g"
  shows "find (\<lambda>g. key_of g = k) (List.map h gs) = map_option h (find (\<lambda>g. key_of g = k) gs)"
  using assms by (induction gs) auto

lemma stamp_trial_progress: "progress d (stamp_trial_start k now device d)"
  unfolding progress_def
proof (intro impI conjI allI)
  define h where "h = (\<lambda>g. if key_of g = k \<and> g_is_trial g = 1 \<and> g_trial_started_at g = None \<and> g_trial_device_key_id g = None
     then g\<lparr>g_trial_started_at := Some now, g_trial_device_key_id := Some device, g_updated_at := now\<rparr> else g)"
  have key: "key_of (h g) = key_of g" and terms: "terms_of (h g) = terms_of g" and seq: "g_revocation_seq (h g) = g_revocation_seq g"
    and rc: "row_checks (h g) = row_checks g" and st: "g_status (h g) = g_status g" for g
    by (simp_all add: h_def key_of_def terms_of_def row_checks_def)
  have d': "db_grants (stamp_trial_start k now device d) = List.map h (db_grants d)"
    "db_events (stamp_trial_start k now device d) = db_events d"
    "db_idempotency (stamp_trial_start k now device d) = db_idempotency d"
    by (simp_all add: stamp_trial_start_def h_def)
  have fin: "find_grant (stamp_trial_start k now device d) k' = map_option h (find_grant d k')" for k'
    unfolding find_grant_def d' by (rule find_map_other [OF key])
  assume ok: "db_ok d"
  then have old: "row_checks g \<and> audited d g \<and> floor_below d g" if "find_grant d k' = Some g" for k' g
    using that unfolding db_ok_def by blast
  show "db_ok (stamp_trial_start k now device d)"
    unfolding db_ok_def
  proof (intro conjI allI impI)
    show "distinct (List.map key_of (db_grants (stamp_trial_start k now device d)))"
      using ok key by (simp add: d' db_ok_def o_def)
    fix k' g
    assume "find_grant (stamp_trial_start k now device d) k' = Some g"
    then obtain g0 where g0: "find_grant d k' = Some g0" and g: "g = h g0" unfolding fin by auto
    show "row_checks g" "audited (stamp_trial_start k now device d) g" "floor_below (stamp_trial_start k now device d) g"
      using old [OF g0] by (simp_all add: g rc audited_def floor_below_def d' key terms seq)
  qed
  show "\<exists>es. db_events (stamp_trial_start k now device d) = db_events d @ es" by (simp add: d')
  show "db_idempotency d \<subseteq>\<^sub>m db_idempotency (stamp_trial_start k now device d)" by (simp add: d')
  show "\<exists>g'. find_grant (stamp_trial_start k now device d) k' = Some g' \<and> later_grant g g'" if "find_grant d k' = Some g" for k' g
    using that by (simp add: fin later_grant_def terms st)
qed

text \<open>The insert of \<open>writeIdempotentResponse\<close>: \<open>ON CONFLICT DO NOTHING\<close>.\<close>

definition insert_response :: "string \<Rightarrow> string \<Rightarrow> grant_response \<Rightarrow> db \<Rightarrow> unit outcome \<times> db" where
  "insert_response scope k body d =
     (Inr (), if db_idempotency d (scope, k) = None
        then d\<lparr>db_idempotency := (db_idempotency d)((scope, k) \<mapsto> body), db_changes := 1\<rparr> else d\<lparr>db_changes := 0\<rparr>)"

lemma insert_progress: "progress d (snd (insert_response scope k body d))"
proof (cases "db_idempotency d (scope, k)")
  case (Some r)
  then show ?thesis by (simp add: insert_response_def progress_idle)
next
  case None
  let ?d = "d\<lparr>db_idempotency := (db_idempotency d)((scope, k) \<mapsto> body), db_changes := 1\<rparr>"
  have f: "find_grant ?d = find_grant d" by (simp add: find_grant_def fun_eq_iff)
  have "db_ok ?d = db_ok d" unfolding db_ok_def f by (simp add: audited_def floor_below_def)
  then have "progress d ?d" using None unfolding progress_def f by (auto simp: map_le_def)
  with None show ?thesis by (simp add: insert_response_def)
qed

inductive mutated :: "db \<Rightarrow> db \<Rightarrow> bool" where
  none: "mutated d d"
| request: "mutated d d' \<Longrightarrow> legal m \<Longrightarrow> \<forall>t\<in>set schedule. \<forall>x. mutated x (tn_others t x) \<Longrightarrow>
    run_mutation m ctx idem now \<lparr>w_db = d', w_schedule = schedule, w_has_batch = b\<rparr> = (r, w') \<Longrightarrow> mutated d (w_db w')"
| trial: "mutated d d' \<Longrightarrow> mutated d (stamp_trial_start k now device d')"
| remembered: "mutated d d' \<Longrightarrow> mutated d (snd (insert_response scope key body d'))"
| devices: "mutated d d' \<Longrightarrow> mutated d (d'\<lparr>db_occupied := occupied\<rparr>)"

lemma mutated_progress: "mutated d d' \<Longrightarrow> progress d d'"
proof (induction rule: mutated.induct)
  case (none d)
  show ?case by simp
next
  case (request d d' m schedule ctx idem now b r w')
  have "honest \<lparr>w_db = d', w_schedule = schedule, w_has_batch = b\<rparr>"
    using request.IH request.hyps by (auto simp: honest_def)
  then have "progress d' (w_db w')"
    using safe_ioD [OF safe_mutation [OF request.hyps(2)] _ request.hyps(3)] by simp
  with request.IH(1) show ?case by (rule progress_trans)
next
  case (trial d d' k now device)
  then show ?case using stamp_trial_progress progress_trans by blast
next
  case (remembered d d' scope key body)
  then show ?case using insert_progress progress_trans by blast
next
  case (devices d d' occupied)
  have "idle d' (d'\<lparr>db_occupied := occupied\<rparr>)" by (simp add: idle_def find_grant_def fun_eq_iff)
  with devices progress_idle progress_trans show ?case by blast
qed

definition empty_db :: db where
  "empty_db = \<lparr>db_grants = [], db_events = [], db_idempotency = (\<lambda>_. None), db_occupied = (\<lambda>_. 0), db_generation = 0, db_changes = 0\<rparr>"

lemma empty_db_ok: "db_ok empty_db"
  by (simp add: db_ok_def empty_db_def find_grant_def)

text \<open>C21. A grant is never deleted, its revocation sequence never goes back and moves on with every change
  of its terms, a revoked grant stays revoked, events are only appended and a stored response is
  never replaced.\<close>

theorem mutations_only_move_forward:
  assumes "mutated empty_db d" and "mutated d d'" and "find_grant d k = Some g"
  shows "\<exists>g'. find_grant d' k = Some g' \<and> g_revocation_seq g \<le> g_revocation_seq g'
    \<and> (terms_of g' \<noteq> terms_of g \<longrightarrow> g_revocation_seq g < g_revocation_seq g')
    \<and> (g_status g = ''revoked'' \<longrightarrow> g_status g' = ''revoked'')
    \<and> (\<exists>es. db_events d' = db_events d @ es) \<and> (\<forall>s r. db_idempotency d s = Some r \<longrightarrow> db_idempotency d' s = Some r)"
proof -
  have ok: "db_ok d" using progress_ok [OF mutated_progress [OF assms(1)] empty_db_ok] .
  note p = mutated_progress [OF assms(2), unfolded progress_def, rule_format, OF ok]
  obtain g' where g': "find_grant d' k = Some g'" "later_grant g g'" using p assms(3) by blast
  have "\<forall>s r. db_idempotency d s = Some r \<longrightarrow> db_idempotency d' s = Some r"
  proof (intro allI impI)
    fix s r
    assume "db_idempotency d s = Some r"
    moreover have "db_idempotency d \<subseteq>\<^sub>m db_idempotency d'" using p by blast
    ultimately show "db_idempotency d' s = Some r" unfolding map_le_def by (metis domI)
  qed
  moreover have "\<exists>es. db_events d' = db_events d @ es" using p by blast
  ultimately show ?thesis using g' later_seq [OF g'(2)] by (auto simp: later_grant_def)
qed

section \<open>What a successful request did\<close>

lemma write_success:
  assumes run: "write_entitlement_with_audit k s ctx event_type prev reason now idem extra allow w = (Inr (Some r), w')"
    and hon: "honest w" and claim: "claims k Q s" and sides: "\<forall>e\<in>set extra. side_statement k e"
  shows "\<exists>d first. progress (w_db w) d \<and> Q d first \<and> core_of (mr_data r) = core_of first \<and> (extra = [] \<longrightarrow> mr_data r = first)
    \<and> committed k ctx event_type prev idem (mr_data r) d (w_db w')
    \<and> mr_recorded r = (mc_idempotency_key ctx \<noteq> None \<and> idem \<noteq> None) \<and> honest w'"
proof -
  let ?batch = "write_statements k s ctx event_type prev reason now idem extra"
  have b: "w_has_batch w" using run unfolding write_entitlement_with_audit_def by (simp split: if_splits)
  from run b obtain results w1 where c: "io_catch (db_batch ?batch)
          (\<lambda>e. io_throw (if idempotency_from_current ctx k idem \<noteq> None \<and> idempotency_conflict e
             then ''idempotency_conflict'' else e)) w = (Inr results, w1)"
    and k: "(case batch_returned_row (hd results) of
             None \<Rightarrow> if allow then io_return None else io_throw ''write_failed''
           | Some saved \<Rightarrow> io_bind (io_lift (written_result ctx idem extra saved results)) (\<lambda>r. io_return (Some r))) w1 = (Inr (Some r), w')"
    unfolding write_entitlement_with_audit_def by (simp only: not_True_eq_False if_False io_bind_Inr_iff) blast
  from c have call: "db_batch ?batch w = (Inr results, w1)"
    by (auto simp: io_catch_def split: prod.splits sum.splits)
  from db_call_cases [OF call [unfolded db_batch_def] hon] obtain d where
    d: "honest w1" "progress (w_db w) d" "(Inr results, w_db w1) = run_batch ?batch d"
    by auto
  then have st: "run_statements ?batch d = Inr (results, w_db w1)"
    by (auto simp: run_batch_def split: sum.splits prod.splits)
  from k obtain saved where saved: "batch_returned_row (hd results) = Some saved"
    and res: "written_result ctx idem extra saved results = Inr r" and w': "w' = w1"
    by (cases "batch_returned_row (hd results)") (auto simp: io_bind_Inr_iff split: if_splits)
  have "hd results \<noteq> []" using saved by (auto simp: batch_returned_row_def)
  with run_write [OF claim sides st] obtain first new where
    f: "hd results = [GrantRow first]" "Q d first" "core_of new = core_of first" "extra = [] \<longrightarrow> new = first"
      "committed k ctx event_type prev idem new d (w_db w1)"
      "written_result ctx idem extra (GrantRow first) results
            = Inr \<lparr>mr_data = new, mr_recorded = (mc_idempotency_key ctx \<noteq> None \<and> idem \<noteq> None)\<rparr>"
    by blast
  have "saved = GrantRow first" using saved f(1) by (simp add: batch_returned_row_def)
  with res f(6) have "r = \<lparr>mr_data = new, mr_recorded = (mc_idempotency_key ctx \<noteq> None \<and> idem \<noteq> None)\<rparr>" by simp
  with d f w' show ?thesis by auto
qed

lemma find_success:
  assumes "find_entitlement k w = (Inr prev, w1)" and "honest w"
  shows "honest w1 \<and> progress (w_db w) (w_db w1) \<and> prev = find_grant (w_db w1) k"
  using db_call_cases [OF assms(1) [unfolded find_entitlement_def db_read_def] assms(2)] by auto

lemma guard_miss_fails: "classify_entitlement_guard_miss k w \<noteq> (Inr x, w')"
  by (auto simp: classify_entitlement_guard_miss_def io_bind_Inr_iff split: option.splits if_splits)

lemma assert_expected_Inr:
  "assert_expected_entitlement g ctx = Inr u \<longleftrightarrow> mc_expected ctx = Some (observed_expectation g)"
  by (auto simp: assert_expected_entitlement_def observed_expectation_def split: option.splits)

text \<open>The row a guarded write replaced is the row the request had observed.\<close>

lemma observed_same:
  assumes "progress d1 d" and "db_ok d1" and "find_grant d1 k = Some p" and "find_grant d k = Some g" and "observed_row p d g"
  shows "terms_of g = terms_of p"
proof -
  obtain g' where "find_grant d k = Some g'" "later_grant p g'"
    using assms(1-3) unfolding progress_def by blast
  with assms(4,5) show ?thesis by (auto simp: later_grant_def observed_row_def)
qed

lemma patch_commits:
  assumes hon: "honest w" and ok: "db_ok (w_db w)"
    and run: "patch_entitlement k patch ctx idem now w = (Inr (Some r), w')"
  shows "\<exists>d p g. progress (w_db w) d \<and> find_grant d k = Some g \<and> terms_of g = terms_of p
    \<and> mc_expected ctx = Some (observed_expectation p) \<and> g_status p \<noteq> ''revoked''
    \<and> mr_data r = patched g (or_else (gp_valid_from patch) (g_valid_from p)) (or_else (gp_valid_until patch) (g_valid_until p))
        (or_else (gp_notes patch) (g_notes p)) (or_else (or_else (gp_customer_id patch) (Some (g_customer_id p))) [])
        (or_else (gp_license_id patch) (g_license_id p)) now d
    \<and> ordered (g_valid_from (mr_data r)) (g_valid_until (mr_data r))
    \<and> committed k ctx ''update'' (Some p) idem (mr_data r) d (w_db w')"
proof -
  from run obtain prev w1 where find: "find_entitlement k w = (Inr prev, w1)"
    and cont: "(case prev of None \<Rightarrow> io_return None | Some p \<Rightarrow>
       io_bind (io_lift (assert_expected_entitlement p ctx)) (\<lambda>_.
       if g_status p = ''revoked'' then io_throw ''revoked_terminal'' else
       let valid_from = or_else (gp_valid_from patch) (g_valid_from p);
           valid_until = or_else (gp_valid_until patch) (g_valid_until p) in
       if \<not> ordered valid_from valid_until then io_throw ''invalid_patch'' else
       io_bind (io_lift (required_owner (or_else (gp_customer_id patch) (Some (g_customer_id p))))) (\<lambda>owner.
       io_bind (write_entitlement_with_audit k
           (patch_statement k p valid_from valid_until (or_else (gp_notes patch) (g_notes p)) owner
             (or_else (gp_license_id patch) (g_license_id p)) now)
           ctx ''update'' prev [] now idem [] True)
         (\<lambda>result. case result of Some r \<Rightarrow> io_return (Some r) | None \<Rightarrow> classify_entitlement_guard_miss k)))) w1 = (Inr (Some r), w')"
    unfolding patch_entitlement_def io_bind_Inr_iff by blast
  note f = find_success [OF find hon]
  from cont obtain p where prev: "prev = Some p" by (cases prev) auto
  let ?vf = "or_else (gp_valid_from patch) (g_valid_from p)" and ?vu = "or_else (gp_valid_until patch) (g_valid_until p)"
  let ?n = "or_else (gp_notes patch) (g_notes p)" and ?li = "or_else (gp_license_id patch) (g_license_id p)"
  from cont prev obtain owner result w2 where
    exp: "mc_expected ctx = Some (observed_expectation p)" and live: "g_status p \<noteq> ''revoked''" and ord: "ordered ?vf ?vu"
    and owner: "required_owner (or_else (gp_customer_id patch) (Some (g_customer_id p))) = Inr owner"
    and wr: "write_entitlement_with_audit k (patch_statement k p ?vf ?vu ?n owner ?li now) ctx ''update'' prev [] now idem [] True w1
      = (Inr result, w2)"
    and out: "(case result of Some r \<Rightarrow> io_return (Some r) | None \<Rightarrow> classify_entitlement_guard_miss k) w2 = (Inr (Some r), w')"
    by (auto simp: io_bind_Inr_iff assert_expected_Inr Let_def split: if_splits)
  have res: "result = Some r" and w2: "w2 = w'"
    using out guard_miss_fails by (auto split: option.splits)
  have none: "\<forall>e\<in>set []. side_statement k e" by simp
  from write_success [OF wr [unfolded res w2] conjunct1 [OF f] patch_claims none] obtain d g where
    d: "progress (w_db w1) d" and g: "find_grant d k = Some g" "observed_row p d g"
    and data: "mr_data r = patched g ?vf ?vu ?n owner ?li now d"
    and com: "committed k ctx ''update'' prev idem (mr_data r) d (w_db w')"
    by blast
  have "db_ok (w_db w1)" using f ok progress_ok by blast
  then have same: "terms_of g = terms_of p" using observed_same [OF d _ _ g] f prev by simp
  have pd: "progress (w_db w) d" using f d progress_trans by blast
  have own: "or_else (or_else (gp_customer_id patch) (Some (g_customer_id p))) [] = owner"
    using owner by (auto simp: required_owner_def or_else_def split: option.splits if_splits)
  have o': "ordered (g_valid_from (mr_data r)) (g_valid_until (mr_data r))" using ord by (simp add: data patched_def)
  show ?thesis
    using pd g(1) same exp live data [folded own] o' com [unfolded prev] by blast
qed

lemma mutated_honest: "\<forall>t\<in>set (w_schedule w). \<forall>x. mutated x (tn_others t x) \<Longrightarrow> honest w"
  by (auto simp: honest_def intro: mutated_progress)

text \<open>C23. A patch that succeeds was applied to the very row its caller observed, whatever other requests did in
  between: owner and revocation sequence are the expected ones and the grant was not revoked. The
  new row has the patched fields, the others as they were, and an ordered window; it was committed
  together with one audit event that records the observed row and the new one, and with the response when the
  request has a key.\<close>

theorem patch_entitlement_commits:
  assumes "mutated empty_db (w_db w)" and "\<forall>t\<in>set (w_schedule w). \<forall>x. mutated x (tn_others t x)"
    and "patch_entitlement k patch ctx idem now w = (Inr (Some r), w')"
  shows "\<exists>d p g. progress (w_db w) d \<and> find_grant d k = Some g \<and> terms_of g = terms_of p
    \<and> mc_expected ctx = Some (observed_expectation p) \<and> g_status p \<noteq> ''revoked''
    \<and> mr_data r = patched g (or_else (gp_valid_from patch) (g_valid_from p)) (or_else (gp_valid_until patch) (g_valid_until p))
        (or_else (gp_notes patch) (g_notes p)) (or_else (or_else (gp_customer_id patch) (Some (g_customer_id p))) [])
        (or_else (gp_license_id patch) (g_license_id p)) now d
    \<and> ordered (g_valid_from (mr_data r)) (g_valid_until (mr_data r))
    \<and> committed k ctx ''update'' (Some p) idem (mr_data r) d (w_db w')"
  by (rule patch_commits [OF mutated_honest [OF assms(2)] progress_ok [OF mutated_progress [OF assms(1)] empty_db_ok] assms(3)])

section \<open>Terminal revocation\<close>

fun target_key :: "mutation \<Rightarrow> grant_key" where
  "target_key (Create_grant i reason event_type extra) = input_key i"
| "target_key (Patch_grant k patch) = k"
| "target_key (Transition_grant k status event_type reason) = k"
| "target_key (Sync_grant i reason extra) = input_key i"
| "target_key (Capacity_grant k capacity) = k"

text \<open>What would change a revoked grant: everything but a revocation.\<close>

fun revives :: "mutation \<Rightarrow> bool" where
  "revives (Create_grant i reason event_type extra) = True"
| "revives (Patch_grant k patch) = True"
| "revives (Transition_grant k status event_type reason) = (event_type \<noteq> ''revoke'')"
| "revives (Sync_grant i reason extra) = (or_else (gi_status i) ''active'' \<noteq> ''revoked'')"
| "revives (Capacity_grant k capacity) = True"

lemma revoked_found:
  assumes "find_entitlement k w = (r, w1)" and "honest w" and "db_ok (w_db w)" and "find_grant (w_db w) k = Some g"
    and "g_status g = ''revoked''"
  shows "(\<exists>e. r = Inl e) \<or> (\<exists>p. r = Inr (Some p) \<and> g_status p = ''revoked'' \<and> honest w1 \<and> db_ok (w_db w1) \<and> find_grant (w_db w1) k = Some p)"
proof (cases r)
  case (Inl e)
  then show ?thesis by simp
next
  case (Inr prev)
  from find_success [OF assms(1) [unfolded Inr] assms(2)] have f: "honest w1" "progress (w_db w) (w_db w1)" "prev = find_grant (w_db w1) k"
    by simp_all
  obtain p where "find_grant (w_db w1) k = Some p" "later_grant g p"
    using f(2) assms(3,4) unfolding progress_def by blast
  then show ?thesis using f Inr assms(3,5) progress_ok by (auto simp: later_grant_def)
qed

lemma io_bind_Inl: "m w = (Inl e, w1) \<Longrightarrow> io_bind m f w = (Inl e, w1)"
  by (simp add: io_bind_def)

lemma io_bind_Inr: "m w = (Inr x, w1) \<Longrightarrow> io_bind m f w = f x w1"
  by (simp add: io_bind_def)

lemma lifted_throw: "\<exists>e'. fst (io_bind (io_lift x) (\<lambda>_. io_throw e) w) = Inl e'"
  by (cases x) simp_all

lemma revoked_no_create:
  assumes "honest w" "db_ok (w_db w)" "find_grant (w_db w) (input_key i) = Some g" "g_status g = ''revoked''"
  shows "\<exists>e. fst (create_entitlement i ctx reason event_type idem extra now w) = Inl e"
proof -
  obtain r w1 where f: "find_entitlement (input_key i) w = (r, w1)" by (cases "find_entitlement (input_key i) w")
  from revoked_found [OF f assms] consider e where "r = Inl e" | p where "r = Inr (Some p)" "g_status p = ''revoked''" by blast
  then show ?thesis
    unfolding create_entitlement_def by cases (use f in \<open>simp_all add: io_bind_Inl io_bind_Inr\<close>)
qed

lemma revoked_no_transition:
  assumes "honest w" "db_ok (w_db w)" "find_grant (w_db w) k = Some g" "g_status g = ''revoked''" "event_type \<noteq> ''revoke''"
  shows "\<exists>e. fst (transition_entitlement k status event_type reason ctx idem now w) = Inl e"
proof -
  obtain r w1 where f: "find_entitlement k w = (r, w1)" by (cases "find_entitlement k w")
  from revoked_found [OF f assms(1-4)] consider e where "r = Inl e" | p where "r = Inr (Some p)" "g_status p = ''revoked''" by blast
  then show ?thesis
    unfolding transition_entitlement_def by cases (use f assms(5) in \<open>simp_all add: io_bind_Inl io_bind_Inr lifted_throw\<close>)
qed

lemma revived_fails:
  assumes "revives m" and "honest w" and "db_ok (w_db w)" and "find_grant (w_db w) (target_key m) = Some g"
    and "g_status g = ''revoked''"
  shows "\<exists>e. fst (run_mutation m ctx idem now w) = Inl e"
proof (cases m)
  case (Create_grant i reason event_type extra)
  with assms revoked_no_create show ?thesis by simp
next
  case (Transition_grant k status event_type reason)
  with assms revoked_no_transition show ?thesis by simp
next
  case (Patch_grant k patch)
  obtain r w1 where f: "find_entitlement k w = (r, w1)" by (cases "find_entitlement k w")
  from revoked_found [OF f assms(2,3)] assms(4,5) Patch_grant
  consider e where "r = Inl e" | p where "r = Inr (Some p)" "g_status p = ''revoked''" by auto
  then show ?thesis
    unfolding Patch_grant run_mutation.simps patch_entitlement_def
    by cases (use f in \<open>simp_all add: io_bind_Inl io_bind_Inr lifted_throw\<close>)
next
  case (Capacity_grant k capacity)
  obtain r w1 where f: "find_entitlement k w = (r, w1)" by (cases "find_entitlement k w")
  from revoked_found [OF f assms(2,3)] assms(4,5) Capacity_grant
  consider e where "r = Inl e" | p where "r = Inr (Some p)" "g_status p = ''revoked''" by auto
  then show ?thesis
    unfolding Capacity_grant run_mutation.simps set_entitlement_capacity_def
    by cases (use f in \<open>simp_all add: io_bind_Inl io_bind_Inr lifted_throw\<close>)
next
  case (Sync_grant i reason extra)
  let ?t = "or_else (gi_status i) ''active''"
  have live: "?t \<noteq> ''revoked''" using assms(1) Sync_grant by simp
  obtain r w1 where f: "find_entitlement (input_key i) w = (r, w1)" by (cases "find_entitlement (input_key i) w")
  from revoked_found [OF f assms(2,3)] assms(4,5) Sync_grant
  consider e where "r = Inl e" | p where "r = Inr (Some p)" "g_status p = ''revoked''" "honest w1" "db_ok (w_db w1)"
      "find_grant (w_db w1) (input_key i) = Some p" by auto
  then show ?thesis
  proof cases
    case 1
    with f show ?thesis unfolding Sync_grant run_mutation.simps sync_entitlement_def by (simp add: io_bind_Inl)
  next
    case (2 p)
    have "\<not> entitlement_matches_input p i" using live 2(2) by (auto simp: entitlement_matches_input_def)
    with f 2 live show ?thesis
      unfolding Sync_grant run_mutation.simps sync_entitlement_def
      using revoked_no_create [OF 2(3,4,5,2)] revoked_no_transition [OF 2(3,4,5,2)]
      by (simp add: io_bind_Inr Let_def)
  qed
qed

text \<open>C24. A revoked grant is terminal: whatever else happens, every mutation but a revocation fails on it
  and it stays revoked.\<close>

theorem revoked_grant_is_terminal:
  assumes "mutated empty_db (w_db w)" and "\<forall>t\<in>set (w_schedule w). \<forall>x. mutated x (tn_others t x)"
    and "find_grant (w_db w) (target_key m) = Some g" and "g_status g = ''revoked''" and "revives m" and "legal m"
    and "run_mutation m ctx idem now w = (r, w')"
  shows "(\<exists>e. r = Inl e) \<and> (\<exists>g'. find_grant (w_db w') (target_key m) = Some g' \<and> g_status g' = ''revoked'')"
proof -
  note hon = mutated_honest [OF assms(2)]
  have ok: "db_ok (w_db w)" using progress_ok [OF mutated_progress [OF assms(1)] empty_db_ok] .
  have "progress (w_db w) (w_db w')" using safe_ioD [OF safe_mutation [OF assms(6)] hon assms(7)] by blast
  then obtain g' where "find_grant (w_db w') (target_key m) = Some g'" "later_grant g g'"
    using ok assms(3) unfolding progress_def by blast
  then show ?thesis using revived_fails [OF assms(5) hon ok assms(3,4), of ctx idem now] assms(4,7) by (auto simp: later_grant_def)
qed

section \<open>Recorded answers are stored\<close>

definition stores :: "string \<Rightarrow> string \<Rightarrow> mutation_context \<Rightarrow> idempotency_commit \<Rightarrow> (db world, mutation_result option) io \<Rightarrow> bool" where
  "stores scope key ctx ic m \<longleftrightarrow> (\<forall>w r w'. honest w \<and> m w = (Inr (Some r), w') \<and> mr_recorded r \<longrightarrow>
     db_idempotency (w_db w') (scope, key) =
       Some \<lparr>gr_code = ic_response_code ic, gr_request_id = mc_request_id ctx, gr_data = mr_data r\<rparr>)"

named_theorems stores_intros

lemma stores_basic [stores_intros]:
  "stores scope key ctx ic (io_throw e)" "stores scope key ctx ic (io_return None)"
  "stores scope key ctx ic (io_return (Some \<lparr>mr_data = g, mr_recorded = False\<rparr>))"
  by (auto simp: stores_def)

lemma stores_bind [stores_intros]:
  assumes "safe_io m" and "\<And>x. stores scope key ctx ic (f x)"
  shows "stores scope key ctx ic (io_bind m f)"
  unfolding stores_def
proof (intro allI impI, elim conjE)
  fix w r w'
  assume h: "honest w" "io_bind m f w = (Inr (Some r), w')" "mr_recorded r"
  then obtain x w1 where "m w = (Inr x, w1)" "f x w1 = (Inr (Some r), w')" by (auto simp: io_bind_Inr_iff)
  with safe_ioD [OF assms(1) h(1)] assms(2) h(3)
  show "db_idempotency (w_db w') (scope, key) =
       Some \<lparr>gr_code = ic_response_code ic, gr_request_id = mc_request_id ctx, gr_data = mr_data r\<rparr>"
    unfolding stores_def by blast
qed

lemma stores_miss [stores_intros]:
  "stores scope key ctx ic (classify_entitlement_guard_miss k)"
  "stores scope key ctx ic (classify_entitlement_transition_guard_miss k target event_type)"
  unfolding classify_entitlement_guard_miss_def classify_entitlement_transition_guard_miss_def
  by (auto intro!: stores_intros safe_find split: option.split)

lemma stores_write:
  assumes "claims k Q s" and "\<forall>e\<in>set extra. side_statement k e" and "\<And>d new. Q d new \<Longrightarrow> advances k d new"
    and "stores scope key ctx ic (f None)" and f: "\<And>r. f (Some r) = io_return (Some r)"
    and key: "mc_idempotency_key ctx = Some key" and scope: "ic_scope ic = scope"
  shows "stores scope key ctx ic (io_bind (write_entitlement_with_audit k s ctx event_type prev reason now (Some ic) extra allow) f)"
  unfolding stores_def
proof (intro allI impI, elim conjE)
  fix w r w'
  assume h: "honest w" and rec: "mr_recorded r"
    and "io_bind (write_entitlement_with_audit k s ctx event_type prev reason now (Some ic) extra allow) f w = (Inr (Some r), w')"
  then obtain x w1 where x: "write_entitlement_with_audit k s ctx event_type prev reason now (Some ic) extra allow w = (Inr x, w1)"
    and c: "f x w1 = (Inr (Some r), w')" by (auto simp: io_bind_Inr_iff)
  show "db_idempotency (w_db w') (scope, key) =
       Some \<lparr>gr_code = ic_response_code ic, gr_request_id = mc_request_id ctx, gr_data = mr_data r\<rparr>"
  proof (cases x)
    case None
    have "honest w1" using safe_ioD [OF safe_write [OF assms(1-3)] h x] by blast
    with c None rec assms(4) show ?thesis unfolding stores_def by blast
  next
    case (Some r')
    with c f have r: "r' = r" "w1 = w'" by auto
    obtain d where "committed k ctx event_type prev (Some ic) (mr_data r) d (w_db w')"
      using write_success [OF x [unfolded Some r] h assms(1,2)] by blast
    then show ?thesis using key scope unfolding committed_def by auto
  qed
qed

lemma stores_create:
  assumes "\<forall>s\<in>set extra. side_statement (input_key i) s" and "mc_idempotency_key ctx = Some key"
  shows "stores (ic_scope ic) key ctx ic (create_entitlement i ctx reason event_type (Some ic) extra now)"
  unfolding create_entitlement_def
proof (rule stores_bind [OF safe_find])
  fix prev
  show "stores (ic_scope ic) key ctx ic (if case prev of None \<Rightarrow> False | Some p \<Rightarrow> g_status p = ''revoked'' then io_throw ''revoked_terminal''
       else io_bind (io_lift (required_owner (gi_customer_id i))) (\<lambda>owner.
         io_bind (write_entitlement_with_audit (input_key i) (create_statement i owner prev now) ctx
             (or_else event_type (if prev = None then ''create'' else ''update'')) prev reason now (Some ic) extra True)
           (\<lambda>result. case result of Some r \<Rightarrow> io_return (Some r) | None \<Rightarrow> classify_entitlement_guard_miss (input_key i))))"
  proof (cases "case prev of None \<Rightarrow> False | Some p \<Rightarrow> g_status p = ''revoked''")
    case True
    then show ?thesis by (simp add: stores_intros)
  next
    case False
    then have "\<And>p. prev = Some p \<Longrightarrow> g_status p \<noteq> ''revoked''" by auto
    note claim = create_claims [OF this]
    show ?thesis unfolding if_not_P [OF False]
      by (rule stores_bind [OF safe_basic(3)], rule stores_write [OF claim assms(1) _ _ _ assms(2)]) (simp_all add: stores_intros)
  qed
qed

lemma stores_transition:
  assumes "event_type = ''revoke'' \<longrightarrow> status = ''revoked''" and "mc_idempotency_key ctx = Some key"
  shows "stores (ic_scope ic) key ctx ic (transition_entitlement k status event_type reason ctx (Some ic) now)"
proof -
  have w: "stores (ic_scope ic) key ctx ic (io_bind
      (write_entitlement_with_audit k (transition_statement k p status now) ctx event_type (Some p) reason now (Some ic) [] True)
      (\<lambda>result. case result of Some r \<Rightarrow> io_return (Some r) | None \<Rightarrow> classify_entitlement_transition_guard_miss k status event_type))"
    if "\<not> (g_status p = ''revoked'' \<and> event_type \<noteq> ''revoke'')" for p
    by (rule stores_write [OF transition_claims _ _ _ _ assms(2)])
      (use that assms(1) in \<open>auto intro!: advances_bump stores_intros simp: observed_row_def\<close>)
  show ?thesis unfolding transition_entitlement_def
    by (rule stores_bind [OF safe_find]) (auto intro!: stores_intros safe_basic w split: option.split)
qed

lemma stores_expected: "stores scope key (ctx\<lparr>mc_expected := x\<rparr>) ic m = stores scope key ctx ic m"
  unfolding stores_def by simp

lemma stores_mutation:
  assumes "legal m" and key: "mc_idempotency_key ctx = Some key"
  shows "stores (ic_scope ic) key ctx ic (run_mutation m ctx (Some ic) now)"
proof (cases m)
  case (Create_grant i reason event_type extra)
  with assms show ?thesis by (simp add: stores_create)
next
  case (Transition_grant k status event_type reason)
  with assms show ?thesis by (simp add: stores_transition)
next
  case (Patch_grant k patch)
  have w: "stores (ic_scope ic) key ctx ic (io_bind
      (write_entitlement_with_audit k (patch_statement k p vf vu n ow li now) ctx ''update'' (Some p) [] now (Some ic) [] True)
      (\<lambda>result. case result of Some r \<Rightarrow> io_return (Some r) | None \<Rightarrow> classify_entitlement_guard_miss k))" for p vf vu n ow li
    by (rule stores_write [OF patch_claims _ _ _ _ key]) (auto intro!: advances_bump stores_intros simp: patched_def)
  show ?thesis unfolding Patch_grant run_mutation.simps patch_entitlement_def Let_def
    by (rule stores_bind [OF safe_find]) (auto intro!: stores_intros safe_basic w split: option.split)
next
  case (Capacity_grant k capacity)
  have w: "stores (ic_scope ic) key ctx ic (io_bind
      (write_entitlement_with_audit k (capacity_statement k p devices lease now) ctx ''update'' (Some p) [] now (Some ic) [] True)
      (\<lambda>result. case result of Some r \<Rightarrow> io_return (Some r) | None \<Rightarrow> classify_entitlement_guard_miss k))" for p devices lease
    by (rule stores_write [OF capacity_claims _ _ _ _ key]) (auto intro!: advances_bump stores_intros simp: observed_row_def)
  show ?thesis unfolding Capacity_grant run_mutation.simps set_entitlement_capacity_def Let_def
    by (rule stores_bind [OF safe_find]) (auto intro!: stores_intros safe_basic w split: option.split)
next
  case (Sync_grant i reason extra)
  have ctx': "stores (ic_scope ic) key ctx ic (transition_entitlement (input_key i) target
      (if target = ''revoked'' then ''revoke'' else ''disable'') reason (ctx\<lparr>mc_expected := x\<rparr>) (Some ic) now)" for target x
  proof -
    have "stores (ic_scope ic) key (ctx\<lparr>mc_expected := x\<rparr>) ic (transition_entitlement (input_key i) target
      (if target = ''revoked'' then ''revoke'' else ''disable'') reason (ctx\<lparr>mc_expected := x\<rparr>) (Some ic) now)"
      by (rule stores_transition) (simp_all add: key)
    then show ?thesis unfolding stores_expected .
  qed
  have c: "stores (ic_scope ic) key ctx ic (create_entitlement i ctx reason ty (Some ic) extra now)" for ty
    using assms Sync_grant by (simp add: stores_create)
  show ?thesis unfolding Sync_grant run_mutation.simps sync_entitlement_def Let_def
  proof (rule stores_bind [OF safe_find])
    fix prev
    show "stores (ic_scope ic) key ctx ic (case prev of
         Some p \<Rightarrow>
           if entitlement_matches_input p i then io_return (Some \<lparr>mr_data = p, mr_recorded = False\<rparr>)
           else if or_else (gi_status i) ''active'' \<noteq> ''active''
           then transition_entitlement (input_key i) (or_else (gi_status i) ''active'')
                  (if or_else (gi_status i) ''active'' = ''revoked'' then ''revoke'' else ''disable'') reason
                  (ctx\<lparr>mc_expected := Some (observed_expectation p)\<rparr>) (Some ic) now
           else create_entitlement i ctx reason (Some (sync_event_type prev (or_else (gi_status i) ''active''))) (Some ic) extra now
       | None \<Rightarrow> create_entitlement i ctx reason (Some (sync_event_type prev (or_else (gi_status i) ''active''))) (Some ic) extra now)"
    proof (cases prev)
      case None
      show ?thesis unfolding None option.case by (rule c)
    next
      case (Some p)
      consider "entitlement_matches_input p i" | "\<not> entitlement_matches_input p i" "or_else (gi_status i) ''active'' \<noteq> ''active''"
        | "\<not> entitlement_matches_input p i" "\<not> or_else (gi_status i) ''active'' \<noteq> ''active''" by blast
      then show ?thesis
      proof cases
        case 1
        show ?thesis unfolding Some option.case if_P [OF 1] by (rule stores_basic)
      next
        case 2
        show ?thesis unfolding Some option.case if_not_P [OF 2(1)] if_P [OF 2(2)] by (rule ctx')
      next
        case 3
        show ?thesis unfolding Some option.case if_not_P [OF 3(1)] if_not_P [OF 3(2)] by (rule c)
      qed
    qed
  qed
qed

section \<open>A concrete run\<close>

definition example_ctx :: mutation_context where
  "example_ctx = \<lparr>mc_actor = \<lparr>ac_subject = ''ops'', ac_email = [], ac_type = ''access''\<rparr>, mc_request_id = ''r1'', mc_ip = [],
     mc_source = ''admin'', mc_idempotency_key = Some ''k1'', mc_expected = None\<rparr>"

definition example_grant_input :: grant_input where
  "example_grant_input = \<lparr>gi_project = ''demo'', gi_feature = ''base'', gi_fingerprint = ''ff'', gi_status = None,
     gi_valid_from = None, gi_valid_until = Some 5000, gi_notes = None, gi_customer_id = Some ''cus'', gi_license_id = None\<rparr>"

definition example_key :: grant_key where
  "example_key = (''demo'', ''base'', ''ff'')"

definition quiet_world :: "db \<Rightarrow> db world" where
  "quiet_world d = \<lparr>w_db = d, w_schedule = [], w_has_batch = True\<rparr>"

definition example_commit :: idempotency_commit where
  "example_commit = \<lparr>ic_scope = ''s'', ic_response_code = ''entitlement_saved''\<rparr>"

definition created_world :: "db world" where
  "created_world = snd (run_mutation (Create_grant example_grant_input [] None []) example_ctx (Some example_commit) 1000 (quiet_world empty_db))"

definition example_grant :: grant where
  "example_grant = created_grant example_grant_input ''cus'' 1 1000 1000"

lemmas example_simps = quiet_world_def example_ctx_def example_grant_input_def example_key_def example_commit_def
  empty_db_def input_key_def find_grant_def key_of_def

lemmas op_simps = create_entitlement_def find_entitlement_def db_read_def db_call_def io_bind_def Let_def io_catch_def
  write_entitlement_with_audit_def db_batch_def run_batch_def write_statements_def create_statement_def insert_grant_def
  first_revocation_seq_def event_floor_def or_else_def required_owner_def js_trim_def js_space_def row_checks_def
  grant_statuses_def blank_def created_grant_def event_from_current_def idempotency_from_current_def
  idempotency_response_from_current_def select_when_changed_def batch_returned_row_def written_result_def
  cached_mutation_data_def code_unit_def

lemma created_world_run:
  "run_mutation (Create_grant example_grant_input [] None []) example_ctx (Some example_commit) 1000 (quiet_world empty_db)
     = (Inr (Some \<lparr>mr_data = example_grant, mr_recorded = True\<rparr>), created_world)"
proof -
  have "fst (run_mutation (Create_grant example_grant_input [] None []) example_ctx (Some example_commit) 1000 (quiet_world empty_db))
      = Inr (Some \<lparr>mr_data = example_grant, mr_recorded = True\<rparr>)"
    by (simp add: example_simps op_simps example_grant_def)
  then show ?thesis unfolding created_world_def by (simp add: prod_eq_iff)
qed

lemma created_world_grant: "find_grant (w_db created_world) example_key = Some example_grant"
  unfolding created_world_def by (simp add: example_simps op_simps example_grant_def)

lemma created_world_mutated: "mutated empty_db (w_db created_world)"
  by (rule mutated.request [OF mutated.none _ _ created_world_run [unfolded quiet_world_def]]) simp_all

definition expecting :: "grant \<Rightarrow> mutation_context" where
  "expecting g = example_ctx\<lparr>mc_expected := Some (observed_expectation g), mc_idempotency_key := None\<rparr>"

definition example_patch :: grant_patch where
  "example_patch = \<lparr>gp_valid_from = Some (Some 2000), gp_valid_until = None, gp_notes = Some ''vip'', gp_customer_id = None, gp_license_id = None\<rparr>"

definition revoked_world :: "db world" where
  "revoked_world = snd (run_mutation (Transition_grant example_key ''revoked'' ''revoke'' ''abuse'') (expecting example_grant) None 1500
     (quiet_world (w_db created_world)))"

lemma created_db: "w_db created_world = \<lparr>db_grants = [example_grant], db_events = [\<lparr>ev_key = example_key, ev_type = ''create'',
     ev_status = ''active'', ev_revocation_seq = 1, ev_detail = [], ev_actor = ''ops'', ev_actor_type = ''access'', ev_source = ''admin'',
     ev_request_id = ''r1'', ev_ip = [], ev_prev = None, ev_next = example_grant, ev_reason = [], ev_idempotency_key = Some ''k1'',
     ev_created_at = 1000\<rparr>],
     db_idempotency = [(''s'', ''k1'') \<mapsto> \<lparr>gr_code = ''entitlement_saved'', gr_request_id = ''r1'', gr_data = example_grant\<rparr>],
     db_occupied = (\<lambda>_. 0), db_generation = 1, db_changes = 1\<rparr>"
  unfolding created_world_def by (simp add: example_simps op_simps example_grant_def actor_label_def event_source_def)

lemma revoked_world_run:
  "run_mutation (Transition_grant example_key ''revoked'' ''revoke'' ''abuse'') (expecting example_grant) None 1500
     (quiet_world (w_db created_world)) = (Inr (Some \<lparr>mr_data = example_grant\<lparr>g_status := ''revoked'', g_revocation_seq := 2, g_updated_at := 1500\<rparr>,
       mr_recorded = False\<rparr>), revoked_world)"
proof -
  have "fst (run_mutation (Transition_grant example_key ''revoked'' ''revoke'' ''abuse'') (expecting example_grant) None 1500
     (quiet_world (w_db created_world))) = Inr (Some \<lparr>mr_data = example_grant\<lparr>g_status := ''revoked'', g_revocation_seq := 2, g_updated_at := 1500\<rparr>,
       mr_recorded = False\<rparr>)"
    unfolding created_db
    by (simp add: example_simps op_simps example_grant_def transition_entitlement_def assert_expected_entitlement_def expecting_def
        observed_expectation_def transition_statement_def update_grant_def observed_row_def trigger_refuses_def revocation_seq_bump_def)
  then show ?thesis unfolding revoked_world_def by (simp add: prod_eq_iff)
qed

lemma revoked_world_mutated: "mutated (w_db created_world) (w_db revoked_world)"
  by (rule mutated.request [OF mutated.none _ _ revoked_world_run [unfolded quiet_world_def]]) simp_all

lemma mutated_trans: "mutated d' d'' \<Longrightarrow> mutated d d' \<Longrightarrow> mutated d d''"
  by (induction rule: mutated.induct) (blast intro: mutated.intros)+

lemma revoked_world_grant: "\<exists>g. find_grant (w_db revoked_world) example_key = Some g \<and> g_status g = ''revoked''"
  unfolding revoked_world_def created_db
    by (simp add: example_simps op_simps example_grant_def transition_entitlement_def assert_expected_entitlement_def expecting_def
        observed_expectation_def transition_statement_def update_grant_def observed_row_def trigger_refuses_def revocation_seq_bump_def)

theorem mutations_only_move_forward_witness:
  "\<exists>g'. find_grant (w_db revoked_world) example_key = Some g' \<and> g_revocation_seq example_grant \<le> g_revocation_seq g'"
  using mutations_only_move_forward [OF created_world_mutated revoked_world_mutated created_world_grant] by blast

theorem revoked_grant_is_terminal_witness:
  "\<exists>e. fst (run_mutation (Patch_grant example_key example_patch) (expecting example_grant) None 2000 (quiet_world (w_db revoked_world))) = Inl e"
proof -
  obtain g where g: "find_grant (w_db revoked_world) example_key = Some g" "g_status g = ''revoked''"
    using revoked_world_grant by blast
  obtain r w' where r: "run_mutation (Patch_grant example_key example_patch) (expecting example_grant) None 2000 (quiet_world (w_db revoked_world)) = (r, w')"
    by fastforce
  have "mutated empty_db (w_db (quiet_world (w_db revoked_world)))"
    using mutated_trans [OF revoked_world_mutated created_world_mutated] by (simp add: quiet_world_def)
  from revoked_grant_is_terminal [OF this, where m = "Patch_grant example_key example_patch", OF _ _ g(2) _ _ r] g(1)
  show ?thesis using r by (simp add: quiet_world_def)
qed

lemma example_patch_run:
  "\<exists>r w'. patch_entitlement example_key example_patch (expecting example_grant) None 2000 (quiet_world (w_db created_world)) = (Inr (Some r), w')
     \<and> g_notes (mr_data r) = ''vip'' \<and> g_revocation_seq (mr_data r) = 2"
  unfolding created_db
    by (simp add: example_simps op_simps example_grant_def patch_entitlement_def assert_expected_entitlement_def expecting_def example_patch_def
        observed_expectation_def patch_statement_def update_grant_def observed_row_def trigger_refuses_def revocation_seq_bump_def)

theorem patch_entitlement_commits_witness:
  "\<exists>r w' d p. patch_entitlement example_key example_patch (expecting example_grant) None 2000 (quiet_world (w_db created_world)) = (Inr (Some r), w')
     \<and> g_notes (mr_data r) = ''vip'' \<and> committed example_key (expecting example_grant) ''update'' (Some p) None (mr_data r) d (w_db w')"
proof -
  obtain r w' where r: "patch_entitlement example_key example_patch (expecting example_grant) None 2000 (quiet_world (w_db created_world)) = (Inr (Some r), w')"
    "g_notes (mr_data r) = ''vip''"
    using example_patch_run by blast
  have "mutated empty_db (w_db (quiet_world (w_db created_world)))" using created_world_mutated by (simp add: quiet_world_def)
  from patch_entitlement_commits [OF this _ r(1)] r show ?thesis by (auto simp: quiet_world_def)
qed

end
