(* ===== verification/Admin_Replies.thy ===== *)
theory Admin_Replies
  imports Grant_Interleaving
begin

text \<open>
  \<open>idempotency.ts\<close> of the licence administration Worker over the replay store
  (\<open>d1/idempotency_store.mjs\<close>): the replay of a keyed request, the reply built from what the
  mutation returned, and the errors it maps.
\<close>

section \<open>The replay store\<close>

definition read_idempotent_response :: "string \<Rightarrow> string option \<Rightarrow> (db world, grant_response option) io" where
  "read_idempotent_response scope key = (case key of
     None \<Rightarrow> io_return None
   | Some k \<Rightarrow> db_read (\<lambda>d. db_idempotency d (scope, k)))"

definition write_idempotent_response :: "string \<Rightarrow> string option \<Rightarrow> grant_response \<Rightarrow> (db world, grant_response option) io" where
  "write_idempotent_response scope key body = (case key of
     None \<Rightarrow> io_return None
   | Some k \<Rightarrow> io_bind (db_call (insert_response scope k body)) (\<lambda>_. read_idempotent_response scope key))"

section \<open>Replies\<close>

text \<open>A reply is an envelope with an error code, or a kept or fresh success body.\<close>

datatype reply = Refusal nat string | Success grant_response bool

text \<open>\<open>Success body replayed\<close> is status 200, with the replay header when \<open>replayed\<close>.\<close>

type_synonym admission = "(grant_response \<Rightarrow> bool) option"

definition replay_response :: "grant_response \<Rightarrow> admission \<Rightarrow> reply" where
  "replay_response body admit = (case admit of
     Some a \<Rightarrow> if \<not> a body then Refusal 409 ''idempotency_request_conflict'' else Success body True
   | None \<Rightarrow> Success body True)"

definition idempotent_replay :: "string \<Rightarrow> string option \<Rightarrow> admission \<Rightarrow> (db world, reply option) io" where
  "idempotent_replay scope key admit =
     io_bind (read_idempotent_response scope key) (\<lambda>raw. io_return (map_option (\<lambda>b. replay_response b admit) raw))"

text \<open>What a handler returns: nothing found, a reply of its own, or a result.\<close>

datatype handler_answer = NotFound | Answer reply | Result mutation_result

definition reply_scope :: "string \<Rightarrow> string \<Rightarrow> mutation_context \<Rightarrow> string" where
  "reply_scope verb path ctx = verb @ '':'' @ path @ '':'' @ ac_subject (mc_actor ctx)"

definition error_reply :: "string \<Rightarrow> reply" where
  "error_reply e =
     (if e = ''idempotency_conflict'' then Refusal 500 ''mutation_failed''
      else if e = ''stale_transition'' then Refusal 409 ''stale_transition''
      else if e = ''revoked_terminal'' then Refusal 409 ''revoked_entitlement_is_terminal''
      else if e = ''invalid_patch'' then Refusal 400 ''invalid_request''
      else Refusal 500 ''mutation_failed'')"

definition prefer_replay :: "bool \<Rightarrow> (db world, reply option) io \<Rightarrow> (db world, reply) io \<Rightarrow> (db world, reply) io" where
  "prefer_replay when read otherwise =
     (if when then io_bind read (\<lambda>r. case r of Some reply \<Rightarrow> io_return reply | None \<Rightarrow> otherwise) else otherwise)"

definition answer_reply ::
  "string \<Rightarrow> mutation_context \<Rightarrow> string \<Rightarrow> admission \<Rightarrow> handler_answer \<Rightarrow> (db world, reply) io" where
  "answer_reply scope ctx code admit answer =
     (let read = idempotent_replay scope (mc_idempotency_key ctx) admit in
      case answer of
        NotFound \<Rightarrow> io_return (Refusal 404 ''not_found'')
      | Answer r \<Rightarrow> prefer_replay (admit \<noteq> None) read (io_return r)
      | Result r \<Rightarrow>
          let body = \<lparr>gr_code = code, gr_request_id = mc_request_id ctx, gr_data = mr_data r\<rparr> in
          prefer_replay (\<not> mr_recorded r) read
            (if mr_recorded r then io_return (Success body False)
             else io_bind (write_idempotent_response scope (mc_idempotency_key ctx) body) (\<lambda>kept.
               case kept of
                 Some b \<Rightarrow> if b \<noteq> body then io_return (replay_response b admit) else io_return (Success body False)
               | None \<Rightarrow> io_return (Success body False))))"

definition mutation_failure :: "string \<Rightarrow> mutation_context \<Rightarrow> admission \<Rightarrow> string \<Rightarrow> (db world, reply) io" where
  "mutation_failure scope ctx admit e =
     (let read = idempotent_replay scope (mc_idempotency_key ctx) admit in
      prefer_replay (admit \<noteq> None) read
        (prefer_replay (e = ''idempotency_conflict'' \<or> e = ''stale_transition'') read
          (io_return (error_reply e))))"

definition mutation_response ::
  "string \<Rightarrow> string \<Rightarrow> mutation_context \<Rightarrow> string \<Rightarrow> (idempotency_commit option \<Rightarrow> (db world, handler_answer) io) \<Rightarrow> admission
     \<Rightarrow> (db world, reply) io" where
  "mutation_response verb path ctx code handler admit =
     (let scope = reply_scope verb path ctx;
          idem = (if mc_idempotency_key ctx = None then None else Some \<lparr>ic_scope = scope, ic_response_code = code\<rparr>) in
      io_bind (idempotent_replay scope (mc_idempotency_key ctx) admit) (\<lambda>replay. case replay of
        Some r \<Rightarrow> io_return r
      | None \<Rightarrow> io_catch (io_bind (handler idem) (answer_reply scope ctx code admit)) (mutation_failure scope ctx admit)))"

text \<open>A mutation as a handler: \<open>null\<close> is not found.\<close>

definition mutation_handler :: "mutation \<Rightarrow> mutation_context \<Rightarrow> int \<Rightarrow> idempotency_commit option \<Rightarrow> (db world, handler_answer) io" where
  "mutation_handler m ctx now idem = io_bind (run_mutation m ctx idem now) (\<lambda>r. io_return (case r of None \<Rightarrow> NotFound | Some x \<Rightarrow> Result x))"

section \<open>Every success of a key is the kept one\<close>

text \<open>A world that can be reached from an honest one, with a well formed database.\<close>

definition sound :: "db world \<Rightarrow> bool" where
  "sound w \<longleftrightarrow> honest w \<and> db_ok (w_db w)"

lemma safe_replies [safe_intros]:
  "safe_io (read_idempotent_response scope k)"
  "safe_io (write_idempotent_response scope k body)"
  unfolding read_idempotent_response_def write_idempotent_response_def
  by (auto intro!: safe_intros safe_call insert_progress split: option.split)

lemma sound_step: "safe_io m \<Longrightarrow> sound w \<Longrightarrow> m w = (r, w') \<Longrightarrow> sound w' \<and> progress (w_db w) (w_db w')"
  using safe_ioD progress_ok by (fastforce simp: sound_def)

lemma read_stored:
  assumes "read_idempotent_response scope (Some k) w = (Inr raw, w')" and "sound w"
  shows "raw = db_idempotency (w_db w') (scope, k)"
  using db_call_cases [OF assms(1) [unfolded read_idempotent_response_def option.case db_read_def]] assms(2)
  by (auto simp: sound_def)

lemma stored_stays:
  assumes "progress d d'" and "db_ok d" and "db_idempotency d s = Some b"
  shows "db_idempotency d' s = Some b"
proof -
  have "db_idempotency d \<subseteq>\<^sub>m db_idempotency d'" using assms(1,2) unfolding progress_def by blast
  then show ?thesis using assms(3) unfolding map_le_def by (metis domI)
qed

lemma write_then_stored:
  assumes "write_idempotent_response scope (Some k) body w = (Inr kept, w')" and "sound w"
  shows "kept \<noteq> None \<and> kept = db_idempotency (w_db w') (scope, k)"
proof -
  from assms(1) obtain w1 where i: "db_call (insert_response scope k body) w = (Inr (), w1)"
    and r: "read_idempotent_response scope (Some k) w1 = (Inr kept, w')"
    unfolding write_idempotent_response_def option.case io_bind_Inr_iff by auto
  have s1: "sound w1" using sound_step [OF safe_call [OF insert_progress] assms(2) i] by blast
  obtain d where "(Inr (), w_db w1) = insert_response scope k body d"
    using db_call_cases [OF i] assms(2) by (auto simp: sound_def)
  then obtain b where b: "db_idempotency (w_db w1) (scope, k) = Some b"
    by (cases "db_idempotency d (scope, k)") (auto simp: insert_response_def)
  have "progress (w_db w1) (w_db w')" "sound w'" using sound_step [OF safe_replies(1) s1 r] by simp_all
  with b stored_stays s1 have "db_idempotency (w_db w') (scope, k) = Some b" by (auto simp: sound_def)
  with read_stored [OF r s1] show ?thesis by simp
qed

definition agrees :: "string \<Rightarrow> string \<Rightarrow> (db world, reply) io \<Rightarrow> bool" where
  "agrees scope key m \<longleftrightarrow> (\<forall>w body replayed w'. sound w \<and> m w = (Inr (Success body replayed), w') \<longrightarrow>
     db_idempotency (w_db w') (scope, key) = Some body)"

lemma replay_agrees:
  assumes "idempotent_replay scope (Some k) admit w = (Inr (Some (Success body replayed)), w')" and "sound w"
  shows "db_idempotency (w_db w') (scope, k) = Some body"
proof -
  from assms(1) obtain raw where r: "read_idempotent_response scope (Some k) w = (Inr raw, w')"
    and "map_option (\<lambda>b. replay_response b admit) raw = Some (Success body replayed)"
    unfolding idempotent_replay_def io_bind_Inr_iff by auto
  then have "raw = Some body" by (auto simp: replay_response_def split: option.splits if_splits)
  with read_stored [OF r assms(2)] show ?thesis by simp
qed

lemma safe_replay [safe_intros]: "safe_io (idempotent_replay scope k admit)"
  unfolding idempotent_replay_def by (intro safe_bind) (auto intro: safe_intros)

lemma agrees_basic: "agrees scope key (io_return (Refusal n c))" "agrees scope key (io_throw e)"
  by (auto simp: agrees_def)

lemma agrees_bind:
  assumes "safe_io m" and "\<And>x. agrees scope key (f x)"
  shows "agrees scope key (io_bind m f)"
  unfolding agrees_def
proof (intro allI impI, elim conjE)
  fix w body replayed w'
  assume s: "sound w" and r: "io_bind m f w = (Inr (Success body replayed), w')"
  then obtain x w1 where "m w = (Inr x, w1)" "f x w1 = (Inr (Success body replayed), w')" by (auto simp: io_bind_Inr_iff)
  with sound_step [OF assms(1) s] assms(2) show "db_idempotency (w_db w') (scope, key) = Some body"
    unfolding agrees_def by blast
qed

lemma agrees_prefer:
  assumes "agrees scope k otherwise"
  shows "agrees scope k (prefer_replay when (idempotent_replay scope (Some k) admit) otherwise)"
  unfolding agrees_def
proof (intro allI impI, elim conjE)
  fix w body replayed w'
  assume s: "sound w" and r: "prefer_replay when (idempotent_replay scope (Some k) admit) otherwise w = (Inr (Success body replayed), w')"
  show "db_idempotency (w_db w') (scope, k) = Some body"
  proof (cases "when")
    case False
    with s r assms show ?thesis unfolding agrees_def prefer_replay_def by auto
  next
    case True
    with r obtain x w1 where x: "idempotent_replay scope (Some k) admit w = (Inr x, w1)"
      and c: "(case x of Some reply \<Rightarrow> io_return reply | None \<Rightarrow> otherwise) w1 = (Inr (Success body replayed), w')"
      unfolding prefer_replay_def by (auto simp: io_bind_Inr_iff)
    show ?thesis
    proof (cases x)
      case None
      with c sound_step [OF safe_replay s x] assms show ?thesis unfolding agrees_def by auto
    next
      case (Some reply)
      with c replay_agrees x s show ?thesis by auto
    qed
  qed
qed

lemma recorded_kept:
  assumes "stores scope key ctx ic m" and "m w = (Inr (Some r), w')" and "honest w" and "mr_recorded r"
  shows "db_idempotency (w_db w') (scope, key) =
    Some \<lparr>gr_code = ic_response_code ic, gr_request_id = mc_request_id ctx, gr_data = mr_data r\<rparr>"
  using assms unfolding stores_def by blast

lemma unrecorded_agrees:
  assumes "mc_idempotency_key ctx = Some k" and "\<not> mr_recorded r"
  shows "agrees scope k (answer_reply scope ctx code admit (Result r))"
proof -
  let ?body = "\<lparr>gr_code = code, gr_request_id = mc_request_id ctx, gr_data = mr_data r\<rparr>"
  have w: "agrees scope k (io_bind (write_idempotent_response scope (Some k) ?body) (\<lambda>kept.
               case kept of
                 Some b \<Rightarrow> if b \<noteq> ?body then io_return (replay_response b admit) else io_return (Success ?body False)
               | None \<Rightarrow> io_return (Success ?body False)))"
    unfolding agrees_def
  proof (intro allI impI, elim conjE)
    fix w body replayed w'
    assume s: "sound w" and "io_bind (write_idempotent_response scope (Some k) ?body) (\<lambda>kept.
               case kept of
                 Some b \<Rightarrow> if b \<noteq> ?body then io_return (replay_response b admit) else io_return (Success ?body False)
               | None \<Rightarrow> io_return (Success ?body False)) w = (Inr (Success body replayed), w')"
    then obtain kept w1 where x: "write_idempotent_response scope (Some k) ?body w = (Inr kept, w1)"
      and c: "(case kept of
                 Some b \<Rightarrow> if b \<noteq> ?body then io_return (replay_response b admit) else io_return (Success ?body False)
               | None \<Rightarrow> io_return (Success ?body False)) w1 = (Inr (Success body replayed), w')"
      by (auto simp: io_bind_Inr_iff)
    from write_then_stored [OF x s] obtain b where b: "kept = Some b" "db_idempotency (w_db w1) (scope, k) = Some b" by auto
    with c have "w' = w1" "body = b" by (auto simp: replay_response_def split: if_splits option.splits)
    with b show "db_idempotency (w_db w') (scope, k) = Some body" by simp
  qed
  show ?thesis using assms agrees_prefer [OF w] unfolding answer_reply_def Let_def by simp
qed

lemma handler_cases:
  assumes "mutation_handler m ctx now idem w = (Inr a, w')"
  obtains "a = NotFound" | r where "a = Result r" "run_mutation m ctx idem now w = (Inr (Some r), w')"
  using assms unfolding mutation_handler_def io_bind_Inr_iff by (auto split: option.splits)

lemma safe_handler: "legal m \<Longrightarrow> safe_io (mutation_handler m ctx now idem)"
  unfolding mutation_handler_def by (intro safe_bind safe_mutation) (auto intro: safe_intros)

lemma handled_agrees:
  assumes "legal m" and k: "mc_idempotency_key ctx = Some k"
  shows "agrees scope k (io_bind (mutation_handler m ctx now (Some \<lparr>ic_scope = scope, ic_response_code = code\<rparr>))
    (answer_reply scope ctx code admit))"
  unfolding agrees_def
proof (intro allI impI, elim conjE)
  fix w body replayed w'
  assume s: "sound w" and "io_bind (mutation_handler m ctx now (Some \<lparr>ic_scope = scope, ic_response_code = code\<rparr>))
      (answer_reply scope ctx code admit) w = (Inr (Success body replayed), w')"
  then obtain a w1 where h: "mutation_handler m ctx now (Some \<lparr>ic_scope = scope, ic_response_code = code\<rparr>) w = (Inr a, w1)"
    and c: "answer_reply scope ctx code admit a w1 = (Inr (Success body replayed), w')" by (auto simp: io_bind_Inr_iff)
  from h show "db_idempotency (w_db w') (scope, k) = Some body"
  proof (cases rule: handler_cases)
    case 1
    with c show ?thesis by (simp add: answer_reply_def)
  next
    case (2 r)
    show ?thesis
    proof (cases "mr_recorded r")
      case False
      with c 2 unrecorded_agrees [OF k] sound_step [OF safe_handler [OF assms(1)] s h] show ?thesis
        unfolding agrees_def by blast
    next
      case True
      have "honest w" using s by (simp add: sound_def)
      from recorded_kept [OF stores_mutation [OF assms(1) k, where ic = "\<lparr>ic_scope = scope, ic_response_code = code\<rparr>"] 2(2) this True]
      show ?thesis using c 2(1) True by (auto simp: answer_reply_def prefer_replay_def)
    qed
  qed
qed

lemma agrees_catch:
  assumes "safe_io m" and "agrees scope k m" and "\<And>e. agrees scope k (h e)"
  shows "agrees scope k (io_catch m h)"
  unfolding agrees_def
proof (intro allI impI, elim conjE)
  fix w body replayed w'
  assume s: "sound w" and c: "io_catch m h w = (Inr (Success body replayed), w')"
  obtain r1 w1 where m: "m w = (r1, w1)" by (cases "m w")
  show "db_idempotency (w_db w') (scope, k) = Some body"
  proof (cases r1)
    case (Inl e)
    with c m have "h e w1 = (Inr (Success body replayed), w')" by (simp add: io_catch_def)
    with sound_step [OF assms(1) s m] assms(3) show ?thesis unfolding agrees_def by blast
  next
    case (Inr x)
    with c m have "m w = (Inr (Success body replayed), w')" by (simp add: io_catch_def)
    with assms(2) s show ?thesis unfolding agrees_def by blast
  qed
qed

lemma safe_prefer [safe_intros]: "safe_io read \<Longrightarrow> safe_io m \<Longrightarrow> safe_io (prefer_replay when read m)"
  unfolding prefer_replay_def by (auto intro!: safe_bind safe_basic split: option.split)

lemma safe_answer [safe_intros]: "safe_io (answer_reply scope ctx code admit a)"
  unfolding answer_reply_def Let_def
  by (cases a) (auto intro!: safe_intros split: option.split)

lemma response_agrees:
  assumes "legal m" and k: "mc_idempotency_key ctx = Some k"
  shows "agrees (reply_scope verb path ctx) k (mutation_response verb path ctx code (mutation_handler m ctx now) admit)"
  unfolding agrees_def
proof (intro allI impI, elim conjE)
  let ?scope = "reply_scope verb path ctx"
  let ?idem = "Some \<lparr>ic_scope = ?scope, ic_response_code = code\<rparr>"
  let ?go = "io_catch (io_bind (mutation_handler m ctx now ?idem) (answer_reply ?scope ctx code admit)) (mutation_failure ?scope ctx admit)"
  fix w body replayed w'
  assume s: "sound w" and "mutation_response verb path ctx code (mutation_handler m ctx now) admit w = (Inr (Success body replayed), w')"
  then obtain x w1 where x: "idempotent_replay ?scope (Some k) admit w = (Inr x, w1)"
    and c: "(case x of Some r \<Rightarrow> io_return r | None \<Rightarrow> ?go) w1 = (Inr (Success body replayed), w')"
    using k unfolding mutation_response_def Let_def by (auto simp: io_bind_Inr_iff)
  have f: "agrees ?scope k (mutation_failure ?scope ctx admit e)" for e
    unfolding mutation_failure_def k Let_def
    by (intro agrees_prefer) (simp add: error_reply_def agrees_basic)
  have go: "agrees ?scope k ?go"
    by (rule agrees_catch [OF safe_bind [OF safe_handler [OF assms(1)] safe_answer] handled_agrees [OF assms] f])
  show "db_idempotency (w_db w') (?scope, k) = Some body"
  proof (cases x)
    case None
    with c go sound_step [OF safe_replay s x] show ?thesis unfolding agrees_def by auto
  next
    case (Some r)
    with c replay_agrees x s show ?thesis by auto
  qed
qed

text \<open>C9. Every success reply to a keyed mutation is the response stored for its key, whatever else is
  committed meanwhile and whichever database calls are lost; so the replies to a retried request
  never differ, and the stored response outlives them.\<close>

theorem keyed_replies_agree:
  assumes "mutated empty_db (w_db w)" and "\<forall>t\<in>set (w_schedule w). \<forall>x. mutated x (tn_others t x)"
    and "legal m" and "mc_idempotency_key ctx = Some k"
    and "mutation_response verb path ctx code (mutation_handler m ctx now) admit w = (Inr (Success body replayed), w')"
  shows "\<forall>d. progress (w_db w') d \<longrightarrow> db_idempotency d (reply_scope verb path ctx, k) = Some body"
proof (intro allI impI)
  fix d
  assume p: "progress (w_db w') d"
  have s: "sound w"
    using mutated_honest [OF assms(2)] progress_ok [OF mutated_progress [OF assms(1)] empty_db_ok] by (simp add: sound_def)
  have safe: "safe_io (mutation_response verb path ctx code (mutation_handler m ctx now) admit)"
    unfolding mutation_response_def Let_def mutation_failure_def
    by (intro safe_bind safe_replay) (auto intro!: safe_intros safe_catch safe_handler assms(3) split: option.split)
  have "db_idempotency (w_db w') (reply_scope verb path ctx, k) = Some body"
    using response_agrees [OF assms(3,4)] s assms(5) unfolding agrees_def by blast
  moreover have "db_ok (w_db w')" using sound_step [OF safe s assms(5)] by (simp add: sound_def)
  ultimately show "db_idempotency d (reply_scope verb path ctx, k) = Some body" using stored_stays [OF p] by blast
qed

definition example_created :: "(db world, reply) io" where
  "example_created = mutation_response ''POST'' ''/api/admin/entitlements'' example_ctx ''entitlement_saved''
     (mutation_handler (Create_grant example_grant_input [] None []) example_ctx 1000) None"

definition example_body :: grant_response where
  "example_body = \<lparr>gr_code = ''entitlement_saved'', gr_request_id = ''r1'', gr_data = example_grant\<rparr>"

lemma example_created_run: "fst (example_created (quiet_world empty_db)) = Inr (Success example_body False)"
  unfolding example_created_def mutation_response_def mutation_handler_def run_mutation.simps
  by (simp add: example_simps op_simps example_grant_def example_body_def idempotent_replay_def read_idempotent_response_def
      answer_reply_def prefer_replay_def reply_scope_def)

theorem keyed_replies_agree_witness:
  "\<exists>w'. example_created (quiet_world empty_db) = (Inr (Success example_body False), w')
    \<and> db_idempotency (w_db w') (reply_scope ''POST'' ''/api/admin/entitlements'' example_ctx, ''k1'') = Some example_body"
proof -
  obtain w' where w': "example_created (quiet_world empty_db) = (Inr (Success example_body False), w')"
    using example_created_run by (cases "example_created (quiet_world empty_db)") auto
  have "mutated empty_db (w_db (quiet_world empty_db))" by (simp add: quiet_world_def mutated.none)
  from keyed_replies_agree [OF this _ _ _ w' [unfolded example_created_def], of "''k1''"] w'
  show ?thesis by (auto simp: quiet_world_def example_ctx_def)
qed

end
