(* ===== verification/Plan_Preview.thy ===== *)
theory Plan_Preview
  imports Grant_Safety "HOL-Library.List_Lexorder" "HOL-Library.Char_ord" "HOL-Library.Product_Lexorder"
begin

text \<open>
  The preview half of \<open>d1/plan_projection.mjs\<close>: a preview is a stored capability bound to an actor, a generation of
  the catalog and an expiry; applying it is one batch that claims the preview, writes every grant
  with its audit event, asserts what it wrote, stores the response and consumes the preview.
  The columns that hold JSON are kept as the values they encode.
\<close>

section \<open>Tables\<close>

record catalog_plan =
  cp_id :: string
  cp_project :: string
  cp_key :: string
  cp_status :: string
  cp_version :: int

record catalog_feature =
  cf_project :: string
  cf_key :: string
  cf_name :: string
  cf_status :: string

record plan_feature =
  pf_project :: string
  pf_plan_id :: string
  pf_feature_key :: string
  pf_inclusion :: string
  pf_addon_key :: "string option"
  pf_policy_id :: "string option"
  pf_status :: string
  pf_display_order :: int
  pf_max_active_devices :: "int option"

record assignment_row =
  as_license_id :: string
  as_project :: string
  as_plan_id :: string
  as_fingerprint :: string
  as_customer_id :: "string option"
  as_status :: string
  as_support_until :: "int option"
  as_addons :: "string list"
  as_created_at :: int
  as_updated_at :: int

record assignment_event =
  ae_license_id :: string
  ae_project :: string
  ae_plan_id :: string
  ae_fingerprint :: string
  ae_type :: string
  ae_actor :: string
  ae_actor_type :: string
  ae_source :: string
  ae_request_id :: string
  ae_prev :: "assignment_row option"
  ae_next :: assignment_row
  ae_reason :: string
  ae_idempotency_key :: "string option"
  ae_created_at :: int

text \<open>The assignment a classification returns.\<close>

record assignment =
  am_project :: string
  am_license_id :: string
  am_fingerprint :: string
  am_customer_id :: "string option"
  am_plan_id :: string
  am_plan_key :: string
  am_support_until :: "int option"
  am_addons :: "string list"

record preview_response =
  pr_id :: string
  pr_plan :: catalog_plan
  pr_assignment :: assignment
  pr_desired :: "plan_item list"
  pr_projection :: projection
  pr_effective_at :: int
  pr_expires_at :: int
  pr_source_generation :: nat

record desired_action =
  da_desired :: desired_row
  da_previous :: "grant option"

record projection_actions =
  pa_version :: int
  pa_created :: "desired_action list"
  pa_updated :: "desired_action list"
  pa_disabled :: "grant list"
  pa_assignment :: assignment
  pa_snapshot :: "assignment_row option"

record applied_response =
  ar_code :: string
  ar_request_id :: string
  ar_preview :: preview_response
  ar_created :: "grant list"
  ar_updated :: "grant list"
  ar_disabled :: "grant list"
  ar_assignment :: "assignment_row option"

record stored_preview =
  sp_id :: string
  sp_actor :: string
  sp_source_generation :: nat
  sp_input :: projection_input
  sp_response :: preview_response
  sp_actions :: projection_actions
  sp_effective_at :: int
  sp_expires_at :: int
  sp_claim_token :: "string option"
  sp_claimed_at :: "int option"
  sp_consumed_at :: "int option"
  sp_applied :: "applied_response option"
  sp_created_at :: int

record plan_db =
  pd_core :: db
  pd_plans :: "catalog_plan list"
  pd_features :: "catalog_feature list"
  pd_plan_features :: "plan_feature list"
  pd_policies :: "policy list"
  pd_assignments :: "assignment_row list"
  pd_assignment_events :: "assignment_event list"
  pd_previews :: "stored_preview list"
  pd_idempotency :: "(string \<times> string) \<Rightarrow> applied_response option"

section \<open>The snapshot a preview is made of\<close>

definition preview_ttl :: int where
  "preview_ttl = 300"

definition cleanup_batch_size :: nat where
  "cleanup_batch_size = 25"

definition snapshot_version :: int where
  "snapshot_version = 3"

definition max_atomic_actions :: nat where
  "max_atomic_actions = 9"

definition apply_code :: string where
  "apply_code = ''license_plan_projection_applied''"

definition plan_matches :: "projection_input \<Rightarrow> catalog_plan \<Rightarrow> bool" where
  "plan_matches input p \<longleftrightarrow> cp_project p = pi_project input
     \<and> (case pi_plan_id input of Some i \<Rightarrow> cp_id p = i | None \<Rightarrow> Some (cp_key p) = pi_plan_key input)"

definition plan_statement :: "projection_input \<Rightarrow> plan_db \<Rightarrow> catalog_plan option" where
  "plan_statement input d = find (plan_matches input) (pd_plans d)"

text \<open>The join of the plan with its features, the catalog and the policies.\<close>

definition joins :: "projection_input \<Rightarrow> plan_feature \<Rightarrow> catalog_plan \<Rightarrow> catalog_feature \<Rightarrow> bool" where
  "joins input pf cp f \<longleftrightarrow> cp_project cp = pf_project pf \<and> cp_id cp = pf_plan_id pf
     \<and> cf_project f = pf_project pf \<and> cf_key f = pf_feature_key pf
     \<and> plan_matches input cp \<and> pf_status pf = ''active'' \<and> cf_status f = ''active''"

definition joined_row :: "plan_db \<Rightarrow> plan_feature \<Rightarrow> catalog_feature \<Rightarrow> catalog_row" where
  "joined_row d pf f =
     \<lparr>cr_feature_key = pf_feature_key pf, cr_feature_inclusion = pf_inclusion pf, cr_addon_key = pf_addon_key pf,
      cr_plan_policy_id = pf_policy_id pf, cr_max_active_devices = pf_max_active_devices pf,
      cr_feature_name = cf_name f,
      cr_policy = (case pf_policy_id pf of None \<Rightarrow> None | Some i \<Rightarrow> find (\<lambda>p. pol_id p = i) (pd_policies d))\<rparr>"

definition joined_rows :: "projection_input \<Rightarrow> plan_db \<Rightarrow> plan_feature \<Rightarrow> ((int \<times> string) \<times> catalog_row) list" where
  "joined_rows input d pf = concat (List.map (\<lambda>cp. concat (List.map (\<lambda>f.
     if joins input pf cp f then [((pf_display_order pf, pf_feature_key pf), joined_row d pf f)] else []) (pd_features d))) (pd_plans d))"

definition plan_feature_rows :: "projection_input \<Rightarrow> plan_db \<Rightarrow> catalog_row list" where
  "plan_feature_rows input d = List.map snd (sort_key fst (concat (List.map (joined_rows input d) (pd_plan_features d))))"

definition managed_entitlements :: "projection_input \<Rightarrow> plan_db \<Rightarrow> grant list" where
  "managed_entitlements input d =
     sort_key g_feature (filter (\<lambda>g. g_project g = pi_project input \<and> g_license_id g = Some (pi_license_id input)
       \<and> g_fingerprint g = pi_fingerprint input
       \<and> (\<exists>f\<in>set (pd_features d). cf_project f = g_project g \<and> cf_key f = g_feature g)) (db_grants (pd_core d)))"

definition fingerprint_conflict :: "plan_db \<Rightarrow> string \<Rightarrow> string \<Rightarrow> string \<Rightarrow> bool" where
  "fingerprint_conflict d project license_id fingerprint \<longleftrightarrow>
     (\<exists>g\<in>set (db_grants (pd_core d)). g_project g = project \<and> g_license_id g = Some license_id \<and> g_fingerprint g \<noteq> fingerprint)"

definition assignment_snapshot :: "string \<Rightarrow> string \<Rightarrow> plan_db \<Rightarrow> assignment_row option" where
  "assignment_snapshot license_id project d =
     find (\<lambda>a. as_license_id a = license_id \<and> as_project a = project) (pd_assignments d)"

definition named_error :: "string \<Rightarrow> string \<Rightarrow> string" where
  "named_error code name = code @ '':'' @ name"

definition select_plan_row ::
  "catalog_plan \<Rightarrow> string list \<Rightarrow> string list \<times> catalog_row list \<Rightarrow> catalog_row \<Rightarrow> (string list \<times> catalog_row list) outcome" where
  "select_plan_row plan requested st row =
     (case st of (available, selected) \<Rightarrow>
        (case (cr_plan_policy_id row, cr_policy row) of
           (Some i, None) \<Rightarrow> Inl (named_error ''policy_not_found'' i)
         | (_, p) \<Rightarrow>
             if (case p of Some p \<Rightarrow> pol_project p \<noteq> cp_project plan | None \<Rightarrow> False)
             then Inl (named_error ''policy_project_mismatch'' (pol_id (the p)))
             else if (case p of Some p \<Rightarrow> pol_status p \<noteq> ''active'' | None \<Rightarrow> False)
             then Inl (named_error ''policy_disabled'' (pol_id (the p)))
             else if cr_feature_inclusion row = ''addon''
             then (let key = or_else (cr_addon_key row) (cr_feature_key row); available' = key # available in
                   if key \<notin> set requested \<and> cr_feature_key row \<notin> set requested then Inr (available', selected)
                   else Inr (available', selected @ [row]))
             else Inr (available, selected @ [row])))"

definition selected_plan_rows :: "catalog_row list \<Rightarrow> catalog_plan \<Rightarrow> string list \<Rightarrow> catalog_row list outcome" where
  "selected_plan_rows rows plan addons =
     rbind (rfold (select_plan_row plan addons) ([], []) rows) (\<lambda>(available, selected).
       case find (\<lambda>a. a \<notin> set available
           \<and> \<not> (\<exists>row\<in>set selected. cr_feature_key row = a \<and> cr_feature_inclusion row = ''addon'')) addons of
         Some a \<Rightarrow> Inl (named_error ''unknown_addon'' a)
       | None \<Rightarrow> Inr selected)"

record snapshot =
  ss_input :: projection_input
  ss_plan :: catalog_plan
  ss_desired :: "desired_row list"
  ss_rows :: "grant list"
  ss_assignment :: "assignment_row option"
  ss_generation :: nat

definition build_projection_snapshot :: "jsval \<Rightarrow> int \<Rightarrow> plan_db \<Rightarrow> snapshot outcome" where
  "build_projection_snapshot v now d =
     rbind (normalize_plan_projection_input v) (\<lambda>input.
       case plan_statement input d of
         None \<Rightarrow> Inl ''plan_not_found''
       | Some plan \<Rightarrow>
           if cp_status plan \<noteq> ''active'' then Inl ''plan_disabled''
           else rbind (selected_plan_rows (plan_feature_rows input d) plan (pi_addons input)) (\<lambda>rows.
             let a = assignment_snapshot (pi_license_id input) (pi_project input) d in
             if fingerprint_conflict d (pi_project input) (pi_license_id input) (pi_fingerprint input)
               \<or> (case a of Some r \<Rightarrow> as_fingerprint r \<noteq> pi_fingerprint input | None \<Rightarrow> False)
             then Inl ''license_fingerprint_conflict''
             else Inr \<lparr>ss_input = input, ss_plan = plan,
               ss_desired = List.map (\<lambda>r. desired_plan_projection_row r input now) rows,
               ss_rows = managed_entitlements input d, ss_assignment = a,
               ss_generation = db_generation (pd_core d)\<rparr>))"

section \<open>Actions and the preview\<close>

definition derive_created :: "desired_row list \<Rightarrow> grant list \<Rightarrow> desired_action list" where
  "derive_created ds rows = List.map (\<lambda>d. \<lparr>da_desired = d, da_previous = None\<rparr>)
     (filter (\<lambda>d. row_of g_feature rows (si_feature (dr_input d)) = None) ds)"

definition derive_updated :: "desired_row list \<Rightarrow> grant list \<Rightarrow> desired_action list" where
  "derive_updated ds rows = concat (List.map (\<lambda>d. case row_of g_feature rows (si_feature (dr_input d)) of
       None \<Rightarrow> []
     | Some g \<Rightarrow> if g_status g \<noteq> ''revoked'' \<and> \<not> plan_projection_matches_desired g d
         then [\<lparr>da_desired = d, da_previous = Some g\<rparr>] else []) ds)"

definition derive_disabled :: "desired_row list \<Rightarrow> grant list \<Rightarrow> grant list" where
  "derive_disabled ds rows = filter (\<lambda>g. \<not> (g_feature g \<in> desired_features ds \<or> g_status g = ''revoked'' \<or> g_status g = ''disabled'')) rows"

definition assignment_of :: "snapshot \<Rightarrow> assignment" where
  "assignment_of s = \<lparr>am_project = pi_project (ss_input s), am_license_id = pi_license_id (ss_input s),
     am_fingerprint = pi_fingerprint (ss_input s), am_customer_id = pi_customer_id (ss_input s),
     am_plan_id = cp_id (ss_plan s), am_plan_key = cp_key (ss_plan s),
     am_support_until = pi_support_until (ss_input s), am_addons = pi_addons (ss_input s)\<rparr>"

definition derive_actions :: "snapshot \<Rightarrow> projection_actions" where
  "derive_actions s = \<lparr>pa_version = snapshot_version,
     pa_created = derive_created (ss_desired s) (ss_rows s), pa_updated = derive_updated (ss_desired s) (ss_rows s),
     pa_disabled = derive_disabled (ss_desired s) (ss_rows s),
     pa_assignment = assignment_of s, pa_snapshot = ss_assignment s\<rparr>"

definition action_count :: "projection_actions \<Rightarrow> nat" where
  "action_count a = length (pa_created a) + length (pa_updated a) + length (pa_disabled a)"

definition preview_of :: "snapshot \<Rightarrow> string \<Rightarrow> int \<Rightarrow> int \<Rightarrow> preview_response" where
  "preview_of s preview_id effective_at expires_at = \<lparr>pr_id = preview_id, pr_plan = ss_plan s, pr_assignment = assignment_of s,
     pr_desired = List.map summarize_desired (ss_desired s),
     pr_projection = classify_plan_projection (ss_input s) (ss_desired s) (ss_rows s),
     pr_effective_at = effective_at, pr_expires_at = expires_at, pr_source_generation = ss_generation s\<rparr>"

definition cleanup_expired_previews :: "int \<Rightarrow> plan_db \<Rightarrow> plan_db" where
  "cleanup_expired_previews now d =
     (let gone = take cleanup_batch_size (sort_key (\<lambda>p. (sp_expires_at p, sp_id p))
        (filter (\<lambda>p. sp_expires_at p \<le> now) (pd_previews d)))
      in d\<lparr>pd_previews := filter (\<lambda>p. sp_id p \<notin> sp_id ` set gone) (pd_previews d)\<rparr>)"

definition insert_preview :: "string \<Rightarrow> snapshot \<Rightarrow> preview_response \<Rightarrow> projection_actions \<Rightarrow> plan_db \<Rightarrow> bool \<times> plan_db" where
  "insert_preview actor s response actions d =
     (if db_generation (pd_core d) = ss_generation s
      then (True, d\<lparr>pd_previews := pd_previews d @ [\<lparr>sp_id = pr_id response, sp_actor = actor,
        sp_source_generation = ss_generation s, sp_input = ss_input s, sp_response = response, sp_actions = actions,
        sp_effective_at = pr_effective_at response, sp_expires_at = pr_expires_at response, sp_claim_token = None,
        sp_claimed_at = None, sp_consumed_at = None, sp_applied = None, sp_created_at = pr_effective_at response\<rparr>]\<rparr>)
      else (False, d))"

text \<open>One attempt: \<open>d\<close> is the database the snapshot was read from, \<open>d'\<close> the one the insert finds.\<close>

definition preview_attempt ::
  "jsval \<Rightarrow> string \<Rightarrow> string \<Rightarrow> int \<Rightarrow> plan_db \<Rightarrow> plan_db \<Rightarrow> preview_response option outcome \<times> plan_db" where
  "preview_attempt v actor preview_id now d d' =
     (case build_projection_snapshot v now d of
        Inl e \<Rightarrow> (Inl e, d')
      | Inr s \<Rightarrow>
          let response = preview_of s preview_id now (now + preview_ttl); actions = derive_actions s in
          if max_atomic_actions < action_count actions then (Inl ''projection_too_large'', d')
          else (case insert_preview actor s response actions (cleanup_expired_previews now d') of
              (True, d'') \<Rightarrow> (Inr (Some response), d'')
            | (False, d'') \<Rightarrow> (Inr None, d'')))"

text \<open>The attempts, each with its fresh id and what others commit before its read and before its insert.\<close>

fun preview_attempts ::
  "jsval \<Rightarrow> string \<Rightarrow> int \<Rightarrow> (string \<times> (plan_db \<Rightarrow> plan_db) \<times> (plan_db \<Rightarrow> plan_db)) list \<Rightarrow> plan_db
     \<Rightarrow> preview_response outcome \<times> plan_db" where
  "preview_attempts v actor now [] d = (Inl ''projection_snapshot_stale'', d)"
| "preview_attempts v actor now ((preview_id, before, between) # turns) d =
     (case preview_attempt v actor preview_id now (before d) (between (before d)) of
        (Inl e, d') \<Rightarrow> (Inl e, d')
      | (Inr (Some response), d') \<Rightarrow> (Inr response, d')
      | (Inr None, d') \<Rightarrow> preview_attempts v actor now turns d')"

definition preview_plan_projection ::
  "jsval \<Rightarrow> string \<Rightarrow> int \<Rightarrow> (string \<times> (plan_db \<Rightarrow> plan_db) \<times> (plan_db \<Rightarrow> plan_db)) list \<Rightarrow> plan_db
     \<Rightarrow> preview_response outcome \<times> plan_db" where
  "preview_plan_projection v actor now turns d =
     (if actor = [] then (Inl ''invalid_actor'', d) else preview_attempts v actor now (take 3 turns) d)"

end
