(* ===== verification/Plan_Apply.thy ===== *)
theory Plan_Apply
  imports Plan_Preview
begin

text \<open>
  The apply half of \<open>d1/plan_projection.mjs\<close>: the statements of the batch that claims a preview and
  performs its actions. The batch is static, built from the stored preview; every statement after
  the claim is guarded by it. An assertion that fails is a \<open>json()\<close> call on text that is no JSON,
  which is SQLite's way to fail the batch.
\<close>

section \<open>The statements\<close>

datatype plan_row =
    CoreRow sql_row
  | ClaimRow string
  | ErrorRow string
  | ResponseJson "applied_response option"

type_synonym plan_command = "plan_db \<Rightarrow> (plan_row list \<times> plan_db) outcome"

definition malformed_json :: string where
  "malformed_json = ''malformed JSON''"

text \<open>A statement over the licensing tables; no statement here reads \<open>changes()\<close>.\<close>

definition on_core :: "statement \<Rightarrow> plan_command" where
  "on_core s d = rbind (s (pd_core d)) (\<lambda>(rows, c).
     Inr (List.map CoreRow rows, d\<lparr>pd_core := c\<lparr>db_changes := db_changes (pd_core d)\<rparr>\<rparr>))"

definition assert_statement :: "bool \<Rightarrow> plan_command" where
  "assert_statement b d = (if b then Inr ([], d) else Inl malformed_json)"

definition claimed_by :: "string \<Rightarrow> string \<Rightarrow> stored_preview \<Rightarrow> bool" where
  "claimed_by pid token p \<longleftrightarrow> sp_id p = pid \<and> sp_claim_token p = Some token \<and> sp_consumed_at p = None"

definition claim_guard :: "string \<Rightarrow> string \<Rightarrow> plan_db \<Rightarrow> bool" where
  "claim_guard pid token d \<longleftrightarrow> list_ex (claimed_by pid token) (pd_previews d)"

definition update_previews :: "(stored_preview \<Rightarrow> bool) \<Rightarrow> (stored_preview \<Rightarrow> stored_preview) \<Rightarrow> plan_command" where
  "update_previews cond f d =
     Inr (List.map (\<lambda>p. ClaimRow (sp_id p)) (filter cond (pd_previews d)),
       d\<lparr>pd_previews := List.map (\<lambda>p. if cond p then f p else p) (pd_previews d)\<rparr>)"

definition assignment_conflict :: "plan_db \<Rightarrow> stored_preview \<Rightarrow> bool" where
  "assignment_conflict d p = (let a = pa_assignment (sp_actions p) in
     list_ex (\<lambda>r. as_license_id r = am_license_id a \<and> as_project r = am_project a \<and> as_fingerprint r \<noteq> am_fingerprint a)
       (pd_assignments d))"

definition entitlement_conflict :: "plan_db \<Rightarrow> stored_preview \<Rightarrow> bool" where
  "entitlement_conflict d p = (let a = pa_assignment (sp_actions p) in
     list_ex (\<lambda>g. g_project g = am_project a \<and> g_license_id g = Some (am_license_id a) \<and> g_fingerprint g \<noteq> am_fingerprint a)
       (db_grants (pd_core d)))"

definition license_conflict :: "plan_db \<Rightarrow> stored_preview \<Rightarrow> bool" where
  "license_conflict d p \<longleftrightarrow> assignment_conflict d p \<or> entitlement_conflict d p"

definition assignment_still_matches :: "plan_db \<Rightarrow> stored_preview \<Rightarrow> bool" where
  "assignment_still_matches d p = (case pa_snapshot (sp_actions p) of
     None \<Rightarrow> \<not> list_ex (\<lambda>r. as_license_id r = am_license_id (pa_assignment (sp_actions p))
         \<and> as_project r = am_project (pa_assignment (sp_actions p))) (pd_assignments d)
   | Some s \<Rightarrow> list_ex (\<lambda>r. r = s) (pd_assignments d))"

definition derived_grant_expired :: "int \<Rightarrow> stored_preview \<Rightarrow> bool" where
  "derived_grant_expired now p \<longleftrightarrow>
     list_ex (\<lambda>i. case it_valid_until i of None \<Rightarrow> False | Some u \<Rightarrow> u \<le> now) (pr_desired (sp_response p))"

definition claimable :: "string \<Rightarrow> string \<Rightarrow> int \<Rightarrow> plan_db \<Rightarrow> stored_preview \<Rightarrow> bool" where
  "claimable pid actor now d p \<longleftrightarrow> sp_id p = pid \<and> sp_actor p = actor \<and> sp_claim_token p = None \<and> sp_consumed_at p = None
     \<and> now < sp_expires_at p \<and> sp_source_generation p = db_generation (pd_core d)
     \<and> \<not> license_conflict d p \<and> assignment_still_matches d p \<and> \<not> derived_grant_expired now p"

definition claim_statement :: "string \<Rightarrow> string \<Rightarrow> string \<Rightarrow> int \<Rightarrow> plan_command" where
  "claim_statement pid actor token now d =
     update_previews (claimable pid actor now d) (\<lambda>p. p\<lparr>sp_claim_token := Some token, sp_claimed_at := Some now\<rparr>) d"

definition claim_failure :: "string \<Rightarrow> string \<Rightarrow> int \<Rightarrow> plan_db \<Rightarrow> string" where
  "claim_failure pid actor now d =
     (if list_ex (\<lambda>p. sp_id p = pid \<and> sp_actor p = actor \<and> license_conflict d p) (pd_previews d)
      then ''license_fingerprint_conflict''
      else if list_ex (\<lambda>p. sp_id p = pid \<and> sp_actor p = actor \<and> derived_grant_expired now p) (pd_previews d)
      then ''projection_preview_grant_expired'' else ''stale_projection_preview'')"

definition claim_failure_statement :: "string \<Rightarrow> string \<Rightarrow> int \<Rightarrow> plan_command" where
  "claim_failure_statement pid actor now d = Inr ([ErrorRow (claim_failure pid actor now d)], d)"

subsection \<open>Grants\<close>

record desired_values =
  dv_key :: grant_key
  dv_status :: string
  dv_valid_from :: "int option"
  dv_valid_until :: "int option"
  dv_notes :: string
  dv_customer_id :: string
  dv_license_id :: "string option"
  dv_policy_id :: "string option"
  dv_max_active_devices :: int
  dv_trial :: trial_state

definition values_for_desired :: "desired_action \<Rightarrow> desired_values outcome" where
  "values_for_desired a = (let d = da_desired a; i = dr_input d in
     case si_customer_id i of
       None \<Rightarrow> Inl ''invalid_patch''
     | Some owner \<Rightarrow>
         if owner = [] then Inl ''invalid_patch''
         else Inr \<lparr>dv_key = (si_project i, si_feature i, si_fingerprint i), dv_status = si_status i,
           dv_valid_from = si_valid_from i, dv_valid_until = si_valid_until i, dv_notes = si_notes i,
           dv_customer_id = owner, dv_license_id = si_license_id i, dv_policy_id = dr_policy_id d,
           dv_max_active_devices = dr_max_active_devices d, dv_trial = dr_trial d\<rparr>)"

definition desired_satisfied :: "desired_values \<Rightarrow> grant \<Rightarrow> bool" where
  "desired_satisfied v g \<longleftrightarrow>
     g_status g = dv_status v \<and> g_valid_from g = dv_valid_from v \<and> g_valid_until g = dv_valid_until v
     \<and> g_notes g = dv_notes v \<and> g_customer_id g = dv_customer_id v \<and> g_license_id g = dv_license_id v
     \<and> g_policy_id g = dv_policy_id v \<and> g_max_active_devices g = dv_max_active_devices v
     \<and> g_is_trial g = ts_is_trial (dv_trial v) \<and> g_trial_expiration_basis g = ts_expiration_basis (dv_trial v)
     \<and> g_trial_duration_sec g = ts_duration_sec (dv_trial v) \<and> g_trial_one_per_device g = ts_one_per_device (dv_trial v)"

definition projected_grant :: "desired_values \<Rightarrow> int \<Rightarrow> int \<Rightarrow> grant" where
  "projected_grant v seq now =
     \<lparr>g_project = fst (dv_key v), g_feature = fst (snd (dv_key v)), g_fingerprint = snd (snd (dv_key v)),
      g_status = dv_status v, g_revocation_seq = seq, g_valid_from = dv_valid_from v, g_valid_until = dv_valid_until v,
      g_notes = dv_notes v, g_customer_id = dv_customer_id v, g_license_id = dv_license_id v, g_policy_id = dv_policy_id v,
      g_is_trial = ts_is_trial (dv_trial v), g_trial_expiration_basis = ts_expiration_basis (dv_trial v),
      g_trial_duration_sec = ts_duration_sec (dv_trial v), g_trial_one_per_device = ts_one_per_device (dv_trial v),
      g_trial_started_at = None, g_trial_device_key_id = None, g_max_active_devices = dv_max_active_devices v,
      g_lease_seconds = 86400, g_created_at = now, g_updated_at = now\<rparr>"

definition grant_key_taken :: string where
  "grant_key_taken = ''UNIQUE constraint failed: entitlements.project, entitlements.feature, entitlements.license_fingerprint''"

definition create_entitlement_statement :: "string \<Rightarrow> string \<Rightarrow> desired_values \<Rightarrow> int \<Rightarrow> plan_command" where
  "create_entitlement_statement pid token v now d =
     (if \<not> claim_guard pid token d then Inr ([], d)
      else if find_grant (pd_core d) (dv_key v) \<noteq> None then Inl grant_key_taken
      else on_core (insert_grant (projected_grant v (first_revocation_seq (pd_core d) (dv_key v)) now)) d)"

definition update_entitlement_statement :: "string \<Rightarrow> string \<Rightarrow> desired_values \<Rightarrow> int \<Rightarrow> plan_command" where
  "update_entitlement_statement pid token v now d =
     on_core (update_grant \<lparr>sets_owner = True, sets_capacity = True\<rparr> (dv_key v) (\<lambda>_ _. claim_guard pid token d)
       (\<lambda>c g. g\<lparr>g_status := dv_status v, g_revocation_seq := revocation_seq_bump c g, g_valid_from := dv_valid_from v,
          g_valid_until := dv_valid_until v, g_notes := dv_notes v, g_customer_id := dv_customer_id v,
          g_license_id := dv_license_id v, g_policy_id := dv_policy_id v, g_max_active_devices := dv_max_active_devices v,
          g_is_trial := ts_is_trial (dv_trial v), g_trial_expiration_basis := ts_expiration_basis (dv_trial v),
          g_trial_duration_sec := ts_duration_sec (dv_trial v), g_trial_one_per_device := ts_one_per_device (dv_trial v),
          g_updated_at := now\<rparr>)) d"

definition disable_entitlement_statement :: "string \<Rightarrow> string \<Rightarrow> grant \<Rightarrow> int \<Rightarrow> plan_command" where
  "disable_entitlement_statement pid token previous now d =
     on_core (update_grant \<lparr>sets_owner = False, sets_capacity = False\<rparr> (key_of previous) (\<lambda>_ _. claim_guard pid token d)
       (\<lambda>c g. g\<lparr>g_status := ''disabled'', g_revocation_seq := revocation_seq_bump c g, g_updated_at := now\<rparr>)) d"

definition projection_event :: "mutation_context \<Rightarrow> string \<Rightarrow> string \<Rightarrow> grant option \<Rightarrow> grant \<Rightarrow> int \<Rightarrow> event" where
  "projection_event ctx event_type reason previous g now =
     \<lparr>ev_key = key_of g, ev_type = event_type, ev_status = g_status g, ev_revocation_seq = g_revocation_seq g,
      ev_detail = reason, ev_actor = actor_label (mc_actor ctx), ev_actor_type = ac_type (mc_actor ctx),
      ev_source = event_source ctx, ev_request_id = mc_request_id ctx, ev_ip = mc_ip ctx, ev_prev = previous, ev_next = g,
      ev_reason = reason, ev_idempotency_key = mc_idempotency_key ctx, ev_created_at = now\<rparr>"

definition entitlement_audit_statement ::
  "string \<Rightarrow> string \<Rightarrow> mutation_context \<Rightarrow> string \<Rightarrow> string \<Rightarrow> grant option \<Rightarrow> grant_key \<Rightarrow> (grant \<Rightarrow> bool) \<Rightarrow> int \<Rightarrow> plan_command" where
  "entitlement_audit_statement pid token ctx event_type reason previous k expected now d =
     (case find_grant (pd_core d) k of
        None \<Rightarrow> Inr ([], d)
      | Some g \<Rightarrow>
          if claim_guard pid token d \<and> expected g
          then Inr ([], d\<lparr>pd_core := (pd_core d)\<lparr>db_events := db_events (pd_core d)
                 @ [projection_event ctx event_type reason previous g now]\<rparr>\<rparr>)
          else Inr ([], d))"

definition action_assertion_statement :: "string \<Rightarrow> string \<Rightarrow> grant_key \<Rightarrow> (grant \<Rightarrow> bool) \<Rightarrow> plan_command" where
  "action_assertion_statement pid token k expected d =
     assert_statement (\<not> claim_guard pid token d
       \<or> (case find_grant (pd_core d) k of None \<Rightarrow> False | Some g \<Rightarrow> expected g)) d"

definition desired_action_statements ::
  "string \<Rightarrow> string \<Rightarrow> mutation_context \<Rightarrow> int \<Rightarrow> string \<Rightarrow> desired_action \<Rightarrow> plan_command list outcome" where
  "desired_action_statements pid token ctx now kind a =
     rbind (values_for_desired a) (\<lambda>v. Inr
       [if kind = ''create'' then create_entitlement_statement pid token v now else update_entitlement_statement pid token v now,
        entitlement_audit_statement pid token ctx kind ''plan_projection'' (da_previous a) (dv_key v) (desired_satisfied v) now,
        action_assertion_statement pid token (dv_key v) (desired_satisfied v)])"

definition disable_action_statements ::
  "string \<Rightarrow> string \<Rightarrow> mutation_context \<Rightarrow> int \<Rightarrow> grant \<Rightarrow> plan_command list" where
  "disable_action_statements pid token ctx now previous =
     [disable_entitlement_statement pid token previous now,
      entitlement_audit_statement pid token ctx ''disable'' ''plan_projection_removed'' (Some previous) (key_of previous)
        (\<lambda>g. g_status g = ''disabled'') now,
      action_assertion_statement pid token (key_of previous) (\<lambda>g. g_status g = ''disabled'')]"

subsection \<open>The assignment\<close>

definition assignment_key_of :: "assignment \<Rightarrow> assignment_row \<Rightarrow> bool" where
  "assignment_key_of a r \<longleftrightarrow> as_license_id r = am_license_id a \<and> as_project r = am_project a"

definition assignment_satisfied :: "assignment \<Rightarrow> assignment_row \<Rightarrow> bool" where
  "assignment_satisfied a r \<longleftrightarrow> as_plan_id r = am_plan_id a \<and> as_fingerprint r = am_fingerprint a
     \<and> as_customer_id r = am_customer_id a \<and> as_status r = ''active'' \<and> as_support_until r = am_support_until a
     \<and> as_addons r = am_addons a"

text \<open>\<open>INSERT \<dots> ON CONFLICT DO UPDATE\<close>, with the foreign key on the plan; both ways move the
  generation on.\<close>

definition assignment_statement :: "string \<Rightarrow> string \<Rightarrow> assignment \<Rightarrow> int \<Rightarrow> plan_command" where
  "assignment_statement pid token a now d =
     (if \<not> claim_guard pid token d then Inr ([], d)
      else if \<not> list_ex (\<lambda>p. cp_project p = am_project a \<and> cp_id p = am_plan_id a) (pd_plans d)
      then Inl ''FOREIGN KEY constraint failed''
      else let core = pd_core d in Inr ([], d\<lparr>
        pd_assignments :=
          (if list_ex (assignment_key_of a) (pd_assignments d)
           then List.map (\<lambda>r. if assignment_key_of a r
              then r\<lparr>as_plan_id := am_plan_id a, as_fingerprint := am_fingerprint a, as_customer_id := am_customer_id a,
                as_status := ''active'', as_support_until := am_support_until a, as_addons := am_addons a, as_updated_at := now\<rparr>
              else r) (pd_assignments d)
           else pd_assignments d @ [\<lparr>as_license_id = am_license_id a, as_project = am_project a, as_plan_id = am_plan_id a,
             as_fingerprint = am_fingerprint a, as_customer_id = am_customer_id a, as_status = ''active'',
             as_support_until = am_support_until a, as_addons = am_addons a, as_created_at = now, as_updated_at = now\<rparr>]),
        pd_core := core\<lparr>db_generation := db_generation core + 1\<rparr>\<rparr>))"

definition assignment_row_of :: "assignment \<Rightarrow> plan_db \<Rightarrow> assignment_row option" where
  "assignment_row_of a d = find (assignment_key_of a) (pd_assignments d)"

definition assignment_assertion_statement :: "string \<Rightarrow> string \<Rightarrow> assignment \<Rightarrow> plan_command" where
  "assignment_assertion_statement pid token a d =
     assert_statement (\<not> claim_guard pid token d
       \<or> list_ex (\<lambda>r. assignment_key_of a r \<and> assignment_satisfied a r) (pd_assignments d)) d"

definition assignment_event_type :: "assignment_row option \<Rightarrow> string" where
  "assignment_event_type previous = (if previous = None then ''create'' else ''update'')"

definition assignment_event_of ::
  "assignment_row option \<Rightarrow> mutation_context \<Rightarrow> int \<Rightarrow> assignment_row \<Rightarrow> assignment_event" where
  "assignment_event_of previous ctx now r =
     \<lparr>ae_license_id = as_license_id r, ae_project = as_project r, ae_plan_id = as_plan_id r, ae_fingerprint = as_fingerprint r,
      ae_type = assignment_event_type previous, ae_actor = actor_label (mc_actor ctx), ae_actor_type = ac_type (mc_actor ctx),
      ae_source = event_source ctx, ae_request_id = mc_request_id ctx, ae_prev = previous, ae_next = r,
      ae_reason = ''plan_projection'', ae_idempotency_key = mc_idempotency_key ctx, ae_created_at = now\<rparr>"

definition assignment_audit_statement ::
  "string \<Rightarrow> string \<Rightarrow> assignment \<Rightarrow> assignment_row option \<Rightarrow> mutation_context \<Rightarrow> int \<Rightarrow> plan_command" where
  "assignment_audit_statement pid token a previous ctx now d =
     Inr ([], d\<lparr>pd_assignment_events := pd_assignment_events d
       @ List.map (assignment_event_of previous ctx now)
           (filter (\<lambda>r. assignment_key_of a r \<and> claim_guard pid token d \<and> assignment_satisfied a r) (pd_assignments d))\<rparr>)"

definition assignment_audit_assertion_statement ::
  "string \<Rightarrow> string \<Rightarrow> assignment \<Rightarrow> assignment_row option \<Rightarrow> mutation_context \<Rightarrow> int \<Rightarrow> plan_command" where
  "assignment_audit_assertion_statement pid token a previous ctx now d =
     assert_statement (\<not> claim_guard pid token d
       \<or> (case find (\<lambda>r. assignment_key_of a r \<and> assignment_satisfied a r) (pd_assignments d) of
            None \<Rightarrow> False
          | Some r \<Rightarrow> list_ex (\<lambda>e. ae_license_id e = am_license_id a \<and> ae_project e = am_project a
              \<and> ae_plan_id e = am_plan_id a \<and> ae_fingerprint e = am_fingerprint a
              \<and> ae_type e = assignment_event_type previous \<and> ae_actor e = actor_label (mc_actor ctx)
              \<and> ae_actor_type e = ac_type (mc_actor ctx) \<and> ae_source e = event_source ctx
              \<and> ae_request_id e = mc_request_id ctx \<and> ae_prev e = previous \<and> ae_reason e = ''plan_projection''
              \<and> ae_idempotency_key e = mc_idempotency_key ctx \<and> ae_created_at e = now \<and> ae_next e = r)
              (pd_assignment_events d))) d"

subsection \<open>Response, replay record and consumption\<close>

definition applied_rows :: "plan_db \<Rightarrow> grant_key list \<Rightarrow> grant list" where
  "applied_rows d ks = concat (List.map (\<lambda>k. case find_grant (pd_core d) k of None \<Rightarrow> [] | Some g \<Rightarrow> [g]) ks)"

definition desired_key :: "desired_action \<Rightarrow> grant_key" where
  "desired_key a = (let i = dr_input (da_desired a) in (si_project i, si_feature i, si_fingerprint i))"

definition applied_response_of :: "plan_db \<Rightarrow> string \<Rightarrow> stored_preview \<Rightarrow> applied_response" where
  "applied_response_of d request_id p =
     \<lparr>ar_code = apply_code, ar_request_id = request_id, ar_preview = sp_response p,
      ar_created = applied_rows d (List.map desired_key (pa_created (sp_actions p))),
      ar_updated = applied_rows d (List.map desired_key (pa_updated (sp_actions p))),
      ar_disabled = applied_rows d (List.map key_of (pa_disabled (sp_actions p))),
      ar_assignment = assignment_row_of (pa_assignment (sp_actions p)) d\<rparr>"

definition response_statement :: "string \<Rightarrow> string \<Rightarrow> string \<Rightarrow> plan_command" where
  "response_statement pid token request_id d =
     update_previews (claimed_by pid token) (\<lambda>p. p\<lparr>sp_applied := Some (applied_response_of d request_id p)\<rparr>) d"

definition key_taken :: "plan_db \<Rightarrow> string \<times> string \<Rightarrow> bool" where
  "key_taken d k \<longleftrightarrow> pd_idempotency d k \<noteq> None \<or> db_idempotency (pd_core d) k \<noteq> None"

definition idempotency_statement :: "string \<Rightarrow> string \<Rightarrow> string \<times> string \<Rightarrow> plan_command" where
  "idempotency_statement pid token k d =
     (case find (\<lambda>p. claimed_by pid token p \<and> sp_applied p \<noteq> None) (pd_previews d) of
        None \<Rightarrow> Inr ([], d)
      | Some p \<Rightarrow> if key_taken d k then Inr ([], d)
          else Inr ([], d\<lparr>pd_idempotency := (pd_idempotency d)(k := sp_applied p)\<rparr>))"

definition idempotency_assertion_statement :: "string \<Rightarrow> string \<Rightarrow> string \<times> string \<Rightarrow> plan_command" where
  "idempotency_assertion_statement pid token k d =
     assert_statement (\<not> claim_guard pid token d
       \<or> list_ex (\<lambda>p. claimed_by pid token p \<and> pd_idempotency d k \<noteq> None \<and> pd_idempotency d k = sp_applied p) (pd_previews d)) d"

definition consume_statement :: "string \<Rightarrow> string \<Rightarrow> int \<Rightarrow> plan_command" where
  "consume_statement pid token now d =
     update_previews (\<lambda>p. claimed_by pid token p \<and> sp_applied p \<noteq> None) (\<lambda>p. p\<lparr>sp_consumed_at := Some now\<rparr>) d"

definition final_response_statement :: "string \<Rightarrow> string \<Rightarrow> int \<Rightarrow> plan_command" where
  "final_response_statement pid token now d =
     (case find (\<lambda>p. sp_id p = pid \<and> sp_claim_token p = Some token \<and> sp_consumed_at p = Some now \<and> sp_applied p \<noteq> None)
         (pd_previews d) of
        Some p \<Rightarrow> Inr ([ResponseJson (sp_applied p)], d)
      | None \<Rightarrow>
          if list_ex (\<lambda>p. sp_id p = pid \<and> sp_claim_token p = Some token) (pd_previews d) then Inl malformed_json
          else Inr ([ResponseJson None], d))"

section \<open>Apply\<close>

fun gather :: "('a \<Rightarrow> 'b list outcome) \<Rightarrow> 'a list \<Rightarrow> 'b list outcome" where
  "gather f [] = Inr []"
| "gather f (x # xs) = rbind (f x) (\<lambda>ys. rbind (gather f xs) (\<lambda>zs. Inr (ys @ zs)))"

text \<open>The preview is only decoded here; whether it may be applied is left to the claim.\<close>

definition stored_preview_of :: "string \<Rightarrow> plan_db \<Rightarrow> (preview_response \<times> projection_actions) outcome" where
  "stored_preview_of pid d = (case find (\<lambda>p. sp_id p = pid) (pd_previews d) of
     None \<Rightarrow> Inl ''stale_projection_preview''
   | Some p \<Rightarrow> if pa_version (sp_actions p) \<noteq> snapshot_version then Inl ''stale_projection_preview''
       else Inr (sp_response p, sp_actions p))"

definition replay_key :: "mutation_context \<Rightarrow> string option \<Rightarrow> (string \<times> string) option" where
  "replay_key ctx scope = (case (scope, mc_idempotency_key ctx) of (Some s, Some k) \<Rightarrow> Some (s, k) | _ \<Rightarrow> None)"

definition apply_statements ::
  "string \<Rightarrow> string \<Rightarrow> mutation_context \<Rightarrow> string option \<Rightarrow> int \<Rightarrow> projection_actions \<Rightarrow> plan_command list outcome" where
  "apply_statements pid token ctx scope now actions =
     rbind (gather (desired_action_statements pid token ctx now ''create'') (pa_created actions)) (\<lambda>created.
     rbind (gather (desired_action_statements pid token ctx now ''update'') (pa_updated actions)) (\<lambda>updated.
       let a = pa_assignment actions in Inr (
         [claim_statement pid (ac_subject (mc_actor ctx)) token now,
          claim_failure_statement pid (ac_subject (mc_actor ctx)) now]
         @ created @ updated @ concat (List.map (disable_action_statements pid token ctx now) (pa_disabled actions))
         @ [assignment_statement pid token a now, assignment_assertion_statement pid token a,
            assignment_audit_statement pid token a (pa_snapshot actions) ctx now,
            assignment_audit_assertion_statement pid token a (pa_snapshot actions) ctx now,
            response_statement pid token (mc_request_id ctx)]
         @ (case replay_key ctx scope of None \<Rightarrow> []
              | Some k \<Rightarrow> [idempotency_statement pid token k, idempotency_assertion_statement pid token k])
         @ [consume_statement pid token now, final_response_statement pid token now])))"

definition apply_result :: "plan_row list list \<Rightarrow> applied_response outcome" where
  "apply_result results =
     (case batch_returned_row (results ! 0) of
        None \<Rightarrow> (case batch_returned_row (results ! 1) of Some (ErrorRow e) \<Rightarrow> Inl e | _ \<Rightarrow> Inl ''stale_projection_preview'')
      | Some _ \<Rightarrow>
          (case batch_returned_row (last results) of
             Some (ResponseJson (Some r)) \<Rightarrow> if ar_code r \<noteq> apply_code then Inl ''projection_apply_failed'' else Inr r
           | _ \<Rightarrow> Inl ''projection_apply_failed''))"

text \<open>\<open>d\<close> is the database the preview is decoded from, \<open>d'\<close> the one the batch finds.\<close>

definition apply_plan_projection ::
  "string \<Rightarrow> string \<Rightarrow> mutation_context \<Rightarrow> string option \<Rightarrow> int \<Rightarrow> plan_db \<Rightarrow> plan_db \<Rightarrow> applied_response outcome \<times> plan_db" where
  "apply_plan_projection pid token ctx scope now d d' =
     (if \<not> is_plan_projection_preview_id (String pid) then (Inl ''invalid_preview_id'', d')
      else case stored_preview_of pid d of
        Inl e \<Rightarrow> (Inl e, d')
      | Inr (preview, actions) \<Rightarrow>
          let blocked = pj_blocked (pr_projection preview) in
          if blocked \<noteq> []
          then (Inl (if list_ex (\<lambda>i. it_reason i = Some ''owner_required'') blocked
            then ''invalid_patch'' else ''projection_blocked_revoked_entitlement''), d')
          else (case apply_statements pid token ctx scope now actions of
              Inl e \<Rightarrow> (Inl e, d')
            | Inr ss \<Rightarrow>
                (case run_batch ss d' of
                   (Inl e, d'') \<Rightarrow> (Inl e, d'')
                 | (Inr results, d'') \<Rightarrow> (apply_result results, d''))))"

end
