(* ===== verification/Plan_Safety.thy ===== *)
theory Plan_Safety
  imports Plan_Apply
begin

text \<open>
  What an apply does to the database: nothing, or everything the preview promised.
\<close>

section \<open>A batch whose claim misses does nothing\<close>

definition untouched :: "string \<Rightarrow> plan_db \<Rightarrow> bool" where
  "untouched token d \<longleftrightarrow> (\<forall>p\<in>set (pd_previews d). sp_claim_token p \<noteq> Some token)"

definition inert :: "string \<Rightarrow> plan_command \<Rightarrow> bool" where
  "inert token s \<longleftrightarrow> (\<forall>d. untouched token d \<longrightarrow> (\<exists>rows. s d = Inr (rows, d)))"

named_theorems inert_intros

lemma untouched_guard: "untouched token d \<Longrightarrow> \<not> claim_guard pid token d"
  by (auto simp: untouched_def claim_guard_def claimed_by_def list_ex_iff)

lemma untouched_claimed: "untouched token d \<Longrightarrow> p \<in> set (pd_previews d) \<Longrightarrow> \<not> claimed_by pid token p"
  by (auto simp: untouched_def claimed_by_def)

lemma plan_db_core [simp]: "d\<lparr>pd_core := pd_core d\<rparr> = d" "d\<lparr>pd_previews := pd_previews d\<rparr> = d"
    "d\<lparr>pd_assignment_events := pd_assignment_events d\<rparr> = d"
  by (cases d, simp)+

lemma update_previews_none:
  "\<forall>p\<in>set (pd_previews d). \<not> cond p \<Longrightarrow> update_previews cond f d = Inr ([], d)"
proof -
  assume n: "\<forall>p\<in>set (pd_previews d). \<not> cond p"
  then have "filter cond (pd_previews d) = []" and "List.map (\<lambda>p. if cond p then f p else p) (pd_previews d) = pd_previews d"
    by (auto simp: filter_empty_conv intro: map_idI)
  then show ?thesis by (simp add: update_previews_def)
qed

lemma update_missed: "update_grant cols k (\<lambda>_ _. False) f c = Inr ([], c\<lparr>db_changes := 0\<rparr>)"
  by (simp add: update_grant_def split: option.split)

lemma find_none: "\<forall>x\<in>set xs. \<not> P x \<Longrightarrow> find P xs = None"
  by (auto simp: find_None_iff)

lemma inert_statements [inert_intros]:
  "inert token (create_entitlement_statement pid token v now)"
  "inert token (update_entitlement_statement pid token v now)"
  "inert token (disable_entitlement_statement pid token g now)"
  "inert token (entitlement_audit_statement pid token ctx ty reason prev k expected now)"
  "inert token (action_assertion_statement pid token k expected)"
  "inert token (assignment_statement pid token a now)"
  "inert token (assignment_assertion_statement pid token a)"
  "inert token (assignment_audit_statement pid token a prev' ctx now)"
  "inert token (assignment_audit_assertion_statement pid token a prev' ctx now)"
  "inert token (idempotency_assertion_statement pid token ik)"
  "inert token (claim_failure_statement pid actor now)"
  by (auto simp: inert_def untouched_guard create_entitlement_statement_def update_entitlement_statement_def
      disable_entitlement_statement_def on_core_def update_missed entitlement_audit_statement_def
      action_assertion_statement_def assert_statement_def assignment_statement_def assignment_assertion_statement_def
      assignment_audit_statement_def assignment_audit_assertion_statement_def idempotency_assertion_statement_def
      claim_failure_statement_def split: option.split)

lemma inert_previews [inert_intros]:
  "inert token (response_statement pid token rid)" "inert token (consume_statement pid token now)"
  "inert token (idempotency_statement pid token ik)"
  unfolding inert_def response_statement_def consume_statement_def idempotency_statement_def
  by (auto simp: update_previews_none untouched_claimed find_none)

lemma final_untouched: "untouched token d \<Longrightarrow> final_response_statement pid token now d = Inr ([ResponseJson None], d)"
  by (auto simp: final_response_statement_def untouched_def list_ex_iff find_none)

lemma inert_final [inert_intros]: "inert token (final_response_statement pid token now)"
  unfolding inert_def by (auto simp: final_untouched)

lemma gather_all:
  assumes "gather f xs = Inr ys" and "\<And>x zs z. f x = Inr zs \<Longrightarrow> z \<in> set zs \<Longrightarrow> P z"
  shows "\<forall>z\<in>set ys. P z"
  using assms(1)
proof (induction xs arbitrary: ys)
  case Nil
  then show ?case by simp
next
  case (Cons x xs)
  then obtain zs ws where "f x = Inr zs" "gather f xs = Inr ws" "ys = zs @ ws" by (auto simp: rbind_Inr_iff)
  with Cons.IH [of ws] assms(2) show ?case by auto
qed

lemma run_inert:
  assumes "\<forall>s\<in>set ss. inert token s" and "untouched token d"
  shows "\<exists>rs. run_statements ss d = Inr (rs, d) \<and> length rs = length ss"
  using assms
proof (induction ss)
  case Nil
  then show ?case by simp
next
  case (Cons s ss)
  then obtain rows where "s d = Inr (rows, d)" by (auto simp: inert_def)
  with Cons show ?case by auto
qed

lemma desired_statements_inert:
  "desired_action_statements pid token ctx now kind a = Inr ss \<Longrightarrow> s \<in> set ss \<Longrightarrow> inert token s"
  by (auto simp: desired_action_statements_def rbind_Inr_iff inert_intros)

lemma disable_statements_inert: "s \<in> set (disable_action_statements pid token ctx now g) \<Longrightarrow> inert token s"
  by (auto simp: disable_action_statements_def inert_intros)

text \<open>The parts of a batch.\<close>

definition assignment_statements ::
  "string \<Rightarrow> string \<Rightarrow> mutation_context \<Rightarrow> int \<Rightarrow> projection_actions \<Rightarrow> plan_command list" where
  "assignment_statements pid token ctx now actions = (let a = pa_assignment actions in
     [assignment_statement pid token a now, assignment_assertion_statement pid token a,
      assignment_audit_statement pid token a (pa_snapshot actions) ctx now,
      assignment_audit_assertion_statement pid token a (pa_snapshot actions) ctx now])"

definition reply_statements :: "string \<Rightarrow> string \<Rightarrow> mutation_context \<Rightarrow> string option \<Rightarrow> int \<Rightarrow> plan_command list" where
  "reply_statements pid token ctx scope now =
     [response_statement pid token (mc_request_id ctx)]
     @ (case replay_key ctx scope of None \<Rightarrow> []
          | Some k \<Rightarrow> [idempotency_statement pid token k, idempotency_assertion_statement pid token k])
     @ [consume_statement pid token now]"

lemma apply_statements_parts:
  assumes "apply_statements pid token ctx scope now actions = Inr ss"
  obtains created updated where
    "gather (desired_action_statements pid token ctx now ''create'') (pa_created actions) = Inr created"
    "gather (desired_action_statements pid token ctx now ''update'') (pa_updated actions) = Inr updated"
    "ss = [claim_statement pid (ac_subject (mc_actor ctx)) token now,
        claim_failure_statement pid (ac_subject (mc_actor ctx)) now]
      @ (created @ updated @ concat (List.map (disable_action_statements pid token ctx now) (pa_disabled actions)))
      @ assignment_statements pid token ctx now actions @ reply_statements pid token ctx scope now
      @ [final_response_statement pid token now]"
  using assms that unfolding apply_statements_def
  by (auto simp: rbind_Inr_iff Let_def assignment_statements_def reply_statements_def)

lemma parts_inert:
  assumes "gather (desired_action_statements pid token ctx now ''create'') (pa_created actions) = Inr created"
    and "gather (desired_action_statements pid token ctx now ''update'') (pa_updated actions) = Inr updated"
  shows "\<forall>s\<in>set ((created @ updated @ concat (List.map (disable_action_statements pid token ctx now) (pa_disabled actions)))
      @ assignment_statements pid token ctx now actions @ reply_statements pid token ctx scope now). inert token s"
proof -
  have "\<forall>s\<in>set created. inert token s" "\<forall>s\<in>set updated. inert token s"
    using gather_all [OF assms(1), where P = "inert token"] gather_all [OF assms(2), where P = "inert token"]
      desired_statements_inert by blast+
  moreover have "\<forall>s\<in>set (assignment_statements pid token ctx now actions). inert token s"
    by (simp add: assignment_statements_def Let_def inert_intros)
  moreover have "\<forall>s\<in>set (reply_statements pid token ctx scope now). inert token s"
    by (cases "replay_key ctx scope") (auto simp: reply_statements_def inert_intros)
  ultimately show ?thesis using disable_statements_inert by auto
qed

lemma missed_batch:
  assumes ss: "apply_statements pid token ctx scope now actions = Inr ss" and fresh: "untouched token d"
    and miss: "\<forall>p\<in>set (pd_previews d). \<not> claimable pid (ac_subject (mc_actor ctx)) now d p"
  obtains rs where "run_batch ss d = (Inr rs, d)"
    "apply_result rs = Inl (claim_failure pid (ac_subject (mc_actor ctx)) now d)"
proof -
  let ?actor = "ac_subject (mc_actor ctx)"
  from ss obtain created updated where c: "gather (desired_action_statements pid token ctx now ''create'') (pa_created actions) = Inr created"
    and u: "gather (desired_action_statements pid token ctx now ''update'') (pa_updated actions) = Inr updated"
    and ss: "ss = [claim_statement pid ?actor token now, claim_failure_statement pid ?actor now]
      @ (created @ updated @ concat (List.map (disable_action_statements pid token ctx now) (pa_disabled actions)))
      @ assignment_statements pid token ctx now actions @ reply_statements pid token ctx scope now
      @ [final_response_statement pid token now]"
    by (rule apply_statements_parts)
  define mid where "mid = (created @ updated @ concat (List.map (disable_action_statements pid token ctx now) (pa_disabled actions)))
      @ assignment_statements pid token ctx now actions @ reply_statements pid token ctx scope now"
  obtain rs where rs: "run_statements mid d = Inr (rs, d)"
    using run_inert [OF _ fresh, of mid] parts_inert [OF c u] unfolding mid_def by blast
  have claim: "claim_statement pid ?actor token now d = Inr ([], d)"
    unfolding claim_statement_def using miss by (rule update_previews_none)
  have ss': "ss = claim_statement pid ?actor token now # claim_failure_statement pid ?actor now
      # mid @ [final_response_statement pid token now]"
    by (simp add: ss mid_def)
  have "run_statements ss d = Inr ([] # [ErrorRow (claim_failure pid ?actor now d)] # rs @ [[ResponseJson None]], d)"
    using fresh unfolding ss' by (simp add: claim claim_failure_statement_def run_statements_append rs final_untouched)
  then show thesis
    by (intro that [of "[] # [ErrorRow (claim_failure pid ?actor now d)] # rs @ [[ResponseJson None]]"])
      (simp_all add: run_batch_def apply_result_def batch_returned_row_def)
qed

section \<open>What a group of statements writes\<close>

text \<open>A mark says what one action promises: its grant, what the row must satisfy, and the event.\<close>

record mark =
  mk_key :: grant_key
  mk_expected :: "grant \<Rightarrow> bool"
  mk_previous :: "grant option"
  mk_event :: string
  mk_fresh :: bool

definition sequenced :: "mark \<Rightarrow> db \<Rightarrow> grant \<Rightarrow> bool" where
  "sequenced m c new \<longleftrightarrow> (case find_grant c (mk_key m) of
     None \<Rightarrow> mk_fresh m \<and> g_revocation_seq new = first_revocation_seq c (mk_key m)
   | Some g \<Rightarrow> \<not> mk_fresh m \<and> g_revocation_seq new = revocation_seq_bump c g)"

definition written_mark :: "mutation_context \<Rightarrow> mark \<Rightarrow> db \<Rightarrow> db \<Rightarrow> bool" where
  "written_mark ctx m c c' \<longleftrightarrow> (\<exists>new. committed (mk_key m) ctx (mk_event m) (mk_previous m) None new c c'
     \<and> sequenced m c new \<and> mk_expected m new) \<and> db_generation c \<le> db_generation c'"

fun written_marks :: "mutation_context \<Rightarrow> mark list \<Rightarrow> db \<Rightarrow> db \<Rightarrow> bool" where
  "written_marks ctx [] c c' = (c' = c)"
| "written_marks ctx (m # ms) c c' = (\<exists>c1. written_mark ctx m c c1 \<and> written_marks ctx ms c1 c')"

text \<open>The write of a group: once claimed it stores a row, or leaves the database alone.\<close>

definition group_write :: "string \<Rightarrow> string \<Rightarrow> mark \<Rightarrow> plan_command \<Rightarrow> bool" where
  "group_write pid token m w \<longleftrightarrow> (\<forall>d rows d'. claim_guard pid token d \<longrightarrow> w d = Inr (rows, d') \<longrightarrow>
     (\<exists>c1. d' = d\<lparr>pd_core := c1\<rparr> \<and> db_generation (pd_core d) \<le> db_generation c1 \<and>
       ((find_grant (pd_core d) (mk_key m) = None \<and> find_grant c1 (mk_key m) = None)
        \<or> (\<exists>new c0. stored (mk_key m) new (pd_core d) c0 \<and> c1 = c0\<lparr>db_changes := db_changes (pd_core d)\<rparr> \<and> sequenced m (pd_core d) new))))"

lemma guard_core [simp]: "claim_guard pid token (d\<lparr>pd_core := c\<rparr>) = claim_guard pid token d"
  by (simp add: claim_guard_def)

lemma find_grant_simps [simp]: "find_grant (c\<lparr>db_changes := n\<rparr>) = find_grant c"
    "find_grant (c\<lparr>db_events := es\<rparr>) = find_grant c" "find_grant (c\<lparr>db_generation := i\<rparr>) = find_grant c"
  by (simp_all add: find_grant_def fun_eq_iff)

lemma create_group: "group_write pid token \<lparr>mk_key = dv_key v, mk_expected = q, mk_previous = x, mk_event = e, mk_fresh = True\<rparr>
    (create_entitlement_statement pid token v now)"
  unfolding group_write_def
proof (intro allI impI)
  fix d d' :: plan_db and rows
  let ?g = "projected_grant v (first_revocation_seq (pd_core d) (dv_key v)) now"
  assume g: "claim_guard pid token d" and r: "create_entitlement_statement pid token v now d = Inr (rows, d')"
  then have n: "find_grant (pd_core d) (dv_key v) = None"
    by (auto simp: create_entitlement_statement_def split: if_splits)
  obtain rs c0 where ins: "insert_grant ?g (pd_core d) = Inr (rs, c0)"
    and d': "d' = d\<lparr>pd_core := c0\<lparr>db_changes := db_changes (pd_core d)\<rparr>\<rparr>"
    using g r n by (auto simp: create_entitlement_statement_def on_core_def rbind_Inr_iff)
  have k: "key_of ?g = dv_key v" by (simp add: key_of_def projected_grant_def)
  have "stored (dv_key v) ?g (pd_core d) c0" using insert_grant_stored [OF ins] n k by simp
  moreover have "sequenced \<lparr>mk_key = dv_key v, mk_expected = q, mk_previous = x, mk_event = e, mk_fresh = True\<rparr> (pd_core d) ?g"
    using n by (simp add: sequenced_def projected_grant_def)
  moreover have "db_generation (pd_core d) \<le> db_generation c0"
    using ins by (auto simp: insert_grant_def split: if_splits)
  ultimately show "\<exists>c1. d' = d\<lparr>pd_core := c1\<rparr> \<and> db_generation (pd_core d) \<le> db_generation c1 \<and>
      ((find_grant (pd_core d) (mk_key \<lparr>mk_key = dv_key v, mk_expected = q, mk_previous = x, mk_event = e, mk_fresh = True\<rparr>) = None \<and>
        find_grant c1 (mk_key \<lparr>mk_key = dv_key v, mk_expected = q, mk_previous = x, mk_event = e, mk_fresh = True\<rparr>) = None)
       \<or> (\<exists>new c0. stored (mk_key \<lparr>mk_key = dv_key v, mk_expected = q, mk_previous = x, mk_event = e, mk_fresh = True\<rparr>) new (pd_core d) c0
          \<and> c1 = c0\<lparr>db_changes := db_changes (pd_core d)\<rparr>
          \<and> sequenced \<lparr>mk_key = dv_key v, mk_expected = q, mk_previous = x, mk_event = e, mk_fresh = True\<rparr> (pd_core d) new))"
    unfolding d' by auto
qed

lemma update_group:
  assumes f: "\<And>c g. key_of (f c g) = key_of g" and s: "\<And>c g. g_revocation_seq (f c g) = revocation_seq_bump c g"
    and m: "\<not> mk_fresh m"
  shows "group_write pid token m (\<lambda>d. on_core (update_grant cols (mk_key m) (\<lambda>_ _. claim_guard pid token d) f) d)"
  unfolding group_write_def
proof (intro allI impI)
  fix d rows d'
  assume g: "claim_guard pid token d"
    and r: "on_core (update_grant cols (mk_key m) (\<lambda>_ _. claim_guard pid token d) f) d = Inr (rows, d')"
  obtain rs c0 where u: "update_grant cols (mk_key m) (\<lambda>_ _. claim_guard pid token d) f (pd_core d) = Inr (rs, c0)"
    and d': "d' = d\<lparr>pd_core := c0\<lparr>db_changes := db_changes (pd_core d)\<rparr>\<rparr>"
    using r by (auto simp: on_core_def rbind_Inr_iff)
  have gen: "db_generation (pd_core d) \<le> db_generation c0"
    using u by (auto simp: update_grant_def split: option.splits if_splits)
  show "\<exists>c1. d' = d\<lparr>pd_core := c1\<rparr> \<and> db_generation (pd_core d) \<le> db_generation c1 \<and>
       ((find_grant (pd_core d) (mk_key m) = None \<and> find_grant c1 (mk_key m) = None)
        \<or> (\<exists>new c0. stored (mk_key m) new (pd_core d) c0 \<and> c1 = c0\<lparr>db_changes := db_changes (pd_core d)\<rparr> \<and> sequenced m (pd_core d) new))"
    using u f
  proof (cases rule: update_grant_cases)
    case missed
    then have "find_grant (pd_core d) (mk_key m) = None" using g by (cases "find_grant (pd_core d) (mk_key m)") auto
    with missed show ?thesis unfolding d'
      by (intro exI [of _ "c0\<lparr>db_changes := db_changes (pd_core d)\<rparr>"]) (use gen in simp)
  next
    case (hit x)
    have "sequenced m (pd_core d) (f (pd_core d) x)" using hit(1) s m by (simp add: sequenced_def)
    with hit(4) gen show ?thesis unfolding d' by auto
  qed
qed

lemma run_group:
  assumes w: "group_write pid token m w" and g: "claim_guard pid token d"
    and r: "run_statements [w, entitlement_audit_statement pid token ctx (mk_event m) reason (mk_previous m) (mk_key m) (mk_expected m) now,
      action_assertion_statement pid token (mk_key m) (mk_expected m)] d = Inr (rs, d')"
  shows "\<exists>c'. d' = d\<lparr>pd_core := c'\<rparr> \<and> written_mark ctx m (pd_core d) c'"
proof -
  obtain r1 d1 r2 d2 r3 where s1: "w d = Inr (r1, d1)"
    and s2: "entitlement_audit_statement pid token ctx (mk_event m) reason (mk_previous m) (mk_key m) (mk_expected m) now d1 = Inr (r2, d2)"
    and s3: "action_assertion_statement pid token (mk_key m) (mk_expected m) d2 = Inr (r3, d')"
    using r by (auto simp: rbind_Inr_iff)
  from w g s1 obtain c1 where d1: "d1 = d\<lparr>pd_core := c1\<rparr>" and gen: "db_generation (pd_core d) \<le> db_generation c1"
    and c1: "(find_grant (pd_core d) (mk_key m) = None \<and> find_grant c1 (mk_key m) = None)
        \<or> (\<exists>new c0. stored (mk_key m) new (pd_core d) c0 \<and> c1 = c0\<lparr>db_changes := db_changes (pd_core d)\<rparr> \<and> sequenced m (pd_core d) new)"
    unfolding group_write_def by blast
  have g1: "claim_guard pid token d1" using g unfolding d1 by simp
  have d2: "\<exists>c2. d2 = d\<lparr>pd_core := c2\<rparr> \<and> find_grant c2 = find_grant c1"
    using s2 unfolding entitlement_audit_statement_def d1 by (auto split: option.splits if_splits)
  then obtain c2 where c2: "d2 = d\<lparr>pd_core := c2\<rparr>" "find_grant c2 = find_grant c1" by blast
  have a: "\<exists>g. find_grant c1 (mk_key m) = Some g \<and> mk_expected m g" and d': "d' = d2"
    using s3 g unfolding action_assertion_statement_def assert_statement_def c2(1) by (auto simp: c2(2) split: if_splits option.splits)
  with c1 obtain new c0 where st: "stored (mk_key m) new (pd_core d) c0" and c1': "c1 = c0\<lparr>db_changes := db_changes (pd_core d)\<rparr>"
    and sq: "sequenced m (pd_core d) new" by auto
  have new: "find_grant c1 (mk_key m) = Some new" "mk_expected m new"
    using st a unfolding c1' by (auto simp: stored_def)
  have ev: "d2 = d\<lparr>pd_core := c1\<lparr>db_events := db_events c1 @ [projection_event ctx (mk_event m) reason (mk_previous m) new now]\<rparr>\<rparr>"
    using s2 new g1 unfolding entitlement_audit_statement_def d1 by simp
  have "written_mark ctx m (pd_core d)
      (c1\<lparr>db_events := db_events c1 @ [projection_event ctx (mk_event m) reason (mk_previous m) new now]\<rparr>)"
    unfolding written_mark_def
  proof (intro conjI exI [of _ new])
    show "db_generation (pd_core d) \<le> db_generation
        (c1\<lparr>db_events := db_events c1 @ [projection_event ctx (mk_event m) reason (mk_previous m) new now]\<rparr>)" using gen by simp
    show "committed (mk_key m) ctx (mk_event m) (mk_previous m) None new (pd_core d)
        (c1\<lparr>db_events := db_events c1 @ [projection_event ctx (mk_event m) reason (mk_previous m) new now]\<rparr>)"
      using st unfolding committed_def stored_def c1' by (auto simp: projection_event_def split: option.split)
  qed (rule sq, rule new(2))
  then show ?thesis unfolding d' ev by blast
qed

definition desired_mark :: "bool \<Rightarrow> desired_action \<Rightarrow> mark" where
  "desired_mark create a = \<lparr>mk_key = desired_key a,
     mk_expected = (\<lambda>g. \<exists>v. values_for_desired a = Inr v \<and> desired_satisfied v g),
     mk_previous = da_previous a, mk_event = (if create then ''create'' else ''update''), mk_fresh = create\<rparr>"

definition disable_mark :: "grant \<Rightarrow> mark" where
  "disable_mark g = \<lparr>mk_key = key_of g, mk_expected = (\<lambda>g. g_status g = ''disabled''), mk_previous = Some g,
     mk_event = ''disable'', mk_fresh = False\<rparr>"

definition action_marks :: "projection_actions \<Rightarrow> mark list" where
  "action_marks a = List.map (desired_mark True) (pa_created a) @ List.map (desired_mark False) (pa_updated a)
     @ List.map disable_mark (pa_disabled a)"

lemma values_key: "values_for_desired a = Inr v \<Longrightarrow> dv_key v = desired_key a"
  by (auto simp: values_for_desired_def desired_key_def Let_def split: option.splits if_splits)

lemma run_desired:
  assumes "desired_action_statements pid token ctx now (if create then ''create'' else ''update'') a = Inr ss"
    and g: "claim_guard pid token d" and r: "run_statements ss d = Inr (rs, d')"
  shows "\<exists>c'. d' = d\<lparr>pd_core := c'\<rparr> \<and> written_mark ctx (desired_mark create a) (pd_core d) c'"
proof -
  from assms(1) obtain v where v: "values_for_desired a = Inr v"
    and ss: "ss = [if create then create_entitlement_statement pid token v now else update_entitlement_statement pid token v now,
        entitlement_audit_statement pid token ctx (if create then ''create'' else ''update'') ''plan_projection'' (da_previous a) (dv_key v) (desired_satisfied v) now,
        action_assertion_statement pid token (dv_key v) (desired_satisfied v)]"
    by (auto simp: desired_action_statements_def rbind_Inr_iff)
  have m: "desired_mark create a = \<lparr>mk_key = dv_key v, mk_expected = desired_satisfied v, mk_previous = da_previous a,
      mk_event = (if create then ''create'' else ''update''), mk_fresh = create\<rparr>"
    using v values_key [OF v] by (simp add: desired_mark_def fun_eq_iff)
  have w: "group_write pid token (desired_mark create a)
      (if create then create_entitlement_statement pid token v now else update_entitlement_statement pid token v now)"
  proof (cases create)
    case True
    then show ?thesis unfolding m by (simp add: create_group)
  next
    case False
    have k: "mk_key (desired_mark create a) = dv_key v" "\<not> mk_fresh (desired_mark create a)" unfolding m using False by simp_all
    have "group_write pid token (desired_mark create a) (update_entitlement_statement pid token v now)"
      unfolding update_entitlement_statement_def [abs_def] k(1) [symmetric]
      by (rule update_group) (simp_all add: key_of_def k(2))
    with False show ?thesis by simp
  qed
  show ?thesis
    using run_group [OF w g, where ctx = ctx and reason = "''plan_projection''" and now = now] r unfolding ss m by simp
qed


lemma run_disable:
  assumes g: "claim_guard pid token d" and r: "run_statements (disable_action_statements pid token ctx now x) d = Inr (rs, d')"
  shows "\<exists>c'. d' = d\<lparr>pd_core := c'\<rparr> \<and> written_mark ctx (disable_mark x) (pd_core d) c'"
proof -
  have w: "group_write pid token (disable_mark x) (disable_entitlement_statement pid token x now)"
    using update_group [where m = "disable_mark x" and pid = pid and token = token and cols = "\<lparr>sets_owner = False, sets_capacity = False\<rparr>"
        and f = "\<lambda>c g. g\<lparr>g_status := ''disabled'', g_revocation_seq := revocation_seq_bump c g, g_updated_at := now\<rparr>"]
    by (simp add: disable_entitlement_statement_def [abs_def] disable_mark_def key_of_def)
  show ?thesis
    using run_group [OF w g, where ctx = ctx and reason = "''plan_projection_removed''" and now = now] r
    by (simp add: disable_action_statements_def disable_mark_def)
qed

lemma written_marks_append:
  "written_marks ctx (ms @ ns) c c' \<longleftrightarrow> (\<exists>c1. written_marks ctx ms c c1 \<and> written_marks ctx ns c1 c')"
  by (induction ms arbitrary: c) auto

text \<open>A list of groups, each of which keeps the claim.\<close>

lemma run_gathered:
  assumes one: "\<And>x ss d rs d'. f x = Inr ss \<Longrightarrow> claim_guard pid token d \<Longrightarrow> run_statements ss d = Inr (rs, d') \<Longrightarrow>
      \<exists>c'. d' = d\<lparr>pd_core := c'\<rparr> \<and> written_mark ctx (m x) (pd_core d) c'"
  shows "gather f xs = Inr ss \<Longrightarrow> claim_guard pid token d \<Longrightarrow> run_statements ss d = Inr (rs, d') \<Longrightarrow>
      \<exists>c'. d' = d\<lparr>pd_core := c'\<rparr> \<and> written_marks ctx (List.map m xs) (pd_core d) c'"
proof (induction xs arbitrary: ss d rs)
  case Nil
  then show ?case by (intro exI [of _ "pd_core d"]) auto
next
  case (Cons x xs)
  then obtain ys zs where f: "f x = Inr ys" and gx: "gather f xs = Inr zs" and ss: "ss = ys @ zs"
    by (auto simp: rbind_Inr_iff)
  obtain r1 d1 r2 where s1: "run_statements ys d = Inr (r1, d1)" and s2: "run_statements zs d1 = Inr (r2, d')"
    using Cons.prems(3) unfolding ss by (auto simp: run_statements_append rbind_Inr_iff)
  obtain c1 where c1: "d1 = d\<lparr>pd_core := c1\<rparr>" "written_mark ctx (m x) (pd_core d) c1"
    using one [OF f Cons.prems(2) s1] by blast
  have "claim_guard pid token d1" using Cons.prems(2) by (simp add: c1)
  from Cons.IH [OF gx this s2] obtain c2 where c2: "d' = d1\<lparr>pd_core := c2\<rparr>" "written_marks ctx (List.map m xs) c1 c2"
    by (auto simp: c1)
  show ?case by (rule exI [of _ c2]) (use c1 c2 in auto)
qed

lemma gather_concat: "gather (\<lambda>x. Inr (f x)) xs = Inr (concat (List.map f xs))"
  by (induction xs) simp_all

lemma run_actions:
  assumes c: "gather (desired_action_statements pid token ctx now ''create'') (pa_created actions) = Inr created"
    and u: "gather (desired_action_statements pid token ctx now ''update'') (pa_updated actions) = Inr updated"
    and g: "claim_guard pid token d"
    and r: "run_statements (created @ updated @ concat (List.map (disable_action_statements pid token ctx now) (pa_disabled actions))) d = Inr (rs, d')"
  shows "\<exists>c'. d' = d\<lparr>pd_core := c'\<rparr> \<and> written_marks ctx (action_marks actions) (pd_core d) c'"
proof -
  obtain r1 d1 r2 d2 r3 where s1: "run_statements created d = Inr (r1, d1)" and s2: "run_statements updated d1 = Inr (r2, d2)"
    and s3: "run_statements (concat (List.map (disable_action_statements pid token ctx now) (pa_disabled actions))) d2 = Inr (r3, d')"
    using r by (auto simp: run_statements_append rbind_Inr_iff)
  have "\<exists>c'. d1 = d\<lparr>pd_core := c'\<rparr> \<and> written_marks ctx (List.map (desired_mark True) (pa_created actions)) (pd_core d) c'"
    by (rule run_gathered [OF _ c g s1]) (rule run_desired [where create = True, simplified])
  then obtain c1 where c1: "d1 = d\<lparr>pd_core := c1\<rparr>"
    "written_marks ctx (List.map (desired_mark True) (pa_created actions)) (pd_core d) c1" by blast
  have g1: "claim_guard pid token d1" using g by (simp add: c1)
  have "\<exists>c'. d2 = d1\<lparr>pd_core := c'\<rparr> \<and> written_marks ctx (List.map (desired_mark False) (pa_updated actions)) (pd_core d1) c'"
    by (rule run_gathered [OF _ u g1 s2]) (rule run_desired [where create = False, simplified])
  then obtain c2 where c2: "d2 = d1\<lparr>pd_core := c2\<rparr>"
    "written_marks ctx (List.map (desired_mark False) (pa_updated actions)) c1 c2" by (auto simp: c1)
  have g2: "claim_guard pid token d2" using g by (simp add: c1 c2)
  have "\<exists>c'. d' = d2\<lparr>pd_core := c'\<rparr> \<and> written_marks ctx (List.map disable_mark (pa_disabled actions)) (pd_core d2) c'"
    by (rule run_gathered [OF _ gather_concat g2 s3]) (auto intro: run_disable)
  then obtain c3 where c3: "d' = d2\<lparr>pd_core := c3\<rparr>" "written_marks ctx (List.map disable_mark (pa_disabled actions)) c2 c3"
    by (auto simp: c2)
  show ?thesis
    unfolding action_marks_def written_marks_append
    by (rule exI [of _ c3]) (use c1 c2 c3 in auto)
qed

text \<open>Marks of distinct grants: all are satisfied in the end, and nothing else changed.\<close>

lemma written_mark_find:
  "written_mark ctx m c c' \<Longrightarrow> (\<exists>new. find_grant c' = (find_grant c)(mk_key m \<mapsto> new) \<and> mk_expected m new
     \<and> (find_grant c (mk_key m) = None \<longleftrightarrow> mk_fresh m))"
  by (auto simp: written_mark_def committed_def sequenced_def split: option.splits)

lemma written_marks_find:
  assumes "written_marks ctx ms c c'" and "distinct (List.map mk_key ms)"
  shows "(\<forall>m\<in>set ms. (\<exists>g. find_grant c' (mk_key m) = Some g \<and> mk_expected m g) \<and> (find_grant c (mk_key m) = None \<longleftrightarrow> mk_fresh m))
    \<and> (\<forall>k. k \<notin> mk_key ` set ms \<longrightarrow> find_grant c' k = find_grant c k)"
  using assms
proof (induction ms arbitrary: c)
  case Nil
  then show ?case by simp
next
  case (Cons m ms)
  then obtain c1 where m: "written_mark ctx m c c1" and ms: "written_marks ctx ms c1 c'" by auto
  obtain new where new: "find_grant c1 = (find_grant c)(mk_key m \<mapsto> new)" "mk_expected m new" "find_grant c (mk_key m) = None \<longleftrightarrow> mk_fresh m"
    using written_mark_find [OF m] by (elim exE conjE)
  have d: "mk_key m \<notin> mk_key ` set ms" "distinct (List.map mk_key ms)" using Cons.prems(2) by auto
  have sat: "\<And>x. x \<in> set ms \<Longrightarrow> (\<exists>g. find_grant c' (mk_key x) = Some g \<and> mk_expected x g)
      \<and> (find_grant c1 (mk_key x) = None \<longleftrightarrow> mk_fresh x)"
    and same: "\<And>k. k \<notin> mk_key ` set ms \<Longrightarrow> find_grant c' k = find_grant c1 k"
    using Cons.IH [OF ms d(2)] by blast+
  show ?case
  proof (intro conjI ballI allI impI)
    fix x
    assume x: "x \<in> set (m # ms)"
    show "\<exists>g. find_grant c' (mk_key x) = Some g \<and> mk_expected x g"
    proof (cases "x \<in> set ms")
      case True
      then show ?thesis using sat by blast
    next
      case False
      with x have "x = m" by simp
      then show ?thesis using same [OF d(1)] new(1,2) by auto
    qed
    show "find_grant c (mk_key x) = None \<longleftrightarrow> mk_fresh x"
    proof (cases "x \<in> set ms")
      case True
      then have "mk_key x \<noteq> mk_key m" using d(1) by (metis imageI)
      then show ?thesis using sat [OF True] new(1) by simp
    next
      case False
      with x new(3) show ?thesis by simp
    qed
  next
    fix k
    assume k: "k \<notin> mk_key ` set (m # ms)"
    then show "find_grant c' k = find_grant c k" using same [of k] new(1) by simp
  qed
qed

lemma written_marks_events:
  "written_marks ctx ms c c' \<Longrightarrow> (distinct (List.map key_of (db_grants c)) \<longrightarrow> distinct (List.map key_of (db_grants c')))
    \<and> (\<exists>es. db_events c' = db_events c @ es \<and> List.map (\<lambda>e. (ev_key e, ev_type e, ev_prev e)) es = List.map (\<lambda>m. (mk_key m, mk_event m, mk_previous m)) ms)
    \<and> db_idempotency c' = db_idempotency c"
proof (induction ms arbitrary: c)
  case Nil
  then show ?case by simp
next
  case (Cons m ms)
  then obtain c1 where m: "written_mark ctx m c c1" and ms: "written_marks ctx ms c1 c'" by auto
  from m obtain e where "db_events c1 = db_events c @ [e]" "(ev_key e, ev_type e, ev_prev e) = (mk_key m, mk_event m, mk_previous m)"
    "db_idempotency c1 = db_idempotency c" "distinct (List.map key_of (db_grants c)) \<longrightarrow> distinct (List.map key_of (db_grants c1))"
    unfolding written_mark_def committed_def by (auto split: option.splits)
  with Cons.IH [OF ms] show ?case by auto
qed

lemma written_marks_generation: "written_marks ctx ms c c' \<Longrightarrow> db_generation c \<le> db_generation c'"
proof (induction ms arbitrary: c)
  case Nil
  then show ?case by simp
next
  case (Cons m ms)
  then obtain c1 where "written_mark ctx m c c1" "written_marks ctx ms c1 c'" by auto
  with Cons.IH show ?case unfolding written_mark_def by (meson order_trans)
qed

lemma written_marks_progress:
  assumes "written_marks ctx ms c c'" and "distinct (List.map mk_key ms)"
    and "\<forall>m\<in>set ms. \<forall>g. find_grant c (mk_key m) = Some g \<longrightarrow> g_status g \<noteq> ''revoked''"
  shows "progress c c'"
  using assms
proof (induction ms arbitrary: c)
  case Nil
  then show ?case by simp
next
  case (Cons m ms)
  then obtain c1 where m: "written_mark ctx m c c1" and ms: "written_marks ctx ms c1 c'" by auto
  from m obtain new where com: "committed (mk_key m) ctx (mk_event m) (mk_previous m) None new c c1" and sq: "sequenced m c new"
    unfolding written_mark_def by blast
  have "advances (mk_key m) c new"
  proof (cases "find_grant c (mk_key m)")
    case None
    with sq show ?thesis using first_revocation_seq_above [of _ c "mk_key m"] by (auto simp: sequenced_def advances_def)
  next
    case (Some g)
    with sq Cons.prems(3) show ?thesis by (intro advances_bump [OF Some]) (auto simp: sequenced_def)
  qed
  from committed_progress [OF com this refl] have p: "progress c c1" .
  have f: "find_grant c1 = (find_grant c)(mk_key m \<mapsto> new)" using com by (simp add: committed_def)
  have "progress c1 c'"
  proof (rule Cons.IH [OF ms])
    show "distinct (List.map mk_key ms)" using Cons.prems(2) by simp
    show "\<forall>x\<in>set ms. \<forall>g. find_grant c1 (mk_key x) = Some g \<longrightarrow> g_status g \<noteq> ''revoked''"
      using Cons.prems(2,3) unfolding f by (auto simp: image_iff)
  qed
  with p show ?case by (rule progress_trans)
qed

section \<open>A batch whose claim hits does everything\<close>

definition same_catalog :: "plan_db \<Rightarrow> plan_db \<Rightarrow> bool" where
  "same_catalog d d' \<longleftrightarrow> pd_plans d' = pd_plans d \<and> pd_features d' = pd_features d
     \<and> pd_plan_features d' = pd_plan_features d \<and> pd_policies d' = pd_policies d"

definition assigned :: "mutation_context \<Rightarrow> projection_actions \<Rightarrow> plan_db \<Rightarrow> plan_db \<Rightarrow> bool" where
  "assigned ctx actions d d' \<longleftrightarrow> (let a = pa_assignment actions in
     \<exists>r es. assignment_row_of a d' = Some r \<and> assignment_key_of a r \<and> assignment_satisfied a r
       \<and> filter (\<lambda>r. \<not> assignment_key_of a r) (pd_assignments d') = filter (\<lambda>r. \<not> assignment_key_of a r) (pd_assignments d)
       \<and> pd_assignment_events d' = pd_assignment_events d @ es
       \<and> (\<exists>e\<in>set es. ae_next e = r \<and> ae_prev e = pa_snapshot actions \<and> ae_actor e = actor_label (mc_actor ctx)))"

lemma find_first: "x \<in> set xs \<Longrightarrow> P x \<Longrightarrow> \<exists>y. find P xs = Some y \<and> y \<in> set xs \<and> P y"
  by (induction xs) auto

lemma run_assignment:
  assumes g: "claim_guard pid token d"
    and r: "run_statements (assignment_statements pid token ctx now actions) d = Inr (rs, d')"
  shows "same_catalog d d' \<and> pd_previews d' = pd_previews d \<and> pd_idempotency d' = pd_idempotency d
    \<and> pd_core d' = (pd_core d)\<lparr>db_generation := db_generation (pd_core d) + 1\<rparr> \<and> assigned ctx actions d d'"
proof -
  let ?a = "pa_assignment actions"
  obtain r1 d1 where s1: "assignment_statement pid token ?a now d = Inr (r1, d1)"
    and d': "d' = d1\<lparr>pd_assignment_events := pd_assignment_events d1
       @ List.map (assignment_event_of (pa_snapshot actions) ctx now)
           (filter (\<lambda>r. assignment_key_of ?a r \<and> claim_guard pid token d1 \<and> assignment_satisfied ?a r) (pd_assignments d1))\<rparr>"
    and a1: "\<not> claim_guard pid token d1 \<or> list_ex (\<lambda>r. assignment_key_of ?a r \<and> assignment_satisfied ?a r) (pd_assignments d1)"
    using r unfolding assignment_statements_def Let_def
    by (auto simp: rbind_Inr_iff assignment_assertion_statement_def assignment_audit_assertion_statement_def assert_statement_def
        assignment_audit_statement_def split: if_splits)
  let ?new = "\<lparr>as_license_id = am_license_id ?a, as_project = am_project ?a, as_plan_id = am_plan_id ?a,
             as_fingerprint = am_fingerprint ?a, as_customer_id = am_customer_id ?a, as_status = ''active'',
             as_support_until = am_support_until ?a, as_addons = am_addons ?a, as_created_at = now, as_updated_at = now\<rparr>"
  let ?up = "\<lambda>r. r\<lparr>as_plan_id := am_plan_id ?a, as_fingerprint := am_fingerprint ?a, as_customer_id := am_customer_id ?a,
                as_status := ''active'', as_support_until := am_support_until ?a, as_addons := am_addons ?a, as_updated_at := now\<rparr>"
  have d1: "d1 = d\<lparr>pd_assignments := (if list_ex (assignment_key_of ?a) (pd_assignments d)
           then List.map (\<lambda>r. if assignment_key_of ?a r then ?up r else r) (pd_assignments d)
           else pd_assignments d @ [?new]),
        pd_core := (pd_core d)\<lparr>db_generation := db_generation (pd_core d) + 1\<rparr>\<rparr>"
    using s1 g by (auto simp: assignment_statement_def Let_def split: if_splits)
  have g1: "claim_guard pid token d1" using g unfolding d1 by (simp add: claim_guard_def)
  have key_up: "assignment_key_of ?a (?up r) = assignment_key_of ?a r" for r by (simp add: assignment_key_of_def)
  have sat: "\<forall>r\<in>set (pd_assignments d1). assignment_key_of ?a r \<longrightarrow> assignment_satisfied ?a r"
    unfolding d1 by (auto simp: assignment_satisfied_def assignment_key_of_def list_ex_iff split: if_splits)
  have others: "filter (\<lambda>r. \<not> assignment_key_of ?a r) (pd_assignments d1) = filter (\<lambda>r. \<not> assignment_key_of ?a r) (pd_assignments d)"
  proof -
    have *: "filter (\<lambda>r. \<not> assignment_key_of ?a r) (List.map (\<lambda>r. if assignment_key_of ?a r then ?up r else r) rs)
        = filter (\<lambda>r. \<not> assignment_key_of ?a r) rs" for rs
      by (induction rs) (auto simp: key_up)
    have "assignment_key_of ?a ?new" by (simp add: assignment_key_of_def)
    then show ?thesis unfolding d1 using * by simp
  qed
  obtain x where "x \<in> set (pd_assignments d1)" "assignment_key_of ?a x" using a1 g1 by (auto simp: list_ex_iff)
  then obtain r where rr: "assignment_row_of ?a d1 = Some r" "r \<in> set (pd_assignments d1)" "assignment_key_of ?a r"
    unfolding assignment_row_of_def using find_first [of x _ "assignment_key_of ?a"] by blast
  have sr: "assignment_satisfied ?a r" using sat rr by blast
  have "assigned ctx actions d d'"
    unfolding assigned_def Let_def
  proof (intro exI [of _ r] exI conjI)
    show "assignment_row_of ?a d' = Some r" using rr(1) unfolding d' by (simp add: assignment_row_of_def)
    show "filter (\<lambda>r. \<not> assignment_key_of ?a r) (pd_assignments d') = filter (\<lambda>r. \<not> assignment_key_of ?a r) (pd_assignments d)"
      using others unfolding d' by simp
    show "pd_assignment_events d' = pd_assignment_events d @ List.map (assignment_event_of (pa_snapshot actions) ctx now)
        (filter (\<lambda>r. assignment_key_of ?a r \<and> claim_guard pid token d1 \<and> assignment_satisfied ?a r) (pd_assignments d1))"
      unfolding d' by (simp add: d1)
    show "\<exists>e\<in>set (List.map (assignment_event_of (pa_snapshot actions) ctx now)
        (filter (\<lambda>r. assignment_key_of ?a r \<and> claim_guard pid token d1 \<and> assignment_satisfied ?a r) (pd_assignments d1))).
        ae_next e = r \<and> ae_prev e = pa_snapshot actions \<and> ae_actor e = actor_label (mc_actor ctx)"
      by (rule bexI [of _ "assignment_event_of (pa_snapshot actions) ctx now r"])
        (use rr sr g1 in \<open>auto simp: assignment_event_of_def\<close>)
  qed (rule rr(3), rule sr)
  then show ?thesis unfolding same_catalog_def d' by (simp add: d1)
qed

definition finished :: "plan_db \<Rightarrow> string \<Rightarrow> int \<Rightarrow> stored_preview \<Rightarrow> stored_preview" where
  "finished d request_id now p = p\<lparr>sp_applied := Some (applied_response_of d request_id p), sp_consumed_at := Some now\<rparr>"

lemma applied_response_previews [simp]:
  "applied_response_of (d\<lparr>pd_previews := ps\<rparr>) rid p = applied_response_of d rid p"
  "applied_response_of d rid (p\<lparr>sp_applied := x\<rparr>) = applied_response_of d rid p"
  "applied_response_of d rid (p\<lparr>sp_claim_token := t, sp_claimed_at := n\<rparr>) = applied_response_of d rid p"
  by (simp_all add: applied_response_of_def applied_rows_def assignment_row_of_def cong: option.case_cong)

lemma claimed_by_applied [simp]: "claimed_by pid token (p\<lparr>sp_applied := x\<rparr>) = claimed_by pid token p"
  by (simp add: claimed_by_def)

lemma run_reply:
  assumes p: "p \<in> set (pd_previews d)" "claimed_by pid token p" and uniq: "\<forall>q\<in>set (pd_previews d). claimed_by pid token q \<longrightarrow> q = p"
    and r: "run_statements (reply_statements pid token ctx scope now) d = Inr (rs, d')"
  shows "d' = d\<lparr>pd_previews := List.map (\<lambda>q. if claimed_by pid token q then finished d (mc_request_id ctx) now q else q) (pd_previews d),
      pd_idempotency := (case replay_key ctx scope of None \<Rightarrow> pd_idempotency d
        | Some k \<Rightarrow> (pd_idempotency d)(k \<mapsto> applied_response_of d (mc_request_id ctx) p))\<rparr>"
proof -
  let ?rid = "mc_request_id ctx"
  let ?C = "claimed_by pid token"
  define d1 where "d1 = d\<lparr>pd_previews := List.map (\<lambda>q. if ?C q then q\<lparr>sp_applied := Some (applied_response_of d ?rid q)\<rparr> else q) (pd_previews d)\<rparr>"
  have s1: "response_statement pid token ?rid d = Inr (List.map (\<lambda>p. ClaimRow (sp_id p)) (filter ?C (pd_previews d)), d1)"
    by (simp add: response_statement_def update_previews_def d1_def)
  let ?p1 = "p\<lparr>sp_applied := Some (applied_response_of d ?rid p)\<rparr>"
  have in1: "q \<in> set (pd_previews d1) \<Longrightarrow> ?C q \<Longrightarrow> q = ?p1" for q
    using uniq unfolding d1_def by (auto split: if_splits)
  have p1: "?p1 \<in> set (pd_previews d1)" "?C ?p1" using p unfolding d1_def by (auto simp: image_iff)
  have g1: "claim_guard pid token d1" unfolding claim_guard_def list_ex_iff using p1 by blast
  have f1: "find (\<lambda>p. ?C p \<and> sp_applied p \<noteq> None) (pd_previews d1) = Some ?p1"
  proof -
    have "?C ?p1 \<and> sp_applied ?p1 \<noteq> None" using p1(2) by simp
    from find_first [OF p1(1), of "\<lambda>p. ?C p \<and> sp_applied p \<noteq> None", OF this]
    obtain y where "find (\<lambda>p. ?C p \<and> sp_applied p \<noteq> None) (pd_previews d1) = Some y" "y \<in> set (pd_previews d1)" "?C y" by blast
    with in1 [of y] show ?thesis by simp
  qed
  define d2 where "d2 = d1\<lparr>pd_idempotency := (case replay_key ctx scope of None \<Rightarrow> pd_idempotency d
        | Some k \<Rightarrow> (pd_idempotency d)(k \<mapsto> applied_response_of d ?rid p))\<rparr>"
  have s2: "\<exists>rs'. consume_statement pid token now d2 = Inr (rs', d')"
  proof (cases "replay_key ctx scope")
    case None
    then have "d2 = d1" by (simp add: d2_def d1_def)
    then show ?thesis using r None s1 by (auto simp: reply_statements_def rbind_Inr_iff)
  next
    case (Some k)
    obtain r2 d2' r3 where i: "idempotency_statement pid token k d1 = Inr (r2, d2')"
      and a: "idempotency_assertion_statement pid token k d2' = Inr (r3, d2')" and c: "\<exists>rs'. consume_statement pid token now d2' = Inr (rs', d')"
      using r Some s1 by (auto simp: reply_statements_def rbind_Inr_iff idempotency_assertion_statement_def assert_statement_def split: if_splits)
    have "d2' = d2"
    proof (cases "key_taken d1 k")
      case False
      then show ?thesis using i f1 Some by (simp add: idempotency_statement_def d2_def d1_def)
    next
      case True
      then have d2': "d2' = d1" using i f1 by (simp add: idempotency_statement_def)
      then have "\<exists>q\<in>set (pd_previews d1). ?C q \<and> pd_idempotency d1 k = sp_applied q"
        using a g1 by (auto simp: idempotency_assertion_statement_def assert_statement_def list_ex_iff split: if_splits)
      then obtain q where q: "q \<in> set (pd_previews d1)" "?C q" "pd_idempotency d1 k = sp_applied q" by blast
      then have "pd_idempotency d1 k = Some (applied_response_of d ?rid p)" using in1 [OF q(1,2)] by simp
      then have "pd_idempotency d k = Some (applied_response_of d ?rid p)" by (simp add: d1_def)
      then have "(pd_idempotency d)(k \<mapsto> applied_response_of d ?rid p) = pd_idempotency d" by auto
      then show ?thesis using Some d2' by (simp add: d2_def d1_def)
    qed
    with c show ?thesis by simp
  qed
  have "d' = d2\<lparr>pd_previews := List.map (\<lambda>p. if ?C p \<and> sp_applied p \<noteq> None then p\<lparr>sp_consumed_at := Some now\<rparr> else p) (pd_previews d2)\<rparr>"
    using s2 by (auto simp: consume_statement_def update_previews_def)
  moreover have "List.map (\<lambda>p. if ?C p \<and> sp_applied p \<noteq> None then p\<lparr>sp_consumed_at := Some now\<rparr> else p) (pd_previews d2)
      = List.map (\<lambda>q. if ?C q then finished d ?rid now q else q) (pd_previews d)"
    by (simp add: d2_def d1_def finished_def)
  ultimately show ?thesis by (simp add: d2_def d1_def)
qed

text \<open>What an applied preview left behind; \<open>p\<close> is the preview, \<open>r\<close> the stored response.\<close>

definition preview_applied ::
  "string \<Rightarrow> mutation_context \<Rightarrow> string option \<Rightarrow> int \<Rightarrow> projection_actions \<Rightarrow> stored_preview \<Rightarrow> applied_response
     \<Rightarrow> plan_db \<Rightarrow> plan_db \<Rightarrow> bool" where
  "preview_applied token ctx scope now actions p r d d' \<longleftrightarrow>
     (\<exists>c. written_marks ctx (action_marks actions) (pd_core d) c \<and> pd_core d' = c\<lparr>db_generation := db_generation c + 1\<rparr>)
     \<and> same_catalog d d' \<and> assigned ctx actions d d'
     \<and> r = applied_response_of d' (mc_request_id ctx) p
     \<and> pd_previews d' = List.map (\<lambda>q. if sp_id q = sp_id p
         then p\<lparr>sp_claim_token := Some token, sp_claimed_at := Some now, sp_applied := Some r, sp_consumed_at := Some now\<rparr>
         else q) (pd_previews d)
     \<and> pd_idempotency d' = (case replay_key ctx scope of None \<Rightarrow> pd_idempotency d | Some k \<Rightarrow> (pd_idempotency d)(k \<mapsto> r))"

lemma run_parts:
  assumes "s0 d = Inr (rows0, d1)" and "\<And>d. s1 d = Inr (rows1 d, d)"
    and "run_batch ([s0, s1] @ as @ bs @ cs @ [f]) d = (Inr rs, d')"
  obtains r1 d2 r2 d3 r3 d4 r4 where "run_statements as d1 = Inr (r1, d2)" "run_statements bs d2 = Inr (r2, d3)"
    "run_statements cs d3 = Inr (r3, d4)" "f d4 = Inr (r4, d')" "rs = rows0 # rows1 d1 # (r1 @ r2 @ r3) @ [r4]"
proof -
  have "run_statements ([s0, s1] @ as @ bs @ cs @ [f]) d = Inr (rs, d')"
    using assms(3) by (auto simp: run_batch_def split: sum.splits)
  then show thesis
    using assms(1,2) that by (auto simp: run_statements_append rbind_Inr_iff)
qed

lemma hit_batch:
  assumes ss: "apply_statements pid token ctx scope now actions = Inr ss" and fresh: "untouched token d"
    and ids: "distinct (List.map sp_id (pd_previews d))"
    and p: "p \<in> set (pd_previews d)" "claimable pid (ac_subject (mc_actor ctx)) now d p"
    and r: "run_batch ss d = (Inr rs, d')"
  shows "\<exists>r. apply_result rs = Inr r \<and> preview_applied token ctx scope now actions p r d d'"
proof -
  let ?actor = "ac_subject (mc_actor ctx)" and ?rid = "mc_request_id ctx"
  let ?K = "claimable pid ?actor now d"
  let ?cl = "\<lambda>q. q\<lparr>sp_claim_token := Some token, sp_claimed_at := Some now\<rparr>"
  have pid: "sp_id p = pid" using p(2) by (simp add: claimable_def)
  have same_id: "q \<in> set (pd_previews d) \<Longrightarrow> sp_id q = pid \<longleftrightarrow> q = p" for q
    using ids p(1) pid by (auto simp: distinct_map inj_on_def)
  have only: "q \<in> set (pd_previews d) \<Longrightarrow> ?K q \<longleftrightarrow> q = p" for q
    using same_id [of q] p(2) by (auto simp: claimable_def)
  from ss obtain created updated where c: "gather (desired_action_statements pid token ctx now ''create'') (pa_created actions) = Inr created"
    and u: "gather (desired_action_statements pid token ctx now ''update'') (pa_updated actions) = Inr updated"
    and ss: "ss = [claim_statement pid ?actor token now, claim_failure_statement pid ?actor now]
      @ (created @ updated @ concat (List.map (disable_action_statements pid token ctx now) (pa_disabled actions)))
      @ assignment_statements pid token ctx now actions @ reply_statements pid token ctx scope now
      @ [final_response_statement pid token now]"
    by (rule apply_statements_parts)
  define d1 where "d1 = d\<lparr>pd_previews := List.map (\<lambda>q. if ?K q then ?cl q else q) (pd_previews d)\<rparr>"
  have claim: "claim_statement pid ?actor token now d = Inr (List.map (\<lambda>p. ClaimRow (sp_id p)) (filter ?K (pd_previews d)), d1)"
    by (simp add: claim_statement_def update_previews_def d1_def)
  obtain r1 d2 r2 d3 r3 d4 r4 where
      s2: "run_statements (created @ updated @ concat (List.map (disable_action_statements pid token ctx now) (pa_disabled actions))) d1 = Inr (r1, d2)"
    and s3: "run_statements (assignment_statements pid token ctx now actions) d2 = Inr (r2, d3)"
    and s4: "run_statements (reply_statements pid token ctx scope now) d3 = Inr (r3, d4)"
    and s5: "final_response_statement pid token now d4 = Inr (r4, d')"
    and rs: "rs = List.map (\<lambda>p. ClaimRow (sp_id p)) (filter ?K (pd_previews d)) # [ErrorRow (claim_failure pid ?actor now d1)] # (r1 @ r2 @ r3) @ [r4]"
    using r unfolding ss by (rule run_parts [where ?s0.0 = "claim_statement pid ?actor token now" and d = d
          and ?s1.0 = "claim_failure_statement pid ?actor now"
          and ?rows1.0 = "\<lambda>d. [ErrorRow (claim_failure pid ?actor now d)]", OF claim claim_failure_statement_def])
  have cl: "claimed_by pid token (?cl p)"
    using p(2) by (simp add: claimed_by_def claimable_def)
  have in1: "?cl p \<in> set (pd_previews d1)" using p by (auto simp: d1_def image_iff)
  have g1: "claim_guard pid token d1" unfolding claim_guard_def list_ex_iff using cl in1 by blast
  obtain c2 where d2: "d2 = d1\<lparr>pd_core := c2\<rparr>" and marks: "written_marks ctx (action_marks actions) (pd_core d1) c2"
    using run_actions [OF c u g1 s2] by blast
  have g2: "claim_guard pid token d2" using g1 by (simp add: d2)
  note as = run_assignment [OF g2 s3]
  have p3: "pd_previews d3 = pd_previews d1" using as by (simp add: d2)
  have uniq: "\<forall>q\<in>set (pd_previews d3). claimed_by pid token q \<longrightarrow> q = ?cl p"
    using fresh only unfolding p3 d1_def by (auto simp: untouched_def claimed_by_def split: if_splits)
  define R where "R = applied_response_of d3 ?rid p"
  have d4: "d4 = d3\<lparr>pd_previews := List.map (\<lambda>q. if claimed_by pid token q then finished d3 ?rid now q else q) (pd_previews d1),
      pd_idempotency := (case replay_key ctx scope of None \<Rightarrow> pd_idempotency d3 | Some k \<Rightarrow> (pd_idempotency d3)(k \<mapsto> R))\<rparr>"
    using run_reply [OF _ cl uniq s4] in1 unfolding R_def p3 by (simp only: applied_response_previews simp_thms)
  let ?fin = "p\<lparr>sp_claim_token := Some token, sp_claimed_at := Some now, sp_applied := Some R, sp_consumed_at := Some now\<rparr>"
  have ps4: "pd_previews d4 = List.map (\<lambda>q. if sp_id q = sp_id p then ?fin else q) (pd_previews d)"
  proof -
    have "(if claimed_by pid token (if ?K q then ?cl q else q) then finished d3 ?rid now (if ?K q then ?cl q else q) else (if ?K q then ?cl q else q))
        = (if sp_id q = sp_id p then ?fin else q)" if q: "q \<in> set (pd_previews d)" for q
    proof (cases "q = p")
      case True
      then show ?thesis using p(2) cl by (simp add: finished_def R_def)
    next
      case False
      then have "\<not> ?K q" "sp_id q \<noteq> sp_id p" using only [OF q] same_id [OF q] pid by auto
      moreover have "\<not> claimed_by pid token q" using untouched_claimed [OF fresh q] .
      ultimately show ?thesis by simp
    qed
    then show ?thesis unfolding d4 by (simp add: d1_def)
  qed
  have fin: "?fin \<in> set (pd_previews d4)" using p(1) unfolding ps4 by (auto simp: image_iff)
  have fu: "q \<in> set (pd_previews d4) \<Longrightarrow> sp_id q = pid \<Longrightarrow> q = ?fin" for q
    unfolding ps4 using pid by (auto split: if_splits)
  have "find (\<lambda>p. sp_id p = pid \<and> sp_claim_token p = Some token \<and> sp_consumed_at p = Some now \<and> sp_applied p \<noteq> None) (pd_previews d4) = Some ?fin"
    using find_first [OF fin, of "\<lambda>p. sp_id p = pid \<and> sp_claim_token p = Some token \<and> sp_consumed_at p = Some now \<and> sp_applied p \<noteq> None"]
      fu pid by auto
  then have d': "d' = d4" and r4: "r4 = [ResponseJson (Some R)]" using s5 by (auto simp: final_response_statement_def)
  have "filter ?K (pd_previews d) \<noteq> []" using p by (auto simp: filter_empty_conv)
  then obtain x xs where "List.map (\<lambda>p. ClaimRow (sp_id p)) (filter ?K (pd_previews d)) = x # xs"
    by (cases "filter ?K (pd_previews d)") auto
  then have res: "apply_result rs = Inr R"
    unfolding rs r4 by (simp add: apply_result_def batch_returned_row_def R_def applied_response_of_def)
  have "preview_applied token ctx scope now actions p R d d'"
    unfolding preview_applied_def d'
  proof (intro conjI)
    show "\<exists>c. written_marks ctx (action_marks actions) (pd_core d) c \<and> pd_core d4 = c\<lparr>db_generation := db_generation c + 1\<rparr>"
    proof (intro exI conjI)
      show "written_marks ctx (action_marks actions) (pd_core d) c2" using marks by (simp add: d1_def)
      show "pd_core d4 = c2\<lparr>db_generation := db_generation c2 + 1\<rparr>" using as by (simp add: d4 d2)
    qed
    show "same_catalog d d4" using as by (simp add: d4 d2 d1_def same_catalog_def)
    show "assigned ctx actions d d4"
      using as by (simp add: d4 d2 d1_def assigned_def Let_def assignment_row_of_def)
    show "R = applied_response_of d4 ?rid p"
      unfolding R_def d4 by (simp add: applied_response_of_def applied_rows_def assignment_row_of_def cong: option.case_cong)
    show "pd_idempotency d4 = (case replay_key ctx scope of None \<Rightarrow> pd_idempotency d | Some k \<Rightarrow> (pd_idempotency d)(k \<mapsto> R))"
      using as by (simp add: d4 d2 d1_def split: option.split)
  qed (rule ps4)
  with res show ?thesis by blast
qed

end
