(* ===== verification/Plan_History.thy ===== *)
theory Plan_History
  imports Plan_Safety
begin

text \<open>
  Previews and applies interleaved with everything else that writes the licensing tables. A state of
  the history is the list of databases so far, newest first, and the ids and tokens drawn so far:
  a request reads some earlier database and its batch meets the newest one.
\<close>

section \<open>One apply\<close>

lemma apply_cases:
  assumes "apply_plan_projection pid token ctx scope now x d = (r, d')" and "untouched token d"
    and "distinct (List.map sp_id (pd_previews d))"
  obtains (failed) e where "r = Inl e" "d' = d"
    | (applied) resp p preview actions where "r = Inr resp" "stored_preview_of pid x = Inr (preview, actions)"
        "pj_blocked (pr_projection preview) = []" "p \<in> set (pd_previews d)" "claimable pid (ac_subject (mc_actor ctx)) now d p"
        "preview_applied token ctx scope now actions p resp d d'"
proof -
  note a = assms(1) [unfolded apply_plan_projection_def]
  show thesis
  proof (cases "\<not> is_plan_projection_preview_id (String pid)")
    case True
    with a failed show ?thesis by auto
  next
    case False
    show ?thesis
    proof (cases "stored_preview_of pid x")
      case (Inl e)
      with a False failed show ?thesis by auto
    next
      case (Inr b)
      obtain preview actions where b: "stored_preview_of pid x = Inr (preview, actions)" using Inr by (cases b) auto
      show ?thesis
      proof (cases "pj_blocked (pr_projection preview) = []")
        case False': False
        with a False b failed show ?thesis by (auto simp: Let_def)
      next
        case True
        show ?thesis
        proof (cases "apply_statements pid token ctx scope now actions")
          case (Inl e)
          with a False b True failed show ?thesis by (auto simp: Let_def)
        next
          case ss: (Inr ss)
          show ?thesis
          proof (cases "fst (run_batch ss d)")
            case (Inl e)
            then have "run_batch ss d = (Inl e, d)" by (auto simp: run_batch_def split: sum.splits prod.splits)
            with a False b True ss failed show ?thesis by (auto simp: Let_def)
          next
            case rs: (Inr rs)
            then have run: "run_batch ss d = (Inr rs, snd (run_batch ss d))" by (metis prod.collapse)
            have res: "r = apply_result rs" "d' = snd (run_batch ss d)"
              using a False b True ss run by (auto simp: Let_def split: prod.splits)
            show ?thesis
            proof (cases "\<exists>p\<in>set (pd_previews d). claimable pid (ac_subject (mc_actor ctx)) now d p")
              case hit: True
              then obtain p where p: "p \<in> set (pd_previews d)" "claimable pid (ac_subject (mc_actor ctx)) now d p" by blast
              from hit_batch [OF ss assms(2,3) p run] obtain resp where "apply_result rs = Inr resp"
                "preview_applied token ctx scope now actions p resp d (snd (run_batch ss d))" by blast
              with applied [of resp preview actions p] res b True p show ?thesis by simp
            next
              case miss: False
              then have "\<forall>p\<in>set (pd_previews d). \<not> claimable pid (ac_subject (mc_actor ctx)) now d p" by blast
              from missed_batch [OF ss assms(2) this] obtain rs' where "run_batch ss d = (Inr rs', d)"
                "apply_result rs' = Inl (claim_failure pid (ac_subject (mc_actor ctx)) now d)" by blast
              with failed run res show ?thesis by auto
            qed
          qed
        qed
      qed
    qed
  qed
qed

text \<open>C13. Applying a preview is all or nothing: an answer that is an error leaves the database as it was;
  a success claimed a preview that was this actor's, unexpired, unclaimed and made from the
  current generation, and wrote every grant of the preview with its audit event, the assignment with
  its event, the stored response, the replay record and the consumption mark.\<close>

theorem apply_plan_projection_atomic:
  assumes "apply_plan_projection pid token ctx scope now x d = (r, d')"
    and "\<forall>p\<in>set (pd_previews d). sp_claim_token p \<noteq> Some token" and "distinct (List.map sp_id (pd_previews d))"
  shows "case r of Inl e \<Rightarrow> d' = d
    | Inr resp \<Rightarrow> \<exists>preview actions p. stored_preview_of pid x = Inr (preview, actions)
        \<and> p \<in> set (pd_previews d) \<and> claimable pid (ac_subject (mc_actor ctx)) now d p
        \<and> preview_applied token ctx scope now actions p resp d d'"
proof -
  have "untouched token d" using assms(2) by (simp add: untouched_def)
  from assms(1) this assms(3) show ?thesis
  proof (cases rule: apply_cases)
    case (failed e)
    then show ?thesis by simp
  next
    case (applied resp p preview actions)
    then show ?thesis by auto
  qed
qed

section \<open>Interleavings\<close>

text \<open>The tables whose triggers move the generation on.\<close>

definition sources :: "plan_db \<Rightarrow> grant list \<times> catalog_plan list \<times> catalog_feature list \<times> plan_feature list \<times> policy list \<times> assignment_row list" where
  "sources d = (db_grants (pd_core d), pd_plans d, pd_features d, pd_plan_features d, pd_policies d, pd_assignments d)"

text \<open>Any other request: it keeps away from the previews, and the triggers see what it changes.\<close>

definition other_write :: "plan_db \<Rightarrow> plan_db \<Rightarrow> bool" where
  "other_write d d' \<longleftrightarrow> pd_previews d' = pd_previews d
     \<and> (sources d' = sources d \<and> db_generation (pd_core d') = db_generation (pd_core d)
        \<or> db_generation (pd_core d) < db_generation (pd_core d'))"

inductive plan_history :: "string set \<Rightarrow> plan_db list \<Rightarrow> bool" where
  start: "pd_previews d = [] \<Longrightarrow> plan_history {} [d]"
| preview: "plan_history drawn (d # ds) \<Longrightarrow> x \<in> set (d # ds) \<Longrightarrow> i \<notin> drawn \<Longrightarrow>
    preview_attempt v actor i now x d = (r, d') \<Longrightarrow> plan_history (insert i drawn) (d' # d # ds)"
| applied: "plan_history drawn (d # ds) \<Longrightarrow> x \<in> set (d # ds) \<Longrightarrow> token \<notin> drawn \<Longrightarrow>
    apply_plan_projection pid token ctx scope now x d = (r, d') \<Longrightarrow> plan_history (insert token drawn) (d' # d # ds)"
| other: "plan_history drawn (d # ds) \<Longrightarrow> other_write d d' \<Longrightarrow> plan_history drawn (d' # d # ds)"

inductive_cases plan_history_consE: "plan_history drawn (d # ds)"

text \<open>A preview row is what one attempt made of an earlier database; since then it can only have
  been claimed, finished or cleaned up.\<close>

definition previewed :: "stored_preview \<Rightarrow> plan_db list \<Rightarrow> bool" where
  "previewed p ds \<longleftrightarrow> (\<exists>x\<in>set ds. \<exists>v now s. build_projection_snapshot v now x = Inr s
     \<and> sp_actions p = derive_actions s \<and> sp_response p = preview_of s (sp_id p) now (now + preview_ttl)
     \<and> sp_source_generation p = db_generation (pd_core x))"

definition same_preview :: "stored_preview \<Rightarrow> stored_preview \<Rightarrow> bool" where
  "same_preview p q \<longleftrightarrow> sp_actions q = sp_actions p \<and> sp_response q = sp_response p
     \<and> sp_source_generation q = sp_source_generation p \<and> (sp_claim_token p \<noteq> None \<longrightarrow> sp_claim_token q \<noteq> None)"

definition history_ok :: "string set \<Rightarrow> plan_db list \<Rightarrow> bool" where
  "history_ok drawn ds \<longleftrightarrow> (let d = hd ds in
     distinct (List.map sp_id (pd_previews d))
     \<and> (\<forall>p\<in>set (pd_previews d). (\<forall>t. sp_claim_token p = Some t \<longrightarrow> t \<in> drawn) \<and> previewed p ds)
     \<and> (\<forall>x\<in>set ds. \<forall>p\<in>set (pd_previews x). sp_id p \<in> drawn
          \<and> (\<forall>q\<in>set (pd_previews d). sp_id q = sp_id p \<longrightarrow> same_preview p q))
     \<and> (\<forall>x\<in>set ds. db_generation (pd_core x) \<le> db_generation (pd_core d)
          \<and> (db_generation (pd_core x) = db_generation (pd_core d) \<longrightarrow> sources x = sources d)))"

lemma same_preview_trans: "same_preview p q \<Longrightarrow> same_preview q r \<Longrightarrow> same_preview p r"
  by (auto simp: same_preview_def)

lemma same_preview_refl [simp]: "same_preview p p"
  by (simp add: same_preview_def)

lemma previewed_mono: "previewed p ds \<Longrightarrow> set ds \<subseteq> set ds' \<Longrightarrow> previewed p ds'"
  unfolding previewed_def by blast

lemma history_okD:
  assumes "history_ok drawn ds"
  shows "distinct (List.map sp_id (pd_previews (hd ds)))"
    and "p \<in> set (pd_previews (hd ds)) \<Longrightarrow> sp_claim_token p = Some t \<Longrightarrow> t \<in> drawn"
    and "p \<in> set (pd_previews (hd ds)) \<Longrightarrow> previewed p ds"
    and "x \<in> set ds \<Longrightarrow> p \<in> set (pd_previews x) \<Longrightarrow> sp_id p \<in> drawn"
    and "x \<in> set ds \<Longrightarrow> p \<in> set (pd_previews x) \<Longrightarrow> q \<in> set (pd_previews (hd ds)) \<Longrightarrow> sp_id q = sp_id p \<Longrightarrow> same_preview p q"
    and "x \<in> set ds \<Longrightarrow> db_generation (pd_core x) \<le> db_generation (pd_core (hd ds))"
    and "x \<in> set ds \<Longrightarrow> db_generation (pd_core x) = db_generation (pd_core (hd ds)) \<Longrightarrow> sources x = sources (hd ds)"
  using assms unfolding history_ok_def Let_def by blast+

text \<open>How a step may change the previews.\<close>

lemma history_step:
  assumes ok: "history_ok drawn (d # ds)" and more: "drawn \<subseteq> drawn'"
    and ids: "distinct (List.map sp_id (pd_previews d'))"
    and ps: "\<And>q. q \<in> set (pd_previews d') \<Longrightarrow>
      (\<exists>p\<in>set (pd_previews d). sp_id p = sp_id q \<and> same_preview p q)
      \<or> (sp_id q \<notin> drawn \<and> sp_id q \<in> drawn' \<and> previewed q (d # ds))"
    and tokens: "\<And>q t. q \<in> set (pd_previews d') \<Longrightarrow> sp_claim_token q = Some t \<Longrightarrow> t \<in> drawn'"
    and gen: "sources d' = sources d \<and> db_generation (pd_core d') = db_generation (pd_core d)
      \<or> db_generation (pd_core d) < db_generation (pd_core d')"
  shows "history_ok drawn' (d' # d # ds)"
proof -
  note okD = history_okD [OF ok, unfolded list.sel]
  note prev = okD(3) and seen = okD(4) and same = okD(5)
  have gens: "db_generation (pd_core x) \<le> db_generation (pd_core d)
          \<and> (db_generation (pd_core x) = db_generation (pd_core d) \<longrightarrow> sources x = sources d)" if "x \<in> set (d # ds)" for x
    using okD(6,7) that by blast
  have old: "same_preview p q" if "x \<in> set (d # ds)" "p \<in> set (pd_previews x)" "q \<in> set (pd_previews d')" "sp_id q = sp_id p" for x p q
    using ps [OF that(3)]
  proof
    assume "\<exists>p\<in>set (pd_previews d). sp_id p = sp_id q \<and> same_preview p q"
    then obtain m where "m \<in> set (pd_previews d)" "sp_id m = sp_id q" "same_preview m q" by blast
    with same [OF that(1,2), of m] that(4) same_preview_trans show ?thesis by auto
  next
    assume "sp_id q \<notin> drawn \<and> sp_id q \<in> drawn' \<and> previewed q (d # ds)"
    with seen [OF that(1,2)] that(4) show ?thesis by simp
  qed
  have uniq: "p = q" if "p \<in> set (pd_previews d')" "q \<in> set (pd_previews d')" "sp_id q = sp_id p" for p q
    using ids that by (auto simp: distinct_map inj_on_def)
  show ?thesis
    unfolding history_ok_def Let_def list.sel
  proof (intro conjI ballI allI impI)
    fix p
    assume p: "p \<in> set (pd_previews d')"
    show "\<And>t. sp_claim_token p = Some t \<Longrightarrow> t \<in> drawn'" using tokens [OF p] .
    from ps [OF p] show "previewed p (d' # d # ds)"
    proof
      assume "\<exists>m\<in>set (pd_previews d). sp_id m = sp_id p \<and> same_preview m p"
      then obtain m where m: "m \<in> set (pd_previews d)" "sp_id m = sp_id p" "same_preview m p" by blast
      have "previewed m (d' # d # ds)" using prev [OF m(1)] by (rule previewed_mono) auto
      then show ?thesis using m(2,3) unfolding previewed_def same_preview_def by simp
    next
      assume "sp_id p \<notin> drawn \<and> sp_id p \<in> drawn' \<and> previewed p (d # ds)"
      then show ?thesis using previewed_mono by (metis set_subset_Cons)
    qed
  next
    fix x p
    assume x: "x \<in> set (d' # d # ds)" "p \<in> set (pd_previews x)"
    show "sp_id p \<in> drawn'"
    proof (cases "x = d'")
      case True
      with x ps [of p] seen [of d] more show ?thesis by fastforce
    next
      case False
      with x seen more show ?thesis by auto
    qed
    fix q
    assume q: "q \<in> set (pd_previews d')" "sp_id q = sp_id p"
    show "same_preview p q"
    proof (cases "x = d'")
      case True
      with uniq [of p q] x q show ?thesis by simp
    next
      case False
      with x have m: "x \<in> set (d # ds)" by simp
      show ?thesis by (rule old [OF m x(2) q])
    qed
  next
    fix x
    assume x: "x \<in> set (d' # d # ds)"
    show "db_generation (pd_core x) \<le> db_generation (pd_core d')" using x gens gen by fastforce
    show "sources x = sources d'" if "db_generation (pd_core x) = db_generation (pd_core d')"
    proof (cases "x = d'")
      case False
      with x have m: "x \<in> set (d # ds)" by simp
      from gens [OF m] gen that show ?thesis by auto
    qed simp
  qed (rule ids)
qed

lemma attempt_previews:
  assumes "preview_attempt v actor i now x d = (r, d')"
  shows "pd_core d' = pd_core d \<and> sources d' = sources d
    \<and> (\<forall>q\<in>set (pd_previews d'). q \<in> set (pd_previews d)
        \<or> (sp_id q = i \<and> sp_claim_token q = None \<and> db_generation (pd_core x) = db_generation (pd_core d) \<and> previewed q [x]))
    \<and> (distinct (List.map sp_id (pd_previews d)) \<and> i \<notin> sp_id ` set (pd_previews d) \<longrightarrow> distinct (List.map sp_id (pd_previews d')))"
proof -
  let ?c = "cleanup_expired_previews now d"
  have c: "pd_core ?c = pd_core d" "sources ?c = sources d" "set (pd_previews ?c) \<subseteq> set (pd_previews d)"
    "distinct (List.map sp_id (pd_previews d)) \<Longrightarrow> distinct (List.map sp_id (pd_previews ?c))"
    by (auto simp: cleanup_expired_previews_def Let_def sources_def intro: distinct_map_filter)
  show ?thesis
  proof (cases "build_projection_snapshot v now x")
    case (Inl e)
    with assms show ?thesis by (simp add: preview_attempt_def)
  next
    case (Inr s)
    have gs: "ss_generation s = db_generation (pd_core x)"
      using Inr by (auto simp: build_projection_snapshot_def rbind_Inr_iff Let_def split: option.splits if_splits)
    show ?thesis
    proof (cases "max_atomic_actions < action_count (derive_actions s)")
      case True
      with assms Inr show ?thesis by (simp add: preview_attempt_def Let_def)
    next
      case False
      let ?q = "\<lparr>sp_id = i, sp_actor = actor,
        sp_source_generation = ss_generation s, sp_input = ss_input s, sp_response = preview_of s i now (now + preview_ttl), sp_actions = derive_actions s,
        sp_effective_at = now, sp_expires_at = now + preview_ttl, sp_claim_token = None,
        sp_claimed_at = None, sp_consumed_at = None, sp_applied = None, sp_created_at = now\<rparr>"
      have q: "previewed ?q [x]" unfolding previewed_def using Inr gs by auto
      show ?thesis
      proof (cases "db_generation (pd_core d) = ss_generation s")
        case True
        have d': "d' = ?c\<lparr>pd_previews := pd_previews ?c @ [?q]\<rparr>"
          using assms Inr False True c by (auto simp: preview_attempt_def Let_def insert_preview_def preview_of_def)
        have "sources d' = sources d" using c(2) unfolding d' by (simp add: sources_def)
        moreover have "\<forall>y\<in>set (pd_previews d'). y \<in> set (pd_previews d) \<or> y = ?q" using c(3) unfolding d' by auto
        moreover have "distinct (List.map sp_id (pd_previews d'))"
          if "distinct (List.map sp_id (pd_previews d))" "i \<notin> sp_id ` set (pd_previews d)"
          using c(3) c(4) [OF that(1)] that(2) unfolding d' by auto
        ultimately show ?thesis using q True gs c(1) unfolding d' by auto
      next
        case other: False
        have "d' = ?c" using assms Inr False other c by (auto simp: preview_attempt_def Let_def insert_preview_def preview_of_def)
        with c show ?thesis by auto
      qed
    qed
  qed
qed

lemma applied_generation:
  "preview_applied token ctx scope now actions p r d d' \<Longrightarrow> db_generation (pd_core d) < db_generation (pd_core d')"
  unfolding preview_applied_def using written_marks_generation by fastforce

lemma history_invariant: "plan_history drawn ds \<Longrightarrow> ds \<noteq> [] \<and> history_ok drawn ds"
proof (induction rule: plan_history.induct)
  case (start d)
  then show ?case by (simp add: history_ok_def)
next
  case (preview drawn d ds x i v actor now r d')
  then have ok: "history_ok drawn (d # ds)" by simp
  note a = attempt_previews [OF preview.hyps(4)]
  note okD = history_okD [OF ok, unfolded list.sel]
  have seen: "p \<in> set (pd_previews d) \<Longrightarrow> sp_id p \<in> drawn \<and> same_preview p p" for p
    using okD(4) [of d p] by simp
  have new: "i \<notin> sp_id ` set (pd_previews d)" using seen preview.hyps(3) by auto
  have "history_ok (insert i drawn) (d' # d # ds)"
  proof (rule history_step [OF ok])
    show "distinct (List.map sp_id (pd_previews d'))" using a new okD(1) by blast
    show "sources d' = sources d \<and> db_generation (pd_core d') = db_generation (pd_core d)
      \<or> db_generation (pd_core d) < db_generation (pd_core d')" using a by simp
    fix q
    assume q: "q \<in> set (pd_previews d')"
    have alt: "q \<in> set (pd_previews d)
        \<or> (sp_id q = i \<and> sp_claim_token q = None \<and> db_generation (pd_core x) = db_generation (pd_core d) \<and> previewed q [x])"
      using a [THEN conjunct2, THEN conjunct2, THEN conjunct1] q by (rule bspec)
    then consider (old) "q \<in> set (pd_previews d)" | (made) "sp_id q = i" "sp_claim_token q = None" "previewed q [x]"
      by (elim disjE conjE) 
    then show "(\<exists>p\<in>set (pd_previews d). sp_id p = sp_id q \<and> same_preview p q)
        \<or> (sp_id q \<notin> drawn \<and> sp_id q \<in> insert i drawn \<and> previewed q (d # ds))"
    proof cases
      case old
      then show ?thesis using seen by blast
    next
      case made
      have "previewed q (d # ds)" using made(3) by (rule previewed_mono) (use preview.hyps(2) in auto)
      then show ?thesis using made preview.hyps(3) by simp
    qed
    show "t \<in> insert i drawn" if "sp_claim_token q = Some t" for t
      using alt that okD(2) [of q t] by auto
  qed auto
  then show ?case by simp
next
  case (applied drawn d ds x token pid ctx scope now r d')
  then have ok: "history_ok drawn (d # ds)" by simp
  note ids = history_okD(1) [OF ok, unfolded list.sel] and tok = history_okD(2) [OF ok, unfolded list.sel]
  have fresh: "untouched token d" using tok applied.hyps(3) by (auto simp: untouched_def)
  have "history_ok (insert token drawn) (d' # d # ds)"
    using applied.hyps(4) fresh ids
  proof (cases rule: apply_cases)
    case (failed e)
    show ?thesis by (rule history_step [OF ok]) (use failed ids tok in auto)
  next
    case (applied resp p preview actions)
    then have ps: "pd_previews d' = List.map (\<lambda>q. if sp_id q = sp_id p
         then p\<lparr>sp_claim_token := Some token, sp_claimed_at := Some now, sp_applied := Some resp, sp_consumed_at := Some now\<rparr>
         else q) (pd_previews d)" by (simp add: preview_applied_def)
    show ?thesis
    proof (rule history_step [OF ok])
      show "distinct (List.map sp_id (pd_previews d'))" using ids unfolding ps by (simp add: comp_def if_distrib cong: if_cong)
      show "sources d' = sources d \<and> db_generation (pd_core d') = db_generation (pd_core d)
        \<or> db_generation (pd_core d) < db_generation (pd_core d')" using applied_generation [OF applied(6)] by simp
      fix q
      assume q: "q \<in> set (pd_previews d')"
      then obtain m where m: "m \<in> set (pd_previews d)" "q = m \<or> q = p\<lparr>sp_claim_token := Some token, sp_claimed_at := Some now, sp_applied := Some resp, sp_consumed_at := Some now\<rparr>"
        unfolding ps by (auto split: if_splits)
      then show "(\<exists>p\<in>set (pd_previews d). sp_id p = sp_id q \<and> same_preview p q)
          \<or> (sp_id q \<notin> drawn \<and> sp_id q \<in> insert token drawn \<and> previewed q (d # ds))"
        using applied(4) by (auto simp: same_preview_def)
      show "t \<in> insert token drawn" if "sp_claim_token q = Some t" for t using m tok that by auto
    qed auto
  qed
  then show ?case by simp
next
  case (other drawn d ds d')
  then have ok: "history_ok drawn (d # ds)" by simp
  have "history_ok drawn (d' # d # ds)"
    by (rule history_step [OF ok])
      (use other.hyps(2) history_okD(1,2) [OF ok, unfolded list.sel] in \<open>auto simp: other_write_def\<close>)
  then show ?case by simp
qed

lemma history_suffix: "plan_history drawn (ds' @ d # ds) \<Longrightarrow> \<exists>drawn'. plan_history drawn' (d # ds) \<and> drawn' \<subseteq> drawn"
proof (induction ds' arbitrary: drawn)
  case Nil
  then show ?case by auto
next
  case (Cons y ys)
  from Cons.prems have "\<exists>drawn'. plan_history drawn' (ys @ d # ds) \<and> drawn' \<subseteq> drawn"
  proof (cases rule: plan_history.cases)
    case (start z)
    then show ?thesis by simp
  qed auto
  with Cons.IH show ?case by (meson subset_trans)
qed

text \<open>C8. A preview is applied at most once: after one success, however previews, applies and other
  requests interleave, every further apply of that preview fails and changes nothing.\<close>

theorem applied_preview_is_spent:
  assumes "plan_history drawn (before @ d' # d # ds)" and "x \<in> set (d # ds)"
    and "apply_plan_projection pid token ctx scope now x d = (Inr resp, d')"
    and "\<forall>p\<in>set (pd_previews d). sp_claim_token p \<noteq> Some token"
    and "token' \<notin> drawn" and "y \<in> set (before @ d' # d # ds)"
  shows "\<exists>e. apply_plan_projection pid token' ctx' scope' now' y (hd (before @ d' # d # ds)) = (Inl e, hd (before @ d' # d # ds))"
proof -
  let ?ds = "before @ d' # d # ds"
  let ?h = "hd ?ds"
  have ok: "history_ok drawn ?ds" using history_invariant [OF assms(1)] by simp
  obtain drawn1 where h1: "plan_history drawn1 (d # ds)"
    using history_suffix [of drawn "before @ [d']" d ds] assms(1) by auto
  have ids: "distinct (List.map sp_id (pd_previews d))"
    using history_okD(1) [OF conjunct2 [OF history_invariant [OF h1]]] by simp
  have "untouched token d" using assms(4) by (simp add: untouched_def)
  from assms(3) this ids obtain p where p: "p \<in> set (pd_previews d)" "sp_id p = pid"
    and ps: "pd_previews d' = List.map (\<lambda>q. if sp_id q = sp_id p
         then p\<lparr>sp_claim_token := Some token, sp_claimed_at := Some now, sp_applied := Some resp, sp_consumed_at := Some now\<rparr>
         else q) (pd_previews d)"
    by (cases rule: apply_cases) (auto simp: preview_applied_def claimable_def)
  let ?p = "p\<lparr>sp_claim_token := Some token, sp_claimed_at := Some now, sp_applied := Some resp, sp_consumed_at := Some now\<rparr>"
  have spent: "?p \<in> set (pd_previews d')" using p unfolding ps by (auto simp: image_iff)
  have same: "same_preview ?p q" if "q \<in> set (pd_previews ?h)" "sp_id q = pid" for q
  proof -
    have "d' \<in> set ?ds" by simp
    from history_okD(5) [OF ok this spent that(1)] that(2) p(2) show ?thesis by simp
  qed
  have fresh: "untouched token' ?h" and ids': "distinct (List.map sp_id (pd_previews ?h))"
    using history_okD(1,2) [OF ok] assms(5) unfolding untouched_def by blast+
  obtain r e where a: "apply_plan_projection pid token' ctx' scope' now' y ?h = (r, e)" by fastforce
  from a fresh ids' show ?thesis
  proof (cases rule: apply_cases)
    case (failed e')
    with a show ?thesis by auto
  next
    case (applied resp q preview actions)
    then have "sp_claim_token q = None" "sp_id q = pid" by (simp_all add: claimable_def)
    with same [OF applied(4)] show ?thesis by (simp add: same_preview_def)
  qed
qed

end
