(* ===== verification/Plan_Convergence.thy ===== *)
theory Plan_Convergence
  imports Plan_History Grant_Interleaving "HOL-Library.Sublist"
begin

text \<open>
  What an applied preview achieves: the grants of the license are those its plan asks for, and a
  new projection of the same request finds nothing left to do.
\<close>

section \<open>The snapshot\<close>

definition license_grant :: "projection_input \<Rightarrow> plan_db \<Rightarrow> grant \<Rightarrow> bool" where
  "license_grant input d g \<longleftrightarrow> g \<in> set (db_grants (pd_core d)) \<and> g_project g = pi_project input
     \<and> g_license_id g = Some (pi_license_id input) \<and> g_fingerprint g = pi_fingerprint input
     \<and> (\<exists>f\<in>set (pd_features d). cf_project f = g_project g \<and> cf_key f = g_feature g)"

lemma set_managed: "g \<in> set (managed_entitlements input d) \<longleftrightarrow> license_grant input d g"
  by (auto simp: managed_entitlements_def license_grant_def)

definition license_key :: "projection_input \<Rightarrow> string \<Rightarrow> grant_key" where
  "license_key input f = (pi_project input, f, pi_fingerprint input)"

lemma license_grant_key: "license_grant input d g \<Longrightarrow> key_of g = license_key input (g_feature g)"
  by (simp add: license_grant_def key_of_def license_key_def)

lemma find_grant_distinct:
  assumes "distinct (List.map key_of (db_grants c))"
  shows "find_grant c k = Some g \<longleftrightarrow> g \<in> set (db_grants c) \<and> key_of g = k"
proof
  assume "find_grant c k = Some g"
  then show "g \<in> set (db_grants c) \<and> key_of g = k" by (auto simp: find_grant_def find_Some_iff)
next
  assume g: "g \<in> set (db_grants c) \<and> key_of g = k"
  then obtain y where y: "find_grant c k = Some y" "y \<in> set (db_grants c)" "key_of y = k"
    unfolding find_grant_def using find_first [of g "db_grants c" "\<lambda>g. key_of g = k"] by blast
  with g assms have "y = g" by (auto simp: distinct_map inj_on_def)
  with y show "find_grant c k = Some g" by simp
qed

lemma desired_row_fields:
  "si_project (dr_input (desired_plan_projection_row r input now)) = pi_project input"
  "si_feature (dr_input (desired_plan_projection_row r input now)) = cr_feature_key r"
  "si_fingerprint (dr_input (desired_plan_projection_row r input now)) = pi_fingerprint input"
  "si_status (dr_input (desired_plan_projection_row r input now)) = ''active''"
  "si_license_id (dr_input (desired_plan_projection_row r input now)) = Some (pi_license_id input)"
  by (auto simp: desired_plan_projection_row_def desired_stamp_def Let_def stamp_from_policy_def split: option.split)

lemma select_plan_row_set:
  "select_plan_row plan addons (av, sel) row = Inr (av', sel') \<Longrightarrow> sel' = sel \<or> sel' = sel @ [row]"
  by (auto simp: select_plan_row_def Let_def split: option.splits if_splits)

lemma select_fold_subseq:
  "rfold (select_plan_row plan addons) (av, sel) rows = Inr (av', sel') \<Longrightarrow> \<exists>xs. sel' = sel @ xs \<and> subseq xs rows"
proof (induction rows arbitrary: av sel)
  case Nil
  then show ?case by auto
next
  case (Cons r rs)
  then obtain a s where s: "select_plan_row plan addons (av, sel) r = Inr (a, s)"
    and f: "rfold (select_plan_row plan addons) (a, s) rs = Inr (av', sel')" by (auto simp: rbind_Inr_iff)
  obtain xs where xs: "sel' = s @ xs" "subseq xs rs" using Cons.IH [OF f] by blast
  from select_plan_row_set [OF s] show ?case
  proof
    assume "s = sel"
    with xs show ?thesis by (auto intro: list_emb_Cons)
  next
    assume "s = sel @ [r]"
    with xs show ?thesis by (intro exI [of _ "r # xs"]) auto
  qed
qed

lemma selected_subseq: "selected_plan_rows rows plan addons = Inr sel \<Longrightarrow> subseq sel rows"
  using select_fold_subseq [of plan addons "[]" "[]" rows] by (auto simp: selected_plan_rows_def rbind_Inr_iff split: option.splits)

text \<open>The primary keys of the catalog.\<close>

definition catalog_keys :: "plan_db \<Rightarrow> bool" where
  "catalog_keys d \<longleftrightarrow> distinct (List.map (\<lambda>f. (cf_project f, cf_key f)) (pd_features d))
     \<and> distinct (List.map (\<lambda>p. (cp_project p, cp_id p)) (pd_plans d))
     \<and> distinct (List.map (\<lambda>p. (cp_project p, cp_key p)) (pd_plans d))
     \<and> distinct (List.map (\<lambda>f. (pf_project f, pf_plan_id f, pf_feature_key f)) (pd_plan_features d))"

lemma concat_at_most_one:
  assumes "distinct (List.map f xs)"
    and "\<And>x y. x \<in> set xs \<Longrightarrow> y \<in> set xs \<Longrightarrow> h x \<noteq> [] \<Longrightarrow> h y \<noteq> [] \<Longrightarrow> f x = f y"
    and "\<And>x. x \<in> set xs \<Longrightarrow> h x = [] \<or> (\<exists>v. h x = [v] \<and> Q v)"
  shows "concat (List.map h xs) = [] \<or> (\<exists>v. concat (List.map h xs) = [v] \<and> Q v)"
  using assms
proof (induction xs)
  case Nil
  then show ?case by simp
next
  case (Cons x xs)
  have IH: "concat (List.map h xs) = [] \<or> (\<exists>v. concat (List.map h xs) = [v] \<and> Q v)"
    by (rule Cons.IH) (use Cons.prems in auto)
  show ?case
  proof (cases "h x = []")
    case True
    with IH show ?thesis by simp
  next
    case False
    have "h y = []" if "y \<in> set xs" for y
    proof (rule ccontr)
      assume "h y \<noteq> []"
      then have "f x = f y" using Cons.prems(2) [of x y] that False by simp
      with Cons.prems(1) that show False by (auto simp: image_iff)
    qed
    then have "concat (List.map h xs) = []" by simp
    with False Cons.prems(3) [of x] show ?thesis by auto
  qed
qed

lemma distinct_concat_keys:
  assumes "distinct (List.map f xs)"
    and "\<And>x. x \<in> set xs \<Longrightarrow> h x = [] \<or> (\<exists>v. h x = [v] \<and> g v = k x \<and> R x)"
    and "\<And>x y. R x \<Longrightarrow> R y \<Longrightarrow> k x = k y \<Longrightarrow> f x = f y"
  shows "distinct (List.map g (concat (List.map h xs)))"
  using assms(1,2)
proof (induction xs)
  case Nil
  then show ?case by simp
next
  case (Cons x xs)
  have IH: "distinct (List.map g (concat (List.map h xs)))" by (rule Cons.IH) (use Cons.prems in auto)
  consider (none) "h x = []" | (one) v where "h x = [v]" "g v = k x" "R x" using Cons.prems(2) [of x] by auto
  then show ?case
  proof cases
    case none
    with IH show ?thesis by simp
  next
    case one
    have "g w \<noteq> k x" if y: "y \<in> set xs" "w \<in> set (h y)" for y w
    proof
      assume eq: "g w = k x"
      have "g w = k y" "R y" using Cons.prems(2) [of y] y by auto
      with eq one(3) assms(3) [of x y] have "f x = f y" by simp
      with Cons.prems(1) y(1) show False by (auto simp: image_iff)
    qed
    then have "g v \<notin> set (List.map g (concat (List.map h xs)))" unfolding one(2) by fastforce
    with IH one(1) show ?thesis by simp
  qed
qed

text \<open>A plan has one row for a feature.\<close>

lemma joined_rows_one:
  assumes keys: "catalog_keys d"
  shows "joined_rows input d pf = [] \<or> (\<exists>v. joined_rows input d pf = [v] \<and> cr_feature_key (snd v) = pf_feature_key pf
    \<and> (\<exists>cp\<in>set (pd_plans d). plan_matches input cp \<and> cp_project cp = pf_project pf \<and> cp_id cp = pf_plan_id pf)
    \<and> (\<exists>f\<in>set (pd_features d). cf_project f = pf_project pf \<and> cf_key f = pf_feature_key pf))"
    (is "_ \<or> (\<exists>v. _ \<and> ?Q v)")
  unfolding joined_rows_def
proof (rule concat_at_most_one [where f = "\<lambda>p. (cp_project p, cp_id p)" and Q = ?Q])
  show "distinct (List.map (\<lambda>p. (cp_project p, cp_id p)) (pd_plans d))" using keys by (simp add: catalog_keys_def)
next
  fix x y
  let ?h = "\<lambda>cp. concat (List.map (\<lambda>f. if joins input pf cp f
      then [((pf_display_order pf, pf_feature_key pf), joined_row d pf f)] else []) (pd_features d))"
  assume "?h x \<noteq> []" "?h y \<noteq> []"
  then show "(cp_project x, cp_id x) = (cp_project y, cp_id y)" by (auto simp: joins_def split: if_splits)
next
  fix cp
  let ?h = "\<lambda>f. if joins input pf cp f then [((pf_display_order pf, pf_feature_key pf), joined_row d pf f)] else []"
  assume cp: "cp \<in> set (pd_plans d)"
  show "concat (List.map ?h (pd_features d)) = [] \<or> (\<exists>v. concat (List.map ?h (pd_features d)) = [v] \<and> ?Q v)"
    by (rule concat_at_most_one [where f = "\<lambda>f. (cf_project f, cf_key f)" and Q = ?Q])
      (use keys cp in \<open>auto simp: catalog_keys_def joins_def joined_row_def split: if_splits\<close>)
qed

lemma plan_matches_one:
  assumes "catalog_keys d" and "x \<in> set (pd_plans d)" "y \<in> set (pd_plans d)" and "plan_matches input x" "plan_matches input y"
  shows "x = y"
proof (cases "pi_plan_id input")
  case None
  have k: "Some (cp_key x) = pi_plan_key input" "Some (cp_key y) = pi_plan_key input" "cp_project x = cp_project y"
    using None assms(4,5) by (simp_all add: plan_matches_def)
  then have "cp_key x = cp_key y" by (metis option.inject)
  moreover have "inj_on (\<lambda>p. (cp_project p, cp_key p)) (set (pd_plans d))" using assms(1) by (simp add: catalog_keys_def distinct_map)
  ultimately show ?thesis using k(3) assms(2,3) by (auto dest: inj_onD)
next
  case (Some i)
  have "inj_on (\<lambda>p. (cp_project p, cp_id p)) (set (pd_plans d))" using assms(1) by (simp add: catalog_keys_def distinct_map)
  then show ?thesis by (rule inj_onD) (use Some assms(2-) in \<open>auto simp: plan_matches_def\<close>)
qed

lemma plan_rows_distinct:
  assumes keys: "catalog_keys d"
  shows "distinct (List.map cr_feature_key (plan_feature_rows input d))"
proof -
  let ?R = "\<lambda>pf. \<exists>cp\<in>set (pd_plans d). plan_matches input cp \<and> cp_project cp = pf_project pf \<and> cp_id cp = pf_plan_id pf"
  have "distinct (List.map (\<lambda>v. cr_feature_key (snd v)) (concat (List.map (joined_rows input d) (pd_plan_features d))))"
  proof (rule distinct_concat_keys [where f = "\<lambda>f. (pf_project f, pf_plan_id f, pf_feature_key f)" and k = pf_feature_key and R = ?R])
    show "distinct (List.map (\<lambda>f. (pf_project f, pf_plan_id f, pf_feature_key f)) (pd_plan_features d))"
      using keys by (simp add: catalog_keys_def)
    show "joined_rows input d pf = [] \<or> (\<exists>v. joined_rows input d pf = [v] \<and> cr_feature_key (snd v) = pf_feature_key pf \<and> ?R pf)" for pf
      using joined_rows_one [OF keys, of input pf] by blast
    show "(pf_project x, pf_plan_id x, pf_feature_key x) = (pf_project y, pf_plan_id y, pf_feature_key y)"
      if x: "?R x" and y: "?R y" and k: "pf_feature_key x = pf_feature_key y" for x y
    proof -
      from x y obtain cp cq where "cp \<in> set (pd_plans d)" "plan_matches input cp" "cq \<in> set (pd_plans d)" "plan_matches input cq"
        "cp_project cp = pf_project x" "cp_id cp = pf_plan_id x" "cp_project cq = pf_project y" "cp_id cq = pf_plan_id y" by blast
      with plan_matches_one [OF keys, of cp cq input] k show ?thesis by simp
    qed
  qed
  then show ?thesis
    by (simp add: plan_feature_rows_def distinct_map comp_def inj_on_def)
qed

lemma plan_row_feature:
  assumes "r \<in> set (plan_feature_rows input d)"
  shows "\<exists>f\<in>set (pd_features d). cf_project f = pi_project input \<and> cf_key f = cr_feature_key r"
  using assms by (auto simp: plan_feature_rows_def joined_rows_def joins_def joined_row_def plan_matches_def split: if_splits)

lemma snapshot_desired:
  assumes "build_projection_snapshot v now d = Inr s"
  obtains rows where "ss_desired s = List.map (\<lambda>r. desired_plan_projection_row r (ss_input s) now) rows"
    "subseq rows (plan_feature_rows (ss_input s) d)" "ss_rows s = managed_entitlements (ss_input s) d"
proof -
  from assms obtain input plan rows where "selected_plan_rows (plan_feature_rows input d) plan (pi_addons input) = Inr rows"
    and s: "ss_input s = input" "ss_desired s = List.map (\<lambda>r. desired_plan_projection_row r input now) rows"
      "ss_rows s = managed_entitlements input d"
    by (auto simp: build_projection_snapshot_def rbind_Inr_iff Let_def split: option.splits if_splits)
  with selected_subseq that show thesis by blast
qed

lemma subseq_distinct: "subseq xs ys \<Longrightarrow> (distinct ys \<longrightarrow> distinct xs) \<and> set xs \<subseteq> set ys"
  by (induction rule: list_emb.induct) auto

lemma desired_distinct:
  assumes "build_projection_snapshot v now d = Inr s" and "catalog_keys d"
  shows "distinct (List.map (\<lambda>x. si_feature (dr_input x)) (ss_desired s))"
proof -
  obtain rows where s: "ss_desired s = List.map (\<lambda>r. desired_plan_projection_row r (ss_input s) now) rows"
    "subseq rows (plan_feature_rows (ss_input s) d)" using assms(1) by (rule snapshot_desired)
  have "subseq (List.map cr_feature_key rows) (List.map cr_feature_key (plan_feature_rows (ss_input s) d))"
    using s(2) by (rule subseq_map)
  then have "distinct (List.map cr_feature_key rows)" using plan_rows_distinct [OF assms(2)] subseq_distinct by metis
  then show ?thesis unfolding s(1) by (simp add: comp_def desired_row_fields)
qed


lemma snapshot_desired_row:
  assumes "build_projection_snapshot v now d = Inr s" and "x \<in> set (ss_desired s)"
  shows "si_project (dr_input x) = pi_project (ss_input s)" "si_fingerprint (dr_input x) = pi_fingerprint (ss_input s)"
    "si_status (dr_input x) = ''active''" "si_license_id (dr_input x) = Some (pi_license_id (ss_input s))"
    "\<exists>f\<in>set (pd_features d). cf_project f = pi_project (ss_input s) \<and> cf_key f = si_feature (dr_input x)"
proof -
  obtain rows where s: "ss_desired s = List.map (\<lambda>r. desired_plan_projection_row r (ss_input s) now) rows"
    "subseq rows (plan_feature_rows (ss_input s) d)" using assms(1) by (rule snapshot_desired)
  obtain r where r: "r \<in> set rows" "x = desired_plan_projection_row r (ss_input s) now" using assms(2) unfolding s(1) by auto
  then have "r \<in> set (plan_feature_rows (ss_input s) d)" using subseq_distinct [OF s(2)] by blast
  then show "si_project (dr_input x) = pi_project (ss_input s)" "si_fingerprint (dr_input x) = pi_fingerprint (ss_input s)"
    "si_status (dr_input x) = ''active''" "si_license_id (dr_input x) = Some (pi_license_id (ss_input s))"
    "\<exists>f\<in>set (pd_features d). cf_project f = pi_project (ss_input s) \<and> cf_key f = si_feature (dr_input x)"
    using plan_row_feature unfolding r(2) by (simp_all add: desired_row_fields)
qed

section \<open>The plan is reached\<close>

lemma satisfied_matches:
  assumes "values_for_desired a = Inr v" and "desired_satisfied v g" and "si_status (dr_input (da_desired a)) = ''active''"
  shows "plan_projection_matches_desired g (da_desired a) \<and> g_license_id g = si_license_id (dr_input (da_desired a))"
  using assms by (auto simp: values_for_desired_def desired_satisfied_def plan_projection_matches_desired_def Let_def split: option.splits if_splits)

lemma row_of_distinct:
  assumes "row_of f rows n = Some g" shows "g \<in> set rows \<and> f g = n"
  using assms by (auto simp: row_of_def find_Some_iff rev_nth)

lemma find_SomeD: "find P xs = Some y \<Longrightarrow> y \<in> set xs \<and> P y"
  by (induction xs) (auto split: if_splits)

lemma row_of_None: "row_of f rows n = None \<longleftrightarrow> n \<notin> f ` set rows"
  by (auto simp: row_of_def find_None_iff)

text \<open>The database \<open>c'\<close> after the marks of a snapshot's actions, which were derived on \<open>d\<close>.\<close>

definition reached :: "snapshot \<Rightarrow> db \<Rightarrow> bool" where
  "reached s c \<longleftrightarrow> (\<forall>x\<in>set (ss_desired s). \<exists>g. find_grant c (license_key (ss_input s) (si_feature (dr_input x))) = Some g
     \<and> plan_projection_matches_desired g x)"

lemma desired_row_key:
  assumes "build_projection_snapshot v now d = Inr s" and "x \<in> set (ss_desired s)" and "da_desired a = x"
  shows "desired_key a = license_key (ss_input s) (si_feature (dr_input x))"
  using snapshot_desired_row [OF assms(1,2)] assms(3) by (simp add: desired_key_def license_key_def Let_def)

lemma mark_cases:
  assumes s: "build_projection_snapshot v now d = Inr s" and m: "m \<in> set (action_marks (derive_actions s))"
  obtains (create) x where "x \<in> set (ss_desired s)" "mk_key m = license_key (ss_input s) (si_feature (dr_input x))"
      "row_of g_feature (ss_rows s) (si_feature (dr_input x)) = None" "m = desired_mark True \<lparr>da_desired = x, da_previous = None\<rparr>"
    | (update) x g where "x \<in> set (ss_desired s)" "mk_key m = license_key (ss_input s) (si_feature (dr_input x))"
      "row_of g_feature (ss_rows s) (si_feature (dr_input x)) = Some g" "g_status g \<noteq> ''revoked''"
      "\<not> plan_projection_matches_desired g x" "m = desired_mark False \<lparr>da_desired = x, da_previous = Some g\<rparr>"
    | (disable) g where "g \<in> set (ss_rows s)" "g_feature g \<notin> desired_features (ss_desired s)" "g_status g \<noteq> ''revoked''"
      "mk_key m = key_of g" "m = disable_mark g"
proof -
  from m have "m \<in> desired_mark True ` set (derive_created (ss_desired s) (ss_rows s))
      \<or> m \<in> desired_mark False ` set (derive_updated (ss_desired s) (ss_rows s))
      \<or> m \<in> disable_mark ` set (derive_disabled (ss_desired s) (ss_rows s))"
    by (auto simp: action_marks_def derive_actions_def)
  then show thesis
  proof (elim disjE imageE)
    fix a
    assume a: "m = desired_mark True a" "a \<in> set (derive_created (ss_desired s) (ss_rows s))"
    then obtain x where x: "x \<in> set (ss_desired s)" "a = \<lparr>da_desired = x, da_previous = None\<rparr>"
      "row_of g_feature (ss_rows s) (si_feature (dr_input x)) = None" by (auto simp: derive_created_def)
    then show thesis using create [of x] a(1) desired_row_key [OF s x(1), of a] by (simp add: desired_mark_def)
  next
    fix a
    assume a: "m = desired_mark False a" "a \<in> set (derive_updated (ss_desired s) (ss_rows s))"
    then obtain x where x0: "x \<in> set (ss_desired s)"
      "a \<in> set (case row_of g_feature (ss_rows s) (si_feature (dr_input x)) of None \<Rightarrow> []
        | Some g \<Rightarrow> if g_status g \<noteq> ''revoked'' \<and> \<not> plan_projection_matches_desired g x
            then [\<lparr>da_desired = x, da_previous = Some g\<rparr>] else [])" by (auto simp: derive_updated_def)
    then obtain g where x: "x \<in> set (ss_desired s)" "a = \<lparr>da_desired = x, da_previous = Some g\<rparr>"
      "row_of g_feature (ss_rows s) (si_feature (dr_input x)) = Some g" "g_status g \<noteq> ''revoked''" "\<not> plan_projection_matches_desired g x"
      by (cases "row_of g_feature (ss_rows s) (si_feature (dr_input x))") (auto split: if_splits)
    then show thesis using update [of x g] a(1) desired_row_key [OF s x(1), of a] by (simp add: desired_mark_def)
  next
    fix g
    assume "m = disable_mark g" "g \<in> set (derive_disabled (ss_desired s) (ss_rows s))"
    then show thesis using disable [of g] by (simp add: derive_disabled_def disable_mark_def)
  qed
qed


lemma license_key_inject [simp]: "license_key input f = license_key input f' \<longleftrightarrow> f = f'"
  by (simp add: license_key_def)

lemma managed_distinct:
  assumes "distinct (List.map key_of (db_grants (pd_core d)))"
  shows "distinct (List.map key_of (managed_entitlements input d))"
  using distinct_map_filter [OF assms] by (simp add: managed_entitlements_def distinct_map)

lemma marks_distinct:
  assumes s: "build_projection_snapshot v now d = Inr s" and keys: "catalog_keys d"
    and grants: "distinct (List.map key_of (db_grants (pd_core d)))"
  shows "distinct (List.map mk_key (action_marks (derive_actions s)))"
proof -
  let ?f = "\<lambda>x. si_feature (dr_input x)"
  let ?k = "\<lambda>x. license_key (ss_input s) (?f x)"
  have dd: "distinct (List.map ?f (ss_desired s))" by (rule desired_distinct [OF s keys])
  have rows: "ss_rows s = managed_entitlements (ss_input s) d" using s by (rule snapshot_desired)
  have C: "distinct (List.map mk_key (List.map (desired_mark True) (derive_created (ss_desired s) (ss_rows s))))"
  proof -
    let ?xs = "filter (\<lambda>x. row_of g_feature (ss_rows s) (?f x) = None) (ss_desired s)"
    have "List.map mk_key (List.map (desired_mark True) (derive_created (ss_desired s) (ss_rows s))) = List.map ?k ?xs"
      unfolding derive_created_def using desired_row_key [OF s] by (simp add: desired_mark_def)
    moreover have "distinct (List.map ?k ?xs)"
      using distinct_map_filter [OF dd, of "\<lambda>x. row_of g_feature (ss_rows s) (?f x) = None"] by (simp add: distinct_map inj_on_def)
    ultimately show ?thesis by simp
  qed
  have U: "distinct (List.map (\<lambda>a. mk_key (desired_mark False a)) (derive_updated (ss_desired s) (ss_rows s)))"
    unfolding derive_updated_def
  proof (rule distinct_concat_keys [where k = ?k and R = "\<lambda>_. True", OF dd])
    fix x
    assume "x \<in> set (ss_desired s)"
    with desired_row_key [OF s] show "(case row_of g_feature (ss_rows s) (?f x) of None \<Rightarrow> []
        | Some g \<Rightarrow> if g_status g \<noteq> ''revoked'' \<and> \<not> plan_projection_matches_desired g x
            then [\<lparr>da_desired = x, da_previous = Some g\<rparr>] else []) = [] \<or>
      (\<exists>v. (case row_of g_feature (ss_rows s) (?f x) of None \<Rightarrow> []
        | Some g \<Rightarrow> if g_status g \<noteq> ''revoked'' \<and> \<not> plan_projection_matches_desired g x
            then [\<lparr>da_desired = x, da_previous = Some g\<rparr>] else []) = [v] \<and> mk_key (desired_mark False v) = ?k x \<and> True)"
      by (auto simp: desired_mark_def split: option.split)
  qed simp
  have D: "distinct (List.map mk_key (List.map disable_mark (derive_disabled (ss_desired s) (ss_rows s))))"
    unfolding derive_disabled_def rows using distinct_map_filter [OF managed_distinct [OF grants]]
    by (simp add: disable_mark_def comp_def)
  have CU: "a \<notin> mk_key ` desired_mark False ` set (derive_updated (ss_desired s) (ss_rows s))"
    if "a \<in> mk_key ` desired_mark True ` set (derive_created (ss_desired s) (ss_rows s))" for a
  proof
    assume "a \<in> mk_key ` desired_mark False ` set (derive_updated (ss_desired s) (ss_rows s))"
    then obtain y g where y: "y \<in> set (ss_desired s)" "a = ?k y" "Some g = row_of g_feature (ss_rows s) (?f y)"
      using desired_row_key [OF s] by (auto simp: derive_updated_def desired_mark_def split: option.splits if_splits)
    from that obtain x where "x \<in> set (ss_desired s)" "a = ?k x" "row_of g_feature (ss_rows s) (?f x) = None"
      using desired_row_key [OF s] by (auto simp: derive_created_def desired_mark_def)
    with y show False by simp
  qed
  have DD: "a \<notin> mk_key ` disable_mark ` set (derive_disabled (ss_desired s) (ss_rows s))" if x: "a = ?k x" "x \<in> set (ss_desired s)" for a x
  proof
    assume "a \<in> mk_key ` disable_mark ` set (derive_disabled (ss_desired s) (ss_rows s))"
    then obtain g where g: "g \<in> set (ss_rows s)" "a = key_of g" "g_feature g \<notin> desired_features (ss_desired s)"
      by (auto simp: derive_disabled_def disable_mark_def)
    then have "key_of g = license_key (ss_input s) (g_feature g)" using license_grant_key unfolding rows set_managed by blast
    moreover have "si_feature (dr_input x) \<in> desired_features (ss_desired s)" using x(2) by (simp add: desired_features_def)
    ultimately show False using g x(1) by simp
  qed
  have CD: "\<exists>x. a = ?k x \<and> x \<in> set (ss_desired s)"
    if "a \<in> mk_key ` desired_mark True ` set (derive_created (ss_desired s) (ss_rows s))" for a
    using that desired_row_key [OF s] by (auto simp: derive_created_def desired_mark_def)
  have UD: "\<exists>x. a = ?k x \<and> x \<in> set (ss_desired s)"
    if "a \<in> mk_key ` desired_mark False ` set (derive_updated (ss_desired s) (ss_rows s))" for a
    using that desired_row_key [OF s] by (auto simp: derive_updated_def desired_mark_def split: option.splits if_splits)
  let ?C = "mk_key ` desired_mark True ` set (derive_created (ss_desired s) (ss_rows s))"
  let ?U = "mk_key ` desired_mark False ` set (derive_updated (ss_desired s) (ss_rows s))"
  let ?D = "mk_key ` disable_mark ` set (derive_disabled (ss_desired s) (ss_rows s))"
  have disjoint: "A \<inter> B = {}" if "\<And>a. a \<in> A \<Longrightarrow> a \<notin> B" for A B :: "grant_key set"
    using that by blast
  have "?C \<inter> ?U = {}" by (rule disjoint) (rule CU)
  moreover have "?C \<inter> ?D = {}"
  proof (rule disjoint)
    fix a
    assume "a \<in> ?C"
    from CD [OF this] obtain x where "a = ?k x" "x \<in> set (ss_desired s)" by (elim exE conjE)
    then show "a \<notin> ?D" by (rule DD)
  qed
  moreover have "?U \<inter> ?D = {}"
  proof (rule disjoint)
    fix a
    assume "a \<in> ?U"
    from UD [OF this] obtain x where "a = ?k x" "x \<in> set (ss_desired s)" by (elim exE conjE)
    then show "a \<notin> ?D" by (rule DD)
  qed
  ultimately show ?thesis
    using C U D unfolding action_marks_def derive_actions_def
    by (simp add: comp_def image_image Int_Un_distrib)
qed

text \<open>After the marks, every desired grant is there and as desired, and the other grants of the
  license are withdrawn.\<close>

lemma marks_reach:
  assumes s: "build_projection_snapshot v now d = Inr s" and keys: "catalog_keys d"
    and grants: "distinct (List.map key_of (db_grants (pd_core d)))"
    and open_plan: "pj_blocked (classify_plan_projection (ss_input s) (ss_desired s) (ss_rows s)) = []"
    and same: "find_grant c = find_grant (pd_core d)"
    and marks: "written_marks ctx (action_marks (derive_actions s)) c c'"
  shows "\<And>x. x \<in> set (ss_desired s) \<Longrightarrow>
      \<exists>g. find_grant c' (license_key (ss_input s) (si_feature (dr_input x))) = Some g \<and> plan_projection_matches_desired g x
        \<and> g_license_id g = Some (pi_license_id (ss_input s))"
    and "\<And>g. find_grant c' (key_of g) = Some g \<Longrightarrow> license_grant (ss_input s) d g \<or> find_grant (pd_core d) (key_of g) \<noteq> Some g \<Longrightarrow>
      key_of g = license_key (ss_input s) (g_feature g) \<Longrightarrow>
      g_feature g \<notin> desired_features (ss_desired s) \<Longrightarrow> g_status g = ''disabled'' \<or> g_status g = ''revoked''"
proof -
  have rows: "ss_rows s = managed_entitlements (ss_input s) d" using s by (rule snapshot_desired)
  note mk = written_marks_find [OF marks marks_distinct [OF s keys grants]]
  have sat: "\<And>m. m \<in> set (action_marks (derive_actions s)) \<Longrightarrow> \<exists>g. find_grant c' (mk_key m) = Some g \<and> mk_expected m g"
    and other: "\<And>k. k \<notin> mk_key ` set (action_marks (derive_actions s)) \<Longrightarrow> find_grant c' k = find_grant (pd_core d) k"
    using mk unfolding same by blast+
  have own: "find_grant (pd_core d) (key_of g) = Some g" if "g \<in> set (ss_rows s)" for g
    using that find_grant_distinct [OF grants] unfolding rows set_managed license_grant_def by blast
  have verdicts: "verdict (ss_input s) (ss_rows s) x \<noteq> Blocks r" if "x \<in> set (ss_desired s)" for x r
  proof
    assume "verdict (ss_input s) (ss_rows s) x = Blocks r"
    with that have "set (verdict_items blocked_item (verdict (ss_input s) (ss_rows s)) (ss_desired s)) \<noteq> {}"
      unfolding set_verdict_items by (force simp: blocked_item_def)
    with open_plan show False by (simp add: classify_verdicts)
  qed
  show "\<exists>g. find_grant c' (license_key (ss_input s) (si_feature (dr_input x))) = Some g \<and> plan_projection_matches_desired g x
      \<and> g_license_id g = Some (pi_license_id (ss_input s))" if x: "x \<in> set (ss_desired s)" for x
  proof -
    let ?k = "license_key (ss_input s) (si_feature (dr_input x))"
    note xr = snapshot_desired_row [OF s x]
    have fin: "\<exists>g. find_grant c' ?k = Some g \<and> plan_projection_matches_desired g x \<and> g_license_id g = Some (pi_license_id (ss_input s))"
      if m: "desired_mark b a \<in> set (action_marks (derive_actions s))" "da_desired a = x" for a b
    proof -
      obtain g where g: "find_grant c' (mk_key (desired_mark b a)) = Some g" "mk_expected (desired_mark b a) g" using sat [OF m(1)] by blast
      then obtain u where "values_for_desired a = Inr u" "desired_satisfied u g" by (auto simp: desired_mark_def)
      with satisfied_matches [of a u g] m(2) xr have "plan_projection_matches_desired g x \<and> g_license_id g = Some (pi_license_id (ss_input s))" by simp
      with g(1) desired_row_key [OF s x m(2)] show ?thesis by (simp add: desired_mark_def)
    qed
    show ?thesis
    proof (cases "row_of g_feature (ss_rows s) (si_feature (dr_input x))")
      case None
      then have "\<lparr>da_desired = x, da_previous = None\<rparr> \<in> set (derive_created (ss_desired s) (ss_rows s))"
        using x by (auto simp: derive_created_def)
      then show ?thesis by (intro fin [of True "\<lparr>da_desired = x, da_previous = None\<rparr>"]) (auto simp: action_marks_def derive_actions_def)
    next
      case (Some g)
      have nr: "g_status g \<noteq> ''revoked''" using verdicts [OF x, of "''revoked_entitlement''"] Some by (auto simp: verdict_def)
      note gr = row_of_distinct [OF Some]
      have lg: "license_grant (ss_input s) d g" using gr unfolding rows set_managed by simp
      show ?thesis
      proof (cases "plan_projection_matches_desired g x")
        case False
        then have "\<lparr>da_desired = x, da_previous = Some g\<rparr> \<in> set (derive_updated (ss_desired s) (ss_rows s))"
          using x Some nr by (force simp: derive_updated_def)
        then show ?thesis by (intro fin [of False "\<lparr>da_desired = x, da_previous = Some g\<rparr>"]) (auto simp: action_marks_def derive_actions_def)
      next
        case True
        have "?k \<notin> mk_key ` set (action_marks (derive_actions s))"
        proof
          assume "?k \<in> mk_key ` set (action_marks (derive_actions s))"
          then obtain m where m: "m \<in> set (action_marks (derive_actions s))" "?k = mk_key m" by blast
          from s m(1) show False
          proof (cases rule: mark_cases)
            case (create y)
            with m(2) Some show False by simp
          next
            case (update y h)
            have "si_feature (dr_input y) = si_feature (dr_input x)" using update(2) m(2) by simp
            moreover have "distinct (List.map (\<lambda>x. si_feature (dr_input x)) (ss_desired s))" by (rule desired_distinct [OF s keys])
            ultimately have "y = x" using x update(1) by (auto simp: distinct_map inj_on_def)
            with update Some True show False by simp
          next
            case (disable h)
            then have "key_of h = license_key (ss_input s) (g_feature h)" using license_grant_key unfolding rows set_managed by blast
            moreover have "si_feature (dr_input x) \<in> desired_features (ss_desired s)" using x by (simp add: desired_features_def)
            ultimately show False using disable m(2) by simp
          qed
        qed
        moreover have "find_grant (pd_core d) ?k = Some g" using own [of g] gr license_grant_key [OF lg] by simp
        ultimately show ?thesis using True lg other by (auto simp: license_grant_def)
      qed
    qed
  qed
  show "g_status g = ''disabled'' \<or> g_status g = ''revoked''"
    if g: "find_grant c' (key_of g) = Some g" and l: "license_grant (ss_input s) d g \<or> find_grant (pd_core d) (key_of g) \<noteq> Some g"
      and k: "key_of g = license_key (ss_input s) (g_feature g)" and f: "g_feature g \<notin> desired_features (ss_desired s)" for g
  proof (cases "key_of g \<in> mk_key ` set (action_marks (derive_actions s))")
    case True
    then obtain m where m: "m \<in> set (action_marks (derive_actions s))" "key_of g = mk_key m" by blast
    from s m(1) show ?thesis
    proof (cases rule: mark_cases)
      case (create y)
      with m(2) k f show ?thesis by (auto simp: desired_features_def)
    next
      case (update y h)
      with m(2) k f show ?thesis by (auto simp: desired_features_def)
    next
      case (disable h)
      obtain g' where "find_grant c' (mk_key m) = Some g'" "mk_expected m g'" using sat [OF m(1)] by blast
      with g m(2) disable show ?thesis by (simp add: disable_mark_def)
    qed
  next
    case False
    then have "find_grant (pd_core d) (key_of g) = Some g" using g other by simp
    with l have r: "g \<in> set (ss_rows s)" unfolding rows set_managed by simp
    show ?thesis
    proof (rule ccontr)
      assume n: "\<not> ?thesis"
      then have "g \<in> set (derive_disabled (ss_desired s) (ss_rows s))" using r f by (simp add: derive_disabled_def)
      then have "disable_mark g \<in> set (action_marks (derive_actions s))" by (auto simp: action_marks_def derive_actions_def)
      then have "mk_key (disable_mark g) \<in> mk_key ` set (action_marks (derive_actions s))" by (rule imageI)
      with False show False by (simp add: disable_mark_def)
    qed
  qed
qed


text \<open>An applied preview, the snapshot it was derived from, and the database its statements left.\<close>

lemma applied_snapshot:
  assumes "plan_history drawn (d # ds)" and "x \<in> set (d # ds)" and "token \<notin> drawn" and "catalog_keys d"
    and "apply_plan_projection pid token ctx scope now x d = (Inr resp, d')"
  obtains p v n s z c where "p \<in> set (pd_previews d)" "sp_id p = pid" "sp_actions p = derive_actions s"
    "z \<in> set (d # ds)" "build_projection_snapshot v n z = Inr s" "catalog_keys z" "db_grants (pd_core z) = db_grants (pd_core d)"
    "pd_features z = pd_features d" "pd_features d' = pd_features d"
    "pj_blocked (classify_plan_projection (ss_input s) (ss_desired s) (ss_rows s)) = []"
    "written_marks ctx (action_marks (derive_actions s)) (pd_core d) c"
    "pd_core d' = c\<lparr>db_generation := db_generation c + 1\<rparr>"
proof -
  have ok: "history_ok drawn (d # ds)" using history_invariant [OF assms(1)] by simp
  note okD = history_okD [OF ok, unfolded list.sel]
  have "untouched token d" using okD(2) assms(3) unfolding untouched_def by blast
  from assms(5) this okD(1) obtain p preview actions where st: "stored_preview_of pid x = Inr (preview, actions)"
    and nb: "pj_blocked (pr_projection preview) = []" and p: "p \<in> set (pd_previews d)"
    and cl: "claimable pid (ac_subject (mc_actor ctx)) now d p" and ap: "preview_applied token ctx scope now actions p resp d d'"
    by (cases rule: apply_cases) auto
  have pid: "sp_id p = pid" using cl by (simp add: claimable_def)
  obtain q where q: "q \<in> set (pd_previews x)" "sp_id q = pid" "sp_response q = preview" "sp_actions q = actions"
    using st by (auto simp: stored_preview_of_def dest!: find_SomeD split: option.splits if_splits)
  have "same_preview q p" using okD(5) [OF assms(2) q(1) p] q(2) pid by simp
  then have act: "sp_actions p = actions" "sp_response p = preview" using q by (simp_all add: same_preview_def)
  obtain z v n s where z: "z \<in> set (d # ds)" and s: "build_projection_snapshot v n z = Inr s" and sa: "sp_actions p = derive_actions s"
    and sr: "sp_response p = preview_of s (sp_id p) n (n + preview_ttl)" and sg: "sp_source_generation p = db_generation (pd_core z)"
    using okD(3) [OF p] unfolding previewed_def by blast
  have "db_generation (pd_core z) = db_generation (pd_core d)" using cl sg by (simp add: claimable_def)
  then have "sources z = sources d" using okD(7) [OF z] by blast
  then have src: "db_grants (pd_core z) = db_grants (pd_core d)" "pd_features z = pd_features d" "catalog_keys z"
    using assms(4) by (auto simp: sources_def catalog_keys_def)
  from ap obtain c where c: "written_marks ctx (action_marks (derive_actions s)) (pd_core d) c"
    "pd_core d' = c\<lparr>db_generation := db_generation c + 1\<rparr>" "pd_features d' = pd_features d"
    unfolding preview_applied_def same_catalog_def act(1) [symmetric] sa by blast
  have "pj_blocked (classify_plan_projection (ss_input s) (ss_desired s) (ss_rows s)) = []"
    using nb sr act by (simp add: preview_of_def)
  with that [OF p pid sa z s src(3,1,2) c(3) _ c(1,2)] show thesis by blast
qed

lemma same_grants: "db_grants c = db_grants c' \<Longrightarrow> find_grant c = find_grant c'"
  by (simp add: find_grant_def fun_eq_iff)

lemma managed_found:
  assumes "distinct (List.map key_of (db_grants (pd_core d)))" and "g \<in> set (managed_entitlements input d)"
  shows "find_grant (pd_core d) (key_of g) = Some g" "key_of g = license_key input (g_feature g)"
proof -
  have l: "license_grant input d g" using assms(2) by (simp add: set_managed)
  then show "key_of g = license_key input (g_feature g)" by (rule license_grant_key)
  show "find_grant (pd_core d) (key_of g) = Some g"
    using l find_grant_distinct [OF assms(1), of "key_of g" g] by (simp add: license_grant_def)
qed

text \<open>A projection onto a database in which the plan is reached has nothing to do.\<close>

lemma reached_quiet:
  assumes s: "build_projection_snapshot v n z = Inr s" and features: "pd_features d' = pd_features z"
    and dis: "distinct (List.map key_of (db_grants (pd_core d')))"
    and desired: "\<And>y. y \<in> set (ss_desired s) \<Longrightarrow>
      \<exists>g. find_grant (pd_core d') (license_key (ss_input s) (si_feature (dr_input y))) = Some g
        \<and> plan_projection_matches_desired g y \<and> g_license_id g = Some (pi_license_id (ss_input s))"
    and others: "\<And>g. g \<in> set (managed_entitlements (ss_input s) d') \<Longrightarrow> g_feature g \<notin> desired_features (ss_desired s) \<Longrightarrow>
      g_status g = ''disabled'' \<or> g_status g = ''revoked''"
  shows "action_count (derive_actions (s\<lparr>ss_rows := managed_entitlements (ss_input s) d'\<rparr>)) = 0"
proof -
  let ?rows = "managed_entitlements (ss_input s) d'"
  have there: "\<exists>g. row_of g_feature ?rows (si_feature (dr_input y)) = Some g \<and> plan_projection_matches_desired g y"
    if y: "y \<in> set (ss_desired s)" for y
  proof -
    obtain g where g: "find_grant (pd_core d') (license_key (ss_input s) (si_feature (dr_input y))) = Some g"
      "plan_projection_matches_desired g y" "g_license_id g = Some (pi_license_id (ss_input s))" using desired [OF y] by blast
    have gk: "g \<in> set (db_grants (pd_core d'))" "key_of g = license_key (ss_input s) (si_feature (dr_input y))"
      using g(1) find_grant_distinct [OF dis] by blast+
    then have "license_grant (ss_input s) d' g"
      using g(3) snapshot_desired_row(5) [OF s y] features by (auto simp: license_grant_def key_of_def license_key_def)
    then have "g \<in> set ?rows" by (simp add: set_managed)
    moreover have "g_feature g = si_feature (dr_input y)" using gk(2) by (simp add: key_of_def license_key_def)
    ultimately have "row_of g_feature ?rows (si_feature (dr_input y)) \<noteq> None" by (metis imageI row_of_None)
    then obtain h where h: "row_of g_feature ?rows (si_feature (dr_input y)) = Some h" by blast
    have hr: "h \<in> set ?rows" "g_feature h = si_feature (dr_input y)" using row_of_distinct [OF h] by auto
    have "Some h = Some g"
      using managed_found(1) [OF dis hr(1)] g(1) unfolding managed_found(2) [OF dis hr(1)] hr(2) by simp
    then show ?thesis using h g(2) by simp
  qed
  have "derive_created (ss_desired s) ?rows = []"
    unfolding derive_created_def using there by (auto simp: filter_empty_conv)
  moreover have "derive_updated (ss_desired s) ?rows = []"
    unfolding derive_updated_def by (auto dest!: there)
  moreover have "derive_disabled (ss_desired s) ?rows = []"
    unfolding derive_disabled_def using others by (auto simp: filter_empty_conv)
  ultimately show ?thesis by (simp add: action_count_def derive_actions_def)
qed

text \<open>No action touches a revoked grant.\<close>

lemma marks_not_revoked:
  assumes s: "build_projection_snapshot v n z = Inr s" and keys: "catalog_keys z"
    and grants: "distinct (List.map key_of (db_grants (pd_core z)))" and same: "find_grant c = find_grant (pd_core z)"
    and marks: "written_marks ctx (action_marks (derive_actions s)) c c'"
    and m: "m \<in> set (action_marks (derive_actions s))" and g: "find_grant c (mk_key m) = Some g"
  shows "g_status g \<noteq> ''revoked''"
proof -
  have rows: "ss_rows s = managed_entitlements (ss_input s) z" using s by (rule snapshot_desired)
  have row: "h = g" if "h \<in> set (ss_rows s)" "key_of h = mk_key m" for h
    using managed_found(1) [OF grants, of h "ss_input s"] that g unfolding rows same by simp
  from s m show ?thesis
  proof (cases rule: mark_cases)
    case (create y)
    have "find_grant c (mk_key m) = None \<longleftrightarrow> mk_fresh m"
      using written_marks_find [OF marks marks_distinct [OF s keys grants]] m by blast
    with create g show ?thesis by (simp add: desired_mark_def)
  next
    case (update y h)
    have hr: "h \<in> set (ss_rows s)" "g_feature h = si_feature (dr_input y)" using row_of_distinct [OF update(3)] by auto
    then have "key_of h = mk_key m" using update(2) managed_found(2) [OF grants] unfolding rows by metis
    with row hr update(4) show ?thesis by blast
  next
    case (disable h)
    with row show ?thesis by auto
  qed
qed

lemma apply_converges:
  assumes "plan_history drawn (d # ds)" and "x \<in> set (d # ds)" and "token \<notin> drawn"
    and "catalog_keys d" and "distinct (List.map key_of (db_grants (pd_core d)))"
    and "apply_plan_projection pid token ctx scope now x d = (Inr resp, d')"
  shows "\<exists>p\<in>set (pd_previews d). \<exists>z\<in>set (d # ds). \<exists>v n s. sp_id p = pid \<and> sp_actions p = derive_actions s
    \<and> build_projection_snapshot v n z = Inr s
    \<and> action_count (derive_actions (s\<lparr>ss_rows := managed_entitlements (ss_input s) d'\<rparr>)) = 0
    \<and> progress (pd_core d) (pd_core d')"
proof -
  obtain p v n s z c where p: "p \<in> set (pd_previews d)" "sp_id p = pid" "sp_actions p = derive_actions s"
    and z: "z \<in> set (d # ds)" and s: "build_projection_snapshot v n z = Inr s" and kz: "catalog_keys z"
    and src: "db_grants (pd_core z) = db_grants (pd_core d)" "pd_features z = pd_features d" "pd_features d' = pd_features d"
    and blocked: "pj_blocked (classify_plan_projection (ss_input s) (ss_desired s) (ss_rows s)) = []"
    and marks: "written_marks ctx (action_marks (derive_actions s)) (pd_core d) c"
    and d': "pd_core d' = c\<lparr>db_generation := db_generation c + 1\<rparr>"
    using assms(1-4,6) by (rule applied_snapshot)
  have gz: "distinct (List.map key_of (db_grants (pd_core z)))" using assms(5) src by simp
  note find = same_grants [OF src(1) [symmetric]]
  note reach = marks_reach [OF s kz gz blocked find marks]
  have fd: "find_grant (pd_core d') = find_grant c" by (simp add: d')
  have dis: "distinct (List.map key_of (db_grants (pd_core d')))" using written_marks_events [OF marks] assms(5) by (simp add: d')
  have "action_count (derive_actions (s\<lparr>ss_rows := managed_entitlements (ss_input s) d'\<rparr>)) = 0"
  proof (rule reached_quiet [OF s _ dis])
    fix g
    assume g: "g \<in> set (managed_entitlements (ss_input s) d')" "g_feature g \<notin> desired_features (ss_desired s)"
    have "license_grant (ss_input s) z g \<or> find_grant (pd_core z) (key_of g) \<noteq> Some g"
      using g(1) src find_grant_distinct [OF gz, of "key_of g" g] by (auto simp: set_managed license_grant_def)
    with reach(2) [of g] g(2) managed_found [OF dis g(1)] show "g_status g = ''disabled'' \<or> g_status g = ''revoked''" by (simp add: fd)
  qed (use src reach(1) fd in simp_all)
  moreover have "progress (pd_core d) c"
    using written_marks_progress [OF marks marks_distinct [OF s kz gz]] marks_not_revoked [OF s kz gz find marks] by blast
  moreover have "progress c (pd_core d')" unfolding d' by (rule progress_idle) (simp add: idle_def)
  ultimately show ?thesis using p z s progress_trans by blast
qed

text \<open>C5. A successful apply reaches the plan its preview was made from: in the database it leaves, a
  projection of the same request has nothing to create, to update or to disable. It also keeps the guarantee of every grant
  mutation: sequences grow, revocation is final and each grant is what its latest event recorded.\<close>

theorem apply_plan_projection_converges:
  assumes "plan_history drawn (d # ds)" and "x \<in> set (d # ds)" and "token \<notin> drawn"
    and "catalog_keys d" and "distinct (List.map key_of (db_grants (pd_core d)))"
    and "apply_plan_projection pid token ctx scope now x d = (Inr resp, d')"
  shows "\<exists>p\<in>set (pd_previews d). \<exists>z\<in>set (d # ds). \<exists>v n s. sp_id p = pid \<and> sp_actions p = derive_actions s
    \<and> build_projection_snapshot v n z = Inr s
    \<and> action_count (derive_actions (s\<lparr>ss_rows := managed_entitlements (ss_input s) d'\<rparr>)) = 0
    \<and> progress (pd_core d) (pd_core d')"
  by (rule apply_converges [OF assms])

section \<open>A concrete run\<close>

definition example_catalog :: plan_db where
  "example_catalog = \<lparr>pd_core = empty_db,
     pd_plans = [\<lparr>cp_id = ''plan'', cp_project = ''demo'', cp_key = ''pro'', cp_status = ''active'', cp_version = 1\<rparr>],
     pd_features = [\<lparr>cf_project = ''demo'', cf_key = ''base'', cf_name = ''Base'', cf_status = ''active''\<rparr>],
     pd_plan_features = [\<lparr>pf_project = ''demo'', pf_plan_id = ''plan'', pf_feature_key = ''base'', pf_inclusion = ''included'',
       pf_addon_key = None, pf_policy_id = None, pf_status = ''active'', pf_display_order = 0, pf_max_active_devices = Some 2\<rparr>],
     pd_policies = [], pd_assignments = [], pd_assignment_events = [], pd_previews = [], pd_idempotency = (\<lambda>_. None)\<rparr>"

definition projection_ctx :: mutation_context where
  "projection_ctx = \<lparr>mc_actor = \<lparr>ac_subject = ''root'', ac_email = [], ac_type = ''access''\<rparr>, mc_request_id = ''r1'',
     mc_ip = [], mc_source = ''admin'', mc_idempotency_key = Some ''k'', mc_expected = None\<rparr>"

definition example_attempt :: "preview_response option outcome \<times> plan_db" where
  "example_attempt = preview_attempt projection_body ''root'' ''ppv_1'' 1000 example_catalog example_catalog"

definition example_apply :: "applied_response outcome \<times> plan_db" where
  "example_apply = apply_plan_projection ''ppv_1'' ''token'' projection_ctx (Some ''scope'') 1010 (snd example_attempt) (snd example_attempt)"

lemma example_history: "plan_history {''ppv_1''} [snd example_attempt, example_catalog]"
proof (rule plan_history.preview)
  show "plan_history {} [example_catalog]" by (rule plan_history.start) (simp add: example_catalog_def)
  show "preview_attempt projection_body ''root'' ''ppv_1'' 1000 example_catalog example_catalog
      = (fst example_attempt, snd example_attempt)" by (simp add: example_attempt_def)
qed simp_all

lemma example_apply_succeeds: "\<not> isl (fst example_apply)"
  by code_simp

lemma example_apply_run:
  obtains resp where "apply_plan_projection ''ppv_1'' ''token'' projection_ctx (Some ''scope'') 1010 (snd example_attempt) (snd example_attempt)
    = (Inr resp, snd example_apply)"
proof -
  obtain resp where "fst example_apply = Inr resp" using example_apply_succeeds by (cases "fst example_apply") auto
  then have "example_apply = (Inr resp, snd example_apply)" by (metis prod.collapse)
  with that show thesis unfolding example_apply_def by metis
qed

lemma example_preview_fresh: "list_all (\<lambda>p. sp_claim_token p \<noteq> Some ''token'') (pd_previews (snd example_attempt))"
  by code_simp

lemma example_keys: "catalog_keys (snd example_attempt)" "distinct (List.map key_of (db_grants (pd_core (snd example_attempt))))"
    "distinct (List.map sp_id (pd_previews (snd example_attempt)))"
  unfolding catalog_keys_def by code_simp+

theorem apply_plan_projection_atomic_witness:
  "\<exists>resp p actions. p \<in> set (pd_previews (snd example_attempt)) \<and> claimable ''ppv_1'' ''root'' 1010 (snd example_attempt) p
     \<and> preview_applied ''token'' projection_ctx (Some ''scope'') 1010 actions p resp (snd example_attempt) (snd example_apply)"
proof -
  obtain resp where r: "apply_plan_projection ''ppv_1'' ''token'' projection_ctx (Some ''scope'') 1010 (snd example_attempt) (snd example_attempt)
    = (Inr resp, snd example_apply)" by (rule example_apply_run)
  have f: "\<forall>p\<in>set (pd_previews (snd example_attempt)). sp_claim_token p \<noteq> Some ''token''"
    using example_preview_fresh by (simp add: list_all_iff)
  show ?thesis
    using apply_plan_projection_atomic [OF r f example_keys(3)] by (auto simp: projection_ctx_def)
qed

theorem applied_preview_is_spent_witness:
  "\<exists>e. apply_plan_projection ''ppv_1'' ''token2'' projection_ctx (Some ''scope'') 1020 (snd example_attempt) (snd example_apply)
     = (Inl e, snd example_apply)"
proof -
  obtain resp where r: "apply_plan_projection ''ppv_1'' ''token'' projection_ctx (Some ''scope'') 1010 (snd example_attempt) (snd example_attempt)
    = (Inr resp, snd example_apply)" by (rule example_apply_run)
  have f: "\<forall>p\<in>set (pd_previews (snd example_attempt)). sp_claim_token p \<noteq> Some ''token''"
    using example_preview_fresh by (simp add: list_all_iff)
  have h: "plan_history (insert ''token'' {''ppv_1''}) ([] @ snd example_apply # snd example_attempt # [example_catalog])"
    using plan_history.applied [OF example_history _ _ r] by simp
  show ?thesis
    using applied_preview_is_spent [OF h _ r f, of "''token2''" "snd example_attempt" projection_ctx "Some ''scope''" 1020] by simp
qed

theorem apply_plan_projection_converges_witness:
  "\<exists>s v n z. build_projection_snapshot v n z = Inr s
     \<and> action_count (derive_actions (s\<lparr>ss_rows := managed_entitlements (ss_input s) (snd example_apply)\<rparr>)) = 0
     \<and> progress (pd_core (snd example_attempt)) (pd_core (snd example_apply))"
proof -
  obtain resp where r: "apply_plan_projection ''ppv_1'' ''token'' projection_ctx (Some ''scope'') 1010 (snd example_attempt) (snd example_attempt)
    = (Inr resp, snd example_apply)" by (rule example_apply_run)
  show ?thesis
    using apply_plan_projection_converges [OF example_history _ _ example_keys(1,2) r, simplified] by blast
qed

end
