(* ===== verification/Order_Event.thy ===== *)
theory Order_Event
  imports Admin_Checks Plan_Projection
begin

text \<open>
  Order events (\<open>services/cloudflare-licensing-backend/src/fulfillment\<close>): the reader of a parsed
  request body (\<open>order_event.mjs\<close>) over the closed set of intents
  (\<open>packages/licensing-domain/src/orders/intents.mjs\<close>), and the mutation an order asks for
  (\<open>order_mutation.mjs\<close>). The SHA-256 digest is a parameter.
\<close>

section \<open>Intents\<close>

definition order_intents :: "string list" where
  "order_intents = [''subscription.active'', ''subscription.renewed'', ''subscription.past_due'',
     ''subscription.paused'', ''subscription.payment_failed'', ''subscription.canceled_at_period_end'',
     ''subscription.resumed'', ''quantity.changed'', ''fraud.confirmed'', ''chargeback'']"

definition disable_intents :: "string list" where
  "disable_intents = [''subscription.past_due'', ''subscription.paused'', ''subscription.payment_failed'']"

definition revoke_intents :: "string list" where
  "revoke_intents = [''fraud.confirmed'', ''chargeback'']"

definition withdrawal_intents :: "string list" where
  "withdrawal_intents = ''subscription.canceled_at_period_end'' # disable_intents @ revoke_intents"

section \<open>Readers\<close>

definition max_id_size :: nat where
  "max_id_size = 255"

definition grace_seconds :: int where
  "grace_seconds = 86400"

definition order_fields :: "string list" where
  "order_fields = [''event_id'', ''subscription_id'', ''project'', ''feature'', ''intent'', ''seq'', ''order_epoch'',
     ''license_fingerprint'', ''current_period_end'', ''occurred_at'', ''license_id'', ''quantity'', ''customer'']"

definition quantity_fields :: "string list" where
  "quantity_fields = [''max_active_devices'']"

definition customer_fields :: "string list" where
  "customer_fields = [''id'', ''external_ref'', ''name'', ''email'']"

definition order_text :: "jsval \<Rightarrow> nat \<Rightarrow> string option" where
  "order_text v n = (case v of
     String s \<Rightarrow> if s = [] \<or> n < length s then None
       else if text_breaks s \<or> CHR ''='' \<in> set s then None else Some s
   | _ \<Rightarrow> None)"

definition safe_unix_seconds :: "jsval \<Rightarrow> int option" where
  "safe_unix_seconds v = (case v of
     Number (Whole n) \<Rightarrow> if n < 0 \<or> int max_safe_integer < n then None else Some n
   | _ \<Rightarrow> None)"

definition is_non_negative_integer :: "jsval \<Rightarrow> bool" where
  "is_non_negative_integer v \<longleftrightarrow> (case v of
     Number (Whole n) \<Rightarrow> 0 \<le> n \<and> n \<le> int max_safe_integer
   | _ \<Rightarrow> False)"

definition safe_count_of :: "jsval \<Rightarrow> int option" where
  "safe_count_of v = (case v of Number (Whole n) \<Rightarrow> if is_non_negative_integer v then Some n else None | _ \<Rightarrow> None)"

definition safe_hex64 :: "jsval \<Rightarrow> string option" where
  "safe_hex64 v = (case v of
     String s \<Rightarrow> if length s = 64 \<and> list_all lower_hex s then Some s else None
   | _ \<Rightarrow> None)"

definition bounded_text :: "jsval \<Rightarrow> string option" where
  "bounded_text v = (case v of String s \<Rightarrow> if max_id_size < length s then None else Some s | _ \<Rightarrow> None)"

text \<open>A field that may be missing or null; what is there has to be readable.\<close>

definition order_optional :: "jsval \<Rightarrow> (jsval \<Rightarrow> 'a option) \<Rightarrow> 'a option option" where
  "order_optional v r = (if v = Undefined \<or> v = Null then Some None else map_option Some (r v))"

section \<open>Orders\<close>

record order_customer =
  cu_id :: string
  cu_external_ref :: "string option"
  cu_name :: "string option"
  cu_email :: "string option"

record order =
  or_event_id :: string
  or_subscription_id :: string
  or_epoch :: int
  or_seq :: int
  or_intent :: string
  or_project :: string
  or_feature :: string
  or_fingerprint :: "string option"
  or_period_end :: "int option"
  or_quantity :: "int option"
  or_customer :: order_customer
  or_license_id :: "string option"
  or_occurred_at :: "int option"

definition plain_object :: "jsval \<Rightarrow> string list \<Rightarrow> bool" where
  "plain_object v allowed \<longleftrightarrow> is_object v \<and> \<not> is_array v \<and> names_only v allowed"

definition read_quantity :: "jsval \<Rightarrow> int option" where
  "read_quantity q = (if \<not> plain_object q quantity_fields then None else safe_count_of (field ''max_active_devices'' q))"

definition read_customer :: "jsval \<Rightarrow> order_customer option" where
  "read_customer c =
     (if \<not> plain_object c customer_fields then None
      else obind (order_text (field ''id'' c) max_id_size) (\<lambda>id.
           obind (order_optional (field ''external_ref'' c) (\<lambda>v. order_text v max_id_size)) (\<lambda>ref.
           obind (order_optional (field ''name'' c) bounded_text) (\<lambda>name.
           obind (order_optional (field ''email'' c) bounded_text) (\<lambda>email.
             Some \<lparr>cu_id = id, cu_external_ref = ref, cu_name = name, cu_email = email\<rparr>)))))"

definition order_period_is_acceptable :: "string \<Rightarrow> int option \<Rightarrow> int \<Rightarrow> bool" where
  "order_period_is_acceptable intent period_end now \<longleftrightarrow>
     safe_unix_seconds (Number (Whole now)) \<noteq> None
     \<and> \<not> (case period_end of None \<Rightarrow> False
         | Some t \<Rightarrow> intent \<notin> set withdrawal_intents \<and> t \<le> now - grace_seconds)"

text \<open>\<open>None\<close> is the code's \<open>{ error: "invalid_order" }\<close>, the only error there is.\<close>

definition normalize_order_event_internal :: "jsval \<Rightarrow> int \<Rightarrow> bool \<Rightarrow> order option" where
  "normalize_order_event_internal v now enforce =
     (if \<not> plain_object v order_fields then None
      else if safe_unix_seconds (Number (Whole now)) = None then None
      else obind (order_text (field ''event_id'' v) max_id_size) (\<lambda>event_id.
           obind (order_text (field ''subscription_id'' v) max_id_size) (\<lambda>subscription_id.
           obind (order_text (field ''project'' v) max_project_size) (\<lambda>project.
           obind (if field ''feature'' v = Undefined \<or> field ''feature'' v = Null
                  then (if length project \<le> max_feature_size then Some project else None)
                  else order_text (field ''feature'' v) max_feature_size) (\<lambda>feature.
           obind (case field ''intent'' v of String s \<Rightarrow> if s \<in> set order_intents then Some s else None | _ \<Rightarrow> None) (\<lambda>intent.
           obind (safe_count_of (field ''seq'' v)) (\<lambda>seq.
           obind (if field ''order_epoch'' v = Undefined \<or> field ''order_epoch'' v = Null then Some 0
                  else safe_count_of (field ''order_epoch'' v)) (\<lambda>epoch.
           obind (order_optional (field ''license_fingerprint'' v) safe_hex64) (\<lambda>fingerprint.
           obind (order_optional (field ''current_period_end'' v) safe_unix_seconds) (\<lambda>period_end.
           obind (order_optional (field ''occurred_at'' v) safe_unix_seconds) (\<lambda>occurred_at.
           obind (order_optional (field ''license_id'' v) (\<lambda>x. order_text x max_id_size)) (\<lambda>license_id.
           obind (order_optional (field ''quantity'' v) read_quantity) (\<lambda>quantity.
           if intent = ''quantity.changed'' \<and> quantity = None then None
           else obind (read_customer (field ''customer'' v)) (\<lambda>customer.
             if enforce \<and> \<not> order_period_is_acceptable intent period_end now then None
             else Some \<lparr>or_event_id = event_id, or_subscription_id = subscription_id, or_epoch = epoch, or_seq = seq,
               or_intent = intent, or_project = project, or_feature = feature, or_fingerprint = fingerprint,
               or_period_end = period_end, or_quantity = quantity, or_customer = customer,
               or_license_id = license_id, or_occurred_at = occurred_at\<rparr>))))))))))))))"

definition normalize_order_event :: "jsval \<Rightarrow> int \<Rightarrow> order option" where
  "normalize_order_event v now = normalize_order_event_internal v now True"

definition normalize_order_event_for_replay :: "jsval \<Rightarrow> int \<Rightarrow> order option" where
  "normalize_order_event_for_replay v now = normalize_order_event_internal v now False"

text \<open>\<open>sha\<close> is the digest of a text, in hexadecimal; the origin tells where the fingerprint is from.\<close>

definition derive_fingerprint :: "(string \<Rightarrow> string) \<Rightarrow> order \<Rightarrow> string \<times> string" where
  "derive_fingerprint sha o' = (case or_fingerprint o' of
     Some s \<Rightarrow> (s, ''supplied'')
   | None \<Rightarrow> (sha (or_subscription_id o' @ '':'' @ or_project o' @ '':'' @ or_feature o'), ''derived''))"

section \<open>The mutation an order asks for\<close>

definition clamp_valid_until :: "int option \<Rightarrow> int option \<Rightarrow> int" where
  "clamp_valid_until period_end prev_until =
     (let a = or_else period_end 0; b = or_else prev_until 0 in if b \<le> a then a else b)"

datatype mutation_kind = CreateKind | PatchKind | TransitionKind | CapacityKind | NoneKind

text \<open>A field the code leaves out is \<open>None\<close>; the null of an open end is \<open>Some None\<close>, and a
  capacity without a device limit is \<open>Some None\<close>.\<close>

record descriptor =
  de_kind :: mutation_kind
  de_status :: "string option"
  de_valid_until :: "int option option"
  de_valid_from :: "int option"
  de_capacity :: "int option option"
  de_event_type :: "string option"
  de_terminal :: "string option"
  de_keep_owner :: bool

definition no_mutation :: descriptor where
  "no_mutation = \<lparr>de_kind = NoneKind, de_status = None, de_valid_until = None, de_valid_from = None,
     de_capacity = None, de_event_type = None, de_terminal = None, de_keep_owner = False\<rparr>"

definition with_window :: "int \<Rightarrow> grant option \<Rightarrow> descriptor \<Rightarrow> descriptor" where
  "with_window clamped prev m =
     (if 0 < clamped
      then let from = or_else (obind prev g_valid_from) 0; m' = m\<lparr>de_valid_until := Some (Some clamped)\<rparr> in
        if from < clamped then m'\<lparr>de_valid_from := Some from\<rparr> else m'
      else m\<lparr>de_valid_until := Some None\<rparr>)"

definition map_intent_to_mutation :: "order \<Rightarrow> grant option \<Rightarrow> descriptor" where
  "map_intent_to_mutation o' prev =
     (let intent = or_intent o'; revoked = (case prev of None \<Rightarrow> False | Some g \<Rightarrow> g_status g = ''revoked'');
          missing = no_mutation\<lparr>de_terminal := Some ''no_entitlement''\<rparr> in
      if revoked \<and> intent \<notin> set revoke_intents then no_mutation\<lparr>de_terminal := Some ''revoked''\<rparr>
      else let window = with_window (clamp_valid_until (or_period_end o') (obind prev g_valid_until)) prev in
        if intent = ''subscription.active''
        then window (no_mutation\<lparr>de_kind := CreateKind, de_status := Some ''active'', de_event_type := Some ''create''\<rparr>)
        else if intent = ''subscription.renewed''
        then (if prev = None then missing
              else window (no_mutation\<lparr>de_kind := PatchKind, de_status := Some ''active'', de_event_type := Some ''update''\<rparr>))
        else if intent = ''subscription.canceled_at_period_end''
        then (if prev = None then missing
              else window (no_mutation\<lparr>de_kind := PatchKind, de_status := Some ''active'', de_event_type := Some ''update'',
                de_keep_owner := True\<rparr>))
        else if intent = ''subscription.resumed''
        then (if prev = None then missing
              else no_mutation\<lparr>de_kind := TransitionKind, de_status := Some ''active'', de_event_type := Some ''reenable''\<rparr>)
        else if intent = ''quantity.changed''
        then (if prev = None then missing
              else no_mutation\<lparr>de_kind := CapacityKind, de_capacity := Some (or_quantity o'), de_event_type := Some ''update''\<rparr>)
        else if intent \<in> set disable_intents
        then (if prev = None then missing
              else no_mutation\<lparr>de_kind := TransitionKind, de_status := Some ''disabled'', de_event_type := Some ''disable''\<rparr>)
        else if intent \<in> set revoke_intents
        then (if prev = None then missing
              else no_mutation\<lparr>de_kind := TransitionKind, de_status := Some ''revoked'', de_event_type := Some ''revoke'',
                de_terminal := Some ''revoked''\<rparr>)
        else missing)"

section \<open>What the reader accepts\<close>

lemma order_text_Some: "order_text v n = Some s \<longleftrightarrow> v = String s \<and> safe_text n s"
  by (auto simp: order_text_def safe_text_def split: jsval.splits if_splits)

text \<open>The deployables agree on what a safe id is.\<close>

lemma order_text_agrees: "order_text v n = safe_string v n"
  by (rule option.expand) (auto simp: order_text_def safe_string_def split: jsval.splits)

definition safe_count :: "int \<Rightarrow> bool" where
  "safe_count n \<longleftrightarrow> 0 \<le> n \<and> n \<le> int max_safe_integer"

lemma safe_unix_seconds_Some: "safe_unix_seconds v = Some n \<longleftrightarrow> v = Number (Whole n) \<and> safe_count n"
  by (auto simp: safe_unix_seconds_def safe_count_def split: jsval.splits jsnum.splits if_splits)

lemma safe_unix_seconds_now: "safe_unix_seconds (Number (Whole now)) = None \<longleftrightarrow> \<not> safe_count now"
  by (auto simp: safe_unix_seconds_def safe_count_def)

lemma safe_count_of_Some: "safe_count_of v = Some n \<longleftrightarrow> v = Number (Whole n) \<and> safe_count n"
  by (auto simp: safe_count_of_def is_non_negative_integer_def safe_count_def split: jsval.splits jsnum.splits if_splits)

definition fingerprint_text :: "string \<Rightarrow> bool" where
  "fingerprint_text s \<longleftrightarrow> length s = 64 \<and> list_all lower_hex s"

lemma safe_hex64_Some: "safe_hex64 v = Some s \<longleftrightarrow> v = String s \<and> fingerprint_text s"
  by (auto simp: safe_hex64_def fingerprint_text_def split: jsval.splits if_splits)

lemma bounded_text_Some: "bounded_text v = Some s \<longleftrightarrow> v = String s \<and> length s \<le> max_id_size"
  by (auto simp: bounded_text_def split: jsval.splits if_splits)

lemma order_optional_Some:
  "order_optional v r = Some x \<longleftrightarrow>
     (case x of None \<Rightarrow> v = Undefined \<or> v = Null | Some y \<Rightarrow> v \<noteq> Undefined \<and> v \<noteq> Null \<and> r v = Some y)"
  by (cases x) (auto simp: order_optional_def)

lemma known_intent_Some:
  "(case v of String s \<Rightarrow> if s \<in> set order_intents then Some s else None | _ \<Rightarrow> None) = Some i
     \<longleftrightarrow> v = String i \<and> i \<in> set order_intents"
  by (auto split: jsval.splits if_splits)

lemmas order_readers = order_text_Some safe_unix_seconds_Some safe_count_of_Some safe_hex64_Some bounded_text_Some
  known_intent_Some

definition wf_customer :: "order_customer \<Rightarrow> bool" where
  "wf_customer c \<longleftrightarrow> safe_text max_id_size (cu_id c) \<and> pred_option (safe_text max_id_size) (cu_external_ref c)
     \<and> pred_option (\<lambda>s. length s \<le> max_id_size) (cu_name c) \<and> pred_option (\<lambda>s. length s \<le> max_id_size) (cu_email c)"

definition wf_order :: "order \<Rightarrow> bool" where
  "wf_order o' \<longleftrightarrow> safe_text max_id_size (or_event_id o') \<and> safe_text max_id_size (or_subscription_id o')
     \<and> safe_text max_project_size (or_project o') \<and> safe_text max_feature_size (or_feature o')
     \<and> or_intent o' \<in> set order_intents \<and> safe_count (or_seq o') \<and> safe_count (or_epoch o')
     \<and> pred_option fingerprint_text (or_fingerprint o') \<and> pred_option safe_count (or_period_end o')
     \<and> pred_option safe_count (or_quantity o') \<and> (or_intent o' = ''quantity.changed'' \<longrightarrow> or_quantity o' \<noteq> None)
     \<and> wf_customer (or_customer o') \<and> pred_option (safe_text max_id_size) (or_license_id o')
     \<and> pred_option safe_count (or_occurred_at o')"

lemma safe_text_mono: "safe_text n s \<Longrightarrow> length s \<le> m \<Longrightarrow> safe_text m s"
  by (simp add: safe_text_def)

lemma optional_pred:
  assumes "order_optional v r = Some x" and "\<And>y. r v = Some y \<Longrightarrow> P y"
  shows "pred_option P x"
  using assms by (cases x) (auto simp: order_optional_Some)

lemma read_customer_wf:
  assumes "read_customer c = Some cu"
  shows "wf_customer cu"
proof -
  from assms have "plain_object c customer_fields" unfolding read_customer_def by (simp split: if_splits)
  with assms obtain cid ref name email where
    f: "order_text (field ''id'' c) max_id_size = Some cid"
      "order_optional (field ''external_ref'' c) (\<lambda>v. order_text v max_id_size) = Some ref"
      "order_optional (field ''name'' c) bounded_text = Some name" "order_optional (field ''email'' c) bounded_text = Some email"
    and cu: "cu = \<lparr>cu_id = cid, cu_external_ref = ref, cu_name = name, cu_email = email\<rparr>"
    unfolding read_customer_def by (auto simp: obind_Some_iff)
  show ?thesis
    using f(1) optional_pred [OF f(2), of "safe_text max_id_size"] optional_pred [OF f(3), of "\<lambda>s. length s \<le> max_id_size"]
      optional_pred [OF f(4), of "\<lambda>s. length s \<le> max_id_size"]
    by (simp add: wf_customer_def cu order_readers)
qed

lemma read_quantity_Some: "read_quantity q = Some n \<Longrightarrow> safe_count n"
  by (auto simp: read_quantity_def safe_count_of_Some split: if_splits)

lemma normalize_internal_wf:
  assumes "normalize_order_event_internal v now enforce = Some o'"
  shows "wf_order o' \<and> safe_count now \<and> (enforce \<longrightarrow> order_period_is_acceptable (or_intent o') (or_period_end o') now)"
proof -
  from assms have guard: "plain_object v order_fields" "safe_unix_seconds (Number (Whole now)) \<noteq> None"
    unfolding normalize_order_event_internal_def by (simp_all split: if_splits)
  from assms guard obtain eid sid pro fea int sq ep fp pe oc li qu cu where
    f: "order_text (field ''event_id'' v) max_id_size = Some eid" "order_text (field ''subscription_id'' v) max_id_size = Some sid"
      "order_text (field ''project'' v) max_project_size = Some pro"
      "(if field ''feature'' v = Undefined \<or> field ''feature'' v = Null
        then (if length pro \<le> max_feature_size then Some pro else None)
        else order_text (field ''feature'' v) max_feature_size) = Some fea"
      "(case field ''intent'' v of String s \<Rightarrow> if s \<in> set order_intents then Some s else None | _ \<Rightarrow> None) = Some int"
      "safe_count_of (field ''seq'' v) = Some sq"
      "(if field ''order_epoch'' v = Undefined \<or> field ''order_epoch'' v = Null then Some 0
        else safe_count_of (field ''order_epoch'' v)) = Some ep"
      "order_optional (field ''license_fingerprint'' v) safe_hex64 = Some fp"
      "order_optional (field ''current_period_end'' v) safe_unix_seconds = Some pe"
      "order_optional (field ''occurred_at'' v) safe_unix_seconds = Some oc"
      "order_optional (field ''license_id'' v) (\<lambda>x. order_text x max_id_size) = Some li"
      "order_optional (field ''quantity'' v) read_quantity = Some qu"
      "\<not> (int = ''quantity.changed'' \<and> qu = None)"
      "read_customer (field ''customer'' v) = Some cu"
      "\<not> (enforce \<and> \<not> order_period_is_acceptable int pe now)"
    and o': "o' = \<lparr>or_event_id = eid, or_subscription_id = sid, or_epoch = ep, or_seq = sq, or_intent = int,
       or_project = pro, or_feature = fea, or_fingerprint = fp, or_period_end = pe, or_quantity = qu,
       or_customer = cu, or_license_id = li, or_occurred_at = oc\<rparr>"
    unfolding normalize_order_event_internal_def
    by (simp only: not_True_eq_False if_False guarded_bind obind_Some_iff option.inject)
      (elim exE conjE, rule that, (assumption | erule sym)+)
  have "safe_text max_feature_size fea"
    using f(3,4) by (auto simp: order_readers intro: safe_text_mono split: if_splits)
  moreover have "safe_count ep" using f(7) by (auto simp: order_readers safe_count_def split: if_splits)
  moreover have "pred_option fingerprint_text fp" by (rule optional_pred [OF f(8)]) (simp add: order_readers)
  moreover have "pred_option safe_count pe" by (rule optional_pred [OF f(9)]) (simp add: order_readers)
  moreover have "pred_option safe_count oc" by (rule optional_pred [OF f(10)]) (simp add: order_readers)
  moreover have "pred_option (safe_text max_id_size) li" by (rule optional_pred [OF f(11)]) (simp add: order_readers)
  moreover have "pred_option safe_count qu" by (rule optional_pred [OF f(12)]) (rule read_quantity_Some)
  ultimately show ?thesis
    using f(1,2,3,5,6,13,15) read_customer_wf [OF f(14)] guard(2)
    by (simp add: wf_order_def o' order_readers safe_unix_seconds_now)
qed

section \<open>What a body spells\<close>

text \<open>
  The order a request body stands for, field by field in the terms of the order contract: texts of
  one line without a separator, safe whole numbers, lower-case hexadecimal, no field beyond the
  listed ones; a field that is missing or null takes the default of the contract.
\<close>

definition spells_short :: "jsval \<Rightarrow> string \<Rightarrow> bool" where
  "spells_short v s \<longleftrightarrow> v = String s \<and> length s \<le> 255"

definition spells_quantity :: "jsval \<Rightarrow> int \<Rightarrow> bool" where
  "spells_quantity v n \<longleftrightarrow> spells_object {''max_active_devices''} v \<and> spells_count (field ''max_active_devices'' v) n"

definition spells_customer :: "jsval \<Rightarrow> order_customer \<Rightarrow> bool" where
  "spells_customer v c \<longleftrightarrow> spells_object {''id'', ''external_ref'', ''name'', ''email''} v
     \<and> spells_text 255 (field ''id'' v) (cu_id c)
     \<and> spells_optional (spells_text 255) (field ''external_ref'' v) (cu_external_ref c)
     \<and> spells_optional spells_short (field ''name'' v) (cu_name c)
     \<and> spells_optional spells_short (field ''email'' v) (cu_email c)"

definition spells_feature :: "string \<Rightarrow> jsval \<Rightarrow> string \<Rightarrow> bool" where
  "spells_feature project v s \<longleftrightarrow> (if v = Undefined \<or> v = Null then s = project \<and> length project \<le> 15 else spells_text 15 v s)"

definition spells_order :: "jsval \<Rightarrow> order \<Rightarrow> bool" where
  "spells_order v o' \<longleftrightarrow>
     spells_object {''event_id'', ''subscription_id'', ''project'', ''feature'', ''intent'', ''seq'', ''order_epoch'',
       ''license_fingerprint'', ''current_period_end'', ''occurred_at'', ''license_id'', ''quantity'', ''customer''} v
     \<and> spells_text 255 (field ''event_id'' v) (or_event_id o')
     \<and> spells_text 255 (field ''subscription_id'' v) (or_subscription_id o')
     \<and> spells_text 127 (field ''project'' v) (or_project o')
     \<and> spells_feature (or_project o') (field ''feature'' v) (or_feature o')
     \<and> field ''intent'' v = String (or_intent o') \<and> or_intent o' \<in> {''subscription.active'', ''subscription.renewed'',
         ''subscription.past_due'', ''subscription.paused'', ''subscription.payment_failed'',
         ''subscription.canceled_at_period_end'', ''subscription.resumed'', ''quantity.changed'',
         ''fraud.confirmed'', ''chargeback''}
     \<and> spells_count (field ''seq'' v) (or_seq o') \<and> spells_or 0 spells_count (field ''order_epoch'' v) (or_epoch o')
     \<and> spells_optional spells_print (field ''license_fingerprint'' v) (or_fingerprint o')
     \<and> spells_optional spells_count (field ''current_period_end'' v) (or_period_end o')
     \<and> spells_optional spells_count (field ''occurred_at'' v) (or_occurred_at o')
     \<and> spells_optional (spells_text 255) (field ''license_id'' v) (or_license_id o')
     \<and> spells_optional spells_quantity (field ''quantity'' v) (or_quantity o')
     \<and> (or_intent o' = ''quantity.changed'' \<longrightarrow> or_quantity o' \<noteq> None)
     \<and> spells_customer (field ''customer'' v) (or_customer o')"

text \<open>A paid period that ended more than a day before is over, except for an intent that takes the grant back.\<close>

definition period_current :: "order \<Rightarrow> int \<Rightarrow> bool" where
  "period_current o' now \<longleftrightarrow> (case or_period_end o' of None \<Rightarrow> True
     | Some t \<Rightarrow> now - 86400 < t \<or> or_intent o' \<in> {''subscription.canceled_at_period_end'', ''subscription.past_due'',
         ''subscription.paused'', ''subscription.payment_failed'', ''fraud.confirmed'', ''chargeback''})"

lemma spells_count_iff: "spells_count v n \<longleftrightarrow> safe_count_of v = Some n" "spells_count v n \<longleftrightarrow> safe_unix_seconds v = Some n"
  by (simp_all add: spells_count_def safe_count_of_Some safe_unix_seconds_Some safe_count_def max_safe_integer_def)

lemma spells_order_text: "spells_text n v s \<longleftrightarrow> order_text v n = Some s"
  by (simp add: spells_text_iff order_text_agrees)

lemma spells_hex64: "spells_print v s \<longleftrightarrow> safe_hex64 v = Some s"
  by (simp add: spells_print_iff safe_hex64_Some fingerprint_text_def)

lemma spells_short_iff: "spells_short v s \<longleftrightarrow> bounded_text v = Some s"
  by (auto simp: spells_short_def bounded_text_def max_id_size_def split: jsval.splits)

lemma spells_optional_iff:
  assumes "\<And>y. spells v y \<longleftrightarrow> r v = Some y" and "\<And>y. spells Undefined y \<longleftrightarrow> False" "\<And>y. spells Null y \<longleftrightarrow> False"
  shows "spells_optional spells v x \<longleftrightarrow> order_optional v r = Some x"
  using assms by (cases x) (auto simp: spells_optional_def order_optional_def)

lemma spells_plain: "spells_object (set ns) v \<longleftrightarrow> plain_object v ns"
  by (simp add: spells_object_iff plain_object_def)

lemma spells_objects:
  "spells_object {''max_active_devices''} v \<longleftrightarrow> plain_object v quantity_fields"
  "spells_object {''id'', ''external_ref'', ''name'', ''email''} v \<longleftrightarrow> plain_object v customer_fields"
  unfolding spells_plain [symmetric] quantity_fields_def customer_fields_def by simp_all

lemma spells_quantity_iff: "spells_quantity v n \<longleftrightarrow> read_quantity v = Some n"
  by (simp add: spells_quantity_def spells_objects read_quantity_def spells_count_iff)

lemma spells_absent:
  "\<not> spells_text n Undefined s" "\<not> spells_text n Null s" "\<not> spells_count Undefined i" "\<not> spells_count Null i"
  "\<not> spells_short Undefined s" "\<not> spells_short Null s" "\<not> spells_print Undefined s" "\<not> spells_print Null s"
  "\<not> spells_quantity Undefined i" "\<not> spells_quantity Null i"
  by (simp_all add: spells_text_def spells_count_def spells_short_def spells_print_def spells_quantity_def spells_object_def)

lemma spells_optionals:
  "spells_optional (spells_text n) v s \<longleftrightarrow> order_optional v (\<lambda>v. order_text v n) = Some s"
  "spells_optional spells_short v s \<longleftrightarrow> order_optional v bounded_text = Some s"
  "spells_optional spells_print v s \<longleftrightarrow> order_optional v safe_hex64 = Some s"
  "spells_optional spells_count v i \<longleftrightarrow> order_optional v safe_unix_seconds = Some i"
  "spells_optional spells_quantity v i \<longleftrightarrow> order_optional v read_quantity = Some i"
  by (rule spells_optional_iff; simp only: spells_absent spells_order_text [symmetric] spells_short_iff [symmetric]
      spells_hex64 [symmetric] spells_count_iff(2) [symmetric] spells_quantity_iff [symmetric])+

lemma spells_customer_iff: "spells_customer v c \<longleftrightarrow> read_customer v = Some c"
  by (cases c) (simp add: spells_customer_def spells_objects spells_order_text spells_optionals read_customer_def
      guarded_bind obind_Some_iff max_id_size_def)

lemma normalize_internal_iff:
  "normalize_order_event_internal v now enforce = Some o' \<longleftrightarrow>
     plain_object v order_fields \<and> safe_unix_seconds (Number (Whole now)) \<noteq> None
     \<and> order_text (field ''event_id'' v) max_id_size = Some (or_event_id o')
     \<and> order_text (field ''subscription_id'' v) max_id_size = Some (or_subscription_id o')
     \<and> order_text (field ''project'' v) max_project_size = Some (or_project o')
     \<and> (if field ''feature'' v = Undefined \<or> field ''feature'' v = Null
        then (if length (or_project o') \<le> max_feature_size then Some (or_project o') else None)
        else order_text (field ''feature'' v) max_feature_size) = Some (or_feature o')
     \<and> (case field ''intent'' v of String s \<Rightarrow> if s \<in> set order_intents then Some s else None | _ \<Rightarrow> None) = Some (or_intent o')
     \<and> safe_count_of (field ''seq'' v) = Some (or_seq o')
     \<and> (if field ''order_epoch'' v = Undefined \<or> field ''order_epoch'' v = Null then Some 0
        else safe_count_of (field ''order_epoch'' v)) = Some (or_epoch o')
     \<and> order_optional (field ''license_fingerprint'' v) safe_hex64 = Some (or_fingerprint o')
     \<and> order_optional (field ''current_period_end'' v) safe_unix_seconds = Some (or_period_end o')
     \<and> order_optional (field ''occurred_at'' v) safe_unix_seconds = Some (or_occurred_at o')
     \<and> order_optional (field ''license_id'' v) (\<lambda>x. order_text x max_id_size) = Some (or_license_id o')
     \<and> order_optional (field ''quantity'' v) read_quantity = Some (or_quantity o')
     \<and> (or_intent o' = ''quantity.changed'' \<longrightarrow> or_quantity o' \<noteq> None)
     \<and> read_customer (field ''customer'' v) = Some (or_customer o')
     \<and> (enforce \<longrightarrow> order_period_is_acceptable (or_intent o') (or_period_end o') now)" (is "?l \<longleftrightarrow> ?r")
proof
  assume ?l
  then have guard: "plain_object v order_fields" "safe_unix_seconds (Number (Whole now)) \<noteq> None"
    unfolding normalize_order_event_internal_def by (simp_all split: if_splits)
  show ?r using \<open>?l\<close>
    unfolding normalize_order_event_internal_def
    by (simp only: guard not_True_eq_False if_False guarded_bind obind_Some_iff option.inject)
      (elim exE conjE, hypsubst, simp only: order.select_convs guard simp_thms de_Morgan_conj not_not imp_conv_disj)
next
  assume ?r
  then show ?l
    unfolding normalize_order_event_internal_def
    by (elim conjE) (simp only: not_True_eq_False if_False obind_simps, auto)
qed

lemma spells_intent_iff:
  "(case v of String s \<Rightarrow> if s \<in> set order_intents then Some s else None | _ \<Rightarrow> None) = Some s \<longleftrightarrow>
     v = String s \<and> s \<in> {''subscription.active'', ''subscription.renewed'',
         ''subscription.past_due'', ''subscription.paused'', ''subscription.payment_failed'',
         ''subscription.canceled_at_period_end'', ''subscription.resumed'', ''quantity.changed'',
         ''fraud.confirmed'', ''chargeback''}"
proof -
  have "set order_intents = {''subscription.active'', ''subscription.renewed'',
         ''subscription.past_due'', ''subscription.paused'', ''subscription.payment_failed'',
         ''subscription.canceled_at_period_end'', ''subscription.resumed'', ''quantity.changed'',
         ''fraud.confirmed'', ''chargeback''}" by (simp add: order_intents_def)
  from this [symmetric] show ?thesis by (simp only:) (cases v; auto)
qed

lemma period_current_iff:
  "order_period_is_acceptable (or_intent o') (or_period_end o') now \<longleftrightarrow>
     0 \<le> now \<and> now \<le> 9007199254740991 \<and> period_current o' now"
proof -
  have w: "set withdrawal_intents = {''subscription.canceled_at_period_end'', ''subscription.past_due'',
         ''subscription.paused'', ''subscription.payment_failed'', ''fraud.confirmed'', ''chargeback''}"
    by (simp add: withdrawal_intents_def disable_intents_def revoke_intents_def)
  have c: "safe_count now \<longleftrightarrow> 0 \<le> now \<and> now \<le> 9007199254740991" by (simp add: safe_count_def max_safe_integer_def)
  show ?thesis
    unfolding order_period_is_acceptable_def period_current_def safe_unix_seconds_now w [symmetric] c grace_seconds_def
    by (cases "or_period_end o'") auto
qed

lemma normalize_internal_spells:
  "normalize_order_event_internal v now enforce = Some o' \<longleftrightarrow>
     spells_order v o' \<and> 0 \<le> now \<and> now \<le> 9007199254740991 \<and> (enforce \<longrightarrow> period_current o' now)"
proof -
  have f: "(if field ''feature'' v = Undefined \<or> field ''feature'' v = Null
        then (if length (or_project o') \<le> max_feature_size then Some (or_project o') else None)
        else order_text (field ''feature'' v) max_feature_size) = Some (or_feature o')
      \<longleftrightarrow> spells_feature (or_project o') (field ''feature'' v) (or_feature o')"
    by (auto simp: spells_feature_def spells_order_text max_feature_size_def)
  have e: "(if field ''order_epoch'' v = Undefined \<or> field ''order_epoch'' v = Null then Some 0
        else safe_count_of (field ''order_epoch'' v)) = Some (or_epoch o') \<longleftrightarrow> spells_or 0 spells_count (field ''order_epoch'' v) (or_epoch o')"
    by (auto simp: spells_or_def spells_count_iff)
  have p: "plain_object v order_fields \<longleftrightarrow> spells_object {''event_id'', ''subscription_id'', ''project'', ''feature'', ''intent'', ''seq'', ''order_epoch'',
       ''license_fingerprint'', ''current_period_end'', ''occurred_at'', ''license_id'', ''quantity'', ''customer''} v"
    unfolding spells_plain [symmetric] order_fields_def by simp
  have n: "safe_unix_seconds (Number (Whole now)) \<noteq> None \<longleftrightarrow> 0 \<le> now \<and> now \<le> 9007199254740991"
    by (simp add: safe_unix_seconds_now safe_count_def max_safe_integer_def)
  show ?thesis
    unfolding normalize_internal_iff f e p n spells_intent_iff spells_order_def period_current_iff max_id_size_def max_project_size_def
      spells_order_text [symmetric] spells_optionals [symmetric] spells_count_iff(1) [symmetric] spells_customer_iff [symmetric]
    by (rule iffI; elim conjE; intro conjI impI; (assumption | blast)?)
qed

text \<open>C26. A request body is read as an order exactly when it spells that order out, every field
  within its alphabet and bounds and no other field beside them, at a time that is a safe count of
  seconds, and the period it names did not end a day before or more, unless the order withdraws the
  grant. Reading for a replay asks the same without the period.\<close>

theorem normalize_order_event_exact:
  "(normalize_order_event v now = Some o' \<longleftrightarrow>
      spells_order v o' \<and> 0 \<le> now \<and> now \<le> 9007199254740991 \<and> period_current o' now)
   \<and> (normalize_order_event_for_replay v now = Some o' \<longleftrightarrow>
      spells_order v o' \<and> 0 \<le> now \<and> now \<le> 9007199254740991)"
  by (simp add: normalize_order_event_def normalize_order_event_for_replay_def normalize_internal_spells)

section \<open>What the mutation is\<close>

text \<open>The window never moves back: not behind what was granted, nor behind the period paid for.\<close>

lemma clamp_ge: "or_else p 0 \<le> clamp_valid_until p q" "or_else q 0 \<le> clamp_valid_until p q"
  by (simp_all add: clamp_valid_until_def Let_def)

lemma with_window_fields [simp]:
  "de_kind (with_window c prev m) = de_kind m" "de_status (with_window c prev m) = de_status m"
  "de_capacity (with_window c prev m) = de_capacity m" "de_event_type (with_window c prev m) = de_event_type m"
  "de_terminal (with_window c prev m) = de_terminal m" "de_keep_owner (with_window c prev m) = de_keep_owner m"
  "de_valid_until (with_window c prev m) = Some (if 0 < c then Some c else None)"
  by (simp_all add: with_window_def Let_def)

end
