(* ===== verification/Order_Store.thy ===== *)
theory Order_Store
  imports Order_Event Grant_Safety
begin

text \<open>
  The tables of the order ingest and the statements it runs on them
  (\<open>order_identity_store.mjs\<close>, \<open>order_result_store.mjs\<close>, the builders of \<open>order_ingest.mjs\<close>).
  The columns \<open>last_applied_order_epoch\<close> and \<open>last_applied_order_seq\<close>, which only orders write, are
  a map beside the grants; a grant an order never wrote has the defaults (0, -1).
\<close>

section \<open>Tables\<close>

type_synonym subscription_key = "string \<times> string \<times> string"

record order_row =
  ow_key :: subscription_key
  ow_fingerprint :: string
  ow_customer_id :: "string option"
  ow_license_id :: "string option"
  ow_last_seq :: int
  ow_epoch :: int
  ow_origin :: string
  ow_created_at :: int
  ow_updated_at :: int

datatype event_status = Accepted | Processed | Superseded | Rejected

record order_body =
  ob_ok :: bool
  ob_code :: string
  ob_fingerprint :: "string option"
  ob_origin :: "string option"
  ob_entitlement :: "grant option option"

text \<open>\<open>result_json\<close>: the empty text, an envelope, or a text that is not one.\<close>

datatype stored_result = NoResult | Envelope order_body | Unreadable

record order_event =
  oe_event_id :: string
  oe_key :: subscription_key
  oe_epoch :: int
  oe_seq :: int
  oe_intent :: string
  oe_key_id :: string
  oe_digest :: string
  oe_payload :: string
  oe_status :: event_status
  oe_result :: stored_result
  oe_received_at :: int
  oe_processed_at :: "int option"

record license_row =
  lr_id :: string
  lr_customer_id :: "string option"
  lr_project :: string
  lr_label :: string
  lr_created_at :: int
  lr_updated_at :: int

record customer_row =
  cr_id :: string
  cr_name :: string
  cr_email :: string
  cr_status :: string
  cr_external_ref :: string
  cr_created_at :: int
  cr_updated_at :: int

record order_db =
  od_core :: db
  od_floors :: "grant_key \<Rightarrow> int \<times> int"
  od_orders :: "order_row list"
  od_events :: "order_event list"
  od_licenses :: "license_row list"
  od_customers :: "customer_row list"
  od_password_emails :: "(string \<times> string) list"
  od_identity_emails :: "(string \<times> string) list"
  od_nonces :: "((string \<times> string) \<times> int) list"

datatype order_result = GrantOut grant | CursorOut int int | EventOut string | IdOut string

type_synonym order_command = "(order_db, order_result) sql"

definition set_changes :: "nat \<Rightarrow> order_db \<Rightarrow> order_db" where
  "set_changes n d = d\<lparr>od_core := (od_core d)\<lparr>db_changes := n\<rparr>\<rparr>"

definition changes_of :: "order_db \<Rightarrow> nat" where
  "changes_of d = db_changes (od_core d)"

definition find_order :: "order_db \<Rightarrow> subscription_key \<Rightarrow> order_row option" where
  "find_order d k = find (\<lambda>r. ow_key r = k) (od_orders d)"

definition find_event :: "order_db \<Rightarrow> string \<Rightarrow> order_event option" where
  "find_event d i = find (\<lambda>e. oe_event_id e = i) (od_events d)"

definition find_license :: "order_db \<Rightarrow> string \<Rightarrow> license_row option" where
  "find_license d i = find (\<lambda>l. lr_id l = i) (od_licenses d)"

definition find_customer :: "order_db \<Rightarrow> string \<Rightarrow> customer_row option" where
  "find_customer d i = find (\<lambda>c. cr_id c = i) (od_customers d)"

definition subscription_of :: "order \<Rightarrow> subscription_key" where
  "subscription_of o' = (or_subscription_id o', or_project o', or_feature o')"

text \<open>The lexicographic order of (epoch, seq).\<close>

definition comes_before :: "int \<times> int \<Rightarrow> int \<times> int \<Rightarrow> bool" where
  "comes_before a b \<longleftrightarrow> fst a < fst b \<or> (fst a = fst b \<and> snd a < snd b)"

section \<open>Statements on the entitlements\<close>

text \<open>A guarded write that also moves the floor of the grant.\<close>

definition update_floored ::
  "column_set \<Rightarrow> grant_key \<Rightarrow> int \<times> int \<Rightarrow> (grant \<Rightarrow> bool) \<Rightarrow> (db \<Rightarrow> grant \<Rightarrow> grant) \<Rightarrow> order_command" where
  "update_floored cols k floor cond f d =
     rbind (update_grant cols k (\<lambda>_ g. cond g \<and> comes_before (od_floors d k) floor) f (od_core d)) (\<lambda>(rows, c).
       case rows of
         [] \<Rightarrow> Inr ([], d\<lparr>od_core := c\<rparr>)
       | _ \<Rightarrow> Inr (List.map (\<lambda>r. case r of GrantRow g \<Rightarrow> GrantOut g | ResponseRow r \<Rightarrow> GrantOut (gr_data r)) rows,
           d\<lparr>od_core := c, od_floors := (od_floors d)(k := floor)\<rparr>))"

record create_fields =
  cf_valid_from :: "int option"
  cf_valid_until :: "int option"
  cf_notes :: string
  cf_customer_id :: string
  cf_license_id :: "string option"
  cf_max_active_devices :: int
  cf_created_at :: int

definition new_grant :: "db \<Rightarrow> grant_key \<Rightarrow> create_fields \<Rightarrow> int \<Rightarrow> grant" where
  "new_grant c k cols now = (case k of (project, feature, fingerprint) \<Rightarrow>
     \<lparr>g_project = project, g_feature = feature, g_fingerprint = fingerprint, g_status = ''active'',
       g_revocation_seq = first_revocation_seq c k, g_valid_from = cf_valid_from cols, g_valid_until = cf_valid_until cols,
       g_notes = cf_notes cols, g_customer_id = cf_customer_id cols, g_license_id = cf_license_id cols,
       g_policy_id = None, g_is_trial = 0, g_trial_expiration_basis = None, g_trial_duration_sec = 0,
       g_trial_one_per_device = 0, g_trial_started_at = None, g_trial_device_key_id = None,
       g_max_active_devices = cf_max_active_devices cols, g_lease_seconds = 86400,
       g_created_at = cf_created_at cols, g_updated_at = now\<rparr>)"

definition build_create_statement :: "grant_key \<Rightarrow> create_fields \<Rightarrow> int \<times> int \<Rightarrow> int \<Rightarrow> order_command" where
  "build_create_statement k cols floor now d = (case find_grant (od_core d) k of
     None \<Rightarrow> rbind (insert_grant (new_grant (od_core d) k cols now) (od_core d)) (\<lambda>(rows, c).
       Inr ([GrantOut (new_grant (od_core d) k cols now)], d\<lparr>od_core := c, od_floors := (od_floors d)(k := floor)\<rparr>))
   | Some _ \<Rightarrow> update_floored \<lparr>sets_owner = False, sets_capacity = True\<rparr> k floor
       (\<lambda>g. g_status g \<noteq> ''revoked'' \<and> g_customer_id g = cf_customer_id cols)
       (\<lambda>c g. g\<lparr>g_status := ''active'', g_revocation_seq := revocation_seq_bump c g, g_valid_from := cf_valid_from cols,
          g_valid_until := cf_valid_until cols, g_notes := cf_notes cols, g_license_id := cf_license_id cols,
          g_max_active_devices := cf_max_active_devices cols, g_updated_at := now\<rparr>) d)"

record patch_fields =
  pf_valid_from :: "int option"
  pf_valid_until :: "int option"
  pf_notes :: string
  pf_license_id :: "string option"

definition build_patch_statement :: "grant_key \<Rightarrow> patch_fields \<Rightarrow> string \<Rightarrow> int \<times> int \<Rightarrow> int \<Rightarrow> order_command" where
  "build_patch_statement k cols owner floor now =
     update_floored \<lparr>sets_owner = False, sets_capacity = False\<rparr> k floor
       (\<lambda>g. g_customer_id g = owner \<and> g_status g \<noteq> ''revoked'')
       (\<lambda>c g. g\<lparr>g_revocation_seq := revocation_seq_bump c g, g_valid_from := pf_valid_from cols,
          g_valid_until := pf_valid_until cols, g_notes := pf_notes cols, g_license_id := pf_license_id cols,
          g_updated_at := now\<rparr>)"

definition build_transition_statement :: "grant_key \<Rightarrow> string \<Rightarrow> string \<Rightarrow> int \<times> int \<Rightarrow> int \<Rightarrow> order_command" where
  "build_transition_statement k status owner floor now =
     update_floored \<lparr>sets_owner = False, sets_capacity = False\<rparr> k floor
       (\<lambda>g. g_customer_id g = owner \<and> (status = ''revoked'' \<or> g_status g \<noteq> ''revoked''))
       (\<lambda>c g. g\<lparr>g_status := status, g_revocation_seq := revocation_seq_bump c g, g_updated_at := now\<rparr>)"

definition build_capacity_statement :: "grant_key \<Rightarrow> int option \<Rightarrow> string \<Rightarrow> int \<times> int \<Rightarrow> int \<Rightarrow> order_command" where
  "build_capacity_statement k capacity owner floor now =
     (let limit = (case capacity of Some n \<Rightarrow> if \<bar>n\<bar> \<le> int max_safe_integer \<and> 0 \<le> n then Some n else None | None \<Rightarrow> None) in
      update_floored \<lparr>sets_owner = False, sets_capacity = (limit \<noteq> None)\<rparr> k floor
        (\<lambda>g. g_customer_id g = owner \<and> g_status g \<noteq> ''revoked'')
        (\<lambda>c g. g\<lparr>g_max_active_devices := or_else limit (g_max_active_devices g),
           g_revocation_seq := revocation_seq_bump c g, g_updated_at := now\<rparr>))"

text \<open>The columns the audit event of an order names; the others are not recorded.\<close>

definition order_snapshot :: "grant \<Rightarrow> grant" where
  "order_snapshot g = g\<lparr>g_notes := [], g_customer_id := [], g_license_id := None, g_policy_id := None, g_is_trial := 0,
     g_trial_expiration_basis := None, g_trial_duration_sec := 0, g_trial_one_per_device := 0, g_trial_started_at := None,
     g_trial_device_key_id := None, g_lease_seconds := 0, g_created_at := 0, g_updated_at := 0\<rparr>"

definition event_accepted :: "order_db \<Rightarrow> string \<Rightarrow> bool" where
  "event_accepted d i \<longleftrightarrow> list_ex (\<lambda>e. oe_event_id e = i \<and> oe_status e = Accepted) (od_events d)"

definition order_audit_event :: "string \<Rightarrow> order \<Rightarrow> grant \<Rightarrow> int \<Rightarrow> event" where
  "order_audit_event event_type o' g now =
     \<lparr>ev_key = key_of g, ev_type = event_type, ev_status = g_status g, ev_revocation_seq = g_revocation_seq g,
       ev_detail = ''order:'' @ or_intent o', ev_actor = ''order:'' @ or_subscription_id o', ev_actor_type = ''sync'',
       ev_source = ''sync'', ev_request_id = or_event_id o', ev_ip = [], ev_prev = None, ev_next = order_snapshot g,
       ev_reason = ''order:'' @ or_intent o', ev_idempotency_key = Some (or_event_id o'), ev_created_at = now\<rparr>"

definition build_order_event_statement :: "grant_key \<Rightarrow> string \<Rightarrow> order \<Rightarrow> int \<Rightarrow> bool \<Rightarrow> order_command" where
  "build_order_event_statement k event_type o' now require_non_revoked d = (case find_grant (od_core d) k of
     None \<Rightarrow> Inr ([], set_changes 0 d)
   | Some g \<Rightarrow>
       if g_customer_id g = cu_id (or_customer o') \<and> changes_of d = 1
          \<and> (require_non_revoked \<longrightarrow> g_status g \<noteq> ''revoked'')
          \<and> od_floors d k = (or_epoch o', or_seq o') \<and> event_accepted d (or_event_id o')
       then Inr ([], d\<lparr>od_core := (od_core d)\<lparr>db_events := db_events (od_core d) @ [order_audit_event event_type o' g now],
              db_changes := 1\<rparr>\<rparr>)
       else Inr ([], set_changes 0 d))"

section \<open>Statements on the order events\<close>

definition update_events :: "(order_event \<Rightarrow> bool) \<Rightarrow> (order_event \<Rightarrow> order_event) \<Rightarrow> order_command" where
  "update_events cond f d =
     (let hits = filter cond (od_events d) in
      Inr (List.map (\<lambda>e. EventOut (oe_event_id e)) hits,
        set_changes (length hits) d\<lparr>od_events := List.map (\<lambda>e. if cond e then f e else e) (od_events d)\<rparr>))"

definition ok_codes :: "string list" where
  "ok_codes = [''applied'', ''superseded'', ''no_entitlement'', ''stale_ignored'', ''cached'']"

definition result_body :: "string \<Rightarrow> order_body" where
  "result_body code = \<lparr>ob_ok = (code \<in> set ok_codes), ob_code = code, ob_fingerprint = None, ob_origin = None, ob_entitlement = None\<rparr>"

definition grant_body :: "string \<Rightarrow> grant_key \<Rightarrow> string \<Rightarrow> order_body" where
  "grant_body code k origin = (result_body code)\<lparr>ob_fingerprint := Some (snd (snd k)), ob_origin := Some origin\<rparr>"

definition finish_event :: "string \<Rightarrow> event_status \<Rightarrow> order_body \<Rightarrow> int \<Rightarrow> (order_db \<Rightarrow> bool) \<Rightarrow> order_command" where
  "finish_event i status body now cond d =
     update_events (\<lambda>e. oe_event_id e = i \<and> oe_status e = Accepted \<and> cond d)
       (\<lambda>e. e\<lparr>oe_status := status, oe_result := Envelope body, oe_processed_at := Some now\<rparr>) d"

definition build_processed_mark_statement :: "string \<Rightarrow> order_body \<Rightarrow> int \<Rightarrow> order_command" where
  "build_processed_mark_statement i body now = finish_event i Processed body now (\<lambda>_. True)"

definition grant_satisfies :: "grant_key \<Rightarrow> (grant \<Rightarrow> bool) \<Rightarrow> order_db \<Rightarrow> bool" where
  "grant_satisfies k cond d \<longleftrightarrow> (case find_grant (od_core d) k of None \<Rightarrow> False | Some g \<Rightarrow> cond g)"

definition build_rejected_order_event_mark ::
  "order \<Rightarrow> grant_key \<Rightarrow> string \<Rightarrow> int \<Rightarrow> string \<Rightarrow> (grant \<Rightarrow> bool) \<Rightarrow> order_body \<times> order_command" where
  "build_rejected_order_event_mark o' k origin now code cond =
     (grant_body code k origin, finish_event (or_event_id o') Rejected (grant_body code k origin) now (grant_satisfies k cond))"

definition build_revoked_order_event_mark :: "order \<Rightarrow> grant_key \<Rightarrow> string \<Rightarrow> int \<Rightarrow> order_body \<times> order_command" where
  "build_revoked_order_event_mark o' k origin now =
     build_rejected_order_event_mark o' k origin now ''entitlement_revoked'' (\<lambda>g. g_status g = ''revoked'')"

definition build_foreign_owner_order_event_mark :: "order \<Rightarrow> grant_key \<Rightarrow> string \<Rightarrow> int \<Rightarrow> order_body \<times> order_command" where
  "build_foreign_owner_order_event_mark o' k origin now =
     build_rejected_order_event_mark o' k origin now ''entitlement_owner_mismatch''
       (\<lambda>g. g_customer_id g \<noteq> cu_id (or_customer o'))"

section \<open>Statements on orders and licences\<close>

definition identity_open :: "order_row \<Rightarrow> order \<Rightarrow> bool" where
  "identity_open r o' \<longleftrightarrow> (ow_customer_id r = None \<or> ow_customer_id r = Some (cu_id (or_customer o')))
     \<and> (ow_license_id r = None \<or> or_license_id o' = None \<or> ow_license_id r = or_license_id o')"

text \<open>The row an accept may advance: the subscription's own identity, behind the event.\<close>

definition admits :: "order \<Rightarrow> string \<times> string \<Rightarrow> order_row \<Rightarrow> bool" where
  "admits o' fp r \<longleftrightarrow> ow_key r = subscription_of o' \<and> ow_fingerprint r = fst fp \<and> ow_origin r = snd fp
     \<and> identity_open r o' \<and> comes_before (ow_epoch r, ow_last_seq r) (or_epoch o', or_seq o')"

definition license_open :: "license_row \<Rightarrow> order \<Rightarrow> bool" where
  "license_open l o' \<longleftrightarrow> lr_project l = or_project o'
     \<and> (lr_customer_id l = None \<or> lr_customer_id l = Some (cu_id (or_customer o')))"

definition upsert_license :: "order \<Rightarrow> string \<Rightarrow> int \<Rightarrow> order_command" where
  "upsert_license o' lid now d = (case find_license d lid of
     None \<Rightarrow> Inr ([IdOut lid], set_changes 1 d\<lparr>od_licenses := od_licenses d @ [\<lparr>lr_id = lid,
       lr_customer_id = Some (cu_id (or_customer o')), lr_project = or_project o', lr_label = [],
       lr_created_at = now, lr_updated_at = now\<rparr>]\<rparr>)
   | Some l \<Rightarrow>
       if license_open l o'
       then Inr ([IdOut lid], set_changes 1 d\<lparr>od_licenses := List.map (\<lambda>l. if lr_id l = lid
              then l\<lparr>lr_customer_id := (case lr_customer_id l of None \<Rightarrow> Some (cu_id (or_customer o')) | c \<Rightarrow> c), lr_updated_at := now\<rparr>
              else l) (od_licenses d)\<rparr>)
       else Inr ([], set_changes 0 d))"

definition build_order_license_reservation :: "order \<Rightarrow> int \<Rightarrow> string \<times> string \<Rightarrow> order_command option" where
  "build_order_license_reservation o' now fp = map_option (\<lambda>lid d.
     if list_ex (admits o' fp) (od_orders d) then upsert_license o' lid now d else Inr ([], set_changes 0 d)) (or_license_id o')"

definition build_order_cursor_advance :: "order \<Rightarrow> int \<Rightarrow> string \<times> string \<Rightarrow> bool \<Rightarrow> order_command" where
  "build_order_cursor_advance o' now fp reserved d =
     (let hit = (\<lambda>r. (reserved \<longrightarrow> changes_of d = 1) \<and> admits o' fp r);
          hits = filter hit (od_orders d) in
      Inr (List.map (\<lambda>_. CursorOut (or_seq o') (or_epoch o')) hits,
        set_changes (length hits) d\<lparr>od_orders := List.map (\<lambda>r. if hit r
          then r\<lparr>ow_epoch := or_epoch o', ow_last_seq := or_seq o',
                 ow_customer_id := (case ow_customer_id r of None \<Rightarrow> Some (cu_id (or_customer o')) | c \<Rightarrow> c),
                 ow_license_id := (case ow_license_id r of None \<Rightarrow> or_license_id o' | l \<Rightarrow> l), ow_updated_at := now\<rparr>
          else r) (od_orders d)\<rparr>))"

definition new_event :: "order \<Rightarrow> string \<Rightarrow> string \<Rightarrow> string \<Rightarrow> event_status \<Rightarrow> stored_result \<Rightarrow> int \<Rightarrow> int option \<Rightarrow> order_event" where
  "new_event o' key_id digest payload status result now processed =
     \<lparr>oe_event_id = or_event_id o', oe_key = subscription_of o', oe_epoch = or_epoch o', oe_seq = or_seq o',
       oe_intent = or_intent o', oe_key_id = key_id, oe_digest = digest, oe_payload = payload, oe_status = status,
       oe_result = result, oe_received_at = now, oe_processed_at = processed\<rparr>"

definition event_claim_statement :: "order \<Rightarrow> string \<Rightarrow> string \<Rightarrow> string \<Rightarrow> int \<Rightarrow> string \<times> string \<Rightarrow> order_command" where
  "event_claim_statement o' key_id digest payload now fp d =
     (if changes_of d \<noteq> 1 \<or> \<not> list_ex (\<lambda>r. ow_key r = subscription_of o' \<and> ow_fingerprint r = fst fp \<and> ow_origin r = snd fp
           \<and> ow_epoch r = or_epoch o' \<and> ow_last_seq r = or_seq o') (od_orders d)
      then Inr ([], set_changes 0 d)
      else if find_event d (or_event_id o') \<noteq> None then Inl ''UNIQUE constraint failed: order_events.event_id''
      else Inr ([EventOut (or_event_id o')],
        set_changes 1 d\<lparr>od_events := od_events d @ [new_event o' key_id digest payload Accepted NoResult now None]\<rparr>))"

definition build_accept_batch ::
  "order \<Rightarrow> string \<Rightarrow> string \<Rightarrow> string \<Rightarrow> int \<Rightarrow> string \<times> string \<Rightarrow> order_command list" where
  "build_accept_batch o' key_id digest payload now fp =
     (let claim = event_claim_statement o' key_id digest payload now fp in
      case build_order_license_reservation o' now fp of
        None \<Rightarrow> [build_order_cursor_advance o' now fp False, claim]
      | Some reservation \<Rightarrow> [reservation, build_order_cursor_advance o' now fp True, claim])"

text \<open>\<open>INSERT INTO orders \<dots> ON CONFLICT DO NOTHING\<close>, under the key and the unique fingerprint.\<close>

definition insert_order_identity :: "order \<Rightarrow> string \<times> string \<Rightarrow> int \<Rightarrow> order_command" where
  "insert_order_identity o' fp now d =
     (if list_ex (\<lambda>r. ow_key r = subscription_of o'
           \<or> (snd (ow_key r) = (or_project o', or_feature o') \<and> ow_fingerprint r = fst fp)) (od_orders d)
      then Inr ([], set_changes 0 d)
      else Inr ([], set_changes 1 d\<lparr>od_orders := od_orders d @ [\<lparr>ow_key = subscription_of o', ow_fingerprint = fst fp,
        ow_customer_id = None, ow_license_id = None, ow_last_seq = - 1, ow_epoch = 0, ow_origin = snd fp,
        ow_created_at = now, ow_updated_at = now\<rparr>]\<rparr>))"

definition claim_stale_statement :: "order \<Rightarrow> string \<Rightarrow> order_body \<Rightarrow> int \<Rightarrow> order_command" where
  "claim_stale_statement o' digest body now d =
     (if list_ex (\<lambda>e. oe_key e = subscription_of o' \<and> oe_epoch e = or_epoch o' \<and> oe_seq e = or_seq o') (od_events d)
         \<or> find_event d (or_event_id o') \<noteq> None
      then Inr ([], set_changes 0 d)
      else Inr ([EventOut (or_event_id o')],
        set_changes 1 d\<lparr>od_events := od_events d @ [new_event o' [] digest [] Superseded (Envelope body) now (Some now)]\<rparr>))"

section \<open>Statements on customers\<close>

text \<open>SQLite's \<open>lower\<close> and the unique index on it.\<close>

definition sql_lower :: "string \<Rightarrow> string" where
  "sql_lower s = List.map (\<lambda>c. if js_upper_ascii c then from_unit (code_unit c + 32) else c) s"

definition new_customer_email_taken :: "order_db \<Rightarrow> string \<Rightarrow> string \<Rightarrow> bool" where
  "new_customer_email_taken d cid email \<longleftrightarrow> email \<noteq> [] \<and> find_customer d cid = None
     \<and> (list_ex (\<lambda>c. cr_email c \<noteq> [] \<and> sql_lower (cr_email c) = email \<and> cr_id c \<noteq> cid) (od_customers d)
        \<or> list_ex (\<lambda>(e, c). e = email \<and> c \<noteq> cid) (od_password_emails d)
        \<or> list_ex (\<lambda>(e, c). sql_lower e = email \<and> c \<noteq> cid) (od_identity_emails d))"

definition insert_customer :: "order_customer \<Rightarrow> string \<Rightarrow> bool \<Rightarrow> int \<Rightarrow> order_command" where
  "insert_customer cu email withdrawal now d =
     (let taken = new_customer_email_taken d (cu_id cu) email;
          kept = (if withdrawal \<and> taken then [] else email) in
      if \<not> withdrawal \<and> taken then Inr ([], set_changes 0 d)
      else if find_customer d (cu_id cu) \<noteq> None
      then Inr ([IdOut (cu_id cu)], set_changes 1 d\<lparr>od_customers :=
        List.map (\<lambda>c. if cr_id c = cu_id cu then c\<lparr>cr_updated_at := now\<rparr> else c) (od_customers d)\<rparr>)
      else if kept \<noteq> [] \<and> list_ex (\<lambda>c. cr_email c \<noteq> [] \<and> sql_lower (cr_email c) = sql_lower kept) (od_customers d)
      then Inl ''UNIQUE constraint failed: index idx_customers_email''
      else Inr ([IdOut (cu_id cu)], set_changes 1 d\<lparr>od_customers := od_customers d @ [\<lparr>cr_id = cu_id cu,
        cr_name = or_else (cu_name cu) [], cr_email = kept, cr_status = ''active'',
        cr_external_ref = or_else (cu_external_ref cu) [], cr_created_at = now, cr_updated_at = now\<rparr>]\<rparr>))"

end
