(* ===== verification/Order_Ingest.thy ===== *)
theory Order_Ingest
  imports Order_Store
begin

text \<open>
  The exactly-once flow of an order (\<open>order_ingest.mjs\<close>, with the identity and the result stores):
  look the event up, establish the identity, accept it in one batch, apply it in another, and answer
  what the event row stores from then on. A reply is the HTTP status and the body.
\<close>

type_synonym order_reply = "nat \<times> order_body"

type_synonym 'a order_io = "(order_db world, 'a) io"

section \<open>Calls\<close>

text \<open>\<open>.first()\<close> of a statement.\<close>

definition first_of :: "order_command \<Rightarrow> order_result option order_io" where
  "first_of s = db_call (\<lambda>d. case s d of Inl e \<Rightarrow> (Inl e, d) | Inr (rows, d') \<Rightarrow> (Inr (batch_returned_row rows), d'))"

text \<open>\<open>let x; try { x = await m } catch (e) { return h(e) }\<close>, and the rest of the function.\<close>

definition io_try :: "('w, 'a) io \<Rightarrow> (string \<Rightarrow> ('w, 'b) io) \<Rightarrow> ('a \<Rightarrow> ('w, 'b) io) \<Rightarrow> ('w, 'b) io" where
  "io_try m h f w = (case m w of (Inl e, w') \<Rightarrow> h e w' | (Inr x, w') \<Rightarrow> f x w')"

definition refusal :: "nat \<Rightarrow> string \<Rightarrow> order_reply" where
  "refusal status code = (status, \<lparr>ob_ok = False, ob_code = code, ob_fingerprint = None, ob_origin = None, ob_entitlement = None\<rparr>)"

definition write_failed :: order_reply where
  "write_failed = refusal 503 ''write_failed''"

section \<open>Stored results\<close>

definition parse_stored_order_result :: "stored_result \<Rightarrow> order_body option" where
  "parse_stored_order_result r = (case r of
     NoResult \<Rightarrow> Some (result_body ''cached'') | Envelope b \<Rightarrow> Some b | Unreadable \<Rightarrow> None)"

definition rejected_status :: "string \<Rightarrow> nat" where
  "rejected_status code = (if code = ''invalid_order'' then 400 else 409)"

definition terminal_outcome :: "order_event option \<Rightarrow> order_reply" where
  "terminal_outcome row = (case row of
     None \<Rightarrow> write_failed
   | Some e \<Rightarrow>
       if oe_status e = Accepted then write_failed
       else case parse_stored_order_result (oe_result e) of
           None \<Rightarrow> write_failed
         | Some body \<Rightarrow> (if oe_status e = Rejected then rejected_status (ob_code body) else 200, body))"

definition load_terminal_order_outcome :: "string \<Rightarrow> order_reply order_io" where
  "load_terminal_order_outcome i =
     io_try (db_read (\<lambda>d. find_event d i)) (\<lambda>_. io_return write_failed) (\<lambda>row. io_return (terminal_outcome row))"

definition terminalize_rejected_order_event :: "string \<Rightarrow> order_body \<Rightarrow> int \<Rightarrow> order_reply order_io" where
  "terminalize_rejected_order_event i body now =
     io_bind (first_of (finish_event i Rejected body now (\<lambda>_. True))) (\<lambda>marked.
       if marked = None then load_terminal_order_outcome i else io_return (rejected_status (ob_code body), body))"

definition terminalize_with :: "order \<Rightarrow> order_body \<times> order_command \<Rightarrow> order_reply order_io" where
  "terminalize_with o' mark = io_bind (first_of (snd mark)) (\<lambda>marked.
     if marked = None then load_terminal_order_outcome (or_event_id o') else io_return (409, fst mark))"

definition terminalize_revoked_order_event :: "order \<Rightarrow> grant_key \<Rightarrow> string \<Rightarrow> int \<Rightarrow> order_reply order_io" where
  "terminalize_revoked_order_event o' k origin now = terminalize_with o' (build_revoked_order_event_mark o' k origin now)"

definition terminalize_foreign_owner_order_event :: "order \<Rightarrow> grant_key \<Rightarrow> string \<Rightarrow> int \<Rightarrow> order_reply order_io" where
  "terminalize_foreign_owner_order_event o' k origin now =
     terminalize_with o' (build_foreign_owner_order_event_mark o' k origin now)"

text \<open>Nothing to modify, and no earlier event of the subscription that may still create it.\<close>

definition nothing_to_modify :: "order \<Rightarrow> grant_key \<Rightarrow> order_db \<Rightarrow> bool" where
  "nothing_to_modify o' k d \<longleftrightarrow> find_grant (od_core d) k = None
     \<and> \<not> list_ex (\<lambda>e. oe_key e = subscription_of o' \<and> oe_event_id e \<noteq> or_event_id o' \<and> oe_status e = Accepted
          \<and> comes_before (oe_epoch e, oe_seq e) (or_epoch o', or_seq o')) (od_events d)"

definition terminalize_missing_entitlement_order_event :: "order \<Rightarrow> grant_key \<Rightarrow> string \<Rightarrow> int \<Rightarrow> order_reply order_io" where
  "terminalize_missing_entitlement_order_event o' k origin now =
     io_bind (first_of (finish_event (or_event_id o') Processed (grant_body ''no_entitlement'' k origin) now (nothing_to_modify o' k)))
       (\<lambda>marked. if marked = None then load_terminal_order_outcome (or_event_id o')
          else io_return (200, grant_body ''no_entitlement'' k origin))"

text \<open>\<open>/\bcapacity_in_use\b/\<close>: the word between two places where a word ends.\<close>

definition regex_word_char :: "char \<Rightarrow> bool" where
  "regex_word_char c \<longleftrightarrow> js_alnum c \<or> c = CHR ''_''"

fun has_word :: "string \<Rightarrow> bool \<Rightarrow> string \<Rightarrow> bool" where
  "has_word w inside [] = False"
| "has_word w inside (c # cs) =
     ((\<not> inside \<and> js_starts (c # cs) w \<and> (case drop (length w) (c # cs) of [] \<Rightarrow> True | x # _ \<Rightarrow> \<not> regex_word_char x))
      \<or> has_word w (regex_word_char c) cs)"

definition order_write_failure :: "order \<Rightarrow> grant_key \<Rightarrow> string \<Rightarrow> int \<Rightarrow> string \<Rightarrow> order_reply order_io" where
  "order_write_failure o' k origin now e =
     (if has_word ''capacity_in_use'' False e
      then terminalize_rejected_order_event (or_event_id o') (grant_body ''capacity_in_use'' k origin) now
      else if e = ''write_failed'' then io_return write_failed
      else io_throw e)"

definition claim_stale_order_outcome :: "order \<Rightarrow> string \<Rightarrow> int \<Rightarrow> order_reply order_io" where
  "claim_stale_order_outcome o' digest now =
     io_try (first_of (claim_stale_statement o' digest (result_body ''stale_ignored'') now)) (\<lambda>_. io_return write_failed) (\<lambda>claimed.
       if claimed \<noteq> None then io_return (200, result_body ''stale_ignored'')
       else io_try (db_read (\<lambda>d. find_event d (or_event_id o'))) (\<lambda>_. io_return write_failed) (\<lambda>existing. case existing of
           Some e \<Rightarrow>
             if oe_digest e \<noteq> digest then io_return (refusal 409 ''event_id_conflict'')
             else if oe_status e = Accepted then io_return write_failed
             else load_terminal_order_outcome (or_event_id o')
         | None \<Rightarrow>
             io_try (db_read (\<lambda>d. find (\<lambda>e. oe_key e = subscription_of o' \<and> oe_epoch e = or_epoch o' \<and> oe_seq e = or_seq o') (od_events d)))
               (\<lambda>_. io_return write_failed) (\<lambda>floor. case floor of
                 Some e \<Rightarrow> io_return (if oe_digest e \<noteq> digest then refusal 409 ''seq_conflict'' else write_failed)
               | None \<Rightarrow> io_return write_failed)))"

section \<open>Identities\<close>

definition identity_matches :: "order_row \<Rightarrow> string \<times> string \<Rightarrow> bool" where
  "identity_matches r fp \<longleftrightarrow> ow_fingerprint r = fst fp \<and> ow_origin r = snd fp"

definition license_conflicts :: "license_row option \<Rightarrow> order \<Rightarrow> bool" where
  "license_conflicts l o' \<longleftrightarrow> (case l of None \<Rightarrow> False | Some l \<Rightarrow> \<not> license_open l o')"

text \<open>A conflict is the status and the code of the refusal; \<open>None\<close> is \<open>{ ok: true }\<close>.\<close>

definition establish_order_identity :: "order \<Rightarrow> string \<times> string \<Rightarrow> int \<Rightarrow> (nat \<times> string) option order_io" where
  "establish_order_identity o' fp now =
     io_bind (db_read (\<lambda>d. find (\<lambda>r. snd (ow_key r) = (or_project o', or_feature o') \<and> ow_fingerprint r = fst fp) (od_orders d))) (\<lambda>owner.
     if (case owner of None \<Rightarrow> False | Some r \<Rightarrow> fst (ow_key r) \<noteq> or_subscription_id o') then io_return (Some (409, ''fingerprint_owned''))
     else io_bind (db_read (\<lambda>d. find_order d (subscription_of o'))) (\<lambda>existing.
     if (case existing of None \<Rightarrow> False | Some r \<Rightarrow> \<not> identity_matches r fp) then io_return (Some (409, ''fingerprint_owned''))
     else if (case existing of None \<Rightarrow> False | Some r \<Rightarrow> \<not> identity_open r o') then io_return (Some (400, ''invalid_order''))
     else io_bind (case or_license_id o' of None \<Rightarrow> io_return None | Some lid \<Rightarrow> db_read (\<lambda>d. find_license d lid)) (\<lambda>license.
     if license_conflicts license o' then io_return (Some (400, ''invalid_order''))
     else io_bind (db_read (\<lambda>d. find_grant (od_core d) (or_project o', or_feature o', fst fp))) (\<lambda>grant.
     if (case grant of None \<Rightarrow> False | Some g \<Rightarrow> g_customer_id g \<noteq> cu_id (or_customer o'))
     then io_return (Some (409, ''entitlement_owner_mismatch''))
     else io_bind (first_of (insert_order_identity o' fp now)) (\<lambda>_.
     io_bind (db_read (\<lambda>d. find_order d (subscription_of o'))) (\<lambda>persisted. case persisted of
         None \<Rightarrow> io_return (Some (409, ''fingerprint_owned''))
       | Some r \<Rightarrow> io_return
           (if \<not> identity_matches r fp then Some (409, ''fingerprint_owned'')
            else if \<not> identity_open r o' then Some (400, ''invalid_order'') else None)))))))"

definition order_identity_conflicts_after_failed_accept :: "order \<Rightarrow> bool order_io" where
  "order_identity_conflicts_after_failed_accept o' =
     io_bind (db_read (\<lambda>d. find_order d (subscription_of o'))) (\<lambda>row.
     if (case row of None \<Rightarrow> False | Some r \<Rightarrow> \<not> identity_open r o') then io_return True
     else case or_license_id o' of
         None \<Rightarrow> io_return False
       | Some lid \<Rightarrow> io_bind (db_read (\<lambda>d. find_license d lid)) (\<lambda>l. io_return (license_conflicts l o')))"

definition materialize_order_auxiliary_identities :: "order \<Rightarrow> int \<Rightarrow> (nat \<times> string) option order_io" where
  "materialize_order_auxiliary_identities o' now =
     io_bind (case or_license_id o' of
         None \<Rightarrow> io_return True
       | Some lid \<Rightarrow> io_bind (first_of (upsert_license o' lid now)) (\<lambda>l. io_return (l \<noteq> None))) (\<lambda>licensed.
     if \<not> licensed then io_return (Some (400, ''invalid_order''))
     else
       let cu = or_customer o'; email = js_lower (js_trim (or_else (cu_email cu) []));
           withdrawal = or_intent o' \<in> set withdrawal_intents in
       io_try (first_of (insert_customer cu email withdrawal now))
         (\<lambda>e. if withdrawal then io_throw e
            else io_bind (db_read (\<lambda>d. new_customer_email_taken d (cu_id cu) email)) (\<lambda>taken.
              if taken then io_return (Some (409, ''customer_email_conflict'')) else io_throw e))
         (\<lambda>written. io_return (if written = None then Some (409, ''customer_email_conflict'') else None)))"

section \<open>Applying an order\<close>

definition open_ended :: "int option \<Rightarrow> int option \<Rightarrow> bool" where
  "open_ended from until \<longleftrightarrow> (case (from, until) of (Some a, Some b) \<Rightarrow> b \<le> a | _ \<Rightarrow> False)"

definition create_fields_of :: "order \<Rightarrow> grant option \<Rightarrow> descriptor \<Rightarrow> int \<Rightarrow> create_fields" where
  "create_fields_of o' prev m now =
     (let until = or_else (de_valid_until m) None;
          from = (case de_valid_from m of Some t \<Rightarrow> Some t | None \<Rightarrow> obind prev g_valid_from) in
      \<lparr>cf_valid_from = (if open_ended from until then None else from), cf_valid_until = until,
        cf_notes = or_else (map_option g_notes prev) [], cf_customer_id = cu_id (or_customer o'),
        cf_license_id = (case or_license_id o' of Some l \<Rightarrow> Some l | None \<Rightarrow> obind prev g_license_id),
        cf_max_active_devices = (case or_quantity o' of Some n \<Rightarrow> n | None \<Rightarrow> or_else (map_option g_max_active_devices prev) 1),
        cf_created_at = or_else (map_option g_created_at prev) now\<rparr>)"

definition patch_fields_of :: "order \<Rightarrow> grant \<Rightarrow> descriptor \<Rightarrow> patch_fields" where
  "patch_fields_of o' p m =
     (let until = or_else (de_valid_until m) (g_valid_until p);
          from = (case de_valid_from m of Some t \<Rightarrow> Some t | None \<Rightarrow> g_valid_from p) in
      \<lparr>pf_valid_from = (if open_ended from until then None else from), pf_valid_until = until, pf_notes = g_notes p,
        pf_license_id = (if de_keep_owner m then g_license_id p
          else case or_license_id o' of Some l \<Rightarrow> Some l | None \<Rightarrow> g_license_id p)\<rparr>)"

text \<open>The write and the type of its audit event. Only a create is asked for without a grant.\<close>

definition order_write :: "order \<Rightarrow> grant option \<Rightarrow> descriptor \<Rightarrow> grant_key \<Rightarrow> int \<Rightarrow> order_command \<times> string" where
  "order_write o' prev m k now =
     (let floor = (or_epoch o', or_seq o'); owner = cu_id (or_customer o') in case de_kind m of
        PatchKind \<Rightarrow> (case prev of
            Some p \<Rightarrow> (build_patch_statement k (patch_fields_of o' p m) owner floor now, ''update'')
          | None \<Rightarrow> (\<lambda>_. Inl ''TypeError'', ''update''))
      | TransitionKind \<Rightarrow> (build_transition_statement k (or_else (de_status m) []) owner floor now,
          if de_event_type m = Some ''revoke'' then ''revoke''
          else if de_event_type m = Some ''disable'' then ''disable'' else ''reenable'')
      | CapacityKind \<Rightarrow> (build_capacity_statement k (or_else (de_capacity m) None) owner floor now, ''update'')
      | _ \<Rightarrow> (build_create_statement k (create_fields_of o' prev m now) floor now, if prev = None then ''create'' else ''update''))"

definition requires_live :: "descriptor \<Rightarrow> bool" where
  "requires_live m \<longleftrightarrow> de_kind m \<noteq> TransitionKind \<or> de_status m \<noteq> Some ''revoked''"

text \<open>The write, its audit event, the marks of a refusal, and last the mark that it is done.\<close>

definition order_apply_statements :: "order \<Rightarrow> grant option \<Rightarrow> descriptor \<Rightarrow> grant_key \<Rightarrow> string \<Rightarrow> int \<Rightarrow> order_command list" where
  "order_apply_statements o' prev m k origin now =
     [fst (order_write o' prev m k now),
      build_order_event_statement k (snd (order_write o' prev m k now)) o' now (requires_live m),
      snd (build_foreign_owner_order_event_mark o' k origin now)]
     @ (if requires_live m then [snd (build_revoked_order_event_mark o' k origin now)] else [])
     @ [build_processed_mark_statement (or_event_id o') (grant_body ''cached'' k origin) now]"

record floor_result =
  fr_applied :: "grant option"
  fr_marked :: bool

definition write_entitlement_with_audit_floor :: "order_command list \<Rightarrow> floor_result order_io" where
  "write_entitlement_with_audit_floor ss = (\<lambda>w.
     if \<not> w_has_batch w then io_throw ''write_failed'' w
     else io_bind (db_batch ss) (\<lambda>results. io_return
       \<lparr>fr_applied = (case batch_returned_row (hd results) of Some (GrantOut g) \<Rightarrow> Some g | _ \<Rightarrow> None),
         fr_marked = (batch_returned_row (last results) \<noteq> None)\<rparr>) w)"

definition finalize_statement :: "string \<Rightarrow> order_body \<Rightarrow> order_command" where
  "finalize_statement i body =
     update_events (\<lambda>e. oe_event_id e = i \<and> oe_status e = Processed) (\<lambda>e. e\<lparr>oe_result := Envelope body\<rparr>)"

definition finish_apply :: "order \<Rightarrow> grant_key \<Rightarrow> string \<Rightarrow> floor_result \<Rightarrow> order_reply order_io" where
  "finish_apply o' k origin r =
     (if \<not> fr_marked r then load_terminal_order_outcome (or_event_id o')
      else case fr_applied r of
          Some g \<Rightarrow>
            let body = (grant_body ''applied'' k origin)\<lparr>ob_entitlement := Some (Some g)\<rparr> in
            io_bind (first_of (finalize_statement (or_event_id o') body)) (\<lambda>_. io_return (200, body))
        | None \<Rightarrow>
            io_try (db_read (\<lambda>d. find_grant (od_core d) k)) (\<lambda>_. io_return write_failed) (\<lambda>current.
              let body = (grant_body ''superseded'' k origin)\<lparr>ob_entitlement := Some current\<rparr> in
              io_bind (first_of (finalize_statement (or_event_id o') body)) (\<lambda>_. io_return (200, body))))"

definition apply_order_event :: "order \<Rightarrow> string \<times> string \<Rightarrow> int \<Rightarrow> order_reply order_io" where
  "apply_order_event o' fp now =
     (let k = (or_project o', or_feature o', fst fp); origin = snd fp in
      io_bind (db_read (\<lambda>d. find_grant (od_core d) k)) (\<lambda>prev.
        if (case prev of None \<Rightarrow> False | Some p \<Rightarrow> g_customer_id p \<noteq> cu_id (or_customer o'))
        then terminalize_foreign_owner_order_event o' k origin now
        else let m = map_intent_to_mutation o' prev in
          if de_kind m = NoneKind
          then (if de_terminal m = Some ''revoked'' then terminalize_revoked_order_event o' k origin now
                else terminalize_missing_entitlement_order_event o' k origin now)
          else io_try (write_entitlement_with_audit_floor (order_apply_statements o' prev m k origin now))
                 (order_write_failure o' k origin now) (finish_apply o' k origin)))"

definition apply_accepted :: "order \<Rightarrow> string \<times> string \<Rightarrow> int \<Rightarrow> order_reply order_io" where
  "apply_accepted o' fp now =
     io_try (materialize_order_auxiliary_identities o' now) (\<lambda>_. io_return write_failed) (\<lambda>conflict. case conflict of
         Some (status, code) \<Rightarrow>
           io_catch (terminalize_rejected_order_event (or_event_id o') (result_body code) now) (\<lambda>_. io_return write_failed)
       | None \<Rightarrow> io_catch (apply_order_event o' fp now) (\<lambda>_. io_return write_failed))"

section \<open>The flow\<close>

definition failed_accept_disposition :: "order \<Rightarrow> string \<times> string \<Rightarrow> string \<Rightarrow> int \<Rightarrow> order_reply order_io" where
  "failed_accept_disposition o' fp digest now =
     io_try (db_read (\<lambda>d. find_event d (or_event_id o'))) (\<lambda>_. io_return write_failed) (\<lambda>existing. case existing of
         None \<Rightarrow>
           io_try (order_identity_conflicts_after_failed_accept o') (\<lambda>_. io_return write_failed) (\<lambda>conflicts.
             if conflicts then io_return (refusal 400 ''invalid_order'') else claim_stale_order_outcome o' digest now)
       | Some e \<Rightarrow>
           if oe_digest e \<noteq> digest then io_return (refusal 409 ''event_id_conflict'')
           else if oe_status e = Accepted then apply_accepted o' fp now
           else load_terminal_order_outcome (or_event_id o'))"

definition accept_order ::
  "order \<Rightarrow> string \<times> string \<Rightarrow> string \<Rightarrow> string \<Rightarrow> string \<Rightarrow> int \<Rightarrow> order_reply order_io" where
  "accept_order o' fp key_id digest payload now = (\<lambda>w.
     if \<not> w_has_batch w then io_return write_failed w
     else io_try (db_batch (build_accept_batch o' key_id digest payload now fp)) (\<lambda>_. io_return write_failed) (\<lambda>results.
       let at = (if or_license_id o' = None then 0 else 1) in
       if batch_returned_row (results ! at) = None \<or> batch_returned_row (results ! (at + 1)) = None
       then failed_accept_disposition o' fp digest now
       else apply_accepted o' fp now) w)"

text \<open>\<open>sha\<close> is the hexadecimal SHA-256 of a text. A redrive derives the fingerprint again.\<close>

definition run_exactly_once ::
  "(string \<Rightarrow> string) \<Rightarrow> order \<Rightarrow> string \<Rightarrow> string \<Rightarrow> string \<Rightarrow> int \<Rightarrow> order_reply order_io" where
  "run_exactly_once sha o' key_id digest payload now =
     io_try (db_read (\<lambda>d. find_event d (or_event_id o'))) (\<lambda>_. io_return write_failed) (\<lambda>existing. case existing of
         Some e \<Rightarrow>
           if oe_digest e \<noteq> digest then io_return (refusal 409 ''event_id_conflict'')
           else if oe_status e = Accepted then apply_accepted o' (derive_fingerprint sha o') now
           else load_terminal_order_outcome (or_event_id o')
       | None \<Rightarrow>
           if \<not> order_period_is_acceptable (or_intent o') (or_period_end o') now
           then io_return (refusal 400 ''invalid_order'')
           else io_try (establish_order_identity o' (derive_fingerprint sha o') now) (\<lambda>_. io_return write_failed) (\<lambda>identity.
             case identity of
               Some (status, code) \<Rightarrow> io_return (refusal status code)
             | None \<Rightarrow> accept_order o' (derive_fingerprint sha o') key_id digest payload now))"

end
