(* ===== verification/Order_Contract.thy ===== *)
theory Order_Contract
  imports Order_Ingest
begin

text \<open>
  What the order flow guarantees whatever other requests commit between its calls and whichever of
  its calls are lost. The structure of the flow is gone through once, for any relation its statements
  and batches keep.
\<close>

section \<open>The flow keeps what its statements keep\<close>

context guarantee
begin

lemma keeps_try:
  assumes "keeps G m" and "\<And>e. keeps G (h e)" and "\<And>x. keeps G (f x)"
  shows "keeps G (io_try m h f)"
  unfolding keeps_def
proof (intro allI impI, elim conjE)
  fix w r w'
  assume hon: "honest_world G w" and b: "io_try m h f w = (r, w')"
  obtain r1 w1 where m: "m w = (r1, w1)" by (cases "m w")
  note 1 = keepsD [OF assms(1) hon m]
  have "G (w_db w1) (w_db w') \<and> honest_world G w'"
  proof (cases r1)
    case (Inl e)
    with b m have "h e w1 = (r, w')" by (simp add: io_try_def)
    then show ?thesis using keepsD [OF assms(2)] 1 by blast
  next
    case (Inr x)
    with b m have "f x w1 = (r, w')" by (simp add: io_try_def)
    then show ?thesis using keepsD [OF assms(3)] 1 by blast
  qed
  with 1 trans show "G (w_db w) (w_db w') \<and> honest_world G w'" by blast
qed

lemma keeps_batch:
  assumes "\<And>d rs d'. run_statements ss d = Inr (rs, d') \<Longrightarrow> G d d'"
  shows "keeps G (db_batch ss)"
  unfolding db_batch_def
proof (rule keeps_call)
  fix d
  show "G d (snd (run_batch ss d))"
  proof (cases "run_statements ss d")
    case (Inl e)
    then show ?thesis by (simp add: run_batch_def refl)
  next
    case (Inr p)
    with assms [of d "fst p" "snd p"] show ?thesis by (cases p) (simp add: run_batch_def)
  qed
qed

lemma keeps_when_batch:
  assumes "keeps G m" and "keeps G m'"
  shows "keeps G (\<lambda>w. if \<not> w_has_batch w then m w else m' w)"
  unfolding keeps_def
proof (intro allI impI, elim conjE)
  fix w r w'
  assume hon: "honest_world G w" and b: "(if \<not> w_has_batch w then m w else m' w) = (r, w')"
  show "G (w_db w) (w_db w') \<and> honest_world G w'"
  proof (cases "w_has_batch w")
    case True
    with b have "m' w = (r, w')" by simp
    with hon show ?thesis by (rule keepsD [OF assms(2)])
  next
    case False
    with b have "m w = (r, w')" by simp
    with hon show ?thesis by (rule keepsD [OF assms(1)])
  qed
qed

end

definition order_kept :: "(order_db \<Rightarrow> order_db \<Rightarrow> bool) \<Rightarrow> order_command \<Rightarrow> bool" where
  "order_kept G s \<longleftrightarrow> (\<forall>d rows d'. s d = Inr (rows, d') \<longrightarrow> G d d')"

text \<open>What a relation has to allow: the statements and the two batches of an order of the class \<open>P\<close>.\<close>

locale order_contract = guarantee G
  for G :: "order_db \<Rightarrow> order_db \<Rightarrow> bool" +
  fixes P :: "order \<Rightarrow> bool"
  assumes finish: "status \<in> {Processed, Rejected} \<Longrightarrow> order_kept G (finish_event i status body now cond)"
    and finalize: "order_kept G (finalize_statement i body)"
    and stale: "order_kept G (claim_stale_statement o' digest body now)"
    and identity: "order_kept G (insert_order_identity o' fp now)"
    and license: "order_kept G (upsert_license o' lid now)"
    and customer: "order_kept G (insert_customer cu email withdrawal now)"
    and accept: "run_statements (build_accept_batch o' key_id digest payload now fp) d = Inr (rs, d') \<Longrightarrow> G d d'"
    and apply_batch: "P o' \<Longrightarrow> de_kind (map_intent_to_mutation o' prev) \<noteq> NoneKind \<Longrightarrow> k = (or_project o', or_feature o', fst fp) \<Longrightarrow>
      run_statements (order_apply_statements o' prev (map_intent_to_mutation o' prev) k (snd fp) now) d = Inr (rs, d') \<Longrightarrow> G d d'"
begin

lemma keeps_first: "order_kept G s \<Longrightarrow> keeps G (first_of s)"
  unfolding first_of_def by (rule keeps_call) (auto simp: order_kept_def refl split: sum.split)

lemmas keeps_simple = keeps_basic keeps_read

lemma keeps_load: "keeps G (load_terminal_order_outcome i)"
  unfolding load_terminal_order_outcome_def by (rule keeps_try) (rule keeps_simple)+

lemma keeps_terminalize_rejected: "keeps G (terminalize_rejected_order_event i body now)"
  unfolding terminalize_rejected_order_event_def
  by (rule keeps_bind) (auto intro: keeps_first finish keeps_load keeps_simple)

lemma keeps_terminalize_with:
  "keeps G (terminalize_with o' (build_rejected_order_event_mark o' k origin now code cond))"
  unfolding terminalize_with_def build_rejected_order_event_mark_def
  by (rule keeps_bind) (auto intro: keeps_first finish keeps_load keeps_simple)

lemma keeps_terminalize_missing: "keeps G (terminalize_missing_entitlement_order_event o' k origin now)"
  unfolding terminalize_missing_entitlement_order_event_def
  by (rule keeps_bind) (auto intro: keeps_first finish keeps_load keeps_simple)

lemma keeps_write_failure: "keeps G (order_write_failure o' k origin now e)"
  unfolding order_write_failure_def by (auto intro: keeps_terminalize_rejected keeps_simple)

lemma keeps_claim_stale: "keeps G (claim_stale_order_outcome o' digest now)"
  unfolding claim_stale_order_outcome_def
  by (intro keeps_try keeps_first stale keeps_simple) (auto intro!: keeps_try keeps_load keeps_simple split: option.split)

lemma keeps_establish: "keeps G (establish_order_identity o' fp now)"
  unfolding establish_order_identity_def
  by (auto intro!: keeps_bind keeps_first identity keeps_simple split: option.split)

lemma keeps_identity_conflicts: "keeps G (order_identity_conflicts_after_failed_accept o')"
  unfolding order_identity_conflicts_after_failed_accept_def
  by (auto intro!: keeps_bind keeps_simple split: option.split)

lemma keeps_materialize: "keeps G (materialize_order_auxiliary_identities o' now)"
  unfolding materialize_order_auxiliary_identities_def Let_def
  by (auto intro!: keeps_bind keeps_try keeps_first license customer keeps_simple split: option.split)

lemma keeps_finish_apply: "keeps G (finish_apply o' k origin r)"
  unfolding finish_apply_def Let_def
  by (auto intro!: keeps_bind keeps_try keeps_first finalize keeps_load keeps_simple split: option.split)

lemma keeps_apply:
  assumes "P o'"
  shows "keeps G (apply_order_event o' fp now)"
proof -
  have mark: "keeps G (terminalize_foreign_owner_order_event o' k origin now)" "keeps G (terminalize_revoked_order_event o' k origin now)" for k origin
    by (simp_all add: terminalize_foreign_owner_order_event_def terminalize_revoked_order_event_def keeps_terminalize_with
        build_foreign_owner_order_event_mark_def build_revoked_order_event_mark_def)
  have batch: "keeps G (write_entitlement_with_audit_floor
      (order_apply_statements o' prev (map_intent_to_mutation o' prev) (or_project o', or_feature o', fst fp) (snd fp) now))"
    if "de_kind (map_intent_to_mutation o' prev) \<noteq> NoneKind" for prev
    unfolding write_entitlement_with_audit_floor_def
    by (intro keeps_when_batch keeps_bind keeps_simple keeps_batch) (rule apply_batch [OF assms that HOL.refl])
  show ?thesis
    unfolding apply_order_event_def Let_def
    by (intro keeps_bind keeps_read) (auto intro!: mark keeps_terminalize_missing keeps_try batch keeps_write_failure keeps_finish_apply)
qed

lemma keeps_apply_accepted: "P o' \<Longrightarrow> keeps G (apply_accepted o' fp now)"
  unfolding apply_accepted_def
  by (auto intro!: keeps_try keeps_materialize keeps_catch keeps_terminalize_rejected keeps_apply keeps_simple split: option.split)

lemma keeps_failed_accept: "P o' \<Longrightarrow> keeps G (failed_accept_disposition o' fp digest now)"
  unfolding failed_accept_disposition_def
  by (auto intro!: keeps_try keeps_identity_conflicts keeps_claim_stale keeps_apply_accepted keeps_load keeps_simple split: option.split)

lemma keeps_accept: "P o' \<Longrightarrow> keeps G (accept_order o' fp key_id digest payload now)"
  unfolding accept_order_def Let_def
  by (intro keeps_when_batch keeps_try keeps_batch keeps_simple)
    (auto intro: accept keeps_failed_accept keeps_apply_accepted)

lemma keeps_run: "P o' \<Longrightarrow> keeps G (run_exactly_once sha o' key_id digest payload now)"
  unfolding run_exactly_once_def
  by (auto intro!: keeps_try keeps_apply_accepted keeps_load keeps_establish keeps_accept keeps_simple split: option.split)

end

end
