(* ===== verification/Order_Safety.thy ===== *)
theory Order_Safety
  imports Order_Contract
begin

text \<open>
  Two relations the order flow keeps: the event log moves forward and every order is audited at most
  once, and the grants of other customers are spared.
\<close>

section \<open>The event log\<close>

text \<open>An audit event the order \<open>i\<close> wrote.\<close>

definition order_audit :: "string \<Rightarrow> event \<Rightarrow> bool" where
  "order_audit i e \<longleftrightarrow> ev_source e = ''sync'' \<and> ev_request_id e = i \<and> js_starts (ev_detail e) ''order:''"

definition audits :: "string \<Rightarrow> order_db \<Rightarrow> nat" where
  "audits i d = length (filter (order_audit i) (db_events (od_core d)))"

definition audits_due :: "order_event option \<Rightarrow> nat" where
  "audits_due e = (case e of Some e \<Rightarrow> if oe_status e = Processed then 1 else 0 | None \<Rightarrow> 0)"

definition at_of :: "order_event \<Rightarrow> int \<times> int" where
  "at_of e = (oe_epoch e, oe_seq e)"

definition cursor_of :: "order_row \<Rightarrow> int \<times> int" where
  "cursor_of r = (ow_epoch r, ow_last_seq r)"

text \<open>Every event that was ever admitted is behind its subscription's cursor and alone at its place;
  at most one audit event per order, and none before the order is processed.\<close>

definition orders_ok :: "order_db \<Rightarrow> bool" where
  "orders_ok d \<longleftrightarrow>
     distinct (List.map oe_event_id (od_events d)) \<and> distinct (List.map ow_key (od_orders d))
     \<and> (\<forall>e\<in>set (od_events d). oe_status e \<noteq> Superseded \<longrightarrow>
          (\<exists>r. find_order d (oe_key e) = Some r \<and> \<not> comes_before (cursor_of r) (at_of e)))
     \<and> (\<forall>e\<in>set (od_events d). \<forall>e'\<in>set (od_events d). oe_status e \<noteq> Superseded \<and> oe_status e' \<noteq> Superseded
          \<and> oe_key e = oe_key e' \<and> at_of e = at_of e' \<longrightarrow> e = e')
     \<and> (\<forall>i. audits i d \<le> audits_due (find_event d i))"

text \<open>An event may be decided once; only a processed one has its stored answer completed.\<close>

definition admission_of :: "order_event \<Rightarrow> order_event" where
  "admission_of e = e\<lparr>oe_status := Accepted, oe_result := NoResult, oe_processed_at := None\<rparr>"

definition event_later :: "order_event \<Rightarrow> order_event \<Rightarrow> bool" where
  "event_later e e' \<longleftrightarrow>
     admission_of e' = admission_of e
     \<and> (oe_status e \<noteq> Accepted \<longrightarrow> oe_status e' = oe_status e \<and> oe_processed_at e' = oe_processed_at e)
     \<and> (oe_status e = Superseded \<or> oe_status e = Rejected \<longrightarrow> oe_result e' = oe_result e)
     \<and> (oe_status e' = Superseded \<longrightarrow> oe_status e = Superseded)"

definition order_later :: "order_row \<Rightarrow> order_row \<Rightarrow> bool" where
  "order_later r r' \<longleftrightarrow> ow_key r' = ow_key r \<and> ow_fingerprint r' = ow_fingerprint r \<and> ow_origin r' = ow_origin r
     \<and> (\<forall>c. ow_customer_id r = Some c \<longrightarrow> ow_customer_id r' = Some c)
     \<and> (\<forall>l. ow_license_id r = Some l \<longrightarrow> ow_license_id r' = Some l)
     \<and> \<not> comes_before (cursor_of r') (cursor_of r)"

definition grants_later :: "db \<Rightarrow> db \<Rightarrow> bool" where
  "grants_later c c' \<longleftrightarrow> (\<forall>k g. find_grant c k = Some g \<longrightarrow> (\<exists>g'. find_grant c' k = Some g' \<and> later_grant g g'))"

definition order_progress :: "order_db \<Rightarrow> order_db \<Rightarrow> bool" where
  "order_progress d d' \<longleftrightarrow> (orders_ok d \<longrightarrow> orders_ok d')
     \<and> (\<forall>i e. find_event d i = Some e \<longrightarrow> (\<exists>e'. find_event d' i = Some e' \<and> event_later e e'))
     \<and> (\<forall>k r. find_order d k = Some r \<longrightarrow> (\<exists>r'. find_order d' k = Some r' \<and> order_later r r'))
     \<and> (\<forall>k. find_grant (od_core d) k \<noteq> None \<longrightarrow> \<not> comes_before (od_floors d' k) (od_floors d k))
     \<and> grants_later (od_core d) (od_core d')"

lemma not_before_trans: "\<not> comes_before a b \<Longrightarrow> \<not> comes_before b c \<Longrightarrow> \<not> comes_before a c"
  by (auto simp: comes_before_def)

lemma not_before_refl [simp]: "\<not> comes_before a a"
  by (simp add: comes_before_def)

lemma before_not_back: "comes_before a b \<Longrightarrow> \<not> comes_before b a"
  by (auto simp: comes_before_def)

lemma before_not_before: "comes_before a b \<Longrightarrow> \<not> comes_before a c \<Longrightarrow> comes_before c b"
  by (auto simp: comes_before_def)

lemma event_later_refl [simp]: "event_later e e"
  by (simp add: event_later_def)

lemma order_later_refl [simp]: "order_later r r"
  by (simp add: order_later_def)

lemma event_later_trans: "event_later e e' \<Longrightarrow> event_later e' e'' \<Longrightarrow> event_later e e''"
  unfolding event_later_def by (metis event_status.distinct)

lemma order_later_trans: "order_later r r' \<Longrightarrow> order_later r' r'' \<Longrightarrow> order_later r r''"
  using not_before_trans [of "cursor_of r''" "cursor_of r'" "cursor_of r"] by (simp add: order_later_def)

lemma some_later_trans:
  assumes "\<And>x y z. R x y \<Longrightarrow> R y z \<Longrightarrow> R x z"
    and "\<forall>k x. m k = Some x \<longrightarrow> (\<exists>y. m' k = Some y \<and> R x y)" and "\<forall>k x. m' k = Some x \<longrightarrow> (\<exists>y. m'' k = Some y \<and> R x y)"
  shows "\<forall>k x. m k = Some x \<longrightarrow> (\<exists>y. m'' k = Some y \<and> R x y)"
proof (intro allI impI)
  fix k x
  assume "m k = Some x"
  then obtain y where y: "m' k = Some y" "R x y" using assms(2) by blast
  then obtain z where "m'' k = Some z" "R y z" using assms(3) by blast
  with y assms(1) show "\<exists>z. m'' k = Some z \<and> R x z" by blast
qed

lemma grants_later_trans: "grants_later c c' \<Longrightarrow> grants_later c' c'' \<Longrightarrow> grants_later c c''"
  unfolding grants_later_def by (rule some_later_trans [OF later_trans])

lemma order_progress_refl [simp]: "order_progress d d"
  by (simp add: order_progress_def grants_later_def)

lemma order_progress_trans:
  assumes "order_progress d d'" and "order_progress d' d''"
  shows "order_progress d d''"
  unfolding order_progress_def
proof (intro conjI)
  show "orders_ok d \<longrightarrow> orders_ok d''" using assms by (simp add: order_progress_def)
  show "\<forall>i e. find_event d i = Some e \<longrightarrow> (\<exists>e'. find_event d'' i = Some e' \<and> event_later e e')"
    by (rule some_later_trans [OF event_later_trans, where m' = "find_event d'"]) (use assms in \<open>auto simp only: order_progress_def\<close>)
  show "\<forall>k r. find_order d k = Some r \<longrightarrow> (\<exists>r'. find_order d'' k = Some r' \<and> order_later r r')"
    by (rule some_later_trans [OF order_later_trans, where m' = "find_order d'"]) (use assms in \<open>auto simp only: order_progress_def\<close>)
  show "\<forall>k. find_grant (od_core d) k \<noteq> None \<longrightarrow> \<not> comes_before (od_floors d'' k) (od_floors d k)"
  proof (intro allI impI)
    fix k assume k: "find_grant (od_core d) k \<noteq> None"
    have l: "grants_later (od_core d) (od_core d')" using assms(1) by (simp add: order_progress_def)
    then have "find_grant (od_core d') k \<noteq> None" using k unfolding grants_later_def by blast
    then show "\<not> comes_before (od_floors d'' k) (od_floors d k)"
      using k assms unfolding order_progress_def by (elim conjE) (rule not_before_trans [of _ "od_floors d' k"], blast+)
  qed
  show "grants_later (od_core d) (od_core d'')"
    by (rule grants_later_trans [of _ "od_core d'"]) (use assms in \<open>auto simp only: order_progress_def\<close>)
qed

section \<open>Statements away from the log\<close>

text \<open>The log, the orders and the audit events are as they were.\<close>

definition log_same :: "order_db \<Rightarrow> order_db \<Rightarrow> bool" where
  "log_same d d' \<longleftrightarrow> od_orders d' = od_orders d \<and> od_events d' = od_events d
     \<and> db_events (od_core d') = db_events (od_core d)"

lemma log_same_refl [simp]: "log_same d d"
  by (simp add: log_same_def)

lemma log_same_finds:
  assumes "log_same d d'"
  shows "find_event d' = find_event d" and "find_order d' = find_order d" and "audits i d' = audits i d"
    and "orders_ok d' \<longleftrightarrow> orders_ok d"
proof -
  show e: "find_event d' = find_event d" and o: "find_order d' = find_order d" and a: "audits i d' = audits i d" for i
    using assms by (auto simp: log_same_def find_event_def find_order_def audits_def fun_eq_iff)
  then show "orders_ok d' \<longleftrightarrow> orders_ok d"
    using assms unfolding orders_ok_def by (simp add: log_same_def)
qed

lemma progress_log_same:
  assumes "log_same d d'" and "\<And>k. find_grant (od_core d) k \<noteq> None \<Longrightarrow> \<not> comes_before (od_floors d' k) (od_floors d k)"
    and "grants_later (od_core d) (od_core d')"
  shows "order_progress d d'"
  using assms by (simp add: order_progress_def log_same_finds)

lemma set_changes_simps [simp]:
  "od_floors (set_changes n d) = od_floors d" "od_orders (set_changes n d) = od_orders d"
  "od_events (set_changes n d) = od_events d" "db_events (od_core (set_changes n d)) = db_events (od_core d)"
  "find_grant (od_core (set_changes n d)) = find_grant (od_core d)" "changes_of (set_changes n d) = n"
  "find_event (set_changes n d) = find_event d" "find_order (set_changes n d) = find_order d"
  "od_licenses (set_changes n d) = od_licenses d" "od_customers (set_changes n d) = od_customers d"
  by (simp_all add: set_changes_def changes_of_def find_grant_def find_event_def find_order_def fun_eq_iff)

lemma grants_later_same: "find_grant c' = find_grant c \<Longrightarrow> grants_later c c'"
  by (simp add: grants_later_def)

lemma order_kept_upsert_license: "order_kept order_progress (upsert_license o' lid now)"
  unfolding order_kept_def
proof (intro allI impI)
  fix d rows d'
  assume "upsert_license o' lid now d = Inr (rows, d')"
  then have "log_same d d' \<and> od_floors d' = od_floors d \<and> find_grant (od_core d') = find_grant (od_core d)"
    by (auto simp: upsert_license_def log_same_def split: option.splits if_splits)
  then show "order_progress d d'" by (intro progress_log_same grants_later_same) auto
qed

lemma order_kept_insert_customer: "order_kept order_progress (insert_customer cu email withdrawal now)"
  unfolding order_kept_def
proof (intro allI impI)
  fix d rows d'
  assume "insert_customer cu email withdrawal now d = Inr (rows, d')"
  then have "log_same d d' \<and> od_floors d' = od_floors d \<and> find_grant (od_core d') = find_grant (od_core d)"
    by (auto simp: insert_customer_def log_same_def Let_def split: option.splits if_splits)
  then show "order_progress d d'" by (intro progress_log_same grants_later_same) auto
qed

section \<open>Deciding an event\<close>

lemma find_map_id:
  assumes "\<And>e. h (u e) = h e"
  shows "find (\<lambda>e. h e = i) (List.map u es) = map_option u (find (\<lambda>e. h e = i) es)"
  using assms by (induction es) auto

lemma event_later_admission:
  assumes "event_later e e'"
  shows "oe_event_id e' = oe_event_id e" "oe_key e' = oe_key e" "at_of e' = at_of e"
    and "oe_status e' \<noteq> Superseded \<Longrightarrow> oe_status e \<noteq> Superseded"
proof -
  have a: "admission_of e' = admission_of e" using assms by (simp add: event_later_def)
  then show "oe_event_id e' = oe_event_id e" "oe_key e' = oe_key e" "at_of e' = at_of e"
    by (cases e; cases e'; simp add: admission_of_def at_of_def)+
  show "oe_status e' \<noteq> Superseded \<Longrightarrow> oe_status e \<noteq> Superseded"
    using assms by (auto simp: event_later_def)
qed

lemma map_events_ok:
  assumes ok: "orders_ok d" and u: "\<And>e. e \<in> set (od_events d) \<Longrightarrow> event_later e (u e)"
    and d': "od_orders d' = od_orders d" "od_events d' = List.map u (od_events d)"
    and au: "\<And>i. audits i d' \<le> audits_due (find_event d' i)"
  shows "orders_ok d'"
proof -
  note k = event_later_admission [OF u]
  have ids: "List.map oe_event_id (od_events d') = List.map oe_event_id (od_events d)"
    using k(1) by (simp add: d')
  have fo: "find_order d' = find_order d" by (simp add: find_order_def d' fun_eq_iff)
  show ?thesis
    unfolding orders_ok_def
  proof (intro conjI ballI impI allI)
    show "distinct (List.map oe_event_id (od_events d'))" "distinct (List.map ow_key (od_orders d'))"
      using ok unfolding orders_ok_def ids d'(1) by blast+
    show "audits i d' \<le> audits_due (find_event d' i)" for i by (rule au)
  next
    fix e' assume "e' \<in> set (od_events d')" and s: "oe_status e' \<noteq> Superseded"
    then obtain e where e: "e \<in> set (od_events d)" "e' = u e" by (auto simp: d')
    with s k(4) ok obtain r where "find_order d (oe_key e) = Some r" "\<not> comes_before (cursor_of r) (at_of e)"
      unfolding orders_ok_def by blast
    with e k show "\<exists>r. find_order d' (oe_key e') = Some r \<and> \<not> comes_before (cursor_of r) (at_of e')"
      by (simp add: fo)
  next
    fix e1 e2 assume "e1 \<in> set (od_events d')" "e2 \<in> set (od_events d')"
      and s: "oe_status e1 \<noteq> Superseded \<and> oe_status e2 \<noteq> Superseded \<and> oe_key e1 = oe_key e2 \<and> at_of e1 = at_of e2"
    then obtain a b where e: "a \<in> set (od_events d)" "e1 = u a" "b \<in> set (od_events d)" "e2 = u b" by (auto simp: d')
    have "a = b"
      using ok s k(2-4) [OF e(1)] k(2-4) [OF e(3)] e unfolding orders_ok_def by metis
    with e show "e1 = e2" by simp
  qed
qed

lemma update_events_progress:
  assumes r: "update_events cond f d = Inr (rows, d')"
    and f: "\<And>e. cond e \<Longrightarrow> event_later e (f e) \<and> audits_due (Some e) \<le> audits_due (Some (f e))"
  shows "order_progress d d'"
proof -
  define u where "u = (\<lambda>e. if cond e then f e else e)"
  have ev: "od_events d' = List.map u (od_events d)" and od: "od_orders d' = od_orders d" "od_floors d' = od_floors d"
    and core: "find_grant (od_core d') = find_grant (od_core d)" "db_events (od_core d') = db_events (od_core d)"
    using r by (auto simp: update_events_def Let_def u_def)
  have u: "event_later e (u e)" "audits_due (Some e) \<le> audits_due (Some (u e))" for e
    using f by (auto simp: u_def)
  have fe: "find_event d' i = map_option u (find_event d i)" for i
    unfolding find_event_def ev by (rule find_map_id) (rule event_later_admission(1) [OF u(1)])
  have au: "audits i d' = audits i d" for i by (simp add: audits_def core)
  show ?thesis
    unfolding order_progress_def
  proof (intro conjI impI allI)
    assume ok: "orders_ok d"
    have "audits i d' \<le> audits_due (find_event d' i)" for i
    proof -
      have "audits i d \<le> audits_due (find_event d i)" using ok by (simp add: orders_ok_def)
      also have "\<dots> \<le> audits_due (map_option u (find_event d i))"
        using u(2) by (cases "find_event d i") simp_all
      finally show ?thesis by (simp add: au fe)
    qed
    with ok u(1) od(1) ev show "orders_ok d'" by (rule map_events_ok)
  next
    fix i e assume "find_event d i = Some e"
    with u(1) show "\<exists>e'. find_event d' i = Some e' \<and> event_later e e'" by (simp add: fe)
  next
    fix k r assume "find_order d k = Some r"
    moreover have "find_order d' = find_order d" by (simp add: find_order_def od fun_eq_iff)
    ultimately show "\<exists>r'. find_order d' k = Some r' \<and> order_later r r'" by simp
  next
    show "\<not> comes_before (od_floors d' k) (od_floors d k)" for k by (simp add: od)
    show "grants_later (od_core d) (od_core d')" using core(1) by (rule grants_later_same)
  qed
qed

lemma order_kept_finish:
  assumes "status \<in> {Processed, Rejected}"
  shows "order_kept order_progress (finish_event i status body now cond)"
  unfolding order_kept_def
proof (intro allI impI)
  fix d rows d'
  assume "finish_event i status body now cond d = Inr (rows, d')"
  then show "order_progress d d'"
    unfolding finish_event_def
    by (rule update_events_progress) (use assms in \<open>auto simp: event_later_def admission_of_def audits_due_def\<close>)
qed

lemma order_kept_finalize: "order_kept order_progress (finalize_statement i body)"
  unfolding order_kept_def
proof (intro allI impI)
  fix d rows d'
  assume "finalize_statement i body d = Inr (rows, d')"
  then show "order_progress d d'"
    unfolding finalize_statement_def
    by (rule update_events_progress) (auto simp: event_later_def admission_of_def audits_due_def)
qed

section \<open>Admitting an event\<close>

lemma find_snoc: "find P (xs @ [x]) = (case find P xs of Some y \<Rightarrow> Some y | None \<Rightarrow> if P x then Some x else None)"
  by (induction xs) auto

lemma find_distinct: "distinct (List.map h xs) \<Longrightarrow> x \<in> set xs \<Longrightarrow> find (\<lambda>y. h y = h x) xs = Some x"
  by (induction xs) auto

lemma order_kept_identity: "order_kept order_progress (insert_order_identity o' fp now)"
  unfolding order_kept_def
proof (intro allI impI)
  fix d rows d'
  assume r: "insert_order_identity o' fp now d = Inr (rows, d')"
  show "order_progress d d'"
  proof (cases "d' = set_changes 0 d")
    case True
    then show ?thesis by (intro progress_log_same grants_later_same) (simp_all add: log_same_def)
  next
    case False
    define row where "row = \<lparr>ow_key = subscription_of o', ow_fingerprint = fst fp, ow_customer_id = None, ow_license_id = None,
      ow_last_seq = - 1, ow_epoch = 0, ow_origin = snd fp, ow_created_at = now, ow_updated_at = now\<rparr>"
    have new: "\<forall>r\<in>set (od_orders d). ow_key r \<noteq> ow_key row"
      and d': "od_orders d' = od_orders d @ [row]" "od_events d' = od_events d" "od_floors d' = od_floors d"
        "find_grant (od_core d') = find_grant (od_core d)" "db_events (od_core d') = db_events (od_core d)"
      using r False by (auto simp: insert_order_identity_def row_def list_ex_iff split: if_splits)
    have fo: "find_order d k = Some r \<Longrightarrow> find_order d' k = Some r" for k r
      by (simp add: find_order_def d' find_snoc)
    have fe: "find_event d' = find_event d" and au: "audits i d' = audits i d" for i
      by (simp_all add: find_event_def audits_def d' fun_eq_iff)
    show ?thesis
      unfolding order_progress_def
    proof (intro conjI impI allI)
      assume ok: "orders_ok d"
      show "orders_ok d'"
        unfolding orders_ok_def d'(2) fe au
      proof (intro conjI)
        show "distinct (List.map ow_key (od_orders d'))"
          using ok new by (auto simp: orders_ok_def d')
        show "\<forall>e\<in>set (od_events d). oe_status e \<noteq> Superseded \<longrightarrow>
            (\<exists>r. find_order d' (oe_key e) = Some r \<and> \<not> comes_before (cursor_of r) (at_of e))"
          using ok fo unfolding orders_ok_def by blast
      qed (use ok in \<open>unfold orders_ok_def, blast+\<close>)
    next
      fix k r assume "find_order d k = Some r"
      from fo [OF this] show "\<exists>r'. find_order d' k = Some r' \<and> order_later r r'" by simp
    qed (simp_all add: fe d' grants_later_same)
  qed
qed

lemma append_event_ok:
  assumes ok: "orders_ok d" and new: "find_event d (oe_event_id e) = None"
    and d': "od_orders d' = od_orders d" "od_events d' = od_events d @ [e]" "db_events (od_core d') = db_events (od_core d)"
    and adm: "oe_status e \<noteq> Superseded \<Longrightarrow> (\<exists>r. find_order d (oe_key e) = Some r \<and> \<not> comes_before (cursor_of r) (at_of e))
       \<and> (\<forall>x\<in>set (od_events d). oe_status x \<noteq> Superseded \<and> oe_key x = oe_key e \<longrightarrow> at_of x \<noteq> at_of e)"
  shows "orders_ok d'"
proof -
  have fo: "find_order d' = find_order d" and au: "audits i d' = audits i d" for i
    by (simp_all add: find_order_def audits_def d' fun_eq_iff)
  have fe: "find_event d' i = (if i = oe_event_id e then Some e else find_event d i)" for i
    using new by (auto simp: find_event_def d' find_snoc split: option.split)
  have zero: "audits (oe_event_id e) d = 0"
    using ok new unfolding orders_ok_def by (metis audits_due_def le_zero_eq option.case(1))
  show ?thesis
    unfolding orders_ok_def fo
  proof (intro conjI allI)
    show "distinct (List.map oe_event_id (od_events d'))"
      using ok new by (auto simp: orders_ok_def d' find_event_def find_None_iff)
    show "distinct (List.map ow_key (od_orders d'))" using ok by (simp add: orders_ok_def d')
    show "\<forall>x\<in>set (od_events d'). oe_status x \<noteq> Superseded \<longrightarrow>
        (\<exists>r. find_order d (oe_key x) = Some r \<and> \<not> comes_before (cursor_of r) (at_of x))"
      using ok adm unfolding orders_ok_def d' by auto
    show "\<forall>x\<in>set (od_events d'). \<forall>y\<in>set (od_events d'). oe_status x \<noteq> Superseded \<and> oe_status y \<noteq> Superseded
        \<and> oe_key x = oe_key y \<and> at_of x = at_of y \<longrightarrow> x = y"
    proof (intro ballI impI)
      fix x y assume xy: "x \<in> set (od_events d')" "y \<in> set (od_events d')"
        and s: "oe_status x \<noteq> Superseded \<and> oe_status y \<noteq> Superseded \<and> oe_key x = oe_key y \<and> at_of x = at_of y"
      consider "x \<in> set (od_events d)" "y \<in> set (od_events d)" | "x = e" "y = e"
        | "x = e" "y \<in> set (od_events d)" | "x \<in> set (od_events d)" "y = e"
        using xy by (auto simp: d')
      then show "x = y"
      proof cases
        case 1
        then show ?thesis using ok s unfolding orders_ok_def by blast
      next
        case 3
        then show ?thesis using s adm by metis
      next
        case 4
        then show ?thesis using s adm by metis
      qed simp
    qed
    show "audits i d' \<le> audits_due (find_event d' i)" for i
      using ok zero by (cases "i = oe_event_id e") (simp_all add: au fe orders_ok_def)
  qed
qed

lemma append_event_later:
  assumes "od_events d' = od_events d @ [e]" and "find_event d i = Some x"
  shows "find_event d' i = Some x"
  using assms by (simp add: find_event_def find_snoc)

lemma order_kept_stale: "order_kept order_progress (claim_stale_statement o' digest body now)"
  unfolding order_kept_def
proof (intro allI impI)
  fix d rows d'
  assume r: "claim_stale_statement o' digest body now d = Inr (rows, d')"
  show "order_progress d d'"
  proof (cases "d' = set_changes 0 d")
    case True
    then show ?thesis by (intro progress_log_same grants_later_same) (simp_all add: log_same_def)
  next
    case False
    define e where "e = new_event o' [] digest [] Superseded (Envelope body) now (Some now)"
    have new: "find_event d (oe_event_id e) = None" and s: "oe_status e = Superseded"
      and d': "od_orders d' = od_orders d" "od_events d' = od_events d @ [e]" "db_events (od_core d') = db_events (od_core d)"
        "od_floors d' = od_floors d" "find_grant (od_core d') = find_grant (od_core d)"
      using r False by (auto simp: claim_stale_statement_def e_def new_event_def split: if_splits)
    have fo: "find_order d' = find_order d" by (simp add: find_order_def d' fun_eq_iff)
    show ?thesis
      unfolding order_progress_def
    proof (intro conjI impI allI)
      assume "orders_ok d"
      then show "orders_ok d'" by (rule append_event_ok [OF _ new d'(1-3)]) (simp add: s)
    next
      fix i x assume "find_event d i = Some x"
      from append_event_later [OF d'(2) this] show "\<exists>e'. find_event d' i = Some e' \<and> event_later x e'" by simp
    qed (simp_all add: fo d' grants_later_same)
  qed
qed

text \<open>The cursor moves forward over the one row it finds.\<close>

definition advanced :: "order \<Rightarrow> int \<Rightarrow> order_row \<Rightarrow> order_row" where
  "advanced o' now r = r\<lparr>ow_epoch := or_epoch o', ow_last_seq := or_seq o',
     ow_customer_id := (case ow_customer_id r of None \<Rightarrow> Some (cu_id (or_customer o')) | c \<Rightarrow> c),
     ow_license_id := (case ow_license_id r of None \<Rightarrow> or_license_id o' | l \<Rightarrow> l), ow_updated_at := now\<rparr>"

lemma advanced_later: "admits o' fp r \<Longrightarrow> order_later r (advanced o' now r)"
  using before_not_back [of "cursor_of r" "(or_epoch o', or_seq o')"]
  by (auto simp: order_later_def advanced_def admits_def cursor_of_def)

lemma cursor_advance_cases:
  assumes "build_order_cursor_advance o' now fp reserved d = Inr (rows, d')"
  obtains u where "od_orders d' = List.map u (od_orders d)" "\<And>r. order_later r (u r)"
    and "\<And>r. u r = r \<or> (admits o' fp r \<and> u r = advanced o' now r)"
    and "rows = List.map (\<lambda>_. CursorOut (or_seq o') (or_epoch o')) (filter (\<lambda>r. (reserved \<longrightarrow> changes_of d = 1) \<and> admits o' fp r) (od_orders d))"
    and "changes_of d' = length (filter (\<lambda>r. (reserved \<longrightarrow> changes_of d = 1) \<and> admits o' fp r) (od_orders d))"
    and "od_events d' = od_events d" "od_floors d' = od_floors d" "db_events (od_core d') = db_events (od_core d)"
      "find_grant (od_core d') = find_grant (od_core d)"
proof -
  define u where "u = (\<lambda>r. if (reserved \<longrightarrow> changes_of d = 1) \<and> admits o' fp r then advanced o' now r else r)"
  have "order_later r (u r)" for r by (auto simp: u_def intro: advanced_later)
  moreover have "u r = r \<or> (admits o' fp r \<and> u r = advanced o' now r)" for r by (simp add: u_def)
  ultimately show thesis
    using assms that [of u]
    by (auto simp: build_order_cursor_advance_def Let_def u_def advanced_def [abs_def] changes_of_def set_changes_def find_grant_def fun_eq_iff)
qed

lemma cursor_progress:
  assumes "build_order_cursor_advance o' now fp reserved d = Inr (rows, d')"
  shows "order_progress d d'"
  using assms
proof (cases rule: cursor_advance_cases)
  case (1 u)
  have key: "ow_key (u r) = ow_key r" for r using 1(2) by (simp add: order_later_def)
  have fo: "find_order d' k = map_option u (find_order d k)" for k
    unfolding find_order_def 1(1) by (rule find_map_id) (rule key)
  have fe: "find_event d' = find_event d" and au: "audits i d' = audits i d" for i
    by (simp_all add: find_event_def audits_def 1 fun_eq_iff)
  show ?thesis
    unfolding order_progress_def
  proof (intro conjI impI allI)
    assume ok: "orders_ok d"
    have keys: "List.map ow_key (od_orders d') = List.map ow_key (od_orders d)" by (simp add: 1(1) key)
    show "orders_ok d'"
      unfolding orders_ok_def 1(6) fe au keys
    proof (intro conjI ballI impI)
      fix e assume "e \<in> set (od_events d)" "oe_status e \<noteq> Superseded"
      then obtain r where r: "find_order d (oe_key e) = Some r" "\<not> comes_before (cursor_of r) (at_of e)"
        using ok unfolding orders_ok_def by blast
      have "\<not> comes_before (cursor_of (u r)) (cursor_of r)" using 1(2) by (simp add: order_later_def)
      with r show "\<exists>r. find_order d' (oe_key e) = Some r \<and> \<not> comes_before (cursor_of r) (at_of e)"
        using not_before_trans [of "cursor_of (u r)" "cursor_of r" "at_of e"] by (simp add: fo)
    qed (use ok in \<open>unfold orders_ok_def, blast+\<close>)
  next
    fix k r assume "find_order d k = Some r"
    with 1(2) show "\<exists>r'. find_order d' k = Some r' \<and> order_later r r'" by (simp add: fo)
  qed (simp_all add: fe 1 grants_later_same)
qed

lemma claim_progress:
  assumes c: "build_order_cursor_advance o' now fp reserved d = Inr (rows, d1)"
    and e: "event_claim_statement o' key_id digest payload now fp d1 = Inr (rows', d')"
  shows "order_progress d d'"
proof (cases "d' = set_changes 0 d1")
  case True
  have "order_progress d1 d'" unfolding True by (intro progress_log_same grants_later_same) (simp_all add: log_same_def)
  with cursor_progress [OF c] show ?thesis by (rule order_progress_trans)
next
  case False
  define ev where "ev = new_event o' key_id digest payload Accepted NoResult now None"
  have e1: "changes_of d1 = 1" "find_event d1 (oe_event_id ev) = None"
    and d': "od_orders d' = od_orders d1" "od_events d' = od_events d1 @ [ev]" "db_events (od_core d') = db_events (od_core d1)"
      "od_floors d' = od_floors d1" "find_grant (od_core d') = find_grant (od_core d1)"
    using e False by (auto simp: event_claim_statement_def ev_def new_event_def split: if_splits)
  have ev: "oe_key ev = subscription_of o'" "at_of ev = (or_epoch o', or_seq o')"
    by (simp_all add: ev_def new_event_def at_of_def)
  note p1 = cursor_progress [OF c]
  have ok: "orders_ok d'" if ok: "orders_ok d"
  proof (rule append_event_ok [OF _ e1(2) d'(1-3)])
    show "orders_ok d1" using p1 ok by (simp add: order_progress_def)
    from c show "(\<exists>r. find_order d1 (oe_key ev) = Some r \<and> \<not> comes_before (cursor_of r) (at_of ev))
       \<and> (\<forall>x\<in>set (od_events d1). oe_status x \<noteq> Superseded \<and> oe_key x = oe_key ev \<longrightarrow> at_of x \<noteq> at_of ev)"
    proof (cases rule: cursor_advance_cases)
      case (1 u)
      from e1(1) 1(5) obtain r where r: "r \<in> set (od_orders d)" "admits o' fp r" "reserved \<longrightarrow> changes_of d = 1"
        by (metis (mono_tags, lifting) filter_empty_conv list.size(3) zero_neq_one)
      have rk: "ow_key r = subscription_of o'" and rb: "comes_before (cursor_of r) (at_of ev)"
        using r(2) by (simp_all add: admits_def cursor_of_def ev)
      have fr: "find_order d (subscription_of o') = Some r"
        using find_distinct [of ow_key "od_orders d" r] ok r(1) rk by (simp add: orders_ok_def find_order_def)
      have key: "ow_key (u r) = ow_key r" for r using 1(2) by (simp add: order_later_def)
      have fo: "find_order d1 k = map_option u (find_order d k)" for k
        unfolding find_order_def 1(1) by (rule find_map_id) (rule key)
      have "\<not> comes_before (cursor_of (u r)) (at_of ev)"
      proof (cases "u r = r")
        case False
        then have "u r = advanced o' now r" using 1(3) by blast
        then show ?thesis by (simp add: ev cursor_of_def advanced_def)
      next
        case True
        have "list_ex (\<lambda>r. ow_key r = subscription_of o' \<and> ow_epoch r = or_epoch o' \<and> ow_last_seq r = or_seq o') (od_orders d1)"
          using e False e1 by (auto simp: event_claim_statement_def list_ex_iff split: if_splits)
        then obtain x where x: "x \<in> set (od_orders d)" "ow_key (u x) = subscription_of o'" "cursor_of (u x) = at_of ev"
          by (auto simp: list_ex_iff 1(1) ev cursor_of_def)
        with find_distinct [of ow_key "od_orders d" x] ok key fr have "x = r"
          by (simp add: orders_ok_def find_order_def)
        with x show ?thesis by simp
      qed
      moreover have "at_of x \<noteq> at_of ev" if "x \<in> set (od_events d1)" "oe_status x \<noteq> Superseded" "oe_key x = oe_key ev" for x
      proof
        assume a: "at_of x = at_of ev"
        from that 1(6) ok obtain y where "find_order d (oe_key x) = Some y" "\<not> comes_before (cursor_of y) (at_of x)"
          unfolding orders_ok_def by metis
        with that fr rb a show False by (simp add: ev)
      qed
      ultimately show ?thesis using fr by (auto simp: fo ev(1))
    qed
  qed
  have fo: "find_order d' = find_order d1" by (simp add: find_order_def d' fun_eq_iff)
  have fe: "find_event d1 i = Some x \<Longrightarrow> find_event d' i = Some x" for i x using append_event_later [OF d'(2)] .
  show ?thesis
    using p1 ok fe unfolding order_progress_def fo d'(4,5) grants_later_def by blast
qed

lemma accept_progress:
  assumes "run_statements (build_accept_batch o' key_id digest payload now fp) d = Inr (rs, d')"
  shows "order_progress d d'"
proof (cases "or_license_id o'")
  case None
  with assms show ?thesis
    by (auto simp: build_accept_batch_def build_order_license_reservation_def rbind_Inr_iff intro: claim_progress)
next
  case (Some lid)
  define s where "s = (\<lambda>d. if list_ex (admits o' fp) (od_orders d) then upsert_license o' lid now d else Inr ([], set_changes 0 d))"
  have res: "build_order_license_reservation o' now fp = Some s"
    by (simp add: build_order_license_reservation_def Some s_def)
  from assms obtain r0 d0 r1 d1 r2 where s: "s d = Inr (r0, d0)"
    and c: "build_order_cursor_advance o' now fp True d0 = Inr (r1, d1)"
    and e: "event_claim_statement o' key_id digest payload now fp d1 = Inr (r2, d')"
    by (auto simp: build_accept_batch_def res rbind_Inr_iff)
  have "order_progress d d0"
  proof (cases "list_ex (admits o' fp) (od_orders d)")
    case True
    with s show ?thesis using order_kept_upsert_license by (auto simp: s_def order_kept_def)
  next
    case False
    with s have "d0 = set_changes 0 d" by (simp add: s_def)
    then show ?thesis by (intro progress_log_same grants_later_same) (simp_all add: log_same_def)
  qed
  then show ?thesis using claim_progress [OF c e] by (rule order_progress_trans)
qed

section \<open>The write of an order\<close>

text \<open>The one thing the first statement of an apply may do.\<close>

definition wrote :: "order \<Rightarrow> grant_key \<Rightarrow> grant \<Rightarrow> order_db \<Rightarrow> order_db \<Rightarrow> bool" where
  "wrote o' k g d d' \<longleftrightarrow> find_grant (od_core d') = (find_grant (od_core d))(k \<mapsto> g) \<and> db_events (od_core d') = db_events (od_core d)
     \<and> od_floors d' = (od_floors d)(k := (or_epoch o', or_seq o')) \<and> changes_of d' = 1
     \<and> od_orders d' = od_orders d \<and> od_events d' = od_events d \<and> key_of g = k
     \<and> g_customer_id g = cu_id (or_customer o')
     \<and> (\<forall>p. find_grant (od_core d) k = Some p \<longrightarrow> later_grant p g \<and> g_revocation_seq p < g_revocation_seq g
          \<and> g_customer_id p = g_customer_id g \<and> comes_before (od_floors d k) (or_epoch o', or_seq o'))"

lemma bump_greater: "g_revocation_seq g < revocation_seq_bump c g"
  by (simp add: revocation_seq_bump_def)

lemma update_floored_cases:
  assumes r: "update_floored cols k (or_epoch o', or_seq o') cond f d = Inr (rows, d')"
    and key: "\<And>c g. key_of (f c g) = key_of g" and owner: "\<And>c g. g_customer_id (f c g) = g_customer_id g"
    and seq: "\<And>c g. g_revocation_seq g < g_revocation_seq (f c g)"
    and cond: "\<And>g. cond g \<Longrightarrow> g_customer_id g = cu_id (or_customer o')"
    and revoked: "\<And>c g. cond g \<Longrightarrow> g_status g = ''revoked'' \<Longrightarrow> g_status (f c g) = ''revoked''"
  shows "(rows = [] \<and> d' = set_changes 0 d)
     \<or> (\<exists>p. find_grant (od_core d) k = Some p \<and> cond p \<and> rows = [GrantOut (f (od_core d) p)] \<and> wrote o' k (f (od_core d) p) d d')"
proof -
  from r obtain rs c where u: "update_grant cols k (\<lambda>_ g. cond g \<and> comes_before (od_floors d k) (or_epoch o', or_seq o')) f (od_core d) = Inr (rs, c)"
    and d': "(case rs of [] \<Rightarrow> Inr ([], d\<lparr>od_core := c\<rparr>)
       | _ \<Rightarrow> Inr (List.map (\<lambda>r. case r of GrantRow g \<Rightarrow> GrantOut g | ResponseRow r \<Rightarrow> GrantOut (gr_data r)) rs,
           d\<lparr>od_core := c, od_floors := (od_floors d)(k := (or_epoch o', or_seq o'))\<rparr>)) = (Inr (rows, d') :: (order_result list \<times> order_db) outcome)"
    unfolding update_floored_def by (auto simp: rbind_Inr_iff)
  from u key show ?thesis
  proof (cases rule: update_grant_cases)
    case missed
    with d' show ?thesis by (simp add: set_changes_def)
  next
    case (hit p)
    have "wrote o' k (f (od_core d) p) d d'"
      using d' hit owner [of "od_core d" p] seq [of p "od_core d"] cond [of p] revoked [of p "od_core d"]
      by (auto simp: wrote_def stored_def changes_of_def later_grant_def)
    with hit d' show ?thesis by auto
  qed
qed

lemma order_write_cases:
  assumes "fst (order_write o' prev m k now) d = Inr (rows, d')" and "de_kind m \<noteq> NoneKind"
  shows "(rows = [] \<and> d' = set_changes 0 d)
     \<or> (\<exists>g. rows = [GrantOut g] \<and> wrote o' k g d d' \<and> (requires_live m \<longrightarrow> g_status g \<noteq> ''revoked''))"
proof -
  have status: "or_else x [] = ''revoked'' \<longleftrightarrow> x = Some ''revoked''" for x :: "string option"
    by (cases x) (simp_all add: or_else_def)
  show ?thesis
  proof (cases "de_kind m")
    case CreateKind
    show ?thesis
    proof (cases "find_grant (od_core d) k")
      case None
      define g where "g = new_grant (od_core d) k (create_fields_of o' prev m now) now"
      have key: "key_of g = k" by (cases k) (simp add: g_def new_grant_def key_of_def)
      have g: "g_status g = ''active''" "g_customer_id g = cu_id (or_customer o')"
        by (cases k; simp add: g_def new_grant_def create_fields_of_def Let_def)+
      from assms(1) None CreateKind obtain rs c where i: "insert_grant g (od_core d) = Inr (rs, c)"
        and d': "rows = [GrantOut g]" "d' = d\<lparr>od_core := c, od_floors := (od_floors d)(k := (or_epoch o', or_seq o'))\<rparr>"
        by (auto simp: order_write_def Let_def build_create_statement_def rbind_Inr_iff g_def)
      have "stored k g (od_core d) c" using insert_grant_stored [OF i] None key by simp
      then have "wrote o' k g d d'" using g key None by (simp add: wrote_def d' stored_def changes_of_def)
      with d' g show ?thesis by simp
    next
      case (Some p)
      from assms(1) Some CreateKind show ?thesis
        by (simp add: order_write_def Let_def build_create_statement_def)
          (drule update_floored_cases; auto simp: key_of_def bump_greater create_fields_of_def Let_def)
    qed
  next
    case PatchKind
    with assms(1) obtain p where "prev = Some p" by (cases prev) (auto simp: order_write_def Let_def)
    with assms(1) PatchKind show ?thesis
      by (simp add: order_write_def Let_def build_patch_statement_def)
        (drule update_floored_cases; auto simp: key_of_def bump_greater)
  next
    case TransitionKind
    with assms(1) show ?thesis
      by (simp add: order_write_def Let_def build_transition_statement_def)
        (drule update_floored_cases; auto simp: key_of_def bump_greater requires_live_def status)
  next
    case CapacityKind
    with assms(1) show ?thesis
      by (simp add: order_write_def Let_def build_capacity_statement_def)
        (drule update_floored_cases; auto simp: key_of_def bump_greater)
  qed (use assms in simp)
qed

section \<open>The apply batch\<close>

lemma finish_misses:
  assumes "\<not> cond d" and "finish_event i status body now cond d = Inr (rows, d')"
  shows "rows = [] \<and> d' = set_changes 0 d"
  using assms by (auto simp: finish_event_def update_events_def Let_def)

lemma order_audit_own: "order_audit i (order_audit_event ty o' g now) \<longleftrightarrow> i = or_event_id o'"
  by (auto simp: order_audit_def order_audit_event_def js_starts_append)

lemma wrote_progress: "wrote o' k g d d' \<Longrightarrow> order_progress d d'"
  by (rule progress_log_same) (auto simp: log_same_def wrote_def grants_later_def dest: before_not_back)

text \<open>What the refusal marks and the last mark do after an audited write: the event is processed.\<close>

definition processed_mark :: "string \<Rightarrow> order_body \<Rightarrow> int \<Rightarrow> order_event \<Rightarrow> order_event" where
  "processed_mark i body now e = (if oe_event_id e = i \<and> oe_status e = Accepted
     then e\<lparr>oe_status := Processed, oe_result := Envelope body, oe_processed_at := Some now\<rparr> else e)"

lemma processed_mark_result:
  assumes "build_processed_mark_statement i body now d = Inr (rows, d')"
  shows "od_events d' = List.map (processed_mark i body now) (od_events d)" and "od_orders d' = od_orders d"
    and "od_floors d' = od_floors d" and "find_grant (od_core d') = find_grant (od_core d)"
    and "db_events (od_core d') = db_events (od_core d)"
    and "rows = List.map (\<lambda>e. EventOut i) (filter (\<lambda>e. oe_event_id e = i \<and> oe_status e = Accepted) (od_events d))"
  using assms by (auto simp: build_processed_mark_statement_def finish_event_def update_events_def Let_def processed_mark_def [abs_def]
      intro: map_cong)

lemma processed_mark_later: "event_later e (processed_mark i body now e)"
  by (simp add: processed_mark_def event_later_def admission_of_def)

lemma audit_statement_cases:
  assumes "build_order_event_statement k ty o' now live d = Inr (rows, d')"
  shows "d' = set_changes 0 d
     \<or> (\<exists>g. find_grant (od_core d) k = Some g \<and> g_customer_id g = cu_id (or_customer o') \<and> changes_of d = 1
          \<and> (live \<longrightarrow> g_status g \<noteq> ''revoked'') \<and> event_accepted d (or_event_id o')
          \<and> d' = d\<lparr>od_core := (od_core d)\<lparr>db_events := db_events (od_core d) @ [order_audit_event ty o' g now], db_changes := 1\<rparr>\<rparr>)"
  using assms by (auto simp: build_order_event_statement_def split: option.splits if_splits)

lemma audited_apply_progress:
  assumes p: "order_progress d0 d" and ev: "od_events d0 = od_events d" "db_events (od_core d0) = db_events (od_core d)" "od_orders d0 = od_orders d"
    and acc: "event_accepted d (or_event_id o')"
    and d1: "d1 = d\<lparr>od_core := (od_core d)\<lparr>db_events := db_events (od_core d) @ [order_audit_event ty o' g now], db_changes := 1\<rparr>\<rparr>"
    and d2: "od_events d2 = List.map (processed_mark (or_event_id o') body now) (od_events d1)" "od_orders d2 = od_orders d1"
      "od_floors d2 = od_floors d1" "find_grant (od_core d2) = find_grant (od_core d1)" "db_events (od_core d2) = db_events (od_core d1)"
  shows "order_progress d0 d2"
proof -
  let ?u = "processed_mark (or_event_id o') body now"
  have e: "od_events d2 = List.map ?u (od_events d)" "od_orders d2 = od_orders d" by (simp_all add: d2 d1)
  have fo: "find_order d2 = find_order d" by (simp add: find_order_def e fun_eq_iff)
  have fe: "find_event d2 i = map_option ?u (find_event d i)" for i
    unfolding find_event_def e(1) by (rule find_map_id) (rule event_later_admission(1) [OF processed_mark_later])
  have au: "audits i d2 = audits i d + (if i = or_event_id o' then 1 else 0)" for i
    by (simp add: audits_def d2(5) d1 order_audit_own)
  have gr: "find_grant (od_core d2) = find_grant (od_core d)" by (simp add: d2(4) d1 find_grant_def fun_eq_iff)
  have ok: "orders_ok d2" if "orders_ok d"
  proof (rule map_events_ok [OF that processed_mark_later e(2,1)])
    fix i
    have le: "audits i d \<le> audits_due (find_event d i)" using that by (simp add: orders_ok_def)
    show "audits i d2 \<le> audits_due (find_event d2 i)"
    proof (cases "i = or_event_id o'")
      case True
      from acc obtain x where x: "x \<in> set (od_events d)" "oe_event_id x = i" "oe_status x = Accepted"
        by (auto simp: event_accepted_def list_ex_iff True)
      with that find_distinct [of oe_event_id "od_events d" x] have "find_event d i = Some x"
        by (simp add: orders_ok_def find_event_def)
      with le x True show ?thesis by (simp add: au fe audits_due_def processed_mark_def)
    next
      case False
      have "audits_due (find_event d i) \<le> audits_due (map_option ?u (find_event d i))"
        by (cases "find_event d i") (simp_all add: audits_due_def processed_mark_def)
      with le False show ?thesis by (simp add: au fe)
    qed
  qed
  have fin: "order_progress d d2"
    unfolding order_progress_def
  proof (intro conjI impI allI)
    fix i x assume "find_event d i = Some x"
    then show "\<exists>e'. find_event d2 i = Some e' \<and> event_later x e'" using processed_mark_later by (simp add: fe)
  qed (use ok in \<open>simp_all add: fo d2(3) d1 gr grants_later_same\<close>)
  from p fin show ?thesis by (rule order_progress_trans)
qed

lemma run_finish_marks:
  assumes "run_statements ss d = Inr (rs, d')" and "\<forall>s\<in>set ss. order_kept order_progress s"
  shows "order_progress d d'"
  using assms
proof (induction ss arbitrary: d rs)
  case Nil
  then show ?case by simp
next
  case (Cons s ss)
  then obtain r d1 rs' where "s d = Inr (r, d1)" "run_statements ss d1 = Inr (rs', d')"
    by (auto simp: rbind_Inr_iff)
  with Cons have "order_progress d d1" "order_progress d1 d'" by (auto simp: order_kept_def)
  then show ?case by (rule order_progress_trans)
qed

definition skips :: "grant_key \<Rightarrow> grant \<Rightarrow> order_command \<Rightarrow> bool" where
  "skips k g s \<longleftrightarrow> (\<forall>x r y. find_grant (od_core x) k = Some g \<and> s x = Inr (r, y) \<longrightarrow> y = set_changes 0 x)"

lemma run_skips:
  assumes "run_statements (ms @ [l]) d = Inr (rs, d')" and "\<forall>s\<in>set ms. skips k g s" and "find_grant (od_core d) k = Some g"
  shows "\<exists>x. find_grant (od_core x) = find_grant (od_core d) \<and> od_events x = od_events d \<and> od_orders x = od_orders d
        \<and> od_floors x = od_floors d \<and> db_events (od_core x) = db_events (od_core d) \<and> (\<exists>r. l x = Inr (r, d'))"
  using assms
proof (induction ms arbitrary: d rs)
  case Nil
  then show ?case by (auto simp: rbind_Inr_iff)
next
  case (Cons s ms)
  then obtain r rs' y where s: "s d = Inr (r, y)" "run_statements (ms @ [l]) y = Inr (rs', d')"
    by (auto simp: rbind_Inr_iff)
  with Cons.prems have y: "y = set_changes 0 d" by (simp add: skips_def)
  with Cons.IH [OF s(2)] Cons.prems show ?case by simp
qed

lemma apply_progress:
  assumes run: "run_statements (order_apply_statements o' prev m k origin now) d = Inr (rs, d')" and kind: "de_kind m \<noteq> NoneKind"
  shows "order_progress d d'"
proof -
  define marks where "marks = snd (build_foreign_owner_order_event_mark o' k origin now)
    # (if requires_live m then [snd (build_revoked_order_event_mark o' k origin now)] else [])"
  define last_mark where "last_mark = build_processed_mark_statement (or_event_id o') (grant_body ''cached'' k origin) now"
  have kept: "\<forall>s\<in>set (marks @ [last_mark]). order_kept order_progress s"
    by (auto simp: marks_def last_mark_def build_processed_mark_statement_def build_foreign_owner_order_event_mark_def
        build_revoked_order_event_mark_def build_rejected_order_event_mark_def intro: order_kept_finish)
  have ss: "order_apply_statements o' prev m k origin now = fst (order_write o' prev m k now)
      # build_order_event_statement k (snd (order_write o' prev m k now)) o' now (requires_live m) # (marks @ [last_mark])"
    by (simp add: order_apply_statements_def marks_def last_mark_def)
  from run obtain r1 d1 r2 d2 rs' where w: "fst (order_write o' prev m k now) d = Inr (r1, d1)"
    and a: "build_order_event_statement k (snd (order_write o' prev m k now)) o' now (requires_live m) d1 = Inr (r2, d2)"
    and ms: "run_statements (marks @ [last_mark]) d2 = Inr (rs', d')"
    unfolding ss by (auto simp only: run_statements_Cons_Inr)
  have p1: "order_progress d d1" and same: "od_events d = od_events d1" "db_events (od_core d) = db_events (od_core d1)" "od_orders d = od_orders d1"
  proof -
    from order_write_cases [OF w kind] show "order_progress d d1"
      by (auto intro: wrote_progress progress_log_same simp: log_same_def grants_later_same)
    from order_write_cases [OF w kind] show "od_events d = od_events d1" "db_events (od_core d) = db_events (od_core d1)" "od_orders d = od_orders d1"
      by (auto simp: wrote_def)
  qed
  from audit_statement_cases [OF a] show ?thesis
  proof (elim disjE exE conjE)
    assume "d2 = set_changes 0 d1"
    then have "order_progress d1 d2" by (auto intro: progress_log_same simp: log_same_def grants_later_same)
    with p1 run_finish_marks [OF ms kept] show ?thesis by (blast intro: order_progress_trans)
  next
    fix g
    assume g: "find_grant (od_core d1) k = Some g" "g_customer_id g = cu_id (or_customer o')"
      "requires_live m \<longrightarrow> g_status g \<noteq> ''revoked''" and acc: "event_accepted d1 (or_event_id o')"
      and d2: "d2 = d1\<lparr>od_core := (od_core d1)\<lparr>db_events := db_events (od_core d1)
          @ [order_audit_event (snd (order_write o' prev m k now)) o' g now], db_changes := 1\<rparr>\<rparr>"
    have skip: "\<forall>s\<in>set marks. skips k g s"
    proof
      fix s assume "s \<in> set marks"
      then have "\<exists>c b. s = finish_event (or_event_id o') Rejected b now (grant_satisfies k c) \<and> \<not> c g"
        using g by (auto simp: marks_def build_foreign_owner_order_event_mark_def build_revoked_order_event_mark_def
            build_rejected_order_event_mark_def split: if_splits)
      then show "skips k g s"
        unfolding skips_def using finish_misses by (metis grant_satisfies_def option.simps(5))
    qed
    have fg: "find_grant (od_core d2) k = Some g" using g(1) by (simp add: d2 find_grant_def)
    have "\<exists>x. find_grant (od_core x) = find_grant (od_core d2) \<and> od_events x = od_events d2 \<and> od_orders x = od_orders d2
        \<and> od_floors x = od_floors d2 \<and> db_events (od_core x) = db_events (od_core d2) \<and> (\<exists>r. last_mark x = Inr (r, d'))"
      using run_skips [OF ms skip fg] by blast
    then obtain x r where x: "find_grant (od_core x) = find_grant (od_core d2)" "od_events x = od_events d2" "od_orders x = od_orders d2"
        "od_floors x = od_floors d2" "db_events (od_core x) = db_events (od_core d2)" and l: "last_mark x = Inr (r, d')"
      by blast
    show ?thesis
      by (rule audited_apply_progress [OF p1 same acc d2, where body = "grant_body ''cached'' k origin"])
        (use processed_mark_result [OF l [unfolded last_mark_def]] x in simp_all)
  qed
qed

interpretation exactly_once: order_contract order_progress "\<lambda>_. True"
proof unfold_locales
  show "order_progress d d'' " if "order_progress d d'" "order_progress d' d''" for d d' d''
    using that by (rule order_progress_trans)
qed (auto intro: order_kept_finish order_kept_finalize order_kept_stale order_kept_identity order_kept_upsert_license
    order_kept_insert_customer accept_progress apply_progress)

section \<open>The grants of other customers\<close>

text \<open>What an order of customer \<open>c\<close> leaves alone: no grant goes to or from another customer, another
  customer's grant does not change, and what is new belongs to \<open>c\<close>.\<close>

definition spares :: "string \<Rightarrow> order_db \<Rightarrow> order_db \<Rightarrow> bool" where
  "spares c d d' \<longleftrightarrow> (\<forall>k. case (find_grant (od_core d) k, find_grant (od_core d') k) of
     (None, None) \<Rightarrow> True
   | (None, Some g') \<Rightarrow> g_customer_id g' = c
   | (Some g, None) \<Rightarrow> False
   | (Some g, Some g') \<Rightarrow> g_customer_id g' = g_customer_id g \<and> (g_customer_id g \<noteq> c \<longrightarrow> g' = g))"

lemma spares_same: "find_grant (od_core d') = find_grant (od_core d) \<Longrightarrow> spares c d d'"
  by (simp add: spares_def split: option.split)

lemma sparesD:
  assumes "spares c d d'"
  shows "find_grant (od_core d) k = Some g \<Longrightarrow> \<exists>g'. find_grant (od_core d') k = Some g' \<and> g_customer_id g' = g_customer_id g
      \<and> (g_customer_id g \<noteq> c \<longrightarrow> g' = g)"
    and "find_grant (od_core d) k = None \<Longrightarrow> find_grant (od_core d') k = Some g' \<Longrightarrow> g_customer_id g' = c"
  using spec [OF assms [unfolded spares_def], of k] by (auto split: option.splits)

lemma spares_trans:
  assumes "spares c d d'" and "spares c d' d''"
  shows "spares c d d''"
  unfolding spares_def
proof
  fix k
  have "case (find_grant (od_core d) k, find_grant (od_core d') k) of
     (None, None) \<Rightarrow> True | (None, Some g') \<Rightarrow> g_customer_id g' = c | (Some g, None) \<Rightarrow> False
   | (Some g, Some g') \<Rightarrow> g_customer_id g' = g_customer_id g \<and> (g_customer_id g \<noteq> c \<longrightarrow> g' = g)"
    and "case (find_grant (od_core d') k, find_grant (od_core d'') k) of
     (None, None) \<Rightarrow> True | (None, Some g') \<Rightarrow> g_customer_id g' = c | (Some g, None) \<Rightarrow> False
   | (Some g, Some g') \<Rightarrow> g_customer_id g' = g_customer_id g \<and> (g_customer_id g \<noteq> c \<longrightarrow> g' = g)"
    using assms unfolding spares_def by blast+
  then show "case (find_grant (od_core d) k, find_grant (od_core d'') k) of
     (None, None) \<Rightarrow> True | (None, Some g') \<Rightarrow> g_customer_id g' = c | (Some g, None) \<Rightarrow> False
   | (Some g, Some g') \<Rightarrow> g_customer_id g' = g_customer_id g \<and> (g_customer_id g \<noteq> c \<longrightarrow> g' = g)"
    by (auto split: option.splits)
qed

lemma run_spares:
  assumes "run_statements ss d = Inr (rs, d')" and "\<forall>s\<in>set ss. order_kept (spares c) s"
  shows "spares c d d'"
  using assms
proof (induction ss arbitrary: d rs)
  case Nil
  then show ?case by (simp add: spares_same)
next
  case (Cons s ss)
  then obtain r d1 rs' where "s d = Inr (r, d1)" "run_statements ss d1 = Inr (rs', d')"
    by (auto simp: rbind_Inr_iff)
  with Cons have "spares c d d1" "spares c d1 d'" by (auto simp: order_kept_def)
  then show ?case by (rule spares_trans)
qed

lemma order_kept_same:
  assumes "\<And>d rows d'. s d = Inr (rows, d') \<Longrightarrow> find_grant (od_core d') = find_grant (od_core d)"
  shows "order_kept (spares c) s"
  unfolding order_kept_def
proof (intro allI impI)
  fix d rows d'
  assume "s d = Inr (rows, d')"
  then show "spares c d d'" by (intro spares_same assms)
qed

lemma find_grant_logged: "find_grant (c\<lparr>db_events := es, db_changes := n\<rparr>) = find_grant c"
  by (simp add: find_grant_def fun_eq_iff)

lemma spares_statements:
  "order_kept (spares c) (finish_event i status body now cond)" "order_kept (spares c) (finalize_statement i body)"
  "order_kept (spares c) (claim_stale_statement o' digest body now)" "order_kept (spares c) (insert_order_identity o' fp now)"
  "order_kept (spares c) (upsert_license o' lid now)" "order_kept (spares c) (insert_customer cu email withdrawal now)"
  "order_kept (spares c) (build_order_event_statement k ty o' now live)"
  "order_kept (spares c) (build_order_cursor_advance o' now fp reserved)"
  "order_kept (spares c) (event_claim_statement o' key_id digest payload now fp)"
  by (rule order_kept_same; auto simp: finish_event_def finalize_statement_def update_events_def claim_stale_statement_def
      insert_order_identity_def upsert_license_def insert_customer_def build_order_event_statement_def
      build_order_cursor_advance_def event_claim_statement_def Let_def find_grant_logged
      split: if_splits option.splits)+

lemma spares_accept:
  assumes "run_statements (build_accept_batch o' key_id digest payload now fp) d = Inr (rs, d')"
  shows "spares c d d'"
proof (rule run_spares [OF assms])
  have "order_kept (spares c) (\<lambda>d. if list_ex (admits o' fp) (od_orders d) then upsert_license o' lid now d else Inr ([], set_changes 0 d))" for lid
    using spares_statements(5) by (auto simp: order_kept_def intro: spares_same)
  then show "\<forall>s\<in>set (build_accept_batch o' key_id digest payload now fp). order_kept (spares c) s"
    by (auto simp: build_accept_batch_def build_order_license_reservation_def Let_def spares_statements split: option.split)
qed

lemma wrote_spares: "wrote o' k g d d' \<Longrightarrow> spares (cu_id (or_customer o')) d d'"
  by (auto simp: wrote_def spares_def split: option.split)

lemma spares_apply:
  assumes "run_statements (order_apply_statements o' prev m k origin now) d = Inr (rs, d')" and kind: "de_kind m \<noteq> NoneKind"
  shows "spares (cu_id (or_customer o')) d d'"
proof (rule run_spares [OF assms(1)])
  have "order_kept (spares (cu_id (or_customer o'))) (fst (order_write o' prev m k now))"
    unfolding order_kept_def
  proof (intro allI impI)
    fix d rows d'
    assume "fst (order_write o' prev m k now) d = Inr (rows, d')"
    from order_write_cases [OF this kind] show "spares (cu_id (or_customer o')) d d'"
      by (auto intro: wrote_spares spares_same)
  qed
  then show "\<forall>s\<in>set (order_apply_statements o' prev m k origin now). order_kept (spares (cu_id (or_customer o'))) s"
    by (auto simp: order_apply_statements_def build_processed_mark_statement_def build_foreign_owner_order_event_mark_def
        build_revoked_order_event_mark_def build_rejected_order_event_mark_def spares_statements)
qed

interpretation sparing: order_contract "spares c" "\<lambda>o'. cu_id (or_customer o') = c" for c
proof unfold_locales
  show "spares c d d" for d by (simp add: spares_same)
  show "spares c d d''" if "spares c d d'" "spares c d' d''" for d d' d''
    using that by (rule spares_trans)
qed (use spares_apply in \<open>auto intro: spares_statements spares_accept\<close>)

section \<open>What an order guarantees\<close>

text \<open>The audited writes of the administration and of the lease path keep what orders rely on.\<close>

lemma core_steps_keep_orders:
  assumes "progress (od_core d) c" and "db_ok (od_core d)" and "db_events c = db_events (od_core d) @ es"
    and "\<And>e i. e \<in> set es \<Longrightarrow> \<not> order_audit i e"
  shows "order_progress d (d\<lparr>od_core := c\<rparr>)"
proof -
  let ?d = "d\<lparr>od_core := c\<rparr>"
  have au: "audits i ?d = audits i d" for i
    using assms(4) by (auto simp: audits_def assms(3) filter_empty_conv)
  have same: "find_event ?d = find_event d" "find_order ?d = find_order d"
    by (simp_all add: find_event_def find_order_def fun_eq_iff)
  have "grants_later (od_core d) c" using assms(1,2) by (auto simp: progress_def grants_later_def)
  then show ?thesis by (simp add: order_progress_def orders_ok_def same au)
qed

text \<open>C3. Whatever other requests commit between the calls of an order and whichever of its calls are lost,
  every admitted event stays behind its subscription's cursor and alone at its place in the sequence,
  an order has at most one audit event, and an event that was decided stays as it was decided.\<close>

theorem orders_exactly_once:
  assumes "honest_world order_progress w" and "orders_ok (w_db w)"
    and "run_exactly_once sha o' key_id digest payload now w = (r, w')"
  shows "orders_ok (w_db w') \<and> audits i (w_db w') \<le> 1
    \<and> (\<forall>e. find_event (w_db w) i = Some e \<and> oe_status e \<noteq> Accepted \<longrightarrow>
         (\<exists>e'. find_event (w_db w') i = Some e' \<and> oe_status e' = oe_status e \<and> oe_digest e' = oe_digest e))"
proof -
  have p: "order_progress (w_db w) (w_db w')"
    using exactly_once.keepsD [OF exactly_once.keeps_run assms(1,3)] by simp
  then have ok: "orders_ok (w_db w')" using assms(2) by (simp add: order_progress_def)
  then have "audits i (w_db w') \<le> audits_due (find_event (w_db w') i)" by (simp add: orders_ok_def)
  also have "\<dots> \<le> 1" by (simp add: audits_due_def split: option.split)
  finally have a: "audits i (w_db w') \<le> 1" .
  have "\<exists>e'. find_event (w_db w') i = Some e' \<and> oe_status e' = oe_status e \<and> oe_digest e' = oe_digest e"
    if "find_event (w_db w) i = Some e" "oe_status e \<noteq> Accepted" for e
  proof -
    from p that obtain e' where e': "find_event (w_db w') i = Some e'" "event_later e e'"
      unfolding order_progress_def by blast
    then have "admission_of e' = admission_of e" by (simp add: event_later_def)
    then have "oe_digest e' = oe_digest e" by (cases e; cases e') (simp add: admission_of_def)
    with e' that show ?thesis by (auto simp: event_later_def)
  qed
  with ok a show ?thesis by blast
qed

text \<open>An order acts on its own customer's grants only: among requests for one customer, however
  interleaved and lost, no grant of another customer changes, none changes hands, and every new grant
  belongs to that customer.\<close>

theorem orders_spare_other_customers:
  assumes "honest_world (spares (cu_id (or_customer o'))) w"
    and "run_exactly_once sha o' key_id digest payload now w = (r, w')"
  shows "(\<forall>k g. find_grant (od_core (w_db w)) k = Some g \<and> g_customer_id g \<noteq> cu_id (or_customer o') \<longrightarrow>
      find_grant (od_core (w_db w')) k = Some g)
    \<and> (\<forall>k g g'. find_grant (od_core (w_db w)) k = Some g \<and> find_grant (od_core (w_db w')) k = Some g' \<longrightarrow>
      g_customer_id g' = g_customer_id g)
    \<and> (\<forall>k g'. find_grant (od_core (w_db w)) k = None \<and> find_grant (od_core (w_db w')) k = Some g' \<longrightarrow>
      g_customer_id g' = cu_id (or_customer o'))"
proof -
  have "spares (cu_id (or_customer o')) (w_db w) (w_db w')"
    using sparing.keepsD [OF sparing.keeps_run [OF HOL.refl] assms] by simp
  note spared = sparesD [OF this]
  show ?thesis
  proof (intro conjI allI impI; elim conjE)
    fix k g assume g: "find_grant (od_core (w_db w)) k = Some g" "g_customer_id g \<noteq> cu_id (or_customer o')"
    from spared(1) [OF g(1)] g(2) show "find_grant (od_core (w_db w')) k = Some g" by auto
  next
    fix k g g' assume g: "find_grant (od_core (w_db w)) k = Some g" "find_grant (od_core (w_db w')) k = Some g'"
    from spared(1) [OF g(1)] g(2) show "g_customer_id g' = g_customer_id g" by auto
  next
    fix k g' assume "find_grant (od_core (w_db w)) k = None" "find_grant (od_core (w_db w')) k = Some g'"
    then show "g_customer_id g' = cu_id (or_customer o')" by (rule spared(2))
  qed
qed

section \<open>Instances\<close>

definition order_db_of :: "grant list \<Rightarrow> order_db" where
  "order_db_of gs = \<lparr>od_core = \<lparr>db_grants = gs, db_events = [], db_idempotency = (\<lambda>_. None), db_occupied = (\<lambda>_. 0),
     db_generation = 0, db_changes = 0\<rparr>, od_floors = (\<lambda>_. (0, - 1)), od_orders = [], od_events = [], od_licenses = [],
     od_customers = [], od_password_emails = [], od_identity_emails = [], od_nonces = []\<rparr>"

abbreviation sample_order :: "string \<Rightarrow> int \<Rightarrow> string \<Rightarrow> order" where
  "sample_order i n intent \<equiv> \<lparr>or_event_id = i, or_subscription_id = ''s1'', or_epoch = 0, or_seq = n, or_intent = intent,
     or_project = ''app'', or_feature = ''pro'', or_fingerprint = Some (replicate 64 (CHR ''a'')), or_period_end = Some 2000000,
     or_quantity = None, or_customer = \<lparr>cu_id = ''c1'', cu_external_ref = None, cu_name = None, cu_email = Some ''A@b.c''\<rparr>,
     or_license_id = None, or_occurred_at = None\<rparr>"

abbreviation sample_grant :: "string \<Rightarrow> grant" where
  "sample_grant owner \<equiv> \<lparr>g_project = ''app'', g_feature = ''pro'', g_fingerprint = replicate 64 (CHR ''a''), g_status = ''active'',
     g_revocation_seq = 1, g_valid_from = None, g_valid_until = Some 5, g_notes = [], g_customer_id = owner, g_license_id = None,
     g_policy_id = None, g_is_trial = 0, g_trial_expiration_basis = None, g_trial_duration_sec = 0, g_trial_one_per_device = 0,
     g_trial_started_at = None, g_trial_device_key_id = None, g_max_active_devices = 1, g_lease_seconds = 86400,
     g_created_at = 0, g_updated_at = 0\<rparr>"

abbreviation no_sha :: "string \<Rightarrow> string" where
  "no_sha \<equiv> \<lambda>_. []"

text \<open>The first call is answered, the second takes effect but its answer is lost.\<close>

definition lossy_world :: "grant list \<Rightarrow> order_db world" where
  "lossy_world gs = \<lparr>w_db = order_db_of gs, w_schedule = [\<lparr>tn_others = (\<lambda>d. d), tn_fault = Served\<rparr>,
     \<lparr>tn_others = (\<lambda>d. d), tn_fault = LostAfter ''timeout''\<rparr>], w_has_batch = True\<rparr>"

lemma lossy_honest: "(\<And>d. G d d) \<Longrightarrow> honest_world G (lossy_world gs)"
  by (simp add: honest_world_def lossy_world_def)

abbreviation lossy_run :: "grant list \<Rightarrow> order_reply outcome \<times> order_db world" where
  "lossy_run gs \<equiv> run_exactly_once no_sha (sample_order ''e1'' 1 ''subscription.active'') ''k'' ''d'' ''p'' 1000 (lossy_world gs)"

theorem orders_exactly_once_witness:
  "orders_ok (w_db (snd (lossy_run [sample_grant ''c1'']))) \<and> audits ''e1'' (w_db (snd (lossy_run [sample_grant ''c1'']))) \<le> 1"
proof -
  have "orders_ok (w_db (lossy_world [sample_grant ''c1'']))"
    by (simp add: lossy_world_def order_db_of_def orders_ok_def audits_def audits_due_def find_event_def)
  from orders_exactly_once [OF lossy_honest this, of no_sha "sample_order ''e1'' 1 ''subscription.active''" "''k''" "''d''" "''p''" 1000]
  show ?thesis by (cases "lossy_run [sample_grant ''c1'']") simp
qed

theorem orders_spare_other_customers_witness:
  "find_grant (od_core (w_db (snd (lossy_run [sample_grant ''c2''])))) (key_of (sample_grant ''c2'')) = Some (sample_grant ''c2'')"
proof -
  have f: "find_grant (od_core (w_db (lossy_world [sample_grant ''c2'']))) (key_of (sample_grant ''c2'')) = Some (sample_grant ''c2'')"
    by (simp add: lossy_world_def order_db_of_def find_grant_def)
  obtain r w' where run: "lossy_run [sample_grant ''c2''] = (r, w')" by (cases "lossy_run [sample_grant ''c2'']")
  have hon: "honest_world (spares (cu_id (or_customer (sample_order ''e1'' 1 ''subscription.active'')))) (lossy_world [sample_grant ''c2''])"
    by (rule lossy_honest) (simp add: spares_same)
  have "find_grant (od_core (w_db w')) (key_of (sample_grant ''c2'')) = Some (sample_grant ''c2'')"
    by (rule orders_spare_other_customers [OF hon run, THEN conjunct1, rule_format]) (use f in simp)
  then show ?thesis by (simp add: run)
qed

end
