(* ===== verification/Order_Replies.thy ===== *)
theory Order_Replies
  imports Order_Safety
begin

text \<open>
  A sender that redelivers an order gets the first answer again: once the event is decided, the row
  stores what was answered. The calls of a request nobody interferes with are computed directly.
\<close>

section \<open>Every delivery is answered\<close>

definition answers :: "('w, 'a) io \<Rightarrow> bool" where
  "answers m \<longleftrightarrow> (\<forall>w. \<exists>x w'. m w = (Inr x, w'))"

lemma answers_return: "answers (io_return x)"
  by (simp add: answers_def)

lemma answers_try: "(\<And>e. answers (h e)) \<Longrightarrow> (\<And>x. answers (f x)) \<Longrightarrow> answers (io_try m h f)"
  unfolding answers_def io_try_def by (auto split: prod.split sum.split)

lemma answers_catch: "(\<And>e. answers (h e)) \<Longrightarrow> answers (io_catch m h)"
  unfolding answers_def io_catch_def by (auto split: prod.split sum.split)

lemmas answers_intros = answers_return answers_try answers_catch

lemma answers_load: "answers (load_terminal_order_outcome i)"
  unfolding load_terminal_order_outcome_def by (intro answers_intros)

lemma answers_apply_accepted: "answers (apply_accepted o' fp now)"
  unfolding apply_accepted_def by (auto intro!: answers_intros split: option.split)

lemma answers_claim_stale: "answers (claim_stale_order_outcome o' digest now)"
  unfolding claim_stale_order_outcome_def by (auto intro!: answers_intros answers_load split: option.split)

lemma answers_failed_accept: "answers (failed_accept_disposition o' fp digest now)"
  unfolding failed_accept_disposition_def
  by (auto intro!: answers_intros answers_load answers_apply_accepted answers_claim_stale split: option.split)

lemma answers_if: "answers m \<Longrightarrow> answers m' \<Longrightarrow> answers (\<lambda>w. if \<not> b w then m w else m' w)"
  by (simp add: answers_def)

lemma answers_accept: "answers (accept_order o' fp key_id digest payload now)"
  unfolding accept_order_def Let_def
  by (intro answers_if answers_intros) (auto intro: answers_failed_accept answers_apply_accepted)

lemma answers_run: "answers (run_exactly_once sha o' key_id digest payload now)"
  unfolding run_exactly_once_def
  by (auto intro!: answers_intros answers_load answers_apply_accepted answers_accept split: option.split)

section \<open>Calls nobody interferes with\<close>

definition calm :: "'d world \<Rightarrow> bool" where
  "calm w \<longleftrightarrow> w_schedule w = []"

lemma calm_call: "calm w \<Longrightarrow> db_call act w = (fst (act (w_db w)), w\<lparr>w_db := snd (act (w_db w))\<rparr>)"
  by (simp add: calm_def db_call_def Let_def)

lemma calm_update [simp]: "calm (w\<lparr>w_db := d\<rparr>) \<longleftrightarrow> calm w"
  by (simp add: calm_def)

lemma calm_read: "calm w \<Longrightarrow> db_read q w = (Inr (q (w_db w)), w)"
  by (simp add: db_read_def calm_call)

lemma calm_first:
  "calm w \<Longrightarrow> first_of s w = (case s (w_db w) of Inl e \<Rightarrow> (Inl e, w) | Inr (rows, d) \<Rightarrow> (Inr (batch_returned_row rows), w\<lparr>w_db := d\<rparr>))"
  by (simp add: first_of_def calm_call split: sum.split prod.split)

lemma calm_batch:
  "calm w \<Longrightarrow> db_batch ss w = (case run_statements ss (w_db w) of Inl e \<Rightarrow> (Inl e, w) | Inr (rs, d) \<Rightarrow> (Inr rs, w\<lparr>w_db := d\<rparr>))"
  by (simp add: db_batch_def calm_call run_batch_def split: sum.split prod.split)

lemma calm_try:
  "calm w \<Longrightarrow> io_try (db_read q) h f w = f (q (w_db w)) w"
  "calm w \<Longrightarrow> io_bind (db_read q) f w = f (q (w_db w)) w"
  by (simp_all add: io_try_def io_bind_def calm_read)

lemma calm_load: "calm w \<Longrightarrow> load_terminal_order_outcome i w = (Inr (terminal_outcome (find_event (w_db w) i)), w)"
  by (simp add: load_terminal_order_outcome_def calm_try)

section \<open>Settled answers\<close>

text \<open>The event \<open>i\<close> is still open, or the reply is what its row stores.\<close>

definition settled :: "string \<Rightarrow> order_reply \<Rightarrow> order_db \<Rightarrow> bool" where
  "settled i rep d \<longleftrightarrow> (\<forall>e. find_event d i = Some e \<and> oe_status e \<noteq> Accepted \<longrightarrow> rep = terminal_outcome (Some e))"

text \<open>A computation that starts calm with the event open and ends calm, with a settled answer or an
  error that left the event open.\<close>

definition open_event :: "string \<Rightarrow> order_db \<Rightarrow> bool" where
  "open_event i d \<longleftrightarrow> orders_ok d \<and> (\<exists>e. find_event d i = Some e \<and> oe_status e = Accepted)"

definition settles :: "string \<Rightarrow> order_reply order_io \<Rightarrow> bool" where
  "settles i m \<longleftrightarrow> (\<forall>w r w'. calm w \<and> open_event i (w_db w) \<and> m w = (r, w') \<longrightarrow>
     calm w' \<and> (case r of Inr rep \<Rightarrow> settled i rep (w_db w') | Inl _ \<Rightarrow> open_event i (w_db w')))"

lemma find_event_hits:
  assumes "open_event i d"
  obtains e where "find_event d i = Some e" "oe_status e = Accepted"
    and "filter (\<lambda>e. oe_event_id e = i \<and> oe_status e = Accepted) (od_events d) \<noteq> []"
proof -
  from assms obtain e where e: "find_event d i = Some e" "oe_status e = Accepted" by (auto simp: open_event_def)
  then have "e \<in> set (od_events d)" "oe_event_id e = i" by (auto simp: find_event_def find_Some_iff)
  with e that show thesis by (auto simp: filter_empty_conv)
qed

lemma finish_event_open:
  assumes op: "open_event i d" and st: "status \<noteq> Accepted"
  shows "(cond d \<and> (\<exists>rows d' e. finish_event i status body now cond d = Inr (rows, d') \<and> batch_returned_row rows \<noteq> None
      \<and> find_event d' i = Some e \<and> oe_status e = status \<and> oe_result e = Envelope body))
    \<or> (\<not> cond d \<and> finish_event i status body now cond d = Inr ([], set_changes 0 d))"
proof (cases "cond d")
  case False
  then show ?thesis by (simp add: finish_event_def update_events_def Let_def set_changes_def)
next
  case True
  let ?f = "\<lambda>e. e\<lparr>oe_status := status, oe_result := Envelope body, oe_processed_at := Some now\<rparr>"
  let ?u = "\<lambda>e. if oe_event_id e = i \<and> oe_status e = Accepted then ?f e else e"
  from op obtain e where e: "find_event d i = Some e" "oe_status e = Accepted"
    and hits: "filter (\<lambda>e. oe_event_id e = i \<and> oe_status e = Accepted) (od_events d) \<noteq> []"
    by (rule find_event_hits)
  have id: "oe_event_id e = i" using e by (auto simp: find_event_def find_Some_iff)
  define d' where "d' = snd (projr (finish_event i status body now cond d))"
  have fin: "finish_event i status body now cond d
      = Inr (List.map (\<lambda>e. EventOut (oe_event_id e)) (filter (\<lambda>e. oe_event_id e = i \<and> oe_status e = Accepted) (od_events d)), d')"
    and ev: "od_events d' = List.map ?u (od_events d)"
    using True by (simp_all add: d'_def finish_event_def update_events_def Let_def)
  have "find_event d' i = map_option ?u (find_event d i)"
    unfolding find_event_def ev by (rule find_map_id) simp
  with e id have "find_event d' i = Some (?f e)" by simp
  with fin hits True show ?thesis by (fastforce simp: batch_returned_row_def split: list.split)
qed

lemma settled_load: "settled i (terminal_outcome (find_event d i)) d"
  by (simp add: settled_def)

lemma settled_changes [simp]: "settled i rep (set_changes n d) \<longleftrightarrow> settled i rep d"
  by (simp add: settled_def)

lemma open_event_changes [simp]: "open_event i (set_changes n d) \<longleftrightarrow> open_event i d"
  by (simp add: open_event_def log_same_finds(4) [of d "set_changes n d"] log_same_def)

lemma settles_finish:
  assumes "status \<noteq> Accepted" and "n = (if status = Rejected then rejected_status (ob_code body) else 200)"
  shows "settles i (io_bind (first_of (finish_event i status body now cond)) (\<lambda>marked.
     if marked = None then load_terminal_order_outcome i else io_return (n, body)))"
  unfolding settles_def
proof (intro allI impI, elim conjE)
  fix w r w'
  assume c: "calm w" and op: "open_event i (w_db w)"
    and run: "io_bind (first_of (finish_event i status body now cond)) (\<lambda>marked.
     if marked = None then load_terminal_order_outcome i else io_return (n, body)) w = (r, w')"
  from finish_event_open [OF op assms(1), of cond body now]
  show "calm w' \<and> (case r of Inr rep \<Rightarrow> settled i rep (w_db w') | Inl _ \<Rightarrow> open_event i (w_db w'))"
  proof (elim disjE conjE exE)
    fix rows d' e
    assume f: "finish_event i status body now cond (w_db w) = Inr (rows, d')" and m: "batch_returned_row rows \<noteq> None"
      and e: "find_event d' i = Some e" "oe_status e = status" "oe_result e = Envelope body"
    have "r = Inr (n, body) \<and> w' = w\<lparr>w_db := d'\<rparr>" using run c f m by (simp add: io_bind_def calm_first)
    with c e assms show ?thesis
      by (simp add: settled_def terminal_outcome_def parse_stored_order_result_def)
  next
    assume "finish_event i status body now cond (w_db w) = Inr ([], set_changes 0 (w_db w))"
    with run c have "(r, w') = load_terminal_order_outcome i (w\<lparr>w_db := set_changes 0 (w_db w)\<rparr>)"
      by (simp add: io_bind_def calm_first batch_returned_row_def)
    with c show ?thesis by (simp add: calm_load settled_load)
  qed
qed

lemma settles_marks:
  "settles (or_event_id o') (terminalize_foreign_owner_order_event o' k origin now)"
  "settles (or_event_id o') (terminalize_revoked_order_event o' k origin now)"
  "settles (or_event_id o') (terminalize_missing_entitlement_order_event o' k origin now)"
  "settles i (terminalize_rejected_order_event i body now)"
  unfolding terminalize_foreign_owner_order_event_def terminalize_revoked_order_event_def terminalize_with_def
    build_foreign_owner_order_event_mark_def build_revoked_order_event_mark_def build_rejected_order_event_mark_def
    terminalize_missing_entitlement_order_event_def terminalize_rejected_order_event_def fst_conv snd_conv
  by (rule settles_finish; simp add: rejected_status_def grant_body_def result_body_def)+

lemma settlesD:
  "settles i m \<Longrightarrow> calm w \<Longrightarrow> open_event i (w_db w) \<Longrightarrow> m w = (r, w') \<Longrightarrow>
     calm w' \<and> (case r of Inr rep \<Rightarrow> settled i rep (w_db w') | Inl _ \<Rightarrow> open_event i (w_db w'))"
  by (simp add: settles_def)

lemma settles_simple: "settles i (io_return write_failed)" "settles i (io_throw e)" "settles i (load_terminal_order_outcome i)"
proof -
  have "settled i rep d" if "open_event i d" for rep d
    using that by (auto simp: open_event_def settled_def)
  then show "settles i (io_return write_failed)" "settles i (io_throw e)" by (simp_all add: settles_def)
  show "settles i (load_terminal_order_outcome i)"
    unfolding settles_def by (auto simp: calm_load settled_load)
qed

lemma settles_write_failure: "settles (or_event_id o') (order_write_failure o' k origin now e)"
  by (simp add: order_write_failure_def settles_marks settles_simple)

lemma settles_read: "(\<And>x. settles i (f x)) \<Longrightarrow> settles i (io_bind (db_read q) f)"
  unfolding settles_def by (simp only: calm_try cong: conj_cong) blast

text \<open>Once the batch has marked the event, the row is processed, and completing the answer keeps it so.\<close>

lemma marked_batch:
  assumes run: "run_statements (order_apply_statements o' prev m k origin now) d = Inr (rs, d')"
    and ids: "orders_ok d'" and marked: "batch_returned_row (last rs) \<noteq> None"
  shows "\<exists>e. find_event d' (or_event_id o') = Some e \<and> oe_status e = Processed"
proof -
  obtain ss where ss: "order_apply_statements o' prev m k origin now
      = ss @ [build_processed_mark_statement (or_event_id o') (grant_body ''cached'' k origin) now]"
    by (auto simp: order_apply_statements_def)
  from run obtain rs0 x r where rs: "rs = rs0 @ [r]"
    and l: "build_processed_mark_statement (or_event_id o') (grant_body ''cached'' k origin) now x = Inr (r, d')"
    unfolding ss run_statements_append by (auto simp: rbind_Inr_iff)
  note res = processed_mark_result [OF l]
  have "r \<noteq> []" using marked rs by (auto simp: batch_returned_row_def)
  then have "filter (\<lambda>e. oe_event_id e = or_event_id o' \<and> oe_status e = Accepted) (od_events x) \<noteq> []"
    unfolding res(6) by blast
  then obtain e where e: "e \<in> set (od_events x)" "oe_event_id e = or_event_id o'" "oe_status e = Accepted"
    unfolding filter_empty_conv by blast
  let ?e = "processed_mark (or_event_id o') (grant_body ''cached'' k origin) now e"
  have "?e \<in> set (od_events d')" using e(1) by (simp add: res(1))
  moreover have "oe_event_id ?e = or_event_id o'" "oe_status ?e = Processed" using e by (simp_all add: processed_mark_def)
  ultimately show ?thesis
    using find_distinct [of oe_event_id "od_events d'" ?e] ids by (auto simp: orders_ok_def find_event_def)
qed

lemma finalize_result:
  assumes "find_event d i = Some e" and "oe_status e = Processed"
  shows "\<exists>rows d' e'. finalize_statement i body d = Inr (rows, d') \<and> find_event d' i = Some e'
    \<and> oe_status e' = Processed \<and> oe_result e' = Envelope body"
proof -
  let ?u = "\<lambda>e. if oe_event_id e = i \<and> oe_status e = Processed then e\<lparr>oe_result := Envelope body\<rparr> else e"
  define d' where "d' = snd (projr (finalize_statement i body d))"
  have fin: "\<exists>rows. finalize_statement i body d = Inr (rows, d')" and ev: "od_events d' = List.map ?u (od_events d)"
    by (simp_all add: d'_def finalize_statement_def update_events_def Let_def)
  have "find_event d' i = map_option ?u (find_event d i)"
    unfolding find_event_def ev by (rule find_map_id) simp
  moreover have "oe_event_id e = i" using assms(1) by (auto simp: find_event_def find_Some_iff)
  ultimately show ?thesis using fin assms by auto
qed

lemma finish_apply_settled:
  assumes c: "calm w" and r: "finish_apply o' k origin res w = (r, w')"
    and p: "fr_marked res \<Longrightarrow> \<exists>e. find_event (w_db w) (or_event_id o') = Some e \<and> oe_status e = Processed"
  shows "calm w' \<and> (case r of Inr rep \<Rightarrow> settled (or_event_id o') rep (w_db w') | Inl _ \<Rightarrow> False)"
proof (cases "fr_marked res")
  case False
  with r c show ?thesis by (auto simp: finish_apply_def calm_load settled_load)
next
  case True
  with p obtain e where e: "find_event (w_db w) (or_event_id o') = Some e" "oe_status e = Processed" by blast
  have completed: "calm w' \<and> (case r of Inr rep \<Rightarrow> settled (or_event_id o') rep (w_db w') | Inl _ \<Rightarrow> False)"
    if "io_bind (first_of (finalize_statement (or_event_id o') body)) (\<lambda>_. io_return (200, body)) w = (r, w')" for body
  proof -
    from finalize_result [OF e, of body] obtain rows d' e' where f: "finalize_statement (or_event_id o') body (w_db w) = Inr (rows, d')"
      "find_event d' (or_event_id o') = Some e'" "oe_status e' = Processed" "oe_result e' = Envelope body" by blast
    with that c have "r = Inr (200, body)" "w' = w\<lparr>w_db := d'\<rparr>" by (auto simp: io_bind_def calm_first)
    with f c show ?thesis by (simp add: settled_def terminal_outcome_def parse_stored_order_result_def)
  qed
  show ?thesis
  proof (cases "fr_applied res")
    case None
    with r True c show ?thesis by (intro completed) (simp add: finish_apply_def calm_try Let_def)
  next
    case (Some g)
    with r True show ?thesis by (intro completed) (simp add: finish_apply_def Let_def)
  qed
qed

lemma calm_keeps:
  assumes "keeps order_progress m" and "calm w" and "m w = (r, w')" and "orders_ok (w_db w)"
  shows "orders_ok (w_db w')"
proof -
  have "honest_world order_progress w" using assms(2) by (simp add: calm_def honest_world_def)
  with exactly_once.keepsD [OF assms(1) _ assms(3)] assms(4) show ?thesis by (simp add: order_progress_def)
qed

lemma settles_batch:
  assumes "de_kind m \<noteq> NoneKind"
  shows "settles (or_event_id o') (io_try (write_entitlement_with_audit_floor (order_apply_statements o' prev m k origin now))
    (order_write_failure o' k origin now) (finish_apply o' k origin))"
  unfolding settles_def
proof (intro allI impI, elim conjE)
  fix w r w'
  assume c: "calm w" and op: "open_event (or_event_id o') (w_db w)"
    and run: "io_try (write_entitlement_with_audit_floor (order_apply_statements o' prev m k origin now))
      (order_write_failure o' k origin now) (finish_apply o' k origin) w = (r, w')"
  let ?ss = "order_apply_statements o' prev m k origin now"
  note fail = settlesD [OF settles_write_failure c op]
  show "calm w' \<and> (case r of Inr rep \<Rightarrow> settled (or_event_id o') rep (w_db w') | Inl _ \<Rightarrow> open_event (or_event_id o') (w_db w'))"
  proof (cases "w_has_batch w")
    case False
    with run show ?thesis by (intro fail) (simp add: io_try_def write_entitlement_with_audit_floor_def)
  next
    case True
    show ?thesis
    proof (cases "run_statements ?ss (w_db w)")
      case (Inl e)
      with run True c show ?thesis
        by (intro fail) (simp add: io_try_def write_entitlement_with_audit_floor_def io_bind_def calm_batch)
    next
      case (Inr p)
      then obtain rs d where rs: "run_statements ?ss (w_db w) = Inr (rs, d)" by (cases p) auto
      define res where "res = \<lparr>fr_applied = (case batch_returned_row (hd rs) of Some (GrantOut g) \<Rightarrow> Some g | _ \<Rightarrow> None),
         fr_marked = (batch_returned_row (last rs) \<noteq> None)\<rparr>"
      have fin: "finish_apply o' k origin res (w\<lparr>w_db := d\<rparr>) = (r, w')"
        using run rs True c by (simp add: io_try_def write_entitlement_with_audit_floor_def io_bind_def calm_batch res_def)
      have "orders_ok d" using apply_progress [OF rs assms] op by (simp add: order_progress_def open_event_def)
      then have "fr_marked res \<Longrightarrow> \<exists>e. find_event d (or_event_id o') = Some e \<and> oe_status e = Processed"
        using marked_batch [OF rs] by (simp add: res_def)
      with finish_apply_settled [OF _ fin] c show ?thesis by (auto split: sum.splits)
    qed
  qed
qed

lemma settles_apply: "settles (or_event_id o') (apply_order_event o' fp now)"
  unfolding apply_order_event_def Let_def
  by (rule settles_read) (simp add: settles_marks settles_batch)

text \<open>What comes before the apply leaves the events alone.\<close>

lemma events_only:
  "upsert_license o' lid now d = Inr (rows, d') \<Longrightarrow> od_events d' = od_events d"
  "insert_customer cu email withdrawal now d = Inr (rows, d') \<Longrightarrow> od_events d' = od_events d"
  "insert_order_identity o' fp now d = Inr (rows, d') \<Longrightarrow> od_events d' = od_events d"
  by (auto simp: upsert_license_def insert_customer_def insert_order_identity_def Let_def split: option.splits if_splits)

definition leaves_events :: "'a order_io \<Rightarrow> bool" where
  "leaves_events m \<longleftrightarrow> (\<forall>w. calm w \<longrightarrow> calm (snd (m w)) \<and> od_events (w_db (snd (m w))) = od_events (w_db w))"

lemma leaves_bind:
  assumes m: "leaves_events m" and f: "\<And>x. leaves_events (f x)"
  shows "leaves_events (io_bind m f)"
  unfolding leaves_events_def
proof (intro allI impI)
  fix w :: "order_db world" assume c: "calm w"
  obtain r w1 where 1: "m w = (r, w1)" by (cases "m w")
  with m c have "calm w1" "od_events (w_db w1) = od_events (w_db w)" by (auto simp: leaves_events_def)
  with 1 f show "calm (snd (io_bind m f w)) \<and> od_events (w_db (snd (io_bind m f w))) = od_events (w_db w)"
    by (cases r) (simp_all add: io_bind_def leaves_events_def)
qed

lemma leaves_try:
  assumes m: "leaves_events m" and h: "\<And>e. leaves_events (h e)" and f: "\<And>x. leaves_events (f x)"
  shows "leaves_events (io_try m h f)"
  unfolding leaves_events_def
proof (intro allI impI)
  fix w :: "order_db world" assume c: "calm w"
  obtain r w1 where 1: "m w = (r, w1)" by (cases "m w")
  with m c have "calm w1" "od_events (w_db w1) = od_events (w_db w)" by (auto simp: leaves_events_def)
  with 1 f h show "calm (snd (io_try m h f w)) \<and> od_events (w_db (snd (io_try m h f w))) = od_events (w_db w)"
    by (cases r) (simp_all add: io_try_def leaves_events_def)
qed

lemma leaves_basic: "leaves_events (io_return x)" "leaves_events (io_throw e)" "leaves_events (db_read q)"
  by (simp_all add: leaves_events_def calm_read)

lemma leaves_first:
  assumes "\<And>d rows d'. s d = Inr (rows, d') \<Longrightarrow> od_events d' = od_events d"
  shows "leaves_events (first_of s)"
  unfolding leaves_events_def
proof (intro allI impI)
  fix w :: "order_db world" assume "calm w"
  then show "calm (snd (first_of s w)) \<and> od_events (w_db (snd (first_of s w))) = od_events (w_db w)"
    using assms [of "w_db w"] by (auto simp: calm_first split: sum.split)
qed

lemma leaves_writes:
  "leaves_events (first_of (upsert_license o' lid now))" "leaves_events (first_of (insert_customer cu email withdrawal now))"
  "leaves_events (first_of (insert_order_identity o' fp now))"
  by (rule leaves_first, erule events_only)+

lemmas leaves_intros = leaves_bind leaves_try leaves_basic leaves_writes

lemma leaves_materialize: "leaves_events (materialize_order_auxiliary_identities o' now)"
  unfolding materialize_order_auxiliary_identities_def Let_def
  by (auto intro!: leaves_intros split: option.split)

lemma leaves_establish: "leaves_events (establish_order_identity o' fp now)"
  unfolding establish_order_identity_def
  by (auto intro!: leaves_intros split: option.split)

lemma leaves_conflicts: "leaves_events (order_identity_conflicts_after_failed_accept o')"
  unfolding order_identity_conflicts_after_failed_accept_def
  by (auto intro!: leaves_intros split: option.split)

lemma leavesD: "leaves_events m \<Longrightarrow> calm w \<Longrightarrow> m w = (r, w') \<Longrightarrow> calm w' \<and> od_events (w_db w') = od_events (w_db w)"
  unfolding leaves_events_def by (metis snd_conv)

lemma settles_catch:
  assumes "settles i m"
  shows "settles i (io_catch m (\<lambda>_. io_return write_failed))"
  unfolding settles_def
proof (intro allI impI, elim conjE)
  fix w r w'
  assume c: "calm w" and op: "open_event i (w_db w)" and run: "io_catch m (\<lambda>_. io_return write_failed) w = (r, w')"
  obtain r1 w1 where 1: "m w = (r1, w1)" by (cases "m w")
  note s = settlesD [OF assms c op 1]
  show "calm w' \<and> (case r of Inr rep \<Rightarrow> settled i rep (w_db w') | Inl _ \<Rightarrow> open_event i (w_db w'))"
    using run s 1 by (cases r1) (auto simp: io_catch_def open_event_def settled_def)
qed

lemma settles_apply_accepted: "settles (or_event_id o') (apply_accepted o' fp now)"
  unfolding settles_def
proof (intro allI impI, elim conjE)
  fix w r w'
  assume c: "calm w" and op: "open_event (or_event_id o') (w_db w)" and run: "apply_accepted o' fp now w = (r, w')"
  obtain r1 w1 where 1: "materialize_order_auxiliary_identities o' now w = (r1, w1)"
    by (cases "materialize_order_auxiliary_identities o' now w")
  from leavesD [OF leaves_materialize c 1] have c1: "calm w1" and ev: "od_events (w_db w1) = od_events (w_db w)" by auto
  have "orders_ok (w_db w1)"
    using calm_keeps [OF exactly_once.keeps_materialize c 1] op by (simp add: open_event_def)
  with ev op have op1: "open_event (or_event_id o') (w_db w1)" by (simp add: open_event_def find_event_def)
  show "calm w' \<and> (case r of Inr rep \<Rightarrow> settled (or_event_id o') rep (w_db w') | Inl _ \<Rightarrow> open_event (or_event_id o') (w_db w'))"
  proof (cases r1)
    case (Inl e)
    with run 1 have "io_return write_failed w1 = (r, w')" by (simp add: apply_accepted_def io_try_def)
    then show ?thesis by (rule settlesD [OF settles_simple(1) c1 op1])
  next
    case (Inr conflict)
    with run 1 have "(case conflict of Some (status, code) \<Rightarrow>
           io_catch (terminalize_rejected_order_event (or_event_id o') (result_body code) now) (\<lambda>_. io_return write_failed)
       | None \<Rightarrow> io_catch (apply_order_event o' fp now) (\<lambda>_. io_return write_failed)) w1 = (r, w')"
      by (simp add: apply_accepted_def io_try_def)
    moreover have "settles (or_event_id o') (case conflict of Some (status, code) \<Rightarrow>
           io_catch (terminalize_rejected_order_event (or_event_id o') (result_body code) now) (\<lambda>_. io_return write_failed)
       | None \<Rightarrow> io_catch (apply_order_event o' fp now) (\<lambda>_. io_return write_failed))"
      by (auto intro: settles_catch settles_marks settles_apply split: option.split)
    ultimately show ?thesis using settlesD [OF _ c1 op1] by blast
  qed
qed

section \<open>A redelivered order\<close>

lemma terminal_stale: "claim_stale_statement o' digest body now d = Inr (r # rows, d') \<Longrightarrow>
    \<exists>e. find_event d' (or_event_id o') = Some e \<and> terminal_outcome (Some e) = (200, body)"
  by (auto simp: claim_stale_statement_def new_event_def find_event_def find_snoc terminal_outcome_def
      parse_stored_order_result_def split: if_splits)

lemma calm_stale:
  assumes c: "calm w" and none: "find_event (w_db w) (or_event_id o') = None"
    and run: "claim_stale_order_outcome o' digest now w = (Inr rep, w')"
  shows "calm w' \<and> settled (or_event_id o') rep (w_db w')"
proof (cases "list_ex (\<lambda>e. oe_key e = subscription_of o' \<and> oe_epoch e = or_epoch o' \<and> oe_seq e = or_seq o') (od_events (w_db w))")
  case True
  then have s: "claim_stale_statement o' digest (result_body ''stale_ignored'') now (w_db w) = Inr ([], set_changes 0 (w_db w))"
    by (simp add: claim_stale_statement_def)
  with run c none have "calm w' \<and> find_event (w_db w') (or_event_id o') = None"
    by (auto simp: claim_stale_order_outcome_def io_try_def calm_first calm_read batch_returned_row_def split: option.splits if_splits)
  then show ?thesis by (simp add: settled_def)
next
  case False
  define d where "d = snd (projr (claim_stale_statement o' digest (result_body ''stale_ignored'') now (w_db w)))"
  have s: "claim_stale_statement o' digest (result_body ''stale_ignored'') now (w_db w) = Inr ([EventOut (or_event_id o')], d)"
    using False none by (simp add: claim_stale_statement_def d_def)
  with run c have "rep = (200, result_body ''stale_ignored'')" "w' = w\<lparr>w_db := d\<rparr>"
    by (auto simp: claim_stale_order_outcome_def io_try_def calm_first batch_returned_row_def)
  with terminal_stale [OF s] c show ?thesis by (auto simp: settled_def)
qed

text \<open>An accept in a calm world either leaves the event unknown or leaves it accepted with its digest.\<close>

lemma accept_rows:
  assumes run: "run_statements (build_accept_batch o' key_id digest payload now fp) d = Inr (rs, d')"
    and none: "find_event d (or_event_id o') = None"
  defines "at \<equiv> if or_license_id o' = None then 0 else 1"
  shows "(batch_returned_row (rs ! at) \<noteq> None \<and> batch_returned_row (rs ! (at + 1)) \<noteq> None
      \<and> (\<exists>e. find_event d' (or_event_id o') = Some e \<and> oe_status e = Accepted \<and> oe_digest e = digest))
    \<or> ((batch_returned_row (rs ! at) = None \<or> batch_returned_row (rs ! (at + 1)) = None) \<and> find_event d' (or_event_id o') = None)"
proof -
  have claim: "\<exists>d0 r1 d1 r2. find_event d0 (or_event_id o') = None
      \<and> build_order_cursor_advance o' now fp (or_license_id o' \<noteq> None) d0 = Inr (r1, d1)
      \<and> event_claim_statement o' key_id digest payload now fp d1 = Inr (r2, d') \<and> rs ! at = r1 \<and> rs ! (at + 1) = r2"
  proof (cases "or_license_id o'")
    case None
    with run none show ?thesis
      by (auto simp: build_accept_batch_def build_order_license_reservation_def rbind_Inr_iff at_def)
  next
    case (Some lid)
    define s where "s = (\<lambda>d. if list_ex (admits o' fp) (od_orders d) then upsert_license o' lid now d else Inr ([], set_changes 0 d))"
    have res: "build_order_license_reservation o' now fp = Some s"
      by (simp add: build_order_license_reservation_def Some s_def)
    from run obtain r0 d0 r1 d1 r2 where 0: "s d = Inr (r0, d0)"
      and c: "build_order_cursor_advance o' now fp True d0 = Inr (r1, d1)"
      and e: "event_claim_statement o' key_id digest payload now fp d1 = Inr (r2, d')" and rs: "rs = [r0, r1, r2]"
      by (auto simp: build_accept_batch_def res rbind_Inr_iff)
    have "od_events d0 = od_events d" using 0 events_only(1) [of o' lid now d] by (auto simp: s_def split: if_splits)
    with none have "find_event d0 (or_event_id o') = None" by (simp add: find_event_def)
    with c e rs Some show ?thesis by (auto simp: at_def)
  qed
  then obtain d0 r1 d1 r2 where none0: "find_event d0 (or_event_id o') = None"
    and c: "build_order_cursor_advance o' now fp (or_license_id o' \<noteq> None) d0 = Inr (r1, d1)"
    and e: "event_claim_statement o' key_id digest payload now fp d1 = Inr (r2, d')"
    and rs: "rs ! at = r1" "rs ! (at + 1) = r2" by blast
  from c have r1: "changes_of d1 = length r1" and ev: "find_event d1 = find_event d0"
    by (rule cursor_advance_cases; simp add: find_event_def fun_eq_iff)+
  have none1: "find (\<lambda>e. oe_event_id e = or_event_id o') (od_events d1) = None"
    using none0 unfolding ev [symmetric] by (simp add: find_event_def)
  from e show ?thesis
    unfolding rs event_claim_statement_def
    by (auto simp: r1 ev none0 none1 batch_returned_row_def find_event_def [of "_\<lparr>od_events := _\<rparr>"] find_snoc new_event_def
        split: if_splits list.splits)
qed

lemma settlesD_Inr:
  "settles i m \<Longrightarrow> calm w \<Longrightarrow> open_event i (w_db w) \<Longrightarrow> m w = (Inr rep, w') \<Longrightarrow> calm w' \<and> settled i rep (w_db w')"
  by (drule (3) settlesD) simp

text \<open>The part of the flow after the event was not found.\<close>

lemma calm_accept:
  assumes c: "calm w" and ok: "orders_ok (w_db w)" and none: "find_event (w_db w) (or_event_id o') = None"
    and run: "accept_order o' fp key_id digest payload now w = (Inr rep, w')"
  shows "calm w' \<and> settled (or_event_id o') rep (w_db w')"
proof (cases "w_has_batch w \<and> (\<exists>p. run_statements (build_accept_batch o' key_id digest payload now fp) (w_db w) = Inr p)")
  case False
  with run c have "w' = w"
    by (auto simp: accept_order_def io_try_def calm_batch split: if_splits sum.splits)
  with c none show ?thesis by (simp add: settled_def)
next
  case True
  then obtain rs d where rs: "run_statements (build_accept_batch o' key_id digest payload now fp) (w_db w) = Inr (rs, d)" by auto
  define at :: nat where "at = (if or_license_id o' = None then 0 else 1)"
  define w1 where "w1 = w\<lparr>w_db := d\<rparr>"
  have c1: "calm w1" and d1: "w_db w1 = d" using c by (simp_all add: w1_def)
  have ok1: "orders_ok d" using accept_progress [OF rs] ok by (simp add: order_progress_def)
  have run1: "(if batch_returned_row (rs ! at) = None \<or> batch_returned_row (rs ! (at + 1)) = None
       then failed_accept_disposition o' fp digest now else apply_accepted o' fp now) w1 = (Inr rep, w')"
    using run True rs c by (simp add: accept_order_def io_try_def calm_batch w1_def at_def Let_def)
  from accept_rows [OF rs none, folded at_def] show ?thesis
  proof (rule disjE)
    assume "batch_returned_row (rs ! at) \<noteq> None \<and> batch_returned_row (rs ! (at + 1)) \<noteq> None
      \<and> (\<exists>e. find_event d (or_event_id o') = Some e \<and> oe_status e = Accepted \<and> oe_digest e = digest)"
    then obtain e where "batch_returned_row (rs ! at) \<noteq> None" "batch_returned_row (rs ! (at + 1)) \<noteq> None"
      and e: "find_event d (or_event_id o') = Some e" "oe_status e = Accepted" by blast
    with run1 have "apply_accepted o' fp now w1 = (Inr rep, w')" by auto
    moreover have "open_event (or_event_id o') (w_db w1)" using ok1 e by (simp add: open_event_def d1)
    ultimately show ?thesis using settlesD_Inr [OF settles_apply_accepted c1] by blast
  next
    assume "(batch_returned_row (rs ! at) = None \<or> batch_returned_row (rs ! (at + 1)) = None)
      \<and> find_event d (or_event_id o') = None"
    then have miss: "batch_returned_row (rs ! at) = None \<or> batch_returned_row (rs ! (at + 1)) = None"
      and none1: "find_event d (or_event_id o') = None" by (rule conjunct1, rule conjunct2)
    obtain r2 w2 where 2: "order_identity_conflicts_after_failed_accept o' w1 = (r2, w2)"
      by (cases "order_identity_conflicts_after_failed_accept o' w1")
    from leavesD [OF leaves_conflicts c1 2] have c2: "calm w2" and "od_events (w_db w2) = od_events d" by (auto simp: d1)
    then have none2: "find_event (w_db w2) (or_event_id o') = None" using none1 by (simp add: find_event_def)
    have f: "failed_accept_disposition o' fp digest now w1 = (Inr rep, w')" using run1 miss by simp
    show ?thesis
    proof (cases "r2 = Inr False")
      case True
      with f 2 none1 c1 have "claim_stale_order_outcome o' digest now w2 = (Inr rep, w')"
        by (simp add: failed_accept_disposition_def calm_try d1 io_try_def [of "order_identity_conflicts_after_failed_accept o'"])
      then show ?thesis by (rule calm_stale [OF c2 none2])
    next
      case False
      with f 2 none1 c1 have "w' = w2"
        by (cases r2) (auto simp: failed_accept_disposition_def calm_try d1 io_try_def [of "order_identity_conflicts_after_failed_accept o'"])
      with c2 none2 show ?thesis by (simp add: settled_def)
    qed
  qed
qed

lemma calm_run:
  assumes c: "calm w" and ok: "orders_ok (w_db w)" and run: "run_exactly_once sha o' key_id digest payload now w = (Inr rep, w')"
    and agree: "\<And>e. find_event (w_db w) (or_event_id o') = Some e \<Longrightarrow> oe_digest e = digest"
  shows "calm w' \<and> settled (or_event_id o') rep (w_db w')"
proof (cases "find_event (w_db w) (or_event_id o')")
  case (Some e)
  show ?thesis
  proof (cases "oe_status e = Accepted")
    case True
    with run Some agree c have "apply_accepted o' (derive_fingerprint sha o') now w = (Inr rep, w')"
      by (simp add: run_exactly_once_def calm_try)
    moreover have "open_event (or_event_id o') (w_db w)" using True Some ok by (simp add: open_event_def)
    ultimately show ?thesis using settlesD_Inr [OF settles_apply_accepted c] by blast
  next
    case False
    with run Some agree c show ?thesis by (auto simp: run_exactly_once_def calm_try calm_load settled_def)
  qed
next
  case None
  show ?thesis
  proof (cases "order_period_is_acceptable (or_intent o') (or_period_end o') now")
    case False
    with run None c show ?thesis by (auto simp: run_exactly_once_def calm_try settled_def)
  next
    case True
    obtain r1 w1 where 1: "establish_order_identity o' (derive_fingerprint sha o') now w = (r1, w1)"
      by (cases "establish_order_identity o' (derive_fingerprint sha o') now w")
    from leavesD [OF leaves_establish c 1] have c1: "calm w1" and "od_events (w_db w1) = od_events (w_db w)" by auto
    then have none1: "find_event (w_db w1) (or_event_id o') = None" using None by (simp add: find_event_def)
    have ok1: "orders_ok (w_db w1)" by (rule calm_keeps [OF exactly_once.keeps_establish c 1 ok])
    show ?thesis
    proof (cases "r1 = Inr None")
      case True
      with run None \<open>order_period_is_acceptable _ _ _\<close> c 1
      have "accept_order o' (derive_fingerprint sha o') key_id digest payload now w1 = (Inr rep, w')"
        by (simp add: run_exactly_once_def calm_try io_try_def [of "establish_order_identity o' (derive_fingerprint sha o') now"])
      then show ?thesis by (rule calm_accept [OF c1 ok1 none1])
    next
      case False
      with run None \<open>order_period_is_acceptable _ _ _\<close> c 1 have "w' = w1"
        by (cases r1) (auto simp: run_exactly_once_def calm_try io_try_def [of "establish_order_identity o' (derive_fingerprint sha o') now"]
            split: option.splits)
      with c1 none1 show ?thesis by (simp add: settled_def)
    qed
  qed
qed

text \<open>C15. Every delivery of an order is answered, whatever others do and whichever calls are lost. A decided
  event answers a redelivery of the same payload, when it runs undisturbed, with its stored outcome and changes
  nothing; and when the first delivery ran undisturbed too (no other request, no lost call), that is the
  status and body it gave itself.\<close>

theorem redelivered_order_answers_same:
  "\<exists>rep w'. run_exactly_once sha o' key_id digest payload now w = (Inr rep, w')
    \<and> (\<forall>w1 e. calm w1 \<and> find_event (w_db w1) (or_event_id o') = Some e \<and> oe_status e \<noteq> Accepted \<and> oe_digest e = digest \<longrightarrow>
          run_exactly_once sha o' key_id' digest payload' now' w1 = (Inr (terminal_outcome (Some e)), w1))
    \<and> (calm w \<and> orders_ok (w_db w) \<longrightarrow>
        (\<forall>e. find_event (w_db w') (or_event_id o') = Some e \<and> oe_status e \<noteq> Accepted \<and> oe_digest e = digest \<longrightarrow>
          rep = terminal_outcome (Some e) \<and> run_exactly_once sha o' key_id' digest payload' now' w' = (Inr rep, w')))"
proof -
  obtain rep w' where run: "run_exactly_once sha o' key_id digest payload now w = (Inr rep, w')"
    using answers_run unfolding answers_def by blast
  have again: "run_exactly_once sha o' key_id' digest payload' now' w1 = (Inr (terminal_outcome (Some e)), w1)"
    if "calm w1" "find_event (w_db w1) (or_event_id o') = Some e" "oe_status e \<noteq> Accepted" "oe_digest e = digest" for w1 e
    using that by (simp add: run_exactly_once_def calm_try calm_load)
  have "calm w' \<and> rep = terminal_outcome (Some e)"
    if c: "calm w" and ok: "orders_ok (w_db w)" and e: "find_event (w_db w') (or_event_id o') = Some e"
      "oe_status e \<noteq> Accepted" "oe_digest e = digest" for e
  proof -
    have hon: "honest_world order_progress w" using c by (simp add: calm_def honest_world_def)
    have p: "order_progress (w_db w) (w_db w')"
      using exactly_once.keepsD [OF exactly_once.keeps_run hon run] by simp
    have agree: "oe_digest x = digest" if x: "find_event (w_db w) (or_event_id o') = Some x" for x
    proof -
      from p x e(1) have "event_later x e" unfolding order_progress_def by (metis option.inject)
      then have "admission_of e = admission_of x" by (simp add: event_later_def)
      with e(3) show ?thesis by (cases e; cases x) (simp add: admission_of_def)
    qed
    from calm_run [OF c ok run agree] have "calm w'" "settled (or_event_id o') rep (w_db w')" by auto
    with e show ?thesis by (simp add: settled_def)
  qed
  with run again show ?thesis by blast
qed

section \<open>A concrete redelivery\<close>

definition calm_world :: "grant list \<Rightarrow> order_db world" where
  "calm_world gs = \<lparr>w_db = order_db_of gs, w_schedule = [], w_has_batch = True\<rparr>"

definition first_delivery :: "grant list \<Rightarrow> string \<Rightarrow> order_reply outcome \<times> order_db world" where
  "first_delivery gs intent = run_exactly_once no_sha (sample_order ''e1'' 1 intent) ''k'' ''d'' ''p'' 1000 (calm_world gs)"

lemma first_delivery_decided:
  "map_option (\<lambda>e. (oe_status e, oe_digest e)) (find_event (w_db (snd (first_delivery [] ''subscription.active''))) ''e1'')
     = Some (Processed, ''d'')"
  by code_simp

theorem redelivered_order_answers_same_witness:
  "fst (run_exactly_once no_sha (sample_order ''e1'' 1 ''subscription.active'') ''k2'' ''d'' ''p2'' 2000
      (snd (first_delivery [] ''subscription.active''))) = fst (first_delivery [] ''subscription.active'')"
proof -
  have ok: "orders_ok (w_db (calm_world []))"
    by (simp add: calm_world_def order_db_of_def orders_ok_def audits_def audits_due_def find_event_def)
  have c: "calm (calm_world [])" by (simp add: calm_def calm_world_def)
  from redelivered_order_answers_same [of no_sha "sample_order ''e1'' 1 ''subscription.active''" "''k''" "''d''" "''p''" 1000
      "calm_world []" "''k2''" "''p2''" 2000]
  obtain rep w' where run: "first_delivery [] ''subscription.active'' = (Inr rep, w')"
    and after: "calm (calm_world []) \<and> orders_ok (w_db (calm_world [])) \<longrightarrow>
      (\<forall>e. find_event (w_db w') (or_event_id (sample_order ''e1'' 1 ''subscription.active'')) = Some e \<and> oe_status e \<noteq> Accepted \<and> oe_digest e = ''d'' \<longrightarrow>
        rep = terminal_outcome (Some e)
        \<and> run_exactly_once no_sha (sample_order ''e1'' 1 ''subscription.active'') ''k2'' ''d'' ''p2'' 2000 w' = (Inr rep, w'))"
    unfolding first_delivery_def by blast
  obtain e where e: "find_event (w_db w') ''e1'' = Some e" "oe_status e = Processed" "oe_digest e = ''d''"
    using first_delivery_decided unfolding run by auto
  have "run_exactly_once no_sha (sample_order ''e1'' 1 ''subscription.active'') ''k2'' ''d'' ''p2'' 2000 w' = (Inr rep, w')"
    using after [THEN mp, OF conjI [OF c ok], rule_format, of e] e by simp
  then show ?thesis using run by simp
qed

end
