(* ===== verification/Order_Effects.thy ===== *)
theory Order_Effects
  imports Order_Replies
begin

text \<open>
  What an accepted order does when nobody interferes: the grant its intent promises, its place in the
  sequence, one audit event, and the stored answer, all at once.
\<close>

section \<open>What an intent promises\<close>

definition windowed_intents :: "string list" where
  "windowed_intents = [''subscription.active'', ''subscription.renewed'', ''subscription.canceled_at_period_end'']"

text \<open>The end of the window: the later of the period paid for and what was granted, or open.\<close>

definition promised_until :: "order \<Rightarrow> grant option \<Rightarrow> int option" where
  "promised_until o' prev =
     (let t = max (or_else (or_period_end o') 0) (or_else (obind prev g_valid_until) 0) in if 0 < t then Some t else None)"

text \<open>
  The status the intent asserts (\<open>order_mutation.mjs\<close>): a withdrawal revokes or disables, a changed
  quantity says nothing of the status, and every other intent asserts an active grant.
\<close>

definition promised_status :: "string \<Rightarrow> grant option \<Rightarrow> string" where
  "promised_status intent prev =
     (if intent \<in> set revoke_intents then ''revoked'' else if intent \<in> set disable_intents then ''disabled''
      else if intent = ''quantity.changed'' then or_else (map_option g_status prev) ''active''
      else ''active'')"

definition promised_devices :: "order \<Rightarrow> grant option \<Rightarrow> int" where
  "promised_devices o' prev =
     (if or_intent o' \<in> {''subscription.active'', ''quantity.changed''}
      then or_else (or_quantity o') (or_else (map_option g_max_active_devices prev) 1)
      else or_else (map_option g_max_active_devices prev) 1)"

definition promised_license :: "order \<Rightarrow> grant option \<Rightarrow> string option" where
  "promised_license o' prev =
     (if or_intent o' \<in> {''subscription.active'', ''subscription.renewed''} \<and> or_license_id o' \<noteq> None
      then or_license_id o' else obind prev g_license_id)"

text \<open>Everything the order says of the grant except its status.\<close>

definition promised_terms :: "order \<Rightarrow> grant option \<Rightarrow> grant \<Rightarrow> bool" where
  "promised_terms o' prev g \<longleftrightarrow>
     g_customer_id g = cu_id (or_customer o')
     \<and> g_valid_until g = (if or_intent o' \<in> set windowed_intents then promised_until o' prev else obind prev g_valid_until)
     \<and> g_max_active_devices g = promised_devices o' prev
     \<and> g_license_id g = promised_license o' prev
     \<and> (\<forall>p. prev = Some p \<longrightarrow> g_revocation_seq p < g_revocation_seq g \<and> g_notes g = g_notes p \<and> g_policy_id g = g_policy_id p
          \<and> g_lease_seconds g = g_lease_seconds p \<and> g_created_at g = g_created_at p)"

definition promised :: "order \<Rightarrow> grant option \<Rightarrow> grant \<Rightarrow> bool" where
  "promised o' prev g \<longleftrightarrow> promised_terms o' prev g \<and> g_status g = promised_status (or_intent o') prev"

text \<open>
  The intents whose descriptor asserts the active status although the statement made of it never
  writes a status.
\<close>

definition status_unwritten :: "string \<Rightarrow> bool" where
  "status_unwritten intent \<longleftrightarrow> intent \<in> {''subscription.renewed'', ''subscription.canceled_at_period_end''}"

text \<open>What the statements leave: the asserted status where one is written, the old one elsewhere.\<close>

definition written_status :: "string \<Rightarrow> grant option \<Rightarrow> string" where
  "written_status intent prev =
     (if status_unwritten intent then or_else (map_option g_status prev) ''active'' else promised_status intent prev)"

definition leaves :: "order \<Rightarrow> grant option \<Rightarrow> grant \<Rightarrow> bool" where
  "leaves o' prev g \<longleftrightarrow> promised_terms o' prev g \<and> g_status g = written_status (or_intent o') prev"

text \<open>When the database accepts the order: its customer's grant, live and behind the order, with no more
  devices connected than the order leaves; or no grant yet and an intent that creates one.\<close>

definition applicable :: "order \<Rightarrow> grant_key \<Rightarrow> order_db \<Rightarrow> bool" where
  "applicable o' k d \<longleftrightarrow> (case find_grant (od_core d) k of
     None \<Rightarrow> or_intent o' = ''subscription.active'' \<and> \<not> blank (cu_id (or_customer o'))
   | Some p \<Rightarrow> g_customer_id p = cu_id (or_customer o') \<and> row_checks p
       \<and> (g_status p \<noteq> ''revoked'' \<or> or_intent o' \<in> set revoke_intents)
       \<and> comes_before (od_floors d k) (or_epoch o', or_seq o')
       \<and> int (db_occupied (od_core d) k) \<le> promised_devices o' (Some p))"

section \<open>The write lands\<close>

lemma update_floored_lands:
  assumes "find_grant (od_core d) k = Some p" and "cond p" and "comes_before (od_floors d k) floor"
    and "\<not> trigger_refuses (od_core d) cols p (f (od_core d) p)" and "row_checks (f (od_core d) p)"
  shows "\<exists>d'. update_floored cols k floor cond f d = Inr ([GrantOut (f (od_core d) p)], d')"
  using assms by (simp add: update_floored_def update_grant_def)

lemma new_grant_fields:
  "g_status (new_grant c k f now) = ''active''" "g_customer_id (new_grant c k f now) = cf_customer_id f"
  "g_valid_until (new_grant c k f now) = cf_valid_until f" "g_max_active_devices (new_grant c k f now) = cf_max_active_devices f"
  "g_license_id (new_grant c k f now) = cf_license_id f"
  by (cases k; simp add: new_grant_def)+

lemma clamp_max: "clamp_valid_until a b = max (or_else a 0) (or_else b 0)"
  by (simp add: clamp_valid_until_def Let_def max_def)

lemma window_until:
  "de_valid_until (with_window (clamp_valid_until (or_period_end o') (obind prev g_valid_until)) prev m) = Some (promised_until o' prev)"
  by (simp add: promised_until_def clamp_max Let_def)

declare with_window_fields(7) [simp del]

lemma or_else_simps [simp]: "or_else None d = d" "or_else (Some x) d = x"
  by (simp_all add: or_else_def)

lemma intent_classes:
  "i \<in> set order_intents \<Longrightarrow> i \<in> set windowed_intents \<or> i = ''subscription.resumed'' \<or> i = ''quantity.changed''
     \<or> i \<in> set disable_intents \<or> i \<in> set revoke_intents"
  by (auto simp: order_intents_def windowed_intents_def disable_intents_def revoke_intents_def)

lemma row_checks_status: "row_checks p \<Longrightarrow> s \<in> set grant_statuses \<Longrightarrow> g_status g = s \<Longrightarrow> g_customer_id g = g_customer_id p \<Longrightarrow> row_checks g"
  by (simp add: row_checks_def)

lemma statuses: "''active'' \<in> set grant_statuses" "''disabled'' \<in> set grant_statuses" "''revoked'' \<in> set grant_statuses"
  by (simp_all add: grant_statuses_def)

lemmas intent_lists = order_intents_def windowed_intents_def disable_intents_def revoke_intents_def

lemma promise_updated:
  assumes "g_customer_id p = cu_id (or_customer o')"
    and "g_status g = written_status (or_intent o') (Some p)"
    and "g_valid_until g = (if or_intent o' \<in> set windowed_intents then promised_until o' (Some p) else g_valid_until p)"
    and "g_max_active_devices g = promised_devices o' (Some p)" and "g_license_id g = promised_license o' (Some p)"
    and "g_customer_id g = g_customer_id p" "g_revocation_seq p < g_revocation_seq g" "g_notes g = g_notes p"
      "g_policy_id g = g_policy_id p" "g_lease_seconds g = g_lease_seconds p" "g_created_at g = g_created_at p"
  shows "leaves o' (Some p) g"
  using assms by (simp add: leaves_def promised_terms_def)

lemma create_lands:
  assumes p: "find_grant (od_core d) k = Some p" and own: "g_customer_id p = cu_id (or_customer o')" and rc: "row_checks p"
    and live: "g_status p \<noteq> ''revoked''" and fl: "comes_before (od_floors d k) (or_epoch o', or_seq o')"
    and dev: "int (db_occupied (od_core d) k) \<le> promised_devices o' (Some p)" and i: "or_intent o' = ''subscription.active''"
  defines "m \<equiv> map_intent_to_mutation o' (Some p)"
  shows "de_kind m = CreateKind \<and> (\<exists>g d'. fst (order_write o' (Some p) m k now) d = Inr ([GrantOut g], d') \<and> leaves o' (Some p) g)"
proof -
  have m: "m = with_window (clamp_valid_until (or_period_end o') (obind (Some p) g_valid_until)) (Some p)
      (no_mutation\<lparr>de_kind := CreateKind, de_status := Some ''active'', de_event_type := Some ''create''\<rparr>)"
    using live i by (simp add: m_def map_intent_to_mutation_def Let_def)
  have kind: "de_kind m = CreateKind" by (simp add: m)
  have until: "de_valid_until m = Some (promised_until o' (Some p))" unfolding m by (rule window_until)
  let ?cf = "create_fields_of o' (Some p) m now"
  have cf: "cf_customer_id ?cf = cu_id (or_customer o')" "cf_valid_until ?cf = promised_until o' (Some p)"
    "cf_max_active_devices ?cf = promised_devices o' (Some p)" "cf_license_id ?cf = promised_license o' (Some p)" "cf_notes ?cf = g_notes p"
    using i
    by (simp_all add: create_fields_of_def Let_def until promised_devices_def promised_license_def split: option.split)
  define f where "f = (\<lambda>c g. g\<lparr>g_status := ''active'', g_revocation_seq := revocation_seq_bump c g, g_valid_from := cf_valid_from ?cf,
     g_valid_until := cf_valid_until ?cf, g_notes := cf_notes ?cf, g_license_id := cf_license_id ?cf,
     g_max_active_devices := cf_max_active_devices ?cf, g_updated_at := now\<rparr>)"
  have rc': "row_checks (f (od_core d) p)"
    by (rule row_checks_status [OF rc statuses(1)]) (simp_all add: f_def)
  have tr: "\<not> trigger_refuses (od_core d) \<lparr>sets_owner = False, sets_capacity = True\<rparr> p (f (od_core d) p)"
    using dev find_grant_key [OF p] by (simp add: trigger_refuses_def f_def cf)
  have "fst (order_write o' (Some p) m k now) d = update_floored \<lparr>sets_owner = False, sets_capacity = True\<rparr> k (or_epoch o', or_seq o')
      (\<lambda>g. g_status g \<noteq> ''revoked'' \<and> g_customer_id g = cf_customer_id ?cf) f d"
    using p by (simp add: order_write_def Let_def kind build_create_statement_def f_def)
  moreover have "\<exists>d'. update_floored \<lparr>sets_owner = False, sets_capacity = True\<rparr> k (or_epoch o', or_seq o')
      (\<lambda>g. g_status g \<noteq> ''revoked'' \<and> g_customer_id g = cf_customer_id ?cf) f d = Inr ([GrantOut (f (od_core d) p)], d')"
    by (rule update_floored_lands [where f = f, OF p]) (use fl tr rc' live own cf in simp_all)
  moreover have "leaves o' (Some p) (f (od_core d) p)"
    by (rule promise_updated [OF own])
      (simp_all add: f_def cf i written_status_def status_unwritten_def promised_status_def intent_lists bump_greater)
  ultimately show ?thesis using kind by auto
qed

lemma patch_lands:
  assumes p: "find_grant (od_core d) k = Some p" and own: "g_customer_id p = cu_id (or_customer o')" and rc: "row_checks p"
    and live: "g_status p \<noteq> ''revoked''" and fl: "comes_before (od_floors d k) (or_epoch o', or_seq o')"
    and i: "or_intent o' \<in> {''subscription.renewed'', ''subscription.canceled_at_period_end''}"
  defines "m \<equiv> map_intent_to_mutation o' (Some p)"
  shows "de_kind m = PatchKind \<and> (\<exists>g d'. fst (order_write o' (Some p) m k now) d = Inr ([GrantOut g], d') \<and> leaves o' (Some p) g)"
proof -
  have m: "m = with_window (clamp_valid_until (or_period_end o') (obind (Some p) g_valid_until)) (Some p)
      (no_mutation\<lparr>de_kind := PatchKind, de_status := Some ''active'', de_event_type := Some ''update'',
         de_keep_owner := (or_intent o' = ''subscription.canceled_at_period_end'')\<rparr>)"
    using live i by (auto simp: m_def map_intent_to_mutation_def Let_def no_mutation_def)
  have kind: "de_kind m = PatchKind" and keep: "de_keep_owner m \<longleftrightarrow> or_intent o' = ''subscription.canceled_at_period_end''"
    by (simp_all add: m)
  have until: "de_valid_until m = Some (promised_until o' (Some p))" unfolding m by (rule window_until)
  let ?pf = "patch_fields_of o' p m"
  have pf: "pf_valid_until ?pf = promised_until o' (Some p)" "pf_license_id ?pf = promised_license o' (Some p)" "pf_notes ?pf = g_notes p"
    using i
    by (auto simp: patch_fields_of_def Let_def until keep promised_license_def split: option.split)
  define f where "f = (\<lambda>c g. g\<lparr>g_revocation_seq := revocation_seq_bump c g, g_valid_from := pf_valid_from ?pf,
     g_valid_until := pf_valid_until ?pf, g_notes := pf_notes ?pf, g_license_id := pf_license_id ?pf, g_updated_at := now\<rparr>)"
  have rc': "row_checks (f (od_core d) p)" using rc by (simp add: row_checks_def f_def)
  have tr: "\<not> trigger_refuses (od_core d) \<lparr>sets_owner = False, sets_capacity = False\<rparr> p (f (od_core d) p)"
    by (simp add: trigger_refuses_def)
  have "fst (order_write o' (Some p) m k now) d = update_floored \<lparr>sets_owner = False, sets_capacity = False\<rparr> k (or_epoch o', or_seq o')
      (\<lambda>g. g_customer_id g = cu_id (or_customer o') \<and> g_status g \<noteq> ''revoked'') f d"
    by (simp add: order_write_def Let_def kind build_patch_statement_def f_def)
  moreover have "\<exists>d'. update_floored \<lparr>sets_owner = False, sets_capacity = False\<rparr> k (or_epoch o', or_seq o')
      (\<lambda>g. g_customer_id g = cu_id (or_customer o') \<and> g_status g \<noteq> ''revoked'') f d = Inr ([GrantOut (f (od_core d) p)], d')"
    by (rule update_floored_lands [where f = f, OF p]) (use fl tr rc' live own in auto)
  moreover have "leaves o' (Some p) (f (od_core d) p)"
    using i by (intro promise_updated [OF own])
      (auto simp: f_def pf written_status_def status_unwritten_def promised_status_def promised_devices_def intent_lists bump_greater)
  ultimately show ?thesis using kind by auto
qed

lemma transition_lands:
  assumes p: "find_grant (od_core d) k = Some p" and own: "g_customer_id p = cu_id (or_customer o')" and rc: "row_checks p"
    and live: "g_status p \<noteq> ''revoked'' \<or> or_intent o' \<in> set revoke_intents"
    and fl: "comes_before (od_floors d k) (or_epoch o', or_seq o')"
    and i: "or_intent o' = ''subscription.resumed'' \<or> or_intent o' \<in> set disable_intents \<or> or_intent o' \<in> set revoke_intents"
  defines "m \<equiv> map_intent_to_mutation o' (Some p)"
  shows "de_kind m = TransitionKind \<and> (\<exists>g d'. fst (order_write o' (Some p) m k now) d = Inr ([GrantOut g], d') \<and> leaves o' (Some p) g)"
proof -
  let ?s = "written_status (or_intent o') (Some p)"
  have m: "de_kind m = TransitionKind \<and> de_status m = Some ?s" and s: "?s \<in> set grant_statuses"
    and s': "?s = ''revoked'' \<longleftrightarrow> or_intent o' \<in> set revoke_intents"
    using live i by (auto simp: m_def map_intent_to_mutation_def Let_def no_mutation_def written_status_def status_unwritten_def promised_status_def intent_lists statuses)
  have kind: "de_kind m = TransitionKind" and st: "de_status m = Some ?s" using m by simp_all
  define f where "f = (\<lambda>c g. g\<lparr>g_status := ?s, g_revocation_seq := revocation_seq_bump c g, g_updated_at := now\<rparr>)"
  have rc': "row_checks (f (od_core d) p)" by (rule row_checks_status [OF rc s]) (simp_all add: f_def)
  have tr: "\<not> trigger_refuses (od_core d) \<lparr>sets_owner = False, sets_capacity = False\<rparr> p (f (od_core d) p)"
    by (simp add: trigger_refuses_def)
  have "fst (order_write o' (Some p) m k now) d = update_floored \<lparr>sets_owner = False, sets_capacity = False\<rparr> k (or_epoch o', or_seq o')
      (\<lambda>g. g_customer_id g = cu_id (or_customer o') \<and> (?s = ''revoked'' \<or> g_status g \<noteq> ''revoked'')) f d"
    by (simp add: order_write_def Let_def kind st build_transition_statement_def f_def)
  moreover have "\<exists>d'. update_floored \<lparr>sets_owner = False, sets_capacity = False\<rparr> k (or_epoch o', or_seq o')
      (\<lambda>g. g_customer_id g = cu_id (or_customer o') \<and> (?s = ''revoked'' \<or> g_status g \<noteq> ''revoked'')) f d
      = Inr ([GrantOut (f (od_core d) p)], d')"
    by (rule update_floored_lands [where f = f, OF p]) (use fl tr rc' live own s' in auto)
  moreover have "leaves o' (Some p) (f (od_core d) p)"
    using i by (intro promise_updated [OF own])
      (auto simp: f_def promised_devices_def promised_license_def intent_lists bump_greater)
  ultimately show ?thesis using m by auto
qed

lemma capacity_lands:
  assumes wf: "wf_order o'" and p: "find_grant (od_core d) k = Some p" and own: "g_customer_id p = cu_id (or_customer o')" and rc: "row_checks p"
    and live: "g_status p \<noteq> ''revoked''" and fl: "comes_before (od_floors d k) (or_epoch o', or_seq o')"
    and dev: "int (db_occupied (od_core d) k) \<le> promised_devices o' (Some p)" and i: "or_intent o' = ''quantity.changed''"
  defines "m \<equiv> map_intent_to_mutation o' (Some p)"
  shows "de_kind m = CapacityKind \<and> (\<exists>g d'. fst (order_write o' (Some p) m k now) d = Inr ([GrantOut g], d') \<and> leaves o' (Some p) g)"
proof -
  from wf i obtain n where q: "or_quantity o' = Some n" "0 \<le> n" "\<bar>n\<bar> \<le> int max_safe_integer"
    by (auto simp: wf_order_def safe_count_def)
  have m: "de_kind m = CapacityKind \<and> de_capacity m = Some (Some n)"
    using live i q by (simp add: m_def map_intent_to_mutation_def Let_def no_mutation_def)
  define f where "f = (\<lambda>c g. g\<lparr>g_max_active_devices := n, g_revocation_seq := revocation_seq_bump c g, g_updated_at := now\<rparr>)"
  have rc': "row_checks (f (od_core d) p)" using rc by (simp add: row_checks_def f_def)
  have tr: "\<not> trigger_refuses (od_core d) \<lparr>sets_owner = False, sets_capacity = True\<rparr> p (f (od_core d) p)"
    using dev find_grant_key [OF p] i q by (simp add: trigger_refuses_def f_def promised_devices_def)
  have kind: "de_kind m = CapacityKind" and cap: "de_capacity m = Some (Some n)" using m by simp_all
  have "fst (order_write o' (Some p) m k now) d = update_floored \<lparr>sets_owner = False, sets_capacity = True\<rparr> k (or_epoch o', or_seq o')
      (\<lambda>g. g_customer_id g = cu_id (or_customer o') \<and> g_status g \<noteq> ''revoked'') f d"
    using q by (simp add: order_write_def Let_def kind cap build_capacity_statement_def f_def)
  moreover have "\<exists>d'. update_floored \<lparr>sets_owner = False, sets_capacity = True\<rparr> k (or_epoch o', or_seq o')
      (\<lambda>g. g_customer_id g = cu_id (or_customer o') \<and> g_status g \<noteq> ''revoked'') f d = Inr ([GrantOut (f (od_core d) p)], d')"
    by (rule update_floored_lands [where f = f, OF p]) (use fl tr rc' live own in auto)
  moreover have "leaves o' (Some p) (f (od_core d) p)"
    using i q by (intro promise_updated [OF own])
      (simp_all add: f_def promised_devices_def promised_license_def written_status_def status_unwritten_def promised_status_def intent_lists bump_greater)
  ultimately show ?thesis using m by auto
qed

lemma order_write_lands:
  assumes wf: "wf_order o'" and ap: "applicable o' k d"
  defines "prev \<equiv> find_grant (od_core d) k"
  shows "de_kind (map_intent_to_mutation o' prev) \<noteq> NoneKind
    \<and> (\<exists>g d'. fst (order_write o' prev (map_intent_to_mutation o' prev) k now) d = Inr ([GrantOut g], d') \<and> leaves o' prev g)"
proof (cases "find_grant (od_core d) k")
  case None
  then have i: "or_intent o' = ''subscription.active''" and b: "\<not> blank (cu_id (or_customer o'))"
    using ap by (simp_all add: applicable_def)
  define m where "m = map_intent_to_mutation o' prev"
  have m: "m = with_window (clamp_valid_until (or_period_end o') (obind prev g_valid_until)) prev
      (no_mutation\<lparr>de_kind := CreateKind, de_status := Some ''active'', de_event_type := Some ''create''\<rparr>)"
    using None i by (simp add: m_def map_intent_to_mutation_def prev_def Let_def)
  have kind: "de_kind m = CreateKind" by (simp add: m)
  have until: "de_valid_until m = Some (promised_until o' prev)" unfolding m by (rule window_until)
  define g where "g = new_grant (od_core d) k (create_fields_of o' prev m now) now"
  have cf: "cf_customer_id (create_fields_of o' prev m now) = cu_id (or_customer o')"
    "cf_valid_until (create_fields_of o' prev m now) = promised_until o' prev"
    by (simp_all add: create_fields_of_def Let_def until)
  have "row_checks g" using b by (simp add: row_checks_def g_def new_grant_fields cf statuses)
  then have "\<exists>d'. fst (order_write o' prev m k now) d = Inr ([GrantOut g], d')"
    using None by (simp add: order_write_def kind Let_def build_create_statement_def insert_grant_def g_def)
  moreover have "leaves o' prev g"
    using None i by (simp add: leaves_def promised_terms_def g_def new_grant_fields cf written_status_def status_unwritten_def promised_status_def promised_devices_def promised_license_def
        windowed_intents_def revoke_intents_def disable_intents_def prev_def create_fields_of_def Let_def until split: option.split)
  ultimately show ?thesis unfolding m_def [symmetric] using kind by auto
next
  case (Some p)
  then have prev: "prev = Some p" by (simp add: prev_def)
  have own: "g_customer_id p = cu_id (or_customer o')" and rc: "row_checks p"
    and live: "g_status p \<noteq> ''revoked'' \<or> or_intent o' \<in> set revoke_intents"
    and fl: "comes_before (od_floors d k) (or_epoch o', or_seq o')"
    and dev: "int (db_occupied (od_core d) k) \<le> promised_devices o' (Some p)"
    using ap Some by (simp_all add: applicable_def)
  from wf have "or_intent o' \<in> set order_intents" by (simp add: wf_order_def)
  from intent_classes [OF this]
  consider "or_intent o' = ''subscription.active''"
    | "or_intent o' \<in> {''subscription.renewed'', ''subscription.canceled_at_period_end''}"
    | "or_intent o' = ''subscription.resumed'' \<or> or_intent o' \<in> set disable_intents \<or> or_intent o' \<in> set revoke_intents"
    | "or_intent o' = ''quantity.changed''"
    by (auto simp: windowed_intents_def)
  then show ?thesis
  proof cases
    case 1
    then have "g_status p \<noteq> ''revoked''" using live by (simp add: revoke_intents_def)
    from create_lands [OF Some own rc this fl dev 1, of now] show ?thesis by (auto simp: prev)
  next
    case 2
    then have "g_status p \<noteq> ''revoked''" using live by (auto simp: revoke_intents_def)
    from patch_lands [OF Some own rc this fl 2, of now] show ?thesis by (auto simp: prev)
  next
    case 3
    from transition_lands [OF Some own rc live fl 3, of now] show ?thesis by (auto simp: prev)
  next
    case 4
    then have "g_status p \<noteq> ''revoked''" using live by (simp add: revoke_intents_def)
    from capacity_lands [OF wf Some own rc this fl dev 4, of now] show ?thesis by (auto simp: prev)
  qed
qed

section \<open>The whole apply\<close>

definition misses :: "grant_key \<Rightarrow> grant \<Rightarrow> order_command \<Rightarrow> bool" where
  "misses k g s \<longleftrightarrow> (\<forall>x. find_grant (od_core x) k = Some g \<longrightarrow> s x = Inr ([], set_changes 0 x))"

text \<open>The two databases differ at most in the count of the last change.\<close>

definition same_but_changes :: "order_db \<Rightarrow> order_db \<Rightarrow> bool" where
  "same_but_changes x y \<longleftrightarrow> (\<exists>n. x = set_changes n y)"

lemma run_misses:
  assumes "\<forall>s\<in>set ms. misses k g s" and "find_grant (od_core d) k = Some g"
  shows "\<exists>rs x. run_statements (ms @ [l]) d = rbind (l x) (\<lambda>(r, d'). Inr (rs @ [r], d')) \<and> same_but_changes x d"
  using assms
proof (induction ms arbitrary: d)
  case Nil
  have "d = set_changes (db_changes (od_core d)) d" by (simp add: set_changes_def)
  then have "same_but_changes d d" unfolding same_but_changes_def by blast
  moreover have "run_statements ([] @ [l]) d = rbind (l d) (\<lambda>(r, d'). Inr ([] @ [r], d'))" by (simp add: rbind_def split: sum.split)
  ultimately show ?case by blast
next
  case (Cons s ms)
  then have s: "s d = Inr ([], set_changes 0 d)" by (simp add: misses_def)
  from Cons.IH [of "set_changes 0 d"] Cons.prems obtain rs x where
    r: "run_statements (ms @ [l]) (set_changes 0 d) = rbind (l x) (\<lambda>(r, d'). Inr (rs @ [r], d'))"
    and x: "same_but_changes x (set_changes 0 d)" by auto
  have "same_but_changes x d" using x by (auto simp: same_but_changes_def set_changes_def)
  moreover have "run_statements ((s # ms) @ [l]) d = rbind (l x) (\<lambda>(r, d'). Inr (([] # rs) @ [r], d'))"
    using s r by (cases "l x") auto
  ultimately show ?case by blast
qed

lemma finish_misses_exactly: "\<not> cond d \<Longrightarrow> finish_event i status body now cond d = Inr ([], set_changes 0 d)"
  by (simp add: finish_event_def update_events_def Let_def set_changes_def)

lemma refusal_marks_miss:
  assumes "g_customer_id g = cu_id (or_customer o')" and "live \<Longrightarrow> g_status g \<noteq> ''revoked''"
  shows "\<forall>s\<in>set (snd (build_foreign_owner_order_event_mark o' k origin now)
    # (if live then [snd (build_revoked_order_event_mark o' k origin now)] else [])). misses k g s"
  using assms by (auto simp: misses_def build_foreign_owner_order_event_mark_def build_revoked_order_event_mark_def
      build_rejected_order_event_mark_def grant_satisfies_def intro: finish_misses_exactly)

lemma apply_batch_lands:
  assumes wf: "wf_order o'" and ap: "applicable o' k d" and op: "open_event (or_event_id o') d"
  defines "prev \<equiv> find_grant (od_core d) k"
  defines "m \<equiv> map_intent_to_mutation o' prev"
  shows "\<exists>g rs d' ty e. run_statements (order_apply_statements o' prev m k origin now) d = Inr (rs, d')
    \<and> batch_returned_row (hd rs) = Some (GrantOut g) \<and> batch_returned_row (last rs) \<noteq> None \<and> leaves o' prev g
    \<and> find_grant (od_core d') = (find_grant (od_core d))(k \<mapsto> g)
    \<and> od_floors d' = (od_floors d)(k := (or_epoch o', or_seq o'))
    \<and> db_events (od_core d') = db_events (od_core d) @ [order_audit_event ty o' g now]
    \<and> find_event d' (or_event_id o') = Some e \<and> oe_status e = Processed"
proof -
  from order_write_lands [OF wf ap, of now] obtain g d1 where kind: "de_kind m \<noteq> NoneKind"
    and w: "fst (order_write o' prev m k now) d = Inr ([GrantOut g], d1)" and pr: "leaves o' prev g"
    unfolding prev_def m_def by blast
  from order_write_cases [OF w kind] have wr: "wrote o' k g d d1" and live: "requires_live m \<longrightarrow> g_status g \<noteq> ''revoked''" by auto
  then have g1: "find_grant (od_core d1) k = Some g" and own: "g_customer_id g = cu_id (or_customer o')"
    by (simp_all add: wrote_def)
  have ev1: "od_events d1 = od_events d" using wr by (simp add: wrote_def)
  define ty where "ty = snd (order_write o' prev m k now)"
  define d2 where "d2 = d1\<lparr>od_core := (od_core d1)\<lparr>db_events := db_events (od_core d1) @ [order_audit_event ty o' g now], db_changes := 1\<rparr>\<rparr>"
  from op obtain x where x: "find_event d (or_event_id o') = Some x" "oe_status x = Accepted"
    and hits: "filter (\<lambda>e. oe_event_id e = or_event_id o' \<and> oe_status e = Accepted) (od_events d) \<noteq> []"
    by (rule find_event_hits)
  have acc: "event_accepted d1 (or_event_id o')"
    using hits by (auto simp: event_accepted_def list_ex_iff ev1 filter_empty_conv)
  have a: "build_order_event_statement k ty o' now (requires_live m) d1 = Inr ([], d2)"
    using g1 own live acc wr by (simp add: build_order_event_statement_def d2_def wrote_def)
  define ms where "ms = snd (build_foreign_owner_order_event_mark o' k origin now)
    # (if requires_live m then [snd (build_revoked_order_event_mark o' k origin now)] else [])"
  define l where "l = build_processed_mark_statement (or_event_id o') (grant_body ''cached'' k origin) now"
  have miss: "\<forall>s\<in>set ms. misses k g s" unfolding ms_def by (rule refusal_marks_miss) (use own live in simp_all)
  have g2: "find_grant (od_core d2) = find_grant (od_core d1)" by (simp add: d2_def find_grant_logged)
  from run_misses [OF miss, of d2 l] g1 g2 obtain rs y where
    r: "run_statements (ms @ [l]) d2 = rbind (l y) (\<lambda>(r, d'). Inr (rs @ [r], d'))" and "same_but_changes y d2" by auto
  then obtain n where y: "y = set_changes n d2" by (auto simp: same_but_changes_def)
  obtain r3 d3 where l: "l y = Inr (r3, d3)"
    by (simp add: l_def build_processed_mark_statement_def finish_event_def update_events_def Let_def)
  note res = processed_mark_result [OF l [unfolded l_def]]
  have run: "run_statements (order_apply_statements o' prev m k origin now) d = Inr ([GrantOut g] # [] # rs @ [r3], d3)"
    using w a r l by (simp add: order_apply_statements_def ms_def l_def ty_def)
  have e3: "od_events y = od_events d" by (simp add: y d2_def ev1)
  have "r3 \<noteq> []" using hits by (simp add: res(6) e3)
  then have last: "batch_returned_row (last ([GrantOut g] # [] # rs @ [r3])) \<noteq> None"
    by (simp add: batch_returned_row_def split: list.split)
  have "find_event d3 (or_event_id o') = map_option (processed_mark (or_event_id o') (grant_body ''cached'' k origin) now) (find_event d (or_event_id o'))"
    unfolding find_event_def res(1) e3 by (rule find_map_id) (rule event_later_admission(1) [OF processed_mark_later])
  moreover have "oe_event_id x = or_event_id o'" using x(1) by (auto simp: find_event_def find_Some_iff)
  ultimately have fe: "\<exists>e. find_event d3 (or_event_id o') = Some e \<and> oe_status e = Processed"
    using x by (simp add: processed_mark_def)
  have "find_grant (od_core d3) = (find_grant (od_core d))(k \<mapsto> g)" "od_floors d3 = (od_floors d)(k := (or_epoch o', or_seq o'))"
    "db_events (od_core d3) = db_events (od_core d) @ [order_audit_event ty o' g now]"
    using wr by (simp_all add: res y g2 wrote_def) (simp_all add: d2_def wrote_def)
  with run last fe pr show ?thesis by (fastforce simp: batch_returned_row_def)
qed

lemma applied_leaves:
  fixes fp :: "string \<times> string"
  assumes c: "calm w" and batch: "w_has_batch w" and wf: "wf_order o'"
    and op: "open_event (or_event_id o') (w_db w)" and ap: "applicable o' (or_project o', or_feature o', fst fp) (w_db w)"
  defines "k \<equiv> (or_project o', or_feature o', fst fp)" and "d \<equiv> w_db w"
  shows "\<exists>g w' ty e. let d' = w_db w'; body = (grant_body ''applied'' k (snd fp))\<lparr>ob_entitlement := Some (Some g)\<rparr> in
    apply_order_event o' fp now w = (Inr (200, body), w')
    \<and> leaves o' (find_grant (od_core d) k) g
    \<and> find_grant (od_core d') = (find_grant (od_core d))(k \<mapsto> g)
    \<and> od_floors d' = (od_floors d)(k := (or_epoch o', or_seq o'))
    \<and> db_events (od_core d') = db_events (od_core d) @ [order_audit_event ty o' g now]
    \<and> find_event d' (or_event_id o') = Some e \<and> oe_status e = Processed \<and> oe_result e = Envelope body"
proof -
  let ?prev = "find_grant (od_core d) k"
  let ?m = "map_intent_to_mutation o' ?prev"
  from apply_batch_lands [OF wf ap op, folded k_def d_def, of "snd fp" now] obtain g rs d1 ty e where
    run: "run_statements (order_apply_statements o' ?prev ?m k (snd fp) now) d = Inr (rs, d1)"
    and rows: "batch_returned_row (hd rs) = Some (GrantOut g)" "batch_returned_row (last rs) \<noteq> None" and pr: "leaves o' ?prev g"
    and d1: "find_grant (od_core d1) = (find_grant (od_core d))(k \<mapsto> g)" "od_floors d1 = (od_floors d)(k := (or_epoch o', or_seq o'))"
      "db_events (od_core d1) = db_events (od_core d) @ [order_audit_event ty o' g now]"
    and e: "find_event d1 (or_event_id o') = Some e" "oe_status e = Processed" by blast
  have kind: "de_kind ?m \<noteq> NoneKind" using order_write_lands [OF wf ap, folded k_def d_def] by blast
  define body where "body = (grant_body ''applied'' k (snd fp))\<lparr>ob_entitlement := Some (Some g)\<rparr>"
  from finalize_result [OF e, of body] obtain rows' d2 e' where
    f: "finalize_statement (or_event_id o') body d1 = Inr (rows', d2)" and e': "find_event d2 (or_event_id o') = Some e'"
      "oe_status e' = Processed" "oe_result e' = Envelope body" by blast
  have d2: "find_grant (od_core d2) = find_grant (od_core d1)" "od_floors d2 = od_floors d1" "db_events (od_core d2) = db_events (od_core d1)"
    using f by (auto simp: finalize_statement_def update_events_def Let_def)
  have own: "\<not> (case ?prev of None \<Rightarrow> False | Some p \<Rightarrow> g_customer_id p \<noteq> cu_id (or_customer o'))"
    using ap [folded k_def d_def] by (simp add: applicable_def split: option.splits)
  define w1 where "w1 = w\<lparr>w_db := d1\<rparr>"
  define w2 where "w2 = w\<lparr>w_db := d2\<rparr>"
  have w1: "calm w1" "w_db w1 = d1" using c by (simp_all add: w1_def)
  have wr: "write_entitlement_with_audit_floor (order_apply_statements o' ?prev ?m k (snd fp) now) w
      = (Inr \<lparr>fr_applied = Some g, fr_marked = True\<rparr>, w1)"
    using run rows batch c by (simp add: write_entitlement_with_audit_floor_def io_bind_def calm_batch d_def w1_def)
  have fin: "finish_apply o' k (snd fp) \<lparr>fr_applied = Some g, fr_marked = True\<rparr> w1 = (Inr (200, body), w2)"
    using f w1 by (simp add: finish_apply_def Let_def body_def [symmetric] io_bind_def calm_first w1_def w2_def)
  have "apply_order_event o' fp now w = (Inr (200, body), w2)"
    using c own kind wr fin
    by (simp add: apply_order_event_def Let_def calm_try k_def [symmetric] d_def [symmetric]) (simp add: io_try_def)
  with pr d1 d2 e' show ?thesis
    unfolding Let_def by (intro exI [of _ g] exI [of _ w2] exI [of _ ty] exI [of _ e']) (simp add: w2_def body_def)
qed


text \<open>
  C36. A renewal or a cancellation at period end asserts an active grant (\<open>order_mutation.mjs\<close>), but of a
  disabled grant it answers \<open>applied\<close>, extends the window and leaves the grant disabled.
\<close>

theorem renewal_leaves_disabled_grant:
  fixes fp :: "string \<times> string"
  assumes c: "calm w" and batch: "w_has_batch w" and wf: "wf_order o'" and un: "status_unwritten (or_intent o')"
    and op: "open_event (or_event_id o') (w_db w)" and ap: "applicable o' (or_project o', or_feature o', fst fp) (w_db w)"
    and p: "find_grant (od_core (w_db w)) (or_project o', or_feature o', fst fp) = Some p" and dis: "g_status p = ''disabled''"
  shows "de_status (map_intent_to_mutation o' (Some p)) = Some ''active''
    \<and> (\<exists>g w' body. apply_order_event o' fp now w = (Inr (200, body), w') \<and> ob_code body = ''applied''
      \<and> find_grant (od_core (w_db w')) (or_project o', or_feature o', fst fp) = Some g
      \<and> g_status g = ''disabled'' \<and> g_valid_until g = promised_until o' (Some p))"
proof -
  have "de_status (map_intent_to_mutation o' (Some p)) = Some ''active''"
    using un dis by (auto simp: status_unwritten_def map_intent_to_mutation_def Let_def no_mutation_def)
  moreover from applied_leaves [OF c batch wf op ap, of now, unfolded Let_def p] obtain g w' where
    run: "apply_order_event o' fp now w = (Inr (200, (grant_body ''applied'' (or_project o', or_feature o', fst fp) (snd fp))
      \<lparr>ob_entitlement := Some (Some g)\<rparr>), w')"
    and l: "leaves o' (Some p) g"
    and f: "find_grant (od_core (w_db w')) = (find_grant (od_core (w_db w)))((or_project o', or_feature o', fst fp) \<mapsto> g)"
    by blast
  have "g_status g = ''disabled''" "g_valid_until g = promised_until o' (Some p)"
    using l un dis by (auto simp: leaves_def promised_terms_def written_status_def status_unwritten_def windowed_intents_def)
  moreover have "find_grant (od_core (w_db w')) (or_project o', or_feature o', fst fp) = Some g" by (simp add: f)
  moreover have "ob_code ((grant_body ''applied'' (or_project o', or_feature o', fst fp) (snd fp))\<lparr>ob_entitlement := Some (Some g)\<rparr>)
    = ''applied''" by (simp add: grant_body_def result_body_def)
  ultimately show ?thesis using run by blast
qed

section \<open>A concrete order\<close>

definition renewed_world :: "order_db world" where
  "renewed_world = (calm_world [sample_grant ''c1''])\<lparr>w_db := (order_db_of [sample_grant ''c1''])\<lparr>
     od_orders := [\<lparr>ow_key = (''s1'', ''app'', ''pro''), ow_fingerprint = replicate 64 (CHR ''a''), ow_customer_id = Some ''c1'',
       ow_license_id = None, ow_last_seq = 1, ow_epoch = 0, ow_origin = ''supplied'', ow_created_at = 0, ow_updated_at = 0\<rparr>],
     od_events := [new_event (sample_order ''e1'' 1 ''subscription.renewed'') ''k'' ''d'' ''p'' Accepted NoResult 0 None]\<rparr>\<rparr>"

abbreviation renewal_print :: "string \<times> string" where
  "renewal_print \<equiv> (replicate 64 (CHR ''a''), ''supplied'')"

lemma renewed_world_ready:
  "calm renewed_world" "w_has_batch renewed_world" "open_event ''e1'' (w_db renewed_world)"
  "applicable (sample_order ''e1'' 1 ''subscription.renewed'') (''app'', ''pro'', fst renewal_print) (w_db renewed_world)"
  "wf_order (sample_order ''e1'' 1 ''subscription.renewed'')"
proof -
  show "calm renewed_world" "w_has_batch renewed_world" by (simp_all add: renewed_world_def calm_world_def calm_def)
  show "open_event ''e1'' (w_db renewed_world)"
    by (simp add: renewed_world_def calm_world_def order_db_of_def open_event_def orders_ok_def audits_def audits_due_def find_event_def
        new_event_def find_order_def subscription_of_def cursor_of_def at_of_def)
  show "applicable (sample_order ''e1'' 1 ''subscription.renewed'') (''app'', ''pro'', fst renewal_print) (w_db renewed_world)"
    by code_simp
  show "wf_order (sample_order ''e1'' 1 ''subscription.renewed'')"
    by (simp add: wf_order_def wf_customer_def safe_text_def text_breaks_def fingerprint_text_def lower_hex_def js_digit_def
        code_unit_def safe_count_def order_intents_def max_id_size_def max_project_size_def max_feature_size_def max_safe_integer_def list_all_iff)
qed


definition disabled_world :: "order_db world" where
  "disabled_world = renewed_world\<lparr>w_db := (w_db renewed_world)\<lparr>
     od_core := (od_core (w_db renewed_world))\<lparr>db_grants := [(sample_grant ''c1'')\<lparr>g_status := ''disabled''\<rparr>]\<rparr>\<rparr>\<rparr>"

theorem renewal_leaves_disabled_grant_witness:
  "\<exists>g w' body. apply_order_event (sample_order ''e1'' 1 ''subscription.renewed'') renewal_print 1000 disabled_world = (Inr (200, body), w')
    \<and> ob_code body = ''applied'' \<and> find_grant (od_core (w_db w')) (''app'', ''pro'', fst renewal_print) = Some g
    \<and> g_status g = ''disabled'' \<and> g_valid_until g = Some 2000000"
proof -
  let ?o = "sample_order ''e1'' 1 ''subscription.renewed''" and ?p = "(sample_grant ''c1'')\<lparr>g_status := ''disabled''\<rparr>"
  have c: "calm disabled_world" "w_has_batch disabled_world"
    using renewed_world_ready(1,2) by (simp_all add: disabled_world_def)
  have op: "open_event (or_event_id ?o) (w_db disabled_world)"
    by (simp add: disabled_world_def renewed_world_def calm_world_def order_db_of_def open_event_def orders_ok_def audits_def
        audits_due_def find_event_def new_event_def find_order_def subscription_of_def cursor_of_def at_of_def)
  have facts: "applicable ?o (or_project ?o, or_feature ?o, fst renewal_print) (w_db disabled_world)
    \<and> find_grant (od_core (w_db disabled_world)) (or_project ?o, or_feature ?o, fst renewal_print) = Some ?p
    \<and> status_unwritten (or_intent ?o) \<and> g_status ?p = ''disabled'' \<and> promised_until ?o (Some ?p) = Some 2000000
    \<and> (or_project ?o, or_feature ?o) = (''app'', ''pro'')"
    by code_simp
  from renewal_leaves_disabled_grant [OF c renewed_world_ready(5) _ op, of renewal_print ?p 1000] facts
  show ?thesis by simp
qed

end
