(* ===== verification/Order_Request.thy ===== *)
theory Order_Request
  imports Order_Effects
begin

text \<open>
  The HTTP half of the order ingest: the key map (\<open>auth/secret_map.mjs\<close>), the signature check
  (\<open>order_hmac.mjs\<close>), the bounded body, the signer scopes, the replay nonce and the handler
  (\<open>order_ingest.mjs\<close>). HMAC verification, the digests, the UTF-8 decoder and \<open>JSON.parse\<close> are arguments.
\<close>

section \<open>Base64\<close>

text \<open>\<open>atob\<close>: white space is dropped, at most two \<open>=\<close> complete the last group, anything else throws.\<close>

definition base64_value :: "char \<Rightarrow> nat option" where
  "base64_value c =
     (if js_upper_ascii c then Some (code_unit c - 65)
      else if js_lower_ascii c then Some (code_unit c - 71)
      else if js_digit c then Some (code_unit c + 4)
      else if c = CHR ''+'' then Some 62 else if c = CHR ''/'' then Some 63 else None)"

fun base64_groups :: "nat list \<Rightarrow> byte list option" where
  "base64_groups [] = Some []"
| "base64_groups [a] = None"
| "base64_groups [a, b] = Some [word_of_nat (4 * a + b div 16)]"
| "base64_groups [a, b, c] = Some [word_of_nat (4 * a + b div 16), word_of_nat (16 * (b mod 16) + c div 4)]"
| "base64_groups (a # b # c # e # rest) =
     map_option (\<lambda>bs. word_of_nat (4 * a + b div 16) # word_of_nat (16 * (b mod 16) + c div 4) # word_of_nat (64 * (c mod 4) + e) # bs)
       (base64_groups rest)"

fun all_values :: "string \<Rightarrow> nat list option" where
  "all_values [] = Some []"
| "all_values (c # cs) = obind (base64_value c) (\<lambda>v. map_option (\<lambda>vs. v # vs) (all_values cs))"

definition strip_padding :: "string \<Rightarrow> string" where
  "strip_padding s =
     (if length s mod 4 \<noteq> 0 \<or> s = [] \<or> last s \<noteq> CHR ''='' then s
      else if butlast s \<noteq> [] \<and> last (butlast s) = CHR ''='' then butlast (butlast s) else butlast s)"

definition bytes_from_base64 :: "string \<Rightarrow> byte list option" where
  "bytes_from_base64 s =
     obind (all_values (strip_padding (List.filter (\<lambda>c. code_unit c \<notin> {9, 10, 12, 13, 32}) s))) base64_groups"

section \<open>Keys\<close>

definition min_secret_bytes :: nat where
  "min_secret_bytes = 32"

fun load_secrets :: "(string \<times> jsval) list \<Rightarrow> (string \<times> byte list) list option" where
  "load_secrets [] = Some []"
| "load_secrets ((key_id, v) # ps) = (case v of
     String s \<Rightarrow>
       if s = [] then None
       else obind (bytes_from_base64 s) (\<lambda>bytes.
         if length bytes < min_secret_bytes then None
         else map_option (\<lambda>m. (key_id, bytes) # m) (load_secrets ps))
   | _ \<Rightarrow> None)"

definition load_secret_map :: "(string \<Rightarrow> jsval option) \<Rightarrow> string option \<Rightarrow> (string \<times> byte list) list option" where
  "load_secret_map parse raw = (case raw of
     None \<Rightarrow> None
   | Some s \<Rightarrow>
       if s = [] then None
       else (case parse s of
           Some (Object ps) \<Rightarrow> obind (load_secrets ps) (\<lambda>m. if m = [] then None else Some m)
         | _ \<Rightarrow> None))"

section \<open>The signature\<close>

definition signed_prefix :: string where
  "signed_prefix = ''POST'' @ [from_unit 10] @ ''/v1/orders'' @ [from_unit 10]"

definition canonical_order_signed_text :: "string \<Rightarrow> string \<Rightarrow> string \<Rightarrow> string" where
  "canonical_order_signed_text audience timestamp body = signed_prefix @ audience @ [from_unit 10] @ timestamp @ [from_unit 10] @ body"

definition canonical_order_signed_bytes :: "string \<Rightarrow> string \<Rightarrow> byte list \<Rightarrow> byte list" where
  "canonical_order_signed_bytes audience timestamp body = utf8 (canonical_order_signed_text audience timestamp []) @ body"

text \<open>\<open>String(n) = header\<close>; a safe integer is printed in decimal.\<close>

definition canonical_int_timestamp :: "string option \<Rightarrow> int option" where
  "canonical_int_timestamp header = (case header of
     None \<Rightarrow> None
   | Some s \<Rightarrow>
       if s = [] then None
       else (case js_number s of
           Whole n \<Rightarrow> if n < 0 \<or> int max_safe_integer < n then None else if dec (nat n) \<noteq> s then None else Some n
         | _ \<Rightarrow> None))"

definition clamp_max_skew :: "string option \<Rightarrow> int" where
  "clamp_max_skew raw = (case raw of
     None \<Rightarrow> 300
   | Some s \<Rightarrow> if s = [] then 300 else (case js_number s of Whole n \<Rightarrow> if n \<le> 0 then 300 else min n 3600 | _ \<Rightarrow> 300))"

record order_env =
  oc_secrets :: "string option"
  oc_audience :: "string option"
  oc_scopes :: "string option"
  oc_max_skew :: "string option"

text \<open>The body is its chunks and how the stream ends: it may be absent, locked, or fail after a chunk.\<close>

datatype body_stream = NoBody | LockedBody | Chunks "byte list list" bool

record order_request =
  oq_key_id :: "string option"
  oq_timestamp :: "string option"
  oq_signature :: "string option"
  oq_content_length :: "string option"
  oq_body :: body_stream

text \<open>What the platform computes: \<open>crypto.subtle.verify\<close> of key, signature and data, the hexadecimal
  SHA-256 of bytes, fatal UTF-8 decoding, and \<open>JSON.parse\<close>.\<close>

record platform =
  pl_verify :: "byte list \<Rightarrow> byte list \<Rightarrow> byte list \<Rightarrow> bool"
  pl_sha :: "byte list \<Rightarrow> string"
  pl_decode :: "byte list \<Rightarrow> string option"
  pl_parse :: "string \<Rightarrow> jsval option"

definition verify_order_hmac :: "platform \<Rightarrow> order_env \<Rightarrow> order_request \<Rightarrow> byte list \<Rightarrow> int \<Rightarrow> string + (string \<times> string)" where
  "verify_order_hmac pl env rq body now =
     (case load_secret_map (pl_parse pl) (oc_secrets env) of
        None \<Rightarrow> Inl ''config_error''
      | Some secrets \<Rightarrow>
      case oc_audience env of
        None \<Rightarrow> Inl ''config_error''
      | Some audience \<Rightarrow>
      if audience = [] then Inl ''config_error'' else
      case oq_key_id rq of
        None \<Rightarrow> Inl ''unknown_key_id''
      | Some key_id \<Rightarrow>
      if key_id = [] then Inl ''unknown_key_id'' else
      case map_of secrets key_id of
        None \<Rightarrow> Inl ''unknown_key_id''
      | Some secret \<Rightarrow>
      case canonical_int_timestamp (oq_timestamp rq) of
        None \<Rightarrow> Inl ''stale_timestamp''
      | Some ts \<Rightarrow>
      if clamp_max_skew (oc_max_skew env) < \<bar>now - ts\<bar> then Inl ''stale_timestamp'' else
      case oq_signature rq of
        None \<Rightarrow> Inl ''bad_signature''
      | Some header \<Rightarrow>
      if header = [] then Inl ''bad_signature'' else
      case bytes_from_base64 header of
        None \<Rightarrow> Inl ''bad_signature''
      | Some signature \<Rightarrow>
      if pl_verify pl secret signature (canonical_order_signed_bytes audience (dec (nat ts)) body)
      then Inr (key_id, dec (nat ts)) else Inl ''bad_signature'')"

section \<open>The body\<close>

definition max_order_body_bytes :: nat where
  "max_order_body_bytes = 16384"

fun read_chunks :: "byte list \<Rightarrow> byte list list \<Rightarrow> bool \<Rightarrow> string + byte list" where
  "read_chunks got [] failed = (if failed then Inl ''invalid_order'' else Inr got)"
| "read_chunks got (c # cs) failed =
     (if max_order_body_bytes < length got + length c then Inl ''payload_too_large'' else read_chunks (got @ c) cs failed)"

definition read_order_body_bytes :: "order_request \<Rightarrow> string + byte list" where
  "read_order_body_bytes rq =
     (case js_number (or_else (oq_content_length rq) []) of
        Whole n \<Rightarrow> if int max_order_body_bytes < n then Inl ''payload_too_large'' else
          (case oq_body rq of NoBody \<Rightarrow> Inr [] | LockedBody \<Rightarrow> Inl ''invalid_order'' | Chunks cs failed \<Rightarrow> read_chunks [] cs failed)
      | _ \<Rightarrow> (case oq_body rq of NoBody \<Rightarrow> Inr [] | LockedBody \<Rightarrow> Inl ''invalid_order'' | Chunks cs failed \<Rightarrow> read_chunks [] cs failed))"

section \<open>Scopes\<close>

record signer_scope =
  sc_project :: "string option"
  sc_customer_id :: "string option"

definition scope_field :: "string \<Rightarrow> jsval \<Rightarrow> string option option" where
  "scope_field k v =
     (if k \<notin> set (keys_of v) then Some None
      else case field k v of String s \<Rightarrow> if s = [] then None else Some (Some s) | _ \<Rightarrow> None)"

definition scope_names :: "string list" where
  "scope_names = [''project'', ''customer_id'']"

definition load_scope :: "jsval \<Rightarrow> signer_scope option" where
  "load_scope v = (case v of
     Object ps \<Rightarrow>
       if keys_of v = [] \<or> \<not> names_only v scope_names then None
       else obind (scope_field ''project'' v) (\<lambda>p. obind (scope_field ''customer_id'' v) (\<lambda>c.
         Some \<lparr>sc_project = p, sc_customer_id = c\<rparr>))
   | _ \<Rightarrow> None)"

fun load_scopes :: "(string \<times> jsval) list \<Rightarrow> (string \<times> signer_scope) list option" where
  "load_scopes [] = Some []"
| "load_scopes ((key_id, v) # ps) = obind (load_scope v) (\<lambda>s. map_option (\<lambda>m. (key_id, s) # m) (load_scopes ps))"

definition load_signer_scopes :: "(string \<Rightarrow> jsval option) \<Rightarrow> string option \<Rightarrow> (string \<times> signer_scope) list option" where
  "load_signer_scopes parse raw = (case raw of
     None \<Rightarrow> None
   | Some s \<Rightarrow> if s = [] then None else (case parse s of Some (Object ps) \<Rightarrow> load_scopes ps | _ \<Rightarrow> None))"

definition signer_scope_violation :: "(string \<times> signer_scope) list \<Rightarrow> string \<Rightarrow> order \<Rightarrow> bool" where
  "signer_scope_violation scopes key_id o' = (case map_of scopes key_id of
     None \<Rightarrow> True
   | Some s \<Rightarrow>
       (case sc_project s of None \<Rightarrow> False | Some p \<Rightarrow> p \<noteq> [] \<and> or_project o' \<noteq> p)
       \<or> (case sc_customer_id s of None \<Rightarrow> False | Some c \<Rightarrow> c \<noteq> [] \<and> cu_id (or_customer o') \<noteq> c))"

section \<open>The payload digest\<close>

text \<open>\<open>JSON.stringify\<close> of a string, and the normalized order with its keys sorted.\<close>

definition json_char :: "char \<Rightarrow> string" where
  "json_char c = (let n = code_unit c in
     if n = 34 \<or> n = 92 then [from_unit 92, c]
     else if n = 8 then [from_unit 92] @ ''b'' else if n = 12 then [from_unit 92] @ ''f''
     else if n = 10 then [from_unit 92] @ ''n'' else if n = 13 then [from_unit 92] @ ''r''
     else if n = 9 then [from_unit 92] @ ''t''
     else if n < 32 then [from_unit 92] @ ''u00'' @ hex_byte (word_of_nat n) else [c])"

definition json_string :: "string \<Rightarrow> string" where
  "json_string s = [from_unit 34] @ concat (List.map json_char s) @ [from_unit 34]"

definition json_object :: "(string \<times> string) list \<Rightarrow> string" where
  "json_object ps = ''{'' @ js_join '','' (List.map (\<lambda>(k, v). json_string k @ '':'' @ v) ps) @ ''}''"

definition present :: "string \<Rightarrow> ('a \<Rightarrow> string) \<Rightarrow> 'a option \<Rightarrow> (string \<times> string) list" where
  "present k f x = (case x of None \<Rightarrow> [] | Some y \<Rightarrow> [(k, f y)])"

definition json_count :: "int \<Rightarrow> string" where
  "json_count n = dec (nat n)"

definition stable_customer :: "order_customer \<Rightarrow> string" where
  "stable_customer c = json_object (present ''email'' json_string (cu_email c) @ present ''external_ref'' json_string (cu_external_ref c)
     @ [(''id'', json_string (cu_id c))] @ present ''name'' json_string (cu_name c))"

definition stable_stringify :: "order \<Rightarrow> string" where
  "stable_stringify o' = json_object (present ''current_period_end'' json_count (or_period_end o')
     @ [(''customer'', stable_customer (or_customer o')), (''event_id'', json_string (or_event_id o')),
        (''feature'', json_string (or_feature o')), (''intent'', json_string (or_intent o'))]
     @ present ''license_fingerprint'' json_string (or_fingerprint o') @ present ''license_id'' json_string (or_license_id o')
     @ present ''occurred_at'' json_count (or_occurred_at o')
     @ [(''order_epoch'', json_count (or_epoch o')), (''project'', json_string (or_project o'))]
     @ present ''quantity'' (\<lambda>n. json_object [(''max_active_devices'', json_count n)]) (or_quantity o')
     @ [(''seq'', json_count (or_seq o')), (''subscription_id'', json_string (or_subscription_id o'))])"

definition sha_text :: "platform \<Rightarrow> string \<Rightarrow> string" where
  "sha_text pl s = pl_sha pl (utf8 s)"

definition payload_digest :: "platform \<Rightarrow> order \<Rightarrow> string" where
  "payload_digest pl o' = sha_text pl (stable_stringify o')"

section \<open>The replay nonce\<close>

definition insert_nonce :: "string \<times> string \<Rightarrow> int \<Rightarrow> order_command" where
  "insert_nonce nonce expires d =
     (if map_of (od_nonces d) nonce \<noteq> None then Inr ([], set_changes 0 d)
      else Inr ([IdOut (snd nonce)], set_changes 1 d\<lparr>od_nonces := od_nonces d @ [(nonce, expires)]\<rparr>))"

definition delete_expired_nonces :: "int \<Rightarrow> order_command" where
  "delete_expired_nonces now d =
     Inr ([], set_changes (length (filter (\<lambda>(_, t). t < now) (od_nonces d))) d\<lparr>od_nonces := filter (\<lambda>(_, t). \<not> t < now) (od_nonces d)\<rparr>)"

datatype nonce_state = Fresh | Replayed | NonceError

definition spend_order_nonce :: "string \<Rightarrow> string \<Rightarrow> int \<Rightarrow> int \<Rightarrow> nonce_state order_io" where
  "spend_order_nonce key_id nonce now max_skew =
     io_try (first_of (insert_nonce (key_id, nonce) (now + max_skew * 2))) (\<lambda>_. io_return NonceError) (\<lambda>row.
       if row = None then io_return Replayed
       else io_try (first_of (delete_expired_nonces now)) (\<lambda>_. io_return Fresh) (\<lambda>_. io_return Fresh))"

section \<open>The handler\<close>

text \<open>The checks before the database is touched: the signer, the time stamp, the order and the body.\<close>

definition hmac_refusal :: "string \<Rightarrow> order_reply" where
  "hmac_refusal code =
     (if code = ''config_error'' then refusal 503 ''config_error''
      else if code = ''unknown_key_id'' then refusal 401 ''unknown_key_id''
      else if code = ''stale_timestamp'' then refusal 401 ''stale_timestamp''
      else refusal 401 ''bad_signature'')"

record admitted_request =
  ar_order :: order
  ar_key_id :: string
  ar_timestamp :: string
  ar_bytes :: "byte list"
  ar_text :: string

definition admit_order_request :: "platform \<Rightarrow> order_env \<Rightarrow> order_request \<Rightarrow> int \<Rightarrow> int \<Rightarrow> order_reply + admitted_request" where
  "admit_order_request pl env rq verified_at now =
     (case read_order_body_bytes rq of
        Inl code \<Rightarrow> Inl (refusal (if code = ''payload_too_large'' then 413 else 400) code)
      | Inr bytes \<Rightarrow>
      case verify_order_hmac pl env rq bytes verified_at of
        Inl code \<Rightarrow> Inl (hmac_refusal code)
      | Inr (key_id, timestamp) \<Rightarrow>
      case pl_decode pl bytes of
        None \<Rightarrow> Inl (refusal 400 ''invalid_order'')
      | Some text \<Rightarrow>
      case obind (pl_parse pl text) (\<lambda>v. normalize_order_event_for_replay v now) of
        None \<Rightarrow> Inl (refusal 400 ''invalid_order'')
      | Some o' \<Rightarrow>
      case load_signer_scopes (pl_parse pl) (oc_scopes env) of
        None \<Rightarrow> Inl (refusal 503 ''config_error'')
      | Some scopes \<Rightarrow>
      if signer_scope_violation scopes key_id o' then Inl (refusal 403 ''signer_scope_forbidden'')
      else Inr \<lparr>ar_order = o', ar_key_id = key_id, ar_timestamp = timestamp, ar_bytes = bytes, ar_text = text\<rparr>)"

definition request_nonce :: "platform \<Rightarrow> admitted_request \<Rightarrow> string" where
  "request_nonce pl a = ar_timestamp a @ '':'' @ pl_sha pl (ar_bytes a)"

text \<open>\<open>verified_at\<close> and \<open>now\<close> are the two readings of the clock.\<close>

definition handle_order_ingest :: "platform \<Rightarrow> order_env \<Rightarrow> order_request \<Rightarrow> int \<Rightarrow> int \<Rightarrow> order_reply order_io" where
  "handle_order_ingest pl env rq verified_at now = (case admit_order_request pl env rq verified_at now of
     Inl reply \<Rightarrow> io_return reply
   | Inr a \<Rightarrow>
       io_bind (spend_order_nonce (ar_key_id a) (request_nonce pl a) now (clamp_max_skew (oc_max_skew env))) (\<lambda>state. case state of
           Replayed \<Rightarrow> io_return (refusal 401 ''replayed'')
         | NonceError \<Rightarrow> io_return write_failed
         | Fresh \<Rightarrow> run_exactly_once (sha_text pl) (ar_order a) (ar_key_id a) (payload_digest pl (ar_order a)) (ar_text a) now))"

end
