(* ===== verification/Order_Trace.thy ===== *)
theory Order_Trace
  imports Order_Safety
begin

text \<open>
  What an order request itself does to the grants, whatever others do. A request's run is a trace of
  database changes: those of the other requests its schedule names, about which nothing is assumed, and
  its own, each of which is one statement or one batch.
\<close>

section \<open>Traces\<close>

text \<open>One of the changes other requests make during a run.\<close>

definition others :: "'d world \<Rightarrow> 'd \<Rightarrow> 'd \<Rightarrow> bool" where
  "others w d d' \<longleftrightarrow> (\<exists>t\<in>set (w_schedule w). d' = tn_others t d)"

text \<open>A sequence of changes, each of them another request's or one that \<open>S\<close> allows.\<close>

definition traced :: "('d \<Rightarrow> 'd \<Rightarrow> bool) \<Rightarrow> 'd world \<Rightarrow> 'd \<Rightarrow> 'd \<Rightarrow> bool" where
  "traced S w = (\<lambda>d d'. others w d d' \<or> S d d')\<^sup>*\<^sup>*"

lemma closure_guarantee: "guarantee (R\<^sup>*\<^sup>*)"
  by unfold_locales auto

lemma traced_guarantee: "guarantee (traced S w)"
  unfolding traced_def by (rule closure_guarantee)

lemma traced_honest: "honest_world (traced S w) w"
  by (auto simp: honest_world_def traced_def others_def intro!: r_into_rtranclp)

lemma traced_own: "S\<^sup>*\<^sup>* d d' \<Longrightarrow> traced S w d d'"
  unfolding traced_def by (rule rtranclp_mono [THEN predicate2D, rotated]) auto

lemma kept_mono: "order_kept G s \<Longrightarrow> (\<And>d d'. G d d' \<Longrightarrow> H d d') \<Longrightarrow> order_kept H s"
  by (auto simp: order_kept_def)

text \<open>A contract holds of every weaker guarantee.\<close>

lemma order_contract_mono:
  assumes c: "order_contract G P" and "guarantee H" and le: "\<And>d d'. G d d' \<Longrightarrow> H d d'"
  shows "order_contract H P"
proof -
  note facts = order_contract.finish [OF c] order_contract.finalize [OF c] order_contract.stale [OF c]
    order_contract.identity [OF c] order_contract.license [OF c] order_contract.customer [OF c]
    order_contract.accept [OF c] order_contract.apply_batch [OF c]
  show ?thesis
    by (intro order_contract.intro assms(2); unfold_locales)
      (auto intro: le kept_mono [OF _ le] facts)
qed

lemma contract_run:
  assumes "order_contract G P" and "P o'" and "honest_world G w"
    and "run_exactly_once sha o' key_id digest payload now w = (r, w')"
  shows "G (w_db w) (w_db w')"
  using guarantee.keepsD [OF order_contract.axioms(1) [OF assms(1)] order_contract.keeps_run [OF assms(1,2)] assms(3,4)] by simp

section \<open>The steps of an order\<close>

text \<open>
  A statement or batch of order \<open>o'\<close> leaves all grants and places alone, or writes one grant of the order's
  own project, feature and customer and moves it to the order's place. It may only do so when that place
  comes after the one the grant has; the revocation sequence grows, the owner stays, revoked stays revoked.
\<close>

definition moves_grant :: "order \<Rightarrow> grant_key \<Rightarrow> grant \<Rightarrow> order_db \<Rightarrow> order_db \<Rightarrow> bool" where
  "moves_grant o' k g d d' \<longleftrightarrow>
     fst k = or_project o' \<and> fst (snd k) = or_feature o' \<and> g_customer_id g = cu_id (or_customer o')
     \<and> find_grant (od_core d') = (find_grant (od_core d))(k \<mapsto> g)
     \<and> od_floors d' = (od_floors d)(k := (or_epoch o', or_seq o'))
     \<and> (\<forall>p. find_grant (od_core d) k = Some p \<longrightarrow>
          comes_before (od_floors d k) (or_epoch o', or_seq o') \<and> g_revocation_seq p < g_revocation_seq g
          \<and> g_customer_id p = g_customer_id g \<and> (g_status p = ''revoked'' \<longrightarrow> g_status g = ''revoked''))"

definition leaves_places :: "order_db \<Rightarrow> order_db \<Rightarrow> bool" where
  "leaves_places d d' \<longleftrightarrow> find_grant (od_core d') = find_grant (od_core d) \<and> od_floors d' = od_floors d"

definition order_step :: "order \<Rightarrow> order_db \<Rightarrow> order_db \<Rightarrow> bool" where
  "order_step o' d d' \<longleftrightarrow> leaves_places d d' \<or> (\<exists>k g. moves_grant o' k g d d')"

lemma leaves_places_guarantee: "guarantee leaves_places"
  by unfold_locales (auto simp: leaves_places_def)

lemma leaves_places_changes [simp]: "leaves_places d (set_changes n d)"
  by (simp add: leaves_places_def)

lemma leaves_places_statements:
  "order_kept leaves_places (finish_event i status body now cond)" "order_kept leaves_places (finalize_statement i body)"
  "order_kept leaves_places (claim_stale_statement o' digest body now)" "order_kept leaves_places (insert_order_identity o' fp now)"
  "order_kept leaves_places (upsert_license o' lid now)" "order_kept leaves_places (insert_customer cu email withdrawal now)"
  "order_kept leaves_places (build_order_event_statement k ty o' now live)"
  "order_kept leaves_places (build_order_cursor_advance o' now fp reserved)"
  "order_kept leaves_places (event_claim_statement o' key_id digest payload now fp)"
  by (auto simp: order_kept_def leaves_places_def finish_event_def finalize_statement_def update_events_def claim_stale_statement_def
      insert_order_identity_def upsert_license_def insert_customer_def build_order_event_statement_def
      build_order_cursor_advance_def event_claim_statement_def Let_def find_grant_logged
      split: if_splits option.splits)

lemma run_leaves_places:
  "\<forall>s\<in>set ss. order_kept leaves_places s \<Longrightarrow> run_statements ss d = Inr (rs, d') \<Longrightarrow> leaves_places d d'"
proof (induction ss arbitrary: d rs)
  case Nil
  then show ?case by (simp add: guarantee.refl [OF leaves_places_guarantee])
next
  case (Cons s ss)
  then obtain r d1 rs' where "s d = Inr (r, d1)" "run_statements ss d1 = Inr (rs', d')"
    by (auto simp: rbind_Inr_iff)
  with Cons have "leaves_places d d1" "leaves_places d1 d'" by (auto simp: order_kept_def)
  then show ?case by (rule guarantee.trans [OF leaves_places_guarantee])
qed

lemma accept_leaves_places:
  assumes "run_statements (build_accept_batch o' key_id digest payload now fp) d = Inr (rs, d')"
  shows "leaves_places d d'"
proof (rule run_leaves_places [OF _ assms])
  have "order_kept leaves_places (\<lambda>d. if list_ex (admits o' fp) (od_orders d) then upsert_license o' lid now d else Inr ([], set_changes 0 d))" for lid
    using leaves_places_statements(5) by (auto simp: order_kept_def)
  then show "\<forall>s\<in>set (build_accept_batch o' key_id digest payload now fp). order_kept leaves_places s"
    by (auto simp: build_accept_batch_def build_order_license_reservation_def Let_def leaves_places_statements split: option.split)
qed

lemma wrote_moves:
  "wrote o' k g d d' \<Longrightarrow> fst k = or_project o' \<Longrightarrow> fst (snd k) = or_feature o' \<Longrightarrow> moves_grant o' k g d d'"
  by (auto simp: wrote_def moves_grant_def later_grant_def)

lemma moves_then_leaves: "moves_grant o' k g d d1 \<Longrightarrow> leaves_places d1 d' \<Longrightarrow> moves_grant o' k g d d'"
  by (simp add: moves_grant_def leaves_places_def)

lemma apply_step:
  assumes "de_kind m \<noteq> NoneKind" and k: "k = (or_project o', or_feature o', f)"
    and "run_statements (order_apply_statements o' prev m k origin now) d = Inr (rs, d')"
  shows "order_step o' d d'"
proof -
  define rest where "rest = tl (order_apply_statements o' prev m k origin now)"
  have split: "order_apply_statements o' prev m k origin now = fst (order_write o' prev m k now) # rest"
    by (simp add: rest_def order_apply_statements_def)
  have "\<forall>s\<in>set rest. order_kept leaves_places s"
    by (auto simp: rest_def order_apply_statements_def build_processed_mark_statement_def build_foreign_owner_order_event_mark_def
        build_revoked_order_event_mark_def build_rejected_order_event_mark_def leaves_places_statements)
  moreover from assms(3) obtain r d1 rs' where w: "fst (order_write o' prev m k now) d = Inr (r, d1)"
    and t: "run_statements rest d1 = Inr (rs', d')"
    unfolding split by (auto simp: rbind_Inr_iff)
  ultimately have t: "leaves_places d1 d'" by (blast intro: run_leaves_places)
  from order_write_cases [OF w assms(1)] show ?thesis
  proof
    assume "r = [] \<and> d1 = set_changes 0 d"
    with t show ?thesis by (simp add: order_step_def leaves_places_def)
  next
    assume "\<exists>g. r = [GrantOut g] \<and> wrote o' k g d d1 \<and> (requires_live m \<longrightarrow> g_status g \<noteq> ''revoked'')"
    then obtain g where "wrote o' k g d d1" by blast
    from moves_then_leaves [OF wrote_moves [OF this] t] show ?thesis by (auto simp: order_step_def k)
  qed
qed

lemma step_leaves: "leaves_places d d' \<Longrightarrow> (order_step o')\<^sup>*\<^sup>* d d'"
  by (auto simp: order_step_def)

interpretation stepping: order_contract "(order_step o')\<^sup>*\<^sup>*" "\<lambda>x. x = o'" for o'
proof (intro order_contract.intro closure_guarantee; unfold_locales)
  show "(order_step o')\<^sup>*\<^sup>* d d'"
    if "run_statements (build_accept_batch x key_id digest payload now fp) d = Inr (rs, d')" for x key_id digest payload now fp d rs d'
    using accept_leaves_places [OF that] by (rule step_leaves)
  show "(order_step o')\<^sup>*\<^sup>* d d'"
    if "x = o'" "de_kind (map_intent_to_mutation x prev) \<noteq> NoneKind" "k = (or_project x, or_feature x, fst fp)"
      "run_statements (order_apply_statements x prev (map_intent_to_mutation x prev) k (snd fp) now) d = Inr (rs, d')"
    for x prev k fp now d rs d'
    using apply_step [OF that(2-4)] that(1) by auto
qed (auto intro: kept_mono [OF _ step_leaves] leaves_places_statements)

section \<open>Forward\<close>

text \<open>
  Every grant persists; it is untouched and at its place, or it has a higher revocation sequence and a
  later place; a revoked one stays revoked.
\<close>

definition forward :: "order_db \<Rightarrow> order_db \<Rightarrow> bool" where
  "forward d d' \<longleftrightarrow> (\<forall>k g. find_grant (od_core d) k = Some g \<longrightarrow> (\<exists>g'. find_grant (od_core d') k = Some g'
     \<and> (g' = g \<and> od_floors d' k = od_floors d k
        \<or> g_revocation_seq g < g_revocation_seq g' \<and> comes_before (od_floors d k) (od_floors d' k))
     \<and> (g_status g = ''revoked'' \<longrightarrow> g_status g' = ''revoked'')))"

lemma comes_before_trans: "comes_before a b \<Longrightarrow> comes_before b c \<Longrightarrow> comes_before a c"
  by (auto simp: comes_before_def)

lemma forward_guarantee: "guarantee forward"
proof unfold_locales
  show "forward d d''" if a: "forward d d'" and b: "forward d' d''" for d d' d''
    unfolding forward_def
  proof (intro allI impI)
    fix k g assume "find_grant (od_core d) k = Some g"
    with a obtain g' where g': "find_grant (od_core d') k = Some g'"
      and 1: "g' = g \<and> od_floors d' k = od_floors d k
        \<or> g_revocation_seq g < g_revocation_seq g' \<and> comes_before (od_floors d k) (od_floors d' k)"
      and r1: "g_status g = ''revoked'' \<longrightarrow> g_status g' = ''revoked''" unfolding forward_def by blast
    from b g' obtain g'' where g'': "find_grant (od_core d'') k = Some g''"
      and 2: "g'' = g' \<and> od_floors d'' k = od_floors d' k
        \<or> g_revocation_seq g' < g_revocation_seq g'' \<and> comes_before (od_floors d' k) (od_floors d'' k)"
      and r2: "g_status g' = ''revoked'' \<longrightarrow> g_status g'' = ''revoked''" unfolding forward_def by blast
    from 1 2 have "g'' = g \<and> od_floors d'' k = od_floors d k
        \<or> g_revocation_seq g < g_revocation_seq g'' \<and> comes_before (od_floors d k) (od_floors d'' k)"
      by (elim disjE conjE) (auto intro: comes_before_trans)
    with g'' r1 r2 show "\<exists>g'. find_grant (od_core d'') k = Some g' \<and> (g' = g \<and> od_floors d'' k = od_floors d k
        \<or> g_revocation_seq g < g_revocation_seq g' \<and> comes_before (od_floors d k) (od_floors d'' k))
      \<and> (g_status g = ''revoked'' \<longrightarrow> g_status g' = ''revoked'')" by blast
  qed
qed (simp add: forward_def)

lemma step_forward: "order_step o' d d' \<Longrightarrow> forward d d'"
  by (auto simp: order_step_def leaves_places_def moves_grant_def forward_def)

lemma steps_forward: "(order_step o')\<^sup>*\<^sup>* d d' \<Longrightarrow> forward d d'"
  by (induction rule: rtranclp_induct)
    (auto intro: guarantee.refl [OF forward_guarantee] guarantee.trans [OF forward_guarantee] step_forward)

text \<open>C14. Orders move grants forward only. Whatever other requests do meanwhile and whichever calls are
  lost, each change an order request itself makes leaves every grant and place as it finds it, or writes one
  grant of its own project, feature and customer, whose revocation sequence then strictly grows and whose
  place strictly advances to the order's; revocation is final and nothing disappears. When the other
  requests move grants forward too, as orders do, so does the whole run: a grant that changed has a higher
  sequence and a later place.\<close>

theorem orders_move_grants_forward:
  assumes "run_exactly_once sha o' key_id digest payload now w = (r, w')"
  shows "traced (order_step o') w (w_db w) (w_db w')
    \<and> (honest_world forward w \<longrightarrow> forward (w_db w) (w_db w'))"
proof (intro conjI impI)
  note contract = order_contract_mono [OF stepping.order_contract_axioms]
  show "traced (order_step o') w (w_db w) (w_db w')"
    by (rule contract_run [OF contract [OF traced_guarantee traced_own] HOL.refl traced_honest assms])
  show "forward (w_db w) (w_db w')" if "honest_world forward w"
    by (rule contract_run [OF contract [OF forward_guarantee steps_forward] HOL.refl that assms])
qed

theorem orders_move_grants_forward_witness:
  "forward (w_db (lossy_world [sample_grant ''c1''])) (w_db (snd (lossy_run [sample_grant ''c1''])))"
proof -
  have "honest_world forward (lossy_world [sample_grant ''c1''])"
    by (rule lossy_honest) (rule guarantee.refl [OF forward_guarantee])
  then show ?thesis
    using orders_move_grants_forward [of no_sha "sample_order ''e1'' 1 ''subscription.active''" "''k''" "''d''" "''p''" 1000
        "lossy_world [sample_grant ''c1'']"]
    by (cases "lossy_run [sample_grant ''c1'']") simp
qed

end
