(* ===== verification/Order_Admission.thy ===== *)
theory Order_Admission
  imports Order_Request Order_Trace
begin

text \<open>
  What the checks of the HTTP half promise: a request reaches the order flow only with a signature over its
  exact bytes, inside its signer's scope and once, and the flow then stays inside that scope.
\<close>

section \<open>Requests keep what orders keep\<close>

text \<open>A relation that orders keep and that the nonce statements of clocks up to \<open>clock\<close> keep.\<close>

locale admission_contract = order_contract G P
  for G :: "order_db \<Rightarrow> order_db \<Rightarrow> bool" and P :: "order \<Rightarrow> bool" +
  fixes clock :: int
  assumes spend: "order_kept G (insert_nonce nonce expires)"
    and clean: "now \<le> clock \<Longrightarrow> order_kept G (delete_expired_nonces now)"
begin

lemma keeps_spend: "now \<le> clock \<Longrightarrow> keeps G (spend_order_nonce key_id nonce now skew)"
  unfolding spend_order_nonce_def by (auto intro!: keeps_try keeps_first spend clean keeps_simple)

lemma keeps_handle:
  assumes "now \<le> clock" and "\<And>a. admit_order_request pl env rq v now = Inr a \<Longrightarrow> P (ar_order a)"
  shows "keeps G (handle_order_ingest pl env rq v now)"
proof (cases "admit_order_request pl env rq v now")
  case (Inl reply)
  then show ?thesis by (simp add: handle_order_ingest_def keeps_simple)
next
  case (Inr a)
  with assms show ?thesis
    by (auto simp: handle_order_ingest_def intro!: keeps_bind keeps_spend keeps_simple keeps_run split: nonce_state.split)
qed

end

lemma run_kept:
  assumes "guarantee G" and "\<forall>s\<in>set ss. order_kept G s" and "run_statements ss d = Inr (rs, d')"
  shows "G d d'"
  using assms(2,3)
proof (induction ss arbitrary: d rs)
  case Nil
  then show ?case using guarantee.refl [OF assms(1)] by simp
next
  case (Cons s ss)
  then obtain r d1 rs' where "s d = Inr (r, d1)" "run_statements ss d1 = Inr (rs', d')"
    by (auto simp: rbind_Inr_iff)
  with Cons have "G d d1" "G d1 d'" by (auto simp: order_kept_def)
  then show ?case by (rule guarantee.trans [OF assms(1)])
qed

section \<open>The statements beside the write\<close>

text \<open>All but the first statement of an apply leave grants and nonces as they are.\<close>

definition leaves_grants :: "order_command \<Rightarrow> bool" where
  "leaves_grants s \<longleftrightarrow> (\<forall>d rows d'. s d = Inr (rows, d') \<longrightarrow> find_grant (od_core d') = find_grant (od_core d))"

definition leaves_nonces :: "order_command \<Rightarrow> bool" where
  "leaves_nonces s \<longleftrightarrow> (\<forall>d rows d'. s d = Inr (rows, d') \<longrightarrow> od_nonces d' = od_nonces d)"

lemmas side_statements = finish_event_def finalize_statement_def update_events_def claim_stale_statement_def
  insert_order_identity_def upsert_license_def insert_customer_def build_order_event_statement_def
  build_order_cursor_advance_def event_claim_statement_def

lemma set_changes_nonces [simp]: "od_nonces (set_changes n d) = od_nonces d"
  by (simp add: set_changes_def)

lemma leaves_grants_intros:
  "leaves_grants (finish_event i status body now cond)" "leaves_grants (finalize_statement i body)"
  "leaves_grants (claim_stale_statement o' digest body now)" "leaves_grants (insert_order_identity o' fp now)"
  "leaves_grants (upsert_license o' lid now)" "leaves_grants (insert_customer cu email withdrawal now)"
  "leaves_grants (build_order_event_statement k ty o' now live)"
  "leaves_grants (build_order_cursor_advance o' now fp reserved)"
  "leaves_grants (event_claim_statement o' key_id digest payload now fp)"
  "leaves_grants (insert_nonce nonce expires)" "leaves_grants (delete_expired_nonces now)"
  by (auto simp: leaves_grants_def side_statements insert_nonce_def delete_expired_nonces_def Let_def find_grant_logged
      split: if_splits option.splits)

lemma leaves_nonces_intros:
  "leaves_nonces (finish_event i status body now cond)" "leaves_nonces (finalize_statement i body)"
  "leaves_nonces (claim_stale_statement o' digest body now)" "leaves_nonces (insert_order_identity o' fp now)"
  "leaves_nonces (upsert_license o' lid now)" "leaves_nonces (insert_customer cu email withdrawal now)"
  "leaves_nonces (build_order_event_statement k ty o' now live)"
  "leaves_nonces (build_order_cursor_advance o' now fp reserved)"
  "leaves_nonces (event_claim_statement o' key_id digest payload now fp)"
  by (auto simp: leaves_nonces_def side_statements set_changes_def Let_def split: if_splits option.splits)


lemma accept_leaves:
  assumes "s \<in> set (build_accept_batch o' key_id digest payload now fp)"
  shows "leaves_grants s \<and> leaves_nonces s"
proof -
  have "leaves_grants (\<lambda>d. if list_ex (admits o' fp) (od_orders d) then upsert_license o' lid now d else Inr ([], set_changes 0 d))"
    "leaves_nonces (\<lambda>d. if list_ex (admits o' fp) (od_orders d) then upsert_license o' lid now d else Inr ([], set_changes 0 d))" for lid
    using leaves_grants_intros(5) leaves_nonces_intros(5) by (auto simp: leaves_grants_def leaves_nonces_def)
  with assms show ?thesis
    by (auto simp: build_accept_batch_def build_order_license_reservation_def Let_def leaves_grants_intros leaves_nonces_intros
        split: option.splits)
qed

lemma update_floored_nonces: "update_floored cols k floor cond f d = Inr (rows, d') \<Longrightarrow> od_nonces d' = od_nonces d"
  unfolding update_floored_def rbind_Inr_iff by (elim exE conjE, case_tac "fst x") auto

lemma write_leaves_nonces: "leaves_nonces (fst (order_write o' prev m k now))"
  unfolding leaves_nonces_def order_write_def build_patch_statement_def build_transition_statement_def
    build_capacity_statement_def build_create_statement_def Let_def
  by (auto simp: rbind_Inr_iff split: mutation_kind.splits option.splits dest: update_floored_nonces)

lemma apply_leaves:
  assumes "s \<in> set (order_apply_statements o' prev m k origin now)"
  shows "leaves_nonces s \<and> (s = fst (order_write o' prev m k now) \<or> leaves_grants s)"
  using assms
  by (auto simp: order_apply_statements_def build_processed_mark_statement_def build_foreign_owner_order_event_mark_def
      build_revoked_order_event_mark_def build_rejected_order_event_mark_def leaves_grants_intros leaves_nonces_intros
      write_leaves_nonces split: if_splits)

section \<open>Nonces\<close>

text \<open>A nonce that expires at \<open>clock\<close> or later stays spent.\<close>

definition nonces_kept :: "int \<Rightarrow> order_db \<Rightarrow> order_db \<Rightarrow> bool" where
  "nonces_kept clock d d' \<longleftrightarrow>
     (\<forall>n t. map_of (od_nonces d) n = Some t \<and> clock \<le> t \<longrightarrow> map_of (od_nonces d') n = Some t)"

lemma nonces_kept_same: "leaves_nonces s \<Longrightarrow> order_kept (nonces_kept clock) s"
  by (auto simp: order_kept_def leaves_nonces_def nonces_kept_def)

lemma nonces_guarantee: "guarantee (nonces_kept clock)"
  by unfold_locales (auto simp: nonces_kept_def)

lemma map_of_unexpired:
  "map_of ns n = Some t \<Longrightarrow> \<not> t < now \<Longrightarrow> map_of (filter (\<lambda>(_, t). \<not> t < now) ns) n = Some (t::int)"
  by (induction ns) (auto split: if_splits)

interpretation nonces: admission_contract "nonces_kept clock" "\<lambda>_. True" clock for clock
proof -
  have b: "nonces_kept clock d d'" if "\<forall>s\<in>set ss. leaves_nonces s" "run_statements ss d = Inr (rs, d')" for ss d rs d'
    by (rule run_kept [OF nonces_guarantee _ that(2)]) (use that(1) in \<open>auto intro: nonces_kept_same\<close>)
  have s: "order_kept (nonces_kept clock) (insert_nonce nonce expires)" for nonce expires
    by (auto simp: order_kept_def nonces_kept_def insert_nonce_def set_changes_def map_add_def split: if_splits option.split)
  have c: "order_kept (nonces_kept clock) (delete_expired_nonces now)" if "now \<le> clock" for now
    using that by (auto simp: order_kept_def nonces_kept_def delete_expired_nonces_def set_changes_def intro: map_of_unexpired)
  show "admission_contract (nonces_kept clock) (\<lambda>_. True) clock"
    by (intro admission_contract.intro order_contract.intro nonces_guarantee; unfold_locales;
        auto intro: s c nonces_kept_same leaves_nonces_intros b dest: accept_leaves apply_leaves)
qed

section \<open>The scope\<close>

definition spares_projects :: "string \<Rightarrow> order_db \<Rightarrow> order_db \<Rightarrow> bool" where
  "spares_projects p d d' \<longleftrightarrow> (\<forall>k. fst k \<noteq> p \<longrightarrow> find_grant (od_core d') k = find_grant (od_core d) k)"

lemma projects_guarantee: "guarantee (spares_projects p)"
  by unfold_locales (auto simp: spares_projects_def)

lemma projects_same: "leaves_grants s \<Longrightarrow> order_kept (spares_projects p) s"
  by (auto simp: order_kept_def leaves_grants_def spares_projects_def)

lemma wrote_other: "wrote o' k g d d' \<Longrightarrow> k' \<noteq> k \<Longrightarrow> find_grant (od_core d') k' = find_grant (od_core d) k'"
  by (simp add: wrote_def)

lemma write_spares_projects:
  assumes "de_kind m \<noteq> NoneKind" and "fst k = p"
  shows "order_kept (spares_projects p) (fst (order_write o' prev m k now))"
  unfolding order_kept_def
proof (intro allI impI)
  fix d rows d'
  assume "fst (order_write o' prev m k now) d = Inr (rows, d')"
  from order_write_cases [OF this assms(1)] show "spares_projects p d d'"
    unfolding spares_projects_def using assms(2) by (auto intro: wrote_other)
qed

interpretation projects: admission_contract "spares_projects p" "\<lambda>o'. or_project o' = p" clock for p clock
proof -
  have a: "spares_projects p d d'"
    if "run_statements (build_accept_batch o' key_id digest payload now fp) d = Inr (rs, d')" for o' key_id digest payload now fp d rs d'
    by (rule run_kept [OF projects_guarantee _ that]) (auto intro: projects_same dest: accept_leaves)
  have w: "spares_projects p d d'"
    if "de_kind m \<noteq> NoneKind" "fst k = p" "run_statements (order_apply_statements o' prev m k origin now) d = Inr (rs, d')"
    for o' prev m k origin now d rs d'
    by (rule run_kept [OF projects_guarantee _ that(3)])
      (use that(1,2) in \<open>auto intro: projects_same write_spares_projects dest: apply_leaves\<close>)
  show "admission_contract (spares_projects p) (\<lambda>o'. or_project o' = p) clock"
  proof (intro admission_contract.intro order_contract.intro projects_guarantee; unfold_locales)
    fix o' :: order and prev k fp now d rs d'
    assume "or_project o' = p" "de_kind (map_intent_to_mutation o' prev) \<noteq> NoneKind" "k = (or_project o', or_feature o', fst fp)"
      "run_statements (order_apply_statements o' prev (map_intent_to_mutation o' prev) k (snd fp) now) d = Inr (rs, d')"
    then show "spares_projects p d d'" by (intro w [of _ k]) simp_all
  qed (auto intro: projects_same leaves_grants_intros a)
qed

interpretation customers: admission_contract "spares c" "\<lambda>o'. cu_id (or_customer o') = c" clock for c clock
  by unfold_locales (rule order_kept_same; use leaves_grants_intros(10,11) in \<open>auto simp: leaves_grants_def\<close>)+


section \<open>What a request must show\<close>

lemma load_secrets_long: "load_secrets ps = Some m \<Longrightarrow> map_of m k = Some b \<Longrightarrow> 32 \<le> length b"
  by (induction ps arbitrary: m rule: load_secrets.induct)
    (auto simp: min_secret_bytes_def obind_Some_iff split: jsval.splits if_splits)

lemma secret_map_long: "load_secret_map parse raw = Some m \<Longrightarrow> map_of m k = Some b \<Longrightarrow> 32 \<le> length b"
  by (auto simp: load_secret_map_def obind_Some_iff dest: load_secrets_long split: option.splits if_splits jsval.splits)

lemma scope_field_named: "scope_field k v \<noteq> Some (Some [])"
  by (auto simp: scope_field_def split: if_splits jsval.splits)

lemma load_scopes_named:
  "load_scopes ps = Some m \<Longrightarrow> map_of m k = Some s \<Longrightarrow> sc_project s \<noteq> Some [] \<and> sc_customer_id s \<noteq> Some []"
  by (induction ps arbitrary: m rule: load_scopes.induct)
    (auto simp: load_scope_def obind_Some_iff scope_field_named split: jsval.splits if_splits)

lemma signer_scopes_named:
  "load_signer_scopes parse raw = Some m \<Longrightarrow> map_of m k = Some s \<Longrightarrow> sc_project s \<noteq> Some [] \<and> sc_customer_id s \<noteq> Some []"
  by (auto simp: load_signer_scopes_def dest: load_scopes_named split: option.splits if_splits jsval.splits)

lemma in_scope:
  assumes "load_signer_scopes parse raw = Some m" and "\<not> signer_scope_violation m key o'"
  obtains s where "map_of m key = Some s" "sc_project s \<in> {None, Some (or_project o')}"
    "sc_customer_id s \<in> {None, Some (cu_id (or_customer o'))}"
proof -
  from assms(2) obtain s where s: "map_of m key = Some s" by (auto simp: signer_scope_violation_def split: option.splits)
  with assms signer_scopes_named [OF assms(1) s] that show thesis
    by (auto simp: signer_scope_violation_def split: option.splits)
qed

lemma read_chunks_bounded: "read_chunks got cs failed = Inr b \<Longrightarrow> length got \<le> max_order_body_bytes \<Longrightarrow> length b \<le> max_order_body_bytes"
  by (induction cs arbitrary: got) (auto split: if_splits)

lemma body_bounded: "read_order_body_bytes rq = Inr b \<Longrightarrow> length b \<le> 16384"
  using read_chunks_bounded [of "[]"]
  by (auto simp: read_order_body_bytes_def max_order_body_bytes_def split: body_stream.splits jsnum.splits if_splits)

lemma skew_bounds: "0 < clamp_max_skew raw \<and> clamp_max_skew raw \<le> 3600"
  by (auto simp: clamp_max_skew_def split: option.split jsnum.split)

lemma timestamp_canonical: "canonical_int_timestamp h = Some ts \<Longrightarrow> h = Some (dec (nat ts)) \<and> 0 \<le> ts"
  by (auto simp: canonical_int_timestamp_def split: option.splits jsnum.splits if_splits)

lemma verified_request:
  assumes "verify_order_hmac pl env rq body now = Inr (key, timestamp)"
  shows "\<exists>secrets secret audience ts signature. load_secret_map (pl_parse pl) (oc_secrets env) = Some secrets
      \<and> map_of secrets key = Some secret \<and> oc_audience env = Some audience \<and> oq_key_id rq = Some key
      \<and> timestamp = dec (nat ts) \<and> canonical_int_timestamp (oq_timestamp rq) = Some ts \<and> \<bar>now - ts\<bar> \<le> clamp_max_skew (oc_max_skew env)
      \<and> (\<exists>header. oq_signature rq = Some header \<and> header \<noteq> [] \<and> bytes_from_base64 header = Some signature)
      \<and> pl_verify pl secret signature (canonical_order_signed_bytes audience timestamp body)"
  using assms unfolding verify_order_hmac_def by (auto split: option.splits if_splits)

lemma admitted_shows:
  assumes "admit_order_request pl env rq v now = Inr a"
  shows "read_order_body_bytes rq = Inr (ar_bytes a) \<and> verify_order_hmac pl env rq (ar_bytes a) v = Inr (ar_key_id a, ar_timestamp a)
    \<and> pl_decode pl (ar_bytes a) = Some (ar_text a)
    \<and> obind (pl_parse pl (ar_text a)) (\<lambda>v. normalize_order_event_for_replay v now) = Some (ar_order a)
    \<and> (\<exists>scopes. load_signer_scopes (pl_parse pl) (oc_scopes env) = Some scopes
        \<and> \<not> signer_scope_violation scopes (ar_key_id a) (ar_order a))"
  using assms unfolding admit_order_request_def by (auto split: sum.splits option.splits if_splits)

definition refuses :: "order_reply \<Rightarrow> bool" where
  "refuses reply \<longleftrightarrow> fst reply \<in> {400, 401, 403, 413, 503} \<and> \<not> ob_ok (snd reply)"

lemma refused_request:
  assumes "admit_order_request pl env rq v now = Inl reply"
  shows "refuses reply"
  using assms unfolding admit_order_request_def hmac_refusal_def refuses_def refusal_def
  by (auto split: sum.splits option.splits if_splits)


lemma unadmitted_request:
  "admit_order_request pl env rq v now = Inl reply \<Longrightarrow> handle_order_ingest pl env rq v now w = (Inr reply, w)"
  by (simp add: handle_order_ingest_def io_return_def)

text \<open>C10. The database is reached only by a request whose body, at most 16384 bytes as they came, is signed
  for the audience and its time stamp, by the signature its signature header spells in base64, with a secret of
  at least 32 bytes that is held for the key its key header names, whose time
  stamp is within the accepted skew (at most an hour) of the clock, whose bytes decode and parse to a valid
  order, and whose key has a scope that covers the order's project and customer. Every other request is
  answered with a refusal and leaves no trace.\<close>

theorem order_request_authorized:
  "(\<exists>reply. handle_order_ingest pl env rq v now w = (Inr reply, w) \<and> refuses reply)
   \<or> (\<exists>secrets secret audience key ts header signature bytes text scopes scope o'.
        load_secret_map (pl_parse pl) (oc_secrets env) = Some secrets \<and> map_of secrets key = Some secret \<and> 32 \<le> length secret
      \<and> oc_audience env = Some audience \<and> oq_key_id rq = Some key \<and> oq_timestamp rq = Some (dec (nat ts)) \<and> 0 \<le> ts
      \<and> \<bar>v - ts\<bar> \<le> clamp_max_skew (oc_max_skew env) \<and> clamp_max_skew (oc_max_skew env) \<le> 3600
      \<and> read_order_body_bytes rq = Inr bytes \<and> length bytes \<le> 16384
      \<and> oq_signature rq = Some header \<and> header \<noteq> [] \<and> bytes_from_base64 header = Some signature
      \<and> pl_verify pl secret signature
          (utf8 (''POST'' @ [from_unit 10] @ ''/v1/orders'' @ [from_unit 10] @ audience @ [from_unit 10] @ dec (nat ts) @ [from_unit 10]) @ bytes)
      \<and> pl_decode pl bytes = Some text
      \<and> obind (pl_parse pl text) (\<lambda>j. normalize_order_event_for_replay j now) = Some o'
      \<and> load_signer_scopes (pl_parse pl) (oc_scopes env) = Some scopes \<and> map_of scopes key = Some scope
      \<and> sc_project scope \<in> {None, Some (or_project o')} \<and> sc_customer_id scope \<in> {None, Some (cu_id (or_customer o'))})"
proof (cases "admit_order_request pl env rq v now")
  case (Inl reply)
  from refused_request [OF this] unadmitted_request [OF this] show ?thesis by blast
next
  case (Inr a)
  note ad = admitted_shows [OF Inr]
  from ad obtain secrets secret audience ts header signature where
    hmac: "load_secret_map (pl_parse pl) (oc_secrets env) = Some secrets" "map_of secrets (ar_key_id a) = Some secret"
      "oc_audience env = Some audience" "oq_key_id rq = Some (ar_key_id a)"
      "ar_timestamp a = dec (nat ts)" "canonical_int_timestamp (oq_timestamp rq) = Some ts" "\<bar>v - ts\<bar> \<le> clamp_max_skew (oc_max_skew env)"
      "pl_verify pl secret signature (canonical_order_signed_bytes audience (ar_timestamp a) (ar_bytes a))"
      "oq_signature rq = Some header" "header \<noteq> []" "bytes_from_base64 header = Some signature"
    using verified_request by blast
  from ad obtain scopes where sc: "load_signer_scopes (pl_parse pl) (oc_scopes env) = Some scopes"
    "\<not> signer_scope_violation scopes (ar_key_id a) (ar_order a)" by blast
  then obtain scope where scope: "map_of scopes (ar_key_id a) = Some scope" "sc_project scope \<in> {None, Some (or_project (ar_order a))}"
    "sc_customer_id scope \<in> {None, Some (cu_id (or_customer (ar_order a)))}" by (rule in_scope)
  have "pl_verify pl secret signature
      (utf8 (''POST'' @ [from_unit 10] @ ''/v1/orders'' @ [from_unit 10] @ audience @ [from_unit 10] @ dec (nat ts) @ [from_unit 10]) @ ar_bytes a)"
    using hmac(8) by (simp add: canonical_order_signed_bytes_def canonical_order_signed_text_def signed_prefix_def hmac(5))
  then show ?thesis
    using hmac ad sc scope secret_map_long [OF hmac(1,2)] timestamp_canonical [OF hmac(6)] body_bounded skew_bounds by blast
qed

section \<open>A request and its scope\<close>

lemma admission_contract_mono:
  assumes c: "admission_contract G P clock" and "guarantee H" and le: "\<And>d d'. G d d' \<Longrightarrow> H d d'"
  shows "admission_contract H P clock"
  by (intro admission_contract.intro order_contract_mono [OF admission_contract.axioms(1) [OF c] assms(2) le]; unfold_locales)
    (auto intro: le kept_mono [OF _ le] admission_contract.spend [OF c] admission_contract.clean [OF c])

lemma admission_contract_conj:
  assumes c: "admission_contract G P clock" and d: "admission_contract H Q clock"
  shows "admission_contract (\<lambda>d d'. G d d' \<and> H d d') (\<lambda>x. P x \<and> Q x) clock"
proof -
  note G = admission_contract.axioms(1) [OF c] and H = admission_contract.axioms(1) [OF d]
  note facts = order_contract.finish [OF G] order_contract.finalize [OF G] order_contract.stale [OF G]
    order_contract.identity [OF G] order_contract.license [OF G] order_contract.customer [OF G]
    order_contract.finish [OF H] order_contract.finalize [OF H] order_contract.stale [OF H]
    order_contract.identity [OF H] order_contract.license [OF H] order_contract.customer [OF H]
    admission_contract.spend [OF c] admission_contract.spend [OF d] admission_contract.clean [OF c] admission_contract.clean [OF d]
  have both: "order_kept (\<lambda>d d'. G d d' \<and> H d d') s" if "order_kept G s" "order_kept H s" for s
    using that by (auto simp: order_kept_def)
  have g: "guarantee (\<lambda>d d'. G d d' \<and> H d d')"
    using order_contract.axioms(1) [OF G] order_contract.axioms(1) [OF H] unfolding guarantee_def by blast
  show ?thesis
    by (intro admission_contract.intro order_contract.intro g; unfold_locales)
      (auto intro!: both facts intro: order_contract.accept [OF G] order_contract.accept [OF H]
        order_contract.apply_batch [OF G] order_contract.apply_batch [OF H])
qed

text \<open>A change inside a scope: no grant of another project than the scope's, no grant of another customer than
  the scope's, no change of owner there, and every new grant the customer's.\<close>

definition within :: "signer_scope \<Rightarrow> order_db \<Rightarrow> order_db \<Rightarrow> bool" where
  "within scope d d' \<longleftrightarrow>
     (\<forall>p. sc_project scope = Some p \<longrightarrow> spares_projects p d d')
     \<and> (\<forall>c. sc_customer_id scope = Some c \<longrightarrow> spares c d d')"

definition covers :: "signer_scope \<Rightarrow> order \<Rightarrow> bool" where
  "covers scope o' \<longleftrightarrow> sc_project scope \<in> {None, Some (or_project o')} \<and> sc_customer_id scope \<in> {None, Some (cu_id (or_customer o'))}"

lemma anything_contract: "admission_contract (\<lambda>_ _. True) P clock"
  by unfold_locales (auto simp: order_kept_def)

lemma within_contract: "admission_contract (within scope) (covers scope) clock"
proof -
  define G P where "G = (case sc_project scope of None \<Rightarrow> \<lambda>_ _. True | Some p \<Rightarrow> spares_projects p)"
    and "P = (case sc_project scope of None \<Rightarrow> \<lambda>_. True | Some p \<Rightarrow> \<lambda>o' :: order. or_project o' = p)"
  define H Q where "H = (case sc_customer_id scope of None \<Rightarrow> \<lambda>_ _. True | Some c \<Rightarrow> spares c)"
    and "Q = (case sc_customer_id scope of None \<Rightarrow> \<lambda>_. True | Some c \<Rightarrow> \<lambda>o' :: order. cu_id (or_customer o') = c)"
  have "admission_contract G P clock" "admission_contract H Q clock"
    by (auto simp: G_def P_def H_def Q_def projects.admission_contract_axioms customers.admission_contract_axioms
        anything_contract split: option.split)
  then have c: "admission_contract (\<lambda>d d'. G d d' \<and> H d d') (\<lambda>x. P x \<and> Q x) clock" by (rule admission_contract_conj)
  have "(\<lambda>d d'. G d d' \<and> H d d') = within scope"
    by (auto simp: fun_eq_iff within_def G_def H_def split: option.split)
  moreover have "(\<lambda>x. P x \<and> Q x) = covers scope"
    by (auto simp: fun_eq_iff covers_def P_def Q_def split: option.split)
  ultimately show ?thesis using c by simp
qed

lemma handle_kept:
  assumes "admission_contract G P n" and "honest_world G w"
    and "\<And>a. admit_order_request pl env rq v n = Inr a \<Longrightarrow> P (ar_order a)"
    and "handle_order_ingest pl env rq v n w = (r, w')"
  shows "G (w_db w) (w_db w')"
  using guarantee.keepsD [OF order_contract.axioms(1) [OF admission_contract.axioms(1) [OF assms(1)]]
      admission_contract.keeps_handle [OF assms(1) order_refl assms(3)] assms(2,4)] by simp

text \<open>C11. Whatever an order request does, it stays inside its signer's scope, whatever other requests do
  between its calls, changes of owner included, and whichever calls are lost: a key without a scope changes
  nothing at all; for a scoped key the run is a sequence of changes, each of them another request's or inside
  the scope in the database it meets: no grant of another project or of another customer changes, and every
  new grant is the scope's customer's.\<close>

theorem signer_changes_only_its_scope:
  assumes "load_signer_scopes (pl_parse pl) (oc_scopes env) = Some scopes" and "oq_key_id rq = Some key"
    and "handle_order_ingest pl env rq v now w = (r, w')"
  shows "case map_of scopes key of
      None \<Rightarrow> w' = w
    | Some scope \<Rightarrow> traced (within scope) w (w_db w) (w_db w')"
proof -
  have scope: "\<exists>s. map_of scopes key = Some s \<and> covers s (ar_order a)"
    if a: "admit_order_request pl env rq v now = Inr a" for a
  proof -
    from admitted_shows [OF a] assms(1) have "\<not> signer_scope_violation scopes (ar_key_id a) (ar_order a)" by simp
    moreover have "ar_key_id a = key" using admitted_shows [OF a] verified_request assms(2) by fastforce
    ultimately show ?thesis using assms(1) by (auto simp: covers_def elim: in_scope)
  qed
  show ?thesis
  proof (cases "map_of scopes key")
    case None
    with scope have "\<exists>reply. admit_order_request pl env rq v now = Inl reply" by (cases "admit_order_request pl env rq v now") auto
    with assms(3) unadmitted_request None show ?thesis by fastforce
  next
    case (Some s)
    have own: "traced (within s) w d d'" if "within s d d'" for d d'
      using that by (intro traced_own r_into_rtranclp)
    have "covers s (ar_order a)" if "admit_order_request pl env rq v now = Inr a" for a
      using scope [OF that] Some by simp
    from handle_kept [OF admission_contract_mono [OF within_contract traced_guarantee own] traced_honest this assms(3)]
    show ?thesis by (simp add: Some)
  qed
qed

section \<open>Once\<close>

text \<open>The database the next call of a request finds, after the others have run.\<close>

definition before_next_call :: "'d world \<Rightarrow> 'd" where
  "before_next_call w = (case w_schedule w of [] \<Rightarrow> w_db w | t # _ \<Rightarrow> tn_others t (w_db w))"

lemma before_next_call_kept: "guarantee G \<Longrightarrow> honest_world G w \<Longrightarrow> G (w_db w) (before_next_call w)"
  by (cases "w_schedule w") (auto simp: before_next_call_def honest_world_def guarantee.refl)

lemma insert_spends:
  assumes "first_of (insert_nonce n t) w = (Inr (Some x), w')"
  shows "map_of (od_nonces (w_db w')) n = Some t"
  using assms
  by (cases "w_schedule w")
    (auto simp: first_of_def db_call_def insert_nonce_def set_changes_def batch_returned_row_def map_add_def Let_def
      split: fault.splits if_splits option.splits)

lemma insert_spent:
  assumes "first_of (insert_nonce n t) w = (r, w')" and "map_of (od_nonces (before_next_call w)) n \<noteq> None"
  shows "(r = Inr None \<or> (\<exists>e. r = Inl e)) \<and> (\<exists>i. w_db w' = set_changes i (before_next_call w))"
proof (cases "w_schedule w")
  case Nil
  with assms show ?thesis
    by (auto simp: first_of_def db_call_def insert_nonce_def batch_returned_row_def before_next_call_def)
next
  case (Cons u us)
  have "before_next_call w = set_changes (changes_of (before_next_call w)) (before_next_call w)"
    by (simp add: set_changes_def changes_of_def)
  with Cons assms show ?thesis
    by (auto simp: first_of_def db_call_def insert_nonce_def batch_returned_row_def before_next_call_def Let_def
        split: fault.splits)
qed

lemma spend_keeps_nonce:
  assumes hon: "honest_world (nonces_kept clock) w" and "now \<le> clock" and "clock \<le> now + skew * 2"
    and s: "spend_order_nonce key nonce now skew w = (Inr Fresh, w')"
  shows "map_of (od_nonces (w_db w')) (key, nonce) = Some (now + skew * 2) \<and> honest_world (nonces_kept clock) w'"
proof -
  obtain r1 w1 where i: "first_of (insert_nonce (key, nonce) (now + skew * 2)) w = (r1, w1)" by fastforce
  with s obtain x where x: "r1 = Inr (Some x)"
    by (auto simp: spend_order_nonce_def io_try_def io_return_def split: sum.splits option.splits if_splits)
  have h1: "honest_world (nonces_kept clock) w1"
    using nonces.keepsD [OF nonces.keeps_first [OF nonces.spend] hon i] by blast
  define rest where "rest = io_try (first_of (delete_expired_nonces now)) (\<lambda>_. io_return Fresh) (\<lambda>_. io_return Fresh)"
  have "rest w1 = (Inr Fresh, w')" using s i x by (simp add: spend_order_nonce_def io_try_def rest_def)
  moreover have "keeps (nonces_kept clock) rest"
    unfolding rest_def by (intro nonces.keeps_try nonces.keeps_first nonces.clean nonces.keeps_simple assms)
  ultimately have "nonces_kept clock (w_db w1) (w_db w') \<and> honest_world (nonces_kept clock) w'"
    using nonces.keepsD h1 by blast
  moreover have "map_of (od_nonces (w_db w1)) (key, nonce) = Some (now + skew * 2)" using insert_spends i x by blast
  ultimately show ?thesis using assms(3) by (auto simp: nonces_kept_def)
qed

lemma same_signed_request:
  assumes "admit_order_request pl env rq v n = Inr a" and "admit_order_request pl env rq' v' n' = Inr a'"
    and "oq_key_id rq' = oq_key_id rq" and "oq_timestamp rq' = oq_timestamp rq"
    and "read_order_body_bytes rq' = read_order_body_bytes rq"
  shows "ar_key_id a' = ar_key_id a \<and> request_nonce pl a' = request_nonce pl a
    \<and> (\<exists>ts. \<bar>v - ts\<bar> \<le> clamp_max_skew (oc_max_skew env) \<and> \<bar>v' - ts\<bar> \<le> clamp_max_skew (oc_max_skew env))"
proof -
  note a = admitted_shows [OF assms(1)] and a' = admitted_shows [OF assms(2)]
  from verified_request [OF a [THEN conjunct2, THEN conjunct1]] verified_request [OF a' [THEN conjunct2, THEN conjunct1]] assms(3,4)
  obtain ts where "ar_key_id a' = ar_key_id a" "ar_timestamp a' = ar_timestamp a"
    "\<bar>v - ts\<bar> \<le> clamp_max_skew (oc_max_skew env)" "\<bar>v' - ts\<bar> \<le> clamp_max_skew (oc_max_skew env)" by auto
  moreover have "ar_bytes a' = ar_bytes a" using a a' assms(5) by simp
  ultimately show ?thesis by (auto simp: request_nonce_def)
qed

text \<open>C6. A signed request enters the order flow at most once: once it has spent its nonce, every later delivery
  of the same key, time stamp and body bytes, whatever its signature text, chunks and other headers, is refused
  without a write for as long as its time stamp is accepted at all. Between the deliveries any requests may run
  that keep unexpired nonces, as order requests up to that time do (\<open>nonces.keeps_handle\<close>).\<close>

theorem signed_request_admitted_once:
  assumes "honest_world (nonces_kept v') w" and "v \<le> n" and "n \<le> v'"
    and "admit_order_request pl env rq v n = Inr a"
    and "fst (spend_order_nonce (ar_key_id a) (request_nonce pl a) n (clamp_max_skew (oc_max_skew env)) w) = Inr Fresh"
    and "handle_order_ingest pl env rq v n w = (r, w1)"
    and "nonces_kept v' (w_db w1) (w_db w2)" and "honest_world (nonces_kept v') w2"
    and "oq_key_id rq' = oq_key_id rq" and "oq_timestamp rq' = oq_timestamp rq"
    and "read_order_body_bytes rq' = read_order_body_bytes rq"
    and "handle_order_ingest pl env rq' v' n' w2 = (r', w3)"
  shows "\<exists>reply. r' = Inr reply \<and> refuses reply \<and> (w3 = w2 \<or> (\<exists>i. w_db w3 = set_changes i (before_next_call w2)))"
proof (cases "admit_order_request pl env rq' v' n'")
  case (Inl reply)
  then show ?thesis using assms(12) refused_request [OF Inl] unadmitted_request [OF Inl] by (cases reply) auto
next
  case (Inr a')
  let ?skew = "clamp_max_skew (oc_max_skew env)" and ?nonce = "(ar_key_id a, request_nonce pl a)"
  from same_signed_request [OF assms(4) Inr assms(9-11)] obtain ts where
    same: "ar_key_id a' = ar_key_id a" "request_nonce pl a' = request_nonce pl a" and ts: "\<bar>v - ts\<bar> \<le> ?skew" "\<bar>v' - ts\<bar> \<le> ?skew"
    by blast
  from ts assms(2) have late: "v' \<le> n + ?skew * 2" by linarith
  obtain s w0 where sp: "spend_order_nonce (ar_key_id a) (request_nonce pl a) n ?skew w = (s, w0)" by fastforce
  with assms(5) have s: "s = Inr Fresh" by simp
  have spent: "map_of (od_nonces (w_db w0)) ?nonce = Some (n + ?skew * 2)" and h0: "honest_world (nonces_kept v') w0"
    using spend_keeps_nonce [OF assms(1,3) late sp [unfolded s]] by simp_all
  have "run_exactly_once (sha_text pl) (ar_order a) (ar_key_id a) (payload_digest pl (ar_order a)) (ar_text a) n w0 = (r, w1)"
    using assms(4,6) sp s by (simp add: handle_order_ingest_def io_bind_def)
  then have "nonces_kept v' (w_db w0) (w_db w1)" using nonces.keepsD [OF nonces.keeps_run h0] by blast
  then have "map_of (od_nonces (w_db w2)) ?nonce = Some (n + ?skew * 2)"
    using spent late assms(7) by (auto simp: nonces_kept_def)
  then have there: "map_of (od_nonces (before_next_call w2)) ?nonce \<noteq> None"
    using before_next_call_kept [OF nonces_guarantee assms(8)] late by (auto simp: nonces_kept_def)
  obtain q w4 where q: "first_of (insert_nonce ?nonce (n' + ?skew * 2)) w2 = (q, w4)" by fastforce
  have "w3 = w4 \<and> (\<exists>reply. r' = Inr reply \<and> refuses reply)"
    using insert_spent [OF q there, THEN conjunct1] assms(12) q Inr same
    by (auto simp: handle_order_ingest_def spend_order_nonce_def io_try_def io_bind_def io_return_def refuses_def write_failed_def refusal_def)
  with insert_spent [OF q there, THEN conjunct2] show ?thesis by blast
qed


section \<open>Instances\<close>

text \<open>A checksum in place of HMAC-SHA-256, and a parser of three texts.\<close>

definition sample_json :: "string \<Rightarrow> jsval option" where
  "sample_json s =
     (if s = ''secrets'' then Some (Object [(''k1'', String (replicate 44 (CHR ''A'')))])
      else if s = ''scopes'' then Some (Object [(''k1'', Object [(''project'', String ''app''), (''customer_id'', String ''c1'')])])
      else if s = ''order'' then Some (Object [(''event_id'', String ''e1''), (''subscription_id'', String ''s1''), (''order_epoch'', Number (Whole 0)),
        (''seq'', Number (Whole 1)), (''intent'', String ''subscription.active''), (''project'', String ''app''), (''feature'', String ''pro''),
        (''license_fingerprint'', String (replicate 64 (CHR ''a''))), (''current_period_end'', Number (Whole 2000000)),
        (''customer'', Object [(''id'', String ''c1''), (''email'', String ''A@b.c'')])])
      else None)"

definition sample_platform :: platform where
  "sample_platform = \<lparr>pl_verify = (\<lambda>secret signature data. signature = [sum_list secret + sum_list data]),
     pl_sha = (\<lambda>bytes. replicate 64 (CHR ''0'')), pl_decode = (\<lambda>bytes. Some (List.map (\<lambda>b. from_unit (unat b)) bytes)),
     pl_parse = sample_json\<rparr>"

definition sample_env :: order_env where
  "sample_env = \<lparr>oc_secrets = Some ''secrets'', oc_audience = Some ''a'', oc_scopes = Some ''scopes'', oc_max_skew = None\<rparr>"

definition sample_request :: "byte list list \<Rightarrow> order_request" where
  "sample_request chunks = \<lparr>oq_key_id = Some ''k1'', oq_timestamp = Some ''1000'', oq_signature = Some ''QA=='', oq_content_length = None,
     oq_body = Chunks chunks False\<rparr>"


definition sample_admitted :: admitted_request where
  "sample_admitted = \<lparr>ar_order = sample_order ''e1'' 1 ''subscription.active'', ar_key_id = ''k1'', ar_timestamp = ''1000'',
     ar_bytes = utf8 ''order'', ar_text = ''order''\<rparr>"

lemma sample_admission:
  "admit_order_request sample_platform sample_env (sample_request [utf8 ''or'', utf8 ''der'']) 1000 1000 = Inr sample_admitted"
  by code_simp

abbreviation sample_delivery :: "order_db world \<Rightarrow> order_reply outcome \<times> order_db world" where
  "sample_delivery \<equiv> handle_order_ingest sample_platform sample_env (sample_request [utf8 ''or'', utf8 ''der'']) 1000 1000"

theorem signed_request_admitted_once_witness:
  "\<exists>reply. fst (handle_order_ingest sample_platform sample_env (sample_request [utf8 ''order'']) 1300 1300
       \<lparr>w_db = w_db (snd (sample_delivery (lossy_world []))), w_schedule = [], w_has_batch = True\<rparr>) = Inr reply \<and> refuses reply"
proof -
  let ?w2 = "\<lparr>w_db = w_db (snd (sample_delivery (lossy_world []))), w_schedule = [], w_has_batch = True\<rparr>"
  have hon: "honest_world (nonces_kept 1300) (lossy_world [])"
    by (rule lossy_honest) (simp add: nonces_kept_def)
  have quiet: "honest_world (nonces_kept 1300) ?w2" by (simp add: honest_world_def)
  have fresh: "fst (spend_order_nonce (ar_key_id sample_admitted) (request_nonce sample_platform sample_admitted) 1000
      (clamp_max_skew (oc_max_skew sample_env)) (lossy_world [])) = Inr Fresh"
    by code_simp
  have same: "read_order_body_bytes (sample_request [utf8 ''order'']) = read_order_body_bytes (sample_request [utf8 ''or'', utf8 ''der''])"
    by code_simp
  obtain r w1 where h: "sample_delivery (lossy_world []) = (r, w1)" by fastforce
  obtain r' w3 where h': "handle_order_ingest sample_platform sample_env (sample_request [utf8 ''order'']) 1300 1300 ?w2 = (r', w3)" by fastforce
  from signed_request_admitted_once [OF hon _ _ sample_admission fresh h _ quiet _ _ same h'] h h'
  show ?thesis by (auto simp: nonces_kept_def sample_request_def)
qed

text \<open>The grant the order would change passes to another customer just before the order's write: the request
  leaves it as it is, and every change of the run is that handover or inside the scope.\<close>

definition handover :: "order_db \<Rightarrow> order_db" where
  "handover d = d\<lparr>od_core := (od_core d)\<lparr>db_grants := List.map (\<lambda>g. g\<lparr>g_customer_id := ''c2''\<rparr>) (db_grants (od_core d))\<rparr>\<rparr>"

definition handover_world :: "order_db world" where
  "handover_world = \<lparr>w_db = order_db_of [sample_grant ''c1''],
     w_schedule = replicate 11 \<lparr>tn_others = (\<lambda>d. d), tn_fault = Served\<rparr> @ [\<lparr>tn_others = handover, tn_fault = Served\<rparr>], w_has_batch = True\<rparr>"

theorem signer_changes_only_its_scope_witness:
  "traced (within \<lparr>sc_project = Some ''app'', sc_customer_id = Some ''c1''\<rparr>) handover_world
     (w_db handover_world) (w_db (snd (sample_delivery handover_world)))
   \<and> find_grant (od_core (w_db (snd (sample_delivery handover_world)))) (key_of (sample_grant ''c1''))
     = Some (sample_grant ''c2'')"
proof -
  have scopes: "load_signer_scopes (pl_parse sample_platform) (oc_scopes sample_env)
      = Some [(''k1'', \<lparr>sc_project = Some ''app'', sc_customer_id = Some ''c1''\<rparr>)]"
    by code_simp
  obtain r w' where h: "sample_delivery handover_world = (r, w')" by fastforce
  have key: "oq_key_id (sample_request [utf8 ''or'', utf8 ''der'']) = Some ''k1''" by (simp add: sample_request_def)
  have "find_grant (od_core (w_db (snd (sample_delivery handover_world)))) (key_of (sample_grant ''c1'')) = Some (sample_grant ''c2'')"
    by code_simp
  then show ?thesis
    using signer_changes_only_its_scope [OF scopes key h] by (simp add: h)
qed

end
