(* ===== verification/Order_Race.thy ===== *)
theory Order_Race
  imports Order_Effects
begin

text \<open>
  Two deliveries of one accepted order. The writes of an apply are guarded by the owner, the status and the
  order's place, not by the event still being accepted, so a delivery may write after another has refused the
  order for good.
\<close>

definition shrinking :: order where
  "shrinking = (sample_order ''e1'' 1 ''quantity.changed'')\<lparr>or_quantity := Some 1\<rparr>"

definition crowded :: order_db where
  "crowded = (order_db_of [(sample_grant ''c1'')\<lparr>g_max_active_devices := 3\<rparr>])\<lparr>
     od_core := \<lparr>db_grants = [(sample_grant ''c1'')\<lparr>g_max_active_devices := 3\<rparr>], db_events = [], db_idempotency = (\<lambda>_. None),
       db_occupied = (\<lambda>_. 2), db_generation = 0, db_changes = 0\<rparr>,
     od_orders := [\<lparr>ow_key = (''s1'', ''app'', ''pro''), ow_fingerprint = replicate 64 (CHR ''a''), ow_customer_id = Some ''c1'',
       ow_license_id = None, ow_last_seq = 1, ow_epoch = 0, ow_origin = ''supplied'', ow_created_at = 0, ow_updated_at = 0\<rparr>],
     od_events := [new_event shrinking ''k'' ''d'' ''p'' Accepted NoResult 0 None]\<rparr>"

abbreviation deliver :: "order_db world \<Rightarrow> order_reply outcome \<times> order_db world" where
  "deliver \<equiv> run_exactly_once no_sha shrinking ''k'' ''d'' ''p'' 1000"

text \<open>Another delivery runs, and then a device gives its place back.\<close>

definition refused_then_freed :: "order_db \<Rightarrow> order_db" where
  "refused_then_freed d = (let d' = w_db (snd (deliver \<lparr>w_db = d, w_schedule = [], w_has_batch = True\<rparr>)) in
     d'\<lparr>od_core := (od_core d')\<lparr>db_occupied := \<lambda>_. 1\<rparr>\<rparr>)"

definition racing_world :: "order_db world" where
  "racing_world = \<lparr>w_db = crowded, w_schedule = replicate 3 \<lparr>tn_others = (\<lambda>d. d), tn_fault = Served\<rparr>
     @ [\<lparr>tn_others = refused_then_freed, tn_fault = Served\<rparr>], w_has_batch = True\<rparr>"

text \<open>The order is answered and recorded as refused, its write took effect, and nothing records it.\<close>

lemma refused_order_wrote:
  "(case deliver racing_world of (r, w) \<Rightarrow>
      (r, map_option oe_status (find_event (w_db w) ''e1''),
       map_option g_max_active_devices (find_grant (od_core (w_db w)) (''app'', ''pro'', replicate 64 (CHR ''a''))), audits ''e1'' (w_db w)))
   = (Inr (409, grant_body ''capacity_in_use'' (''app'', ''pro'', replicate 64 (CHR ''a'')) ''supplied''), Some Rejected, Some 1, 0)"
  by code_simp

end
