(* ===== verification/Csv_Export.thy ===== *)
theory Csv_Export
  imports JS_Bytes
begin

text \<open>
  CSV export (\<open>query.ts\<close> of the licence administration Worker). The escaping is about characters far
  outside ASCII, so texts are here what JavaScript's strings are: lists of 16-bit code units. Every class
  of the code's two patterns lies in the basic plane, so a code unit is a character of the pattern.
\<close>

section \<open>Cells\<close>

type_synonym code_unit16 = "16 word"

type_synonym utext = "code_unit16 list"

text \<open>A value of a row: \<open>null\<close> or \<open>undefined\<close>, or anything else by its \<open>String(value)\<close>.\<close>

datatype csv_value = Missing | Shown utext

definition units :: "string \<Rightarrow> utext" where
  "units s = List.map (\<lambda>c. of_nat (code_unit c)) s"

definition csv_row_cap :: nat where
  "csv_row_cap = 10000"

definition csv_quote :: code_unit16 where
  "csv_quote = 0x22"

text \<open>The class \<open>\s\<close>.\<close>

definition unicode_space :: "code_unit16 \<Rightarrow> bool" where
  "unicode_space c \<longleftrightarrow> c \<in> {0x09, 0x0A, 0x0B, 0x0C, 0x0D, 0x20, 0xA0, 0x1680, 0x2000, 0x2001, 0x2002, 0x2003, 0x2004, 0x2005,
     0x2006, 0x2007, 0x2008, 0x2009, 0x200A, 0x2028, 0x2029, 0x202F, 0x205F, 0x3000, 0xFEFF}"

text \<open>\<open>CSV_IGNORED_LEADING\<close>, \<open>/^(?:\s|\uFEFF|\u200B|\u200C|\u200D|\u2060)*/u\<close>: one character of it.\<close>

definition ignored_leading :: "code_unit16 \<Rightarrow> bool" where
  "ignored_leading c \<longleftrightarrow> unicode_space c \<or> c \<in> {0xFEFF, 0x200B, 0x200C, 0x200D, 0x2060}"

text \<open>\<open>CSV_FORMULA_PREFIX\<close>: the ASCII and the full-width introducers of a formula.\<close>

definition formula_char :: "code_unit16 \<Rightarrow> bool" where
  "formula_char c \<longleftrightarrow> c \<in> {0x3D, 0x2B, 0x2D, 0x40, 0xFF1D, 0xFF0B, 0xFF0D, 0xFF20}"

definition csv_control :: "code_unit16 \<Rightarrow> bool" where
  "csv_control c \<longleftrightarrow> c \<in> {0x09, 0x0D, 0x0A}"

definition csv_formula :: "utext \<Rightarrow> bool" where
  "csv_formula s = (case s of [] \<Rightarrow> False | c # _ \<Rightarrow> formula_char c)"

definition cell_text :: "csv_value \<Rightarrow> utext" where
  "cell_text v = (case v of Missing \<Rightarrow> [] | Shown s \<Rightarrow> s)"

definition csv_safe_text :: "csv_value \<Rightarrow> utext" where
  "csv_safe_text v =
     (let text = cell_text v; ignored = takeWhile ignored_leading text; effective = drop (length ignored) text
      in if list_ex csv_control ignored \<or> csv_formula effective then 0x27 # text else text)"

definition double_quotes :: "utext \<Rightarrow> utext" where
  "double_quotes s = concat (List.map (\<lambda>c. if c = csv_quote then [c, c] else [c]) s)"

definition csv_field :: "csv_value \<Rightarrow> utext" where
  "csv_field v = [csv_quote] @ double_quotes (csv_safe_text v) @ [csv_quote]"

section \<open>The file\<close>

definition crlf :: utext where
  "crlf = [0x0D, 0x0A]"

fun units_join :: "utext \<Rightarrow> utext list \<Rightarrow> utext" where
  "units_join sep [] = []"
| "units_join sep [x] = x"
| "units_join sep (x # y # ys) = x @ sep @ units_join sep (y # ys)"

definition truncation_note :: utext where
  "truncation_note = units ''# export truncated at the 10000-row cap; narrow your filters for the full set''"

text \<open>The lines of the file, each a list of cells; a row is a record read by column name.\<close>

definition csv_cells :: "utext list \<Rightarrow> (utext \<Rightarrow> csv_value) list \<Rightarrow> bool \<Rightarrow> csv_value list list" where
  "csv_cells columns rows capped =
     List.map Shown columns # List.map (\<lambda>row. List.map row columns) rows
       @ (if capped then [[Shown truncation_note]] else [])"

definition to_csv :: "utext list \<Rightarrow> (utext \<Rightarrow> csv_value) list \<Rightarrow> bool \<Rightarrow> utext" where
  "to_csv columns rows capped =
     units_join crlf (List.map (\<lambda>cells. units_join [0x2C] (List.map csv_field cells)) (csv_cells columns rows capped)) @ crlf"

definition csv_response_body :: "utext list \<Rightarrow> (utext \<Rightarrow> csv_value) list \<Rightarrow> utext" where
  "csv_response_body columns rows = to_csv columns (take csv_row_cap rows) (csv_row_cap \<le> length rows)"

section \<open>Reading the file back\<close>

text \<open>
  A reader of RFC 4180 files whose cells are all quoted: a cell ends at a quote that is not
  doubled; a comma starts the next cell, a line break the next line.
\<close>

fun read_cell :: "utext \<Rightarrow> (utext \<times> utext) option" where
  "read_cell [] = None"
| "read_cell [c] = (if c = csv_quote then Some ([], []) else None)"
| "read_cell (c # d # s) =
     (if c \<noteq> csv_quote then map_option (\<lambda>(t, r). (c # t, r)) (read_cell (d # s))
      else if d = csv_quote then map_option (\<lambda>(t, r). (csv_quote # t, r)) (read_cell s)
      else Some ([], d # s))"

text \<open>Both readers take a bound on the number of cells of a line, and on the number of lines.\<close>

fun read_line :: "nat \<Rightarrow> utext \<Rightarrow> (utext list \<times> utext) option" where
  "read_line 0 s = None"
| "read_line (Suc n) s = (case s of
     [] \<Rightarrow> None
   | c # s' \<Rightarrow>
       if c \<noteq> csv_quote then None
       else (case read_cell s' of
           None \<Rightarrow> None
         | Some (t, r) \<Rightarrow>
             if take 1 r = [0x2C] then map_option (\<lambda>(ts, r'). (t # ts, r')) (read_line n (drop 1 r))
             else if take 2 r = crlf then Some ([t], drop 2 r)
             else None))"

fun read_lines :: "nat \<Rightarrow> nat \<Rightarrow> utext \<Rightarrow> utext list list option" where
  "read_lines n m [] = Some []"
| "read_lines n 0 s = None"
| "read_lines n (Suc m) s = (case read_line n s of None \<Rightarrow> None | Some (cells, r) \<Rightarrow> map_option ((#) cells) (read_lines n m r))"

lemma read_cell_double:
  "(r = [] \<or> hd r \<noteq> csv_quote) \<Longrightarrow> read_cell (double_quotes t @ csv_quote # r) = Some (t, r)"
proof (induction t)
  case Nil
  then show ?case by (cases r) (auto simp: double_quotes_def)
next
  case (Cons c t)
  have d: "double_quotes (c # t) = (if c = csv_quote then [c, c] else [c]) @ double_quotes t"
    by (simp add: double_quotes_def)
  obtain x y where xy: "double_quotes t @ csv_quote # r = x # y"
    by (cases "double_quotes t @ csv_quote # r") auto
  show ?case
  proof (cases "c = csv_quote")
    case True
    then show ?thesis using Cons unfolding d by simp
  next
    case False
    then show ?thesis using Cons xy unfolding d by simp
  qed
qed

lemma read_line_cells:
  assumes "cells \<noteq> []" and "length cells \<le> n"
  shows "read_line n (units_join [0x2C] (List.map csv_field cells) @ crlf @ r) = Some (List.map csv_safe_text cells, r)"
  using assms
proof (induction cells arbitrary: n)
  case Nil
  then show ?case by simp
next
  case (Cons v cells)
  then obtain m where n: "n = Suc m" by (cases n) auto
  show ?case
  proof (cases cells)
    case Nil
    have "read_cell (double_quotes (csv_safe_text v) @ csv_quote # crlf @ r) = Some (csv_safe_text v, crlf @ r)"
      by (rule read_cell_double) (simp add: crlf_def csv_quote_def)
    then show ?thesis unfolding n Nil csv_field_def by (simp add: crlf_def)
  next
    case (Cons w ws)
    have "read_cell (double_quotes (csv_safe_text v) @ csv_quote # 0x2C # units_join [0x2C] (List.map csv_field cells) @ crlf @ r)
        = Some (csv_safe_text v, 0x2C # units_join [0x2C] (List.map csv_field cells) @ crlf @ r)"
      by (rule read_cell_double) (simp add: csv_quote_def)
    moreover have "units_join [0x2C] (List.map csv_field (v # cells)) @ crlf @ r =
        csv_quote # double_quotes (csv_safe_text v) @ csv_quote # 0x2C # units_join [0x2C] (List.map csv_field cells) @ crlf @ r"
      unfolding Cons by (simp add: csv_field_def)
    moreover have "read_line m (units_join [0x2C] (List.map csv_field cells) @ crlf @ r) = Some (List.map csv_safe_text cells, r)"
      using Cons.IH [of m] Cons.prems n Cons by simp
    ultimately show ?thesis unfolding n by simp
  qed
qed

lemma read_lines_join:
  assumes "\<forall>cells\<in>set lines. cells \<noteq> [] \<and> length cells \<le> n" and "lines \<noteq> []" and "length lines \<le> m"
  shows "read_lines n m (units_join crlf (List.map (\<lambda>cells. units_join [0x2C] (List.map csv_field cells)) lines) @ crlf)
    = Some (List.map (List.map csv_safe_text) lines)"
  using assms
proof (induction lines arbitrary: m)
  case Nil
  then show ?case by simp
next
  case (Cons cells lines)
  then obtain k where m: "m = Suc k" by (cases m) auto
  define r where "r = (if lines = [] then [] else
    units_join crlf (List.map (\<lambda>cells. units_join [0x2C] (List.map csv_field cells)) lines) @ crlf)"
  define s where "s = units_join [0x2C] (List.map csv_field cells) @ crlf @ r"
  have j: "units_join crlf (List.map (\<lambda>cells. units_join [0x2C] (List.map csv_field cells)) (cells # lines)) @ crlf = s"
    by (cases lines) (simp_all add: r_def s_def)
  have l: "read_line n s = Some (List.map csv_safe_text cells, r)"
    unfolding s_def using Cons.prems(1) by (intro read_line_cells) auto
  have "s \<noteq> []" by (simp add: s_def crlf_def)
  then have "read_lines n m s = (case read_line n s of None \<Rightarrow> None | Some (cells, r) \<Rightarrow> map_option ((#) cells) (read_lines n k r))"
    unfolding m by (cases s) (simp_all del: read_line.simps)
  moreover have "read_lines n k r = Some (List.map (List.map csv_safe_text) lines)"
    using Cons.IH [of k] Cons.prems by (simp add: r_def m)
  ultimately show ?case unfolding j by (simp add: l)
qed

section \<open>What a spreadsheet makes of a cell\<close>

text \<open>
  A spreadsheet may skip any marks it ignores at the start of a cell. The cell is dangerous when one of the
  marks it may skip is a tab or a line break, or when a formula's introducer follows some of them.
\<close>

definition dangerous :: "utext \<Rightarrow> bool" where
  "dangerous t \<longleftrightarrow> (\<exists>skipped rest. t = skipped @ rest \<and> (\<forall>c\<in>set skipped. ignored_leading c)
     \<and> ((\<exists>c\<in>set skipped. csv_control c) \<or> (\<exists>c rest'. rest = c # rest' \<and> formula_char c)))"

lemma formula_not_ignored: "formula_char c \<Longrightarrow> \<not> ignored_leading c"
  by (auto simp: formula_char_def ignored_leading_def unicode_space_def)

lemma dangerous_iff:
  "dangerous t \<longleftrightarrow> list_ex csv_control (takeWhile ignored_leading t) \<or> csv_formula (dropWhile ignored_leading t)"
proof
  assume "dangerous t"
  then obtain skipped rest where t: "t = skipped @ rest" and ig: "\<forall>c\<in>set skipped. ignored_leading c"
    and bad: "(\<exists>c\<in>set skipped. csv_control c) \<or> (\<exists>c rest'. rest = c # rest' \<and> formula_char c)"
    unfolding dangerous_def by blast
  have tw: "takeWhile ignored_leading t = skipped @ takeWhile ignored_leading rest"
    "dropWhile ignored_leading t = dropWhile ignored_leading rest"
    using ig by (simp_all add: t)
  from bad show "list_ex csv_control (takeWhile ignored_leading t) \<or> csv_formula (dropWhile ignored_leading t)"
  proof
    assume "\<exists>c\<in>set skipped. csv_control c"
    then show ?thesis by (auto simp: tw list_ex_iff)
  next
    assume "\<exists>c rest'. rest = c # rest' \<and> formula_char c"
    then show ?thesis using formula_not_ignored by (auto simp: tw csv_formula_def)
  qed
next
  assume a: "list_ex csv_control (takeWhile ignored_leading t) \<or> csv_formula (dropWhile ignored_leading t)"
  have "t = takeWhile ignored_leading t @ dropWhile ignored_leading t" by simp
  moreover have "\<forall>c\<in>set (takeWhile ignored_leading t). ignored_leading c" by (auto dest: set_takeWhileD)
  moreover have "(\<exists>c\<in>set (takeWhile ignored_leading t). csv_control c)
      \<or> (\<exists>c rest'. dropWhile ignored_leading t = c # rest' \<and> formula_char c)"
    using a by (auto simp: list_ex_iff csv_formula_def split: list.splits)
  ultimately show "dangerous t" unfolding dangerous_def by blast
qed

lemma safe_text_spec: "csv_safe_text v = (if dangerous (cell_text v) then 0x27 # cell_text v else cell_text v)"
  by (simp add: csv_safe_text_def Let_def dangerous_iff dropWhile_eq_drop)

lemma safe_text_harmless: "\<not> dangerous (csv_safe_text v)"
  by (simp add: safe_text_spec)
    (simp add: dangerous_iff ignored_leading_def unicode_space_def csv_formula_def formula_char_def)

text \<open>C33. A CSV export is read back line by line and cell by cell, whatever quotes, commas or line breaks
  the data holds: each cell is the value's own text, or that text behind one apostrophe exactly when a
  spreadsheet could take it for a formula, leading blanks, byte order marks, zero-width marks and full-width
  introducers included; and no cell of the file is dangerous.\<close>

theorem csv_response_reads_back:
  assumes "columns \<noteq> []"
  defines "shield \<equiv> \<lambda>v. if dangerous (cell_text v) then 0x27 # cell_text v else cell_text v"
  shows "read_lines (length columns) (csv_row_cap + 2) (csv_response_body columns rows)
      = Some (List.map (List.map shield) (csv_cells columns (take csv_row_cap rows) (csv_row_cap \<le> length rows)))
    \<and> (\<forall>v. \<not> dangerous (shield v))"
proof -
  let ?cells = "csv_cells columns (take csv_row_cap rows) (csv_row_cap \<le> length rows)"
  have shield: "shield = csv_safe_text" by (rule ext) (simp add: shield_def safe_text_spec)
  have w: "\<forall>cells\<in>set ?cells. cells \<noteq> [] \<and> length cells \<le> length columns"
    using assms by (auto simp: csv_cells_def Suc_le_eq)
  have m: "?cells \<noteq> []" "length ?cells \<le> csv_row_cap + 2" by (auto simp: csv_cells_def)
  show ?thesis
    unfolding csv_response_body_def to_csv_def shield using read_lines_join [OF w m] safe_text_harmless by simp
qed

theorem csv_response_reads_back_witness:
  "read_lines 2 (csv_row_cap + 2) (csv_response_body [units ''id'', units ''notes'']
      [\<lambda>c. if c = units ''id'' then Shown (0xFEFF # 0xFF1D # units ''1+1'') else Missing])
    = Some [[units ''id'', units ''notes''], [0x27 # 0xFEFF # 0xFF1D # units ''1+1'', []]]"
proof -
  let ?row = "\<lambda>c. if c = units ''id'' then Shown (0xFEFF # 0xFF1D # units ''1+1'') else Missing"
  have d: "dangerous (0xFEFF # 0xFF1D # units ''1+1'') \<and> \<not> dangerous (units ''id'') \<and> \<not> dangerous (units ''notes'') \<and> \<not> dangerous []"
    unfolding dangerous_iff
    by (simp add: units_def code_unit_def ignored_leading_def unicode_space_def csv_formula_def formula_char_def)
  have ne: "units ''notes'' \<noteq> units ''id''" by (simp add: units_def)
  have cap: "take csv_row_cap [r] = [r]" "\<not> csv_row_cap \<le> length [r]" for r :: "utext \<Rightarrow> csv_value"
    by (simp_all add: csv_row_cap_def)
  have len: "length [units ''id'', units ''notes''] = 2" by simp
  from csv_response_reads_back [of "[units ''id'', units ''notes'']" "[?row]", THEN conjunct1, unfolded len cap(1)] d ne cap(2) [of ?row]
  show ?thesis by (simp only: csv_cells_def cell_text_def list.map if_True if_False csv_value.case append.simps append_Nil2 list.distinct not_False_eq_True simp_thms)
qed

end
