(* ===== verification/Db_Triples.thy ===== *)
theory Db_Triples
  imports Order_Contract
begin

text \<open>
  What a flow of database calls has established when it answers, whatever other requests commit in between:
  \<open>establishes G I P m R\<close> says that from a state of \<open>P\<close> a result \<open>x\<close> comes with a state of \<open>R x\<close>, and a
  failure with one of \<open>I\<close>, the invariant every step related by \<open>G\<close> keeps.
\<close>

definition establishes ::
  "('d \<Rightarrow> 'd \<Rightarrow> bool) \<Rightarrow> ('d \<Rightarrow> bool) \<Rightarrow> ('d \<Rightarrow> bool) \<Rightarrow> ('d world, 'a) io \<Rightarrow> ('a \<Rightarrow> 'd \<Rightarrow> bool) \<Rightarrow> bool" where
  "establishes G I P m R \<longleftrightarrow> (\<forall>w r w'. honest_world G w \<and> P (w_db w) \<and> m w = (r, w') \<longrightarrow>
     honest_world G w' \<and> (case r of Inl e \<Rightarrow> I (w_db w') | Inr x \<Rightarrow> R x (w_db w')))"

locale steady = guarantee G
  for G :: "'d \<Rightarrow> 'd \<Rightarrow> bool" +
  fixes I :: "'d \<Rightarrow> bool"
  assumes kept: "I d \<Longrightarrow> G d d' \<Longrightarrow> I d'"
begin

lemma establishesD: "establishes G I P m R \<Longrightarrow> honest_world G w \<Longrightarrow> P (w_db w) \<Longrightarrow> m w = (r, w') \<Longrightarrow>
    honest_world G w' \<and> (case r of Inl e \<Rightarrow> I (w_db w') | Inr x \<Rightarrow> R x (w_db w'))"
  unfolding establishes_def by blast

lemma establishesI: "(\<And>w r w'. honest_world G w \<Longrightarrow> P (w_db w) \<Longrightarrow> m w = (r, w') \<Longrightarrow>
    honest_world G w' \<and> (case r of Inl e \<Rightarrow> I (w_db w') | Inr x \<Rightarrow> R x (w_db w'))) \<Longrightarrow> establishes G I P m R"
  unfolding establishes_def by blast

lemma establishes_return: "(\<And>d. P d \<Longrightarrow> R x d) \<Longrightarrow> establishes G I P (io_return x) R"
  by (rule establishesI) (auto simp: io_return_def)

lemma establishes_throw: "(\<And>d. P d \<Longrightarrow> I d) \<Longrightarrow> establishes G I P (io_throw e) R"
  by (rule establishesI) (auto simp: io_throw_def)

lemma establishes_weaken: "establishes G I Q m S \<Longrightarrow> (\<And>d. P d \<Longrightarrow> Q d) \<Longrightarrow> (\<And>x d. S x d \<Longrightarrow> R x d) \<Longrightarrow> establishes G I P m R"
proof (rule establishesI)
  fix w r w'
  assume m: "establishes G I Q m S" and P: "\<And>d. P d \<Longrightarrow> Q d" and S: "\<And>x d. S x d \<Longrightarrow> R x d"
    and h: "honest_world G w" "P (w_db w)" "m w = (r, w')"
  from establishesD [OF m h(1) P [OF h(2)] h(3)] S show "honest_world G w' \<and> (case r of Inl e \<Rightarrow> I (w_db w') | Inr x \<Rightarrow> R x (w_db w'))"
    by (cases r) auto
qed

lemma establishes_bind:
  assumes "establishes G I P m Q" and "\<And>x. establishes G I (Q x) (f x) R"
  shows "establishes G I P (io_bind m f) R"
proof (rule establishesI)
  fix w r w'
  assume h: "honest_world G w" "P (w_db w)" and b: "io_bind m f w = (r, w')"
  obtain r1 w1 where m: "m w = (r1, w1)" by (cases "m w")
  note 1 = establishesD [OF assms(1) h m]
  show "honest_world G w' \<and> (case r of Inl e \<Rightarrow> I (w_db w') | Inr x \<Rightarrow> R x (w_db w'))"
  proof (cases r1)
    case (Inl e)
    with b m 1 show ?thesis by (auto simp: io_bind_def)
  next
    case (Inr x)
    with b m have f: "f x w1 = (r, w')" by (simp add: io_bind_def)
    from 1 Inr have "honest_world G w1" "Q x (w_db w1)" by simp_all
    from establishesD [OF assms(2) this f] show ?thesis .
  qed
qed

lemma establishes_try:
  assumes "establishes G I P m Q" and "\<And>e. establishes G I I (h e) R" and "\<And>x. establishes G I (Q x) (f x) R"
  shows "establishes G I P (io_try m h f) R"
proof (rule establishesI)
  fix w r w'
  assume hon: "honest_world G w" "P (w_db w)" and b: "io_try m h f w = (r, w')"
  obtain r1 w1 where m: "m w = (r1, w1)" by (cases "m w")
  note 1 = establishesD [OF assms(1) hon m]
  show "honest_world G w' \<and> (case r of Inl e \<Rightarrow> I (w_db w') | Inr x \<Rightarrow> R x (w_db w'))"
  proof (cases r1)
    case (Inl e)
    with b m have f: "h e w1 = (r, w')" by (simp add: io_try_def)
    from 1 Inl have "honest_world G w1" "I (w_db w1)" by simp_all
    from establishesD [OF assms(2) this f] show ?thesis .
  next
    case (Inr x)
    with b m have f: "f x w1 = (r, w')" by (simp add: io_try_def)
    from 1 Inr have "honest_world G w1" "Q x (w_db w1)" by simp_all
    from establishesD [OF assms(3) this f] show ?thesis .
  qed
qed

text \<open>A call meets the state the others left, of which only the invariant is known.\<close>

lemma establishes_call:
  assumes P: "\<And>d. P d \<Longrightarrow> I d" and I: "\<And>d. I d \<Longrightarrow> I (snd (act d))" and R: "\<And>d x. I d \<Longrightarrow> fst (act d) = Inr x \<Longrightarrow> R x (snd (act d))"
  shows "establishes G I P (db_call act) R"
proof (rule establishesI)
  fix w r w'
  assume h: "honest_world G w" "P (w_db w)" and c: "db_call act w = (r, w')"
  from call_cases [OF c h(1)] obtain d where hon: "honest_world G w'" and d: "G (w_db w) d"
    and r: "(r, w_db w') = act d \<or> (\<exists>e. r = Inl e \<and> (w_db w' = d \<or> w_db w' = snd (act d)))" by blast
  have i: "I d" "I (snd (act d))" using kept [OF P [OF h(2)] d] I by blast+
  from r show "honest_world G w' \<and> (case r of Inl e \<Rightarrow> I (w_db w') | Inr x \<Rightarrow> R x (w_db w'))"
  proof
    assume "(r, w_db w') = act d"
    then have "fst (act d) = r" "snd (act d) = w_db w'" by (metis fst_conv, metis snd_conv)
    with hon i R [OF i(1)] show ?thesis by (auto split: sum.split)
  next
    assume "\<exists>e. r = Inl e \<and> (w_db w' = d \<or> w_db w' = snd (act d))"
    with hon i show ?thesis by auto
  qed
qed

lemma establishes_read: "(\<And>d. P d \<Longrightarrow> I d) \<Longrightarrow> (\<And>d. I d \<Longrightarrow> R (q d) d) \<Longrightarrow> establishes G I P (db_read q) R"
  unfolding db_read_def by (rule establishes_call) auto

lemma establishes_batch:
  assumes "\<And>d. P d \<Longrightarrow> I d" and "\<And>d rs d'. I d \<Longrightarrow> run_statements ss d = Inr (rs, d') \<Longrightarrow> I d' \<and> R rs d'"
  shows "establishes G I P (db_batch ss) R"
  unfolding db_batch_def
proof (rule establishes_call)
  show "I (snd (run_batch ss d))" if "I d" for d
    using that assms(2) [of d] by (auto simp: run_batch_def split: sum.splits prod.splits)
  show "R x (snd (run_batch ss d))" if "I d" "fst (run_batch ss d) = Inr x" for d x
    using that assms(2) [of d] by (auto simp: run_batch_def split: sum.splits prod.splits)
qed (rule assms(1))

end

end
