(* ===== verification/Grant_Trail.thy ===== *)
theory Grant_Trail
  imports Plan_Convergence
begin

text \<open>
  The audit trail of a grant under everything the administration does at once: the single-grant
  mutations (\<open>entitlement_mutations.mjs\<close>), the applies of a plan projection
  (\<open>plan_projection.mjs\<close>), the lease path's trial stamp, stored responses and devices. The writes of
  the order flow are not among them: \<open>Order_Race\<close> runs one that no event records.
\<close>

section \<open>Applies among mutations\<close>

text \<open>Whatever an apply finds, it keeps what every grant mutation keeps.\<close>

lemma plan_apply_progress:
  assumes h: "plan_history drawn (d # ds)" and x: "x \<in> set (d # ds)" and fresh: "token \<notin> drawn" and keys: "catalog_keys d"
    and run: "apply_plan_projection pid token ctx scope now x d = (r, d')"
  shows "progress (pd_core d) (pd_core d')"
proof (cases r)
  case (Inl e)
  have ok: "history_ok drawn (d # ds)" using history_invariant [OF h] by simp
  have "untouched token d" using history_okD(2) [OF ok, unfolded list.sel] fresh by (auto simp: untouched_def)
  from run this history_okD(1) [OF ok, unfolded list.sel] have "d' = d"
    by (cases rule: apply_cases) (use Inl in auto)
  then show ?thesis by simp
next
  case (Inr resp)
  have "progress (pd_core d) (pd_core d')" if ok: "db_ok (pd_core d)"
  proof -
    have "distinct (List.map key_of (db_grants (pd_core d)))" using ok by (simp add: db_ok_def)
    from apply_converges [OF h x fresh keys this run [unfolded Inr]] show ?thesis by blast
  qed
  then show ?thesis by (auto simp: progress_def)
qed

lemma generation_progress: "progress d (d\<lparr>db_generation := n\<rparr>)"
  by (rule progress_idle) (simp add: idle_def find_grant_def fun_eq_iff)

text \<open>
  What the administration makes of a database. A mutation meets the other steps between its calls; an
  apply reads one database of a history of previews, applies and other writes (a write to a source of a
  plan moves the generation on), and commits in the latest, which is the one at hand. Making a preview
  changes no table of the core.
\<close>

inductive administered :: "db \<Rightarrow> db \<Rightarrow> bool" where
  none: "administered d d"
| request: "administered d d' \<Longrightarrow> legal m \<Longrightarrow> \<forall>t\<in>set schedule. \<forall>x. administered x (tn_others t x) \<Longrightarrow>
    run_mutation m ctx idem now \<lparr>w_db = d', w_schedule = schedule, w_has_batch = b\<rparr> = (r, w') \<Longrightarrow> administered d (w_db w')"
| applied: "administered d (pd_core p) \<Longrightarrow> plan_history drawn (p # ps) \<Longrightarrow> y \<in> set (p # ps) \<Longrightarrow> token \<notin> drawn \<Longrightarrow>
    catalog_keys p \<Longrightarrow> apply_plan_projection pid token ctx scope now y p = (res, p') \<Longrightarrow> administered d (pd_core p')"
| trial: "administered d d' \<Longrightarrow> db_generation d' \<le> n \<Longrightarrow>
    administered d ((stamp_trial_start k now device d')\<lparr>db_generation := n\<rparr>)"
| remembered: "administered d d' \<Longrightarrow> administered d (snd (insert_response scope' key body d'))"
| devices: "administered d d' \<Longrightarrow> administered d (d'\<lparr>db_occupied := occupied\<rparr>)"

lemma administered_progress: "administered d d' \<Longrightarrow> progress d d'"
proof (induction rule: administered.induct)
  case (none d)
  show ?case by simp
next
  case (request d d' m schedule ctx idem now b r w')
  have "honest \<lparr>w_db = d', w_schedule = schedule, w_has_batch = b\<rparr>"
    using request.IH request.hyps by (auto simp: honest_def)
  then have "progress d' (w_db w')"
    using safe_ioD [OF safe_mutation [OF request.hyps(2)] _ request.hyps(3)] by simp
  with request.IH(1) show ?case by (rule progress_trans)
next
  case (applied d p drawn ps y token pid ctx scope now res p')
  show ?case by (rule progress_trans [OF applied.IH plan_apply_progress [OF applied.hyps(2-6)]])
next
  case (trial d d' n k now device)
  show ?case
    by (rule progress_trans [OF trial.IH progress_trans [OF stamp_trial_progress generation_progress]])
next
  case (remembered d d' scope' key body)
  then show ?case using insert_progress progress_trans by blast
next
  case (devices d d' occupied)
  have "idle d' (d'\<lparr>db_occupied := occupied\<rparr>)" by (simp add: idle_def find_grant_def fun_eq_iff)
  with devices progress_idle progress_trans show ?case by blast
qed

section \<open>The trail\<close>

text \<open>C1. However mutations and plan applies interleave and whichever of their calls are lost, in a
  database the administration made from an empty one every grant has one row, its owner is never
  blank, and its terms (status, window, notes, owner, license, policy, trial rules, device limit and
  revocation sequence) are exactly those the latest audit event of that grant recorded. Left out of the
  comparison are the start of a trial and the update time; not among the steps are order writes.\<close>

theorem administered_grant_is_audited:
  assumes "administered empty_db d" and "find_grant d k = Some g"
  shows "distinct (List.map key_of (db_grants d)) \<and> \<not> blank (g_customer_id g)
    \<and> (\<exists>e\<in>set (db_events d). ev_key e = k \<and> terms_of (ev_next e) = terms_of g
         \<and> (\<forall>e'\<in>set (db_events d). ev_key e' = k \<longrightarrow> ev_revocation_seq e' \<le> ev_revocation_seq e))"
proof -
  have ok: "db_ok d" using progress_ok [OF administered_progress [OF assms(1)] empty_db_ok] .
  then have "distinct (List.map key_of (db_grants d))" and rc: "row_checks g" and a: "audited d g" and f: "floor_below d g"
    using assms(2) unfolding db_ok_def by blast+
  moreover have k: "key_of g = k" using find_grant_key [OF assms(2)] .
  ultimately show ?thesis
    unfolding audited_def floor_below_def row_checks_def by force
qed

text \<open>A grant a plan made, then disabled by an operator.\<close>

definition planned_grant :: grant where
  "planned_grant = the (find_grant (pd_core (snd example_apply)) example_key)"

definition disabled_run :: "mutation_result option outcome \<times> db world" where
  "disabled_run = run_mutation (Transition_grant example_key ''disabled'' ''disable'' ''abuse'') (expecting planned_grant) None 1500
     \<lparr>w_db = pd_core (snd example_apply), w_schedule = [], w_has_batch = True\<rparr>"

lemma planned_administered: "administered empty_db (pd_core (snd example_apply))"
proof -
  obtain resp where r: "apply_plan_projection ''ppv_1'' ''token'' projection_ctx (Some ''scope'') 1010 (snd example_attempt) (snd example_attempt)
    = (Inr resp, snd example_apply)" by (rule example_apply_run)
  have "example_attempt = (fst example_attempt, snd example_attempt)" by simp
  from attempt_previews [OF this [unfolded example_attempt_def]]
  have c: "pd_core (snd example_attempt) = empty_db" by (simp add: example_attempt_def example_catalog_def)
  show ?thesis
    by (rule administered.applied [OF _ example_history _ _ example_keys(1) r]) (simp_all add: c administered.none)
qed

lemma disabled_run_ok: "case find_grant (w_db (snd disabled_run)) example_key of None \<Rightarrow> False
    | Some g \<Rightarrow> g_status g = ''disabled'' \<and> g_revocation_seq g = 2"
  by code_simp

theorem administered_grant_is_audited_witness:
  "\<exists>g. find_grant (w_db (snd disabled_run)) example_key = Some g \<and> g_status g = ''disabled''
    \<and> (\<exists>e\<in>set (db_events (w_db (snd disabled_run))). ev_key e = example_key \<and> terms_of (ev_next e) = terms_of g)"
proof -
  obtain g where g: "find_grant (w_db (snd disabled_run)) example_key = Some g" "g_status g = ''disabled''"
    using disabled_run_ok by (auto split: option.splits)
  have r: "run_mutation (Transition_grant example_key ''disabled'' ''disable'' ''abuse'') (expecting planned_grant) None 1500
     \<lparr>w_db = pd_core (snd example_apply), w_schedule = [], w_has_batch = True\<rparr> = (fst disabled_run, snd disabled_run)"
    by (simp add: disabled_run_def)
  have "administered empty_db (w_db (snd disabled_run))"
    by (rule administered.request [OF planned_administered _ _ r]) simp_all
  from administered_grant_is_audited [OF this g(1)] g show ?thesis by blast
qed

end
