(* ===== verification/Lease_Store.thy ===== *)
theory Lease_Store
  imports Order_Store
begin

text \<open>
  The tables of the device-bound leases with their keys, checks and triggers
  (\<open>services/cloudflare-licensing-backend/schema.sql\<close>), and the conditions the statements on them share
  (\<open>device/bound_store.mjs\<close>, \<open>device/bound_capacity.mjs\<close>, \<open>device/bound_trial.mjs\<close>). The clock \<open>unixepoch()\<close> is part
  of the state; it moves between the statements of a batch too.
\<close>

section \<open>Tables\<close>

record account =
  ac_id :: string
  ac_active :: bool
  ac_revision :: int

record bound_device =
  dv_id :: string
  dv_customer_id :: string
  dv_project :: string
  dv_key_id :: string
  dv_spki :: string
  dv_label :: string
  dv_active :: bool
  dv_revision :: int
  dv_created_at :: int
  dv_last_proof_at :: int

datatype binding_state = Active | Retiring | Released

record bound_binding =
  bi_id :: string
  bi_key :: grant_key
  bi_device_id :: string
  bi_state :: binding_state
  bi_generation :: int
  bi_revision :: int
  bi_hold_until :: int
  bi_created_at :: int
  bi_updated_at :: int

datatype lease_purpose = Exchange | Renew | Retire

record bound_challenge =
  ch_id :: string
  ch_purpose :: lease_purpose
  ch_subject_id :: string
  ch_key_id :: string
  ch_operation_id :: string
  ch_nonce_hash :: string
  ch_created_at :: int
  ch_expires_at :: int
  ch_consumed :: "string option"

datatype attempt_status = Pending | Approved | Consumed | Denied

record bound_attempt =
  at_handle_hash :: string
  at_client_id :: string
  at_project :: string
  at_key_id :: string
  at_spki :: string
  at_device_label :: string
  at_redirect_uri :: string
  at_client_state :: string
  at_pkce :: string
  at_status :: attempt_status
  at_revision :: int
  at_customer_id :: "string option"
  at_feature :: "string option"
  at_fingerprint :: "string option"
  at_code_hash :: "string option"
  at_code_expires_at :: "int option"
  at_ciphertext :: "string option"
  at_created_at :: int
  at_expires_at :: int
  at_consumed_invocation :: "string option"
  at_consumed_operation :: "string option"
  at_recovery_until :: "int option"
  at_requested_feature :: string

text \<open>\<open>response_json\<close>: the answer of a lease operation, that of a retirement, or the empty text once erased.\<close>

record lease_answer =
  la_ok :: bool
  la_code :: string
  la_request_id :: string
  la_device_id :: string
  la_binding_id :: string
  la_generation :: int
  la_key :: grant_key
  la_lease :: string
  la_renew_after :: int
  la_expires_at :: int
  la_accept_until :: int

record retire_answer =
  ra_binding_id :: string
  ra_effective_release_at :: int
  ra_revision :: int
  ra_generation :: int

datatype op_response = Erased | LeaseAnswer lease_answer | RetireAnswer retire_answer

record bound_operation =
  op_key_id :: string
  op_purpose :: lease_purpose
  op_operation_id :: string
  op_invocation_id :: string
  op_digest :: string
  op_customer_id :: string
  op_binding_id :: string
  op_lease_id :: "string option"
  op_complete :: bool
  op_response :: op_response
  op_committed_at :: int
  op_retain_until :: int

record bound_lease =
  le_id :: string
  le_binding_id :: string
  le_generation :: int
  le_entitlement_revision :: int
  le_invocation_id :: string
  le_issued_at :: int
  le_expires_at :: int
  le_accept_until :: int
  le_token :: string

record bound_event =
  be_invocation_id :: string
  be_binding_id :: string
  be_customer_id :: string
  be_type :: lease_purpose
  be_actor :: string
  be_occurred_at :: int

text \<open>\<open>ld_authority\<close> is the column \<open>authority_revision\<close> of the grants, which a trigger keeps.\<close>

record lease_db =
  ld_core :: db
  ld_authority :: "grant_key \<Rightarrow> int"
  ld_accounts :: "account list"
  ld_devices :: "bound_device list"
  ld_bindings :: "bound_binding list"
  ld_challenges :: "bound_challenge list"
  ld_attempts :: "bound_attempt list"
  ld_operations :: "bound_operation list"
  ld_leases :: "bound_lease list"
  ld_events :: "bound_event list"
  ld_checks :: "string list"
  ld_denials :: "(grant_key \<times> string \<times> int) list"
  ld_counters :: "((string \<times> string \<times> int) \<times> int) list"
  ld_now :: int

datatype lease_out = AnswerOut op_response | TimeOut int | CountOut int int | ViewOut "int option" int

type_synonym lease_command = "(lease_db, lease_out) sql"

definition find_binding :: "lease_db \<Rightarrow> string \<Rightarrow> bound_binding option" where
  "find_binding d i = find (\<lambda>b. bi_id b = i) (ld_bindings d)"

definition find_device :: "lease_db \<Rightarrow> string \<Rightarrow> bound_device option" where
  "find_device d i = find (\<lambda>v. dv_id v = i) (ld_devices d)"

definition find_account :: "lease_db \<Rightarrow> string \<Rightarrow> account option" where
  "find_account d i = find (\<lambda>a. ac_id a = i) (ld_accounts d)"

definition find_challenge :: "lease_db \<Rightarrow> string \<Rightarrow> bound_challenge option" where
  "find_challenge d i = find (\<lambda>c. ch_id c = i) (ld_challenges d)"

definition find_attempt :: "lease_db \<Rightarrow> string \<Rightarrow> bound_attempt option" where
  "find_attempt d h = find (\<lambda>a. at_handle_hash a = h) (ld_attempts d)"

definition find_operation :: "lease_db \<Rightarrow> string \<Rightarrow> lease_purpose \<Rightarrow> string \<Rightarrow> bound_operation option" where
  "find_operation d key purpose operation =
     find (\<lambda>o'. op_key_id o' = key \<and> op_purpose o' = purpose \<and> op_operation_id o' = operation) (ld_operations d)"

text \<open>The seconds that pass before each statement of a batch.\<close>

definition ticking :: "nat \<Rightarrow> lease_command \<Rightarrow> lease_command" where
  "ticking n s d = s (d\<lparr>ld_now := ld_now d + int n\<rparr>)"

fun paced :: "nat list \<Rightarrow> lease_command list \<Rightarrow> lease_command list" where
  "paced (n # ns) (s # ss) = ticking n s # paced ns ss"
| "paced _ ss = ss"

section \<open>Capacity and trials\<close>

definition occupies :: "int \<Rightarrow> bound_binding \<Rightarrow> bool" where
  "occupies now b \<longleftrightarrow> bi_state b = Active \<or> (bi_state b = Retiring \<and> now < bi_hold_until b)"

definition occupied :: "lease_db \<Rightarrow> grant_key \<Rightarrow> nat" where
  "occupied d k = length (filter (\<lambda>b. bi_key b = k \<and> occupies (ld_now d) b) (ld_bindings d))"

definition device_key_text :: "string \<Rightarrow> bool" where
  "device_key_text s \<longleftrightarrow> length s = 71 \<and> take 7 s = ''sha256:'' \<and> list_all lower_hex (drop 7 s)"

definition activation_bases :: "string list" where
  "activation_bases = [''from_first_activation'', ''from_first_use'']"

definition trial_open :: "bool \<Rightarrow> int \<Rightarrow> string \<Rightarrow> grant \<Rightarrow> bool" where
  "trial_open allow_unstarted now key g \<longleftrightarrow> g_is_trial g = 0 \<or>
     (g_is_trial g = 1 \<and> device_key_text key \<and> g_trial_one_per_device g \<in> {0, 1}
      \<and> (case (g_trial_started_at g, g_trial_device_key_id g) of
           (None, None) \<Rightarrow> allow_unstarted
         | (Some t, Some locked) \<Rightarrow> 0 \<le> t \<and> t \<le> now \<and> device_key_text locked \<and> (g_trial_one_per_device g = 0 \<or> locked = key)
         | _ \<Rightarrow> False)
      \<and> (case g_trial_expiration_basis g of
           None \<Rightarrow> False
         | Some basis \<Rightarrow>
             (basis = ''from_issue'' \<and> (case g_valid_until g of None \<Rightarrow> False | Some u \<Rightarrow> 0 \<le> u \<and> u \<le> int max_safe_integer \<and> now < u))
             \<or> (basis \<in> set activation_bases \<and> 2 \<le> g_trial_duration_sec g
                \<and> g_trial_duration_sec g \<le> int max_safe_integer - or_else (g_trial_started_at g) now
                \<and> now < or_else (g_trial_started_at g) now + g_trial_duration_sec g)))"

definition trial_deadline :: "grant \<Rightarrow> int \<Rightarrow> int option" where
  "trial_deadline g start =
     (if g_trial_expiration_basis g = Some ''from_issue'' then g_valid_until g
      else Some (or_else (g_trial_started_at g) start + g_trial_duration_sec g))"

text \<open>\<open>x <= y\<close> where \<open>y\<close> may be \<open>NULL\<close>.\<close>

definition at_most :: "int \<Rightarrow> int option \<Rightarrow> bool" where
  "at_most x y \<longleftrightarrow> (case y of None \<Rightarrow> False | Some t \<Rightarrow> x \<le> t)"

section \<open>The candidate of a lease\<close>

record lease_candidate =
  cd_key_id :: string
  cd_purpose :: lease_purpose
  cd_operation_id :: string
  cd_digest :: string
  cd_customer_id :: string
  cd_customer_revision :: int
  cd_key :: grant_key
  cd_entitlement_revision :: int
  cd_trial_stamp :: int
  cd_device_id :: string
  cd_device_revision :: int
  cd_spki :: string
  cd_device_label :: string
  cd_binding_id :: string
  cd_binding_revision :: int
  cd_generation :: int
  cd_challenge_id :: string
  cd_challenge_expires_at :: int
  cd_nonce_hash :: string
  cd_subject_id :: string
  cd_attempt_revision :: "int option"
  cd_code_hash :: "string option"
  cd_pkce :: "string option"
  cd_redirect_uri :: "string option"

record signed_candidate = lease_candidate +
  cd_lease_id :: string
  cd_issued_at :: int
  cd_expires_at :: int
  cd_accept_until :: int
  cd_token :: string
  cd_response :: lease_answer
  cd_invocation_id :: string

section \<open>Conditions\<close>

definition owned :: "int \<Rightarrow> bool \<Rightarrow> 'a lease_candidate_scheme \<Rightarrow> lease_db \<Rightarrow> grant \<Rightarrow> bool" where
  "owned revision allow_unstarted p d g \<longleftrightarrow> g_customer_id g = cd_customer_id p \<and> g_status g = ''active''
     \<and> ld_authority d (cd_key p) = revision \<and> trial_open allow_unstarted (ld_now d) (cd_key_id p) g
     \<and> (case g_valid_from g of None \<Rightarrow> True | Some t \<Rightarrow> t \<le> ld_now d)
     \<and> (case g_valid_until g of None \<Rightarrow> True | Some t \<Rightarrow> ld_now d < t)"

definition owner_current :: "'a lease_candidate_scheme \<Rightarrow> lease_db \<Rightarrow> bool" where
  "owner_current p d \<longleftrightarrow> (case find_account d (cd_customer_id p) of
     None \<Rightarrow> False | Some a \<Rightarrow> ac_active a \<and> ac_revision a = cd_customer_revision p)"

definition challenge_matches :: "'a lease_candidate_scheme \<Rightarrow> lease_db \<Rightarrow> bound_challenge \<Rightarrow> bool" where
  "challenge_matches p d c \<longleftrightarrow> ch_id c = cd_challenge_id p \<and> ch_key_id c = cd_key_id p \<and> ch_purpose c = cd_purpose p
     \<and> ch_operation_id c = cd_operation_id p \<and> ch_subject_id c = cd_subject_id p \<and> ch_nonce_hash c = cd_nonce_hash p
     \<and> ch_consumed c = None \<and> ch_expires_at c = cd_challenge_expires_at p \<and> ld_now d < ch_expires_at c"

definition active_device :: "'a lease_candidate_scheme \<Rightarrow> bound_device \<Rightarrow> bool" where
  "active_device p v \<longleftrightarrow> dv_id v = cd_device_id p \<and> dv_key_id v = cd_key_id p \<and> dv_spki v = cd_spki p
     \<and> dv_customer_id v = cd_customer_id p \<and> dv_project v = fst (cd_key p) \<and> dv_active v \<and> dv_revision v = cd_device_revision p"

definition active_binding :: "'a lease_candidate_scheme \<Rightarrow> bound_binding \<Rightarrow> bool" where
  "active_binding p b \<longleftrightarrow> bi_id b = cd_binding_id p \<and> bi_key b = cd_key p \<and> bi_device_id b = cd_device_id p
     \<and> bi_state b = Active \<and> bi_generation b = cd_generation p \<and> bi_revision b = cd_binding_revision p"

definition attempt_matches :: "'a lease_candidate_scheme \<Rightarrow> bound_attempt \<Rightarrow> bool" where
  "attempt_matches p a \<longleftrightarrow> at_handle_hash a = cd_subject_id p \<and> at_customer_id a = Some (cd_customer_id p)
     \<and> at_project a = fst (cd_key p) \<and> at_feature a = Some (fst (snd (cd_key p))) \<and> at_fingerprint a = Some (snd (snd (cd_key p)))
     \<and> at_key_id a = cd_key_id p \<and> at_code_hash a \<noteq> None \<and> at_code_hash a = cd_code_hash p
     \<and> Some (at_pkce a) = cd_pkce p \<and> Some (at_redirect_uri a) = cd_redirect_uri p"

definition approval_matches :: "'a lease_candidate_scheme \<Rightarrow> lease_db \<Rightarrow> bound_attempt \<Rightarrow> bool" where
  "approval_matches p d a \<longleftrightarrow> attempt_matches p a \<and> at_status a = Approved \<and> Some (at_revision a) = cd_attempt_revision p
     \<and> at_spki a = cd_spki p \<and> ld_now d < at_expires_at a
     \<and> (case at_code_expires_at a of None \<Rightarrow> False | Some t \<Rightarrow> ld_now d < t)"

end
