(* ===== verification/Lease_Commit.thy ===== *)
theory Lease_Commit
  imports Lease_Store
begin

text \<open>
  The statements of one lease (\<open>BOUND_LEASE_COMMIT_SQL\<close> of \<open>device/bound_store.mjs\<close>): the guard admits the
  operation, the others act for the operation the guard prepared, and the last ones undo the whole
  batch unless the operation is complete.
\<close>

section \<open>The guard\<close>

definition lease_bounds :: "signed_candidate \<Rightarrow> lease_db \<Rightarrow> grant \<Rightarrow> bool" where
  "lease_bounds p d g \<longleftrightarrow> cd_purpose p \<in> {Exchange, Renew} \<and> cd_issued_at p \<le> ld_now d \<and> ld_now d < cd_expires_at p
     \<and> 2 \<le> cd_expires_at p - cd_issued_at p \<and> cd_expires_at p - cd_issued_at p \<le> 86400
     \<and> cd_accept_until p = cd_expires_at p + 120
     \<and> (case g_valid_until g of None \<Rightarrow> True | Some t \<Rightarrow> cd_expires_at p \<le> t)
     \<and> (g_lease_seconds g \<le> 0 \<or> cd_expires_at p \<le> cd_issued_at p + g_lease_seconds g)
     \<and> cd_trial_stamp p = (if g_is_trial g = 1 \<and> g_trial_started_at g = None then 1 else 0)
     \<and> (cd_trial_stamp p = 0 \<or> ld_authority d (cd_key p) < int max_safe_integer)
     \<and> (cd_purpose p = Exchange \<or> cd_trial_stamp p = 0)
     \<and> (g_is_trial g = 0 \<or> at_most (cd_expires_at p) (trial_deadline g (cd_issued_at p)))"

definition new_device_allowed :: "signed_candidate \<Rightarrow> lease_db \<Rightarrow> bool" where
  "new_device_allowed p d \<longleftrightarrow> cd_device_revision p = 0
     \<and> \<not> list_ex (\<lambda>v. dv_key_id v = cd_key_id p \<or> dv_id v = cd_device_id p) (ld_devices d)"

definition new_binding_allowed :: "signed_candidate \<Rightarrow> lease_db \<Rightarrow> grant \<Rightarrow> bool" where
  "new_binding_allowed p d g \<longleftrightarrow> cd_generation p = 1 \<and> cd_binding_revision p = 0
     \<and> find_binding d (cd_binding_id p) = None
     \<and> \<not> list_ex (\<lambda>b. bi_key b = cd_key p \<and> bi_device_id b = cd_device_id p \<and> bi_state b = Active) (ld_bindings d)
     \<and> int (occupied d (cd_key p)) < g_max_active_devices g"

definition lease_admitted :: "signed_candidate \<Rightarrow> lease_db \<Rightarrow> bool" where
  "lease_admitted p d \<longleftrightarrow> (case find_grant (ld_core d) (cd_key p) of
     None \<Rightarrow> False
   | Some g \<Rightarrow>
       owned (cd_entitlement_revision p) True p d g \<and> owner_current p d \<and> lease_bounds p d g
       \<and> list_ex (challenge_matches p d) (ld_challenges d)
       \<and> ((cd_purpose p = Renew \<and> cd_subject_id p = cd_binding_id p
            \<and> list_ex (active_device p) (ld_devices d) \<and> list_ex (active_binding p) (ld_bindings d))
          \<or> (cd_purpose p = Exchange \<and> list_ex (approval_matches p d) (ld_attempts d)
            \<and> (list_ex (active_device p) (ld_devices d) \<or> new_device_allowed p d)
            \<and> (list_ex (active_binding p) (ld_bindings d) \<or> new_binding_allowed p d g))))"

text \<open>\<open>tr_bound_operation_no_replace\<close> and the unique keys of the operations.\<close>

definition insert_operation :: "bound_operation \<Rightarrow> lease_command" where
  "insert_operation o' d =
     (if list_ex (\<lambda>q. (op_key_id q = op_key_id o' \<and> op_purpose q = op_purpose o' \<and> op_operation_id q = op_operation_id o')
            \<or> op_invocation_id q = op_invocation_id o') (ld_operations d)
      then Inl ''operation_tombstone_required''
      else Inr ([], d\<lparr>ld_operations := ld_operations d @ [o']\<rparr>))"

definition operation_of :: "signed_candidate \<Rightarrow> int \<Rightarrow> bound_operation" where
  "operation_of p now = \<lparr>op_key_id = cd_key_id p, op_purpose = cd_purpose p, op_operation_id = cd_operation_id p,
     op_invocation_id = cd_invocation_id p, op_digest = cd_digest p, op_customer_id = cd_customer_id p,
     op_binding_id = cd_binding_id p, op_lease_id = Some (cd_lease_id p), op_complete = False,
     op_response = LeaseAnswer (cd_response p), op_committed_at = now, op_retain_until = now + 172800\<rparr>"

definition lease_guard :: "signed_candidate \<Rightarrow> lease_command" where
  "lease_guard p d = (if lease_admitted p d then insert_operation (operation_of p (ld_now d)) d else Inr ([], d))"

definition prepared :: "signed_candidate \<Rightarrow> lease_db \<Rightarrow> bound_operation option" where
  "prepared p d = find (\<lambda>o'. op_invocation_id o' = cd_invocation_id p \<and> op_key_id o' = cd_key_id p \<and> op_purpose o' = cd_purpose p
     \<and> op_operation_id o' = cd_operation_id p \<and> op_digest o' = cd_digest p \<and> op_binding_id o' = cd_binding_id p
     \<and> op_lease_id o' = Some (cd_lease_id p) \<and> op_customer_id o' = cd_customer_id p \<and> \<not> op_complete o') (ld_operations d)"

section \<open>The statements for the prepared operation\<close>

text \<open>\<open>UPDATE \<dots> WHERE EXISTS (SELECT 1 FROM p JOIN device_bound_operations o \<dots>)\<close> and its like for inserts.\<close>

definition for_prepared :: "signed_candidate \<Rightarrow> (bound_operation \<Rightarrow> lease_command) \<Rightarrow> lease_command" where
  "for_prepared p f d = (case prepared p d of None \<Rightarrow> Inr ([], d) | Some o' \<Rightarrow> f o' d)"

text \<open>The trigger \<open>tr_bound_entitlement_revision\<close> moves the authority revision on.\<close>

definition stamp_trial :: "signed_candidate \<Rightarrow> lease_command" where
  "stamp_trial p = for_prepared p (\<lambda>o' d.
     if cd_trial_stamp p = 1 \<and> cd_purpose p = Exchange \<and> ld_authority d (cd_key p) = cd_entitlement_revision p
     then rbind (update_grant \<lparr>sets_owner = False, sets_capacity = False\<rparr> (cd_key p)
            (\<lambda>_ g. g_trial_started_at g = None \<and> g_trial_device_key_id g = None \<and> g_is_trial g = 1)
            (\<lambda>_ g. g\<lparr>g_trial_started_at := Some (op_committed_at o'), g_trial_device_key_id := Some (cd_key_id p),
              g_updated_at := op_committed_at o'\<rparr>) (ld_core d)) (\<lambda>(rows, c).
          if rows = [] then Inr ([], d\<lparr>ld_core := c\<rparr>)
          else if int max_safe_integer \<le> ld_authority d (cd_key p) then Inl ''CHECK constraint failed: entitlements''
          else Inr ([], d\<lparr>ld_core := c, ld_authority := (ld_authority d)(cd_key p := ld_authority d (cd_key p) + 1)\<rparr>))
     else Inr ([], d))"

definition insert_device :: "bound_device \<Rightarrow> lease_command" where
  "insert_device v d =
     (if list_ex (\<lambda>u. dv_id u = dv_id v \<or> dv_key_id u = dv_key_id v) (ld_devices d)
      then Inl ''UNIQUE constraint failed: device_bound_devices''
      else Inr ([], d\<lparr>ld_devices := ld_devices d @ [v]\<rparr>))"

definition device_of :: "signed_candidate \<Rightarrow> int \<Rightarrow> bound_device" where
  "device_of p now = \<lparr>dv_id = cd_device_id p, dv_customer_id = cd_customer_id p, dv_project = fst (cd_key p), dv_key_id = cd_key_id p,
     dv_spki = cd_spki p, dv_label = cd_device_label p, dv_active = True, dv_revision = 0, dv_created_at = now, dv_last_proof_at = now\<rparr>"

definition create_device :: "signed_candidate \<Rightarrow> lease_command" where
  "create_device p = for_prepared p (\<lambda>o' d.
     if cd_purpose p = Exchange \<and> find_device d (cd_device_id p) = None
     then insert_device (device_of p (op_committed_at o')) d else Inr ([], d))"

text \<open>The foreign keys, the primary key, and the unique index on active bindings of a device.\<close>

definition insert_binding :: "bound_binding \<Rightarrow> lease_command" where
  "insert_binding b d =
     (if find_device d (bi_device_id b) = None \<or> find_grant (ld_core d) (bi_key b) = None then Inl ''FOREIGN KEY constraint failed''
      else if list_ex (\<lambda>c. bi_id c = bi_id b \<or> (bi_state b = Active \<and> bi_state c = Active \<and> bi_key c = bi_key b
             \<and> bi_device_id c = bi_device_id b)) (ld_bindings d)
      then Inl ''UNIQUE constraint failed: device_bound_bindings''
      else Inr ([], d\<lparr>ld_bindings := ld_bindings d @ [b]\<rparr>))"

definition binding_of :: "signed_candidate \<Rightarrow> int \<Rightarrow> bound_binding" where
  "binding_of p now = \<lparr>bi_id = cd_binding_id p, bi_key = cd_key p, bi_device_id = cd_device_id p, bi_state = Active,
     bi_generation = 1, bi_revision = 0, bi_hold_until = 0, bi_created_at = now, bi_updated_at = now\<rparr>"

definition create_binding :: "signed_candidate \<Rightarrow> lease_command" where
  "create_binding p = for_prepared p (\<lambda>o' d.
     if cd_purpose p = Exchange \<and> find_binding d (cd_binding_id p) = None
     then insert_binding (binding_of p (op_committed_at o')) d else Inr ([], d))"

definition consume_challenge :: "signed_candidate \<Rightarrow> lease_command" where
  "consume_challenge p = for_prepared p (\<lambda>o' d. Inr ([], d\<lparr>ld_challenges :=
     List.map (\<lambda>c. if challenge_matches p d c then c\<lparr>ch_consumed := Some (cd_invocation_id p)\<rparr> else c) (ld_challenges d)\<rparr>))"

definition consumed_attempt :: "signed_candidate \<Rightarrow> bound_operation \<Rightarrow> bound_attempt \<Rightarrow> bound_attempt" where
  "consumed_attempt p o' a = a\<lparr>at_status := Consumed, at_revision := at_revision a + 1,
     at_consumed_invocation := Some (cd_invocation_id p), at_consumed_operation := Some (cd_operation_id p),
     at_recovery_until := Some (op_retain_until o'), at_ciphertext := None\<rparr>"

definition consume_approval :: "signed_candidate \<Rightarrow> lease_command" where
  "consume_approval p = for_prepared p (\<lambda>o' d.
     if cd_purpose p \<noteq> Exchange then Inr ([], d)
     else if list_ex (\<lambda>a. approval_matches p d a \<and> (op_retain_until o' \<le> at_created_at a \<or> int max_safe_integer \<le> at_revision a)) (ld_attempts d)
     then Inl ''CHECK constraint failed: device_bound_authorizations''
     else Inr ([], d\<lparr>ld_attempts := List.map (\<lambda>a. if approval_matches p d a then consumed_attempt p o' a else a) (ld_attempts d)\<rparr>))"

definition held_binding :: "signed_candidate \<Rightarrow> bound_operation \<Rightarrow> bound_binding \<Rightarrow> bound_binding" where
  "held_binding p o' b = b\<lparr>bi_hold_until := max (bi_hold_until b) (cd_accept_until p), bi_revision := bi_revision b + 1,
     bi_updated_at := op_committed_at o'\<rparr>"

definition update_binding :: "signed_candidate \<Rightarrow> lease_command" where
  "update_binding p = for_prepared p (\<lambda>o' d.
     if list_ex (\<lambda>b. active_binding p b \<and> (int max_safe_integer \<le> bi_revision b \<or> int max_safe_integer < cd_accept_until p)) (ld_bindings d)
     then Inl ''CHECK constraint failed: device_bound_bindings''
     else Inr ([], d\<lparr>ld_bindings := List.map (\<lambda>b. if active_binding p b then held_binding p o' b else b) (ld_bindings d)\<rparr>))"

definition update_device :: "signed_candidate \<Rightarrow> lease_command" where
  "update_device p = for_prepared p (\<lambda>o' d. Inr ([], d\<lparr>ld_devices :=
     List.map (\<lambda>v. if active_device p v then v\<lparr>dv_last_proof_at := op_committed_at o'\<rparr> else v) (ld_devices d)\<rparr>))"

definition insert_lease :: "bound_lease \<Rightarrow> lease_command" where
  "insert_lease l d =
     (if find_binding d (le_binding_id l) = None then Inl ''FOREIGN KEY constraint failed''
      else if list_ex (\<lambda>m. le_id m = le_id l \<or> le_invocation_id m = le_invocation_id l) (ld_leases d)
      then Inl ''UNIQUE constraint failed: device_bound_leases''
      else if le_generation l < 1 \<or> le_issued_at l < 0 \<or> le_expires_at l \<le> le_issued_at l \<or> 86400 < le_expires_at l - le_issued_at l
        \<or> le_accept_until l \<noteq> le_expires_at l + 120 \<or> int max_safe_integer < le_accept_until l
      then Inl ''CHECK constraint failed: device_bound_leases''
      else Inr ([], d\<lparr>ld_leases := ld_leases d @ [l]\<rparr>))"

definition lease_of :: "signed_candidate \<Rightarrow> bound_lease" where
  "lease_of p = \<lparr>le_id = cd_lease_id p, le_binding_id = cd_binding_id p, le_generation = cd_generation p,
     le_entitlement_revision = cd_entitlement_revision p + cd_trial_stamp p, le_invocation_id = cd_invocation_id p,
     le_issued_at = cd_issued_at p, le_expires_at = cd_expires_at p, le_accept_until = cd_accept_until p, le_token = cd_token p\<rparr>"

definition issue_lease :: "signed_candidate \<Rightarrow> lease_command" where
  "issue_lease p = for_prepared p (\<lambda>o'. insert_lease (lease_of p))"

definition insert_bound_event :: "bound_event \<Rightarrow> lease_command" where
  "insert_bound_event e d =
     (if find_binding d (be_binding_id e) = None \<or> find_account d (be_customer_id e) = None then Inl ''FOREIGN KEY constraint failed''
      else if list_ex (\<lambda>f. be_invocation_id f = be_invocation_id e) (ld_events d) then Inl ''UNIQUE constraint failed: device_bound_events''
      else Inr ([], d\<lparr>ld_events := ld_events d @ [e]\<rparr>))"

definition lease_event_of :: "signed_candidate \<Rightarrow> int \<Rightarrow> bound_event" where
  "lease_event_of p now = \<lparr>be_invocation_id = cd_invocation_id p, be_binding_id = cd_binding_id p, be_customer_id = cd_customer_id p,
     be_type = cd_purpose p, be_actor = cd_key_id p, be_occurred_at = now\<rparr>"

definition audit_lease :: "signed_candidate \<Rightarrow> lease_command" where
  "audit_lease p = for_prepared p (\<lambda>o'. insert_bound_event (lease_event_of p (op_committed_at o')))"

section \<open>The end of the batch\<close>

definition lease_matches :: "signed_candidate \<Rightarrow> lease_db \<Rightarrow> bound_lease \<Rightarrow> bool" where
  "lease_matches p d l \<longleftrightarrow> le_id l = cd_lease_id p \<and> le_binding_id l = cd_binding_id p \<and> le_generation l = cd_generation p
     \<and> le_entitlement_revision l = ld_authority d (cd_key p) \<and> le_invocation_id l = cd_invocation_id p
     \<and> le_issued_at l = cd_issued_at p \<and> le_expires_at l = cd_expires_at p \<and> le_accept_until l = cd_accept_until p \<and> le_token l = cd_token p"

definition binding_advanced :: "signed_candidate \<Rightarrow> bound_binding \<Rightarrow> bool" where
  "binding_advanced p b \<longleftrightarrow> bi_id b = cd_binding_id p \<and> bi_device_id b = cd_device_id p \<and> bi_key b = cd_key p \<and> bi_state b = Active
     \<and> bi_generation b = cd_generation p \<and> bi_revision b = cd_binding_revision p + 1 \<and> cd_accept_until p \<le> bi_hold_until b"

definition challenge_spent :: "signed_candidate \<Rightarrow> lease_db \<Rightarrow> bound_challenge \<Rightarrow> bool" where
  "challenge_spent p d c \<longleftrightarrow> ch_id c = cd_challenge_id p \<and> ch_consumed c = Some (cd_invocation_id p) \<and> ch_operation_id c = cd_operation_id p
     \<and> ch_key_id c = cd_key_id p \<and> ch_subject_id c = cd_subject_id p \<and> ch_purpose c = cd_purpose p \<and> ch_nonce_hash c = cd_nonce_hash p
     \<and> ch_expires_at c = cd_challenge_expires_at p \<and> ld_now d < ch_expires_at c"

definition approval_spent :: "signed_candidate \<Rightarrow> lease_db \<Rightarrow> bound_attempt \<Rightarrow> bool" where
  "approval_spent p d a \<longleftrightarrow> attempt_matches p a \<and> at_status a = Consumed \<and> Some (at_revision a) = map_option (\<lambda>r. r + 1) (cd_attempt_revision p)
     \<and> at_consumed_invocation a = Some (cd_invocation_id p) \<and> at_consumed_operation a = Some (cd_operation_id p)
     \<and> ld_now d < at_expires_at a \<and> (case at_code_expires_at a of None \<Rightarrow> False | Some t \<Rightarrow> ld_now d < t)"

text \<open>The causal chain a complete operation has to show, checked again at the end.\<close>

definition chain_complete :: "signed_candidate \<Rightarrow> bound_operation \<Rightarrow> lease_db \<Rightarrow> bool" where
  "chain_complete p o' d \<longleftrightarrow> (case find_grant (ld_core d) (cd_key p) of
     None \<Rightarrow> False
   | Some g \<Rightarrow>
       owned (cd_entitlement_revision p + cd_trial_stamp p) False p d g \<and> owner_current p d
       \<and> list_ex (\<lambda>v. active_device p v \<and> dv_last_proof_at v = op_committed_at o') (ld_devices d)
       \<and> list_ex (binding_advanced p) (ld_bindings d) \<and> list_ex (lease_matches p d) (ld_leases d)
       \<and> list_ex (\<lambda>e. be_invocation_id e = cd_invocation_id p \<and> be_binding_id e = cd_binding_id p \<and> be_customer_id e = cd_customer_id p
            \<and> be_actor e = cd_key_id p \<and> be_type e = cd_purpose p) (ld_events d)
       \<and> list_ex (challenge_spent p d) (ld_challenges d) \<and> ld_now d < cd_expires_at p
       \<and> (g_is_trial g = 0 \<or> at_most (cd_expires_at p) (trial_deadline g (cd_issued_at p)))
       \<and> (cd_trial_stamp p = 0 \<or> (g_trial_started_at g = Some (op_committed_at o') \<and> g_trial_device_key_id g = Some (cd_key_id p)))
       \<and> (cd_purpose p = Renew \<or> list_ex (approval_spent p d) (ld_attempts d)))"

definition finalize_lease :: "signed_candidate \<Rightarrow> lease_command" where
  "finalize_lease p d = Inr ([], d\<lparr>ld_operations :=
     List.map (\<lambda>o'. if op_invocation_id o' = cd_invocation_id p \<and> \<not> op_complete o' \<and> chain_complete p o' d
       then o'\<lparr>op_complete := True\<rparr> else o') (ld_operations d)\<rparr>)"

definition operation_complete :: "signed_candidate \<Rightarrow> bound_operation \<Rightarrow> bool" where
  "operation_complete p o' \<longleftrightarrow> op_invocation_id o' = cd_invocation_id p \<and> op_complete o' \<and> op_key_id o' = cd_key_id p
     \<and> op_purpose o' = cd_purpose p \<and> op_operation_id o' = cd_operation_id p \<and> op_digest o' = cd_digest p
     \<and> op_binding_id o' = cd_binding_id p \<and> op_lease_id o' = Some (cd_lease_id p) \<and> op_response o' = LeaseAnswer (cd_response p)"

text \<open>\<open>device_bound_commit_checks\<close> has \<open>CHECK (ok = 1)\<close>: a row that is not ok aborts the batch.\<close>

definition insert_check :: "string \<Rightarrow> bool \<Rightarrow> lease_command" where
  "insert_check i ok d =
     (if \<not> ok then Inl ''CHECK constraint failed: device_bound_commit_checks''
      else if i \<in> set (ld_checks d) then Inl ''UNIQUE constraint failed: device_bound_commit_checks''
      else Inr ([], d\<lparr>ld_checks := ld_checks d @ [i]\<rparr>))"

definition assert_complete :: "signed_candidate \<Rightarrow> lease_command" where
  "assert_complete p d = insert_check (cd_invocation_id p) (list_ex (operation_complete p) (ld_operations d)) d"

definition remove_check :: "string \<Rightarrow> lease_command" where
  "remove_check i d = Inr ([], d\<lparr>ld_checks := List.filter (\<lambda>j. j \<noteq> i) (ld_checks d)\<rparr>)"

definition lease_result :: "signed_candidate \<Rightarrow> lease_command" where
  "lease_result p d = Inr (case find (\<lambda>o'. op_invocation_id o' = cd_invocation_id p \<and> op_complete o') (ld_operations d) of
     None \<Rightarrow> [] | Some o' \<Rightarrow> [AnswerOut (op_response o')], d)"

definition bound_lease_commit_sql :: "signed_candidate \<Rightarrow> lease_command list" where
  "bound_lease_commit_sql p =
     [lease_guard p, stamp_trial p, create_device p, create_binding p, consume_challenge p, consume_approval p,
      update_binding p, update_device p, issue_lease p, audit_lease p, finalize_lease p, assert_complete p,
      remove_check (cd_invocation_id p), lease_result p]"

section \<open>The commit\<close>

type_synonym 'a lease_io = "(lease_db world, 'a) io"

definition valid_answer :: "signed_candidate \<Rightarrow> bool" where
  "valid_answer p \<longleftrightarrow> la_ok (cd_response p)
     \<and> la_code (cd_response p) = (if cd_purpose p = Exchange then ''device_activated'' else ''device_renewed'')
     \<and> la_binding_id (cd_response p) = cd_binding_id p \<and> la_lease (cd_response p) = cd_token p \<and> la_expires_at (cd_response p) = cd_expires_at p"

definition answer_in :: "lease_out list list \<Rightarrow> op_response option" where
  "answer_in results = (case batch_returned_row (last results) of Some (AnswerOut r) \<Rightarrow> Some r | _ \<Rightarrow> None)"

text \<open>\<open>paces\<close> are the seconds that pass inside the batch; the candidate carries the fresh invocation id.\<close>

definition commit_bound_device_lease :: "nat list \<Rightarrow> signed_candidate \<Rightarrow> lease_answer lease_io" where
  "commit_bound_device_lease paces p = (\<lambda>w.
     if \<not> w_has_batch w then io_throw ''atomic_batch_required'' w
     else if cd_purpose p \<notin> {Exchange, Renew} then io_throw ''invalid_candidate'' w
     else if \<not> valid_answer p then io_throw ''invalid_candidate_response'' w
     else io_bind (db_batch (paced paces (bound_lease_commit_sql p))) (\<lambda>results.
       if answer_in results = Some (LeaseAnswer (cd_response p)) then io_return (cd_response p)
       else io_throw ''commit_result_unavailable'') w)"

end
