(* ===== verification/Lease_Effect.thy ===== *)
theory Lease_Effect
  imports Lease_Commit Order_Safety
begin

text \<open>
  What the batch of a lease leaves: nothing, or all of one operation. \<open>lease_effect\<close> is that operation,
  stated as one change of the tables.
\<close>

section \<open>Paced batches\<close>

definition later :: "nat \<Rightarrow> lease_db \<Rightarrow> lease_db" where
  "later n d = d\<lparr>ld_now := ld_now d + int n\<rparr>"

lemma paced_step:
  assumes "run_statements (paced ns (s # ss)) d = Inr (rs, d'')"
  obtains n ns' r d1 rs' where "s (later n d) = Inr (r, d1)" "run_statements (paced ns' ss) d1 = Inr (rs', d'')" "rs = r # rs'"
proof (cases ns)
  case Nil
  from assms obtain r d1 rs' where "s d = Inr (r, d1)" "run_statements ss d1 = Inr (rs', d'')" "rs = r # rs'"
    unfolding Nil paced.simps run_statements_Cons_Inr by blast
  then show ?thesis using that [of 0 r d1 "[]" rs'] by (cases ss) (simp_all add: later_def)
next
  case (Cons n ns')
  with assms obtain r d1 rs' where "s (later n d) = Inr (r, d1)" "run_statements (paced ns' ss) d1 = Inr (rs', d'')" "rs = r # rs'"
    by (auto simp: rbind_Inr_iff ticking_def later_def)
  then show ?thesis by (rule that)
qed

lemma paced_end: "run_statements (paced ns []) d = Inr (rs, d') \<longleftrightarrow> rs = [] \<and> d' = d"
  by auto

section \<open>The effect\<close>

definition at_time :: "int \<Rightarrow> lease_db \<Rightarrow> lease_db" where
  "at_time t d = d\<lparr>ld_now := t\<rparr>"

lemma at_time_simps [simp]:
  "ld_core (at_time t d) = ld_core d"
  "ld_authority (at_time t d) = ld_authority d"
  "ld_accounts (at_time t d) = ld_accounts d"
  "ld_devices (at_time t d) = ld_devices d"
  "ld_bindings (at_time t d) = ld_bindings d"
  "ld_challenges (at_time t d) = ld_challenges d"
  "ld_attempts (at_time t d) = ld_attempts d"
  "ld_operations (at_time t d) = ld_operations d"
  "ld_leases (at_time t d) = ld_leases d"
  "ld_events (at_time t d) = ld_events d"
  "ld_checks (at_time t d) = ld_checks d"
  "ld_denials (at_time t d) = ld_denials d"
  "ld_counters (at_time t d) = ld_counters d"
  "ld_now (at_time t d) = t"
  by (simp_all add: at_time_def)

definition committed_operation :: "signed_candidate \<Rightarrow> int \<Rightarrow> bound_operation" where
  "committed_operation p t = (operation_of p t)\<lparr>op_complete := True\<rparr>"

definition trial_stamped :: "signed_candidate \<Rightarrow> int \<Rightarrow> grant \<Rightarrow> grant" where
  "trial_stamped p t g = (if cd_trial_stamp p = 1
     then g\<lparr>g_trial_started_at := Some t, g_trial_device_key_id := Some (cd_key_id p), g_updated_at := t\<rparr> else g)"

text \<open>The guard runs at \<open>t\<close>, the challenge and the approval are consumed at \<open>u\<close> and \<open>v\<close>, the chain is checked at \<open>f\<close>.\<close>

definition lease_effect_at :: "signed_candidate \<Rightarrow> int \<Rightarrow> int \<Rightarrow> int \<Rightarrow> int \<Rightarrow> grant \<Rightarrow> lease_db \<Rightarrow> lease_db \<Rightarrow> bool" where
  "lease_effect_at p t u v f g d d' \<longleftrightarrow>
     ld_now d \<le> t \<and> t \<le> u \<and> u \<le> v \<and> v \<le> f \<and> f \<le> ld_now d' \<and> chain_complete p (operation_of p t) (at_time f d')
     \<and> lease_admitted p (at_time t d) \<and> find_grant (ld_core d) (cd_key p) = Some g
     \<and> find_grant (ld_core d') = (find_grant (ld_core d))(cd_key p \<mapsto> trial_stamped p t g)
     \<and> ld_authority d' = (ld_authority d)(cd_key p := ld_authority d (cd_key p) + cd_trial_stamp p)
     \<and> ld_accounts d' = ld_accounts d \<and> ld_checks d' = ld_checks d \<and> ld_denials d' = ld_denials d \<and> ld_counters d' = ld_counters d
     \<and> ld_operations d' = ld_operations d @ [committed_operation p t]
     \<and> ld_leases d' = ld_leases d @ [lease_of p] \<and> ld_events d' = ld_events d @ [lease_event_of p t]
     \<and> ld_devices d' = List.map (\<lambda>x. if active_device p x then x\<lparr>dv_last_proof_at := t\<rparr> else x)
         (ld_devices d @ (if cd_purpose p = Exchange \<and> find_device d (cd_device_id p) = None then [device_of p t] else []))
     \<and> ld_bindings d' = List.map (\<lambda>b. if active_binding p b then held_binding p (operation_of p t) b else b)
         (ld_bindings d @ (if cd_purpose p = Exchange \<and> find_binding d (cd_binding_id p) = None then [binding_of p t] else []))
     \<and> ld_challenges d' = List.map (\<lambda>c. if challenge_matches p (at_time u d) c then c\<lparr>ch_consumed := Some (cd_invocation_id p)\<rparr> else c)
         (ld_challenges d)
     \<and> ld_attempts d' = (if cd_purpose p = Exchange
         then List.map (\<lambda>a. if approval_matches p (at_time v d) a then consumed_attempt p (operation_of p t) a else a) (ld_attempts d)
         else ld_attempts d)"

definition lease_effect :: "signed_candidate \<Rightarrow> lease_db \<Rightarrow> lease_db \<Rightarrow> bool" where
  "lease_effect p d d' \<longleftrightarrow> (\<exists>t u v f g. lease_effect_at p t u v f g d d')"

section \<open>Statement by statement\<close>

lemma prepared_same: "ld_operations d' = ld_operations d \<Longrightarrow> prepared p d' = prepared p d"
  by (simp add: prepared_def)

lemma prepared_time [simp]: "prepared p (later n d) = prepared p d"
  by (simp add: prepared_def later_def)

lemma for_preparedD: "for_prepared p f d = Inr (r, d1) \<Longrightarrow> prepared p d = Some o' \<Longrightarrow> f o' d = Inr (r, d1)"
  by (simp add: for_prepared_def)

lemma guard_cases:
  assumes "lease_guard p d = Inr (r, d1)" and "\<forall>q\<in>set (ld_operations d). op_invocation_id q \<noteq> cd_invocation_id p"
  shows "(d1 = d \<and> prepared p d1 = None)
    \<or> (lease_admitted p d \<and> d1 = d\<lparr>ld_operations := ld_operations d @ [operation_of p (ld_now d)]\<rparr>
        \<and> prepared p d1 = Some (operation_of p (ld_now d)))"
proof -
  have old: "find (\<lambda>o'. op_invocation_id o' = cd_invocation_id p \<and> P o') (ld_operations d) = None" for P
    using assms(2) by (auto simp: find_None_iff)
  from assms(1) old show ?thesis
    by (auto simp: lease_guard_def insert_operation_def prepared_def find_snoc operation_of_def split: if_splits)
qed

lemma stamp_cases:
  assumes "stamp_trial p d = Inr (r, d1)" and "prepared p d = Some o'" and "find_grant (ld_core d) (cd_key p) = Some g"
    and "cd_trial_stamp p = (if g_is_trial g = 1 \<and> g_trial_started_at g = None then 1 else 0)"
    and "cd_trial_stamp p = 1 \<longrightarrow> cd_purpose p = Exchange \<and> ld_authority d (cd_key p) = cd_entitlement_revision p
       \<and> g_trial_device_key_id g = None"
  shows "\<exists>c. d1 = d\<lparr>ld_core := c, ld_authority := (ld_authority d)(cd_key p := ld_authority d (cd_key p) + cd_trial_stamp p)\<rparr>
    \<and> find_grant c = (find_grant (ld_core d))(cd_key p \<mapsto> trial_stamped p (op_committed_at o') g)"
proof (cases "cd_trial_stamp p = 1")
  case False
  with assms(4) have z: "cd_trial_stamp p = 0" by (simp split: if_splits)
  with for_preparedD [OF assms(1) [unfolded stamp_trial_def] assms(2)] have "d1 = d" by simp
  with z assms(3) show ?thesis by (intro exI [of _ "ld_core d"]) (auto simp: trial_stamped_def fun_upd_idem)
next
  case True
  with for_preparedD [OF assms(1) [unfolded stamp_trial_def] assms(2)] assms(5)
  obtain rows c where u: "update_grant \<lparr>sets_owner = False, sets_capacity = False\<rparr> (cd_key p)
      (\<lambda>_ g. g_trial_started_at g = None \<and> g_trial_device_key_id g = None \<and> g_is_trial g = 1)
      (\<lambda>_ g. g\<lparr>g_trial_started_at := Some (op_committed_at o'), g_trial_device_key_id := Some (cd_key_id p),
              g_updated_at := op_committed_at o'\<rparr>) (ld_core d) = Inr (rows, c)"
    and d1: "(if rows = [] then Inr ([], d\<lparr>ld_core := c\<rparr>)
          else if int max_safe_integer \<le> ld_authority d (cd_key p) then Inl ''CHECK constraint failed: entitlements''
          else Inr ([], d\<lparr>ld_core := c, ld_authority := (ld_authority d)(cd_key p := ld_authority d (cd_key p) + 1)\<rparr>))
        = (Inr (r, d1) :: (lease_out list \<times> lease_db) outcome)"
    by (auto simp: rbind_Inr_iff)
  have key: "key_of (g\<lparr>g_trial_started_at := x, g_trial_device_key_id := y, g_updated_at := z\<rparr>) = key_of g" for g x y z
    by (simp add: key_of_def)
  from u key show ?thesis
  proof (cases rule: update_grant_cases)
    case missed
    with True assms(3-5) show ?thesis by (auto split: if_splits)
  next
    case (hit q)
    with True assms(3) d1 show ?thesis by (auto simp: stored_def trial_stamped_def split: if_splits)
  qed
qed

lemma create_device_effect:
  assumes "create_device p d = Inr (r, d1)" and "prepared p d = Some o'"
  shows "d1 = d\<lparr>ld_devices := ld_devices d
    @ (if cd_purpose p = Exchange \<and> find_device d (cd_device_id p) = None then [device_of p (op_committed_at o')] else [])\<rparr>"
  using for_preparedD [OF assms(1) [unfolded create_device_def] assms(2)] by (auto simp: insert_device_def split: if_splits)

lemma create_binding_effect:
  assumes "create_binding p d = Inr (r, d1)" and "prepared p d = Some o'"
  shows "d1 = d\<lparr>ld_bindings := ld_bindings d
    @ (if cd_purpose p = Exchange \<and> find_binding d (cd_binding_id p) = None then [binding_of p (op_committed_at o')] else [])\<rparr>"
  using for_preparedD [OF assms(1) [unfolded create_binding_def] assms(2)] by (auto simp: insert_binding_def split: if_splits)

lemma consume_challenge_effect:
  assumes "consume_challenge p d = Inr (r, d1)" and "prepared p d = Some o'"
  shows "d1 = d\<lparr>ld_challenges :=
    List.map (\<lambda>c. if challenge_matches p d c then c\<lparr>ch_consumed := Some (cd_invocation_id p)\<rparr> else c) (ld_challenges d)\<rparr>"
  using for_preparedD [OF assms(1) [unfolded consume_challenge_def] assms(2)] by simp

lemma consume_approval_effect:
  assumes "consume_approval p d = Inr (r, d1)" and "prepared p d = Some o'"
  shows "d1 = d\<lparr>ld_attempts := (if cd_purpose p = Exchange
    then List.map (\<lambda>a. if approval_matches p d a then consumed_attempt p o' a else a) (ld_attempts d) else ld_attempts d)\<rparr>"
  using for_preparedD [OF assms(1) [unfolded consume_approval_def] assms(2)] by (auto split: if_splits)

lemma update_binding_effect:
  assumes "update_binding p d = Inr (r, d1)" and "prepared p d = Some o'"
  shows "d1 = d\<lparr>ld_bindings := List.map (\<lambda>b. if active_binding p b then held_binding p o' b else b) (ld_bindings d)\<rparr>"
  using for_preparedD [OF assms(1) [unfolded update_binding_def] assms(2)] by (auto split: if_splits)

lemma update_device_effect:
  assumes "update_device p d = Inr (r, d1)" and "prepared p d = Some o'"
  shows "d1 = d\<lparr>ld_devices := List.map (\<lambda>v. if active_device p v then v\<lparr>dv_last_proof_at := op_committed_at o'\<rparr> else v) (ld_devices d)\<rparr>"
  using for_preparedD [OF assms(1) [unfolded update_device_def] assms(2)] by simp

lemma issue_lease_effect:
  assumes "issue_lease p d = Inr (r, d1)" and "prepared p d = Some o'"
  shows "d1 = d\<lparr>ld_leases := ld_leases d @ [lease_of p]\<rparr>"
  using for_preparedD [OF assms(1) [unfolded issue_lease_def] assms(2)] by (auto simp: insert_lease_def split: if_splits)

lemma audit_lease_effect:
  assumes "audit_lease p d = Inr (r, d1)" and "prepared p d = Some o'"
  shows "d1 = d\<lparr>ld_events := ld_events d @ [lease_event_of p (op_committed_at o')]\<rparr>"
  using for_preparedD [OF assms(1) [unfolded audit_lease_def] assms(2)] by (auto simp: insert_bound_event_def split: if_splits)


section \<open>The whole batch\<close>

lemma finalize_effect:
  assumes "finalize_lease p d = Inr (r, d1)" and "\<forall>q\<in>set os. op_invocation_id q \<noteq> cd_invocation_id p"
    and "ld_operations d = os @ [operation_of p t]"
  shows "d1 = d\<lparr>ld_operations := os @ [if chain_complete p (operation_of p t) d then committed_operation p t else operation_of p t]\<rparr>"
proof -
  have "List.map (\<lambda>o'. if op_invocation_id o' = cd_invocation_id p \<and> \<not> op_complete o' \<and> chain_complete p o' d
      then o'\<lparr>op_complete := True\<rparr> else o') os = os"
    using assms(2) by (simp add: list.map_ident_strong)
  with assms(1,3) show ?thesis by (auto simp: finalize_lease_def committed_operation_def operation_of_def)
qed

lemma assert_effect:
  assumes "assert_complete p d = Inr (r, d1)" and "\<forall>q\<in>set os. op_invocation_id q \<noteq> cd_invocation_id p"
    and "ld_operations d = os @ [q]" and "q = committed_operation p t \<or> q = operation_of p t"
  shows "q = committed_operation p t \<and> d1 = d\<lparr>ld_checks := ld_checks d @ [cd_invocation_id p]\<rparr> \<and> cd_invocation_id p \<notin> set (ld_checks d)"
proof -
  have "\<not> list_ex (operation_complete p) os" using assms(2) by (auto simp: list_ex_iff operation_complete_def)
  moreover have "\<not> operation_complete p (operation_of p t)" by (simp add: operation_complete_def operation_of_def)
  ultimately show ?thesis using assms(1,3,4) by (auto simp: assert_complete_def insert_check_def split: if_splits)
qed

text \<open>Without a prepared operation every statement up to the assertion does nothing.\<close>

lemma run_prefix:
  assumes "run_statements (paced ns (ss @ ts)) d = Inr (rs, d')" and "Q d"
    and "\<And>n d. Q d \<Longrightarrow> Q (later n d)" and "\<And>s d r d1. s \<in> set ss \<Longrightarrow> Q d \<Longrightarrow> s d = Inr (r, d1) \<Longrightarrow> Q d1"
  shows "\<exists>ns' d1 rs'. Q d1 \<and> run_statements (paced ns' ts) d1 = Inr (rs', d')"
  using assms
proof (induction ss arbitrary: ns d rs)
  case Nil
  then show ?case by auto
next
  case (Cons s ss)
  from Cons.prems(1) obtain n ns' r d1 rs' where "s (later n d) = Inr (r, d1)"
    and 1: "run_statements (paced ns' (ss @ ts)) d1 = Inr (rs', d')"
    by (auto elim: paced_step)
  moreover have "Q (later n d)" using Cons.prems(2,3) by blast
  ultimately have "Q d1" using Cons.prems(4) by (meson list.set_intros(1))
  show ?case
  proof (rule Cons.IH [OF 1 \<open>Q d1\<close> Cons.prems(3)])
    fix x d r d1
    assume "x \<in> set ss" "Q d" "x d = Inr (r, d1)"
    then show "Q d1" by (intro Cons.prems(4) [of x d r d1]) auto
  qed
qed

definition unprepared :: "signed_candidate \<Rightarrow> lease_db \<Rightarrow> bool" where
  "unprepared p d \<longleftrightarrow> (\<forall>q\<in>set (ld_operations d). op_invocation_id q \<noteq> cd_invocation_id p)"

lemma unprepared_none: "unprepared p d \<Longrightarrow> prepared p d = None"
  by (auto simp: unprepared_def prepared_def find_None_iff)

lemma for_prepared_none: "unprepared p d \<Longrightarrow> for_prepared p f d = Inr ([], d)"
  by (simp add: for_prepared_def unprepared_none)

lemma unadmitted_fails:
  assumes "run_statements (paced ns [stamp_trial p, create_device p, create_binding p, consume_challenge p, consume_approval p,
      update_binding p, update_device p, issue_lease p, audit_lease p, finalize_lease p, assert_complete p,
      remove_check (cd_invocation_id p), lease_result p]) d = Inr (rs, d')"
  shows "\<not> unprepared p d"
proof
  let ?ss = "[stamp_trial p, create_device p, create_binding p, consume_challenge p, consume_approval p,
      update_binding p, update_device p, issue_lease p, audit_lease p, finalize_lease p]"
  assume u: "unprepared p d"
  have "unprepared p d1" if "s \<in> set ?ss" "unprepared p d" "s d = Inr (r, d1)" for s d r d1
    using that
    by (auto simp: stamp_trial_def create_device_def create_binding_def consume_challenge_def consume_approval_def
        update_binding_def update_device_def issue_lease_def audit_lease_def for_prepared_none)
      (auto simp: finalize_lease_def unprepared_def)
  then have "\<exists>ns' d1 rs'. unprepared p d1
      \<and> run_statements (paced ns' [assert_complete p, remove_check (cd_invocation_id p), lease_result p]) d1 = Inr (rs', d')"
    using assms u by (intro run_prefix [of ns ?ss _ d rs d' "unprepared p"]) (simp_all add: unprepared_def later_def)
  then obtain n d1 r d2 where "unprepared p d1" "assert_complete p (later n d1) = Inr (r, d2)" by (auto elim: paced_step)
  then show False
    by (auto simp: later_def)
      (auto simp: assert_complete_def insert_check_def unprepared_def list_ex_iff operation_complete_def split: if_splits)
qed

lemma grant_after:
  assumes "lease_admitted p d" and "find_grant (ld_core d) (cd_key p) = Some g"
  shows "cd_trial_stamp p = (if g_is_trial g = 1 \<and> g_trial_started_at g = None then 1 else 0)"
    and "cd_trial_stamp p = 1 \<longrightarrow> cd_purpose p = Exchange \<and> ld_authority d (cd_key p) = cd_entitlement_revision p
       \<and> g_trial_device_key_id g = None"
  using assms by (auto simp: lease_admitted_def lease_bounds_def owned_def trial_open_def split: option.splits if_splits)

text \<open>The batch in five steps; between two of them the clock may have moved.\<close>

lemma two_steps:
  assumes "run_statements (paced ns (s1 # s2 # ss)) d = Inr (rs, d')"
    and "\<And>n r d1. s1 (later n d) = Inr (r, d1) \<Longrightarrow> Qa n d1"
    and "\<And>n d1 m r d2. Qa n d1 \<Longrightarrow> s2 (later m d1) = Inr (r, d2) \<Longrightarrow> Qb n m d2"
  obtains n m ns' d2 xs rs' where "Qb n m d2" "run_statements (paced ns' ss) d2 = Inr (rs', d')" "rs = xs @ rs'"
proof -
  from assms(1) obtain n ns1 r1 d1 rs1 where 1: "s1 (later n d) = Inr (r1, d1)"
    and rest: "run_statements (paced ns1 (s2 # ss)) d1 = Inr (rs1, d')" and rs: "rs = r1 # rs1" by (rule paced_step)
  from rest obtain m ns2 r2 d2 rs2 where 2: "s2 (later m d1) = Inr (r2, d2)"
    and "run_statements (paced ns2 ss) d2 = Inr (rs2, d')" "rs1 = r2 # rs2" by (rule paced_step)
  with assms(2) [OF 1] assms(3) that [of n m d2 ns2 rs2 "[r1, r2]"] rs show thesis by simp
qed

definition created :: "signed_candidate \<Rightarrow> int \<Rightarrow> lease_db \<Rightarrow> lease_db" where
  "created p t d = d\<lparr>
     ld_devices := ld_devices d @ (if cd_purpose p = Exchange \<and> find_device d (cd_device_id p) = None then [device_of p t] else []),
     ld_bindings := ld_bindings d @ (if cd_purpose p = Exchange \<and> find_binding d (cd_binding_id p) = None then [binding_of p t] else [])\<rparr>"

definition consumed :: "signed_candidate \<Rightarrow> int \<Rightarrow> int \<Rightarrow> int \<Rightarrow> lease_db \<Rightarrow> lease_db" where
  "consumed p t u v d = d\<lparr>
     ld_challenges := List.map (\<lambda>c. if challenge_matches p (at_time u d) c then c\<lparr>ch_consumed := Some (cd_invocation_id p)\<rparr> else c) (ld_challenges d),
     ld_attempts := (if cd_purpose p = Exchange
       then List.map (\<lambda>a. if approval_matches p (at_time v d) a then consumed_attempt p (operation_of p t) a else a) (ld_attempts d)
       else ld_attempts d)\<rparr>"

definition advanced_rows :: "signed_candidate \<Rightarrow> int \<Rightarrow> lease_db \<Rightarrow> lease_db" where
  "advanced_rows p t d = d\<lparr>
     ld_bindings := List.map (\<lambda>b. if active_binding p b then held_binding p (operation_of p t) b else b) (ld_bindings d),
     ld_devices := List.map (\<lambda>x. if active_device p x then x\<lparr>dv_last_proof_at := t\<rparr> else x) (ld_devices d)\<rparr>"

definition recorded :: "signed_candidate \<Rightarrow> int \<Rightarrow> lease_db \<Rightarrow> lease_db" where
  "recorded p t d = d\<lparr>ld_leases := ld_leases d @ [lease_of p], ld_events := ld_events d @ [lease_event_of p t]\<rparr>"

lemma operation_committed [simp]: "op_committed_at (operation_of p t) = t"
  by (simp add: operation_of_def)

lemmas moved = later_def at_time_def

lemma approval_matches_now: "ld_now d' = ld_now d \<Longrightarrow> approval_matches p d' = approval_matches p d"
  by (simp add: approval_matches_def fun_eq_iff cong: option.case_cong)

lemma challenge_matches_now: "ld_now d' = ld_now d \<Longrightarrow> challenge_matches p d' = challenge_matches p d"
  by (simp add: challenge_matches_def fun_eq_iff)

lemma create_steps:
  assumes "run_statements (paced ns (create_device p # create_binding p # ss)) d = Inr (rs, d')"
    and "prepared p d = Some (operation_of p t)"
  obtains m ns' xs rs' where "run_statements (paced ns' ss) (at_time m (created p t d)) = Inr (rs', d')" "ld_now d \<le> m" "rs = xs @ rs'"
  using assms(1)
proof (rule two_steps [where Qa = "\<lambda>n d1. d1 = (later n d)\<lparr>ld_devices := ld_devices d
      @ (if cd_purpose p = Exchange \<and> find_device d (cd_device_id p) = None then [device_of p t] else [])\<rparr>"
    and Qb = "\<lambda>n m d2. d2 = at_time (ld_now d + int n + int m) (created p t d)"])
  fix n r d1
  assume "create_device p (later n d) = Inr (r, d1)"
  from create_device_effect [OF this, unfolded prepared_time, OF assms(2)] show "d1 = (later n d)\<lparr>ld_devices := ld_devices d
      @ (if cd_purpose p = Exchange \<and> find_device d (cd_device_id p) = None then [device_of p t] else [])\<rparr>"
    by (simp add: moved find_device_def)
next
  fix n m r d1 d2
  assume d1: "d1 = (later n d)\<lparr>ld_devices := ld_devices d
      @ (if cd_purpose p = Exchange \<and> find_device d (cd_device_id p) = None then [device_of p t] else [])\<rparr>"
    and s: "create_binding p (later m d1) = Inr (r, d2)"
  have pr: "prepared p (later m d1) = Some (operation_of p t)"
    using assms(2) prepared_same [of "later m d1" d p] by (simp add: d1 later_def)
  from create_binding_effect [OF s pr] show "d2 = at_time (ld_now d + int n + int m) (created p t d)"
    by (simp add: d1 moved created_def find_binding_def prepared_def add.assoc)
qed (use that in auto)

lemma consume_steps:
  assumes "run_statements (paced ns (consume_challenge p # consume_approval p # ss)) d = Inr (rs, d')"
    and "prepared p d = Some (operation_of p t)"
  obtains u v ns' xs rs' where "run_statements (paced ns' ss) (at_time v (consumed p t u v d)) = Inr (rs', d')"
    "ld_now d \<le> u" "u \<le> v" "rs = xs @ rs'"
  using assms(1)
proof (rule two_steps [where Qa = "\<lambda>n d1. d1 = (later n d)\<lparr>ld_challenges :=
      List.map (\<lambda>c. if challenge_matches p (later n d) c then c\<lparr>ch_consumed := Some (cd_invocation_id p)\<rparr> else c) (ld_challenges d)\<rparr>"
    and Qb = "\<lambda>n m d2. d2 = at_time (ld_now d + int n + int m) (consumed p t (ld_now d + int n) (ld_now d + int n + int m) d)"])
  fix n r d1
  assume "consume_challenge p (later n d) = Inr (r, d1)"
  from consume_challenge_effect [OF this, unfolded prepared_time, OF assms(2)] show "d1 = (later n d)\<lparr>ld_challenges :=
      List.map (\<lambda>c. if challenge_matches p (later n d) c then c\<lparr>ch_consumed := Some (cd_invocation_id p)\<rparr> else c) (ld_challenges d)\<rparr>"
    by (simp add: later_def)
next
  fix n m r d1 d2
  assume d1: "d1 = (later n d)\<lparr>ld_challenges :=
      List.map (\<lambda>c. if challenge_matches p (later n d) c then c\<lparr>ch_consumed := Some (cd_invocation_id p)\<rparr> else c) (ld_challenges d)\<rparr>"
    and s: "consume_approval p (later m d1) = Inr (r, d2)"
  have pr: "prepared p (later m d1) = Some (operation_of p t)"
    using assms(2) prepared_same [of "later m d1" d p] by (simp add: d1 later_def)
  have "approval_matches p (later m d1) = approval_matches p (at_time (ld_now d + int n + int m) d)"
    and "challenge_matches p (later n d) = challenge_matches p (at_time (ld_now d + int n) d)"
    by (rule approval_matches_now challenge_matches_now; simp add: d1 moved)+
  with consume_approval_effect [OF s pr]
  show "d2 = at_time (ld_now d + int n + int m) (consumed p t (ld_now d + int n) (ld_now d + int n + int m) d)"
    by (simp add: d1 moved consumed_def prepared_def add.assoc)
qed (use that in auto)

lemma advance_steps:
  assumes "run_statements (paced ns (update_binding p # update_device p # ss)) d = Inr (rs, d')"
    and "prepared p d = Some (operation_of p t)"
  obtains m ns' xs rs' where "run_statements (paced ns' ss) (at_time m (advanced_rows p t d)) = Inr (rs', d')" "ld_now d \<le> m" "rs = xs @ rs'"
  using assms(1)
proof (rule two_steps [where Qa = "\<lambda>n d1. d1 = (later n d)\<lparr>ld_bindings :=
      List.map (\<lambda>b. if active_binding p b then held_binding p (operation_of p t) b else b) (ld_bindings d)\<rparr>"
    and Qb = "\<lambda>n m d2. d2 = at_time (ld_now d + int n + int m) (advanced_rows p t d)"])
  fix n r d1
  assume "update_binding p (later n d) = Inr (r, d1)"
  from update_binding_effect [OF this, unfolded prepared_time, OF assms(2)] show "d1 = (later n d)\<lparr>ld_bindings :=
      List.map (\<lambda>b. if active_binding p b then held_binding p (operation_of p t) b else b) (ld_bindings d)\<rparr>"
    by (simp add: later_def)
next
  fix n m r d1 d2
  assume d1: "d1 = (later n d)\<lparr>ld_bindings :=
      List.map (\<lambda>b. if active_binding p b then held_binding p (operation_of p t) b else b) (ld_bindings d)\<rparr>"
    and s: "update_device p (later m d1) = Inr (r, d2)"
  have pr: "prepared p (later m d1) = Some (operation_of p t)"
    using assms(2) prepared_same [of "later m d1" d p] by (simp add: d1 later_def)
  from update_device_effect [OF s pr] show "d2 = at_time (ld_now d + int n + int m) (advanced_rows p t d)"
    by (simp add: d1 moved advanced_rows_def prepared_def add.assoc)
qed (use that in auto)

lemma record_steps:
  assumes "run_statements (paced ns (issue_lease p # audit_lease p # ss)) d = Inr (rs, d')"
    and "prepared p d = Some (operation_of p t)"
  obtains m ns' xs rs' where "run_statements (paced ns' ss) (at_time m (recorded p t d)) = Inr (rs', d')" "ld_now d \<le> m" "rs = xs @ rs'"
  using assms(1)
proof (rule two_steps [where Qa = "\<lambda>n d1. d1 = (later n d)\<lparr>ld_leases := ld_leases d @ [lease_of p]\<rparr>"
    and Qb = "\<lambda>n m d2. d2 = at_time (ld_now d + int n + int m) (recorded p t d)"])
  fix n r d1
  assume "issue_lease p (later n d) = Inr (r, d1)"
  from issue_lease_effect [OF this, unfolded prepared_time, OF assms(2)] show "d1 = (later n d)\<lparr>ld_leases := ld_leases d @ [lease_of p]\<rparr>"
    by (simp add: later_def)
next
  fix n m r d1 d2
  assume d1: "d1 = (later n d)\<lparr>ld_leases := ld_leases d @ [lease_of p]\<rparr>" and s: "audit_lease p (later m d1) = Inr (r, d2)"
  have pr: "prepared p (later m d1) = Some (operation_of p t)"
    using assms(2) prepared_same [of "later m d1" d p] by (simp add: d1 later_def)
  from audit_lease_effect [OF s pr] show "d2 = at_time (ld_now d + int n + int m) (recorded p t d)"
    by (simp add: d1 moved recorded_def prepared_def add.assoc)
qed (use that in auto)

text \<open>The last four statements finish a complete operation, and fail for any other.\<close>

lemma end_steps:
  assumes run: "run_statements (paced ns [finalize_lease p, assert_complete p, remove_check (cd_invocation_id p), lease_result p]) d = Inr (rs, d')"
    and os: "\<forall>q\<in>set os. op_invocation_id q \<noteq> cd_invocation_id p" and o: "ld_operations d = os @ [operation_of p t]"
  shows "\<exists>m m'. ld_now d \<le> m \<and> m \<le> m' \<and> chain_complete p (operation_of p t) (at_time m d)
    \<and> d' = (at_time m' d)\<lparr>ld_operations := os @ [committed_operation p t]\<rparr> \<and> rs \<noteq> [] \<and> last rs = [AnswerOut (LeaseAnswer (cd_response p))]"
proof -
  from run obtain n1 ns1 r1 d1 rs1 where 1: "finalize_lease p (later n1 d) = Inr (r1, d1)"
    and rest: "run_statements (paced ns1 [assert_complete p, remove_check (cd_invocation_id p), lease_result p]) d1 = Inr (rs1, d')"
    and rs: "rs = r1 # rs1" by (rule paced_step)
  from rest obtain n2 ns2 r2 d2 rs2 where 2: "assert_complete p (later n2 d1) = Inr (r2, d2)"
    and rest: "run_statements (paced ns2 [remove_check (cd_invocation_id p), lease_result p]) d2 = Inr (rs2, d')"
    and rs1: "rs1 = r2 # rs2" by (rule paced_step)
  from rest obtain n3 ns3 r3 d3 rs3 where 3: "remove_check (cd_invocation_id p) (later n3 d2) = Inr (r3, d3)"
    and rest: "run_statements (paced ns3 [lease_result p]) d3 = Inr (rs3, d')" and rs2: "rs2 = r3 # rs3" by (rule paced_step)
  from rest obtain n4 ns4 r4 d4 rs4 where 4: "lease_result p (later n4 d3) = Inr (r4, d4)"
    and rest: "run_statements (paced ns4 []) d4 = Inr (rs4, d')" and rs3: "rs3 = r4 # rs4" by (rule paced_step)
  let ?q = "if chain_complete p (operation_of p t) (later n1 d) then committed_operation p t else operation_of p t"
  have d1: "d1 = (later n1 d)\<lparr>ld_operations := os @ [?q]\<rparr>" using finalize_effect [OF 1 os] o by (simp add: later_def)
  from assert_effect [OF 2 os, of ?q t] have q: "?q = committed_operation p t"
    and d2: "d2 = (later n2 d1)\<lparr>ld_checks := ld_checks d @ [cd_invocation_id p]\<rparr>" and i: "cd_invocation_id p \<notin> set (ld_checks d)"
    by (auto simp: d1 later_def)
  have d1: "d1 = (later n1 d)\<lparr>ld_operations := os @ [committed_operation p t]\<rparr>" unfolding d1 q by simp
  have chain: "chain_complete p (operation_of p t) (later n1 d)"
    using q by (auto simp: committed_operation_def operation_of_def split: if_splits)
  have d3: "d3 = (later n3 d2)\<lparr>ld_checks := ld_checks d\<rparr>"
  proof -
    have "filter (\<lambda>j. j \<noteq> cd_invocation_id p) (ld_checks d) = ld_checks d" using i by (auto simp: filter_id_conv)
    with 3 i show ?thesis by (simp add: remove_check_def d2 later_def)
  qed
  have d4: "d4 = later n4 d3" using 4 by (simp add: lease_result_def)
  have d': "d' = (at_time (ld_now d + int n1 + int n2 + int n3 + int n4) d)\<lparr>ld_operations := os @ [committed_operation p t]\<rparr>"
    using rest by (auto simp: paced_end d4 d3 d2 d1 moved add.assoc intro: lease_db.equality)
  have "find (\<lambda>o'. op_invocation_id o' = cd_invocation_id p \<and> op_complete o') (os @ [committed_operation p t]) = Some (committed_operation p t)"
    using os by (auto simp: find_snoc committed_operation_def operation_of_def find_None_iff split: option.split dest: find_Some_iff [THEN iffD1])
  then have "r4 = [AnswerOut (LeaseAnswer (cd_response p))]"
    using 4 by (simp add: lease_result_def d3 d2 d1 later_def)
      (simp add: committed_operation_def operation_of_def)
  then have "rs \<noteq> [] \<and> last rs = [AnswerOut (LeaseAnswer (cd_response p))]" using rest by (simp add: rs rs1 rs2 rs3 paced_end)
  with chain d' show ?thesis
    by (intro exI [of _ "ld_now d + int n1"] exI [of _ "ld_now d + int n1 + int n2 + int n3 + int n4"]) (simp add: moved)
qed


lemma chain_complete_same:
  assumes "ld_core x = ld_core y" "ld_authority x = ld_authority y" "ld_accounts x = ld_accounts y" "ld_devices x = ld_devices y"
    "ld_bindings x = ld_bindings y" "ld_leases x = ld_leases y" "ld_events x = ld_events y" "ld_challenges x = ld_challenges y"
    "ld_attempts x = ld_attempts y" "ld_now x = ld_now y"
  shows "chain_complete p o' x = chain_complete p o' y"
proof -
  have "owned r b p x = owned r b p y" for r b by (rule ext) (simp only: owned_def assms)
  moreover have "lease_matches p x = lease_matches p y" by (rule ext) (simp only: lease_matches_def assms)
  moreover have "challenge_spent p x = challenge_spent p y" by (rule ext) (simp only: challenge_spent_def assms)
  moreover have "approval_spent p x = approval_spent p y" by (rule ext) (simp only: approval_spent_def assms)
  moreover have "owner_current p x = owner_current p y" by (simp only: owner_current_def find_account_def assms)
  ultimately show ?thesis by (simp only: chain_complete_def assms)
qed

definition stamped :: "signed_candidate \<Rightarrow> int \<Rightarrow> int \<Rightarrow> db \<Rightarrow> lease_db \<Rightarrow> lease_db" where
  "stamped p t m c d = (at_time m d)\<lparr>ld_operations := ld_operations d @ [operation_of p t], ld_core := c,
     ld_authority := (ld_authority d)(cd_key p := ld_authority d (cd_key p) + cd_trial_stamp p)\<rparr>"

lemma admit_steps:
  assumes run: "run_statements (paced ns (bound_lease_commit_sql p)) d = Inr (rs, d')" and fresh: "unprepared p d"
  obtains t m c g ns' xs rs' where "lease_admitted p (at_time t d)" "ld_now d \<le> t" "t \<le> m"
    "find_grant (ld_core d) (cd_key p) = Some g" "find_grant c = (find_grant (ld_core d))(cd_key p \<mapsto> trial_stamped p t g)"
    "\<forall>x. ld_operations x = ld_operations d @ [operation_of p t] \<longrightarrow> prepared p x = Some (operation_of p t)"
    "run_statements (paced ns' [create_device p, create_binding p, consume_challenge p, consume_approval p,
      update_binding p, update_device p, issue_lease p, audit_lease p, finalize_lease p, assert_complete p,
      remove_check (cd_invocation_id p), lease_result p]) (stamped p t m c d) = Inr (rs', d')" "rs = xs @ rs'"
proof -
  from run [unfolded bound_lease_commit_sql_def] obtain n ns' r d1 rs1 where g: "lease_guard p (later n d) = Inr (r, d1)"
    and rest: "run_statements (paced ns' [stamp_trial p, create_device p, create_binding p, consume_challenge p, consume_approval p,
      update_binding p, update_device p, issue_lease p, audit_lease p, finalize_lease p, assert_complete p,
      remove_check (cd_invocation_id p), lease_result p]) d1 = Inr (rs1, d')" and rs: "rs = r # rs1"
    by (rule paced_step)
  define t where "t = ld_now d + int n"
  have os: "\<forall>q\<in>set (ld_operations d). op_invocation_id q \<noteq> cd_invocation_id p" using fresh by (simp add: unprepared_def)
  then have os': "\<forall>q\<in>set (ld_operations (later n d)). op_invocation_id q \<noteq> cd_invocation_id p" by (simp add: later_def)
  have "d1 \<noteq> later n d" using unadmitted_fails [OF rest] os' by (auto simp: unprepared_def)
  with guard_cases [OF g os'] have ad: "lease_admitted p (at_time t d)"
    and d1: "d1 = (at_time t d)\<lparr>ld_operations := ld_operations d @ [operation_of p t]\<rparr>" and p1: "prepared p d1 = Some (operation_of p t)"
    by (auto simp: moved t_def)
  have prep: "prepared p x = Some (operation_of p t)" if "ld_operations x = ld_operations d @ [operation_of p t]" for x
    using prepared_same [of x d1 p] that p1 by (simp add: d1)
  from ad obtain gr where gr: "find_grant (ld_core (at_time t d)) (cd_key p) = Some gr"
    by (auto simp: lease_admitted_def split: option.splits)
  from rest obtain n1 ns1 r1 d2 rs2 where s1: "stamp_trial p (later n1 d1) = Inr (r1, d2)"
    and rest: "run_statements (paced ns1 [create_device p, create_binding p, consume_challenge p, consume_approval p,
      update_binding p, update_device p, issue_lease p, audit_lease p, finalize_lease p, assert_complete p,
      remove_check (cd_invocation_id p), lease_result p]) d2 = Inr (rs2, d')" and rs1: "rs1 = r1 # rs2"
    by (rule paced_step)
  obtain c where c: "find_grant c = (find_grant (ld_core d))(cd_key p \<mapsto> trial_stamped p t gr)"
    and d2: "d2 = (later n1 d1)\<lparr>ld_core := c, ld_authority := (ld_authority d)(cd_key p := ld_authority d (cd_key p) + cd_trial_stamp p)\<rparr>"
    using stamp_cases [OF s1 prep, of gr] gr grant_after [OF ad gr] by (auto simp: d1 moved)
  have d2: "d2 = stamped p t (t + int n1) c d" by (simp add: d2 d1 moved stamped_def)
  show thesis
    by (rule that [OF ad _ _ _ c _ rest [unfolded d2], of "[r, r1]"]) (use gr prep in \<open>simp_all add: t_def rs rs1\<close>)
qed

theorem lease_batch_effect:
  assumes run: "run_statements (paced ns (bound_lease_commit_sql p)) d = Inr (rs, d')" and fresh: "unprepared p d"
  shows "lease_effect p d d' \<and> answer_in rs = Some (LeaseAnswer (cd_response p))"
proof -
  from run fresh obtain t m c gr ns2 xs2 rs2 where ad: "lease_admitted p (at_time t d)" and tm: "ld_now d \<le> t" "t \<le> m"
    and gr: "find_grant (ld_core d) (cd_key p) = Some gr" and c: "find_grant c = (find_grant (ld_core d))(cd_key p \<mapsto> trial_stamped p t gr)"
    and prepares: "\<forall>x. ld_operations x = ld_operations d @ [operation_of p t] \<longrightarrow> prepared p x = Some (operation_of p t)"
    and rest: "run_statements (paced ns2 [create_device p, create_binding p, consume_challenge p, consume_approval p,
      update_binding p, update_device p, issue_lease p, audit_lease p, finalize_lease p, assert_complete p,
      remove_check (cd_invocation_id p), lease_result p]) (stamped p t m c d) = Inr (rs2, d')" and rs: "rs = xs2 @ rs2"
    by (rule admit_steps)
  note prep = prepares [rule_format]
  define d2 where "d2 = stamped p t m c d"
  have os: "\<forall>q\<in>set (ld_operations d). op_invocation_id q \<noteq> cd_invocation_id p" using fresh by (simp add: unprepared_def)
  have "ld_operations d2 = ld_operations d @ [operation_of p t]" by (simp add: d2_def stamped_def)
  from rest [folded d2_def] prep [OF this] obtain m3 ns3 xs3 rs3 where rest: "run_statements (paced ns3 [consume_challenge p, consume_approval p,
      update_binding p, update_device p, issue_lease p, audit_lease p, finalize_lease p, assert_complete p,
      remove_check (cd_invocation_id p), lease_result p]) (at_time m3 (created p t d2)) = Inr (rs3, d')"
    and m3: "ld_now d2 \<le> m3" and rs2: "rs2 = xs3 @ rs3"
    by (rule create_steps)
  define d3 where "d3 = at_time m3 (created p t d2)"
  have "ld_operations d3 = ld_operations d @ [operation_of p t]" by (simp add: d3_def d2_def stamped_def moved created_def)
  from rest [folded d3_def] prep [OF this] obtain u v ns4 xs4 rs4 where rest: "run_statements (paced ns4 [update_binding p,
      update_device p, issue_lease p, audit_lease p, finalize_lease p, assert_complete p,
      remove_check (cd_invocation_id p), lease_result p]) (at_time v (consumed p t u v d3)) = Inr (rs4, d')"
    and u: "ld_now d3 \<le> u" "u \<le> v" and rs3: "rs3 = xs4 @ rs4"
    by (rule consume_steps)
  define d4 where "d4 = at_time v (consumed p t u v d3)"
  have "ld_operations d4 = ld_operations d @ [operation_of p t]" by (simp add: d4_def d3_def d2_def stamped_def moved created_def consumed_def)
  from rest [folded d4_def] prep [OF this] obtain m5 ns5 xs5 rs5 where rest: "run_statements (paced ns5 [issue_lease p, audit_lease p,
      finalize_lease p, assert_complete p, remove_check (cd_invocation_id p), lease_result p]) (at_time m5 (advanced_rows p t d4)) = Inr (rs5, d')"
    and m5: "ld_now d4 \<le> m5" and rs4: "rs4 = xs5 @ rs5"
    by (rule advance_steps)
  define d5 where "d5 = at_time m5 (advanced_rows p t d4)"
  have "ld_operations d5 = ld_operations d @ [operation_of p t]"
    by (simp add: d5_def d4_def d3_def d2_def stamped_def moved created_def consumed_def advanced_rows_def)
  from rest [folded d5_def] prep [OF this] obtain m6 ns6 xs6 rs6 where rest: "run_statements (paced ns6 [finalize_lease p, assert_complete p,
      remove_check (cd_invocation_id p), lease_result p]) (at_time m6 (recorded p t d5)) = Inr (rs6, d')"
    and m6: "ld_now d5 \<le> m6" and rs5: "rs5 = xs6 @ rs6"
    by (rule record_steps)
  define d6 where "d6 = at_time m6 (recorded p t d5)"
  have "ld_operations d6 = ld_operations d @ [operation_of p t]"
    by (simp add: d6_def d5_def d4_def d3_def d2_def stamped_def moved created_def consumed_def advanced_rows_def recorded_def)
  from end_steps [OF rest [folded d6_def] os this] obtain m k m' where m: "m6 \<le> k" "k \<le> m'"
    and chain: "chain_complete p (operation_of p t) (at_time k d6)"
    and d': "d' = (at_time m' d6)\<lparr>ld_operations := ld_operations d @ [committed_operation p t]\<rparr>"
    and last: "rs6 \<noteq> []" "last rs6 = [AnswerOut (LeaseAnswer (cd_response p))]"
    by (auto simp: d6_def at_time_def)
  note defs = d6_def d5_def d4_def d3_def d2_def stamped_def moved created_def consumed_def advanced_rows_def recorded_def
  have "chain_complete p (operation_of p t) (at_time k d')"
    using chain chain_complete_same [of "at_time k d'" "at_time k d6"] by (simp add: d' at_time_def)
  moreover have "ld_now d \<le> t" "t \<le> u" "u \<le> v" "v \<le> k" "k \<le> ld_now d'"
    using tm m3 u m5 m6 m by (simp_all add: defs d')
  moreover have answer: "answer_in rs = Some (LeaseAnswer (cd_response p))"
    using last by (simp add: answer_in_def batch_returned_row_def rs rs2 rs3 rs4 rs5)
  moreover have "challenge_matches p (at_time u d3) = challenge_matches p (at_time u d)"
    and "approval_matches p (at_time v d3) = approval_matches p (at_time v d)"
    by (rule challenge_matches_now approval_matches_now; simp)+
  note same = this
  have f3: "ld_core d3 = c" "ld_authority d3 = (ld_authority d)(cd_key p := ld_authority d (cd_key p) + cd_trial_stamp p)"
    "ld_accounts d3 = ld_accounts d" "ld_checks d3 = ld_checks d" "ld_denials d3 = ld_denials d" "ld_counters d3 = ld_counters d"
    "ld_leases d3 = ld_leases d" "ld_events d3 = ld_events d" "ld_challenges d3 = ld_challenges d" "ld_attempts d3 = ld_attempts d"
    "ld_devices d3 = ld_devices d @ (if cd_purpose p = Exchange \<and> find_device d (cd_device_id p) = None then [device_of p t] else [])"
    "ld_bindings d3 = ld_bindings d @ (if cd_purpose p = Exchange \<and> find_binding d (cd_binding_id p) = None then [binding_of p t] else [])"
    by (simp_all add: d3_def created_def d2_def stamped_def find_device_def find_binding_def)
  ultimately have "lease_effect_at p t u v k gr d d'"
    unfolding lease_effect_at_def using ad c gr
    by (simp add: d' d6_def d5_def d4_def consumed_def advanced_rows_def recorded_def same f3)
  with answer show ?thesis unfolding lease_effect_def by blast
qed


text \<open>When every operation of the table is complete, an invocation that is not fresh changes nothing but the time.\<close>

lemma stale_invocation:
  assumes run: "run_statements (paced ns (bound_lease_commit_sql p)) d = Inr (rs, d')" and "\<not> unprepared p d"
    and complete: "\<forall>q\<in>set (ld_operations d). op_complete q"
  shows "\<exists>m. ld_now d \<le> m \<and> d' = at_time m d"
proof -
  define Q where "Q x \<longleftrightarrow> (\<exists>m. ld_now d \<le> m \<and> x = at_time m d)" for x
  let ?ss = "[lease_guard p, stamp_trial p, create_device p, create_binding p, consume_challenge p, consume_approval p,
      update_binding p, update_device p, issue_lease p, audit_lease p, finalize_lease p]"
  have Q: "Q x" if "s \<in> set ?ss" "Q y" "s y = Inr (r, x)" for s y r x
  proof -
    from that(2) have o: "ld_operations y = ld_operations d" by (auto simp: Q_def)
    have "prepared p y = None" unfolding prepared_def find_None_iff o using complete by blast
    then have idle: "for_prepared p f y = Inr ([], y)" for f by (simp add: for_prepared_def)
    have "\<not> (\<forall>q\<in>set (ld_operations y). op_invocation_id q \<noteq> cd_invocation_id p)" using assms(2) o by (simp add: unprepared_def)
    then have g: "lease_guard p y = Inr (r, x) \<Longrightarrow> x = y"
      by (auto simp: lease_guard_def insert_operation_def operation_of_def list_ex_iff split: if_splits)
    have f: "List.map (\<lambda>o'. if op_invocation_id o' = cd_invocation_id p \<and> \<not> op_complete o' \<and> chain_complete p o' y
        then o'\<lparr>op_complete := True\<rparr> else o') (ld_operations y) = ld_operations y"
      using complete unfolding o by (simp add: list.map_ident_strong)
    have fin: "finalize_lease p y = Inr ([], y)" unfolding finalize_lease_def f by simp
    have "s y = Inr ([], y)" if "s \<noteq> lease_guard p"
      using that \<open>s \<in> set ?ss\<close> idle fin
      by (auto simp only: stamp_trial_def create_device_def create_binding_def consume_challenge_def consume_approval_def
          update_binding_def update_device_def issue_lease_def audit_lease_def set_simps insert_iff empty_iff simp_thms)
    with that(3) g have "x = y" by (cases "s = lease_guard p") auto
    with that(2) show ?thesis by simp
  qed
  have "Q d" unfolding Q_def by (intro exI [of _ "ld_now d"]) (simp add: at_time_def)
  moreover have "Q (later n x)" if "Q x" for n x using that unfolding Q_def by (elim exE conjE, intro exI [of _ "ld_now x + int n"]) (simp add: moved)
  moreover have "run_statements (paced ns (?ss @ [assert_complete p, remove_check (cd_invocation_id p), lease_result p])) d = Inr (rs, d')"
    using run by (simp only: bound_lease_commit_sql_def append.simps)
  ultimately obtain ns' d1 rs' where d1: "Q d1"
    and tail: "run_statements (paced ns' [assert_complete p, remove_check (cd_invocation_id p), lease_result p]) d1 = Inr (rs', d')"
    using run_prefix [of ns ?ss "[assert_complete p, remove_check (cd_invocation_id p), lease_result p]" d rs d' Q] Q by blast
  from tail obtain n1 r1 d2 ns2 rs2 where 1: "assert_complete p (later n1 d1) = Inr (r1, d2)"
    and rest: "run_statements (paced ns2 [remove_check (cd_invocation_id p), lease_result p]) d2 = Inr (rs2, d')" by (auto elim: paced_step)
  from rest obtain n2 r2 d3 ns3 rs3 where 2: "remove_check (cd_invocation_id p) (later n2 d2) = Inr (r2, d3)"
    and rest: "run_statements (paced ns3 [lease_result p]) d3 = Inr (rs3, d')" by (auto elim: paced_step)
  from rest obtain n3 r3 d4 ns4 rs4 where 3: "lease_result p (later n3 d3) = Inr (r3, d4)"
    and "run_statements (paced ns4 []) d4 = Inr (rs4, d')" by (auto elim: paced_step)
  then have "d' = later n3 d3" by (simp add: paced_end lease_result_def)
  moreover have "d3 = (later (n1 + n2) d1)"
    using 1 2 by (auto simp: assert_complete_def insert_check_def remove_check_def later_def filter_id_conv split: if_splits
        intro!: lease_db.equality)
  moreover obtain m where "ld_now d \<le> m" "d1 = at_time m d" using d1 by (auto simp: Q_def)
  ultimately show ?thesis by (intro exI [of _ "m + int (n1 + n2) + int n3"]) (simp add: moved)
qed

end
