(* ===== verification/Lease_Capacity.thy ===== *)
theory Lease_Capacity
  imports Lease_Effect
begin

text \<open>
  What every step on the lease tables keeps: the devices that hold a place of a grant are never more than
  the grant allows, a binding's hold covers every lease issued for it, and what was decided stays decided.
\<close>

section \<open>Invariant and progress\<close>

definition lease_held :: "lease_db \<Rightarrow> bound_lease \<Rightarrow> bool" where
  "lease_held d l \<longleftrightarrow> (\<exists>b. find_binding d (le_binding_id l) = Some b \<and> le_accept_until l \<le> bi_hold_until b
     \<and> le_generation l \<le> bi_generation b)"

definition operation_key :: "bound_operation \<Rightarrow> string \<times> lease_purpose \<times> string" where
  "operation_key q = (op_key_id q, op_purpose q, op_operation_id q)"

definition leases_ok :: "lease_db \<Rightarrow> bool" where
  "leases_ok d \<longleftrightarrow> distinct (List.map bi_id (ld_bindings d))
     \<and> (\<forall>k g. find_grant (ld_core d) k = Some g \<longrightarrow> int (occupied d k) \<le> g_max_active_devices g)
     \<and> (\<forall>l\<in>set (ld_leases d). lease_held d l)
     \<and> (\<forall>b\<in>set (ld_bindings d). bi_state b = Released \<longrightarrow> bi_hold_until b \<le> ld_now d)
     \<and> (\<forall>q\<in>set (ld_operations d). op_complete q) \<and> distinct (List.map op_invocation_id (ld_operations d))
     \<and> distinct (List.map operation_key (ld_operations d))"

definition binding_later :: "bound_binding \<Rightarrow> bound_binding \<Rightarrow> bool" where
  "binding_later b b' \<longleftrightarrow> bi_key b' = bi_key b \<and> bi_device_id b' = bi_device_id b \<and> bi_hold_until b \<le> bi_hold_until b'
     \<and> bi_generation b \<le> bi_generation b' \<and> bi_revision b \<le> bi_revision b'
     \<and> (bi_state b \<noteq> Active \<longrightarrow> bi_state b' \<noteq> Active \<and> bi_hold_until b' = bi_hold_until b \<and> bi_generation b' = bi_generation b)"

text \<open>An operation stays as it was committed, until its answer is erased once it is no longer retained.\<close>

definition operation_later :: "int \<Rightarrow> bound_operation \<Rightarrow> bound_operation \<Rightarrow> bool" where
  "operation_later t q q' \<longleftrightarrow> q' = q \<or> (q' = q\<lparr>op_response := Erased\<rparr> \<and> op_retain_until q \<le> t)"

definition lease_forward :: "lease_db \<Rightarrow> lease_db \<Rightarrow> bool" where
  "lease_forward d d' \<longleftrightarrow> ld_now d \<le> ld_now d'
     \<and> (\<forall>i b. find_binding d i = Some b \<longrightarrow> (\<exists>b'. find_binding d' i = Some b' \<and> binding_later b b'))
     \<and> (\<forall>q\<in>set (ld_operations d). \<exists>q'\<in>set (ld_operations d'). operation_later (ld_now d') q q')
     \<and> (\<forall>l\<in>set (ld_leases d). l \<in> set (ld_leases d') \<or> le_accept_until l \<le> ld_now d')"

definition lease_progress :: "lease_db \<Rightarrow> lease_db \<Rightarrow> bool" where
  "lease_progress d d' \<longleftrightarrow> (leases_ok d \<longrightarrow> leases_ok d' \<and> lease_forward d d')"

lemma binding_later_refl [simp]: "binding_later b b"
  by (simp add: binding_later_def)

lemma binding_later_trans: "binding_later b b' \<Longrightarrow> binding_later b' b'' \<Longrightarrow> binding_later b b''"
  by (auto simp: binding_later_def)

lemma operation_later_trans: "operation_later t q q' \<Longrightarrow> t \<le> t' \<Longrightarrow> operation_later t' q' q'' \<Longrightarrow> operation_later t' q q''"
  by (auto simp: operation_later_def)

lemma lease_forward_refl: "lease_forward d d"
  by (auto simp: lease_forward_def operation_later_def)

lemma lease_forward_trans:
  assumes "lease_forward d d'" and "lease_forward d' d''"
  shows "lease_forward d d''"
proof -
  have b: "\<exists>b''. find_binding d'' i = Some b'' \<and> binding_later b b''" if "find_binding d i = Some b" for i b
    using assms that binding_later_trans unfolding lease_forward_def by meson
  have q: "\<exists>q''\<in>set (ld_operations d''). operation_later (ld_now d'') q q''" if "q \<in> set (ld_operations d)" for q
    using assms that operation_later_trans unfolding lease_forward_def by meson
  have "ld_now d' \<le> ld_now d''" using assms by (simp add: lease_forward_def)
  then have "l \<in> set (ld_leases d'') \<or> le_accept_until l \<le> ld_now d''" if "l \<in> set (ld_leases d)" for l
    using assms that unfolding lease_forward_def by (meson order_trans)
  with b q assms show ?thesis by (simp add: lease_forward_def)
qed

interpretation leases: guarantee lease_progress
proof unfold_locales
  show "lease_progress d d" for d by (simp add: lease_progress_def lease_forward_refl)
  show "lease_progress d d' \<Longrightarrow> lease_progress d' d'' \<Longrightarrow> lease_progress d d''" for d d' d''
    unfolding lease_progress_def using lease_forward_trans by blast
qed

lemma lease_progressI: "(leases_ok d \<Longrightarrow> leases_ok d' \<and> lease_forward d d') \<Longrightarrow> lease_progress d d'"
  by (simp add: lease_progress_def)

lemma appended_operations: "ld_operations d' = ld_operations d @ qs \<Longrightarrow>
    \<forall>q\<in>set (ld_operations d). \<exists>q'\<in>set (ld_operations d'). operation_later t q q'"
  by (auto simp: operation_later_def)

lemma operation_key_iff: "operation_key q = operation_key r \<longleftrightarrow>
    op_key_id q = op_key_id r \<and> op_purpose q = op_purpose r \<and> op_operation_id q = op_operation_id r"
  by (simp add: operation_key_def)

section \<open>The time\<close>

lemma occupies_later: "occupies t' b \<Longrightarrow> t \<le> t' \<Longrightarrow> occupies t b"
  by (auto simp: occupies_def)

lemma count_mono: "(\<And>x. x \<in> set xs \<Longrightarrow> P x \<Longrightarrow> Q x) \<Longrightarrow> length (filter P xs) \<le> length (filter Q xs)"
proof (induction xs)
  case (Cons x xs)
  then have "length (filter P xs) \<le> length (filter Q xs)" by simp
  with Cons.prems [of x] show ?case by auto
qed simp

lemma occupied_later: "ld_bindings d' = ld_bindings d \<Longrightarrow> ld_now d \<le> ld_now d' \<Longrightarrow> occupied d' k \<le> occupied d k"
  unfolding occupied_def by (auto intro!: count_mono dest: occupies_later)

lemma capacity_kept: "leases_ok d \<Longrightarrow> find_grant (ld_core d) k = Some g \<Longrightarrow> int (occupied d k) \<le> g_max_active_devices g"
  unfolding leases_ok_def by blast

lemma capacity_later:
  assumes "leases_ok d" and "find_grant (ld_core d) k = Some g" and "ld_now d \<le> t"
  shows "int (occupied (at_time t d) k) \<le> g_max_active_devices g"
  using capacity_kept [OF assms(1,2)] occupied_later [of "at_time t d" d k] assms(3) by simp

lemma time_progress: "ld_now d \<le> t \<Longrightarrow> lease_progress d (at_time t d)"
proof -
  assume t: "ld_now d \<le> t"
  have "leases_ok (at_time t d)" if ok: "leases_ok d"
  proof -
    note capacity_later [OF ok _ t]
    with ok t show ?thesis by (auto simp: leases_ok_def lease_held_def find_binding_def)
  qed
  with t show ?thesis by (auto simp: lease_progress_def lease_forward_def find_binding_def operation_later_def)
qed

section \<open>A lease\<close>

lemma find_map_later:
  assumes "\<And>b. bi_id (f b) = bi_id b" and "\<And>b. binding_later b (f b)" and "find (\<lambda>b. bi_id b = i) bs = Some b"
  shows "find (\<lambda>b. bi_id b = i) (List.map f bs @ cs) = Some (f b)"
  using assms(3) by (induction bs) (auto simp: assms(1) split: if_splits)

lemma effect_bindings_later:
  assumes "lease_effect_at p t u v f g d d'" and "find_binding d i = Some b"
  shows "\<exists>b'. find_binding d' i = Some b' \<and> binding_later b b'"
proof -
  let ?h = "\<lambda>b. if active_binding p b then held_binding p (operation_of p t) b else b"
  have h: "bi_id (?h b) = bi_id b" "binding_later b (?h b)" for b
    by (auto simp: held_binding_def binding_later_def active_binding_def)
  from assms have "find_binding d' i = Some (?h b)"
    using find_map_later [of ?h, OF h] unfolding lease_effect_at_def find_binding_def by (simp del: List.map_append add: map_append)
  with h show ?thesis by blast
qed

lemma effect_occupied:
  assumes e: "lease_effect_at p t u v f g d d'" and ok: "leases_ok d" and g': "find_grant (ld_core d') k = Some g'"
  shows "int (occupied d' k) \<le> g_max_active_devices g'"
proof -
  let ?h = "\<lambda>b. if active_binding p b then held_binding p (operation_of p t) b else b"
  let ?new = "if cd_purpose p = Exchange \<and> find_binding d (cd_binding_id p) = None then [binding_of p t] else []"
  let ?n = "\<lambda>t' bs. length (filter (\<lambda>b. bi_key b = k \<and> occupies t' b) bs)"
  from e have times: "ld_now d \<le> t" "t \<le> ld_now d'" and ad: "lease_admitted p (at_time t d)"
    and bs: "ld_bindings d' = List.map ?h (ld_bindings d @ ?new)"
    and fg: "find_grant (ld_core d) (cd_key p) = Some g"
    and fg': "find_grant (ld_core d') = (find_grant (ld_core d))(cd_key p \<mapsto> trial_stamped p t g)"
    by (simp_all add: lease_effect_at_def)
  have occ: "occupies t' (?h b) = occupies t' b" and key: "bi_key (?h b) = bi_key b" for b t'
    by (auto simp: held_binding_def active_binding_def occupies_def)
  have "occupied d' k = ?n (ld_now d') (ld_bindings d @ ?new)"
    unfolding occupied_def bs by (simp only: filter_map length_map o_def occ key)
  also have "\<dots> \<le> ?n t (ld_bindings d) + ?n (ld_now d') ?new"
    using times(2) by (auto intro!: count_mono dest: occupies_later)
  also have "?n t (ld_bindings d) = occupied (at_time t d) k" by (simp add: occupied_def)
  finally have n: "occupied d' k \<le> occupied (at_time t d) k + ?n (ld_now d') ?new" .
  have old: "int (occupied (at_time t d) k) \<le> g_max_active_devices g'" 
  proof -
    obtain g0 where "find_grant (ld_core d) k = Some g0" "g_max_active_devices g0 = g_max_active_devices g'"
      using g' fg fg' by (auto simp: trial_stamped_def split: if_splits)
    with capacity_later [OF ok _ times(1)] show ?thesis by fastforce
  qed
  show ?thesis
  proof (cases "?n (ld_now d') ?new = 0")
    case True
    with n old show ?thesis by simp
  next
    case False
    then have new: "cd_purpose p = Exchange" "find_binding d (cd_binding_id p) = None" "k = cd_key p"
      by (auto simp: binding_of_def split: if_splits)
    have "\<not> list_ex (active_binding p) (ld_bindings d)"
      using new(2) by (auto simp: list_ex_iff active_binding_def find_binding_def find_None_iff)
    with ad fg new(1) have "int (occupied (at_time t d) k) < g_max_active_devices g"
      by (auto simp: lease_admitted_def new_binding_allowed_def new(3))
    moreover have "g_max_active_devices g' = g_max_active_devices g" using g' fg' new(3) by (auto simp: trial_stamped_def split: if_splits)
    moreover have "?n (ld_now d') ?new \<le> 1" by simp
    ultimately show ?thesis using n by linarith
  qed
qed

lemma find_in: "distinct (List.map h xs) \<Longrightarrow> x \<in> set xs \<Longrightarrow> h x = i \<Longrightarrow> find (\<lambda>y. h y = i) xs = Some x"
  using find_distinct [of h xs x] by simp

lemma effect_ok:
  assumes e: "lease_effect_at p t u v f g d d'" and ok: "leases_ok d"
    and fresh: "unprepared p d" "operation_key (operation_of p t) \<notin> set (List.map operation_key (ld_operations d))"
  shows "leases_ok d'"
proof -
  let ?h = "\<lambda>b. if active_binding p b then held_binding p (operation_of p t) b else b"
  let ?new = "if cd_purpose p = Exchange \<and> find_binding d (cd_binding_id p) = None then [binding_of p t] else []"
  from e have times: "ld_now d \<le> ld_now d'" and bs: "ld_bindings d' = List.map ?h (ld_bindings d @ ?new)"
    and ls: "ld_leases d' = ld_leases d @ [lease_of p]" and os: "ld_operations d' = ld_operations d @ [committed_operation p t]"
    and chain: "chain_complete p (operation_of p t) (at_time f d')"
    by (simp_all add: lease_effect_at_def)
  have id: "bi_id (?h b) = bi_id b" for b by (simp add: held_binding_def)
  have "cd_binding_id p \<notin> set (List.map bi_id (ld_bindings d))" if "find_binding d (cd_binding_id p) = None"
    using that by (auto simp: find_binding_def find_None_iff)
  then have "distinct (List.map bi_id (ld_bindings d @ ?new))"
    using ok by (auto simp: leases_ok_def binding_of_def)
  then have dist: "distinct (List.map bi_id (ld_bindings d'))" unfolding bs by (simp add: o_def id del: List.map_append)
  have "lease_held d' l" if "l \<in> set (ld_leases d)" for l
  proof -
    from ok that obtain b where b: "find_binding d (le_binding_id l) = Some b" "le_accept_until l \<le> bi_hold_until b" "le_generation l \<le> bi_generation b"
      unfolding leases_ok_def lease_held_def by blast
    from effect_bindings_later [OF e b(1)] b show ?thesis by (fastforce simp: lease_held_def binding_later_def)
  qed
  moreover have "lease_held d' (lease_of p)"
  proof -
    from chain obtain b where b: "b \<in> set (ld_bindings d')" "binding_advanced p b"
      by (auto simp: chain_complete_def list_ex_iff split: option.splits)
    with find_in [OF dist b(1), of "cd_binding_id p"] show ?thesis
      by (auto simp: lease_held_def find_binding_def lease_of_def binding_advanced_def)
  qed
  moreover have "bi_hold_until b \<le> ld_now d'" if "b \<in> set (ld_bindings d')" "bi_state b = Released" for b
  proof -
    from that(1) obtain b0 where b0: "b0 \<in> set (ld_bindings d @ ?new)" "b = ?h b0" unfolding bs set_map by (rule imageE)
    have "b = b0" using b0(2) that(2) by (simp add: active_binding_def held_binding_def split: if_splits)
    with b0(1) that(2) have "b \<in> set (ld_bindings d)" by (auto simp: binding_of_def split: if_splits)
    with ok that(2) times show ?thesis by (fastforce simp: leases_ok_def)
  qed
  ultimately show ?thesis
    using dist effect_occupied [OF e ok] ok fresh
    by (auto simp: leases_ok_def ls os committed_operation_def operation_of_def unprepared_def operation_key_def)
qed

lemma lease_key_fresh:
  assumes run: "run_statements (paced ns (bound_lease_commit_sql p)) d = Inr (rs, d')" and fresh: "unprepared p d"
  shows "operation_key (operation_of p t) \<notin> set (List.map operation_key (ld_operations d))"
proof -
  from run [unfolded bound_lease_commit_sql_def] obtain n ns' r d1 rs1 where g: "lease_guard p (later n d) = Inr (r, d1)"
    and rest: "run_statements (paced ns' [stamp_trial p, create_device p, create_binding p, consume_challenge p, consume_approval p,
      update_binding p, update_device p, issue_lease p, audit_lease p, finalize_lease p, assert_complete p,
      remove_check (cd_invocation_id p), lease_result p]) d1 = Inr (rs1, d')"
    by (rule paced_step)
  have "d1 \<noteq> later n d" using unadmitted_fails [OF rest] fresh by (auto simp: unprepared_def later_def)
  with g show ?thesis
    by (auto simp: lease_guard_def insert_operation_def later_def list_ex_iff operation_of_def operation_key_def split: if_splits)
qed

lemma commit_progress:
  assumes run: "run_statements (paced ns (bound_lease_commit_sql p)) d = Inr (rs, d')"
  shows "lease_progress d d'"
proof (rule lease_progressI)
  assume ok: "leases_ok d"
  show "leases_ok d' \<and> lease_forward d d'"
  proof (cases "unprepared p d")
    case True
    from lease_batch_effect [OF run this] obtain t u v f g where e: "lease_effect_at p t u v f g d d'"
      unfolding lease_effect_def by blast
    then have "ld_now d \<le> ld_now d'" and os: "ld_operations d' = ld_operations d @ [committed_operation p t]"
      and "ld_leases d' = ld_leases d @ [lease_of p]"
      by (simp_all add: lease_effect_at_def)
    with effect_ok [OF e ok True lease_key_fresh [OF run True]] effect_bindings_later [OF e] appended_operations [OF os]
    show ?thesis by (simp add: lease_forward_def)
  next
    case False
    with stale_invocation [OF run] ok obtain m where "ld_now d \<le> m" "d' = at_time m d" by (auto simp: leases_ok_def)
    with time_progress [of d m] ok show ?thesis by (simp add: lease_progress_def)
  qed
qed

section \<open>Devices\<close>

text \<open>The devices that could use a grant now: those with a lease of it that a client still accepts.\<close>

definition live_devices :: "lease_db \<Rightarrow> grant_key \<Rightarrow> string set" where
  "live_devices d k = {bi_device_id b | l b. l \<in> set (ld_leases d) \<and> find_binding d (le_binding_id l) = Some b
     \<and> bi_key b = k \<and> ld_now d < le_accept_until l}"

lemma live_devices_limit:
  assumes ok: "leases_ok d" and g: "find_grant (ld_core d) k = Some g"
  shows "finite (live_devices d k) \<and> int (card (live_devices d k)) \<le> g_max_active_devices g"
proof -
  let ?bs = "filter (\<lambda>b. bi_key b = k \<and> occupies (ld_now d) b) (ld_bindings d)"
  have sub: "live_devices d k \<subseteq> set (List.map bi_device_id ?bs)"
  proof
    fix i assume "i \<in> live_devices d k"
    then obtain l b where l: "l \<in> set (ld_leases d)" and b: "find_binding d (le_binding_id l) = Some b" "bi_key b = k" "i = bi_device_id b"
      and live: "ld_now d < le_accept_until l" by (auto simp: live_devices_def)
    from ok l b(1) have hold: "le_accept_until l \<le> bi_hold_until b" by (auto simp: leases_ok_def lease_held_def)
    have mem: "b \<in> set (ld_bindings d)" using b(1) by (auto simp: find_binding_def find_Some_iff)
    with ok hold live have "bi_state b \<noteq> Released" by (fastforce simp: leases_ok_def)
    then have "occupies (ld_now d) b" using hold live by (cases "bi_state b") (auto simp: occupies_def)
    with mem b show "i \<in> set (List.map bi_device_id ?bs)" by auto
  qed
  then have fin: "finite (live_devices d k)" by (rule finite_subset) simp
  have "card (live_devices d k) \<le> card (set (List.map bi_device_id ?bs))" using sub by (rule card_mono [rotated]) simp
  also have "\<dots> \<le> length (List.map bi_device_id ?bs)" by (rule card_length)
  also have "\<dots> = occupied d k" by (simp add: occupied_def)
  finally show ?thesis using fin capacity_kept [OF ok g] by simp
qed

end
