(* ===== verification/Lease_Recovery.thy ===== *)
theory Lease_Recovery
  imports Lease_Capacity Db_Triples
begin

text \<open>
  Answering a lease operation that was committed before (\<open>device/bound_recovery.mjs\<close>): a fresh challenge is
  consumed and the stored answer is returned; nothing of the lease changes.
\<close>

section \<open>Conditions\<close>

definition recovery_attempt :: "'a lease_candidate_scheme \<Rightarrow> lease_db \<Rightarrow> bound_operation \<Rightarrow> bound_attempt \<Rightarrow> bool" where
  "recovery_attempt p d o' a \<longleftrightarrow> attempt_matches p a \<and> at_status a = Consumed \<and> at_consumed_invocation a = Some (op_invocation_id o')
     \<and> at_consumed_operation a = Some (cd_operation_id p) \<and> at_spki a = cd_spki p
     \<and> (case at_recovery_until a of None \<Rightarrow> False | Some t \<Rightarrow> ld_now d < t)"

definition recoverable_operation :: "'a lease_candidate_scheme \<Rightarrow> lease_db \<Rightarrow> bound_operation \<Rightarrow> bool" where
  "recoverable_operation p d o' \<longleftrightarrow> op_key_id o' = cd_key_id p \<and> op_purpose o' = cd_purpose p \<and> op_operation_id o' = cd_operation_id p
     \<and> op_digest o' = cd_digest p \<and> op_complete o' \<and> op_response o' \<noteq> Erased \<and> ld_now d < op_retain_until o'
     \<and> op_customer_id o' = cd_customer_id p \<and> op_binding_id o' = cd_binding_id p"

definition recovery_authority :: "'a lease_candidate_scheme \<Rightarrow> lease_db \<Rightarrow> bool" where
  "recovery_authority p d \<longleftrightarrow> (case find_grant (ld_core d) (cd_key p) of
     None \<Rightarrow> False
   | Some g \<Rightarrow>
       owned (cd_entitlement_revision p) False p d g \<and> owner_current p d \<and> cd_purpose p \<in> {Exchange, Renew}
       \<and> list_ex (active_device p) (ld_devices d)
       \<and> list_ex (\<lambda>b. bi_id b = cd_binding_id p \<and> bi_device_id b = cd_device_id p \<and> bi_key b = cd_key p \<and> bi_state b = Active
            \<and> bi_generation b = cd_generation p) (ld_bindings d)
       \<and> list_ex (\<lambda>o'. recoverable_operation p d o'
            \<and> ((cd_purpose p = Renew \<and> cd_subject_id p = cd_binding_id p)
               \<or> (cd_purpose p = Exchange \<and> list_ex (recovery_attempt p d o') (ld_attempts d)))) (ld_operations d))"

definition live_challenge :: "'a lease_candidate_scheme \<Rightarrow> lease_db \<Rightarrow> bound_challenge \<Rightarrow> bool" where
  "live_challenge p d c \<longleftrightarrow> ch_id c = cd_challenge_id p \<and> ch_key_id c = cd_key_id p \<and> ch_purpose c = cd_purpose p
     \<and> ch_operation_id c = cd_operation_id p \<and> ch_subject_id c = cd_subject_id p \<and> ch_nonce_hash c = cd_nonce_hash p
     \<and> ch_expires_at c = cd_challenge_expires_at p \<and> ld_now d < ch_expires_at c"

section \<open>The statements\<close>

definition recovery_consume :: "lease_candidate \<Rightarrow> string \<Rightarrow> lease_command" where
  "recovery_consume p i d = Inr ([], d\<lparr>ld_challenges :=
     List.map (\<lambda>c. if ch_consumed c = None \<and> recovery_authority p d \<and> live_challenge p d c then c\<lparr>ch_consumed := Some i\<rparr> else c)
       (ld_challenges d)\<rparr>)"

definition recovery_holds :: "lease_candidate \<Rightarrow> string \<Rightarrow> lease_db \<Rightarrow> bool" where
  "recovery_holds p i d \<longleftrightarrow> recovery_authority p d
     \<and> list_ex (\<lambda>c. live_challenge p d c \<and> ch_consumed c = Some i) (ld_challenges d)"

definition recovery_assert :: "lease_candidate \<Rightarrow> string \<Rightarrow> lease_command" where
  "recovery_assert p i d = insert_check i (recovery_holds p i d) d"

definition recovery_row :: "lease_candidate \<Rightarrow> string \<Rightarrow> lease_db \<Rightarrow> bound_operation \<Rightarrow> bool" where
  "recovery_row p i d o' \<longleftrightarrow> op_key_id o' = cd_key_id p \<and> op_purpose o' = cd_purpose p \<and> op_operation_id o' = cd_operation_id p
     \<and> op_digest o' = cd_digest p \<and> op_complete o' \<and> op_customer_id o' = cd_customer_id p \<and> op_binding_id o' = cd_binding_id p
     \<and> list_ex (\<lambda>c. ch_id c = cd_challenge_id p \<and> ch_consumed c = Some i \<and> ch_key_id c = cd_key_id p \<and> ch_purpose c = cd_purpose p
          \<and> ch_operation_id c = cd_operation_id p \<and> ch_subject_id c = cd_subject_id p \<and> ch_nonce_hash c = cd_nonce_hash p) (ld_challenges d)"

definition recovery_read :: "lease_candidate \<Rightarrow> string \<Rightarrow> lease_command" where
  "recovery_read p i d = Inr (List.map (\<lambda>o'. AnswerOut (op_response o')) (List.filter (recovery_row p i d) (ld_operations d)), d)"

definition bound_recovery_sql :: "lease_candidate \<Rightarrow> string \<Rightarrow> lease_command list" where
  "bound_recovery_sql p i = [recovery_consume p i, recovery_assert p i, remove_check i, recovery_read p i]"

text \<open>\<open>JSON.parse\<close> refuses the empty text an erased answer is.\<close>

definition recover_bound_device_lease :: "nat list \<Rightarrow> lease_candidate \<Rightarrow> string \<Rightarrow> op_response lease_io" where
  "recover_bound_device_lease paces p i = (\<lambda>w.
     if \<not> w_has_batch w then io_throw ''atomic_batch_required'' w
     else io_bind (db_batch (paced paces (bound_recovery_sql p i))) (\<lambda>results. case answer_in results of
         None \<Rightarrow> io_throw ''recovery_unavailable''
       | Some r \<Rightarrow> if r = Erased then io_throw ''SyntaxError'' else io_return r) w)"

section \<open>What it leaves\<close>

lemma moved_later: "later n (at_time m d) = at_time (m + int n) d"
  by (simp add: later_def at_time_def)

text \<open>Assert, clean up, read: such an end only passes time, and the assertion held.\<close>

lemma checked_tail:
  assumes run: "run_statements (paced ns [s, remove_check i, q]) d = Inr (rs, d')"
    and s: "\<And>x. s x = insert_check i (c x) x" and q: "\<And>x. q x = Inr (g x, x)"
  shows "\<exists>f m r. ld_now d \<le> f \<and> f \<le> m \<and> c (at_time f d) \<and> d' = at_time m d \<and> rs = [[], [], r] \<and> r = g d'"
proof -
  from run obtain n1 r1 d2 ns2 rs2 where 1: "s (later n1 d) = Inr (r1, d2)"
    and rest: "run_statements (paced ns2 [remove_check i, q]) d2 = Inr (rs2, d')" and rs: "rs = r1 # rs2" by (rule paced_step)
  from rest obtain n2 r2 d3 ns3 rs3 where 2: "remove_check i (later n2 d2) = Inr (r2, d3)"
    and rest: "run_statements (paced ns3 [q]) d3 = Inr (rs3, d')" and rs2: "rs2 = r2 # rs3" by (rule paced_step)
  from rest obtain n3 r3 d4 ns4 rs4 where 3: "q (later n3 d3) = Inr (r3, d4)"
    and fin: "run_statements (paced ns4 []) d4 = Inr (rs4, d')" and rs3: "rs3 = r3 # rs4" by (rule paced_step)
  have d: "d' = later n3 d3" "r3 = g d'" "rs4 = []" using 3 fin q by (auto simp: paced_end)
  have d3: "d3 = later (n1 + n2) d" "r1 = []" "r2 = []" "c (later n1 d)"
    using 1 2 s by (auto simp: insert_check_def remove_check_def later_def filter_id_conv split: if_splits intro!: lease_db.equality)
  have t: "later n1 d = at_time (ld_now d + int n1) d" "d' = at_time (ld_now d + int n1 + int n2 + int n3) d"
    using d d3 by (simp_all add: later_def at_time_def add.assoc)
  show ?thesis
    by (rule exI [of _ "ld_now d + int n1"], rule exI [of _ "ld_now d + int n1 + int n2 + int n3"], rule exI [of _ r3])
      (use t d d3 rs rs2 rs3 in auto)
qed

definition recovery_effect :: "lease_candidate \<Rightarrow> string \<Rightarrow> int \<Rightarrow> int \<Rightarrow> lease_db \<Rightarrow> lease_db \<Rightarrow> bool" where
  "recovery_effect p i u m d d' \<longleftrightarrow> ld_now d \<le> u \<and> u \<le> m
     \<and> d' = d\<lparr>ld_now := m, ld_challenges := List.map (\<lambda>c. if ch_consumed c = None \<and> recovery_authority p (at_time u d)
         \<and> live_challenge p (at_time u d) c then c\<lparr>ch_consumed := Some i\<rparr> else c) (ld_challenges d)\<rparr>"

lemma recovery_batch_effect:
  assumes run: "run_statements (paced ns (bound_recovery_sql p i)) d = Inr (rs, d')"
  shows "\<exists>u f m. recovery_effect p i u m d d' \<and> u \<le> f \<and> f \<le> m \<and> recovery_holds p i (at_time f d')
    \<and> answer_in rs = map_option op_response (find (recovery_row p i d') (ld_operations d'))"
proof -
  from run [unfolded bound_recovery_sql_def] obtain n r d1 ns1 rs1 where 1: "recovery_consume p i (later n d) = Inr (r, d1)"
    and rest: "run_statements (paced ns1 [recovery_assert p i, remove_check i, recovery_read p i]) d1 = Inr (rs1, d')" and rs: "rs = r # rs1"
    by (rule paced_step)
  have "\<exists>f m r. ld_now d1 \<le> f \<and> f \<le> m \<and> recovery_holds p i (at_time f d1) \<and> d' = at_time m d1 \<and> rs1 = [[], [], r]
      \<and> r = List.map (\<lambda>o'. AnswerOut (op_response o')) (List.filter (recovery_row p i d') (ld_operations d'))"
    by (rule checked_tail [OF rest]) (simp_all add: recovery_assert_def recovery_read_def)
  then obtain f m r' where f: "ld_now d1 \<le> f" "f \<le> m" "recovery_holds p i (at_time f d1)" and d': "d' = at_time m d1"
    and rs1: "rs1 = [[], [], r']" and r': "r' = List.map (\<lambda>o'. AnswerOut (op_response o')) (List.filter (recovery_row p i d') (ld_operations d'))"
    by blast
  have ans: "answer_in (a # [[], [], List.map (\<lambda>o'. AnswerOut (op_response o')) (List.filter P os)]) = map_option op_response (find P os)" for a P os
    by (induction os) (auto simp: answer_in_def batch_returned_row_def)
  have l: "later n d = at_time (ld_now d + int n) d" by (simp add: later_def at_time_def)
  have "at_time f d' = at_time f d1" by (simp add: d' at_time_def)
  moreover have "recovery_effect p i (ld_now d + int n) m d d'"
    using 1 f(1,2) d' by (auto simp: recovery_effect_def recovery_consume_def l at_time_def)
  moreover have "ld_now d + int n \<le> f" using 1 f(1) by (auto simp: recovery_consume_def l)
  ultimately show ?thesis using f ans by (intro exI [of _ "ld_now d + int n"] exI [of _ f] exI [of _ m]) (simp add: rs rs1 r')
qed

text \<open>A step that leaves bindings, operations and the core alone, and may forget leases.\<close>

lemma bystander_progress:
  assumes "ld_bindings d' = ld_bindings d" and "ld_operations d' = ld_operations d" and "set (ld_leases d') \<subseteq> set (ld_leases d)"
    and "\<And>l. l \<in> set (ld_leases d) \<Longrightarrow> l \<in> set (ld_leases d') \<or> le_accept_until l \<le> ld_now d'"
    and "\<And>k g'. find_grant (ld_core d') k = Some g' \<Longrightarrow> \<exists>g. find_grant (ld_core d) k = Some g \<and> g_max_active_devices g \<le> g_max_active_devices g'"
    and "ld_now d \<le> ld_now d'"
  shows "lease_progress d d'"
proof (rule lease_progressI)
  assume ok: "leases_ok d"
  have "int (occupied d' k) \<le> g_max_active_devices g'" if g': "find_grant (ld_core d') k = Some g'" for k g'
  proof -
    from assms(5) [OF g'] obtain g where "find_grant (ld_core d) k = Some g" "g_max_active_devices g \<le> g_max_active_devices g'" by blast
    with capacity_kept [OF ok, of k g] occupied_later [OF assms(1,6), of k] show ?thesis by simp
  qed
  moreover have "lease_held d' l" if "l \<in> set (ld_leases d')" for l
    using that assms(3) ok by (auto simp: leases_ok_def lease_held_def find_binding_def assms(1))
  ultimately have "leases_ok d'" using ok assms(6) unfolding leases_ok_def by (fastforce simp: assms(1,2))
  moreover have "lease_forward d d'" using assms(4,6) by (auto simp: lease_forward_def find_binding_def assms(1,2) operation_later_def)
  ultimately show "leases_ok d' \<and> lease_forward d d'" ..
qed

lemma recovery_progress:
  assumes run: "run_statements (paced ns (bound_recovery_sql p i)) d = Inr (rs, d')"
  shows "lease_progress d d'"
proof -
  from recovery_batch_effect [OF run] obtain u m where "recovery_effect p i u m d d'" by blast
  then show ?thesis by (intro bystander_progress) (auto simp: recovery_effect_def)
qed

end
