(* ===== verification/Lease_Token.thy ===== *)
theory Lease_Token
  imports Order_Request Lease_Store
begin

text \<open>
  The wire formats of the device-bound leases (\<open>packages/licensing-domain/src/lease/device_protocol.mjs\<close>):
  base64url, the lease payload, the signed envelope, and the inputs of the device's proofs. The UTF-8 decoder
  of the platform is an argument.
\<close>

section \<open>Base64\<close>

text \<open>\<open>btoa\<close> and its inverse \<open>atob\<close> (\<open>bytes_from_base64\<close>).\<close>

definition base64_char :: "nat \<Rightarrow> char" where
  "base64_char v = (if v < 26 then from_unit (v + 65) else if v < 52 then from_unit (v + 71)
     else if v < 62 then from_unit (v - 4) else if v = 62 then CHR ''+'' else CHR ''/'')"

fun btoa :: "byte list \<Rightarrow> string" where
  "btoa [] = []"
| "btoa [a] = [base64_char (unat a div 4), base64_char (16 * (unat a mod 4)), CHR ''='', CHR ''='']"
| "btoa [a, b] = [base64_char (unat a div 4), base64_char (16 * (unat a mod 4) + unat b div 16), base64_char (4 * (unat b mod 16)), CHR ''='']"
| "btoa (a # b # c # rest) = base64_char (unat a div 4) # base64_char (16 * (unat a mod 4) + unat b div 16)
     # base64_char (4 * (unat b mod 16) + unat c div 64) # base64_char (unat c mod 64) # btoa rest"

definition url_char :: "char \<Rightarrow> char" where
  "url_char c = (if c = CHR ''+'' then CHR ''-'' else if c = CHR ''/'' then CHR ''_'' else c)"

definition plain_char :: "char \<Rightarrow> char" where
  "plain_char c = (if c = CHR ''-'' then CHR ''+'' else if c = CHR ''_'' then CHR ''/'' else c)"

definition encode_base64url :: "byte list \<Rightarrow> string" where
  "encode_base64url bytes = rev (dropWhile (\<lambda>c. c = CHR ''='') (rev (List.map url_char (btoa bytes))))"

definition url_alphabet :: "char \<Rightarrow> bool" where
  "url_alphabet c \<longleftrightarrow> js_alnum c \<or> c = CHR ''_'' \<or> c = CHR ''-''"

definition decode_base64url :: "string \<Rightarrow> nat \<Rightarrow> byte list outcome" where
  "decode_base64url value max_bytes =
     (if \<not> list_all url_alphabet value \<or> (4 * max_bytes + 2) div 3 < length value then Inl ''invalid_encoding''
      else case bytes_from_base64 (List.map plain_char value) of
          None \<Rightarrow> Inl ''invalid_encoding''
        | Some bytes \<Rightarrow> if max_bytes < length bytes \<or> encode_base64url bytes \<noteq> value then Inl ''invalid_encoding'' else Inr bytes)"

section \<open>Base64 is exact\<close>

lemma base64_char_cases: "v < 64 \<Longrightarrow> base64_value (base64_char v) = Some v \<and> code_unit (base64_char v) \<notin> {9, 10, 12, 13, 32, 61}
    \<and> url_alphabet (url_char (base64_char v)) \<and> plain_char (url_char (base64_char v)) = base64_char v"
proof -
  have "\<forall>v<64. base64_value (base64_char v) = Some v \<and> code_unit (base64_char v) \<notin> {9, 10, 12, 13, 32, 61}
    \<and> url_alphabet (url_char (base64_char v)) \<and> plain_char (url_char (base64_char v)) = base64_char v"
    by code_simp
  then show "v < 64 \<Longrightarrow> ?thesis" by blast
qed

text \<open>The six-bit groups of the bytes, without padding.\<close>

fun sextets :: "byte list \<Rightarrow> nat list" where
  "sextets [] = []"
| "sextets [a] = [unat a div 4, 16 * (unat a mod 4)]"
| "sextets [a, b] = [unat a div 4, 16 * (unat a mod 4) + unat b div 16, 4 * (unat b mod 16)]"
| "sextets (a # b # c # rest) = unat a div 4 # (16 * (unat a mod 4) + unat b div 16)
     # (4 * (unat b mod 16) + unat c div 64) # (unat c mod 64) # sextets rest"

lemma byte_parts:
  "unat (a :: byte) div 4 < 64" "16 * (unat a mod 4) + unat (b :: byte) div 16 < 64" "4 * (unat b mod 16) + unat (c :: byte) div 64 < 64"
  "16 * (unat a mod 4) < 64" "4 * (unat b mod 16) < 64" "unat c mod 64 < 64"
  using unat_byte [of a] unat_byte [of b] unat_byte [of c] by (simp_all add: less_mult_imp_div_less)

lemma sextets_less: "v \<in> set (sextets bs) \<Longrightarrow> v < 64"
  by (induction bs rule: sextets.induct) (use byte_parts in auto)

lemma byte_back:
  "(word_of_nat (4 * (unat (a :: byte) div 4) + (16 * (unat a mod 4) + unat (b :: byte) div 16) div 16) :: byte) = a"
  "(word_of_nat (4 * (unat a div 4) + (16 * (unat a mod 4)) div 16) :: byte) = a"
  "(word_of_nat (16 * ((16 * (unat a mod 4) + unat b div 16) mod 16) + (4 * (unat b mod 16) + unat (c :: byte) div 64) div 4) :: byte) = b"
  "(word_of_nat (16 * ((16 * (unat a mod 4) + unat b div 16) mod 16) + (4 * (unat b mod 16)) div 4) :: byte) = b"
  "(word_of_nat (64 * ((4 * (unat b mod 16) + unat c div 64) mod 4) + unat c mod 64) :: byte) = c"
proof -
  have small: "unat b div 16 < 16" "unat c div 64 < 4" using unat_byte [of b] unat_byte [of c] by (simp_all add: less_mult_imp_div_less)
  then have "(16 * (unat a mod 4) + unat b div 16) div 16 = unat a mod 4" "(16 * (unat a mod 4) + unat b div 16) mod 16 = unat b div 16"
    "(4 * (unat b mod 16) + unat c div 64) div 4 = unat b mod 16" "(4 * (unat b mod 16) + unat c div 64) mod 4 = unat c div 64"
    by simp_all
  then show "(word_of_nat (4 * (unat a div 4) + (16 * (unat a mod 4) + unat b div 16) div 16) :: byte) = a"
    "(word_of_nat (4 * (unat a div 4) + (16 * (unat a mod 4)) div 16) :: byte) = a"
    "(word_of_nat (16 * ((16 * (unat a mod 4) + unat b div 16) mod 16) + (4 * (unat b mod 16) + unat c div 64) div 4) :: byte) = b"
    "(word_of_nat (16 * ((16 * (unat a mod 4) + unat b div 16) mod 16) + (4 * (unat b mod 16)) div 4) :: byte) = b"
    "(word_of_nat (64 * ((4 * (unat b mod 16) + unat c div 64) mod 4) + unat c mod 64) :: byte) = c"
    by (simp_all del: of_nat_add of_nat_mult)
qed

lemma groups_sextets: "base64_groups (sextets bs) = Some bs"
proof (induction bs rule: sextets.induct)
  case (4 a b c rest)
  then show ?case using byte_back(1) [of a b] byte_back(3) [of a b c] byte_back(5) [of b c] by simp
qed (use byte_back in simp_all)

lemma length_sextets: "length (sextets bs) = (4 * length bs + 2) div 3"
  by (induction bs rule: sextets.induct) simp_all

lemma btoa_sextets: "\<exists>n. btoa bs = List.map base64_char (sextets bs) @ replicate n (CHR ''='')"
proof (induction bs rule: btoa.induct)
  case 2
  show ?case by (intro exI [of _ 2]) (simp add: numeral_2_eq_2)
next
  case 3
  show ?case by (intro exI [of _ 1]) simp
qed (auto intro: exI [of _ 0])

lemma drop_padding: "\<forall>c\<in>set s. c \<noteq> e \<Longrightarrow> rev (dropWhile (\<lambda>c. c = e) (rev (s @ replicate n e))) = s"
proof -
  assume s: "\<forall>c\<in>set s. c \<noteq> e"
  have "dropWhile (\<lambda>c. c = e) (replicate n e @ rev s) = dropWhile (\<lambda>c. c = e) (rev s)" by (induction n) simp_all
  also have "\<dots> = rev s" using s by (intro dropWhile_all_not) auto
  finally show ?thesis by simp
qed

lemma encode_sextets: "encode_base64url bs = List.map (\<lambda>v. url_char (base64_char v)) (sextets bs)"
proof -
  obtain n where n: "btoa bs = List.map base64_char (sextets bs) @ replicate n (CHR ''='')" using btoa_sextets by blast
  have "url_char (base64_char v) \<noteq> CHR ''=''" if "v \<in> set (sextets bs)" for v
    using base64_char_cases [OF sextets_less [OF that]] by (auto simp: url_alphabet_def js_alnum_def char_class_defs code_unit_def)
  moreover have "List.map url_char (btoa bs) = List.map (\<lambda>v. url_char (base64_char v)) (sextets bs) @ replicate n (CHR ''='')"
    by (simp add: n url_char_def)
  ultimately show ?thesis unfolding encode_base64url_def using drop_padding [of "List.map (\<lambda>v. url_char (base64_char v)) (sextets bs)"] by auto
qed

lemma atob_sextets: "bytes_from_base64 (List.map base64_char (sextets bs)) = Some bs"
proof -
  have all: "all_values (List.map base64_char vs) = Some vs" if "\<forall>v\<in>set vs. v < 64" for vs
    using that by (induction vs) (simp_all add: base64_char_cases obind_def)
  have "filter (\<lambda>c. code_unit c \<notin> {9, 10, 12, 13, 32}) (List.map base64_char (sextets bs)) = List.map base64_char (sextets bs)"
    using base64_char_cases sextets_less by (auto simp: filter_id_conv)
  moreover have "strip_padding (List.map base64_char (sextets bs)) = List.map base64_char (sextets bs)"
  proof -
    have "last (List.map base64_char (sextets bs)) \<noteq> CHR ''=''" if "sextets bs \<noteq> []"
      using base64_char_cases [OF sextets_less [of "last (sextets bs)" bs]] that by (auto simp: last_map code_unit_def)
    then show ?thesis by (auto simp: strip_padding_def)
  qed
  ultimately show ?thesis using all [of "sextets bs"] sextets_less groups_sextets by (simp add: bytes_from_base64_def obind_def)
qed

lemma base64url_decode_encode: "length bs \<le> n \<Longrightarrow> decode_base64url (encode_base64url bs) n = Inr bs"
proof -
  assume n: "length bs \<le> n"
  have "list_all url_alphabet (encode_base64url bs)" "List.map plain_char (encode_base64url bs) = List.map base64_char (sextets bs)"
    using base64_char_cases sextets_less by (auto simp: encode_sextets list_all_iff)
  moreover have "length (encode_base64url bs) \<le> (4 * n + 2) div 3" using n by (simp add: encode_sextets length_sextets div_le_mono)
  ultimately show ?thesis using n by (simp add: decode_base64url_def atob_sextets)
qed

lemma base64url_encode_decode: "decode_base64url s n = Inr bs \<Longrightarrow> encode_base64url bs = s \<and> length bs \<le> n"
  by (auto simp: decode_base64url_def split: option.splits if_splits)

lemma base64url_iff: "decode_base64url s n = Inr bs \<longleftrightarrow> s = encode_base64url bs \<and> length bs \<le> n"
  by (rule iffI) (use base64url_encode_decode in fastforce, use base64url_decode_encode in simp)

lemma base64url_inj: "encode_base64url a = encode_base64url b \<longleftrightarrow> a = b"
proof
  assume e: "encode_base64url a = encode_base64url b"
  have "decode_base64url (encode_base64url a) (length a + length b) = Inr a" by (rule base64url_decode_encode) simp
  moreover have "decode_base64url (encode_base64url b) (length a + length b) = Inr b" by (rule base64url_decode_encode) simp
  ultimately show "a = b" by (simp only: e) simp
qed simp

lemma base64url_chars: "c \<in> set (encode_base64url bs) \<Longrightarrow> url_alphabet c"
  using base64_char_cases sextets_less by (auto simp: encode_sextets)

section \<open>The payload of a lease\<close>

record lease_claims =
  lc_version :: int
  lc_purpose :: string
  lc_key_id :: string
  lc_issuer :: string
  lc_audience :: string
  lc_project :: string
  lc_feature :: string
  lc_fingerprint :: string
  lc_binding_id :: string
  lc_device_key_id :: string
  lc_generation :: int
  lc_revocation_seq :: int
  lc_lease_id :: string
  lc_operation_id :: string
  lc_issued_at :: int
  lc_renew_after :: int
  lc_expires_at :: int

definition device_lease_fields :: "string list" where
  "device_lease_fields = [''version'', ''purpose'', ''key-id'', ''issuer'', ''audience'', ''project'', ''feature'',
     ''license-fingerprint'', ''binding-id'', ''device-key-id'', ''generation'', ''revocation-seq'', ''lease-id'', ''operation-id'',
     ''issued-at'', ''renew-after'', ''expires-at'']"

datatype claim = IntClaim int | TextClaim string

definition claim_values :: "lease_claims \<Rightarrow> claim list" where
  "claim_values c = [IntClaim (lc_version c), TextClaim (lc_purpose c), TextClaim (lc_key_id c), TextClaim (lc_issuer c),
     TextClaim (lc_audience c), TextClaim (lc_project c), TextClaim (lc_feature c), TextClaim (lc_fingerprint c), TextClaim (lc_binding_id c),
     TextClaim (lc_device_key_id c), IntClaim (lc_generation c), IntClaim (lc_revocation_seq c), TextClaim (lc_lease_id c),
     TextClaim (lc_operation_id c), IntClaim (lc_issued_at c), IntClaim (lc_renew_after c), IntClaim (lc_expires_at c)]"

definition safe_text_value :: "string \<Rightarrow> string outcome" where
  "safe_text_value s = (if s = [] \<or> 1024 < length (utf8 s) then Inl ''invalid_text'' else Inr (encode_base64url (utf8 s)))"

definition safe_integer_value :: "int \<Rightarrow> string outcome" where
  "safe_integer_value n = (if n < 0 \<or> int max_safe_integer < n then Inl ''invalid_integer'' else Inr (dec (nat n)))"

definition identity_char :: "char \<Rightarrow> bool" where
  "identity_char c \<longleftrightarrow> js_alnum c \<or> c \<in> set ''_.:-''"

definition identity_text :: "nat \<Rightarrow> string \<Rightarrow> bool" where
  "identity_text n s \<longleftrightarrow> s \<noteq> [] \<and> length s \<le> n \<and> list_all identity_char s"

definition bytes_of_size :: "nat \<Rightarrow> string \<Rightarrow> unit outcome" where
  "bytes_of_size n s = rbind (decode_base64url s n) (\<lambda>bs. if length bs \<noteq> n then Inl ''invalid_identity'' else Inr ())"

definition validate_claims :: "lease_claims \<Rightarrow> unit outcome" where
  "validate_claims c =
     (if lc_version c \<noteq> 1 \<or> lc_purpose c \<noteq> ''device-lease'' then Inl ''invalid_purpose''
      else if \<not> identity_text 127 (lc_project c) \<or> \<not> identity_text 15 (lc_feature c) then Inl ''invalid_identity''
      else if \<not> device_key_text (lc_key_id c) \<or> \<not> device_key_text (lc_device_key_id c)
        \<or> \<not> (length (lc_fingerprint c) = 64 \<and> list_all lower_hex (lc_fingerprint c)) then Inl ''invalid_identity''
      else rbind (bytes_of_size 16 (lc_binding_id c)) (\<lambda>_. rbind (bytes_of_size 16 (lc_lease_id c)) (\<lambda>_.
        rbind (bytes_of_size 32 (lc_operation_id c)) (\<lambda>_.
          if lc_generation c < 1 \<or> lc_renew_after c \<le> lc_issued_at c \<or> lc_expires_at c \<le> lc_renew_after c then Inl ''invalid_window''
          else if 86400 < lc_expires_at c - lc_issued_at c then Inl ''invalid_window''
          else rbind (safe_integer_value (lc_expires_at c + 120)) (\<lambda>_. Inr ())))))"

definition encode_claim :: "claim \<Rightarrow> string outcome" where
  "encode_claim v = (case v of IntClaim n \<Rightarrow> safe_integer_value n | TextClaim s \<Rightarrow> safe_text_value s)"

fun encode_claims :: "string list \<Rightarrow> claim list \<Rightarrow> string list outcome" where
  "encode_claims (f # fs) (v # vs) = rbind (encode_claim v) (\<lambda>t. rbind (encode_claims fs vs) (\<lambda>ls. Inr ((f @ ''='' @ t) # ls)))"
| "encode_claims _ _ = Inr []"

definition newline :: char where
  "newline = from_unit 10"

definition encode_device_lease_payload :: "lease_claims \<Rightarrow> byte list outcome" where
  "encode_device_lease_payload c =
     rbind (validate_claims c) (\<lambda>_. rbind (encode_claims device_lease_fields (claim_values c)) (\<lambda>ls.
       let bytes = utf8 (js_join [newline] ls @ [newline]) in
       if 4096 < length bytes then Inl ''payload_too_large'' else Inr bytes))"

definition integer_text :: "string \<Rightarrow> bool" where
  "integer_text s \<longleftrightarrow> s = ''0'' \<or> (s \<noteq> [] \<and> hd s \<noteq> CHR ''0'' \<and> list_all js_digit s)"

definition decode_int_claim :: "string \<Rightarrow> int outcome" where
  "decode_int_claim s = (if \<not> integer_text s then Inl ''invalid_integer''
     else case js_number s of Whole n \<Rightarrow> rbind (safe_integer_value n) (\<lambda>_. Inr n) | _ \<Rightarrow> Inl ''invalid_integer'')"

definition decode_text_claim :: "(byte list \<Rightarrow> string option) \<Rightarrow> string \<Rightarrow> string outcome" where
  "decode_text_claim read_utf8 s = rbind (decode_base64url s 1024) (\<lambda>bs. case read_utf8 bs of None \<Rightarrow> Inl ''TypeError'' | Some t \<Rightarrow> Inr t)"

text \<open>The lines must be the fields in their order; the kind of a field says how its value is read.\<close>

definition integer_fields :: "string list" where
  "integer_fields = [''version'', ''generation'', ''revocation-seq'', ''issued-at'', ''renew-after'', ''expires-at'']"

fun decode_lines :: "(byte list \<Rightarrow> string option) \<Rightarrow> string list \<Rightarrow> string list \<Rightarrow> claim list outcome" where
  "decode_lines read_utf8 (f # fs) (l # ls) =
     (if \<not> js_starts l (f @ ''='') then Inl ''invalid_fields''
      else let v = drop (length f + 1) l in
        rbind (if f \<in> set integer_fields then rbind (decode_int_claim v) (\<lambda>n. Inr (IntClaim n))
               else rbind (decode_text_claim read_utf8 v) (\<lambda>t. Inr (TextClaim t)))
          (\<lambda>c. rbind (decode_lines read_utf8 fs ls) (\<lambda>cs. Inr (c # cs))))"
| "decode_lines read_utf8 _ _ = Inr []"

definition claims_of :: "claim list \<Rightarrow> lease_claims outcome" where
  "claims_of vs = (case vs of
     [IntClaim ver, TextClaim pur, TextClaim key, TextClaim iss, TextClaim aud, TextClaim pro, TextClaim fea, TextClaim fin, TextClaim bin,
      TextClaim dev, IntClaim gen, IntClaim seq, TextClaim lea, TextClaim ope, IntClaim issued, IntClaim renew, IntClaim expires] \<Rightarrow>
       Inr \<lparr>lc_version = ver, lc_purpose = pur, lc_key_id = key, lc_issuer = iss, lc_audience = aud, lc_project = pro, lc_feature = fea,
         lc_fingerprint = fin, lc_binding_id = bin, lc_device_key_id = dev, lc_generation = gen, lc_revocation_seq = seq,
         lc_lease_id = lea, lc_operation_id = ope, lc_issued_at = issued, lc_renew_after = renew, lc_expires_at = expires\<rparr>
   | _ \<Rightarrow> Inl ''invalid_fields'')"

definition decode_device_lease_payload :: "(byte list \<Rightarrow> string option) \<Rightarrow> byte list \<Rightarrow> lease_claims outcome" where
  "decode_device_lease_payload read_utf8 bytes =
     (if 4096 < length bytes then Inl ''invalid_payload''
      else case read_utf8 bytes of
          None \<Rightarrow> Inl ''invalid_payload''
        | Some payload \<Rightarrow>
            let ls = js_split (\<lambda>c. c = newline) payload in
            if length ls \<noteq> length device_lease_fields + 1 \<or> last ls \<noteq> [] then Inl ''invalid_fields''
            else rbind (decode_lines read_utf8 device_lease_fields (butlast ls)) (\<lambda>vs. rbind (claims_of vs) (\<lambda>c.
              rbind (encode_device_lease_payload c) (\<lambda>again.
                if read_utf8 again \<noteq> Some payload then Inl ''invalid_payload'' else Inr c))))"

section \<open>The envelope\<close>

definition token_prefix :: string where
  "token_prefix = ''lccdl1.''"

definition device_lease_signing_input :: "(byte list \<Rightarrow> string option) \<Rightarrow> byte list \<Rightarrow> byte list outcome" where
  "device_lease_signing_input read_utf8 payload =
     rbind (decode_device_lease_payload read_utf8 payload) (\<lambda>_. Inr (utf8 token_prefix @ payload))"

definition encode_device_lease_envelope :: "(byte list \<Rightarrow> string option) \<Rightarrow> byte list \<Rightarrow> byte list \<Rightarrow> string outcome" where
  "encode_device_lease_envelope read_utf8 payload signature =
     rbind (decode_device_lease_payload read_utf8 payload) (\<lambda>_.
       if length signature \<noteq> 384 then Inl ''invalid_signature_size''
       else let token = token_prefix @ encode_base64url payload @ ''.'' @ encode_base64url signature in
         if 8192 < length token then Inl ''token_too_large'' else Inr token)"

definition decode_device_lease_envelope ::
  "(byte list \<Rightarrow> string option) \<Rightarrow> string \<Rightarrow> (byte list \<times> byte list \<times> lease_claims) outcome" where
  "decode_device_lease_envelope read_utf8 token =
     (if 8192 < length token then Inl ''invalid_token''
      else case js_split (\<lambda>c. c = CHR ''.'') token of
          [prefix, payload_part, signature_part] \<Rightarrow>
            if prefix \<noteq> ''lccdl1'' then Inl ''invalid_token''
            else rbind (decode_base64url payload_part 4096) (\<lambda>payload. rbind (decode_base64url signature_part 384) (\<lambda>signature.
              if length signature \<noteq> 384 then Inl ''invalid_signature_size''
              else rbind (decode_device_lease_payload read_utf8 payload) (\<lambda>c. Inr (payload, signature, c))))
        | _ \<Rightarrow> Inl ''invalid_token'')"

section \<open>Encoding and decoding are inverse\<close>

definition utf8_reader :: "(byte list \<Rightarrow> string option) \<Rightarrow> bool" where
  "utf8_reader read_utf8 \<longleftrightarrow> (\<forall>bs s. read_utf8 bs = Some s \<longleftrightarrow> bs = utf8 s)"

lemma utf8_readerD: "utf8_reader r \<Longrightarrow> r bs = Some s \<longleftrightarrow> bs = utf8 s"
  by (simp add: utf8_reader_def)

lemma split_plain: "\<forall>c\<in>set w. \<not> P c \<Longrightarrow> js_split P w = [w]"
  by (induction w) auto

lemma split_first: "\<forall>c\<in>set w. \<not> P c \<Longrightarrow> P e \<Longrightarrow> js_split P (w @ e # s) = w # js_split P s"
  by (induction w) auto

lemma split_join:
  assumes "\<forall>w\<in>set ls. \<forall>c\<in>set w. c \<noteq> e" and "ls \<noteq> []"
  shows "js_split (\<lambda>c. c = e) (js_join [e] ls @ [e]) = ls @ [[]]"
  using assms
proof (induction ls)
  case (Cons w ls)
  show ?case
  proof (cases ls)
    case Nil
    with Cons.prems split_first [of w "\<lambda>c. c = e" e "[]"] show ?thesis by simp
  next
    case (Cons w' ws)
    with Cons.IH Cons.prems split_first [of w "\<lambda>c. c = e" e "js_join [e] ls @ [e]"] show ?thesis by simp
  qed
qed simp

lemma digit_not_zero: "0 < d \<Longrightarrow> d < 10 \<Longrightarrow> digit_char d \<noteq> CHR ''0''"
proof
  assume d: "0 < d" "d < 10" and e: "digit_char d = CHR ''0''"
  have "digit_value (digit_char d) = 0" unfolding e by (simp add: digit_value_def code_unit_def)
  with d show False by simp
qed

lemma hd_dec: "0 < n \<Longrightarrow> hd (dec n) \<noteq> CHR ''0''"
proof (induction n rule: dec.induct)
  case (1 n)
  show ?case
  proof (cases "n < 10")
    case True
    with 1 show ?thesis by (subst dec.simps) (simp add: digit_not_zero)
  next
    case False
    with 1 have "hd (dec (n div 10)) \<noteq> CHR ''0''" by simp
    with False show ?thesis by (subst dec.simps) (simp add: hd_append)
  qed
qed

lemma dec_integer_text: "integer_text (dec n)"
proof (cases "n = 0")
  case True
  have "dec 0 = ''0''" by code_simp
  with True show ?thesis by (simp add: integer_text_def)
next
  case False
  then show ?thesis using hd_dec [of n] dec_all_digits [of n] by (auto simp: integer_text_def all_digits_def)
qed

lemma decode_int_dec: "safe_integer_value n = Inr t \<Longrightarrow> decode_int_claim t = Inr n"
  using js_number_dec [of "nat n"] dec_integer_text [of "nat n"]
  by (auto simp: safe_integer_value_def decode_int_claim_def split: if_splits)

lemma decode_text_enc: "utf8_reader r \<Longrightarrow> safe_text_value s = Inr t \<Longrightarrow> decode_text_claim r t = Inr s"
  using utf8_readerD [of r "utf8 s" s] by (auto simp: safe_text_value_def decode_text_claim_def base64url_decode_encode split: if_splits)

definition kinds_agree :: "string list \<Rightarrow> claim list \<Rightarrow> bool" where
  "kinds_agree fs vs \<longleftrightarrow> list_all2 (\<lambda>f v. (f \<in> set integer_fields) = (case v of IntClaim _ \<Rightarrow> True | TextClaim _ \<Rightarrow> False)) fs vs"

lemma decode_encoded_lines:
  assumes "utf8_reader r"
  shows "encode_claims fs vs = Inr ls \<Longrightarrow> kinds_agree fs vs \<Longrightarrow> decode_lines r fs ls = Inr vs"
proof (induction fs vs arbitrary: ls rule: encode_claims.induct)
  case (1 f fs v vs)
  from 1 obtain t ls' where t: "encode_claim v = Inr t" and ls': "encode_claims fs vs = Inr ls'" and ls: "ls = (f @ ''='' @ t) # ls'"
    and k: "kinds_agree fs vs" "(f \<in> set integer_fields) = (case v of IntClaim _ \<Rightarrow> True | TextClaim _ \<Rightarrow> False)"
    by (auto simp: rbind_Inr_iff kinds_agree_def)
  have "js_starts (f @ ''='' @ t) (f @ ''='')" by (simp add: js_starts_append)
  moreover have "(if f \<in> set integer_fields then rbind (decode_int_claim t) (\<lambda>n. Inr (IntClaim n))
       else rbind (decode_text_claim r t) (\<lambda>t. Inr (TextClaim t))) = Inr v"
    using t k(2) decode_int_dec decode_text_enc [OF assms] by (cases v) (auto simp: encode_claim_def)
  ultimately show ?case using 1(1) ls' k(1) t by (simp add: ls)
qed (auto simp: kinds_agree_def list_all2_conv_all_nth)


lemma newline_not: "url_alphabet c \<or> js_digit c \<Longrightarrow> c \<noteq> newline"
proof
  assume "url_alphabet c \<or> js_digit c" and e: "c = newline"
  moreover have "\<not> url_alphabet newline" "\<not> js_digit newline" by code_simp+
  ultimately show False by simp
qed

lemma encode_claim_chars: "encode_claim v = Inr t \<Longrightarrow> c \<in> set t \<Longrightarrow> c \<noteq> newline"
  by (intro newline_not) (auto simp: encode_claim_def safe_integer_value_def safe_text_value_def split: claim.splits if_splits
      dest: dec_digit base64url_chars)

lemma encoded_lines_plain: "encode_claims fs vs = Inr ls \<Longrightarrow> \<forall>f\<in>set fs. newline \<notin> set f \<Longrightarrow> \<forall>w\<in>set ls. newline \<notin> set w"
proof (induction fs vs arbitrary: ls rule: encode_claims.induct)
  case (1 f fs v vs)
  have n: "newline \<noteq> CHR ''=''" by code_simp
  from 1 obtain t ls' where t: "encode_claim v = Inr t" "encode_claims fs vs = Inr ls'" "ls = (f @ ''='' @ t) # ls'"
    by (auto simp: rbind_Inr_iff)
  with 1 have "\<forall>w\<in>set ls'. newline \<notin> set w" by simp
  moreover have "newline \<notin> set t" using encode_claim_chars [OF t(1)] by blast
  ultimately show ?case using 1(3) n t(3) by simp
qed auto

lemma encoded_lines_length: "encode_claims fs vs = Inr ls \<Longrightarrow> length ls = min (length fs) (length vs)"
  by (induction fs vs arbitrary: ls rule: encode_claims.induct) (auto simp: rbind_Inr_iff)

lemma lease_fields_plain: "\<forall>f\<in>set device_lease_fields. newline \<notin> set f"
  by code_simp

lemma claims_of_values: "claims_of (claim_values c) = Inr c"
  by (cases c) (simp add: claims_of_def claim_values_def)

lemma lease_kinds: "kinds_agree device_lease_fields (claim_values c)"
  by (simp add: kinds_agree_def device_lease_fields_def claim_values_def integer_fields_def)

lemma decode_encoded_payload:
  assumes r: "utf8_reader read_utf8" and e: "encode_device_lease_payload c = Inr bytes"
  shows "decode_device_lease_payload read_utf8 bytes = Inr c"
proof -
  from e obtain ls where ls: "encode_claims device_lease_fields (claim_values c) = Inr ls"
    and b: "bytes = utf8 (js_join [newline] ls @ [newline])" and small: "length bytes \<le> 4096"
    by (auto simp: encode_device_lease_payload_def rbind_Inr_iff Let_def split: if_splits)
  have len: "length ls = length device_lease_fields"
    using encoded_lines_length [OF ls] by (simp add: device_lease_fields_def claim_values_def)
  then have "ls \<noteq> []" by (auto simp: device_lease_fields_def)
  moreover have "\<forall>w\<in>set ls. \<forall>c\<in>set w. c \<noteq> newline" using encoded_lines_plain [OF ls lease_fields_plain] by blast
  ultimately have split: "js_split (\<lambda>c. c = newline) (js_join [newline] ls @ [newline]) = ls @ [[]]" by (intro split_join)
  have read: "read_utf8 bytes = Some (js_join [newline] ls @ [newline])" using r b by (simp add: utf8_readerD)
  show ?thesis
    using decode_encoded_lines [OF r ls lease_kinds] small
    by (simp add: decode_device_lease_payload_def read split len claims_of_values e Let_def)
qed

text \<open>The payload of a lease has exactly one encoding: bytes decode to claims if and only if they are what
  the claims encode to, so no two payloads a signature could cover mean the same lease, or one payload two.\<close>

theorem device_lease_payload_exact:
  assumes "utf8_reader read_utf8"
  shows "decode_device_lease_payload read_utf8 bytes = Inr c \<longleftrightarrow> encode_device_lease_payload c = Inr bytes"
proof
  assume "decode_device_lease_payload read_utf8 bytes = Inr c"
  then obtain payload again where "read_utf8 bytes = Some payload" "encode_device_lease_payload c = Inr again" "read_utf8 again = Some payload"
    by (auto simp: decode_device_lease_payload_def rbind_Inr_iff Let_def split: if_splits option.splits)
  then show "encode_device_lease_payload c = Inr bytes" using assms by (simp add: utf8_readerD)
qed (rule decode_encoded_payload [OF assms])

lemma decoded_small: "decode_device_lease_payload r payload = Inr c \<Longrightarrow> length payload \<le> 4096"
  by (auto simp: decode_device_lease_payload_def split: if_splits)

lemma dot_not_url: "\<not> url_alphabet (CHR ''.'')"
  by code_simp

lemma split_token: "js_split (\<lambda>c. c = CHR ''.'') (token_prefix @ encode_base64url a @ ''.'' @ encode_base64url b)
    = [''lccdl1'', encode_base64url a, encode_base64url b]"
proof -
  have plain: "\<forall>c\<in>set (encode_base64url x). c \<noteq> CHR ''.''" for x using base64url_chars dot_not_url by metis
  have t: "token_prefix @ encode_base64url a @ ''.'' @ encode_base64url b
      = ''lccdl1'' @ CHR ''.'' # (encode_base64url a @ CHR ''.'' # encode_base64url b)"
    by (simp add: token_prefix_def)
  show ?thesis
    unfolding t
    using split_first [of "''lccdl1''" "\<lambda>c. c = CHR ''.''" "CHR ''.''" "encode_base64url a @ CHR ''.'' # encode_base64url b"]
      split_first [of "encode_base64url a" "\<lambda>c. c = CHR ''.''" "CHR ''.''" "encode_base64url b"]
      split_plain [of "encode_base64url b" "\<lambda>c. c = CHR ''.''"] plain by simp
qed

text \<open>\<open>parts\<close> joined again.\<close>

lemma join_split: "js_join [e] (js_split (\<lambda>c. c = e) s) = s"
proof (induction s)
  case (Cons c s)
  obtain w ws where w: "js_split (\<lambda>c. c = e) s = w # ws" using js_split_not_Nil by (metis neq_Nil_conv)
  with Cons show ?case by (cases ws) auto
qed simp

lemma envelope_exact:
  assumes "utf8_reader read_utf8"
  shows "decode_device_lease_envelope read_utf8 token = Inr (payload, signature, c)
    \<longleftrightarrow> encode_device_lease_envelope read_utf8 payload signature = Inr token \<and> encode_device_lease_payload c = Inr payload"
proof
  assume d: "decode_device_lease_envelope read_utf8 token = Inr (payload, signature, c)"
  then obtain a b where parts: "js_split (\<lambda>c. c = CHR ''.'') token = [''lccdl1'', a, b]" and small: "length token \<le> 8192"
    and p: "decode_base64url a 4096 = Inr payload" "decode_base64url b 384 = Inr signature" "length signature = 384"
    and c: "decode_device_lease_payload read_utf8 payload = Inr c"
    by (auto simp: decode_device_lease_envelope_def rbind_Inr_iff split: if_splits list.splits)
  have t: "token_prefix @ encode_base64url payload @ ''.'' @ encode_base64url signature = token"
    using join_split [of "CHR ''.''" token] p by (simp add: parts base64url_iff token_prefix_def)
  have "encode_device_lease_envelope read_utf8 payload signature = Inr token"
    unfolding encode_device_lease_envelope_def t Let_def using small p(3) c by simp
  moreover have "encode_device_lease_payload c = Inr payload" using c device_lease_payload_exact [OF assms] by blast
  ultimately show "encode_device_lease_envelope read_utf8 payload signature = Inr token \<and> encode_device_lease_payload c = Inr payload" ..
next
  assume e: "encode_device_lease_envelope read_utf8 payload signature = Inr token \<and> encode_device_lease_payload c = Inr payload"
  then have c: "decode_device_lease_payload read_utf8 payload = Inr c" using decode_encoded_payload [OF assms] by blast
  with e have t: "token = token_prefix @ encode_base64url payload @ ''.'' @ encode_base64url signature" "length signature = 384" "length token \<le> 8192"
    by (auto simp: encode_device_lease_envelope_def rbind_Inr_iff Let_def split: if_splits)
  have "js_split (\<lambda>c. c = CHR ''.'') token = [''lccdl1'', encode_base64url payload, encode_base64url signature]"
    unfolding t(1) by (rule split_token)
  with t(2,3) c decoded_small [OF c] show "decode_device_lease_envelope read_utf8 token = Inr (payload, signature, c)"
    by (simp add: decode_device_lease_envelope_def base64url_decode_encode)
qed

text \<open>C17. A token decodes to a payload, a signature and claims if and only if it is the envelope of that payload and that
  signature and the payload is the encoding of those claims.\<close>

theorem device_lease_envelope_exact:
  assumes "utf8_reader read_utf8"
  shows "decode_device_lease_envelope read_utf8 token = Inr (payload, signature, c)
    \<longleftrightarrow> encode_device_lease_envelope read_utf8 payload signature = Inr token \<and> encode_device_lease_payload c = Inr payload"
  by (rule envelope_exact [OF assms])

section \<open>Proofs and digests\<close>

datatype json_item = JsonText string | JsonInt int

definition device_operation_fields :: "lease_purpose \<Rightarrow> string list option" where
  "device_operation_fields purpose = (case purpose of
     Exchange \<Rightarrow> Some [''attempt_handle'', ''code'', ''code_verifier'', ''redirect_uri'', ''operation_id'']
   | Renew \<Rightarrow> Some [''binding_id'', ''generation'', ''operation_id'']
   | Retire \<Rightarrow> None)"

text \<open>A body lists its values in the order of the fields; only \<open>generation\<close> is a number.\<close>

definition item_ok :: "json_item \<Rightarrow> unit outcome" where
  "item_ok v = (case v of
     JsonInt n \<Rightarrow> rbind (safe_integer_value n) (\<lambda>_. if n < 1 then Inl ''invalid_generation'' else Inr ())
   | JsonText s \<Rightarrow> rbind (safe_text_value s) (\<lambda>_. Inr ()))"

fun items_ok :: "string list \<Rightarrow> json_item list \<Rightarrow> unit outcome" where
  "items_ok (f # fs) (v # vs) =
     (if (f = ''generation'') \<noteq> (case v of JsonInt _ \<Rightarrow> True | JsonText _ \<Rightarrow> False) then Inl ''invalid_fields''
      else rbind (item_ok v) (\<lambda>_. items_ok fs vs))"
| "items_ok [] [] = Inr ()"
| "items_ok _ _ = Inl ''invalid_fields''"

definition json_item_text :: "json_item \<Rightarrow> string" where
  "json_item_text v = (case v of JsonText s \<Rightarrow> json_string s | JsonInt n \<Rightarrow> dec (nat n))"

definition device_operation_body :: "lease_purpose \<Rightarrow> json_item list \<Rightarrow> byte list outcome" where
  "device_operation_body purpose values = (case device_operation_fields purpose of
     None \<Rightarrow> Inl ''invalid_purpose''
   | Some fs \<Rightarrow> rbind (items_ok fs values) (\<lambda>_. Inr (utf8 (''['' @ js_join '','' (List.map json_item_text values) @ '']''))))"

definition purpose_text :: "lease_purpose \<Rightarrow> string" where
  "purpose_text p = (case p of Exchange \<Rightarrow> ''exchange'' | Renew \<Rightarrow> ''renew'' | Retire \<Rightarrow> ''retire'')"

definition device_operation_digest_input :: "lease_purpose \<Rightarrow> string \<Rightarrow> json_item list \<Rightarrow> byte list outcome" where
  "device_operation_digest_input purpose key_id body =
     (if \<not> device_key_text key_id then Inl ''invalid_identity''
      else rbind (device_operation_body purpose body) (\<lambda>semantic. rbind (safe_text_value (purpose_text purpose)) (\<lambda>pt.
        rbind (safe_text_value key_id) (\<lambda>kt.
          Inr (utf8 (js_join [newline] [''lcc-device-operation-v1'', pt, kt, encode_base64url semantic, []]))))))"

record device_proof =
  dp_audience :: string
  dp_method :: string
  dp_path :: string
  dp_key_id :: string
  dp_operation_id :: string
  dp_body_sha256 :: string
  dp_challenge_id :: string
  dp_nonce :: string
  dp_expires_at :: int

definition proof_paths :: "string list" where
  "proof_paths = [''/v2/device-authorizations/exchange'', ''/v2/device-leases/renew'']"

definition proof_values :: "device_proof \<Rightarrow> claim list" where
  "proof_values p = [TextClaim (dp_audience p), TextClaim (dp_method p), TextClaim (dp_path p), TextClaim (dp_key_id p),
     TextClaim (dp_operation_id p), TextClaim (dp_body_sha256 p), TextClaim (dp_challenge_id p), TextClaim (dp_nonce p),
     IntClaim (dp_expires_at p)]"

fun encode_values :: "claim list \<Rightarrow> string list outcome" where
  "encode_values [] = Inr []"
| "encode_values (v # vs) = rbind (encode_claim v) (\<lambda>t. rbind (encode_values vs) (\<lambda>ts. Inr (t # ts)))"

definition device_proof_signing_input :: "device_proof \<Rightarrow> byte list outcome" where
  "device_proof_signing_input p =
     (if dp_method p \<noteq> ''POST'' \<or> dp_path p \<notin> set proof_paths \<or> \<not> device_key_text (dp_key_id p)
        \<or> \<not> (length (dp_body_sha256 p) = 64 \<and> list_all lower_hex (dp_body_sha256 p)) then Inl ''invalid_intent''
      else rbind (encode_values (proof_values p)) (\<lambda>ts. Inr (utf8 (js_join [newline] (''lcc-device-proof-v2'' # ts @ [[]])))))"

end
