(* ===== verification/Lease_Proof.thy ===== *)
theory Lease_Proof
  imports Lease_Token Backup_Answers
begin

text \<open>
  What the device signs and what the server remembers of an operation: the bytes of a proof and the input of
  an operation's digest determine the request they are made from.
\<close>

section \<open>JSON texts are prefix free\<close>

lemma json_char_cases: 
  "json_char c = (if code_unit c \<in> {34, 92} then [from_unit 92, c]
     else if code_unit c \<in> {8, 9, 10, 12, 13} then [from_unit 92, from_unit (if code_unit c = 8 then 98 else if code_unit c = 9 then 116 else if code_unit c = 10 then 110
        else if code_unit c = 12 then 102 else 114)]
     else if code_unit c < 32 then from_unit 92 # from_unit 117 # ''00'' @ hex_byte (word_of_nat (code_unit c)) else [c])"
proof -
  have "''b'' = [from_unit 98]" "''f'' = [from_unit 102]" "''n'' = [from_unit 110]" "''r'' = [from_unit 114]" "''t'' = [from_unit 116]"
    "''u00'' = from_unit 117 # ''00''" by code_simp+
  then show ?thesis unfolding json_char_def Let_def by auto
qed

lemma json_char_prefix_free:
  assumes "json_char a @ x = json_char b @ y"
  shows "a = b \<and> x = y"
proof -
  have u: "code_unit c = n" if "c = from_unit n" "n < 256" for c n using that by simp
  have h: "word_of_nat (code_unit a) = (word_of_nat (code_unit b) :: byte) \<Longrightarrow> a = b"
    using of_nat_byte_eq [of "code_unit a" "code_unit b"] by (simp add: code_unit_eq_iff)
  have l: "hex_byte u @ x = hex_byte v @ y \<Longrightarrow> u = v \<and> x = y" for u v :: byte
    using hex_byte_inj [of u v] by (simp add: hex_byte_def)
  show ?thesis
    using assms unfolding json_char_cases
    by (auto simp flip: code_unit_eq_iff split: if_splits dest!: l h)
qed


definition quote :: char where
  "quote = from_unit 34"

lemma json_char_not_quote: "json_char c @ x \<noteq> quote # y"
proof -
  have "from_unit 92 \<noteq> (from_unit 34 :: char)" by code_simp
  moreover have "c = from_unit 34 \<Longrightarrow> code_unit c = 34" by simp
  ultimately show ?thesis unfolding quote_def json_char_cases by auto
qed

lemma json_chars_prefix_free: "concat (List.map json_char a) @ quote # x = concat (List.map json_char b) @ quote # y \<Longrightarrow> a = b \<and> x = y"
proof (induction a arbitrary: b)
  case Nil
  then show ?case using json_char_not_quote by (cases b) (auto simp: append_assoc dest: sym)
next
  case (Cons c a)
  then obtain d b' where b: "b = d # b'" using json_char_not_quote by (cases b) (auto simp: append_assoc)
  from Cons.prems have "json_char c @ (concat (List.map json_char a) @ quote # x) = json_char d @ (concat (List.map json_char b') @ quote # y)"
    by (simp add: b)
  from json_char_prefix_free [OF this] Cons.IH [of b'] show ?case by (simp add: b)
qed

lemma json_string_prefix_free: "json_string a @ x = json_string b @ y \<Longrightarrow> a = b \<and> x = y"
  using json_chars_prefix_free [of a x b y] by (simp add: json_string_def flip: quote_def)

lemma digits_prefix_free:
  assumes "list_all js_digit a" and "list_all js_digit b" and "\<not> js_digit p" and "\<not> js_digit q" and "a @ p # x = b @ q # y"
  shows "a = b \<and> p # x = q # y"
  using assms by (induction a arbitrary: b) (case_tac [!] b, auto)

definition item_kind :: "json_item \<Rightarrow> bool" where
  "item_kind v = (case v of JsonInt _ \<Rightarrow> True | JsonText _ \<Rightarrow> False)"

lemma item_prefix_free:
  assumes "item_kind v = item_kind w" and "item_ok v = Inr ()" and "item_ok w = Inr ()" and "\<not> js_digit p" and "\<not> js_digit q"
    and "json_item_text v @ p # x = json_item_text w @ q # y"
  shows "v = w \<and> p # x = q # y"
proof (cases v)
  case (JsonText s)
  with assms(1) obtain t where t: "w = JsonText t" by (cases w) (auto simp: item_kind_def)
  with JsonText assms(6) show ?thesis using json_string_prefix_free [of s "p # x" t "q # y"] by (simp add: json_item_text_def)
next
  case (JsonInt m)
  with assms(1) obtain n where n: "w = JsonInt n" by (cases w) (auto simp: item_kind_def)
  have "dec (nat m) = dec (nat n) \<and> p # x = q # y"
    by (rule digits_prefix_free) (use assms JsonInt n in \<open>auto simp: json_item_text_def list_all_iff dest: dec_digit\<close>)
  moreover have "1 \<le> m" "1 \<le> n" using assms(2,3) JsonInt n by (auto simp: item_ok_def rbind_Inr_iff split: if_splits)
  ultimately show ?thesis using JsonInt n by (auto simp: dec_inj nat_eq_iff2)
qed

lemma items_inj:
  assumes "items_ok fs vs = Inr ()" and "items_ok fs ws = Inr ()"
    and "js_join '','' (List.map json_item_text vs) @ '']'' = js_join '','' (List.map json_item_text ws) @ '']''"
  shows "vs = ws"
  using assms
proof (induction fs vs arbitrary: ws rule: items_ok.induct)
  case (1 f fs v vs)
  from 1(3) obtain w ws' where ws: "ws = w # ws'" by (cases ws) auto
  have ok: "item_ok v = Inr ()" "items_ok fs vs = Inr ()" "item_ok w = Inr ()" "items_ok fs ws' = Inr ()" "item_kind v = item_kind w"
    using 1(2,3) unfolding ws by (auto simp: item_kind_def rbind_Inr_iff split: if_splits)
  have d: "\<not> js_digit (CHR '','')" "\<not> js_digit (CHR '']'')" by code_simp+
  have len: "items_ok fs xs = Inr () \<Longrightarrow> length xs = length fs" for fs xs
    by (induction fs xs rule: items_ok.induct) (auto simp: rbind_Inr_iff split: if_splits)
  show ?case
  proof (cases vs)
    case Nil
    with len ok(2,4) have "ws' = []" by (metis length_0_conv)
    with Nil 1(4) item_prefix_free [OF ok(5,1,3) d(2) d(2), of "[]" "[]"] show ?thesis by (simp add: ws)
  next
    case (Cons v2 vs2)
    with len ok(2,4) obtain w2 ws2 where ws': "ws' = w2 # ws2" by (metis length_0_conv list.exhaust)
    have "json_item_text v @ CHR '','' # (js_join '','' (List.map json_item_text vs) @ '']'')
        = json_item_text w @ CHR '','' # (js_join '','' (List.map json_item_text ws') @ '']'')"
      using 1(4) by (simp add: ws Cons ws')
    from item_prefix_free [OF ok(5,1,3) d(1) d(1) this]
    have "v = w" "js_join '','' (List.map json_item_text vs) @ '']'' = js_join '','' (List.map json_item_text ws') @ '']''" by simp_all
    moreover have "(f = ''generation'') = (case v of JsonInt _ \<Rightarrow> True | JsonText _ \<Rightarrow> False)" using 1(2) by (auto split: if_splits)
    ultimately show ?thesis using 1(1) [of "()" ws'] ok by (simp add: ws)
  qed
qed (auto elim: items_ok.elims)

section \<open>Lines\<close>

lemma join_trailing: "ls \<noteq> [] \<Longrightarrow> js_join [e] (ls @ [[]]) = js_join [e] ls @ [e]"
proof (induction ls)
  case (Cons w ls)
  then show ?case by (cases ls) auto
qed simp

lemma joined_lines_inj:
  assumes "js_join [newline] (as @ [[]]) = js_join [newline] (bs @ [[]])" and "as \<noteq> []" and "bs \<noteq> []"
    and "\<forall>w\<in>set as. newline \<notin> set w" and "\<forall>w\<in>set bs. newline \<notin> set w"
  shows "as = bs"
proof -
  have "as @ [[]] = bs @ [[]]"
    using split_join [of as newline] split_join [of bs newline] assms by (metis join_trailing)
  then show ?thesis by simp
qed

lemma safe_text_inj: "safe_text_value s = Inr a \<Longrightarrow> safe_text_value t = Inr a \<Longrightarrow> s = t"
  by (auto simp: safe_text_value_def base64url_inj utf8_inj split: if_splits)

lemma safe_integer_inj: "safe_integer_value m = Inr a \<Longrightarrow> safe_integer_value n = Inr a \<Longrightarrow> m = n"
  using decode_int_dec by (metis sum.inject(2))

lemma safe_text_plain: "safe_text_value s = Inr a \<Longrightarrow> newline \<notin> set a"
  using encode_claim_chars [of "TextClaim s" a] by (auto simp: encode_claim_def)

lemma encode_values_plain: "encode_values vs = Inr ts \<Longrightarrow> w \<in> set ts \<Longrightarrow> newline \<notin> set w"
  using encode_claim_chars by (induction vs arbitrary: ts) (fastforce simp: rbind_Inr_iff)+

definition claim_kind :: "claim \<Rightarrow> bool" where
  "claim_kind v = (case v of IntClaim _ \<Rightarrow> True | TextClaim _ \<Rightarrow> False)"

lemma encode_claim_inj: "encode_claim v = Inr a \<Longrightarrow> encode_claim w = Inr a \<Longrightarrow> claim_kind v = claim_kind w \<Longrightarrow> v = w"
  by (auto simp: encode_claim_def claim_kind_def split: claim.splits dest: safe_text_inj safe_integer_inj)

lemma encode_values_inj:
  "encode_values vs = Inr ts \<Longrightarrow> encode_values ws = Inr ts \<Longrightarrow> List.map claim_kind vs = List.map claim_kind ws \<Longrightarrow> vs = ws"
proof (induction vs arbitrary: ts ws)
  case (Cons v vs)
  then obtain w ws' where ws: "ws = w # ws'" by (cases ws) auto
  with Cons.prems show ?case using Cons.IH [of _ ws'] by (auto simp: rbind_Inr_iff dest: encode_claim_inj)
qed simp

text \<open>C37. A proof's signature covers everything the request states: two intents with the same bytes to sign are the
  same intent.\<close>

theorem device_proof_input_inj:
  assumes "device_proof_signing_input p = Inr bytes" and "device_proof_signing_input q = Inr bytes"
  shows "p = q"
proof -
  have n: "newline \<notin> set ''lcc-device-proof-v2''" by code_simp
  have form: "\<exists>ts. encode_values (proof_values p) = Inr ts \<and> bytes = utf8 (js_join [newline] ((''lcc-device-proof-v2'' # ts) @ [[]]))"
    if "device_proof_signing_input p = Inr bytes" for p
    using that unfolding device_proof_signing_input_def
    by (auto simp only: rbind_Inr_iff sum.inject sum.simps append.simps split: if_splits)
  from form [OF assms(1)] form [OF assms(2)] obtain ts us where ts: "encode_values (proof_values p) = Inr ts"
    and us: "encode_values (proof_values q) = Inr us"
    and b: "js_join [newline] ((''lcc-device-proof-v2'' # ts) @ [[]]) = js_join [newline] ((''lcc-device-proof-v2'' # us) @ [[]])"
    by (metis utf8_inj)
  have "''lcc-device-proof-v2'' # ts = ''lcc-device-proof-v2'' # us"
    by (rule joined_lines_inj [OF b]) (use n encode_values_plain [OF ts] encode_values_plain [OF us] in auto)
  with ts us have "proof_values p = proof_values q"
    by (intro encode_values_inj [OF ts]) (simp_all add: proof_values_def claim_kind_def)
  then show "p = q" by (simp add: proof_values_def)
qed

text \<open>The digest of an operation binds its purpose, the device's key and every value of its body.\<close>

theorem device_operation_digest_inj:
  assumes "device_operation_digest_input p key vs = Inr bytes" and "device_operation_digest_input p' key' ws = Inr bytes"
  shows "p = p' \<and> key = key' \<and> vs = ws"
proof -
  have n: "newline \<notin> set ''lcc-device-operation-v1''" by code_simp
  have plain: "newline \<notin> set (encode_base64url x)" for x using base64url_chars newline_not by blast
  have form: "\<exists>b pt kt. device_operation_body p vs = Inr b \<and> safe_text_value (purpose_text p) = Inr pt \<and> safe_text_value key = Inr kt
      \<and> bytes = utf8 (js_join [newline] ([''lcc-device-operation-v1'', pt, kt, encode_base64url b] @ [[]]))"
    if "device_operation_digest_input p key vs = Inr bytes" for p key vs
    using that unfolding device_operation_digest_input_def
    by (auto simp only: rbind_Inr_iff sum.inject sum.simps append.simps split: if_splits)
  from form [OF assms(1)] form [OF assms(2)] obtain b pt kt b' pt' kt' where
    1: "device_operation_body p vs = Inr b" "safe_text_value (purpose_text p) = Inr pt" "safe_text_value key = Inr kt"
    and 2: "device_operation_body p' ws = Inr b'" "safe_text_value (purpose_text p') = Inr pt'" "safe_text_value key' = Inr kt'"
    and e: "js_join [newline] ([''lcc-device-operation-v1'', pt, kt, encode_base64url b] @ [[]])
      = js_join [newline] ([''lcc-device-operation-v1'', pt', kt', encode_base64url b'] @ [[]])"
    by (metis utf8_inj)
  have "[''lcc-device-operation-v1'', pt, kt, encode_base64url b] = [''lcc-device-operation-v1'', pt', kt', encode_base64url b']"
    by (rule joined_lines_inj [OF e]) (use n plain safe_text_plain 1 2 in auto)
  then have same: "pt = pt'" "kt = kt'" "b = b'" by (simp_all add: base64url_inj)
  have p: "p = p'" using safe_text_inj [of "purpose_text p" pt "purpose_text p'"] 1(2) 2(2) same(1) by (auto simp: purpose_text_def split: lease_purpose.splits)
  have key: "key = key'" using safe_text_inj 1(3) 2(3) same(2) by blast
  obtain fs where fs: "device_operation_fields p = Some fs" using 1(1) by (auto simp: device_operation_body_def split: option.splits)
  have ok: "items_ok fs vs = Inr ()" "items_ok fs ws = Inr ()"
    and t: "utf8 (''['' @ js_join '','' (List.map json_item_text vs) @ '']'') = utf8 (''['' @ js_join '','' (List.map json_item_text ws) @ '']'')"
    using 1(1) 2(1) fs unfolding same(3) p [symmetric] by (auto simp: device_operation_body_def rbind_Inr_iff)
  from t have "js_join '','' (List.map json_item_text vs) @ '']'' = js_join '','' (List.map json_item_text ws) @ '']''"
    by (simp only: utf8_inj append.simps list.inject simp_thms)
  with items_inj [OF ok] p key show ?thesis by blast
qed


section \<open>Concrete leases and proofs\<close>

text \<open>A decoder for the characters of the model: one byte below 128, two from there on.\<close>

fun latin_reader :: "byte list \<Rightarrow> string option" where
  "latin_reader [] = Some []"
| "latin_reader (a # rest) =
     (if unat a < 128 then map_option (\<lambda>s. from_unit (unat a) # s) (latin_reader rest)
      else if a = 194 \<or> a = 195 then (case rest of [] \<Rightarrow> None | b # rest' \<Rightarrow>
        if 128 \<le> unat b \<and> unat b < 192 then map_option (\<lambda>s. from_unit (64 * (unat a - 192) + (unat b - 128)) # s) (latin_reader rest') else None)
      else None)"

lemma unat_of_byte: "n < 256 \<Longrightarrow> unat (of_nat n :: byte) = n"
  by (simp add: unat_of_nat)

lemma second_quarter: "128 \<le> n \<Longrightarrow> n < 256 \<Longrightarrow> n div 64 = 2 \<or> n div 64 = (3::nat)"
proof -
  assume "128 \<le> n" "n < 256"
  then have "2 \<le> n div 64" "n div 64 < 4" by (simp_all add: less_eq_div_iff_mult_less_eq div_less_iff_less_mult)
  then show ?thesis by linarith
qed

lemma latin_reader_utf8: "latin_reader (utf8 s) = Some s"
proof (induction s)
  case (Cons c s)
  show ?case
  proof (cases "code_unit c < 128")
    case True
    with Cons show ?thesis by (simp add: utf8_def utf8_char_cases unat_of_byte)
  next
    case False
    let ?u = "code_unit c"
    have u: "?u < 256" by simp
    with False have d: "?u div 64 = 2 \<or> ?u div 64 = 3" by (intro second_quarter) simp_all
    then have "(of_nat (192 + ?u div 64) :: byte) = 194 \<or> (of_nat (192 + ?u div 64) :: byte) = 195" by auto
    moreover have "unat (of_nat (192 + ?u div 64) :: byte) = 192 + ?u div 64" "unat (of_nat (128 + ?u mod 64) :: byte) = 128 + ?u mod 64"
      by (rule unat_of_byte; use d in auto)+
    moreover have "?u mod 64 < 64" "64 * (?u div 64) + ?u mod 64 = ?u" by simp_all
    ultimately show ?thesis using Cons False by (simp add: utf8_def utf8_char_cases del: of_nat_add)
  qed
qed (simp add: utf8_def)

lemma latin_reader_only: "latin_reader bs = Some s \<Longrightarrow> bs = utf8 s"
proof (induction bs arbitrary: s rule: latin_reader.induct)
  case (2 a rest)
  show ?case
  proof (cases "unat a < 128")
    case True
    with 2 obtain t where t: "s = from_unit (unat a) # t" "rest = utf8 t" by auto
    with True show ?thesis by (simp add: utf8_def utf8_char_cases)
  next
    case False
    with 2(3) obtain b rest' where r: "rest = b # rest'" and a: "a = 194 \<or> a = 195" and b: "128 \<le> unat b" "unat b < 192"
      by (auto split: if_splits list.splits)
    with False 2(3) obtain t where t: "s = from_unit (64 * (unat a - 192) + (unat b - 128)) # t" "latin_reader rest' = Some t"
      by auto
    with 2(2) [OF False a r _ t(2)] b have rest': "rest' = utf8 t" by simp
    let ?u = "64 * (unat a - 192) + (unat b - 128)"
    have v: "unat a = 194 \<or> unat a = 195" using a by auto
    have u: "128 \<le> ?u" "?u < 256" using v b by auto
    have "(64 * k + x) div 64 = k \<and> (64 * k + x) mod 64 = x" if "x < 64" for k x :: nat using that by simp
    moreover have "unat b - 128 < 64" using b by simp
    ultimately have "?u div 64 = unat a - 192" "?u mod 64 = unat b - 128" by blast+
    with v b have "192 + ?u div 64 = unat a" "128 + ?u mod 64 = unat b" by auto
    then have "utf8_char (from_unit ?u) = [a, b]" using u utf8_char_cases(2) [of "from_unit ?u"] by simp
    with t r rest' show ?thesis by (simp add: utf8_def)
  qed
qed (simp add: utf8_def)

lemma latin_reader_ok: "utf8_reader latin_reader"
  using latin_reader_utf8 latin_reader_only by (auto simp: utf8_reader_def)

definition sample_hash :: string where
  "sample_hash = ''sha256:'' @ replicate 64 (CHR ''a'')"

definition sample_claims :: lease_claims where
  "sample_claims = \<lparr>lc_version = 1, lc_purpose = ''device-lease'', lc_key_id = sample_hash, lc_issuer = ''issuer'', lc_audience = ''app'',
     lc_project = ''demo'', lc_feature = ''pro'', lc_fingerprint = replicate 64 (CHR ''0''), lc_binding_id = encode_base64url (replicate 16 7),
     lc_device_key_id = sample_hash, lc_generation = 1, lc_revocation_seq = 0, lc_lease_id = encode_base64url (replicate 16 9),
     lc_operation_id = encode_base64url (replicate 32 5), lc_issued_at = 1000, lc_renew_after = 1150, lc_expires_at = 1300\<rparr>"

lemma sample_payload: "\<exists>bytes. encode_device_lease_payload sample_claims = Inr bytes"
proof -
  have "\<not> isl (encode_device_lease_payload sample_claims)" by code_simp
  then show ?thesis by (cases "encode_device_lease_payload sample_claims") auto
qed

theorem device_lease_payload_exact_witness:
  "\<exists>bytes. encode_device_lease_payload sample_claims = Inr bytes \<and> decode_device_lease_payload latin_reader bytes = Inr sample_claims"
  using sample_payload device_lease_payload_exact [OF latin_reader_ok, of _ sample_claims] by blast

definition sample_signature :: "byte list" where
  "sample_signature = replicate 384 3"

lemma sample_envelope: "\<exists>payload token. encode_device_lease_payload sample_claims = Inr payload
    \<and> encode_device_lease_envelope latin_reader payload sample_signature = Inr token"
proof -
  obtain payload where p: "encode_device_lease_payload sample_claims = Inr payload" using sample_payload by blast
  from decode_encoded_payload [OF latin_reader_ok p] have d: "decode_device_lease_payload latin_reader payload = Inr sample_claims" .
  have "length (encode_base64url payload) \<le> 5462"
    using decoded_small [OF d] div_le_mono [of "4 * length payload + 2" 16386 3] by (simp add: encode_sextets length_sextets)
  moreover have "length (encode_base64url sample_signature) = 512" by (simp add: encode_sextets length_sextets sample_signature_def)
  ultimately have "\<not> 8192 < length (token_prefix @ encode_base64url payload @ ''.'' @ encode_base64url sample_signature)"
    by (simp add: token_prefix_def)
  with p d show ?thesis by (simp add: encode_device_lease_envelope_def Let_def sample_signature_def)
qed

theorem device_lease_envelope_exact_witness:
  "\<exists>payload token. encode_device_lease_payload sample_claims = Inr payload
    \<and> decode_device_lease_envelope latin_reader token = Inr (payload, sample_signature, sample_claims)"
  using sample_envelope device_lease_envelope_exact [OF latin_reader_ok] by blast

definition sample_proof :: device_proof where
  "sample_proof = \<lparr>dp_audience = ''app'', dp_method = ''POST'', dp_path = ''/v2/device-leases/renew'', dp_key_id = sample_hash,
     dp_operation_id = ''op'', dp_body_sha256 = replicate 64 (CHR ''b''), dp_challenge_id = ''ch'', dp_nonce = ''n'', dp_expires_at = 1300\<rparr>"

theorem device_proof_input_inj_witness:
  "\<exists>bytes. device_proof_signing_input sample_proof = Inr bytes \<and> (\<forall>q. device_proof_signing_input q = Inr bytes \<longrightarrow> sample_proof = q)"
proof -
  have "\<not> isl (device_proof_signing_input sample_proof)" by code_simp
  then obtain bytes where b: "device_proof_signing_input sample_proof = Inr bytes" by (cases "device_proof_signing_input sample_proof") auto
  with device_proof_input_inj [OF b] show ?thesis by blast
qed

definition sample_body :: "json_item list" where
  "sample_body = [JsonText ''binding'', JsonInt 1, JsonText ''op'']"

theorem device_operation_digest_inj_witness:
  "\<exists>bytes. device_operation_digest_input Renew sample_hash sample_body = Inr bytes
    \<and> (\<forall>p' key' ws. device_operation_digest_input p' key' ws = Inr bytes \<longrightarrow> Renew = p' \<and> sample_hash = key' \<and> sample_body = ws)"
proof -
  have "\<not> isl (device_operation_digest_input Renew sample_hash sample_body)" by code_simp
  then obtain bytes where b: "device_operation_digest_input Renew sample_hash sample_body = Inr bytes"
    by (cases "device_operation_digest_input Renew sample_hash sample_body") auto
  with device_operation_digest_inj [OF b] show ?thesis by blast
qed

end
