(* ===== verification/Lease_Retire.thy ===== *)
theory Lease_Retire
  imports Lease_Effect Lease_Proof
begin

text \<open>
  Disconnecting a device from a grant (\<open>device/bound_retire.mjs\<close>): the binding stops being active and its
  place stays taken until the last lease issued for it has run out.
\<close>

section \<open>Requests\<close>

record retire_request =
  rt_customer_id :: string
  rt_binding_id :: string
  rt_operation_id :: string
  rt_expected :: int
  rt_actor :: string
  rt_digest :: string

record retire_candidate = retire_request +
  rt_invocation_id :: string
  rt_generation :: int
  rt_customer_revision :: int
  rt_device_revision :: int
  rt_entitlement_revision :: int

text \<open>\<open>ownedBinding\<close>: the binding, its device and its owner, when the account owns device and grant and is active.\<close>

definition owned_binding :: "lease_db \<Rightarrow> string \<Rightarrow> string \<Rightarrow> (bound_binding \<times> bound_device \<times> account) option" where
  "owned_binding d binding_id customer_id =
     obind (find_binding d binding_id) (\<lambda>b. obind (find_device d (bi_device_id b)) (\<lambda>v.
       obind (find_grant (ld_core d) (bi_key b)) (\<lambda>g. obind (find_account d customer_id) (\<lambda>a.
         if dv_project v = fst (bi_key b) \<and> dv_customer_id v = customer_id \<and> g_customer_id g = customer_id \<and> ac_active a
         then Some (b, v, a) else None))))"

definition retire_revisions :: "retire_candidate \<Rightarrow> lease_db \<Rightarrow> bound_binding \<times> bound_device \<times> account \<Rightarrow> bool" where
  "retire_revisions p d row = (case row of (b, v, a) \<Rightarrow>
     ac_revision a = rt_customer_revision p \<and> dv_revision v = rt_device_revision p \<and> ld_authority d (bi_key b) = rt_entitlement_revision p)"

section \<open>The statements\<close>

definition retire_operation :: "retire_candidate \<Rightarrow> string \<Rightarrow> bound_binding \<Rightarrow> int \<Rightarrow> bound_operation" where
  "retire_operation p key b now = \<lparr>op_key_id = key, op_purpose = Retire, op_operation_id = rt_operation_id p,
     op_invocation_id = rt_invocation_id p, op_digest = rt_digest p, op_customer_id = rt_customer_id p, op_binding_id = bi_id b,
     op_lease_id = None, op_complete = False,
     op_response = RetireAnswer \<lparr>ra_binding_id = bi_id b, ra_effective_release_at = max (bi_hold_until b) now,
       ra_revision = bi_revision b + 1, ra_generation = bi_generation b + 1\<rparr>,
     op_committed_at = now, op_retain_until = now + 172800\<rparr>"

definition retirable :: "retire_candidate \<Rightarrow> bound_binding \<Rightarrow> bool" where
  "retirable p b \<longleftrightarrow> bi_state b = Active \<and> bi_revision b = rt_expected p \<and> bi_generation b = rt_generation p"

definition retire_guard :: "retire_candidate \<Rightarrow> lease_command" where
  "retire_guard p d = (case owned_binding d (rt_binding_id p) (rt_customer_id p) of
     None \<Rightarrow> Inr ([], d)
   | Some (b, v, a) \<Rightarrow>
       if retire_revisions p d (b, v, a) \<and> retirable p b \<and> dv_active v \<and> bi_revision b < int max_safe_integer
         \<and> bi_generation b < int max_safe_integer
       then insert_operation (retire_operation p (dv_key_id v) b (ld_now d)) d else Inr ([], d))"

definition fresh_retirement :: "retire_candidate \<Rightarrow> bound_operation \<Rightarrow> bool" where
  "fresh_retirement p o' \<longleftrightarrow> op_invocation_id o' = rt_invocation_id p \<and> op_customer_id o' = rt_customer_id p
     \<and> op_binding_id o' = rt_binding_id p \<and> op_purpose o' = Retire \<and> op_operation_id o' = rt_operation_id p
     \<and> op_digest o' = rt_digest p \<and> op_lease_id o' = None"

definition prepared_retirement :: "retire_candidate \<Rightarrow> lease_db \<Rightarrow> bound_operation option" where
  "prepared_retirement p d = find (\<lambda>o'. fresh_retirement p o' \<and> \<not> op_complete o') (ld_operations d)"

definition for_retirement :: "retire_candidate \<Rightarrow> (bound_operation \<Rightarrow> lease_command) \<Rightarrow> lease_command" where
  "for_retirement p f d = (case prepared_retirement p d of None \<Rightarrow> Inr ([], d) | Some o' \<Rightarrow> f o' d)"

definition retired_binding :: "bound_operation \<Rightarrow> bound_binding \<Rightarrow> bound_binding" where
  "retired_binding o' b = b\<lparr>bi_state := Retiring, bi_generation := bi_generation b + 1, bi_revision := bi_revision b + 1,
     bi_updated_at := op_committed_at o'\<rparr>"

definition retire_binding :: "retire_candidate \<Rightarrow> lease_command" where
  "retire_binding p = for_retirement p (\<lambda>o' d.
     if list_ex (\<lambda>b. bi_id b = op_binding_id o' \<and> retirable p b
          \<and> (int max_safe_integer \<le> bi_generation b \<or> int max_safe_integer \<le> bi_revision b)) (ld_bindings d)
     then Inl ''CHECK constraint failed: device_bound_bindings''
     else Inr ([], d\<lparr>ld_bindings := List.map (\<lambda>b. if bi_id b = op_binding_id o' \<and> retirable p b then retired_binding o' b else b)
       (ld_bindings d)\<rparr>))"

definition retire_event :: "retire_candidate \<Rightarrow> bound_operation \<Rightarrow> bound_event" where
  "retire_event p o' = \<lparr>be_invocation_id = op_invocation_id o', be_binding_id = op_binding_id o', be_customer_id = op_customer_id o',
     be_type = Retire, be_actor = rt_actor p, be_occurred_at = op_committed_at o'\<rparr>"

definition audit_retirement :: "retire_candidate \<Rightarrow> lease_command" where
  "audit_retirement p = for_retirement p (\<lambda>o'. insert_bound_event (retire_event p o'))"

definition finish_retirement :: "retire_candidate \<Rightarrow> lease_command" where
  "finish_retirement p = for_retirement p (\<lambda>o' d. Inr ([], d\<lparr>ld_operations :=
     List.map (\<lambda>q. if op_invocation_id q = op_invocation_id o' then q\<lparr>op_complete := True\<rparr> else q) (ld_operations d)\<rparr>))"

definition retirement_recorded :: "retire_candidate \<Rightarrow> bound_binding \<Rightarrow> bound_device \<Rightarrow> bound_operation \<Rightarrow> bound_event \<Rightarrow> bool" where
  "retirement_recorded p b v o' e \<longleftrightarrow> be_invocation_id e = op_invocation_id o' \<and> fresh_retirement p o' \<and> op_complete o' \<and> op_key_id o' = dv_key_id v
     \<and> op_response o' = RetireAnswer \<lparr>ra_binding_id = bi_id b, ra_effective_release_at = max (bi_hold_until b) (op_committed_at o'),
         ra_revision = bi_revision b, ra_generation = bi_generation b\<rparr>
     \<and> be_binding_id e = bi_id b \<and> be_customer_id e = rt_customer_id p \<and> be_type e = Retire \<and> be_actor e = rt_actor p
     \<and> be_occurred_at e = op_committed_at o' \<and> bi_updated_at b = op_committed_at o'"

definition retirement_complete :: "retire_candidate \<Rightarrow> lease_db \<Rightarrow> bool" where
  "retirement_complete p d \<longleftrightarrow> (case owned_binding d (rt_binding_id p) (rt_customer_id p) of
     None \<Rightarrow> False
   | Some (b, v, a) \<Rightarrow> retire_revisions p d (b, v, a) \<and> bi_state b = Retiring \<and> bi_revision b = rt_expected p + 1
       \<and> bi_generation b = rt_generation p + 1
       \<and> list_ex (\<lambda>o'. list_ex (retirement_recorded p b v o') (ld_events d)) (ld_operations d))"

definition assert_retirement :: "retire_candidate \<Rightarrow> lease_command" where
  "assert_retirement p d = insert_check (rt_invocation_id p) (retirement_complete p d) d"

definition retirement_result :: "retire_candidate \<Rightarrow> lease_command" where
  "retirement_result p d = Inr (List.map (\<lambda>o'. AnswerOut (op_response o'))
     (List.filter (\<lambda>o'. fresh_retirement p o' \<and> op_complete o') (ld_operations d)), d)"

definition bound_retire_sql :: "retire_candidate \<Rightarrow> lease_command list" where
  "bound_retire_sql p = [retire_guard p, retire_binding p, audit_retirement p, finish_retirement p, assert_retirement p,
     remove_check (rt_invocation_id p), retirement_result p]"

section \<open>The flow\<close>

text \<open>A refusal is a code and a status; other failures are thrown.\<close>

type_synonym refused = "string \<times> nat"

definition deny :: "string \<Rightarrow> nat \<Rightarrow> (refused + 'a) lease_io" where
  "deny code status = io_return (Inl (code, status))"

definition io_ok :: "(refused + 'a) lease_io \<Rightarrow> ('a \<Rightarrow> (refused + 'b) lease_io) \<Rightarrow> (refused + 'b) lease_io" where
  "io_ok m f = io_bind m (\<lambda>r. case r of Inl e \<Rightarrow> io_return (Inl e) | Inr x \<Rightarrow> f x)"

definition json_array :: "json_item list \<Rightarrow> string" where
  "json_array vs = ''['' @ js_join '','' (List.map json_item_text vs) @ '']''"

definition sized_base64url :: "nat \<Rightarrow> jsval \<Rightarrow> bool" where
  "sized_base64url n v \<longleftrightarrow> (case v of String s \<Rightarrow> (case decode_base64url s n of Inr bs \<Rightarrow> length bs = n | Inl _ \<Rightarrow> False) | _ \<Rightarrow> False)"

definition exact_keys :: "string list \<Rightarrow> jsval \<Rightarrow> bool" where
  "exact_keys ks v \<longleftrightarrow> is_object v \<and> length (keys_of v) = length ks \<and> (\<forall>k\<in>set ks. k \<in> set (keys_of v))"

text \<open>The binding, the expected revision and the operation; a negative zero is not a value of the model.\<close>

definition read_retire_request :: "jsval \<Rightarrow> (string \<times> int \<times> string) option" where
  "read_retire_request v =
     (if exact_keys [''binding_id'', ''expected_revision'', ''operation_id''] v \<and> sized_base64url 16 (field ''binding_id'' v)
        \<and> sized_base64url 32 (field ''operation_id'' v)
      then (case (field ''binding_id'' v, field ''expected_revision'' v, field ''operation_id'' v) of
          (String b, Number (Whole n), String o') \<Rightarrow> if 0 \<le> n \<and> n < int max_safe_integer then Some (b, n, o') else None
        | _ \<Rightarrow> None)
      else None)"

definition retire_intent :: "string \<Rightarrow> string \<Rightarrow> int \<Rightarrow> string \<Rightarrow> string" where
  "retire_intent customer_id binding_id expected actor =
     (if actor = ''customer'' then json_array [JsonText ''lcc-binding-retire-v1'', JsonText customer_id, JsonText binding_id, JsonInt expected]
      else json_array [JsonText ''lcc-binding-retire-operator-v1'', JsonText customer_id, JsonText binding_id, JsonInt expected, JsonText actor])"

definition retirement_current :: "'a retire_request_scheme \<Rightarrow> string \<Rightarrow> lease_db \<Rightarrow> retire_answer option" where
  "retirement_current p key d = obind (find_operation d key Retire (rt_operation_id p)) (\<lambda>o'.
     obind (owned_binding d (rt_binding_id p) (rt_customer_id p)) (\<lambda>(b, v, a). case op_response o' of
       RetireAnswer r \<Rightarrow>
         if bi_id b = op_binding_id o' \<and> op_customer_id o' = rt_customer_id p \<and> op_digest o' = rt_digest p \<and> op_complete o' \<and> op_lease_id o' = None
           \<and> ra_binding_id r = bi_id b \<and> ra_revision r = rt_expected p + 1 \<and> ld_now d < op_retain_until o'
           \<and> bi_state b \<noteq> Active \<and> bi_generation b = ra_generation r \<and> ra_revision r \<le> bi_revision b
           \<and> max (bi_hold_until b) (op_committed_at o') = ra_effective_release_at r
         then Some r else None
     | _ \<Rightarrow> None))"

definition cached_retirement :: "'a retire_request_scheme \<Rightarrow> string \<Rightarrow> (refused + retire_answer option) lease_io" where
  "cached_retirement p key =
     io_bind (db_read (\<lambda>d. map_option (\<lambda>o'. (o', ld_now d)) (find_operation d key Retire (rt_operation_id p)))) (\<lambda>found. case found of
       None \<Rightarrow> io_return (Inr None)
     | Some (o', now) \<Rightarrow>
         if op_digest o' \<noteq> rt_digest p then deny ''idempotency_conflict'' 409
         else if \<not> op_complete o' \<or> op_response o' = Erased \<or> op_retain_until o' \<le> now then deny ''idempotency_conflict'' 409
         else io_bind (db_read (retirement_current p key)) (\<lambda>r. case r of
             None \<Rightarrow> deny ''idempotency_conflict'' 409
           | Some r \<Rightarrow> io_return (Inr (Some r))))"

definition retire_answer_in :: "lease_out list list \<Rightarrow> retire_answer option" where
  "retire_answer_in results = (case answer_in results of Some (RetireAnswer r) \<Rightarrow> Some r | _ \<Rightarrow> None)"

text \<open>After the batch, or instead of its answer when the call was lost.\<close>

definition reconcile_retirement :: "'a retire_request_scheme \<Rightarrow> string \<Rightarrow> (refused + retire_answer) lease_io" where
  "reconcile_retirement p key =
     io_ok (cached_retirement p key) (\<lambda>winner. case winner of
       Some r \<Rightarrow> io_return (Inr r)
     | None \<Rightarrow>
         io_bind (db_read (\<lambda>d. owned_binding d (rt_binding_id p) (rt_customer_id p))) (\<lambda>current. case current of
           None \<Rightarrow> deny ''binding_unavailable'' 404
         | Some (b, v, a) \<Rightarrow>
             if bi_state b \<noteq> Active \<or> bi_revision b \<noteq> rt_expected p then deny ''revision_conflict'' 409
             else deny ''temporarily_unavailable'' 503))"

definition attempt_retirement :: "nat list \<Rightarrow> retire_candidate \<Rightarrow> string \<Rightarrow> (refused + retire_answer) lease_io" where
  "attempt_retirement paces p key =
     io_try (db_batch (paced paces (bound_retire_sql p))) (\<lambda>_. reconcile_retirement p key) (\<lambda>results.
       case retire_answer_in results of Some r \<Rightarrow> io_return (Inr r) | None \<Rightarrow> reconcile_retirement p key)"

definition retire_candidate_of ::
  "retire_request \<Rightarrow> string \<Rightarrow> bound_binding \<Rightarrow> bound_device \<Rightarrow> account \<Rightarrow> int \<Rightarrow> retire_candidate" where
  "retire_candidate_of p invocation b v a authority =
     \<lparr>rt_customer_id = rt_customer_id p, rt_binding_id = rt_binding_id p, rt_operation_id = rt_operation_id p, rt_expected = rt_expected p,
       rt_actor = rt_actor p, rt_digest = rt_digest p, rt_invocation_id = invocation, rt_generation = bi_generation b,
       rt_customer_revision = ac_revision a, rt_device_revision = dv_revision v, rt_entitlement_revision = authority\<rparr>"

definition retire_owned :: "string \<Rightarrow> nat list \<Rightarrow> retire_request \<Rightarrow> (refused + retire_answer) lease_io" where
  "retire_owned invocation paces p =
     io_bind (db_read (\<lambda>d. map_option (\<lambda>(b, v, a). (b, v, a, ld_authority d (bi_key b))) (owned_binding d (rt_binding_id p) (rt_customer_id p))))
       (\<lambda>row. case row of
         None \<Rightarrow> deny ''binding_unavailable'' 404
       | Some (b, v, a, authority) \<Rightarrow>
           io_ok (cached_retirement p (dv_key_id v)) (\<lambda>previous. case previous of
             Some r \<Rightarrow> io_return (Inr r)
           | None \<Rightarrow>
               if bi_state b \<noteq> Active \<or> bi_revision b \<noteq> rt_expected p \<or> int max_safe_integer \<le> bi_generation b
               then deny ''revision_conflict'' 409
               else attempt_retirement paces (retire_candidate_of p invocation b v a authority) (dv_key_id v)))"

definition retire_with_actor ::
  "(string \<Rightarrow> string) \<Rightarrow> string \<Rightarrow> nat list \<Rightarrow> string \<Rightarrow> jsval \<Rightarrow> string \<Rightarrow> (refused + retire_answer) lease_io" where
  "retire_with_actor secret_hash invocation paces customer_id request actor = (\<lambda>w.
     if customer_id = [] \<or> 256 < length customer_id then deny ''access_denied'' 403 w
     else case read_retire_request request of
         None \<Rightarrow> deny ''invalid_request'' 400 w
       | Some (binding_id, expected, operation_id) \<Rightarrow>
           if \<not> w_has_batch w then io_throw ''atomic_batch_required'' w
           else retire_owned invocation paces
             \<lparr>rt_customer_id = customer_id, rt_binding_id = binding_id, rt_operation_id = operation_id, rt_expected = expected,
               rt_actor = actor, rt_digest = secret_hash (retire_intent customer_id binding_id expected actor)\<rparr> w)"

definition retire_bound_binding ::
  "(string \<Rightarrow> string) \<Rightarrow> string \<Rightarrow> nat list \<Rightarrow> string \<Rightarrow> jsval \<Rightarrow> (refused + retire_answer) lease_io" where
  "retire_bound_binding secret_hash invocation paces customer_id request =
     retire_with_actor secret_hash invocation paces customer_id request ''customer''"

definition control_char :: "char \<Rightarrow> bool" where
  "control_char c \<longleftrightarrow> code_unit c < 32 \<or> code_unit c = 127"

definition operator_actor :: "jsval \<Rightarrow> string option" where
  "operator_actor v =
     (if exact_keys [''subject'', ''actor_type'', ''role''] v \<and> field ''role'' v = String ''admin''
      then (case (field ''actor_type'' v, field ''subject'' v) of
          (String kind, String subject) \<Rightarrow>
            if kind \<in> {''access'', ''dev''} \<and> subject \<noteq> [] \<and> length subject \<le> 256 \<and> \<not> list_ex control_char subject
            then Some (''operator:'' @ kind @ '':'' @ subject) else None
        | _ \<Rightarrow> None)
      else None)"

definition retire_bound_binding_as_operator ::
  "(string \<Rightarrow> string) \<Rightarrow> string \<Rightarrow> nat list \<Rightarrow> jsval \<Rightarrow> string \<Rightarrow> jsval \<Rightarrow> (refused + retire_answer) lease_io" where
  "retire_bound_binding_as_operator secret_hash invocation paces actor customer_id request =
     (case operator_actor actor of
        None \<Rightarrow> deny ''access_denied'' 403
      | Some a \<Rightarrow> retire_with_actor secret_hash invocation paces customer_id request a)"

end
