(* ===== verification/Lease_Retired.thy ===== *)
theory Lease_Retired
  imports Lease_Recovery Lease_Retire
begin

text \<open>
  What the batch of a retirement leaves: the binding stops being active and keeps its hold, or nothing
  but time passes.
\<close>

lemma no_retirement: "\<forall>q\<in>set (ld_operations x). op_complete q \<Longrightarrow> for_retirement p f x = Inr ([], x)"
proof -
  assume "\<forall>q\<in>set (ld_operations x). op_complete q"
  then have "prepared_retirement p x = None" by (simp add: prepared_retirement_def find_None_iff)
  then show ?thesis by (simp add: for_retirement_def)
qed

lemma retire_guard_cases:
  assumes "retire_guard p d = Inr (r, d1)"
  shows "d1 = d \<or> (\<exists>b v a. owned_binding d (rt_binding_id p) (rt_customer_id p) = Some (b, v, a) \<and> retirable p b
      \<and> (\<forall>q\<in>set (ld_operations d). op_invocation_id q \<noteq> rt_invocation_id p
           \<and> operation_key q \<noteq> operation_key (retire_operation p (dv_key_id v) b (ld_now d)))
      \<and> d1 = d\<lparr>ld_operations := ld_operations d @ [retire_operation p (dv_key_id v) b (ld_now d)]\<rparr>)"
  using assms by (auto simp: retire_guard_def insert_operation_def retire_operation_def operation_key_def list_ex_iff split: option.splits if_splits)

definition retire_effect_at :: "retire_candidate \<Rightarrow> int \<Rightarrow> bound_binding \<Rightarrow> bound_device \<Rightarrow> account \<Rightarrow> int \<Rightarrow> lease_db \<Rightarrow> lease_db \<Rightarrow> bool" where
  "retire_effect_at p t b v a m d d' \<longleftrightarrow> ld_now d \<le> t \<and> t \<le> m
     \<and> owned_binding d (rt_binding_id p) (rt_customer_id p) = Some (b, v, a) \<and> retirable p b
     \<and> (\<forall>q\<in>set (ld_operations d). op_invocation_id q \<noteq> rt_invocation_id p
          \<and> operation_key q \<noteq> operation_key (retire_operation p (dv_key_id v) b t))
     \<and> (let o' = retire_operation p (dv_key_id v) b t in
         d' = d\<lparr>ld_now := m, ld_operations := ld_operations d @ [o'\<lparr>op_complete := True\<rparr>],
           ld_bindings := List.map (\<lambda>c. if bi_id c = rt_binding_id p \<and> retirable p c then retired_binding o' c else c) (ld_bindings d),
           ld_events := ld_events d @ [retire_event p o']\<rparr>)"

lemma owned_binding_id: "owned_binding d i c = Some (b, v, a) \<Longrightarrow> bi_id b = i \<and> find_binding d i = Some b"
  by (auto simp: owned_binding_def obind_def find_binding_def find_Some_iff split: option.splits if_splits)

lemma owned_binding_time [simp]: "owned_binding (at_time t d) i c = owned_binding d i c"
  by (simp add: owned_binding_def find_binding_def find_device_def find_account_def)

lemma map_completed:
  assumes "\<forall>q\<in>set os. op_invocation_id q \<noteq> op_invocation_id o'"
  shows "List.map (\<lambda>q. if op_invocation_id q = op_invocation_id o' then q\<lparr>op_complete := True\<rparr> else q) os = os"
  using assms by (simp add: list.map_ident_strong)

lemma retire_batch_effect:
  assumes run: "run_statements (paced ns (bound_retire_sql p)) d = Inr (rs, d')" and complete: "\<forall>q\<in>set (ld_operations d). op_complete q"
  shows "(\<exists>f. ld_now d \<le> f \<and> f \<le> ld_now d' \<and> d' = at_time (ld_now d') d \<and> retirement_complete p (at_time f d)
      \<and> answer_in rs = map_option op_response (find (\<lambda>o'. fresh_retirement p o' \<and> op_complete o') (ld_operations d)))
    \<or> (\<exists>t b v a m. retire_effect_at p t b v a m d d' \<and> answer_in rs = Some (op_response (retire_operation p (dv_key_id v) b t)))"
proof -
  have answer: "answer_in [r1, r2, r3, r4, [], [], List.map (\<lambda>o'. AnswerOut (op_response o')) (List.filter P os)]
      = map_option op_response (find P os)" for r1 r2 r3 r4 P os
    by (induction os) (auto simp: answer_in_def batch_returned_row_def)
  from run [unfolded bound_retire_sql_def] obtain n1 r1 d1 ns1 rs1 where 1: "retire_guard p (later n1 d) = Inr (r1, d1)"
    and rest: "run_statements (paced ns1 [retire_binding p, audit_retirement p, finish_retirement p, assert_retirement p,
     remove_check (rt_invocation_id p), retirement_result p]) d1 = Inr (rs1, d')" and rs: "rs = r1 # rs1" by (rule paced_step)
  from rest obtain n2 r2 d2 ns2 rs2 where 2: "retire_binding p (later n2 d1) = Inr (r2, d2)"
    and rest: "run_statements (paced ns2 [audit_retirement p, finish_retirement p, assert_retirement p,
     remove_check (rt_invocation_id p), retirement_result p]) d2 = Inr (rs2, d')" and rs1: "rs1 = r2 # rs2" by (rule paced_step)
  from rest obtain n3 r3 d3 ns3 rs3 where 3: "audit_retirement p (later n3 d2) = Inr (r3, d3)"
    and rest: "run_statements (paced ns3 [finish_retirement p, assert_retirement p,
     remove_check (rt_invocation_id p), retirement_result p]) d3 = Inr (rs3, d')" and rs2: "rs2 = r3 # rs3" by (rule paced_step)
  from rest obtain n4 r4 d4 ns4 rs4 where 4: "finish_retirement p (later n4 d3) = Inr (r4, d4)"
    and rest: "run_statements (paced ns4 [assert_retirement p, remove_check (rt_invocation_id p), retirement_result p]) d4 = Inr (rs4, d')"
    and rs3: "rs3 = r4 # rs4" by (rule paced_step)
  have "\<exists>f m r. ld_now d4 \<le> f \<and> f \<le> m \<and> retirement_complete p (at_time f d4) \<and> d' = at_time m d4 \<and> rs4 = [[], [], r]
      \<and> r = List.map (\<lambda>o'. AnswerOut (op_response o')) (List.filter (\<lambda>o'. fresh_retirement p o' \<and> op_complete o') (ld_operations d'))"
    by (rule checked_tail [OF rest]) (simp_all add: assert_retirement_def retirement_result_def)
  then obtain f m r where fm: "ld_now d4 \<le> f" "f \<le> m" and chk: "retirement_complete p (at_time f d4)" and d': "d' = at_time m d4"
    and rs4: "rs4 = [[], [], r]" and r: "r = List.map (\<lambda>o'. AnswerOut (op_response o'))
     (List.filter (\<lambda>o'. fresh_retirement p o' \<and> op_complete o') (ld_operations d'))"
    by blast
  have ans: "answer_in rs = map_option op_response (find (\<lambda>o'. fresh_retirement p o' \<and> op_complete o') (ld_operations d'))"
    unfolding rs rs1 rs2 rs3 rs4 r by (rule answer)
  define t where "t = ld_now d + int n1"
  have l1: "later n1 d = at_time t d" by (simp add: later_def at_time_def t_def)
  from retire_guard_cases [OF 1] show ?thesis
  proof (elim disjE exE conjE)
    assume d1: "d1 = later n1 d"
    have "d2 = later n2 d1" using 2 no_retirement [of "later n2 d1" p] complete d1 by (simp add: retire_binding_def later_def)
    moreover from this have "d3 = later n3 d2" using 3 no_retirement [of "later n3 d2" p] complete d1 by (simp add: audit_retirement_def later_def)
    moreover from calculation have "d4 = later n4 d3" using 4 no_retirement [of "later n4 d3" p] complete d1 by (simp add: finish_retirement_def later_def)
    ultimately have d4: "d4 = at_time (ld_now d4) d" "ld_now d \<le> ld_now d4" by (simp_all add: d1 later_def at_time_def)
    have "at_time f d4 = at_time f d" "at_time m d4 = at_time m d" by (subst d4(1), simp add: at_time_def)+
    with chk d' d4(2) fm ans have "ld_now d \<le> f \<and> f \<le> ld_now d' \<and> d' = at_time (ld_now d') d \<and> retirement_complete p (at_time f d)
      \<and> answer_in rs = map_option op_response (find (\<lambda>o'. fresh_retirement p o' \<and> op_complete o') (ld_operations d))" by simp
    then show ?thesis by blast
  next
    fix b v a
    assume own: "owned_binding (later n1 d) (rt_binding_id p) (rt_customer_id p) = Some (b, v, a)" and ret: "retirable p b"
      and fresh: "\<forall>q\<in>set (ld_operations (later n1 d)). op_invocation_id q \<noteq> rt_invocation_id p
        \<and> operation_key q \<noteq> operation_key (retire_operation p (dv_key_id v) b (ld_now (later n1 d)))"
      and d1: "d1 = (later n1 d)\<lparr>ld_operations := ld_operations (later n1 d) @ [retire_operation p (dv_key_id v) b (ld_now (later n1 d))]\<rparr>"
    define o' where "o' = retire_operation p (dv_key_id v) b t"
    have ids: "bi_id b = rt_binding_id p" using owned_binding_id [OF own] by simp
    have f: "fresh_retirement p o'" "\<not> op_complete o'" "op_binding_id o' = rt_binding_id p" "op_invocation_id o' = rt_invocation_id p"
      by (simp_all add: o'_def retire_operation_def fresh_retirement_def ids)
    have others: "find (\<lambda>q. fresh_retirement p q \<and> P q) (ld_operations d) = None" for P
      using fresh by (auto simp: find_None_iff fresh_retirement_def l1)
    have prep: "prepared_retirement p x = Some o'" if "ld_operations x = ld_operations d @ [o']" for x
      using that f others by (simp add: prepared_retirement_def find_snoc)
    have o1: "ld_operations d1 = ld_operations d @ [o']" by (simp add: d1 o'_def l1)
    let ?bs = "List.map (\<lambda>c. if bi_id c = rt_binding_id p \<and> retirable p c then retired_binding o' c else c) (ld_bindings d)"
    have d2: "d2 = (later n2 d1)\<lparr>ld_bindings := ?bs\<rparr>"
      using 2 prep [of "later n2 d1"] o1 by (auto simp: retire_binding_def for_retirement_def f later_def d1 split: if_splits)
    have d3: "d3 = (later n3 d2)\<lparr>ld_events := ld_events d @ [retire_event p o']\<rparr>"
      using 3 prep [of "later n3 d2"] o1
      by (auto simp: audit_retirement_def for_retirement_def insert_bound_event_def d2 later_def d1 split: if_splits)
    have d4: "d4 = (later n4 d3)\<lparr>ld_operations := ld_operations d @ [o'\<lparr>op_complete := True\<rparr>]\<rparr>"
      using 4 prep [of "later n4 d3"] o1 fresh map_completed [of "ld_operations d" o'] f(4)
      by (simp add: finish_retirement_def for_retirement_def d3 d2 later_def l1)
    have "answer_in rs = Some (op_response o')"
      using ans f others by (simp add: d' d4 find_snoc fresh_retirement_def)
    moreover have "retire_effect_at p t b v a m d d'"
      unfolding retire_effect_at_def Let_def o'_def [symmetric]
    proof (intro conjI)
      show "ld_now d \<le> t" by (simp add: t_def)
      show "t \<le> m" using fm by (simp add: d4 d3 d2 d1 later_def t_def)
      show "owned_binding d (rt_binding_id p) (rt_customer_id p) = Some (b, v, a)" using own by (simp add: l1)
      show "retirable p b" by (rule ret)
      show "\<forall>q\<in>set (ld_operations d). op_invocation_id q \<noteq> rt_invocation_id p \<and> operation_key q \<noteq> operation_key o'"
        using fresh by (simp add: l1 o'_def)
      show "d' = d\<lparr>ld_now := m, ld_operations := ld_operations d @ [o'\<lparr>op_complete := True\<rparr>], ld_bindings := ?bs,
        ld_events := ld_events d @ [retire_event p o']\<rparr>"
        by (simp add: d' d4 d3 d2 d1 later_def at_time_def)
    qed
    ultimately show ?thesis unfolding o'_def by blast
  qed
qed


section \<open>Progress\<close>

lemma retired_bindings_later:
  assumes "find (\<lambda>b. bi_id b = i) bs = Some b"
  shows "\<exists>b'. find (\<lambda>b. bi_id b = i) (List.map (\<lambda>c. if bi_id c = j \<and> retirable p c then retired_binding o' c else c) bs) = Some b'
    \<and> binding_later b b' \<and> (b' = b \<or> b' = retired_binding o' b) \<and> (i = j \<and> retirable p b \<longrightarrow> b' = retired_binding o' b)"
  using assms by (induction bs) (auto simp: retired_binding_def retirable_def binding_later_def split: if_splits)

lemma retire_effect_fields:
  assumes "retire_effect_at p t b v a m d d'"
  shows "ld_bindings d' = List.map (\<lambda>c. if bi_id c = rt_binding_id p \<and> retirable p c
      then retired_binding (retire_operation p (dv_key_id v) b t) c else c) (ld_bindings d)"
    and "ld_operations d' = ld_operations d @ [(retire_operation p (dv_key_id v) b t)\<lparr>op_complete := True\<rparr>]"
    and "ld_leases d' = ld_leases d" "ld_core d' = ld_core d" "ld_now d \<le> ld_now d'"
    and "owned_binding d (rt_binding_id p) (rt_customer_id p) = Some (b, v, a)" "retirable p b"
    and "\<forall>q\<in>set (ld_operations d). op_invocation_id q \<noteq> rt_invocation_id p
      \<and> operation_key q \<noteq> operation_key (retire_operation p (dv_key_id v) b t)"
  using assms by (simp_all add: retire_effect_at_def Let_def)

lemma retire_effect_occupied:
  assumes "retire_effect_at p t b v a m d d'"
  shows "occupied d' k \<le> occupied d k"
proof -
  let ?f = "\<lambda>c. if bi_id c = rt_binding_id p \<and> retirable p c then retired_binding (retire_operation p (dv_key_id v) b t) c else c"
  have e: "ld_bindings d' = List.map ?f (ld_bindings d)" and t: "ld_now d \<le> ld_now d'"
    using retire_effect_fields [OF assms] by simp_all
  have "bi_key (?f c) = k \<and> occupies (ld_now d') (?f c) \<Longrightarrow> bi_key c = k \<and> occupies (ld_now d) c" for c
    using t by (auto simp: retired_binding_def retirable_def occupies_def split: if_splits)
  then have "length (filter (\<lambda>c. bi_key (?f c) = k \<and> occupies (ld_now d') (?f c)) (ld_bindings d))
      \<le> length (filter (\<lambda>c. bi_key c = k \<and> occupies (ld_now d) c) (ld_bindings d))"
    by (intro count_mono) blast
  then show ?thesis unfolding occupied_def e by (simp only: filter_map length_map o_def)
qed

lemma retire_effect_ok:
  assumes e: "retire_effect_at p t b v a m d d'" and ok: "leases_ok d"
  shows "leases_ok d'"
proof -
  define o' where "o' = retire_operation p (dv_key_id v) b t"
  let ?f = "\<lambda>c. if bi_id c = rt_binding_id p \<and> retirable p c then retired_binding o' c else c"
  note fields = retire_effect_fields [OF e, folded o'_def]
  note now = fields(5) and bs = fields(1) and os = fields(2) and ls = fields(3) and core = fields(4) and fresh = fields(8)
  have "bi_id (?f c) = bi_id c" for c by (simp add: retired_binding_def)
  then have ids: "List.map bi_id (ld_bindings d') = List.map bi_id (ld_bindings d)" by (simp add: bs)
  have "lease_held d' l" if "l \<in> set (ld_leases d)" for l
  proof -
    from ok that obtain c where c: "find_binding d (le_binding_id l) = Some c" "le_accept_until l \<le> bi_hold_until c" "le_generation l \<le> bi_generation c"
      unfolding leases_ok_def lease_held_def by blast
    from retired_bindings_later [OF c(1) [unfolded find_binding_def], of "rt_binding_id p" p o'] c(2,3) show ?thesis
      unfolding lease_held_def find_binding_def bs binding_later_def by fastforce
  qed
  moreover have "bi_hold_until c \<le> ld_now d'" if "c \<in> set (ld_bindings d')" "bi_state c = Released" for c
  proof -
    from that have "c \<in> set (ld_bindings d)" by (auto simp: bs retired_binding_def split: if_splits)
    with ok that(2) now show ?thesis by (fastforce simp: leases_ok_def)
  qed
  moreover have "int (occupied d' k) \<le> g_max_active_devices g" if "find_grant (ld_core d') k = Some g" for k g
    using retire_effect_occupied [OF e, of k] capacity_kept [OF ok, of k g] that core by simp
  ultimately show ?thesis
    using ok ids ls os fresh unfolding leases_ok_def by (auto simp: o'_def retire_operation_def operation_key_def)
qed

lemma retire_effect_later:
  assumes e: "retire_effect_at p t b v a m d d'"
  shows "find_binding d i = Some c \<Longrightarrow> \<exists>c'. find_binding d' i = Some c' \<and> binding_later c c'"
    and "\<exists>c'. find_binding d' (rt_binding_id p) = Some c' \<and> bi_state c' = Retiring \<and> bi_hold_until c' = bi_hold_until b"
proof -
  define o' where "o' = retire_operation p (dv_key_id v) b t"
  let ?f = "\<lambda>c. if bi_id c = rt_binding_id p \<and> retirable p c then retired_binding o' c else c"
  note fields = retire_effect_fields [OF e, folded o'_def]
  note bs = fields(1) and own = fields(6) and ret = fields(7)
  show "find_binding d i = Some c \<Longrightarrow> \<exists>c'. find_binding d' i = Some c' \<and> binding_later c c'"
    using retired_bindings_later [of i "ld_bindings d" c "rt_binding_id p" p o'] unfolding find_binding_def bs by blast
  have "find_binding d (rt_binding_id p) = Some b" using owned_binding_id [OF own] by simp
  from retired_bindings_later [OF this [unfolded find_binding_def], of "rt_binding_id p" p o'] ret
  show "\<exists>c'. find_binding d' (rt_binding_id p) = Some c' \<and> bi_state c' = Retiring \<and> bi_hold_until c' = bi_hold_until b"
    unfolding find_binding_def bs by (auto simp: retired_binding_def)
qed

lemma retire_progress:
  assumes run: "run_statements (paced ns (bound_retire_sql p)) d = Inr (rs, d')"
  shows "lease_progress d d'"
proof (rule lease_progressI)
  assume ok: "leases_ok d"
  then have complete: "\<forall>q\<in>set (ld_operations d). op_complete q" by (simp add: leases_ok_def)
  from retire_batch_effect [OF run complete] show "leases_ok d' \<and> lease_forward d d'"
  proof (elim disjE exE conjE)
    fix f
    assume "ld_now d \<le> f" "f \<le> ld_now d'" and d': "d' = at_time (ld_now d') d"
    then have "lease_progress d (at_time (ld_now d') d)" by (intro time_progress) simp
    with ok d' show ?thesis by (simp add: lease_progress_def)
  next
    fix t b v a m
    assume e: "retire_effect_at p t b v a m d d'"
    note fields = retire_effect_fields [OF e]
    from retire_effect_ok [OF e ok] retire_effect_later(1) [OF e] fields(3,5) appended_operations [OF fields(2)]
    show ?thesis by (simp add: lease_forward_def)
  qed
qed

section \<open>A retirement that is answered\<close>

definition retired_by :: "string \<Rightarrow> int \<Rightarrow> lease_db \<Rightarrow> bool" where
  "retired_by i until d \<longleftrightarrow> (\<exists>b. find_binding d i = Some b \<and> bi_state b \<noteq> Active \<and> bi_hold_until b \<le> until)"

definition retirement_stands :: "string \<Rightarrow> retire_answer \<Rightarrow> lease_db \<Rightarrow> bool" where
  "retirement_stands i r d \<longleftrightarrow> leases_ok d \<and> retired_by i (ra_effective_release_at r) d"

lemma retired_by_later: "retirement_stands i r d \<Longrightarrow> lease_progress d d' \<Longrightarrow> retirement_stands i r d'"
  unfolding retirement_stands_def retired_by_def lease_progress_def lease_forward_def binding_later_def by fastforce

lemma found_unique:
  assumes "distinct (List.map h xs)" and "x \<in> set xs" and "P x" and "\<And>y. P y \<Longrightarrow> h y = h x"
  shows "find P xs = Some x"
proof -
  obtain y where y: "find P xs = Some y" using assms(2,3) by (cases "find P xs") (auto simp: find_None_iff)
  then have "y \<in> set xs" "P y" by (auto simp: find_Some_iff)
  with assms show ?thesis using y by (metis distinct_map inj_onD)
qed

lemma retire_batch_answers:
  assumes ok: "leases_ok d" and run: "run_statements (paced ns (bound_retire_sql p)) d = Inr (rs, d')" and r: "retire_answer_in rs = Some r"
  shows "retirement_stands (rt_binding_id p) r d'"
proof -
  have ok': "leases_ok d'" using retire_progress [OF run] ok by (simp add: lease_progress_def)
  from r have ans: "answer_in rs = Some (RetireAnswer r)" by (auto simp: retire_answer_in_def split: option.splits op_response.splits)
  from ok have complete: "\<forall>q\<in>set (ld_operations d). op_complete q" by (simp add: leases_ok_def)
  from retire_batch_effect [OF run complete] have "retired_by (rt_binding_id p) (ra_effective_release_at r) d'"
  proof (elim disjE exE conjE)
    fix f
    assume d': "d' = at_time (ld_now d') d" and c: "retirement_complete p (at_time f d)"
      and found: "answer_in rs = map_option op_response (find (\<lambda>o'. fresh_retirement p o' \<and> op_complete o') (ld_operations d))"
    from c obtain b v a o' e where own: "owned_binding d (rt_binding_id p) (rt_customer_id p) = Some (b, v, a)" and st: "bi_state b = Retiring"
      and o': "o' \<in> set (ld_operations d)" and rec: "retirement_recorded p b v o' e"
      by (auto simp: retirement_complete_def list_ex_iff split: option.splits)
    have "find (\<lambda>o'. fresh_retirement p o' \<and> op_complete o') (ld_operations d) = Some o'"
      by (rule found_unique [where h = op_invocation_id]) (use ok o' rec in \<open>auto simp: leases_ok_def retirement_recorded_def fresh_retirement_def\<close>)
    with found ans rec have "ra_effective_release_at r = max (bi_hold_until b) (op_committed_at o')" by (auto simp: retirement_recorded_def)
    with own st owned_binding_id [OF own] show ?thesis
      by (subst d') (simp add: retired_by_def find_binding_def)
  next
    fix t b v a m
    assume e: "retire_effect_at p t b v a m d d'" and "answer_in rs = Some (op_response (retire_operation p (dv_key_id v) b t))"
    with ans have "ra_effective_release_at r = max (bi_hold_until b) t" by (auto simp: retire_operation_def)
    with retire_effect_later(2) [OF e] show ?thesis by (auto simp: retired_by_def)
  qed
  with ok' show ?thesis by (simp add: retirement_stands_def)
qed

interpretation leases: steady lease_progress leases_ok
  by unfold_locales (simp add: lease_progress_def)

definition retire_promise :: "string \<Rightarrow> refused + retire_answer \<Rightarrow> lease_db \<Rightarrow> bool" where
  "retire_promise i res d \<longleftrightarrow> leases_ok d \<and> (case res of Inl _ \<Rightarrow> True | Inr r \<Rightarrow> retirement_stands i r d)"

lemma retire_denied: "establishes lease_progress leases_ok leases_ok (deny c s) (retire_promise i)"
  unfolding deny_def by (rule leases.establishes_return) (simp add: retire_promise_def)

lemma current_stands: "leases_ok d \<Longrightarrow> retirement_current p key d = Some r \<Longrightarrow> retirement_stands (rt_binding_id p) r d"
  using owned_binding_id [of d "rt_binding_id p" "rt_customer_id p"]
  by (auto simp: retirement_current_def obind_def retirement_stands_def retired_by_def split: option.splits op_response.splits if_splits)

definition cached_promise :: "string \<Rightarrow> refused + retire_answer option \<Rightarrow> lease_db \<Rightarrow> bool" where
  "cached_promise i res d \<longleftrightarrow> leases_ok d \<and> (case res of Inr (Some r) \<Rightarrow> retirement_stands i r d | _ \<Rightarrow> True)"

lemma establishes_cached: "establishes lease_progress leases_ok leases_ok (cached_retirement p key) (cached_promise (rt_binding_id p))"
proof -
  let ?S = "establishes lease_progress leases_ok leases_ok" and ?R = "cached_promise (rt_binding_id p)"
  have d: "?S (deny c s) ?R" for c s unfolding deny_def by (rule leases.establishes_return) (simp add: cached_promise_def)
  have n: "?S (io_return (Inr None)) ?R" by (rule leases.establishes_return) (simp add: cached_promise_def)
  have "?S (io_bind (db_read (retirement_current p key)) (\<lambda>r. case r of
             None \<Rightarrow> deny ''idempotency_conflict'' 409 | Some r \<Rightarrow> io_return (Inr (Some r)))) ?R"
  proof (rule leases.establishes_bind [where Q = "\<lambda>r d. leases_ok d \<and> (\<forall>x. r = Some x \<longrightarrow> retirement_stands (rt_binding_id p) x d)"])
    show "?S (db_read (retirement_current p key)) (\<lambda>r d. leases_ok d \<and> (\<forall>x. r = Some x \<longrightarrow> retirement_stands (rt_binding_id p) x d))"
      by (rule leases.establishes_read) (auto intro: current_stands)
    show "establishes lease_progress leases_ok (\<lambda>d. leases_ok d \<and> (\<forall>x. r = Some x \<longrightarrow> retirement_stands (rt_binding_id p) x d))
      (case r of None \<Rightarrow> deny ''idempotency_conflict'' 409 | Some r \<Rightarrow> io_return (Inr (Some r))) ?R" for r
      by (cases r) (auto simp: deny_def cached_promise_def intro!: leases.establishes_return)
  qed
  note step = this
  show ?thesis
    unfolding cached_retirement_def
  proof (rule leases.establishes_bind [where Q = "\<lambda>_. leases_ok"])
    show "?S (db_read (\<lambda>d. map_option (\<lambda>o'. (o', ld_now d)) (find_operation d key Retire (rt_operation_id p)))) (\<lambda>_. leases_ok)"
      by (rule leases.establishes_read)
    fix found :: "(bound_operation \<times> int) option"
    show "?S (case found of None \<Rightarrow> io_return (Inr None) | Some (o', now) \<Rightarrow>
         if op_digest o' \<noteq> rt_digest p then deny ''idempotency_conflict'' 409
         else if \<not> op_complete o' \<or> op_response o' = Erased \<or> op_retain_until o' \<le> now then deny ''idempotency_conflict'' 409
         else io_bind (db_read (retirement_current p key)) (\<lambda>r. case r of
             None \<Rightarrow> deny ''idempotency_conflict'' 409 | Some r \<Rightarrow> io_return (Inr (Some r)))) ?R"
      using d n step by (auto split: option.split)
  qed
qed

lemma establishes_refusable:
  assumes "establishes lease_progress leases_ok P m (\<lambda>r d. case r of Inl _ \<Rightarrow> leases_ok d | Inr x \<Rightarrow> Q x d)"
    and "\<And>x. establishes lease_progress leases_ok (Q x) (f x) R" and "\<And>e d. leases_ok d \<Longrightarrow> R (Inl e) d"
  shows "establishes lease_progress leases_ok P (io_ok m f) R"
  unfolding io_ok_def
proof (rule leases.establishes_bind [OF assms(1)])
  fix r
  show "establishes lease_progress leases_ok (\<lambda>d. case r of Inl _ \<Rightarrow> leases_ok d | Inr x \<Rightarrow> Q x d)
      (case r of Inl e \<Rightarrow> io_return (Inl e) | Inr x \<Rightarrow> f x) R"
    using assms(2,3) by (cases r) (auto intro!: leases.establishes_return)
qed

lemma retire_refused: "leases_ok d \<Longrightarrow> retire_promise i (Inl e) d"
  by (simp add: retire_promise_def)

lemmas establishes_ok = establishes_refusable [where R = "retire_promise i" for i, OF _ _ retire_refused]

lemma establishes_owned_read:
  "establishes lease_progress leases_ok leases_ok (db_read q) (\<lambda>_. leases_ok)"
  by (rule leases.establishes_read)

lemma establishes_cached_ok:
  assumes "establishes lease_progress leases_ok leases_ok m (retire_promise (rt_binding_id p))"
  shows "establishes lease_progress leases_ok leases_ok
    (io_ok (cached_retirement p key) (\<lambda>winner. case winner of Some r \<Rightarrow> io_return (Inr r) | None \<Rightarrow> m)) (retire_promise (rt_binding_id p))"
proof (rule establishes_ok [where Q = "\<lambda>x d. leases_ok d \<and> (\<forall>r. x = Some r \<longrightarrow> retirement_stands (rt_binding_id p) r d)"])
  show "establishes lease_progress leases_ok leases_ok (cached_retirement p key) (\<lambda>r d. case r of Inl _ \<Rightarrow> leases_ok d
      | Inr x \<Rightarrow> leases_ok d \<and> (\<forall>r. x = Some r \<longrightarrow> retirement_stands (rt_binding_id p) r d))"
    by (rule leases.establishes_weaken [OF establishes_cached]) (auto simp: cached_promise_def split: sum.split option.splits)
  show "establishes lease_progress leases_ok (\<lambda>d. leases_ok d \<and> (\<forall>r. x = Some r \<longrightarrow> retirement_stands (rt_binding_id p) r d))
      (case x of Some r \<Rightarrow> io_return (Inr r) | None \<Rightarrow> m) (retire_promise (rt_binding_id p))" for x
    using assms by (cases x) (auto simp: retire_promise_def intro!: leases.establishes_return elim: leases.establishes_weaken)
qed

lemma establishes_reconcile: "establishes lease_progress leases_ok leases_ok (reconcile_retirement p key) (retire_promise (rt_binding_id p))"
proof -
  have m: "establishes lease_progress leases_ok leases_ok
      (io_bind (db_read (\<lambda>d. owned_binding d (rt_binding_id p) (rt_customer_id p))) (\<lambda>current. case current of
           None \<Rightarrow> deny ''binding_unavailable'' 404
         | Some (b, v, a) \<Rightarrow>
             if bi_state b \<noteq> Active \<or> bi_revision b \<noteq> rt_expected p then deny ''revision_conflict'' 409
             else deny ''temporarily_unavailable'' 503)) (retire_promise (rt_binding_id p))"
    by (rule leases.establishes_bind [OF establishes_owned_read]) (auto split: option.split intro: retire_denied)
  show ?thesis unfolding reconcile_retirement_def
    by (rule leases.establishes_weaken [OF establishes_cached_ok [OF m]]) (auto split: option.split cong: option.case_cong)
qed

lemma establishes_attempt: "establishes lease_progress leases_ok leases_ok (attempt_retirement ns p key) (retire_promise (rt_binding_id p))"
  unfolding attempt_retirement_def
proof (rule leases.establishes_try [where Q = "\<lambda>rs d. leases_ok d \<and> (\<forall>r. retire_answer_in rs = Some r \<longrightarrow> retirement_stands (rt_binding_id p) r d)"])
  show "establishes lease_progress leases_ok leases_ok (db_batch (paced ns (bound_retire_sql p)))
      (\<lambda>rs d. leases_ok d \<and> (\<forall>r. retire_answer_in rs = Some r \<longrightarrow> retirement_stands (rt_binding_id p) r d))"
  proof (rule leases.establishes_batch)
    fix d rs d'
    assume ok: "leases_ok d" and run: "run_statements (paced ns (bound_retire_sql p)) d = Inr (rs, d')"
    have "leases_ok d'" using retire_progress [OF run] ok by (simp add: lease_progress_def)
    with retire_batch_answers [OF ok run]
    show "leases_ok d' \<and> leases_ok d' \<and> (\<forall>r. retire_answer_in rs = Some r \<longrightarrow> retirement_stands (rt_binding_id p) r d')" by blast
  qed
  show "establishes lease_progress leases_ok leases_ok (reconcile_retirement p key) (retire_promise (rt_binding_id p))" for e
    by (rule establishes_reconcile)
  show "establishes lease_progress leases_ok (\<lambda>d. leases_ok d \<and> (\<forall>r. retire_answer_in rs = Some r \<longrightarrow> retirement_stands (rt_binding_id p) r d))
      (case retire_answer_in rs of Some r \<Rightarrow> io_return (Inr r) | None \<Rightarrow> reconcile_retirement p key) (retire_promise (rt_binding_id p))" for rs
    by (cases "retire_answer_in rs")
      (auto simp: retire_promise_def intro!: leases.establishes_return leases.establishes_weaken [OF establishes_reconcile])
qed

lemma establishes_retire_owned: "establishes lease_progress leases_ok leases_ok (retire_owned i ns p) (retire_promise (rt_binding_id p))"
  unfolding retire_owned_def
proof (rule leases.establishes_bind [OF establishes_owned_read])
  fix row :: "(bound_binding \<times> bound_device \<times> account \<times> int) option"
  show "establishes lease_progress leases_ok leases_ok (case row of
         None \<Rightarrow> deny ''binding_unavailable'' 404
       | Some (b, v, a, authority) \<Rightarrow>
           io_ok (cached_retirement p (dv_key_id v)) (\<lambda>previous. case previous of
             Some r \<Rightarrow> io_return (Inr r)
           | None \<Rightarrow>
               if bi_state b \<noteq> Active \<or> bi_revision b \<noteq> rt_expected p \<or> int max_safe_integer \<le> bi_generation b
               then deny ''revision_conflict'' 409
               else attempt_retirement ns (retire_candidate_of p i b v a authority) (dv_key_id v))) (retire_promise (rt_binding_id p))"
  proof (cases row)
    case None
    then show ?thesis by (simp add: retire_denied)
  next
    case (Some q)
    obtain b v a authority where q: "q = (b, v, a, authority)" by (cases q) blast
    let ?c = "retire_candidate_of p i b v a authority"
    have "rt_binding_id ?c = rt_binding_id p" by (simp add: retire_candidate_of_def)
    then have "establishes lease_progress leases_ok leases_ok (attempt_retirement ns ?c (dv_key_id v)) (retire_promise (rt_binding_id p))"
      using establishes_attempt [of ns ?c "dv_key_id v"] by simp
    then have "establishes lease_progress leases_ok leases_ok
        (if bi_state b \<noteq> Active \<or> bi_revision b \<noteq> rt_expected p \<or> int max_safe_integer \<le> bi_generation b
         then deny ''revision_conflict'' 409 else attempt_retirement ns ?c (dv_key_id v)) (retire_promise (rt_binding_id p))"
      using retire_denied by simp
    from establishes_cached_ok [OF this, of "dv_key_id v"] show ?thesis
      by (simp only: Some q option.case prod.case)
  qed
qed

end
