(* ===== verification/Lease_Crypto.thy ===== *)
theory Lease_Crypto
  imports Lease_Proof
begin

text \<open>
  Keys and signatures of the device protocol (\<open>device/bound_crypto.mjs\<close>). SHA-256, ECDSA and RSA of the platform are
  arguments; what is checked around them is modelled.
\<close>

section \<open>Device keys\<close>

text \<open>\<open>spki\<close> imports the encoded key and exports it again.\<close>

definition import_bound_device_key ::
  "(byte list \<Rightarrow> byte list option) \<Rightarrow> (byte list \<Rightarrow> byte list) \<Rightarrow> string \<Rightarrow> (byte list \<times> string) outcome" where
  "import_bound_device_key spki sha256 encoded =
     rbind (decode_base64url encoded 384) (\<lambda>bytes. case spki bytes of
         None \<Rightarrow> Inl ''DataError''
       | Some canonical \<Rightarrow> if encode_base64url canonical \<noteq> encoded then Inl ''noncanonical_device_key''
           else Inr (canonical, ''sha256:'' @ hex (sha256 canonical)))"

section \<open>Signatures\<close>

text \<open>\<open>BigInt("0x\<dots>")\<close> and \<open>toString(16).padStart\<close>: numbers in big-endian bytes.\<close>

fun scalar :: "byte list \<Rightarrow> nat" where
  "scalar [] = 0"
| "scalar (b # bs) = unat b * 256 ^ length bs + scalar bs"

fun scalar_bytes :: "nat \<Rightarrow> nat \<Rightarrow> byte list" where
  "scalar_bytes 0 n = []"
| "scalar_bytes (Suc k) n = of_nat (n div 256 ^ k) # scalar_bytes k (n mod 256 ^ k)"

definition curve_order :: nat where
  "curve_order = 0xffffffff00000000ffffffffffffffffbce6faada7179e84f3b9cac2fc632551"

definition normalize_device_signature :: "byte list \<Rightarrow> byte list outcome" where
  "normalize_device_signature sig =
     (if length sig \<noteq> 64 then Inl ''invalid_signature''
      else let r = scalar (take 32 sig); s = scalar (drop 32 sig) in
        if r = 0 \<or> curve_order \<le> r \<or> s = 0 \<or> curve_order \<le> s then Inl ''invalid_signature''
        else Inr (take 32 sig @ scalar_bytes 32 (if curve_order div 2 < s then curve_order - s else s)))"

definition verify_bound_device_proof ::
  "(byte list \<Rightarrow> byte list option) \<Rightarrow> (byte list \<Rightarrow> byte list) \<Rightarrow> (byte list \<Rightarrow> byte list \<Rightarrow> byte list \<Rightarrow> bool) \<Rightarrow> string \<Rightarrow> device_proof
     \<Rightarrow> string \<Rightarrow> bool" where
  "verify_bound_device_proof spki sha256 ecdsa encoded input signature =
     (case import_bound_device_key spki sha256 encoded of
        Inl _ \<Rightarrow> False
      | Inr (key, key_id) \<Rightarrow>
          key_id = dp_key_id input \<and>
          (case rbind (decode_base64url signature 64) (\<lambda>sig. rbind (normalize_device_signature sig) (\<lambda>n.
               rbind (if encode_base64url sig \<noteq> encode_base64url n then Inl ''malleable'' else device_proof_signing_input input) (\<lambda>bytes.
                 Inr (ecdsa key sig bytes)))) of
             Inl _ \<Rightarrow> False
           | Inr ok \<Rightarrow> ok))"

section \<open>Leases\<close>

text \<open>A loaded signer: \<open>assertLeaseKey\<close> of the pair, the public key's id, and the operations of the pair.\<close>

record lease_signer =
  ls_usable :: bool
  ls_key_id :: string
  ls_sign :: "byte list \<Rightarrow> byte list"
  ls_verify :: "byte list \<Rightarrow> byte list \<Rightarrow> bool"

definition sign_bound_device_lease :: "(byte list \<Rightarrow> string option) \<Rightarrow> lease_claims \<Rightarrow> lease_signer \<Rightarrow> string outcome" where
  "sign_bound_device_lease read_utf8 c signer =
     (if \<not> ls_usable signer then Inl ''invalid_lease_key''
      else if ls_key_id signer \<noteq> lc_key_id c then Inl ''lease_key_id_mismatch''
      else rbind (encode_device_lease_payload c) (\<lambda>payload. rbind (device_lease_signing_input read_utf8 payload) (\<lambda>input.
        let signature = ls_sign signer input in
        if \<not> ls_verify signer signature input then Inl ''lease_key_pair_mismatch''
        else encode_device_lease_envelope read_utf8 payload signature)))"

text \<open>What the caller expects of a lease it verifies; \<open>keys\<close> are the trusted keys by id.\<close>

record lease_expectation =
  lx_issuer :: string
  lx_audience :: string
  lx_project :: string
  lx_feature :: string
  lx_fingerprint :: string
  lx_binding_id :: string
  lx_device_key_id :: string
  lx_generation :: int
  lx_operation_id :: string
  lx_min_revocation_seq :: int

definition expected_lease :: "lease_expectation \<Rightarrow> lease_claims \<Rightarrow> bool" where
  "expected_lease x c \<longleftrightarrow> lc_issuer c = lx_issuer x \<and> lc_audience c = lx_audience x \<and> lc_project c = lx_project x
     \<and> lc_feature c = lx_feature x \<and> lc_fingerprint c = lx_fingerprint x \<and> lc_binding_id c = lx_binding_id x
     \<and> lc_device_key_id c = lx_device_key_id x \<and> lc_generation c = lx_generation x \<and> lc_operation_id c = lx_operation_id x
     \<and> 0 \<le> lx_min_revocation_seq x \<and> lx_min_revocation_seq x \<le> int max_safe_integer \<and> lx_min_revocation_seq x \<le> lc_revocation_seq c"

definition verify_bound_device_lease ::
  "(byte list \<Rightarrow> string option) \<Rightarrow> string \<Rightarrow> (string \<Rightarrow> lease_signer option) \<Rightarrow> lease_expectation \<Rightarrow> int \<Rightarrow> lease_claims option" where
  "verify_bound_device_lease read_utf8 token keys x now =
     (if now < 0 \<or> int max_safe_integer < now then None
      else case decode_device_lease_envelope read_utf8 token of
          Inl _ \<Rightarrow> None
        | Inr (payload, signature, c) \<Rightarrow> (case keys (lc_key_id c) of
              None \<Rightarrow> None
            | Some key \<Rightarrow>
                if \<not> ls_usable key \<or> ls_key_id key \<noteq> lc_key_id c \<or> \<not> expected_lease x c
                  \<or> now < lc_issued_at c \<or> lc_expires_at c \<le> now then None
                else (case device_lease_signing_input read_utf8 payload of
                    Inl _ \<Rightarrow> None
                  | Inr input \<Rightarrow> if ls_verify key signature input then Some c else None)))"

section \<open>Canonical signatures\<close>

lemma scalar_less: "scalar bs < 256 ^ length bs"
proof (induction bs)
  case (Cons b bs)
  have "unat b + 1 \<le> 256" using unat_byte [of b] by simp
  then have "(unat b + 1) * 256 ^ length bs \<le> 256 * 256 ^ length bs" by (rule mult_le_mono1)
  moreover have "scalar (b # bs) < (unat b + 1) * 256 ^ length bs" using Cons by (simp add: algebra_simps)
  ultimately have "scalar (b # bs) < 256 * 256 ^ length bs" by (rule less_le_trans [rotated])
  then show ?case by (simp only: length_Cons power_Suc)
qed simp

lemma length_scalar_bytes [simp]: "length (scalar_bytes k n) = k"
  by (induction k arbitrary: n) auto

lemma scalar_scalar_bytes: "n < 256 ^ k \<Longrightarrow> scalar (scalar_bytes k n) = n"
proof (induction k arbitrary: n)
  case (Suc k)
  then have "n div 256 ^ k < 256" by (simp add: less_mult_imp_div_less mult.commute)
  then have "unat (of_nat (n div 256 ^ k) :: byte) = n div 256 ^ k" by (rule unat_of_byte)
  moreover have "scalar (scalar_bytes k (n mod 256 ^ k)) = n mod 256 ^ k" by (rule Suc.IH) simp
  ultimately show ?case by (simp only: scalar_bytes.simps scalar.simps length_scalar_bytes div_mult_mod_eq)
qed simp

lemma scalar_bytes_scalar: "scalar_bytes (length bs) (scalar bs) = bs"
proof (induction bs)
  case (Cons b bs)
  have "(unat b * 256 ^ length bs + scalar bs) div 256 ^ length bs = unat b"
    "(unat b * 256 ^ length bs + scalar bs) mod 256 ^ length bs = scalar bs"
    using scalar_less [of bs] by simp_all
  with Cons show ?case by simp
qed simp

text \<open>A signature that its normalization leaves alone has the small one of the two possible second numbers.\<close>

lemma normalized_iff:
  assumes "length sig = 64"
  shows "normalize_device_signature sig = Inr sig \<longleftrightarrow> 0 < scalar (take 32 sig) \<and> scalar (take 32 sig) < curve_order
    \<and> 0 < scalar (drop 32 sig) \<and> scalar (drop 32 sig) \<le> curve_order div 2"
proof -
  let ?r = "scalar (take 32 sig)" and ?s = "scalar (drop 32 sig)"
  have len: "length (drop 32 sig) = 32" using assms by simp
  have again: "scalar_bytes 32 ?s = drop 32 sig" using scalar_bytes_scalar [of "drop 32 sig"] len by simp
  have half: "curve_order div 2 < curve_order" "curve_order < 256 ^ 32" by (simp_all add: curve_order_def)
  have other: "scalar_bytes 32 (curve_order - ?s) \<noteq> drop 32 sig" if "curve_order div 2 < ?s" "?s < curve_order"
  proof
    assume "scalar_bytes 32 (curve_order - ?s) = drop 32 sig"
    moreover have "scalar (scalar_bytes 32 (curve_order - ?s)) = curve_order - ?s"
      by (rule scalar_scalar_bytes) (rule less_imp_diff_less [OF half(2)])
    ultimately have "curve_order - ?s = ?s" by simp
    moreover have "odd curve_order" by (simp add: curve_order_def)
    ultimately show False using that by presburger
  qed
  have small: "?s < curve_order \<Longrightarrow> take 32 sig @ scalar_bytes 32 (if curve_order div 2 < ?s then curve_order - ?s else ?s) = sig
      \<longleftrightarrow> ?s \<le> curve_order div 2"
  proof -
    assume lt: "?s < curve_order"
    have split: "take 32 sig @ xs = sig \<longleftrightarrow> xs = drop 32 sig" for xs
      by (rule iffI) (metis append_take_drop_id same_append_eq, simp)
    show ?thesis
    proof (cases "curve_order div 2 < ?s")
      case True
      with other lt show ?thesis by (simp add: split)
    next
      case False
      with again show ?thesis by (simp add: split)
    qed
  qed
  show ?thesis
  proof (cases "?r = 0 \<or> curve_order \<le> ?r \<or> ?s = 0 \<or> curve_order \<le> ?s")
    case True
    then have "normalize_device_signature sig = Inl ''invalid_signature''" by (simp add: normalize_device_signature_def Let_def)
    moreover have "\<not> (0 < ?r \<and> ?r < curve_order \<and> 0 < ?s \<and> ?s \<le> curve_order div 2)" using True half(1) by linarith
    ultimately show ?thesis by simp
  next
    case False
    then have "normalize_device_signature sig = Inr (take 32 sig @ scalar_bytes 32 (if curve_order div 2 < ?s then curve_order - ?s else ?s))"
      using assms by (simp only: normalize_device_signature_def Let_def if_False simp_thms)
    moreover have "0 < ?r" "?r < curve_order" "0 < ?s" "?s < curve_order" using False by simp_all
    ultimately show ?thesis using small by simp
  qed
qed

lemma normalize_length: "normalize_device_signature sig = Inr n \<Longrightarrow> length sig = 64 \<and> length n = 64"
  by (auto simp: normalize_device_signature_def Let_def split: if_splits)

text \<open>C18. A proof is accepted only with a signature that the platform verifies over exactly the bytes of the stated intent,
  under the key that hashes to the intent's key id, and only in its canonical form: of the two signatures
  ECDSA accepts for one \<open>r\<close>, the one with \<open>s\<close> at most half the order.\<close>

theorem accepted_proof_canonical:
  assumes "verify_bound_device_proof spki sha256 ecdsa encoded input signature"
  shows "\<exists>key sig bytes. import_bound_device_key spki sha256 encoded = Inr (key, dp_key_id input)
    \<and> signature = encode_base64url sig \<and> length sig = 64 \<and> device_proof_signing_input input = Inr bytes \<and> ecdsa key sig bytes
    \<and> 0 < scalar (take 32 sig) \<and> scalar (take 32 sig) < curve_order
    \<and> 0 < scalar (drop 32 sig) \<and> scalar (drop 32 sig) \<le> curve_order div 2"
proof -
  from assms obtain key sig n bytes where k: "import_bound_device_key spki sha256 encoded = Inr (key, dp_key_id input)"
    and sig: "decode_base64url signature 64 = Inr sig" and n: "normalize_device_signature sig = Inr n"
    and same: "encode_base64url sig = encode_base64url n" and b: "device_proof_signing_input input = Inr bytes" "ecdsa key sig bytes"
    by (auto simp: verify_bound_device_proof_def rbind_Inr_iff split: sum.splits prod.splits if_splits)
  have "normalize_device_signature sig = Inr sig" using n same by (simp add: base64url_inj)
  with normalized_iff normalize_length [OF n] k sig b show ?thesis by (auto simp: base64url_iff)
qed

definition sample_key :: "byte list" where
  "sample_key = [1, 2, 3]"

definition sample_sha :: "byte list \<Rightarrow> byte list" where
  "sample_sha bytes = replicate 32 170"

definition sample_proof_signature :: "byte list" where
  "sample_proof_signature = (replicate 31 0 @ [1]) @ (replicate 31 0 @ [2])"

lemma sample_proof_accepted:
  assumes key: "dp_key_id p = sample_hash" and b: "device_proof_signing_input p = Inr bytes"
  shows "verify_bound_device_proof Some sample_sha (\<lambda>key sig bytes. key = sample_key) (encode_base64url sample_key) p
    (encode_base64url sample_proof_signature)"
proof -
  have zero: "scalar (replicate n 0 @ [b]) = unat b" for n b by (induction n) simp_all
  have len: "length sample_proof_signature = 64" by (simp add: sample_proof_signature_def)
  have parts: "take 32 sample_proof_signature = replicate 31 0 @ [1]" "drop 32 sample_proof_signature = replicate 31 0 @ [2]"
    by (simp_all add: sample_proof_signature_def)
  have n: "normalize_device_signature sample_proof_signature = Inr sample_proof_signature"
    unfolding normalized_iff [OF len] parts zero by (simp add: curve_order_def)
  have h: "''sha256:'' @ hex (sample_sha sample_key) = dp_key_id p" unfolding key by code_simp
  have d: "decode_base64url (encode_base64url sample_proof_signature) 64 = Inr sample_proof_signature"
    "decode_base64url (encode_base64url sample_key) 384 = Inr sample_key"
    by (rule base64url_decode_encode; simp add: len sample_key_def)+
  have i: "import_bound_device_key Some sample_sha (encode_base64url sample_key) = Inr (sample_key, dp_key_id p)"
    unfolding import_bound_device_key_def d(2) rbind_simps option.case h by simp
  show ?thesis
    unfolding verify_bound_device_proof_def i sum.case prod.case d(1) rbind_simps n b by simp
qed

lemma sample_proof_verifies:
  "verify_bound_device_proof Some sample_sha (\<lambda>key sig bytes. key = sample_key) (encode_base64url sample_key) sample_proof
    (encode_base64url sample_proof_signature)"
proof -
  have "\<not> isl (device_proof_signing_input sample_proof)" by code_simp
  then obtain bytes where "device_proof_signing_input sample_proof = Inr bytes" by (cases "device_proof_signing_input sample_proof") auto
  then show ?thesis by (rule sample_proof_accepted [rotated]) (simp add: sample_proof_def)
qed

theorem accepted_proof_canonical_witness:
  "\<exists>key sig bytes. import_bound_device_key Some sample_sha (encode_base64url sample_key) = Inr (key, dp_key_id sample_proof)
    \<and> encode_base64url sample_proof_signature = encode_base64url sig \<and> length sig = 64
    \<and> device_proof_signing_input sample_proof = Inr bytes \<and> key = sample_key
    \<and> 0 < scalar (take 32 sig) \<and> scalar (take 32 sig) < curve_order
    \<and> 0 < scalar (drop 32 sig) \<and> scalar (drop 32 sig) \<le> curve_order div 2"
  by (rule accepted_proof_canonical [OF sample_proof_verifies])

section \<open>A lease that was signed verifies\<close>

text \<open>C38. A lease the server signs is one its verification accepts in the window of the lease, for whoever expects its
  claims and trusts the key; before it was issued and from the moment it ends it is refused.\<close>

theorem signed_lease_verifies:
  assumes r: "utf8_reader read_utf8" and s: "sign_bound_device_lease read_utf8 c signer = Inr token"
    and keys: "keys (lc_key_id c) = Some signer" and x: "expected_lease x c" and now: "0 \<le> now" "now \<le> int max_safe_integer"
  shows "verify_bound_device_lease read_utf8 token keys x now = (if lc_issued_at c \<le> now \<and> now < lc_expires_at c then Some c else None)"
proof -
  from s obtain payload input where p: "encode_device_lease_payload c = Inr payload" and i: "device_lease_signing_input read_utf8 payload = Inr input"
    and v: "ls_usable signer" "ls_key_id signer = lc_key_id c" "ls_verify signer (ls_sign signer input) input"
    and e: "encode_device_lease_envelope read_utf8 payload (ls_sign signer input) = Inr token"
    by (auto simp: sign_bound_device_lease_def rbind_Inr_iff Let_def split: if_splits)
  from envelope_exact [OF r, of token payload "ls_sign signer input" c] e p
  have "decode_device_lease_envelope read_utf8 token = Inr (payload, ls_sign signer input, c)" by simp
  with v i keys x now show ?thesis by (simp add: verify_bound_device_lease_def)
qed

definition sample_signer :: lease_signer where
  "sample_signer = \<lparr>ls_usable = True, ls_key_id = sample_hash, ls_sign = (\<lambda>_. sample_signature), ls_verify = (\<lambda>sig _. sig = sample_signature)\<rparr>"

definition sample_expectation :: lease_expectation where
  "sample_expectation = \<lparr>lx_issuer = ''issuer'', lx_audience = ''app'', lx_project = ''demo'', lx_feature = ''pro'',
     lx_fingerprint = replicate 64 (CHR ''0''), lx_binding_id = encode_base64url (replicate 16 7), lx_device_key_id = sample_hash,
     lx_generation = 1, lx_operation_id = encode_base64url (replicate 32 5), lx_min_revocation_seq = 0\<rparr>"

lemma sample_signs: "\<exists>token. sign_bound_device_lease latin_reader sample_claims sample_signer = Inr token"
proof -
  obtain payload token where p: "encode_device_lease_payload sample_claims = Inr payload"
    and e: "encode_device_lease_envelope latin_reader payload sample_signature = Inr token" using sample_envelope by blast
  have "decode_device_lease_payload latin_reader payload = Inr sample_claims" by (rule decode_encoded_payload [OF latin_reader_ok p])
  with p e have "sign_bound_device_lease latin_reader sample_claims sample_signer = Inr token"
    by (simp add: sign_bound_device_lease_def sample_signer_def sample_claims_def device_lease_signing_input_def Let_def)
  then show ?thesis ..
qed

theorem signed_lease_verifies_witness:
  "\<exists>token. sign_bound_device_lease latin_reader sample_claims sample_signer = Inr token
    \<and> verify_bound_device_lease latin_reader token (\<lambda>_. Some sample_signer) sample_expectation 1000 = Some sample_claims
    \<and> verify_bound_device_lease latin_reader token (\<lambda>_. Some sample_signer) sample_expectation 1300 = None"
proof -
  obtain token where s: "sign_bound_device_lease latin_reader sample_claims sample_signer = Inr token" using sample_signs by blast
  have x: "expected_lease sample_expectation sample_claims" by (simp add: expected_lease_def sample_expectation_def sample_claims_def)
  have t: "lc_issued_at sample_claims = 1000" "lc_expires_at sample_claims = 1300" by (simp_all add: sample_claims_def)
  from signed_lease_verifies [OF latin_reader_ok s _ x, of "\<lambda>_. Some sample_signer" 1000]
    signed_lease_verifies [OF latin_reader_ok s _ x, of "\<lambda>_. Some sample_signer" 1300] s
  show ?thesis by (intro exI [of _ token]) (simp add: t max_safe_integer_def)
qed

end
