(* ===== verification/Lease_Enroll.thy ===== *)
theory Lease_Enroll
  imports Lease_Retired Lease_Crypto
begin

text \<open>
  Registering a device for approval and asking for a challenge (\<open>device/bound_enrollment.mjs\<close>). Random ids, the
  hash of secrets and the platform's key import are arguments; the request is the one the validation returned.
\<close>

section \<open>Calls that answer\<close>

text \<open>\<open>.first()\<close> of a statement that returns a time.\<close>

definition first_time :: "lease_command \<Rightarrow> int option lease_io" where
  "first_time s = db_call (\<lambda>d. case s d of
     Inl e \<Rightarrow> (Inl e, d) | Inr (rows, d') \<Rightarrow> (Inr (case rows of TimeOut t # _ \<Rightarrow> Some t | _ \<Rightarrow> None), d'))"

section \<open>Authorizations\<close>

record authorize_request =
  au_client_id :: string
  au_project :: string
  au_feature :: string
  au_spki :: string
  au_label :: string
  au_redirect_uri :: string
  au_state :: string
  au_code_challenge :: string

definition feature_text :: "string \<Rightarrow> bool" where
  "feature_text s \<longleftrightarrow> s \<noteq> [] \<and> length s \<le> 15 \<and> list_all identity_char s"

definition new_attempt :: "authorize_request \<Rightarrow> string \<Rightarrow> string \<Rightarrow> int \<Rightarrow> bound_attempt" where
  "new_attempt r hash key_id now = \<lparr>at_handle_hash = hash, at_client_id = au_client_id r, at_project = au_project r, at_key_id = key_id,
     at_spki = au_spki r, at_device_label = au_label r, at_redirect_uri = au_redirect_uri r, at_client_state = au_state r,
     at_pkce = au_code_challenge r, at_status = Pending, at_revision = 0, at_customer_id = None, at_feature = None, at_fingerprint = None,
     at_code_hash = None, at_code_expires_at = None, at_ciphertext = None, at_created_at = now, at_expires_at = now + 300,
     at_consumed_invocation = None, at_consumed_operation = None, at_recovery_until = None, at_requested_feature = au_feature r\<rparr>"

definition insert_attempt :: "authorize_request \<Rightarrow> string \<Rightarrow> string \<Rightarrow> lease_command" where
  "insert_attempt r hash key_id d =
     (if find_attempt d hash \<noteq> None then Inl ''UNIQUE constraint failed: device_bound_authorizations''
      else if \<not> feature_text (au_feature r) \<or> int max_safe_integer < ld_now d + 300 then Inl ''CHECK constraint failed: device_bound_authorizations''
      else Inr ([TimeOut (ld_now d + 300)], d\<lparr>ld_attempts := ld_attempts d @ [new_attempt r hash key_id (ld_now d)]\<rparr>))"

record bound_client =
  bc_client_id :: string
  bc_project :: string
  bc_callbacks :: "(string \<times> string) list"

text \<open>\<open>callbackSyntax\<close>: a loopback address with a port and a path; \<open>canonical\<close> is the platform's \<open>new URL(value)\<close> agreeing with
  the text, without user, query and fragment.\<close>

definition loopback_prefixes :: "string list" where
  "loopback_prefixes = [''http://127.0.0.1:'', ''http://[::1]:'']"

definition callback_syntax :: "(string \<Rightarrow> bool) \<Rightarrow> string \<Rightarrow> bool" where
  "callback_syntax canonical v \<longleftrightarrow> length v \<le> 1024 \<and> CHR ''?'' \<notin> set v \<and> CHR ''#'' \<notin> set v
     \<and> list_ex (\<lambda>p. js_starts v p \<and> (let rest = drop (length p) v; port = takeWhile js_digit rest in
          port \<noteq> [] \<and> hd port \<noteq> CHR ''0'' \<and> length port \<le> 5 \<and> js_starts (drop (length port) rest) ''/'')) loopback_prefixes
     \<and> canonical v"

definition validate_bound_client ::
  "(string \<Rightarrow> bool) \<Rightarrow> (string \<Rightarrow> string \<times> string) \<Rightarrow> string \<Rightarrow> string \<Rightarrow> string \<Rightarrow> bound_client list \<Rightarrow> refused + bound_client" where
  "validate_bound_client canonical url client_id project redirect_uri registry =
     (case find (\<lambda>c. bc_client_id c = client_id) registry of
        None \<Rightarrow> Inl (''access_denied'', 403)
      | Some c \<Rightarrow>
          if bc_project c \<noteq> project then Inl (''access_denied'', 403)
          else if \<not> callback_syntax canonical redirect_uri then Inl (''invalid_request'', 400)
          else if url redirect_uri \<in> set (bc_callbacks c) then Inr c else Inl (''access_denied'', 403))"

text \<open>The answer is the handle and when the attempt ends; the URL and the comparison code only display it.\<close>

definition create_bound_authorization ::
  "(string \<Rightarrow> string) \<Rightarrow> (string \<Rightarrow> bool) \<Rightarrow> (string \<Rightarrow> string \<times> string) \<Rightarrow> (byte list \<Rightarrow> byte list option) \<Rightarrow> (byte list \<Rightarrow> byte list)
     \<Rightarrow> bool \<Rightarrow> string \<Rightarrow> bound_client list \<Rightarrow> authorize_request \<Rightarrow> (refused + string \<times> int) lease_io" where
  "create_bound_authorization secret_hash canonical url spki sha256 destination_ok handle clients r =
     (case validate_bound_client canonical url (au_client_id r) (au_project r) (au_redirect_uri r) clients of
        Inl e \<Rightarrow> io_return (Inl e)
      | Inr _ \<Rightarrow>
          if \<not> destination_ok then deny ''temporarily_unavailable'' 503
          else case import_bound_device_key spki sha256 (au_spki r) of
              Inl _ \<Rightarrow> deny ''invalid_request'' 400
            | Inr (_, key_id) \<Rightarrow>
                io_bind (first_time (insert_attempt r (secret_hash handle) key_id)) (\<lambda>row. case row of
                    None \<Rightarrow> deny ''temporarily_unavailable'' 503
                  | Some expires_at \<Rightarrow> io_return (Inr (handle, expires_at))))"

section \<open>Challenges\<close>

text \<open>What a challenge is for: the subject, the key and the time it cannot outlive.\<close>

definition exchange_subject :: "lease_db \<Rightarrow> string \<Rightarrow> string \<Rightarrow> (string \<times> string \<times> int) option" where
  "exchange_subject d handle_hash operation_id = obind (find_attempt d handle_hash) (\<lambda>a. case at_status a of
     Pending \<Rightarrow> if ld_now d < at_expires_at a then Some (handle_hash, at_key_id a, at_expires_at a) else None
   | Approved \<Rightarrow> if ld_now d < at_expires_at a \<and> (case at_code_expires_at a of None \<Rightarrow> False | Some t \<Rightarrow> ld_now d < t)
       then Some (handle_hash, at_key_id a, at_expires_at a) else None
   | Consumed \<Rightarrow> (case find (\<lambda>q. op_key_id q = at_key_id a \<and> op_purpose q = Exchange \<and> Some (op_operation_id q) = at_consumed_operation a
         \<and> Some (op_invocation_id q) = at_consumed_invocation a \<and> Some (op_customer_id q) = at_customer_id a \<and> op_complete q
         \<and> op_response q \<noteq> Erased) (ld_operations d) of
       None \<Rightarrow> None
     | Some q \<Rightarrow> (case at_recovery_until a of
           None \<Rightarrow> None
         | Some until \<Rightarrow> if at_consumed_operation a = Some operation_id \<and> ld_now d < until \<and> ld_now d < op_retain_until q
             then Some (handle_hash, at_key_id a, min until (op_retain_until q)) else None))
   | Denied \<Rightarrow> None)"

definition renew_subject :: "lease_db \<Rightarrow> string \<Rightarrow> (string \<times> string \<times> int) option" where
  "renew_subject d binding_id = obind (find_binding d binding_id) (\<lambda>b. obind (find_device d (bi_device_id b)) (\<lambda>v.
     Some (binding_id, dv_key_id v, ld_now d + 60)))"

definition new_challenge :: "string \<Rightarrow> lease_purpose \<Rightarrow> string \<Rightarrow> string \<Rightarrow> string \<times> string \<times> int \<Rightarrow> int \<Rightarrow> bound_challenge" where
  "new_challenge i purpose operation_id nonce_hash s now = (case s of (subject, key_id, deadline) \<Rightarrow>
     \<lparr>ch_id = i, ch_purpose = purpose, ch_subject_id = subject, ch_key_id = key_id, ch_operation_id = operation_id,
       ch_nonce_hash = nonce_hash, ch_created_at = now, ch_expires_at = min (now + 60) deadline, ch_consumed = None\<rparr>)"

definition insert_challenge :: "bound_challenge \<Rightarrow> lease_command" where
  "insert_challenge c d =
     (if list_ex (\<lambda>e. ch_id e = ch_id c \<or> ch_nonce_hash e = ch_nonce_hash c) (ld_challenges d)
      then Inl ''UNIQUE constraint failed: device_bound_challenges''
      else if ch_expires_at c \<le> ch_created_at c \<or> int max_safe_integer < ch_expires_at c \<or> ch_purpose c = Retire
      then Inl ''CHECK constraint failed: device_bound_challenges''
      else Inr ([TimeOut (ch_expires_at c)], d\<lparr>ld_challenges := ld_challenges d @ [c]\<rparr>))"

definition challenge_subject :: "lease_db \<Rightarrow> lease_purpose \<Rightarrow> string \<Rightarrow> string \<Rightarrow> (string \<times> string \<times> int) option" where
  "challenge_subject d purpose subject operation_id =
     (if purpose = Exchange then exchange_subject d subject operation_id else renew_subject d subject)"

definition insert_subject_challenge :: "string \<Rightarrow> lease_purpose \<Rightarrow> string \<Rightarrow> string \<Rightarrow> string \<Rightarrow> lease_command" where
  "insert_subject_challenge i purpose subject operation_id nonce_hash d =
     (case challenge_subject d purpose subject operation_id of
        None \<Rightarrow> Inr ([], d)
      | Some s \<Rightarrow> if snd (snd s) \<le> ld_now d then Inr ([], d) else insert_challenge (new_challenge i purpose operation_id nonce_hash s (ld_now d)) d)"

text \<open>\<open>secret\<close> is the attempt's handle for an exchange, the binding's id for a renewal.\<close>

definition create_bound_challenge ::
  "(string \<Rightarrow> string) \<Rightarrow> string \<Rightarrow> string \<Rightarrow> lease_purpose \<Rightarrow> string \<Rightarrow> string \<Rightarrow> (refused + string \<times> string \<times> int) lease_io" where
  "create_bound_challenge secret_hash i nonce purpose secret operation_id =
     io_bind (first_time (insert_subject_challenge i purpose (if purpose = Exchange then secret_hash secret else secret) operation_id (secret_hash nonce)))
       (\<lambda>row. case row of
          None \<Rightarrow> deny (if purpose = Exchange then ''authorization_unavailable'' else ''binding_unavailable'') 404
        | Some expires_at \<Rightarrow> io_return (Inr (i, nonce, expires_at)))"

section \<open>Steps\<close>

lemma keeps_first_time:
  assumes "\<And>d rows d'. s d = Inr (rows, d') \<Longrightarrow> lease_progress d d'"
  shows "keeps lease_progress (first_time s)"
  unfolding first_time_def by (rule leases.keeps_call) (auto simp: leases.refl assms split: sum.split)

lemma keeps_deny: "keeps lease_progress (deny c s)"
  by (simp add: deny_def leases.keeps_basic)

lemmas lease_keeps = leases.keeps_basic leases.keeps_read keeps_deny

lemma insert_attempt_progress: "insert_attempt r h k d = Inr (rows, d') \<Longrightarrow> lease_progress d d'"
  by (rule bystander_progress) (auto simp: insert_attempt_def split: if_splits)

lemma insert_challenge_progress: "insert_subject_challenge i p s o' n d = Inr (rows, d') \<Longrightarrow> lease_progress d d'"
  by (rule bystander_progress) (auto simp: insert_subject_challenge_def insert_challenge_def split: if_splits option.splits)

lemma keeps_create_authorization: "keeps lease_progress (create_bound_authorization h c url spki sha ok handle clients r)"
  unfolding create_bound_authorization_def
  by (auto intro!: lease_keeps leases.keeps_bind keeps_first_time insert_attempt_progress split: sum.split option.split)

lemma keeps_create_challenge: "keeps lease_progress (create_bound_challenge h i n p s o')"
  unfolding create_bound_challenge_def
  by (auto intro!: lease_keeps leases.keeps_bind keeps_first_time insert_challenge_progress split: option.split)

section \<open>What a challenge allows\<close>

lemma exchange_subject_later: "exchange_subject d h o' = Some s \<Longrightarrow> fst s = h \<and> ld_now d < snd (snd s)"
  by (auto simp: exchange_subject_def obind_def split: option.splits attempt_status.splits if_splits)

lemma new_challenge_fields:
  assumes "insert_subject_challenge i purpose subject o' n d = Inr (TimeOut t # rows, d')"
  obtains c key where "ld_challenges d' = ld_challenges d @ [c]" "ch_id c = i" "ch_subject_id c = subject" "ch_key_id c = key"
    "ch_purpose c = purpose" "ch_operation_id c = o'" "ch_nonce_hash c = n" "ch_consumed c = None" "ch_expires_at c = t"
    "ld_now d < t" "t \<le> ld_now d + 60" "ch_created_at c = ld_now d"
proof -
  from assms obtain s where s: "challenge_subject d purpose subject o' = Some s" "ld_now d < snd (snd s)"
    and c: "insert_challenge (new_challenge i purpose o' n s (ld_now d)) d = Inr (TimeOut t # rows, d')"
    by (auto simp: insert_subject_challenge_def split: option.splits if_splits)
  obtain key deadline where s': "s = (subject, key, deadline)"
    using s(1) exchange_subject_later [of d subject o'] by (cases s)
      (auto simp: challenge_subject_def renew_subject_def obind_def split: if_splits option.splits)
  show ?thesis
    by (rule that [of "new_challenge i purpose o' n s (ld_now d)" key])
      (use s c in \<open>auto simp: new_challenge_def s' insert_challenge_def split: if_splits\<close>)
qed

end
