(* ===== verification/Lease_Cleanup.thy ===== *)
theory Lease_Cleanup
  imports Lease_Enroll
begin

text \<open>
  The scheduled sweeps of the device tables (\<open>device/bound_cleanup.mjs\<close>, \<open>maintenance/device_cleanup.ts\<close>): each
  deletes or erases at most a thousand expired rows per statement, the oldest first, and gives up after
  ten statements.
\<close>

section \<open>Sweeps\<close>

definition bound_cleanup_batch_size :: nat where
  "bound_cleanup_batch_size = 1000"

definition bound_cleanup_max_batches :: nat where
  "bound_cleanup_max_batches = 10"

definition bound_cleanup_max_rows :: nat where
  "bound_cleanup_max_rows = bound_cleanup_batch_size * bound_cleanup_max_batches"

text \<open>\<open>WHERE id IN (SELECT id \<dots> WHERE dead ORDER BY deadline LIMIT 1000) AND dead\<close>\<close>

definition swept :: "('r \<Rightarrow> 'k) \<Rightarrow> ('r \<Rightarrow> int) \<Rightarrow> ('r \<Rightarrow> bool) \<Rightarrow> 'r list \<Rightarrow> 'r \<Rightarrow> bool" where
  "swept ident deadline dead rows r \<longleftrightarrow> dead r
     \<and> ident r \<in> set (List.map ident (take bound_cleanup_batch_size (sort_key deadline (List.filter dead rows))))"

definition sweep_delete :: "('r \<Rightarrow> 'k) \<Rightarrow> ('r \<Rightarrow> int) \<Rightarrow> ('r \<Rightarrow> bool) \<Rightarrow> 'r list \<Rightarrow> nat \<times> 'r list" where
  "sweep_delete ident deadline dead rows =
     (length (List.filter (swept ident deadline dead rows) rows), List.filter (\<lambda>r. \<not> swept ident deadline dead rows r) rows)"

definition sweep_update :: "('r \<Rightarrow> 'k) \<Rightarrow> ('r \<Rightarrow> int) \<Rightarrow> ('r \<Rightarrow> bool) \<Rightarrow> ('r \<Rightarrow> 'r) \<Rightarrow> 'r list \<Rightarrow> nat \<times> 'r list" where
  "sweep_update ident deadline dead f rows =
     (length (List.filter (swept ident deadline dead rows) rows), List.map (\<lambda>r. if swept ident deadline dead rows r then f r else r) rows)"

type_synonym sweep = "lease_db \<Rightarrow> nat \<times> lease_db"

definition past :: "int \<Rightarrow> int option \<Rightarrow> bool" where
  "past now t \<longleftrightarrow> (case t of None \<Rightarrow> False | Some t \<Rightarrow> t \<le> now)"

definition approval_dead :: "int \<Rightarrow> bound_attempt \<Rightarrow> bool" where
  "approval_dead now a \<longleftrightarrow> at_ciphertext a \<noteq> None \<and> past now (at_code_expires_at a)"

definition erase_expired_bound_approvals :: sweep where
  "erase_expired_bound_approvals d =
     (let (n, rows) = sweep_update at_handle_hash (\<lambda>a. or_else (at_code_expires_at a) 0) (approval_dead (ld_now d))
        (\<lambda>a. a\<lparr>at_ciphertext := None\<rparr>) (ld_attempts d) in (n, d\<lparr>ld_attempts := rows\<rparr>))"

definition delete_expired_challenges :: sweep where
  "delete_expired_challenges d =
     (let (n, rows) = sweep_delete ch_id ch_expires_at (\<lambda>c. ch_expires_at c \<le> ld_now d) (ld_challenges d) in (n, d\<lparr>ld_challenges := rows\<rparr>))"

definition attempt_dead :: "int \<Rightarrow> bound_attempt \<Rightarrow> bool" where
  "attempt_dead now a \<longleftrightarrow> at_expires_at a \<le> now \<and> at_status a \<noteq> Consumed"

definition delete_expired_attempts :: sweep where
  "delete_expired_attempts d =
     (let (n, rows) = sweep_delete at_handle_hash at_expires_at (attempt_dead (ld_now d)) (ld_attempts d) in (n, d\<lparr>ld_attempts := rows\<rparr>))"

definition answer_dead :: "int \<Rightarrow> bound_operation \<Rightarrow> bool" where
  "answer_dead now q \<longleftrightarrow> op_complete q \<and> op_retain_until q \<le> now \<and> op_response q \<noteq> Erased"

definition erase_expired_answers :: sweep where
  "erase_expired_answers d =
     (let (n, rows) = sweep_update op_invocation_id op_retain_until (answer_dead (ld_now d)) (\<lambda>q. q\<lparr>op_response := Erased\<rparr>) (ld_operations d)
      in (n, d\<lparr>ld_operations := rows\<rparr>))"

definition consumed_dead :: "int \<Rightarrow> bound_attempt \<Rightarrow> bool" where
  "consumed_dead now a \<longleftrightarrow> at_status a = Consumed \<and> past now (at_recovery_until a)"

definition delete_consumed_attempts :: sweep where
  "delete_consumed_attempts d =
     (let (n, rows) = sweep_delete at_handle_hash (\<lambda>a. or_else (at_recovery_until a) 0) (consumed_dead (ld_now d)) (ld_attempts d)
      in (n, d\<lparr>ld_attempts := rows\<rparr>))"

definition delete_expired_leases :: sweep where
  "delete_expired_leases d =
     (let (n, rows) = sweep_delete le_id le_accept_until (\<lambda>l. le_accept_until l \<le> ld_now d) (ld_leases d) in (n, d\<lparr>ld_leases := rows\<rparr>))"

section \<open>Draining\<close>

definition run_changes :: "sweep \<Rightarrow> nat lease_io" where
  "run_changes s = db_call (\<lambda>d. (Inr (fst (s d)), snd (s d)))"

fun drain :: "nat \<Rightarrow> sweep \<Rightarrow> nat \<Rightarrow> nat lease_io" where
  "drain 0 s removed = io_return removed"
| "drain (Suc batches) s removed = io_bind (run_changes s) (\<lambda>changes.
     if changes < bound_cleanup_batch_size then io_return (removed + changes) else drain batches s (removed + changes))"

fun drain_bound_cleanup :: "sweep list \<Rightarrow> nat list lease_io" where
  "drain_bound_cleanup [] = io_return []"
| "drain_bound_cleanup (s # ss) = io_bind (drain bound_cleanup_max_batches s 0) (\<lambda>removed.
     io_bind (drain_bound_cleanup ss) (\<lambda>rest. io_return (removed # rest)))"

definition purge_expired_bound_approvals :: "nat list lease_io" where
  "purge_expired_bound_approvals = drain_bound_cleanup [erase_expired_bound_approvals]"

definition purge_expired_bound_ephemera :: "nat list lease_io" where
  "purge_expired_bound_ephemera = drain_bound_cleanup [delete_expired_challenges, delete_expired_attempts]"

definition expire_bound_recovery :: "nat list lease_io" where
  "expire_bound_recovery = drain_bound_cleanup [erase_expired_answers, delete_consumed_attempts]"

definition purge_expired_bound_leases :: "nat list lease_io" where
  "purge_expired_bound_leases = drain_bound_cleanup [delete_expired_leases]"

section \<open>The backlog\<close>

definition oldest :: "int list \<Rightarrow> int option" where
  "oldest ts = (case ts of [] \<Rightarrow> None | _ \<Rightarrow> Some (Min (set ts)))"

definition bound_cleanup_backlog :: "lease_db \<Rightarrow> int \<times> int option list" where
  "bound_cleanup_backlog d = (let now = ld_now d in (now,
     [oldest (List.map (\<lambda>a. or_else (at_code_expires_at a) 0) (List.filter (approval_dead now) (ld_attempts d))),
      oldest (List.map ch_expires_at (List.filter (\<lambda>c. ch_expires_at c \<le> now) (ld_challenges d))),
      oldest (List.map at_expires_at (List.filter (attempt_dead now) (ld_attempts d))),
      oldest (List.map op_retain_until (List.filter (answer_dead now) (ld_operations d))),
      oldest (List.map (\<lambda>a. or_else (at_recovery_until a) 0) (List.filter (consumed_dead now) (ld_attempts d))),
      oldest (List.map le_accept_until (List.filter (\<lambda>l. le_accept_until l \<le> now) (ld_leases d)))]))"

record backlog =
  bk_source :: string
  bk_target :: string
  bk_measured_at :: int
  bk_oldest :: "int option"
  bk_age :: "int option"

definition backlog_targets :: "(string \<times> string) list" where
  "backlog_targets = [(''approval'', ''responses''), (''ephemera'', ''challenges''), (''ephemera'', ''attempts''),
     (''recovery'', ''responses''), (''recovery'', ''attempts''), (''lease'', ''leases'')]"

definition safe_timestamp :: "int \<Rightarrow> bool" where
  "safe_timestamp t \<longleftrightarrow> 0 \<le> t \<and> t \<le> int max_safe_integer"

definition measured_backlog :: "int \<times> int option list \<Rightarrow> backlog list outcome" where
  "measured_backlog row = (case row of (now, deadlines) \<Rightarrow>
     if length deadlines \<noteq> 6 \<or> \<not> safe_timestamp now
       \<or> list_ex (\<lambda>t. case t of None \<Rightarrow> False | Some t \<Rightarrow> \<not> safe_timestamp t \<or> now < t) deadlines
     then Inl ''Invalid cleanup measurement''
     else Inr (List.map (\<lambda>((source, target), t). \<lparr>bk_source = source, bk_target = target, bk_measured_at = now, bk_oldest = t,
       bk_age = map_option (\<lambda>u. now - u) t\<rparr>) (zip backlog_targets deadlines)))"

definition measure_bound_cleanup_backlog :: "backlog list lease_io" where
  "measure_bound_cleanup_backlog = io_bind (db_read bound_cleanup_backlog) (\<lambda>row. io_lift (measured_backlog row))"

section \<open>The job\<close>

datatype cleanup_log = Completed string nat | LimitReached string nat | Failed string | Backlog backlog | BacklogFailed

definition log_result :: "string \<Rightarrow> nat list \<Rightarrow> cleanup_log list" where
  "log_result source totals = List.map (\<lambda>n. if bound_cleanup_max_rows \<le> n then LimitReached source n else Completed source n) totals"

definition cleanup_job :: "string \<times> nat list lease_io \<Rightarrow> cleanup_log list lease_io" where
  "cleanup_job job = io_try (snd job) (\<lambda>_. io_return [Failed (fst job)]) (\<lambda>totals. io_return (log_result (fst job) totals))"

fun cleanup_jobs :: "(string \<times> nat list lease_io) list \<Rightarrow> cleanup_log list lease_io" where
  "cleanup_jobs [] = io_return []"
| "cleanup_jobs (j # js) = io_bind (cleanup_job j) (\<lambda>l. io_bind (cleanup_jobs js) (\<lambda>ls. io_return (l @ ls)))"

definition run_bound_device_cleanup :: "cleanup_log list lease_io" where
  "run_bound_device_cleanup =
     io_bind (cleanup_jobs [(''approval'', purge_expired_bound_approvals), (''ephemera'', purge_expired_bound_ephemera),
         (''recovery'', expire_bound_recovery), (''lease'', purge_expired_bound_leases)]) (\<lambda>ls.
       io_try measure_bound_cleanup_backlog (\<lambda>_. io_return (ls @ [BacklogFailed])) (\<lambda>bs. io_return (ls @ List.map Backlog bs)))"

section \<open>Sweeps keep what is in force\<close>

lemma keeps_drain:
  assumes "\<And>d. lease_progress d (snd (s d))"
  shows "keeps lease_progress (drain n s t)"
proof (induction n arbitrary: t)
  case 0
  show ?case by (simp only: drain.simps lease_keeps)
next
  case (Suc n)
  have "keeps lease_progress (run_changes s)" unfolding run_changes_def by (rule leases.keeps_call) (simp add: assms)
  with Suc show ?case unfolding drain.simps by (intro leases.keeps_bind) (auto intro: lease_keeps split: if_split)
qed

lemma keeps_drain_all:
  assumes "\<forall>s\<in>set ss. \<forall>d. lease_progress d (snd (s d))"
  shows "keeps lease_progress (drain_bound_cleanup ss)"
  using assms
proof (induction ss)
  case (Cons s ss)
  then show ?case unfolding drain_bound_cleanup.simps by (intro leases.keeps_bind lease_keeps keeps_drain) auto
qed (simp only: drain_bound_cleanup.simps lease_keeps)

lemma leases_ok_operations:
  assumes "leases_ok d" and "ld_core d' = ld_core d" "ld_now d' = ld_now d" "ld_leases d' = ld_leases d" "ld_bindings d' = ld_bindings d"
    and "\<forall>q\<in>set (ld_operations d'). op_complete q" "distinct (List.map op_invocation_id (ld_operations d'))"
    and "distinct (List.map operation_key (ld_operations d'))"
  shows "leases_ok d'"
  using assms(1,6-8) unfolding leases_ok_def occupied_def lease_held_def find_binding_def assms(2-5) by blast

lemma erase_answers_progress: "lease_progress d (snd (erase_expired_answers d))"
proof (rule lease_progressI)
  let ?P = "swept op_invocation_id op_retain_until (answer_dead (ld_now d)) (ld_operations d)"
  let ?f = "\<lambda>q. if ?P q then q\<lparr>op_response := Erased\<rparr> else q"
  let ?d = "snd (erase_expired_answers d)"
  assume ok: "leases_ok d"
  have d: "?d = d\<lparr>ld_operations := List.map ?f (ld_operations d)\<rparr>" by (simp add: erase_expired_answers_def sweep_update_def)
  have f: "op_invocation_id (?f q) = op_invocation_id q" "operation_key (?f q) = operation_key q" "op_complete (?f q) = op_complete q" for q
    by (simp_all add: operation_key_def)
  have "List.map op_invocation_id (ld_operations ?d) = List.map op_invocation_id (ld_operations d)"
    "List.map operation_key (ld_operations ?d) = List.map operation_key (ld_operations d)"
    by (simp_all add: d f)
  note maps = this
  have c: "\<forall>q\<in>set (ld_operations ?d). op_complete q" using ok by (auto simp: d leases_ok_def)
  have m: "distinct (List.map op_invocation_id (ld_operations ?d))" "distinct (List.map operation_key (ld_operations ?d))"
    using ok unfolding maps leases_ok_def by blast+
  have e: "ld_core ?d = ld_core d" "ld_now ?d = ld_now d" "ld_leases ?d = ld_leases d" "ld_bindings ?d = ld_bindings d"
    by (simp_all add: d)
  have "leases_ok ?d" by (rule leases_ok_operations [OF ok e c m])
  moreover have "?P q \<Longrightarrow> op_retain_until q \<le> ld_now d" for q by (simp add: swept_def answer_dead_def)
  then have "lease_forward d ?d" unfolding lease_forward_def by (auto simp: d find_binding_def operation_later_def)
  ultimately show "leases_ok ?d \<and> lease_forward d ?d" ..
qed

lemma delete_leases_progress: "lease_progress d (snd (delete_expired_leases d))"
  by (rule bystander_progress) (auto simp: delete_expired_leases_def sweep_delete_def swept_def)

lemma attempts_progress:
  "lease_progress d (snd (erase_expired_bound_approvals d))" "lease_progress d (snd (delete_expired_challenges d))"
  "lease_progress d (snd (delete_expired_attempts d))" "lease_progress d (snd (delete_consumed_attempts d))"
  by (rule bystander_progress; auto simp: erase_expired_bound_approvals_def delete_expired_challenges_def delete_expired_attempts_def
      delete_consumed_attempts_def sweep_delete_def sweep_update_def)+

lemma keeps_purges:
  "keeps lease_progress purge_expired_bound_approvals" "keeps lease_progress purge_expired_bound_ephemera"
  "keeps lease_progress expire_bound_recovery" "keeps lease_progress purge_expired_bound_leases"
  unfolding purge_expired_bound_approvals_def purge_expired_bound_ephemera_def expire_bound_recovery_def purge_expired_bound_leases_def
  by (rule keeps_drain_all; simp add: attempts_progress erase_answers_progress delete_leases_progress)+

lemma keeps_jobs:
  assumes "\<forall>j\<in>set js. keeps lease_progress (snd j)"
  shows "keeps lease_progress (cleanup_jobs js)"
  using assms
proof (induction js)
  case (Cons j js)
  have "keeps lease_progress (cleanup_job j)"
    unfolding cleanup_job_def using Cons.prems by (intro leases.keeps_try lease_keeps) auto
  with Cons show ?case unfolding cleanup_jobs.simps by (intro leases.keeps_bind lease_keeps) auto
qed (simp only: cleanup_jobs.simps lease_keeps)

lemma keeps_cleanup: "keeps lease_progress run_bound_device_cleanup"
proof -
  have "keeps lease_progress measure_bound_cleanup_backlog"
    unfolding measure_bound_cleanup_backlog_def by (auto intro!: leases.keeps_bind lease_keeps)
  then show ?thesis unfolding run_bound_device_cleanup_def
    by (intro leases.keeps_bind leases.keeps_try lease_keeps keeps_jobs) (auto simp: keeps_purges)
qed

section \<open>A sweep empties its backlog\<close>

lemma swept_all: "length (List.filter dead rows) \<le> bound_cleanup_batch_size \<Longrightarrow> r \<in> set rows \<Longrightarrow> swept ident deadline dead rows r = dead r"
  by (auto simp: swept_def)

text \<open>With distinct ids a sweep takes exactly as many rows as it may.\<close>

lemma swept_count:
  assumes "distinct (List.map ident rows)"
  shows "length (List.filter (swept ident deadline dead rows) rows) = min bound_cleanup_batch_size (length (List.filter dead rows))"
proof -
  let ?v = "take bound_cleanup_batch_size (sort_key deadline (List.filter dead rows))"
  have in_rows: "set ?v \<subseteq> set (List.filter dead rows)" by (metis set_sort set_take_subset)
  have inj: "inj_on ident (set rows)" using assms by (simp add: distinct_map)
  have "swept ident deadline dead rows r \<longleftrightarrow> r \<in> set ?v" if "r \<in> set rows" for r
  proof
    assume "swept ident deadline dead rows r"
    then obtain r' where r': "r' \<in> set ?v" "ident r' = ident r" by (auto simp: swept_def)
    then have "r' \<in> set rows" using in_rows by auto
    with r' that inj have "r' = r" by (meson inj_onD)
    with r' show "r \<in> set ?v" by simp
  next
    assume "r \<in> set ?v"
    then show "swept ident deadline dead rows r" using in_rows by (auto simp: swept_def)
  qed
  then have "set (List.filter (swept ident deadline dead rows) rows) = set ?v" using in_rows by auto
  moreover have d: "distinct rows" using assms by (simp add: distinct_map)
  ultimately have "length (List.filter (swept ident deadline dead rows) rows) = card (set ?v)"
    by (metis distinct_card distinct_filter)
  also have "\<dots> = length ?v" using d by (intro distinct_card) (simp add: distinct_take)
  finally show ?thesis by (simp add: min.commute)
qed


lemma sweep_delete_counts:
  assumes "distinct (List.map ident rows)" and "sweep_delete ident deadline dead rows = (n, rest)"
  shows "n = min bound_cleanup_batch_size (length (List.filter dead rows))" "distinct (List.map ident rest)"
    "List.filter (\<lambda>r. \<not> dead r) rest = List.filter (\<lambda>r. \<not> dead r) rows"
    "length (List.filter dead rest) = length (List.filter dead rows) - n"
proof -
  let ?s = "swept ident deadline dead rows"
  from assms(2) have n: "n = length (List.filter ?s rows)" and rest: "rest = List.filter (\<lambda>r. \<not> ?s r) rows" by (auto simp: sweep_delete_def)
  show "n = min bound_cleanup_batch_size (length (List.filter dead rows))" unfolding n by (rule swept_count [OF assms(1)])
  show "distinct (List.map ident rest)" unfolding rest using assms(1) by (rule distinct_map_filter)
  show "List.filter (\<lambda>r. \<not> dead r) rest = List.filter (\<lambda>r. \<not> dead r) rows" unfolding rest by (auto simp: swept_def intro!: filter_cong)
  have "length (List.filter dead rows) = length (List.filter ?s (List.filter dead rows)) + length (List.filter (\<lambda>r. \<not> ?s r) (List.filter dead rows))"
    by (simp only: sum_length_filter_compl)
  moreover have "List.filter ?s (List.filter dead rows) = List.filter ?s rows" by (auto simp: swept_def intro!: filter_cong)
  moreover have "List.filter (\<lambda>r. \<not> ?s r) (List.filter dead rows) = List.filter dead rest" by (auto simp: rest intro!: filter_cong)
  ultimately show "length (List.filter dead rest) = length (List.filter dead rows) - n" by (simp add: n)
qed

definition expired_leases :: "lease_db \<Rightarrow> bound_lease list" where
  "expired_leases d = List.filter (\<lambda>l. le_accept_until l \<le> ld_now d) (ld_leases d)"

definition live_leases :: "lease_db \<Rightarrow> bound_lease list" where
  "live_leases d = List.filter (\<lambda>l. \<not> le_accept_until l \<le> ld_now d) (ld_leases d)"

lemma delete_leases_counts:
  assumes "distinct (List.map le_id (ld_leases d))" and "delete_expired_leases d = (n, d')"
  shows "n = min bound_cleanup_batch_size (length (expired_leases d))" "distinct (List.map le_id (ld_leases d'))"
    "live_leases d' = live_leases d" "length (expired_leases d') = length (expired_leases d) - n" "ld_now d' = ld_now d"
proof -
  obtain rest where s: "sweep_delete le_id le_accept_until (\<lambda>l. le_accept_until l \<le> ld_now d) (ld_leases d) = (n, rest)" "d' = d\<lparr>ld_leases := rest\<rparr>"
    using assms(2) by (auto simp: delete_expired_leases_def split: prod.splits)
  from sweep_delete_counts [OF assms(1) s(1)]
  show "n = min bound_cleanup_batch_size (length (expired_leases d))" "distinct (List.map le_id (ld_leases d'))"
    "live_leases d' = live_leases d" "length (expired_leases d') = length (expired_leases d) - n" "ld_now d' = ld_now d"
    by (simp_all add: s(2) expired_leases_def live_leases_def)
qed

lemma run_changes_alone: "w_schedule w = [] \<Longrightarrow> run_changes s w = (Inr (fst (s (w_db w))), w\<lparr>w_db := snd (s (w_db w))\<rparr>)"
  by (simp add: run_changes_def db_call_def Let_def)

lemma drain_leases:
  assumes "w_schedule w = []" and "distinct (List.map le_id (ld_leases (w_db w)))"
  shows "\<exists>d'. drain b delete_expired_leases t w
      = (Inr (t + min (b * bound_cleanup_batch_size) (length (expired_leases (w_db w)))), w\<lparr>w_db := d'\<rparr>)
    \<and> live_leases d' = live_leases (w_db w)
    \<and> length (expired_leases d') = length (expired_leases (w_db w)) - b * bound_cleanup_batch_size"
  using assms
proof (induction b arbitrary: t w)
  case 0
  show ?case by (intro exI [of _ "w_db w"]) (simp add: io_return_def)
next
  case (Suc b)
  obtain n d1 where s: "delete_expired_leases (w_db w) = (n, d1)" by (cases "delete_expired_leases (w_db w)") blast
  note c = delete_leases_counts [OF Suc.prems(2) s]
  have run: "run_changes delete_expired_leases w = (Inr n, w\<lparr>w_db := d1\<rparr>)" using run_changes_alone [OF Suc.prems(1)] by (simp add: s)
  show ?case
  proof (cases "n < bound_cleanup_batch_size")
    case True
    then have "n = length (expired_leases (w_db w))" "length (expired_leases (w_db w)) < bound_cleanup_batch_size" using c(1) by simp_all
    with c run True show ?thesis by (intro exI [of _ d1]) (simp add: io_bind_def io_return_def min_def)
  next
    case False
    then have n: "n = bound_cleanup_batch_size" "bound_cleanup_batch_size \<le> length (expired_leases (w_db w))" using c(1) by simp_all
    from Suc.IH [of "w\<lparr>w_db := d1\<rparr>" "t + n"] Suc.prems(1) c(2) obtain d' where
      d': "drain b delete_expired_leases (t + n) (w\<lparr>w_db := d1\<rparr>)
        = (Inr (t + n + min (b * bound_cleanup_batch_size) (length (expired_leases d1))), w\<lparr>w_db := d'\<rparr>)"
      "live_leases d' = live_leases d1" "length (expired_leases d') = length (expired_leases d1) - b * bound_cleanup_batch_size"
      by auto
    have "n + min (b * bound_cleanup_batch_size) (length (expired_leases (w_db w)) - n)
        = min (Suc b * bound_cleanup_batch_size) (length (expired_leases (w_db w)))" using n by (auto simp: min_def bound_cleanup_batch_size_def)
    with d' c run False show ?thesis by (intro exI [of _ d']) (simp add: io_bind_def n(1))
  qed
qed

text \<open>C40. Undisturbed, the purge of leases removes the expired ones, up to ten thousand in one sweep, and no other;
  it answers how many it removed.\<close>

theorem lease_purge_drains:
  assumes "w_schedule w = []" and "distinct (List.map le_id (ld_leases (w_db w)))"
  shows "\<exists>d'. purge_expired_bound_leases w = (Inr [min bound_cleanup_max_rows (length (expired_leases (w_db w)))], w\<lparr>w_db := d'\<rparr>)
    \<and> live_leases d' = live_leases (w_db w)
    \<and> length (expired_leases d') = length (expired_leases (w_db w)) - bound_cleanup_max_rows"
proof -
  from drain_leases [OF assms, of bound_cleanup_max_batches 0] obtain d' where
    "drain bound_cleanup_max_batches delete_expired_leases 0 w
      = (Inr (min (bound_cleanup_max_batches * bound_cleanup_batch_size) (length (expired_leases (w_db w)))), w\<lparr>w_db := d'\<rparr>)"
    "live_leases d' = live_leases (w_db w)"
    "length (expired_leases d') = length (expired_leases (w_db w)) - bound_cleanup_max_batches * bound_cleanup_batch_size" by auto
  then show ?thesis
    by (intro exI [of _ d']) (simp add: purge_expired_bound_leases_def io_bind_def io_return_def bound_cleanup_max_rows_def mult.commute)
qed

end
