(* ===== verification/Lease_Policy.thy ===== *)
theory Lease_Policy
  imports Lease_Cleanup
begin

text \<open>
  The policies a lease follows: when a trial is open (\<open>bound_trial.mjs\<close>, whose function and SQL are two
  statements of one rule), the window of a lease (\<open>device_policy.mjs\<close>), and when a binding takes a place.
\<close>

section \<open>Trials\<close>

definition trial_stamp_of :: "grant \<Rightarrow> int" where
  "trial_stamp_of g = (if g_is_trial g = 1 \<and> g_trial_started_at g = None then 1 else 0)"

definition device_key_option :: "string option \<Rightarrow> bool" where
  "device_key_option k = (case k of None \<Rightarrow> False | Some s \<Rightarrow> device_key_text s)"

text \<open>A start the row may not have, and a trial that another device started.\<close>

definition trial_start_refused :: "grant \<Rightarrow> int \<Rightarrow> bool \<Rightarrow> bool" where
  "trial_start_refused g now allow_unstarted = (case g_trial_started_at g of
     None \<Rightarrow> \<not> allow_unstarted \<or> g_trial_device_key_id g \<noteq> None
   | Some t \<Rightarrow> \<not> safe_timestamp t \<or> now < t \<or> \<not> device_key_option (g_trial_device_key_id g))"

definition trial_device_refused :: "grant \<Rightarrow> string \<Rightarrow> bool" where
  "trial_device_refused g key \<longleftrightarrow> g_trial_started_at g \<noteq> None \<and> g_trial_one_per_device g = 1 \<and> g_trial_device_key_id g \<noteq> Some key"

definition trial_expiry :: "grant \<Rightarrow> int \<Rightarrow> int option" where
  "trial_expiry g now = (case g_trial_expiration_basis g of
     None \<Rightarrow> None
   | Some basis \<Rightarrow>
       if basis = ''from_issue'' then g_valid_until g
       else if basis \<in> set activation_bases
       then (if int max_safe_integer < g_trial_duration_sec g \<or> g_trial_duration_sec g < 2 then None
             else Some (or_else (g_trial_started_at g) now + g_trial_duration_sec g))
       else None)"

definition bound_trial_state :: "grant \<Rightarrow> string \<Rightarrow> int \<Rightarrow> bool \<Rightarrow> (int \<times> int option) option" where
  "bound_trial_state g key now allow_unstarted =
     (if g_is_trial g = 0 then Some (0, None)
      else if g_is_trial g \<noteq> 1 \<or> \<not> safe_timestamp now \<or> \<not> device_key_text key \<or> g_trial_one_per_device g \<notin> {0, 1} then None
      else if trial_start_refused g now allow_unstarted \<or> trial_device_refused g key then None
      else case trial_expiry g now of
          None \<Rightarrow> None
        | Some expires \<Rightarrow> if \<not> safe_timestamp expires \<or> expires \<le> now then None
            else Some (if g_trial_started_at g = None then 1 else 0, Some expires))"

lemma issue_not_activation: "''from_issue'' \<notin> set activation_bases"
  by (simp add: activation_bases_def)

text \<open>The start in the function and in the SQL.\<close>

lemma trial_start_agrees:
  assumes "safe_timestamp now" and "g_trial_one_per_device g \<in> {0, 1}"
  shows "(\<not> trial_start_refused g now allow \<and> \<not> trial_device_refused g key) =
    (case (g_trial_started_at g, g_trial_device_key_id g) of
       (None, None) \<Rightarrow> allow
     | (Some t, Some locked) \<Rightarrow> 0 \<le> t \<and> t \<le> now \<and> device_key_text locked \<and> (g_trial_one_per_device g = 0 \<or> locked = key)
     | _ \<Rightarrow> False)"
proof (cases "g_trial_started_at g")
  case None
  then show ?thesis by (simp add: trial_start_refused_def trial_device_refused_def split: option.split)
next
  case (Some t)
  show ?thesis
  proof (cases "g_trial_device_key_id g")
    case None
    with Some show ?thesis by (simp add: trial_start_refused_def device_key_option_def)
  next
    case k: (Some locked)
    have "safe_timestamp t \<and> \<not> now < t \<longleftrightarrow> 0 \<le> t \<and> t \<le> now" using assms(1) by (auto simp: safe_timestamp_def)
    moreover have "\<not> trial_device_refused g key \<longleftrightarrow> g_trial_one_per_device g = 0 \<or> locked = key"
      using assms(2) Some k by (auto simp: trial_device_refused_def)
    ultimately show ?thesis using Some k by (auto simp: trial_start_refused_def device_key_option_def)
  qed
qed

text \<open>The end in the function and in the SQL.\<close>

lemma trial_expiry_agrees:
  assumes "safe_timestamp now" and "case g_trial_started_at g of None \<Rightarrow> True | Some t \<Rightarrow> 0 \<le> t \<and> t \<le> now"
  shows "(case trial_expiry g now of None \<Rightarrow> False | Some e \<Rightarrow> safe_timestamp e \<and> now < e) =
    (case g_trial_expiration_basis g of
       None \<Rightarrow> False
     | Some basis \<Rightarrow>
         (basis = ''from_issue'' \<and> (case g_valid_until g of None \<Rightarrow> False | Some u \<Rightarrow> 0 \<le> u \<and> u \<le> int max_safe_integer \<and> now < u))
         \<or> (basis \<in> set activation_bases \<and> 2 \<le> g_trial_duration_sec g
            \<and> g_trial_duration_sec g \<le> int max_safe_integer - or_else (g_trial_started_at g) now
            \<and> now < or_else (g_trial_started_at g) now + g_trial_duration_sec g))"
proof (cases "g_trial_expiration_basis g")
  case (Some basis)
  have s: "0 \<le> or_else (g_trial_started_at g) now" using assms by (auto simp: safe_timestamp_def or_else_def split: option.splits)
  consider "basis = ''from_issue''" | "basis \<in> set activation_bases" "basis \<noteq> ''from_issue''"
    | "basis \<notin> set activation_bases" "basis \<noteq> ''from_issue''" by blast
  then show ?thesis
  proof cases
    case 1
    with Some issue_not_activation show ?thesis by (simp add: trial_expiry_def safe_timestamp_def split: option.split)
  next
    case 2
    with Some s show ?thesis by (auto simp: trial_expiry_def safe_timestamp_def)
  next
    case 3
    with Some show ?thesis by (simp add: trial_expiry_def)
  qed
qed (simp add: trial_expiry_def)

lemma trial_expiry_deadline: "trial_expiry g now = Some e \<Longrightarrow> trial_deadline g now = Some e"
  using issue_not_activation by (auto simp: trial_expiry_def trial_deadline_def split: option.splits if_splits)

lemma trial_rules:
  assumes "safe_timestamp now"
  shows "(bound_trial_state g key now allow \<noteq> None) = trial_open allow now key g
    \<and> (\<forall>stamp expires. bound_trial_state g key now allow = Some (stamp, expires) \<longrightarrow>
         stamp = trial_stamp_of g \<and> (if g_is_trial g = 0 then expires = None else expires = trial_deadline g now))"
proof (cases "g_is_trial g = 1 \<and> device_key_text key \<and> g_trial_one_per_device g \<in> {0, 1}")
  case False
  then show ?thesis by (auto simp: bound_trial_state_def trial_open_def trial_stamp_of_def)
next
  case True
  let ?start = "\<not> trial_start_refused g now allow \<and> \<not> trial_device_refused g key"
  let ?until = "case trial_expiry g now of None \<Rightarrow> False | Some e \<Rightarrow> safe_timestamp e \<and> now < e"
  have state: "bound_trial_state g key now allow = (if ?start \<and> ?until
      then Some (if g_trial_started_at g = None then 1 else 0, trial_expiry g now) else None)"
    using True assms by (auto simp: bound_trial_state_def split: option.split)
  have started: "?start \<Longrightarrow> case g_trial_started_at g of None \<Rightarrow> True | Some t \<Rightarrow> 0 \<le> t \<and> t \<le> now"
    by (auto simp: trial_start_refused_def safe_timestamp_def split: option.splits)
  have "trial_open allow now key g = (?start \<and> ?until)"
  proof (cases ?start)
    case s: True
    from trial_start_agrees [OF assms, of g allow key] trial_expiry_agrees [OF assms started [OF s]] s True
    show ?thesis unfolding trial_open_def by (simp only: simp_thms zero_neq_one one_neq_zero)
  next
    case s: False
    from trial_start_agrees [OF assms, of g allow key] s True
    show ?thesis unfolding trial_open_def by (simp only: simp_thms zero_neq_one one_neq_zero)
  qed
  moreover have "trial_expiry g now = trial_deadline g now" if ?until
    using that trial_expiry_deadline by (cases "trial_expiry g now") auto
  ultimately show ?thesis using True unfolding state by (auto simp: trial_stamp_of_def)
qed

text \<open>C19. The function and the SQL predicate decide every trial alike, and the function's stamp and deadline are the
  ones the commit's guard checks.\<close>

theorem trial_rules_agree:
  assumes "safe_timestamp now"
  shows "(bound_trial_state g key now allow \<noteq> None) = trial_open allow now key g
    \<and> (\<forall>stamp expires. bound_trial_state g key now allow = Some (stamp, expires) \<longrightarrow>
         stamp = trial_stamp_of g \<and> (if g_is_trial g = 0 then expires = None else expires = trial_deadline g now))"
  by (rule trial_rules [OF assms])

section \<open>The window\<close>

definition device_lease_seconds :: int where
  "device_lease_seconds = 86400"

definition device_acceptance_allowance :: int where
  "device_acceptance_allowance = 120"

definition safe_int :: "int \<Rightarrow> int outcome" where
  "safe_int n = (if safe_timestamp n then Inr n else Inl ''invalid_integer'')"

record lease_window =
  lw_issued_at :: int
  lw_renew_after :: int
  lw_expires_at :: int
  lw_accept_until :: int

definition device_lease_window :: "int \<Rightarrow> int option \<Rightarrow> lease_window outcome" where
  "device_lease_window issued_at until =
     rbind (safe_int issued_at) (\<lambda>_. rbind (case until of None \<Rightarrow> Inr 0 | Some u \<Rightarrow> safe_int u) (\<lambda>_.
       let duration = min device_lease_seconds (case until of None \<Rightarrow> device_lease_seconds | Some u \<Rightarrow> u - issued_at) in
       rbind (safe_int (issued_at + duration)) (\<lambda>expires_at.
         if expires_at - issued_at < 2 then Inl ''entitlement_expired''
         else rbind (safe_int (expires_at + device_acceptance_allowance)) (\<lambda>accept_until.
           Inr \<lparr>lw_issued_at = issued_at, lw_renew_after = issued_at + (expires_at - issued_at) div 2, lw_expires_at = expires_at,
             lw_accept_until = accept_until\<rparr>))))"

text \<open>The end of the window: of the grant, of the trial, and the grant's own limit on a lease.\<close>

definition issue_until :: "grant \<Rightarrow> int option \<Rightarrow> int \<Rightarrow> int" where
  "issue_until g trial_expires now = min (or_else (g_valid_until g) (int max_safe_integer)) (min (or_else trial_expires (int max_safe_integer))
     (if 0 < g_lease_seconds g then now + g_lease_seconds g else int max_safe_integer))"

definition issue_window :: "grant \<Rightarrow> int option \<Rightarrow> int \<Rightarrow> lease_window outcome" where
  "issue_window g trial_expires now = device_lease_window now (Some (issue_until g trial_expires now))"

lemma window_facts:
  assumes "issue_window g trial now = Inr w"
  shows "lw_issued_at w = now" "now < lw_renew_after w" "lw_renew_after w < lw_expires_at w" "lw_expires_at w \<le> issue_until g trial now"
    "2 \<le> lw_expires_at w - now" "lw_expires_at w - now \<le> 86400" "lw_accept_until w = lw_expires_at w + 120" "safe_timestamp (lw_accept_until w)"
  using assms by (auto simp: issue_window_def device_lease_window_def rbind_Inr_iff safe_int_def device_lease_seconds_def
      device_acceptance_allowance_def Let_def split: if_splits)

definition windowed :: "lease_window \<Rightarrow> signed_candidate \<Rightarrow> bool" where
  "windowed w p \<longleftrightarrow> cd_issued_at p = lw_issued_at w \<and> cd_expires_at p = lw_expires_at w \<and> cd_accept_until p = lw_accept_until w"

text \<open>C39. The window that is signed for a grant and a trial is one the commit's guard admits at every later second before
  it ends: no lease that was signed is refused for its window.\<close>

theorem signed_window_admitted:
  assumes trial: "bound_trial_state g key now allow = Some (stamp, expires)" and w: "issue_window g expires now = Inr w"
    and p: "windowed w p" "cd_trial_stamp p = stamp" "cd_purpose p = Exchange \<or> (cd_purpose p = Renew \<and> stamp = 0)"
    and time: "now \<le> ld_now d" "ld_now d < lw_expires_at w" and room: "stamp = 0 \<or> ld_authority d (cd_key p) < int max_safe_integer"
  shows "lease_bounds p d g"
proof -
  note f = window_facts [OF w]
  have "safe_timestamp now" using w by (auto simp: issue_window_def device_lease_window_def rbind_Inr_iff safe_int_def split: if_splits)
  from trial_rules [OF this, of g key allow] trial
  have t: "stamp = trial_stamp_of g" "if g_is_trial g = 0 then expires = None else expires = trial_deadline g now" by simp_all
  have deadline: "g_is_trial g = 0 \<or> at_most (lw_expires_at w) (trial_deadline g now)"
  proof (cases "g_is_trial g = 0")
    case False
    have "\<exists>e. trial_expiry g now = Some e \<and> expires = Some e"
      using False trial by (simp add: bound_trial_state_def split: if_splits option.splits)
    then obtain e where e: "expires = Some e" by blast
    then have "lw_expires_at w \<le> e" using f(4) by (simp add: issue_until_def or_else_def)
    moreover have "trial_deadline g now = Some e" using t(2) False e by simp
    ultimately show ?thesis by (simp add: at_most_def)
  qed simp
  have "case g_valid_until g of None \<Rightarrow> True | Some u \<Rightarrow> lw_expires_at w \<le> u"
    and "g_lease_seconds g \<le> 0 \<or> lw_expires_at w \<le> now + g_lease_seconds g"
    using f(4) by (auto simp: issue_until_def split: option.split if_splits)
  note limits = this
  have fields: "cd_issued_at p = now" "cd_expires_at p = lw_expires_at w" "cd_accept_until p = lw_expires_at w + 120"
    using p(1) f by (simp_all add: windowed_def)
  have stamp: "cd_trial_stamp p = (if g_is_trial g = 1 \<and> g_trial_started_at g = None then 1 else 0)"
    using p(2) t(1) by (simp add: trial_stamp_of_def)
  have purpose: "cd_purpose p \<in> {Exchange, Renew}" "cd_purpose p = Exchange \<or> cd_trial_stamp p = 0"
    using p(2,3) by auto
  show ?thesis
    unfolding lease_bounds_def fields
    using f(5,6) time limits deadline stamp purpose room p(2) by (intro conjI) simp_all
qed

section \<open>Places and clocks\<close>

definition binding_occupies_slot :: "string \<Rightarrow> int \<Rightarrow> int \<Rightarrow> bool outcome" where
  "binding_occupies_slot state hold_until now =
     rbind (safe_int hold_until) (\<lambda>_. rbind (safe_int now) (\<lambda>_.
       if state \<notin> {''active'', ''retiring'', ''released''} then Inl ''invalid_binding_state''
       else Inr (state = ''active'' \<or> (state = ''retiring'' \<and> now < hold_until))))"

definition binding_state_text :: "binding_state \<Rightarrow> string" where
  "binding_state_text s = (case s of Active \<Rightarrow> ''active'' | Retiring \<Rightarrow> ''retiring'' | Released \<Rightarrow> ''released'')"

text \<open>The local predicate and the SQL that counts places agree on every stored binding.\<close>

lemma slot_rules_agree:
  "safe_timestamp (bi_hold_until b) \<Longrightarrow> safe_timestamp now \<Longrightarrow>
     binding_occupies_slot (binding_state_text (bi_state b)) (bi_hold_until b) now = Inr (occupies now b)"
  by (cases "bi_state b") (simp_all add: binding_occupies_slot_def safe_int_def binding_state_text_def occupies_def)

text \<open>Milliseconds as whole numbers; the seconds are rounded up.\<close>

definition device_lease_effective_time :: "int \<Rightarrow> int \<Rightarrow> int \<Rightarrow> int outcome" where
  "device_lease_effective_time issued_at original_send current =
     rbind (safe_int issued_at) (\<lambda>_.
       if original_send < 0 \<or> current < original_send \<or> int max_safe_integer < current then Inl ''clock_continuity_lost''
       else safe_int (issued_at + (current - original_send + 999) div 1000))"

end
