(* ===== verification/Lease_Rate.thy ===== *)
theory Lease_Rate
  imports Lease_Cleanup
begin

text \<open>
  The request budgets of the device protocol (\<open>device/bound_rate.mjs\<close>): counters of one-minute windows, one per
  source behind a global fuse, and one per device and account once a request is verified.
\<close>

section \<open>Counters\<close>

type_synonym counter_key = "string \<times> string \<times> int"

definition rate_window :: "int \<Rightarrow> int" where
  "rate_window now = (now div 60) * 60"

definition counted :: "lease_db \<Rightarrow> counter_key \<Rightarrow> int option" where
  "counted d k = map_of (ld_counters d) k"

fun put_counter :: "counter_key \<Rightarrow> int \<Rightarrow> (counter_key \<times> int) list \<Rightarrow> (counter_key \<times> int) list" where
  "put_counter k c [] = [(k, c)]"
| "put_counter k c ((j, n) # rows) = (if j = k then (k, c) # rows else (j, n) # put_counter k c rows)"

text \<open>\<open>INSERT \<dots> SELECT \<dots> WHERE cond ON CONFLICT DO UPDATE SET request_count = min(request_count + 1, 10001) RETURNING \<dots>\<close>\<close>

definition bump :: "string \<Rightarrow> string \<Rightarrow> (lease_db \<Rightarrow> bool) \<Rightarrow> lease_command" where
  "bump namespace key cond d =
     (if \<not> cond d then Inr ([], d)
      else let w = rate_window (ld_now d); k = (namespace, key, w); c = (case counted d k of None \<Rightarrow> 1 | Some n \<Rightarrow> min (n + 1) 10001) in
        Inr ([CountOut c w], d\<lparr>ld_counters := put_counter k c (ld_counters d)\<rparr>))"

definition global_key :: "lease_db \<Rightarrow> counter_key" where
  "global_key d = (''device-v2-global'', ''global'', rate_window (ld_now d))"

definition global_open :: "int \<Rightarrow> lease_db \<Rightarrow> bool" where
  "global_open fuse d \<longleftrightarrow> (case counted d (global_key d) of None \<Rightarrow> True | Some n \<Rightarrow> n < fuse)"

definition client_admitted :: "string \<Rightarrow> string \<Rightarrow> int \<Rightarrow> lease_db \<Rightarrow> bool" where
  "client_admitted namespace client limit d \<longleftrightarrow>
     (case counted d (namespace, client, rate_window (ld_now d)) of None \<Rightarrow> False | Some n \<Rightarrow> n \<le> limit)"

definition observe_global :: lease_command where
  "observe_global d = Inr ([ViewOut (counted d (global_key d)) (rate_window (ld_now d))], d)"

definition default_global_rate_limit :: int where
  "default_global_rate_limit = 1000"

text \<open>\<open>Number(raw)\<close> of the configured text; a missing value is the default.\<close>

definition parse_global_rate_limit :: "string option \<Rightarrow> int option" where
  "parse_global_rate_limit raw = (case (case raw of None \<Rightarrow> Whole default_global_rate_limit | Some s \<Rightarrow> js_number s) of
     Whole n \<Rightarrow> if 100 \<le> n \<and> n \<le> 1000000 then Some n else None
   | _ \<Rightarrow> None)"

definition global_limit :: "string option \<Rightarrow> int" where
  "global_limit raw = or_else (parse_global_rate_limit raw) default_global_rate_limit"

section \<open>Requests\<close>

definition limit_namespace :: "bool \<Rightarrow> string" where
  "limit_namespace registration = (if registration then ''device-v2-registration'' else ''device-v2-client'')"

definition client_limit :: "bool \<Rightarrow> int" where
  "client_limit registration = (if registration then 20 else 600)"

definition limit_sql :: "bool \<Rightarrow> string \<Rightarrow> int \<Rightarrow> lease_command list" where
  "limit_sql registration client fuse =
     [bump (limit_namespace registration) client (global_open fuse),
      bump ''device-v2-global'' ''global'' (client_admitted (limit_namespace registration) client (client_limit registration)),
      observe_global]"

definition count_in :: "lease_out list \<Rightarrow> (int \<times> int) option" where
  "count_in rows = (case rows of CountOut c w # _ \<Rightarrow> Some (c, w) | _ \<Rightarrow> None)"

definition view_in :: "lease_out list \<Rightarrow> (int option \<times> int) option" where
  "view_in rows = (case rows of ViewOut c w # _ \<Rightarrow> Some (c, w) | _ \<Rightarrow> None)"

text \<open>What the three results say: a refusal, or the request goes on, first of its window or not.\<close>

definition limit_decision :: "bool \<Rightarrow> int \<Rightarrow> lease_out list list \<Rightarrow> refused + int" where
  "limit_decision registration fuse results = (case results of
     [own, _, view] \<Rightarrow> (case view_in view of
         None \<Rightarrow> Inl (''temporarily_unavailable'', 503)
       | Some (global, vw) \<Rightarrow> (case count_in own of
             None \<Rightarrow> Inl (''rate_limited'', 429)
           | Some (c, w) \<Rightarrow>
               if w \<noteq> vw then Inl (''temporarily_unavailable'', 503)
               else if client_limit registration < c then Inl (''rate_limited'', 429)
               else case global of
                   None \<Rightarrow> Inl (''rate_limited'', 429)
                 | Some n \<Rightarrow> if fuse < n then Inl (''rate_limited'', 429) else Inr n))
   | _ \<Rightarrow> Inl (''temporarily_unavailable'', 503))"

definition rate_namespaces :: "string list" where
  "rate_namespaces = [''device-v2-global'', ''device-v2-client'', ''device-v2-registration'', ''device-v2-device'', ''device-v2-customer'']"

text \<open>A counter expires 120 seconds after its window starts; at most 6002 go in one statement.\<close>

definition counter_expired :: "int \<Rightarrow> counter_key \<times> int \<Rightarrow> bool" where
  "counter_expired now row = (case row of ((namespace, _, w), _) \<Rightarrow> namespace \<in> set rate_namespaces \<and> w + 120 \<le> now)"

definition purge_counters :: lease_command where
  "purge_counters d = (let victims = take 6002 (sort_key (\<lambda>((_, _, w), _). w) (List.filter (counter_expired (ld_now d)) (ld_counters d))) in
     Inr ([], d\<lparr>ld_counters := List.filter (\<lambda>row. row \<notin> set victims) (ld_counters d)\<rparr>))"

definition run_only :: "lease_command \<Rightarrow> unit lease_io" where
  "run_only s = db_call (\<lambda>d. case s d of Inl e \<Rightarrow> (Inl e, d) | Inr (_, d') \<Rightarrow> (Inr (), d'))"

text \<open>\<open>edge\<close> is the decision of the platform's limiter where one is bound.\<close>

definition limit_bound_request ::
  "bool option \<Rightarrow> bool \<Rightarrow> string \<Rightarrow> int \<Rightarrow> nat list \<Rightarrow> (refused + unit) lease_io" where
  "limit_bound_request edge registration client fuse paces = (\<lambda>w.
     if edge = Some False then deny ''rate_limited'' 429 w
     else if \<not> w_has_batch w then deny ''temporarily_unavailable'' 503 w
     else io_bind (db_batch (paced paces (limit_sql registration client fuse))) (\<lambda>results.
       case limit_decision registration fuse results of
         Inl e \<Rightarrow> io_return (Inl e)
       | Inr n \<Rightarrow> if n = 1 then io_bind (run_only purge_counters) (\<lambda>_. io_return (Inr ())) else io_return (Inr ())) w)"

section \<open>Verified requests\<close>

definition verified_sql :: "string \<Rightarrow> string \<Rightarrow> lease_command list" where
  "verified_sql key_id customer = [bump ''device-v2-device'' key_id (\<lambda>_. True), bump ''device-v2-customer'' customer (\<lambda>_. True)]"

definition verified_decision :: "int \<Rightarrow> lease_out list list \<Rightarrow> refused + unit" where
  "verified_decision limit results = (case results of
     [device, account] \<Rightarrow> (case (count_in device, count_in account) of
         (Some (c, w), Some (n, w')) \<Rightarrow>
           if w \<noteq> w' then Inl (''temporarily_unavailable'', 503)
           else if 60 < c \<or> limit < n then Inl (''rate_limited'', 429) else Inr ()
       | _ \<Rightarrow> Inl (''temporarily_unavailable'', 503))
   | _ \<Rightarrow> Inl (''temporarily_unavailable'', 503))"

definition limit_bound_verified :: "(string \<Rightarrow> string) \<Rightarrow> string \<Rightarrow> string \<Rightarrow> int \<Rightarrow> nat list \<Rightarrow> (refused + unit) lease_io" where
  "limit_bound_verified secret_hash key_id customer_id limit paces =
     io_bind (db_batch (paced paces (verified_sql key_id (secret_hash customer_id)))) (\<lambda>results.
       io_return (verified_decision limit results))"

section \<open>Steps\<close>

lemma map_of_put: "map_of (put_counter k c rows) = (map_of rows)(k \<mapsto> c)"
  by (induction k c rows rule: put_counter.induct) auto

lemma bump_effect:
  assumes "bump ns key cond d = Inr (rows, d')"
  shows "d' = d\<lparr>ld_counters := ld_counters d'\<rparr>"
    and "cond d \<Longrightarrow> rows = [CountOut (case counted d (ns, key, rate_window (ld_now d)) of None \<Rightarrow> 1 | Some n \<Rightarrow> min (n + 1) 10001) (rate_window (ld_now d))]
      \<and> counted d' = (counted d)(((ns, key, rate_window (ld_now d))) \<mapsto> (case counted d (ns, key, rate_window (ld_now d)) of None \<Rightarrow> 1 | Some n \<Rightarrow> min (n + 1) 10001))"
    and "\<not> cond d \<Longrightarrow> rows = [] \<and> d' = d"
  using assms by (auto simp: bump_def Let_def counted_def map_of_put split: if_splits)

text \<open>A batch whose statements only count keeps the leases.\<close>

definition only_counts :: "lease_command \<Rightarrow> bool" where
  "only_counts s \<longleftrightarrow> (\<forall>d rows d'. s d = Inr (rows, d') \<longrightarrow> d' = d\<lparr>ld_counters := ld_counters d'\<rparr>)"

lemma counts_progress: "d' = d\<lparr>ld_now := m, ld_counters := cs\<rparr> \<Longrightarrow> ld_now d \<le> m \<Longrightarrow> lease_progress d d'"
  by (rule bystander_progress) auto

lemma only_counts_batch:
  assumes "\<forall>s\<in>set ss. only_counts s" and "run_statements (paced ns ss) d = Inr (rs, d')"
  shows "\<exists>m. ld_now d \<le> m \<and> d' = d\<lparr>ld_now := m, ld_counters := ld_counters d'\<rparr>"
  using assms
proof (induction ss arbitrary: ns d rs)
  case Nil
  then show ?case by (intro exI [of _ "ld_now d"]) (auto simp: paced_end)
next
  case (Cons s ss)
  from Cons.prems(2) obtain n ns' r d1 rs' where s: "s (later n d) = Inr (r, d1)" and rest: "run_statements (paced ns' ss) d1 = Inr (rs', d')"
    by (rule paced_step)
  from s Cons.prems(1) have 1: "d1 = (later n d)\<lparr>ld_counters := ld_counters d1\<rparr>" by (auto simp: only_counts_def)
  from Cons.IH [OF _ rest] Cons.prems(1) obtain m where m: "ld_now d1 \<le> m" "d' = d1\<lparr>ld_now := m, ld_counters := ld_counters d'\<rparr>" by auto
  have "ld_now d1 = ld_now d + int n" by (subst 1) (simp add: later_def)
  moreover have "d1\<lparr>ld_now := m, ld_counters := ld_counters d'\<rparr> = d\<lparr>ld_now := m, ld_counters := ld_counters d'\<rparr>"
    by (subst 1) (simp add: later_def)
  ultimately show ?case using m by (intro exI [of _ m]) simp
qed

lemma only_counts_simps: "only_counts (bump ns key cond)" "only_counts observe_global" "only_counts purge_counters"
  by (auto simp: only_counts_def observe_global_def purge_counters_def Let_def dest: bump_effect(1))

lemma keeps_counting_batch:
  assumes "\<forall>s\<in>set ss. only_counts s"
  shows "keeps lease_progress (db_batch (paced ns ss))"
  by (rule leases.keeps_batch) (use only_counts_batch [OF assms] counts_progress in blast)

lemma keeps_limit_request: "keeps lease_progress (limit_bound_request edge reg client fuse ns)"
proof -
  have p: "keeps lease_progress (run_only purge_counters)"
    unfolding run_only_def by (rule leases.keeps_call) (auto simp: purge_counters_def Let_def intro!: bystander_progress)
  have b: "keeps lease_progress (db_batch (paced ns (limit_sql reg client fuse)))"
    by (rule keeps_counting_batch) (simp add: limit_sql_def only_counts_simps)
  have k: "keeps lease_progress (io_bind (db_batch (paced ns (limit_sql reg client fuse))) (\<lambda>results.
       case limit_decision reg fuse results of
         Inl e \<Rightarrow> io_return (Inl e)
       | Inr n \<Rightarrow> if n = 1 then io_bind (run_only purge_counters) (\<lambda>_. io_return (Inr ())) else io_return (Inr ())))"
    by (rule leases.keeps_bind [OF b]) (auto intro!: leases.keeps_bind p lease_keeps split: sum.split)
  show ?thesis
  proof (cases "edge = Some False")
    case True
    then show ?thesis by (simp add: limit_bound_request_def keeps_deny)
  next
    case False
    then show ?thesis unfolding limit_bound_request_def using leases.keeps_when_batch [OF keeps_deny k] by simp
  qed
qed

lemma keeps_limit_verified: "keeps lease_progress (limit_bound_verified h key c limit ns)"
  unfolding limit_bound_verified_def
  by (intro leases.keeps_bind keeps_counting_batch lease_keeps) (simp add: verified_sql_def only_counts_simps)

section \<open>The budget of a source\<close>

definition source_count :: "bool \<Rightarrow> string \<Rightarrow> int \<Rightarrow> lease_db \<Rightarrow> int" where
  "source_count reg client w d = or_else (counted d (limit_namespace reg, client, w)) 0"

text \<open>The counters of the device protocol, each between 1 and 10001, as the insert leaves it.\<close>

definition protocol_counters :: "lease_db \<Rightarrow> (counter_key \<times> int) list" where
  "protocol_counters d = List.filter (\<lambda>(k, _). fst k \<in> set rate_namespaces) (ld_counters d)"

definition counters_ok :: "lease_db \<Rightarrow> bool" where
  "counters_ok d \<longleftrightarrow> (\<forall>(k, n)\<in>set (protocol_counters d). 1 \<le> n \<and> n \<le> 10001)"

text \<open>
  \<open>budgeted reg client fuse w n d\<close>: starting from any counters, the steps of the service led to \<open>d\<close>, and \<open>n\<close>
  requests of the source were let through in the window \<open>w\<close>. The steps are the batches of any requests, of
  this source too, whatever their decision or their loss; the batches of verified requests; the clean-up of
  expired counters, at any time; and any other statement, which leaves the counters of the device protocol
  alone. The clock never goes back.
\<close>

inductive budgeted :: "bool \<Rightarrow> string \<Rightarrow> int \<Rightarrow> int \<Rightarrow> nat \<Rightarrow> lease_db \<Rightarrow> bool" for reg client fuse w where
  start: "counters_ok d \<Longrightarrow> budgeted reg client fuse w 0 d"
| counting: "budgeted reg client fuse w n d \<Longrightarrow> ss = limit_sql reg' client' fuse' \<or> ss = verified_sql key_id customer \<Longrightarrow>
    run_statements (paced ns ss) d = Inr (rs, d') \<Longrightarrow> budgeted reg client fuse w n d'"
| purging: "budgeted reg client fuse w n d \<Longrightarrow> purge_counters d = Inr (rs, d') \<Longrightarrow> budgeted reg client fuse w n d'"
| elsewhere: "budgeted reg client fuse w n d \<Longrightarrow> ld_now d \<le> ld_now d' \<Longrightarrow>
    protocol_counters d' = protocol_counters d \<Longrightarrow> budgeted reg client fuse w n d'"
| request: "budgeted reg client fuse w n d \<Longrightarrow> run_statements (paced ns (limit_sql reg client fuse)) d = Inr (rs, d') \<Longrightarrow>
    limit_decision reg fuse rs = Inr g \<Longrightarrow> count_in (hd rs) = Some (c, w) \<Longrightarrow> budgeted reg client fuse w (Suc n) d'"

lemma namespace_listed: "limit_namespace reg \<in> set rate_namespaces"
  by (simp add: limit_namespace_def rate_namespaces_def)

lemma counted_protocol: "fst k \<in> set rate_namespaces \<Longrightarrow> map_of (protocol_counters d) k = counted d k"
proof -
  assume k: "fst k \<in> set rate_namespaces"
  have "map_of (List.filter (\<lambda>(k, _). fst k \<in> set rate_namespaces) rows) k = map_of rows k" for rows :: "(counter_key \<times> int) list"
    using k by (induction rows) auto
  then show ?thesis by (simp add: protocol_counters_def counted_def)
qed

lemma source_count_protocol:
  "source_count reg client w d = or_else (map_of (protocol_counters d) (limit_namespace reg, client, w)) 0"
  by (simp add: source_count_def counted_protocol namespace_listed)

lemma counters_okD: "counters_ok d \<Longrightarrow> fst k \<in> set rate_namespaces \<Longrightarrow> counted d k = Some n \<Longrightarrow> 1 \<le> n \<and> n \<le> 10001"
  by (auto simp: counters_ok_def counted_protocol [symmetric] dest!: map_of_SomeD)

lemma source_count_range: "counters_ok d \<Longrightarrow> 0 \<le> source_count reg client w d"
  using counters_okD [of d "(limit_namespace reg, client, w)"]
  by (cases "counted d (limit_namespace reg, client, w)") (auto simp: source_count_def or_else_def namespace_listed)

text \<open>A step that only counts: the clock does not go back, counters stay in range and none is lowered.\<close>

definition counts_up :: "lease_db \<Rightarrow> lease_db \<Rightarrow> bool" where
  "counts_up d d' \<longleftrightarrow> ld_now d \<le> ld_now d' \<and> (counters_ok d \<longrightarrow> counters_ok d' \<and>
     (\<forall>k n. fst k \<in> set rate_namespaces \<longrightarrow> counted d k = Some n \<longrightarrow> (\<exists>n'. counted d' k = Some n' \<and> n \<le> n')))"

lemma counts_up_refl: "counts_up d d"
  by (simp add: counts_up_def)

lemma counts_up_trans: "counts_up d d' \<Longrightarrow> counts_up d' d'' \<Longrightarrow> counts_up d d''"
  unfolding counts_up_def by (meson order_trans)

lemma counts_up_later: "counts_up d (later m d)"
  by (simp add: counts_up_def counters_ok_def protocol_counters_def counted_def later_def)

lemma set_put_counter: "set (put_counter k c rows) \<subseteq> insert (k, c) (set rows)"
  by (induction k c rows rule: put_counter.induct) auto

lemma counts_up_bump:
  assumes "bump ns key cond d = Inr (rows, d')"
  shows "counts_up d d'"
proof (cases "cond d")
  case True
  let ?k = "(ns, key, rate_window (ld_now d))"
  let ?c = "case counted d ?k of None \<Rightarrow> 1 | Some n \<Rightarrow> min (n + 1) 10001"
  have d': "d' = d\<lparr>ld_counters := put_counter ?k ?c (ld_counters d)\<rparr>"
    using assms True by (auto simp: bump_def Let_def)
  have c: "counted d' = (counted d)(?k \<mapsto> ?c)" by (rule ext) (simp add: d' counted_def map_of_put)
  have range: "1 \<le> ?c \<and> ?c \<le> 10001" if "counters_ok d" "ns \<in> set rate_namespaces"
    using counters_okD [OF that(1), of ?k] that(2) by (auto split: option.split)
  have "counters_ok d'" if ok: "counters_ok d"
    unfolding counters_ok_def
  proof (safe)
    fix ns' key' v n
    assume "((ns', key', v), n) \<in> set (protocol_counters d')"
    then have m: "((ns', key', v), n) \<in> set (put_counter ?k ?c (ld_counters d))" "ns' \<in> set rate_namespaces"
      by (auto simp: protocol_counters_def d')
    then consider "((ns', key', v), n) = (?k, ?c)" | "((ns', key', v), n) \<in> set (protocol_counters d)"
      using set_put_counter [of ?k ?c "ld_counters d"] by (auto simp: protocol_counters_def)
    then have "1 \<le> n \<and> n \<le> 10001"
    proof cases
      case 1
      then have "ns \<in> set rate_namespaces" "n = ?c" using m(2) by auto
      then show ?thesis using range [OF ok] by blast
    next
      case 2
      then show ?thesis using ok unfolding counters_ok_def by fastforce
    qed
    then show "1 \<le> n" "n \<le> 10001" by auto
  qed
  moreover have "\<exists>n'. counted d' k = Some n' \<and> n \<le> n'"
    if "counters_ok d" "fst k \<in> set rate_namespaces" "counted d k = Some n" for k n
  proof (cases "k = ?k")
    case True
    with counters_okD [OF that] that(3) have "n \<le> ?c" by simp
    with True show ?thesis unfolding c by simp
  next
    case False
    with that(3) show ?thesis unfolding c by simp
  qed
  ultimately show ?thesis unfolding counts_up_def by (simp add: d')
next
  case False
  with bump_effect(3) [OF assms] show ?thesis by (simp add: counts_up_refl)
qed

lemma counts_up_batch:
  assumes "\<forall>s\<in>set ss. \<forall>d rows d'. s d = Inr (rows, d') \<longrightarrow> counts_up d d'" and "run_statements (paced ns ss) d = Inr (rs, d')"
  shows "counts_up d d'"
  using assms
proof (induction ss arbitrary: ns d rs)
  case Nil
  then show ?case by (auto simp: paced_end counts_up_later counts_up_refl)
next
  case (Cons s ss)
  from Cons.prems(2) obtain n ns' r d1 rs' where s: "s (later n d) = Inr (r, d1)" and rest: "run_statements (paced ns' ss) d1 = Inr (rs', d')"
    by (rule paced_step)
  have "counts_up (later n d) d1" using Cons.prems(1) s by auto
  moreover have "counts_up d1 d'" using Cons.IH [OF _ rest] Cons.prems(1) by auto
  ultimately show ?case using counts_up_later counts_up_trans by blast
qed

lemma counts_up_request: "run_statements (paced ns (limit_sql reg client fuse)) d = Inr (rs, d') \<Longrightarrow> counts_up d d'"
  by (rule counts_up_batch [rotated])
    (auto simp: limit_sql_def observe_global_def counts_up_refl dest: counts_up_bump)

lemma counts_up_verified: "run_statements (paced ns (verified_sql key_id customer)) d = Inr (rs, d') \<Longrightarrow> counts_up d d'"
  by (rule counts_up_batch [rotated]) (auto simp: verified_sql_def dest: counts_up_bump)

lemma counts_up_source:
  assumes "counts_up d d'" and "counters_ok d"
  shows "counters_ok d' \<and> ld_now d \<le> ld_now d' \<and> source_count reg client w d \<le> source_count reg client w d'"
proof -
  have ok: "counters_ok d'" and now: "ld_now d \<le> ld_now d'" using assms by (simp_all add: counts_up_def)
  have "source_count reg client w d \<le> source_count reg client w d'"
  proof (cases "counted d (limit_namespace reg, client, w)")
    case None
    then have "source_count reg client w d = 0" by (simp add: source_count_def or_else_def)
    then show ?thesis using source_count_range [OF ok, of reg client w] by simp
  next
    case (Some n)
    with assms obtain n' where "counted d' (limit_namespace reg, client, w) = Some n'" "n \<le> n'"
      unfolding counts_up_def using namespace_listed [of reg] by fastforce
    with Some show ?thesis by (simp add: source_count_def or_else_def)
  qed
  with ok now show ?thesis by simp
qed

text \<open>The clean-up takes no counter of a window that can still count.\<close>

lemma map_of_filter_key: "(\<And>v. (k, v) \<in> set rows \<Longrightarrow> P (k, v)) \<Longrightarrow> map_of (filter P rows) k = map_of rows k"
  by (induction rows) auto

lemma purge_spares:
  assumes "purge_counters d = Inr (rs, d')" and "ld_now d < w + 120"
  shows "counted d' (ns, key, w) = counted d (ns, key, w)"
proof -
  have "((ns, key, w), v) \<notin> set (take 6002 (sort_key (\<lambda>((_, _, w), _). w) (List.filter (counter_expired (ld_now d)) (ld_counters d))))" for v
    using assms(2) by (auto simp: counter_expired_def dest!: in_set_takeD)
  then show ?thesis using assms(1) by (auto simp: purge_counters_def Let_def counted_def intro!: map_of_filter_key)
qed

lemma limit_namespace_local: "limit_namespace reg \<noteq> ''device-v2-global''"
  by (simp add: limit_namespace_def)

lemma admitted_counts:
  assumes run: "run_statements (paced ns (limit_sql reg client fuse)) d = Inr (rs, d')" and dec: "limit_decision reg fuse rs = Inr g"
    and own: "count_in (hd rs) = Some (c, w)"
  shows "c \<le> client_limit reg" and "source_count reg client w d' = c"
    and "0 \<le> source_count reg client w d \<Longrightarrow> c = source_count reg client w d + 1"
proof -
  from run [unfolded limit_sql_def] obtain n1 r1 d1 ns1 rs1 where
    1: "bump (limit_namespace reg) client (global_open fuse) (later n1 d) = Inr (r1, d1)"
    and rest: "run_statements (paced ns1 [bump ''device-v2-global'' ''global'' (client_admitted (limit_namespace reg) client (client_limit reg)),
      observe_global]) d1 = Inr (rs1, d')" and rs: "rs = r1 # rs1" by (rule paced_step)
  from rest obtain n2 r2 d2 ns2 rs2 where
    2: "bump ''device-v2-global'' ''global'' (client_admitted (limit_namespace reg) client (client_limit reg)) (later n2 d1) = Inr (r2, d2)"
    and rest: "run_statements (paced ns2 [observe_global]) d2 = Inr (rs2, d')" and rs1: "rs1 = r2 # rs2" by (rule paced_step)
  from rest obtain n3 r3 d3 ns3 rs3 where 3: "observe_global (later n3 d2) = Inr (r3, d3)"
    and e: "run_statements (paced ns3 []) d3 = Inr (rs3, d')" and rs2: "rs2 = r3 # rs3" by (rule paced_step)
  have own1: "count_in r1 = Some (c, w)" using own by (simp add: rs)
  have op: "global_open fuse (later n1 d)"
  proof (rule ccontr)
    assume "\<not> global_open fuse (later n1 d)"
    from bump_effect(3) [OF 1 this] own1 show False by (simp add: count_in_def)
  qed
  let ?k = "(limit_namespace reg, client, rate_window (ld_now (later n1 d)))"
  note b = bump_effect(2) [OF 1 op]
  have cw: "c = (case counted (later n1 d) ?k of None \<Rightarrow> 1 | Some n \<Rightarrow> min (n + 1) 10001)" "w = rate_window (ld_now (later n1 d))"
    using b own1 by (auto simp: count_in_def)
  have same: "counted (later m x) = counted x" for m x by (rule ext) (simp add: counted_def later_def)
  show lim: "c \<le> client_limit reg"
    using dec own1 unfolding rs rs1 rs2 by (auto simp: limit_decision_def split: list.splits option.splits if_splits prod.splits)
  have k: "?k = (limit_namespace reg, client, w)" by (simp add: cw)
  have "counted d1 ?k = Some c" using b cw(1) by simp
  moreover have "counted d2 ?k = counted d1 ?k"
  proof (cases "client_admitted (limit_namespace reg) client (client_limit reg) (later n2 d1)")
    case True
    from bump_effect(2) [OF 2 True] limit_namespace_local [of reg] show ?thesis by (auto simp: same)
  next
    case False
    from bump_effect(3) [OF 2 False] show ?thesis by (simp add: same)
  qed
  moreover have "counted d' = counted d2" using 3 e by (auto simp: observe_global_def paced_end same)
  ultimately show "source_count reg client w d' = c" by (simp add: source_count_def k or_else_def)
  have "c < 10001" using lim by (simp add: client_limit_def split: if_splits)
  moreover have "c = (case counted d (limit_namespace reg, client, w) of None \<Rightarrow> 1 | Some n \<Rightarrow> min (n + 1) 10001)"
    using cw(1) unfolding k same .
  ultimately show "c = source_count reg client w d + 1" if "0 \<le> source_count reg client w d"
    by (cases "counted d (limit_namespace reg, client, w)") (auto simp: source_count_def or_else_def)
qed

lemma request_window:
  assumes "run_statements (paced ns (limit_sql reg client fuse)) d = Inr (rs, d')" and "count_in (hd rs) = Some (c, w)"
  shows "ld_now d < w + 60"
proof -
  from assms(1) [unfolded limit_sql_def] obtain n1 r1 d1 ns1 rs1 where
    1: "bump (limit_namespace reg) client (global_open fuse) (later n1 d) = Inr (r1, d1)" and rs: "rs = r1 # rs1" by (rule paced_step)
  have own: "count_in r1 = Some (c, w)" using assms(2) by (simp add: rs)
  then have "w = rate_window (ld_now (later n1 d))"
    using bump_effect(2,3) [OF 1] by (cases "global_open fuse (later n1 d)") (auto simp: count_in_def)
  then show ?thesis by (simp add: rate_window_def later_def)
qed

text \<open>C20. However the requests of this and other sources, verified requests, clean-ups of expired counters and
  other statements interleave, no source gets more requests through in one window than its budget: 20
  registrations, 600 other requests. In particular no clean-up ever forgets a counter that still counts.\<close>

theorem source_budget:
  assumes "budgeted reg client fuse w n d"
  shows "int n \<le> client_limit reg"
proof -
  from assms have "counters_ok d \<and> int n \<le> client_limit reg \<and> (ld_now d < w + 120 \<longrightarrow> int n \<le> source_count reg client w d)"
  proof (induction rule: budgeted.induct)
    case (start d)
    then show ?case
      using source_count_range [OF start, of reg client w] by (simp add: client_limit_def)
  next
    case (counting n d ss reg' client' fuse' key_id customer ns rs d')
    then have "counts_up d d'" by (auto dest: counts_up_request counts_up_verified)
    from counts_up_source [OF this, of reg client w] counting show ?case by auto
  next
    case (purging n d rs d')
    have now: "ld_now d' = ld_now d" and ok: "counters_ok d'"
      using purging unfolding purge_counters_def Let_def counters_ok_def protocol_counters_def by auto
    then show ?case using purge_spares [OF purging.hyps(2)] purging by (simp add: source_count_def)
  next
    case (elsewhere n d d')
    then show ?case by (simp add: source_count_protocol counters_ok_def)
  next
    case (request n d ns rs d' g c)
    note run = request.hyps(2)
    have "ld_now d < w + 120" using request_window [OF run request.hyps(4)] by simp
    then have le: "int n \<le> source_count reg client w d" using request.IH by simp
    then have "c = source_count reg client w d + 1" using admitted_counts(3) [OF request.hyps(2-4)] by simp
    then show ?case
      using admitted_counts(1,2) [OF request.hyps(2-4)] le counts_up_source [OF counts_up_request [OF run]] request.IH by auto
  qed
  then show ?thesis by simp
qed

end
