(* ===== verification/Lease_Issue.thy ===== *)
theory Lease_Issue
  imports Lease_Policy Lease_Rate
begin

text \<open>
  Issuing a lease (\<open>device/bound_issue.mjs\<close>): prove possession of the device's key, read what the lease depends on,
  sign the lease, and commit it; an operation that was committed before is answered again.
\<close>

section \<open>Requests\<close>

record proof_part =
  pf_key_id :: string
  pf_challenge_id :: string
  pf_nonce :: string
  pf_expires_at :: int
  pf_signature :: string

record issue_request =
  is_purpose :: lease_purpose
  is_attempt_handle :: string
  is_code :: string
  is_code_verifier :: string
  is_redirect_uri :: string
  is_binding_id :: string
  is_generation :: int
  is_operation_id :: string
  is_proof :: proof_part

text \<open>The platform, the deployment and the random ids of one request.\<close>

record issue_platform =
  ip_sha256 :: "byte list \<Rightarrow> byte list"
  ip_spki :: "byte list \<Rightarrow> byte list option"
  ip_ecdsa :: "byte list \<Rightarrow> byte list \<Rightarrow> byte list \<Rightarrow> bool"
  ip_read_utf8 :: "byte list \<Rightarrow> string option"
  ip_canonical_url :: "string \<Rightarrow> bool"
  ip_signer :: "lease_signer outcome"
  ip_issuer :: string
  ip_audience :: string
  ip_request_id :: string
  ip_device_id :: string
  ip_binding_id :: string
  ip_lease_id :: string
  ip_invocation_id :: string
  ip_rate_paces :: "nat list"
  ip_commit_paces :: "nat list"
  ip_recovery_paces :: "nat list"

definition bound_secret_hash :: "issue_platform \<Rightarrow> string \<Rightarrow> string" where
  "bound_secret_hash i s = hex (ip_sha256 i (utf8 s))"

definition valid_proof_part :: "proof_part \<Rightarrow> bool" where
  "valid_proof_part f \<longleftrightarrow> device_key_text (pf_key_id f) \<and> sized_base64url 16 (String (pf_challenge_id f))
     \<and> sized_base64url 32 (String (pf_nonce f)) \<and> safe_timestamp (pf_expires_at f) \<and> sized_base64url 64 (String (pf_signature f))"

definition valid_issue_request :: "issue_platform \<Rightarrow> issue_request \<Rightarrow> bool" where
  "valid_issue_request i r \<longleftrightarrow> valid_proof_part (is_proof r) \<and> sized_base64url 32 (String (is_operation_id r))
     \<and> (case is_purpose r of
          Exchange \<Rightarrow> sized_base64url 32 (String (is_attempt_handle r)) \<and> sized_base64url 32 (String (is_code r))
            \<and> sized_base64url 32 (String (is_code_verifier r)) \<and> callback_syntax (ip_canonical_url i) (is_redirect_uri r)
        | Renew \<Rightarrow> sized_base64url 16 (String (is_binding_id r)) \<and> 1 \<le> is_generation r \<and> is_generation r \<le> int max_safe_integer
        | Retire \<Rightarrow> False)"

definition semantic_body :: "issue_request \<Rightarrow> json_item list" where
  "semantic_body r = (if is_purpose r = Exchange
     then [JsonText (is_attempt_handle r), JsonText (is_code r), JsonText (is_code_verifier r), JsonText (is_redirect_uri r), JsonText (is_operation_id r)]
     else [JsonText (is_binding_id r), JsonInt (is_generation r), JsonText (is_operation_id r)])"

section \<open>The proof\<close>

text \<open>The attempt or the binding the request is about, with the device's key and the time it was read.\<close>

record proof_subject =
  ps_key_id :: string
  ps_spki :: string
  ps_customer_id :: "string option"
  ps_project :: string
  ps_feature :: "string option"
  ps_fingerprint :: "string option"
  ps_attempt :: "bound_attempt option"
  ps_now :: int

definition attempt_subject :: "int \<Rightarrow> bound_attempt \<Rightarrow> proof_subject" where
  "attempt_subject now a = \<lparr>ps_key_id = at_key_id a, ps_spki = at_spki a, ps_customer_id = at_customer_id a, ps_project = at_project a,
     ps_feature = at_feature a, ps_fingerprint = at_fingerprint a, ps_attempt = Some a, ps_now = now\<rparr>"

definition binding_subject :: "int \<Rightarrow> bound_binding \<Rightarrow> bound_device \<Rightarrow> proof_subject" where
  "binding_subject now b v = \<lparr>ps_key_id = dv_key_id v, ps_spki = dv_spki v, ps_customer_id = Some (dv_customer_id v), ps_project = fst (bi_key b),
     ps_feature = Some (fst (snd (bi_key b))), ps_fingerprint = Some (snd (snd (bi_key b))), ps_attempt = None, ps_now = now\<rparr>"

definition read_subject :: "lease_purpose \<Rightarrow> string \<Rightarrow> lease_db \<Rightarrow> proof_subject option" where
  "read_subject purpose subject_id d =
     (if purpose = Exchange then map_option (attempt_subject (ld_now d)) (find_attempt d subject_id)
      else obind (find_binding d subject_id) (\<lambda>b. map_option (binding_subject (ld_now d) b) (find_device d (bi_device_id b))))"

record proven =
  pv_subject :: proof_subject
  pv_subject_id :: string
  pv_challenge :: bound_challenge
  pv_nonce_hash :: string
  pv_digest :: string

definition unavailable :: "lease_purpose \<Rightarrow> refused" where
  "unavailable purpose = (if purpose = Exchange then ''authorization_unavailable'' else ''binding_unavailable'', 404)"

definition challenge_answers :: "issue_request \<Rightarrow> string \<Rightarrow> proof_subject \<Rightarrow> string \<Rightarrow> bound_challenge \<Rightarrow> bool" where
  "challenge_answers r subject_id s nonce_hash c \<longleftrightarrow> ch_subject_id c = subject_id \<and> ch_key_id c = ps_key_id s
     \<and> ch_key_id c = pf_key_id (is_proof r) \<and> ch_purpose c = is_purpose r \<and> ch_operation_id c = is_operation_id r
     \<and> ch_nonce_hash c = nonce_hash \<and> ch_expires_at c = pf_expires_at (is_proof r) \<and> ch_consumed c = None"

definition stated_intent :: "issue_platform \<Rightarrow> issue_request \<Rightarrow> proof_subject \<Rightarrow> bound_challenge \<Rightarrow> byte list \<Rightarrow> device_proof" where
  "stated_intent i r s c body = \<lparr>dp_audience = ip_audience i, dp_method = ''POST'',
     dp_path = (if is_purpose r = Exchange then ''/v2/device-authorizations/exchange'' else ''/v2/device-leases/renew''),
     dp_key_id = ps_key_id s, dp_operation_id = is_operation_id r, dp_body_sha256 = hex (ip_sha256 i body), dp_challenge_id = ch_id c,
     dp_nonce = pf_nonce (is_proof r), dp_expires_at = ch_expires_at c\<rparr>"

definition check_proof :: "issue_platform \<Rightarrow> issue_request \<Rightarrow> string \<Rightarrow> proof_subject \<Rightarrow> bound_challenge \<Rightarrow> int \<Rightarrow> (refused + proven) outcome" where
  "check_proof i r subject_id s c now =
     (if ch_expires_at c \<le> now then Inr (Inl (''challenge_expired'', 410))
      else rbind (device_operation_body (is_purpose r) (semantic_body r)) (\<lambda>body.
        if \<not> verify_bound_device_proof (ip_spki i) (ip_sha256 i) (ip_ecdsa i) (ps_spki s) (stated_intent i r s c body) (pf_signature (is_proof r))
        then Inr (Inl (''invalid_proof'', 401))
        else rbind (device_operation_digest_input (is_purpose r) (ps_key_id s) (semantic_body r)) (\<lambda>digest.
          Inr (Inr \<lparr>pv_subject = s, pv_subject_id = subject_id, pv_challenge = c, pv_nonce_hash = bound_secret_hash i (pf_nonce (is_proof r)),
            pv_digest = hex (ip_sha256 i digest)\<rparr>))))"

definition prove_device :: "issue_platform \<Rightarrow> issue_request \<Rightarrow> (refused + proven) lease_io" where
  "prove_device i r =
     (let subject_id = (if is_purpose r = Exchange then bound_secret_hash i (is_attempt_handle r) else is_binding_id r) in
      io_bind (db_read (read_subject (is_purpose r) subject_id)) (\<lambda>subject. case subject of
        None \<Rightarrow> io_return (Inl (unavailable (is_purpose r)))
      | Some s \<Rightarrow>
          io_bind (db_read (\<lambda>d. map_option (\<lambda>c. (c, ld_now d)) (find_challenge d (pf_challenge_id (is_proof r))))) (\<lambda>challenge.
            case challenge of
              None \<Rightarrow> deny ''invalid_proof'' 401
            | Some (c, now) \<Rightarrow>
                if \<not> challenge_answers r subject_id s (bound_secret_hash i (pf_nonce (is_proof r))) c then deny ''invalid_proof'' 401
                else io_lift (check_proof i r subject_id s c now))))"

section \<open>What the lease depends on\<close>

record snapshot =
  sn_grant :: grant
  sn_key :: grant_key
  sn_authority :: int
  sn_customer_revision :: int
  sn_now :: int
  sn_device :: "bound_device option"
  sn_binding :: "bound_binding option"
  sn_stamp :: int
  sn_trial_expires :: "int option"

definition code_current :: "bound_attempt \<Rightarrow> int \<Rightarrow> bool" where
  "code_current a now \<longleftrightarrow> now < at_expires_at a \<and> (case at_code_expires_at a of None \<Rightarrow> False | Some t \<Rightarrow> now < t)"

definition attempt_refusal :: "issue_platform \<Rightarrow> issue_request \<Rightarrow> proof_subject \<Rightarrow> bound_operation option \<Rightarrow> refused option" where
  "attempt_refusal i r s operation = (case ps_attempt s of
     None \<Rightarrow> None
   | Some a \<Rightarrow>
       if at_status a \<notin> {Approved, Consumed} then Some (''authorization_unavailable'', 404)
       else if at_code_hash a \<noteq> Some (bound_secret_hash i (is_code r))
         \<or> at_pkce a \<noteq> encode_base64url (ip_sha256 i (utf8 (is_code_verifier r))) \<or> at_redirect_uri a \<noteq> is_redirect_uri r
       then Some (''access_denied'', 403)
       else (case operation of
           None \<Rightarrow> if at_status a \<noteq> Approved \<or> \<not> code_current a (ps_now s) then Some (''authorization_expired'', 410) else None
         | Some o' \<Rightarrow> if at_status a \<noteq> Consumed \<or> at_consumed_operation a \<noteq> Some (is_operation_id r)
               \<or> at_consumed_invocation a \<noteq> Some (op_invocation_id o')
             then Some (''authorization_unavailable'', 404) else None))"

definition existing_binding :: "issue_request \<Rightarrow> bound_operation option \<Rightarrow> string option" where
  "existing_binding r operation = (case operation of
     Some o' \<Rightarrow> Some (op_binding_id o') | None \<Rightarrow> if is_purpose r = Renew then Some (is_binding_id r) else None)"

definition disconnected :: "string \<Rightarrow> lease_db \<Rightarrow> bool" where
  "disconnected binding_id d = (case obind (find_binding d binding_id) (\<lambda>b. map_option (\<lambda>v. (b, v)) (find_device d (bi_device_id b))) of
     None \<Rightarrow> False | Some (b, v) \<Rightarrow> bi_state b \<noteq> Active \<or> \<not> dv_active v)"

definition check_connected :: "string option \<Rightarrow> (refused + unit) lease_io" where
  "check_connected binding_id = (case binding_id of
     None \<Rightarrow> io_return (Inr ())
   | Some b \<Rightarrow> io_bind (db_read (disconnected b)) (\<lambda>gone. if gone then deny ''device_retired'' 403 else io_return (Inr ())))"

definition subject_key :: "proof_subject \<Rightarrow> grant_key option" where
  "subject_key s = (case (ps_feature s, ps_fingerprint s) of (Some f, Some fp) \<Rightarrow> Some (ps_project s, f, fp) | _ \<Rightarrow> None)"

text \<open>The grant with its authority revision, its customer, and the time of the read.\<close>

definition read_entitlement :: "proof_subject \<Rightarrow> lease_db \<Rightarrow> (grant \<times> grant_key \<times> int \<times> account \<times> int) option" where
  "read_entitlement s d = obind (subject_key s) (\<lambda>k. obind (ps_customer_id s) (\<lambda>c. obind (find_grant (ld_core d) k) (\<lambda>g.
     if g_customer_id g \<noteq> c then None else obind (find_account d c) (\<lambda>a. Some (g, k, ld_authority d k, a, ld_now d)))))"

definition entitlement_live :: "grant \<Rightarrow> account \<Rightarrow> int \<Rightarrow> bool" where
  "entitlement_live g a now \<longleftrightarrow> g_status g = ''active'' \<and> ac_active a
     \<and> (case g_valid_from g of None \<Rightarrow> True | Some t \<Rightarrow> t \<le> now) \<and> (case g_valid_until g of None \<Rightarrow> True | Some t \<Rightarrow> now < t)"

definition device_refusal :: "proof_subject \<Rightarrow> bound_device option \<Rightarrow> refused option" where
  "device_refusal s device = (case device of
     None \<Rightarrow> None
   | Some v \<Rightarrow>
       if Some (dv_customer_id v) \<noteq> ps_customer_id s \<or> dv_project v \<noteq> ps_project s then Some (''access_denied'', 403)
       else if \<not> dv_active v then Some (''device_retired'', 403)
       else if dv_spki v \<noteq> ps_spki s then Some (''invalid_proof'', 401) else None)"

definition read_current_binding :: "string option \<Rightarrow> bound_device option \<Rightarrow> grant_key \<Rightarrow> bound_binding option lease_io" where
  "read_current_binding existing device k = (case existing of
     Some b \<Rightarrow> db_read (\<lambda>d. find_binding d b)
   | None \<Rightarrow> (case device of
       None \<Rightarrow> io_return None
     | Some v \<Rightarrow> db_read (\<lambda>d. find (\<lambda>b. bi_device_id b = dv_id v \<and> bi_key b = k \<and> bi_state b = Active) (ld_bindings d))))"

definition binding_refusal :: "issue_request \<Rightarrow> string option \<Rightarrow> bound_device option \<Rightarrow> grant_key \<Rightarrow> bound_binding option \<Rightarrow> refused option" where
  "binding_refusal r existing device k binding = (case binding of
     Some b \<Rightarrow>
       if Some (bi_device_id b) \<noteq> map_option dv_id device \<or> bi_key b \<noteq> k then Some (''access_denied'', 403)
       else if bi_state b \<noteq> Active then Some (''device_retired'', 403)
       else if is_purpose r = Renew \<and> bi_generation b \<noteq> is_generation r then Some (''revision_conflict'', 409)
       else None
   | None \<Rightarrow> if existing \<noteq> None then Some (''binding_unavailable'', 404) else None)"

definition connected_elsewhere :: "string \<Rightarrow> grant_key \<Rightarrow> lease_db \<Rightarrow> bool" where
  "connected_elsewhere key_id k d \<longleftrightarrow> list_ex (\<lambda>b. bi_key b = k \<and> bi_state b = Active
     \<and> (case find_device d (bi_device_id b) of None \<Rightarrow> False | Some v \<Rightarrow> dv_key_id v = key_id)) (ld_bindings d)"

text \<open>The refusal is noted once in fifteen minutes, and a failure to note it is ignored.\<close>

definition insert_denial :: "grant_key \<Rightarrow> string \<Rightarrow> lease_command" where
  "insert_denial k key_id d = Inr ([], if list_ex (\<lambda>(k', i, t). k' = k \<and> i = key_id \<and> ld_now d - 900 < t) (ld_denials d) then d
     else d\<lparr>ld_denials := ld_denials d @ [(k, key_id, ld_now d)]\<rparr>)"

definition check_capacity :: "proof_subject \<Rightarrow> grant \<Rightarrow> grant_key \<Rightarrow> (refused + unit) lease_io" where
  "check_capacity s g k =
     io_bind (db_read (\<lambda>d. occupied d k)) (\<lambda>n. if int n < g_max_active_devices g then io_return (Inr ())
       else io_bind (db_read (connected_elsewhere (ps_key_id s) k)) (\<lambda>created.
         if created then deny ''temporarily_unavailable'' 503
         else io_try (run_only (insert_denial k (ps_key_id s))) (\<lambda>_. deny ''device_limit_reached'' 409) (\<lambda>_. deny ''device_limit_reached'' 409)))"

definition read_connection ::
  "issue_request \<Rightarrow> proof_subject \<Rightarrow> bound_operation option \<Rightarrow> grant \<times> grant_key \<times> int \<times> account \<times> int \<Rightarrow> int \<times> int option
     \<Rightarrow> (refused + snapshot) lease_io" where
  "read_connection r s operation e trial = (case e of (g, k, authority, a, now) \<Rightarrow>
     let existing = existing_binding r operation in
     io_bind (db_read (\<lambda>d. find (\<lambda>v. dv_key_id v = ps_key_id s) (ld_devices d))) (\<lambda>device. case device_refusal s device of
       Some x \<Rightarrow> io_return (Inl x)
     | None \<Rightarrow>
         io_bind (read_current_binding existing device k) (\<lambda>binding. case binding_refusal r existing device k binding of
           Some x \<Rightarrow> io_return (Inl x)
         | None \<Rightarrow>
             if existing \<noteq> None \<and> device = None then deny ''binding_unavailable'' 404
             else io_ok (if binding = None then check_capacity s g k else io_return (Inr ())) (\<lambda>_.
               io_return (Inr \<lparr>sn_grant = g, sn_key = k, sn_authority = authority, sn_customer_revision = ac_revision a, sn_now = now,
                 sn_device = device, sn_binding = binding, sn_stamp = fst trial, sn_trial_expires = snd trial\<rparr>)))))"

definition read_authority :: "issue_platform \<Rightarrow> issue_request \<Rightarrow> proof_subject \<Rightarrow> bound_operation option \<Rightarrow> (refused + snapshot) lease_io" where
  "read_authority i r s operation = (case attempt_refusal i r s operation of
     Some x \<Rightarrow> io_return (Inl x)
   | None \<Rightarrow>
       io_ok (check_connected (existing_binding r operation)) (\<lambda>_.
         io_bind (db_read (read_entitlement s)) (\<lambda>e. case e of
           None \<Rightarrow> deny ''access_denied'' 403
         | Some (g, k, authority, a, now) \<Rightarrow>
             if \<not> entitlement_live g a now then deny ''access_denied'' 403
             else case bound_trial_state g (ps_key_id s) now (is_purpose r = Exchange \<and> operation = None) of
                 None \<Rightarrow> deny ''access_denied'' 403
               | Some trial \<Rightarrow>
                   if fst trial \<noteq> 0 \<and> int max_safe_integer \<le> authority then deny ''access_denied'' 403
                   else read_connection r s operation (g, k, authority, a, now) trial)))"


section \<open>The flow\<close>

definition operation_refusal :: "proven \<Rightarrow> (bound_operation \<times> int) option \<Rightarrow> refused option" where
  "operation_refusal pv found = (case found of
     None \<Rightarrow> None
   | Some (o', now) \<Rightarrow>
       if op_digest o' \<noteq> pv_digest pv \<or> \<not> op_complete o' \<or> op_response o' = Erased \<or> op_retain_until o' \<le> now
       then Some (''idempotency_conflict'', 409) else None)"

text \<open>After a commit the attempt is read again, for the approval it was read with may have been consumed since.\<close>

definition current_subject :: "issue_request \<Rightarrow> proven \<Rightarrow> bound_operation option \<Rightarrow> (refused + proof_subject) lease_io" where
  "current_subject r pv operation =
     (if operation = None \<or> is_purpose r \<noteq> Exchange then io_return (Inr (pv_subject pv))
      else io_bind (db_read (\<lambda>d. obind (find_attempt d (pv_subject_id pv)) (\<lambda>a.
          if at_key_id a = ps_key_id (pv_subject pv) \<and> at_spki a = ps_spki (pv_subject pv) then Some (attempt_subject (ld_now d) a) else None)))
        (\<lambda>current. case current of None \<Rightarrow> deny ''temporarily_unavailable'' 503 | Some s \<Rightarrow> io_return (Inr s)))"

definition ambiguous_refusals :: "string list" where
  "ambiguous_refusals = [''authorization_expired'', ''authorization_unavailable'', ''device_limit_reached'', ''binding_unavailable'']"

text \<open>A refusal that a commit in between would explain is not passed on as final.\<close>

definition explain_refusal :: "issue_request \<Rightarrow> string \<Rightarrow> bound_operation option \<Rightarrow> refused \<Rightarrow> (refused + 'a) lease_io" where
  "explain_refusal r key_id operation e =
     (if operation = None \<and> fst e \<in> set ambiguous_refusals
      then io_bind (db_read (\<lambda>d. find_operation d key_id (is_purpose r) (is_operation_id r) \<noteq> None)) (\<lambda>committed.
        if committed then deny ''temporarily_unavailable'' 503 else io_return (Inl e))
      else io_return (Inl e))"

definition candidate_of :: "issue_platform \<Rightarrow> issue_request \<Rightarrow> proven \<Rightarrow> proof_subject \<Rightarrow> snapshot \<Rightarrow> lease_candidate" where
  "candidate_of i r pv s sn = \<lparr>cd_key_id = ps_key_id s, cd_purpose = is_purpose r, cd_operation_id = is_operation_id r, cd_digest = pv_digest pv,
     cd_customer_id = g_customer_id (sn_grant sn), cd_customer_revision = sn_customer_revision sn, cd_key = sn_key sn,
     cd_entitlement_revision = sn_authority sn, cd_trial_stamp = sn_stamp sn,
     cd_device_id = (case sn_device sn of None \<Rightarrow> ip_device_id i | Some v \<Rightarrow> dv_id v),
     cd_device_revision = (case sn_device sn of None \<Rightarrow> 0 | Some v \<Rightarrow> dv_revision v), cd_spki = ps_spki s,
     cd_device_label = (case ps_attempt s of Some a \<Rightarrow> at_device_label a | None \<Rightarrow> (case sn_device sn of None \<Rightarrow> [] | Some v \<Rightarrow> dv_label v)),
     cd_binding_id = (case sn_binding sn of None \<Rightarrow> ip_binding_id i | Some b \<Rightarrow> bi_id b),
     cd_binding_revision = (case sn_binding sn of None \<Rightarrow> 0 | Some b \<Rightarrow> bi_revision b),
     cd_generation = (case sn_binding sn of None \<Rightarrow> 1 | Some b \<Rightarrow> bi_generation b),
     cd_challenge_id = ch_id (pv_challenge pv), cd_challenge_expires_at = ch_expires_at (pv_challenge pv), cd_nonce_hash = pv_nonce_hash pv,
     cd_subject_id = pv_subject_id pv, cd_attempt_revision = map_option at_revision (ps_attempt s),
     cd_code_hash = obind (ps_attempt s) at_code_hash, cd_pkce = map_option at_pkce (ps_attempt s),
     cd_redirect_uri = map_option at_redirect_uri (ps_attempt s)\<rparr>"

definition claims_for :: "issue_platform \<Rightarrow> issue_request \<Rightarrow> lease_candidate \<Rightarrow> snapshot \<Rightarrow> lease_window \<Rightarrow> lease_signer \<Rightarrow> lease_claims" where
  "claims_for i r c sn w signer = \<lparr>lc_version = 1, lc_purpose = ''device-lease'', lc_key_id = ls_key_id signer, lc_issuer = ip_issuer i,
     lc_audience = ip_audience i, lc_project = fst (sn_key sn), lc_feature = fst (snd (sn_key sn)), lc_fingerprint = snd (snd (sn_key sn)),
     lc_binding_id = cd_binding_id c, lc_device_key_id = cd_key_id c, lc_generation = cd_generation c,
     lc_revocation_seq = g_revocation_seq (sn_grant sn), lc_lease_id = ip_lease_id i, lc_operation_id = is_operation_id r,
     lc_issued_at = lw_issued_at w, lc_renew_after = lw_renew_after w, lc_expires_at = lw_expires_at w\<rparr>"

definition lease_response :: "issue_platform \<Rightarrow> lease_candidate \<Rightarrow> string \<Rightarrow> lease_window \<Rightarrow> lease_answer" where
  "lease_response i c token w = \<lparr>la_ok = True, la_code = (if cd_purpose c = Exchange then ''device_activated'' else ''device_renewed''),
     la_request_id = ip_request_id i, la_device_id = cd_device_id c, la_binding_id = cd_binding_id c, la_generation = cd_generation c,
     la_key = cd_key c, la_lease = token, la_renew_after = lw_renew_after w, la_expires_at = lw_expires_at w, la_accept_until = lw_accept_until w\<rparr>"

definition signed_candidate_of :: "issue_platform \<Rightarrow> lease_candidate \<Rightarrow> string \<Rightarrow> lease_window \<Rightarrow> signed_candidate" where
  "signed_candidate_of i c token w = lease_candidate.extend c \<lparr>cd_lease_id = ip_lease_id i, cd_issued_at = lw_issued_at w,
     cd_expires_at = lw_expires_at w, cd_accept_until = lw_accept_until w, cd_token = token, cd_response = lease_response i c token w,
     cd_invocation_id = ip_invocation_id i\<rparr>"

definition sign_and_commit :: "issue_platform \<Rightarrow> issue_request \<Rightarrow> lease_candidate \<Rightarrow> snapshot \<Rightarrow> lease_window \<Rightarrow> (refused + op_response) lease_io" where
  "sign_and_commit i r c sn w =
     io_bind (io_lift (ip_signer i)) (\<lambda>signer.
     io_bind (io_lift (sign_bound_device_lease (ip_read_utf8 i) (claims_for i r c sn w signer) signer)) (\<lambda>token.
     io_bind (commit_bound_device_lease (ip_commit_paces i) (signed_candidate_of i c token w)) (\<lambda>a. io_return (Inr (LeaseAnswer a)))))"

definition issue_snapshot ::
  "issue_platform \<Rightarrow> issue_request \<Rightarrow> lease_candidate \<Rightarrow> snapshot \<Rightarrow> bound_operation option \<Rightarrow> (refused + op_response) lease_io" where
  "issue_snapshot i r c sn operation =
     (if operation \<noteq> None
      then io_bind (recover_bound_device_lease (ip_recovery_paces i) c (ip_invocation_id i)) (\<lambda>x. io_return (Inr x))
      else io_ok (limit_bound_verified (bound_secret_hash i) (cd_key_id c) (cd_customer_id c)
            (max 240 (2 * g_max_active_devices (sn_grant sn))) (ip_rate_paces i)) (\<lambda>_.
          case issue_window (sn_grant sn) (sn_trial_expires sn) (sn_now sn) of
            Inl _ \<Rightarrow> deny ''access_denied'' 403
          | Inr w \<Rightarrow> sign_and_commit i r c sn w))"

definition issue_proven :: "issue_platform \<Rightarrow> issue_request \<Rightarrow> proven \<Rightarrow> bound_operation option \<Rightarrow> (refused + op_response) lease_io" where
  "issue_proven i r pv operation =
     io_ok (current_subject r pv operation) (\<lambda>s.
       io_bind (read_authority i r s operation) (\<lambda>res. case res of
           Inl e \<Rightarrow> explain_refusal r (ps_key_id s) operation e
         | Inr sn \<Rightarrow> issue_snapshot i r (candidate_of i r pv s sn) sn operation))"

definition issue_bound_lease :: "issue_platform \<Rightarrow> issue_request \<Rightarrow> (refused + op_response) lease_io" where
  "issue_bound_lease i r =
     (if \<not> valid_issue_request i r then deny ''invalid_request'' 400
      else io_ok (prove_device i r) (\<lambda>pv.
        io_bind (db_read (\<lambda>d. map_option (\<lambda>o'. (o', ld_now d)) (find_operation d (ps_key_id (pv_subject pv)) (is_purpose r) (is_operation_id r))))
          (\<lambda>found. case operation_refusal pv found of
             Some e \<Rightarrow> io_return (Inl e)
           | None \<Rightarrow> issue_proven i r pv (map_option fst found))))"

end
