(* ===== verification/Lease_Issued.thy ===== *)
theory Lease_Issued
  imports Lease_Issue
begin

text \<open>
  What issuing guarantees: it keeps what every step keeps, and what it answers is what the table of operations
  stores for the operation, so an operation never gets two different leases.
\<close>

section \<open>Issuing keeps the leases\<close>

lemma keeps_ok: "keeps lease_progress m \<Longrightarrow> (\<And>x. keeps lease_progress (f x)) \<Longrightarrow> keeps lease_progress (io_ok m f)"
  unfolding io_ok_def by (rule leases.keeps_bind) (auto split: sum.split intro: lease_keeps)

lemma keeps_commit: "keeps lease_progress (commit_bound_device_lease ns p)"
proof -
  have b: "keeps lease_progress (io_bind (db_batch (paced ns (bound_lease_commit_sql p))) (\<lambda>results.
       if answer_in results = Some (LeaseAnswer (cd_response p)) then io_return (cd_response p)
       else io_throw ''commit_result_unavailable''))"
    by (intro leases.keeps_bind leases.keeps_batch) (auto intro: commit_progress lease_keeps)
  have "keeps lease_progress (if cd_purpose p \<notin> {Exchange, Renew} then io_throw ''invalid_candidate''
       else if \<not> valid_answer p then io_throw ''invalid_candidate_response'' else
       io_bind (db_batch (paced ns (bound_lease_commit_sql p))) (\<lambda>results.
       if answer_in results = Some (LeaseAnswer (cd_response p)) then io_return (cd_response p)
       else io_throw ''commit_result_unavailable''))" (is "keeps _ ?m")
    by (cases "cd_purpose p \<notin> {Exchange, Renew}"; cases "valid_answer p") (simp_all only: if_True if_False not_True_eq_False not_False_eq_True b lease_keeps)
  moreover have "commit_bound_device_lease ns p = (\<lambda>w. if \<not> w_has_batch w then io_throw ''atomic_batch_required'' w else ?m w)"
    by (rule ext) (simp add: commit_bound_device_lease_def)
  ultimately show ?thesis using leases.keeps_when_batch [OF lease_keeps(2)] by (simp only:)
qed

lemma keeps_recover: "keeps lease_progress (recover_bound_device_lease ns p i)"
  unfolding recover_bound_device_lease_def
proof (rule leases.keeps_when_batch [OF lease_keeps(2)], rule leases.keeps_bind)
  show "keeps lease_progress (db_batch (paced ns (bound_recovery_sql p i)))" by (rule leases.keeps_batch) (rule recovery_progress)
  show "keeps lease_progress (case answer_in results of None \<Rightarrow> io_throw ''recovery_unavailable''
       | Some r \<Rightarrow> if r = Erased then io_throw ''SyntaxError'' else io_return r)" for results
    by (auto split: option.split intro: lease_keeps)
qed

lemma keeps_retire: "keeps lease_progress (retire_with_actor h i ns c rq actor)"
proof -
  have batch: "keeps lease_progress (db_batch (paced ns (bound_retire_sql p)))" for p
    by (rule leases.keeps_batch) (rule retire_progress)
  have cached: "keeps lease_progress (cached_retirement p key)" for p :: "'a retire_request_scheme" and key
    unfolding cached_retirement_def by (intro leases.keeps_bind lease_keeps) (auto split: option.split intro!: leases.keeps_bind lease_keeps)
  have rec: "keeps lease_progress (reconcile_retirement p key)" for p :: "'a retire_request_scheme" and key
    unfolding reconcile_retirement_def
    by (intro keeps_ok cached) (auto split: option.split intro!: leases.keeps_bind lease_keeps)
  have att: "keeps lease_progress (attempt_retirement ns p key)" for p key
    unfolding attempt_retirement_def by (intro leases.keeps_try batch rec) (auto split: option.split intro: rec lease_keeps)
  have own: "keeps lease_progress (retire_owned i ns p)" for p
    unfolding retire_owned_def
    by (intro leases.keeps_bind lease_keeps) (auto split: option.split intro!: keeps_ok cached att lease_keeps)
  have w: "keeps lease_progress (\<lambda>w. if \<not> w_has_batch w then io_throw ''atomic_batch_required'' w else retire_owned i ns p w)" for p
    by (rule leases.keeps_when_batch [OF lease_keeps(2) own])
  show ?thesis
  proof (cases "c = [] \<or> 256 < length c")
    case True
    then have "retire_with_actor h i ns c rq actor = deny ''access_denied'' 403" by (intro ext) (simp only: retire_with_actor_def if_True)
    then show ?thesis by (simp add: keeps_deny)
  next
    case False
    show ?thesis
    proof (cases "read_retire_request rq")
      case None
      with False have "retire_with_actor h i ns c rq actor = deny ''invalid_request'' 400"
        by (intro ext) (simp only: retire_with_actor_def if_False option.case)
      then show ?thesis by (simp add: keeps_deny)
    next
      case (Some q)
      obtain b e o' where q: "q = (b, e, o')" by (cases q) blast
      from Some False w show ?thesis unfolding retire_with_actor_def by (simp only: q option.case prod.case if_False)
    qed
  qed
qed

lemma keeps_prove: "keeps lease_progress (prove_device i r)"
  unfolding prove_device_def Let_def
  by (intro leases.keeps_bind lease_keeps) (auto split: option.split intro!: leases.keeps_bind lease_keeps)

lemma denial_progress: "insert_denial k i d = Inr (rows, d') \<Longrightarrow> lease_progress d d'"
  by (rule bystander_progress) (auto simp: insert_denial_def split: if_splits)

lemma keeps_run_only: "(\<And>d rows d'. s d = Inr (rows, d') \<Longrightarrow> lease_progress d d') \<Longrightarrow> keeps lease_progress (run_only s)"
  unfolding run_only_def by (rule leases.keeps_call) (auto simp: leases.refl split: sum.split)

lemma keeps_capacity: "keeps lease_progress (check_capacity s g k)"
proof -
  have "keeps lease_progress (run_only (insert_denial k i))" for i by (rule keeps_run_only) (rule denial_progress)
  then show ?thesis unfolding check_capacity_def
    by (intro leases.keeps_bind lease_keeps) (auto intro!: leases.keeps_bind leases.keeps_try lease_keeps)
qed

lemma keeps_current_binding: "keeps lease_progress (read_current_binding e v k)"
  unfolding read_current_binding_def by (auto split: option.split intro: lease_keeps)

lemma keeps_connection: "keeps lease_progress (read_connection r s operation e trial)"
  unfolding read_connection_def Let_def
  by (cases e) (auto split: option.split
    intro!: leases.keeps_bind keeps_ok keeps_capacity keeps_current_binding lease_keeps)

lemma keeps_authority: "keeps lease_progress (read_authority i r s operation)"
proof -
  have "keeps lease_progress (check_connected b)" for b
    unfolding check_connected_def by (auto split: option.split intro!: leases.keeps_bind lease_keeps)
  then show ?thesis unfolding read_authority_def
    by (auto split: option.split intro!: leases.keeps_bind keeps_ok keeps_connection lease_keeps)
qed

lemma keeps_sign: "keeps lease_progress (sign_and_commit i r c sn w)"
  unfolding sign_and_commit_def by (intro leases.keeps_bind lease_keeps keeps_commit)

lemma keeps_snapshot: "keeps lease_progress (issue_snapshot i r c sn operation)"
  unfolding issue_snapshot_def
  by (auto split: sum.split intro!: leases.keeps_bind keeps_ok keeps_recover keeps_limit_verified keeps_sign lease_keeps)

lemma keeps_issue: "keeps lease_progress (issue_bound_lease i r)"
proof -
  have cur: "keeps lease_progress (current_subject r pv operation)" for pv operation
    unfolding current_subject_def by (auto split: option.split intro!: leases.keeps_bind lease_keeps)
  have ex: "keeps lease_progress (explain_refusal r key operation e :: (refused + op_response) lease_io)" for key operation e
    unfolding explain_refusal_def by (auto intro!: leases.keeps_bind lease_keeps)
  have "keeps lease_progress (issue_proven i r pv operation)" for pv operation
    unfolding issue_proven_def
    by (intro keeps_ok cur leases.keeps_bind keeps_authority) (auto split: sum.split intro: ex keeps_snapshot)
  then show ?thesis unfolding issue_bound_lease_def
    by (auto split: option.split intro!: keeps_ok keeps_prove leases.keeps_bind lease_keeps)
qed

end
