(* ===== verification/Lease_Answer.thy ===== *)
theory Lease_Answer
  imports Lease_Issued
begin

text \<open>
  An operation on a lease has one answer. Whatever is answered for it is the answer the table of operations
  stores under the device key, the purpose and the operation id, and a stored answer is at most erased; so
  asking again gives the same lease or a failure.
\<close>

section \<open>Stored answers\<close>

definition answered :: "string \<times> lease_purpose \<times> string \<Rightarrow> op_response \<Rightarrow> lease_db \<Rightarrow> bool" where
  "answered key r d \<longleftrightarrow> leases_ok d \<and> r \<noteq> Erased \<and> (\<exists>q\<in>set (ld_operations d). operation_key q = key \<and> op_response q = r)"

lemma answered_once: "answered key r d \<Longrightarrow> answered key r' d \<Longrightarrow> r' = r"
  unfolding answered_def leases_ok_def by (auto simp: distinct_map dest: inj_onD)

lemma answered_later:
  assumes "answered key r d" and "lease_progress d d'" and "answered key r' d'"
  shows "r' = r"
proof -
  from assms(1) obtain q where ok: "leases_ok d" and q: "q \<in> set (ld_operations d)" "operation_key q = key" "op_response q = r"
    unfolding answered_def by blast
  from assms(2) ok have "lease_forward d d'" and ok': "leases_ok d'" by (simp_all add: lease_progress_def)
  with q(1) obtain q' where q': "q' \<in> set (ld_operations d')" "operation_later (ld_now d') q q'" by (auto simp: lease_forward_def)
  then have key: "operation_key q' = key" and r: "op_response q' = r \<or> op_response q' = Erased"
    using q by (auto simp: operation_later_def operation_key_def)
  from assms(3) obtain q2 where q2: "q2 \<in> set (ld_operations d')" "operation_key q2 = key" "op_response q2 = r'" "r' \<noteq> Erased"
    unfolding answered_def by blast
  have "q2 = q'" using ok' q2(1,2) q'(1) key by (auto simp: leases_ok_def distinct_map dest: inj_onD)
  with r q2 show ?thesis by auto
qed

lemma commit_answers:
  assumes ok: "leases_ok d" and run: "run_statements (paced ns (bound_lease_commit_sql p)) d = Inr (rs, d')"
  shows "answered (cd_key_id p, cd_purpose p, cd_operation_id p) (LeaseAnswer (cd_response p)) d'"
proof -
  let ?ss = "[lease_guard p, stamp_trial p, create_device p, create_binding p, consume_challenge p, consume_approval p,
      update_binding p, update_device p, issue_lease p, audit_lease p, finalize_lease p]"
    and ?g = "\<lambda>d. case find (\<lambda>o'. op_invocation_id o' = cd_invocation_id p \<and> op_complete o') (ld_operations d) of
        None \<Rightarrow> [] | Some o' \<Rightarrow> [AnswerOut (op_response o')]"
  have "run_statements (paced ns (?ss @ [assert_complete p, remove_check (cd_invocation_id p), lease_result p])) d = Inr (rs, d')"
    using run by (simp only: bound_lease_commit_sql_def append.simps)
  from run_prefix [OF this, of "\<lambda>_. True"] obtain ns' d1 rs'
    where tail: "run_statements (paced ns' [assert_complete p, remove_check (cd_invocation_id p), lease_result p]) d1 = Inr (rs', d')"
    by blast
  have "\<exists>f m r. ld_now d1 \<le> f \<and> f \<le> m \<and> list_ex (operation_complete p) (ld_operations (at_time f d1)) \<and> d' = at_time m d1
      \<and> rs' = [[], [], r] \<and> r = ?g d'"
    by (rule checked_tail [OF tail]) (simp_all add: assert_complete_def lease_result_def)
  then have "list_ex (operation_complete p) (ld_operations d')" by auto
  then have "\<exists>q\<in>set (ld_operations d'). operation_key q = (cd_key_id p, cd_purpose p, cd_operation_id p) \<and> op_response q = LeaseAnswer (cd_response p)"
    by (auto simp: list_ex_iff operation_complete_def operation_key_def)
  with commit_progress [OF run] ok show ?thesis by (simp add: answered_def lease_progress_def)
qed

lemma recovery_answers:
  assumes ok: "leases_ok d" and run: "run_statements (paced ns (bound_recovery_sql p i)) d = Inr (rs, d')"
    and r: "answer_in rs = Some r" "r \<noteq> Erased"
  shows "answered (cd_key_id p, cd_purpose p, cd_operation_id p) r d'"
proof -
  from recovery_batch_effect [OF run] r(1) obtain q where "find (recovery_row p i d') (ld_operations d') = Some q" "op_response q = r"
    by (auto simp: eq_commute [of "Some r"])
  then have "q \<in> set (ld_operations d')" "recovery_row p i d' q" "op_response q = r" by (auto simp: find_Some_iff)
  with recovery_progress [OF run] ok r(2) show ?thesis
    by (auto simp: answered_def lease_progress_def recovery_row_def operation_key_def)
qed

section \<open>What a flow answers\<close>

abbreviation lease_triple :: "(lease_db \<Rightarrow> bool) \<Rightarrow> 'a lease_io \<Rightarrow> ('a \<Rightarrow> lease_db \<Rightarrow> bool) \<Rightarrow> bool" where
  "lease_triple \<equiv> establishes lease_progress leases_ok"

definition issue_promise :: "string \<times> lease_purpose \<times> string \<Rightarrow> refused + op_response \<Rightarrow> lease_db \<Rightarrow> bool" where
  "issue_promise key res d \<longleftrightarrow> leases_ok d \<and> (case res of Inl _ \<Rightarrow> True | Inr r \<Rightarrow> answered key r d)"

definition yields :: "'a lease_io \<Rightarrow> ('a \<Rightarrow> bool) \<Rightarrow> bool" where
  "yields m Q \<longleftrightarrow> lease_triple leases_ok m (\<lambda>x d. leases_ok d \<and> Q x)"

lemma keeps_yields: "keeps lease_progress m \<Longrightarrow> yields m (\<lambda>_. True)"
  unfolding yields_def
  by (rule leases.establishesI) (auto dest!: leases.keepsD simp: lease_progress_def split: sum.split)

lemma yields_return: "Q x \<Longrightarrow> yields (io_return x) Q"
  unfolding yields_def by (rule leases.establishes_return) simp

lemma yields_bind: "yields m Q \<Longrightarrow> (\<And>x. Q x \<Longrightarrow> yields (f x) R) \<Longrightarrow> yields (io_bind m f) R"
  unfolding yields_def
proof (rule leases.establishes_bind)
  assume f: "\<And>x. Q x \<Longrightarrow> lease_triple leases_ok (f x) (\<lambda>x d. leases_ok d \<and> R x)"
  show "lease_triple (\<lambda>d. leases_ok d \<and> Q x) (f x) (\<lambda>x d. leases_ok d \<and> R x)" for x
    by (cases "Q x") (use f [of x] in \<open>auto intro: leases.establishes_weaken simp: establishes_def\<close>)
qed

lemma yields_read: "yields (db_read q) (\<lambda>_. True)"
  by (rule keeps_yields) (rule leases.keeps_read)

lemma yields_deny: "(\<And>e. R (Inl e)) \<Longrightarrow> yields (deny c s) R"
  unfolding deny_def by (rule yields_return) simp

lemma yields_lift: "(\<And>x. r = Inr x \<Longrightarrow> Q x) \<Longrightarrow> yields (io_lift r) Q"
  unfolding yields_def by (rule leases.establishesI) (auto simp: io_lift_def split: sum.splits)

lemma issue_from_yields:
  assumes "yields m Q" and "\<And>x. Q x \<Longrightarrow> lease_triple leases_ok (f x) R"
  shows "lease_triple leases_ok (io_bind m f) R"
proof (rule leases.establishes_bind)
  show "lease_triple leases_ok m (\<lambda>x d. leases_ok d \<and> Q x)" using assms(1) by (simp add: yields_def)
  show "lease_triple (\<lambda>d. leases_ok d \<and> Q x) (f x) R" for x
    by (cases "Q x") (use assms(2) [of x] in \<open>auto intro: leases.establishes_weaken simp: establishes_def\<close>)
qed

lemma issue_refused: "lease_triple leases_ok (io_return (Inl e)) (issue_promise key)"
  by (rule leases.establishes_return) (simp add: issue_promise_def)

lemma issue_ok_from_yields:
  assumes "yields m (\<lambda>res. case res of Inl _ \<Rightarrow> True | Inr x \<Rightarrow> Q x)" and "\<And>x. Q x \<Longrightarrow> lease_triple leases_ok (f x) (issue_promise key)"
  shows "lease_triple leases_ok (io_ok m f) (issue_promise key)"
  unfolding io_ok_def
  by (rule issue_from_yields [OF assms(1)]) (auto split: sum.splits intro: assms(2) issue_refused)

section \<open>The flow\<close>

lemma establishes_commit:
  "lease_triple leases_ok (io_bind (commit_bound_device_lease ns p) (\<lambda>a. io_return (Inr (LeaseAnswer a))))
     (issue_promise (cd_key_id p, cd_purpose p, cd_operation_id p))"
proof (rule leases.establishesI)
  fix w w' and r :: "(refused + op_response) outcome"
  assume hon: "honest_world lease_progress w" and ok: "leases_ok (w_db w)"
    and run: "io_bind (commit_bound_device_lease ns p) (\<lambda>a. io_return (Inr (LeaseAnswer a))) w = (r, w')"
  let ?key = "(cd_key_id p, cd_purpose p, cd_operation_id p)"
  have "keeps lease_progress (io_bind (commit_bound_device_lease ns p) (\<lambda>a. io_return (Inr (LeaseAnswer a) :: refused + op_response)))"
    by (intro leases.keeps_bind keeps_commit lease_keeps)
  from leases.keepsD [OF this hon run] ok have hon': "honest_world lease_progress w'" and ok': "leases_ok (w_db w')"
    by (simp_all add: lease_progress_def)
  have batch: "lease_triple leases_ok (db_batch (paced ns (bound_lease_commit_sql p))) (\<lambda>_. answered ?key (LeaseAnswer (cd_response p)))"
    by (rule leases.establishes_batch) (auto dest: commit_answers simp: answered_def)
  have "issue_promise ?key x (w_db w')" if "r = Inr x" for x
  proof -
    from run that obtain a where c: "commit_bound_device_lease ns p w = (Inr a, w')" and x: "x = Inr (LeaseAnswer a)"
      by (auto simp: io_bind_def io_return_def split: sum.splits prod.splits)
    then obtain rs w1 where b: "db_batch (paced ns (bound_lease_commit_sql p)) w = (Inr rs, w1)" and a: "a = cd_response p" "w' = w1"
      by (auto simp: commit_bound_device_lease_def io_bind_def io_throw_def io_return_def split: sum.splits prod.splits if_splits)
    from leases.establishesD [OF batch hon ok b] show ?thesis using ok' by (simp add: issue_promise_def x a)
  qed
  with hon' ok' show "honest_world lease_progress w' \<and> (case r of Inl e \<Rightarrow> leases_ok (w_db w') | Inr x \<Rightarrow> issue_promise ?key x (w_db w'))"
    by (cases r) simp_all
qed

lemma establishes_recover:
  "lease_triple leases_ok (io_bind (recover_bound_device_lease ns p i) (\<lambda>x. io_return (Inr x)))
     (issue_promise (cd_key_id p, cd_purpose p, cd_operation_id p))"
proof (rule leases.establishesI)
  fix w w' and r :: "(refused + op_response) outcome"
  assume hon: "honest_world lease_progress w" and ok: "leases_ok (w_db w)"
    and run: "io_bind (recover_bound_device_lease ns p i) (\<lambda>x. io_return (Inr x)) w = (r, w')"
  let ?key = "(cd_key_id p, cd_purpose p, cd_operation_id p)"
  have "keeps lease_progress (io_bind (recover_bound_device_lease ns p i) (\<lambda>x. io_return (Inr x :: refused + op_response)))"
    by (intro leases.keeps_bind keeps_recover lease_keeps)
  from leases.keepsD [OF this hon run] ok have hon': "honest_world lease_progress w'" and ok': "leases_ok (w_db w')"
    by (simp_all add: lease_progress_def)
  have batch: "lease_triple leases_ok (db_batch (paced ns (bound_recovery_sql p i)))
      (\<lambda>rs d. leases_ok d \<and> (\<forall>x. answer_in rs = Some x \<and> x \<noteq> Erased \<longrightarrow> answered ?key x d))"
  proof (rule leases.establishes_batch)
    fix d rs d'
    assume "leases_ok d" and b: "run_statements (paced ns (bound_recovery_sql p i)) d = Inr (rs, d')"
    then show "leases_ok d' \<and> leases_ok d' \<and> (\<forall>x. answer_in rs = Some x \<and> x \<noteq> Erased \<longrightarrow> answered ?key x d')"
      using recovery_answers [OF _ b] recovery_progress [OF b] by (simp add: lease_progress_def)
  qed
  have "issue_promise ?key x (w_db w')" if "r = Inr x" for x
  proof -
    from run that obtain a where c: "recover_bound_device_lease ns p i w = (Inr a, w')" and x: "x = Inr a"
      by (auto simp: io_bind_def io_return_def split: sum.splits prod.splits)
    then obtain rs w1 where b: "db_batch (paced ns (bound_recovery_sql p i)) w = (Inr rs, w1)"
      and a: "answer_in rs = Some a" "a \<noteq> Erased" "w' = w1"
      by (auto simp: recover_bound_device_lease_def io_bind_def io_throw_def io_return_def split: sum.splits prod.splits if_splits option.splits)
    from leases.establishesD [OF batch hon ok b] show ?thesis using ok' a by (simp add: issue_promise_def x)
  qed
  with hon' ok' show "honest_world lease_progress w' \<and> (case r of Inl e \<Rightarrow> leases_ok (w_db w') | Inr x \<Rightarrow> issue_promise ?key x (w_db w'))"
    by (cases r) simp_all
qed

text \<open>The key the answer is stored under is the one the request states.\<close>

definition issue_key :: "issue_request \<Rightarrow> string \<times> lease_purpose \<times> string" where
  "issue_key r = (pf_key_id (is_proof r), is_purpose r, is_operation_id r)"

lemma establishes_sign:
  assumes "cd_key_id c = pf_key_id (is_proof r)" and "cd_purpose c = is_purpose r" and "cd_operation_id c = is_operation_id r"
  shows "lease_triple leases_ok (sign_and_commit i r c sn w) (issue_promise (issue_key r))"
proof -
  have "lease_triple leases_ok (io_bind (commit_bound_device_lease (ip_commit_paces i) (signed_candidate_of i c token w))
      (\<lambda>a. io_return (Inr (LeaseAnswer a)))) (issue_promise (issue_key r))" for token
    using establishes_commit [of "ip_commit_paces i" "signed_candidate_of i c token w"] assms
    by (simp add: signed_candidate_of_def lease_candidate.defs issue_key_def)
  then show ?thesis unfolding sign_and_commit_def
    by (intro issue_from_yields [where Q = "\<lambda>_. True", OF yields_lift]) simp_all
qed

lemma establishes_snapshot:
  assumes "cd_key_id c = pf_key_id (is_proof r)" and "cd_purpose c = is_purpose r" and "cd_operation_id c = is_operation_id r"
  shows "lease_triple leases_ok (issue_snapshot i r c sn operation) (issue_promise (issue_key r))"
proof (cases "operation = None")
  case True
  have l: "yields (limit_bound_verified h k cu n ns) (\<lambda>res. case res of Inl _ \<Rightarrow> True | Inr _ \<Rightarrow> True)" for h k cu n ns
    using keeps_yields [OF keeps_limit_verified] by (simp add: sum.case_eq_if)
  have "lease_triple leases_ok (case issue_window (sn_grant sn) (sn_trial_expires sn) (sn_now sn) of
      Inl _ \<Rightarrow> deny ''access_denied'' 403 | Inr w \<Rightarrow> sign_and_commit i r c sn w) (issue_promise (issue_key r))"
    by (auto split: sum.split intro: establishes_sign assms simp: deny_def issue_refused)
  with l True show ?thesis unfolding issue_snapshot_def by (simp add: issue_ok_from_yields [where Q = "\<lambda>_. True"])
next
  case False
  then show ?thesis
    using establishes_recover [of "ip_recovery_paces i" c "ip_invocation_id i"] assms by (simp add: issue_snapshot_def issue_key_def)
qed

lemma yields_subject:
  assumes "ps_key_id (pv_subject pv) = k"
  shows "yields (current_subject r pv operation) (\<lambda>res. case res of Inl _ \<Rightarrow> True | Inr s \<Rightarrow> ps_key_id s = k)"
proof -
  let ?q = "\<lambda>d. obind (find_attempt d (pv_subject_id pv)) (\<lambda>a.
          if at_key_id a = ps_key_id (pv_subject pv) \<and> at_spki a = ps_spki (pv_subject pv) then Some (attempt_subject (ld_now d) a) else None)"
  have "yields (db_read ?q) (\<lambda>x. case x of None \<Rightarrow> True | Some s \<Rightarrow> ps_key_id s = k)"
    unfolding yields_def by (rule leases.establishes_read) (auto simp: attempt_subject_def assms obind_def split: option.splits)
  then have "yields (io_bind (db_read ?q) (\<lambda>current. case current of None \<Rightarrow> deny ''temporarily_unavailable'' 503 | Some s \<Rightarrow> io_return (Inr s)))
      (\<lambda>res. case res of Inl _ \<Rightarrow> True | Inr s \<Rightarrow> ps_key_id s = k)"
    by (rule yields_bind) (auto split: option.splits intro!: yields_return yields_deny)
  then show ?thesis using assms unfolding current_subject_def by (auto intro: yields_return)
qed

lemma yields_prove: "yields (prove_device i r) (\<lambda>res. case res of Inl _ \<Rightarrow> True | Inr pv \<Rightarrow> ps_key_id (pv_subject pv) = pf_key_id (is_proof r))"
    (is "yields _ ?Q")
proof -
  have check: "?Q x" if "challenge_answers r sid s h c" and "check_proof i r sid s c now = Inr x" for sid s h c now x
    using that by (auto simp: check_proof_def challenge_answers_def rbind_Inr_iff split: if_splits sum.split)
  have deny: "yields (deny c n) ?Q" for c n by (rule yields_deny) simp
  show ?thesis unfolding prove_device_def Let_def
    by (rule yields_bind [OF yields_read])
      (auto split: option.split intro!: yields_bind [OF yields_read] yields_return deny yields_lift dest: check)
qed

lemma establishes_proven:
  assumes "ps_key_id (pv_subject pv) = pf_key_id (is_proof r)"
  shows "lease_triple leases_ok (issue_proven i r pv operation) (issue_promise (issue_key r))"
proof -
  have c: "cd_key_id (candidate_of i r pv s sn) = pf_key_id (is_proof r)" "cd_purpose (candidate_of i r pv s sn) = is_purpose r"
    "cd_operation_id (candidate_of i r pv s sn) = is_operation_id r" if "ps_key_id s = pf_key_id (is_proof r)" for s sn
    using that by (simp_all add: candidate_of_def)
  have ex: "lease_triple leases_ok (explain_refusal r key operation e) (issue_promise (issue_key r))" for key e
    unfolding explain_refusal_def
    by (auto simp: deny_def intro!: issue_from_yields [OF yields_read] issue_refused)
  have "lease_triple leases_ok (io_bind (read_authority i r s operation) (\<lambda>res. case res of
           Inl e \<Rightarrow> explain_refusal r (ps_key_id s) operation e
         | Inr sn \<Rightarrow> issue_snapshot i r (candidate_of i r pv s sn) sn operation)) (issue_promise (issue_key r))"
    if "ps_key_id s = pf_key_id (is_proof r)" for s
    by (rule issue_from_yields [OF keeps_yields [OF keeps_authority]])
      (auto split: sum.split intro: ex establishes_snapshot c [OF that])
  then show ?thesis unfolding issue_proven_def by (rule issue_ok_from_yields [OF yields_subject [OF assms]])
qed

lemma establishes_issue: "lease_triple leases_ok (issue_bound_lease i r) (issue_promise (issue_key r))"
proof -
  have "lease_triple leases_ok (io_bind (db_read q) (\<lambda>found. case operation_refusal pv found of
             Some e \<Rightarrow> io_return (Inl e)
           | None \<Rightarrow> issue_proven i r pv (map_option fst found))) (issue_promise (issue_key r))"
    if "ps_key_id (pv_subject pv) = pf_key_id (is_proof r)" for pv q
    by (rule issue_from_yields [OF yields_read]) (auto split: option.split intro: issue_refused establishes_proven that)
  then have "lease_triple leases_ok (io_ok (prove_device i r) (\<lambda>pv.
        io_bind (db_read (\<lambda>d. map_option (\<lambda>o'. (o', ld_now d)) (find_operation d (ps_key_id (pv_subject pv)) (is_purpose r) (is_operation_id r))))
          (\<lambda>found. case operation_refusal pv found of
             Some e \<Rightarrow> io_return (Inl e)
           | None \<Rightarrow> issue_proven i r pv (map_option fst found)))) (issue_promise (issue_key r))"
    by (rule issue_ok_from_yields [OF yields_prove])
  then show ?thesis unfolding issue_bound_lease_def by (simp add: deny_def issue_refused)
qed

lemma issue_twice:
  assumes "honest_world lease_progress w" and "leases_ok (w_db w)" and "issue_bound_lease i r w = (Inr (Inr a), w')"
    and "honest_world lease_progress v" and "lease_progress (w_db w') (w_db v)" and "issue_bound_lease j s v = (Inr (Inr b), v')"
    and "issue_key s = issue_key r"
  shows "b = a"
proof -
  have 1: "answered (issue_key r) a (w_db w')"
    using leases.establishesD [OF establishes_issue assms(1-3)] by (simp add: issue_promise_def)
  then have ok: "leases_ok (w_db v)" using assms(5) by (simp add: answered_def lease_progress_def)
  have 2: "answered (issue_key r) b (w_db v')"
    using leases.establishesD [OF establishes_issue assms(4) ok assms(6)] assms(7) by (simp add: issue_promise_def)
  have "lease_progress (w_db v) (w_db v')" using leases.keepsD [OF keeps_issue assms(4,6)] by blast
  with assms(5) have "lease_progress (w_db w') (w_db v')" by (rule leases.trans)
  from answered_later [OF 1 this 2] show ?thesis .
qed

end
