(* ===== verification/Lease_Sample.thy ===== *)
theory Lease_Sample
  imports Lease_Answer
begin

text \<open>A concrete renewal, sent twice with two challenges, for the witnesses of the properties of issuing.\<close>

section \<open>The database\<close>

definition sample_binding_id :: string where
  "sample_binding_id = encode_base64url (replicate 16 7)"

definition sample_operation_id :: string where
  "sample_operation_id = encode_base64url (replicate 32 5)"

definition sample_print :: string where
  "sample_print = replicate 64 (CHR ''0'')"

definition sample_spki :: string where
  "sample_spki = encode_base64url sample_key"

definition secret_text :: string where
  "secret_text = hex (replicate 32 170)"

definition first_challenge :: string where
  "first_challenge = encode_base64url (replicate 16 1)"

definition second_challenge :: string where
  "second_challenge = encode_base64url (replicate 16 2)"

lemma challenges_differ: "(first_challenge = second_challenge) = False" "(second_challenge = first_challenge) = False"
  by (simp_all add: first_challenge_def second_challenge_def base64url_inj)

definition lease_grant :: grant where
  "lease_grant = \<lparr>g_project = ''demo'', g_feature = ''pro'', g_fingerprint = sample_print, g_status = ''active'',
     g_revocation_seq = 0, g_valid_from = None, g_valid_until = Some 1300, g_notes = [], g_customer_id = ''c1'', g_license_id = None,
     g_policy_id = None, g_is_trial = 0, g_trial_expiration_basis = None, g_trial_duration_sec = 0, g_trial_one_per_device = 0,
     g_trial_started_at = None, g_trial_device_key_id = None, g_max_active_devices = 1, g_lease_seconds = 86400,
     g_created_at = 0, g_updated_at = 0\<rparr>"

definition open_challenge :: "string \<Rightarrow> bound_challenge" where
  "open_challenge i = \<lparr>ch_id = i, ch_purpose = Renew, ch_subject_id = sample_binding_id, ch_key_id = sample_hash,
     ch_operation_id = sample_operation_id, ch_nonce_hash = secret_text, ch_created_at = 900, ch_expires_at = 1190, ch_consumed = None\<rparr>"

definition sample_device :: bound_device where
  "sample_device = \<lparr>dv_id = ''d1'', dv_customer_id = ''c1'', dv_project = ''demo'', dv_key_id = sample_hash, dv_spki = sample_spki,
     dv_label = ''desk'', dv_active = True, dv_revision = 0, dv_created_at = 900, dv_last_proof_at = 900\<rparr>"

definition sample_binding :: bound_binding where
  "sample_binding = \<lparr>bi_id = sample_binding_id, bi_key = (''demo'', ''pro'', sample_print), bi_device_id = ''d1'', bi_state = Active,
     bi_generation = 1, bi_revision = 0, bi_hold_until = 0, bi_created_at = 900, bi_updated_at = 900\<rparr>"

definition lease_db0 :: lease_db where
  "lease_db0 = \<lparr>ld_core = \<lparr>db_grants = [lease_grant], db_events = [], db_idempotency = (\<lambda>_. None), db_occupied = (\<lambda>_. 0),
       db_generation = 0, db_changes = 0\<rparr>,
     ld_authority = (\<lambda>_. 0), ld_accounts = [\<lparr>ac_id = ''c1'', ac_active = True, ac_revision = 0\<rparr>], ld_devices = [sample_device],
     ld_bindings = [sample_binding], ld_challenges = [open_challenge first_challenge, open_challenge second_challenge], ld_attempts = [],
     ld_operations = [], ld_leases = [], ld_events = [], ld_checks = [], ld_denials = [], ld_counters = [], ld_now = 1000\<rparr>"

definition lease_world :: "lease_db \<Rightarrow> lease_db world" where
  "lease_world d = \<lparr>w_db = d, w_schedule = [], w_has_batch = True\<rparr>"

lemma db0_ok: "leases_ok lease_db0"
  by (auto simp: leases_ok_def lease_db0_def sample_binding_def occupied_def occupies_def find_grant_def lease_grant_def key_of_def
      split: if_splits)

section \<open>The requests\<close>

definition sample_platform :: "string \<Rightarrow> issue_platform" where
  "sample_platform invocation = \<lparr>ip_sha256 = sample_sha, ip_spki = Some, ip_ecdsa = (\<lambda>key sig bytes. key = sample_key),
     ip_read_utf8 = latin_reader, ip_canonical_url = (\<lambda>_. True), ip_signer = Inr sample_signer, ip_issuer = ''issuer'',
     ip_audience = ''app'', ip_request_id = ''rq'', ip_device_id = ''d2'', ip_binding_id = ''b2'',
     ip_lease_id = encode_base64url (replicate 16 9), ip_invocation_id = invocation, ip_rate_paces = [], ip_commit_paces = [],
     ip_recovery_paces = []\<rparr>"

definition renewal :: "string \<Rightarrow> issue_request" where
  "renewal challenge = \<lparr>is_purpose = Renew, is_attempt_handle = [], is_code = [], is_code_verifier = [], is_redirect_uri = [],
     is_binding_id = sample_binding_id, is_generation = 1, is_operation_id = sample_operation_id,
     is_proof = \<lparr>pf_key_id = sample_hash, pf_challenge_id = challenge, pf_nonce = encode_base64url (replicate 32 2),
       pf_expires_at = 1190, pf_signature = encode_base64url sample_proof_signature\<rparr>\<rparr>"

lemma sized: "length bs = n \<Longrightarrow> sized_base64url n (String (encode_base64url bs))"
  by (simp add: sized_base64url_def base64url_decode_encode)

lemma renewal_valid: "c = first_challenge \<or> c = second_challenge \<Longrightarrow> valid_issue_request (sample_platform i) (renewal c)"
proof -
  assume c: "c = first_challenge \<or> c = second_challenge"
  have "device_key_text sample_hash" by code_simp
  moreover have "length sample_proof_signature = 64" by (simp add: sample_proof_signature_def)
  ultimately show ?thesis using c
    by (auto simp: valid_issue_request_def valid_proof_part_def renewal_def sample_operation_id_def sample_binding_id_def first_challenge_def
        second_challenge_def max_safe_integer_def safe_timestamp_def intro: sized)
qed

section \<open>The proof of possession\<close>

definition shown :: "string \<Rightarrow> proven" where
  "shown c = \<lparr>pv_subject = binding_subject 1000 sample_binding sample_device, pv_subject_id = sample_binding_id,
     pv_challenge = open_challenge c, pv_nonce_hash = secret_text, pv_digest = secret_text\<rparr>"

lemma utf8_short: "length (utf8 s) \<le> 2 * length s"
proof (induction s)
  case (Cons c s)
  have "length (utf8_char c) \<le> 2" by (cases "code_unit c < 128") (simp_all add: utf8_char_cases)
  with Cons show ?case by (simp add: utf8_def)
qed (simp add: utf8_def)

lemma safe_text: "s \<noteq> [] \<Longrightarrow> length s \<le> 512 \<Longrightarrow> safe_text_value s = Inr (encode_base64url (utf8 s))"
  using utf8_short [of s] by (simp add: safe_text_value_def)

lemma length_base64url: "length (encode_base64url bs) = (4 * length bs + 2) div 3"
  by (simp add: encode_sextets length_sextets)

lemma base64url_some: "bs \<noteq> [] \<Longrightarrow> encode_base64url bs \<noteq> []"
  using length_base64url [of bs] by (cases bs) auto

lemma hash_text: "device_key_text sample_hash" "length sample_hash = 71" "sample_hash \<noteq> []"
  by code_simp+

lemma secret_hex: "length secret_text = 64" "list_all lower_hex secret_text" "secret_text \<noteq> []"
  by code_simp+

lemma secret_hash: "bound_secret_hash (sample_platform i) s = secret_text" "hex (sample_sha bs) = secret_text"
  by (simp_all add: bound_secret_hash_def sample_platform_def sample_sha_def secret_text_def)

definition sample_intent :: "string \<Rightarrow> device_proof" where
  "sample_intent c = \<lparr>dp_audience = ''app'', dp_method = ''POST'', dp_path = ''/v2/device-leases/renew'',
     dp_key_id = sample_hash, dp_operation_id = sample_operation_id, dp_body_sha256 = secret_text, dp_challenge_id = c,
     dp_nonce = encode_base64url (replicate 32 2), dp_expires_at = 1190\<rparr>"

lemma intent_input:
  "c = first_challenge \<or> c = second_challenge \<Longrightarrow> \<exists>bytes. device_proof_signing_input (sample_intent c) = Inr bytes"
  by (auto simp: device_proof_signing_input_def sample_intent_def proof_values_def proof_paths_def encode_claim_def safe_text
    safe_integer_value_def max_safe_integer_def hash_text secret_hex length_base64url base64url_some sample_operation_id_def
    first_challenge_def second_challenge_def)

lemma renewal_texts:
  "\<exists>bytes. device_operation_body Renew (semantic_body (renewal c)) = Inr bytes"
  "\<exists>bytes. device_operation_digest_input Renew sample_hash (semantic_body (renewal c)) = Inr bytes"
  by (simp_all add: device_operation_digest_input_def device_operation_body_def semantic_body_def renewal_def device_operation_fields_def
    item_ok_def safe_text safe_integer_value_def max_safe_integer_def hash_text purpose_text_def length_base64url base64url_some
    sample_operation_id_def sample_binding_id_def)

lemma alone [simp]:
  "db_read q (lease_world d) = (Inr (q d), lease_world d)"
  "run_statements ss d = Inr (rs, d') \<Longrightarrow> db_batch ss (lease_world d) = (Inr rs, lease_world d')"
  "w_has_batch (lease_world d)" "w_db (lease_world d) = d" "honest_world G (lease_world d)"
  by (simp_all add: db_read_def db_batch_def db_call_def run_batch_def lease_world_def honest_world_def)

lemma io_alone:
  "io_bind (db_read q) f (lease_world d) = f (q d) (lease_world d)" "io_ok (io_return (Inr x)) g w = g x w"
  "io_return z w = (Inr z, w)" "io_bind (io_lift (Inr z)) f w = f z w" "io_bind (io_return z) f w = f z w" "io_lift r w = (r, w)"
  "io_ok (io_bind m h) g w = io_bind m (\<lambda>x. io_ok (h x) g) w"
  by (simp_all add: io_bind_def io_ok_def io_return_def io_lift_def split: sum.split prod.split)

text \<open>The states of the renewal: \<open>n\<close> is the time of the last proof, \<open>h\<close> and \<open>r\<close> the binding's hold and revision.\<close>

definition renewable :: "int \<Rightarrow> int \<Rightarrow> int \<Rightarrow> int \<Rightarrow> lease_db \<Rightarrow> bool" where
  "renewable n h r u d \<longleftrightarrow> ld_core d = ld_core lease_db0 \<and> ld_authority d = ld_authority lease_db0 \<and> ld_accounts d = ld_accounts lease_db0
     \<and> ld_now d = 1000 \<and> ld_devices d = [sample_device\<lparr>dv_last_proof_at := n\<rparr>]
     \<and> ld_bindings d = [sample_binding\<lparr>bi_hold_until := h, bi_revision := r, bi_updated_at := u\<rparr>]"

lemma renewable_subject:
  "renewable n h r u d \<Longrightarrow> read_subject Renew sample_binding_id d = Some (binding_subject 1000 sample_binding sample_device)"
  by (simp add: renewable_def read_subject_def find_binding_def find_device_def obind_def sample_binding_def sample_device_def binding_subject_def)

lemma renewal_shown:
  assumes d: "renewable n h r u d" and c: "c = first_challenge \<or> c = second_challenge" and ch: "find_challenge d c = Some (open_challenge c)"
  shows "prove_device (sample_platform i) (renewal c) (lease_world d) = (Inr (Inr (shown c)), lease_world d)"
proof -
  let ?s = "binding_subject 1000 sample_binding sample_device" and ?i = "sample_platform i" and ?r = "renewal c"
  have f: "is_purpose ?r = Renew" "is_binding_id ?r = sample_binding_id" "pf_challenge_id (is_proof ?r) = c" "is_operation_id ?r = sample_operation_id"
    "pf_signature (is_proof ?r) = encode_base64url sample_proof_signature" "pf_key_id (is_proof ?r) = sample_hash" "pf_expires_at (is_proof ?r) = 1190" "pf_nonce (is_proof ?r) = encode_base64url (replicate 32 2)"
    by (simp_all add: renewal_def)
  have p: "ip_audience ?i = ''app''" "ip_sha256 ?i = sample_sha" "ip_spki ?i = Some" "ip_ecdsa ?i = (\<lambda>key sig bytes. key = sample_key)"
    by (simp_all add: sample_platform_def)
  have o: "ch_expires_at (open_challenge c) = 1190" by (simp add: open_challenge_def)
  have s: "ps_key_id ?s = sample_hash" "ps_spki ?s = encode_base64url sample_key"
    by (simp_all add: binding_subject_def sample_device_def sample_spki_def)
  have answers: "challenge_answers ?r sample_binding_id ?s (bound_secret_hash ?i (pf_nonce (is_proof ?r))) (open_challenge c)"
    by (simp add: challenge_answers_def f open_challenge_def secret_hash binding_subject_def sample_device_def)
  obtain body digest where b: "device_operation_body Renew (semantic_body ?r) = Inr body"
    and g: "device_operation_digest_input Renew sample_hash (semantic_body ?r) = Inr digest" using renewal_texts by blast
  have intent: "stated_intent ?i ?r ?s (open_challenge c) body = sample_intent c"
    by (simp add: stated_intent_def sample_intent_def f p secret_hash open_challenge_def binding_subject_def sample_device_def)
  obtain bytes where "device_proof_signing_input (sample_intent c) = Inr bytes" using intent_input [OF c] by blast
  then have v: "verify_bound_device_proof Some sample_sha (\<lambda>key sig bytes. key = sample_key) (encode_base64url sample_key) (sample_intent c)
      (encode_base64url sample_proof_signature)" by (rule sample_proof_accepted [rotated]) (simp add: sample_intent_def)
  have "check_proof ?i ?r sample_binding_id ?s (open_challenge c) 1000 = Inr (Inr (shown c))"
    using v b g by (simp add: check_proof_def f p(2-4) intent secret_hash o s shown_def)
  then show ?thesis
    using answers ch d by (simp add: prove_device_def f(1,2,3) renewable_subject [OF d] io_alone Let_def renewable_def)
qed

section \<open>What the renewal depends on\<close>

definition sample_snapshot :: "int \<Rightarrow> int \<Rightarrow> int \<Rightarrow> int \<Rightarrow> snapshot" where
  "sample_snapshot n h r u = \<lparr>sn_grant = lease_grant, sn_key = (''demo'', ''pro'', sample_print), sn_authority = 0, sn_customer_revision = 0,
     sn_now = 1000, sn_device = Some (sample_device\<lparr>dv_last_proof_at := n\<rparr>),
     sn_binding = Some (sample_binding\<lparr>bi_hold_until := h, bi_revision := r, bi_updated_at := u\<rparr>), sn_stamp = 0, sn_trial_expires = None\<rparr>"

lemma renewal_authority:
  assumes d: "renewable n h r u d" and op: "operation = None \<or> (\<exists>q. operation = Some q \<and> op_binding_id q = sample_binding_id)"
  shows "read_authority (sample_platform i) (renewal c) (binding_subject 1000 sample_binding sample_device) operation (lease_world d)
    = (Inr (Inr (sample_snapshot n h r u)), lease_world d)"
proof -
  let ?s = "binding_subject 1000 sample_binding sample_device" and ?k = "(''demo'', ''pro'', sample_print)"
    and ?v = "sample_device\<lparr>dv_last_proof_at := n\<rparr>" and ?b = "sample_binding\<lparr>bi_hold_until := h, bi_revision := r, bi_updated_at := u\<rparr>"
  have f: "is_purpose (renewal c) = Renew" "is_binding_id (renewal c) = sample_binding_id" "is_generation (renewal c) = 1"
    by (simp_all add: renewal_def)
  have s: "ps_attempt ?s = None" "ps_key_id ?s = sample_hash" "ps_spki ?s = sample_spki" "ps_customer_id ?s = Some ''c1''" "ps_project ?s = ''demo''"
    "ps_feature ?s = Some ''pro''" "ps_fingerprint ?s = Some sample_print"
    by (simp_all add: binding_subject_def sample_device_def sample_binding_def)
  have existing: "existing_binding (renewal c) operation = Some sample_binding_id" using op by (auto simp: existing_binding_def f)
  have rows: "ld_devices d = [?v]" "ld_bindings d = [?b]" "ld_now d = 1000" "find_grant (ld_core d) ?k = Some lease_grant" "ld_authority d ?k = 0"
    "find_account d ''c1'' = Some \<lparr>ac_id = ''c1'', ac_active = True, ac_revision = 0\<rparr>"
    using d by (simp_all add: renewable_def find_grant_def find_account_def lease_db0_def lease_grant_def key_of_def)
  have v: "dv_id ?v = ''d1''" "dv_customer_id ?v = ''c1''" "dv_project ?v = ''demo''" "dv_key_id ?v = sample_hash" "dv_spki ?v = sample_spki" "dv_active ?v"
    by (simp_all add: sample_device_def)
  have b: "bi_id ?b = sample_binding_id" "bi_device_id ?b = ''d1''" "bi_key ?b = ?k" "bi_state ?b = Active" "bi_generation ?b = 1"
    by (simp_all add: sample_binding_def)
  have find: "find_binding d sample_binding_id = Some ?b" "find_device d ''d1'' = Some ?v" using b v by (simp_all add: find_binding_def find_device_def rows)
  have e: "read_entitlement ?s d = Some (lease_grant, ?k, 0, \<lparr>ac_id = ''c1'', ac_active = True, ac_revision = 0\<rparr>, 1000)"
    by (simp add: read_entitlement_def subject_key_def s rows obind_def) (simp add: lease_grant_def)
  have gone: "\<not> disconnected sample_binding_id d" using b v by (simp add: disconnected_def find obind_def)
  have live: "entitlement_live lease_grant \<lparr>ac_id = ''c1'', ac_active = True, ac_revision = 0\<rparr> 1000"
    by (simp add: entitlement_live_def lease_grant_def)
  have trial: "bound_trial_state lease_grant sample_hash 1000 False = Some (0, None)" by (simp add: bound_trial_state_def lease_grant_def)
  have conn: "read_connection (renewal c) ?s operation (lease_grant, ?k, 0, \<lparr>ac_id = ''c1'', ac_active = True, ac_revision = 0\<rparr>, 1000) (0, None)
      (lease_world d) = (Inr (Inr (sample_snapshot n h r u)), lease_world d)"
    using b v by (simp add: read_connection_def Let_def io_alone rows s existing device_refusal_def read_current_binding_def find binding_refusal_def f
        sample_snapshot_def)
  show ?thesis
    using op by (simp add: read_authority_def attempt_refusal_def s existing check_connected_def io_alone gone e live trial conn f)
qed

section \<open>The lease\<close>

definition sample_window :: lease_window where
  "sample_window = \<lparr>lw_issued_at = 1000, lw_renew_after = 1150, lw_expires_at = 1300, lw_accept_until = 1420\<rparr>"

lemma renewal_window: "issue_window lease_grant None 1000 = Inr sample_window"
  by (simp add: issue_window_def device_lease_window_def safe_int_def safe_timestamp_def issue_until_def or_else_def lease_grant_def
      max_safe_integer_def device_lease_seconds_def device_acceptance_allowance_def sample_window_def Let_def)

definition sample_candidate :: "string \<Rightarrow> string \<Rightarrow> int \<Rightarrow> int \<Rightarrow> int \<Rightarrow> int \<Rightarrow> lease_candidate" where
  "sample_candidate i c n h r u = candidate_of (sample_platform i) (renewal c) (shown c) (binding_subject 1000 sample_binding sample_device)
     (sample_snapshot n h r u)"

lemma renewal_claims: "claims_for (sample_platform i) (renewal c) (sample_candidate i c n h r u) (sample_snapshot n h r u) sample_window sample_signer
    = sample_claims"
  by (simp add: claims_for_def sample_candidate_def candidate_of_def sample_snapshot_def sample_window_def sample_claims_def sample_platform_def
      renewal_def sample_signer_def lease_grant_def sample_binding_def binding_subject_def sample_device_def sample_print_def
      sample_binding_id_def sample_operation_id_def)

definition sample_signed :: "string \<Rightarrow> signed_candidate" where
  "sample_signed token = signed_candidate_of (sample_platform ''i1'') (sample_candidate ''i1'' first_challenge 900 0 0 900) token sample_window"

definition counted_db :: lease_db where
  "counted_db = lease_db0\<lparr>ld_counters := [((''device-v2-device'', sample_hash, 960), 1), ((''device-v2-customer'', secret_text, 960), 1)]\<rparr>"

lemma renewal_counted:
  "limit_bound_verified (bound_secret_hash (sample_platform i)) sample_hash ''c1'' 240 [] (lease_world lease_db0) = (Inr (Inr ()), lease_world counted_db)"
proof -
  have "run_statements (paced [] (verified_sql sample_hash secret_text)) lease_db0
      = Inr ([[CountOut 1 960], [CountOut 1 960]], counted_db)"
    by (simp add: verified_sql_def bump_def rate_window_def counted_def counted_db_def lease_db0_def Let_def)
  then show ?thesis
    by (simp add: limit_bound_verified_def secret_hash io_bind_def verified_decision_def count_in_def)
qed

definition renewed_db :: "string \<Rightarrow> lease_db" where
  "renewed_db token = counted_db\<lparr>
     ld_devices := [sample_device\<lparr>dv_last_proof_at := 1000\<rparr>],
     ld_bindings := [sample_binding\<lparr>bi_hold_until := 1420, bi_revision := 1, bi_updated_at := 1000\<rparr>],
     ld_challenges := [(open_challenge first_challenge)\<lparr>ch_consumed := Some ''i1''\<rparr>, open_challenge second_challenge],
     ld_operations := [committed_operation (sample_signed token) 1000], ld_leases := [lease_of (sample_signed token)],
     ld_events := [lease_event_of (sample_signed token) 1000]\<rparr>"

lemma signed_fields:
  "cd_key_id (sample_signed t) = sample_hash" "cd_purpose (sample_signed t) = Renew" "cd_operation_id (sample_signed t) = sample_operation_id"
  "cd_digest (sample_signed t) = secret_text" "cd_customer_id (sample_signed t) = ''c1''" "cd_customer_revision (sample_signed t) = 0"
  "cd_key (sample_signed t) = (''demo'', ''pro'', sample_print)" "cd_entitlement_revision (sample_signed t) = 0"
  "cd_trial_stamp (sample_signed t) = 0" "cd_device_id (sample_signed t) = ''d1''" "cd_device_revision (sample_signed t) = 0"
  "cd_spki (sample_signed t) = sample_spki" "cd_binding_id (sample_signed t) = sample_binding_id" "cd_binding_revision (sample_signed t) = 0"
  "cd_generation (sample_signed t) = 1" "cd_challenge_id (sample_signed t) = first_challenge" "cd_challenge_expires_at (sample_signed t) = 1190"
  "cd_nonce_hash (sample_signed t) = secret_text" "cd_subject_id (sample_signed t) = sample_binding_id"
  "cd_issued_at (sample_signed t) = 1000" "cd_expires_at (sample_signed t) = 1300" "cd_accept_until (sample_signed t) = 1420"
  "cd_token (sample_signed t) = t" "cd_invocation_id (sample_signed t) = ''i1''" "valid_answer (sample_signed t)"
  by (simp_all add: sample_signed_def signed_candidate_of_def sample_candidate_def candidate_of_def sample_snapshot_def sample_window_def
      sample_platform_def renewal_def lease_candidate.defs binding_subject_def sample_device_def sample_binding_def lease_grant_def shown_def
      open_challenge_def valid_answer_def lease_response_def)

lemma rows_of_counted:
  "ld_devices counted_db = [sample_device]" "ld_bindings counted_db = [sample_binding]" "ld_attempts counted_db = []"
  "ld_challenges counted_db = [open_challenge first_challenge, open_challenge second_challenge]" "ld_operations counted_db = []"
  "ld_leases counted_db = []" "ld_events counted_db = []" "ld_checks counted_db = []" "ld_now counted_db = 1000" "ld_authority counted_db = (\<lambda>_. 0)"
  "ld_core counted_db = ld_core lease_db0" "ld_accounts counted_db = [\<lparr>ac_id = ''c1'', ac_active = True, ac_revision = 0\<rparr>]"
  "find_grant (ld_core lease_db0) (''demo'', ''pro'', sample_print) = Some lease_grant"
  by (simp_all add: counted_db_def lease_db0_def find_grant_def lease_grant_def key_of_def)

lemma sample_rows:
  "dv_id sample_device = ''d1''" "dv_key_id sample_device = sample_hash" "dv_spki sample_device = sample_spki"
  "dv_customer_id sample_device = ''c1''" "dv_project sample_device = ''demo''" "dv_active sample_device" "dv_revision sample_device = 0"
  "bi_id sample_binding = sample_binding_id" "bi_key sample_binding = (''demo'', ''pro'', sample_print)" "bi_device_id sample_binding = ''d1''"
  "bi_state sample_binding = Active" "bi_generation sample_binding = 1" "bi_revision sample_binding = 0" "bi_hold_until sample_binding = 0"
  "ch_id (open_challenge c) = c" "ch_key_id (open_challenge c) = sample_hash" "ch_purpose (open_challenge c) = Renew"
  "ch_operation_id (open_challenge c) = sample_operation_id" "ch_subject_id (open_challenge c) = sample_binding_id"
  "ch_nonce_hash (open_challenge c) = secret_text" "ch_expires_at (open_challenge c) = 1190" "ch_consumed (open_challenge c) = None"
  by (simp_all add: sample_device_def sample_binding_def open_challenge_def)

lemma grant_fields:
  "g_customer_id lease_grant = ''c1''" "g_status lease_grant = ''active''" "g_is_trial lease_grant = 0" "g_valid_from lease_grant = None"
  "g_valid_until lease_grant = Some 1300" "g_lease_seconds lease_grant = 86400" "g_trial_started_at lease_grant = None"
  by (simp_all add: lease_grant_def)

lemma renewal_admitted: "lease_admitted (sample_signed t) counted_db"
  by (simp add: lease_admitted_def rows_of_counted signed_fields owned_def trial_open_def grant_fields owner_current_def find_account_def
      lease_bounds_def challenge_matches_def sample_rows active_device_def active_binding_def)

lemma renewal_commits:
  "\<exists>rs. run_statements (paced [] (bound_lease_commit_sql (sample_signed t))) counted_db = Inr (rs, renewed_db t)
     \<and> answer_in rs = Some (LeaseAnswer (cd_response (sample_signed t)))"
proof -
  let ?p = "sample_signed t"
  define o' where "o' = operation_of ?p 1000"
  have o: "op_invocation_id o' = ''i1''" "\<not> op_complete o'" "op_committed_at o' = 1000" by (simp_all add: o'_def operation_of_def signed_fields)
  define d1 where "d1 = counted_db\<lparr>ld_operations := [o']\<rparr>"
  have 1: "lease_guard ?p counted_db = Inr ([], d1)"
    by (simp add: lease_guard_def renewal_admitted insert_operation_def rows_of_counted d1_def o'_def)
  have p: "prepared ?p d = Some o'" if "ld_operations d = [o']" for d
    using that by (simp add: prepared_def o'_def operation_of_def)
  have idle: "stamp_trial ?p d1 = Inr ([], d1)" "create_device ?p d1 = Inr ([], d1)" "create_binding ?p d1 = Inr ([], d1)"
    by (simp_all add: stamp_trial_def create_device_def create_binding_def for_prepared_def p d1_def signed_fields)
  define d2 where "d2 = d1\<lparr>ld_challenges := [(open_challenge first_challenge)\<lparr>ch_consumed := Some ''i1''\<rparr>, open_challenge second_challenge]\<rparr>"
  have 2: "consume_challenge ?p d1 = Inr ([], d2)"
    by (simp add: consume_challenge_def for_prepared_def p d1_def d2_def rows_of_counted challenge_matches_def signed_fields sample_rows challenges_differ)
  have 3: "consume_approval ?p d2 = Inr ([], d2)" by (simp add: consume_approval_def for_prepared_def p d1_def d2_def signed_fields)
  define d3 where "d3 = d2\<lparr>ld_bindings := [sample_binding\<lparr>bi_hold_until := 1420, bi_revision := 1, bi_updated_at := 1000\<rparr>],
     ld_devices := [sample_device\<lparr>dv_last_proof_at := 1000\<rparr>]\<rparr>"
  have 4: "update_binding ?p d2 = Inr ([], d2\<lparr>ld_bindings := [sample_binding\<lparr>bi_hold_until := 1420, bi_revision := 1, bi_updated_at := 1000\<rparr>]\<rparr>)"
    by (simp add: update_binding_def for_prepared_def p d1_def d2_def rows_of_counted active_binding_def signed_fields sample_rows held_binding_def
        max_safe_integer_def o)
  have 5: "update_device ?p (d2\<lparr>ld_bindings := [sample_binding\<lparr>bi_hold_until := 1420, bi_revision := 1, bi_updated_at := 1000\<rparr>]\<rparr>) = Inr ([], d3)"
    by (simp add: update_device_def for_prepared_def p d1_def d2_def d3_def rows_of_counted active_device_def signed_fields sample_rows o)
  define d4 where "d4 = d3\<lparr>ld_leases := [lease_of ?p], ld_events := [lease_event_of ?p 1000]\<rparr>"
  have l: "le_binding_id (lease_of ?p) = sample_binding_id" "le_generation (lease_of ?p) = 1" "le_issued_at (lease_of ?p) = 1000"
    "le_expires_at (lease_of ?p) = 1300" "le_accept_until (lease_of ?p) = 1420" by (simp_all add: lease_of_def signed_fields)
  have b: "find_binding d3 sample_binding_id \<noteq> None" by (simp add: find_binding_def d3_def sample_rows)
  have 6: "issue_lease ?p d3 = Inr ([], d3\<lparr>ld_leases := [lease_of ?p]\<rparr>)"
    using b by (simp add: issue_lease_def for_prepared_def p d1_def d2_def d3_def insert_lease_def l rows_of_counted max_safe_integer_def)
  have e: "be_binding_id (lease_event_of ?p 1000) = sample_binding_id" "be_customer_id (lease_event_of ?p 1000) = ''c1''"
    by (simp_all add: lease_event_of_def signed_fields)
  have 7: "audit_lease ?p (d3\<lparr>ld_leases := [lease_of ?p]\<rparr>) = Inr ([], d4)"
    by (simp add: audit_lease_def for_prepared_def p d1_def d2_def d3_def d4_def insert_bound_event_def e find_binding_def sample_rows
        find_account_def rows_of_counted o)
  have ch: "chain_complete ?p o' d4"
    by (simp add: chain_complete_def d4_def d3_def d2_def d1_def rows_of_counted signed_fields owned_def trial_open_def grant_fields owner_current_def
        find_account_def active_device_def sample_rows o binding_advanced_def lease_matches_def lease_of_def lease_event_of_def challenge_spent_def)
  have r: "renewed_db t = d4\<lparr>ld_operations := [o'\<lparr>op_complete := True\<rparr>]\<rparr>"
    by (simp add: renewed_db_def d4_def d3_def d2_def d1_def committed_operation_def o'_def)
  have 8: "finalize_lease ?p d4 = Inr ([], renewed_db t)"
    using ch by (simp add: finalize_lease_def r signed_fields o) (simp add: d4_def d3_def d2_def d1_def o)
  have c: "operation_complete ?p (o'\<lparr>op_complete := True\<rparr>)" by (simp add: operation_complete_def o'_def operation_of_def)
  have 9: "assert_complete ?p (renewed_db t) = Inr ([], (renewed_db t)\<lparr>ld_checks := [''i1'']\<rparr>)"
    using c by (simp add: assert_complete_def r insert_check_def signed_fields) (simp add: d4_def d3_def d2_def d1_def rows_of_counted)
  have 10: "remove_check (cd_invocation_id ?p) ((renewed_db t)\<lparr>ld_checks := [''i1'']\<rparr>) = Inr ([], renewed_db t)"
    by (simp add: remove_check_def signed_fields r) (simp add: d4_def d3_def d2_def d1_def rows_of_counted)
  have 11: "lease_result ?p (renewed_db t) = Inr ([AnswerOut (LeaseAnswer (cd_response ?p))], renewed_db t)"
    by (simp add: lease_result_def r signed_fields o) (simp add: o'_def operation_of_def)
  show ?thesis
    by (simp only: bound_lease_commit_sql_def paced.simps run_statements.simps 1 idle 2 3 4 5 6 7 8 9 10 11 rbind_simps prod.case)
      (simp add: answer_in_def batch_returned_row_def)
qed

section \<open>Sent twice\<close>

lemma db0_renewable: "renewable 900 0 0 900 lease_db0" "renewable 1000 1420 1 1000 (renewed_db t)"
  by (simp_all add: renewable_def renewed_db_def rows_of_counted) (simp_all add: counted_db_def lease_db0_def sample_device_def sample_binding_def)

lemma issue_renewal:
  assumes d: "renewable n h r u d" and c: "c = first_challenge \<or> c = second_challenge" and ch: "find_challenge d c = Some (open_challenge c)"
    and op: "find_operation d sample_hash Renew sample_operation_id = operation"
      "operation = None \<or> (\<exists>q. operation = Some q \<and> op_binding_id q = sample_binding_id \<and> op_digest q = secret_text \<and> op_complete q
         \<and> op_response q \<noteq> Erased \<and> 1000 < op_retain_until q)"
  shows "issue_bound_lease (sample_platform i) (renewal c) (lease_world d)
    = issue_snapshot (sample_platform i) (renewal c) (sample_candidate i c n h r u) (sample_snapshot n h r u) operation (lease_world d)"
proof -
  have f: "is_purpose (renewal c) = Renew" "is_operation_id (renewal c) = sample_operation_id" by (simp_all add: renewal_def)
  have s: "ps_key_id (binding_subject 1000 sample_binding sample_device) = sample_hash" "pv_subject (shown c) = binding_subject 1000 sample_binding sample_device"
    "pv_digest (shown c) = secret_text" by (simp_all add: shown_def binding_subject_def sample_rows)
  have now: "ld_now d = 1000" using d by (simp add: renewable_def)
  have auth: "read_authority (sample_platform i) (renewal c) (binding_subject 1000 sample_binding sample_device) operation (lease_world d)
      = (Inr (Inr (sample_snapshot n h r u)), lease_world d)" using op by (intro renewal_authority [OF d]) auto
  have ref: "operation_refusal (shown c) (map_option (\<lambda>q. (q, 1000)) operation) = None"
    using op(2) by (auto simp: operation_refusal_def s)
  have shown: "io_ok (prove_device (sample_platform i) (renewal c)) g (lease_world d) = g (shown c) (lease_world d)" for g :: "proven \<Rightarrow> (refused + op_response) lease_io"
    by (simp add: io_ok_def io_bind_def renewal_shown [OF d c ch])
  have read: "io_bind (read_authority (sample_platform i) (renewal c) (binding_subject 1000 sample_binding sample_device) operation) g (lease_world d)
      = g (Inr (sample_snapshot n h r u)) (lease_world d)" for g :: "_ \<Rightarrow> (refused + op_response) lease_io"
    by (simp add: io_bind_def auth)
  have "issue_proven (sample_platform i) (renewal c) (shown c) operation (lease_world d)
    = issue_snapshot (sample_platform i) (renewal c) (sample_candidate i c n h r u) (sample_snapshot n h r u) operation (lease_world d)"
    by (simp add: issue_proven_def current_subject_def f s io_alone read sample_candidate_def)
  then show ?thesis
    by (simp add: issue_bound_lease_def renewal_valid [OF c] shown io_alone f s(1,2) op(1) now ref option.map_comp o_def option.map_ident)
qed

lemma first_renewal:
  "\<exists>t. issue_bound_lease (sample_platform ''i1'') (renewal first_challenge) (lease_world lease_db0)
    = (Inr (Inr (LeaseAnswer (cd_response (sample_signed t)))), lease_world (renewed_db t))"
proof -
  have ch: "find_challenge lease_db0 first_challenge = Some (open_challenge first_challenge)"
    by (simp add: find_challenge_def lease_db0_def sample_rows)
  have op: "find_operation lease_db0 sample_hash Renew sample_operation_id = None" by (simp add: find_operation_def lease_db0_def)
  obtain t where sign: "sign_bound_device_lease latin_reader sample_claims sample_signer = Inr t" using sample_signs by blast
  obtain rs where run: "run_statements (paced [] (bound_lease_commit_sql (sample_signed t))) counted_db = Inr (rs, renewed_db t)"
    and ans: "answer_in rs = Some (LeaseAnswer (cd_response (sample_signed t)))" using renewal_commits by blast
  let ?i = "sample_platform ''i1''" and ?c = "sample_candidate ''i1'' first_challenge 900 0 0 900" and ?sn = "sample_snapshot 900 0 0 900"
  have cand: "cd_key_id ?c = sample_hash" "cd_customer_id ?c = ''c1''"
    by (simp_all add: sample_candidate_def candidate_of_def binding_subject_def sample_rows sample_snapshot_def grant_fields)
  have sn: "max 240 (2 * g_max_active_devices (sn_grant ?sn)) = 240" "issue_window (sn_grant ?sn) (sn_trial_expires ?sn) (sn_now ?sn) = Inr sample_window"
    using renewal_window by (simp_all add: sample_snapshot_def lease_grant_def)
  have i: "ip_signer ?i = Inr sample_signer" "ip_read_utf8 ?i = latin_reader" "ip_commit_paces ?i = []" "ip_rate_paces ?i = []"
    by (simp_all add: sample_platform_def)
  have commit: "commit_bound_device_lease [] (sample_signed t) (lease_world counted_db) = (Inr (cd_response (sample_signed t)), lease_world (renewed_db t))"
    by (simp add: commit_bound_device_lease_def signed_fields io_bind_def alone(2) [OF run] ans del: paced.simps)
  have "sign_and_commit ?i (renewal first_challenge) ?c ?sn sample_window (lease_world counted_db)
      = (Inr (Inr (LeaseAnswer (cd_response (sample_signed t)))), lease_world (renewed_db t))"
    by (simp add: sign_and_commit_def i io_alone renewal_claims sign sample_signed_def [symmetric] io_bind_def commit)
  then have "issue_snapshot ?i (renewal first_challenge) ?c ?sn None (lease_world lease_db0)
      = (Inr (Inr (LeaseAnswer (cd_response (sample_signed t)))), lease_world (renewed_db t))"
    by (simp add: issue_snapshot_def cand sn i io_ok_def io_bind_def renewal_counted)
  then show ?thesis
    unfolding issue_renewal [OF db0_renewable(1) _ ch op, of "''i1''", simplified] by blast
qed

lemma second_renewal:
  "\<exists>w. issue_bound_lease (sample_platform ''i2'') (renewal second_challenge) (lease_world (renewed_db t))
    = (Inr (Inr (LeaseAnswer (cd_response (sample_signed t)))), w)"
proof -
  let ?d = "renewed_db t" and ?q = "committed_operation (sample_signed t) 1000" and ?c = "sample_candidate ''i2'' second_challenge 1000 1420 1 1000"
  have ch: "find_challenge ?d second_challenge = Some (open_challenge second_challenge)"
    by (simp add: find_challenge_def renewed_db_def sample_rows challenges_differ)
  have q: "op_key_id ?q = sample_hash" "op_purpose ?q = Renew" "op_operation_id ?q = sample_operation_id" "op_binding_id ?q = sample_binding_id"
    "op_digest ?q = secret_text" "op_complete ?q" "op_response ?q = LeaseAnswer (cd_response (sample_signed t))" "op_retain_until ?q = 173800"
    "op_customer_id ?q = ''c1''"
    by (simp_all add: committed_operation_def operation_of_def signed_fields)
  have op: "find_operation ?d sample_hash Renew sample_operation_id = Some ?q"
    by (simp add: find_operation_def q renewed_db_def)
  have cand: "cd_key_id ?c = sample_hash" "cd_purpose ?c = Renew" "cd_operation_id ?c = sample_operation_id" "cd_digest ?c = secret_text"
    "cd_customer_id ?c = ''c1''" "cd_customer_revision ?c = 0" "cd_key ?c = (''demo'', ''pro'', sample_print)" "cd_entitlement_revision ?c = 0"
    "cd_device_id ?c = ''d1''" "cd_device_revision ?c = 0" "cd_spki ?c = sample_spki" "cd_binding_id ?c = sample_binding_id" "cd_generation ?c = 1"
    "cd_challenge_id ?c = second_challenge" "cd_challenge_expires_at ?c = 1190" "cd_nonce_hash ?c = secret_text" "cd_subject_id ?c = sample_binding_id"
    by (simp_all add: sample_candidate_def candidate_of_def sample_snapshot_def renewal_def binding_subject_def sample_rows grant_fields shown_def)
  have rows: "ld_challenges ?d = [(open_challenge first_challenge)\<lparr>ch_consumed := Some ''i1''\<rparr>, open_challenge second_challenge]"
    "ld_operations ?d = [?q]" "ld_devices ?d = [sample_device\<lparr>dv_last_proof_at := 1000\<rparr>]" "ld_checks ?d = []" "ld_now ?d = 1000"
    "ld_bindings ?d = [sample_binding\<lparr>bi_hold_until := 1420, bi_revision := 1, bi_updated_at := 1000\<rparr>]" "ld_authority ?d = (\<lambda>_. 0)"
    "ld_core ?d = ld_core lease_db0" "ld_accounts ?d = [\<lparr>ac_id = ''c1'', ac_active = True, ac_revision = 0\<rparr>]"
    by (simp_all add: renewed_db_def rows_of_counted)
  define e where "e = ?d\<lparr>ld_challenges := [(open_challenge first_challenge)\<lparr>ch_consumed := Some ''i1''\<rparr>,
     (open_challenge second_challenge)\<lparr>ch_consumed := Some ''i2''\<rparr>]\<rparr>"
  have auth: "recovery_authority ?c d" if "d = ?d \<or> d = e" for d
    using that by (auto simp: recovery_authority_def e_def cand rows rows_of_counted owned_def trial_open_def grant_fields owner_current_def
        find_account_def active_device_def sample_rows recoverable_operation_def q)
  have 1: "recovery_consume ?c ''i2'' ?d = Inr ([], e)"
    by (simp add: recovery_consume_def auth rows live_challenge_def cand sample_rows challenges_differ) (simp add: e_def)
  have 2: "recovery_assert ?c ''i2'' e = Inr ([], e\<lparr>ld_checks := [''i2'']\<rparr>)"
    by (simp add: recovery_assert_def insert_check_def recovery_holds_def auth)
      (simp add: e_def live_challenge_def cand sample_rows rows challenges_differ)
  have 3: "remove_check ''i2'' (e\<lparr>ld_checks := [''i2'']\<rparr>) = Inr ([], e)" by (simp add: remove_check_def e_def rows)
  have 4: "recovery_read ?c ''i2'' e = Inr ([AnswerOut (LeaseAnswer (cd_response (sample_signed t)))], e)"
    by (simp add: recovery_read_def recovery_row_def e_def rows q cand sample_rows)
  have run: "run_statements (paced [] (bound_recovery_sql ?c ''i2'')) ?d
      = Inr ([[], [], [], [AnswerOut (LeaseAnswer (cd_response (sample_signed t)))]], e)"
    by (simp add: bound_recovery_sql_def 1 2 3 4 rbind_simps)
  have "recover_bound_device_lease [] ?c ''i2'' (lease_world ?d) = (Inr (LeaseAnswer (cd_response (sample_signed t))), lease_world e)"
    by (simp add: recover_bound_device_lease_def io_bind_def alone(2) [OF run] answer_in_def batch_returned_row_def del: paced.simps)
  then have "issue_snapshot (sample_platform ''i2'') (renewal second_challenge) ?c (sample_snapshot 1000 1420 1 1000) (Some ?q) (lease_world ?d)
      = (Inr (Inr (LeaseAnswer (cd_response (sample_signed t)))), lease_world e)"
    by (simp add: issue_snapshot_def io_bind_def io_alone sample_platform_def [THEN arg_cong, of ip_recovery_paces]
        sample_platform_def [THEN arg_cong, of ip_invocation_id])
  then show ?thesis using issue_renewal [OF db0_renewable(2) _ ch op, of "''i2''"] q by simp
qed

end
