(* ===== verification/Lease_Safety.thy ===== *)
theory Lease_Safety
  imports Lease_Sample
begin

text \<open>
  The requests of the device protocol together: what holds after any number of them, whatever else commits in
  between and whichever of their calls are lost.
\<close>

section \<open>Requests\<close>

datatype lease_request =
    Authorize "string \<Rightarrow> string" "string \<Rightarrow> bool" "string \<Rightarrow> string \<times> string" "byte list \<Rightarrow> byte list option" "byte list \<Rightarrow> byte list"
      bool string "bound_client list" authorize_request
  | Challenge "string \<Rightarrow> string" string string lease_purpose string string
  | Admit "bool option" bool string int "nat list"
  | Issue issue_platform issue_request
  | RetireOwn "string \<Rightarrow> string" string "nat list" string jsval
  | RetireAny "string \<Rightarrow> string" string "nat list" jsval string jsval
  | Cleanup

definition settle :: "'a lease_io \<Rightarrow> unit lease_io" where
  "settle m = io_try m (\<lambda>_. io_return ()) (\<lambda>_. io_return ())"

fun serve :: "lease_request \<Rightarrow> unit lease_io" where
  "serve (Authorize h url canonical spki sha ok handle clients r) = settle (create_bound_authorization h url canonical spki sha ok handle clients r)"
| "serve (Challenge h i nonce purpose secret operation) = settle (create_bound_challenge h i nonce purpose secret operation)"
| "serve (Admit edge registration client fuse paces) = settle (limit_bound_request edge registration client fuse paces)"
| "serve (Issue i r) = settle (issue_bound_lease i r)"
| "serve (RetireOwn h i paces customer q) = settle (retire_bound_binding h i paces customer q)"
| "serve (RetireAny h i paces actor customer q) = settle (retire_bound_binding_as_operator h i paces actor customer q)"
| "serve Cleanup = settle run_bound_device_cleanup"

fun serve_all :: "lease_request list \<Rightarrow> unit lease_io" where
  "serve_all [] = io_return ()"
| "serve_all (q # qs) = io_bind (serve q) (\<lambda>_. serve_all qs)"

lemma keeps_settle: "keeps lease_progress m \<Longrightarrow> keeps lease_progress (settle m)"
  unfolding settle_def by (intro leases.keeps_try lease_keeps)

lemma keeps_serve: "keeps lease_progress (serve q)"
proof (cases q)
  case (RetireAny h i paces actor customer r)
  have "keeps lease_progress (retire_bound_binding_as_operator h i paces actor customer r)"
    unfolding retire_bound_binding_as_operator_def by (auto split: option.split intro: keeps_retire keeps_deny)
  with RetireAny show ?thesis by (simp add: keeps_settle)
qed (simp_all add: keeps_settle keeps_create_authorization keeps_create_challenge keeps_limit_request keeps_issue keeps_retire keeps_cleanup
  retire_bound_binding_def)

lemma keeps_serve_all: "keeps lease_progress (serve_all qs)"
proof (induction qs)
  case Nil
  then show ?case by (simp only: serve_all.simps lease_keeps)
next
  case (Cons q qs)
  then show ?case unfolding serve_all.simps by (intro leases.keeps_bind keeps_serve)
qed

section \<open>Places\<close>

text \<open>C2. Whatever device requests are served, whatever commits in between and whichever calls are lost, the devices that hold
  a lease of a grant a client would still accept are never more than the grant allows.\<close>

theorem devices_within_limit:
  assumes "honest_world lease_progress w" and "leases_ok (w_db w)" and "serve_all qs w = (r, w')"
    and "find_grant (ld_core (w_db w')) k = Some g"
  shows "leases_ok (w_db w') \<and> finite (live_devices (w_db w') k) \<and> int (card (live_devices (w_db w') k)) \<le> g_max_active_devices g"
proof -
  have "leases_ok (w_db w')" using leases.keepsD [OF keeps_serve_all assms(1,3)] assms(2) by (simp add: lease_progress_def)
  with live_devices_limit [OF this assms(4)] show ?thesis by simp
qed

definition sample_served :: "lease_db world" where
  "sample_served = snd (serve_all [Issue (sample_platform ''i1'') (renewal first_challenge)] (lease_world lease_db0))"

lemma sample_served_db: "\<exists>t. sample_served = lease_world (renewed_db t)"
  using first_renewal by (auto simp: sample_served_def settle_def io_try_def io_bind_def io_return_def)

lemma renewed_grant: "find_grant (ld_core (renewed_db t)) (''demo'', ''pro'', sample_print) = Some lease_grant"
  by (simp add: renewed_db_def rows_of_counted)

text \<open>The device that renewed is one, and one is what the grant allows.\<close>

theorem devices_within_limit_witness:
  "live_devices (w_db sample_served) (''demo'', ''pro'', sample_print) = {''d1''}
     \<and> int (card (live_devices (w_db sample_served) (''demo'', ''pro'', sample_print))) \<le> 1 \<and> leases_ok (w_db sample_served)"
proof -
  obtain t where t: "sample_served = lease_world (renewed_db t)" using sample_served_db by blast
  obtain r where run: "serve_all [Issue (sample_platform ''i1'') (renewal first_challenge)] (lease_world lease_db0) = (r, sample_served)"
    unfolding sample_served_def by (metis prod.collapse)
  have "live_devices (renewed_db t) (''demo'', ''pro'', sample_print) = {''d1''}"
    by (auto simp: live_devices_def renewed_db_def find_binding_def lease_of_def signed_fields sample_rows rows_of_counted)
  then have live: "live_devices (w_db sample_served) (''demo'', ''pro'', sample_print) = {''d1''}" by (simp add: t)
  have "find_grant (ld_core (w_db sample_served)) (''demo'', ''pro'', sample_print) = Some lease_grant" by (simp add: t renewed_grant)
  from devices_within_limit [OF alone(5) _ run this] live show ?thesis
    by (simp add: db0_ok lease_grant_def [THEN arg_cong, of g_max_active_devices])
qed

section \<open>Answers\<close>

text \<open>C4. An operation on a lease is answered once: however often a client asks, with whatever challenges, whatever happens in
  between, every answer it gets for one operation of one device key is the same lease.\<close>

theorem lease_answered_once:
  assumes "honest_world lease_progress w" and "leases_ok (w_db w)" and "issue_bound_lease i r w = (Inr (Inr a), w')"
    and "honest_world lease_progress v" and "lease_progress (w_db w') (w_db v)" and "issue_bound_lease j s v = (Inr (Inr b), v')"
    and "is_purpose s = is_purpose r" and "is_operation_id s = is_operation_id r" and "pf_key_id (is_proof s) = pf_key_id (is_proof r)"
  shows "b = a"
  using issue_twice [OF assms(1-6)] assms(7-9) by (simp add: issue_key_def)

theorem lease_answered_once_witness:
  "\<exists>a w' v'. issue_bound_lease (sample_platform ''i1'') (renewal first_challenge) (lease_world lease_db0) = (Inr (Inr (LeaseAnswer a)), w')
     \<and> issue_bound_lease (sample_platform ''i2'') (renewal second_challenge) w' = (Inr (Inr (LeaseAnswer a)), v')"
proof -
  obtain t where 1: "issue_bound_lease (sample_platform ''i1'') (renewal first_challenge) (lease_world lease_db0)
      = (Inr (Inr (LeaseAnswer (cd_response (sample_signed t)))), lease_world (renewed_db t))" using first_renewal by blast
  obtain b v' where 2: "issue_bound_lease (sample_platform ''i2'') (renewal second_challenge) (lease_world (renewed_db t)) = (Inr (Inr b), v')"
    using second_renewal [of t] by blast
  have "b = LeaseAnswer (cd_response (sample_signed t))"
    by (rule lease_answered_once [OF alone(5) _ 1 alone(5) _ 2]) (simp_all add: db0_ok leases.refl renewal_def)
  with 1 2 show ?thesis by blast
qed

section \<open>Retirement\<close>

text \<open>C16. A retirement that was answered stands: from then on the binding is never active again, no lease of it is accepted
  after the release time the answer names, and from that time the binding holds no place.\<close>

theorem answered_retirement_stands:
  assumes "honest_world lease_progress w" and "leases_ok (w_db w)" and "read_retire_request q = Some (i, expected, operation)"
    and "retire_with_actor h invocation ns c q actor w = (Inr (Inr r), w')" and "lease_progress (w_db w') d"
  shows "\<exists>b. find_binding d i = Some b \<and> bi_state b \<noteq> Active
    \<and> (\<forall>l\<in>set (ld_leases d). le_binding_id l = i \<longrightarrow> le_accept_until l \<le> ra_effective_release_at r)
    \<and> \<not> occupies (ra_effective_release_at r) b"
proof -
  let ?p = "\<lparr>rt_customer_id = c, rt_binding_id = i, rt_operation_id = operation, rt_expected = expected, rt_actor = actor,
     rt_digest = h (retire_intent c i expected actor)\<rparr>"
  from assms(3,4) have "retire_owned invocation ns ?p w = (Inr (Inr r), w')"
    by (auto simp: retire_with_actor_def deny_def io_return_def io_throw_def split: if_splits)
  from leases.establishesD [OF establishes_retire_owned assms(1,2) this] have "retirement_stands i r (w_db w')"
    by (simp add: retire_promise_def)
  from retired_by_later [OF this assms(5)] obtain b where b: "find_binding d i = Some b" "bi_state b \<noteq> Active"
      "bi_hold_until b \<le> ra_effective_release_at r" and ok: "leases_ok d"
    by (auto simp: retirement_stands_def retired_by_def)
  have "le_accept_until l \<le> ra_effective_release_at r" if "l \<in> set (ld_leases d)" "le_binding_id l = i" for l
    using ok that b by (fastforce simp: leases_ok_def lease_held_def)
  with b show ?thesis by (auto simp: occupies_def)
qed

definition sample_retirement :: jsval where
  "sample_retirement = Object [(''binding_id'', String sample_binding_id), (''expected_revision'', Number (Whole 1)),
     (''operation_id'', String (encode_base64url (replicate 32 6)))]"

definition plain_hash :: "string \<Rightarrow> string" where
  "plain_hash s = ''h''"

definition sample_retire :: retire_candidate where
  "sample_retire = \<lparr>rt_customer_id = ''c1'', rt_binding_id = sample_binding_id, rt_operation_id = encode_base64url (replicate 32 6),
     rt_expected = 1, rt_actor = ''customer'', rt_digest = ''h'', rt_invocation_id = ''i3'', rt_generation = 1, rt_customer_revision = 0,
     rt_device_revision = 0, rt_entitlement_revision = 0\<rparr>"

lemma sample_retirement_read: "read_retire_request sample_retirement = Some (sample_binding_id, 1, encode_base64url (replicate 32 6))"
  by (simp add: read_retire_request_def exact_keys_def sample_retirement_def keys_of_def field_def max_safe_integer_def sample_binding_id_def sized)

lemma retirement_effect:
  "\<exists>rs d'. run_statements (paced [] (bound_retire_sql sample_retire)) (renewed_db t) = Inr (rs, d')
     \<and> retire_answer_in rs = Some \<lparr>ra_binding_id = sample_binding_id, ra_effective_release_at = 1420, ra_revision = 2, ra_generation = 2\<rparr>"
proof -
  let ?p = sample_retire and ?b = "sample_binding\<lparr>bi_hold_until := 1420, bi_revision := 1, bi_updated_at := 1000\<rparr>"
    and ?v = "sample_device\<lparr>dv_last_proof_at := 1000\<rparr>" and ?a = "\<lparr>ac_id = ''c1'', ac_active = True, ac_revision = 0\<rparr>"
    and ?q = "committed_operation (sample_signed t) 1000" and ?d = "renewed_db t"
  have p: "rt_customer_id ?p = ''c1''" "rt_binding_id ?p = sample_binding_id" "rt_operation_id ?p = encode_base64url (replicate 32 6)"
    "rt_expected ?p = 1" "rt_actor ?p = ''customer''" "rt_digest ?p = ''h''" "rt_invocation_id ?p = ''i3''" "rt_generation ?p = 1"
    "rt_customer_revision ?p = 0" "rt_device_revision ?p = 0" "rt_entitlement_revision ?p = 0" by (simp_all add: sample_retire_def)
  have q: "op_purpose ?q = Renew" "op_invocation_id ?q = ''i1''" "op_complete ?q" by (simp_all add: committed_operation_def operation_of_def signed_fields)
  have rows: "ld_operations ?d = [?q]" "ld_devices ?d = [?v]" "ld_checks ?d = []" "ld_now ?d = 1000" "ld_bindings ?d = [?b]"
    "ld_authority ?d = (\<lambda>_. 0)" "ld_accounts ?d = [?a]" "length (ld_events ?d) = 1" "be_invocation_id (hd (ld_events ?d)) = ''i1''"
    by (simp_all add: renewed_db_def rows_of_counted lease_event_of_def signed_fields)
  obtain e where e: "ld_events ?d = [e]" "be_invocation_id e = ''i1''" using rows(8,9) by (cases "ld_events ?d") auto
  define o' where "o' = retire_operation ?p sample_hash ?b 1000"
  have o: "op_invocation_id o' = ''i3''" "op_purpose o' = Retire" "fresh_retirement ?p o'" "\<not> op_complete o'" "op_binding_id o' = sample_binding_id"
    "op_customer_id o' = ''c1''" "op_committed_at o' = 1000" "op_key_id o' = sample_hash" "op_lease_id o' = None"
    "op_response o' = RetireAnswer \<lparr>ra_binding_id = sample_binding_id, ra_effective_release_at = 1420, ra_revision = 2, ra_generation = 2\<rparr>"
    by (simp_all add: o'_def retire_operation_def fresh_retirement_def p sample_rows)
  have own: "owned_binding d sample_binding_id ''c1'' = Some (b, ?v, ?a)" if "ld_bindings d = [b]" "bi_id b = sample_binding_id"
    "bi_device_id b = ''d1''" "bi_key b = (''demo'', ''pro'', sample_print)" "ld_devices d = [?v]" "ld_accounts d = [?a]" "ld_core d = ld_core ?d" for d b
    using that renewed_grant [of t] by (simp add: owned_binding_def obind_def find_binding_def find_device_def find_account_def sample_rows grant_fields)
  define d1 where "d1 = ?d\<lparr>ld_operations := [?q, o']\<rparr>"
  have 1: "retire_guard ?p ?d = Inr ([], d1)"
    by (simp add: retire_guard_def p own rows sample_rows retire_revisions_def retirable_def max_safe_integer_def insert_operation_def q
        o'_def [symmetric] o d1_def)
  have prep: "prepared_retirement ?p d = Some o'" if "ld_operations d = [?q, o']" for d
    using that q o by (simp add: prepared_retirement_def)
  define c where "c = retired_binding o' ?b"
  define d2 where "d2 = d1\<lparr>ld_bindings := [c]\<rparr>"
  have 2: "retire_binding ?p d1 = Inr ([], d2)"
    by (simp add: retire_binding_def for_retirement_def prep d1_def d2_def c_def rows o retirable_def p sample_rows max_safe_integer_def)
  have cb: "bi_id c = sample_binding_id" "bi_device_id c = ''d1''" "bi_key c = (''demo'', ''pro'', sample_print)" "bi_state c = Retiring"
    "bi_revision c = 2" "bi_generation c = 2" "bi_hold_until c = 1420" "bi_updated_at c = 1000"
    by (simp_all add: c_def retired_binding_def sample_rows o)
  define d3 where "d3 = d2\<lparr>ld_events := [e, retire_event ?p o']\<rparr>"
  have f: "be_invocation_id (retire_event ?p o') = ''i3''" "be_binding_id (retire_event ?p o') = sample_binding_id"
    "be_customer_id (retire_event ?p o') = ''c1''" "be_type (retire_event ?p o') = Retire" "be_actor (retire_event ?p o') = ''customer''"
    "be_occurred_at (retire_event ?p o') = 1000" by (simp_all add: retire_event_def o p)
  have 3: "audit_retirement ?p d2 = Inr ([], d3)"
    by (simp add: audit_retirement_def for_retirement_def prep d1_def d2_def d3_def insert_bound_event_def f e find_binding_def cb find_account_def rows)
  define d4 where "d4 = d3\<lparr>ld_operations := [?q, o'\<lparr>op_complete := True\<rparr>]\<rparr>"
  have 4: "finish_retirement ?p d3 = Inr ([], d4)"
    by (simp add: finish_retirement_def for_retirement_def prep d1_def d2_def d3_def d4_def q o)
  have fresh: "fresh_retirement ?p (o'\<lparr>op_complete := True\<rparr>)" "\<not> fresh_retirement ?p ?q"
    using o(3) q by (simp_all add: fresh_retirement_def)
  have ops: "ld_operations d4 = [?q, o'\<lparr>op_complete := True\<rparr>]" "ld_checks d4 = []" by (simp_all add: d4_def d3_def d2_def d1_def rows)
  have own4: "owned_binding d4 sample_binding_id ''c1'' = Some (c, ?v, ?a)"
    by (rule own) (simp_all add: d4_def d3_def d2_def d1_def rows cb)
  have "retirement_recorded ?p c ?v (o'\<lparr>op_complete := True\<rparr>) (retire_event ?p o')"
    by (simp add: retirement_recorded_def f o fresh cb p sample_rows)
  moreover have "retire_event ?p o' \<in> set (ld_events d4)" by (simp add: d4_def d3_def)
  moreover have "ld_authority d4 = (\<lambda>_. 0)" by (simp add: d4_def d3_def d2_def d1_def rows)
  ultimately have comp: "retirement_complete ?p d4"
    by (auto simp: retirement_complete_def p own4 retire_revisions_def sample_rows cb list_ex_iff ops)
  have 5: "assert_retirement ?p d4 = Inr ([], d4\<lparr>ld_checks := [''i3'']\<rparr>)"
    using comp by (simp add: assert_retirement_def insert_check_def ops p)
  have 6: "remove_check (rt_invocation_id ?p) (d4\<lparr>ld_checks := [''i3'']\<rparr>) = Inr ([], d4)" by (simp add: remove_check_def p) (simp add: d4_def d3_def d2_def d1_def rows)
  have 7: "retirement_result ?p d4 = Inr ([AnswerOut (op_response o')], d4)" by (simp add: retirement_result_def ops fresh q)
  have "run_statements (paced [] (bound_retire_sql ?p)) ?d = Inr ([[], [], [], [], [], [], [AnswerOut (op_response o')]], d4)"
    by (simp only: bound_retire_sql_def paced.simps run_statements.simps 1 2 3 4 5 6 7 rbind_simps prod.case)
  then show ?thesis by (simp add: retire_answer_in_def answer_in_def batch_returned_row_def o)
qed

lemma retirement_served:
  "\<exists>w'. retire_with_actor plain_hash ''i3'' [] ''c1'' sample_retirement ''customer'' (lease_world (renewed_db t))
     = (Inr (Inr \<lparr>ra_binding_id = sample_binding_id, ra_effective_release_at = 1420, ra_revision = 2, ra_generation = 2\<rparr>), w')"
proof -
  let ?b = "sample_binding\<lparr>bi_hold_until := 1420, bi_revision := 1, bi_updated_at := 1000\<rparr>" and ?v = "sample_device\<lparr>dv_last_proof_at := 1000\<rparr>"
    and ?a = "\<lparr>ac_id = ''c1'', ac_active = True, ac_revision = 0\<rparr>" and ?o = "encode_base64url (replicate 32 6)" and ?w = "lease_world (renewed_db t)"
  let ?p = "\<lparr>rt_customer_id = ''c1'', rt_binding_id = sample_binding_id, rt_operation_id = ?o, rt_expected = 1, rt_actor = ''customer'',
     rt_digest = ''h''\<rparr>"
  obtain rs d' where run: "run_statements (paced [] (bound_retire_sql sample_retire)) (renewed_db t) = Inr (rs, d')"
    and ans: "retire_answer_in rs = Some \<lparr>ra_binding_id = sample_binding_id, ra_effective_release_at = 1420, ra_revision = 2, ra_generation = 2\<rparr>"
    using retirement_effect by blast
  have own: "owned_binding (renewed_db t) sample_binding_id ''c1'' = Some (?b, ?v, ?a)"
    using renewed_grant [of t] by (simp add: owned_binding_def obind_def find_binding_def find_device_def find_account_def sample_rows grant_fields
        renewed_db_def rows_of_counted)
  have auth: "ld_authority (renewed_db t) (''demo'', ''pro'', sample_print) = 0" by (simp add: renewed_db_def rows_of_counted)
  have none: "find_operation (renewed_db t) sample_hash Retire ?o = None"
    by (simp add: find_operation_def renewed_db_def committed_operation_def operation_of_def signed_fields)
  have cand: "retire_candidate_of ?p ''i3'' ?b ?v ?a 0 = sample_retire"
    by (simp add: retire_candidate_of_def sample_retire_def sample_rows)
  have "attempt_retirement [] sample_retire sample_hash ?w
    = (Inr (Inr \<lparr>ra_binding_id = sample_binding_id, ra_effective_release_at = 1420, ra_revision = 2, ra_generation = 2\<rparr>), lease_world d')"
    by (simp add: attempt_retirement_def io_try_def alone(2) [OF run] ans del: paced.simps)
  then have "retire_owned ''i3'' [] ?p ?w
    = (Inr (Inr \<lparr>ra_binding_id = sample_binding_id, ra_effective_release_at = 1420, ra_revision = 2, ra_generation = 2\<rparr>), lease_world d')"
    by (simp add: retire_owned_def io_alone own sample_rows auth cached_retirement_def none cand max_safe_integer_def)
  then show ?thesis by (simp add: retire_with_actor_def sample_retirement_read plain_hash_def)
qed

text \<open>The lease that was renewed stays accepted until 1420, which is what the retirement answers.\<close>

theorem answered_retirement_stands_witness:
  "\<exists>t r w' b. retire_with_actor plain_hash ''i3'' [] ''c1'' sample_retirement ''customer'' (lease_world (renewed_db t)) = (Inr (Inr r), w')
    \<and> ra_effective_release_at r = 1420 \<and> find_binding (w_db w') sample_binding_id = Some b \<and> bi_state b \<noteq> Active
    \<and> (\<forall>l\<in>set (ld_leases (w_db w')). le_binding_id l = sample_binding_id \<longrightarrow> le_accept_until l \<le> 1420) \<and> \<not> occupies 1420 b"
proof -
  obtain t where t: "issue_bound_lease (sample_platform ''i1'') (renewal first_challenge) (lease_world lease_db0)
      = (Inr (Inr (LeaseAnswer (cd_response (sample_signed t)))), lease_world (renewed_db t))" using first_renewal by blast
  have ok: "leases_ok (w_db (lease_world (renewed_db t)))" using leases.keepsD [OF keeps_issue alone(5) t] db0_ok by (simp add: lease_progress_def)
  obtain w' where r: "retire_with_actor plain_hash ''i3'' [] ''c1'' sample_retirement ''customer'' (lease_world (renewed_db t))
     = (Inr (Inr \<lparr>ra_binding_id = sample_binding_id, ra_effective_release_at = 1420, ra_revision = 2, ra_generation = 2\<rparr>), w')"
    using retirement_served by blast
  from answered_retirement_stands [OF alone(5) ok sample_retirement_read r leases.refl] r show ?thesis by fastforce
qed

section \<open>Windows, trials, budgets and the purge on concrete data\<close>

theorem signed_window_admitted_witness: "lease_bounds (sample_signed ''token'') counted_db lease_grant"
proof -
  have trial: "bound_trial_state lease_grant sample_hash 1000 False = Some (0, None)" by (simp add: bound_trial_state_def lease_grant_def)
  show ?thesis
    by (rule signed_window_admitted [OF trial renewal_window])
      (simp_all add: windowed_def signed_fields sample_window_def rows_of_counted)
qed

definition trial_grant :: grant where
  "trial_grant = lease_grant\<lparr>g_is_trial := 1, g_trial_expiration_basis := Some ''from_first_use'', g_trial_duration_sec := 100\<rparr>"

theorem trial_rules_agree_witness:
  "bound_trial_state trial_grant sample_hash 1000 True = Some (1, Some 1100) \<and> trial_open True 1000 sample_hash trial_grant
    \<and> trial_stamp_of trial_grant = 1 \<and> trial_deadline trial_grant 1000 = Some 1100"
proof -
  have s: "bound_trial_state trial_grant sample_hash 1000 True = Some (1, Some 1100)" by code_simp
  have "safe_timestamp 1000" by (simp add: safe_timestamp_def max_safe_integer_def)
  from trial_rules_agree [OF this, of trial_grant sample_hash True] s show ?thesis
    by (simp add: trial_grant_def)
qed

definition sample_lease :: "string \<Rightarrow> int \<Rightarrow> bound_lease" where
  "sample_lease i t = \<lparr>le_id = i, le_binding_id = sample_binding_id, le_generation = 1, le_entitlement_revision = 0, le_invocation_id = i,
     le_issued_at = t - 220, le_expires_at = t - 120, le_accept_until = t, le_token = []\<rparr>"

definition two_leases :: lease_db where
  "two_leases = lease_db0\<lparr>ld_leases := [sample_lease ''l1'' 900, sample_lease ''l2'' 1100]\<rparr>"

theorem lease_purge_drains_witness:
  "\<exists>d'. purge_expired_bound_leases (lease_world two_leases) = (Inr [1], lease_world d') \<and> live_leases d' = [sample_lease ''l2'' 1100]
    \<and> expired_leases d' = []"
proof -
  have w: "w_schedule (lease_world two_leases) = []" "distinct (List.map le_id (ld_leases (w_db (lease_world two_leases))))"
    by (simp_all add: lease_world_def two_leases_def sample_lease_def)
  have e: "expired_leases two_leases = [sample_lease ''l1'' 900]" "live_leases two_leases = [sample_lease ''l2'' 1100]"
    by (simp_all add: expired_leases_def live_leases_def two_leases_def sample_lease_def lease_db0_def)
  have "(lease_world two_leases)\<lparr>w_db := d'\<rparr> = lease_world d'" for d' by (simp add: lease_world_def)
  with lease_purge_drains [OF w] e show ?thesis by (auto simp: bound_cleanup_max_rows_def bound_cleanup_max_batches_def bound_cleanup_batch_size_def)
qed

theorem source_budget_witness:
  "\<exists>d. budgeted True ''src'' 1000 960 1 d \<and> protocol_counters d \<noteq> [] \<and> int 1 \<le> client_limit True"
proof -
  obtain rs d where run: "run_statements (paced [] (limit_sql True ''src'' 1000)) lease_db0 = Inr (rs, d)"
    and facts: "limit_decision True 1000 rs = Inr 1 \<and> count_in (hd rs) = Some (1, 960) \<and> purge_counters d = Inr ([], d)
      \<and> protocol_counters d \<noteq> []"
  proof -
    have "case run_statements (paced [] (limit_sql True ''src'' 1000)) lease_db0 of
      Inl _ \<Rightarrow> False | Inr (rs, d) \<Rightarrow> limit_decision True 1000 rs = Inr 1 \<and> count_in (hd rs) = Some (1, 960)
        \<and> List.filter (counter_expired (ld_now d)) (ld_counters d) = [] \<and> protocol_counters d \<noteq> []" by code_simp
    with that show thesis
      by (cases "run_statements (paced [] (limit_sql True ''src'' 1000)) lease_db0") (auto simp: purge_counters_def)
  qed
  have "budgeted True ''src'' 1000 960 0 lease_db0"
    by (rule budgeted.start) (simp add: counters_ok_def protocol_counters_def lease_db0_def)
  from budgeted.request [OF this run, of 1 1] facts have "budgeted True ''src'' 1000 960 (Suc 0) d" by simp
  from budgeted.purging [OF this, of "[]" d] facts have b: "budgeted True ''src'' 1000 960 (Suc 0) d" by simp
  from source_budget [OF b] b facts show ?thesis by auto
qed

end
