(* ===== verification/Snapshot_Dump.thy ===== *)
theory Snapshot_Dump
  imports Snapshot_Correct
begin

text \<open>
  The counts the scanner reports, against a grammar of SQL dumps. The grammar is over the
  tokens of a text, so spacing, comments, letter case and quoting are free; column
  definitions, constraints and cell values are arbitrary. \<open>rows_in t d\<close> is the number of
  rows a dump of the statements \<open>d\<close> holds for table \<open>t\<close>; the scanner's inventory must be
  exactly that, table by table.
\<close>

section \<open>The statements of a dump\<close>

text \<open>What a statement does to the tables: it defines one, inserts rows into one, or neither.\<close>

datatype stmt = Defines string | Inserts string nat | Passes

definition keyword :: "string \<Rightarrow> sql_token \<Rightarrow> bool" where
  "keyword w tok \<longleftrightarrow> fst tok = Word \<and> js_lower (snd tok) = w"

abbreviation lpar :: sql_token where "lpar \<equiv> (Punctuation, ''('')"

abbreviation rpar :: sql_token where "rpar \<equiv> (Punctuation, '')'')"

abbreviation comma :: sql_token where "comma \<equiv> (Punctuation, '','')"

abbreviation semicolon :: sql_token where "semicolon \<equiv> (Punctuation, '';'')"

text \<open>A table's name is a word or a quoted identifier; case does not matter.\<close>

fun table_name :: "sql_token \<Rightarrow> string option" where
  "table_name (Word, w) = Some (js_lower w)"
| "table_name (Identifier, w) = Some (js_lower w)"
| "table_name _ = None"

definition simple :: "sql_token \<Rightarrow> bool" where
  "simple tok \<longleftrightarrow> tok \<notin> {lpar, rpar, semicolon}"

text \<open>Tokens in which the parentheses match: expressions, column lists, constraints.\<close>

inductive nested :: "sql_token list \<Rightarrow> bool" where
  nested_Nil: "nested []"
| nested_simple: "simple tok \<Longrightarrow> nested ts \<Longrightarrow> nested (tok # ts)"
| nested_parens: "nested xs \<Longrightarrow> nested ys \<Longrightarrow> nested (lpar # xs @ rpar # ys)"

text \<open>The rows of a \<open>VALUES\<close> clause, separated by commas, each in its parentheses.\<close>

fun row_list :: "sql_token list list \<Rightarrow> sql_token list" where
  "row_list [] = []"
| "row_list [r] = lpar # r @ [rpar]"
| "row_list (r # q # rs) = lpar # r @ rpar # comma # row_list (q # rs)"

inductive states :: "sql_token list \<Rightarrow> stmt \<Rightarrow> bool" where
  create_table:
    "keyword ''create'' c \<Longrightarrow> keyword ''table'' t
     \<Longrightarrow> cond = [] \<or> (\<exists>i n e. cond = [i, n, e] \<and> keyword ''if'' i \<and> keyword ''not'' n \<and> keyword ''exists'' e)
     \<Longrightarrow> table_name nm = Some name \<Longrightarrow> \<not> keyword ''if'' nm \<Longrightarrow> semicolon \<notin> set rest
     \<Longrightarrow> states ([c, t] @ cond @ [nm] @ rest) (Defines name)"
| insert_rows:
    "keyword ''insert'' i
     \<Longrightarrow> orelse = [] \<or> (\<exists>r a. orelse = [r, a] \<and> keyword ''or'' r \<and> simple a \<and> \<not> keyword ''into'' a)
     \<Longrightarrow> keyword ''into'' n \<Longrightarrow> table_name nm = Some name
     \<Longrightarrow> columns = [] \<or> (\<exists>cs. columns = lpar # cs @ [rpar] \<and> nested cs)
     \<Longrightarrow> keyword ''values'' v \<Longrightarrow> rows \<noteq> [] \<Longrightarrow> \<forall>r \<in> set rows. nested r
     \<Longrightarrow> states ([i] @ orelse @ [n, nm] @ columns @ [v] @ row_list rows) (Inserts name (length rows))"
| create_other:
    "keyword ''create'' c \<Longrightarrow> \<not> keyword ''table'' x \<Longrightarrow> semicolon \<notin> set (x # rest)
     \<Longrightarrow> states (c # x # rest) Passes"
| other:
    "\<not> keyword ''create'' x \<Longrightarrow> \<not> keyword ''insert'' x \<Longrightarrow> semicolon \<notin> set (x # rest)
     \<Longrightarrow> states (x # rest) Passes"
| empty: "states [] Passes"

text \<open>A dump is a sequence of statements; the last may lack its semicolon.\<close>

inductive dumps :: "sql_token list \<Rightarrow> stmt list \<Rightarrow> bool" where
  dumps_Nil: "dumps [] []"
| dumps_last: "states ts st \<Longrightarrow> dumps ts [st]"
| dumps_Cons: "states ts st \<Longrightarrow> dumps us d \<Longrightarrow> dumps (ts @ semicolon # us) (st # d)"

fun rows_in :: "string \<Rightarrow> stmt list \<Rightarrow> nat" where
  "rows_in t [] = 0"
| "rows_in t (Inserts n k # d) = (if n = t then k else 0) + rows_in t d"
| "rows_in t (_ # d) = rows_in t d"

fun creates :: "stmt list \<Rightarrow> string set" where
  "creates [] = {}"
| "creates (Defines n # d) = insert n (creates d)"
| "creates (_ # d) = creates d"

text \<open>
  With the tables \<open>C\<close> already defined, the dump defines each counted table once and before
  its rows.
\<close>

fun in_order :: "string set \<Rightarrow> stmt list \<Rightarrow> bool" where
  "in_order C [] = True"
| "in_order C (Defines n # d) = ((counted n \<longrightarrow> n \<notin> C) \<and> in_order (insert n C) d)"
| "in_order C (Inserts n k # d) = ((counted n \<longrightarrow> n \<in> C) \<and> in_order C d)"
| "in_order C (Passes # d) = in_order C d"

section \<open>Feeding tokens that the interpreter passes over\<close>

lemma tokens_simps [simp]:
  "tokens [] = []"
  "tokens (l # ls) = token_of l @ tokens ls"
  "tokens (ls @ ms) = tokens ls @ tokens ms"
  by (simp_all add: tokens_def)

lemma token_skip:
  assumes "phase_of s = CreateDone \<or> phase_of s = Ignored" and "(k, v) \<noteq> semicolon"
  shows "interp_token s k v = Inr s"
proof -
  have "\<not> (k = Punctuation \<and> v = '';'')" using assms(2) by auto
  then show ?thesis
    using assms(1) unfolding interp_token_def Let_def
    by (elim disjE) (simp_all only: phase.case if_not_P if_False simp_thms split: if_splits)
qed

lemma feed_fixed:
  assumes "\<And>k v. (k, v) \<in> set ts \<Longrightarrow> interp_token s k v = Inr s"
  shows "feed s ts = Inr s"
  using assms by (induction ts) auto

lemma feed_skip:
  assumes "phase_of s = CreateDone \<or> phase_of s = Ignored" and "semicolon \<notin> set ts"
  shows "feed s ts = Inr s"
  using assms(2) by (intro feed_fixed token_skip [OF assms(1)]) auto

text \<open>Inside the parentheses of a column list or of a row, matching tokens change nothing.\<close>

lemma feed_nested_header:
  assumes "nested ts" and "phase_of s = InsertSeekValues" and "0 < insert_header_depth s"
  shows "feed s ts = Inr s"
  using assms
proof (induction arbitrary: s rule: nested.induct)
  case (nested_simple tok ts)
  then show ?case
    by (cases tok) (auto simp: simple_def interp_token_def Let_def)
next
  case (nested_parens xs ys)
  define s1 where "s1 = s\<lparr>insert_header_depth := insert_header_depth s + 1\<rparr>"
  have "interp_token s Punctuation ''('' = Inr s1"
    using nested_parens.prems by (simp add: interp_token_def s1_def Let_def)
  moreover have "feed s1 xs = Inr s1"
    using nested_parens.prems by (intro nested_parens.IH(1)) (simp_all add: s1_def)
  moreover have "interp_token s1 Punctuation '')'' = Inr s"
    using nested_parens.prems by (simp add: interp_token_def s1_def Let_def)
  ultimately show ?case
    using nested_parens.IH(2) nested_parens.prems by (simp add: feed_append)
qed simp

lemma feed_nested_values:
  assumes "nested ts" and "phase_of s = InsertValues" and "0 < insert_value_depth s"
  shows "feed s ts = Inr s"
  using assms
proof (induction arbitrary: s rule: nested.induct)
  case (nested_simple tok ts)
  then show ?case
    by (cases tok) (auto simp: simple_def interp_token_def Let_def)
next
  case (nested_parens xs ys)
  define s1 where "s1 = s\<lparr>insert_value_depth := insert_value_depth s + 1\<rparr>"
  have "interp_token s Punctuation ''('' = Inr s1"
    using nested_parens.prems by (simp add: interp_token_def s1_def Let_def)
  moreover have "feed s1 xs = Inr s1"
    using nested_parens.prems by (intro nested_parens.IH(1)) (simp_all add: s1_def)
  moreover have "interp_token s1 Punctuation '')'' = Inr s"
    using nested_parens.prems by (simp add: interp_token_def s1_def Let_def)
  ultimately show ?case
    using nested_parens.IH(2) nested_parens.prems by (simp add: feed_append)
qed simp

section \<open>One statement at a time\<close>

definition idle :: "interp \<Rightarrow> bool" where
  "idle s \<longleftrightarrow> phase_of s = Start \<and> current_insert_table s = None \<and> insert_header_depth s = 0
     \<and> insert_value_depth s = 0 \<and> insert_row_count s = 0 \<and> insert_prefix_tokens s = 0"

lemma idle_sel:
  "idle s \<Longrightarrow> phase_of s = Start" "idle s \<Longrightarrow> current_insert_table s = None"
  "idle s \<Longrightarrow> insert_header_depth s = 0" "idle s \<Longrightarrow> insert_value_depth s = 0"
  "idle s \<Longrightarrow> insert_row_count s = 0" "idle s \<Longrightarrow> insert_prefix_tokens s = 0"
  by (simp_all add: idle_def)

definition inserting :: "interp \<Rightarrow> string \<Rightarrow> nat \<Rightarrow> nat \<Rightarrow> interp" where
  "inserting s t p n = s\<lparr>phase_of := InsertValues, current_insert_table := Some t,
     insert_prefix_tokens := p, insert_row_count := n\<rparr>"

lemma feed_row:
  assumes "is_safe (n + 1)" and "idle s" and "nested r"
  shows "feed (inserting s t p n) (lpar # r @ [rpar]) = Inr (inserting s t p (n + 1))"
proof -
  define s1 where "s1 = (inserting s t p n)\<lparr>insert_row_count := n + 1, insert_value_depth := 1\<rparr>"
  have "feed s1 r = Inr s1"
    by (rule feed_nested_values [OF assms(3)]) (simp_all add: s1_def inserting_def)
  moreover have "interp_token (inserting s t p n) Punctuation ''('' = Inr s1"
    using assms idle_sel [OF assms(2)] by (simp add: interp_token_def inserting_def s1_def Let_def)
  moreover have "interp_token s1 Punctuation '')'' = Inr (inserting s t p (n + 1))"
    using idle_sel [OF assms(2)] by (simp add: interp_token_def inserting_def s1_def Let_def)
  ultimately show ?thesis
    by (simp add: feed_append)
qed

lemma feed_comma: "feed (inserting s t p n) [comma] = Inr (inserting s t p n)"
  by (simp add: interp_token_def inserting_def Let_def)

lemma feed_rows:
  assumes "is_safe (n + length rows)" and "idle s" and "\<forall>r \<in> set rows. nested r"
  shows "feed (inserting s t p n) (row_list rows) = Inr (inserting s t p (n + length rows))"
  using assms
proof (induction rows arbitrary: n rule: row_list.induct)
  case 1
  then show ?case by simp
next
  case (2 r)
  then show ?case using feed_row [of n s r t p] by simp
next
  case (3 r q rs)
  have "is_safe (n + 1)" using "3.prems"(1) by (simp add: is_safe_def)
  then have one: "feed (inserting s t p n) (lpar # r @ [rpar]) = Inr (inserting s t p (n + 1))"
    using "3.prems" by (intro feed_row) auto
  have "row_list (r # q # rs) = (lpar # r @ [rpar]) @ [comma] @ row_list (q # rs)" by simp
  moreover have "feed (inserting s t p (n + 1)) (row_list (q # rs)) = Inr (inserting s t p (n + length (r # q # rs)))"
    using "3.IH" [of "n + 1"] "3.prems" by simp
  ultimately show ?case
    by (simp only: feed_append one feed_comma rbind_simps)
qed

lemma feed_semicolon: "feed s [semicolon] = end_statement s"
  by (simp add: interp_token_def)

lemma end_idle: "current_insert_table s = None \<Longrightarrow> end_statement s = Inr (reset_statement s)"
  by (simp add: end_statement_def)

lemma reset_idle: "idle s \<Longrightarrow> reset_statement (s\<lparr>phase_of := p\<rparr>) = s"
  by (cases s) (simp add: idle_def reset_statement_def)

lemma table_name_kind:
  "table_name (k, v) = Some n \<Longrightarrow> (k = Word \<or> k = Identifier) \<and> js_lower v = n"
  by (cases k) auto

definition created :: "interp \<Rightarrow> string \<Rightarrow> interp" where
  "created s t = (if counted t then s\<lparr>created_tables := insert t (created_tables s), counts := (counts s)(t \<mapsto> 0)\<rparr> else s)"

definition inserted :: "interp \<Rightarrow> string \<Rightarrow> nat \<Rightarrow> interp" where
  "inserted s t k = (if counted t then s\<lparr>counts := (counts s)(t \<mapsto> count_of s t + k),
     inserted_tables := insert t (inserted_tables s)\<rparr> else s)"

text \<open>
  What reading a statement comes to: feeding its tokens and then ending it, be it by a
  semicolon or by the end of the text.
\<close>

definition reads :: "interp \<Rightarrow> sql_token list \<Rightarrow> interp \<Rightarrow> bool" where
  "reads s ts s' \<longleftrightarrow> (\<exists>s1. feed s ts = Inr s1 \<and> end_statement s1 = Inr s'
     \<and> (phase_of s1 = Start \<longrightarrow> s1 = s'))"

lemma keyword_token: "keyword w (k, v) \<longleftrightarrow> k = Word \<and> js_lower v = w"
  by (simp add: keyword_def)

lemma reads_create:
  assumes "idle s" and "counted name \<longrightarrow> name \<notin> created_tables s"
    and "keyword ''create'' c" and "keyword ''table'' t"
    and "cond = [] \<or> (\<exists>i n e. cond = [i, n, e] \<and> keyword ''if'' i \<and> keyword ''not'' n \<and> keyword ''exists'' e)"
    and "table_name nm = Some name" and "\<not> keyword ''if'' nm" and "semicolon \<notin> set rest"
  shows "reads s ([c, t] @ cond @ [nm] @ rest) (created s name)"
proof -
  define s1 where "s1 = s\<lparr>phase_of := CreateAfterTable\<rparr>"
  define s2 where "s2 = (created s name)\<lparr>phase_of := CreateDone\<rparr>"
  have ct: "feed s [c, t] = Inr s1"
    using idle_sel [OF assms(1)] assms(3,4)
    by (cases c; cases t) (simp add: interp_token_def s1_def Let_def keyword_token)
  have cond: "feed s1 cond = Inr s1"
    using assms(5) by (auto simp: interp_token_def s1_def Let_def keyword_def)
  obtain k v where nm: "nm = (k, v)" by (cases nm)
  from table_name_kind [OF assms(6) [unfolded nm]] assms(7)
  have name: "feed s1 [nm] = Inr s2"
    using assms(2) by (auto simp: nm keyword_token interp_token_def s1_def s2_def Let_def
        record_created_table_def created_def)
  have rest: "feed s2 rest = Inr s2"
    by (rule feed_skip [OF _ assms(8)]) (simp add: s2_def)
  have "current_insert_table s2 = None"
    using idle_sel [OF assms(1)] by (simp add: s2_def created_def)
  moreover have "idle (created s name)"
    using assms(1) by (simp add: idle_def created_def)
  ultimately have fin: "end_statement s2 = Inr (created s name)"
    by (simp add: end_idle s2_def reset_idle)
  have "feed s ([c, t] @ cond @ [nm] @ rest) = Inr s2"
    by (simp only: feed_append ct cond name rest rbind_simps)
  then show ?thesis using fin by (auto simp: reads_def s2_def)
qed

lemma feed_or:
  assumes "phase_of s = InsertSeekInto" and "insert_prefix_tokens s = 0"
    and "orelse = [] \<or> (\<exists>r a. orelse = [r, a] \<and> keyword ''or'' r \<and> simple a \<and> \<not> keyword ''into'' a)"
  shows "feed s orelse = Inr (s\<lparr>insert_prefix_tokens := length orelse\<rparr>)"
  using assms(3)
proof (elim disjE exE conjE)
  assume "orelse = []"
  then show ?thesis using assms(2) by simp
next
  fix r a
  assume "orelse = [r, a]" "keyword ''or'' r" "simple a" "\<not> keyword ''into'' a"
  then show ?thesis
    using assms(1,2) by (cases r; cases a) (auto simp: keyword_token simple_def interp_token_def Let_def)
qed

lemma reads_insert:
  assumes "idle s" and "rows \<noteq> []" and "is_safe (count_of s name + length rows)"
    and "keyword ''insert'' i"
    and "orelse = [] \<or> (\<exists>r a. orelse = [r, a] \<and> keyword ''or'' r \<and> simple a \<and> \<not> keyword ''into'' a)"
    and "keyword ''into'' n" and "table_name nm = Some name"
    and "columns = [] \<or> (\<exists>cs. columns = lpar # cs @ [rpar] \<and> nested cs)"
    and "keyword ''values'' v" and "\<forall>r \<in> set rows. nested r"
  shows "reads s ([i] @ orelse @ [n, nm] @ columns @ [v] @ row_list rows) (inserted s name (length rows))"
proof -
  let ?p = "length orelse + 1"
  define s0 where "s0 = s\<lparr>phase_of := InsertSeekInto\<rparr>"
  define s1 where "s1 = s\<lparr>phase_of := InsertSeekValues, current_insert_table := Some name, insert_prefix_tokens := ?p\<rparr>"
  have ins: "feed s [i] = Inr s0"
    using idle_sel [OF assms(1)] assms(4) by (cases i) (simp add: keyword_token interp_token_def s0_def Let_def)
  have orelse: "feed s0 orelse = Inr (s0\<lparr>insert_prefix_tokens := length orelse\<rparr>)"
    using idle_sel [OF assms(1)] by (intro feed_or assms(5)) (simp_all add: s0_def)
  have into: "feed (s0\<lparr>insert_prefix_tokens := length orelse\<rparr>) [n, nm] = Inr s1"
    using assms(6,7) by (cases n; cases nm)
      (auto simp: keyword_token interp_token_def s0_def s1_def Let_def dest!: table_name_kind)
  have columns: "feed s1 columns = Inr s1"
    using assms(8)
  proof (elim disjE exE conjE)
    fix cs
    assume c: "columns = lpar # cs @ [rpar]" "nested cs"
    define s2 where "s2 = s1\<lparr>insert_header_depth := 1\<rparr>"
    have "feed s2 cs = Inr s2"
      by (rule feed_nested_header [OF c(2)]) (simp_all add: s2_def s1_def)
    moreover have "interp_token s1 Punctuation ''('' = Inr s2"
      using idle_sel [OF assms(1)] by (simp add: interp_token_def s1_def s2_def Let_def)
    moreover have "interp_token s2 Punctuation '')'' = Inr s1"
      using idle_sel [OF assms(1)] by (simp add: interp_token_def s1_def s2_def Let_def)
    ultimately show ?thesis by (simp add: c(1) feed_append)
  qed simp
  have vals: "feed s1 [v] = Inr (inserting s name ?p 0)"
    using idle_sel [OF assms(1)] assms(9)
    by (cases v) (simp add: keyword_token interp_token_def s1_def Let_def inserting_def)
  have "is_safe (0 + length rows)" using assms(3) by (simp add: is_safe_def)
  from feed_rows [OF this assms(1,10)]
  have rows: "feed (inserting s name ?p 0) (row_list rows) = Inr (inserting s name ?p (length rows))" by simp
  have fin: "end_statement (inserting s name ?p (length rows)) = Inr (inserted s name (length rows))"
    using assms(2,3) idle_sel [OF assms(1)]
    by (simp add: end_statement_def inserting_def inserted_def count_of_def reset_statement_def Let_def)
  have "feed s ([i] @ orelse @ [n, nm] @ columns @ [v] @ row_list rows) = Inr (inserting s name ?p (length rows))"
    by (simp only: feed_append ins orelse into columns vals rows rbind_simps)
  then show ?thesis using fin by (auto simp: reads_def inserting_def)
qed

lemma reads_ignored:
  assumes "idle s" and "feed s us = Inr (s\<lparr>phase_of := Ignored\<rparr>)" and "semicolon \<notin> set rest"
  shows "reads s (us @ rest) s"
proof -
  have "feed (s\<lparr>phase_of := Ignored\<rparr>) rest = Inr (s\<lparr>phase_of := Ignored\<rparr>)"
    by (rule feed_skip [OF _ assms(3)]) simp
  moreover have "end_statement (s\<lparr>phase_of := Ignored\<rparr>) = Inr s"
    using idle_sel(2) [OF assms(1)] reset_idle [OF assms(1)] by (simp add: end_idle)
  ultimately show ?thesis using assms(2) by (auto simp: reads_def feed_append)
qed

lemma reads_create_other:
  assumes "idle s" and "keyword ''create'' c" and "\<not> keyword ''table'' x" and "semicolon \<notin> set (x # rest)"
  shows "reads s (c # x # rest) s"
proof -
  have "feed s [c, x] = Inr (s\<lparr>phase_of := Ignored\<rparr>)"
    using idle_sel [OF assms(1)] assms(2-4)
    by (cases c; cases x) (auto simp: keyword_token interp_token_def Let_def)
  from reads_ignored [OF assms(1) this, of rest] assms(4) show ?thesis by simp
qed

lemma reads_other:
  assumes "idle s" and "\<not> keyword ''create'' x" and "\<not> keyword ''insert'' x" and "semicolon \<notin> set (x # rest)"
  shows "reads s (x # rest) s"
proof -
  have "feed s [x] = Inr (s\<lparr>phase_of := Ignored\<rparr>)"
    using idle_sel [OF assms(1)] assms(2-4)
    by (cases x) (auto simp: keyword_token interp_token_def Let_def)
  from reads_ignored [OF assms(1) this, of rest] assms(4) show ?thesis by simp
qed

lemma reads_empty: "idle s \<Longrightarrow> reads s [] s"
  by (cases s) (simp add: reads_def end_idle idle_def reset_statement_def)

text \<open>The effect of a statement on an interpreter between two statements.\<close>

fun performs :: "interp \<Rightarrow> stmt \<Rightarrow> interp" where
  "performs s (Defines n) = created s n"
| "performs s (Inserts n k) = inserted s n k"
| "performs s Passes = s"

fun possible :: "interp \<Rightarrow> stmt \<Rightarrow> bool" where
  "possible s (Defines n) = (counted n \<longrightarrow> n \<notin> created_tables s)"
| "possible s (Inserts n k) = is_safe (count_of s n + k)"
| "possible s Passes = True"

lemma states_reads:
  assumes "states ts st" and "idle s" and "possible s st"
  shows "reads s ts (performs s st)"
  using assms
proof (induction rule: states.induct)
  case (create_table c t cond nm name rest)
  then show ?case using reads_create [of s name c t cond nm rest] by simp
next
  case (insert_rows i orelse n nm name columns v rows)
  then show ?case using reads_insert [of s rows name i orelse n nm columns v] by simp
next
  case (create_other c x rest)
  then show ?case using reads_create_other [of s c x rest] by simp
next
  case (other x rest)
  then show ?case using reads_other [of s x rest] by simp
next
  case empty
  then show ?case by (simp add: reads_empty)
qed

lemma idle_performs: "idle s \<Longrightarrow> idle (performs s st)"
  by (cases st) (simp_all add: idle_def created_def inserted_def)

section \<open>The whole dump\<close>

definition reported :: "interp \<Rightarrow> snapshot_inventory outcome" where
  "reported s = (if inserted_tables s \<subseteq> created_tables s then Inr \<lparr>table_counts = report_counts s\<rparr>
     else Inl ''snapshot_inventory_table_definition_missing'')"

lemma finish_idle: "idle s \<Longrightarrow> interp_finish s = reported s"
  by (auto simp: idle_def interp_finish_def reported_def)

lemma finish_reads:
  assumes "reads s ts s'" and "idle s'"
  shows "rbind (feed s ts) interp_finish = reported s'"
proof -
  from assms(1) obtain s1 where f: "feed s ts = Inr s1" and e: "end_statement s1 = Inr s'"
    and st: "phase_of s1 = Start \<longrightarrow> s1 = s'" by (auto simp: reads_def)
  have "interp_finish s1 = reported s'"
  proof (cases "phase_of s1 = Start")
    case True
    with st assms(2) show ?thesis by (simp add: finish_idle)
  next
    case False
    with e show ?thesis by (auto simp: interp_finish_def reported_def)
  qed
  with f show ?thesis by simp
qed

fun performs_all :: "interp \<Rightarrow> stmt list \<Rightarrow> interp" where
  "performs_all s [] = s"
| "performs_all s (st # d) = performs_all (performs s st) d"

fun possible_all :: "interp \<Rightarrow> stmt list \<Rightarrow> bool" where
  "possible_all s [] = True"
| "possible_all s (st # d) = (possible s st \<and> possible_all (performs s st) d)"

lemma dumps_reported:
  assumes "dumps ts d" and "idle s" and "possible_all s d"
  shows "rbind (feed s ts) interp_finish = reported (performs_all s d)"
  using assms
proof (induction arbitrary: s rule: dumps.induct)
  case dumps_Nil
  then show ?case by (simp add: finish_idle)
next
  case (dumps_last ts st)
  then have "reads s ts (performs s st)" by (simp add: states_reads)
  then show ?case using dumps_last.prems by (simp add: finish_reads idle_performs)
next
  case (dumps_Cons ts st us d)
  then have "reads s ts (performs s st)" by (simp add: states_reads)
  then have "feed s (ts @ [semicolon]) = Inr (performs s st)"
    by (auto simp: reads_def feed_append feed_semicolon simp del: feed_simps)
  then have "feed s (ts @ semicolon # us) = feed (performs s st) us"
    using feed_append [of s "ts @ [semicolon]" us] by (simp del: feed_simps)
  then show ?case using dumps_Cons idle_performs by simp
qed

definition matches :: "interp \<Rightarrow> string set \<Rightarrow> (string \<Rightarrow> nat) \<Rightarrow> bool" where
  "matches s C m \<longleftrightarrow> created_tables s = {t \<in> C. counted t} \<and> inserted_tables s \<subseteq> created_tables s
     \<and> (\<forall>t. counts s t = (if t \<in> C \<and> counted t then Some (m t) else None))
     \<and> (\<forall>t. counted t \<longrightarrow> t \<notin> C \<longrightarrow> m t = 0)"

lemma idle_init: "idle interp_init"
  by (simp add: idle_def interp_init_def)

lemma matches_init: "matches interp_init {} (\<lambda>_. 0)"
  by (simp add: matches_def interp_init_def)

lemma matches_created:
  assumes "matches s C m" and "counted t \<longrightarrow> t \<notin> C"
  shows "matches (created s t) (insert t C) m"
  using assms by (auto simp: matches_def created_def)

lemma matches_inserted:
  assumes "matches s C m" and "counted t \<longrightarrow> t \<in> C"
  shows "matches (inserted s t k) C (m(t := m t + k))"
  using assms by (auto simp: matches_def inserted_def count_of_def)

lemma is_safe_le: "is_safe n \<Longrightarrow> k \<le> n \<Longrightarrow> is_safe k"
  by (simp add: is_safe_def)

lemma count_matches: "matches s C m \<Longrightarrow> count_of s t \<le> m t"
  by (simp add: matches_def count_of_def)

lemma performs_matches:
  assumes "in_order C d" and "matches s C m" and "\<forall>t. is_safe (m t + rows_in t d)"
  shows "possible_all s d \<and> matches (performs_all s d) (C \<union> creates d) (\<lambda>t. m t + rows_in t d)"
  using assms
proof (induction d arbitrary: C s m)
  case Nil
  then show ?case by simp
next
  case (Cons st d)
  show ?case
  proof (cases st)
    case (Defines n)
    with Cons.prems have "in_order (insert n C) d" and new: "counted n \<longrightarrow> n \<notin> C" by auto
    from Cons.IH [OF this(1) matches_created [OF Cons.prems(2) new]] Cons.prems(3) Defines
    have "possible_all (created s n) d
      \<and> matches (performs_all (created s n) d) (insert n C \<union> creates d) (\<lambda>t. m t + rows_in t d)" by simp
    moreover have "counted n \<longrightarrow> n \<notin> created_tables s" using new Cons.prems(2) by (auto simp: matches_def)
    ultimately show ?thesis using Defines by simp
  next
    case (Inserts n k)
    with Cons.prems have "in_order C d" and old: "counted n \<longrightarrow> n \<in> C" by auto
    have upd: "(m(n := m n + k)) u + rows_in u d = m u + rows_in u (st # d)" for u
      using Inserts by simp
    have "count_of s n + k \<le> m n + rows_in n (st # d)"
      using count_matches [OF Cons.prems(2), of n] Inserts by simp
    then have "possible s st"
      using Cons.prems(3) Inserts by (auto intro: is_safe_le)
    moreover from Cons.IH [OF \<open>in_order C d\<close> matches_inserted [OF Cons.prems(2) old, of k]] Cons.prems(3)
    have "possible_all (inserted s n k) d
      \<and> matches (performs_all (inserted s n k) d) (C \<union> creates d) (\<lambda>t. m t + rows_in t (st # d))"
      by (simp only: upd) simp
    ultimately show ?thesis using Inserts by simp
  next
    case Passes
    with Cons show ?thesis by simp
  qed
qed

lemma reported_matches:
  assumes "matches s C m"
  shows "reported s = Inr \<lparr>table_counts = map (\<lambda>t. (t, m t)) (filter (\<lambda>t. t \<in> C) snapshot_counted_tables)\<rparr>"
proof -
  have "concat (map (\<lambda>t. case counts s t of None \<Rightarrow> [] | Some n \<Rightarrow> [(t, n)]) ts)
      = map (\<lambda>t. (t, m t)) (filter (\<lambda>t. t \<in> C) ts)" if "\<forall>t \<in> set ts. counted t" for ts
    using that assms by (induction ts) (auto simp: matches_def)
  then have "report_counts s = map (\<lambda>t. (t, m t)) (filter (\<lambda>t. t \<in> C) snapshot_counted_tables)"
    by (simp add: report_counts_def counted_def)
  moreover have "inserted_tables s \<subseteq> created_tables s" using assms unfolding matches_def by blast
  ultimately show ?thesis by (simp add: reported_def)
qed

section \<open>Properties\<close>


text \<open>The dump of the service's own tests, \<open>D1_EXPORT_SQL\<close> of \<open>backup-core.test.mjs\<close>.\<close>

abbreviation sp :: lexeme where "sp \<equiv> LSpace CHR '' ''"

abbreviation nl :: lexeme where "nl \<equiv> LSpace CHR 0x0A"

definition export_statements :: "lexeme list list" where
  "export_statements =
    [[LLine '' exact snapshot export'', LWord ''CREATE'', sp, LWord ''TABLE'', sp, LIdent ''entitlements'', sp,
      LPunct CHR ''('', LWord ''id'', sp, LWord ''TEXT'', sp, LWord ''PRIMARY'', sp, LWord ''KEY'', LPunct CHR '','',
      sp, LWord ''note'', sp, LWord ''TEXT'', LPunct CHR '')''],
     [nl, LWord ''INSERT'', sp, LWord ''INTO'', sp, LIdent ''entitlements'', sp, LWord ''VALUES'', sp,
      LPunct CHR ''('', LText ''one'', LPunct CHR '','', sp, LText ''semicolon; inside value'', LPunct CHR '')''],
     [nl, LWord ''INSERT'', sp, LWord ''INTO'', sp, LIdent ''entitlements'', sp, LWord ''VALUES'', sp,
      LPunct CHR ''('', LText ''two'', LPunct CHR '','', sp, LText (''quoted '' @ [CHR 0x27] @ '' value''),
      LPunct CHR '')'', LPunct CHR '','', sp,
      LPunct CHR ''('', LText ''three'', LPunct CHR '','', sp, LWord ''NULL'', LPunct CHR '')''],
     [nl, LWord ''CREATE'', sp, LWord ''TABLE'', sp, LWord ''IF'', sp, LWord ''NOT'', sp, LWord ''EXISTS'', sp,
      LWord ''customers'', sp, LPunct CHR ''('', LWord ''id'', sp, LWord ''TEXT'', sp, LWord ''PRIMARY'', sp,
      LWord ''KEY'', LPunct CHR '')'']]"

definition export_lexemes :: "lexeme list" where
  "export_lexemes = concat (map (\<lambda>ls. ls @ [LPunct CHR '';'']) export_statements) @ [nl]"

definition export_sql :: string where
  "export_sql =
     ''-- exact snapshot export'' @ [CHR 0x0A]
     @ ''CREATE TABLE '' @ [CHR 0x22] @ ''entitlements'' @ [CHR 0x22] @ '' (id TEXT PRIMARY KEY, note TEXT);'' @ [CHR 0x0A]
     @ ''INSERT INTO '' @ [CHR 0x22] @ ''entitlements'' @ [CHR 0x22] @ '' VALUES ('' @ [CHR 0x27] @ ''one'' @ [CHR 0x27]
     @ '', '' @ [CHR 0x27] @ ''semicolon; inside value'' @ [CHR 0x27] @ '');'' @ [CHR 0x0A]
     @ ''INSERT INTO '' @ [CHR 0x22] @ ''entitlements'' @ [CHR 0x22] @ '' VALUES ('' @ [CHR 0x27] @ ''two'' @ [CHR 0x27]
     @ '', '' @ [CHR 0x27] @ ''quoted '' @ [CHR 0x27, CHR 0x27] @ '' value'' @ [CHR 0x27] @ ''), ('' @ [CHR 0x27]
     @ ''three'' @ [CHR 0x27] @ '', NULL);'' @ [CHR 0x0A]
     @ ''CREATE TABLE IF NOT EXISTS customers (id TEXT PRIMARY KEY);'' @ [CHR 0x0A]"

lemma nested_flat: "list_all simple ts \<Longrightarrow> nested ts"
  by (induction ts) (auto intro: nested.intros)

lemma dumps_terminated:
  "list_all2 states tss d \<Longrightarrow> dumps (concat (map (\<lambda>ts. ts @ [semicolon]) tss)) d"
  by (induction rule: list_all2_induct) (auto intro: dumps.intros)

lemma states_definition:
  "keyword ''create'' c \<Longrightarrow> keyword ''table'' t \<Longrightarrow> table_name nm = Some n \<Longrightarrow> \<not> keyword ''if'' nm
   \<Longrightarrow> semicolon \<notin> set rest \<Longrightarrow> states (c # t # nm # rest) (Defines n)"
  "keyword ''create'' c \<Longrightarrow> keyword ''table'' t \<Longrightarrow> keyword ''if'' i \<Longrightarrow> keyword ''not'' x \<Longrightarrow> keyword ''exists'' e
   \<Longrightarrow> table_name nm = Some n \<Longrightarrow> \<not> keyword ''if'' nm \<Longrightarrow> semicolon \<notin> set rest
   \<Longrightarrow> states (c # t # i # x # e # nm # rest) (Defines n)"
  using create_table [of c t "[]"] create_table [of c t "[i, x, e]"] by simp_all

lemma states_insertion:
  "keyword ''insert'' i \<Longrightarrow> keyword ''into'' x \<Longrightarrow> table_name nm = Some n \<Longrightarrow> keyword ''values'' v
   \<Longrightarrow> rows \<noteq> [] \<Longrightarrow> \<forall>r \<in> set rows. list_all simple r \<Longrightarrow> length rows = k \<Longrightarrow> ts = row_list rows
   \<Longrightarrow> states (i # x # nm # v # ts) (Inserts n k)"
  using insert_rows [of i "[]" x nm n "[]" v rows] by (auto simp: nested_flat)

lemma export_spelled:
  "list_all2 states (map tokens export_statements)
     [Defines ''entitlements'', Inserts ''entitlements'' 1, Inserts ''entitlements'' 2, Defines ''customers'']"
proof -
  have kw: "keyword ''create'' (Word, ''CREATE'') \<and> keyword ''table'' (Word, ''TABLE'') \<and> keyword ''if'' (Word, ''IF'')
     \<and> keyword ''not'' (Word, ''NOT'') \<and> keyword ''exists'' (Word, ''EXISTS'') \<and> keyword ''insert'' (Word, ''INSERT'')
     \<and> keyword ''into'' (Word, ''INTO'') \<and> keyword ''values'' (Word, ''VALUES'')
     \<and> \<not> keyword ''if'' (Word, ''customers'') \<and> \<not> keyword ''if'' (Identifier, ''entitlements'')
     \<and> js_lower ''entitlements'' = ''entitlements'' \<and> js_lower ''customers'' = ''customers''"
    by code_simp
  have "states (tokens (export_statements ! 0)) (Defines ''entitlements'')"
    unfolding export_statements_def using kw by (simp, intro states_definition(1)) simp_all
  moreover have "states (tokens (export_statements ! 1)) (Inserts ''entitlements'' 1)"
    unfolding export_statements_def using kw
    by (simp, intro states_insertion [where rows = "[[(StringToken, []), comma, (StringToken, [])]]"])
      (simp_all add: simple_def)
  moreover have "states (tokens (export_statements ! 2)) (Inserts ''entitlements'' 2)"
    unfolding export_statements_def using kw
    by (simp, intro states_insertion [where rows = "[[(StringToken, []), comma, (StringToken, [])],
          [(StringToken, []), comma, (Word, ''NULL'')]]"]) (simp_all add: simple_def)
  moreover have "states (tokens (export_statements ! 3)) (Defines ''customers'')"
    unfolding export_statements_def using kw by (simp, intro states_definition(2)) simp_all
  ultimately show ?thesis
    by (simp add: export_statements_def)
qed


fun retext :: "(string \<Rightarrow> string) \<Rightarrow> lexeme \<Rightarrow> lexeme" where
  "retext f (LText s) = LText (f s)"
| "retext f l = l"

lemma apart_retext: "apart (retext f l) (retext f m) = apart l m"
  by (cases l; cases m) simp_all

lemma lexemes_ok_retext: "lexemes_ok (map (retext f) ls) = lexemes_ok ls"
proof (induction ls rule: lexemes_ok.induct)
  case (2 l)
  then show ?case by (cases l) simp_all
next
  case (3 l m ls)
  moreover have "lexeme_ok (retext f l) = lexeme_ok l" by (cases l) simp_all
  ultimately show ?case by (simp add: apart_retext)
qed simp

lemma tokens_retext: "tokens (map (retext f) ls) = tokens ls"
proof (induction ls)
  case (Cons l ls)
  then show ?case by (cases l) simp_all
qed simp

text \<open>
  Cell values cannot forge SQL. Replacing the contents of every string literal of a text
  by anything at all, quotes, semicolons and statements included, leaves the scanner's
  result, success or error, unchanged.
\<close>

theorem inventory_ignores_text:
  assumes "lexemes_ok ls"
  shows "inventory_of_text (render_lexemes (map (retext f) ls)) = inventory_of_text (render_lexemes ls)"
  using assms by (simp add: inventory_of_lexemes lexemes_ok_retext tokens_retext)

theorem inventory_ignores_text_witness:
  "inventory_of_text (render_lexemes (map (retext (\<lambda>_. ''); INSERT INTO orders VALUES (1'')) export_lexemes))
   = inventory_of_text (render_lexemes export_lexemes)"
proof -
  have "lexemes_ok export_lexemes" by code_simp
  then show ?thesis by (rule inventory_ignores_text)
qed

lemma report_counts_keys:
  "map fst (report_counts s) = filter (\<lambda>t. counts s t \<noteq> None) snapshot_counted_tables"
proof -
  have "map fst (concat (map (\<lambda>t. case counts s t of None \<Rightarrow> [] | Some n \<Rightarrow> [(t, n)]) ts))
      = filter (\<lambda>t. counts s t \<noteq> None) ts" for ts
    by (induction ts) (auto split: option.splits)
  then show ?thesis by (simp add: report_counts_def)
qed

lemma report_counts_values: "(t, n) \<in> set (report_counts s) \<Longrightarrow> counts s t = Some n"
  by (auto simp: report_counts_def split: option.splits)

lemma snapshot_counted_tables_distinct: "distinct snapshot_counted_tables"
  by code_simp

text \<open>
  Whatever text streams by, a reported inventory is well formed: it names only counted
  tables, in the declared order and each once, and every count is a safe integer.
\<close>

theorem inventory_well_formed:
  assumes "inventory_of_text txt = Inr r"
  shows "\<exists>p. map fst (table_counts r) = filter p snapshot_counted_tables
     \<and> distinct (map fst (table_counts r))
     \<and> (\<forall>(t, n) \<in> set (table_counts r). counted t \<and> is_safe n)"
proof -
  from assms obtain t where w: "write_text tokenizer_init txt = Inr t" and f: "tokenizer_finish t = Inr r"
    by (auto simp: inventory_of_text_def rbind_Inr_iff)
  have "interp_inv (inter tokenizer_init)" by (simp add: tokenizer_init_def interp_inv_init)
  from write_text_inv [OF w this] have "interp_inv (inter t)" .
  from tokenizer_finish_inv [OF f this] obtain s where inv: "interp_inv s"
    and r: "r = \<lparr>table_counts = report_counts s\<rparr>" by blast
  have keys: "map fst (table_counts r) = filter (\<lambda>t. counts s t \<noteq> None) snapshot_counted_tables"
    by (simp add: r report_counts_keys)
  moreover have "\<forall>(t, n) \<in> set (table_counts r). counted t \<and> is_safe n"
    using inv by (auto simp: r interp_inv_def dest!: report_counts_values)
  ultimately show ?thesis
    using snapshot_counted_tables_distinct by (metis distinct_filter)
qed

theorem inventory_well_formed_witness:
  "\<exists>p. map fst [(''orders'', 1::nat)] = filter p snapshot_counted_tables
     \<and> distinct (map fst [(''orders'', 1::nat)]) \<and> counted ''orders'' \<and> is_safe 1"
proof -
  have "inventory_of_text ''CREATE TABLE orders(a);INSERT INTO orders VALUES(1)''
      = Inr \<lparr>table_counts = [(''orders'', 1)]\<rparr>" by code_simp
  from inventory_well_formed [OF this] show ?thesis by simp
qed

text \<open>
  C30. Rows that precede their table's definition are lost: \<open>recordCreatedTable\<close> resets the
  count, so a text that inserts rows into a counted table and then defines it, however it is
  spelled, is accepted with a count of zero instead of being refused.
\<close>

theorem rows_before_create_are_lost:
  assumes "lexemes_ok ls" and "dumps (tokens ls) [Inserts t k, Defines t]" and "counted t" and "is_safe k"
  shows "inventory_of_text (render_lexemes ls) = Inr \<lparr>table_counts = [(t, 0)]\<rparr>"
proof -
  let ?s = "created (inserted interp_init t k) t"
  have c: "counts ?s = [t \<mapsto> 0]"
    using assms(3) by (auto simp: created_def inserted_def interp_init_def)
  have "distinct ts \<Longrightarrow> t \<in> set ts \<Longrightarrow>
      concat (map (\<lambda>u. case counts ?s u of None \<Rightarrow> [] | Some n \<Rightarrow> [(u, n)]) ts) = [(t, 0)]" for ts
    unfolding c by (induction ts) auto
  then have "report_counts ?s = [(t, 0)]"
    using snapshot_counted_tables_distinct assms(3) by (simp add: report_counts_def counted_def)
  moreover have "inserted_tables ?s \<subseteq> created_tables ?s"
    using assms(3) by (simp add: created_def inserted_def interp_init_def)
  moreover have "possible_all interp_init [Inserts t k, Defines t]"
    using assms(3,4) by (simp add: inserted_def interp_init_def count_of_def)
  ultimately show ?thesis
    by (simp add: inventory_of_lexemes [OF assms(1)] dumps_reported [OF assms(2) idle_init] reported_def)
qed

definition early_rows :: "lexeme list list" where
  "early_rows = [[LWord ''INSERT'', sp, LWord ''INTO'', sp, LIdent ''orders'', sp, LWord ''VALUES'',
      LPunct CHR ''('', LWord ''1'', LPunct CHR '')'', LPunct CHR '','', LPunct CHR ''('', LWord ''2'', LPunct CHR '')''],
     [nl, LWord ''CREATE'', sp, LWord ''TABLE'', sp, LIdent ''orders'', sp, LPunct CHR ''('', LIdent ''id'', LPunct CHR '')'']]"

theorem rows_before_create_are_lost_witness:
  "inventory_of_text (''INSERT INTO '' @ [CHR 0x22] @ ''orders'' @ [CHR 0x22] @ '' VALUES(1),(2);'' @ [CHR 0x0A]
     @ ''CREATE TABLE '' @ [CHR 0x22] @ ''orders'' @ [CHR 0x22] @ '' ('' @ [CHR 0x22] @ ''id'' @ [CHR 0x22] @ '');'')
   = Inr \<lparr>table_counts = [(''orders'', 0)]\<rparr>"
proof -
  let ?ls = "concat (map (\<lambda>ls. ls @ [LPunct CHR '';'']) early_rows)"
  have ok: "lexemes_ok ?ls" by code_simp
  have rend: "render_lexemes ?ls = ''INSERT INTO '' @ [CHR 0x22] @ ''orders'' @ [CHR 0x22] @ '' VALUES(1),(2);'' @ [CHR 0x0A]
     @ ''CREATE TABLE '' @ [CHR 0x22] @ ''orders'' @ [CHR 0x22] @ '' ('' @ [CHR 0x22] @ ''id'' @ [CHR 0x22] @ '');''" by code_simp
  have kw: "keyword ''create'' (Word, ''CREATE'') \<and> keyword ''table'' (Word, ''TABLE'') \<and> keyword ''insert'' (Word, ''INSERT'')
     \<and> keyword ''into'' (Word, ''INTO'') \<and> keyword ''values'' (Word, ''VALUES'')
     \<and> \<not> keyword ''if'' (Identifier, ''orders'') \<and> js_lower ''orders'' = ''orders'' \<and> counted ''orders''"
    by code_simp
  then have "list_all2 states (map tokens early_rows) [Inserts ''orders'' 2, Defines ''orders'']"
    unfolding early_rows_def
    by (auto simp: simple_def intro!: states_definition(1) states_insertion [where rows = "[[(Word, ''1'')], [(Word, ''2'')]]"])
  from dumps_terminated [OF this] have "dumps (tokens ?ls) [Inserts ''orders'' 2, Defines ''orders'']"
    by (simp add: early_rows_def)
  moreover have "is_safe 2" by (simp add: is_safe_def max_safe_integer_def)
  ultimately show ?thesis
    using rows_before_create_are_lost [OF ok] kw unfolding rend by blast
qed

end
