(* ===== verification/Spec2Isabelle.thy ===== *)
theory Spec2Isabelle
  imports LCC_Prelude Snapshot_Inventory Snapshot_Correct JS_Date JS_Values JS_Bytes
    Snapshot_Stream Backup_Core Backup_Keys Backup_Answers Backup_Store Backup_Safety
    Backup_Prune Backup_Memory Backup_Service Admin_Validation Admin_Checks Admin_Query
    Policy_Stamp Plan_Projection Db_Calls Grant_Store Grant_Mutations Grant_Safety
    Grant_Interleaving Admin_Replies Plan_Preview Plan_Apply Plan_Safety Plan_History
    Plan_Convergence Order_Event Order_Store Order_Ingest Order_Contract Order_Safety
    Order_Replies Order_Effects Order_Request Order_Admission Order_Race Csv_Export Db_Triples
    Grant_Trail Lease_Answer Lease_Capacity Lease_Cleanup Lease_Commit Lease_Crypto Lease_Effect
    Lease_Enroll Lease_Issue Lease_Issued Lease_Policy Lease_Proof Lease_Rate Lease_Recovery
    Lease_Retire Lease_Retired Lease_Safety Lease_Sample Lease_Store Lease_Token Order_Trace
    Snapshot_Dump
begin

text \<open>
  A verification of the TypeScript and JavaScript services of licensecc: the license data lives in one
  D1 database, written by the administration Worker, the licensing backend and the customer portal
  through the shared package \<open>packages/cloudflare-runtime\<close>, whose pure rules are in
  \<open>packages/licensing-domain\<close>; a separate Worker exports the database to R2 every day.

  The development follows that structure. A theory models one file or one group of files of
  \<open>src/\<close>, with the source's names and control flow; a theory named \<open>_Safety\<close>, \<open>_Correct\<close>,
  \<open>_Checks\<close>, \<open>_History\<close>, \<open>_Convergence\<close>, \<open>_Replies\<close>, \<open>_Effects\<close>, \<open>_Trace\<close>,
  \<open>_Trail\<close> or \<open>_Admission\<close> proves what it promises.

  \<^bold>\<open>Language.\<close> \<open>LCC_Prelude\<close> has the result type of code that throws (\<open>Inl\<close> the
  message), loops that may throw, and the string functions the sources call; strings are lists of
  UTF-16 code units below 256. \<open>JS_Values\<close> has JavaScript values, numbers at the precision of a
  double and property access; \<open>JS_Date\<close> time stamps and ISO strings; \<open>JS_Bytes\<close> bytes, UTF-8,
  URI components and state passing for code with effects. \<open>Db_Calls\<close> has D1: statements, batches as
  transactions, and awaited calls between which other requests commit and which may be lost before
  or after they took effect. Its locale \<open>guarantee\<close> lifts a relation that every step keeps to whole
  requests under every schedule.

  \<^bold>\<open>The backup Worker\<close> (\<open>services/cloudflare-d1-backup/src\<close>). \<open>Snapshot_Inventory\<close> is the SQL scanner of
  \<open>snapshot-inventory.ts\<close>: a tokenizer and an interpreter that count the rows of the exported tables.
  \<open>Snapshot_Correct\<close> and \<open>Snapshot_Dump\<close> show that the counts are right for every text of SQL statements the
  grammar \<open>dumps\<close> describes (tables created before their rows, any column lists, types and constraints, any rows,
  other statements between), whatever the cells hold, and what happens to rows that come before their table; whether
  D1 writes its statements in that order is D1's affair; \<open>Snapshot_Stream\<close> that cutting the download into chunks makes no
  difference (locale \<open>scanner\<close>, with the text and the byte scanner as its two providers). \<open>Backup_Core\<close> and
  \<open>Backup_Store\<close> are \<open>core.ts\<close> and \<open>export-upload.ts\<close>; \<open>Backup_Keys\<close>, \<open>Backup_Answers\<close>, \<open>Backup_Safety\<close> and
  \<open>Backup_Prune\<close> show which object keys, answers and configurations are accepted, that a run stores
  the downloaded dump with its manifest, which failures leave no orphan and which one does, and that pruning ends and removes the expired backups only.
  \<open>Backup_Memory\<close> runs them on a bucket in memory. \<open>Backup_Service\<close> is \<open>http.ts\<close>, \<open>scheduled.ts\<close> and the entry
  points of \<open>index.ts\<close>.

  \<^bold>\<open>Grants\<close> (\<open>packages/cloudflare-runtime/src/d1\<close>). \<open>Grant_Store\<close> has the tables, checks and triggers of
  \<open>schema.sql\<close> the grants live under; \<open>Grant_Mutations\<close> every mutation of \<open>entitlement_mutation.mjs\<close>, each a
  read followed by one batch of a guarded write, its audit event and its replay record. \<open>Grant_Safety\<close>
  proves the relation \<open>progress\<close> of every such batch, \<open>Grant_Interleaving\<close> lifts it to all
  interleavings (\<open>mutated\<close>): revocation sequences grow with every change, revocation is final.
  \<open>Grant_Trail\<close> adds the applies of plans (\<open>administered\<close>): each grant is what its latest event recorded. \<open>Admin_Replies\<close> is the replay protocol of
  \<open>idempotency.ts\<close>: one idempotency key has one success reply.

  \<^bold>\<open>Plans.\<close> \<open>Policy_Stamp\<close> and \<open>Plan_Projection\<close> are the domain rules: what a policy stamps on a grant and
  how a license's grants are classified against its plan. \<open>Plan_Preview\<close> and \<open>Plan_Apply\<close> are the D1 half
  (\<open>d1/plan_projection.mjs\<close>): a preview is stored as a capability and applied by one batch.
  \<open>Plan_Safety\<close> shows that the batch does nothing or everything, \<open>Plan_History\<close> that a preview is
  applied at most once in every interleaving, \<open>Plan_Convergence\<close> that the result is the plan.

  \<^bold>\<open>Orders\<close> (\<open>services/cloudflare-licensing-backend/src/fulfillment\<close>). \<open>Order_Event\<close> is the validator of an order
  (\<open>order_event.mjs\<close>) and the mutation each intent asks for (\<open>order_mutation.mjs\<close>); \<open>Order_Store\<close> the tables
  and statements, \<open>Order_Ingest\<close> the exactly-once flow of \<open>order_ingest.mjs\<close> with its identity and result
  stores: establish the identity, accept the event and advance the subscription's cursor in one batch, apply it in another,
  answer from what the event row stores. \<open>Order_Request\<close> is the HTTP half: keys, signature, body, signer scopes, nonce.
  \<open>Order_Contract\<close> goes through the flow once for any relation its statements keep (locale
  \<open>order_contract\<close>, which extends \<open>guarantee\<close>); \<open>Order_Safety\<close> provides the relations behind exactly-once
  and ownership; \<open>Order_Trace\<close> reads a request's run as a trace of other requests' changes, about which nothing is assumed, and of
  its own, and shows that its own move grants forward only; \<open>Order_Admission\<close> (locale \<open>admission_contract\<close>) proves the same way that they stay in
  the signer's scope, and that a nonce is spent once. \<open>Order_Replies\<close> shows that a redelivery repeats its answer and changes nothing, \<open>Order_Effects\<close> that an accepted order
  leaves the grant its intent asserts, and where a renewal does not. \<open>Order_Race\<close> runs two deliveries against each other. Orders record a shorter
  snapshot than the administration does, and a race can leave one of their writes without an event (\<open>Order_Race\<close>), so the audit theorem of \<open>Grant_Trail\<close> speaks of
  the administration; both meet in \<open>core_steps_keep_orders\<close>: those mutations keep what the orders rely on.


  \<^bold>\<open>Device-bound leases\<close> (\<open>services/cloudflare-licensing-backend/src/device\<close>). A device proves its key, gets a place of a grant
  (a binding) and renewable leases. \<open>Lease_Store\<close> has the \<open>device_bound_\<close> tables and the conditions the statements share;
  the clock \<open>unixepoch()\<close> is part of the state, and a list of paces says how many seconds pass before each statement of a batch.
  \<open>Lease_Commit\<close> is the batch of fourteen statements of \<open>bound_store.mjs\<close>, \<open>Lease_Effect\<close> what it leaves when it succeeds,
  \<open>Lease_Retire\<close>, \<open>Lease_Recovery\<close>, \<open>Lease_Enroll\<close>, \<open>Lease_Cleanup\<close>, \<open>Lease_Rate\<close> and \<open>Lease_Issue\<close> are the files of these names,
  \<open>Lease_Policy\<close> the trial and window rules, \<open>Lease_Token\<close>, \<open>Lease_Proof\<close> and \<open>Lease_Crypto\<close> the wire formats and signatures
  (\<open>device_protocol.mjs\<close>, \<open>bound_crypto.mjs\<close>). \<open>Lease_Capacity\<close> states the invariant \<open>leases_ok\<close> (no grant over its limit, every
  lease covered by its binding's hold, every operation complete and unique) and the relation \<open>lease_progress\<close> every step keeps,
  a provider of \<open>guarantee\<close>; \<open>Db_Triples\<close> has a locale \<open>steady\<close> for what a flow has established when it answers.
  \<open>Lease_Rate\<close> also counts what one source may do in a window, over the steps that count, the purges of old counters and the requests of
  other sources. \<open>Lease_Retired\<close>, \<open>Lease_Issued\<close>, \<open>Lease_Answer\<close> go through the flows, \<open>Lease_Safety\<close> composes them: no more live devices than
  the grant allows, one answer per operation, retirements that stand. \<open>Lease_Sample\<close> is the concrete renewal of the witnesses.
  \<^bold>\<open>Administration requests\<close> (\<open>services/cloudflare-license-admin/src/worker\<close>). \<open>Admin_Validation\<close> has the body
  validators and \<open>Admin_Checks\<close> the bodies they accept: a relation \<open>spells_\<close> states, field by field in the terms of the contract,
  which record a body stands for, and the create validators return exactly that; \<open>Order_Event\<close> and \<open>Plan_Projection\<close>
  do the same for their requests. \<open>Admin_Query\<close> is \<open>query.ts\<close>: pagination, the event cursor and LIKE patterns; \<open>Csv_Export\<close> its CSV
  export over 16-bit code units, read back by an independent CSV reader.

  \<^bold>\<open>State and tables.\<close> A table is a list of records with the columns the modelled code reads or writes; a
  column that holds JSON is kept as the value it encodes; a map stands for a table only read
  by key. SQL \<open>NULL\<close> and \<open>undefined\<close> are \<open>None\<close>. An \<open>UPDATE\<close> applies its triggers before its checks; a
  failing statement takes its whole batch back. Row ids that are a function of the key are not
  rendered. Integers are unbounded where the code's validators bound them below \<open>2^53\<close>.

  \<^bold>\<open>Fuel and bounds.\<close> No definition takes fuel: every loop of the source is recursion over a list (chunks, pages
  of a listing, attempts), with the source's own bounds (three attempts to persist a preview, nine
  actions in one apply). The pruning loop, which follows cursors, is the one recursion that may
  not end; it is partial, and \<open>Backup_Prune\<close> proves that it ends on every finite listing. A
  clean-up runs ten statements of a thousand rows at most.

  \<^bold>\<open>Parameters.\<close> SHA-256, HMAC, ECDSA and RSA verification, URL parsing, \<open>JSON.parse\<close>, the platform's UTF-8 decoder, R2, the provider's export API, the Workflow
  binding and the random ids are arguments. What is assumed of them is in the statements that need
  it: a put of R2 that answers has stored the object, one that fails may have stored it or not, a listing finds what R2 stores and its cursors make progress,
  a digest does not collide on the two tokens compared, a random id was not drawn before.

  \<^bold>\<open>Not modelled.\<close> The HTTP plumbing, the React interfaces, the OpenAPI documents and the generated
  types carry no logic of the license data. The release, deployment and rehearsal scripts run other
  programs and check their output. Of the device protocol the approval of a device in the portal, the TPM
  evidence and the lists of devices are left out: the lease model starts from the attempt the approval leaves. The portal's
  sign-in and the webhook delivery are components of their own. The native client library is C++.
\<close>

end
